(* ===== verification/Prelude.thy ===== *)
theory Prelude
  imports Main "HOL-Library.Sublist"
begin

text \<open>
  Shared material of the development: the result type of fallible Rust code, the
  arithmetic of \<open>usize\<close> that the sources spell out (saturating addition), list
  operations of the Rust standard library that every component uses
  (\<open>Vec::insert\<close>, \<open>Vec::remove\<close>, \<open>Iterator::position\<close>,
  \<open>slice::split_first\<close>), folds that stop at the first error, and the two generic
  interfaces (\<open>step_invariant\<close>, \<open>fallible_stepper\<close>, \<open>transition_invariant\<close>) whose lemmas the components
  obtain by interpretation.
\<close>

section \<open>Collections of rewrite rules\<close>

named_theorems rust_simps \<open>equations of the modelled standard library\<close>
named_theorems res_splits \<open>case splits on results and options\<close>

section \<open>Results\<close>

text \<open>\<open>Result<T, E>\<close> is a sum with the error on the left.\<close>

type_synonym ('e, 'a) result = "'e + 'a"

definition rbind :: "('e, 'a) result \<Rightarrow> ('a \<Rightarrow> ('e, 'b) result) \<Rightarrow> ('e, 'b) result" where
  "rbind r f = (case r of Inl e \<Rightarrow> Inl e | Inr v \<Rightarrow> f v)"

lemma rbind_simps [simp, rust_simps]:
  "rbind (Inl e) f = Inl e"
  "rbind (Inr v) f = f v"
  by (simp_all add: rbind_def)

lemma rbind_eq_Inr_iff: "rbind r f = Inr y \<longleftrightarrow> (\<exists>x. r = Inr x \<and> f x = Inr y)"
  by (cases r) auto

lemma rbind_eq_Inl_iff: "rbind r f = Inl e \<longleftrightarrow> r = Inl e \<or> (\<exists>x. r = Inr x \<and> f x = Inl e)"
  by (cases r) auto

declare sum.splits [res_splits] option.splits [res_splits] prod.splits [res_splits]
declare if_splits [res_splits]

section \<open>Machine sizes\<close>

text \<open>
  A \<open>usize\<close> is a natural number below \<open>2 ^ 64\<close>. Sizes of values that live in memory never
  reach the bound, so only the operations the sources write as saturating mention it.
\<close>

definition usize_max :: nat where
  "usize_max = 2 ^ 64 - 1"

definition saturating_add :: "nat \<Rightarrow> nat \<Rightarrow> nat" where
  "saturating_add a b = min usize_max (a + b)"

definition saturating_mul :: "nat \<Rightarrow> nat \<Rightarrow> nat" where
  "saturating_mul a b = min usize_max (a * b)"

lemma saturating_add_le: "saturating_add a b \<le> a + b"
  by (simp add: saturating_add_def)

lemma saturating_add_bound: "saturating_add a b \<le> usize_max"
  by (simp add: saturating_add_def)

lemma saturating_add_exact: "a + b \<le> usize_max \<Longrightarrow> saturating_add a b = a + b"
  by (simp add: saturating_add_def)

lemma saturating_add_min:
  "saturating_add (min usize_max a) b = min usize_max (a + b)"
  by (auto simp: saturating_add_def)

section \<open>Lists as vectors\<close>

text \<open>\<open>Vec::insert(i, x)\<close> panics beyond the length: \<open>None\<close>.\<close>

definition vec_insert :: "nat \<Rightarrow> 'a \<Rightarrow> 'a list \<Rightarrow> 'a list option" where
  "vec_insert i x xs = (if i \<le> length xs then Some (take i xs @ x # drop i xs) else None)"

text \<open>\<open>Vec::remove(i)\<close> for an index in range.\<close>

definition remove_at :: "nat \<Rightarrow> 'a list \<Rightarrow> 'a list" where
  "remove_at i xs = take i xs @ drop (Suc i) xs"

lemma length_remove_at [simp]: "i < length xs \<Longrightarrow> length (remove_at i xs) = length xs - 1"
  by (auto simp: remove_at_def)

text \<open>\<open>Iterator::max_by_key\<close>: of several largest elements the last one.\<close>

definition max_by_key :: "('a \<Rightarrow> 'k :: linorder) \<Rightarrow> 'a list \<Rightarrow> 'a option" where
  "max_by_key f xs =
     (case xs of [] \<Rightarrow> None | x # xs \<Rightarrow> Some (foldl (\<lambda>m y. if f m \<le> f y then y else m) x xs))"

lemma foldl_max_by_key:
  fixes f :: "'a \<Rightarrow> 'k :: linorder"
  shows "foldl (\<lambda>m y. if f m \<le> f y then y else m) x xs \<in> set (x # xs) \<and>
     (\<forall>y \<in> set (x # xs). f y \<le> f (foldl (\<lambda>m y. if f m \<le> f y then y else m) x xs))"
proof (induction xs rule: rev_induct)
  case (snoc y xs)
  then show ?case by (auto intro: order_trans)
qed simp

lemma max_by_key_None_iff [simp]: "max_by_key f xs = None \<longleftrightarrow> xs = []"
  by (simp add: max_by_key_def split: list.split)

lemma max_by_key_SomeD: "max_by_key f xs = Some m \<Longrightarrow> m \<in> set xs \<and> (\<forall>y \<in> set xs. f y \<le> f m)"
  using foldl_max_by_key [of f "hd xs" "tl xs"] by (cases xs) (auto simp: max_by_key_def)

text \<open>\<open>Iterator::position\<close>: the index of the first element that satisfies the predicate.\<close>

fun position :: "('a \<Rightarrow> bool) \<Rightarrow> 'a list \<Rightarrow> nat option" where
  "position P [] = None"
| "position P (x # xs) = (if P x then Some 0 else map_option Suc (position P xs))"

lemma position_None_iff: "position P xs = None \<longleftrightarrow> (\<forall>x \<in> set xs. \<not> P x)"
  by (induction xs) auto

lemma position_SomeD:
  "position P xs = Some i \<Longrightarrow> i < length xs \<and> P (xs ! i) \<and> (\<forall>j < i. \<not> P (xs ! j))"
proof (induction xs arbitrary: i)
  case Nil
  then show ?case by simp
next
  case (Cons x xs)
  show ?case
  proof (cases "P x")
    case True
    with Cons.prems show ?thesis by simp
  next
    case False
    with Cons.prems obtain k where k: "position P xs = Some k" "i = Suc k" by auto
    have IH: "k < length xs \<and> P (xs ! k) \<and> (\<forall>j < k. \<not> P (xs ! j))"
      using Cons.IH k(1) by blast
    moreover have "\<not> P ((x # xs) ! j)" if "j < Suc k" for j
      using that IH False by (cases j) auto
    ultimately show ?thesis using k(2) by simp
  qed
qed

lemma set_map_filter_iff: "x \<in> set (List.map_filter f xs) \<longleftrightarrow> (\<exists>y \<in> set xs. f y = Some x)"
  by (induction xs) (auto split: option.split)

lemma Bex_enumerate: "(\<exists>y \<in> set (List.enumerate 0 xs). P y) \<longleftrightarrow> (\<exists>i < length xs. P (i, xs ! i))"
  by (force simp: in_set_enumerate_eq)

text \<open>The last element, \<open>None\<close> for an empty slice (\<open>slice::last\<close>).\<close>

fun last_opt :: "'a list \<Rightarrow> 'a option" where
  "last_opt [] = None"
| "last_opt [x] = Some x"
| "last_opt (x # y # ys) = last_opt (y # ys)"

lemma last_opt_conv: "last_opt xs = (if xs = [] then None else Some (last xs))"
  by (induction xs rule: last_opt.induct) auto

lemma last_opt_snoc [simp]: "last_opt (xs @ [x]) = Some x"
  by (simp add: last_opt_conv)

text \<open>Update of the last element in place (\<open>slice::last_mut\<close>); an empty slice is unchanged.\<close>

fun update_last :: "('a \<Rightarrow> 'a) \<Rightarrow> 'a list \<Rightarrow> 'a list" where
  "update_last f [] = []"
| "update_last f [x] = [f x]"
| "update_last f (x # y # ys) = x # update_last f (y # ys)"

lemma length_update_last [simp]: "length (update_last f xs) = length xs"
  by (induction f xs rule: update_last.induct) auto

lemma update_last_snoc [simp]: "update_last f (xs @ [x]) = xs @ [f x]"
proof (induction xs)
  case Nil
  then show ?case by simp
next
  case (Cons a xs)
  then show ?case by (cases xs) auto
qed

lemma update_last_conv: "xs \<noteq> [] \<Longrightarrow> update_last f xs = butlast xs @ [f (last xs)]"
  by (metis append_butlast_last_id update_last_snoc)

section \<open>Folds that stop at the first error\<close>

text \<open>
  A loop over the elements of a slice whose body may return early with an error and has
  mutated the state until then: the pair of the state reached and the error, if any.
\<close>

fun fold_until :: "('s \<Rightarrow> 'c \<Rightarrow> 's \<times> 'e option) \<Rightarrow> 's \<Rightarrow> 'c list \<Rightarrow> 's \<times> 'e option" where
  "fold_until f s [] = (s, None)"
| "fold_until f s (c # cs) =
     (case f s c of
        (s', None) \<Rightarrow> fold_until f s' cs
      | (s', Some e) \<Rightarrow> (s', Some e))"

lemma fold_until_append:
  "fold_until f s (xs @ ys) =
     (case fold_until f s xs of
        (s', None) \<Rightarrow> fold_until f s' ys
      | (s', Some e) \<Rightarrow> (s', Some e))"
  by (induction xs arbitrary: s) (auto split: prod.splits option.splits)

section \<open>Generic interfaces\<close>

text \<open>
  A component whose every operation keeps an invariant keeps it along any sequence of
  operations.
\<close>

locale step_invariant =
  fixes step :: "'s \<Rightarrow> 'e \<Rightarrow> 's"
    and inv :: "'s \<Rightarrow> bool"
  assumes inv_step: "inv s \<Longrightarrow> inv (step s e)"
begin

lemma inv_run: "inv s \<Longrightarrow> inv (foldl step s es)"
  by (induction es arbitrary: s) (auto intro: inv_step)

end

text \<open>
  A component fed element by element, whose step may fail: feeding a sequence in pieces is
  feeding it at once, and an invariant of one step is one of every feed, failed or not.
\<close>

locale fallible_stepper =
  fixes fstep :: "'s \<Rightarrow> 'c \<Rightarrow> 's \<times> 'e option"
    and finv :: "'s \<Rightarrow> bool"
  assumes finv_step: "finv s \<Longrightarrow> finv (fst (fstep s c))"
begin

definition feed :: "'s \<Rightarrow> 'c list \<Rightarrow> 's \<times> 'e option" where
  "feed = fold_until fstep"

definition feed_all :: "'s \<Rightarrow> 'c list list \<Rightarrow> 's \<times> 'e option" where
  "feed_all = fold_until feed"

lemma finv_feed: "finv s \<Longrightarrow> finv (fst (feed s cs))"
proof (induction cs arbitrary: s)
  case Nil
  then show ?case by (simp add: feed_def)
next
  case (Cons c cs)
  have "finv (fst (fstep s c))" using Cons.prems by (rule finv_step)
  then show ?case
    using Cons.IH by (auto simp: feed_def split: prod.splits option.splits)
qed

lemma feed_all_concat: "feed_all s css = feed s (concat css)"
  by (induction css arbitrary: s)
     (auto simp: feed_all_def feed_def fold_until_append split: prod.splits option.splits)

lemma feed_all_chunking: "concat css = concat dss \<Longrightarrow> feed_all s css = feed_all s dss"
  by (simp add: feed_all_concat)

end

text \<open>
  A component that moves by a step relation: what every step keeps holds in every state that is reached.
\<close>

locale transition_invariant =
  fixes move :: "'s \<Rightarrow> 's \<Rightarrow> bool"
    and kept :: "'s \<Rightarrow> bool"
  assumes kept_move: "move s t \<Longrightarrow> kept s \<Longrightarrow> kept t"
begin

lemma kept_moves: "move\<^sup>*\<^sup>* s t \<Longrightarrow> kept s \<Longrightarrow> kept t"
  by (induction rule: rtranclp_induct) (auto intro: kept_move)

end

text \<open>
  If moreover each step lowers a rank and a state that is not a goal has a step, every run is finite and ends in a goal.
\<close>

locale ranked_transitions = transition_invariant +
  fixes rank :: "'a \<Rightarrow> nat"
    and goal :: "'a \<Rightarrow> bool"
  assumes rank_move: "move s t \<Longrightarrow> kept s \<Longrightarrow> rank t < rank s"
    and progress: "kept s \<Longrightarrow> \<not> goal s \<Longrightarrow> \<exists>t. move s t"
begin

lemma no_infinite_run: "kept s \<Longrightarrow> \<nexists>run. run 0 = s \<and> (\<forall>n. move (run n) (run (Suc n)))"
proof
  assume s: "kept s" and "\<exists>run. run 0 = s \<and> (\<forall>n. move (run n) (run (Suc n)))"
  then obtain run where run: "run 0 = s" "\<And>n. move (run n) (run (Suc n))" by blast
  have "kept (run n) \<and> rank (run n) + n \<le> rank s" for n
  proof (induction n)
    case (Suc n)
    with rank_move [OF run(2), of n] kept_move [OF run(2), of n] show ?case by simp
  qed (simp add: run(1) s)
  from this [of "Suc (rank s)"] show False by simp
qed

lemma stuck_at_goal: "kept s \<Longrightarrow> move\<^sup>*\<^sup>* s t \<Longrightarrow> \<nexists>u. move t u \<Longrightarrow> goal t"
  using kept_moves progress by blast

lemma reaches_goal: "kept s \<Longrightarrow> \<exists>t. move\<^sup>*\<^sup>* s t \<and> goal t"
proof (induction "rank s" arbitrary: s rule: less_induct)
  case less
  show ?case
  proof (cases "goal s")
    case False
    with progress less.prems obtain t where t: "move s t" by blast
    with less rank_move kept_move obtain u where "move\<^sup>*\<^sup>* t u" "goal u" by blast
    with t show ?thesis by (blast intro: converse_rtranclp_into_rtranclp)
  qed blast
qed

end

end
