(* ===== verification/Rust_Str.thy ===== *)
theory Rust_Str
  imports Prelude
begin

text \<open>
  Rust strings. A \<open>char\<close> is a Unicode scalar value, modelled by its code point; a
  \<open>str\<close> is the list of its \<open>chars()\<close>. The UTF-8 length of a string, which
  \<open>str::len\<close> returns and byte budgets count, is a function of the code points. The
  operations are those of \<open>core::str\<close> the components call: trimming with the
  \<open>White_Space\<close> property, \<open>strip_prefix\<close>, \<open>strip_suffix\<close>, \<open>split\<close>,
  \<open>lines\<close> and \<open>join\<close>.
\<close>

type_synonym rchar = nat
type_synonym rstr = "rchar list"

text \<open>A literal of the source.\<close>

definition lit :: "string \<Rightarrow> rstr" where
  "lit s = map of_char s"

lemma lit_simps [simp]:
  "lit [] = []"
  "lit (c # cs) = of_char c # lit cs"
  by (simp_all add: lit_def)

lemma length_lit [simp]: "length (lit s) = length s"
  by (simp add: lit_def)

abbreviation newline :: rchar where
  "newline \<equiv> 10"

abbreviation carriage_return :: rchar where
  "carriage_return \<equiv> 13"

section \<open>Character classes\<close>

text \<open>\<open>char::is_whitespace\<close>: the \<open>White_Space\<close> property.\<close>

definition is_whitespace :: "rchar \<Rightarrow> bool" where
  "is_whitespace c \<longleftrightarrow>
     9 \<le> c \<and> c \<le> 13 \<or> c = 32 \<or> c = 133 \<or> c = 160 \<or> c = 5760 \<or>
     8192 \<le> c \<and> c \<le> 8202 \<or> c = 8232 \<or> c = 8233 \<or> c = 8239 \<or> c = 8287 \<or> c = 12288"

lemma is_whitespace_code [code]:
  "is_whitespace c \<longleftrightarrow>
     (if c < 128 then 9 \<le> c \<and> c \<le> 13 \<or> c = 32
      else c = 133 \<or> c = 160 \<or> c = 5760 \<or> 8192 \<le> c \<and> c \<le> 8202 \<or> c = 8232 \<or> c = 8233 \<or> c = 8239 \<or> c = 8287 \<or> c = 12288)"
  by (auto simp: is_whitespace_def)

definition is_ascii_digit :: "rchar \<Rightarrow> bool" where
  "is_ascii_digit c \<longleftrightarrow> 48 \<le> c \<and> c \<le> 57"

definition to_ascii_lowercase_char :: "rchar \<Rightarrow> rchar" where
  "to_ascii_lowercase_char c = (if 65 \<le> c \<and> c \<le> 90 then c + 32 else c)"

definition to_ascii_lowercase :: "rstr \<Rightarrow> rstr" where
  "to_ascii_lowercase s = map to_ascii_lowercase_char s"

definition eq_ignore_ascii_case :: "rstr \<Rightarrow> rstr \<Rightarrow> bool" where
  "eq_ignore_ascii_case a b \<longleftrightarrow> to_ascii_lowercase a = to_ascii_lowercase b"

section \<open>UTF-8 lengths\<close>

definition len_utf8 :: "rchar \<Rightarrow> nat" where
  "len_utf8 c = (if c < 128 then 1 else if c < 2048 then 2 else if c < 65536 then 3 else 4)"

definition byte_len :: "rstr \<Rightarrow> nat" where
  "byte_len s = sum_list (map len_utf8 s)"

lemma len_utf8_pos [simp]: "0 < len_utf8 c"
  by (simp add: len_utf8_def)

lemma len_utf8_le: "len_utf8 c \<le> 4"
  by (simp add: len_utf8_def)

lemma byte_len_simps [simp]:
  "byte_len [] = 0"
  "byte_len (c # s) = len_utf8 c + byte_len s"
  "byte_len (s @ t) = byte_len s + byte_len t"
  by (simp_all add: byte_len_def)

lemma byte_len_eq_0_iff [simp]: "byte_len s = 0 \<longleftrightarrow> s = []"
  by (cases s) (auto simp: len_utf8_def)

section \<open>Trimming\<close>

definition trim_start :: "rstr \<Rightarrow> rstr" where
  "trim_start s = dropWhile is_whitespace s"

definition trim_end :: "rstr \<Rightarrow> rstr" where
  "trim_end s = rev (dropWhile is_whitespace (rev s))"

definition trim :: "rstr \<Rightarrow> rstr" where
  "trim s = trim_end (trim_start s)"

lemma trim_Nil [simp]: "trim [] = []" "trim_end [] = []" "trim_start [] = []"
  by (simp_all add: trim_def trim_start_def trim_end_def)

lemma trim_end_snoc:
  "trim_end (s @ [c]) = (if is_whitespace c then trim_end s else s @ [c])"
  by (simp add: trim_end_def)

lemma trim_end_id: "s \<noteq> [] \<Longrightarrow> \<not> is_whitespace (last s) \<Longrightarrow> trim_end s = s"
  by (cases s rule: rev_cases) (auto simp: trim_end_def)

lemma trim_id:
  "s \<noteq> [] \<Longrightarrow> \<not> is_whitespace (hd s) \<Longrightarrow> \<not> is_whitespace (last s) \<Longrightarrow> trim s = s"
  by (cases s) (simp_all add: trim_def trim_start_def trim_end_id)

lemma trim_end_idem [simp]: "trim_end (trim_end s) = trim_end s"
  by (simp add: trim_end_def)

lemma prefix_trim_end: "\<exists>w. s = trim_end s @ w \<and> (\<forall>c \<in> set w. is_whitespace c)"
proof -
  have "s = trim_end s @ rev (takeWhile is_whitespace (rev s))"
    by (metis rev_append rev_rev_ident takeWhile_dropWhile_id trim_end_def)
  moreover have "\<forall>c \<in> set (rev (takeWhile is_whitespace (rev s))). is_whitespace c"
    by (auto dest: set_takeWhileD)
  ultimately show ?thesis by blast
qed

text \<open>Trimming both ends commutes with trimming one end first.\<close>

lemma trim_trim_end [simp]: "trim (trim_end s) = trim s"
proof -
  obtain w where w: "s = trim_end s @ w" "\<forall>c \<in> set w. is_whitespace c"
    using prefix_trim_end by blast
  have drop_w: "trim_end (t @ w) = trim_end t" for t
    unfolding trim_end_def rev_append using w(2) by (subst dropWhile_append2) auto
  show ?thesis
  proof (cases "\<exists>c \<in> set (trim_end s). \<not> is_whitespace c")
    case True
    then obtain c where c: "c \<in> set (trim_end s)" "\<not> is_whitespace c" by blast
    have "dropWhile is_whitespace s = dropWhile is_whitespace (trim_end s) @ w"
      using dropWhile_append1 [of c "trim_end s" is_whitespace w] c w(1) by simp
    then show ?thesis by (simp add: trim_def trim_start_def drop_w)
  next
    case False
    then have "\<forall>c \<in> set s. is_whitespace c" using w by (metis UnE set_append)
    then have "dropWhile is_whitespace s = []" "dropWhile is_whitespace (trim_end s) = []"
      using False by simp_all
    then show ?thesis by (simp only: trim_def trim_start_def)
  qed
qed

lemma trim_eq_if_trim_end_eq: "trim_end s = trim_end t \<Longrightarrow> trim s = trim t"
  by (metis trim_trim_end)

text \<open>\<open>str::trim_end_matches\<close> for a character.\<close>

definition trim_end_matches :: "rchar \<Rightarrow> rstr \<Rightarrow> rstr" where
  "trim_end_matches c s = rev (dropWhile (\<lambda>x. x = c) (rev s))"

lemma trim_end_matches_id: "s = [] \<or> last s \<noteq> c \<Longrightarrow> trim_end_matches c s = s"
  by (cases s rule: rev_cases) (auto simp: trim_end_matches_def)

lemma trim_end_matches_last: "trim_end_matches c s = [] \<or> last (trim_end_matches c s) \<noteq> c"
  by (induction s rule: rev_induct) (auto simp: trim_end_matches_def)

lemma trim_end_matches_idem [simp]: "trim_end_matches c (trim_end_matches c s) = trim_end_matches c s"
  by (rule trim_end_matches_id, rule trim_end_matches_last)

section \<open>Prefixes and suffixes\<close>

fun strip_prefix :: "'a list \<Rightarrow> 'a list \<Rightarrow> 'a list option" where
  "strip_prefix [] s = Some s"
| "strip_prefix (p # ps) [] = None"
| "strip_prefix (p # ps) (c # cs) = (if p = c then strip_prefix ps cs else None)"

definition starts_with :: "'a list \<Rightarrow> 'a list \<Rightarrow> bool" where
  "starts_with s p \<longleftrightarrow> strip_prefix p s \<noteq> None"

definition strip_suffix :: "'a list \<Rightarrow> 'a list \<Rightarrow> 'a list option" where
  "strip_suffix p s = map_option rev (strip_prefix (rev p) (rev s))"

definition ends_with :: "'a list \<Rightarrow> 'a list \<Rightarrow> bool" where
  "ends_with s p \<longleftrightarrow> strip_suffix p s \<noteq> None"

lemma strip_prefix_Some_iff: "strip_prefix p s = Some r \<longleftrightarrow> s = p @ r"
  by (induction p s rule: strip_prefix.induct) auto

lemma strip_prefix_append [simp]: "strip_prefix p (p @ r) = Some r"
  by (simp add: strip_prefix_Some_iff)

lemma starts_with_iff: "starts_with s p \<longleftrightarrow> (\<exists>r. s = p @ r)"
  by (auto simp: starts_with_def strip_prefix_Some_iff)

lemma strip_prefix_None_iff: "strip_prefix p s = None \<longleftrightarrow> \<not> starts_with s p"
  by (simp add: starts_with_def)

lemma strip_suffix_Some_iff: "strip_suffix p s = Some r \<longleftrightarrow> s = r @ p"
proof -
  have "strip_suffix p s = Some r \<longleftrightarrow> strip_prefix (rev p) (rev s) = Some (rev r)"
    by (auto simp: strip_suffix_def)
  also have "\<dots> \<longleftrightarrow> rev s = rev (r @ p)" by (simp add: strip_prefix_Some_iff)
  finally show ?thesis by (simp only: rev_is_rev_conv)
qed

section \<open>Splitting and joining\<close>

text \<open>\<open>str::split(c)\<close>: always at least one piece.\<close>

fun split_on :: "'a \<Rightarrow> 'a list \<Rightarrow> 'a list list" where
  "split_on c [] = [[]]"
| "split_on c (x # xs) =
     (if x = c then [] # split_on c xs
      else (case split_on c xs of [] \<Rightarrow> [[x]] | p # ps \<Rightarrow> (x # p) # ps))"

text \<open>\<open>[String]::join(sep)\<close>.\<close>

fun join :: "'a list \<Rightarrow> 'a list list \<Rightarrow> 'a list" where
  "join sep [] = []"
| "join sep [p] = p"
| "join sep (p # q # ps) = p @ sep @ join sep (q # ps)"

lemma split_on_neq_Nil [simp]: "split_on c xs \<noteq> []"
  by (induction xs) (auto split: list.splits)

lemma join_split_on: "join [c] (split_on c xs) = xs"
proof (induction xs)
  case Nil
  then show ?case by simp
next
  case (Cons x xs)
  obtain p ps where ps: "split_on c xs = p # ps"
    by (cases "split_on c xs") auto
  with Cons.IH have "join [c] (p # ps) = xs" by simp
  with ps show ?case by (cases ps) auto
qed

lemma join_snoc: "join [c] (ls @ [l]) = concat (map (\<lambda>x. x @ [c]) ls) @ l"
proof (induction ls)
  case (Cons x ls)
  then show ?case by (cases ls) simp_all
qed simp

lemma split_on_no_sep: "c \<notin> set xs \<Longrightarrow> split_on c xs = [xs]"
  by (induction xs) auto

lemma split_on_append_sep: "c \<notin> set p \<Longrightarrow> split_on c (p @ c # xs) = p # split_on c xs"
  by (induction p) auto

lemma split_on_append: "split_on c (xs @ c # ys) = split_on c xs @ split_on c ys"
  by (induction xs) (auto split: list.split)

lemma split_on_join:
  "ps \<noteq> [] \<Longrightarrow> (\<forall>p \<in> set ps. c \<notin> set p) \<Longrightarrow> split_on c (join [c] ps) = ps"
  by (induction "[c]" ps rule: join.induct) (auto simp: split_on_no_sep split_on_append_sep)

lemma split_on_pieces: "p \<in> set (split_on c xs) \<Longrightarrow> c \<notin> set p"
proof (induction xs arbitrary: p)
  case Nil
  then show ?case by simp
next
  case (Cons x xs)
  obtain q qs where qs: "split_on c xs = q # qs"
    by (cases "split_on c xs") auto
  with Cons show ?case by (auto split: if_splits)
qed

text \<open>
  \<open>str::lines\<close>: the pieces between line feeds, each piece that a line feed ends losing one
  carriage return before it; an empty piece after the last line feed is not a line.
\<close>

definition strip_cr :: "rstr \<Rightarrow> rstr" where
  "strip_cr l = (case strip_suffix [carriage_return] l of None \<Rightarrow> l | Some r \<Rightarrow> r)"

definition str_lines :: "rstr \<Rightarrow> rstr list" where
  "str_lines s =
     (let ps = split_on newline s
      in map strip_cr (butlast ps) @ (if last ps = [] then [] else [last ps]))"

definition str_contains :: "'a list \<Rightarrow> 'a list \<Rightarrow> bool" where
  "str_contains s p \<longleftrightarrow> (\<exists>t \<in> set (suffixes s). starts_with t p)"

lemma str_contains_iff: "str_contains s p \<longleftrightarrow> sublist p s"
proof
  assume "str_contains s p"
  then show "sublist p s"
    by (force simp: str_contains_def starts_with_iff suffix_def sublist_def)
next
  assume "sublist p s"
  then obtain a b where s: "s = a @ p @ b" by (auto simp: sublist_def)
  then have "p @ b \<in> set (suffixes s)" by (auto simp: suffix_def)
  then show "str_contains s p" by (auto simp: str_contains_def starts_with_iff)
qed

section \<open>Searching\<close>

text \<open>\<open>str::find\<close>.\<close>

fun str_find :: "'a list \<Rightarrow> 'a list \<Rightarrow> nat option" where
  "str_find [] p = (if p = [] then Some 0 else None)"
| "str_find (x # xs) p = (if starts_with (x # xs) p then Some 0 else map_option Suc (str_find xs p))"

lemma str_find_Some_iff:
  "str_find s p = Some i \<longleftrightarrow> i \<le> length s \<and> starts_with (drop i s) p \<and> (\<forall>j < i. \<not> starts_with (drop j s) p)"
proof (induction s arbitrary: i)
  case Nil
  then show ?case by (auto simp: starts_with_iff)
next
  case (Cons x xs)
  then show ?case by (cases i) (auto simp: less_Suc_eq_0_disj all_conj_distrib)
qed

lemma str_find_None_iff: "str_find s p = None \<longleftrightarrow> (\<forall>j \<le> length s. \<not> starts_with (drop j s) p)"
proof (induction s)
  case (Cons x xs)
  then show ?case by (simp add: less_Suc_eq_le [symmetric] All_less_Suc2 del: less_Suc_eq_le)
qed (auto simp: starts_with_iff)

text \<open>\<open>str::split_once\<close> for a string.\<close>

definition str_split_once :: "rstr \<Rightarrow> rstr \<Rightarrow> (rstr \<times> rstr) option" where
  "str_split_once d s = map_option (\<lambda>i. (take i s, drop (i + length d) s)) (str_find s d)"

section \<open>Splitting once\<close>

text \<open>\<open>str::split_once\<close> and \<open>str::rsplit_once\<close> for a character.\<close>

fun split_once :: "rchar \<Rightarrow> rstr \<Rightarrow> (rstr \<times> rstr) option" where
  "split_once c [] = None"
| "split_once c (x # xs) = (if x = c then Some ([], xs) else map_option (\<lambda>(a, b). (x # a, b)) (split_once c xs))"

definition rsplit_once :: "rchar \<Rightarrow> rstr \<Rightarrow> (rstr \<times> rstr) option" where
  "rsplit_once c s = map_option (\<lambda>(a, b). (rev b, rev a)) (split_once c (rev s))"

abbreviation colon :: rchar where "colon \<equiv> 58"

section \<open>Decimal numbers\<close>

fun show_nat :: "nat \<Rightarrow> rstr" where
  "show_nat n = (if n < 10 then [48 + n] else show_nat (n div 10) @ [48 + n mod 10])"

declare show_nat.simps [simp del]

end
