(* ===== verification/Absolute_Path.thy ===== *)
theory Absolute_Path
  imports Rust_Str
begin

text \<open>
  Absolute paths (\<open>utils/absolute-path\<close>): the expansion of a leading \<open>~\<close>, the join with a
  base directory and the lexical normalisation that removes \<open>.\<close> and \<open>..\<close>, as the crate does
  them on Unix. A path is the text that the program handles; \<open>components\<close> is the reading of
  it that \<open>std::path\<close> offers. The home directory, which the operating system supplies, is a
  parameter.
\<close>

section \<open>Components\<close>

abbreviation slash :: rchar where "slash \<equiv> 47"
abbreviation dot :: rchar where "dot \<equiv> 46"
abbreviation tilde :: rchar where "tilde \<equiv> 126"

datatype path_component = RootDir | CurDir | ParentDir | Normal rstr

definition is_absolute :: "rstr \<Rightarrow> bool" where
  "is_absolute p \<longleftrightarrow> starts_with p [slash]"

text \<open>
  A segment between separators: empty segments and \<open>.\<close> are skipped; a leading \<open>.\<close> of a
  relative path is kept.
\<close>

definition segment_component :: "rstr \<Rightarrow> path_component option" where
  "segment_component s =
     (if s = [] \<or> s = [dot] then None else if s = [dot, dot] then Some ParentDir else Some (Normal s))"

definition segment_components :: "rstr list \<Rightarrow> path_component list" where
  "segment_components = List.map_filter segment_component"

definition components :: "rstr \<Rightarrow> path_component list" where
  "components p =
     (let segs = split_on slash p
      in (if is_absolute p then [RootDir] else if hd segs = [dot] then [CurDir] else []) @ segment_components segs)"

fun component_str :: "path_component \<Rightarrow> rstr" where
  "component_str RootDir = [slash]"
| "component_str CurDir = [dot]"
| "component_str ParentDir = [dot, dot]"
| "component_str (Normal s) = s"

text \<open>\<open>PathBuf::push\<close> and \<open>Path::join\<close>: an absolute argument replaces the path.\<close>

definition path_join :: "rstr \<Rightarrow> rstr \<Rightarrow> rstr" where
  "path_join base p =
     (if is_absolute p then p
      else if base = [] \<or> ends_with base [slash] then base @ p
      else base @ [slash] @ p)"

text \<open>
  The text of a path assembled by pushing components, and \<open>PathBuf::pop\<close> on its components:
  the root cannot be popped.
\<close>

definition render :: "path_component list \<Rightarrow> rstr" where
  "render cs = foldl (\<lambda>p c. path_join p (component_str c)) [] cs"

definition pop_component :: "path_component list \<Rightarrow> path_component list" where
  "pop_component cs = (if cs = [] \<or> last cs = RootDir then cs else butlast cs)"

section \<open>Normalisation\<close>

fun normalize_step :: "path_component list \<Rightarrow> path_component \<Rightarrow> path_component list" where
  "normalize_step acc CurDir = acc"
| "normalize_step acc ParentDir = pop_component acc"
| "normalize_step acc RootDir = [RootDir]"
| "normalize_step acc (Normal s) = acc @ [Normal s]"

definition normalize_components :: "path_component list \<Rightarrow> path_component list" where
  "normalize_components cs = foldl normalize_step [] cs"

definition normalize_path :: "rstr \<Rightarrow> rstr" where
  "normalize_path p =
     (let normalized = render (normalize_components (components p))
      in if normalized = [] then [dot] else normalized)"

definition path_with_base :: "rstr \<Rightarrow> rstr \<Rightarrow> rstr" where
  "path_with_base path base_path = (if is_absolute path then path else path_join base_path path)"

definition absolutize_from :: "rstr \<Rightarrow> rstr \<Rightarrow> rstr" where
  "absolutize_from path base_path = normalize_path (path_with_base path base_path)"

section \<open>The public operations\<close>

definition maybe_expand_home_directory :: "rstr option \<Rightarrow> rstr \<Rightarrow> rstr" where
  "maybe_expand_home_directory home path =
     (case (home, strip_prefix [tilde] path) of
        (Some h, Some rest) \<Rightarrow>
          if rest = [] then h
          else (case strip_prefix [slash] rest of
                  Some rest' \<Rightarrow> path_join h (dropWhile (\<lambda>c. c = slash) rest')
                | None \<Rightarrow> path)
      | _ \<Rightarrow> path)"

definition resolve_path_against_base :: "rstr option \<Rightarrow> rstr \<Rightarrow> rstr \<Rightarrow> rstr" where
  "resolve_path_against_base home path base_path =
     absolutize_from (maybe_expand_home_directory home path) base_path"

definition abs_join :: "rstr option \<Rightarrow> rstr \<Rightarrow> rstr \<Rightarrow> rstr" where
  "abs_join home self path = resolve_path_against_base home path self"

definition from_absolute_path_checked :: "rstr option \<Rightarrow> rstr \<Rightarrow> (rstr, rstr) result" where
  "from_absolute_path_checked home path =
     (let expanded = maybe_expand_home_directory home path
      in if \<not> is_absolute expanded then Inl (lit ''path is not absolute: '' @ path)
         else Inr (absolutize_from expanded [slash]))"

text \<open>What the process tells about itself: home and current directory.\<close>

record process_env =
  env_home :: "rstr option"
  env_current_dir :: "rstr option"

text \<open>
  \<open>AbsolutePathBuf::from_absolute_path\<close>, which \<open>try_from\<close> calls: a relative path is resolved
  against the current directory of the process, a parameter that is \<open>None\<close> when the
  directory cannot be determined.
\<close>

definition from_absolute_path :: "rstr option \<Rightarrow> rstr option \<Rightarrow> rstr \<Rightarrow> rstr option" where
  "from_absolute_path home current_dir path =
     (let expanded = maybe_expand_home_directory home path
      in if is_absolute expanded then Some (normalize_path expanded)
         else map_option (absolutize_from expanded) current_dir)"

definition path_parent :: "rstr \<Rightarrow> rstr option" where
  "path_parent p =
     (let cs = components p
      in if cs = [] \<or> last cs = RootDir then None else Some (render (butlast cs)))"

text \<open>\<open>Path::file_name\<close>: the last component when it is a name.\<close>

definition file_name :: "rstr \<Rightarrow> rstr option" where
  "file_name p = (case last_opt (components p) of Some (Normal s) \<Rightarrow> Some s | _ \<Rightarrow> None)"

text \<open>
  \<open>Path::file_stem\<close>: the last component without its extension; a name whose only dot is the
  first character has none.
\<close>

definition stem_of :: "rstr \<Rightarrow> rstr" where
  "stem_of s =
     (let parts = split_on dot s; front = join [dot] (butlast parts)
      in if front = [] then s else front)"

definition file_stem :: "rstr \<Rightarrow> rstr option" where
  "file_stem p = map_option stem_of (file_name p)"

section \<open>Normal form\<close>

text \<open>The components of a normal absolute path: the root, then proper names.\<close>

definition proper_name :: "rstr \<Rightarrow> bool" where
  "proper_name s \<longleftrightarrow> s \<noteq> [] \<and> s \<noteq> [dot] \<and> s \<noteq> [dot, dot] \<and> slash \<notin> set s"

definition names_path :: "rstr list \<Rightarrow> rstr" where
  "names_path ns = (if ns = [] then [slash] else concat (map (\<lambda>n. slash # n) ns))"

definition normal_absolute :: "rstr \<Rightarrow> bool" where
  "normal_absolute p \<longleftrightarrow> (\<exists>ns. (\<forall>n \<in> set ns. proper_name n) \<and> p = names_path ns)"

fun proper_component :: "path_component \<Rightarrow> bool" where
  "proper_component (Normal s) = proper_name s"
| "proper_component _ = False"

lemma segment_component_name:
  "slash \<notin> set s \<Longrightarrow> segment_component s = Some c \<Longrightarrow> c = ParentDir \<or> proper_component c"
  by (auto simp: segment_component_def proper_name_def split: if_splits)

lemma segment_components_names:
  assumes "\<forall>s \<in> set segs. slash \<notin> set s" "c \<in> set (segment_components segs)"
  shows "c = ParentDir \<or> proper_component c"
proof -
  from assms(2) obtain s where "s \<in> set segs" "segment_component s = Some c"
    by (auto simp: segment_components_def List.map_filter_def)
  with assms(1) segment_component_name show ?thesis by blast
qed

lemma is_absolute_Cons [simp]: "is_absolute (slash # p)"
  by (simp add: is_absolute_def starts_with_def)

lemma is_absoluteE: "is_absolute p \<Longrightarrow> \<exists>q. p = slash # q"
  by (auto simp: is_absolute_def starts_with_iff)

lemma components_absolute:
  assumes "is_absolute p"
  obtains cs where "components p = RootDir # cs" "\<forall>c \<in> set cs. c = ParentDir \<or> proper_component c"
proof
  show "components p = RootDir # segment_components (split_on slash p)"
    using assms by (simp add: components_def Let_def)
  show "\<forall>c \<in> set (segment_components (split_on slash p)). c = ParentDir \<or> proper_component c"
    using segment_components_names [of "split_on slash p"] split_on_pieces [of _ slash p] by auto
qed

definition root_names :: "rstr list \<Rightarrow> path_component list" where
  "root_names ns = RootDir # map Normal ns"

lemma normalize_step_root_names:
  assumes "c = ParentDir \<or> proper_component c" "\<forall>n \<in> set ns. proper_name n"
  shows "\<exists>ms. (\<forall>n \<in> set ms. proper_name n) \<and> normalize_step (root_names ns) c = root_names ms"
proof (cases c)
  case ParentDir
  have "normalize_step (root_names ns) c = root_names (butlast ns)"
    by (cases ns rule: rev_cases) (simp_all add: ParentDir root_names_def pop_component_def)
  with assms(2) show ?thesis by (meson in_set_butlastD)
next
  case (Normal s)
  have "normalize_step (root_names ns) c = root_names (ns @ [s])"
    by (simp add: Normal root_names_def)
  moreover have "\<forall>n \<in> set (ns @ [s]). proper_name n" using assms Normal by auto
  ultimately show ?thesis by blast
qed (use assms in auto)

lemma normalize_root_names:
  assumes "\<forall>c \<in> set cs. c = ParentDir \<or> proper_component c" "\<forall>n \<in> set ns. proper_name n"
  shows "\<exists>ms. (\<forall>n \<in> set ms. proper_name n) \<and> foldl normalize_step (root_names ns) cs = root_names ms"
  using assms
proof (induction cs arbitrary: ns)
  case (Cons c cs)
  obtain ks where "\<forall>n \<in> set ks. proper_name n" "normalize_step (root_names ns) c = root_names ks"
    using normalize_step_root_names Cons.prems by (meson list.set_intros(1))
  with Cons.IH [of ks] Cons.prems(1) show ?case by simp
qed auto

lemma normalize_names:
  "foldl normalize_step (root_names ns) (map Normal ms) = root_names (ns @ ms)"
proof (induction ms arbitrary: ns)
  case (Cons m ms)
  have "normalize_step (root_names ns) (Normal m) = root_names (ns @ [m])" by (simp add: root_names_def)
  with Cons.IH [of "ns @ [m]"] show ?case by simp
qed simp

lemma names_path_snoc: "ns \<noteq> [] \<Longrightarrow> names_path (ns @ [n]) = names_path ns @ [slash] @ n"
  by (simp add: names_path_def)

lemma names_path_append: "ns \<noteq> [] \<Longrightarrow> ms \<noteq> [] \<Longrightarrow> names_path (ns @ ms) = names_path ns @ names_path ms"
  by (simp add: names_path_def)

lemma names_path_nonempty: "names_path ns \<noteq> []"
  by (auto simp: names_path_def neq_Nil_conv)

lemma names_path_join: "names_path (m # ms) = slash # join [slash] (m # ms)"
proof (induction ms arbitrary: m)
  case (Cons k ms)
  have "names_path (m # k # ms) = slash # m @ names_path (k # ms)" by (simp add: names_path_def)
  with Cons.IH [of k] show ?case by simp
qed (simp add: names_path_def)

lemma ends_with_iff: "ends_with s p \<longleftrightarrow> (\<exists>r. s = r @ p)"
  by (auto simp: ends_with_def strip_suffix_Some_iff)

lemma names_path_no_final_slash:
  assumes "ns \<noteq> []" "\<forall>n \<in> set ns. proper_name n"
  shows "\<not> ends_with (names_path ns) [slash]"
proof -
  obtain ms m where ns: "ns = ms @ [m]" using assms(1) by (cases ns rule: rev_cases) auto
  with assms(2) have "m \<noteq> []" "slash \<notin> set m" by (simp_all add: proper_name_def)
  moreover from this have "last m \<noteq> slash" using last_in_set by metis
  ultimately have "last (names_path ns) \<noteq> slash" using ns by (auto simp: names_path_def)
  then show ?thesis by (auto simp: ends_with_iff)
qed

lemma path_join_name:
  assumes "proper_name n" "\<forall>n \<in> set ns. proper_name n"
  shows "path_join (names_path ns) n = names_path (ns @ [n])"
proof -
  have "\<not> is_absolute n" using assms(1) by (auto simp: proper_name_def dest: is_absoluteE)
  moreover have "ends_with [slash] [slash]" by (simp add: ends_with_iff)
  ultimately show ?thesis
    using names_path_no_final_slash [of ns] assms(2)
    by (cases "ns = []") (auto simp: path_join_def names_path_snoc, simp_all add: names_path_def)
qed

lemma render_root_names:
  "\<forall>n \<in> set ns. proper_name n \<Longrightarrow> render (root_names ns) = names_path ns"
proof (induction ns rule: rev_induct)
  case Nil
  show ?case by (simp add: render_def root_names_def path_join_def names_path_def is_absolute_def starts_with_def)
next
  case (snoc n ns)
  then have "render (root_names (ns @ [n])) = path_join (names_path ns) n"
    by (simp add: render_def root_names_def)
  with snoc.prems path_join_name show ?case by simp
qed

lemma split_names_path:
  "\<forall>n \<in> set ns. slash \<notin> set n \<Longrightarrow> ns \<noteq> [] \<Longrightarrow> split_on slash (concat (map (\<lambda>n. slash # n) ns)) = [] # ns"
proof (induction ns)
  case (Cons n ns)
  then show ?case
    by (cases "ns = []") (auto simp: split_on_no_sep neq_Nil_conv split_on_append_sep)
qed simp

lemma segment_components_proper:
  "\<forall>n \<in> set ns. proper_name n \<Longrightarrow> segment_components ns = map Normal ns"
  by (induction ns) (simp_all add: segment_components_def List.map_filter_def segment_component_def proper_name_def)

lemma components_names_path:
  assumes "\<forall>n \<in> set ns. proper_name n"
  shows "components (names_path ns) = root_names ns"
proof (cases "ns = []")
  case True
  show ?thesis
    by (simp add: True components_def names_path_def root_names_def segment_components_def List.map_filter_def segment_component_def)
next
  case False
  then obtain n ms where "ns = n # ms" by (cases ns) auto
  then have abs: "is_absolute (names_path ns)" by (simp add: names_path_def)
  have "split_on slash (names_path ns) = [] # ns"
    using split_names_path [of ns] False assms by (simp add: names_path_def proper_name_def)
  moreover have "segment_components ([] # ns) = map Normal ns"
    using segment_components_proper [OF assms]
    by (simp add: segment_components_def List.map_filter_def segment_component_def)
  ultimately show ?thesis using abs by (simp add: components_def root_names_def)
qed

lemma normalize_path_absolute:
  assumes "is_absolute p"
  shows "normal_absolute (normalize_path p)"
proof -
  obtain cs where cs: "components p = RootDir # cs" "\<forall>c \<in> set cs. c = ParentDir \<or> proper_component c"
    using assms by (rule components_absolute)
  have "normalize_components (components p) = foldl normalize_step (root_names []) cs"
    by (simp add: cs(1) normalize_components_def root_names_def)
  then obtain ns where ns: "\<forall>n \<in> set ns. proper_name n" "normalize_components (components p) = root_names ns"
    using normalize_root_names [OF cs(2), of "[]"] by auto
  have "normalize_path p = names_path ns"
    using render_root_names [OF ns(1)] ns(2) by (auto simp: normalize_path_def names_path_def Let_def neq_Nil_conv)
  with ns(1) show ?thesis by (auto simp: normal_absolute_def)
qed

lemma normalize_path_normal:
  assumes "normal_absolute p"
  shows "normalize_path p = p"
proof -
  obtain ns where ns: "\<forall>n \<in> set ns. proper_name n" "p = names_path ns"
    using assms by (auto simp: normal_absolute_def)
  have "normalize_components (root_names ns) = root_names ns"
    using normalize_names [of "[]" ns] by (simp add: normalize_components_def root_names_def)
  then have "normalize_path p = (if p = [] then [dot] else p)"
    by (simp add: normalize_path_def ns components_names_path render_root_names)
  moreover have "p \<noteq> []" using ns by (auto simp: names_path_def neq_Nil_conv)
  ultimately show ?thesis by simp
qed

lemma normal_absolute_is_absolute: "normal_absolute p \<Longrightarrow> is_absolute p"
  by (auto simp: normal_absolute_def names_path_def neq_Nil_conv)

lemma path_with_base_absolute: "is_absolute base \<Longrightarrow> is_absolute (path_with_base p base)"
  by (auto simp: path_with_base_def path_join_def dest!: is_absoluteE)

lemma expand_absolute: "is_absolute p \<Longrightarrow> maybe_expand_home_directory home p = p"
  by (auto simp: maybe_expand_home_directory_def dest!: is_absoluteE split: option.splits)

section \<open>File names\<close>

lemma last_opt_mem: "last_opt xs = Some x \<Longrightarrow> x \<in> set xs"
  by (auto simp: last_opt_conv split: if_splits)

lemma file_name_proper: "file_name p = Some n \<Longrightarrow> proper_name n"
proof -
  assume "file_name p = Some n"
  then have "Normal n \<in> set (components p)"
    by (auto simp: file_name_def last_opt_mem split: option.splits path_component.splits)
  then have "Normal n \<in> set (segment_components (split_on slash p))"
    by (auto simp: components_def Let_def split: if_splits)
  with segment_components_names [of "split_on slash p" "Normal n"] split_on_pieces [of _ slash p]
  show ?thesis by auto
qed

lemma file_name_of_name: "proper_name n \<Longrightarrow> file_name n = Some n"
proof -
  assume n: "proper_name n"
  then have "\<not> is_absolute n" by (auto simp: proper_name_def dest: is_absoluteE)
  moreover have "split_on slash n = [n]" using n by (simp add: proper_name_def split_on_no_sep)
  moreover have "segment_components [n] = [Normal n]" using segment_components_proper [of "[n]"] n by simp
  ultimately show ?thesis using n by (simp add: file_name_def components_def proper_name_def)
qed

lemma stem_of_no_dot: "dot \<notin> set n \<Longrightarrow> stem_of n = n"
  by (simp add: stem_of_def split_on_no_sep)

lemma length_join_butlast: "ps \<noteq> [] \<Longrightarrow> length (join [c] (butlast ps)) \<le> length (join [c] ps) \<and>
    (butlast ps \<noteq> [] \<longrightarrow> length (join [c] (butlast ps)) < length (join [c] ps))"
proof (induction ps rule: rev_induct)
  case (snoc p ps)
  show ?case
  proof (cases ps rule: rev_cases)
    case (snoc qs q)
    have "length (join [c] (ps @ [p])) = length (join [c] ps) + 1 + length p"
      unfolding snoc join_snoc by simp
    then show ?thesis by simp
  qed simp
qed simp

lemma stem_of_shorter: "stem_of n = n \<or> length (stem_of n) < length n"
proof -
  have "join [dot] (split_on dot n) = n" by (rule join_split_on)
  with length_join_butlast [of "split_on dot n" dot] show ?thesis
    by (cases "butlast (split_on dot n) = []") (auto simp: stem_of_def Let_def)
qed

lemma split_on_piece_length: "q \<in> set (split_on c xs) \<Longrightarrow> q = xs \<or> length q < length xs"
proof (induction xs arbitrary: q)
  case (Cons x xs)
  obtain p ps where ps: "split_on c xs = p # ps" by (cases "split_on c xs") auto
  have p: "p = xs \<or> length p < length xs" using Cons.IH [of p] ps by simp
  have rest: "length r \<le> length xs" if "r \<in> set ps" for r using Cons.IH [of r] ps that by auto
  show ?case
  proof (cases "x = c")
    case True
    then have "q = [] \<or> q \<in> set (split_on c xs)" using Cons.prems by simp
    then show ?thesis using Cons.IH [of q] by auto
  next
    case False
    then have "q = x # p \<or> q \<in> set ps" using Cons.prems ps by simp
    then show ?thesis using p rest [of q] by auto
  qed
qed simp

lemma file_name_shorter: "file_name p = Some n \<Longrightarrow> n = p \<or> length n < length p"
proof -
  assume "file_name p = Some n"
  then have "Normal n \<in> set (components p)"
    by (auto simp: file_name_def last_opt_mem split: option.splits path_component.splits)
  then have "n \<in> set (split_on slash p)"
    by (auto simp: components_def Let_def segment_components_def List.map_filter_def segment_component_def split: if_splits)
  then show ?thesis by (rule split_on_piece_length)
qed

lemma file_stem_shorter: "file_stem p = Some s \<Longrightarrow> s = p \<or> length s < length p"
  using file_name_shorter stem_of_shorter by (fastforce simp: file_stem_def)

section \<open>Properties\<close>

text \<open>
  Whatever the path, with or without \<open>~\<close>, \<open>.\<close>, \<open>..\<close> and repeated separators, resolving
  it against an absolute base gives an absolute path in normal form, and resolving the result
  again, against any base, gives it back.
\<close>

theorem resolve_path_normal_idempotent:
  assumes "is_absolute base"
  shows "normal_absolute (resolve_path_against_base home path base) \<and>
         resolve_path_against_base home' (resolve_path_against_base home path base) base' =
           resolve_path_against_base home path base"
proof -
  let ?r = "resolve_path_against_base home path base"
  have n: "normal_absolute ?r"
    unfolding resolve_path_against_base_def absolutize_from_def
    by (rule normalize_path_absolute, rule path_with_base_absolute, rule assms(1))
  then have "is_absolute ?r" by (rule normal_absolute_is_absolute)
  then have "resolve_path_against_base home' ?r base' = normalize_path ?r"
    by (simp add: resolve_path_against_base_def expand_absolute absolutize_from_def path_with_base_def)
  with n normalize_path_normal show ?thesis by simp
qed

theorem resolve_path_normal_idempotent_witness:
  "resolve_path_against_base (Some (lit ''/home/u'')) (lit ''~//x/../y/./z'') (lit ''/w'') = lit ''/home/u/y/z'' \<and>
   normal_absolute (lit ''/home/u/y/z'')"
proof -
  have "resolve_path_against_base (Some (lit ''/home/u'')) (lit ''~//x/../y/./z'') (lit ''/w'') = lit ''/home/u/y/z''"
    by code_simp
  moreover have "is_absolute (lit ''/w'')" by code_simp
  ultimately show ?thesis using resolve_path_normal_idempotent [of "lit ''/w''" "Some (lit ''/home/u'')" "lit ''~//x/../y/./z''"] by simp
qed

text \<open>
  A relative path of proper names stays below the base: its names are appended to those
  of the base.
\<close>

lemma resolve_path_below_base:
  assumes "\<forall>n \<in> set ns. proper_name n" "\<forall>k \<in> set (m # ms). proper_name k" "hd m \<noteq> tilde"
  shows "resolve_path_against_base home (join [slash] (m # ms)) (names_path ns) = names_path (ns @ m # ms)"
proof -
  obtain c cs where m: "m = c # cs" "c \<noteq> tilde" "c \<noteq> slash"
    using assms(2,3) by (cases m) (auto simp: proper_name_def)
  obtain q where q: "join [slash] (m # ms) = c # q" using m(1) by (cases ms) auto
  have expand: "maybe_expand_home_directory home (c # q) = c # q"
    using m(2) by (simp add: maybe_expand_home_directory_def split: option.splits)
  have rel: "\<not> is_absolute (c # q)" using m(3) by (auto dest: is_absoluteE)
  have "ends_with [slash] [slash]" by (simp add: ends_with_iff)
  then have joined: "path_join (names_path ns) (c # q) = names_path (ns @ m # ms)"
    using rel q names_path_join [of m ms] names_path_no_final_slash [of ns] assms(1) names_path_nonempty [of ns]
    by (cases "ns = []") (auto simp: path_join_def names_path_append, simp_all add: names_path_def)
  have "normal_absolute (names_path (ns @ m # ms))"
    using assms(1,2) unfolding normal_absolute_def by (metis Un_iff set_append)
  with joined rel q expand show ?thesis
    by (simp add: resolve_path_against_base_def absolutize_from_def path_with_base_def normalize_path_normal)
qed

end
