(* ===== verification/Patch_Parser.thy ===== *)
theory Patch_Parser
  imports Absolute_Path
begin

text \<open>
  The patch parser (\<open>apply-patch/src/parser.rs\<close>): the markers, the hunks and their chunks,
  the boundary checks of the strict and the lenient mode, the environment preamble, and the
  two loops that cut the lines of a patch into hunks and the lines of an update hunk into
  chunks. A loop of the source over a shrinking slice is a recursion on the remaining lines;
  every call consumes at least one line, which is both the termination argument and the
  reason why the slices of the source never go out of range.
\<close>

section \<open>Markers\<close>

named_theorems marker_defs \<open>the literals of the patch format\<close>

definition BEGIN_PATCH_MARKER :: rstr where
  [marker_defs]: "BEGIN_PATCH_MARKER = lit ''*** Begin Patch''"

definition ENVIRONMENT_ID_MARKER :: rstr where
  [marker_defs]: "ENVIRONMENT_ID_MARKER = lit ''*** Environment ID: ''"

definition END_PATCH_MARKER :: rstr where
  [marker_defs]: "END_PATCH_MARKER = lit ''*** End Patch''"

definition ADD_FILE_MARKER :: rstr where
  [marker_defs]: "ADD_FILE_MARKER = lit ''*** Add File: ''"

definition DELETE_FILE_MARKER :: rstr where
  [marker_defs]: "DELETE_FILE_MARKER = lit ''*** Delete File: ''"

definition UPDATE_FILE_MARKER :: rstr where
  [marker_defs]: "UPDATE_FILE_MARKER = lit ''*** Update File: ''"

definition MOVE_TO_MARKER :: rstr where
  [marker_defs]: "MOVE_TO_MARKER = lit ''*** Move to: ''"

definition EOF_MARKER :: rstr where
  [marker_defs]: "EOF_MARKER = lit ''*** End of File''"

definition CHANGE_CONTEXT_MARKER :: rstr where
  [marker_defs]: "CHANGE_CONTEXT_MARKER = lit ''@@ ''"

definition EMPTY_CHANGE_CONTEXT_MARKER :: rstr where
  [marker_defs]: "EMPTY_CHANGE_CONTEXT_MARKER = lit ''@@''"

abbreviation star :: rchar where "star \<equiv> 42"
abbreviation plus_sign :: rchar where "plus_sign \<equiv> 43"
abbreviation minus_sign :: rchar where "minus_sign \<equiv> 45"
abbreviation space :: rchar where "space \<equiv> 32"

section \<open>Data\<close>

datatype parse_error =
    InvalidPatchError rstr
  | InvalidHunkError (message: rstr) (line_number: nat)

record update_file_chunk =
  change_context :: "rstr option"
  old_lines :: "rstr list"
  new_lines :: "rstr list"
  is_end_of_file :: bool

datatype hunk =
    AddFile rstr rstr
  | DeleteFile rstr
  | UpdateFile rstr "rstr option" "update_file_chunk list"

text \<open>\<open>Hunk::path\<close>: the destination for a rename.\<close>

fun hunk_path :: "hunk \<Rightarrow> rstr" where
  "hunk_path (AddFile p _) = p"
| "hunk_path (DeleteFile p) = p"
| "hunk_path (UpdateFile _ (Some p) _) = p"
| "hunk_path (UpdateFile p None _) = p"

text \<open>\<open>Hunk::resolve_path\<close>: the file the hunk reads, against the working directory.\<close>

definition resolve_path :: "rstr option \<Rightarrow> hunk \<Rightarrow> rstr \<Rightarrow> rstr" where
  "resolve_path home h cwd =
     (let path = (case h of UpdateFile p _ _ \<Rightarrow> p | _ \<Rightarrow> hunk_path h)
      in resolve_path_against_base home path cwd)"

record apply_patch_args =
  patch :: rstr
  hunks :: "hunk list"
  workdir :: "rstr option"
  environment_id :: "rstr option"

datatype parse_mode = Strict | Lenient

section \<open>Update chunks\<close>

abbreviation empty_chunk :: "rstr option \<Rightarrow> update_file_chunk" where
  "empty_chunk ctx \<equiv>
     \<lparr>change_context = ctx, old_lines = [], new_lines = [], is_end_of_file = False\<rparr>"

definition push_old :: "rstr \<Rightarrow> update_file_chunk \<Rightarrow> update_file_chunk" where
  "push_old l c = c\<lparr>old_lines := old_lines c @ [l]\<rparr>"

definition push_new :: "rstr \<Rightarrow> update_file_chunk \<Rightarrow> update_file_chunk" where
  "push_new l c = c\<lparr>new_lines := new_lines c @ [l]\<rparr>"

definition unexpected_line_message :: "rstr \<Rightarrow> rstr" where
  "unexpected_line_message l =
     lit ''Unexpected line found in update hunk: '' @ [39] @ l @ [39] @
     lit ''. Every line should start with ' ' (context line), '+' (added line), or '-' (removed line)''"

definition no_lines_message :: rstr where
  "no_lines_message = lit ''Update hunk does not contain any lines''"

text \<open>
  The loop over the lines of a chunk: \<open>parsed\<close> counts the lines taken so far, and a line that
  is none of the change lines ends the chunk unless it is the first.
\<close>

fun chunk_loop ::
    "nat \<Rightarrow> rstr list \<Rightarrow> nat \<Rightarrow> update_file_chunk \<Rightarrow> (parse_error, update_file_chunk \<times> nat) result" where
  "chunk_loop ln [] parsed chunk = Inr (chunk, parsed)"
| "chunk_loop ln (l # ls) parsed chunk =
     (if l = EOF_MARKER then
        (if parsed = 0 then Inl (InvalidHunkError no_lines_message (ln + 1))
         else Inr (chunk\<lparr>is_end_of_file := True\<rparr>, parsed + 1))
      else
        (case l of
           [] \<Rightarrow> chunk_loop ln ls (parsed + 1) (push_new [] (push_old [] chunk))
         | c # rest \<Rightarrow>
             if c = space then chunk_loop ln ls (parsed + 1) (push_new rest (push_old rest chunk))
             else if c = plus_sign then chunk_loop ln ls (parsed + 1) (push_new rest chunk)
             else if c = minus_sign then chunk_loop ln ls (parsed + 1) (push_old rest chunk)
             else if parsed = 0 then Inl (InvalidHunkError (unexpected_line_message l) (ln + 1))
             else Inr (chunk, parsed)))"

text \<open>The context line of a chunk and the index of the first line after it.\<close>

definition chunk_header :: "rstr \<Rightarrow> bool \<Rightarrow> nat \<Rightarrow> (parse_error, rstr option \<times> nat) result" where
  "chunk_header first allow_missing_context ln =
     (if first = EMPTY_CHANGE_CONTEXT_MARKER then Inr (None, 1)
      else case strip_prefix CHANGE_CONTEXT_MARKER first of
        Some ctx \<Rightarrow> Inr (Some ctx, 1)
      | None \<Rightarrow>
          if \<not> allow_missing_context then
            Inl (InvalidHunkError
              (lit ''Expected update hunk to start with a @@ context marker, got: '' @ [39] @ first @ [39]) ln)
          else Inr (None, 0))"

definition parse_update_file_chunk ::
    "rstr list \<Rightarrow> nat \<Rightarrow> bool \<Rightarrow> (parse_error, update_file_chunk \<times> nat) result" where
  "parse_update_file_chunk lines ln allow_missing_context =
     (case lines of
        [] \<Rightarrow> Inl (InvalidHunkError no_lines_message ln)
      | first # _ \<Rightarrow>
          rbind (chunk_header first allow_missing_context ln) (\<lambda>(ctx, start_index).
            if length lines \<le> start_index then Inl (InvalidHunkError no_lines_message (ln + 1))
            else rbind (chunk_loop ln (drop start_index lines) 0 (empty_chunk ctx))
                   (\<lambda>(chunk, parsed). Inr (chunk, parsed + start_index))))"

text \<open>What the loop consumes, and that a chunk it returns has a line.\<close>

definition chunk_has_lines :: "update_file_chunk \<Rightarrow> bool" where
  "chunk_has_lines c \<longleftrightarrow> old_lines c \<noteq> [] \<or> new_lines c \<noteq> []"

lemma chunk_has_lines_push [simp]:
  "chunk_has_lines (push_old l c)" "chunk_has_lines (push_new l c)"
  by (simp_all add: chunk_has_lines_def push_old_def push_new_def)

lemma chunk_loop_consumes:
  assumes "chunk_loop ln ls parsed chunk = Inr (c, n)"
    and "0 < parsed \<longrightarrow> chunk_has_lines chunk" and "parsed = 0 \<longrightarrow> ls \<noteq> []"
  shows "parsed \<le> n \<and> n \<le> parsed + length ls \<and> 0 < n \<and> chunk_has_lines c"
  using assms
proof (induction ln ls parsed chunk rule: chunk_loop.induct)
  case (1 ln parsed chunk)
  then show ?case by auto
next
  case (2 ln l ls parsed chunk)
  show ?case
  proof (cases "l = EOF_MARKER")
    case True
    with "2.prems" show ?thesis
      by (auto simp: chunk_has_lines_def split: if_splits)
  next
    case False
    show ?thesis
    proof (cases l)
      case Nil
      with False "2.prems" "2.IH"(1) [OF False Nil] show ?thesis by auto
    next
      case (Cons a rest)
      then show ?thesis
        using False "2.prems" "2.IH"(2) [OF False Cons] "2.IH"(3) [OF False Cons]
          "2.IH"(4) [OF False Cons]
        by (auto split: if_splits)
    qed
  qed
qed

lemma parse_update_file_chunk_consumes:
  assumes "parse_update_file_chunk lines ln allow = Inr (c, n)"
  shows "0 < n \<and> n \<le> length lines \<and> chunk_has_lines c"
proof -
  obtain first ls where lines: "lines = first # ls"
    using assms by (cases lines) (auto simp: parse_update_file_chunk_def)
  obtain ctx si parsed where
    loop: "chunk_loop ln (drop si lines) 0 (empty_chunk ctx) = Inr (c, parsed)"
    and si: "si < length lines" and n: "n = parsed + si"
    using assms by (auto simp: lines parse_update_file_chunk_def rbind_eq_Inr_iff not_le split: if_splits)
  have "parsed \<le> length (drop si lines) \<and> 0 < parsed \<and> chunk_has_lines c"
    using chunk_loop_consumes [OF loop] si by simp
  with si n show ?thesis by auto
qed

section \<open>Hunks\<close>

text \<open>The added lines of an add-file hunk: the contents and the number of lines taken.\<close>

fun parse_add_lines :: "rstr list \<Rightarrow> rstr \<times> nat" where
  "parse_add_lines [] = ([], 0)"
| "parse_add_lines (l # ls) =
     (case strip_prefix [plus_sign] l of
        Some line_to_add \<Rightarrow>
          (case parse_add_lines ls of (contents, n) \<Rightarrow> (line_to_add @ [newline] @ contents, n + 1))
      | None \<Rightarrow> ([], 0))"

text \<open>The loop over the chunks of an update hunk.\<close>

function parse_chunks ::
    "rstr list \<Rightarrow> nat \<Rightarrow> nat \<Rightarrow> update_file_chunk list
       \<Rightarrow> (parse_error, update_file_chunk list \<times> nat) result" where
  "parse_chunks [] ln parsed chunks = Inr (chunks, parsed)"
| "parse_chunks (l # ls) ln parsed chunks =
     (if trim l = [] then parse_chunks ls ln (parsed + 1) chunks
      else if starts_with l [star] then Inr (chunks, parsed)
      else
        (case parse_update_file_chunk (l # ls) (ln + parsed) (chunks = []) of
           Inl e \<Rightarrow> Inl e
         | Inr (chunk, chunk_lines) \<Rightarrow>
             parse_chunks (drop chunk_lines (l # ls)) ln (parsed + chunk_lines) (chunks @ [chunk])))"
  by pat_completeness auto
termination
  by (relation "measure (\<lambda>(ls, _). length ls)")
     (auto dest!: parse_update_file_chunk_consumes [rotated 0])

definition invalid_header_message :: "rstr \<Rightarrow> rstr" where
  "invalid_header_message first =
     [39] @ first @ [39] @
     lit '' is not a valid hunk header. Valid hunk headers: '*** Add File: {path}', '*** Delete File: {path}', '*** Update File: {path}'' @ [39]"

definition empty_update_message :: "rstr \<Rightarrow> rstr" where
  "empty_update_message path = lit ''Update file hunk for path '' @ [39] @ path @ [39] @ lit '' is empty''"

text \<open>
  \<open>parse_one_hunk\<close> on a non-empty slice, given as its first line and the others. The
  optional line after an update header names the destination of a move.
\<close>

definition parse_one_hunk :: "rstr \<Rightarrow> rstr list \<Rightarrow> nat \<Rightarrow> (parse_error, hunk \<times> nat) result" where
  "parse_one_hunk first rest ln =
     (let first_line = trim first in
      case strip_prefix ADD_FILE_MARKER first_line of
        Some path \<Rightarrow> (case parse_add_lines rest of (contents, n) \<Rightarrow> Inr (AddFile path contents, n + 1))
      | None \<Rightarrow>
      (case strip_prefix DELETE_FILE_MARKER first_line of
        Some path \<Rightarrow> Inr (DeleteFile path, 1)
      | None \<Rightarrow>
      (case strip_prefix UPDATE_FILE_MARKER first_line of
        Some path \<Rightarrow>
          (let move_path = (case rest of [] \<Rightarrow> None | x # _ \<Rightarrow> strip_prefix MOVE_TO_MARKER x);
               remaining = (if move_path \<noteq> None then tl rest else rest);
               parsed = (if move_path \<noteq> None then 2 else 1)
           in rbind (parse_chunks remaining ln parsed []) (\<lambda>(chunks, parsed_lines).
                if chunks = [] then Inl (InvalidHunkError (empty_update_message path) ln)
                else Inr (UpdateFile path move_path chunks, parsed_lines)))
      | None \<Rightarrow> Inl (InvalidHunkError (invalid_header_message first_line) ln))))"

text \<open>What the chunk loop consumes, and the chunks it returns.\<close>

lemma parse_chunks_consumes:
  assumes "parse_chunks ls ln parsed chunks = Inr (cs, n)" and "\<forall>c \<in> set chunks. chunk_has_lines c"
  shows "parsed \<le> n \<and> n \<le> parsed + length ls \<and> (\<forall>c \<in> set cs. chunk_has_lines c)"
  using assms
proof (induction ls ln parsed chunks rule: parse_chunks.induct)
  case (1 ln parsed chunks)
  then show ?case by simp
next
  case (2 l ls ln parsed chunks)
  show ?case
  proof (cases "trim l = []")
    case True
    with "2.prems" "2.IH"(1) show ?thesis by fastforce
  next
    case False
    show ?thesis
    proof (cases "starts_with l [star]")
      case True
      with False "2.prems" show ?thesis by simp
    next
      case not_star: False
      obtain c k where chunk: "parse_update_file_chunk (l # ls) (ln + parsed) (chunks = []) = Inr (c, k)"
        using False not_star "2.prems"(1)
        by (cases "parse_update_file_chunk (l # ls) (ln + parsed) (chunks = [])") auto
      note consumed = parse_update_file_chunk_consumes [OF chunk]
      have rest: "parse_chunks (drop k (l # ls)) ln (parsed + k) (chunks @ [c]) = Inr (cs, n)"
        using "2.prems"(1) False not_star chunk by simp
      have "parsed + k \<le> n \<and> n \<le> parsed + k + length (drop k (l # ls)) \<and> (\<forall>c \<in> set cs. chunk_has_lines c)"
        using "2.IH"(2) [OF False not_star chunk refl rest] "2.prems"(2) consumed by auto
      with consumed show ?thesis by auto
    qed
  qed
qed

lemma parse_add_lines_consumes: "parse_add_lines ls = (s, n) \<Longrightarrow> n \<le> length ls"
  by (induction ls arbitrary: s n) (auto split: option.splits prod.splits)

text \<open>The shape of a parsed hunk: an update has chunks, and every chunk has a line.\<close>

fun hunk_ok :: "hunk \<Rightarrow> bool" where
  "hunk_ok (UpdateFile _ _ cs) \<longleftrightarrow> cs \<noteq> [] \<and> (\<forall>c \<in> set cs. chunk_has_lines c)"
| "hunk_ok _ \<longleftrightarrow> True"

lemma parse_one_hunk_consumes:
  assumes "parse_one_hunk first rest ln = Inr (h, n)"
  shows "0 < n \<and> n \<le> Suc (length rest) \<and> hunk_ok h"
proof -
  consider (add) path where "strip_prefix ADD_FILE_MARKER (trim first) = Some path"
    | (del) path where "strip_prefix ADD_FILE_MARKER (trim first) = None"
        "strip_prefix DELETE_FILE_MARKER (trim first) = Some path"
    | (upd) path where "strip_prefix ADD_FILE_MARKER (trim first) = None"
        "strip_prefix DELETE_FILE_MARKER (trim first) = None"
        "strip_prefix UPDATE_FILE_MARKER (trim first) = Some path"
    using assms by (auto simp: parse_one_hunk_def Let_def split: option.splits)
  then show ?thesis
  proof cases
    case add
    then show ?thesis using assms parse_add_lines_consumes [of rest]
      by (auto simp: parse_one_hunk_def split: prod.splits)
  next
    case del
    then show ?thesis using assms by (auto simp: parse_one_hunk_def)
  next
    case upd
    define mv where "mv = (case rest of [] \<Rightarrow> None | x # _ \<Rightarrow> strip_prefix MOVE_TO_MARKER x)"
    have mv_rest: "mv \<noteq> None \<Longrightarrow> rest \<noteq> []" by (auto simp: mv_def)
    obtain cs where "parse_chunks (if mv \<noteq> None then tl rest else rest) ln (if mv \<noteq> None then 2 else 1) [] = Inr (cs, n)"
        and cs: "cs \<noteq> []" and h: "h = UpdateFile path mv cs"
      using assms upd
      by (auto simp: parse_one_hunk_def Let_def rbind_eq_Inr_iff mv_def [symmetric] split: if_splits)
    from parse_chunks_consumes [OF this(1)] cs h mv_rest show ?thesis
      by (auto split: if_splits)
  qed
qed

section \<open>Patches\<close>

text \<open>The loop of \<open>parse_patch_text\<close> over the hunks.\<close>

function parse_hunks :: "rstr list \<Rightarrow> nat \<Rightarrow> (parse_error, hunk list) result" where
  "parse_hunks [] ln = Inr []"
| "parse_hunks (l # ls) ln =
     (case parse_one_hunk l ls ln of
        Inl e \<Rightarrow> Inl e
      | Inr (h, hunk_lines) \<Rightarrow>
          (case parse_hunks (drop hunk_lines (l # ls)) (ln + hunk_lines) of
             Inl e \<Rightarrow> Inl e
           | Inr hs \<Rightarrow> Inr (h # hs)))"
  by pat_completeness auto
termination
  by (relation "measure (\<lambda>(ls, _). length ls)") (auto dest!: parse_one_hunk_consumes)

definition parse_environment_id_preamble ::
    "rstr list \<Rightarrow> (parse_error, rstr option \<times> rstr list \<times> nat) result" where
  "parse_environment_id_preamble hunk_lines =
     (case hunk_lines of
        [] \<Rightarrow> Inr (None, hunk_lines, 2)
      | first_line # rest \<Rightarrow>
          (case strip_prefix ENVIRONMENT_ID_MARKER (trim_start first_line) of
             None \<Rightarrow> Inr (None, hunk_lines, 2)
           | Some raw \<Rightarrow>
               let environment_id = trim raw in
               if environment_id = [] then
                 Inl (InvalidPatchError (lit ''apply_patch environment_id cannot be empty''))
               else Inr (Some environment_id, rest, 3)))"

definition bad_first_line :: parse_error where
  "bad_first_line =
     InvalidPatchError (lit ''The first line of the patch must be '' @ [39] @ BEGIN_PATCH_MARKER @ [39])"

definition bad_last_line :: parse_error where
  "bad_last_line =
     InvalidPatchError (lit ''The last line of the patch must be '' @ [39] @ END_PATCH_MARKER @ [39])"

definition check_start_and_end_lines_strict ::
    "rstr option \<Rightarrow> rstr option \<Rightarrow> (parse_error, unit) result" where
  "check_start_and_end_lines_strict first_line last_line =
     (case (map_option trim first_line, map_option trim last_line) of
        (Some first, final) \<Rightarrow>
          if first = BEGIN_PATCH_MARKER \<and> final = Some END_PATCH_MARKER then Inr ()
          else if first \<noteq> BEGIN_PATCH_MARKER then Inl bad_first_line
          else Inl bad_last_line
      | (None, _) \<Rightarrow> Inl bad_last_line)"

definition check_patch_boundaries_strict ::
    "rstr list \<Rightarrow> (parse_error, rstr list \<times> rstr list) result" where
  "check_patch_boundaries_strict lines =
     (let first_line = (case lines of [] \<Rightarrow> None | f # _ \<Rightarrow> Some f);
          last_line = last_opt lines
      in rbind (check_start_and_end_lines_strict first_line last_line)
           (\<lambda>_. Inr (lines, butlast (tl lines))))"

definition check_patch_boundaries_lenient ::
    "rstr list \<Rightarrow> (parse_error, rstr list \<times> rstr list) result" where
  "check_patch_boundaries_lenient original_lines =
     (case check_patch_boundaries_strict original_lines of
        Inr r \<Rightarrow> Inr r
      | Inl original_parse_error \<Rightarrow>
          if 2 \<le> length original_lines
             \<and> hd original_lines \<in> {lit ''<<EOF'', lit ''<<'' @ [39] @ lit ''EOF'' @ [39],
                                   lit ''<<'' @ [34] @ lit ''EOF'' @ [34]}
             \<and> ends_with (last original_lines) (lit ''EOF'')
             \<and> 4 \<le> length original_lines
          then check_patch_boundaries_strict (butlast (tl original_lines))
          else Inl original_parse_error)"

definition parse_patch_text :: "rstr \<Rightarrow> parse_mode \<Rightarrow> (parse_error, apply_patch_args) result" where
  "parse_patch_text text mode =
     (let lines = str_lines (trim text) in
      rbind (case mode of
               Strict \<Rightarrow> check_patch_boundaries_strict lines
             | Lenient \<Rightarrow> check_patch_boundaries_lenient lines) (\<lambda>(patch_lines, hunk_lines).
      rbind (parse_environment_id_preamble hunk_lines) (\<lambda>(env_id, remaining_lines, ln).
      rbind (parse_hunks remaining_lines ln) (\<lambda>hs.
        Inr \<lparr>patch = join [newline] patch_lines, hunks = hs, workdir = None, environment_id = env_id\<rparr>))))"

definition PARSE_IN_STRICT_MODE :: bool where
  "PARSE_IN_STRICT_MODE = False"

definition parse_patch :: "rstr \<Rightarrow> (parse_error, apply_patch_args) result" where
  "parse_patch text = parse_patch_text text (if PARSE_IN_STRICT_MODE then Strict else Lenient)"

end
