(* ===== verification/Patch_Grammar.thy ===== *)
theory Patch_Grammar
  imports Patch_Parser
begin

text \<open>
  The patch format as a printer, after the grammar in the header of
  \<open>apply-patch/src/parser.rs\<close>: a list of hunks and an optional environment identifier is
  written line by line. The batch parser reads back what was written (the streaming parser
  does too, theory \<open>Patch_Stream\<close>), and every patch it accepts has the shape the applier
  expects.
\<close>

section \<open>The printer\<close>

definition print_chunk :: "update_file_chunk \<Rightarrow> rstr list" where
  "print_chunk c =
     (case change_context c of
        None \<Rightarrow> EMPTY_CHANGE_CONTEXT_MARKER
      | Some ctx \<Rightarrow> CHANGE_CONTEXT_MARKER @ ctx) #
     map (Cons minus_sign) (old_lines c) @ map (Cons plus_sign) (new_lines c) @
     (if is_end_of_file c then [EOF_MARKER] else [])"

definition content_lines :: "rstr \<Rightarrow> rstr list" where
  "content_lines s = butlast (split_on newline s)"

fun print_hunk :: "hunk \<Rightarrow> rstr list" where
  "print_hunk (AddFile p contents) =
     (ADD_FILE_MARKER @ p) # map (Cons plus_sign) (content_lines contents)"
| "print_hunk (DeleteFile p) = [DELETE_FILE_MARKER @ p]"
| "print_hunk (UpdateFile p mv cs) =
     (UPDATE_FILE_MARKER @ p) #
     (case mv of None \<Rightarrow> [] | Some m \<Rightarrow> [MOVE_TO_MARKER @ m]) @ concat (map print_chunk cs)"

definition print_env :: "rstr option \<Rightarrow> rstr list" where
  "print_env env = (case env of None \<Rightarrow> [] | Some e \<Rightarrow> [ENVIRONMENT_ID_MARKER @ e])"

definition print_lines :: "rstr option \<Rightarrow> hunk list \<Rightarrow> rstr list" where
  "print_lines env hs =
     BEGIN_PATCH_MARKER # print_env env @ concat (map print_hunk hs) @ [END_PATCH_MARKER]"

definition print_patch :: "rstr option \<Rightarrow> hunk list \<Rightarrow> rstr" where
  "print_patch env hs = join [newline] (print_lines env hs)"

section \<open>Printable hunks\<close>

text \<open>A line of the patch: no line feed, and no carriage return at its end.\<close>

definition wf_line :: "rstr \<Rightarrow> bool" where
  "wf_line l \<longleftrightarrow> newline \<notin> set l \<and> (l = [] \<or> last l \<noteq> carriage_return)"

text \<open>A name that ends a marker line: not empty and not ending in white space.\<close>

definition wf_name :: "rstr \<Rightarrow> bool" where
  "wf_name p \<longleftrightarrow> p \<noteq> [] \<and> newline \<notin> set p \<and> \<not> is_whitespace (last p)"

definition wf_chunk :: "update_file_chunk \<Rightarrow> bool" where
  "wf_chunk c \<longleftrightarrow> chunk_has_lines c \<and> list_all wf_line (old_lines c) \<and> list_all wf_line (new_lines c) \<and>
     (case change_context c of None \<Rightarrow> True | Some ctx \<Rightarrow> wf_name ctx)"

fun wf_hunk :: "hunk \<Rightarrow> bool" where
  "wf_hunk (AddFile p contents) \<longleftrightarrow>
     wf_name p \<and> list_all wf_line (content_lines contents) \<and> (contents = [] \<or> last contents = newline)"
| "wf_hunk (DeleteFile p) \<longleftrightarrow> wf_name p"
| "wf_hunk (UpdateFile p mv cs) \<longleftrightarrow>
     wf_name p \<and> (case mv of None \<Rightarrow> True | Some m \<Rightarrow> wf_name m) \<and> cs \<noteq> [] \<and> list_all wf_chunk cs"

definition wf_env :: "rstr option \<Rightarrow> bool" where
  "wf_env env \<longleftrightarrow> (case env of None \<Rightarrow> True | Some e \<Rightarrow> wf_name e \<and> \<not> is_whitespace (hd e))"

lemma is_whitespace_simps [simp]:
  "is_whitespace newline" "is_whitespace carriage_return" "is_whitespace space"
  "\<not> is_whitespace star" "\<not> is_whitespace plus_sign" "\<not> is_whitespace minus_sign"
  "\<not> is_whitespace 64" "\<not> is_whitespace 104"
  by (simp_all add: is_whitespace_def)

lemma wf_line_Cons: "wf_line l \<Longrightarrow> c \<noteq> newline \<Longrightarrow> c \<noteq> carriage_return \<Longrightarrow> wf_line (c # l)"
  by (auto simp: wf_line_def)

lemma wf_line_append_name: "wf_name p \<Longrightarrow> newline \<notin> set m \<Longrightarrow> wf_line (m @ p)"
  by (auto simp: wf_line_def wf_name_def)

lemma trim_marker_name:
  "wf_name p \<Longrightarrow> m \<noteq> [] \<Longrightarrow> \<not> is_whitespace (hd m) \<Longrightarrow> trim (m @ p) = m @ p"
  by (intro trim_id) (auto simp: wf_name_def)

lemma trim_end_marker_name: "wf_name p \<Longrightarrow> trim_end (m @ p) = m @ p"
  by (intro trim_end_id) (auto simp: wf_name_def)

lemma marker_no_newline [simp]:
  "newline \<notin> set BEGIN_PATCH_MARKER" "newline \<notin> set ENVIRONMENT_ID_MARKER"
  "newline \<notin> set END_PATCH_MARKER" "newline \<notin> set ADD_FILE_MARKER"
  "newline \<notin> set DELETE_FILE_MARKER" "newline \<notin> set UPDATE_FILE_MARKER"
  "newline \<notin> set MOVE_TO_MARKER" "newline \<notin> set EOF_MARKER"
  "newline \<notin> set CHANGE_CONTEXT_MARKER" "newline \<notin> set EMPTY_CHANGE_CONTEXT_MARKER"
  by (simp_all add: marker_defs)

lemma marker_hd [simp]:
  "hd ADD_FILE_MARKER = star" "hd DELETE_FILE_MARKER = star" "hd UPDATE_FILE_MARKER = star"
  "hd MOVE_TO_MARKER = star" "hd EOF_MARKER = star" "hd ENVIRONMENT_ID_MARKER = star"
  "hd BEGIN_PATCH_MARKER = star" "hd END_PATCH_MARKER = star"
  "hd CHANGE_CONTEXT_MARKER = 64" "hd EMPTY_CHANGE_CONTEXT_MARKER = 64"
  by (simp_all add: marker_defs)

lemma marker_neq_Nil [simp]:
  "ADD_FILE_MARKER \<noteq> []" "DELETE_FILE_MARKER \<noteq> []" "UPDATE_FILE_MARKER \<noteq> []"
  "MOVE_TO_MARKER \<noteq> []" "EOF_MARKER \<noteq> []" "ENVIRONMENT_ID_MARKER \<noteq> []"
  "BEGIN_PATCH_MARKER \<noteq> []" "END_PATCH_MARKER \<noteq> []"
  "CHANGE_CONTEXT_MARKER \<noteq> []" "EMPTY_CHANGE_CONTEXT_MARKER \<noteq> []"
  by (simp_all add: marker_defs)

text \<open>No marker that opens a hunk is a prefix of another marker line.\<close>

lemma marker_distinct [simp]:
  "strip_prefix ADD_FILE_MARKER (DELETE_FILE_MARKER @ p) = None"
  "strip_prefix ADD_FILE_MARKER (UPDATE_FILE_MARKER @ p) = None"
  "strip_prefix DELETE_FILE_MARKER (UPDATE_FILE_MARKER @ p) = None"
  "strip_prefix ENVIRONMENT_ID_MARKER (ADD_FILE_MARKER @ p) = None"
  "strip_prefix ENVIRONMENT_ID_MARKER (DELETE_FILE_MARKER @ p) = None"
  "strip_prefix ENVIRONMENT_ID_MARKER (UPDATE_FILE_MARKER @ p) = None"
  "strip_prefix MOVE_TO_MARKER (CHANGE_CONTEXT_MARKER @ p) = None"
  "strip_prefix MOVE_TO_MARKER EMPTY_CHANGE_CONTEXT_MARKER = None"
  by (simp_all add: marker_defs)

lemma strip_prefix_hd_neq: "m \<noteq> [] \<Longrightarrow> hd m \<noteq> c \<Longrightarrow> strip_prefix m (c # l) = None"
  by (cases m) auto

section \<open>The lines of a printed patch\<close>

lemma str_lines_join:
  assumes "ls \<noteq> []" "last ls \<noteq> []" "list_all wf_line ls"
  shows "str_lines (join [newline] ls) = ls"
proof -
  have split: "split_on newline (join [newline] ls) = ls"
    using assms by (intro split_on_join) (auto simp: list_all_iff wf_line_def)
  have cr: "strip_cr l = l" if "l \<in> set (butlast ls)" for l
  proof -
    have "wf_line l" using that assms(3) by (auto simp: list_all_iff dest: in_set_butlastD)
    then show ?thesis
      by (auto simp: strip_cr_def wf_line_def strip_suffix_Some_iff split: option.splits)
  qed
  have "map strip_cr (butlast ls) = butlast ls" using cr by (simp add: map_idI)
  with split assms(1,2) show ?thesis by (simp add: str_lines_def Let_def)
qed

lemma wf_print_chunk: "wf_chunk c \<Longrightarrow> list_all wf_line (print_chunk c)"
  by (auto simp: print_chunk_def wf_chunk_def list_all_iff wf_line_append_name wf_line_Cons
      split: option.splits) (simp_all add: marker_defs wf_line_def)

lemma wf_print_hunk: "wf_hunk h \<Longrightarrow> list_all wf_line (print_hunk h)"
proof (cases h)
  case (AddFile p s)
  then show "wf_hunk h \<Longrightarrow> ?thesis"
    by (auto simp: list_all_iff wf_line_append_name wf_line_Cons)
next
  case (DeleteFile p)
  then show "wf_hunk h \<Longrightarrow> ?thesis" by (simp add: wf_line_append_name)
next
  case (UpdateFile p mv cs)
  then show "wf_hunk h \<Longrightarrow> ?thesis"
    using wf_print_chunk by (auto simp: list_all_iff wf_line_append_name split: option.splits)
qed

lemma wf_print_lines:
  assumes "wf_env env" "list_all wf_hunk hs"
  shows "list_all wf_line (print_lines env hs)"
proof -
  have "wf_line BEGIN_PATCH_MARKER" "wf_line END_PATCH_MARKER" by (simp_all add: marker_defs wf_line_def)
  moreover have "list_all wf_line (print_env env)"
    using assms(1) by (auto simp: print_env_def wf_env_def wf_line_append_name split: option.splits)
  moreover have "list_all wf_line (concat (map print_hunk hs))"
    using assms(2) wf_print_hunk by (auto simp: list_all_iff)
  ultimately show ?thesis by (simp add: print_lines_def)
qed

lemma str_lines_print_patch:
  "wf_env env \<Longrightarrow> list_all wf_hunk hs \<Longrightarrow> str_lines (print_patch env hs) = print_lines env hs"
  unfolding print_patch_def
  by (intro str_lines_join wf_print_lines) (simp_all add: print_lines_def)

lemma join_Cons_neq: "ls \<noteq> [] \<Longrightarrow> join sep (l # ls) = l @ sep @ join sep ls"
  by (cases ls) auto

lemma last_join: "ls \<noteq> [] \<Longrightarrow> last ls \<noteq> [] \<Longrightarrow> last (join [c] ls) = last (last ls) \<and> join [c] ls \<noteq> []"
  by (induction "[c]" ls rule: join.induct) (auto split: if_splits)

lemma trim_print_patch: "trim (print_patch env hs) = print_patch env hs"
proof (rule trim_id)
  have tail: "print_patch env hs = BEGIN_PATCH_MARKER @ newline #
      join [newline] (print_env env @ concat (map print_hunk hs) @ [END_PATCH_MARKER])"
    by (simp add: print_patch_def print_lines_def join_Cons_neq)
  then show "print_patch env hs \<noteq> []" "\<not> is_whitespace (hd (print_patch env hs))" by simp_all
  have "last (print_patch env hs) = last END_PATCH_MARKER"
    using last_join [of "print_lines env hs" newline] by (simp add: print_patch_def print_lines_def)
  then show "\<not> is_whitespace (last (print_patch env hs))" by (simp add: marker_defs)
qed

section \<open>Reading chunks back\<close>

definition chunk_end :: "rstr list \<Rightarrow> bool" where
  "chunk_end ls \<longleftrightarrow> (case ls of [] \<Rightarrow> True
     | l # _ \<Rightarrow> l \<noteq> EOF_MARKER \<and> l \<noteq> [] \<and> hd l \<notin> {space, plus_sign, minus_sign})"

lemma EOF_MARKER_neq [simp]:
  "EOF_MARKER \<noteq> minus_sign # l" "EOF_MARKER \<noteq> plus_sign # l"
  "minus_sign # l \<noteq> EOF_MARKER" "plus_sign # l \<noteq> EOF_MARKER"
  "ADD_FILE_MARKER @ l \<noteq> EOF_MARKER" "DELETE_FILE_MARKER @ l \<noteq> EOF_MARKER"
  "UPDATE_FILE_MARKER @ l \<noteq> EOF_MARKER" "CHANGE_CONTEXT_MARKER @ l \<noteq> EOF_MARKER"
  "EMPTY_CHANGE_CONTEXT_MARKER \<noteq> EOF_MARKER"
  by (simp_all add: marker_defs)

lemma chunk_loop_olds:
  "chunk_loop ln (map (Cons minus_sign) os @ ls) parsed c =
     chunk_loop ln ls (parsed + length os) (c\<lparr>old_lines := old_lines c @ os\<rparr>)"
  by (induction os arbitrary: parsed c) (simp_all add: push_old_def)

lemma chunk_loop_news:
  "chunk_loop ln (map (Cons plus_sign) ns @ ls) parsed c =
     chunk_loop ln ls (parsed + length ns) (c\<lparr>new_lines := new_lines c @ ns\<rparr>)"
  by (induction ns arbitrary: parsed c) (simp_all add: push_new_def)

lemma chunk_loop_stop: "0 < parsed \<Longrightarrow> chunk_end ls \<Longrightarrow> chunk_loop ln ls parsed c = Inr (c, parsed)"
  by (cases ls) (auto simp: chunk_end_def split: list.splits)

lemma parse_print_chunk:
  assumes "wf_chunk c" "chunk_end rest"
  shows "parse_update_file_chunk (print_chunk c @ rest) ln allow = Inr (c, length (print_chunk c))"
proof -
  define body where "body = map (Cons minus_sign) (old_lines c) @ map (Cons plus_sign) (new_lines c) @
     (if is_end_of_file c then [EOF_MARKER] else [])"
  obtain hd_line where lines: "print_chunk c = hd_line # body"
    and hd_line: "chunk_header hd_line allow ln = Inr (change_context c, 1)"
  proof
    show "chunk_header (case change_context c of None \<Rightarrow> EMPTY_CHANGE_CONTEXT_MARKER
        | Some ctx \<Rightarrow> CHANGE_CONTEXT_MARKER @ ctx) allow ln = Inr (change_context c, 1)"
      by (cases "change_context c") (auto simp: chunk_header_def, simp_all add: marker_defs)
  qed (simp add: print_chunk_def body_def)
  have pos: "0 < length (old_lines c) + length (new_lines c)"
    using assms(1) by (auto simp: wf_chunk_def chunk_has_lines_def)
  have loop: "chunk_loop ln (body @ rest) 0 (empty_chunk (change_context c)) = Inr (c, length body)"
    using pos assms(2) by (auto simp: body_def chunk_loop_olds chunk_loop_news chunk_loop_stop)
  have "body \<noteq> []" using pos by (auto simp: body_def)
  with loop hd_line show ?thesis by (simp add: parse_update_file_chunk_def lines)
qed

definition hunk_end :: "rstr list \<Rightarrow> bool" where
  "hunk_end ls \<longleftrightarrow> (case ls of [] \<Rightarrow> True
     | l # _ \<Rightarrow> (\<exists>p. l = ADD_FILE_MARKER @ p \<or> l = DELETE_FILE_MARKER @ p \<or> l = UPDATE_FILE_MARKER @ p))"

lemma hunk_end_chunk_end: "hunk_end ls \<Longrightarrow> chunk_end ls"
  by (cases ls) (auto simp: hunk_end_def chunk_end_def)

lemma chunk_end_print_chunk: "chunk_end (print_chunk c @ rest)"
  by (auto simp: chunk_end_def print_chunk_def split: option.splits)

lemma trim_hd_not_ws: "l \<noteq> [] \<Longrightarrow> \<not> is_whitespace (hd l) \<Longrightarrow> trim l \<noteq> []"
  by (cases l) (auto simp: trim_def trim_start_def trim_end_def)

lemma parse_chunks_hunk_end: "hunk_end rest \<Longrightarrow> parse_chunks rest ln parsed cs = Inr (cs, parsed)"
proof (cases rest)
  case (Cons l ls)
  assume "hunk_end rest"
  with Cons have "l \<noteq> []" "hd l = star" by (auto simp: hunk_end_def)
  then have "trim l \<noteq> []" "starts_with l [star]"
    by (simp add: trim_hd_not_ws) (use \<open>l \<noteq> []\<close> \<open>hd l = star\<close> in \<open>cases l, auto simp: starts_with_def\<close>)
  with Cons show ?thesis by simp
qed simp

lemma parse_print_chunks:
  assumes "list_all wf_chunk cs" "hunk_end rest"
  shows "parse_chunks (concat (map print_chunk cs) @ rest) ln parsed done =
    Inr (done @ cs, parsed + length (concat (map print_chunk cs)))"
  using assms(1)
proof (induction cs arbitrary: parsed "done")
  case Nil
  with assms(2) show ?case by (simp add: parse_chunks_hunk_end)
next
  case (Cons c cs)
  let ?rest = "concat (map print_chunk cs) @ rest"
  have "chunk_end ?rest"
    using assms(2) chunk_end_print_chunk [of "hd cs" "concat (map print_chunk (tl cs)) @ rest"]
    by (cases cs) (simp_all add: hunk_end_chunk_end)
  then have chunk: "parse_update_file_chunk (print_chunk c @ ?rest) (ln + parsed) (done = []) =
      Inr (c, length (print_chunk c))"
    using Cons.prems by (intro parse_print_chunk) simp_all
  obtain l ls where ls: "print_chunk c @ ?rest = l # ls" and l: "l \<noteq> []" "hd l = 64"
    by (auto simp: print_chunk_def split: option.splits)
  have "trim l \<noteq> []" "\<not> starts_with l [star]"
    using l trim_hd_not_ws [of l] by (auto simp: starts_with_iff)
  then have "parse_chunks (print_chunk c @ ?rest) ln parsed done =
      parse_chunks (drop (length (print_chunk c)) (print_chunk c @ ?rest)) ln
        (parsed + length (print_chunk c)) (done @ [c])"
    using chunk by (simp only: ls parse_chunks.simps) simp
  with Cons show ?case by simp
qed

section \<open>Reading hunks back\<close>

lemma parse_add_lines_print:
  assumes "hunk_end rest"
  shows "parse_add_lines (map (Cons plus_sign) ls @ rest) =
    (concat (map (\<lambda>l. l @ [newline]) ls), length ls)"
proof (induction ls)
  case Nil
  have "strip_prefix [plus_sign] (m @ p) = None" if "m \<noteq> []" "hd m = star" for m p
    using that by (cases m) auto
  with assms show ?case by (cases rest) (auto simp: hunk_end_def)
next
  case (Cons l ls)
  then show ?case by simp
qed

lemma concat_content_lines:
  assumes "s = [] \<or> last s = newline"
  shows "concat (map (\<lambda>l. l @ [newline]) (content_lines s)) = s"
proof -
  have gen: "concat (map (\<lambda>l. l @ [c]) (butlast (split_on c xs))) @ last (split_on c xs) = xs"
    for c :: rchar and xs
  proof (induction xs)
    case (Cons x xs)
    obtain p ps where "split_on c xs = p # ps" by (cases "split_on c xs") auto
    with Cons show ?case by (cases ps) auto
  qed simp
  have "last (split_on newline s) = []"
  proof (cases s rule: rev_cases)
    case (snoc t c)
    with assms have c: "c = newline" by simp
    have "last (split_on newline (t @ [newline])) = []"
    proof (induction t)
      case (Cons x t)
      obtain p ps where "split_on newline (t @ [newline]) = p # ps"
        by (cases "split_on newline (t @ [newline])") auto
      moreover have "ps \<noteq> []"
        using calculation gen [of newline "t @ [newline]"] split_on_pieces [of p newline "t @ [newline]"]
        by (cases ps) auto
      ultimately show ?case using Cons by auto
    qed simp
    with snoc c show ?thesis by simp
  qed simp
  with gen [of newline s] show ?thesis by (simp add: content_lines_def)
qed

lemma hunk_end_print_hunks: "hunk_end (concat (map print_hunk hs))"
proof (cases hs)
  case (Cons h hs')
  then show ?thesis by (cases h) (auto simp: hunk_end_def)
qed (simp add: hunk_end_def)

lemma move_line_of_chunks:
  "cs \<noteq> [] \<Longrightarrow> \<exists>x xs. concat (map print_chunk cs) @ rest = x # xs \<and> strip_prefix MOVE_TO_MARKER x = None"
  by (cases cs) (auto simp: print_chunk_def split: option.splits)

lemma parse_print_hunk:
  assumes "wf_hunk h" "hunk_end rest"
  shows "parse_one_hunk (hd (print_hunk h)) (tl (print_hunk h) @ rest) ln = Inr (h, length (print_hunk h))"
proof (cases h)
  case (AddFile p s)
  with assms show ?thesis
    by (simp add: parse_one_hunk_def trim_marker_name parse_add_lines_print concat_content_lines)
next
  case (DeleteFile p)
  with assms show ?thesis by (simp add: parse_one_hunk_def trim_marker_name)
next
  case (UpdateFile p mv cs)
  with assms have wf: "wf_name p" "cs \<noteq> []" "list_all wf_chunk cs" by simp_all
  note chunks = parse_print_chunks [OF wf(3) assms(2)]
  obtain x xs where x: "concat (map print_chunk cs) @ rest = x # xs" "strip_prefix MOVE_TO_MARKER x = None"
    using move_line_of_chunks [OF wf(2)] by blast
  show ?thesis
  proof (cases mv)
    case None
    with UpdateFile wf chunks [of ln 1 "[]"] x show ?thesis
      by (simp add: parse_one_hunk_def trim_marker_name)
  next
    case (Some m)
    with UpdateFile wf chunks [of ln 2 "[]"] show ?thesis
      by (simp add: parse_one_hunk_def trim_marker_name)
  qed
qed

lemma parse_print_hunks:
  "list_all wf_hunk hs \<Longrightarrow> parse_hunks (concat (map print_hunk hs)) ln = Inr hs"
proof (induction hs arbitrary: ln)
  case Nil
  then show ?case by simp
next
  case (Cons h hs)
  let ?rest = "concat (map print_hunk hs)"
  have lines: "print_hunk h @ ?rest = hd (print_hunk h) # (tl (print_hunk h) @ ?rest)"
    by (cases h) simp_all
  have one: "parse_one_hunk (hd (print_hunk h)) (tl (print_hunk h) @ ?rest) ln = Inr (h, length (print_hunk h))"
    using Cons.prems hunk_end_print_hunks by (intro parse_print_hunk) simp_all
  have "parse_hunks (print_hunk h @ ?rest) ln =
      (case parse_hunks (drop (length (print_hunk h)) (print_hunk h @ ?rest)) (ln + length (print_hunk h)) of
         Inl e \<Rightarrow> Inl e | Inr hs \<Rightarrow> Inr (h # hs))"
    by (subst (1 2) lines) (simp add: one)
  with Cons show ?case by simp
qed

section \<open>Reading a patch back\<close>

lemma parse_print_patch:
  assumes "wf_env env" "list_all wf_hunk hs"
  shows "parse_patch (print_patch env hs) =
    Inr \<lparr>patch = print_patch env hs, hunks = hs, workdir = None, environment_id = env\<rparr>"
proof -
  let ?ls = "print_lines env hs"
  have lines: "str_lines (trim (print_patch env hs)) = ?ls"
    by (simp only: trim_print_patch str_lines_print_patch [OF assms])
  have "last_opt ?ls = Some END_PATCH_MARKER" by (simp add: print_lines_def last_opt_conv)
  moreover have "trim BEGIN_PATCH_MARKER = BEGIN_PATCH_MARKER" "trim END_PATCH_MARKER = END_PATCH_MARKER"
    by (intro trim_id; simp add: marker_defs)+
  ultimately have bounds: "check_patch_boundaries_lenient ?ls =
      Inr (?ls, print_env env @ concat (map print_hunk hs))"
    by (simp add: check_patch_boundaries_lenient_def check_patch_boundaries_strict_def
        check_start_and_end_lines_strict_def print_lines_def butlast_append)
  have env: "\<exists>ln. parse_environment_id_preamble (print_env env @ concat (map print_hunk hs)) =
      Inr (env, concat (map print_hunk hs), ln)"
  proof (cases env)
    case (Some e)
    with assms(1) have e: "wf_name e" "trim e = e"
      by (auto simp: wf_env_def wf_name_def intro: trim_id)
    have "trim_start (ENVIRONMENT_ID_MARKER @ e) = ENVIRONMENT_ID_MARKER @ e"
      by (simp add: marker_defs trim_start_def)
    with e Some show ?thesis
      by (simp add: parse_environment_id_preamble_def print_env_def wf_name_def)
  next
    case None
    have ts: "trim_start (m @ p) = m @ p" if "m \<noteq> []" "\<not> is_whitespace (hd m)" for m p
      using that by (cases m) (simp_all add: trim_start_def)
    show ?thesis
    proof (cases hs)
      case (Cons h hs')
      with None show ?thesis
        by (cases h) (simp_all add: parse_environment_id_preamble_def print_env_def ts)
    qed (simp add: None parse_environment_id_preamble_def print_env_def)
  qed
  from lines bounds env parse_print_hunks [OF assms(2)] show ?thesis
    by (auto simp: parse_patch_def PARSE_IN_STRICT_MODE_def parse_patch_text_def print_patch_def)
qed

section \<open>Properties\<close>

text \<open>
  C17: Printing a list of well-formed hunks with an optional environment identifier and
  parsing the text gives back the hunks, the identifier and the text itself.
\<close>

theorem parse_patch_print_patch:
  assumes "wf_env env" "list_all wf_hunk hs"
  shows "parse_patch (print_patch env hs) =
    Inr \<lparr>patch = print_patch env hs, hunks = hs, workdir = None, environment_id = env\<rparr>"
  using assms by (rule parse_print_patch)

theorem parse_patch_print_patch_witness:
  "parse_patch (print_patch (Some (lit ''remote''))
     [AddFile (lit ''a'') (lit ''x'' @ [newline]),
      UpdateFile (lit ''b'') (Some (lit ''c''))
        [\<lparr>change_context = Some (lit ''f''), old_lines = [lit ''y''], new_lines = [], is_end_of_file = True\<rparr>]]) =
   Inr \<lparr>patch = print_patch (Some (lit ''remote''))
     [AddFile (lit ''a'') (lit ''x'' @ [newline]),
      UpdateFile (lit ''b'') (Some (lit ''c''))
        [\<lparr>change_context = Some (lit ''f''), old_lines = [lit ''y''], new_lines = [], is_end_of_file = True\<rparr>]],
     hunks = [AddFile (lit ''a'') (lit ''x'' @ [newline]),
      UpdateFile (lit ''b'') (Some (lit ''c''))
        [\<lparr>change_context = Some (lit ''f''), old_lines = [lit ''y''], new_lines = [], is_end_of_file = True\<rparr>]],
     workdir = None, environment_id = Some (lit ''remote'')\<rparr>"
  by (rule parse_patch_print_patch)
     (simp_all add: wf_env_def wf_name_def wf_chunk_def wf_line_def chunk_has_lines_def
       content_lines_def is_whitespace_def)

end
