(* ===== verification/Patch_Stream.thy ===== *)
theory Patch_Stream
  imports Patch_Grammar
begin

text \<open>
  The streaming patch parser (\<open>apply-patch/src/streaming_parser.rs\<close>), which previews a patch
  while its text arrives. The state is the partial line, the mode and the hunks so far;
  \<open>push_delta\<close> feeds characters, \<open>finish\<close> ends the text. The step on one character
  interprets \<open>fallible_stepper\<close>, which gives independence of how the text is cut; the
  invariant of that interpretation says that the mode and the last hunk agree and that every
  completed hunk has the shape the batch parser guarantees.
\<close>

section \<open>State\<close>

datatype streaming_parser_mode =
    NotStarted
  | StartedPatch
  | InAddFile
  | InDeleteFile
  | InUpdateFile (hunk_line_number: nat)
  | EndedPatch

record streaming_patch_parser =
  line_buffer :: rstr
  sp_mode :: streaming_parser_mode
  sp_hunks :: "hunk list"
  sp_line_number :: nat

definition streaming_default :: streaming_patch_parser where
  "streaming_default = \<lparr>line_buffer = [], sp_mode = NotStarted, sp_hunks = [], sp_line_number = 0\<rparr>"

section \<open>Operations\<close>

definition last_chunk_is_empty :: "update_file_chunk list \<Rightarrow> bool" where
  "last_chunk_is_empty chunks \<longleftrightarrow>
     (case last_opt chunks of None \<Rightarrow> False | Some c \<Rightarrow> old_lines c = [] \<and> new_lines c = [])"

definition ensure_update_hunk_is_not_empty :: "streaming_patch_parser \<Rightarrow> rstr \<Rightarrow> parse_error option" where
  "ensure_update_hunk_is_not_empty st line =
     (case last_opt (sp_hunks st) of
        Some (UpdateFile path mv chunks) \<Rightarrow>
          (case (chunks, sp_mode st) of
             ([], InUpdateFile n) \<Rightarrow> Some (InvalidHunkError (empty_update_message path) n)
           | _ \<Rightarrow>
             if last_chunk_is_empty chunks then
               (if line = END_PATCH_MARKER then Some (InvalidHunkError no_lines_message (sp_line_number st))
                else Some (InvalidHunkError (unexpected_line_message line) (sp_line_number st)))
             else None)
      | _ \<Rightarrow> None)"

definition push_hunk :: "hunk \<Rightarrow> streaming_parser_mode \<Rightarrow> streaming_patch_parser \<Rightarrow> streaming_patch_parser" where
  "push_hunk h m st = st\<lparr>sp_hunks := sp_hunks st @ [h], sp_mode := m\<rparr>"

text \<open>The state after a header or end line; \<open>Inr None\<close> when the line is neither.\<close>

definition handle_hunk_headers_and_end_patch ::
    "streaming_patch_parser \<Rightarrow> rstr \<Rightarrow> (parse_error, streaming_patch_parser option) result" where
  "handle_hunk_headers_and_end_patch st trimmed =
     (let checked = (\<lambda>st'. case ensure_update_hunk_is_not_empty st trimmed of
                            Some e \<Rightarrow> Inl e | None \<Rightarrow> Inr (Some st')) in
      if trimmed = END_PATCH_MARKER then checked (st\<lparr>sp_mode := EndedPatch\<rparr>)
      else case strip_prefix ADD_FILE_MARKER trimmed of
        Some path \<Rightarrow> checked (push_hunk (AddFile path []) InAddFile st)
      | None \<Rightarrow>
      (case strip_prefix DELETE_FILE_MARKER trimmed of
        Some path \<Rightarrow> checked (push_hunk (DeleteFile path) InDeleteFile st)
      | None \<Rightarrow>
      (case strip_prefix UPDATE_FILE_MARKER trimmed of
        Some path \<Rightarrow> checked (push_hunk (UpdateFile path None []) (InUpdateFile (sp_line_number st)) st)
      | None \<Rightarrow> Inr None)))"

text \<open>A line of an update hunk pushed into its last chunk, which is created when missing.\<close>

definition push_into_last :: "(update_file_chunk \<Rightarrow> update_file_chunk) \<Rightarrow> update_file_chunk list \<Rightarrow> update_file_chunk list" where
  "push_into_last f chunks = update_last f (if chunks = [] then [empty_chunk None] else chunks)"

definition process_update_line ::
    "rstr option \<Rightarrow> update_file_chunk list \<Rightarrow> rstr \<Rightarrow> nat
       \<Rightarrow> (parse_error, rstr option \<times> update_file_chunk list) result" where
  "process_update_line mv chunks line ln =
     (let update_line = trim_end line in
      if chunks = [] \<and> mv = None \<and> strip_prefix MOVE_TO_MARKER update_line \<noteq> None
        then Inr (strip_prefix MOVE_TO_MARKER update_line, chunks)
      else if (update_line = EMPTY_CHANGE_CONTEXT_MARKER \<or> starts_with update_line CHANGE_CONTEXT_MARKER)
              \<and> last_chunk_is_empty chunks
        then Inl (InvalidHunkError (unexpected_line_message line) ln)
      else if update_line = EMPTY_CHANGE_CONTEXT_MARKER
        then Inr (mv, chunks @ [empty_chunk None])
      else case strip_prefix CHANGE_CONTEXT_MARKER update_line of
        Some ctx \<Rightarrow> Inr (mv, chunks @ [empty_chunk (Some ctx)])
      | None \<Rightarrow>
      if update_line = EOF_MARKER then
        (if last_chunk_is_empty chunks then Inl (InvalidHunkError no_lines_message ln)
         else Inr (mv, update_last (\<lambda>c. c\<lparr>is_end_of_file := True\<rparr>) chunks))
      else case line of
        [] \<Rightarrow> Inr (mv, push_into_last (\<lambda>c. push_new [] (push_old [] c)) chunks)
      | ch # rest \<Rightarrow>
          if ch = space then Inr (mv, push_into_last (\<lambda>c. push_new rest (push_old rest c)) chunks)
          else if ch = plus_sign then Inr (mv, push_into_last (push_new rest) chunks)
          else if ch = minus_sign then Inr (mv, push_into_last (push_old rest) chunks)
          else if chunks \<noteq> [] \<and> \<not> last_chunk_is_empty chunks then
            Inl (InvalidHunkError
              (lit ''Expected update hunk to start with a @@ context marker, got: '' @ [39] @ line @ [39]) ln)
          else Inl (InvalidHunkError (unexpected_line_message line) ln))"

text \<open>
  One complete line. Every error is returned before the state is changed, so the state of a
  failed step is the state before it.
\<close>

definition process_line_result ::
    "streaming_patch_parser \<Rightarrow> rstr \<Rightarrow> (parse_error, streaming_patch_parser) result" where
  "process_line_result st line =
     (let trimmed = trim line;
          bad_header = Inl (InvalidHunkError (invalid_header_message trimmed) (sp_line_number st))
      in case sp_mode st of
        NotStarted \<Rightarrow>
          if trimmed = BEGIN_PATCH_MARKER then Inr (st\<lparr>sp_mode := StartedPatch\<rparr>) else Inl bad_first_line
      | StartedPatch \<Rightarrow>
          if starts_with line ENVIRONMENT_ID_MARKER then Inr st
          else rbind (handle_hunk_headers_and_end_patch st trimmed) (\<lambda>r.
            case r of Some st' \<Rightarrow> Inr st' | None \<Rightarrow> bad_header)
      | InAddFile \<Rightarrow>
          rbind (handle_hunk_headers_and_end_patch st trimmed) (\<lambda>r.
            case r of Some st' \<Rightarrow> Inr st'
            | None \<Rightarrow>
              (case (strip_prefix [plus_sign] line, last_opt (sp_hunks st)) of
                 (Some line_to_add, Some (AddFile path contents)) \<Rightarrow>
                   Inr (st\<lparr>sp_hunks := butlast (sp_hunks st) @ [AddFile path (contents @ line_to_add @ [newline])]\<rparr>)
               | _ \<Rightarrow> bad_header))
      | InDeleteFile \<Rightarrow>
          rbind (handle_hunk_headers_and_end_patch st trimmed) (\<lambda>r.
            case r of Some st' \<Rightarrow> Inr st' | None \<Rightarrow> bad_header)
      | InUpdateFile n \<Rightarrow>
          rbind (handle_hunk_headers_and_end_patch st (trim_end line)) (\<lambda>r.
            case r of Some st' \<Rightarrow> Inr st'
            | None \<Rightarrow>
              (case last_opt (sp_hunks st) of
                 Some (UpdateFile path mv chunks) \<Rightarrow>
                   rbind (process_update_line mv chunks line (sp_line_number st)) (\<lambda>(mv', chunks').
                     Inr (st\<lparr>sp_hunks := butlast (sp_hunks st) @ [UpdateFile path mv' chunks']\<rparr>))
               | _ \<Rightarrow> Inl (InvalidHunkError (unexpected_line_message line) (sp_line_number st))))
      | EndedPatch \<Rightarrow> Inr st)"

definition process_line :: "streaming_patch_parser \<Rightarrow> rstr \<Rightarrow> streaming_patch_parser \<times> parse_error option" where
  "process_line st line = (case process_line_result st line of Inl e \<Rightarrow> (st, Some e) | Inr st' \<Rightarrow> (st', None))"

text \<open>One character of \<open>push_delta\<close>: a line feed completes the line in the buffer.\<close>

definition push_char :: "streaming_patch_parser \<Rightarrow> rchar \<Rightarrow> streaming_patch_parser \<times> parse_error option" where
  "push_char st ch =
     (if ch = newline then
        process_line (st\<lparr>line_buffer := [], sp_line_number := sp_line_number st + 1\<rparr>) (strip_cr (line_buffer st))
      else (st\<lparr>line_buffer := line_buffer st @ [ch]\<rparr>, None))"

definition push_delta ::
    "streaming_patch_parser \<Rightarrow> rstr \<Rightarrow> streaming_patch_parser \<times> (parse_error, hunk list) result" where
  "push_delta st delta =
     (case fold_until push_char st delta of
        (st', Some e) \<Rightarrow> (st', Inl e)
      | (st', None) \<Rightarrow> (st', Inr (sp_hunks st')))"

definition stream_finish ::
    "streaming_patch_parser \<Rightarrow> streaming_patch_parser \<times> (parse_error, hunk list) result" where
  "stream_finish st =
     (let (st', err) =
        (if line_buffer st \<noteq> [] then
           (let line = line_buffer st;
                st1 = st\<lparr>line_buffer := [], sp_line_number := sp_line_number st + 1\<rparr>
            in if trim line = END_PATCH_MARKER then
                 (case ensure_update_hunk_is_not_empty st1 (trim line) of
                    Some e \<Rightarrow> (st1, Some e)
                  | None \<Rightarrow> (st1\<lparr>sp_mode := EndedPatch\<rparr>, None))
               else process_line st1 line)
         else (st, None))
      in case err of
           Some e \<Rightarrow> (st', Inl e)
         | None \<Rightarrow> (st', if sp_mode st' = EndedPatch then Inr (sp_hunks st') else Inl bad_last_line))"

section \<open>The invariant\<close>

text \<open>
  All hunks but the last are complete. The mode names the kind of the last hunk; inside an
  update, all its chunks but the last have lines.
\<close>

definition chunks_inv :: "update_file_chunk list \<Rightarrow> bool" where
  "chunks_inv cs \<longleftrightarrow> (\<forall>c \<in> set (butlast cs). chunk_has_lines c)"

definition stream_inv :: "streaming_patch_parser \<Rightarrow> bool" where
  "stream_inv st \<longleftrightarrow>
     (\<forall>h \<in> set (butlast (sp_hunks st)). hunk_ok h) \<and>
     (case sp_mode st of
        NotStarted \<Rightarrow> sp_hunks st = []
      | StartedPatch \<Rightarrow> sp_hunks st = []
      | InAddFile \<Rightarrow> (case last_opt (sp_hunks st) of Some (AddFile _ _) \<Rightarrow> True | _ \<Rightarrow> False)
      | InDeleteFile \<Rightarrow> (case last_opt (sp_hunks st) of Some (DeleteFile _) \<Rightarrow> True | _ \<Rightarrow> False)
      | InUpdateFile n \<Rightarrow>
          (case last_opt (sp_hunks st) of Some (UpdateFile _ _ cs) \<Rightarrow> chunks_inv cs | _ \<Rightarrow> False)
      | EndedPatch \<Rightarrow> (\<forall>h \<in> set (sp_hunks st). hunk_ok h))"

lemma last_chunk_is_empty_snoc [simp]: "last_chunk_is_empty (cs @ [c]) \<longleftrightarrow> \<not> chunk_has_lines c"
  by (simp add: last_chunk_is_empty_def chunk_has_lines_def)

lemma last_chunk_is_empty_Nil [simp]: "\<not> last_chunk_is_empty []"
  by (simp add: last_chunk_is_empty_def)

lemma chunks_all_ok: "chunks_inv cs \<Longrightarrow> \<not> last_chunk_is_empty cs \<Longrightarrow> \<forall>c \<in> set cs. chunk_has_lines c"
  by (cases cs rule: rev_cases) (auto simp: chunks_inv_def)

lemma last_opt_SomeD: "last_opt xs = Some x \<Longrightarrow> xs = butlast xs @ [x]"
  by (auto simp: last_opt_conv split: if_splits)

lemma ensured_all_ok:
  assumes "stream_inv st" "ensure_update_hunk_is_not_empty st l = None"
  shows "\<forall>h \<in> set (sp_hunks st). hunk_ok h"
proof (cases "sp_hunks st" rule: rev_cases)
  case (snoc hs h)
  with assms(1) have hs: "\<forall>h \<in> set hs. hunk_ok h" by (auto simp: stream_inv_def)
  have "hunk_ok h"
  proof (cases h)
    case (UpdateFile p mv cs)
    show ?thesis
    proof (cases "sp_mode st")
      case (InUpdateFile n)
      with assms snoc UpdateFile have "cs \<noteq> []" "\<not> last_chunk_is_empty cs" "chunks_inv cs"
        by (auto simp: stream_inv_def ensure_update_hunk_is_not_empty_def split: list.splits if_splits)
      with UpdateFile show ?thesis using chunks_all_ok by auto
    qed (use assms(1) snoc UpdateFile in \<open>auto simp: stream_inv_def\<close>)
  qed simp_all
  with hs snoc show ?thesis by auto
qed simp

lemma handle_headers_inv:
  assumes "stream_inv st" "handle_hunk_headers_and_end_patch st t = Inr (Some st')"
  shows "stream_inv st'"
proof -
  have ok: "\<forall>h \<in> set (sp_hunks st). hunk_ok h"
    using ensured_all_ok [OF assms(1), of t] assms(2)
    by (auto simp: handle_hunk_headers_and_end_patch_def Let_def split: if_splits option.splits)
  consider "st' = st\<lparr>sp_mode := EndedPatch\<rparr>"
    | p where "st' = push_hunk (AddFile p []) InAddFile st"
    | p where "st' = push_hunk (DeleteFile p) InDeleteFile st"
    | p where "st' = push_hunk (UpdateFile p None []) (InUpdateFile (sp_line_number st)) st"
    using assms(2)
    by (auto simp: handle_hunk_headers_and_end_patch_def Let_def split: if_splits option.splits)
  then show ?thesis
    using ok by cases (auto simp: stream_inv_def push_hunk_def chunks_inv_def dest: in_set_butlastD)
qed

lemma chunks_inv_update_last:
  "chunks_inv cs \<Longrightarrow> chunks_inv (update_last f cs)"
  by (cases cs rule: rev_cases) (auto simp: chunks_inv_def)

lemma chunks_inv_push_into_last: "chunks_inv cs \<Longrightarrow> chunks_inv (push_into_last f cs)"
  by (cases "cs = []") (simp_all add: push_into_last_def chunks_inv_update_last, simp add: chunks_inv_def)

lemma chunks_inv_snoc: "chunks_inv cs \<Longrightarrow> \<not> last_chunk_is_empty cs \<Longrightarrow> chunks_inv (cs @ [c])"
  using chunks_all_ok by (auto simp: chunks_inv_def)

lemma process_update_line_inv:
  assumes "chunks_inv cs" "process_update_line mv cs line ln = Inr (mv', cs')"
  shows "chunks_inv cs'"
proof -
  consider "cs' = cs" | c where "cs' = cs @ [c]" "\<not> last_chunk_is_empty cs"
    | f where "cs' = update_last f cs" | f where "cs' = push_into_last f cs"
    using assms(2)
    by (auto simp: process_update_line_def Let_def starts_with_def split: if_splits option.splits list.splits)
  then show ?thesis
    using assms(1) chunks_inv_update_last chunks_inv_push_into_last chunks_inv_snoc by cases auto
qed

lemma process_line_result_inv:
  assumes inv: "stream_inv st" and ok: "process_line_result st line = Inr st'"
  shows "stream_inv st'"
proof (cases "sp_mode st")
  case InAddFile
  then consider t where "handle_hunk_headers_and_end_patch st t = Inr (Some st')"
    | p s s' where "last_opt (sp_hunks st) = Some (AddFile p s)"
        "st' = st\<lparr>sp_hunks := butlast (sp_hunks st) @ [AddFile p s']\<rparr>"
    using ok by (auto simp: process_line_result_def Let_def rbind_eq_Inr_iff split: option.splits hunk.splits)
  then show ?thesis
  proof cases
    case 1
    with inv show ?thesis by (rule handle_headers_inv)
  next
    case 2
    with inv InAddFile show ?thesis by (auto simp: stream_inv_def)
  qed
next
  case (InUpdateFile n)
  then consider t where "handle_hunk_headers_and_end_patch st t = Inr (Some st')"
    | p mv cs mv' cs' where "last_opt (sp_hunks st) = Some (UpdateFile p mv cs)"
        "process_update_line mv cs line (sp_line_number st) = Inr (mv', cs')"
        "st' = st\<lparr>sp_hunks := butlast (sp_hunks st) @ [UpdateFile p mv' cs']\<rparr>"
    using ok by (auto simp: process_line_result_def Let_def rbind_eq_Inr_iff split: option.splits hunk.splits)
  then show ?thesis
  proof cases
    case 1
    with inv show ?thesis by (rule handle_headers_inv)
  next
    case 2
    with inv InUpdateFile show ?thesis
      using process_update_line_inv [OF _ 2(2)] by (auto simp: stream_inv_def)
  qed
next
  case NotStarted
  with inv ok show ?thesis
    by (auto simp: process_line_result_def Let_def stream_inv_def split: if_splits)
next
  case StartedPatch
  with ok consider "st' = st" | t where "handle_hunk_headers_and_end_patch st t = Inr (Some st')"
    by (auto simp: process_line_result_def Let_def rbind_eq_Inr_iff split: option.splits if_splits)
  then show ?thesis using inv handle_headers_inv by cases auto
next
  case InDeleteFile
  with ok obtain t where "handle_hunk_headers_and_end_patch st t = Inr (Some st')"
    by (auto simp: process_line_result_def Let_def rbind_eq_Inr_iff split: option.splits)
  with inv show ?thesis by (rule handle_headers_inv)
next
  case EndedPatch
  with inv ok show ?thesis by (simp add: process_line_result_def)
qed

lemma process_line_inv: "stream_inv st \<Longrightarrow> stream_inv (fst (process_line st line))"
  by (auto simp: process_line_def dest: process_line_result_inv split: sum.splits)

lemma stream_inv_buffer [simp]:
  "stream_inv (st\<lparr>line_buffer := b\<rparr>) = stream_inv st"
  "stream_inv (st\<lparr>line_buffer := b, sp_line_number := n\<rparr>) = stream_inv st"
  by (cases "sp_mode st"; simp add: stream_inv_def)+

lemma push_char_inv: "stream_inv st \<Longrightarrow> stream_inv (fst (push_char st ch))"
  by (simp add: push_char_def process_line_inv)

interpretation patch_stream: fallible_stepper push_char stream_inv
  by unfold_locales (rule push_char_inv)

lemma push_delta_feed:
  "push_delta st d = (case patch_stream.feed st d of
      (st', Some e) \<Rightarrow> (st', Inl e) | (st', None) \<Rightarrow> (st', Inr (sp_hunks st')))"
  by (simp add: push_delta_def patch_stream.feed_def)

lemma push_delta_inv: "stream_inv st \<Longrightarrow> stream_inv (fst (push_delta st d))"
  using patch_stream.finv_feed [of st d]
  by (auto simp: push_delta_feed split: prod.splits option.splits)

lemma stream_inv_default [simp]: "stream_inv streaming_default"
  by (simp add: stream_inv_def streaming_default_def)

section \<open>Feeding whole lines\<close>

definition feed_line :: "streaming_patch_parser \<Rightarrow> rstr \<Rightarrow> streaming_patch_parser \<times> parse_error option" where
  "feed_line st l = process_line (st\<lparr>line_buffer := [], sp_line_number := sp_line_number st + 1\<rparr>) l"

lemma handle_headers_buffer:
  "handle_hunk_headers_and_end_patch st t = Inr (Some st') \<Longrightarrow> line_buffer st' = line_buffer st"
  by (auto simp: handle_hunk_headers_and_end_patch_def push_hunk_def Let_def split: if_splits option.splits)

lemma process_line_result_buffer:
  "process_line_result st l = Inr st' \<Longrightarrow> line_buffer st' = line_buffer st"
  by (cases "sp_mode st")
     (auto simp: process_line_result_def Let_def rbind_eq_Inr_iff dest: handle_headers_buffer
       split: if_splits option.splits hunk.splits)

lemma feed_line_buffer [simp]: "line_buffer (fst (feed_line st l)) = []"
  by (auto simp: feed_line_def process_line_def dest: process_line_result_buffer split: sum.splits)

lemma feed_lines_buffer: "line_buffer s = [] \<Longrightarrow> line_buffer (fst (fold_until feed_line s ls)) = []"
proof (induction ls arbitrary: s)
  case (Cons l ls)
  obtain s' r where fl: "feed_line s l = (s', r)" by fastforce
  then have "line_buffer s' = []" using feed_line_buffer [of s l] by simp
  with fl Cons.IH show ?case by (cases r) simp_all
qed simp

lemma push_chars: "newline \<notin> set l \<Longrightarrow> fold_until push_char st l = (st\<lparr>line_buffer := line_buffer st @ l\<rparr>, None)"
  by (induction l arbitrary: st) (auto simp: push_char_def)

lemma push_line:
  "wf_line l \<Longrightarrow> line_buffer st = [] \<Longrightarrow> fold_until push_char st (l @ [newline]) = feed_line st l"
  by (auto simp: fold_until_append push_chars wf_line_def push_char_def feed_line_def strip_cr_def
      strip_suffix_Some_iff split: option.splits prod.splits)

lemma push_lines:
  assumes "list_all wf_line ls" "line_buffer st = []"
  shows "fold_until push_char st (concat (map (\<lambda>l. l @ [newline]) ls)) = fold_until feed_line st ls"
  using assms
proof (induction ls arbitrary: st)
  case (Cons l ls)
  obtain st' r where fl: "feed_line st l = (st', r)" by fastforce
  then have "line_buffer st' = []" using feed_line_buffer [of st l] by simp
  with Cons fl have rest: "fold_until push_char st' (concat (map (\<lambda>l. l @ [newline]) ls)) = fold_until feed_line st' ls"
    by simp
  have "fold_until push_char st (concat (map (\<lambda>l. l @ [newline]) (l # ls))) =
      (case feed_line st l of
         (s', None) \<Rightarrow> fold_until push_char s' (concat (map (\<lambda>l. l @ [newline]) ls))
       | (s', Some e) \<Rightarrow> (s', Some e))"
    using Cons.prems by (simp only: list.map concat.simps fold_until_append [of _ _ "l @ [newline]"] push_line list.pred_inject)
  with fl rest show ?case by (simp split: option.splits)
qed simp

section \<open>Reading a printed patch\<close>

text \<open>Between hunks: every header is accepted.\<close>

definition ready :: "streaming_patch_parser \<Rightarrow> hunk list \<Rightarrow> bool" where
  "ready st H \<longleftrightarrow> sp_hunks st = H \<and> sp_mode st \<noteq> NotStarted \<and> sp_mode st \<noteq> EndedPatch \<and>
     (\<forall>l. ensure_update_hunk_is_not_empty st l = None)"

text \<open>Inside an update hunk.\<close>

definition in_update ::
    "streaming_patch_parser \<Rightarrow> hunk list \<Rightarrow> rstr \<Rightarrow> rstr option \<Rightarrow> update_file_chunk list \<Rightarrow> bool" where
  "in_update st H p mv cs \<longleftrightarrow>
     sp_hunks st = H @ [UpdateFile p mv cs] \<and> (\<exists>n. sp_mode st = InUpdateFile n)"

definition in_add :: "streaming_patch_parser \<Rightarrow> hunk list \<Rightarrow> rstr \<Rightarrow> rstr \<Rightarrow> bool" where
  "in_add st H p s \<longleftrightarrow> sp_hunks st = H @ [AddFile p s] \<and> sp_mode st = InAddFile"

lemma ready_irrelevant [simp]:
  "ready (st\<lparr>line_buffer := b, sp_line_number := n\<rparr>) H = ready st H"
  by (auto simp: ready_def ensure_update_hunk_is_not_empty_def split: option.splits hunk.splits list.splits
      streaming_parser_mode.splits)

lemma in_update_irrelevant [simp]:
  "in_update (st\<lparr>line_buffer := b, sp_line_number := n\<rparr>) H p mv cs = in_update st H p mv cs"
  by (simp add: in_update_def)

lemma in_update_ready:
  "in_update st H p mv cs \<Longrightarrow> cs \<noteq> [] \<Longrightarrow> \<not> last_chunk_is_empty cs \<Longrightarrow> ready st (H @ [UpdateFile p mv cs])"
  by (auto simp: in_update_def ready_def ensure_update_hunk_is_not_empty_def split: list.splits)

lemma in_add_ready: "in_add st H p s \<Longrightarrow> ready st (H @ [AddFile p s])"
  by (auto simp: in_add_def ready_def ensure_update_hunk_is_not_empty_def)

lemma process_line_header:
  assumes "sp_mode st \<noteq> NotStarted" "sp_mode st \<noteq> EndedPatch" "trim l = l" "trim_end l = l"
    "\<not> starts_with l ENVIRONMENT_ID_MARKER" "handle_hunk_headers_and_end_patch st l = Inr (Some st')"
  shows "process_line st l = (st', None)"
  using assms by (cases "sp_mode st") (simp_all add: process_line_def process_line_result_def)

lemma END_neq_header [simp]:
  "ADD_FILE_MARKER @ p \<noteq> END_PATCH_MARKER" "DELETE_FILE_MARKER @ p \<noteq> END_PATCH_MARKER"
  "UPDATE_FILE_MARKER @ p \<noteq> END_PATCH_MARKER"
  by (simp_all add: marker_defs)

lemma feed_header:
  assumes "ready st H" "wf_name p"
  shows "\<exists>st'. feed_line st (ADD_FILE_MARKER @ p) = (st', None) \<and> in_add st' H p []"
    and "\<exists>st'. feed_line st (DELETE_FILE_MARKER @ p) = (st', None) \<and> ready st' (H @ [DeleteFile p])"
    and "\<exists>st'. feed_line st (UPDATE_FILE_MARKER @ p) = (st', None) \<and> in_update st' H p None []"
proof -
  let ?st = "st\<lparr>line_buffer := [], sp_line_number := sp_line_number st + 1\<rparr>"
  have r: "ready ?st H" using assms(1) by simp
  then have m: "sp_mode ?st \<noteq> NotStarted" "sp_mode ?st \<noteq> EndedPatch"
    and e: "ensure_update_hunk_is_not_empty ?st l = None" and h: "sp_hunks ?st = H" for l
    by (simp_all add: ready_def)
  note step = process_line_header [OF m, unfolded starts_with_def]
  note simps = trim_marker_name trim_end_marker_name handle_hunk_headers_and_end_patch_def
  have "feed_line st (ADD_FILE_MARKER @ p) = (push_hunk (AddFile p []) InAddFile ?st, None)"
    unfolding feed_line_def by (rule step) (use assms(2) e in \<open>simp_all add: simps\<close>)
  moreover have "in_add (push_hunk (AddFile p []) InAddFile ?st) H p []"
    using h by (simp add: in_add_def push_hunk_def)
  ultimately show "\<exists>st'. feed_line st (ADD_FILE_MARKER @ p) = (st', None) \<and> in_add st' H p []" by blast
  have "feed_line st (DELETE_FILE_MARKER @ p) = (push_hunk (DeleteFile p) InDeleteFile ?st, None)"
    unfolding feed_line_def by (rule step) (use assms(2) e in \<open>simp_all add: simps\<close>)
  moreover have "ready (push_hunk (DeleteFile p) InDeleteFile ?st) (H @ [DeleteFile p])"
    using h by (simp add: ready_def push_hunk_def ensure_update_hunk_is_not_empty_def)
  ultimately show "\<exists>st'. feed_line st (DELETE_FILE_MARKER @ p) = (st', None) \<and> ready st' (H @ [DeleteFile p])"
    by blast
  have "feed_line st (UPDATE_FILE_MARKER @ p) =
      (push_hunk (UpdateFile p None []) (InUpdateFile (sp_line_number ?st)) ?st, None)"
    unfolding feed_line_def by (rule step) (use assms(2) e in \<open>simp_all add: simps\<close>)
  moreover have "in_update (push_hunk (UpdateFile p None []) (InUpdateFile (sp_line_number ?st)) ?st) H p None []"
    using h by (simp add: in_update_def push_hunk_def)
  ultimately show "\<exists>st'. feed_line st (UPDATE_FILE_MARKER @ p) = (st', None) \<and> in_update st' H p None []"
    by blast
qed

text \<open>Lines that open no hunk: their first character is not the star of a marker.\<close>

lemma trim_keeps_hd: "\<not> is_whitespace c \<Longrightarrow> \<exists>t. trim (c # l) = c # t \<and> trim_end (c # l) = c # t"
proof -
  assume c: "\<not> is_whitespace c"
  obtain w where "c # l = trim_end (c # l) @ w" "\<forall>x \<in> set w. is_whitespace x"
    using prefix_trim_end by blast
  with c obtain t where "trim_end (c # l) = c # t" by (cases "trim_end (c # l)") auto
  with c show ?thesis by (simp add: trim_def trim_start_def)
qed

lemma handle_other:
  "c \<noteq> star \<Longrightarrow> handle_hunk_headers_and_end_patch st (c # t) = Inr None"
  by (simp add: handle_hunk_headers_and_end_patch_def marker_defs)

lemma feed_add_line:
  assumes "in_add st H p s"
  shows "\<exists>st'. feed_line st (plus_sign # l) = (st', None) \<and> in_add st' H p (s @ l @ [newline])"
proof -
  obtain t where t: "trim (plus_sign # l) = plus_sign # t" using trim_keeps_hd by force
  show ?thesis
    using assms by (simp add: feed_line_def process_line_def process_line_result_def t handle_other in_add_def)
qed

text \<open>A line of an update hunk that is no header changes the hunk as \<open>process_update_line\<close> says.\<close>

lemma feed_update_line:
  assumes "in_update st H p mv cs" "hd (trim_end l) \<noteq> star" "trim_end l \<noteq> []"
    and "\<And>n. process_update_line mv cs l n = Inr (mv', cs')"
  shows "\<exists>st'. feed_line st l = (st', None) \<and> in_update st' H p mv' cs'"
proof -
  obtain c t where t: "trim_end l = c # t" "c \<noteq> star" using assms(2,3) by (cases "trim_end l") auto
  obtain n where "sp_mode st = InUpdateFile n" "sp_hunks st = H @ [UpdateFile p mv cs]"
    using assms(1) by (auto simp: in_update_def)
  then show ?thesis
    using assms(4) by (simp add: feed_line_def process_line_def process_line_result_def t handle_other in_update_def)
qed

lemma handle_move_eof:
  "handle_hunk_headers_and_end_patch st (MOVE_TO_MARKER @ m) = Inr None"
  "handle_hunk_headers_and_end_patch st EOF_MARKER = Inr None"
  by (simp_all add: handle_hunk_headers_and_end_patch_def marker_defs)

lemma feed_move_line:
  assumes "in_update st H p None []" "wf_name m"
  shows "\<exists>st'. feed_line st (MOVE_TO_MARKER @ m) = (st', None) \<and> in_update st' H p (Some m) []"
proof -
  obtain n where "sp_mode st = InUpdateFile n" "sp_hunks st = H @ [UpdateFile p None []]"
    using assms(1) by (auto simp: in_update_def)
  then show ?thesis
    using assms(2) by (simp add: feed_line_def process_line_def process_line_result_def
        process_update_line_def trim_end_marker_name handle_move_eof in_update_def)
qed

lemma feed_eof_line:
  assumes "in_update st H p mv (cs @ [c])" "chunk_has_lines c"
  shows "\<exists>st'. feed_line st EOF_MARKER = (st', None) \<and> in_update st' H p mv (cs @ [c\<lparr>is_end_of_file := True\<rparr>])"
proof -
  have te: "trim_end EOF_MARKER = EOF_MARKER"
    by (intro trim_end_id) (simp_all add: marker_defs is_whitespace_def)
  have neq: "EOF_MARKER \<noteq> EMPTY_CHANGE_CONTEXT_MARKER" "strip_prefix CHANGE_CONTEXT_MARKER EOF_MARKER = None"
    by (simp_all add: marker_defs)
  obtain n where "sp_mode st = InUpdateFile n" "sp_hunks st = H @ [UpdateFile p mv (cs @ [c])]"
    using assms(1) by (auto simp: in_update_def)
  then show ?thesis
    using assms(2) te neq by (simp add: feed_line_def process_line_def process_line_result_def
        process_update_line_def handle_move_eof in_update_def starts_with_def)
qed

lemma push_into_last_snoc [simp]: "push_into_last f (cs @ [c]) = cs @ [f c]"
  by (simp add: push_into_last_def)

lemma feed_old_line:
  assumes "in_update st H p mv (cs @ [c])"
  shows "\<exists>st'. feed_line st (minus_sign # l) = (st', None) \<and> in_update st' H p mv (cs @ [push_old l c])"
proof -
  obtain t where t: "trim_end (minus_sign # l) = minus_sign # t" using trim_keeps_hd by force
  show ?thesis
    by (rule feed_update_line [OF assms])
       (simp_all add: t process_update_line_def starts_with_def, simp_all add: marker_defs)
qed

lemma feed_new_line:
  assumes "in_update st H p mv (cs @ [c])"
  shows "\<exists>st'. feed_line st (plus_sign # l) = (st', None) \<and> in_update st' H p mv (cs @ [push_new l c])"
proof -
  obtain t where t: "trim_end (plus_sign # l) = plus_sign # t" using trim_keeps_hd by force
  show ?thesis
    by (rule feed_update_line [OF assms])
       (simp_all add: t process_update_line_def starts_with_def, simp_all add: marker_defs)
qed

lemma feed_context_line:
  assumes "in_update st H p mv cs" "\<not> last_chunk_is_empty cs" "ctx = None \<or> wf_name (the ctx)"
  shows "\<exists>st'. feed_line st (case ctx of None \<Rightarrow> EMPTY_CHANGE_CONTEXT_MARKER | Some x \<Rightarrow> CHANGE_CONTEXT_MARKER @ x) =
    (st', None) \<and> in_update st' H p mv (cs @ [empty_chunk ctx])"
proof (cases ctx)
  case None
  have te: "trim_end EMPTY_CHANGE_CONTEXT_MARKER = EMPTY_CHANGE_CONTEXT_MARKER"
    by (intro trim_end_id) (simp_all add: marker_defs)
  show ?thesis
    by (rule feed_update_line [OF assms(1)])
       (use None assms(2) in \<open>simp_all add: te process_update_line_def\<close>)
next
  case (Some x)
  have neq: "CHANGE_CONTEXT_MARKER @ x \<noteq> EMPTY_CHANGE_CONTEXT_MARKER" by (simp add: marker_defs)
  show ?thesis
    by (rule feed_update_line [OF assms(1)])
       (use Some assms(2,3) neq in \<open>simp_all add: trim_end_marker_name process_update_line_def\<close>)
qed

lemma fold_step:
  "f s x = (s', None) \<Longrightarrow> fold_until f s (x # xs) = fold_until f s' xs"
  by simp

lemma feed_old_lines:
  assumes "in_update st H p mv (cs @ [c])"
  shows "\<exists>st'. fold_until feed_line st (map (Cons minus_sign) os) = (st', None) \<and>
    in_update st' H p mv (cs @ [c\<lparr>old_lines := old_lines c @ os\<rparr>])"
  using assms
proof (induction os arbitrary: st c)
  case (Cons l os)
  obtain st1 where "feed_line st (minus_sign # l) = (st1, None)" "in_update st1 H p mv (cs @ [push_old l c])"
    using feed_old_line [OF Cons.prems] by blast
  with Cons.IH [OF this(2)] show ?case by (simp add: push_old_def)
qed simp

lemma feed_new_lines:
  assumes "in_update st H p mv (cs @ [c])"
  shows "\<exists>st'. fold_until feed_line st (map (Cons plus_sign) ns) = (st', None) \<and>
    in_update st' H p mv (cs @ [c\<lparr>new_lines := new_lines c @ ns\<rparr>])"
  using assms
proof (induction ns arbitrary: st c)
  case (Cons l ns)
  obtain st1 where "feed_line st (plus_sign # l) = (st1, None)" "in_update st1 H p mv (cs @ [push_new l c])"
    using feed_new_line [OF Cons.prems] by blast
  with Cons.IH [OF this(2)] show ?case by (simp add: push_new_def)
qed simp

lemma feed_chunk:
  assumes "in_update st H p mv cs" "\<not> last_chunk_is_empty cs" "wf_chunk c"
  shows "\<exists>st'. fold_until feed_line st (print_chunk c) = (st', None) \<and> in_update st' H p mv (cs @ [c])"
proof -
  obtain ctx os ns e where c: "c = \<lparr>change_context = ctx, old_lines = os, new_lines = ns, is_end_of_file = e\<rparr>"
    by (cases c) auto
  have ctx: "ctx = None \<or> wf_name (the ctx)"
    using assms(3) c by (auto simp: wf_chunk_def split: option.splits)
  obtain st1 where 1: "feed_line st (case ctx of None \<Rightarrow> EMPTY_CHANGE_CONTEXT_MARKER | Some x \<Rightarrow> CHANGE_CONTEXT_MARKER @ x) = (st1, None)"
      "in_update st1 H p mv (cs @ [empty_chunk ctx])"
    using feed_context_line [OF assms(1,2) ctx] by blast
  obtain st2 where 2: "fold_until feed_line st1 (map (Cons minus_sign) os) = (st2, None)"
      "in_update st2 H p mv (cs @ [(empty_chunk ctx)\<lparr>old_lines := os\<rparr>])"
    using feed_old_lines [OF 1(2), of os] by auto
  obtain st3 where 3: "fold_until feed_line st2 (map (Cons plus_sign) ns) = (st3, None)"
      "in_update st3 H p mv (cs @ [c\<lparr>is_end_of_file := False\<rparr>])"
    using feed_new_lines [OF 2(2), of ns] by (auto simp: c)
  have has: "chunk_has_lines (c\<lparr>is_end_of_file := False\<rparr>)"
    using assms(3) by (simp add: wf_chunk_def chunk_has_lines_def)
  show ?thesis
  proof (cases e)
    case True
    then obtain st4 where "feed_line st3 EOF_MARKER = (st4, None)" "in_update st4 H p mv (cs @ [c])"
      using feed_eof_line [OF 3(2) has] c by auto
    with 1 2 3 True show ?thesis by (simp add: print_chunk_def c fold_until_append)
  next
    case False
    with 1 2 3 show ?thesis by (simp add: print_chunk_def c fold_until_append)
  qed
qed

lemma feed_chunks:
  assumes "in_update st H p mv cs" "\<not> last_chunk_is_empty cs" "list_all wf_chunk ds"
  shows "\<exists>st'. fold_until feed_line st (concat (map print_chunk ds)) = (st', None) \<and> in_update st' H p mv (cs @ ds)"
  using assms
proof (induction ds arbitrary: st cs)
  case (Cons d ds)
  obtain st1 where 1: "fold_until feed_line st (print_chunk d) = (st1, None)" "in_update st1 H p mv (cs @ [d])"
    using feed_chunk [OF Cons.prems(1,2)] Cons.prems(3) by auto
  have "\<not> last_chunk_is_empty (cs @ [d])" using Cons.prems(3) by (simp add: wf_chunk_def)
  with Cons.IH [OF 1(2)] 1 Cons.prems(3) show ?case by (simp add: fold_until_append)
qed simp

lemma feed_add_lines:
  assumes "in_add st H p s"
  shows "\<exists>st'. fold_until feed_line st (map (Cons plus_sign) ls) = (st', None) \<and>
    in_add st' H p (s @ concat (map (\<lambda>l. l @ [newline]) ls))"
  using assms
proof (induction ls arbitrary: st s)
  case (Cons l ls)
  obtain st1 where "feed_line st (plus_sign # l) = (st1, None)" "in_add st1 H p (s @ l @ [newline])"
    using feed_add_line [OF Cons.prems] by blast
  with Cons.IH [OF this(2)] show ?case by simp
qed simp

lemma feed_hunk:
  assumes "ready st H" "wf_hunk h"
  shows "\<exists>st'. fold_until feed_line st (print_hunk h) = (st', None) \<and> ready st' (H @ [h])"
proof (cases h)
  case (AddFile p s)
  with assms obtain st1 where "feed_line st (ADD_FILE_MARKER @ p) = (st1, None)" "in_add st1 H p []"
    using feed_header(1) by force
  with feed_add_lines [OF this(2), of "content_lines s"] AddFile assms(2) show ?thesis
    by (auto simp: concat_content_lines intro: in_add_ready)
next
  case (DeleteFile p)
  with assms feed_header(2) [OF assms(1), of p] show ?thesis by auto
next
  case (UpdateFile p mv cs)
  with assms(2) have wf: "wf_name p" "cs \<noteq> []" "list_all wf_chunk cs" "\<not> last_chunk_is_empty cs"
    by (auto simp: wf_chunk_def list_all_iff last_chunk_is_empty_def last_opt_conv chunk_has_lines_def
        split: option.splits if_splits)
  obtain st1 where 1: "feed_line st (UPDATE_FILE_MARKER @ p) = (st1, None)" "in_update st1 H p None []"
    using feed_header(3) [OF assms(1) wf(1)] by blast
  obtain st2 where 2: "fold_until feed_line st1 (case mv of None \<Rightarrow> [] | Some m \<Rightarrow> [MOVE_TO_MARKER @ m]) = (st2, None)"
      "in_update st2 H p mv []"
  proof (cases mv)
    case None
    then show ?thesis using 1(2) that [of st1] by simp
  next
    case (Some m)
    with assms(2) UpdateFile have "wf_name m" by simp
    from feed_move_line [OF 1(2) this] Some show ?thesis using that by auto
  qed
  obtain st3 where 3: "fold_until feed_line st2 (concat (map print_chunk cs)) = (st3, None)" "in_update st3 H p mv cs"
    using feed_chunks [OF 2(2) _ wf(3)] by auto
  from 3(2) wf(2,4) have "ready st3 (H @ [h])" using in_update_ready UpdateFile by blast
  with 1 2 3 UpdateFile show ?thesis by (simp add: fold_until_append)
qed

lemma feed_hunks:
  "ready st H \<Longrightarrow> list_all wf_hunk hs \<Longrightarrow>
     \<exists>st'. fold_until feed_line st (concat (map print_hunk hs)) = (st', None) \<and> ready st' (H @ hs)"
proof (induction hs arbitrary: st H)
  case (Cons h hs)
  obtain st1 where "fold_until feed_line st (print_hunk h) = (st1, None)" "ready st1 (H @ [h])"
    using feed_hunk [OF Cons.prems(1)] Cons.prems(2) by auto
  with Cons.IH [OF this(2)] Cons.prems(2) show ?case by (simp add: fold_until_append)
qed simp

lemma feed_begin_env:
  assumes "wf_env env"
  shows "\<exists>st. fold_until feed_line streaming_default (BEGIN_PATCH_MARKER # print_env env) = (st, None) \<and> ready st []"
proof -
  have "trim BEGIN_PATCH_MARKER = BEGIN_PATCH_MARKER"
    by (rule trim_id) (simp_all add: marker_defs)
  then show ?thesis
    by (cases env) (auto simp: print_env_def feed_line_def streaming_default_def process_line_def
        process_line_result_def ready_def ensure_update_hunk_is_not_empty_def starts_with_iff)
qed

lemma stream_print_patch:
  assumes "wf_env env" "list_all wf_hunk hs"
  shows "snd (stream_finish (fst (push_delta streaming_default (print_patch env hs)))) = Inr hs"
proof -
  define body where "body = BEGIN_PATCH_MARKER # print_env env @ concat (map print_hunk hs)"
  have txt_eq: "print_patch env hs = concat (map (\<lambda>l. l @ [newline]) body) @ END_PATCH_MARKER"
    using join_snoc [of newline body END_PATCH_MARKER] by (simp add: print_patch_def print_lines_def body_def)
  have wf: "list_all wf_line body"
    using wf_print_lines [OF assms] by (simp add: print_lines_def body_def)
  obtain st where st: "fold_until feed_line streaming_default body = (st, None)" and rdy: "ready st hs"
  proof -
    obtain st1 where 1: "fold_until feed_line streaming_default (BEGIN_PATCH_MARKER # print_env env) = (st1, None)" "ready st1 []"
      using feed_begin_env [OF assms(1)] by blast
    obtain st2 where "fold_until feed_line st1 (concat (map print_hunk hs)) = (st2, None)" "ready st2 hs"
      using feed_hunks [OF 1(2) assms(2)] by auto
    with 1 show ?thesis using that [of st2] fold_until_append [of feed_line streaming_default "BEGIN_PATCH_MARKER # print_env env"]
      by (simp add: body_def)
  qed
  have "fold_until push_char streaming_default (print_patch env hs) = (st\<lparr>line_buffer := line_buffer st @ END_PATCH_MARKER\<rparr>, None)"
    using push_lines [OF wf, of streaming_default] st
    by (simp add: txt_eq fold_until_append push_chars streaming_default_def)
  moreover have "line_buffer st = []"
    using feed_lines_buffer [of streaming_default body] st by (simp add: streaming_default_def)
  moreover have "trim END_PATCH_MARKER = END_PATCH_MARKER" by (rule trim_id) (simp_all add: marker_defs)
  moreover have "ready (st\<lparr>line_buffer := [], sp_line_number := sp_line_number st + 1\<rparr>) hs"
    using rdy by simp
  ultimately show ?thesis
    by (auto simp: push_delta_def stream_finish_def ready_def)
qed

section \<open>Properties\<close>

text \<open>Feeding the deltas of a stream one after another, until one is refused.\<close>

definition push_deltas :: "streaming_patch_parser \<Rightarrow> rstr list \<Rightarrow> streaming_patch_parser \<times> parse_error option" where
  "push_deltas st ds =
     fold_until (\<lambda>s d. case push_delta s d of (s', Inl e) \<Rightarrow> (s', Some e) | (s', Inr _) \<Rightarrow> (s', None)) st ds"

lemma push_deltas_feed_all: "push_deltas st ds = patch_stream.feed_all st ds"
proof -
  have "(\<lambda>s d. case push_delta s d of (s', Inl e) \<Rightarrow> (s', Some e) | (s', Inr _) \<Rightarrow> (s', None)) = patch_stream.feed"
    by (intro ext) (auto simp: push_delta_feed split: prod.splits option.splits)
  then show ?thesis by (simp add: push_deltas_def patch_stream.feed_all_def)
qed

text \<open>
  How the text of a patch is cut into deltas does not matter: two streams with the same
  text leave the streaming parser in the same state with the same outcome.
\<close>

theorem push_deltas_chunking:
  "push_deltas st ds = push_deltas st [concat ds]"
  by (simp add: push_deltas_feed_all patch_stream.feed_all_concat)

text \<open>
  Whatever text the streaming parser was fed, the hunks it reports when the patch is
  finished have the shape the batch parser guarantees: every update hunk has a chunk and
  every chunk an old or a new line.
\<close>

lemma stream_finish_hunks_ok:
  assumes "stream_finish (fst (push_deltas streaming_default ds)) = (st', Inr hs)"
  shows "\<forall>h \<in> set hs. hunk_ok h"
proof -
  let ?st = "fst (push_deltas streaming_default ds)"
  let ?st1 = "?st\<lparr>line_buffer := [], sp_line_number := sp_line_number ?st + 1\<rparr>"
  have inv: "stream_inv ?st"
    using patch_stream.finv_feed [of streaming_default "concat ds"]
    by (simp add: push_deltas_feed_all patch_stream.feed_all_concat)
  from assms consider "stream_inv st'" "sp_mode st' = EndedPatch" "hs = sp_hunks st'"
    | "ensure_update_hunk_is_not_empty ?st1 (trim (line_buffer ?st)) = None" "hs = sp_hunks ?st1"
    using inv process_line_inv [of ?st1 "line_buffer ?st"]
    by (auto simp: stream_finish_def Let_def split: if_splits option.splits prod.splits)
  then show ?thesis
  proof cases
    case 1
    then show ?thesis by (simp add: stream_inv_def)
  next
    case 2
    with inv show ?thesis using ensured_all_ok [OF _ 2(1)] by simp
  qed
qed

text \<open>
  C28: On every printed patch the streaming preview and the batch parser agree: finishing the
  stream gives the hunks that \<open>parse_patch\<close> returns for the same text.
\<close>

theorem stream_agrees_with_parse_patch:
  assumes "wf_env env" "list_all wf_hunk hs"
  shows "\<exists>args. parse_patch (print_patch env hs) = Inr args \<and>
    snd (stream_finish (fst (push_delta streaming_default (print_patch env hs)))) = Inr (hunks args)"
proof -
  let ?args = "\<lparr>patch = print_patch env hs, hunks = hs, workdir = None, environment_id = env\<rparr>"
  have "parse_patch (print_patch env hs) = Inr ?args" by (rule parse_print_patch [OF assms])
  moreover have "snd (stream_finish (fst (push_delta streaming_default (print_patch env hs)))) = Inr (hunks ?args)"
    using stream_print_patch [OF assms] by simp
  ultimately show ?thesis by blast
qed

theorem stream_agrees_with_parse_patch_witness:
  "\<exists>args. parse_patch (print_patch None [AddFile (lit ''a'') (lit ''x'' @ [newline])]) = Inr args \<and>
    snd (stream_finish (fst (push_delta streaming_default
      (print_patch None [AddFile (lit ''a'') (lit ''x'' @ [newline])])))) = Inr (hunks args)"
  by (rule stream_agrees_with_parse_patch)
     (simp_all add: wf_env_def wf_name_def wf_line_def content_lines_def is_whitespace_def)

text \<open>
  The two parsers differ on a text that is the end marker alone: the batch parser refuses
  it because the begin marker is missing, the streaming parser finishes with no hunks.
\<close>

theorem stream_accepts_lone_end_marker:
  "snd (stream_finish (fst (push_delta streaming_default END_PATCH_MARKER))) = Inr [] \<and>
   parse_patch END_PATCH_MARKER = Inl bad_first_line"
proof
  have te: "trim END_PATCH_MARKER = END_PATCH_MARKER" by (rule trim_id) (simp_all add: marker_defs)
  then show "snd (stream_finish (fst (push_delta streaming_default END_PATCH_MARKER))) = Inr []"
    by (simp add: push_delta_def push_chars stream_finish_def streaming_default_def
        ensure_update_hunk_is_not_empty_def)
  have "wf_line END_PATCH_MARKER" by (simp add: marker_defs wf_line_def)
  then have "str_lines END_PATCH_MARKER = [END_PATCH_MARKER]"
    using str_lines_join [of "[END_PATCH_MARKER]"] by simp
  moreover have "END_PATCH_MARKER \<noteq> BEGIN_PATCH_MARKER" by (simp add: marker_defs)
  ultimately show "parse_patch END_PATCH_MARKER = Inl bad_first_line"
    using te by (simp add: parse_patch_def PARSE_IN_STRICT_MODE_def parse_patch_text_def
        check_patch_boundaries_lenient_def check_patch_boundaries_strict_def
        check_start_and_end_lines_strict_def)
qed

end
