(* ===== verification/Seek_Sequence.thy ===== *)
theory Seek_Sequence
  imports Rust_Str
begin

text \<open>
  The line matcher of the patch tool (\<open>apply-patch/src/seek_sequence.rs\<close>). A pattern of
  lines is searched in the lines of a file in four passes of decreasing strictness: equal
  lines, lines equal up to trailing white space, up to surrounding white space, and up to
  surrounding white space and typographic punctuation. The lemmas say which position is
  returned; the locale \<open>line_matcher\<close> is the part of the contract the patch applier relies
  on, interpreted on \<open>seek_sequence\<close> at the end.
\<close>

section \<open>The four relations on lines\<close>

text \<open>The character table of the local function \<open>normalise\<close>.\<close>

definition normalise_char :: "rchar \<Rightarrow> rchar" where
  "normalise_char c =
     (if c \<in> {8208, 8209, 8210, 8211, 8212, 8213, 8722} then 45
      else if c \<in> {8216, 8217, 8218, 8219} then 39
      else if c \<in> {8220, 8221, 8222, 8223} then 34
      else if c \<in> {160, 8194, 8195, 8196, 8197, 8198, 8199, 8200, 8201, 8202, 8239, 8287, 12288}
        then 32
      else c)"

definition normalise :: "rstr \<Rightarrow> rstr" where
  "normalise s = map normalise_char (trim s)"

datatype strictness = Exact | Rstrip | Trimmed | Normalised

fun line_eq :: "strictness \<Rightarrow> rstr \<Rightarrow> rstr \<Rightarrow> bool" where
  "line_eq Exact l p \<longleftrightarrow> l = p"
| "line_eq Rstrip l p \<longleftrightarrow> trim_end l = trim_end p"
| "line_eq Trimmed l p \<longleftrightarrow> trim l = trim p"
| "line_eq Normalised l p \<longleftrightarrow> normalise l = normalise p"

section \<open>The search\<close>

text \<open>
  The body of one pass at index \<open>i\<close>: every pattern line against the line at its offset.
  The loop bounds keep \<open>i + pattern.len()\<close> within the lines.
\<close>

definition match_at :: "strictness \<Rightarrow> rstr list \<Rightarrow> rstr list \<Rightarrow> nat \<Rightarrow> bool" where
  "match_at k lines pat i \<longleftrightarrow> list_all2 (line_eq k) (take (length pat) (drop i lines)) pat"

text \<open>One pass: \<open>for i in search_start..=lines.len().saturating_sub(pattern.len())\<close>.\<close>

definition search_pass :: "strictness \<Rightarrow> rstr list \<Rightarrow> rstr list \<Rightarrow> nat \<Rightarrow> nat option" where
  "search_pass k lines pat search_start =
     find (match_at k lines pat) [search_start ..< Suc (length lines - length pat)]"

definition seek_sequence :: "rstr list \<Rightarrow> rstr list \<Rightarrow> nat \<Rightarrow> bool \<Rightarrow> nat option" where
  "seek_sequence lines pat start eof =
     (if pat = [] then Some start
      else if length lines < length pat then None
      else
        let search_start =
              (if eof \<and> length pat \<le> length lines then length lines - length pat else start)
        in case search_pass Exact lines pat search_start of Some i \<Rightarrow> Some i | None \<Rightarrow>
           (case search_pass Rstrip lines pat search_start of Some i \<Rightarrow> Some i | None \<Rightarrow>
           (case search_pass Trimmed lines pat search_start of Some i \<Rightarrow> Some i | None \<Rightarrow>
            search_pass Normalised lines pat search_start)))"

section \<open>The relations are ordered by strictness\<close>

fun rank :: "strictness \<Rightarrow> nat" where
  "rank Exact = 0"
| "rank Rstrip = 1"
| "rank Trimmed = 2"
| "rank Normalised = 3"

lemma line_eq_weaken: "rank j \<le> rank k \<Longrightarrow> line_eq j l p \<Longrightarrow> line_eq k l p"
  by (cases j; cases k) (auto simp: normalise_def dest: trim_eq_if_trim_end_eq)

lemma match_at_weaken: "rank j \<le> rank k \<Longrightarrow> match_at j lines pat i \<Longrightarrow> match_at k lines pat i"
  unfolding match_at_def by (erule list_all2_mono) (rule line_eq_weaken)

lemma match_at_bound: "match_at k lines pat i \<Longrightarrow> pat \<noteq> [] \<Longrightarrow> i + length pat \<le> length lines"
  by (cases pat) (auto simp: match_at_def min_def split: if_splits dest!: list_all2_lengthD)

lemma match_at_Exact_iff: "match_at Exact lines pat i \<longleftrightarrow> take (length pat) (drop i lines) = pat"
proof -
  have "line_eq Exact = (=)" by (intro ext) simp
  then show ?thesis by (simp add: match_at_def list.rel_eq)
qed

lemma match_at_nth:
  "match_at k lines pat i \<Longrightarrow> j < length pat \<Longrightarrow> line_eq k (lines ! (i + j)) (pat ! j)"
  by (auto simp: match_at_def list_all2_conv_all_nth)

section \<open>One pass\<close>

lemma search_pass_SomeD:
  assumes "search_pass k lines pat s = Some i"
  shows "s \<le> i \<and> i \<le> length lines - length pat \<and> match_at k lines pat i \<and>
         (\<forall>j. s \<le> j \<and> j < i \<longrightarrow> \<not> match_at k lines pat j)"
proof -
  let ?xs = "[s ..< Suc (length lines - length pat)]"
  from assms obtain n where n: "n < length ?xs" "match_at k lines pat (?xs ! n)" "i = ?xs ! n"
      "\<forall>m < n. \<not> match_at k lines pat (?xs ! m)"
    unfolding search_pass_def find_Some_iff by blast
  from n(1) have bound: "s + n \<le> length lines - length pat"
    by (cases "s \<le> length lines - length pat") auto
  with n(3) have i: "i = s + n" by (simp del: upt_Suc)
  have "\<not> match_at k lines pat j" if "s \<le> j" "j < i" for j
  proof -
    from that i have "j - s < n" by arith
    with n(4) have "\<not> match_at k lines pat (?xs ! (j - s))" by blast
    moreover have "?xs ! (j - s) = j" using that i bound by (simp del: upt_Suc)
    ultimately show ?thesis by simp
  qed
  with i bound n show ?thesis by auto
qed

lemma search_pass_None_iff:
  "search_pass k lines pat s = None \<longleftrightarrow>
     (\<forall>i. s \<le> i \<and> i \<le> length lines - length pat \<longrightarrow> \<not> match_at k lines pat i)"
  by (auto simp: search_pass_def find_None_iff less_Suc_eq_le simp del: upt_Suc)

section \<open>The whole search\<close>

definition search_from :: "rstr list \<Rightarrow> rstr list \<Rightarrow> nat \<Rightarrow> bool \<Rightarrow> nat" where
  "search_from lines pat start eof = (if eof then length lines - length pat else start)"

lemma seek_sequence_cases:
  assumes "pat \<noteq> []" "length pat \<le> length lines"
  obtains
    (found) k i where "seek_sequence lines pat start eof = Some i"
      "search_pass k lines pat (search_from lines pat start eof) = Some i"
      "\<And>j. rank j < rank k \<Longrightarrow> search_pass j lines pat (search_from lines pat start eof) = None"
  | (missing) "seek_sequence lines pat start eof = None"
      "\<And>k. search_pass k lines pat (search_from lines pat start eof) = None"
proof -
  let ?s = "search_from lines pat start eof"
  let ?P = "\<lambda>k. search_pass k lines pat ?s"
  have eq: "seek_sequence lines pat start eof =
      (case ?P Exact of Some i \<Rightarrow> Some i | None \<Rightarrow>
      (case ?P Rstrip of Some i \<Rightarrow> Some i | None \<Rightarrow>
      (case ?P Trimmed of Some i \<Rightarrow> Some i | None \<Rightarrow> ?P Normalised)))"
    unfolding seek_sequence_def search_from_def Let_def using assms by (cases eof) simp_all
  consider (e) i where "?P Exact = Some i"
    | (r) i where "?P Exact = None" "?P Rstrip = Some i"
    | (t) i where "?P Exact = None" "?P Rstrip = None" "?P Trimmed = Some i"
    | (n) i where "?P Exact = None" "?P Rstrip = None" "?P Trimmed = None" "?P Normalised = Some i"
    | (x) "?P Exact = None" "?P Rstrip = None" "?P Trimmed = None" "?P Normalised = None"
    by (metis not_Some_eq)
  then show ?thesis
  proof cases
    case e
    then show ?thesis by (intro found [of i Exact]) (simp_all add: eq)
  next
    case r
    moreover have "?P j = None" if "rank j < rank Rstrip" for j
      using that r by (cases j) simp_all
    ultimately show ?thesis by (intro found [of i Rstrip]) (simp_all add: eq)
  next
    case t
    moreover have "?P j = None" if "rank j < rank Trimmed" for j
      using that t by (cases j) simp_all
    ultimately show ?thesis by (intro found [of i Trimmed]) (simp_all add: eq)
  next
    case n
    moreover have "?P j = None" if "rank j < rank Normalised" for j
      using that n by (cases j) simp_all
    ultimately show ?thesis by (intro found [of i Normalised]) (simp_all add: eq)
  next
    case x
    moreover have "?P k = None" for k using x by (cases k) simp_all
    ultimately show ?thesis by (intro missing) (simp_all add: eq)
  qed
qed

lemma seek_sequence_too_long: "length lines < length pat \<Longrightarrow> seek_sequence lines pat start eof = None"
  by (auto simp: seek_sequence_def)

lemma seek_sequence_Nil [simp]: "seek_sequence lines [] start eof = Some start"
  by (simp add: seek_sequence_def)

lemma seek_sequence_SomeD:
  assumes "seek_sequence lines pat start eof = Some i" "pat \<noteq> []"
  shows "length pat \<le> length lines \<and>
    (\<exists>k. search_pass k lines pat (search_from lines pat start eof) = Some i \<and>
      (\<forall>j. rank j < rank k \<longrightarrow> search_pass j lines pat (search_from lines pat start eof) = None))"
proof -
  have len: "length pat \<le> length lines"
    using assms seek_sequence_too_long by (metis not_le option.distinct(1))
  from assms(2) len show ?thesis
  proof (cases rule: seek_sequence_cases [of pat lines start eof])
    case (found k i')
    with assms len show ?thesis by auto
  next
    case missing
    with assms show ?thesis by simp
  qed
qed

lemma seek_sequence_match:
  assumes "seek_sequence lines pat start eof = Some i" "pat \<noteq> []"
  shows "match_at Normalised lines pat i" "search_from lines pat start eof \<le> i"
    "i + length pat \<le> length lines"
proof -
  obtain k where "search_pass k lines pat (search_from lines pat start eof) = Some i"
    using seek_sequence_SomeD [OF assms] by blast
  note * = search_pass_SomeD [OF this]
  show "match_at Normalised lines pat i"
    using * match_at_weaken [of k Normalised] by (cases k) auto
  then show "i + length pat \<le> length lines" using assms(2) by (rule match_at_bound)
  show "search_from lines pat start eof \<le> i" using * by simp
qed

section \<open>The contract the patch applier uses\<close>

locale line_matcher =
  fixes seek :: "rstr list \<Rightarrow> rstr list \<Rightarrow> nat \<Rightarrow> bool \<Rightarrow> nat option"
  assumes seek_empty: "seek ls [] st eof = Some st"
    and seek_bound: "seek ls p st eof = Some i \<Longrightarrow> p \<noteq> [] \<Longrightarrow> i + length p \<le> length ls"
    and seek_from: "seek ls p st False = Some i \<Longrightarrow> st \<le> i"
    and seek_finds: "p \<noteq> [] \<Longrightarrow> st \<le> i \<Longrightarrow> take (length p) (drop i ls) = p \<Longrightarrow>
      \<exists>j. seek ls p st False = Some j \<and> j \<le> i \<and> take (length p) (drop j ls) = p"
begin

lemma seek_bound': "seek ls p st eof = Some i \<Longrightarrow> st \<le> length ls \<Longrightarrow> i + length p \<le> length ls"
  using seek_empty [of ls st eof] seek_bound [of ls p st eof i] by (cases "p = []") auto

end

lemma seek_sequence_exact:
  assumes "pat \<noteq> []" "start \<le> i" "take (length pat) (drop i lines) = pat"
  shows "\<exists>j. seek_sequence lines pat start False = Some j \<and> j \<le> i \<and>
             take (length pat) (drop j lines) = pat"
proof -
  have m: "match_at Exact lines pat i" using assms(3) by (simp add: match_at_Exact_iff)
  note bound = match_at_bound [OF m assms(1)]
  obtain j where j: "search_pass Exact lines pat start = Some j"
    using m assms(2) bound search_pass_None_iff [of Exact lines pat start]
    by (cases "search_pass Exact lines pat start") auto
  have "j \<le> i" using search_pass_SomeD [OF j] m assms(2) by (metis not_le)
  moreover have "take (length pat) (drop j lines) = pat"
    using search_pass_SomeD [OF j] by (simp add: match_at_Exact_iff)
  moreover have "seek_sequence lines pat start False = Some j"
    using j bound assms(1) by (simp add: seek_sequence_def)
  ultimately show ?thesis by blast
qed

interpretation seek: line_matcher seek_sequence
proof unfold_locales
  show "seek_sequence ls p st eof = Some i \<Longrightarrow> p \<noteq> [] \<Longrightarrow> i + length p \<le> length ls" for ls p st eof i
    by (rule seek_sequence_match(3))
  show "seek_sequence ls p st False = Some i \<Longrightarrow> st \<le> i" for ls p st i
    using seek_sequence_match(2) [of ls p st False i] by (cases "p = []") (auto simp: search_from_def)
  show "p \<noteq> [] \<Longrightarrow> st \<le> i \<Longrightarrow> take (length p) (drop i ls) = p \<Longrightarrow>
      \<exists>j. seek_sequence ls p st False = Some j \<and> j \<le> i \<and> take (length p) (drop j ls) = p" for p ls st i
    by (rule seek_sequence_exact)
qed simp

section \<open>Properties\<close>

text \<open>
  C35: The returned position is the best one. It lies in the file; the pattern matches
  there in one of the four passes; no stricter pass matches anywhere from the starting
  position on; and the pass that matched matches at no earlier position.
\<close>

theorem seek_sequence_best_match:
  assumes "seek_sequence lines pat start eof = Some i" "pat \<noteq> []"
  shows "i + length pat \<le> length lines \<and>
    (\<exists>k. (\<forall>j < length pat. line_eq k (lines ! (i + j)) (pat ! j)) \<and>
      (\<forall>k' i'. rank k' < rank k \<and> search_from lines pat start eof \<le> i' \<longrightarrow> \<not> match_at k' lines pat i') \<and>
      (\<forall>i'. search_from lines pat start eof \<le> i' \<and> i' < i \<longrightarrow> \<not> match_at k lines pat i'))"
proof -
  obtain k where k: "search_pass k lines pat (search_from lines pat start eof) = Some i"
    and stricter: "\<And>k'. rank k' < rank k \<Longrightarrow> search_pass k' lines pat (search_from lines pat start eof) = None"
    using seek_sequence_SomeD [OF assms] by blast
  note pass = search_pass_SomeD [OF k]
  have "\<not> match_at k' lines pat i'" if "rank k' < rank k" "search_from lines pat start eof \<le> i'" for k' i'
  proof
    assume m: "match_at k' lines pat i'"
    then have "i' + length pat \<le> length lines" using assms(2) by (rule match_at_bound)
    then have "i' \<le> length lines - length pat" by simp
    with stricter [OF that(1)] that(2) m show False by (simp add: search_pass_None_iff)
  qed
  moreover have "\<forall>j < length pat. line_eq k (lines ! (i + j)) (pat ! j)"
    using pass match_at_nth by blast
  moreover have "\<forall>i'. search_from lines pat start eof \<le> i' \<and> i' < i \<longrightarrow> \<not> match_at k lines pat i'"
    using pass by blast
  ultimately show ?thesis using seek_sequence_match(3) [OF assms] by blast
qed

theorem seek_sequence_best_match_witness:
  "seek_sequence [lit ''a '', lit ''b'', lit ''a''] [lit ''a''] 0 False = Some 2 \<and>
   (\<exists>k. (\<forall>j < length [lit ''a'']. line_eq k ([lit ''a '', lit ''b'', lit ''a''] ! (2 + j)) ([lit ''a''] ! j)))"
proof -
  have "seek_sequence [lit ''a '', lit ''b'', lit ''a''] [lit ''a''] 0 False = Some 2"
    by (simp add: seek_sequence_def search_pass_def match_at_def upt_rec)
  from this seek_sequence_best_match [OF this] show ?thesis by blast
qed

lemma seek_sequence_None_iff:
  assumes "pat \<noteq> []"
  shows "seek_sequence lines pat start eof = None \<longleftrightarrow>
    (\<forall>i. search_from lines pat start eof \<le> i \<longrightarrow> \<not> match_at Normalised lines pat i)"
proof
  assume none: "seek_sequence lines pat start eof = None"
  show "\<forall>i. search_from lines pat start eof \<le> i \<longrightarrow> \<not> match_at Normalised lines pat i"
  proof (intro allI impI notI)
    fix i assume i: "search_from lines pat start eof \<le> i" "match_at Normalised lines pat i"
    then have bound: "i + length pat \<le> length lines" using assms match_at_bound by blast
    from assms have "length pat \<le> length lines" using bound by simp
    with assms show False
    proof (cases rule: seek_sequence_cases [of pat lines start eof])
      case (found k i')
      with none show ?thesis by simp
    next
      case missing
      from missing(2) [of Normalised] i bound show ?thesis by (simp add: search_pass_None_iff)
    qed
  qed
next
  assume "\<forall>i. search_from lines pat start eof \<le> i \<longrightarrow> \<not> match_at Normalised lines pat i"
  then show "seek_sequence lines pat start eof = None"
    using seek_sequence_match(1,2) [OF _ assms] by (metis not_Some_eq)
qed

text \<open>
  The search is complete: it fails exactly when even the most lenient comparison
  matches at no position from the start of the search on.
\<close>

theorem seek_sequence_complete:
  assumes "pat \<noteq> []"
  shows "seek_sequence lines pat start eof = None \<longleftrightarrow>
    (\<forall>i. search_from lines pat start eof \<le> i \<longrightarrow> \<not> match_at Normalised lines pat i)"
  using assms by (rule seek_sequence_None_iff)

theorem seek_sequence_complete_witness:
  "seek_sequence [lit ''a''] [lit ''b''] 0 False = None \<and> \<not> match_at Normalised [lit ''a''] [lit ''b''] 0"
proof -
  have ne: "[lit ''b''] \<noteq> []" by simp
  have "seek_sequence [lit ''a''] [lit ''b''] 0 False = None"
    by (simp add: seek_sequence_def search_pass_def match_at_def normalise_def trim_def
        trim_start_def trim_end_def is_whitespace_def normalise_char_def)
  with seek_sequence_complete [OF ne, of "[lit ''a'']" 0 False] show ?thesis by (simp add: search_from_def)
qed

text \<open>
  With the end-of-file flag the only position tried is the one where the pattern ends
  the file; the search never falls back to the requested start.
\<close>

theorem seek_sequence_eof_only_end:
  assumes "pat \<noteq> []"
  shows "seek_sequence lines pat start True =
    (if length pat \<le> length lines \<and> match_at Normalised lines pat (length lines - length pat)
     then Some (length lines - length pat) else None)"
proof (cases "seek_sequence lines pat start True")
  case None
  with seek_sequence_None_iff [OF assms, of lines start True] show ?thesis
    by (auto simp: search_from_def)
next
  case (Some i)
  note m = seek_sequence_match [OF Some assms]
  then have "i = length lines - length pat" by (auto simp: search_from_def)
  with Some m show ?thesis by auto
qed

theorem seek_sequence_eof_only_end_witness:
  "seek_sequence [lit ''a'', lit ''b''] [lit ''a''] 0 True = None \<and>
   seek_sequence [lit ''a'', lit ''b''] [lit ''a''] 0 False = Some 0"
proof -
  have "\<not> match_at Normalised [lit ''a'', lit ''b''] [lit ''a''] 1"
    by (simp add: match_at_def normalise_def trim_def
        trim_start_def trim_end_def is_whitespace_def normalise_char_def)
  then have "seek_sequence [lit ''a'', lit ''b''] [lit ''a''] 0 True = None"
    using seek_sequence_eof_only_end [of "[lit ''a'']" "[lit ''a'', lit ''b'']" 0] by simp
  moreover have "seek_sequence [lit ''a'', lit ''b''] [lit ''a''] 0 False = Some 0"
    by (simp add: seek_sequence_def search_pass_def match_at_def upt_rec)
  ultimately show ?thesis by blast
qed

end
