(* ===== verification/Patch_Replace.thy ===== *)
theory Patch_Replace
  imports Seek_Sequence Patch_Parser "HOL-Library.Multiset"
begin

text \<open>
  How the chunks of an update hunk become new file contents
  (\<open>compute_replacements\<close>, \<open>apply_replacements\<close> and the pure part of
  \<open>derive_new_contents_from_chunks\<close> in \<open>apply-patch/src/lib.rs\<close>). The chunks are
  located with the line matcher, giving replacements (start, length, new lines); these are
  sorted by start and applied from the last to the first. \<open>Vec::insert\<close> beyond the end
  panics, which the model shows as \<open>None\<close>. Facts about locating chunks are proved once for
  any \<open>line_matcher\<close>.
\<close>

section \<open>Computing replacements\<close>

type_synonym replacement = "nat \<times> nat \<times> rstr list"

abbreviation r_start :: "replacement \<Rightarrow> nat" where "r_start r \<equiv> fst r"
abbreviation r_len :: "replacement \<Rightarrow> nat" where "r_len r \<equiv> fst (snd r)"
abbreviation r_new :: "replacement \<Rightarrow> rstr list" where "r_new r \<equiv> snd (snd r)"

type_synonym seek_fun = "rstr list \<Rightarrow> rstr list \<Rightarrow> nat \<Rightarrow> bool \<Rightarrow> nat option"

definition ends_with_empty_line :: "rstr list \<Rightarrow> bool" where
  "ends_with_empty_line ls \<longleftrightarrow> last_opt ls = Some []"

text \<open>The position after the context line of a chunk.\<close>

definition context_index :: "seek_fun \<Rightarrow> rstr list \<Rightarrow> rstr \<Rightarrow> update_file_chunk \<Rightarrow> nat \<Rightarrow> (rstr, nat) result" where
  "context_index seek lines path c line_index =
     (case change_context c of
        None \<Rightarrow> Inr line_index
      | Some ctx \<Rightarrow>
          (case seek lines [ctx] line_index False of
             Some idx \<Rightarrow> Inr (idx + 1)
           | None \<Rightarrow> Inl (lit ''Failed to find context '' @ [39] @ ctx @ [39] @ lit '' in '' @ path)))"

text \<open>
  The region of a chunk with old lines: where it starts, how long it is, what replaces it. A
  pattern whose last line is empty is retried without that line, which stands for the final
  newline of the file.
\<close>

definition locate_old :: "seek_fun \<Rightarrow> rstr list \<Rightarrow> update_file_chunk \<Rightarrow> nat \<Rightarrow> replacement option" where
  "locate_old seek lines c line_index =
     (case seek lines (old_lines c) line_index (is_end_of_file c) of
        Some i \<Rightarrow> Some (i, length (old_lines c), new_lines c)
      | None \<Rightarrow>
          if ends_with_empty_line (old_lines c) then
            (let pat = butlast (old_lines c);
                 new_slice = (if ends_with_empty_line (new_lines c) then butlast (new_lines c) else new_lines c)
             in map_option (\<lambda>i. (i, length pat, new_slice)) (seek lines pat line_index (is_end_of_file c)))
          else None)"

fun replacements_loop ::
    "seek_fun \<Rightarrow> rstr list \<Rightarrow> rstr \<Rightarrow> update_file_chunk list \<Rightarrow> nat \<Rightarrow> replacement list
       \<Rightarrow> (rstr, replacement list) result" where
  "replacements_loop seek lines path [] line_index acc = Inr acc"
| "replacements_loop seek lines path (c # cs) line_index acc =
     (case context_index seek lines path c line_index of
        Inl e \<Rightarrow> Inl e
      | Inr li \<Rightarrow>
          if old_lines c = [] then
            (let insertion_idx = (if ends_with_empty_line lines then length lines - 1 else length lines)
             in replacements_loop seek lines path cs li (acc @ [(insertion_idx, 0, new_lines c)]))
          else
            (case locate_old seek lines c li of
               Some r \<Rightarrow> replacements_loop seek lines path cs (r_start r + r_len r) (acc @ [r])
             | None \<Rightarrow> Inl (lit ''Failed to find expected lines in '' @ path @ lit '':'' @ [newline] @
                             join [newline] (old_lines c))))"

definition compute_replacements_with ::
    "seek_fun \<Rightarrow> rstr list \<Rightarrow> rstr \<Rightarrow> update_file_chunk list \<Rightarrow> (rstr, replacement list) result" where
  "compute_replacements_with seek lines path chunks =
     rbind (replacements_loop seek lines path chunks 0 []) (\<lambda>rs. Inr (sort_key r_start rs))"

definition compute_replacements ::
    "rstr list \<Rightarrow> rstr \<Rightarrow> update_file_chunk list \<Rightarrow> (rstr, replacement list) result" where
  "compute_replacements = compute_replacements_with seek_sequence"

section \<open>Applying replacements\<close>

fun remove_loop :: "nat \<Rightarrow> nat \<Rightarrow> rstr list \<Rightarrow> rstr list" where
  "remove_loop 0 start ls = ls"
| "remove_loop (Suc n) start ls =
     remove_loop n start (if start < length ls then remove_at start ls else ls)"

fun insert_loop :: "nat \<Rightarrow> rstr list \<Rightarrow> rstr list \<Rightarrow> rstr list option" where
  "insert_loop i [] ls = Some ls"
| "insert_loop i (x # xs) ls = Option.bind (vec_insert i x ls) (insert_loop (Suc i) xs)"

definition apply_replacement :: "replacement \<Rightarrow> rstr list \<Rightarrow> rstr list option" where
  "apply_replacement r ls = insert_loop (r_start r) (r_new r) (remove_loop (r_len r) (r_start r) ls)"

text \<open>\<open>for \<dots> in replacements.iter().rev()\<close>: the last replacement first.\<close>

fun apply_replacements :: "rstr list \<Rightarrow> replacement list \<Rightarrow> rstr list option" where
  "apply_replacements ls [] = Some ls"
| "apply_replacements ls (r # rs) = Option.bind (apply_replacements ls rs) (apply_replacement r)"

text \<open>The contents after the chunks; the outer option is the panic of \<open>Vec::insert\<close>.\<close>

definition file_lines :: "rstr \<Rightarrow> rstr list" where
  "file_lines s =
     (let ls = split_on newline s in if ends_with_empty_line ls then butlast ls else ls)"

definition unsplit_lines :: "rstr list \<Rightarrow> rstr" where
  "unsplit_lines ls = join [newline] (if ends_with_empty_line ls then ls else ls @ [[]])"

definition derive_new_contents :: "rstr \<Rightarrow> update_file_chunk list \<Rightarrow> rstr \<Rightarrow> (rstr, rstr) result option" where
  "derive_new_contents path chunks original =
     (case compute_replacements (file_lines original) path chunks of
        Inl e \<Rightarrow> Some (Inl e)
      | Inr rs \<Rightarrow> map_option (\<lambda>ls. Inr (unsplit_lines ls)) (apply_replacements (file_lines original) rs))"

section \<open>One replacement\<close>

lemma remove_loop_eq: "start \<le> length ls \<Longrightarrow> remove_loop n start ls = take start ls @ drop (start + n) ls"
proof (induction n arbitrary: ls)
  case (Suc n)
  show ?case
  proof (cases "start < length ls")
    case True
    then have "start \<le> length (remove_at start ls)" by simp
    from Suc.IH [OF this] True show ?thesis by (simp add: remove_at_def add.commute)
  next
    case False
    with Suc show ?thesis by simp
  qed
qed simp

lemma insert_loop_eq:
  "i \<le> length ls \<Longrightarrow> insert_loop i xs ls = Some (take i ls @ xs @ drop i ls)"
proof (induction xs arbitrary: i ls)
  case (Cons x xs)
  have "Suc i \<le> length (take i ls @ x # drop i ls)" using Cons.prems by simp
  from Cons.IH [OF this] Cons.prems show ?case
    by (simp add: vec_insert_def min_def Suc_diff_le)
qed simp

lemma apply_replacement_eq:
  "r_start r \<le> length ls \<Longrightarrow>
     apply_replacement r ls = Some (take (r_start r) ls @ r_new r @ drop (r_start r + r_len r) ls)"
  by (simp add: apply_replacement_def remove_loop_eq insert_loop_eq)

section \<open>The abstract effect of a list of replacements\<close>

text \<open>
  Reading the file from left to right: keep the lines up to the next replacement, put its new
  lines, skip its old ones.
\<close>

fun splice :: "nat \<Rightarrow> rstr list \<Rightarrow> replacement list \<Rightarrow> rstr list" where
  "splice pos ls [] = drop pos ls"
| "splice pos ls (r # rs) =
     take (r_start r - pos) (drop pos ls) @ r_new r @ splice (r_start r + r_len r) ls rs"

fun apart_from :: "nat \<Rightarrow> nat \<Rightarrow> replacement list \<Rightarrow> bool" where
  "apart_from pos n [] \<longleftrightarrow> pos \<le> n"
| "apart_from pos n (r # rs) \<longleftrightarrow> pos \<le> r_start r \<and> apart_from (r_start r + r_len r) n rs"

lemma apart_from_le: "apart_from pos n rs \<Longrightarrow> pos \<le> n"
  by (induction pos n rs rule: apart_from.induct) auto

lemma apply_replacements_splice:
  "apart_from pos (length ls) rs \<Longrightarrow> apply_replacements ls rs = Some (take pos ls @ splice pos ls rs)"
proof (induction rs arbitrary: pos)
  case (Cons r rs)
  let ?e = "r_start r + r_len r"
  from Cons.prems have e: "apart_from ?e (length ls) rs" and pos: "pos \<le> r_start r" by simp_all
  note le = apart_from_le [OF e]
  have IH: "apply_replacements ls rs = Some (take ?e ls @ splice ?e ls rs)"
    using Cons.IH [OF e] .
  have "apply_replacements ls (r # rs) =
      Some (take (r_start r) ls @ r_new r @ splice ?e ls rs)"
    using le by (simp add: IH apply_replacement_eq min_def)
  moreover have "take (r_start r) ls = take pos ls @ take (r_start r - pos) (drop pos ls)"
    using pos take_add [of pos "r_start r - pos" ls] by simp
  ultimately show ?case by simp
qed simp

text \<open>Replacements that start within the file and are sorted never make the insertion panic.\<close>

lemma apply_replacements_total:
  assumes "sorted (map r_start rs)" "\<forall>r \<in> set rs. r_start r \<le> length ls"
  shows "\<exists>ls'. apply_replacements ls rs = Some ls' \<and> (rs \<noteq> [] \<longrightarrow> r_start (hd rs) \<le> length ls')"
  using assms
proof (induction rs)
  case (Cons r rs)
  then obtain ls' where ls': "apply_replacements ls rs = Some ls'" "rs \<noteq> [] \<longrightarrow> r_start (hd rs) \<le> length ls'"
    by auto
  have "r_start r \<le> length ls'"
  proof (cases rs)
    case Nil
    with ls' Cons.prems(2) show ?thesis by simp
  next
    case (Cons q qs)
    with ls' \<open>sorted (map r_start (r # rs))\<close> show ?thesis by auto
  qed
  with ls' show ?case by (simp add: apply_replacement_eq)
qed simp

section \<open>Locating chunks, for any line matcher\<close>

text \<open>
  The state of the loop: the cursor is in the file, every region found so far ends in the
  file, and the regions that start before the end are in order and end before the cursor.
\<close>

definition in_file :: "nat \<Rightarrow> replacement \<Rightarrow> bool" where
  "in_file n r \<longleftrightarrow> r_start r + r_len r \<le> n"

definition ordered_before :: "nat \<Rightarrow> nat \<Rightarrow> replacement list \<Rightarrow> bool" where
  "ordered_before n li rs \<longleftrightarrow>
     (\<forall>r \<in> set rs. in_file n r \<and> (r_start r < n \<longrightarrow> r_start r + r_len r \<le> li)) \<and>
     sorted_wrt (\<lambda>r q. r_start r + r_len r \<le> r_start q) (filter (\<lambda>r. r_start r < n) rs)"

lemma apart_from_chain:
  assumes "sorted_wrt (\<lambda>r q. r_start r + r_len r \<le> r_start q) rs"
    "\<forall>r \<in> set rs. pos \<le> r_start r \<and> in_file n r" "pos \<le> n"
  shows "apart_from pos n rs"
  using assms
proof (induction rs arbitrary: pos)
  case (Cons r rs)
  then show ?case by (auto simp: in_file_def)
qed simp

lemma ordered_before_apart:
  assumes "ordered_before n li rs"
  shows "apart_from 0 n (sort_key r_start rs)"
proof -
  define front where "front = filter (\<lambda>r. r_start r < n) rs"
  define rear where "rear = filter (\<lambda>r. \<not> r_start r < n) rs"
  have inf: "in_file n r" if "r \<in> set rs" for r using assms that by (simp add: ordered_before_def)
  have rear: "r_start r = n \<and> r_len r = 0" if "r \<in> set rear" for r
    using that inf [of r] by (auto simp: rear_def in_file_def)
  have front: "r_start r < n \<and> in_file n r" if "r \<in> set front" for r
    using that inf [of r] by (auto simp: front_def)
  have chain: "sorted_wrt (\<lambda>r q. r_start r + r_len r \<le> r_start q) (front @ rear)"
    unfolding sorted_wrt_append
  proof (intro conjI ballI)
    show "sorted_wrt (\<lambda>r q. r_start r + r_len r \<le> r_start q) front"
      using assms by (simp add: ordered_before_def front_def)
    show "sorted_wrt (\<lambda>r q. r_start r + r_len r \<le> r_start q) rear"
      unfolding sorted_wrt_iff_nth_less
    proof (intro allI impI)
      fix i j assume "i < j" "j < length rear"
      then show "r_start (rear ! i) + r_len (rear ! i) \<le> r_start (rear ! j)"
        using rear [of "rear ! i"] rear [of "rear ! j"] by simp
    qed
    show "r_start r + r_len r \<le> r_start q" if "r \<in> set front" "q \<in> set rear" for r q
      using front [OF that(1)] rear [OF that(2)] by (simp add: in_file_def)
  qed
  have "sort_key r_start rs = front @ rear"
  proof (rule properties_for_sort_key)
    show "mset (front @ rear) = mset rs"
      by (simp add: front_def rear_def)
    show "filter (\<lambda>x. r_start k = r_start x) (front @ rear) = filter (\<lambda>x. r_start k = r_start x) rs" for k
    proof (cases "r_start k < n")
      case True
      then have "filter (\<lambda>x. r_start k = r_start x) rear = []" using rear by (auto simp: filter_empty_conv)
      moreover have "filter (\<lambda>x. r_start k = r_start x) front = filter (\<lambda>x. r_start k = r_start x) rs"
        using True by (auto simp: front_def intro!: filter_cong)
      ultimately show ?thesis by simp
    next
      case False
      then have "filter (\<lambda>x. r_start k = r_start x) front = []" using front by (auto simp: filter_empty_conv)
      moreover have "filter (\<lambda>x. r_start k = r_start x) rear = filter (\<lambda>x. r_start k = r_start x) rs"
        using False by (auto simp: rear_def intro!: filter_cong)
      ultimately show ?thesis by simp
    qed
    show "sorted (map r_start (front @ rear))"
      unfolding sorted_map using chain by (rule sorted_wrt_mono_rel [rotated]) auto
  qed
  moreover have "apart_from 0 n (front @ rear)"
    using chain by (rule apart_from_chain) (use inf in \<open>auto simp: front_def rear_def\<close>)
  ultimately show ?thesis by simp
qed

context line_matcher
begin

lemma context_index_bound:
  assumes "context_index seek ls p c li = Inr li'" "li \<le> length ls"
  shows "li \<le> li' \<and> li' \<le> length ls"
proof (cases "change_context c")
  case (Some ctx)
  with assms obtain i where "seek ls [ctx] li False = Some i" "li' = i + 1"
    by (auto simp: context_index_def split: option.splits)
  with seek_bound [of ls "[ctx]" li False i] seek_from [of ls "[ctx]" li i] show ?thesis by simp
qed (use assms in \<open>simp add: context_index_def\<close>)

lemma locate_old_bound:
  "locate_old seek ls c li = Some r \<Longrightarrow> li \<le> length ls \<Longrightarrow> in_file (length ls) r"
  by (auto simp: locate_old_def in_file_def Let_def dest: seek_bound' split: option.splits if_splits)

lemma locate_old_from:
  "locate_old seek ls c li = Some r \<Longrightarrow> \<not> is_end_of_file c \<Longrightarrow> li \<le> r_start r"
  by (auto simp: locate_old_def Let_def dest: seek_from split: option.splits if_splits)

lemma replacements_in_file:
  assumes "replacements_loop seek ls p cs li acc = Inr rs" "li \<le> length ls" "\<forall>r \<in> set acc. in_file (length ls) r"
  shows "\<forall>r \<in> set rs. in_file (length ls) r"
  using assms
proof (induction cs arbitrary: li acc)
  case (Cons c cs)
  obtain li' where li': "context_index seek ls p c li = Inr li'"
    using Cons.prems(1) by (auto split: sum.splits)
  note bound = context_index_bound [OF li' Cons.prems(2)]
  show ?case
  proof (cases "old_lines c = []")
    case True
    let ?i = "if ends_with_empty_line ls then length ls - 1 else length ls"
    have "replacements_loop seek ls p cs li' (acc @ [(?i, 0, new_lines c)]) = Inr rs"
      using Cons.prems(1) li' True by (simp add: Let_def)
    from Cons.IH [OF this] bound Cons.prems(3) show ?thesis by (simp add: in_file_def)
  next
    case False
    then obtain r where r: "locate_old seek ls c li' = Some r"
      and rest: "replacements_loop seek ls p cs (r_start r + r_len r) (acc @ [r]) = Inr rs"
      using Cons.prems(1) li' by (auto split: option.splits)
    have "in_file (length ls) r" using locate_old_bound r bound by blast
    with Cons.IH [OF rest] Cons.prems(3) show ?thesis by (auto simp: in_file_def)
  qed
qed simp

lemma replacements_ordered:
  assumes "replacements_loop seek ls p cs li acc = Inr rs" "li \<le> length ls" "ordered_before (length ls) li acc"
    and "\<forall>c \<in> set cs. \<not> is_end_of_file c"
    and "\<not> ends_with_empty_line ls \<or> (\<forall>c \<in> set cs. old_lines c \<noteq> [])"
  shows "\<exists>li'. ordered_before (length ls) li' rs"
  using assms
proof (induction cs arbitrary: li acc)
  case (Cons c cs)
  obtain li' where li': "context_index seek ls p c li = Inr li'"
    using Cons.prems(1) by (auto split: sum.splits)
  note bound = context_index_bound [OF li' Cons.prems(2)]
  have acc: "ordered_before (length ls) li' acc"
    using Cons.prems(3) bound unfolding ordered_before_def by (meson le_trans)
  show ?case
  proof (cases "old_lines c = []")
    case True
    with Cons.prems(5) have ne: "\<not> ends_with_empty_line ls" by auto
    have "ordered_before (length ls) li' (acc @ [(length ls, 0, new_lines c)])"
      using acc by (auto simp: ordered_before_def in_file_def)
    moreover have "replacements_loop seek ls p cs li' (acc @ [(length ls, 0, new_lines c)]) = Inr rs"
      using Cons.prems(1) li' True ne by simp
    ultimately show ?thesis using Cons.IH [of li' "acc @ [(length ls, 0, new_lines c)]"] bound ne Cons.prems(4)
      by simp
  next
    case False
    then obtain r where r: "locate_old seek ls c li' = Some r"
      and rest: "replacements_loop seek ls p cs (r_start r + r_len r) (acc @ [r]) = Inr rs"
      using Cons.prems(1) li' by (auto split: option.splits)
    have inf: "in_file (length ls) r" using locate_old_bound r bound by blast
    have after: "li' \<le> r_start r" using locate_old_from [OF r] Cons.prems(4) by simp
    have "ordered_before (length ls) (r_start r + r_len r) (acc @ [r])"
      using acc inf after by (auto simp: ordered_before_def sorted_wrt_append)
    with Cons.IH [OF rest] inf Cons.prems(4,5) show ?thesis by (auto simp: in_file_def)
  qed
qed auto

lemma compute_in_file:
  assumes "compute_replacements_with seek ls p cs = Inr rs"
  shows "sorted (map r_start rs) \<and> (\<forall>r \<in> set rs. in_file (length ls) r)"
proof -
  obtain raw where raw: "replacements_loop seek ls p cs 0 [] = Inr raw" "rs = sort_key r_start raw"
    using assms by (auto simp: compute_replacements_with_def rbind_eq_Inr_iff)
  with replacements_in_file [OF raw(1)] show ?thesis by simp
qed

lemma compute_apart:
  assumes "compute_replacements_with seek ls p cs = Inr rs" "\<forall>c \<in> set cs. \<not> is_end_of_file c"
    and "\<not> ends_with_empty_line ls \<or> (\<forall>c \<in> set cs. old_lines c \<noteq> [])"
  shows "apart_from 0 (length ls) rs"
proof -
  obtain raw where raw: "replacements_loop seek ls p cs 0 [] = Inr raw" "rs = sort_key r_start raw"
    using assms(1) by (auto simp: compute_replacements_with_def rbind_eq_Inr_iff)
  obtain li where "ordered_before (length ls) li raw"
    using replacements_ordered [OF raw(1) _ _ assms(2,3)] by (auto simp: ordered_before_def)
  with raw(2) show ?thesis using ordered_before_apart by blast
qed

end

section \<open>Files as lines\<close>

definition text_of :: "rstr list \<Rightarrow> rstr" where
  "text_of ls = concat (map (\<lambda>l. l @ [newline]) ls)"

lemma ends_with_empty_line_iff: "ends_with_empty_line ls \<longleftrightarrow> ls \<noteq> [] \<and> last ls = []"
  by (auto simp: ends_with_empty_line_def last_opt_conv)

lemma unsplit_lines_eq:
  "unsplit_lines ls = text_of (if ends_with_empty_line ls then butlast ls else ls)"
proof (cases "ends_with_empty_line ls")
  case True
  then have "ls = butlast ls @ [[]]" by (auto simp: ends_with_empty_line_iff) (metis append_butlast_last_id)
  then have "join [newline] ls = text_of (butlast ls)"
    using join_snoc [of newline "butlast ls" "[]"] by (simp add: text_of_def)
  with True show ?thesis by (simp add: unsplit_lines_def)
qed (simp add: unsplit_lines_def join_snoc text_of_def)

lemma split_on_text_of:
  assumes "\<forall>l \<in> set ls. newline \<notin> set l"
  shows "split_on newline (text_of ls) = ls @ [[]]"
proof -
  have "text_of ls = join [newline] (ls @ [[]])" by (simp add: text_of_def join_snoc)
  then show ?thesis using assms by (simp add: split_on_join)
qed

lemma file_lines_text_of: "\<forall>l \<in> set ls. newline \<notin> set l \<Longrightarrow> file_lines (text_of ls) = ls"
  by (simp add: file_lines_def split_on_text_of ends_with_empty_line_iff)

lemma text_of_newline: "text_of ls = [] \<or> last (text_of ls) = newline"
  by (cases ls rule: rev_cases) (auto simp: text_of_def)

lemmas patch_eval =
  compute_replacements_def compute_replacements_with_def context_index_def locate_old_def
  seek_sequence_def search_pass_def match_at_def ends_with_empty_line_def
  apply_replacement_def remove_at_def vec_insert_def

section \<open>No panic\<close>

lemma computed_replacements_apply:
  assumes "compute_replacements ls path chunks = Inr rs"
  shows "\<exists>ls'. apply_replacements ls rs = Some ls'"
proof -
  have "sorted (map r_start rs)" and inf: "\<forall>r \<in> set rs. in_file (length ls) r"
    using seek.compute_in_file assms by (simp_all add: compute_replacements_def)
  moreover have "\<forall>r \<in> set rs. r_start r \<le> length ls"
    using inf by (auto simp: in_file_def dest: add_leD1)
  ultimately show ?thesis using apply_replacements_total by blast
qed

lemma derive_new_contents_not_None: "derive_new_contents path chunks original \<noteq> None"
proof (cases "compute_replacements (file_lines original) path chunks")
  case (Inr rs)
  with computed_replacements_apply [OF Inr] show ?thesis by (auto simp: derive_new_contents_def)
qed (simp add: derive_new_contents_def)

section \<open>Properties\<close>

text \<open>
  Applying computed replacements never panics: whatever the file and the chunks, when
  the chunks can be located the insertions stay in the range of the vector.
\<close>

lemma apply_computed_replacements_total:
  assumes "compute_replacements ls path chunks = Inr rs"
  shows "\<exists>ls'. apply_replacements ls rs = Some ls'"
  using assms by (rule computed_replacements_apply)

text \<open>
  C19: The refinement of the applier: for chunks without the end-of-file flag, and without
  pure additions when the file ends with an empty line, applying the replacements from the
  last to the first is the left-to-right splice: every line outside the located regions is
  kept, in order, and each region is replaced by the new lines of its chunk.
\<close>

theorem apply_replacements_refines_splice:
  assumes "compute_replacements ls path chunks = Inr rs"
    and "\<forall>c \<in> set chunks. \<not> is_end_of_file c"
    and "\<not> ends_with_empty_line ls \<or> (\<forall>c \<in> set chunks. old_lines c \<noteq> [])"
  shows "apart_from 0 (length ls) rs \<and> apply_replacements ls rs = Some (splice 0 ls rs)"
proof -
  have "apart_from 0 (length ls) rs"
    using seek.compute_apart assms by (simp add: compute_replacements_def)
  with apply_replacements_splice [OF this] show ?thesis by simp
qed

theorem apply_replacements_refines_splice_witness:
  "apply_replacements [lit ''a'', lit ''b'', lit ''c''] [(1, 1, [lit ''x'', lit ''y''])] =
     Some (splice 0 [lit ''a'', lit ''b'', lit ''c''] [(1, 1, [lit ''x'', lit ''y''])])"
proof -
  let ?c = "\<lparr>change_context = Some (lit ''a''), old_lines = [lit ''b''], new_lines = [lit ''x'', lit ''y''], is_end_of_file = False\<rparr>"
  have "compute_replacements [lit ''a'', lit ''b'', lit ''c''] (lit ''p'') [?c] = Inr [(1, 1, [lit ''x'', lit ''y''])]"
    by (simp add: patch_eval upt_rec)
  from apply_replacements_refines_splice [OF this] show ?thesis
    by (simp add: ends_with_empty_line_def)
qed

text \<open>
  The same at the level of file contents: a file of lines whose last line is not empty
  is rewritten to the text of the spliced lines, provided the last of these is not empty.
\<close>

theorem derive_new_contents_text:
  assumes "\<forall>l \<in> set ls. newline \<notin> set l" "\<not> ends_with_empty_line ls"
    and "compute_replacements ls path chunks = Inr rs" "\<forall>c \<in> set chunks. \<not> is_end_of_file c"
    and "\<not> ends_with_empty_line (splice 0 ls rs)"
  shows "derive_new_contents path chunks (text_of ls) = Some (Inr (text_of (splice 0 ls rs)))"
proof -
  have "apart_from 0 (length ls) rs"
    using seek.compute_apart assms(2-4) by (simp add: compute_replacements_def)
  from apply_replacements_splice [OF this] have "apply_replacements ls rs = Some (splice 0 ls rs)" by simp
  with assms show ?thesis by (simp add: derive_new_contents_def file_lines_text_of unsplit_lines_eq)
qed

theorem derive_new_contents_text_witness:
  "derive_new_contents (lit ''p'')
     [\<lparr>change_context = None, old_lines = [lit ''a''], new_lines = [lit ''x''], is_end_of_file = False\<rparr>]
     (text_of [lit ''a'', lit ''b'']) = Some (Inr (text_of (splice 0 [lit ''a'', lit ''b''] [(0, 1, [lit ''x''])])))"
proof (rule derive_new_contents_text)
  show "compute_replacements [lit ''a'', lit ''b''] (lit ''p'')
      [\<lparr>change_context = None, old_lines = [lit ''a''], new_lines = [lit ''x''], is_end_of_file = False\<rparr>] =
      Inr [(0, 1, [lit ''x''])]"
    by (simp add: patch_eval upt_rec)
qed (simp_all add: ends_with_empty_line_def)

text \<open>
  New contents are empty or end with a newline, whatever the original file.
\<close>

lemma derive_new_contents_final_newline:
  assumes "derive_new_contents path chunks original = Some (Inr t)"
  shows "t = [] \<or> last t = newline"
proof -
  obtain ls where "t = unsplit_lines ls"
    using assms by (auto simp: derive_new_contents_def split: sum.splits)
  then show ?thesis using text_of_newline by (simp add: unsplit_lines_eq)
qed

text \<open>
  Updating one line of a file that ends with a blank line drops the blank line: the
  contents \<open>a\<close>, newline, newline become \<open>b\<close>, newline.
\<close>

theorem derive_new_contents_drops_blank_line:
  "derive_new_contents path
     [\<lparr>change_context = None, old_lines = [lit ''a''], new_lines = [lit ''b''], is_end_of_file = False\<rparr>]
     (text_of [lit ''a'', []]) = Some (Inr (text_of [lit ''b'']))"
  by (simp add: derive_new_contents_def file_lines_def unsplit_lines_def text_of_def patch_eval upt_rec)

text \<open>
  A pure addition to a file that ends with a blank line is lost when another chunk
  replaces the last lines: the added line \<open>d\<close> is in no line of the result.
\<close>

theorem apply_replacements_loses_addition:
  "\<exists>rs ls'. compute_replacements [lit ''a'', lit ''b'', []] path
     [\<lparr>change_context = None, old_lines = [lit ''b'', []], new_lines = [lit ''c'', []], is_end_of_file = False\<rparr>,
      \<lparr>change_context = None, old_lines = [], new_lines = [lit ''d''], is_end_of_file = False\<rparr>] = Inr rs \<and>
   apply_replacements [lit ''a'', lit ''b'', []] rs = Some ls' \<and> lit ''d'' \<notin> set ls'"
  by (simp add: patch_eval upt_rec)

end
