(* ===== verification/Patch_Apply.thy ===== *)
theory Patch_Apply
  imports Patch_Replace
begin

text \<open>
  Applying a parsed patch to a file system (\<open>apply-patch/src/lib.rs\<close>). The file system is the
  trait object \<open>ExecutorFileSystem\<close> of the source, so it is a parameter: a record of the
  operations the applier calls, over a type of worlds that the writing operations change.
  The sandbox context that the source hands to every call is part of the record. Contents
  that the source passes as the bytes of a \<open>String\<close> are that text.

  The applier keeps a delta of the changes it has committed and a flag that says whether the
  delta is exact. The main theorem gives the flag its meaning.
\<close>

section \<open>The file system interface\<close>

datatype io_error_kind = NotFound | InvalidInput | InvalidData | OtherKind

record io_error =
  err_kind :: io_error_kind
  err_message :: rstr

record file_metadata =
  is_directory :: bool
  is_file :: bool
  is_symlink :: bool
  created_at_ms :: int
  modified_at_ms :: int

record 'w executor_file_system =
  read_file_text :: "rstr \<Rightarrow> 'w \<Rightarrow> (io_error, rstr) result"
  write_file :: "rstr \<Rightarrow> rstr \<Rightarrow> 'w \<Rightarrow> 'w \<times> (io_error, unit) result"
  create_directory :: "rstr \<Rightarrow> bool \<Rightarrow> 'w \<Rightarrow> 'w \<times> (io_error, unit) result"
  get_metadata :: "rstr \<Rightarrow> 'w \<Rightarrow> (io_error, file_metadata) result"
  remove_file :: "rstr \<Rightarrow> bool \<Rightarrow> bool \<Rightarrow> 'w \<Rightarrow> 'w \<times> (io_error, unit) result"

section \<open>Errors\<close>

datatype apply_patch_error =
    PatchParseError parse_error
  | PatchIoError rstr io_error
  | ComputeReplacements rstr
  | ImplicitInvocation

text \<open>
  \<open>anyhow::Error\<close> as the applier uses it: an I/O error with the contexts put around it
  (the outermost first), an error of the applier, or a message. \<open>ReplacementPanic\<close> stands
  for the panic of an insertion out of range while the new contents are derived.
\<close>

datatype anyhow_error =
    AnyIo "rstr list" io_error
  | AnyApply apply_patch_error
  | AnyMsg rstr
  | ReplacementPanic

text \<open>\<open>Result::with_context\<close> on an I/O result.\<close>

definition with_context :: "rstr \<Rightarrow> (io_error, 'a) result \<Rightarrow> (anyhow_error, 'a) result" where
  "with_context ctx r = (case r of Inl e \<Rightarrow> Inl (AnyIo [ctx] e) | Inr v \<Rightarrow> Inr v)"

section \<open>The delta\<close>

datatype applied_patch_file_change =
    ChangeAdd rstr "rstr option"
  | ChangeDelete rstr
  | ChangeUpdate "rstr option" rstr "rstr option" rstr

record applied_patch_change =
  change_path :: rstr
  change :: applied_patch_file_change

record applied_patch_delta =
  delta_changes :: "applied_patch_change list"
  exact :: bool

definition delta_empty :: applied_patch_delta where
  "delta_empty = \<lparr>delta_changes = [], exact = True\<rparr>"

definition delta_append :: "applied_patch_delta \<Rightarrow> applied_patch_delta \<Rightarrow> applied_patch_delta" where
  "delta_append d d' = \<lparr>delta_changes = delta_changes d @ delta_changes d', exact = (exact d \<and> exact d')\<rparr>"

definition push_change :: "applied_patch_change \<Rightarrow> applied_patch_delta \<Rightarrow> applied_patch_delta" where
  "push_change c d = d\<lparr>delta_changes := delta_changes d @ [c]\<rparr>"

abbreviation mark_inexact :: "applied_patch_delta \<Rightarrow> applied_patch_delta" where
  "mark_inexact d \<equiv> d\<lparr>exact := False\<rparr>"

abbreviation weaken_exact :: "bool \<Rightarrow> applied_patch_delta \<Rightarrow> applied_patch_delta" where
  "weaken_exact b d \<equiv> d\<lparr>exact := (exact d \<and> b)\<rparr>"

record affected_paths =
  added :: "rstr list"
  modified :: "rstr list"
  deleted :: "rstr list"

text \<open>What the loop over the hunks changes: the world, the delta, the affected paths.\<close>

record 'w apply_state =
  world :: 'w
  delta :: applied_patch_delta
  affected :: affected_paths

section \<open>Reading helpers\<close>

definition note_existing_path_delta_support :: "'w executor_file_system \<Rightarrow> rstr \<Rightarrow> 'w \<Rightarrow> bool \<Rightarrow> bool" where
  "note_existing_path_delta_support fs path w ex =
     (case get_metadata fs path w of
        Inr md \<Rightarrow> (if is_file md \<and> \<not> is_symlink md then ex else False)
      | Inl source \<Rightarrow> (if err_kind source = NotFound then ex else False))"

definition read_optional_file_text_for_delta ::
    "'w executor_file_system \<Rightarrow> rstr \<Rightarrow> 'w \<Rightarrow> bool \<Rightarrow> rstr option \<times> bool" where
  "read_optional_file_text_for_delta fs path w ex =
     (let ex = note_existing_path_delta_support fs path w ex
      in case read_file_text fs path w of
           Inr content \<Rightarrow> (Some content, ex)
         | Inl source \<Rightarrow> (if err_kind source = NotFound then (None, ex) else (None, False)))"

definition ensure_not_directory :: "'w executor_file_system \<Rightarrow> rstr \<Rightarrow> 'w \<Rightarrow> (io_error, unit) result" where
  "ensure_not_directory fs path w =
     rbind (get_metadata fs path w) (\<lambda>md.
       if is_directory md then Inl \<lparr>err_kind = InvalidInput, err_message = lit ''path is a directory''\<rparr>
       else Inr ())"

definition remove_failure_was_side_effect_free ::
    "'w executor_file_system \<Rightarrow> rstr \<Rightarrow> rstr option \<Rightarrow> 'w \<Rightarrow> bool" where
  "remove_failure_was_side_effect_free fs path expected_content w =
     (case expected_content of
        Some expected \<Rightarrow> (case read_file_text fs path w of Inr content \<Rightarrow> content = expected | Inl _ \<Rightarrow> False)
      | None \<Rightarrow> False)"

section \<open>Writing with a missing parent\<close>

definition write_file_with_missing_parent_retry ::
    "'w executor_file_system \<Rightarrow> rstr \<Rightarrow> rstr \<Rightarrow> 'w \<Rightarrow> 'w \<times> (anyhow_error, unit) result" where
  "write_file_with_missing_parent_retry fs path contents w =
     (let ctx = lit ''Failed to write file '' @ path
      in case write_file fs path contents w of
           (w1, Inr u) \<Rightarrow> (w1, Inr ())
         | (w1, Inl err) \<Rightarrow>
             if err_kind err = NotFound then
               (case (case path_parent path of
                        Some parent \<Rightarrow> create_directory fs parent True w1
                      | None \<Rightarrow> (w1, Inr ())) of
                  (w2, Inl e) \<Rightarrow>
                    (w2, Inl (AnyIo [lit ''Failed to create parent directories for '' @ path] e))
                | (w2, Inr u) \<Rightarrow>
                    (case write_file fs path contents w2 of (w3, r) \<Rightarrow> (w3, with_context ctx r)))
             else (w1, Inl (AnyIo [ctx] err)))"

section \<open>Deriving new contents\<close>

record applied_patch =
  original_contents :: rstr
  new_contents :: rstr

definition derive_new_contents_from_chunks ::
    "'w executor_file_system \<Rightarrow> rstr \<Rightarrow> update_file_chunk list \<Rightarrow> 'w \<Rightarrow> (anyhow_error, applied_patch) result" where
  "derive_new_contents_from_chunks fs path chunks w =
     (case read_file_text fs path w of
        Inl err \<Rightarrow> Inl (AnyApply (PatchIoError (lit ''Failed to read file to update '' @ path) err))
      | Inr original \<Rightarrow>
          (case derive_new_contents path chunks original of
             None \<Rightarrow> Inl ReplacementPanic
           | Some (Inl msg) \<Rightarrow> Inl (AnyApply (ComputeReplacements msg))
           | Some (Inr t) \<Rightarrow> Inr \<lparr>original_contents = original, new_contents = t\<rparr>))"

section \<open>One hunk\<close>

abbreviation set_exact :: "bool \<Rightarrow> 'w apply_state \<Rightarrow> 'w apply_state" where
  "set_exact b s \<equiv> s\<lparr>delta := (delta s)\<lparr>exact := b\<rparr>\<rparr>"

abbreviation fail_inexact :: "'w \<Rightarrow> anyhow_error \<Rightarrow> 'w apply_state \<Rightarrow> 'w apply_state \<times> anyhow_error option" where
  "fail_inexact w e s \<equiv> (s\<lparr>world := w, delta := mark_inexact (delta s)\<rparr>, Some e)"

definition apply_add_hunk ::
    "'w executor_file_system \<Rightarrow> rstr \<Rightarrow> rstr \<Rightarrow> rstr \<Rightarrow> 'w apply_state \<Rightarrow> 'w apply_state \<times> anyhow_error option" where
  "apply_add_hunk fs affected_path path_abs contents s =
     (case read_optional_file_text_for_delta fs path_abs (world s) (exact (delta s)) of
        (overwritten, ex) \<Rightarrow>
          (let s = set_exact ex s
           in case write_file_with_missing_parent_retry fs path_abs contents (world s) of
                (w, Inl e) \<Rightarrow> fail_inexact w e s
              | (w, Inr u) \<Rightarrow>
                  (s\<lparr>world := w,
                     delta := push_change \<lparr>change_path = path_abs, change = ChangeAdd contents overwritten\<rparr> (delta s),
                     affected := (affected s)\<lparr>added := added (affected s) @ [affected_path]\<rparr>\<rparr>, None)))"

definition apply_delete_hunk ::
    "'w executor_file_system \<Rightarrow> rstr \<Rightarrow> rstr \<Rightarrow> 'w apply_state \<Rightarrow> 'w apply_state \<times> anyhow_error option" where
  "apply_delete_hunk fs affected_path path_abs s =
     (let ctx = lit ''Failed to delete file '' @ path_abs;
          ex = note_existing_path_delta_support fs path_abs (world s) (exact (delta s));
          deleted_content = (case read_file_text fs path_abs (world s) of Inr t \<Rightarrow> Some t | Inl _ \<Rightarrow> None);
          s = set_exact (ex \<and> deleted_content \<noteq> None) s
      in case with_context ctx (ensure_not_directory fs path_abs (world s)) of
           Inl e \<Rightarrow> (s, Some e)
         | Inr u \<Rightarrow>
             (case remove_file fs path_abs False False (world s) of
                (w, Inl e) \<Rightarrow>
                  (s\<lparr>world := w,
                     delta := weaken_exact (remove_failure_was_side_effect_free fs path_abs deleted_content w) (delta s)\<rparr>,
                   Some (AnyIo [ctx] e))
              | (w, Inr u) \<Rightarrow>
                  (s\<lparr>world := w,
                     delta := (case deleted_content of
                                 Some content \<Rightarrow> push_change \<lparr>change_path = path_abs, change = ChangeDelete content\<rparr> (delta s)
                               | None \<Rightarrow> delta s),
                     affected := (affected s)\<lparr>deleted := deleted (affected s) @ [affected_path]\<rparr>\<rparr>, None)))"

text \<open>The original of a rename is removed after the destination has been written.\<close>

definition apply_move ::
    "'w executor_file_system \<Rightarrow> rstr \<Rightarrow> rstr \<Rightarrow> rstr \<Rightarrow> applied_patch \<Rightarrow> 'w apply_state
       \<Rightarrow> 'w apply_state \<times> anyhow_error option" where
  "apply_move fs affected_path path_abs dest_abs ap s =
     (case read_optional_file_text_for_delta fs dest_abs (world s) (exact (delta s)) of
        (overwritten, ex) \<Rightarrow>
          (let s = set_exact ex s;
               ctx = lit ''Failed to remove original '' @ path_abs
           in case write_file_with_missing_parent_retry fs dest_abs (new_contents ap) (world s) of
                (w, Inl e) \<Rightarrow> fail_inexact w e s
              | (w, Inr u) \<Rightarrow>
                  (let before = delta s;
                       s = s\<lparr>world := w,
                             delta := push_change \<lparr>change_path = dest_abs,
                               change = ChangeAdd (new_contents ap) overwritten\<rparr> before\<rparr>
                   in case with_context ctx (ensure_not_directory fs path_abs w) of
                        Inl e \<Rightarrow> (s, Some e)
                      | Inr u \<Rightarrow>
                          (case remove_file fs path_abs False False w of
                             (w', Inl e) \<Rightarrow>
                               (s\<lparr>world := w',
                                  delta := weaken_exact
                                    (remove_failure_was_side_effect_free fs path_abs (Some (original_contents ap)) w')
                                    (delta s)\<rparr>,
                                Some (AnyIo [ctx] e))
                           | (w', Inr u) \<Rightarrow>
                               (s\<lparr>world := w',
                                  delta := push_change \<lparr>change_path = path_abs,
                                    change = ChangeUpdate (Some dest_abs) (original_contents ap) overwritten
                                      (new_contents ap)\<rparr> before,
                                  affected := (affected s)\<lparr>modified := modified (affected s) @ [affected_path]\<rparr>\<rparr>,
                                None)))))"

definition apply_in_place ::
    "'w executor_file_system \<Rightarrow> rstr \<Rightarrow> rstr \<Rightarrow> applied_patch \<Rightarrow> 'w apply_state
       \<Rightarrow> 'w apply_state \<times> anyhow_error option" where
  "apply_in_place fs affected_path path_abs ap s =
     (case write_file fs path_abs (new_contents ap) (world s) of
        (w, Inl e) \<Rightarrow> fail_inexact w (AnyIo [lit ''Failed to write file '' @ path_abs] e) s
      | (w, Inr u) \<Rightarrow>
          (s\<lparr>world := w,
             delta := push_change \<lparr>change_path = path_abs,
               change = ChangeUpdate None (original_contents ap) None (new_contents ap)\<rparr> (delta s),
             affected := (affected s)\<lparr>modified := modified (affected s) @ [affected_path]\<rparr>\<rparr>, None))"

definition apply_update_hunk ::
    "'w executor_file_system \<Rightarrow> rstr option \<Rightarrow> rstr \<Rightarrow> rstr \<Rightarrow> rstr \<Rightarrow> rstr option \<Rightarrow> update_file_chunk list
       \<Rightarrow> 'w apply_state \<Rightarrow> 'w apply_state \<times> anyhow_error option" where
  "apply_update_hunk fs home cwd affected_path path_abs move_path chunks s =
     (let s = set_exact (note_existing_path_delta_support fs path_abs (world s) (exact (delta s))) s
      in case derive_new_contents_from_chunks fs path_abs chunks (world s) of
           Inl e \<Rightarrow> (s, Some e)
         | Inr ap \<Rightarrow>
             (case move_path of
                Some dest \<Rightarrow> apply_move fs affected_path path_abs (resolve_path_against_base home dest cwd) ap s
              | None \<Rightarrow> apply_in_place fs affected_path path_abs ap s))"

definition apply_hunk ::
    "'w executor_file_system \<Rightarrow> rstr option \<Rightarrow> rstr \<Rightarrow> 'w apply_state \<Rightarrow> hunk \<Rightarrow> 'w apply_state \<times> anyhow_error option" where
  "apply_hunk fs home cwd s h =
     (let affected_path = hunk_path h; path_abs = resolve_path home h cwd
      in case h of
           AddFile _ contents \<Rightarrow> apply_add_hunk fs affected_path path_abs contents s
         | DeleteFile _ \<Rightarrow> apply_delete_hunk fs affected_path path_abs s
         | UpdateFile _ move_path chunks \<Rightarrow>
             apply_update_hunk fs home cwd affected_path path_abs move_path chunks s)"

section \<open>The whole patch\<close>

definition apply_start :: "'w \<Rightarrow> 'w apply_state" where
  "apply_start w = \<lparr>world = w, delta = delta_empty, affected = \<lparr>added = [], modified = [], deleted = []\<rparr>\<rparr>"

definition apply_hunks_to_files ::
    "'w executor_file_system \<Rightarrow> rstr option \<Rightarrow> hunk list \<Rightarrow> rstr \<Rightarrow> 'w \<Rightarrow> 'w apply_state \<times> anyhow_error option" where
  "apply_hunks_to_files fs home hs cwd w =
     (if hs = [] then (apply_start w, Some (AnyMsg (lit ''No files were modified.'')))
      else fold_until (apply_hunk fs home cwd) (apply_start w) hs)"

text \<open>
  Standard output and error are writers that the caller supplies: a parameter that says, for
  the lines written so far and the next one, whether writing it fails.
\<close>

type_synonym line_writer = "rstr list \<Rightarrow> rstr \<Rightarrow> io_error option"

definition write_line :: "line_writer \<Rightarrow> rstr list \<Rightarrow> rstr \<Rightarrow> rstr list \<times> io_error option" where
  "write_line wr out l = (case wr out l of None \<Rightarrow> (out @ [l], None) | Some e \<Rightarrow> (out, Some e))"

definition summary_lines :: "affected_paths \<Rightarrow> rstr list" where
  "summary_lines a =
     [lit ''Success. Updated the following files:''] @
     map (\<lambda>p. lit ''A '' @ p) (added a) @ map (\<lambda>p. lit ''M '' @ p) (modified a) @
     map (\<lambda>p. lit ''D '' @ p) (deleted a)"

definition print_summary :: "line_writer \<Rightarrow> affected_paths \<Rightarrow> rstr list \<times> io_error option" where
  "print_summary wr a = fold_until (write_line wr) [] (summary_lines a)"

text \<open>\<open>Display\<close> of the errors: the outermost context, or the error itself.\<close>

fun parse_error_display :: "parse_error \<Rightarrow> rstr" where
  "parse_error_display (InvalidPatchError m) = lit ''invalid patch: '' @ m"
| "parse_error_display (InvalidHunkError m n) = lit ''invalid hunk at line '' @ show_nat n @ lit '', '' @ m"

fun apply_error_display :: "apply_patch_error \<Rightarrow> rstr" where
  "apply_error_display (PatchParseError e) = parse_error_display e"
| "apply_error_display (PatchIoError ctx e) = ctx @ lit '': '' @ err_message e"
| "apply_error_display (ComputeReplacements m) = m"
| "apply_error_display ImplicitInvocation =
     lit ''patch detected without explicit call to apply_patch. Rerun as ['' @ [34] @ lit ''apply_patch'' @ [34] @
     lit '', '' @ [34] @ lit ''<patch>'' @ [34] @ lit '']''"

fun anyhow_display :: "anyhow_error \<Rightarrow> rstr" where
  "anyhow_display (AnyIo (c # _) e) = c"
| "anyhow_display (AnyIo [] e) = err_message e"
| "anyhow_display (AnyApply e) = apply_error_display e"
| "anyhow_display (AnyMsg m) = m"
| "anyhow_display ReplacementPanic = []"

text \<open>The conversion of a failure of the loop: an I/O error keeps its kind, anything else is wrapped.\<close>

definition io_failure :: "io_error \<Rightarrow> apply_patch_error" where
  "io_failure e = PatchIoError (lit ''I/O error'') e"

fun failure_error :: "anyhow_error \<Rightarrow> apply_patch_error" where
  "failure_error (AnyIo _ e) = io_failure e"
| "failure_error e =
     PatchIoError (anyhow_display e) \<lparr>err_kind = OtherKind, err_message = anyhow_display e\<rparr>"

datatype apply_outcome =
    Applied applied_patch_delta
  | Failed apply_patch_error applied_patch_delta
  | Panicked

record 'w apply_run =
  run_world :: 'w
  run_stdout :: "rstr list"
  run_stderr :: "rstr list"
  run_outcome :: apply_outcome

definition apply_hunks ::
    "'w executor_file_system \<Rightarrow> rstr option \<Rightarrow> line_writer \<Rightarrow> line_writer \<Rightarrow> hunk list \<Rightarrow> rstr \<Rightarrow> 'w \<Rightarrow> 'w apply_run" where
  "apply_hunks fs home wout werr hs cwd w =
     (case apply_hunks_to_files fs home hs cwd w of
        (s, None) \<Rightarrow>
          (case print_summary wout (affected s) of
             (out, None) \<Rightarrow>
               \<lparr>run_world = world s, run_stdout = out, run_stderr = [], run_outcome = Applied (delta s)\<rparr>
           | (out, Some e) \<Rightarrow>
               \<lparr>run_world = world s, run_stdout = out, run_stderr = [],
                run_outcome = Failed (io_failure e) (delta s)\<rparr>)
      | (s, Some ReplacementPanic) \<Rightarrow>
          \<lparr>run_world = world s, run_stdout = [], run_stderr = [], run_outcome = Panicked\<rparr>
      | (s, Some error) \<Rightarrow>
          (case write_line werr [] (anyhow_display error) of
             (out, Some e) \<Rightarrow>
               \<lparr>run_world = world s, run_stdout = [], run_stderr = out,
                run_outcome = Failed (io_failure e) (delta s)\<rparr>
           | (out, None) \<Rightarrow>
               \<lparr>run_world = world s, run_stdout = [], run_stderr = out,
                run_outcome = Failed (failure_error error) (delta s)\<rparr>))"

fun invalid_patch_line :: "parse_error \<Rightarrow> rstr" where
  "invalid_patch_line (InvalidPatchError m) = lit ''Invalid patch: '' @ m"
| "invalid_patch_line (InvalidHunkError m n) = lit ''Invalid patch hunk on line '' @ show_nat n @ lit '': '' @ m"

definition apply_patch ::
    "'w executor_file_system \<Rightarrow> rstr option \<Rightarrow> line_writer \<Rightarrow> line_writer \<Rightarrow> rstr \<Rightarrow> rstr \<Rightarrow> 'w \<Rightarrow> 'w apply_run" where
  "apply_patch fs home wout werr text cwd w =
     (case parse_patch text of
        Inr args \<Rightarrow> apply_hunks fs home wout werr (hunks args) cwd w
      | Inl e \<Rightarrow>
          (case write_line werr [] (invalid_patch_line e) of
             (out, Some io) \<Rightarrow>
               \<lparr>run_world = w, run_stdout = [], run_stderr = out, run_outcome = Failed (io_failure io) delta_empty\<rparr>
           | (out, None) \<Rightarrow>
               \<lparr>run_world = w, run_stdout = [], run_stderr = out,
                run_outcome = Failed (PatchParseError e) delta_empty\<rparr>))"

section \<open>What the file system promises\<close>

definition text_at :: "'w executor_file_system \<Rightarrow> 'w \<Rightarrow> rstr \<Rightarrow> rstr option" where
  "text_at fs w p = (case read_file_text fs p w of Inr t \<Rightarrow> Some t | Inl _ \<Rightarrow> None)"

definition plain_path :: "'w executor_file_system \<Rightarrow> 'w \<Rightarrow> rstr \<Rightarrow> bool" where
  "plain_path fs w p \<longleftrightarrow> note_existing_path_delta_support fs p w True"

text \<open>
  The contract of a file system in which distinct normal paths name distinct files: a write
  that succeeds on a regular file or a missing path stores the text there and nowhere else; a
  write refused because the parent is missing has no effect; creating the parent directories
  changes no text; a removal that succeeds leaves no file at its path, one that fails may have
  removed it or not, and neither touches another path.
  Nothing is said of what other failed writes leave behind.
\<close>

definition write_stores :: "'w executor_file_system \<Rightarrow> bool" where
  "write_stores fs \<longleftrightarrow>
     (\<forall>p t w w'. plain_path fs w p \<and> write_file fs p t w = (w', Inr ()) \<longrightarrow>
        text_at fs w' = (text_at fs w)(p \<mapsto> t))"

definition refused_write_keeps :: "'w executor_file_system \<Rightarrow> bool" where
  "refused_write_keeps fs \<longleftrightarrow>
     (\<forall>p t w w' e. write_file fs p t w = (w', Inl e) \<and> err_kind e = NotFound \<longrightarrow>
        text_at fs w' = text_at fs w \<and> (plain_path fs w p \<longrightarrow> plain_path fs w' p))"

definition create_parent_keeps :: "'w executor_file_system \<Rightarrow> bool" where
  "create_parent_keeps fs \<longleftrightarrow>
     (\<forall>p d w w'. path_parent p = Some d \<and> create_directory fs d True w = (w', Inr ()) \<longrightarrow>
        text_at fs w' = text_at fs w \<and> (plain_path fs w p \<longrightarrow> plain_path fs w' p))"

definition remove_clears :: "'w executor_file_system \<Rightarrow> bool" where
  "remove_clears fs \<longleftrightarrow>
     (\<forall>p w w' md. get_metadata fs p w = Inr md \<and> \<not> is_directory md \<and>
        remove_file fs p False False w = (w', Inr ()) \<longrightarrow> text_at fs w' = (text_at fs w)(p := None))"

definition failed_remove_local :: "'w executor_file_system \<Rightarrow> bool" where
  "failed_remove_local fs \<longleftrightarrow>
     (\<forall>p w w' e. remove_file fs p False False w = (w', Inl e) \<longrightarrow>
        text_at fs w' = text_at fs w \<or> text_at fs w' = (text_at fs w)(p := None))"

definition fs_laws :: "'w executor_file_system \<Rightarrow> bool" where
  "fs_laws fs \<longleftrightarrow>
     write_stores fs \<and> refused_write_keeps fs \<and> create_parent_keeps fs \<and> remove_clears fs \<and> failed_remove_local fs"

section \<open>What a delta means\<close>

type_synonym contents = "rstr \<Rightarrow> rstr option"

definition replay_change :: "applied_patch_change \<Rightarrow> contents \<Rightarrow> contents" where
  "replay_change c m =
     (case change c of
        ChangeAdd t _ \<Rightarrow> m(change_path c \<mapsto> t)
      | ChangeDelete _ \<Rightarrow> m(change_path c := None)
      | ChangeUpdate None _ _ t \<Rightarrow> m(change_path c \<mapsto> t)
      | ChangeUpdate (Some d) _ _ t \<Rightarrow> m(d \<mapsto> t, change_path c := None))"

definition revert_change :: "applied_patch_change \<Rightarrow> contents \<Rightarrow> contents" where
  "revert_change c m =
     (case change c of
        ChangeAdd _ old \<Rightarrow> m(change_path c := old)
      | ChangeDelete t \<Rightarrow> m(change_path c \<mapsto> t)
      | ChangeUpdate None old _ _ \<Rightarrow> m(change_path c \<mapsto> old)
      | ChangeUpdate (Some d) old over _ \<Rightarrow> m(change_path c \<mapsto> old, d := over))"

definition replay :: "applied_patch_change list \<Rightarrow> contents \<Rightarrow> contents" where
  "replay cs m = foldl (\<lambda>m c. replay_change c m) m cs"

definition revert :: "applied_patch_change list \<Rightarrow> contents \<Rightarrow> contents" where
  "revert cs m = foldr revert_change cs m"

definition explains :: "applied_patch_change list \<Rightarrow> contents \<Rightarrow> contents \<Rightarrow> bool" where
  "explains cs m m' \<longleftrightarrow> replay cs m = m' \<and> revert cs m' = m"

lemma explains_refl: "explains [] m m"
  by (simp add: explains_def replay_def revert_def)

lemma explains_append: "explains cs m m' \<Longrightarrow> explains ds m' m'' \<Longrightarrow> explains (cs @ ds) m m''"
  by (auto simp: explains_def replay_def revert_def)

abbreviation texts :: "'w executor_file_system \<Rightarrow> 'w apply_state \<Rightarrow> contents" where
  "texts fs s \<equiv> text_at fs (world s)"

text \<open>The effect of one step on the delta: if the flag still says exact, the new changes explain the new contents.\<close>

definition exact_step :: "'w executor_file_system \<Rightarrow> 'w apply_state \<Rightarrow> 'w apply_state \<Rightarrow> bool" where
  "exact_step fs s s' \<longleftrightarrow>
     (exact (delta s') \<longrightarrow> exact (delta s) \<and>
        (\<exists>cs. delta_changes (delta s') = delta_changes (delta s) @ cs \<and> explains cs (texts fs s) (texts fs s')))"

definition tracks :: "'w executor_file_system \<Rightarrow> 'w \<Rightarrow> 'w apply_state \<Rightarrow> bool" where
  "tracks fs w s \<longleftrightarrow>
     (exact (delta s) \<longrightarrow> explains (delta_changes (delta s)) (text_at fs w) (texts fs s))"

lemma tracks_step: "tracks fs w s \<Longrightarrow> exact_step fs s s' \<Longrightarrow> tracks fs w s'"
  by (auto simp: tracks_def exact_step_def intro: explains_append)

lemma note_exact:
  "note_existing_path_delta_support fs p w ex \<longleftrightarrow> ex \<and> plain_path fs w p"
  by (auto simp: plain_path_def note_existing_path_delta_support_def split: sum.splits)

lemma read_optional_exact:
  assumes "read_optional_file_text_for_delta fs p w ex = (old, ex')" "ex'"
  shows "ex \<and> plain_path fs w p \<and> old = text_at fs w p"
  using assms
  by (auto simp: read_optional_file_text_for_delta_def text_at_def note_exact Let_def split: sum.splits if_splits)

lemma fs_write_ok:
  "fs_laws fs \<Longrightarrow> plain_path fs w p \<Longrightarrow> write_file fs p t w = (w', Inr u) \<Longrightarrow>
     text_at fs w' = (text_at fs w)(p \<mapsto> t)"
  by (simp add: fs_laws_def write_stores_def)

lemma fs_write_missing:
  "fs_laws fs \<Longrightarrow> write_file fs p t w = (w', Inl e) \<Longrightarrow> err_kind e = NotFound \<Longrightarrow>
     text_at fs w' = text_at fs w \<and> (plain_path fs w p \<longrightarrow> plain_path fs w' p)"
  unfolding fs_laws_def refused_write_keeps_def by (drule conjunct2, drule conjunct1) (simp, blast)

lemma fs_create_parent:
  "fs_laws fs \<Longrightarrow> path_parent p = Some d \<Longrightarrow> create_directory fs d True w = (w', Inr u) \<Longrightarrow>
     text_at fs w' = text_at fs w \<and> (plain_path fs w p \<longrightarrow> plain_path fs w' p)"
  by (simp add: fs_laws_def create_parent_keeps_def)

lemma fs_remove_ok:
  "fs_laws fs \<Longrightarrow> get_metadata fs p w = Inr md \<Longrightarrow> \<not> is_directory md \<Longrightarrow>
     remove_file fs p False False w = (w', Inr u) \<Longrightarrow> text_at fs w' = (text_at fs w)(p := None)"
  by (simp add: fs_laws_def remove_clears_def)

lemma fs_remove_err:
  "fs_laws fs \<Longrightarrow> remove_file fs p False False w = (w', Inl e) \<Longrightarrow>
     text_at fs w' = text_at fs w \<or> text_at fs w' = (text_at fs w)(p := None)"
  unfolding fs_laws_def failed_remove_local_def by (elim conjE allE impE)

lemma write_retry_text:
  assumes laws: "fs_laws fs" and plain: "plain_path fs w p"
    and ok: "write_file_with_missing_parent_retry fs p t w = (w', Inr u)"
  shows "text_at fs w' = (text_at fs w)(p \<mapsto> t)"
proof -
  obtain w1 r1 where w1: "write_file fs p t w = (w1, r1)" by force
  show ?thesis
  proof (cases r1)
    case (Inr v)
    then have "w' = w1" using ok w1 by (simp add: write_file_with_missing_parent_retry_def)
    with fs_write_ok [OF laws plain] w1 Inr show ?thesis by simp
  next
    case (Inl e)
    then have nf: "err_kind e = NotFound"
      using ok w1 by (auto simp: write_file_with_missing_parent_retry_def Let_def split: if_splits)
    obtain w2 r2 where w2: "(case path_parent p of Some d \<Rightarrow> create_directory fs d True w1 | None \<Rightarrow> (w1, Inr ())) = (w2, r2)"
      by force
    have r2: "r2 = Inr ()"
      using ok w1 Inl nf w2 by (cases r2) (auto simp: write_file_with_missing_parent_retry_def Let_def)
    have w3: "write_file fs p t w2 = (w', Inr ())"
      using ok w1 Inl nf w2 r2
      by (auto simp: write_file_with_missing_parent_retry_def Let_def with_context_def split: prod.splits sum.splits)
    have s1: "text_at fs w1 = text_at fs w \<and> (plain_path fs w p \<longrightarrow> plain_path fs w1 p)"
      using fs_write_missing [OF laws] w1 Inl nf by simp
    have s2: "text_at fs w2 = text_at fs w1 \<and> (plain_path fs w1 p \<longrightarrow> plain_path fs w2 p)"
      using w2 r2 fs_create_parent [OF laws] by (auto split: option.splits)
    from s1 s2 plain have "plain_path fs w2 p" by simp
    from fs_write_ok [OF laws this w3] s1 s2 show ?thesis by simp
  qed
qed

section \<open>Every hunk keeps the delta exact\<close>

lemma ensure_not_directory_Inr:
  "ensure_not_directory fs p w = Inr u \<Longrightarrow> \<exists>md. get_metadata fs p w = Inr md \<and> \<not> is_directory md"
  by (auto simp: ensure_not_directory_def rbind_eq_Inr_iff split: if_splits)

lemma exact_step_same:
  "(exact (delta s') \<Longrightarrow> exact (delta s)) \<Longrightarrow> delta_changes (delta s') = delta_changes (delta s) \<Longrightarrow>
     (exact (delta s') \<Longrightarrow> texts fs s' = texts fs s) \<Longrightarrow> exact_step fs s s'"
  by (auto simp: exact_step_def intro!: exI [of _ "[]"] explains_refl)

lemma exact_step_one:
  "(exact (delta s') \<Longrightarrow> exact (delta s)) \<Longrightarrow> delta_changes (delta s') = delta_changes (delta s) @ [c] \<Longrightarrow>
     (exact (delta s') \<Longrightarrow> explains [c] (texts fs s) (texts fs s')) \<Longrightarrow> exact_step fs s s'"
  by (auto simp: exact_step_def)

lemma explains_single:
  "explains [c] m m' \<longleftrightarrow> replay_change c m = m' \<and> revert_change c m' = m"
  by (simp add: explains_def replay_def revert_def)

lemma explains_add:
  "explains [\<lparr>change_path = p, change = ChangeAdd t (m p)\<rparr>] m (m(p \<mapsto> t))"
  by (simp add: explains_single replay_change_def revert_change_def)

lemma explains_delete:
  "m p = Some t \<Longrightarrow> explains [\<lparr>change_path = p, change = ChangeDelete t\<rparr>] m (m(p := None))"
  by (auto simp: explains_single replay_change_def revert_change_def)

lemma explains_update:
  "m p = Some old \<Longrightarrow> explains [\<lparr>change_path = p, change = ChangeUpdate None old None t\<rparr>] m (m(p \<mapsto> t))"
  by (auto simp: explains_single replay_change_def revert_change_def)

lemma explains_move:
  "m p = Some old \<Longrightarrow>
     explains [\<lparr>change_path = p, change = ChangeUpdate (Some d) old (m d) t\<rparr>] m (m(d \<mapsto> t, p := None))"
  by (auto simp: explains_single replay_change_def revert_change_def)

lemma remove_side_effect_free:
  assumes "fs_laws fs" "remove_file fs p False False w = (w', Inl e)"
    "remove_failure_was_side_effect_free fs p expected w'"
  shows "text_at fs w' = text_at fs w"
proof -
  have "text_at fs w' p \<noteq> None"
    using assms(3)
    by (auto simp: remove_failure_was_side_effect_free_def text_at_def split: sum.splits option.splits)
  with fs_remove_err [OF assms(1,2)] show ?thesis by auto
qed

lemma apply_add_hunk_exact:
  assumes "fs_laws fs"
  shows "exact_step fs s (fst (apply_add_hunk fs a p t s))"
proof -
  obtain old ex where old: "read_optional_file_text_for_delta fs p (world s) (exact (delta s)) = (old, ex)" by force
  obtain w r where w: "write_file_with_missing_parent_retry fs p t (world s) = (w, r)" by force
  show ?thesis
  proof (cases r)
    case (Inl e)
    then show ?thesis by (simp add: apply_add_hunk_def old w exact_step_def)
  next
    case (Inr u)
    show ?thesis
    proof (rule exact_step_one)
      assume "exact (delta (fst (apply_add_hunk fs a p t s)))"
      then have ex by (simp add: apply_add_hunk_def old w Inr push_change_def)
      note r = read_optional_exact [OF old this]
      then show "exact (delta s)" by simp
      have "text_at fs w = (texts fs s)(p \<mapsto> t)" using write_retry_text [OF assms, of "world s" p t w u] r w Inr by simp
      moreover have "world (fst (apply_add_hunk fs a p t s)) = w" by (simp add: apply_add_hunk_def old w Inr)
      ultimately show "explains [\<lparr>change_path = p, change = ChangeAdd t old\<rparr>] (texts fs s)
          (texts fs (fst (apply_add_hunk fs a p t s)))"
        using r explains_add [of p t "texts fs s"] by simp
    qed (simp add: apply_add_hunk_def old w Inr push_change_def)
  qed
qed

lemma apply_delete_hunk_exact:
  assumes "fs_laws fs"
  shows "exact_step fs s (fst (apply_delete_hunk fs a p s))"
proof -
  let ?s' = "fst (apply_delete_hunk fs a p s)"
  let ?ex = "exact (delta s) \<and> plain_path fs (world s) p \<and> texts fs s p \<noteq> None"
  have del: "(case read_file_text fs p (world s) of Inr t \<Rightarrow> Some t | Inl _ \<Rightarrow> None) = texts fs s p"
    by (simp add: text_at_def)
  note step = apply_delete_hunk_def Let_def note_exact del
  show ?thesis
  proof (cases "ensure_not_directory fs p (world s)")
    case (Inl e)
    then show ?thesis by (intro exact_step_same) (simp_all add: step with_context_def)
  next
    case (Inr u)
    then obtain md where md: "get_metadata fs p (world s) = Inr md" "\<not> is_directory md"
      using ensure_not_directory_Inr [of fs p "world s" u] by auto
    obtain w r where w: "remove_file fs p False False (world s) = (w, r)" by force
    show ?thesis
    proof (cases r)
      case (Inl e)
      show ?thesis
      proof (rule exact_step_same)
        assume ex: "exact (delta ?s')"
        then show "exact (delta s)" by (simp add: step Inr with_context_def w Inl)
        from ex obtain t where "texts fs s p = Some t" "remove_failure_was_side_effect_free fs p (Some t) w"
          by (auto simp: step Inr with_context_def w Inl)
        with remove_side_effect_free [OF assms] w Inl have "text_at fs w = texts fs s" by simp
        then show "texts fs ?s' = texts fs s" by (simp add: step Inr with_context_def w Inl)
      qed (simp add: step Inr with_context_def w Inl)
    next
      case (Inr v)
      note rem = fs_remove_ok [OF assms md] w Inr
      show ?thesis
      proof (cases "texts fs s p")
        case None
        then show ?thesis
          using \<open>ensure_not_directory fs p (world s) = Inr u\<close> by (simp add: exact_step_def step with_context_def w Inr)
      next
        case (Some t)
        show ?thesis
        proof (rule exact_step_one)
          show "explains [\<lparr>change_path = p, change = ChangeDelete t\<rparr>] (texts fs s) (texts fs ?s')"
            using \<open>ensure_not_directory fs p (world s) = Inr u\<close> rem Some explains_delete [of "texts fs s" p t]
            by (simp add: step with_context_def)
        qed (use \<open>ensure_not_directory fs p (world s) = Inr u\<close> Some w Inr in
              \<open>simp_all add: step with_context_def push_change_def\<close>)
      qed
    qed
  qed
qed

lemma apply_in_place_exact:
  assumes "fs_laws fs" "exact (delta s) \<longrightarrow> plain_path fs (world s) p"
    "texts fs s p = Some (original_contents ap)"
  shows "exact_step fs s (fst (apply_in_place fs a p ap s))"
proof -
  obtain w r where w: "write_file fs p (new_contents ap) (world s) = (w, r)" by force
  show ?thesis
  proof (cases r)
    case (Inl e)
    then show ?thesis by (simp add: apply_in_place_def w exact_step_def)
  next
    case (Inr u)
    show ?thesis
    proof (rule exact_step_one)
      assume "exact (delta (fst (apply_in_place fs a p ap s)))"
      then show "exact (delta s)" by (simp add: apply_in_place_def w Inr push_change_def)
      with assms(2) have "plain_path fs (world s) p" by simp
      with fs_write_ok [OF assms(1)] w Inr have "text_at fs w = (texts fs s)(p \<mapsto> new_contents ap)" by simp
      moreover have "world (fst (apply_in_place fs a p ap s)) = w" by (simp add: apply_in_place_def w Inr)
      ultimately show "explains
          [\<lparr>change_path = p, change = ChangeUpdate None (original_contents ap) None (new_contents ap)\<rparr>]
          (texts fs s) (texts fs (fst (apply_in_place fs a p ap s)))"
        using explains_update [of "texts fs s" p] assms(3) by simp
    qed (simp add: apply_in_place_def w Inr push_change_def)
  qed
qed

text \<open>
  The removal half of a rename: after the destination has been written, an outcome with the
  flag still set has either kept the original, and only the write is in the delta, or removed it.
\<close>

lemma apply_move_exact:
  assumes "fs_laws fs" "texts fs s p = Some (original_contents ap)"
  shows "exact_step fs s (fst (apply_move fs a p d ap s))"
proof -
  let ?t = "new_contents ap"
  let ?s' = "fst (apply_move fs a p d ap s)"
  obtain old ex where old: "read_optional_file_text_for_delta fs d (world s) (exact (delta s)) = (old, ex)" by force
  obtain w r where w: "write_file_with_missing_parent_retry fs d ?t (world s) = (w, r)" by force
  show ?thesis
  proof (cases r)
    case (Inl e)
    then show ?thesis by (simp add: apply_move_def old w exact_step_def)
  next
    case wr: (Inr u)
    let ?add = "\<lparr>change_path = d, change = ChangeAdd ?t old\<rparr>"
    note step = apply_move_def old w wr push_change_def with_context_def
    have written: "exact (delta s) \<and> old = texts fs s d \<and> text_at fs w = (texts fs s)(d \<mapsto> ?t)" if ex
      using read_optional_exact [OF old that] write_retry_text [OF assms(1), of "world s" d ?t w u] w wr by simp
    have add: "explains [?add] (texts fs s) (text_at fs w)" if ex
      using written [OF that] explains_add [of d ?t "texts fs s"] by simp
    show ?thesis
    proof (cases "ensure_not_directory fs p w")
      case (Inl e)
      have "exact (delta ?s') = ex" "delta_changes (delta ?s') = delta_changes (delta s) @ [?add]" "world ?s' = w"
        by (simp_all add: step Inl)
      with written add show ?thesis by (intro exact_step_one [where c = ?add]) simp_all
    next
      case nd: (Inr v)
      then obtain md where md: "get_metadata fs p w = Inr md" "\<not> is_directory md"
        using ensure_not_directory_Inr [of fs p w v] by auto
      obtain w' r' where w': "remove_file fs p False False w = (w', r')" by force
      show ?thesis
      proof (cases r')
        case (Inl e)
        let ?free = "remove_failure_was_side_effect_free fs p (Some (original_contents ap)) w'"
        have s': "exact (delta ?s') = (ex \<and> ?free)" "delta_changes (delta ?s') = delta_changes (delta s) @ [?add]"
            "world ?s' = w'"
          by (simp_all add: step nd w' Inl)
        have "text_at fs w' = text_at fs w" if ?free
          using remove_side_effect_free [OF assms(1) _ that] w' Inl by simp
        with s' written add show ?thesis by (intro exact_step_one [where c = ?add]) simp_all
      next
        case (Inr z)
        let ?upd = "\<lparr>change_path = p, change = ChangeUpdate (Some d) (original_contents ap) old ?t\<rparr>"
        have s': "exact (delta ?s') = ex" "delta_changes (delta ?s') = delta_changes (delta s) @ [?upd]" "world ?s' = w'"
          by (simp_all add: step nd w' Inr)
        have "explains [?upd] (texts fs s) (text_at fs w')" if ex
          using fs_remove_ok [OF assms(1) md] w' Inr written [OF that] explains_move [of "texts fs s" p, OF assms(2), of d ?t]
          by simp
        with s' written show ?thesis by (intro exact_step_one [where c = ?upd]) simp_all
      qed
    qed
  qed
qed

lemma derive_original:
  "derive_new_contents_from_chunks fs p chunks w = Inr ap \<Longrightarrow> text_at fs w p = Some (original_contents ap)"
  by (auto simp: derive_new_contents_from_chunks_def text_at_def split: sum.splits option.splits)

lemma exact_step_refl: "exact_step fs s s"
  by (rule exact_step_same) simp_all

lemma exact_step_weaken:
  "exact_step fs (set_exact b s) s' \<Longrightarrow> (b \<Longrightarrow> exact (delta s)) \<Longrightarrow> exact_step fs s s'"
  by (auto simp: exact_step_def)

lemma apply_update_hunk_exact:
  assumes "fs_laws fs"
  shows "exact_step fs s (fst (apply_update_hunk fs home cwd a p mv chunks s))"
proof -
  let ?b = "exact (delta s) \<and> plain_path fs (world s) p"
  let ?s = "set_exact ?b s"
  have "exact_step fs ?s (fst (apply_update_hunk fs home cwd a p mv chunks s))"
  proof (cases "derive_new_contents_from_chunks fs p chunks (world s)")
    case (Inl e)
    then show ?thesis by (simp add: apply_update_hunk_def note_exact exact_step_refl)
  next
    case (Inr ap)
    then have "texts fs ?s p = Some (original_contents ap)" by (simp add: derive_original)
    then show ?thesis
      using Inr apply_move_exact [OF assms, of ?s p ap] apply_in_place_exact [OF assms, of ?s p ap]
      by (cases mv) (simp_all add: apply_update_hunk_def note_exact)
  qed
  then show ?thesis by (rule exact_step_weaken) simp
qed

lemma apply_hunk_exact:
  "fs_laws fs \<Longrightarrow> exact_step fs s (fst (apply_hunk fs home cwd s h))"
  by (cases h)
     (simp_all add: apply_hunk_def apply_add_hunk_exact apply_delete_hunk_exact apply_update_hunk_exact)

interpretation hunk_loop: fallible_stepper "apply_hunk fs home cwd" "\<lambda>s. fs_laws fs \<longrightarrow> tracks fs w0 s"
  for fs :: "'w executor_file_system" and home cwd w0
  by unfold_locales (blast intro: tracks_step apply_hunk_exact)

lemma tracks_start: "tracks fs w (apply_start w)"
  by (simp add: tracks_def apply_start_def delta_empty_def explains_refl)

lemma hunks_to_files_tracks:
  "fs_laws fs \<Longrightarrow> tracks fs w (fst (apply_hunks_to_files fs home hs cwd w))"
  using hunk_loop.finv_feed [of fs w "apply_start w" home cwd hs] tracks_start [of fs w]
  by (auto simp: apply_hunks_to_files_def hunk_loop.feed_def)

section \<open>What a patch means\<close>

text \<open>
  The abstract meaning of a hunk on the contents of files, without worlds, deltas and flags:
  \<open>None\<close> when the hunk does not apply.
\<close>

definition spec_update :: "rstr \<Rightarrow> update_file_chunk list \<Rightarrow> contents \<Rightarrow> rstr option" where
  "spec_update p chunks m =
     (case m p of
        None \<Rightarrow> None
      | Some original \<Rightarrow>
          (case derive_new_contents p chunks original of Some (Inr t) \<Rightarrow> Some t | _ \<Rightarrow> None))"

definition spec_hunk :: "rstr option \<Rightarrow> rstr \<Rightarrow> hunk \<Rightarrow> contents \<Rightarrow> contents option" where
  "spec_hunk home cwd h m =
     (let p = resolve_path home h cwd
      in case h of
           AddFile _ t \<Rightarrow> Some (m(p \<mapsto> t))
         | DeleteFile _ \<Rightarrow> (if m p = None then None else Some (m(p := None)))
         | UpdateFile _ mv chunks \<Rightarrow>
             map_option (\<lambda>t. case mv of
                 None \<Rightarrow> m(p \<mapsto> t)
               | Some d \<Rightarrow> m(resolve_path_against_base home d cwd \<mapsto> t, p := None))
               (spec_update p chunks m))"

fun spec_hunks :: "rstr option \<Rightarrow> rstr \<Rightarrow> hunk list \<Rightarrow> contents \<Rightarrow> contents option" where
  "spec_hunks home cwd [] m = Some m"
| "spec_hunks home cwd (h # hs) m = Option.bind (spec_hunk home cwd h m) (spec_hunks home cwd hs)"

lemma exact_step_replay:
  assumes "exact_step fs s s'" "exact (delta s')" "delta_changes (delta s') = delta_changes (delta s) @ [c]"
  shows "texts fs s' = replay_change c (texts fs s)"
  using assms by (auto simp: exact_step_def explains_single)

lemma apply_add_hunk_spec:
  assumes "fs_laws fs" "apply_add_hunk fs a p t s = (s', None)" "exact (delta s')"
  shows "texts fs s' = (texts fs s)(p \<mapsto> t)"
proof -
  obtain old where "delta_changes (delta s') = delta_changes (delta s) @ [\<lparr>change_path = p, change = ChangeAdd t old\<rparr>]"
    using assms(2) by (auto simp: apply_add_hunk_def push_change_def Let_def split: prod.splits sum.splits)
  from exact_step_replay [OF _ assms(3) this] apply_add_hunk_exact [OF assms(1), of s a p t] assms(2)
  show ?thesis by (simp add: replay_change_def)
qed

lemma apply_delete_hunk_spec:
  assumes "fs_laws fs" "apply_delete_hunk fs a p s = (s', None)" "exact (delta s')"
  shows "texts fs s p \<noteq> None \<and> texts fs s' = (texts fs s)(p := None)"
proof -
  obtain t where t: "texts fs s p = Some t"
    "delta_changes (delta s') = delta_changes (delta s) @ [\<lparr>change_path = p, change = ChangeDelete t\<rparr>]"
    using assms(2,3)
    by (auto simp: apply_delete_hunk_def text_at_def push_change_def Let_def split: prod.splits sum.splits option.splits)
  from exact_step_replay [OF _ assms(3) t(2)] apply_delete_hunk_exact [OF assms(1), of s a p] assms(2) t(1)
  show ?thesis by (simp add: replay_change_def)
qed

lemma derive_spec:
  "derive_new_contents_from_chunks fs p chunks w = Inr ap \<Longrightarrow> spec_update p chunks (text_at fs w) = Some (new_contents ap)"
  by (auto simp: derive_new_contents_from_chunks_def text_at_def spec_update_def split: sum.splits option.splits)

lemma apply_update_hunk_spec:
  assumes "fs_laws fs" "apply_update_hunk fs home cwd a p mv chunks s = (s', None)" "exact (delta s')"
  shows "\<exists>t. spec_update p chunks (texts fs s) = Some t \<and>
    texts fs s' = (case mv of None \<Rightarrow> (texts fs s)(p \<mapsto> t)
      | Some d \<Rightarrow> (texts fs s)(resolve_path_against_base home d cwd \<mapsto> t, p := None))"
proof -
  obtain ap where ap: "derive_new_contents_from_chunks fs p chunks (world s) = Inr ap"
    using assms(2) by (auto simp: apply_update_hunk_def Let_def split: sum.splits)
  have "exact_step fs s s'" using apply_update_hunk_exact [OF assms(1), of s home cwd a p mv chunks] assms(2) by simp
  note replay = exact_step_replay [OF this assms(3)]
  have "texts fs s' = (case mv of None \<Rightarrow> (texts fs s)(p \<mapsto> new_contents ap)
      | Some d \<Rightarrow> (texts fs s)(resolve_path_against_base home d cwd \<mapsto> new_contents ap, p := None))"
  proof (cases mv)
    case None
    have "delta_changes (delta s') = delta_changes (delta s) @
        [\<lparr>change_path = p, change = ChangeUpdate None (original_contents ap) None (new_contents ap)\<rparr>]"
      using assms(2) ap None
      by (auto simp: apply_update_hunk_def apply_in_place_def push_change_def Let_def split: prod.splits sum.splits)
    from replay [OF this] None show ?thesis by (simp add: replay_change_def)
  next
    case (Some d)
    have "\<exists>old. delta_changes (delta s') = delta_changes (delta s) @
        [\<lparr>change_path = p, change = ChangeUpdate (Some (resolve_path_against_base home d cwd)) (original_contents ap) old (new_contents ap)\<rparr>]"
      using assms(2) ap Some
      by (auto simp: apply_update_hunk_def apply_move_def push_change_def Let_def split: prod.splits sum.splits)
    with replay Some show ?thesis by (auto simp: replay_change_def)
  qed
  with derive_spec [OF ap] show ?thesis by blast
qed

lemma apply_hunk_spec:
  assumes "fs_laws fs" "apply_hunk fs home cwd s h = (s', None)" "exact (delta s')"
  shows "spec_hunk home cwd h (texts fs s) = Some (texts fs s')"
proof (cases h)
  case (AddFile p t)
  with assms(2) apply_add_hunk_spec [OF assms(1) _ assms(3)] show ?thesis by (simp add: apply_hunk_def spec_hunk_def)
next
  case (DeleteFile p)
  then have "apply_delete_hunk fs p (resolve_path home h cwd) s = (s', None)"
    using assms(2) by (simp add: apply_hunk_def)
  from apply_delete_hunk_spec [OF assms(1) this assms(3)] DeleteFile show ?thesis by (auto simp: spec_hunk_def Let_def)
next
  case (UpdateFile p mv chunks)
  then have "apply_update_hunk fs home cwd (hunk_path h) (resolve_path home h cwd) mv chunks s = (s', None)"
    using assms(2) by (simp add: apply_hunk_def)
  from apply_update_hunk_spec [OF assms(1) this assms(3)] show ?thesis
    unfolding UpdateFile by (cases mv) (auto simp: spec_hunk_def Let_def)
qed

lemma exact_step_back: "exact_step fs s s' \<Longrightarrow> exact (delta s') \<Longrightarrow> exact (delta s)"
  by (simp add: exact_step_def)

lemma apply_loop_spec:
  assumes "fs_laws fs" "fold_until (apply_hunk fs home cwd) s hs = (s', None)" "exact (delta s')"
  shows "exact (delta s) \<and> spec_hunks home cwd hs (texts fs s) = Some (texts fs s')"
  using assms(2)
proof (induction hs arbitrary: s)
  case Nil
  with assms(3) show ?case by simp
next
  case (Cons h hs)
  obtain s1 where s1: "apply_hunk fs home cwd s h = (s1, None)"
    "fold_until (apply_hunk fs home cwd) s1 hs = (s', None)"
    using Cons.prems by (auto split: prod.splits option.splits)
  from Cons.IH [OF s1(2)] have IH: "exact (delta s1)" "spec_hunks home cwd hs (texts fs s1) = Some (texts fs s')"
    by simp_all
  have "exact (delta s)" using exact_step_back apply_hunk_exact [OF assms(1), of s home cwd h] s1(1) IH(1) by simp
  with apply_hunk_spec [OF assms(1) s1(1) IH(1)] IH(2) show ?case by simp
qed

section \<open>Affected paths\<close>

fun is_add_hunk :: "hunk \<Rightarrow> bool" where
  "is_add_hunk (AddFile _ _) = True"
| "is_add_hunk _ = False"

fun is_delete_hunk :: "hunk \<Rightarrow> bool" where
  "is_delete_hunk (DeleteFile _) = True"
| "is_delete_hunk _ = False"

fun is_update_hunk :: "hunk \<Rightarrow> bool" where
  "is_update_hunk (UpdateFile _ _ _) = True"
| "is_update_hunk _ = False"

lemma apply_hunk_affected:
  assumes "apply_hunk fs home cwd s h = (s', None)"
  shows "affected s' = \<lparr>added = added (affected s) @ (if is_add_hunk h then [hunk_path h] else []),
    modified = modified (affected s) @ (if is_update_hunk h then [hunk_path h] else []),
    deleted = deleted (affected s) @ (if is_delete_hunk h then [hunk_path h] else [])\<rparr>"
proof (cases h)
  case (AddFile p t)
  with assms show ?thesis
    by (auto simp: apply_hunk_def apply_add_hunk_def Let_def split: prod.splits sum.splits)
next
  case (DeleteFile p)
  with assms show ?thesis
    by (auto simp: apply_hunk_def apply_delete_hunk_def Let_def split: prod.splits sum.splits)
next
  case (UpdateFile p mv chunks)
  with assms show ?thesis
    by (cases mv)
       (auto simp: apply_hunk_def apply_update_hunk_def apply_move_def apply_in_place_def Let_def
             split: prod.splits sum.splits)
qed

lemma apply_loop_affected:
  assumes "fold_until (apply_hunk fs home cwd) s hs = (s', None)"
  shows "affected s' = \<lparr>added = added (affected s) @ map hunk_path (filter is_add_hunk hs),
    modified = modified (affected s) @ map hunk_path (filter is_update_hunk hs),
    deleted = deleted (affected s) @ map hunk_path (filter is_delete_hunk hs)\<rparr>"
  using assms
proof (induction hs arbitrary: s)
  case (Cons h hs)
  obtain s1 where s1: "apply_hunk fs home cwd s h = (s1, None)"
    "fold_until (apply_hunk fs home cwd) s1 hs = (s', None)"
    using Cons.prems by (auto split: prod.splits option.splits)
  from Cons.IH [OF s1(2)] apply_hunk_affected [OF s1(1)] show ?case by simp
qed simp

section \<open>A file system in memory\<close>

definition missing_file :: io_error where
  "missing_file = \<lparr>err_kind = NotFound, err_message = lit ''not found''\<rparr>"

definition mem_fs :: "contents executor_file_system" where
  "mem_fs =
     \<lparr>read_file_text = (\<lambda>p w. case w p of Some t \<Rightarrow> Inr t | None \<Rightarrow> Inl missing_file),
      write_file = (\<lambda>p t w. (w(p \<mapsto> t), Inr ())),
      create_directory = (\<lambda>p rec w. (w, Inr ())),
      get_metadata = (\<lambda>p w. case w p of
          Some _ \<Rightarrow> Inr \<lparr>is_directory = False, is_file = True, is_symlink = False, created_at_ms = 0, modified_at_ms = 0\<rparr>
        | None \<Rightarrow> Inl missing_file),
      remove_file = (\<lambda>p rec force w. if w p = None then (w, Inl missing_file) else (w(p := None), Inr ()))\<rparr>"

lemma text_at_mem_fs [simp]: "text_at mem_fs w = w"
  by (rule ext) (simp add: text_at_def mem_fs_def split: option.splits)

lemma mem_fs_laws: "fs_laws mem_fs"
  by (auto simp: fs_laws_def write_stores_def refused_write_keeps_def create_parent_keeps_def
      remove_clears_def failed_remove_local_def)
     (auto simp: mem_fs_def missing_file_def split: option.splits if_splits)

definition demo_patch :: rstr where
  "demo_patch = join [newline]
     [lit ''*** Begin Patch'', lit ''*** Add File: f'', lit ''+hi'', lit ''*** End Patch'']"

lemma parse_demo_patch:
  "parse_patch demo_patch =
     Inr \<lparr>patch = demo_patch, hunks = [AddFile (lit ''f'') (lit ''hi'' @ [newline])], workdir = None, environment_id = None\<rparr>"
  by (simp add: demo_patch_def parse_patch_def PARSE_IN_STRICT_MODE_def parse_patch_text_def
      check_patch_boundaries_lenient_def check_patch_boundaries_strict_def check_start_and_end_lines_strict_def
      marker_defs trim_def trim_start_def trim_end_def is_whitespace_def str_lines_def strip_cr_def strip_suffix_def
      parse_environment_id_preamble_def parse_one_hunk_def)

abbreviation quiet :: line_writer where "quiet \<equiv> (\<lambda>_ _. None)"

section \<open>No panic\<close>

lemma derive_no_panic: "derive_new_contents_from_chunks fs p chunks w \<noteq> Inl ReplacementPanic"
  by (auto simp: derive_new_contents_from_chunks_def derive_new_contents_not_None
      split: sum.splits option.splits)

lemma write_retry_no_panic: "write_file_with_missing_parent_retry fs p t w \<noteq> (w', Inl ReplacementPanic)"
  by (auto simp: write_file_with_missing_parent_retry_def with_context_def Let_def
      split: prod.splits sum.splits option.splits)

lemma apply_hunk_no_panic: "snd (apply_hunk fs home cwd s h) \<noteq> Some ReplacementPanic"
proof (cases h)
  case (AddFile p t)
  then show ?thesis
    by (auto simp: apply_hunk_def apply_add_hunk_def write_retry_no_panic Let_def split: prod.splits sum.splits)
next
  case (DeleteFile p)
  then show ?thesis
    by (auto simp: apply_hunk_def apply_delete_hunk_def with_context_def Let_def split: prod.splits sum.splits)
next
  case (UpdateFile p mv chunks)
  show ?thesis
  proof (cases "derive_new_contents_from_chunks fs (resolve_path home h cwd) chunks (world s)")
    case (Inl e)
    with derive_no_panic have "e \<noteq> ReplacementPanic" by metis
    with Inl UpdateFile show ?thesis by (simp add: apply_hunk_def apply_update_hunk_def Let_def)
  next
    case (Inr ap)
    have "snd (apply_move fs a q d ap s') \<noteq> Some ReplacementPanic" for a q d s'
      by (auto simp: apply_move_def with_context_def write_retry_no_panic Let_def split: prod.splits sum.splits)
    moreover have "snd (apply_in_place fs a q ap s') \<noteq> Some ReplacementPanic" for a q s'
      by (auto simp: apply_in_place_def split: prod.splits sum.splits)
    ultimately show ?thesis using Inr UpdateFile
      by (cases mv) (simp_all add: apply_hunk_def apply_update_hunk_def Let_def)
  qed
qed

lemma apply_loop_no_panic: "snd (fold_until (apply_hunk fs home cwd) s hs) \<noteq> Some ReplacementPanic"
proof (induction hs arbitrary: s)
  case (Cons h hs)
  then show ?case using apply_hunk_no_panic [of fs home cwd s h] by (auto split: prod.splits option.splits)
qed simp

section \<open>Properties\<close>

text \<open>
  C2: The meaning of the delta: over a file system that keeps its contract, whether the
  patch applied or failed half way, if the delta returned is flagged exact then replaying its
  changes on the old contents gives the new contents, and reverting them gives the old
  contents back.
\<close>

theorem apply_patch_delta_exact:
  assumes "fs_laws fs" "exact d"
    and "run_outcome (apply_patch fs home wout werr t cwd w) = Applied d \<or>
         run_outcome (apply_patch fs home wout werr t cwd w) = Failed e d"
  shows "replay (delta_changes d) (text_at fs w) = text_at fs (run_world (apply_patch fs home wout werr t cwd w)) \<and>
         revert (delta_changes d) (text_at fs (run_world (apply_patch fs home wout werr t cwd w))) = text_at fs w"
proof (cases "parse_patch t")
  case (Inl pe)
  then show ?thesis using assms(3)
    by (auto simp: apply_patch_def delta_empty_def replay_def revert_def split: prod.splits option.splits)
next
  case (Inr args)
  obtain s r where s: "apply_hunks_to_files fs home (hunks args) cwd w = (s, r)" by force
  have "tracks fs w s" using hunks_to_files_tracks [OF assms(1), of w home "hunks args" cwd] s by simp
  moreover have "d = delta s \<and> run_world (apply_patch fs home wout werr t cwd w) = world s"
    using assms(3) Inr s
    by (cases r) (auto simp: apply_patch_def apply_hunks_def split: prod.splits option.splits anyhow_error.splits)
  ultimately show ?thesis using assms(2) by (simp add: tracks_def explains_def)
qed

theorem apply_patch_delta_exact_witness:
  "replay [\<lparr>change_path = lit ''/w/f'', change = ChangeAdd (lit ''hi'' @ [newline]) None\<rparr>] Map.empty =
     run_world (apply_patch mem_fs None quiet quiet demo_patch (lit ''/w'') Map.empty)"
proof -
  let ?d = "\<lparr>delta_changes = [\<lparr>change_path = lit ''/w/f'', change = ChangeAdd (lit ''hi'' @ [newline]) None\<rparr>], exact = True\<rparr>"
  have "run_outcome (apply_hunks mem_fs None quiet quiet [AddFile (lit ''f'') (lit ''hi'' @ [newline])] (lit ''/w'') Map.empty) =
      Applied ?d"
    by code_simp
  then have "run_outcome (apply_patch mem_fs None quiet quiet demo_patch (lit ''/w'') Map.empty) = Applied ?d"
    by (simp add: apply_patch_def parse_demo_patch)
  then show ?thesis
    using apply_patch_delta_exact [OF mem_fs_laws, of ?d None quiet quiet demo_patch "lit ''/w''" Map.empty] by simp
qed



text \<open>
  Applying a patch never panics, whatever the text, the file system and the writers.
\<close>

theorem apply_patch_no_panic:
  "run_outcome (apply_patch fs home wout werr t cwd w) \<noteq> Panicked"
proof -
  have "snd (apply_hunks_to_files fs home hs cwd w) \<noteq> Some ReplacementPanic" for hs
    by (simp add: apply_hunks_to_files_def apply_loop_no_panic)
  then have np: "apply_hunks_to_files fs home hs cwd w \<noteq> (s, Some ReplacementPanic)" for hs s
    by (metis snd_conv)
  have "run_outcome (apply_hunks fs home wout werr hs cwd w) \<noteq> Panicked" for hs
    by (auto simp: apply_hunks_def np split: prod.splits option.splits anyhow_error.splits)
  then show ?thesis by (auto simp: apply_patch_def split: sum.splits prod.splits option.splits)
qed

text \<open>
  When all hunks apply, the summary names each hunk once, added files first, then
  modified ones (a rename by its destination), then deleted ones, each group in patch order.
\<close>

lemma apply_hunks_summary:
  assumes "apply_hunks_to_files fs home hs cwd w = (s, None)"
  shows "summary_lines (affected s) =
    [lit ''Success. Updated the following files:''] @
    map (\<lambda>h. lit ''A '' @ hunk_path h) (filter is_add_hunk hs) @
    map (\<lambda>h. lit ''M '' @ hunk_path h) (filter is_update_hunk hs) @
    map (\<lambda>h. lit ''D '' @ hunk_path h) (filter is_delete_hunk hs)"
proof -
  have "fold_until (apply_hunk fs home cwd) (apply_start w) hs = (s, None)"
    using assms by (auto simp: apply_hunks_to_files_def split: if_splits)
  from apply_loop_affected [OF this] show ?thesis
    by (simp add: summary_lines_def apply_start_def comp_def)
qed

text \<open>
  A rename onto the same file deletes it: the new contents are written to the
  destination and the original, the same path, is removed afterwards; the run reports success.
\<close>

theorem move_to_itself_deletes_file:
  assumes "resolve_path_against_base home d cwd = resolve_path_against_base home p cwd"
    and "spec_update (resolve_path_against_base home p cwd) chunks w = Some t"
  shows "\<exists>s. apply_hunks_to_files mem_fs home [UpdateFile p (Some d) chunks] cwd w = (s, None) \<and>
    world s (resolve_path_against_base home p cwd) = None"
proof -
  let ?p = "resolve_path_against_base home p cwd"
  obtain old where old: "w ?p = Some old" "derive_new_contents ?p chunks old = Some (Inr t)"
    using assms(2) by (auto simp: spec_update_def split: option.splits sum.splits)
  show ?thesis
    using assms(1) old
    by (simp add: apply_hunks_to_files_def apply_hunk_def resolve_path_def apply_update_hunk_def apply_start_def
        derive_new_contents_from_chunks_def apply_move_def read_optional_file_text_for_delta_def
        note_existing_path_delta_support_def write_file_with_missing_parent_retry_def ensure_not_directory_def
        with_context_def mem_fs_def Let_def)
qed

theorem move_to_itself_deletes_file_witness:
  "\<exists>s. apply_hunks_to_files mem_fs None
        [UpdateFile (lit ''f'') (Some (lit ''./f''))
          [\<lparr>change_context = None, old_lines = [lit ''a''], new_lines = [lit ''b''], is_end_of_file = False\<rparr>]]
        (lit ''/w'') [lit ''/w/f'' \<mapsto> lit ''a''] = (s, None) \<and>
     world s (resolve_path_against_base None (lit ''f'') (lit ''/w'')) = None"
proof (rule move_to_itself_deletes_file)
  show "resolve_path_against_base None (lit ''./f'') (lit ''/w'') = resolve_path_against_base None (lit ''f'') (lit ''/w'')"
    by code_simp
  show "spec_update (resolve_path_against_base None (lit ''f'') (lit ''/w''))
      [\<lparr>change_context = None, old_lines = [lit ''a''], new_lines = [lit ''b''], is_end_of_file = False\<rparr>]
      [lit ''/w/f'' \<mapsto> lit ''a''] = Some [98, newline]"
    by code_simp
qed

end
