(* ===== verification/Patch_Invocation.thy ===== *)
theory Patch_Invocation
  imports Patch_Apply "HOL-Library.AList"
begin

text \<open>
  Recognising an \<open>apply_patch\<close> invocation and predicting its effect before it runs
  (\<open>apply-patch/src/invocation.rs\<close>). The extraction of a heredoc from a shell script uses a
  Tree-sitter grammar, and the unified diff comes from the \<open>similar\<close> crate: both are
  parameters.
\<close>

section \<open>Shell invocations\<close>

datatype apply_patch_shell = ShellUnix | ShellPowerShell | ShellCmd

datatype extract_heredoc_error =
    CommandDidNotStartWithApplyPatch
  | FailedToLoadBashGrammar
  | HeredocNotUtf8
  | FailedToParsePatchIntoAst
  | FailedToFindHeredocBody

datatype maybe_apply_patch =
    PatchBody apply_patch_args
  | PatchShellParseError extract_heredoc_error
  | PatchBodyParseError parse_error
  | PatchNotApplyPatch

definition APPLY_PATCH_COMMANDS :: "rstr list" where
  "APPLY_PATCH_COMMANDS = [lit ''apply_patch'', lit ''applypatch'']"

definition classify_shell_name :: "rstr \<Rightarrow> rstr option" where
  "classify_shell_name shell = map_option to_ascii_lowercase (file_stem shell)"

definition classify_shell :: "rstr \<Rightarrow> rstr \<Rightarrow> apply_patch_shell option" where
  "classify_shell shell flag =
     (case classify_shell_name shell of
        None \<Rightarrow> None
      | Some name \<Rightarrow>
          if name \<in> {lit ''bash'', lit ''zsh'', lit ''sh''} \<and> flag \<in> {lit ''-lc'', lit ''-c''} then Some ShellUnix
          else if name \<in> {lit ''pwsh'', lit ''powershell''} \<and> eq_ignore_ascii_case flag (lit ''-command'')
            then Some ShellPowerShell
          else if name = lit ''cmd'' \<and> eq_ignore_ascii_case flag (lit ''/c'') then Some ShellCmd
          else None)"

definition can_skip_flag :: "rstr \<Rightarrow> rstr \<Rightarrow> bool" where
  "can_skip_flag shell flag =
     (case classify_shell_name shell of
        None \<Rightarrow> False
      | Some name \<Rightarrow> name \<in> {lit ''pwsh'', lit ''powershell''} \<and> eq_ignore_ascii_case flag (lit ''-noprofile''))"

definition parse_shell_script :: "rstr list \<Rightarrow> (apply_patch_shell \<times> rstr) option" where
  "parse_shell_script argv =
     (case argv of
        [shell, flag, script] \<Rightarrow> map_option (\<lambda>t. (t, script)) (classify_shell shell flag)
      | [shell, skip_flag, flag, script] \<Rightarrow>
          if can_skip_flag shell skip_flag then map_option (\<lambda>t. (t, script)) (classify_shell shell flag) else None
      | _ \<Rightarrow> None)"

type_synonym heredoc_extractor = "rstr \<Rightarrow> (extract_heredoc_error, rstr \<times> rstr option) result"

definition maybe_parse_apply_patch :: "heredoc_extractor \<Rightarrow> rstr list \<Rightarrow> maybe_apply_patch" where
  "maybe_parse_apply_patch extract argv =
     (let shell_form =
        (case parse_shell_script argv of
           None \<Rightarrow> PatchNotApplyPatch
         | Some (shell, script) \<Rightarrow>
             (case extract script of
                Inr (body, dir) \<Rightarrow>
                  (case parse_patch body of
                     Inr source \<Rightarrow> PatchBody (source\<lparr>workdir := dir\<rparr>)
                   | Inl e \<Rightarrow> PatchBodyParseError e)
              | Inl e \<Rightarrow>
                  if e = CommandDidNotStartWithApplyPatch then PatchNotApplyPatch else PatchShellParseError e))
      in case argv of
           [cmd, body] \<Rightarrow>
             if cmd \<in> set APPLY_PATCH_COMMANDS then
               (case parse_patch body of Inr source \<Rightarrow> PatchBody source | Inl e \<Rightarrow> PatchBodyParseError e)
             else shell_form
         | _ \<Rightarrow> shell_form)"

section \<open>Predicted changes\<close>

datatype apply_patch_file_change =
    FileAdd rstr
  | FileDelete rstr
  | FileUpdate rstr "rstr option" rstr

text \<open>The hash map of changes is an association list with distinct keys.\<close>

record apply_patch_action =
  action_changes :: "(rstr \<times> apply_patch_file_change) list"
  action_patch :: rstr
  action_cwd :: rstr

datatype maybe_apply_patch_verified =
    VerifiedBody apply_patch_action
  | VerifiedShellParseError extract_heredoc_error
  | VerifiedCorrectnessError anyhow_error
  | VerifiedNotApplyPatch

type_synonym differ = "rstr \<Rightarrow> rstr \<Rightarrow> nat \<Rightarrow> rstr"

record apply_patch_file_update =
  unified_diff :: rstr
  original_content :: rstr
  update_content :: rstr

definition unified_diff_from_chunks_with_context ::
    "'w executor_file_system \<Rightarrow> differ \<Rightarrow> rstr \<Rightarrow> update_file_chunk list \<Rightarrow> nat \<Rightarrow> 'w
       \<Rightarrow> (anyhow_error, apply_patch_file_update) result" where
  "unified_diff_from_chunks_with_context fs diff path chunks ctx w =
     rbind (derive_new_contents_from_chunks fs path chunks w) (\<lambda>ap.
       Inr \<lparr>unified_diff = diff (original_contents ap) (new_contents ap) ctx,
            original_content = original_contents ap, update_content = new_contents ap\<rparr>)"

definition unified_diff_from_chunks ::
    "'w executor_file_system \<Rightarrow> differ \<Rightarrow> rstr \<Rightarrow> update_file_chunk list \<Rightarrow> 'w
       \<Rightarrow> (anyhow_error, apply_patch_file_update) result" where
  "unified_diff_from_chunks fs diff path chunks w = unified_diff_from_chunks_with_context fs diff path chunks 1 w"

definition verify_hunk ::
    "'w executor_file_system \<Rightarrow> differ \<Rightarrow> rstr option \<Rightarrow> rstr \<Rightarrow> 'w \<Rightarrow> hunk
       \<Rightarrow> (anyhow_error, apply_patch_file_change) result" where
  "verify_hunk fs diff home cwd w h =
     (let path = resolve_path home h cwd
      in case h of
           AddFile _ contents \<Rightarrow> Inr (FileAdd contents)
         | DeleteFile _ \<Rightarrow>
             (case read_file_text fs path w of
                Inr content \<Rightarrow> Inr (FileDelete content)
              | Inl e \<Rightarrow> Inl (AnyApply (PatchIoError (lit ''Failed to read '' @ path) e)))
         | UpdateFile _ mv chunks \<Rightarrow>
             rbind (unified_diff_from_chunks fs diff path chunks w) (\<lambda>u.
               Inr (FileUpdate (unified_diff u) (map_option (\<lambda>p. abs_join home cwd p) mv) (update_content u))))"

fun verify_loop ::
    "'w executor_file_system \<Rightarrow> differ \<Rightarrow> rstr option \<Rightarrow> rstr \<Rightarrow> 'w \<Rightarrow> hunk list
       \<Rightarrow> (rstr \<times> apply_patch_file_change) list
       \<Rightarrow> (anyhow_error, (rstr \<times> apply_patch_file_change) list) result" where
  "verify_loop fs diff home cwd w [] changes = Inr changes"
| "verify_loop fs diff home cwd w (h # hs) changes =
     rbind (verify_hunk fs diff home cwd w h) (\<lambda>c.
       verify_loop fs diff home cwd w hs (AList.update (resolve_path home h cwd) c changes))"

definition verify_apply_patch_args ::
    "'w executor_file_system \<Rightarrow> differ \<Rightarrow> rstr option \<Rightarrow> apply_patch_args \<Rightarrow> rstr \<Rightarrow> 'w \<Rightarrow> maybe_apply_patch_verified" where
  "verify_apply_patch_args fs diff home args cwd w =
     (let effective_cwd = (case workdir args of Some dir \<Rightarrow> abs_join home cwd dir | None \<Rightarrow> cwd)
      in case verify_loop fs diff home effective_cwd w (hunks args) [] of
           Inl e \<Rightarrow> VerifiedCorrectnessError e
         | Inr changes \<Rightarrow>
             VerifiedBody \<lparr>action_changes = changes, action_patch = patch args, action_cwd = effective_cwd\<rparr>)"

definition maybe_parse_apply_patch_verified ::
    "heredoc_extractor \<Rightarrow> 'w executor_file_system \<Rightarrow> differ \<Rightarrow> rstr option \<Rightarrow> rstr list \<Rightarrow> rstr \<Rightarrow> 'w
       \<Rightarrow> maybe_apply_patch_verified" where
  "maybe_parse_apply_patch_verified extract fs diff home argv cwd w =
     (let is_ok = (\<lambda>t. case parse_patch t of Inr _ \<Rightarrow> True | Inl _ \<Rightarrow> False);
          implicit = VerifiedCorrectnessError (AnyApply ImplicitInvocation)
      in if (case argv of [body] \<Rightarrow> is_ok body | _ \<Rightarrow> False) then implicit
         else if (case parse_shell_script argv of Some (_, script) \<Rightarrow> is_ok script | None \<Rightarrow> False) then implicit
         else (case maybe_parse_apply_patch extract argv of
                 PatchBody args \<Rightarrow> verify_apply_patch_args fs diff home args cwd w
               | PatchShellParseError e \<Rightarrow> VerifiedShellParseError e
               | PatchBodyParseError e \<Rightarrow> VerifiedCorrectnessError (AnyApply (PatchParseError e))
               | PatchNotApplyPatch \<Rightarrow> VerifiedNotApplyPatch))"

section \<open>Files a hunk touches\<close>

fun touches :: "rstr option \<Rightarrow> rstr \<Rightarrow> hunk \<Rightarrow> rstr set" where
  "touches home cwd (UpdateFile p (Some d) cs) =
     {resolve_path_against_base home p cwd, resolve_path_against_base home d cwd}"
| "touches home cwd h = {resolve_path home h cwd}"

text \<open>The hunks touch different files, and no rename is onto its own source.\<close>

fun independent :: "rstr option \<Rightarrow> rstr \<Rightarrow> hunk list \<Rightarrow> bool" where
  "independent home cwd [] = True"
| "independent home cwd (h # hs) \<longleftrightarrow>
     (\<forall>g \<in> set hs. touches home cwd h \<inter> touches home cwd g = {}) \<and>
     (case h of UpdateFile p (Some d) _ \<Rightarrow>
          resolve_path_against_base home p cwd \<noteq> resolve_path_against_base home d cwd
        | _ \<Rightarrow> True) \<and>
     independent home cwd hs"

text \<open>The contents that a predicted change announces for a file, before and after.\<close>

definition announced :: "rstr \<Rightarrow> apply_patch_file_change \<Rightarrow> contents \<Rightarrow> contents \<Rightarrow> bool" where
  "announced p c m m' =
     (case c of
        FileAdd t \<Rightarrow> m' p = Some t
      | FileDelete t \<Rightarrow> m p = Some t \<and> m' p = None
      | FileUpdate _ None t \<Rightarrow> m' p = Some t
      | FileUpdate _ (Some d) t \<Rightarrow> m' d = Some t \<and> m' p = None)"

lemma path_in_touches: "resolve_path home h cwd \<in> touches home cwd h"
  by (cases "(home, cwd, h)" rule: touches.cases) (auto simp: resolve_path_def)

lemma spec_hunk_frame:
  "spec_hunk home cwd h m = Some m' \<Longrightarrow> q \<notin> touches home cwd h \<Longrightarrow> m' q = m q"
  by (cases "(home, cwd, h)" rule: touches.cases)
     (auto simp: spec_hunk_def resolve_path_def Let_def split: if_splits option.splits)

lemma spec_hunks_frame:
  assumes "spec_hunks home cwd hs m = Some m'" "\<forall>h \<in> set hs. q \<notin> touches home cwd h"
  shows "m' q = m q"
  using assms
proof (induction hs arbitrary: m)
  case (Cons h hs)
  obtain m1 where m1: "spec_hunk home cwd h m = Some m1" "spec_hunks home cwd hs m1 = Some m'"
    using Cons.prems(1) by (auto simp: bind_eq_Some_conv)
  have "m' q = m1 q" using Cons.IH [OF m1(2)] Cons.prems(2) by simp
  with spec_hunk_frame [OF m1(1)] Cons.prems(2) show ?case by simp
qed simp

lemma spec_hunks_append:
  "spec_hunks home cwd (gs @ hs) m = Option.bind (spec_hunks home cwd gs m) (spec_hunks home cwd hs)"
  by (induction gs arbitrary: m) (auto split: bind_splits)

definition own_source :: "rstr option \<Rightarrow> rstr \<Rightarrow> hunk \<Rightarrow> bool" where
  "own_source home cwd h =
     (case h of UpdateFile p (Some d) _ \<Rightarrow>
          resolve_path_against_base home p cwd = resolve_path_against_base home d cwd
        | _ \<Rightarrow> False)"

lemma independent_split:
  assumes "independent home cwd (gs @ h # hs)"
  shows "(\<forall>g \<in> set gs \<union> set hs. touches home cwd g \<inter> touches home cwd h = {}) \<and> \<not> own_source home cwd h"
  using assms
proof (induction gs)
  case Nil
  then show ?case by (auto simp: own_source_def Int_commute split: hunk.splits option.splits)
next
  case (Cons g gs)
  from Cons.prems have "touches home cwd g \<inter> touches home cwd h = {}" "independent home cwd (gs @ h # hs)" by auto
  with Cons.IH show ?case by auto
qed

text \<open>Predictions of one hunk depend only on the files it touches.\<close>

lemma verify_hunk_announced:
  assumes "verify_hunk fs diff home cwd w h = Inr c" "spec_hunk home cwd h m1 = Some m2" "\<not> own_source home cwd h"
    and "\<forall>q \<in> touches home cwd h. m1 q = text_at fs w q" "\<forall>q \<in> touches home cwd h. m' q = m2 q"
  shows "announced (resolve_path home h cwd) c (text_at fs w) m'"
proof (cases h)
  case (AddFile p t)
  with assms show ?thesis by (auto simp: verify_hunk_def spec_hunk_def announced_def)
next
  case (DeleteFile p)
  with assms show ?thesis
    by (auto simp: verify_hunk_def spec_hunk_def announced_def text_at_def Let_def split: sum.splits if_splits)
next
  case (UpdateFile p mv chunks)
  let ?p = "resolve_path_against_base home p cwd"
  have p: "resolve_path home h cwd = ?p" by (simp add: UpdateFile resolve_path_def)
  obtain ap where ap: "derive_new_contents_from_chunks fs ?p chunks w = Inr ap"
    and c: "c = FileUpdate (diff (original_contents ap) (new_contents ap) 1)
              (map_option (abs_join home cwd) mv) (new_contents ap)"
    using assms(1) p
    by (auto simp: verify_hunk_def UpdateFile unified_diff_from_chunks_def unified_diff_from_chunks_with_context_def
        rbind_eq_Inr_iff)
  have "m1 ?p = text_at fs w ?p" using assms(4) path_in_touches [of home h cwd] p by simp
  with derive_spec [OF ap] have "spec_update ?p chunks m1 = Some (new_contents ap)" by (simp add: spec_update_def)
  with assms(2,3,5) show ?thesis
    by (cases mv) (auto simp: p c announced_def spec_hunk_def own_source_def resolve_path_def UpdateFile abs_join_def)
qed

lemma verify_loop_sound:
  assumes "verify_loop fs diff home cwd w hs acc = Inr changes" "map_of changes q = Some c"
  shows "map_of acc q = Some c \<or> (\<exists>h \<in> set hs. resolve_path home h cwd = q \<and> verify_hunk fs diff home cwd w h = Inr c)"
  using assms(1)
proof (induction hs arbitrary: acc)
  case (Cons h hs)
  obtain c' where c': "verify_hunk fs diff home cwd w h = Inr c'"
    "verify_loop fs diff home cwd w hs (AList.update (resolve_path home h cwd) c' acc) = Inr changes"
    using Cons.prems by (auto simp: rbind_eq_Inr_iff)
  from Cons.IH [OF c'(2)] c'(1) show ?case by (auto simp: AList.update_conv' split: if_splits)
qed (use assms(2) in simp)

lemma verify_body:
  assumes "verify_apply_patch_args fs diff home args cwd w = VerifiedBody action"
  shows "verify_loop fs diff home (action_cwd action) w (hunks args) [] = Inr (action_changes action)"
  using assms by (auto simp: verify_apply_patch_args_def Let_def split: sum.splits option.splits)

section \<open>Properties\<close>

text \<open>
  C31: The prediction shown before a patch runs is what the run does: if the hunks touch
  different files, and the run over the verified working directory succeeds with an exact
  delta, then every predicted change holds of the contents before and after.
\<close>

theorem verified_changes_happen:
  assumes "fs_laws fs" "verify_apply_patch_args fs diff home args cwd w = VerifiedBody action"
    and "apply_hunks_to_files fs home (hunks args) (action_cwd action) w = (s, None)" "exact (delta s)"
    and "independent home (action_cwd action) (hunks args)" "map_of (action_changes action) p = Some c"
  shows "announced p c (text_at fs w) (text_at fs (world s))"
proof -
  let ?cwd = "action_cwd action" and ?m = "text_at fs w"
  obtain h where h: "h \<in> set (hunks args)" "resolve_path home h ?cwd = p" "verify_hunk fs diff home ?cwd w h = Inr c"
    using verify_loop_sound [OF verify_body [OF assms(2)] assms(6)] by auto
  from h(1) obtain gs hs where split: "hunks args = gs @ h # hs" by (meson split_list)
  have "fold_until (apply_hunk fs home ?cwd) (apply_start w) (hunks args) = (s, None)"
    using assms(3) by (auto simp: apply_hunks_to_files_def split: if_splits)
  from apply_loop_spec [OF assms(1) this assms(4)]
  have "spec_hunks home ?cwd (gs @ h # hs) ?m = Some (text_at fs (world s))" by (simp add: apply_start_def split)
  then obtain m1 m2 where m: "spec_hunks home ?cwd gs ?m = Some m1" "spec_hunk home ?cwd h m1 = Some m2"
      "spec_hunks home ?cwd hs m2 = Some (text_at fs (world s))"
    by (auto simp: spec_hunks_append bind_eq_Some_conv)
  note ind = independent_split [OF assms(5) [unfolded split]]
  have "\<forall>q \<in> touches home ?cwd h. m1 q = ?m q" using spec_hunks_frame [OF m(1)] ind by blast
  moreover have "\<forall>q \<in> touches home ?cwd h. text_at fs (world s) q = m2 q" using spec_hunks_frame [OF m(3)] ind by blast
  ultimately show ?thesis using verify_hunk_announced [OF h(3) m(2)] ind h(2) by blast
qed

theorem verified_changes_happen_witness:
  "\<exists>s. apply_hunks_to_files mem_fs None [AddFile (lit ''g'') (lit ''y'')] (lit ''/w'') Map.empty = (s, None) \<and>
     announced (lit ''/w/g'') (FileAdd (lit ''y'')) Map.empty (world s)"
proof -
  let ?args = "\<lparr>patch = [], hunks = [AddFile (lit ''g'') (lit ''y'')], workdir = None, environment_id = None\<rparr>"
  let ?act = "\<lparr>action_changes = [(lit ''/w/g'', FileAdd (lit ''y''))], action_patch = [], action_cwd = lit ''/w''\<rparr>"
  let ?r = "apply_hunks_to_files mem_fs None (hunks ?args) (action_cwd ?act) Map.empty"
  have e: "snd ?r = None" "exact (delta (fst ?r))" by code_simp+
  then have r: "?r = (fst ?r, None)" by (metis prod.collapse)
  have path: "resolve_path None (AddFile (lit ''g'') (lit ''y'')) (lit ''/w'') = lit ''/w/g''" by code_simp
  have v: "verify_apply_patch_args mem_fs (\<lambda>_ _ _. []) None ?args (lit ''/w'') Map.empty = VerifiedBody ?act"
    using path by (simp add: verify_apply_patch_args_def verify_hunk_def Let_def)
  show ?thesis
    using verified_changes_happen [OF mem_fs_laws v r e(2), of "lit ''/w/g''" "FileAdd (lit ''y'')"] r
    by (intro exI [of _ "fst ?r"]) simp
qed

text \<open>
  A raw patch given as the whole command, or as the whole script of a shell, is never
  applied: it is reported as an implicit invocation.
\<close>

theorem raw_patch_is_rejected:
  assumes "parse_patch body = Inr args" "argv = [body] \<or> parse_shell_script argv = Some (shell, body)"
  shows "maybe_parse_apply_patch_verified extract fs diff home argv cwd w =
           VerifiedCorrectnessError (AnyApply ImplicitInvocation)"
  using assms by (auto simp: maybe_parse_apply_patch_verified_def Let_def)

theorem raw_patch_is_rejected_witness:
  "maybe_parse_apply_patch_verified (\<lambda>_. Inl FailedToFindHeredocBody) mem_fs (\<lambda>_ _ _. []) None
     [lit ''/bin/bash'', lit ''-lc'', demo_patch] (lit ''/w'') Map.empty =
     VerifiedCorrectnessError (AnyApply ImplicitInvocation)"
proof (rule raw_patch_is_rejected [OF parse_demo_patch])
  have "classify_shell (lit ''/bin/bash'') (lit ''-lc'') = Some ShellUnix" by code_simp
  then show "[lit ''/bin/bash'', lit ''-lc'', demo_patch] = [demo_patch] \<or>
      parse_shell_script [lit ''/bin/bash'', lit ''-lc'', demo_patch] = Some (ShellUnix, demo_patch)"
    by (simp add: parse_shell_script_def)
qed

definition line_update :: "rchar \<Rightarrow> rchar \<Rightarrow> hunk" where
  "line_update a b = UpdateFile (lit ''f'') None
     [\<lparr>change_context = None, old_lines = [[a]], new_lines = [[b]], is_end_of_file = False\<rparr>]"

definition twice_updated :: apply_patch_args where
  "twice_updated = \<lparr>patch = [], hunks = [line_update 1 3, line_update 2 4], workdir = None, environment_id = None\<rparr>"

definition two_line_file :: contents where
  "two_line_file = [lit ''/w/f'' \<mapsto> [1, newline, 2, newline]]"

lemma twice_updated_run:
  "snd (apply_hunks_to_files mem_fs None (hunks twice_updated) (lit ''/w'') two_line_file) = None"
  "exact (delta (fst (apply_hunks_to_files mem_fs None (hunks twice_updated) (lit ''/w'') two_line_file)))"
  "world (fst (apply_hunks_to_files mem_fs None (hunks twice_updated) (lit ''/w'') two_line_file)) (lit ''/w/f'') =
     Some [3, newline, 4, newline]"
  by code_simp+

lemma twice_updated_prediction:
  "case verify_loop mem_fs (\<lambda>_ _ _. []) None (lit ''/w'') two_line_file (hunks twice_updated) [] of
     Inr ch \<Rightarrow> map_of ch (lit ''/w/f'') = Some (FileUpdate [] None [1, newline, 4, newline]) | Inl _ \<Rightarrow> False"
  by code_simp

text \<open>
  Two update hunks of one file break the prediction: each hunk is verified against the
  contents before the run, so the announced contents miss the change of the first hunk, which
  the run keeps.
\<close>

theorem repeated_update_mispredicted:
  "\<exists>action s c. verify_apply_patch_args mem_fs (\<lambda>_ _ _. []) None twice_updated (lit ''/w'') two_line_file =
        VerifiedBody action \<and>
      apply_hunks_to_files mem_fs None (hunks twice_updated) (lit ''/w'') two_line_file = (s, None) \<and> exact (delta s) \<and>
      map_of (action_changes action) (lit ''/w/f'') = Some c \<and> \<not> announced (lit ''/w/f'') c two_line_file (world s)"
proof -
  let ?r = "apply_hunks_to_files mem_fs None (hunks twice_updated) (lit ''/w'') two_line_file"
  obtain ch where ch: "verify_loop mem_fs (\<lambda>_ _ _. []) None (lit ''/w'') two_line_file (hunks twice_updated) [] = Inr ch"
    "map_of ch (lit ''/w/f'') = Some (FileUpdate [] None [1, newline, 4, newline])"
    using twice_updated_prediction by (auto split: sum.splits)
  let ?act = "\<lparr>action_changes = ch, action_patch = [], action_cwd = lit ''/w''\<rparr>"
  have v: "verify_apply_patch_args mem_fs (\<lambda>_ _ _. []) None twice_updated (lit ''/w'') two_line_file = VerifiedBody ?act"
    using ch(1) by (simp add: verify_apply_patch_args_def twice_updated_def)
  have r: "?r = (fst ?r, None)" using twice_updated_run(1) by (metis prod.collapse)
  show ?thesis
    using v r ch(2) twice_updated_run(2,3)
    by (intro exI [of _ ?act] exI [of _ "fst ?r"] exI [of _ "FileUpdate [] None [1, newline, 4, newline]"])
       (simp add: announced_def)
qed

end
