(* ===== verification/Sandbox_Policy.thy ===== *)
theory Sandbox_Policy
  imports Absolute_Path "HOL-Library.Product_Lexorder" "HOL-Library.Sublist"
begin

text \<open>
  The file system permissions of a session (\<open>protocol/src/permissions.rs\<close>): entries give an
  access mode to a path, the most specific entry that covers a path decides, and the metadata
  directories at the top of a writable root stay protected. What the code asks the machine
  (home, current directory, \<open>TMPDIR\<close>, files) is a record the definitions take.
\<close>

section \<open>Data\<close>

datatype network_sandbox_policy = NetRestricted | NetEnabled

datatype access_mode = AccessRead | AccessWrite | AccessNone

text \<open>The derived order: \<open>none\<close> beats \<open>write\<close>, and \<open>write\<close> beats \<open>read\<close>.\<close>

fun access_rank :: "access_mode \<Rightarrow> nat" where
  "access_rank AccessRead = 0"
| "access_rank AccessWrite = 1"
| "access_rank AccessNone = 2"

instantiation access_mode :: linorder
begin

definition less_eq_access_mode :: "access_mode \<Rightarrow> access_mode \<Rightarrow> bool" where
  "less_eq_access_mode a b \<longleftrightarrow> access_rank a \<le> access_rank b"

definition less_access_mode :: "access_mode \<Rightarrow> access_mode \<Rightarrow> bool" where
  "less_access_mode a b \<longleftrightarrow> access_rank a < access_rank b"

instance
proof
  fix a b c :: access_mode
  show "a < b \<longleftrightarrow> a \<le> b \<and> \<not> b \<le> a" by (auto simp: less_eq_access_mode_def less_access_mode_def)
  show "a \<le> a" by (simp add: less_eq_access_mode_def)
  show "a \<le> b \<Longrightarrow> b \<le> c \<Longrightarrow> a \<le> c" by (simp add: less_eq_access_mode_def)
  show "a \<le> b \<Longrightarrow> b \<le> a \<Longrightarrow> a = b" by (cases a; cases b) (simp_all add: less_eq_access_mode_def)
  show "a \<le> b \<or> b \<le> a" by (auto simp: less_eq_access_mode_def)
qed

end

definition access_can_read :: "access_mode \<Rightarrow> bool" where
  "access_can_read a \<longleftrightarrow> a \<noteq> AccessNone"

definition access_can_write :: "access_mode \<Rightarrow> bool" where
  "access_can_write a \<longleftrightarrow> a = AccessWrite"

datatype special_path =
    RootPath
  | MinimalPath
  | ProjectRoots "rstr option"
  | Tmpdir
  | SlashTmp
  | UnknownPath rstr "rstr option"

datatype fs_path = PathEntry rstr | GlobPattern rstr | Special special_path

record sandbox_entry =
  entry_path :: fs_path
  entry_access :: access_mode

datatype sandbox_kind = KindRestricted | KindUnrestricted | KindExternalSandbox

record sandbox_policy =
  kind :: sandbox_kind
  glob_scan_max_depth :: "nat option"
  entries :: "sandbox_entry list"

record resolved_entry =
  resolved_path :: rstr
  resolved_access :: access_mode

record sandbox_env = process_env +
  env_tmpdir :: "rstr option"
  slash_tmp_is_dir :: bool

section \<open>Resolving entries\<close>

text \<open>\<open>Path\<close> comparisons are comparisons of components.\<close>

definition same_path :: "rstr \<Rightarrow> rstr \<Rightarrow> bool" where
  "same_path p q \<longleftrightarrow> components p = components q"

definition path_starts_with :: "rstr \<Rightarrow> rstr \<Rightarrow> bool" where
  "path_starts_with p base \<longleftrightarrow> prefix (components base) (components p)"

definition path_strip_prefix :: "rstr \<Rightarrow> rstr \<Rightarrow> path_component list option" where
  "path_strip_prefix p base =
     (if path_starts_with p base then Some (drop (length (components base)) (components p)) else None)"

definition env_absolute :: "('z) sandbox_env_scheme \<Rightarrow> rstr \<Rightarrow> rstr option" where
  "env_absolute env p = from_absolute_path (env_home env) (env_current_dir env) p"

definition resolve_special_path :: "('z) sandbox_env_scheme \<Rightarrow> special_path \<Rightarrow> rstr option \<Rightarrow> rstr option" where
  "resolve_special_path env v cwd =
     (case v of
        ProjectRoots subpath \<Rightarrow>
          Option.bind cwd (\<lambda>cwd.
            case subpath of
              Some sub \<Rightarrow> Some (resolve_path_against_base (env_home env) sub cwd)
            | None \<Rightarrow> Some cwd)
      | Tmpdir \<Rightarrow>
          Option.bind (env_tmpdir env) (\<lambda>tmpdir. if tmpdir = [] then None else env_absolute env tmpdir)
      | SlashTmp \<Rightarrow> if slash_tmp_is_dir env then Some (lit ''/tmp'') else None
      | _ \<Rightarrow> None)"

definition resolve_file_system_path :: "('z) sandbox_env_scheme \<Rightarrow> fs_path \<Rightarrow> rstr option \<Rightarrow> rstr option" where
  "resolve_file_system_path env p cwd =
     (case p of
        PathEntry path \<Rightarrow> Some path
      | GlobPattern _ \<Rightarrow> None
      | Special v \<Rightarrow> resolve_special_path env v cwd)"

text \<open>The root of an absolute path is \<open>/\<close>.\<close>

definition absolute_root_path_for_cwd :: "rstr \<Rightarrow> rstr" where
  "absolute_root_path_for_cwd cwd = [slash]"

definition resolve_entry_path :: "('z) sandbox_env_scheme \<Rightarrow> fs_path \<Rightarrow> rstr option \<Rightarrow> rstr option" where
  "resolve_entry_path env p cwd =
     (case p of
        Special RootPath \<Rightarrow> map_option absolute_root_path_for_cwd cwd
      | _ \<Rightarrow> resolve_file_system_path env p cwd)"

definition resolved_entries_with_cwd :: "('z) sandbox_env_scheme \<Rightarrow> sandbox_policy \<Rightarrow> rstr \<Rightarrow> resolved_entry list" where
  "resolved_entries_with_cwd env pol cwd =
     (let cwd_absolute = env_absolute env cwd
      in List.map_filter (\<lambda>e. map_option (\<lambda>p. \<lparr>resolved_path = p, resolved_access = entry_access e\<rparr>)
                                (resolve_entry_path env (entry_path e) cwd_absolute))
           (entries pol))"

definition resolve_candidate_path :: "('z) sandbox_env_scheme \<Rightarrow> rstr \<Rightarrow> rstr \<Rightarrow> rstr option" where
  "resolve_candidate_path env path cwd =
     (if is_absolute path then env_absolute env path
      else map_option (\<lambda>c. abs_join (env_home env) c path) (env_absolute env cwd))"

definition resolved_entry_precedence :: "resolved_entry \<Rightarrow> nat \<times> access_mode" where
  "resolved_entry_precedence e = (length (components (resolved_path e)), resolved_access e)"

definition resolve_access_with_cwd :: "('z) sandbox_env_scheme \<Rightarrow> sandbox_policy \<Rightarrow> rstr \<Rightarrow> rstr \<Rightarrow> access_mode" where
  "resolve_access_with_cwd env pol path cwd =
     (if kind pol \<noteq> KindRestricted then AccessWrite
      else case resolve_candidate_path env path cwd of
             None \<Rightarrow> AccessNone
           | Some path \<Rightarrow>
               (case max_by_key resolved_entry_precedence
                       (filter (\<lambda>e. path_starts_with path (resolved_path e)) (resolved_entries_with_cwd env pol cwd)) of
                  Some e \<Rightarrow> resolved_access e
                | None \<Rightarrow> AccessNone))"

section \<open>Whole-disk access\<close>

definition special_paths_share_target :: "special_path \<Rightarrow> special_path \<Rightarrow> bool" where
  "special_paths_share_target l r =
     (case (l, r) of
        (RootPath, RootPath) \<Rightarrow> True
      | (MinimalPath, MinimalPath) \<Rightarrow> True
      | (Tmpdir, Tmpdir) \<Rightarrow> True
      | (SlashTmp, SlashTmp) \<Rightarrow> True
      | (ProjectRoots a, ProjectRoots b) \<Rightarrow> map_option components a = map_option components b
      | (UnknownPath a s, UnknownPath b t) \<Rightarrow> a = b \<and> map_option components s = map_option components t
      | _ \<Rightarrow> False)"

definition special_path_matches_absolute_path :: "special_path \<Rightarrow> rstr \<Rightarrow> bool" where
  "special_path_matches_absolute_path v path =
     (case v of
        RootPath \<Rightarrow> path_parent path = None
      | SlashTmp \<Rightarrow> same_path path (lit ''/tmp'')
      | _ \<Rightarrow> False)"

definition file_system_paths_share_target :: "fs_path \<Rightarrow> fs_path \<Rightarrow> bool" where
  "file_system_paths_share_target l r =
     (case (l, r) of
        (PathEntry a, PathEntry b) \<Rightarrow> same_path a b
      | (Special a, Special b) \<Rightarrow> special_paths_share_target a b
      | (PathEntry p, Special v) \<Rightarrow> special_path_matches_absolute_path v p
      | (Special v, PathEntry p) \<Rightarrow> special_path_matches_absolute_path v p
      | (GlobPattern a, GlobPattern b) \<Rightarrow> a = b
      | _ \<Rightarrow> False)"

definition has_same_target_write_override :: "sandbox_policy \<Rightarrow> sandbox_entry \<Rightarrow> bool" where
  "has_same_target_write_override pol e \<longleftrightarrow>
     (\<exists>c \<in> set (entries pol). access_can_write (entry_access c) \<and> entry_access e < entry_access c \<and>
        file_system_paths_share_target (entry_path c) (entry_path e))"

definition narrows_write :: "sandbox_policy \<Rightarrow> sandbox_entry \<Rightarrow> bool" where
  "narrows_write pol e =
     (if access_can_write (entry_access e) then False
      else case entry_path e of
             PathEntry _ \<Rightarrow> \<not> has_same_target_write_override pol e
           | GlobPattern _ \<Rightarrow> True
           | Special RootPath \<Rightarrow> entry_access e = AccessNone
           | Special MinimalPath \<Rightarrow> False
           | Special (UnknownPath _ _) \<Rightarrow> False
           | Special _ \<Rightarrow> \<not> has_same_target_write_override pol e)"

definition has_write_narrowing_entries :: "sandbox_policy \<Rightarrow> bool" where
  "has_write_narrowing_entries pol \<longleftrightarrow> kind pol = KindRestricted \<and> (\<exists>e \<in> set (entries pol). narrows_write pol e)"

definition has_root_access :: "sandbox_policy \<Rightarrow> (access_mode \<Rightarrow> bool) \<Rightarrow> bool" where
  "has_root_access pol P \<longleftrightarrow>
     kind pol = KindRestricted \<and> (\<exists>e \<in> set (entries pol). entry_path e = Special RootPath \<and> P (entry_access e))"

definition has_denied_read_restrictions :: "sandbox_policy \<Rightarrow> bool" where
  "has_denied_read_restrictions pol \<longleftrightarrow>
     kind pol = KindRestricted \<and> (\<exists>e \<in> set (entries pol). entry_access e = AccessNone)"

definition has_full_disk_read_access :: "sandbox_policy \<Rightarrow> bool" where
  "has_full_disk_read_access pol =
     (case kind pol of
        KindRestricted \<Rightarrow> has_root_access pol access_can_read \<and> \<not> has_denied_read_restrictions pol
      | _ \<Rightarrow> True)"

definition has_full_disk_write_access :: "sandbox_policy \<Rightarrow> bool" where
  "has_full_disk_write_access pol =
     (case kind pol of
        KindRestricted \<Rightarrow> has_root_access pol access_can_write \<and> \<not> has_write_narrowing_entries pol
      | _ \<Rightarrow> True)"

section \<open>Protected metadata\<close>

definition PROTECTED_METADATA_PATH_NAMES :: "rstr list" where
  "PROTECTED_METADATA_PATH_NAMES = [lit ''.git'', lit ''.agents'', lit ''.codex'']"

definition metadata_path_name :: "rstr \<Rightarrow> rstr option" where
  "metadata_path_name name = find (\<lambda>m. name = m) PROTECTED_METADATA_PATH_NAMES"

definition metadata_child :: "('z) sandbox_env_scheme \<Rightarrow> rstr \<Rightarrow> resolved_entry \<Rightarrow> (rstr \<times> rstr) option" where
  "metadata_child env target e =
     Option.bind (path_strip_prefix target (resolved_path e)) (\<lambda>relative_path.
       case relative_path of
         [] \<Rightarrow> None
       | first_component # _ \<Rightarrow>
           map_option (\<lambda>name. (abs_join (env_home env) (resolved_path e) name, name))
             (metadata_path_name (component_str first_component)))"

definition first_some :: "('a \<Rightarrow> 'b option) \<Rightarrow> 'a list \<Rightarrow> 'b option" where
  "first_some f xs = (case List.map_filter f xs of [] \<Rightarrow> None | y # _ \<Rightarrow> Some y)"

definition metadata_child_of_writable_root ::
    "('z) sandbox_env_scheme \<Rightarrow> sandbox_policy \<Rightarrow> rstr \<Rightarrow> rstr \<Rightarrow> (rstr \<times> rstr) option" where
  "metadata_child_of_writable_root env pol target cwd =
     first_some (metadata_child env target)
       (filter (\<lambda>e. access_can_write (resolved_access e)) (resolved_entries_with_cwd env pol cwd))"

definition has_explicit_write_entry_for_metadata_path ::
    "('z) sandbox_env_scheme \<Rightarrow> sandbox_policy \<Rightarrow> rstr \<Rightarrow> rstr \<Rightarrow> rstr \<Rightarrow> bool" where
  "has_explicit_write_entry_for_metadata_path env pol protected_metadata_path target cwd \<longleftrightarrow>
     (\<exists>e \<in> set (resolved_entries_with_cwd env pol cwd).
        access_can_write (resolved_access e) \<and> path_starts_with target (resolved_path e) \<and>
        path_starts_with (resolved_path e) protected_metadata_path)"

definition is_metadata_write_denied :: "('z) sandbox_env_scheme \<Rightarrow> sandbox_policy \<Rightarrow> rstr \<Rightarrow> rstr \<Rightarrow> bool" where
  "is_metadata_write_denied env pol path cwd =
     (if kind pol \<noteq> KindRestricted then False
      else case resolve_candidate_path env path cwd of
             None \<Rightarrow> True
           | Some target \<Rightarrow>
               (case metadata_child_of_writable_root env pol target cwd of
                  None \<Rightarrow> False
                | Some (protected_metadata_path, _) \<Rightarrow>
                    \<not> has_explicit_write_entry_for_metadata_path env pol protected_metadata_path target cwd))"

definition can_read_path_with_cwd :: "('z) sandbox_env_scheme \<Rightarrow> sandbox_policy \<Rightarrow> rstr \<Rightarrow> rstr \<Rightarrow> bool" where
  "can_read_path_with_cwd env pol path cwd = access_can_read (resolve_access_with_cwd env pol path cwd)"

definition can_write_path_with_cwd :: "('z) sandbox_env_scheme \<Rightarrow> sandbox_policy \<Rightarrow> rstr \<Rightarrow> rstr \<Rightarrow> bool" where
  "can_write_path_with_cwd env pol path cwd =
     (if \<not> access_can_write (resolve_access_with_cwd env pol path cwd) then False
      else if has_full_disk_write_access pol then True
      else \<not> is_metadata_write_denied env pol path cwd)"

definition forbidden_agent_metadata_write ::
    "('z) sandbox_env_scheme \<Rightarrow> rstr \<Rightarrow> rstr \<Rightarrow> sandbox_policy \<Rightarrow> rstr option" where
  "forbidden_agent_metadata_write env path cwd pol =
     (if kind pol \<noteq> KindRestricted then None
      else Option.bind (resolve_candidate_path env path cwd) (\<lambda>target.
           Option.bind (metadata_child_of_writable_root env pol target cwd) (\<lambda>(protected_metadata_path, metadata_name).
             if has_explicit_write_entry_for_metadata_path env pol protected_metadata_path target cwd then None
             else if \<not> can_write_path_with_cwd env pol target cwd then Some metadata_name
             else None)))"


section \<open>The most specific entry decides\<close>

definition covering :: "('z) sandbox_env_scheme \<Rightarrow> sandbox_policy \<Rightarrow> rstr \<Rightarrow> rstr \<Rightarrow> resolved_entry list" where
  "covering env pol target cwd =
     filter (\<lambda>e. path_starts_with target (resolved_path e)) (resolved_entries_with_cwd env pol cwd)"

lemma resolve_access_restricted:
  "kind pol = KindRestricted \<Longrightarrow> resolve_candidate_path env path cwd = Some target \<Longrightarrow>
     resolve_access_with_cwd env pol path cwd =
       (case max_by_key resolved_entry_precedence (covering env pol target cwd) of
          Some e \<Rightarrow> resolved_access e | None \<Rightarrow> AccessNone)"
  by (simp add: resolve_access_with_cwd_def covering_def)

lemma resolve_access_cases:
  assumes "kind pol = KindRestricted" "resolve_candidate_path env path cwd = Some target"
  obtains (uncovered) "covering env pol target cwd = []" "resolve_access_with_cwd env pol path cwd = AccessNone"
  | (covered) e where "e \<in> set (covering env pol target cwd)"
      "resolve_access_with_cwd env pol path cwd = resolved_access e"
      "\<forall>e' \<in> set (covering env pol target cwd). resolved_entry_precedence e' \<le> resolved_entry_precedence e"
proof (cases "max_by_key resolved_entry_precedence (covering env pol target cwd)")
  case None
  then have "covering env pol target cwd = []" by simp
  moreover from None have "resolve_access_with_cwd env pol path cwd = AccessNone"
    by (simp only: resolve_access_restricted [OF assms] option.case)
  ultimately show ?thesis by (rule uncovered)
next
  case (Some e)
  with covered [of e] max_by_key_SomeD [OF Some] show ?thesis by (simp add: resolve_access_restricted [OF assms])
qed

lemma set_resolved_entries:
  "r \<in> set (resolved_entries_with_cwd env pol cwd) \<longleftrightarrow>
     (\<exists>e \<in> set (entries pol). resolve_entry_path env (entry_path e) (env_absolute env cwd) = Some (resolved_path r) \<and>
        resolved_access r = entry_access e)"
  by (cases r) (auto simp: resolved_entries_with_cwd_def List.map_filter_def image_iff Let_def
      split: option.splits; force)

section \<open>Paths and their components\<close>

lemma segment_components_append: "segment_components (xs @ ys) = segment_components xs @ segment_components ys"
  by (simp add: segment_components_def List.map_filter_def)

lemma segment_components_Cons:
  "segment_components (x # xs) = (case segment_component x of Some c \<Rightarrow> c # segment_components xs | None \<Rightarrow> segment_components xs)"
  by (simp add: segment_components_def List.map_filter_def split: option.split)

lemma foldl_normalize_components:
  "\<not> is_absolute p \<Longrightarrow> foldl normalize_step acc (components p) = foldl normalize_step acc (segment_components (split_on slash p))"
  by (simp add: components_def Let_def)

lemma is_absolute_components: "is_absolute p \<longleftrightarrow> (\<exists>cs. components p = RootDir # cs)"
proof
  assume "is_absolute p"
  then show "\<exists>cs. components p = RootDir # cs" by (rule components_absolute) blast
next
  assume "\<exists>cs. components p = RootDir # cs"
  moreover have "RootDir \<notin> set (segment_components (split_on slash p))"
    using segment_components_names [of "split_on slash p" RootDir] split_on_pieces [of _ slash p] by auto
  ultimately show "is_absolute p" by (auto simp: components_def Let_def split: if_splits)
qed

lemma components_join:
  assumes "is_absolute base" "\<not> is_absolute p"
  shows "components (path_join base p) = components base @ segment_components (split_on slash p)"
proof -
  obtain b where b: "base = slash # b" using assms(1) is_absoluteE by blast
  show ?thesis
  proof (cases "ends_with base [slash]")
    case True
    then obtain r where r: "base = r @ [slash]" by (auto simp: ends_with_iff)
    have "path_join base p = r @ slash # p" using assms(2) True r by (simp add: path_join_def)
    moreover have "is_absolute (r @ slash # p)" using r b by (cases r) auto
    moreover have "segment_components [[]] = []"
      by (simp add: segment_components_Cons segment_component_def) (simp add: segment_components_def List.map_filter_def)
    ultimately show ?thesis using assms(1)
      by (simp add: components_def split_on_append segment_components_append r)
  next
    case False
    then have "path_join base p = base @ slash # p" using assms(2) b by (simp add: path_join_def)
    moreover have "is_absolute (base @ slash # p)" using b by simp
    ultimately show ?thesis using assms(1)
      by (simp add: components_def split_on_append segment_components_append)
  qed
qed

text \<open>Resolving a path without \<open>~\<close> depends on its components only.\<close>

lemma absolutize_same_components:
  assumes "components p = components q" "is_absolute base"
  shows "absolutize_from p base = absolutize_from q base"
proof (cases "is_absolute p")
  case True
  then have "is_absolute q" using assms(1) by (simp add: is_absolute_components)
  with True assms(1) show ?thesis by (simp add: absolutize_from_def path_with_base_def normalize_path_def)
next
  case False
  then have q: "\<not> is_absolute q" using assms(1) by (simp add: is_absolute_components)
  have "normalize_components (components (path_join base r)) = foldl normalize_step (normalize_components (components base)) (components r)"
    if "\<not> is_absolute r" for r
    using that assms(2) by (simp add: components_join normalize_components_def foldl_normalize_components)
  with False q assms(1) show ?thesis by (simp add: absolutize_from_def path_with_base_def normalize_path_def)
qed

lemma from_absolute_path_normal:
  assumes "from_absolute_path home cd p = Some q" "\<forall>d. cd = Some d \<longrightarrow> is_absolute d"
  shows "normal_absolute q"
  using assms
  by (auto simp: from_absolute_path_def Let_def normalize_path_absolute absolutize_from_def path_with_base_absolute split: if_splits)

definition env_ok :: "('z) sandbox_env_scheme \<Rightarrow> bool" where
  "env_ok env \<longleftrightarrow> (case env_current_dir env of Some d \<Rightarrow> is_absolute d | None \<Rightarrow> True)"

lemma env_absolute_normal: "env_ok env \<Longrightarrow> env_absolute env p = Some q \<Longrightarrow> normal_absolute q"
  using from_absolute_path_normal by (fastforce simp: env_absolute_def env_ok_def)

lemma resolve_normal: "is_absolute base \<Longrightarrow> normal_absolute (resolve_path_against_base home path base)"
  by (simp add: resolve_path_against_base_def absolutize_from_def normalize_path_absolute path_with_base_absolute)

lemma resolve_candidate_normal:
  assumes "env_ok env" "resolve_candidate_path env path cwd = Some target"
  shows "normal_absolute target"
  using assms env_absolute_normal [OF assms(1)]
  by (auto simp: resolve_candidate_path_def abs_join_def split: if_splits intro!: resolve_normal normal_absolute_is_absolute)

lemma normal_absolute_components:
  "normal_absolute p \<Longrightarrow> \<exists>ns. components p = root_names ns \<and> p = names_path ns \<and> (\<forall>n \<in> set ns. proper_name n)"
  by (auto simp: normal_absolute_def components_names_path)

section \<open>Whole-disk access means access to every path\<close>

text \<open>
  Entries as the configuration produces them: absolute paths are in normal form, and a
  project subdirectory does not start in the home directory.
\<close>

definition plain_path :: "fs_path \<Rightarrow> bool" where
  "plain_path p =
     (case p of
        PathEntry q \<Rightarrow> normal_absolute q
      | Special (ProjectRoots (Some sub)) \<Rightarrow> \<not> starts_with sub [tilde]
      | _ \<Rightarrow> True)"

lemma plain_expand: "\<not> starts_with sub [tilde] \<Longrightarrow> maybe_expand_home_directory home sub = sub"
  by (auto simp: maybe_expand_home_directory_def starts_with_def split: option.splits)

lemma root_path_components: "normal_absolute p \<Longrightarrow> path_parent p = None \<Longrightarrow> p = [slash]"
  by (auto simp: path_parent_def Let_def root_names_def names_path_def last_map split: if_splits dest!: normal_absolute_components)

lemma components_slash: "components [slash] = [RootDir]"
  using components_names_path [of "[]"] by (simp add: names_path_def root_names_def)

lemma special_share_resolves:
  assumes "special_paths_share_target v w" "plain_path (Special v)" "plain_path (Special w)" "is_absolute root"
  shows "resolve_entry_path env (Special v) (Some root) = resolve_entry_path env (Special w) (Some root)"
proof (cases v)
  case (ProjectRoots a)
  then obtain b where b: "w = ProjectRoots b" "map_option components a = map_option components b"
    using assms(1) by (cases w) (simp_all add: special_paths_share_target_def)
  then show ?thesis using assms(2,3) ProjectRoots absolutize_same_components [OF _ assms(4), of "the a" "the b"]
    by (cases a; cases b)
       (simp_all add: plain_path_def resolve_entry_path_def resolve_file_system_path_def resolve_special_path_def
          resolve_path_against_base_def plain_expand)
qed (use assms(1) in \<open>cases w; simp add: special_paths_share_target_def resolve_entry_path_def
       resolve_file_system_path_def resolve_special_path_def\<close>)+

lemma share_target_resolves:
  assumes "file_system_paths_share_target c e" "is_absolute root" "slash_tmp_is_dir env"
    and "resolve_entry_path env e (Some root) = Some p" "plain_path c" "plain_path e"
  shows "\<exists>q. resolve_entry_path env c (Some root) = Some q \<and> components q = components p"
proof (cases c)
  case (PathEntry a)
  then show ?thesis using assms root_path_components [of a]
    by (cases e) (auto simp: file_system_paths_share_target_def resolve_entry_path_def resolve_file_system_path_def same_path_def
        plain_path_def special_path_matches_absolute_path_def resolve_special_path_def absolute_root_path_for_cwd_def
        split: special_path.splits)
next
  case (GlobPattern a)
  then show ?thesis using assms by (cases e) (auto simp: file_system_paths_share_target_def resolve_entry_path_def resolve_file_system_path_def)
next
  case (Special v)
  show ?thesis
  proof (cases e)
    case (PathEntry a)
    then show ?thesis using assms Special root_path_components [of a]
      by (auto simp: file_system_paths_share_target_def resolve_entry_path_def resolve_file_system_path_def same_path_def
          plain_path_def special_path_matches_absolute_path_def resolve_special_path_def absolute_root_path_for_cwd_def
          split: special_path.splits)
  next
    case (Special w)
    with assms \<open>c = Special v\<close> special_share_resolves [of v w root env] show ?thesis
      by (auto simp: file_system_paths_share_target_def)
  qed (use assms Special in \<open>simp add: file_system_paths_share_target_def\<close>)
qed

lemma share_override_covers:
  assumes "has_same_target_write_override pol e" "env_absolute env cwd = Some root" "is_absolute root" "slash_tmp_is_dir env"
    and "\<forall>c \<in> set (entries pol). plain_path (entry_path c)" "e \<in> set (entries pol)"
    and "resolve_entry_path env (entry_path e) (Some root) = Some p" "path_starts_with target p"
  shows "\<exists>r \<in> set (covering env pol target cwd). resolved_access r = AccessWrite \<and> entry_access e < AccessWrite \<and>
           components (resolved_path r) = components p"
proof -
  obtain c where c: "c \<in> set (entries pol)" "entry_access c = AccessWrite" "entry_access e < AccessWrite"
      "file_system_paths_share_target (entry_path c) (entry_path e)"
    using assms(1) by (auto simp: has_same_target_write_override_def access_can_write_def)
  obtain q where q: "resolve_entry_path env (entry_path c) (Some root) = Some q" "components q = components p"
    using share_target_resolves [OF c(4) assms(3,4,7)] assms(5,6) c(1) by blast
  let ?r = "\<lparr>resolved_path = q, resolved_access = AccessWrite\<rparr>"
  have "?r \<in> set (covering env pol target cwd)"
    using c q assms(2,8) by (auto simp: covering_def set_resolved_entries path_starts_with_def)
  with q c show ?thesis by (intro bexI [of _ ?r]) auto
qed

lemma precedence_le_iff:
  "components (resolved_path a) = components (resolved_path b) \<Longrightarrow>
     resolved_entry_precedence a \<le> resolved_entry_precedence b \<longleftrightarrow> resolved_access a \<le> resolved_access b"
  by (simp add: resolved_entry_precedence_def less_eq_prod_def)

lemma root_entry_covers:
  assumes "e \<in> set (entries pol)" "entry_path e = Special RootPath" "env_absolute env cwd = Some root" "normal_absolute target"
  shows "\<lparr>resolved_path = [slash], resolved_access = entry_access e\<rparr> \<in> set (covering env pol target cwd)"
  using assms normal_absolute_components [of target]
  by (auto simp: covering_def set_resolved_entries resolve_entry_path_def absolute_root_path_for_cwd_def path_starts_with_def
      components_slash root_names_def intro!: bexI [of _ e])

lemma narrowing_wins:
  assumes "has_root_access pol access_can_write" "\<not> narrows_write pol e" "e \<in> set (entries pol)"
    and "env_absolute env cwd = Some root" "normal_absolute root" "slash_tmp_is_dir env" "normal_absolute target"
    and "\<forall>c \<in> set (entries pol). plain_path (entry_path c)"
    and r: "resolve_entry_path env (entry_path e) (Some root) = Some (resolved_path r)" "resolved_access r = entry_access e"
      "path_starts_with target (resolved_path r)"
    and max: "\<forall>e' \<in> set (covering env pol target cwd). resolved_entry_precedence e' \<le> resolved_entry_precedence r"
  shows "entry_access e = AccessWrite"
proof (rule ccontr)
  assume ne: "entry_access e \<noteq> AccessWrite"
  have lower: False if "r' \<in> set (covering env pol target cwd)" "resolved_access r' = AccessWrite"
      "entry_access e < AccessWrite" "components (resolved_path r') = components (resolved_path r)" for r'
    using max that r(2) precedence_le_iff [of r' r] by auto
  show False
  proof (cases "entry_path e = Special RootPath")
    case True
    obtain w where w: "w \<in> set (entries pol)" "entry_path w = Special RootPath" "entry_access w = AccessWrite"
      using assms(1) by (auto simp: has_root_access_def access_can_write_def)
    have "entry_access e = AccessRead" using True ne assms(2) by (cases "entry_access e") (auto simp: narrows_write_def access_can_write_def)
    moreover have "resolved_path r = [slash]" using r(1) True by (simp add: resolve_entry_path_def absolute_root_path_for_cwd_def)
    ultimately show False
      using lower [OF root_entry_covers [OF w(1,2) assms(4,7)]] w(3) by (simp add: less_access_mode_def)
  next
    case False
    then have "has_same_target_write_override pol e"
      using ne assms(2) r(1)
      by (auto simp: narrows_write_def access_can_write_def resolve_entry_path_def resolve_file_system_path_def resolve_special_path_def
          split: fs_path.splits special_path.splits)
    from share_override_covers [OF this assms(4) normal_absolute_is_absolute [OF assms(5)] assms(6,8,3) r(1,3)] lower
    show False by blast
  qed
qed

lemma full_disk_write_resolves:
  assumes "kind pol = KindRestricted" "has_full_disk_write_access pol"
    and "env_ok env" "slash_tmp_is_dir env" "\<forall>c \<in> set (entries pol). plain_path (entry_path c)"
    and "env_absolute env cwd = Some root" "resolve_candidate_path env path cwd = Some target"
  shows "resolve_access_with_cwd env pol path cwd = AccessWrite"
proof -
  have root: "has_root_access pol access_can_write" and narrow: "\<not> has_write_narrowing_entries pol"
    using assms(1,2) by (simp_all add: has_full_disk_write_access_def)
  have target: "normal_absolute target" using resolve_candidate_normal [OF assms(3,7)] .
  show ?thesis using assms(1,7)
  proof (cases rule: resolve_access_cases)
    case uncovered
    with root root_entry_covers [OF _ _ assms(6) target] show ?thesis by (fastforce simp: has_root_access_def)
  next
    case (covered r)
    then obtain e where e: "e \<in> set (entries pol)" "resolve_entry_path env (entry_path e) (Some root) = Some (resolved_path r)"
        "resolved_access r = entry_access e" "path_starts_with target (resolved_path r)"
      using assms(6) by (auto simp: covering_def set_resolved_entries)
    have "\<not> narrows_write pol e" using narrow e(1) assms(1) by (auto simp: has_write_narrowing_entries_def)
    from narrowing_wins [OF root this e(1) assms(6) env_absolute_normal [OF assms(3,6)] assms(4) target assms(5) e(2-4) covered(3)]
      covered(2) e(3) show ?thesis by simp
  qed
qed

lemma full_disk_read_resolves:
  assumes "kind pol = KindRestricted" "has_full_disk_read_access pol" "env_ok env"
    and "env_absolute env cwd = Some root" "resolve_candidate_path env path cwd = Some target"
  shows "resolve_access_with_cwd env pol path cwd \<noteq> AccessNone"
proof -
  have root: "has_root_access pol access_can_read" and denied: "\<not> has_denied_read_restrictions pol"
    using assms(1,2) by (simp_all add: has_full_disk_read_access_def)
  have target: "normal_absolute target" using resolve_candidate_normal [OF assms(3,5)] .
  show ?thesis using assms(1,5)
  proof (cases rule: resolve_access_cases)
    case uncovered
    with root root_entry_covers [OF _ _ assms(4) target] show ?thesis by (fastforce simp: has_root_access_def)
  next
    case (covered r)
    then show ?thesis using denied assms(1,4) by (auto simp: covering_def set_resolved_entries has_denied_read_restrictions_def)
  qed
qed


definition sample_env :: sandbox_env where
  "sample_env = \<lparr>env_home = Some (lit ''/h''), env_current_dir = Some (lit ''/w''), env_tmpdir = None, slash_tmp_is_dir = True\<rparr>"

definition restricted_policy :: "(fs_path \<times> access_mode) list \<Rightarrow> sandbox_policy" where
  "restricted_policy es =
     \<lparr>kind = KindRestricted, glob_scan_max_depth = None, entries = map (\<lambda>(p, a). \<lparr>entry_path = p, entry_access = a\<rparr>) es\<rparr>"

lemma normal_absolute_names: "(\<forall>n \<in> set ns. proper_name n) \<Longrightarrow> names_path ns = p \<Longrightarrow> normal_absolute p"
  by (auto simp: normal_absolute_def)




section \<open>Metadata directories are protected\<close>

lemma slash_tmp_normal: "normal_absolute (lit ''/tmp'')"
  by (rule normal_absolute_names [of "[lit ''tmp'']"]; code_simp)

lemma slash_normal: "normal_absolute [slash]"
  by (rule normal_absolute_names [of "[]"]) (simp_all add: names_path_def)

lemma resolved_entry_normal:
  assumes "env_ok env" "\<forall>c \<in> set (entries pol). plain_path (entry_path c)" "r \<in> set (resolved_entries_with_cwd env pol cwd)"
  shows "normal_absolute (resolved_path r)"
proof -
  obtain e where e: "e \<in> set (entries pol)" "resolve_entry_path env (entry_path e) (env_absolute env cwd) = Some (resolved_path r)"
    using assms(3) by (auto simp: set_resolved_entries)
  have cwd: "is_absolute root" "normal_absolute root" if "env_absolute env cwd = Some root" for root
    using env_absolute_normal [OF assms(1) that] by (simp_all add: normal_absolute_is_absolute)
  show ?thesis
  proof (cases "entry_path e")
    case (Special v)
    show ?thesis
    proof (cases v)
      case (ProjectRoots sub)
      with Special e cwd show ?thesis
        by (auto simp: resolve_entry_path_def resolve_file_system_path_def resolve_special_path_def bind_eq_Some_conv
            split: option.splits dest!: sym [of "resolve_path_against_base _ _ _"] simp add: resolve_normal)
    next
      case Tmpdir
      with Special e env_absolute_normal [OF assms(1)] show ?thesis
        by (auto simp: resolve_entry_path_def resolve_file_system_path_def resolve_special_path_def bind_eq_Some_conv split: if_splits)
    qed (use Special e slash_tmp_normal slash_normal in \<open>auto simp: resolve_entry_path_def resolve_file_system_path_def
          resolve_special_path_def absolute_root_path_for_cwd_def split: if_splits\<close>)
  qed (use assms(2) e in \<open>auto simp: resolve_entry_path_def resolve_file_system_path_def plain_path_def\<close>)
qed

lemma metadata_path_name_iff: "metadata_path_name n = Some m \<longleftrightarrow> m = n \<and> n \<in> set PROTECTED_METADATA_PATH_NAMES"
  by (auto simp: metadata_path_name_def PROTECTED_METADATA_PATH_NAMES_def)

lemma metadata_names_proper:
  "n \<in> set PROTECTED_METADATA_PATH_NAMES \<Longrightarrow> proper_name n \<and> hd n \<noteq> tilde"
  by (auto simp: PROTECTED_METADATA_PATH_NAMES_def proper_name_def)

lemma metadata_child_components:
  assumes "metadata_child env target r = Some (m, n)" "normal_absolute (resolved_path r)"
  shows "n \<in> set PROTECTED_METADATA_PATH_NAMES \<and> components m = components (resolved_path r) @ [Normal n]"
proof -
  obtain c cs where "path_strip_prefix target (resolved_path r) = Some (c # cs)"
    using assms(1) unfolding metadata_child_def
    by (cases "path_strip_prefix target (resolved_path r)"; cases "the (path_strip_prefix target (resolved_path r))") auto
  then have n: "n \<in> set PROTECTED_METADATA_PATH_NAMES" "m = abs_join (env_home env) (resolved_path r) n"
    using assms(1) by (auto simp: metadata_child_def metadata_path_name_iff)
  obtain ns where ns: "resolved_path r = names_path ns" "\<forall>n \<in> set ns. proper_name n"
    using assms(2) by (auto simp: normal_absolute_def)
  have "m = names_path (ns @ [n])"
    using resolve_path_below_base [OF ns(2), of n "[]"] metadata_names_proper [OF n(1)] n(2) ns(1) by (simp add: abs_join_def)
  with n(1) ns metadata_names_proper [OF n(1)] show ?thesis by (simp add: components_names_path root_names_def)
qed

lemma first_some_simps [simp]:
  "first_some f [] = None"
  "first_some f (x # xs) = (case f x of Some y \<Rightarrow> Some y | None \<Rightarrow> first_some f xs)"
  by (auto simp: first_some_def List.map_filter_simps split: option.split)

lemma first_some_None_iff: "first_some f xs = None \<longleftrightarrow> (\<forall>x \<in> set xs. f x = None)"
  by (induction xs) (auto split: option.split)

lemma first_some_SomeD: "first_some f xs = Some y \<Longrightarrow> \<exists>x \<in> set xs. f x = Some y"
  by (induction xs) (auto split: option.split_asm)

lemma metadata_write_denied:
  assumes "env_ok env" "\<forall>c \<in> set (entries pol). plain_path (entry_path c)"
    and "r \<in> set (resolved_entries_with_cwd env pol cwd)" "resolved_access r = AccessWrite"
    and "components target = components (resolved_path r) @ Normal m # rest" "m \<in> set PROTECTED_METADATA_PATH_NAMES"
    and clear: "\<forall>s \<in> set (resolved_entries_with_cwd env pol cwd). resolved_access s = AccessWrite \<longrightarrow>
      (\<forall>n \<in> set PROTECTED_METADATA_PATH_NAMES. Normal n \<notin> set (components (resolved_path s)))"
  shows "\<exists>p n. metadata_child_of_writable_root env pol target cwd = Some (p, n) \<and> n \<in> set PROTECTED_METADATA_PATH_NAMES \<and>
           \<not> has_explicit_write_entry_for_metadata_path env pol p target cwd"
proof -
  have "metadata_child env target r \<noteq> None"
    using assms(5,6) by (simp add: metadata_child_def path_strip_prefix_def path_starts_with_def metadata_path_name_iff)
  then have "metadata_child_of_writable_root env pol target cwd \<noteq> None"
    using assms(3,4) unfolding metadata_child_of_writable_root_def by (auto simp: first_some_None_iff access_can_write_def)
  then obtain p n where pn: "metadata_child_of_writable_root env pol target cwd = Some (p, n)" by auto
  then obtain s where "s \<in> set (resolved_entries_with_cwd env pol cwd)" "metadata_child env target s = Some (p, n)"
    unfolding metadata_child_of_writable_root_def by (auto dest!: first_some_SomeD)
  with metadata_child_components resolved_entry_normal [OF assms(1,2)]
  have n: "n \<in> set PROTECTED_METADATA_PATH_NAMES" "Normal n \<in> set (components p)" by fastforce+
  have "\<not> has_explicit_write_entry_for_metadata_path env pol p target cwd"
    using clear n by (auto simp: has_explicit_write_entry_for_metadata_path_def access_can_write_def path_starts_with_def
        dest!: set_mono_prefix)
  with pn n(1) show ?thesis by blast
qed

lemma resolve_candidate_again:
  assumes "env_ok env" "resolve_candidate_path env path cwd = Some target"
  shows "resolve_candidate_path env target cwd = Some target"
  using resolve_candidate_normal [OF assms]
  by (simp add: resolve_candidate_path_def env_absolute_def from_absolute_path_def expand_absolute
      normal_absolute_is_absolute normalize_path_normal)

text \<open>
  C22: Below a writable root the directories \<open>.git\<close>, \<open>.agents\<close> and \<open>.codex\<close> and everything in them cannot be written,
  and the attempt is reported as a metadata write, unless the whole disk is writable or some write entry
  that itself lies in such a directory says otherwise.
\<close>

theorem metadata_directories_protected:
  assumes "kind pol = KindRestricted" "\<not> has_full_disk_write_access pol" "env_ok env"
    and "\<forall>c \<in> set (entries pol). plain_path (entry_path c)" "resolve_candidate_path env path cwd = Some target"
    and "r \<in> set (resolved_entries_with_cwd env pol cwd)" "resolved_access r = AccessWrite"
    and "components target = components (resolved_path r) @ Normal m # rest" "m \<in> set PROTECTED_METADATA_PATH_NAMES"
    and "\<forall>s \<in> set (resolved_entries_with_cwd env pol cwd). resolved_access s = AccessWrite \<longrightarrow>
      (\<forall>n \<in> set PROTECTED_METADATA_PATH_NAMES. Normal n \<notin> set (components (resolved_path s)))"
  shows "\<not> can_write_path_with_cwd env pol path cwd \<and>
         (\<exists>n \<in> set PROTECTED_METADATA_PATH_NAMES. forbidden_agent_metadata_write env path cwd pol = Some n)"
proof -
  obtain p n where pn: "metadata_child_of_writable_root env pol target cwd = Some (p, n)" "n \<in> set PROTECTED_METADATA_PATH_NAMES"
      "\<not> has_explicit_write_entry_for_metadata_path env pol p target cwd"
    using metadata_write_denied [OF assms(3,4,6-10)] by blast
  have denied: "\<not> can_write_path_with_cwd env pol q cwd" if "resolve_candidate_path env q cwd = Some target" for q
    using pn assms(1,2) that by (simp add: can_write_path_with_cwd_def is_metadata_write_denied_def)
  from denied [OF resolve_candidate_again [OF assms(3,5)]] denied [OF assms(5)] pn assms(1,5) show ?thesis
    by (simp add: forbidden_agent_metadata_write_def)
qed

theorem metadata_directories_protected_witness:
  "\<not> can_write_path_with_cwd sample_env (restricted_policy [(Special RootPath, AccessRead), (Special (ProjectRoots None), AccessWrite)])
       (lit ''x/../.git/hooks/p'') (lit ''/w'') \<and>
   (\<exists>n \<in> set PROTECTED_METADATA_PATH_NAMES. forbidden_agent_metadata_write sample_env (lit ''x/../.git/hooks/p'') (lit ''/w'')
       (restricted_policy [(Special RootPath, AccessRead), (Special (ProjectRoots None), AccessWrite)]) = Some n)"
proof -
  let ?pol = "restricted_policy [(Special RootPath, AccessRead), (Special (ProjectRoots None), AccessWrite)]"
  have k: "kind ?pol = KindRestricted" by (simp add: restricted_policy_def)
  have part: "\<not> has_full_disk_write_access ?pol" by code_simp
  have ok: "env_ok sample_env" by code_simp
  have plain: "\<forall>c \<in> set (entries ?pol). plain_path (entry_path c)" by (simp add: restricted_policy_def plain_path_def)
  have target: "resolve_candidate_path sample_env (lit ''x/../.git/hooks/p'') (lit ''/w'') = Some (lit ''/w/.git/hooks/p'')" by code_simp
  have es: "resolved_entries_with_cwd sample_env ?pol (lit ''/w'') =
      [\<lparr>resolved_path = lit ''/'', resolved_access = AccessRead\<rparr>, \<lparr>resolved_path = lit ''/w'', resolved_access = AccessWrite\<rparr>]"
    by code_simp
  have cs: "components (lit ''/w/.git/hooks/p'') = components (lit ''/w'') @ Normal (lit ''.git'') # [Normal (lit ''hooks''), Normal (lit ''p'')]"
    by code_simp
  have clear: "\<forall>s \<in> set (resolved_entries_with_cwd sample_env ?pol (lit ''/w'')). resolved_access s = AccessWrite \<longrightarrow>
      (\<forall>n \<in> set PROTECTED_METADATA_PATH_NAMES. Normal n \<notin> set (components (resolved_path s)))"
    unfolding es by code_simp
  have m: "lit ''.git'' \<in> set PROTECTED_METADATA_PATH_NAMES" by code_simp
  let ?r = "\<lparr>resolved_path = lit ''/w'', resolved_access = AccessWrite\<rparr>"
  have r: "?r \<in> set (resolved_entries_with_cwd sample_env ?pol (lit ''/w''))" "resolved_access ?r = AccessWrite"
    unfolding es by simp_all
  have "components (lit ''/w/.git/hooks/p'') = components (resolved_path ?r) @ Normal (lit ''.git'') # [Normal (lit ''hooks''), Normal (lit ''p'')]"
    unfolding cs by (simp only: resolved_entry.simps)
  from metadata_directories_protected [OF k part ok plain target r this m clear] show ?thesis .
qed

text \<open>
  The order of the entries, which has no influence on the access mode, decides whether a
  metadata directory inside another one is protected: only the first writable root that
  contains the path is looked at.
\<close>

theorem metadata_protection_depends_on_order:
  "can_write_path_with_cwd sample_env (restricted_policy [(PathEntry (lit ''/w''), AccessWrite), (PathEntry (lit ''/w/.git''), AccessWrite)])
       (lit ''/w/.git/.codex/x'') (lit ''/w'') \<and>
   \<not> can_write_path_with_cwd sample_env (restricted_policy [(PathEntry (lit ''/w/.git''), AccessWrite), (PathEntry (lit ''/w''), AccessWrite)])
       (lit ''/w/.git/.codex/x'') (lit ''/w'')"
  by code_simp

end
