(* ===== verification/Sandbox_Roots.thy ===== *)
theory Sandbox_Roots
  imports Sandbox_Policy "HOL-Library.List_Lexorder"
begin

text \<open>
  Building, changing and projecting permission policies (\<open>protocol/src/permissions.rs\<close>,
  \<open>protocol/src/protocol.rs\<close>): the legacy sandbox modes and their translation in both directions, default
  read-only paths, roots that the platform sandboxes receive, and the matcher that direct
  file reads consult. What the code asks the disk is a record of probes.
\<close>

section \<open>The disk\<close>

text \<open>\<open>symlink_info\<close> is \<open>None\<close> where the metadata cannot be read, otherwise it says whether the path is a link.\<close>

record disk_env = sandbox_env +
  path_is_file :: "rstr \<Rightarrow> bool"
  path_is_dir :: "rstr \<Rightarrow> bool"
  path_exists :: "rstr \<Rightarrow> bool"
  disk_read_to_string :: "rstr \<Rightarrow> rstr option"
  symlink_info :: "rstr \<Rightarrow> bool option"
  disk_canonicalize :: "rstr \<Rightarrow> rstr option"

text \<open>\<open>Path::ancestors\<close>: the path itself, then its parents.\<close>

definition path_ancestors :: "rstr \<Rightarrow> rstr list" where
  "path_ancestors p =
     (let cs = components p; least = (if is_absolute p then 1 else 0)
      in p # map (\<lambda>k. render (take k cs)) (rev [least..<length cs]))"

definition should_preserve_logical_path :: "('z) disk_env_scheme \<Rightarrow> rstr \<Rightarrow> bool" where
  "should_preserve_logical_path env logical \<longleftrightarrow>
     (\<exists>a \<in> set (path_ancestors logical).
        case symlink_info env a of
          None \<Rightarrow> False
        | Some is_symlink \<Rightarrow> is_symlink \<and> Option.bind (path_parent a) path_parent \<noteq> None)"

definition canonicalize_preserving_symlinks :: "('z) disk_env_scheme \<Rightarrow> rstr \<Rightarrow> rstr option" where
  "canonicalize_preserving_symlinks env path =
     Option.bind (env_absolute env path) (\<lambda>logical.
       case disk_canonicalize env path of
         Some canonical \<Rightarrow>
           if should_preserve_logical_path env logical \<and> \<not> same_path canonical logical then Some logical else Some canonical
       | None \<Rightarrow> Some logical)"

definition normalize_effective_absolute_path :: "('z) disk_env_scheme \<Rightarrow> rstr \<Rightarrow> rstr" where
  "normalize_effective_absolute_path env path =
     (case first_some (\<lambda>ancestor.
         if symlink_info env ancestor = None then None
         else Option.bind (canonicalize_preserving_symlinks env ancestor) (\<lambda>normalized_ancestor.
              Option.bind (path_strip_prefix path ancestor) (\<lambda>suffix.
                env_absolute env (path_join normalized_ancestor (render suffix))))) (path_ancestors path) of
        Some normalized_path \<Rightarrow> normalized_path
      | None \<Rightarrow> path)"

text \<open>Removing duplicates, comparing by components; the first of several equal paths stays.\<close>

fun dedup_paths :: "rstr list \<Rightarrow> rstr list \<Rightarrow> rstr list" where
  "dedup_paths seen [] = []"
| "dedup_paths seen (p # ps) =
     (if \<exists>q \<in> set seen. same_path p q then dedup_paths seen ps else p # dedup_paths (p # seen) ps)"

definition dedup_absolute_paths :: "('z) disk_env_scheme \<Rightarrow> rstr list \<Rightarrow> bool \<Rightarrow> rstr list" where
  "dedup_absolute_paths env paths normalize_effective_paths =
     dedup_paths [] (if normalize_effective_paths then map (normalize_effective_absolute_path env) paths else paths)"

section \<open>Default read-only paths\<close>

definition is_git_pointer_file :: "('z) disk_env_scheme \<Rightarrow> rstr \<Rightarrow> bool" where
  "is_git_pointer_file env path \<longleftrightarrow> path_is_file env path \<and> file_name path = Some (lit ''.git'')"

definition resolve_gitdir_from_file :: "('z) disk_env_scheme \<Rightarrow> rstr \<Rightarrow> rstr option" where
  "resolve_gitdir_from_file env dot_git =
     Option.bind (disk_read_to_string env dot_git) (\<lambda>contents.
     Option.bind (split_once colon (trim contents)) (\<lambda>(key, gitdir_raw).
       if trim key \<noteq> lit ''gitdir'' then None
       else
         let gitdir_raw = trim gitdir_raw
         in if gitdir_raw = [] then None
            else Option.bind (path_parent dot_git) (\<lambda>base.
                   let gitdir_path = resolve_path_against_base (env_home env) gitdir_raw base
                   in if path_exists env gitdir_path then Some gitdir_path else None)))"

definition default_read_only_subpaths_for_writable_root :: "('z) disk_env_scheme \<Rightarrow> rstr \<Rightarrow> bool \<Rightarrow> rstr list" where
  "default_read_only_subpaths_for_writable_root env writable_root protect_missing_dot_codex =
     (let top_level_git = abs_join (env_home env) writable_root (lit ''.git'');
          top_level_agents = abs_join (env_home env) writable_root (lit ''.agents'');
          top_level_codex = abs_join (env_home env) writable_root (lit ''.codex'');
          git =
            (if path_is_dir env top_level_git \<or> path_is_file env top_level_git
             then (if path_is_file env top_level_git \<and> is_git_pointer_file env top_level_git
                   then (case resolve_gitdir_from_file env top_level_git of Some gitdir \<Rightarrow> [gitdir] | None \<Rightarrow> [])
                   else []) @ [top_level_git]
             else []);
          agents = (if path_is_dir env top_level_agents then [top_level_agents] else []);
          codex = (if protect_missing_dot_codex \<or> path_is_dir env top_level_codex then [top_level_codex] else [])
      in dedup_absolute_paths env (git @ agents @ codex) False)"

definition append_default_read_only_entry_if_no_explicit_rule :: "fs_path \<Rightarrow> sandbox_entry list \<Rightarrow> sandbox_entry list" where
  "append_default_read_only_entry_if_no_explicit_rule path es =
     (if \<exists>e \<in> set es. file_system_paths_share_target (entry_path e) path then es
      else es @ [\<lparr>entry_path = path, entry_access = AccessRead\<rparr>])"

abbreviation "append_read_only_path \<equiv> \<lambda>p. append_default_read_only_entry_if_no_explicit_rule (PathEntry p)"

definition append_default_read_only_project_root_subpath :: "rstr \<Rightarrow> sandbox_entry list \<Rightarrow> sandbox_entry list" where
  "append_default_read_only_project_root_subpath sub =
     append_default_read_only_entry_if_no_explicit_rule (Special (ProjectRoots (Some sub)))"

definition protect_root :: "('z) disk_env_scheme \<Rightarrow> bool \<Rightarrow> rstr \<Rightarrow> sandbox_entry list \<Rightarrow> sandbox_entry list" where
  "protect_root env protect_missing_dot_codex root es =
     fold append_read_only_path (default_read_only_subpaths_for_writable_root env root protect_missing_dot_codex) es"

section \<open>Policies\<close>

definition policy_unrestricted :: sandbox_policy where
  "policy_unrestricted = \<lparr>kind = KindUnrestricted, glob_scan_max_depth = None, entries = []\<rparr>"

definition policy_external :: sandbox_policy where
  "policy_external = \<lparr>kind = KindExternalSandbox, glob_scan_max_depth = None, entries = []\<rparr>"

definition policy_restricted :: "sandbox_entry list \<Rightarrow> sandbox_policy" where
  "policy_restricted es = \<lparr>kind = KindRestricted, glob_scan_max_depth = None, entries = es\<rparr>"

abbreviation "entry p a \<equiv> \<lparr>entry_path = p, entry_access = a\<rparr>"

definition workspace_entries :: "rstr list \<Rightarrow> bool \<Rightarrow> bool \<Rightarrow> sandbox_entry list" where
  "workspace_entries writable_roots exclude_tmpdir_env_var exclude_slash_tmp =
     [entry (Special RootPath) AccessRead, entry (Special (ProjectRoots None)) AccessWrite] @
     (if exclude_slash_tmp then [] else [entry (Special SlashTmp) AccessWrite]) @
     (if exclude_tmpdir_env_var then [] else [entry (Special Tmpdir) AccessWrite]) @
     map (\<lambda>p. entry (PathEntry p) AccessWrite) writable_roots"

definition workspace_write :: "('z) disk_env_scheme \<Rightarrow> rstr list \<Rightarrow> bool \<Rightarrow> bool \<Rightarrow> sandbox_policy" where
  "workspace_write env writable_roots exclude_tmpdir_env_var exclude_slash_tmp =
     policy_restricted
       (fold (protect_root env False) writable_roots
         (append_default_read_only_project_root_subpath (lit ''.codex'')
           (append_default_read_only_project_root_subpath (lit ''.agents'')
             (append_default_read_only_project_root_subpath (lit ''.git'')
               (workspace_entries writable_roots exclude_tmpdir_env_var exclude_slash_tmp)))))"

subsection \<open>Legacy modes\<close>

datatype network_access = NetAccessRestricted | NetAccessEnabled

datatype legacy_policy =
    DangerFullAccess
  | ReadOnly bool
  | ExternalSandbox network_access
  | WorkspaceWrite "rstr list" bool bool bool

definition has_full_network_access :: "legacy_policy \<Rightarrow> bool" where
  "has_full_network_access p =
     (case p of
        DangerFullAccess \<Rightarrow> True
      | ExternalSandbox n \<Rightarrow> n = NetAccessEnabled
      | ReadOnly n \<Rightarrow> n
      | WorkspaceWrite _ n _ _ \<Rightarrow> n)"

definition network_policy_of_legacy :: "legacy_policy \<Rightarrow> network_sandbox_policy" where
  "network_policy_of_legacy p = (if has_full_network_access p then NetEnabled else NetRestricted)"

definition policy_of_legacy :: "('z) disk_env_scheme \<Rightarrow> legacy_policy \<Rightarrow> sandbox_policy" where
  "policy_of_legacy env p =
     (case p of
        DangerFullAccess \<Rightarrow> policy_unrestricted
      | ExternalSandbox _ \<Rightarrow> policy_external
      | ReadOnly _ \<Rightarrow> policy_restricted [entry (Special RootPath) AccessRead]
      | WorkspaceWrite roots _ no_tmpdir no_tmp \<Rightarrow> workspace_write env roots no_tmpdir no_tmp)"

definition from_legacy_sandbox_policy_for_cwd :: "('z) disk_env_scheme \<Rightarrow> legacy_policy \<Rightarrow> rstr \<Rightarrow> sandbox_policy" where
  "from_legacy_sandbox_policy_for_cwd env p cwd =
     (let pol = policy_of_legacy env p
      in case p of
           WorkspaceWrite roots _ _ _ \<Rightarrow>
             pol\<lparr>entries := fold (protect_root env False) roots
                   ((case env_absolute env cwd of Some cwd_root \<Rightarrow> protect_root env True cwd_root | None \<Rightarrow> id) (entries pol))\<rparr>
         | _ \<Rightarrow> pol)"

definition legacy_runtime_file_system_policy_for_cwd :: "('z) disk_env_scheme \<Rightarrow> legacy_policy \<Rightarrow> rstr \<Rightarrow> sandbox_policy" where
  "legacy_runtime_file_system_policy_for_cwd env p cwd =
     (case p of
        WorkspaceWrite roots _ no_tmpdir no_tmp \<Rightarrow>
          policy_restricted (fold (protect_root env False) roots
            ((case env_absolute env cwd of Some cwd_root \<Rightarrow> protect_root env True cwd_root | None \<Rightarrow> id)
               (workspace_entries roots no_tmpdir no_tmp)))
      | _ \<Rightarrow> policy_of_legacy env p)"

subsection \<open>Back to a legacy mode\<close>

record legacy_scan =
  scan_workspace_root_writable :: bool
  scan_writable_roots :: "rstr list"
  scan_tmpdir_writable :: bool
  scan_slash_tmp_writable :: bool
  scan_root_write :: bool

definition scan_entry :: "('z) disk_env_scheme \<Rightarrow> rstr option \<Rightarrow> legacy_scan \<Rightarrow> sandbox_entry \<Rightarrow> legacy_scan" where
  "scan_entry env cwd_absolute sc e =
     (case entry_path e of
        GlobPattern _ \<Rightarrow> sc
      | PathEntry path \<Rightarrow>
          if access_can_write (entry_access e) then
            if (case cwd_absolute of Some cwd \<Rightarrow> same_path cwd path | None \<Rightarrow> False)
            then sc\<lparr>scan_workspace_root_writable := True\<rparr>
            else sc\<lparr>scan_writable_roots := scan_writable_roots sc @ [path]\<rparr>
          else sc
      | Special RootPath \<Rightarrow> if entry_access e = AccessWrite then sc\<lparr>scan_root_write := True\<rparr> else sc
      | Special (ProjectRoots subpath) \<Rightarrow>
          if subpath = None \<and> access_can_write (entry_access e) then sc\<lparr>scan_workspace_root_writable := True\<rparr>
          else (case resolve_special_path env (ProjectRoots subpath) cwd_absolute of
                  Some path \<Rightarrow>
                    if access_can_write (entry_access e) then sc\<lparr>scan_writable_roots := scan_writable_roots sc @ [path]\<rparr> else sc
                | None \<Rightarrow> sc)
      | Special Tmpdir \<Rightarrow> if access_can_write (entry_access e) then sc\<lparr>scan_tmpdir_writable := True\<rparr> else sc
      | Special SlashTmp \<Rightarrow> if access_can_write (entry_access e) then sc\<lparr>scan_slash_tmp_writable := True\<rparr> else sc
      | Special _ \<Rightarrow> sc)"

definition scan_entries :: "('z) disk_env_scheme \<Rightarrow> rstr option \<Rightarrow> sandbox_entry list \<Rightarrow> legacy_scan" where
  "scan_entries env cwd_absolute =
     foldl (scan_entry env cwd_absolute)
       \<lparr>scan_workspace_root_writable = False, scan_writable_roots = [], scan_tmpdir_writable = False,
        scan_slash_tmp_writable = False, scan_root_write = False\<rparr>"

definition net_enabled :: "network_sandbox_policy \<Rightarrow> bool" where
  "net_enabled n \<longleftrightarrow> n = NetEnabled"

definition unsupported_writes_message :: rstr where
  "unsupported_writes_message = lit ''permissions profile requests filesystem writes outside the workspace root, which is not supported until the runtime enforces FileSystemSandboxPolicy directly''"

definition to_legacy_sandbox_policy ::
    "('z) disk_env_scheme \<Rightarrow> sandbox_policy \<Rightarrow> network_sandbox_policy \<Rightarrow> rstr \<Rightarrow> (rstr, legacy_policy) result" where
  "to_legacy_sandbox_policy env pol network_policy cwd =
     (let full = (if net_enabled network_policy then DangerFullAccess else ExternalSandbox NetAccessRestricted)
      in case kind pol of
           KindExternalSandbox \<Rightarrow>
             Inr (ExternalSandbox (if net_enabled network_policy then NetAccessEnabled else NetAccessRestricted))
         | KindUnrestricted \<Rightarrow> Inr full
         | KindRestricted \<Rightarrow>
             (let sc = scan_entries env (env_absolute env cwd) (entries pol)
              in if has_full_disk_write_access pol then Inr full
                 else if scan_workspace_root_writable sc then
                   Inr (WorkspaceWrite (dedup_absolute_paths env (scan_writable_roots sc) False) (net_enabled network_policy)
                          (\<not> scan_tmpdir_writable sc) (\<not> scan_slash_tmp_writable sc))
                 else if scan_root_write sc \<or> scan_writable_roots sc \<noteq> [] \<or> scan_tmpdir_writable sc \<or> scan_slash_tmp_writable sc
                 then Inl unsupported_writes_message
                 else Inr (ReadOnly (net_enabled network_policy))))"

section \<open>Keeping denials\<close>

text \<open>Equality of entries; paths are compared by components.\<close>

definition fs_path_eq :: "fs_path \<Rightarrow> fs_path \<Rightarrow> bool" where
  "fs_path_eq a b =
     (case (a, b) of
        (PathEntry p, PathEntry q) \<Rightarrow> same_path p q
      | (GlobPattern p, GlobPattern q) \<Rightarrow> p = q
      | (Special v, Special w) \<Rightarrow> special_paths_share_target v w
      | _ \<Rightarrow> False)"

definition entry_eq :: "sandbox_entry \<Rightarrow> sandbox_entry \<Rightarrow> bool" where
  "entry_eq a b \<longleftrightarrow> fs_path_eq (entry_path a) (entry_path b) \<and> entry_access a = entry_access b"

definition push_entry_once :: "sandbox_entry \<Rightarrow> sandbox_entry list \<Rightarrow> sandbox_entry list" where
  "push_entry_once e es = (if \<exists>x \<in> set es. entry_eq x e then es else es @ [e])"

definition deny_entries :: "sandbox_policy \<Rightarrow> sandbox_entry list" where
  "deny_entries pol = filter (\<lambda>e. entry_access e = AccessNone) (entries pol)"

definition from_legacy_sandbox_policy_preserving_deny_entries ::
    "('z) disk_env_scheme \<Rightarrow> legacy_policy \<Rightarrow> rstr \<Rightarrow> sandbox_policy \<Rightarrow> sandbox_policy" where
  "from_legacy_sandbox_policy_preserving_deny_entries env p cwd existing =
     (let rebuilt = from_legacy_sandbox_policy_for_cwd env p cwd
      in if kind rebuilt \<noteq> KindRestricted then rebuilt
         else rebuilt\<lparr>glob_scan_max_depth := glob_scan_max_depth existing,
                entries := fold push_entry_once (deny_entries existing) (entries rebuilt)\<rparr>)"

definition preserve_deny_read_restrictions_from :: "sandbox_policy \<Rightarrow> sandbox_policy \<Rightarrow> sandbox_policy" where
  "preserve_deny_read_restrictions_from pol existing =
     (let pol = (if kind pol = KindUnrestricted \<and> deny_entries existing \<noteq> []
                 then policy_restricted [entry (Special RootPath) AccessWrite] else pol)
      in if kind pol \<noteq> KindRestricted then pol
         else pol\<lparr>glob_scan_max_depth :=
                     (case glob_scan_max_depth pol of None \<Rightarrow> glob_scan_max_depth existing | d \<Rightarrow> d),
                  entries := fold push_entry_once (deny_entries existing) (entries pol)\<rparr>)"

section \<open>Binding project roots and adding roots\<close>

definition PROJECT_ROOTS_GLOB_PATTERN_PREFIX :: rstr where
  "PROJECT_ROOTS_GLOB_PATTERN_PREFIX = lit ''codex-project-roots://''"

definition project_roots_glob_pattern :: "rstr \<Rightarrow> rstr" where
  "project_roots_glob_pattern subpath = PROJECT_ROOTS_GLOB_PATTERN_PREFIX @ subpath"

definition parse_project_roots_glob_pattern :: "rstr \<Rightarrow> rstr option" where
  "parse_project_roots_glob_pattern pat = strip_prefix PROJECT_ROOTS_GLOB_PATTERN_PREFIX pat"

definition resolve_project_roots_glob_pattern :: "('z) disk_env_scheme \<Rightarrow> rstr \<Rightarrow> rstr \<Rightarrow> rstr" where
  "resolve_project_roots_glob_pattern env subpath root = resolve_path_against_base (env_home env) subpath root"

definition materialize_entry_with_cwd :: "('z) disk_env_scheme \<Rightarrow> rstr option \<Rightarrow> sandbox_entry \<Rightarrow> sandbox_entry" where
  "materialize_entry_with_cwd env cwd e =
     (case entry_path e of
        Special (ProjectRoots _) \<Rightarrow>
          (case resolve_file_system_path env (entry_path e) cwd of
             Some path \<Rightarrow> e\<lparr>entry_path := PathEntry path\<rparr> | None \<Rightarrow> e)
      | GlobPattern pat \<Rightarrow>
          (case (cwd, parse_project_roots_glob_pattern pat) of
             (Some cwd, Some subpath) \<Rightarrow> e\<lparr>entry_path := GlobPattern (resolve_project_roots_glob_pattern env subpath cwd)\<rparr>
           | _ \<Rightarrow> e)
      | _ \<Rightarrow> e)"

definition materialize_project_roots_with_cwd :: "('z) disk_env_scheme \<Rightarrow> sandbox_policy \<Rightarrow> rstr \<Rightarrow> sandbox_policy" where
  "materialize_project_roots_with_cwd env pol cwd =
     pol\<lparr>entries := map (materialize_entry_with_cwd env (env_absolute env cwd)) (entries pol)\<rparr>"

definition materialize_entry_for_roots :: "('z) disk_env_scheme \<Rightarrow> rstr list \<Rightarrow> sandbox_entry \<Rightarrow> sandbox_entry list" where
  "materialize_entry_for_roots env workspace_roots e =
     (case entry_path e of
        Special (ProjectRoots subpath) \<Rightarrow>
          map (\<lambda>root. entry (PathEntry (case subpath of
                  Some subpath \<Rightarrow> resolve_path_against_base (env_home env) subpath root | None \<Rightarrow> root)) (entry_access e))
            workspace_roots
      | GlobPattern pat \<Rightarrow>
          (case parse_project_roots_glob_pattern pat of
             Some subpath \<Rightarrow>
               map (\<lambda>root. entry (GlobPattern (resolve_project_roots_glob_pattern env subpath root)) (entry_access e)) workspace_roots
           | None \<Rightarrow> [entry (GlobPattern pat) (entry_access e)])
      | PathEntry path \<Rightarrow> [entry (PathEntry path) (entry_access e)]
      | Special v \<Rightarrow> [entry (Special v) (entry_access e)])"

definition materialize_project_roots_with_workspace_roots ::
    "('z) disk_env_scheme \<Rightarrow> sandbox_policy \<Rightarrow> rstr list \<Rightarrow> sandbox_policy" where
  "materialize_project_roots_with_workspace_roots env pol workspace_roots =
     pol\<lparr>entries := concat (map (materialize_entry_for_roots env workspace_roots) (entries pol))\<rparr>"

definition with_materialized_project_roots_for_workspace_roots ::
    "('z) disk_env_scheme \<Rightarrow> sandbox_policy \<Rightarrow> rstr list \<Rightarrow> sandbox_policy" where
  "with_materialized_project_roots_for_workspace_roots env pol workspace_roots =
     pol\<lparr>entries := fold push_entry_once (entries (materialize_project_roots_with_workspace_roots env pol workspace_roots)) (entries pol)\<rparr>"

definition push_entry :: "fs_path \<Rightarrow> access_mode \<Rightarrow> sandbox_policy \<Rightarrow> sandbox_policy" where
  "push_entry p a pol = pol\<lparr>entries := entries pol @ [entry p a]\<rparr>"

definition with_additional_readable_roots :: "('z) disk_env_scheme \<Rightarrow> sandbox_policy \<Rightarrow> rstr \<Rightarrow> rstr list \<Rightarrow> sandbox_policy" where
  "with_additional_readable_roots env pol cwd roots =
     (if has_full_disk_read_access pol then pol
      else foldl (\<lambda>pol path. if can_read_path_with_cwd env pol path cwd then pol else push_entry (PathEntry path) AccessRead pol) pol roots)"

definition with_additional_writable_roots :: "('z) disk_env_scheme \<Rightarrow> sandbox_policy \<Rightarrow> rstr \<Rightarrow> rstr list \<Rightarrow> sandbox_policy" where
  "with_additional_writable_roots env pol cwd roots =
     foldl (\<lambda>pol path. if can_write_path_with_cwd env pol path cwd then pol else push_entry (PathEntry path) AccessWrite pol) pol roots"

definition add_legacy_root :: "('z) disk_env_scheme \<Rightarrow> sandbox_policy \<Rightarrow> rstr \<Rightarrow> sandbox_policy" where
  "add_legacy_root env pol path =
     (let pol = (if \<exists>e \<in> set (entries pol). access_can_write (entry_access e) \<and>
                      (case entry_path e of PathEntry existing \<Rightarrow> same_path existing path | _ \<Rightarrow> False)
                 then pol else push_entry (PathEntry path) AccessWrite pol)
      in pol\<lparr>entries := protect_root env False path (entries pol)\<rparr>)"

definition with_additional_legacy_workspace_writable_roots ::
    "('z) disk_env_scheme \<Rightarrow> sandbox_policy \<Rightarrow> rstr list \<Rightarrow> sandbox_policy" where
  "with_additional_legacy_workspace_writable_roots env pol roots =
     (if kind pol \<noteq> KindRestricted then pol else foldl (add_legacy_root env) pol roots)"

section \<open>Roots for the platform sandboxes\<close>

record writable_root =
  wr_root :: rstr
  read_only_subpaths :: "rstr list"
  protected_metadata_names :: "rstr list"

definition path_contains_protected_metadata_name :: "writable_root \<Rightarrow> rstr \<Rightarrow> bool" where
  "path_contains_protected_metadata_name wr path =
     (case path_strip_prefix path (wr_root wr) of
        None \<Rightarrow> False
      | Some [] \<Rightarrow> False
      | Some (first_component # _) \<Rightarrow> component_str first_component \<in> set (protected_metadata_names wr))"

definition is_path_writable :: "writable_root \<Rightarrow> rstr \<Rightarrow> bool" where
  "is_path_writable wr path =
     (if \<not> path_starts_with path (wr_root wr) then False
      else if \<exists>sub \<in> set (read_only_subpaths wr). path_starts_with path sub then False
      else \<not> path_contains_protected_metadata_name wr path)"

definition legacy_get_writable_roots_with_cwd :: "('z) disk_env_scheme \<Rightarrow> legacy_policy \<Rightarrow> rstr \<Rightarrow> writable_root list" where
  "legacy_get_writable_roots_with_cwd env p cwd =
     (case p of
        WorkspaceWrite writable_roots _ exclude_tmpdir_env_var exclude_slash_tmp \<Rightarrow>
          (let cwd_root = env_absolute env cwd;
               roots = writable_roots @ (case cwd_root of Some c \<Rightarrow> [c] | None \<Rightarrow> []) @
                 (if \<not> exclude_slash_tmp \<and> slash_tmp_is_dir env then [lit ''/tmp''] else []) @
                 (if exclude_tmpdir_env_var then []
                  else case env_tmpdir env of
                         Some tmpdir \<Rightarrow>
                           if tmpdir = [] then [] else (case env_absolute env tmpdir of Some t \<Rightarrow> [t] | None \<Rightarrow> [])
                       | None \<Rightarrow> [])
           in map (\<lambda>root.
                \<lparr>wr_root = root,
                 read_only_subpaths = default_read_only_subpaths_for_writable_root env root
                   (case cwd_root of Some c \<Rightarrow> same_path c root | None \<Rightarrow> False),
                 protected_metadata_names = []\<rparr>) roots)
      | _ \<Rightarrow> [])"

definition include_platform_defaults :: "sandbox_policy \<Rightarrow> bool" where
  "include_platform_defaults pol \<longleftrightarrow>
     \<not> has_full_disk_read_access pol \<and> kind pol = KindRestricted \<and>
     (\<exists>e \<in> set (entries pol). entry_path e = Special MinimalPath \<and> access_can_read (entry_access e))"

definition get_readable_roots_with_cwd :: "('z) disk_env_scheme \<Rightarrow> sandbox_policy \<Rightarrow> rstr \<Rightarrow> rstr list" where
  "get_readable_roots_with_cwd env pol cwd =
     (if has_full_disk_read_access pol then []
      else dedup_absolute_paths env
             (map resolved_path (filter (\<lambda>e. access_can_read (resolved_access e) \<and> can_read_path_with_cwd env pol (resolved_path e) cwd)
                (resolved_entries_with_cwd env pol cwd))) True)"

definition protected_metadata_names_for_writable_root ::
    "('z) disk_env_scheme \<Rightarrow> sandbox_policy \<Rightarrow> rstr \<Rightarrow> rstr list \<Rightarrow> rstr \<Rightarrow> rstr list" where
  "protected_metadata_names_for_writable_root env pol root raw_writable_roots cwd =
     filter (\<lambda>name. \<forall>r \<in> set (root # raw_writable_roots).
        \<not> can_write_path_with_cwd env pol (abs_join (env_home env) r name) cwd) PROTECTED_METADATA_PATH_NAMES"

definition has_explicit_resolved_path_entry :: "resolved_entry list \<Rightarrow> rstr \<Rightarrow> bool" where
  "has_explicit_resolved_path_entry es path \<longleftrightarrow> (\<exists>e \<in> set es. same_path (resolved_path e) path)"

definition raw_carveout_path :: "('z) disk_env_scheme \<Rightarrow> rstr \<Rightarrow> rstr list \<Rightarrow> rstr \<Rightarrow> rstr option" where
  "raw_carveout_path env root raw_writable_roots path =
     (if path_parent root = None then None
      else if same_path path root then None
      else if path_starts_with path root then Some path
      else first_some (\<lambda>raw_root.
             Option.bind (path_strip_prefix path raw_root) (\<lambda>suffix.
               if suffix = [] then None else Some (abs_join (env_home env) root (render suffix)))) raw_writable_roots)"

definition carveout_path :: "('z) disk_env_scheme \<Rightarrow> rstr \<Rightarrow> rstr list \<Rightarrow> rstr \<Rightarrow> rstr option" where
  "carveout_path env root raw_writable_roots path =
     (let effective_path = normalize_effective_absolute_path env path
      in case raw_carveout_path env root raw_writable_roots path of
           Some p \<Rightarrow> Some p
         | None \<Rightarrow>
             if same_path effective_path root \<or> \<not> path_starts_with effective_path root then None
             else Some effective_path)"

definition writable_root_of ::
    "('z) disk_env_scheme \<Rightarrow> sandbox_policy \<Rightarrow> rstr \<Rightarrow> rstr list \<Rightarrow> rstr \<Rightarrow> writable_root" where
  "writable_root_of env pol cwd writable_entries root =
     (let resolved_entries = resolved_entries_with_cwd env pol cwd;
          raw_writable_roots = filter (\<lambda>p. same_path (normalize_effective_absolute_path env p) root) writable_entries;
          protect_missing_dot_codex =
            (case env_absolute env cwd of
               Some c \<Rightarrow> same_path (normalize_effective_absolute_path env c) root | None \<Rightarrow> False);
          default_subpaths =
            filter (\<lambda>p. \<not> has_explicit_resolved_path_entry resolved_entries p)
              (default_read_only_subpaths_for_writable_root env root protect_missing_dot_codex);
          carveouts =
            List.map_filter (carveout_path env root raw_writable_roots)
              (map resolved_path (filter (\<lambda>e. \<not> access_can_write (resolved_access e) \<and>
                   \<not> can_write_path_with_cwd env pol (resolved_path e) cwd) resolved_entries))
      in \<lparr>wr_root = root,
          read_only_subpaths = dedup_absolute_paths env (default_subpaths @ carveouts) False,
          protected_metadata_names = protected_metadata_names_for_writable_root env pol root raw_writable_roots cwd\<rparr>)"

definition get_writable_roots_with_cwd :: "('z) disk_env_scheme \<Rightarrow> sandbox_policy \<Rightarrow> rstr \<Rightarrow> writable_root list" where
  "get_writable_roots_with_cwd env pol cwd =
     (if has_full_disk_write_access pol then []
      else
        let writable_entries = map resolved_path
              (filter (\<lambda>e. access_can_write (resolved_access e) \<and> can_write_path_with_cwd env pol (resolved_path e) cwd)
                 (resolved_entries_with_cwd env pol cwd))
        in map (writable_root_of env pol cwd writable_entries) (dedup_absolute_paths env writable_entries True))"

definition get_unreadable_roots_with_cwd :: "('z) disk_env_scheme \<Rightarrow> sandbox_policy \<Rightarrow> rstr \<Rightarrow> rstr list" where
  "get_unreadable_roots_with_cwd env pol cwd =
     (if kind pol \<noteq> KindRestricted then []
      else
        let root = map_option absolute_root_path_for_cwd (env_absolute env cwd)
        in dedup_absolute_paths env
             (map resolved_path
               (filter (\<lambda>e. resolved_access e = AccessNone \<and> \<not> can_read_path_with_cwd env pol (resolved_path e) cwd \<and>
                   (case root of Some r \<Rightarrow> \<not> same_path r (resolved_path e) | None \<Rightarrow> True))
                 (resolved_entries_with_cwd env pol cwd))) True)"

definition get_unreadable_globs_with_cwd :: "('z) disk_env_scheme \<Rightarrow> sandbox_policy \<Rightarrow> rstr \<Rightarrow> rstr list" where
  "get_unreadable_globs_with_cwd env pol cwd =
     (if kind pol \<noteq> KindRestricted then []
      else remdups_adj (sort (List.map_filter (\<lambda>e.
             case entry_path e of GlobPattern pat \<Rightarrow> Some (resolve_path_against_base (env_home env) pat cwd) | _ \<Rightarrow> None)
             (deny_entries pol))))"

section \<open>Comparing policies\<close>

text \<open>The order of \<open>Path\<close>: components in order; names as their bytes, which is the order of their code points.\<close>

definition component_key :: "path_component \<Rightarrow> nat \<times> rstr" where
  "component_key c =
     (case c of RootDir \<Rightarrow> (0, []) | CurDir \<Rightarrow> (1, []) | ParentDir \<Rightarrow> (2, []) | Normal s \<Rightarrow> (3, s))"

definition path_key :: "rstr \<Rightarrow> (nat \<times> rstr) list" where
  "path_key p = map component_key (components p)"

definition sorted_absolute_paths :: "rstr list \<Rightarrow> rstr list" where
  "sorted_absolute_paths = sort_key path_key"

definition sorted_writable_roots :: "writable_root list \<Rightarrow> writable_root list" where
  "sorted_writable_roots roots =
     sort_key (\<lambda>r. path_key (wr_root r))
       (map (\<lambda>r. r\<lparr>read_only_subpaths := sorted_absolute_paths (read_only_subpaths r),
                   protected_metadata_names := remdups_adj (sort (protected_metadata_names r))\<rparr>) roots)"

record semantic_signature =
  sig_full_disk_read :: bool
  sig_full_disk_write :: bool
  sig_platform_defaults :: bool
  sig_readable_roots :: "rstr list"
  sig_writable_roots :: "writable_root list"
  sig_unreadable_roots :: "rstr list"
  sig_unreadable_globs :: "rstr list"

definition semantic_signature_of :: "('z) disk_env_scheme \<Rightarrow> sandbox_policy \<Rightarrow> rstr \<Rightarrow> semantic_signature" where
  "semantic_signature_of env pol cwd =
     \<lparr>sig_full_disk_read = has_full_disk_read_access pol,
      sig_full_disk_write = has_full_disk_write_access pol,
      sig_platform_defaults = include_platform_defaults pol,
      sig_readable_roots = sorted_absolute_paths (get_readable_roots_with_cwd env pol cwd),
      sig_writable_roots = sorted_writable_roots (get_writable_roots_with_cwd env pol cwd),
      sig_unreadable_roots = sorted_absolute_paths (get_unreadable_roots_with_cwd env pol cwd),
      sig_unreadable_globs = get_unreadable_globs_with_cwd env pol cwd\<rparr>"

definition is_semantically_equivalent_to :: "('z) disk_env_scheme \<Rightarrow> sandbox_policy \<Rightarrow> sandbox_policy \<Rightarrow> rstr \<Rightarrow> bool" where
  "is_semantically_equivalent_to env pol other cwd \<longleftrightarrow> semantic_signature_of env pol cwd = semantic_signature_of env other cwd"

definition protected_metadata_names_need_direct_runtime_enforcement ::
    "('z) disk_env_scheme \<Rightarrow> sandbox_policy \<Rightarrow> legacy_policy \<Rightarrow> rstr \<Rightarrow> bool" where
  "protected_metadata_names_need_direct_runtime_enforcement env pol legacy cwd \<longleftrightarrow>
     (\<exists>wr \<in> set (get_writable_roots_with_cwd env pol cwd).
        case find (\<lambda>c. same_path (wr_root c) (wr_root wr)) (legacy_get_writable_roots_with_cwd env legacy cwd) of
          None \<Rightarrow> protected_metadata_names wr \<noteq> []
        | Some legacy_root \<Rightarrow>
            (\<exists>name \<in> set (protected_metadata_names wr).
               \<not> (\<exists>sub \<in> set (read_only_subpaths legacy_root). same_path sub (abs_join (env_home env) (wr_root wr) name))))"

definition needs_direct_runtime_enforcement ::
    "('z) disk_env_scheme \<Rightarrow> sandbox_policy \<Rightarrow> network_sandbox_policy \<Rightarrow> rstr \<Rightarrow> bool" where
  "needs_direct_runtime_enforcement env pol network_policy cwd =
     (if kind pol \<noteq> KindRestricted then False
      else case to_legacy_sandbox_policy env pol network_policy cwd of
             Inl _ \<Rightarrow> True
           | Inr legacy \<Rightarrow>
               if protected_metadata_names_need_direct_runtime_enforcement env pol legacy cwd then True
               else semantic_signature_of env pol cwd \<noteq>
                      semantic_signature_of env (legacy_runtime_file_system_policy_for_cwd env legacy cwd) cwd)"

section \<open>Denied reads\<close>

text \<open>
  The glob compiler is third-party: a parameter that yields a matcher or a message.
\<close>

type_synonym glob_compiler = "rstr \<Rightarrow> (rstr, rstr \<Rightarrow> bool) result"

datatype invalid_glob_behavior = FailClosed | ReturnError

record read_deny_matcher =
  denied_candidates :: "rstr list list"
  deny_read_matchers :: "(rstr \<Rightarrow> bool) list"
  invalid_pattern :: bool

definition push_unique :: "rstr \<Rightarrow> rstr list \<Rightarrow> rstr list" where
  "push_unique candidate cs = (if \<exists>x \<in> set cs. same_path x candidate then cs else cs @ [candidate])"

definition normalized_and_canonical_candidates :: "('z) disk_env_scheme \<Rightarrow> rstr \<Rightarrow> rstr list" where
  "normalized_and_canonical_candidates env path =
     (let cs = push_unique (case env_absolute env path of Some n \<Rightarrow> n | None \<Rightarrow> path) []
      in case Option.bind (disk_canonicalize env path) (env_absolute env) of
           Some c \<Rightarrow> push_unique c cs
         | None \<Rightarrow> cs)"

fun build_matchers ::
    "glob_compiler \<Rightarrow> invalid_glob_behavior \<Rightarrow> rstr list \<Rightarrow> (rstr \<Rightarrow> bool) list \<Rightarrow> bool
       \<Rightarrow> (rstr, (rstr \<Rightarrow> bool) list \<times> bool) result" where
  "build_matchers compile behavior [] ms bad = Inr (ms, bad)"
| "build_matchers compile behavior (pat # pats) ms bad =
     (case compile pat of
        Inr m \<Rightarrow> build_matchers compile behavior pats (ms @ [m]) bad
      | Inl err \<Rightarrow>
          (case behavior of
             FailClosed \<Rightarrow> build_matchers compile behavior pats ms True
           | ReturnError \<Rightarrow> Inl (lit ''invalid deny-read glob pattern `'' @ pat @ lit ''`: '' @ err)))"

definition build_matcher ::
    "('z) disk_env_scheme \<Rightarrow> glob_compiler \<Rightarrow> sandbox_policy \<Rightarrow> rstr \<Rightarrow> invalid_glob_behavior
       \<Rightarrow> (rstr, read_deny_matcher option) result" where
  "build_matcher env compile pol cwd behavior =
     (if \<not> has_denied_read_restrictions pol then Inr None
      else
        rbind (build_matchers compile behavior (get_unreadable_globs_with_cwd env pol cwd) [] False) (\<lambda>(ms, bad).
          Inr (Some \<lparr>denied_candidates = map (normalized_and_canonical_candidates env) (get_unreadable_roots_with_cwd env pol cwd),
                     deny_read_matchers = ms, invalid_pattern = bad\<rparr>)))"

definition is_read_denied :: "('z) disk_env_scheme \<Rightarrow> read_deny_matcher \<Rightarrow> rstr \<Rightarrow> bool" where
  "is_read_denied env m path =
     (if invalid_pattern m then True
      else
        let path_candidates = normalized_and_canonical_candidates env path
        in (\<exists>ds \<in> set (denied_candidates m). \<exists>c \<in> set path_candidates. \<exists>d \<in> set ds. same_path c d \<or> path_starts_with c d) \<or>
           (\<exists>mt \<in> set (deny_read_matchers m). \<exists>c \<in> set path_candidates. mt c))"

section \<open>Legacy modes survive the translation\<close>

lemma append_read_only_scan:
  "foldl (scan_entry env c) sc (append_default_read_only_entry_if_no_explicit_rule p es) = foldl (scan_entry env c) sc es"
proof -
  have "scan_entry env c sc' (entry p AccessRead) = sc'" for sc'
    by (cases p) (auto simp: scan_entry_def access_can_write_def split: special_path.split option.split)
  then show ?thesis by (simp add: append_default_read_only_entry_if_no_explicit_rule_def)
qed

lemma append_read_only_paths_scan:
  "foldl (scan_entry env c) sc (fold append_read_only_path ps es) = foldl (scan_entry env c) sc es"
  by (induction ps arbitrary: es) (simp_all add: append_read_only_scan)

lemma protect_roots_scan:
  "foldl (scan_entry env c) sc (fold (protect_root env' b) roots es) = foldl (scan_entry env c) sc es"
  by (induction roots arbitrary: es) (simp_all add: protect_root_def append_read_only_paths_scan)

lemma scan_roots:
  "foldl (scan_entry env c) sc (map (\<lambda>p. entry (PathEntry p) AccessWrite) roots) =
     sc\<lparr>scan_workspace_root_writable := scan_workspace_root_writable sc \<or>
          (\<exists>r \<in> set roots. case c of Some cwd \<Rightarrow> same_path cwd r | None \<Rightarrow> False),
        scan_writable_roots := scan_writable_roots sc @
          filter (\<lambda>r. \<not> (case c of Some cwd \<Rightarrow> same_path cwd r | None \<Rightarrow> False)) roots\<rparr>"
  by (induction roots arbitrary: sc) (auto simp: scan_entry_def access_can_write_def)

lemma workspace_entries_scan:
  "scan_entries env c (workspace_entries roots no_tmpdir no_tmp) =
     \<lparr>scan_workspace_root_writable = True,
      scan_writable_roots = filter (\<lambda>r. \<not> (case c of Some cwd \<Rightarrow> same_path cwd r | None \<Rightarrow> False)) roots,
      scan_tmpdir_writable = (\<not> no_tmpdir), scan_slash_tmp_writable = (\<not> no_tmp), scan_root_write = False\<rparr>"
proof -
  have s1: "scan_entry env c sc (entry (Special RootPath) AccessRead) = sc" for sc by (simp add: scan_entry_def)
  have s2: "scan_entry env c sc (entry (Special (ProjectRoots None)) AccessWrite) = sc\<lparr>scan_workspace_root_writable := True\<rparr>" for sc
    by (simp add: scan_entry_def access_can_write_def)
  have s3: "scan_entry env c sc (entry (Special SlashTmp) AccessWrite) = sc\<lparr>scan_slash_tmp_writable := True\<rparr>" for sc
    by (simp add: scan_entry_def access_can_write_def)
  have s4: "scan_entry env c sc (entry (Special Tmpdir) AccessWrite) = sc\<lparr>scan_tmpdir_writable := True\<rparr>" for sc
    by (simp add: scan_entry_def access_can_write_def)
  show ?thesis by (simp add: scan_entries_def workspace_entries_def s1 s2 s3 s4 scan_roots)
qed

definition no_root_write :: "sandbox_entry list \<Rightarrow> bool" where
  "no_root_write es \<longleftrightarrow> (\<forall>e \<in> set es. entry_path e = Special RootPath \<longrightarrow> entry_access e \<noteq> AccessWrite)"

lemma append_read_only_no_root_write:
  "no_root_write es \<Longrightarrow> no_root_write (append_default_read_only_entry_if_no_explicit_rule p es)"
  by (auto simp: no_root_write_def append_default_read_only_entry_if_no_explicit_rule_def)

lemma append_read_only_paths_no_root_write:
  "no_root_write es \<Longrightarrow> no_root_write (fold append_read_only_path ps es)"
  by (induction ps arbitrary: es) (simp_all add: append_read_only_no_root_write)

lemma protect_roots_no_root_write: "no_root_write es \<Longrightarrow> no_root_write (fold (protect_root env b) roots es)"
  by (induction roots arbitrary: es) (simp_all add: protect_root_def append_read_only_paths_no_root_write)

lemma workspace_entries_no_root_write: "no_root_write (workspace_entries roots no_tmpdir no_tmp)"
  by (auto simp: no_root_write_def workspace_entries_def)

lemma no_root_write_not_full: "kind pol = KindRestricted \<Longrightarrow> no_root_write (entries pol) \<Longrightarrow> \<not> has_full_disk_write_access pol"
  by (auto simp: has_full_disk_write_access_def has_root_access_def no_root_write_def access_can_write_def)

definition same_as_cwd :: "('z) disk_env_scheme \<Rightarrow> rstr \<Rightarrow> rstr \<Rightarrow> bool" where
  "same_as_cwd env cwd r = (case env_absolute env cwd of Some c \<Rightarrow> same_path c r | None \<Rightarrow> False)"

text \<open>
  A legacy sandbox mode that is translated to permission entries and back is itself again, with the
  same network access; of the extra writable roots, repetitions and the working directory are
  dropped. It holds with and without the read-only paths that are added for a working directory.
\<close>

theorem legacy_mode_roundtrip:
  "to_legacy_sandbox_policy env (policy_of_legacy env p) (network_policy_of_legacy p) cwd =
     Inr (case p of
            WorkspaceWrite roots n no_tmpdir no_tmp \<Rightarrow>
              WorkspaceWrite (dedup_paths [] (filter (\<lambda>r. \<not> same_as_cwd env cwd r) roots)) n no_tmpdir no_tmp
          | _ \<Rightarrow> p) \<and>
   to_legacy_sandbox_policy env (from_legacy_sandbox_policy_for_cwd env p cwd) (network_policy_of_legacy p) cwd =
     to_legacy_sandbox_policy env (policy_of_legacy env p) (network_policy_of_legacy p) cwd"
proof (cases p)
  case (WorkspaceWrite roots n no_tmpdir no_tmp)
  let ?pol = "policy_of_legacy env p" and ?pol' = "from_legacy_sandbox_policy_for_cwd env p cwd"
  have k: "kind ?pol = KindRestricted" "kind ?pol' = KindRestricted"
    by (simp_all add: WorkspaceWrite policy_of_legacy_def workspace_write_def policy_restricted_def from_legacy_sandbox_policy_for_cwd_def)
  have es: "no_root_write (entries ?pol)"
    by (simp add: WorkspaceWrite policy_of_legacy_def workspace_write_def policy_restricted_def protect_roots_no_root_write
        append_default_read_only_project_root_subpath_def append_read_only_no_root_write workspace_entries_no_root_write)
  have es': "no_root_write (entries ?pol')"
    using es protect_roots_no_root_write [of _ env True "[r]" for r]
    by (auto simp: from_legacy_sandbox_policy_for_cwd_def WorkspaceWrite protect_roots_no_root_write Let_def split: option.split)
  have scan: "scan_entries env c (entries ?pol) = scan_entries env c (workspace_entries roots no_tmpdir no_tmp)" for c
    by (simp add: WorkspaceWrite policy_of_legacy_def workspace_write_def policy_restricted_def scan_entries_def protect_roots_scan
        append_default_read_only_project_root_subpath_def append_read_only_scan)
  have scan': "scan_entries env c (entries ?pol') = scan_entries env c (entries ?pol)" for c
    using protect_roots_scan [of env c _ env True "[r]" for r]
    by (auto simp: from_legacy_sandbox_policy_for_cwd_def WorkspaceWrite scan_entries_def protect_roots_scan Let_def split: option.split)
  have net: "net_enabled (network_policy_of_legacy p) = n"
    by (simp add: WorkspaceWrite network_policy_of_legacy_def has_full_network_access_def net_enabled_def)
  show ?thesis
    using no_root_write_not_full [OF k(1) es] no_root_write_not_full [OF k(2) es'] k net
    unfolding WorkspaceWrite
    by (simp add: to_legacy_sandbox_policy_def scan [unfolded WorkspaceWrite] scan' [unfolded WorkspaceWrite] workspace_entries_scan
        dedup_absolute_paths_def same_as_cwd_def)
next
  case (ExternalSandbox n)
  then show ?thesis
    by (cases n) (simp_all add: to_legacy_sandbox_policy_def policy_of_legacy_def from_legacy_sandbox_policy_for_cwd_def policy_external_def
        network_policy_of_legacy_def has_full_network_access_def net_enabled_def)
qed (auto simp: to_legacy_sandbox_policy_def policy_of_legacy_def from_legacy_sandbox_policy_for_cwd_def policy_unrestricted_def
       policy_restricted_def network_policy_of_legacy_def has_full_network_access_def net_enabled_def scan_entries_def scan_entry_def
       has_full_disk_write_access_def has_root_access_def access_can_write_def)

section \<open>Project roots can be bound to a directory\<close>

lemma resolved_entries_eqI:
  assumes "\<And>e. e \<in> set (entries pol) \<Longrightarrow>
      resolve_entry_path env (entry_path (f e)) (env_absolute env cwd') = resolve_entry_path env (entry_path e) (env_absolute env cwd) \<and>
      entry_access (f e) = entry_access e"
  shows "resolved_entries_with_cwd env (pol\<lparr>entries := map f (entries pol)\<rparr>) cwd' = resolved_entries_with_cwd env pol cwd"
proof -
  have "List.map_filter (\<lambda>e. map_option (\<lambda>p. \<lparr>resolved_path = p, resolved_access = entry_access e\<rparr>)
            (resolve_entry_path env (entry_path e) (env_absolute env cwd'))) (map f es) =
        List.map_filter (\<lambda>e. map_option (\<lambda>p. \<lparr>resolved_path = p, resolved_access = entry_access e\<rparr>)
            (resolve_entry_path env (entry_path e) (env_absolute env cwd))) es"
    if "set es \<subseteq> set (entries pol)" for es
    using that by (induction es) (auto simp: List.map_filter_simps assms split: option.split)
  from this [of "entries pol"] show ?thesis by (simp add: resolved_entries_with_cwd_def)
qed

lemma materialize_entry_resolves:
  "resolve_entry_path env (entry_path (materialize_entry_with_cwd env (Some c) e)) (Some c') = resolve_entry_path env (entry_path e) (Some c) \<and>
   entry_access (materialize_entry_with_cwd env (Some c) e) = entry_access e"
  by (auto simp: materialize_entry_with_cwd_def resolve_entry_path_def resolve_file_system_path_def resolve_special_path_def
      absolute_root_path_for_cwd_def split: fs_path.split special_path.split option.split)

lemma materialize_resolved_entries:
  assumes "env_absolute env cwd = Some c" "env_absolute env cwd' = Some c'"
  shows "resolved_entries_with_cwd env (materialize_project_roots_with_cwd env pol cwd) cwd' = resolved_entries_with_cwd env pol cwd"
  unfolding materialize_project_roots_with_cwd_def
  by (rule resolved_entries_eqI) (simp add: assms materialize_entry_resolves)

text \<open>
  Binding the project roots of a policy to a working directory keeps what the policy says about that directory, and
  the bound policy says the same from any other working directory: access, and protection of metadata,
  of every absolute path are those of the original policy in the original directory.
\<close>

theorem materialize_fixes_access:
  assumes "env_absolute env cwd = Some c" "env_absolute env cwd' = Some c'" "is_absolute path"
  shows "resolve_access_with_cwd env (materialize_project_roots_with_cwd env pol cwd) path cwd' = resolve_access_with_cwd env pol path cwd \<and>
         is_metadata_write_denied env (materialize_project_roots_with_cwd env pol cwd) path cwd' = is_metadata_write_denied env pol path cwd"
proof -
  have "resolve_candidate_path env path cwd' = resolve_candidate_path env path cwd"
    using assms(3) by (simp add: resolve_candidate_path_def)
  moreover have "kind (materialize_project_roots_with_cwd env pol cwd) = kind pol"
    by (simp add: materialize_project_roots_with_cwd_def)
  ultimately show ?thesis
    unfolding resolve_access_with_cwd_def is_metadata_write_denied_def metadata_child_of_writable_root_def
      has_explicit_write_entry_for_metadata_path_def materialize_resolved_entries [OF assms(1,2)]
    by simp
qed

definition sample_disk :: disk_env where
  "sample_disk = \<lparr>env_home = Some (lit ''/h''), env_current_dir = Some (lit ''/w''), env_tmpdir = None, slash_tmp_is_dir = True,
     path_is_file = (\<lambda>_. False), path_is_dir = (\<lambda>_. False), path_exists = (\<lambda>_. False), disk_read_to_string = (\<lambda>_. None),
     symlink_info = (\<lambda>_. None), disk_canonicalize = (\<lambda>_. None)\<rparr>"

theorem materialize_fixes_access_witness:
  "resolve_access_with_cwd sample_disk
     (materialize_project_roots_with_cwd sample_disk (policy_restricted [entry (Special (ProjectRoots None)) AccessWrite]) (lit ''/w''))
     (lit ''/w/a'') (lit ''/v'') = AccessWrite"
proof -
  have c: "env_absolute sample_disk (lit ''/w'') = Some (lit ''/w'')" "env_absolute sample_disk (lit ''/v'') = Some (lit ''/v'')"
    by code_simp+
  have "is_absolute (lit ''/w/a'')" by code_simp
  from materialize_fixes_access [OF c this, of "policy_restricted [entry (Special (ProjectRoots None)) AccessWrite]"]
  have "resolve_access_with_cwd sample_disk
     (materialize_project_roots_with_cwd sample_disk (policy_restricted [entry (Special (ProjectRoots None)) AccessWrite]) (lit ''/w''))
     (lit ''/w/a'') (lit ''/v'') =
     resolve_access_with_cwd sample_disk (policy_restricted [entry (Special (ProjectRoots None)) AccessWrite]) (lit ''/w/a'') (lit ''/w'')"
    by blast
  also have "\<dots> = AccessWrite" by code_simp
  finally show ?thesis .
qed

section \<open>Denials survive\<close>

lemma fold_push_once_mem: "x \<in> set es \<Longrightarrow> x \<in> set (fold push_entry_once ds es)"
  by (induction ds arbitrary: es) (auto simp: push_entry_once_def)

lemma fold_push_once_subset: "set (fold push_entry_once ds es) \<subseteq> set es \<union> set ds"
  by (induction ds arbitrary: es) (fastforce simp: push_entry_once_def split: if_splits)+

lemma special_share_refl: "special_paths_share_target v v"
  by (cases v) (simp_all add: special_paths_share_target_def)

lemma entry_eq_refl: "entry_eq e e"
  by (auto simp: entry_eq_def fs_path_eq_def same_path_def special_share_refl split: fs_path.split)

lemma fold_push_once_has: "d \<in> set ds \<Longrightarrow> \<exists>x \<in> set (fold push_entry_once ds es). entry_eq x d"
proof (induction ds arbitrary: es)
  case (Cons d' ds)
  show ?case
  proof (cases "d = d'")
    case True
    obtain x where x: "x \<in> set (push_entry_once d' es)" "entry_eq x d'"
      using entry_eq_refl [of d'] by (cases "\<exists>x \<in> set es. entry_eq x d'") (auto simp: push_entry_once_def)
    with fold_push_once_mem [OF x(1), of ds] True show ?thesis by auto
  qed (use Cons in auto)
qed simp

lemma entry_eq_resolves:
  assumes "entry_eq x d" "plain_path (entry_path x)" "plain_path (entry_path d)" "is_absolute root"
    and "resolve_entry_path env (entry_path d) (Some root) = Some p"
  shows "\<exists>q. resolve_entry_path env (entry_path x) (Some root) = Some q \<and> components q = components p"
  using assms special_share_resolves [of _ _ root env]
  by (cases "entry_path x"; cases "entry_path d")
     (auto simp: entry_eq_def fs_path_eq_def same_path_def resolve_entry_path_def resolve_file_system_path_def)

lemma none_is_top: "a \<le> AccessNone"
  by (cases a) (simp_all add: less_eq_access_mode_def)

text \<open>An entry that denies decides where no longer entry covers the path.\<close>

lemma longest_denial_decides:
  assumes "kind pol = KindRestricted" "resolve_candidate_path env path cwd = Some target"
    and "r \<in> set (covering env pol target cwd)" "resolved_access r = AccessNone"
    and "\<forall>s \<in> set (covering env pol target cwd). resolved_access s \<noteq> AccessNone \<longrightarrow>
           length (components (resolved_path s)) \<le> length (components (resolved_path r))"
  shows "resolve_access_with_cwd env pol path cwd = AccessNone"
  using assms(1,2)
proof (cases rule: resolve_access_cases)
  case (covered e)
  show ?thesis
  proof (rule ccontr)
    assume "\<not> ?thesis"
    then have e: "resolved_access e \<noteq> AccessNone" using covered(2) by simp
    with assms(5) covered(1) have "length (components (resolved_path e)) \<le> length (components (resolved_path r))" by blast
    moreover have "resolved_entry_precedence r \<le> resolved_entry_precedence e" using covered(3) assms(3) by blast
    ultimately have "AccessNone \<le> resolved_access e" using assms(4)
      by (auto simp: resolved_entry_precedence_def less_eq_prod_def)
    with e none_is_top [of "resolved_access e"] show False by auto
  qed
qed

lemma pushed_denial_decides:
  assumes "env_ok env" "env_absolute env cwd = Some root" "\<forall>e \<in> set es \<union> set ds. plain_path (entry_path e)"
    and ds: "\<forall>d \<in> set ds. entry_access d = AccessNone" and d: "d \<in> set ds"
    and p: "resolve_entry_path env (entry_path d) (Some root) = Some p"
    and target: "resolve_candidate_path env path cwd = Some target" "path_starts_with target p"
    and pol: "kind pol = KindRestricted" "entries pol = fold push_entry_once ds es"
    and shorter: "\<forall>e \<in> set es. \<forall>q. resolve_entry_path env (entry_path e) (Some root) = Some q \<longrightarrow> path_starts_with target q \<longrightarrow>
      path_starts_with p q"
  shows "resolve_access_with_cwd env pol path cwd = AccessNone"
proof -
  obtain x where x: "x \<in> set (entries pol)" "entry_eq x d" using fold_push_once_has [OF d] pol(2) by metis
  have "x \<in> set es \<union> set ds" using x(1) fold_push_once_subset [of ds es] pol(2) by auto
  then obtain q where q: "resolve_entry_path env (entry_path x) (Some root) = Some q" "components q = components p"
    using entry_eq_resolves [OF x(2) _ _ _ p] assms(3) d normal_absolute_is_absolute [OF env_absolute_normal [OF assms(1,2)]] by blast
  let ?r = "\<lparr>resolved_path = q, resolved_access = AccessNone\<rparr>"
  have "entry_access x = AccessNone" using x(2) ds d by (simp add: entry_eq_def)
  then have "?r \<in> set (covering env pol target cwd)"
    using x(1) q target(2) assms(2) by (auto simp: covering_def set_resolved_entries path_starts_with_def intro!: bexI [of _ x])
  moreover have "length (components (resolved_path s)) \<le> length (components p)"
    if s: "s \<in> set (covering env pol target cwd)" "resolved_access s \<noteq> AccessNone" for s
  proof -
    obtain e where e: "e \<in> set (entries pol)" "resolve_entry_path env (entry_path e) (Some root) = Some (resolved_path s)"
        "resolved_access s = entry_access e" "path_starts_with target (resolved_path s)"
      using s(1) assms(2) by (auto simp: covering_def set_resolved_entries)
    have "e \<in> set es" using e(1,3) s(2) ds fold_push_once_subset [of ds es] pol(2) by auto
    then have "path_starts_with p (resolved_path s)" using shorter e(2,4) by blast
    then show ?thesis by (simp add: path_starts_with_def prefix_length_le)
  qed
  ultimately show ?thesis by (intro longest_denial_decides [OF pol(1) target(1), of ?r]) (auto simp: q(2))
qed



section \<open>Roots handed to a sandbox\<close>

lemma dedup_paths_covers: "p \<in> set ps \<Longrightarrow> \<exists>q \<in> set seen \<union> set (dedup_paths seen ps). same_path p q"
proof (induction ps arbitrary: seen)
  case (Cons a ps)
  show ?case
  proof (cases "\<exists>q \<in> set seen. same_path a q")
    case True
    with Cons show ?thesis by auto
  next
    case False
    then show ?thesis using Cons.IH [of "a # seen"] Cons.prems by (cases "p = a") (auto simp: same_path_def)
  qed
qed simp

lemma dedup_paths_subset: "set (dedup_paths seen ps) \<subseteq> set ps"
  by (induction ps arbitrary: seen) auto

text \<open>No path that occurs is a link.\<close>

definition links_absent :: "('z) disk_env_scheme \<Rightarrow> bool" where
  "links_absent env \<longleftrightarrow> (\<forall>p. normal_absolute p \<longrightarrow> normalize_effective_absolute_path env p = p)"

lemma links_absent_path: "links_absent env \<Longrightarrow> normal_absolute p \<Longrightarrow> normalize_effective_absolute_path env p = p"
  by (simp add: links_absent_def)

lemma resolve_candidate_self: "normal_absolute p \<Longrightarrow> resolve_candidate_path env p cwd = Some p"
  by (simp add: resolve_candidate_path_def env_absolute_def from_absolute_path_def expand_absolute
      normal_absolute_is_absolute normalize_path_normal)

lemma normal_same_path: "normal_absolute p \<Longrightarrow> normal_absolute q \<Longrightarrow> same_path p q \<longleftrightarrow> p = q"
proof -
  assume "normal_absolute p" "normal_absolute q"
  then obtain ns ms where ns: "p = names_path ns" "components p = root_names ns" and ms: "q = names_path ms" "components q = root_names ms"
    by (meson normal_absolute_components)
  have "map Normal ns = map Normal ms \<longleftrightarrow> ns = ms" by (rule inj_map_eq_map) (simp add: inj_def)
  then have "components p = components q \<longleftrightarrow> ns = ms" unfolding ns(2) ms(2) root_names_def by simp
  with ns(1) ms(1) show ?thesis unfolding same_path_def by auto
qed

text \<open>The writable entries from which the roots come.\<close>

definition writable_entry_paths :: "('z) disk_env_scheme \<Rightarrow> sandbox_policy \<Rightarrow> rstr \<Rightarrow> rstr list" where
  "writable_entry_paths env pol cwd =
     map resolved_path
       (filter (\<lambda>e. access_can_write (resolved_access e) \<and> can_write_path_with_cwd env pol (resolved_path e) cwd)
          (resolved_entries_with_cwd env pol cwd))"

lemma writable_root_source:
  assumes "env_ok env" "\<forall>c \<in> set (entries pol). plain_path (entry_path c)" "links_absent env"
    and "wr \<in> set (get_writable_roots_with_cwd env pol cwd)"
  obtains r where "r \<in> set (resolved_entries_with_cwd env pol cwd)" "resolved_access r = AccessWrite" "wr_root wr = resolved_path r"
      "can_write_path_with_cwd env pol (resolved_path r) cwd" "normal_absolute (resolved_path r)"
      "wr = writable_root_of env pol cwd (writable_entry_paths env pol cwd) (resolved_path r)" "\<not> has_full_disk_write_access pol"
proof -
  let ?ws = "writable_entry_paths env pol cwd"
  have part: "\<not> has_full_disk_write_access pol" using assms(4) by (auto simp: get_writable_roots_with_cwd_def)
  have normal: "normal_absolute p" if "p \<in> set ?ws" for p
    using that resolved_entry_normal [OF assms(1,2)] by (auto simp: writable_entry_paths_def)
  then have "map (normalize_effective_absolute_path env) ?ws = ?ws" by (simp add: map_idI links_absent_path [OF assms(3)])
  then obtain root where root: "root \<in> set (dedup_paths [] ?ws)" "wr = writable_root_of env pol cwd ?ws root"
    using assms(4) part
    by (auto simp: get_writable_roots_with_cwd_def dedup_absolute_paths_def writable_entry_paths_def [symmetric] Let_def)
  then have mem: "root \<in> set ?ws" using dedup_paths_subset by blast
  then obtain r where r: "r \<in> set (resolved_entries_with_cwd env pol cwd)" "resolved_access r = AccessWrite" "root = resolved_path r"
      "can_write_path_with_cwd env pol (resolved_path r) cwd"
    by (auto simp: writable_entry_paths_def access_can_write_def)
  with root part normal [OF mem] show ?thesis by (intro that [of r]) (simp_all add: writable_root_of_def Let_def)
qed

lemma starts_with_trans: "path_starts_with a b \<Longrightarrow> path_starts_with b c \<Longrightarrow> path_starts_with a c"
  by (auto simp: path_starts_with_def intro: prefix_order.trans)

lemma deciding_entry_decides_itself:
  assumes "kind pol = KindRestricted" "normal_absolute (resolved_path e)" "e \<in> set (covering env pol target cwd)"
    and "\<forall>e' \<in> set (covering env pol target cwd). resolved_entry_precedence e' \<le> resolved_entry_precedence e"
  shows "resolve_access_with_cwd env pol (resolved_path e) cwd = resolved_access e"
  using assms(1) resolve_candidate_self [OF assms(2), of env cwd]
proof (cases rule: resolve_access_cases [where target = "resolved_path e"])
  case uncovered
  with assms(3) show ?thesis by (auto simp: covering_def filter_empty_conv path_starts_with_def)
next
  case (covered f)
  have "e \<in> set (covering env pol (resolved_path e) cwd)" using assms(3) by (simp add: covering_def path_starts_with_def)
  then have "resolved_entry_precedence e \<le> resolved_entry_precedence f" using covered(3) by blast
  moreover have "f \<in> set (covering env pol target cwd)"
    using covered(1) assms(3) by (auto simp: covering_def intro: starts_with_trans)
  ultimately have "resolved_entry_precedence e = resolved_entry_precedence f" using assms(4) by (simp add: order_antisym)
  with covered(2) show ?thesis by (simp add: resolved_entry_precedence_def)
qed

lemma carveout_kept:
  assumes "links_absent env" "normal_absolute p" "normal_absolute root" "path_starts_with p root" "p \<noteq> root"
  shows "carveout_path env root raws p = Some p"
proof -
  have "\<not> same_path p root" using normal_same_path [OF assms(2,3)] assms(5) by simp
  then show ?thesis using assms(4) links_absent_path [OF assms(1,2)]
    by (auto simp: carveout_path_def raw_carveout_path_def split: option.split)
qed

lemma carveout_is_read_only:
  assumes "links_absent env" "normal_absolute (resolved_path e)" "normal_absolute root" "e \<in> set (resolved_entries_with_cwd env pol cwd)"
    and "path_starts_with (resolved_path e) root" "resolved_path e \<noteq> root" "resolved_access e \<noteq> AccessWrite"
    and "\<not> can_write_path_with_cwd env pol (resolved_path e) cwd" "path_starts_with target (resolved_path e)"
  shows "\<not> is_path_writable (writable_root_of env pol cwd ws root) target"
proof -
  let ?raws = "filter (\<lambda>p. same_path (normalize_effective_absolute_path env p) root) ws"
  let ?cs = "List.map_filter (carveout_path env root ?raws)
      (map resolved_path (filter (\<lambda>e. \<not> access_can_write (resolved_access e) \<and>
           \<not> can_write_path_with_cwd env pol (resolved_path e) cwd) (resolved_entries_with_cwd env pol cwd)))"
  have "carveout_path env root ?raws (resolved_path e) = Some (resolved_path e)" using carveout_kept assms(1-3,5,6) by blast
  moreover have "resolved_path e \<in> set (map resolved_path (filter (\<lambda>e. \<not> access_can_write (resolved_access e) \<and>
           \<not> can_write_path_with_cwd env pol (resolved_path e) cwd) (resolved_entries_with_cwd env pol cwd)))"
    using assms(4,7,8) by (auto simp: access_can_write_def)
  ultimately have mem: "resolved_path e \<in> set ?cs" by (force simp: List.map_filter_def)
  obtain ds where ds: "read_only_subpaths (writable_root_of env pol cwd ws root) = dedup_paths [] (ds @ ?cs)"
    by (simp add: writable_root_of_def dedup_absolute_paths_def Let_def)
  obtain q where "q \<in> set (dedup_paths [] (ds @ ?cs))" "same_path (resolved_path e) q"
    using dedup_paths_covers [of "resolved_path e" "ds @ ?cs" "[]"] mem by auto
  moreover from this have "path_starts_with target q" using assms(9) by (simp add: path_starts_with_def same_path_def)
  ultimately show ?thesis unfolding is_path_writable_def ds by auto
qed

lemma prefix_linear:
  "path_starts_with t a \<Longrightarrow> path_starts_with t b \<Longrightarrow> length (components a) \<le> length (components b) \<Longrightarrow> path_starts_with b a"
  by (auto simp: path_starts_with_def intro: prefix_length_prefix)

lemma writable_root_access:
  assumes "env_ok env" "\<forall>c \<in> set (entries pol). plain_path (entry_path c)" "links_absent env" "kind pol = KindRestricted"
    and r: "r \<in> set (resolved_entries_with_cwd env pol cwd)" "resolved_access r = AccessWrite"
      "can_write_path_with_cwd env pol (resolved_path r) cwd" "normal_absolute (resolved_path r)"
    and target: "normal_absolute target" "is_path_writable (writable_root_of env pol cwd ws (resolved_path r)) target"
  shows "resolve_access_with_cwd env pol target cwd = AccessWrite"
proof -
  have below: "path_starts_with target (resolved_path r)"
    using target(2) by (auto simp: is_path_writable_def writable_root_of_def Let_def split: if_splits)
  then have r_cov: "r \<in> set (covering env pol target cwd)" using r(1) by (simp add: covering_def)
  from assms(4) resolve_candidate_self [OF target(1), of env cwd] show ?thesis
  proof (cases rule: resolve_access_cases [where target = target])
    case uncovered
    with r_cov show ?thesis by simp
  next
    case (covered e)
    have e: "e \<in> set (resolved_entries_with_cwd env pol cwd)" "path_starts_with target (resolved_path e)"
      using covered(1) by (auto simp: covering_def)
    have normal: "normal_absolute (resolved_path e)" using resolved_entry_normal [OF assms(1,2) e(1)] .
    have "length (components (resolved_path r)) \<le> length (components (resolved_path e))"
      using covered(3) r_cov by (auto simp: resolved_entry_precedence_def less_eq_prod_def)
    then have inside: "path_starts_with (resolved_path e) (resolved_path r)" by (rule prefix_linear [OF below e(2)])
    show ?thesis
    proof (rule ccontr)
      assume "\<not> ?thesis"
      then have ne: "resolved_access e \<noteq> AccessWrite" using covered(2) by simp
      have own: "resolve_access_with_cwd env pol (resolved_path e) cwd = resolved_access e"
        by (rule deciding_entry_decides_itself [OF assms(4) normal covered(1,3)])
      then have denied: "\<not> can_write_path_with_cwd env pol (resolved_path e) cwd"
        using ne by (simp add: can_write_path_with_cwd_def access_can_write_def)
      then have "resolved_path e \<noteq> resolved_path r" using r(3) by auto
      from carveout_is_read_only [OF assms(3) normal r(4) e(1) inside this ne denied e(2)] target(2) show False by blast
    qed
  qed
qed

lemma first_some_same:
  "first_some f xs = Some y \<Longrightarrow> \<forall>x \<in> set xs. g x \<noteq> None \<longrightarrow> f x = g x \<Longrightarrow> \<forall>x \<in> set xs. f x = Some y \<longrightarrow> g x = Some y \<Longrightarrow>
     first_some g xs = Some y"
proof (induction xs)
  case (Cons x xs)
  show ?case
  proof (cases "f x")
    case None
    with Cons.prems(2) have "g x = None" by (metis list.set_intros(1))
    moreover have "first_some g xs = Some y"
    proof (rule Cons.IH)
      show "first_some f xs = Some y" using Cons.prems(1) None by simp
      show "\<forall>x \<in> set xs. g x \<noteq> None \<longrightarrow> f x = g x" "\<forall>x \<in> set xs. f x = Some y \<longrightarrow> g x = Some y"
        using Cons.prems(2,3) by (meson list.set_intros(2))+
    qed
    ultimately show ?thesis by simp
  next
    case (Some z)
    with Cons.prems(1) have "f x = Some y" by simp
    with Cons.prems(3) show ?thesis by simp
  qed
qed simp

lemma metadata_child_iff:
  assumes "normal_absolute target" "normal_absolute (resolved_path s)"
  shows "metadata_child env target s = Some (P, n) \<longleftrightarrow>
     n \<in> set PROTECTED_METADATA_PATH_NAMES \<and> P = abs_join (env_home env) (resolved_path s) n \<and>
     (\<exists>rest. components target = components (resolved_path s) @ Normal n # rest)"
proof (cases "path_starts_with target (resolved_path s)")
  case True
  then obtain cs where cs: "components target = components (resolved_path s) @ cs" by (auto simp: path_starts_with_def prefix_def)
  obtain ts ss where "components target = root_names ts" "components (resolved_path s) = root_names ss"
    using assms normal_absolute_components by metis
  with cs have names: "\<exists>ns. cs = map Normal ns" by (auto simp: root_names_def map_eq_append_conv)
  have strip: "path_strip_prefix target (resolved_path s) = Some cs" using True cs by (simp add: path_strip_prefix_def)
  show ?thesis
    using names by (cases cs) (auto simp: metadata_child_def strip cs metadata_path_name_iff)
next
  case False
  then show ?thesis by (auto simp: metadata_child_def path_strip_prefix_def path_starts_with_def)
qed

lemma metadata_child_path:
  assumes "normal_absolute p" "n \<in> set PROTECTED_METADATA_PATH_NAMES"
  shows "normal_absolute (abs_join home p n)" "components (abs_join home p n) = components p @ [Normal n]"
proof -
  obtain ns where ns: "p = names_path ns" "components p = root_names ns" "\<forall>k \<in> set ns. proper_name k"
    using normal_absolute_components [OF assms(1)] by blast
  have n: "proper_name n" "hd n \<noteq> tilde" using metadata_names_proper [OF assms(2)] by simp_all
  have j: "abs_join home p n = names_path (ns @ [n])"
    using resolve_path_below_base [OF ns(3), of n "[]"] n by (simp add: abs_join_def ns(1))
  have proper: "\<forall>k \<in> set (ns @ [n]). proper_name k" using ns(3) n by simp
  then show "normal_absolute (abs_join home p n)" unfolding j normal_absolute_def by blast
  show "components (abs_join home p n) = components p @ [Normal n]"
    unfolding j components_names_path [OF proper] ns(2) by (simp add: root_names_def)
qed

text \<open>
  The protection of \<open>root/name\<close> is the protection of everything below it, as far as the first
  matching root is \<open>root\<close> itself.
\<close>

lemma metadata_of_root_child:
  assumes "env_ok env" "\<forall>c \<in> set (entries pol). plain_path (entry_path c)" "normal_absolute target" "normal_absolute root"
    and "metadata_child_of_writable_root env pol target cwd = Some (P, m)" "components P = components root @ [Normal m]"
    and "m \<in> set PROTECTED_METADATA_PATH_NAMES" "prefix (components P) (components target)"
  shows "metadata_child_of_writable_root env pol (abs_join (env_home env) root m) cwd = Some (P, m)"
proof -
  let ?M = "abs_join (env_home env) root m"
  let ?xs = "filter (\<lambda>e. access_can_write (resolved_access e)) (resolved_entries_with_cwd env pol cwd)"
  note M = metadata_child_path [OF assms(4,7), of "env_home env"]
  obtain rest where rest: "components target = components ?M @ rest" using assms(6,8) M(2) by (auto simp: prefix_def)
  have normal: "normal_absolute (resolved_path x)" if "x \<in> set ?xs" for x using that resolved_entry_normal [OF assms(1,2)] by auto
  have up: "metadata_child env target x = metadata_child env ?M x" if x: "x \<in> set ?xs" "metadata_child env ?M x \<noteq> None" for x
  proof -
    obtain Q n where "metadata_child env ?M x = Some (Q, n)" using x(2) by auto
    moreover from this have "metadata_child env target x = Some (Q, n)"
      unfolding metadata_child_iff [OF M(1) normal [OF x(1)]] metadata_child_iff [OF assms(3) normal [OF x(1)]] rest by auto
    ultimately show ?thesis by simp
  qed
  have down: "metadata_child env ?M x = Some (P, m)" if "x \<in> set ?xs" "metadata_child env target x = Some (P, m)" for x
  proof -
    have "P = abs_join (env_home env) (resolved_path x) m"
      using metadata_child_iff [OF assms(3) normal [OF that(1)]] that(2) by blast
    moreover from this have "components (resolved_path x) = components root"
      using metadata_child_path(2) [OF normal [OF that(1)] assms(7)] assms(6) by auto
    ultimately show ?thesis unfolding metadata_child_iff [OF M(1) normal [OF that(1)]] M(2) using assms(7) by simp
  qed
  show ?thesis
    using first_some_same [of "metadata_child env target" ?xs "(P, m)" "metadata_child env ?M"] assms(5) up down
    unfolding metadata_child_of_writable_root_def by blast
qed

lemma unprotected_name_writable:
  assumes "m \<in> set PROTECTED_METADATA_PATH_NAMES" "components target = components root @ Normal m # rest"
    and "is_path_writable (writable_root_of env pol cwd ws root) target" "links_absent env"
    and "\<forall>w \<in> set ws. normal_absolute w" "normal_absolute root"
  shows "can_write_path_with_cwd env pol (abs_join (env_home env) root m) cwd"
proof -
  let ?raws = "filter (\<lambda>p. same_path (normalize_effective_absolute_path env p) root) ws"
  have "m \<notin> set (protected_metadata_names_for_writable_root env pol root ?raws cwd)"
    using assms(2,3)
    by (auto simp: is_path_writable_def path_contains_protected_metadata_name_def path_strip_prefix_def path_starts_with_def
        writable_root_of_def Let_def split: if_splits)
  then obtain r where "r \<in> set (root # ?raws)" "can_write_path_with_cwd env pol (abs_join (env_home env) r m) cwd"
    using assms(1) by (auto simp: protected_metadata_names_for_writable_root_def)
  moreover have "r = root" if "r \<in> set ?raws" for r
    using that assms(5,6) by (auto simp: links_absent_path [OF assms(4)] normal_same_path)
  ultimately show ?thesis by auto
qed

lemma writable_root_metadata:
  assumes "env_ok env" "\<forall>c \<in> set (entries pol). plain_path (entry_path c)" "links_absent env" "kind pol = KindRestricted"
    and r: "r \<in> set (resolved_entries_with_cwd env pol cwd)" "resolved_access r = AccessWrite" "normal_absolute (resolved_path r)"
    and part: "\<not> has_full_disk_write_access pol" and ws: "\<forall>w \<in> set ws. normal_absolute w"
    and target: "normal_absolute target" "is_path_writable (writable_root_of env pol cwd ws (resolved_path r)) target"
    and inner: "\<forall>s \<in> set (resolved_entries_with_cwd env pol cwd). resolved_access s = AccessWrite \<longrightarrow>
      path_starts_with target (resolved_path s) \<longrightarrow> path_starts_with (resolved_path r) (resolved_path s)"
  shows "\<not> is_metadata_write_denied env pol target cwd"
proof (cases "metadata_child_of_writable_root env pol target cwd")
  case None
  then show ?thesis using resolve_candidate_self [OF target(1), of env cwd] by (simp add: is_metadata_write_denied_def)
next
  case (Some Pm)
  obtain P m where Pm: "Pm = (P, m)" by (cases Pm)
  then obtain s where s: "s \<in> set (resolved_entries_with_cwd env pol cwd)" "resolved_access s = AccessWrite"
      "metadata_child env target s = Some (P, m)"
    using Some unfolding metadata_child_of_writable_root_def by (auto simp: access_can_write_def dest!: first_some_SomeD)
  have s_normal: "normal_absolute (resolved_path s)" using resolved_entry_normal [OF assms(1,2) s(1)] .
  then obtain rest where m: "m \<in> set PROTECTED_METADATA_PATH_NAMES" "P = abs_join (env_home env) (resolved_path s) m"
      "components target = components (resolved_path s) @ Normal m # rest"
    using s(3) metadata_child_iff [OF target(1)] by blast
  have P: "components P = components (resolved_path s) @ [Normal m]" using metadata_child_path(2) [OF s_normal m(1)] m(2) by simp
  have below: "path_starts_with target (resolved_path r)"
    using target(2) by (auto simp: is_path_writable_def writable_root_of_def Let_def split: if_splits)
  have "path_starts_with target (resolved_path s)" using m(3) by (simp add: path_starts_with_def)
  then have above: "path_starts_with (resolved_path r) (resolved_path s)" using inner s(1,2) by blast
  have "has_explicit_write_entry_for_metadata_path env pol P target cwd"
  proof (cases "components (resolved_path r) = components (resolved_path s)")
    case True
    let ?M = "abs_join (env_home env) (resolved_path r) m"
    have writable: "can_write_path_with_cwd env pol ?M cwd"
      using unprotected_name_writable [OF m(1) _ target(2) assms(3) ws r(3)] m(3) True by simp
    have "metadata_child_of_writable_root env pol ?M cwd = Some (P, m)"
      using metadata_of_root_child [OF assms(1,2) target(1) r(3), of cwd P m] Some Pm P m(1,3) True by (simp add: prefix_def)
    then have "has_explicit_write_entry_for_metadata_path env pol P ?M cwd"
      using writable part assms(4) resolve_candidate_self [OF metadata_child_path(1) [OF r(3) m(1), of "env_home env"], of env cwd]
      by (auto simp: can_write_path_with_cwd_def is_metadata_write_denied_def split: if_splits)
    moreover have "path_starts_with target ?M"
      using metadata_child_path(2) [OF r(3) m(1)] m(3) True by (simp add: path_starts_with_def)
    ultimately show ?thesis by (auto simp: has_explicit_write_entry_for_metadata_path_def intro: starts_with_trans)
  next
    case False
    with above obtain c cs where cs: "components (resolved_path r) = components (resolved_path s) @ c # cs"
      by (auto simp: path_starts_with_def prefix_def neq_Nil_conv)
    with below m(3) have "c = Normal m" by (auto simp: path_starts_with_def prefix_def)
    with cs P have "path_starts_with (resolved_path r) P" by (simp add: path_starts_with_def)
    with r below show ?thesis by (auto simp: has_explicit_write_entry_for_metadata_path_def access_can_write_def)
  qed
  then show ?thesis using Some Pm resolve_candidate_self [OF target(1), of env cwd] by (simp add: is_metadata_write_denied_def)
qed

text \<open>
  C16: What a sandbox is told to allow is allowed: a path that the innermost writable root of a policy reports as writable,
  with its read-only subpaths and protected names, is one that the policy itself allows writing.
  Paths are compared as they are written: no symbolic links.
\<close>

theorem writable_roots_sound:
  assumes "env_ok env" "\<forall>c \<in> set (entries pol). plain_path (entry_path c)" "links_absent env"
    and "wr \<in> set (get_writable_roots_with_cwd env pol cwd)" "normal_absolute target" "is_path_writable wr target"
    and "\<forall>s \<in> set (resolved_entries_with_cwd env pol cwd). resolved_access s = AccessWrite \<longrightarrow>
           path_starts_with target (resolved_path s) \<longrightarrow> path_starts_with (wr_root wr) (resolved_path s)"
  shows "can_write_path_with_cwd env pol target cwd"
proof -
  from assms(1-4) obtain r where r: "r \<in> set (resolved_entries_with_cwd env pol cwd)" "resolved_access r = AccessWrite"
      "wr_root wr = resolved_path r" "can_write_path_with_cwd env pol (resolved_path r) cwd" "normal_absolute (resolved_path r)"
      "wr = writable_root_of env pol cwd (writable_entry_paths env pol cwd) (resolved_path r)" "\<not> has_full_disk_write_access pol"
    by (rule writable_root_source)
  have k: "kind pol = KindRestricted" using r(7) by (cases "kind pol") (simp_all add: has_full_disk_write_access_def)
  have ws: "\<forall>w \<in> set (writable_entry_paths env pol cwd). normal_absolute w"
    using resolved_entry_normal [OF assms(1,2)] by (auto simp: writable_entry_paths_def)
  note t = assms(5) assms(6) [unfolded r(6)]
  have "resolve_access_with_cwd env pol target cwd = AccessWrite"
    by (rule writable_root_access [OF assms(1-3) k r(1,2,4,5) t])
  moreover have "\<not> is_metadata_write_denied env pol target cwd"
    using writable_root_metadata [OF assms(1-3) k r(1,2,5,7) ws t] assms(7) r(3) by simp
  ultimately show ?thesis by (simp add: can_write_path_with_cwd_def access_can_write_def)
qed

lemma sample_disk_links: "links_absent sample_disk"
proof -
  have "symlink_info sample_disk p = None" for p by (simp add: sample_disk_def)
  moreover have "first_some (\<lambda>_. None :: rstr option) ps = None" for ps :: "rstr list" by (simp add: first_some_None_iff)
  ultimately show ?thesis unfolding links_absent_def normalize_effective_absolute_path_def by simp
qed

definition demo_policy :: sandbox_policy where
  "demo_policy = policy_restricted [entry (Special RootPath) AccessRead, entry (Special (ProjectRoots None)) AccessWrite,
     entry (Special (ProjectRoots (Some (lit ''s'')))) AccessRead]"

definition demo_root :: writable_root where
  "demo_root = \<lparr>wr_root = lit ''/w'', read_only_subpaths = [lit ''/w/.codex'', lit ''/w/s''],
     protected_metadata_names = PROTECTED_METADATA_PATH_NAMES\<rparr>"

theorem writable_roots_sound_witness:
  "is_path_writable demo_root (lit ''/w/a/b'') \<and> can_write_path_with_cwd sample_disk demo_policy (lit ''/w/a/b'') (lit ''/w'')"
proof -
  have roots: "get_writable_roots_with_cwd sample_disk demo_policy (lit ''/w'') = [demo_root]" by code_simp
  have plain: "\<forall>c \<in> set (entries demo_policy). plain_path (entry_path c)"
    by (simp add: demo_policy_def policy_restricted_def plain_path_def starts_with_def)
  have ok: "env_ok sample_disk" by code_simp
  have wr: "demo_root \<in> set (get_writable_roots_with_cwd sample_disk demo_policy (lit ''/w''))" unfolding roots by simp
  have t: "normal_absolute (lit ''/w/a/b'')" by (rule normal_absolute_names [of "[lit ''w'', lit ''a'', lit ''b'']"]; code_simp)
  have w: "is_path_writable demo_root (lit ''/w/a/b'')" by code_simp
  have inner: "\<forall>s \<in> set (resolved_entries_with_cwd sample_disk demo_policy (lit ''/w'')). resolved_access s = AccessWrite \<longrightarrow>
      path_starts_with (lit ''/w/a/b'') (resolved_path s) \<longrightarrow> path_starts_with (wr_root demo_root) (resolved_path s)" by code_simp
  from writable_roots_sound [OF ok plain sample_disk_links wr t w inner] w show ?thesis by blast
qed

text \<open>
  An outer writable root gives away the metadata of an inner one: with the writable roots \<open>/w\<close> and \<open>/w/x\<close>, the
  root \<open>/w\<close> reports \<open>/w/x/.git/c\<close> as writable, which the policy denies.
\<close>

theorem nested_root_metadata_exposed:
  "let pol = policy_restricted [entry (PathEntry (lit ''/w'')) AccessWrite, entry (PathEntry (lit ''/w/x'')) AccessWrite]
   in (\<exists>wr \<in> set (get_writable_roots_with_cwd sample_disk pol (lit ''/w'')). is_path_writable wr (lit ''/w/x/.git/c'')) \<and>
      \<not> can_write_path_with_cwd sample_disk pol (lit ''/w/x/.git/c'') (lit ''/w'')"
  unfolding Let_def by code_simp

section \<open>The read-deny matcher is complete\<close>

lemma build_matchers_fail_closed: "\<exists>r. build_matchers compile FailClosed pats ms bad = Inr r"
  by (induction pats arbitrary: ms bad) (auto split: sum.split)

lemma candidates_normalized:
  "env_absolute env path = Some p \<Longrightarrow> p \<in> set (normalized_and_canonical_candidates env path)"
  by (auto simp: normalized_and_canonical_candidates_def push_unique_def Let_def split: option.split)

lemma unreadable_root_mem:
  assumes "kind pol = KindRestricted" "env_ok env" "\<forall>c \<in> set (entries pol). plain_path (entry_path c)" "links_absent env"
    and r: "r \<in> set (resolved_entries_with_cwd env pol cwd)" "resolved_access r = AccessNone" "resolved_path r \<noteq> [slash]"
  shows "resolved_path r \<in> set (get_unreadable_roots_with_cwd env pol cwd)"
proof -
  let ?keep = "\<lambda>e. resolved_access e = AccessNone \<and> \<not> can_read_path_with_cwd env pol (resolved_path e) cwd \<and>
      (case map_option absolute_root_path_for_cwd (env_absolute env cwd) of Some r \<Rightarrow> \<not> same_path r (resolved_path e) | None \<Rightarrow> True)"
  let ?ps = "map resolved_path (filter ?keep (resolved_entries_with_cwd env pol cwd))"
  have normal: "normal_absolute (resolved_path e)" if "e \<in> set (resolved_entries_with_cwd env pol cwd)" for e
    using resolved_entry_normal [OF assms(2,3) that] .
  have "r \<in> set (covering env pol (resolved_path r) cwd)" using r(1) by (simp add: covering_def path_starts_with_def)
  then have "resolve_access_with_cwd env pol (resolved_path r) cwd = AccessNone"
    by (rule longest_denial_decides [OF assms(1) resolve_candidate_self [OF normal [OF r(1)]]])
       (auto simp: r(2) covering_def path_starts_with_def prefix_length_le)
  moreover have "\<not> same_path [slash] (resolved_path r)" using normal_same_path [OF slash_normal normal [OF r(1)]] r(3) by auto
  ultimately have mem: "resolved_path r \<in> set ?ps"
    using r by (auto simp: can_read_path_with_cwd_def access_can_read_def absolute_root_path_for_cwd_def split: option.split)
  have "map (normalize_effective_absolute_path env) ?ps = ?ps"
    using normal links_absent_path [OF assms(4)] by (intro map_idI) auto
  then have roots: "get_unreadable_roots_with_cwd env pol cwd = dedup_paths [] ?ps"
    using assms(1) unfolding get_unreadable_roots_with_cwd_def dedup_absolute_paths_def Let_def by (simp only: if_True if_False simp_thms)
  obtain q where q: "q \<in> set (dedup_paths [] ?ps)" "same_path (resolved_path r) q" using dedup_paths_covers [OF mem, of "[]"] by auto
  then have "normal_absolute q" using dedup_paths_subset [of "[]" ?ps] normal by auto
  with q normal_same_path [OF normal [OF r(1)]] have "q = resolved_path r" by auto
  with q(1) roots show ?thesis by simp
qed

text \<open>
  Building the matcher for denied reads never fails when it fails closed, and the matcher denies every path below an entry
  that denies reading, whatever the glob patterns are.
\<close>

lemma read_deny_matcher_complete:
  assumes "kind pol = KindRestricted" "env_ok env" "\<forall>c \<in> set (entries pol). plain_path (entry_path c)" "links_absent env"
    and "r \<in> set (resolved_entries_with_cwd env pol cwd)" "resolved_access r = AccessNone" "resolved_path r \<noteq> [slash]"
    and "env_absolute env path = Some target" "path_starts_with target (resolved_path r)"
  shows "\<exists>m. build_matcher env compile pol cwd FailClosed = Inr (Some m) \<and> is_read_denied env m path"
proof -
  let ?p = "resolved_path r"
  have "has_denied_read_restrictions pol"
    using assms(1,5,6) unfolding has_denied_read_restrictions_def set_resolved_entries by metis
  moreover obtain ms bad where "build_matchers compile FailClosed (get_unreadable_globs_with_cwd env pol cwd) [] False = Inr (ms, bad)"
    using build_matchers_fail_closed by (metis prod.collapse)
  ultimately obtain m where m: "build_matcher env compile pol cwd FailClosed = Inr (Some m)"
      "denied_candidates m = map (normalized_and_canonical_candidates env) (get_unreadable_roots_with_cwd env pol cwd)"
    by (simp add: build_matcher_def)
  have "env_absolute env ?p = Some ?p"
    using resolve_candidate_self [of ?p env cwd] resolved_entry_normal [OF assms(2,3,5)]
    by (simp add: resolve_candidate_path_def normal_absolute_is_absolute)
  then have "?p \<in> set (normalized_and_canonical_candidates env ?p)" by (rule candidates_normalized)
  moreover have "normalized_and_canonical_candidates env ?p \<in> set (denied_candidates m)"
    using unreadable_root_mem [OF assms(1-7)] m(2) by simp
  moreover have "target \<in> set (normalized_and_canonical_candidates env path)" using candidates_normalized assms(8) by blast
  ultimately have "is_read_denied env m path" using assms(9) unfolding is_read_denied_def Let_def by auto
  with m(1) show ?thesis by blast
qed

text \<open>
  The matcher is stricter than the policy it is built from: a readable directory inside a denied one, which the policy allows
  reading, is denied by the matcher.
\<close>

theorem read_deny_matcher_ignores_readable_subpath:
  "\<exists>m. build_matcher sample_disk (\<lambda>_. Inl [])
         (policy_restricted [entry (PathEntry (lit ''/w'')) AccessNone, entry (PathEntry (lit ''/w/a'')) AccessRead]) (lit ''/w'') FailClosed =
       Inr (Some m) \<and> is_read_denied sample_disk m (lit ''/w/a/x'') \<and>
     can_read_path_with_cwd sample_disk
       (policy_restricted [entry (PathEntry (lit ''/w'')) AccessNone, entry (PathEntry (lit ''/w/a'')) AccessRead]) (lit ''/w/a/x'') (lit ''/w'')"
proof -
  let ?pol = "policy_restricted [entry (PathEntry (lit ''/w'')) AccessNone, entry (PathEntry (lit ''/w/a'')) AccessRead]"
  let ?m = "\<lparr>denied_candidates = [[lit ''/w'']], deny_read_matchers = [], invalid_pattern = False\<rparr>"
  have globs: "get_unreadable_globs_with_cwd sample_disk ?pol (lit ''/w'') = []" by code_simp
  have roots: "map (normalized_and_canonical_candidates sample_disk) (get_unreadable_roots_with_cwd sample_disk ?pol (lit ''/w'')) =
      [[lit ''/w'']]" by code_simp
  have "has_denied_read_restrictions ?pol" by code_simp
  with globs roots have b: "build_matcher sample_disk (\<lambda>_. Inl []) ?pol (lit ''/w'') FailClosed = Inr (Some ?m)"
    by (simp only: build_matcher_def) simp
  have d: "is_read_denied sample_disk ?m (lit ''/w/a/x'')" by code_simp
  have c: "can_read_path_with_cwd sample_disk ?pol (lit ''/w/a/x'') (lit ''/w'')" by code_simp
  from b d c show ?thesis by blast
qed

end
