(* ===== verification/Permission_Profile.thy ===== *)
theory Permission_Profile
  imports Sandbox_Roots
begin

text \<open>
  Permission profiles (\<open>protocol/src/models.rs\<close>): who enforces the file system permissions of a session, the
  overlay that a single command may ask for, and the conversions between profiles, runtime
  policies and legacy modes.
\<close>

section \<open>Data\<close>

datatype sandbox_permissions = UseDefault | RequireEscalated | WithAdditionalPermissions

definition requires_escalated_permissions :: "sandbox_permissions \<Rightarrow> bool" where
  "requires_escalated_permissions p \<longleftrightarrow> p = RequireEscalated"

definition requests_sandbox_override :: "sandbox_permissions \<Rightarrow> bool" where
  "requests_sandbox_override p \<longleftrightarrow> p \<noteq> UseDefault"

definition uses_additional_permissions :: "sandbox_permissions \<Rightarrow> bool" where
  "uses_additional_permissions p \<longleftrightarrow> p = WithAdditionalPermissions"

text \<open>A \<open>NonZeroUsize\<close> is a natural number; \<open>nonzero\<close> is \<open>NonZeroUsize::new\<close>.\<close>

definition nonzero :: "nat \<Rightarrow> nat option" where
  "nonzero d = (if d = 0 then None else Some d)"

record file_system_permissions =
  perm_entries :: "sandbox_entry list"
  perm_glob_scan_max_depth :: "nat option"

definition permissions_empty :: "file_system_permissions \<Rightarrow> bool" where
  "permissions_empty p \<longleftrightarrow> perm_entries p = []"

type_synonym network_permissions = "bool option"

record additional_permission_profile =
  add_network :: "network_permissions option"
  add_file_system :: "file_system_permissions option"

definition additional_empty :: "additional_permission_profile \<Rightarrow> bool" where
  "additional_empty p \<longleftrightarrow> add_network p = None \<and> add_file_system p = None"

datatype sandbox_enforcement = EnforceManaged | EnforceDisabled | EnforceExternal

definition enforcement_of_legacy :: "legacy_policy \<Rightarrow> sandbox_enforcement" where
  "enforcement_of_legacy p =
     (case p of DangerFullAccess \<Rightarrow> EnforceDisabled | ExternalSandbox _ \<Rightarrow> EnforceExternal | _ \<Rightarrow> EnforceManaged)"

datatype managed_permissions = ManagedRestricted "sandbox_entry list" "nat option" | ManagedUnrestricted

datatype permission_profile =
    Managed managed_permissions network_sandbox_policy
  | Disabled
  | External network_sandbox_policy

section \<open>Read and write roots\<close>

definition from_read_write_roots :: "rstr list option \<Rightarrow> rstr list option \<Rightarrow> file_system_permissions" where
  "from_read_write_roots rd wr =
     \<lparr>perm_entries =
        (case rd of Some ps \<Rightarrow> map (\<lambda>p. entry (PathEntry p) AccessRead) ps | None \<Rightarrow> []) @
        (case wr of Some ps \<Rightarrow> map (\<lambda>p. entry (PathEntry p) AccessWrite) ps | None \<Rightarrow> []),
      perm_glob_scan_max_depth = None\<rparr>"

definition explicit_path_entries :: "file_system_permissions \<Rightarrow> (rstr \<times> access_mode) list" where
  "explicit_path_entries p =
     List.map_filter (\<lambda>e. case entry_path e of PathEntry path \<Rightarrow> Some (path, entry_access e) | _ \<Rightarrow> None) (perm_entries p)"

fun split_roots :: "sandbox_entry list \<Rightarrow> rstr list \<Rightarrow> rstr list \<Rightarrow> (rstr list \<times> rstr list) option" where
  "split_roots [] rd wr = Some (rd, wr)"
| "split_roots (e # es) rd wr =
     (case entry_path e of
        PathEntry path \<Rightarrow>
          (case entry_access e of
             AccessRead \<Rightarrow> split_roots es (rd @ [path]) wr
           | AccessWrite \<Rightarrow> split_roots es rd (wr @ [path])
           | AccessNone \<Rightarrow> None)
      | _ \<Rightarrow> None)"

definition as_legacy_permissions :: "file_system_permissions \<Rightarrow> (rstr list option \<times> rstr list option) option" where
  "as_legacy_permissions p =
     (if perm_glob_scan_max_depth p \<noteq> None then None
      else map_option (\<lambda>(rd, wr). (if rd = [] then None else Some rd, if wr = [] then None else Some wr))
             (split_roots (perm_entries p) [] []))"

text \<open>The serialised form is one of two shapes; \<open>to_serialized\<close> and \<open>of_serialized\<close> choose and read it.\<close>

datatype serialized_permissions =
    CanonicalShape "sandbox_entry list" "nat option"
  | LegacyShape "rstr list option" "rstr list option"

definition to_serialized :: "file_system_permissions \<Rightarrow> serialized_permissions" where
  "to_serialized p =
     (case as_legacy_permissions p of
        Some (rd, wr) \<Rightarrow> LegacyShape rd wr
      | None \<Rightarrow> CanonicalShape (perm_entries p) (perm_glob_scan_max_depth p))"

definition of_serialized :: "serialized_permissions \<Rightarrow> file_system_permissions" where
  "of_serialized s =
     (case s of
        CanonicalShape es d \<Rightarrow> \<lparr>perm_entries = es, perm_glob_scan_max_depth = d\<rparr>
      | LegacyShape rd wr \<Rightarrow> from_read_write_roots rd wr)"

section \<open>Profiles and policies\<close>

text \<open>\<open>None\<close> is the \<open>unreachable!\<close> arm, a panic.\<close>

definition managed_from_sandbox_policy :: "sandbox_policy \<Rightarrow> managed_permissions option" where
  "managed_from_sandbox_policy pol =
     (case kind pol of
        KindRestricted \<Rightarrow> Some (ManagedRestricted (entries pol) (Option.bind (glob_scan_max_depth pol) nonzero))
      | KindUnrestricted \<Rightarrow> Some ManagedUnrestricted
      | KindExternalSandbox \<Rightarrow> None)"

definition managed_to_sandbox_policy :: "managed_permissions \<Rightarrow> sandbox_policy" where
  "managed_to_sandbox_policy m =
     (case m of
        ManagedRestricted es d \<Rightarrow> \<lparr>kind = KindRestricted, glob_scan_max_depth = d, entries = es\<rparr>
      | ManagedUnrestricted \<Rightarrow> policy_unrestricted)"

definition profile_default :: permission_profile where
  "profile_default = Managed (ManagedRestricted [] None) NetRestricted"

definition profile_read_only :: permission_profile where
  "profile_read_only = Managed (ManagedRestricted [entry (Special RootPath) AccessRead] None) NetRestricted"

definition profile_workspace_write_with ::
    "('z) disk_env_scheme \<Rightarrow> rstr list \<Rightarrow> network_sandbox_policy \<Rightarrow> bool \<Rightarrow> bool \<Rightarrow> permission_profile option" where
  "profile_workspace_write_with env roots network no_tmpdir no_tmp =
     map_option (\<lambda>m. Managed m network) (managed_from_sandbox_policy (workspace_write env roots no_tmpdir no_tmp))"

definition profile_workspace_write :: "('z) disk_env_scheme \<Rightarrow> permission_profile option" where
  "profile_workspace_write env = profile_workspace_write_with env [] NetRestricted False False"

definition profile_materialize_workspace_roots ::
    "('z) disk_env_scheme \<Rightarrow> permission_profile \<Rightarrow> rstr list \<Rightarrow> permission_profile option" where
  "profile_materialize_workspace_roots env p roots =
     (case p of
        Managed m network \<Rightarrow>
          map_option (\<lambda>m. Managed m network)
            (managed_from_sandbox_policy (materialize_project_roots_with_workspace_roots env (managed_to_sandbox_policy m) roots))
      | Disabled \<Rightarrow> Some Disabled
      | External network \<Rightarrow> Some (External network))"

definition from_runtime_permissions_with_enforcement ::
    "sandbox_enforcement \<Rightarrow> sandbox_policy \<Rightarrow> network_sandbox_policy \<Rightarrow> permission_profile option" where
  "from_runtime_permissions_with_enforcement enf pol network =
     (case kind pol of
        KindExternalSandbox \<Rightarrow> Some (External network)
      | k \<Rightarrow>
          if k = KindUnrestricted \<and> enf = EnforceDisabled then Some Disabled
          else map_option (\<lambda>m. Managed m network) (managed_from_sandbox_policy pol))"

definition from_runtime_permissions :: "sandbox_policy \<Rightarrow> network_sandbox_policy \<Rightarrow> permission_profile option" where
  "from_runtime_permissions pol network =
     from_runtime_permissions_with_enforcement
       (case kind pol of KindExternalSandbox \<Rightarrow> EnforceExternal | _ \<Rightarrow> EnforceManaged) pol network"

definition profile_from_legacy :: "('z) disk_env_scheme \<Rightarrow> legacy_policy \<Rightarrow> permission_profile option" where
  "profile_from_legacy env p =
     from_runtime_permissions_with_enforcement (enforcement_of_legacy p) (policy_of_legacy env p) (network_policy_of_legacy p)"

definition profile_from_legacy_for_cwd :: "('z) disk_env_scheme \<Rightarrow> legacy_policy \<Rightarrow> rstr \<Rightarrow> permission_profile option" where
  "profile_from_legacy_for_cwd env p cwd =
     from_runtime_permissions_with_enforcement (enforcement_of_legacy p) (from_legacy_sandbox_policy_for_cwd env p cwd)
       (network_policy_of_legacy p)"

definition enforcement :: "permission_profile \<Rightarrow> sandbox_enforcement" where
  "enforcement p = (case p of Managed _ _ \<Rightarrow> EnforceManaged | Disabled \<Rightarrow> EnforceDisabled | External _ \<Rightarrow> EnforceExternal)"

definition file_system_sandbox_policy :: "permission_profile \<Rightarrow> sandbox_policy" where
  "file_system_sandbox_policy p =
     (case p of
        Managed m _ \<Rightarrow> managed_to_sandbox_policy m
      | Disabled \<Rightarrow> policy_unrestricted
      | External _ \<Rightarrow> policy_external)"

definition profile_network_policy :: "permission_profile \<Rightarrow> network_sandbox_policy" where
  "profile_network_policy p = (case p of Managed _ n \<Rightarrow> n | External n \<Rightarrow> n | Disabled \<Rightarrow> NetEnabled)"

definition profile_to_legacy :: "('z) disk_env_scheme \<Rightarrow> permission_profile \<Rightarrow> rstr \<Rightarrow> (rstr, legacy_policy) result" where
  "profile_to_legacy env p cwd =
     (case p of
        Managed m network \<Rightarrow> to_legacy_sandbox_policy env (managed_to_sandbox_policy m) network cwd
      | Disabled \<Rightarrow> Inr DangerFullAccess
      | External network \<Rightarrow> Inr (ExternalSandbox (if net_enabled network then NetAccessEnabled else NetAccessRestricted)))"

definition to_runtime_permissions :: "permission_profile \<Rightarrow> sandbox_policy \<times> network_sandbox_policy" where
  "to_runtime_permissions p = (file_system_sandbox_policy p, profile_network_policy p)"

subsection \<open>Untagged profiles of older files\<close>

definition permissions_of_policy :: "sandbox_policy \<Rightarrow> file_system_permissions" where
  "permissions_of_policy pol =
     \<lparr>perm_entries = (case kind pol of KindRestricted \<Rightarrow> entries pol | _ \<Rightarrow> [entry (Special RootPath) AccessWrite]),
      perm_glob_scan_max_depth = Option.bind (glob_scan_max_depth pol) nonzero\<rparr>"

definition policy_of_permissions :: "file_system_permissions \<Rightarrow> sandbox_policy" where
  "policy_of_permissions p = (policy_restricted (perm_entries p))\<lparr>glob_scan_max_depth := perm_glob_scan_max_depth p\<rparr>"

definition profile_of_untagged :: "additional_permission_profile \<Rightarrow> permission_profile option" where
  "profile_of_untagged v =
     from_runtime_permissions
       (case add_file_system v of None \<Rightarrow> policy_restricted [] | Some p \<Rightarrow> policy_of_permissions p)
       (if Option.bind (add_network v) id = Some True then NetEnabled else NetRestricted)"

section \<open>Properties\<close>

fun profile_wf :: "permission_profile \<Rightarrow> bool" where
  "profile_wf (Managed (ManagedRestricted _ d) _) \<longleftrightarrow> d \<noteq> Some 0"
| "profile_wf _ \<longleftrightarrow> True"

lemma nonzero_bind: "d \<noteq> Some 0 \<Longrightarrow> Option.bind d nonzero = d"
  by (cases d) (simp_all add: nonzero_def)

lemma no_panic: "\<exists>p. from_runtime_permissions_with_enforcement enf pol network = Some p \<and> profile_wf p"
  by (cases "kind pol"; cases "glob_scan_max_depth pol")
     (auto simp: from_runtime_permissions_with_enforcement_def managed_from_sandbox_policy_def nonzero_def)

text \<open>
  A profile is determined by its enforcement and its runtime policies: rebuilding it from them gives it back, without
  reaching the panicking arm. A profile built from a legacy mode converts back to the mode that the file system
  policy alone gives.
\<close>

theorem profile_runtime_roundtrip:
  assumes "profile_wf p"
  shows "from_runtime_permissions_with_enforcement (enforcement p) (fst (to_runtime_permissions p)) (snd (to_runtime_permissions p)) = Some p \<and>
         (\<exists>q. profile_from_legacy env l = Some q \<and> profile_wf q \<and>
            profile_to_legacy env q cwd = to_legacy_sandbox_policy env (policy_of_legacy env l) (network_policy_of_legacy l) cwd)"
proof
  show "from_runtime_permissions_with_enforcement (enforcement p) (fst (to_runtime_permissions p)) (snd (to_runtime_permissions p)) = Some p"
    using assms
    by (cases p rule: profile_wf.cases)
       (auto simp: from_runtime_permissions_with_enforcement_def enforcement_def to_runtime_permissions_def file_system_sandbox_policy_def
         profile_network_policy_def managed_from_sandbox_policy_def managed_to_sandbox_policy_def policy_unrestricted_def policy_external_def
         nonzero_bind)
  show "\<exists>q. profile_from_legacy env l = Some q \<and> profile_wf q \<and>
      profile_to_legacy env q cwd = to_legacy_sandbox_policy env (policy_of_legacy env l) (network_policy_of_legacy l) cwd"
    by (cases l)
       (auto simp: profile_from_legacy_def from_runtime_permissions_with_enforcement_def enforcement_of_legacy_def policy_of_legacy_def
         network_policy_of_legacy_def has_full_network_access_def profile_to_legacy_def to_legacy_sandbox_policy_def policy_unrestricted_def
         policy_external_def policy_restricted_def workspace_write_def managed_from_sandbox_policy_def managed_to_sandbox_policy_def net_enabled_def)
qed

theorem profile_runtime_roundtrip_witness:
  "from_runtime_permissions_with_enforcement (enforcement profile_read_only) (fst (to_runtime_permissions profile_read_only))
     (snd (to_runtime_permissions profile_read_only)) = Some profile_read_only"
proof -
  have "profile_wf profile_read_only" by (simp add: profile_read_only_def)
  from profile_runtime_roundtrip [OF this] show ?thesis by blast
qed

lemma split_roots_entries:
  "split_roots es rd wr = Some (rd', wr') \<Longrightarrow>
     \<exists>r w. rd' = rd @ r \<and> wr' = wr @ w \<and>
       set es = set (map (\<lambda>p. entry (PathEntry p) AccessRead) r @ map (\<lambda>p. entry (PathEntry p) AccessWrite) w)"
proof (induction es rd wr rule: split_roots.induct)
  case (2 e es rd wr)
  obtain path where path: "entry_path e = PathEntry path" using "2.prems" by (cases "entry_path e") simp_all
  show ?case
  proof (cases "entry_access e")
    case AccessRead
    then have e: "e = entry (PathEntry path) AccessRead" using path by simp
    obtain r w where "rd' = rd @ [path] @ r" "wr' = wr @ w"
        "set es = set (map (\<lambda>p. entry (PathEntry p) AccessRead) r @ map (\<lambda>p. entry (PathEntry p) AccessWrite) w)"
      using "2.IH"(1) [OF path AccessRead] "2.prems" path AccessRead by auto
    with e show ?thesis by (intro exI [of _ "path # r"] exI [of _ w]) simp
  next
    case AccessWrite
    then have e: "e = entry (PathEntry path) AccessWrite" using path by simp
    obtain r w where "rd' = rd @ r" "wr' = wr @ [path] @ w"
        "set es = set (map (\<lambda>p. entry (PathEntry p) AccessRead) r @ map (\<lambda>p. entry (PathEntry p) AccessWrite) w)"
      using "2.IH"(2) [OF path AccessWrite] "2.prems" path AccessWrite by auto
    with e show ?thesis by (intro exI [of _ r] exI [of _ "path # w"]) auto
  qed (use "2.prems" path in simp)
qed simp

text \<open>Writing permissions to a file and reading them back may reorder the entries but keeps their set.\<close>

lemma serialized_roundtrip:
  "set (perm_entries (of_serialized (to_serialized p))) = set (perm_entries p) \<and>
   perm_glob_scan_max_depth (of_serialized (to_serialized p)) = perm_glob_scan_max_depth p"
proof (cases "as_legacy_permissions p")
  case None
  then show ?thesis by (simp add: to_serialized_def of_serialized_def)
next
  case (Some l)
  then obtain rd wr where s: "split_roots (perm_entries p) [] [] = Some (rd, wr)" "perm_glob_scan_max_depth p = None"
      "l = (if rd = [] then None else Some rd, if wr = [] then None else Some wr)"
    by (auto simp: as_legacy_permissions_def split: if_splits)
  from split_roots_entries [OF s(1)] have
    "set (perm_entries p) = set (map (\<lambda>p. entry (PathEntry p) AccessRead) rd @ map (\<lambda>p. entry (PathEntry p) AccessWrite) wr)" by auto
  with Some s(2,3) show ?thesis by (simp add: to_serialized_def of_serialized_def from_read_write_roots_def)
qed

end
