(* ===== verification/Permission_Transforms.thy ===== *)
theory Permission_Transforms
  imports Permission_Profile
begin

text \<open>
  Combining permissions (\<open>sandboxing/src/policy_transforms.rs\<close>): what a command asks for in addition is normalised,
  merged with earlier grants, intersected with what the user granted, and laid over the
  session's profile.
\<close>

section \<open>Normalising and merging\<close>

definition normalize_permission_path :: "('z) disk_env_scheme \<Rightarrow> fs_path \<Rightarrow> fs_path" where
  "normalize_permission_path env p =
     (case p of
        PathEntry path \<Rightarrow>
          PathEntry (case Option.bind (canonicalize_preserving_symlinks env path) (env_absolute env) of
                       Some q \<Rightarrow> q | None \<Rightarrow> path)
      | _ \<Rightarrow> p)"

fun normalize_permission_entries ::
    "('z) disk_env_scheme \<Rightarrow> sandbox_entry list \<Rightarrow> sandbox_entry list \<Rightarrow> (rstr, sandbox_entry list) result" where
  "normalize_permission_entries env [] acc = Inr acc"
| "normalize_permission_entries env (e # es) acc =
     (if (case entry_path e of GlobPattern _ \<Rightarrow> entry_access e \<noteq> AccessNone | _ \<Rightarrow> False)
      then Inl (lit ''glob file system permissions only support deny-read entries'')
      else normalize_permission_entries env es
             (push_entry_once (entry (normalize_permission_path env (entry_path e)) (entry_access e)) acc))"

definition normalize_additional_permissions ::
    "('z) disk_env_scheme \<Rightarrow> additional_permission_profile \<Rightarrow> (rstr, additional_permission_profile) result" where
  "normalize_additional_permissions env p =
     (let network = (case add_network p of Some (Some b) \<Rightarrow> Some (Some b) | _ \<Rightarrow> None)
      in case add_file_system p of
           None \<Rightarrow> Inr \<lparr>add_network = network, add_file_system = None\<rparr>
         | Some fsp \<Rightarrow>
             rbind (normalize_permission_entries env (perm_entries fsp) []) (\<lambda>es.
               Inr \<lparr>add_network = network,
                    add_file_system = (if es = [] then None
                      else Some \<lparr>perm_entries = es, perm_glob_scan_max_depth = perm_glob_scan_max_depth fsp\<rparr>)\<rparr>))"

datatype glob_scan_depth = Bounded nat | Unbounded

definition effective_glob_scan_depth :: "sandbox_entry list \<Rightarrow> nat option \<Rightarrow> glob_scan_depth option" where
  "effective_glob_scan_depth es depth =
     (if \<exists>e \<in> set es. entry_access e = AccessNone \<and> (case entry_path e of GlobPattern _ \<Rightarrow> True | _ \<Rightarrow> False)
      then Some (case depth of Some d \<Rightarrow> Bounded d | None \<Rightarrow> Unbounded)
      else None)"

definition merge_glob_scan_max_depth ::
    "sandbox_entry list \<Rightarrow> nat option \<Rightarrow> sandbox_entry list \<Rightarrow> nat option \<Rightarrow> nat option" where
  "merge_glob_scan_max_depth les ld res rd =
     (case (effective_glob_scan_depth les ld, effective_glob_scan_depth res rd) of
        (Some Unbounded, _) \<Rightarrow> None
      | (_, Some Unbounded) \<Rightarrow> None
      | (Some (Bounded l), Some (Bounded r)) \<Rightarrow> Some (max l r)
      | (Some (Bounded d), None) \<Rightarrow> Some d
      | (None, Some (Bounded d)) \<Rightarrow> Some d
      | (None, None) \<Rightarrow> None)"

definition merge_permission_entries :: "sandbox_entry list \<Rightarrow> sandbox_entry list \<Rightarrow> sandbox_entry list" where
  "merge_permission_entries base es = fold push_entry_once (base @ es) []"

definition filter_option :: "('a \<Rightarrow> bool) \<Rightarrow> 'a option \<Rightarrow> 'a option" where
  "filter_option P x = (case x of Some a \<Rightarrow> if P a then Some a else None | None \<Rightarrow> None)"

definition merge_permission_profiles ::
    "additional_permission_profile option \<Rightarrow> additional_permission_profile option \<Rightarrow> additional_permission_profile option" where
  "merge_permission_profiles base permissions =
     (case permissions of
        None \<Rightarrow> base
      | Some p \<Rightarrow>
          (case base of
             None \<Rightarrow> filter_option (\<lambda>p. \<not> additional_empty p) (Some p)
           | Some b \<Rightarrow>
               filter_option (\<lambda>p. \<not> additional_empty p)
                 (Some \<lparr>add_network =
                    (if add_network b = Some (Some True) \<or> add_network p = Some (Some True) then Some (Some True) else None),
                  add_file_system =
                    (case (add_file_system b, add_file_system p) of
                       (Some fb, Some fp) \<Rightarrow>
                         filter_option (\<lambda>f. \<not> permissions_empty f)
                           (Some \<lparr>perm_entries = merge_permission_entries (perm_entries fb) (perm_entries fp),
                                  perm_glob_scan_max_depth =
                                    Option.bind (merge_glob_scan_max_depth (perm_entries fb) (perm_glob_scan_max_depth fb)
                                      (perm_entries fp) (perm_glob_scan_max_depth fp)) nonzero\<rparr>)
                     | (Some fb, None) \<Rightarrow> Some fb
                     | (None, Some fp) \<Rightarrow> Some fp
                     | (None, None) \<Rightarrow> None)\<rparr>)))"

section \<open>Intersecting a grant with a request\<close>

definition resolve_permission_path :: "('z) disk_env_scheme \<Rightarrow> fs_path \<Rightarrow> rstr \<Rightarrow> rstr option" where
  "resolve_permission_path env p cwd =
     (case p of
        PathEntry path \<Rightarrow> Some path
      | GlobPattern _ \<Rightarrow> None
      | Special RootPath \<Rightarrow> env_absolute env (last (path_ancestors cwd))
      | Special (ProjectRoots subpath) \<Rightarrow>
          Option.bind (env_absolute env cwd) (\<lambda>cwd.
            Some (case subpath of Some sub \<Rightarrow> resolve_path_against_base (env_home env) sub cwd | None \<Rightarrow> cwd))
      | Special Tmpdir \<Rightarrow> Option.bind (env_tmpdir env) (\<lambda>t. if t = [] then None else env_absolute env t)
      | Special SlashTmp \<Rightarrow> if slash_tmp_is_dir env then Some (lit ''/tmp'') else None
      | Special MinimalPath \<Rightarrow> None
      | Special (UnknownPath _ _) \<Rightarrow> None)"

definition materialize_cwd_dependent_entry :: "('z) disk_env_scheme \<Rightarrow> sandbox_entry \<Rightarrow> rstr \<Rightarrow> sandbox_entry" where
  "materialize_cwd_dependent_entry env e cwd =
     (case entry_path e of
        Special (ProjectRoots _) \<Rightarrow>
          (case resolve_permission_path env (entry_path e) cwd of
             Some path \<Rightarrow> entry (PathEntry path) (entry_access e) | None \<Rightarrow> e)
      | GlobPattern pat \<Rightarrow> entry (GlobPattern (resolve_path_against_base (env_home env) pat cwd)) (entry_access e)
      | _ \<Rightarrow> e)"

definition access_covers :: "access_mode \<Rightarrow> access_mode \<Rightarrow> bool" where
  "access_covers requested granted =
     (case granted of
        AccessRead \<Rightarrow> access_can_read requested
      | AccessWrite \<Rightarrow> access_can_write requested
      | AccessNone \<Rightarrow> False)"

definition paths_overlap :: "rstr \<Rightarrow> rstr \<Rightarrow> bool" where
  "paths_overlap l r \<longleftrightarrow> path_starts_with l r \<or> path_starts_with r l"

definition glob_special :: "rchar \<Rightarrow> bool" where
  "glob_special c \<longleftrightarrow> c \<in> {42, 63, 91, 93}"

definition glob_static_prefix_path :: "('z) disk_env_scheme \<Rightarrow> rstr \<Rightarrow> rstr \<Rightarrow> rstr option" where
  "glob_static_prefix_path env pat cwd =
     (let resolved = resolve_path_against_base (env_home env) pat cwd;
          front = takeWhile (\<lambda>c. \<not> glob_special c) resolved;
          static =
            (if front = resolved then Some resolved
             else if front = [] then None
             else if ends_with front [slash] \<or> ends_with front [92] then Some front
             else path_parent front)
      in Option.bind static (env_absolute env))"

definition read_deny_matcher_new :: "('z) disk_env_scheme \<Rightarrow> glob_compiler \<Rightarrow> sandbox_policy \<Rightarrow> rstr \<Rightarrow> read_deny_matcher option" where
  "read_deny_matcher_new env compile pol cwd =
     (case build_matcher env compile pol cwd FailClosed of Inr m \<Rightarrow> m | Inl _ \<Rightarrow> None)"

definition granted_file_system_entry_within_request ::
    "('z) disk_env_scheme \<Rightarrow> file_system_permissions \<Rightarrow> sandbox_policy \<Rightarrow> read_deny_matcher option \<Rightarrow> sandbox_entry \<Rightarrow> rstr \<Rightarrow> bool" where
  "granted_file_system_entry_within_request env requested requested_policy matcher granted cwd =
     (if \<not> access_can_read (entry_access granted) then False
      else case resolve_permission_path env (entry_path granted) cwd of
             Some path \<Rightarrow>
               if (case matcher of Some m \<Rightarrow> is_read_denied env m path | None \<Rightarrow> False) then False
               else access_covers (resolve_access_with_cwd env requested_policy path cwd) (entry_access granted)
           | None \<Rightarrow>
               (\<exists>r \<in> set (perm_entries requested). access_covers (entry_access r) (entry_access granted) \<and>
                  fs_path_eq (entry_path r) (entry_path granted)))"

definition deny_entry_constrains_accepted_grant :: "('z) disk_env_scheme \<Rightarrow> sandbox_entry \<Rightarrow> sandbox_entry list \<Rightarrow> rstr \<Rightarrow> bool" where
  "deny_entry_constrains_accepted_grant env deny accepted cwd \<longleftrightarrow>
     (\<exists>e \<in> set accepted. access_can_read (entry_access e) \<and>
        (case resolve_permission_path env (entry_path e) cwd of
           None \<Rightarrow> False
         | Some grant_path \<Rightarrow>
             (case (case entry_path deny of
                      GlobPattern pat \<Rightarrow> glob_static_prefix_path env pat cwd
                    | p \<Rightarrow> resolve_permission_path env p cwd) of
                Some deny_path \<Rightarrow> paths_overlap deny_path grant_path
              | None \<Rightarrow> False)))"

text \<open>The entries retained, materialised, and the output to which the new ones are appended.\<close>

definition retain_constraining_deny_entries ::
    "('z) disk_env_scheme \<Rightarrow> sandbox_entry list \<Rightarrow> sandbox_entry list \<Rightarrow> rstr \<Rightarrow> sandbox_entry list \<Rightarrow> sandbox_entry list \<times> sandbox_entry list" where
  "retain_constraining_deny_entries env source accepted cwd out =
     (let retained = map (\<lambda>e. materialize_cwd_dependent_entry env e cwd)
            (filter (\<lambda>e. entry_access e = AccessNone \<and> deny_entry_constrains_accepted_grant env e accepted cwd) source)
      in (retained, fold push_entry_once retained out))"

definition intersect_file_system ::
    "('z) disk_env_scheme \<Rightarrow> glob_compiler \<Rightarrow> file_system_permissions \<Rightarrow> file_system_permissions \<Rightarrow> rstr \<Rightarrow> file_system_permissions" where
  "intersect_file_system env compile requested granted cwd =
     (let requested_policy = policy_restricted (perm_entries requested);
          matcher = read_deny_matcher_new env compile requested_policy cwd;
          accepted = fold push_entry_once
            (map (\<lambda>e. materialize_cwd_dependent_entry env e cwd)
              (filter (\<lambda>e. granted_file_system_entry_within_request env requested requested_policy matcher e cwd) (perm_entries granted))) [];
          (requested_denies, out) = retain_constraining_deny_entries env (perm_entries requested) accepted cwd accepted;
          (granted_denies, out') = retain_constraining_deny_entries env (perm_entries granted) accepted cwd out
      in \<lparr>perm_entries = out',
          perm_glob_scan_max_depth =
            Option.bind (merge_glob_scan_max_depth requested_denies (perm_glob_scan_max_depth requested)
              granted_denies (perm_glob_scan_max_depth granted)) nonzero\<rparr>)"

definition intersect_permission_profiles ::
    "('z) disk_env_scheme \<Rightarrow> glob_compiler \<Rightarrow> additional_permission_profile \<Rightarrow> additional_permission_profile \<Rightarrow> rstr \<Rightarrow> additional_permission_profile" where
  "intersect_permission_profiles env compile requested granted cwd =
     \<lparr>add_network =
        (if add_network requested = Some (Some True) \<and> add_network granted = Some (Some True) then Some (Some True) else None),
      add_file_system =
        filter_option (\<lambda>f. \<not> permissions_empty f)
          (map_option (\<lambda>req. intersect_file_system env compile req
             (case add_file_system granted of Some g \<Rightarrow> g | None \<Rightarrow> \<lparr>perm_entries = [], perm_glob_scan_max_depth = None\<rparr>) cwd)
            (add_file_system requested))\<rparr>"

section \<open>Effective permissions\<close>

definition merge_file_system_policy_with_additional_permissions :: "sandbox_policy \<Rightarrow> file_system_permissions \<Rightarrow> sandbox_policy" where
  "merge_file_system_policy_with_additional_permissions pol p =
     (if kind pol = KindRestricted
      then pol\<lparr>entries := fold push_entry_once (perm_entries p) (entries pol),
               glob_scan_max_depth := merge_glob_scan_max_depth (entries pol) (glob_scan_max_depth pol)
                 (perm_entries p) (perm_glob_scan_max_depth p)\<rparr>
      else pol)"

definition effective_file_system_sandbox_policy :: "sandbox_policy \<Rightarrow> additional_permission_profile option \<Rightarrow> sandbox_policy" where
  "effective_file_system_sandbox_policy pol add =
     (case Option.bind add add_file_system of
        None \<Rightarrow> pol
      | Some p \<Rightarrow> if permissions_empty p then pol else merge_file_system_policy_with_additional_permissions pol p)"

definition merge_network_access :: "bool \<Rightarrow> additional_permission_profile \<Rightarrow> bool" where
  "merge_network_access base add \<longleftrightarrow> base \<or> Option.bind (add_network add) id = Some True"

definition effective_network_sandbox_policy :: "network_sandbox_policy \<Rightarrow> additional_permission_profile option \<Rightarrow> network_sandbox_policy" where
  "effective_network_sandbox_policy network add =
     (case add of
        Some p \<Rightarrow> if merge_network_access (net_enabled network) p then NetEnabled else NetRestricted
      | None \<Rightarrow> network)"

definition effective_permission_profile :: "permission_profile \<Rightarrow> additional_permission_profile option \<Rightarrow> permission_profile option" where
  "effective_permission_profile p add =
     (let (pol, network) = to_runtime_permissions p
      in from_runtime_permissions_with_enforcement (enforcement p)
           (effective_file_system_sandbox_policy pol add) (effective_network_sandbox_policy network add))"

definition should_require_platform_sandbox :: "sandbox_policy \<Rightarrow> network_sandbox_policy \<Rightarrow> bool \<Rightarrow> bool" where
  "should_require_platform_sandbox pol network managed =
     (if managed then True
      else if \<not> net_enabled network then kind pol \<noteq> KindExternalSandbox
      else kind pol = KindRestricted \<and> \<not> has_full_disk_write_access pol)"

section \<open>A grant does not exceed its request\<close>

lemma last_ancestor_absolute:
  assumes "is_absolute p"
  shows "env_absolute env (last (path_ancestors p)) = Some [slash]"
proof -
  obtain cs where cs: "components p = RootDir # cs" using assms by (rule components_absolute)
  have root: "render [RootDir] = [slash]" by (simp add: render_def path_join_def is_absolute_def starts_with_def)
  have norm: "env_absolute env q = Some [slash]" if "components q = [RootDir]" "is_absolute q" for q
    using that root by (simp add: env_absolute_def from_absolute_path_def expand_absolute normalize_path_def normalize_components_def)
  show ?thesis
  proof (cases cs)
    case Nil
    then have "path_ancestors p = [p]" using cs assms by (simp add: path_ancestors_def)
    with norm [of p] cs Nil assms show ?thesis by simp
  next
    case (Cons c cs')
    have "last (path_ancestors p) = render (take 1 (components p))"
      using assms cs Cons by (simp add: path_ancestors_def last_map last_rev hd_upt del: upt_Suc)
    with cs root norm [of "[slash]"] components_slash show ?thesis by simp
  qed
qed

lemma resolve_permission_path_eq:
  assumes "is_absolute cwd" "env_absolute env cwd = Some root"
  shows "resolve_permission_path env p cwd = resolve_entry_path env p (env_absolute env cwd)"
  using last_ancestor_absolute [OF assms(1), of env] assms(2)
  by (auto simp: resolve_permission_path_def resolve_entry_path_def resolve_file_system_path_def resolve_special_path_def
      absolute_root_path_for_cwd_def split: fs_path.split special_path.split option.split)

lemma materialize_cwd_entry:
  assumes "env_ok env" "is_absolute cwd" "env_absolute env cwd = Some root" "plain_path (entry_path e)"
  shows "resolve_entry_path env (entry_path (materialize_cwd_dependent_entry env e cwd)) (Some root) = resolve_entry_path env (entry_path e) (Some root) \<and>
         entry_access (materialize_cwd_dependent_entry env e cwd) = entry_access e \<and>
         plain_path (entry_path (materialize_cwd_dependent_entry env e cwd))"
proof -
  have root: "normal_absolute root" "is_absolute root"
    using env_absolute_normal [OF assms(1,3)] by (simp_all add: normal_absolute_is_absolute)
  show ?thesis
  proof (cases "\<exists>sub. entry_path e = Special (ProjectRoots sub)")
    case True
    then obtain sub where "entry_path e = Special (ProjectRoots sub)" by blast
    with root show ?thesis
      by (auto simp: materialize_cwd_dependent_entry_def resolve_permission_path_def assms(3) resolve_entry_path_def
          resolve_file_system_path_def resolve_special_path_def plain_path_def resolve_normal split: option.split)
  next
    case False
    then show ?thesis using assms(4)
      by (auto simp: materialize_cwd_dependent_entry_def resolve_entry_path_def resolve_file_system_path_def plain_path_def
          split: fs_path.split special_path.split)
  qed
qed

text \<open>The entries of an intersection: accepted grants, and denials of the request and the grant.\<close>

definition accepted_entries :: "('z) disk_env_scheme \<Rightarrow> glob_compiler \<Rightarrow> file_system_permissions \<Rightarrow> file_system_permissions \<Rightarrow> rstr \<Rightarrow> sandbox_entry list" where
  "accepted_entries env compile requested granted cwd =
     fold push_entry_once
       (map (\<lambda>e. materialize_cwd_dependent_entry env e cwd)
         (filter (\<lambda>e. granted_file_system_entry_within_request env requested (policy_restricted (perm_entries requested))
            (read_deny_matcher_new env compile (policy_restricted (perm_entries requested)) cwd) e cwd) (perm_entries granted))) []"

definition retained_denies :: "('z) disk_env_scheme \<Rightarrow> sandbox_entry list \<Rightarrow> sandbox_entry list \<Rightarrow> rstr \<Rightarrow> sandbox_entry list" where
  "retained_denies env source accepted cwd =
     map (\<lambda>e. materialize_cwd_dependent_entry env e cwd)
       (filter (\<lambda>e. entry_access e = AccessNone \<and> deny_entry_constrains_accepted_grant env e accepted cwd) source)"

lemma intersect_entries:
  "perm_entries (intersect_file_system env compile requested granted cwd) =
     (let acc = accepted_entries env compile requested granted cwd
      in fold push_entry_once (retained_denies env (perm_entries granted) acc cwd)
           (fold push_entry_once (retained_denies env (perm_entries requested) acc cwd) acc))"
  by (simp add: intersect_file_system_def accepted_entries_def retained_denies_def retain_constraining_deny_entries_def Let_def)

lemma accepted_within_request:
  assumes "env_ok env" "is_absolute cwd" "env_absolute env cwd = Some root" "\<forall>e \<in> set (perm_entries granted). plain_path (entry_path e)"
    and "e \<in> set (accepted_entries env compile requested granted cwd)" "resolve_entry_path env (entry_path e) (Some root) = Some p"
  shows "access_can_read (entry_access e) \<and>
         access_can_read (resolve_access_with_cwd env (policy_restricted (perm_entries requested)) p cwd)"
proof -
  obtain g where g: "g \<in> set (perm_entries granted)" "e = materialize_cwd_dependent_entry env g cwd"
      "granted_file_system_entry_within_request env requested (policy_restricted (perm_entries requested))
         (read_deny_matcher_new env compile (policy_restricted (perm_entries requested)) cwd) g cwd"
    using assms(5) fold_push_once_subset unfolding accepted_entries_def by fastforce
  note m = materialize_cwd_entry [OF assms(1-3), of g]
  have "resolve_permission_path env (entry_path g) cwd = Some p"
    using m g(1,2) assms(3,4,6) resolve_permission_path_eq [OF assms(2,3)] by simp
  with g m assms(4) show ?thesis
    by (auto simp: granted_file_system_entry_within_request_def access_covers_def access_can_read_def access_can_write_def
        split: if_splits access_mode.splits option.splits)
qed

lemma intersection_plain:
  assumes "env_ok env" "is_absolute cwd" "env_absolute env cwd = Some root"
    and "\<forall>e \<in> set (perm_entries requested) \<union> set (perm_entries granted). plain_path (entry_path e)"
    and "x \<in> set (perm_entries (intersect_file_system env compile requested granted cwd))"
  shows "plain_path (entry_path x) \<and>
         (x \<in> set (accepted_entries env compile requested granted cwd) \<or> entry_access x = AccessNone)"
proof -
  let ?acc = "accepted_entries env compile requested granted cwd"
  have "x \<in> set ?acc \<union> set (retained_denies env (perm_entries requested) ?acc cwd) \<union> set (retained_denies env (perm_entries granted) ?acc cwd)"
    using assms(5) fold_push_once_subset [of "retained_denies env (perm_entries granted) ?acc cwd"
        "fold push_entry_once (retained_denies env (perm_entries requested) ?acc cwd) ?acc"]
      fold_push_once_subset [of "retained_denies env (perm_entries requested) ?acc cwd" ?acc]
    by (auto simp: intersect_entries Let_def)
  moreover have "plain_path (entry_path x)" if x: "x \<in> set ?acc"
  proof -
    obtain g where "g \<in> set (perm_entries granted)" "x = materialize_cwd_dependent_entry env g cwd"
      using x fold_push_once_subset unfolding accepted_entries_def by fastforce
    with materialize_cwd_entry [OF assms(1-3)] assms(4) show ?thesis by blast
  qed
  moreover have "plain_path (entry_path x) \<and> entry_access x = AccessNone"
    if "x \<in> set (retained_denies env es ?acc cwd)" "set es \<subseteq> set (perm_entries requested) \<union> set (perm_entries granted)" for es
    using that materialize_cwd_entry [OF assms(1-3)] assms(4) unfolding retained_denies_def by fastforce
  ultimately show ?thesis by blast
qed

lemma covering_restricted:
  "env_absolute env cwd = Some root \<Longrightarrow>
     r \<in> set (covering env (policy_restricted es) target cwd) \<longleftrightarrow>
       (\<exists>e \<in> set es. resolve_entry_path env (entry_path e) (Some root) = Some (resolved_path r) \<and> resolved_access r = entry_access e) \<and>
       path_starts_with target (resolved_path r)"
  by (auto simp: covering_def set_resolved_entries policy_restricted_def)

text \<open>A denial of the request below an accepted grant is part of the intersection.\<close>

lemma request_denial_retained:
  assumes "env_ok env" "is_absolute cwd" "env_absolute env cwd = Some root"
    and "\<forall>e \<in> set (perm_entries requested) \<union> set (perm_entries granted). plain_path (entry_path e)"
    and a: "a \<in> set (accepted_entries env compile requested granted cwd)" "resolve_entry_path env (entry_path a) (Some root) = Some p"
      "access_can_read (entry_access a)"
    and d: "d \<in> set (perm_entries requested)" "entry_access d = AccessNone" "resolve_entry_path env (entry_path d) (Some root) = Some q"
      "path_starts_with q p"
  shows "\<exists>x \<in> set (perm_entries (intersect_file_system env compile requested granted cwd)). entry_access x = AccessNone \<and>
           (\<exists>q'. resolve_entry_path env (entry_path x) (Some root) = Some q' \<and> components q' = components q)"
proof -
  let ?acc = "accepted_entries env compile requested granted cwd" and ?d = "materialize_cwd_dependent_entry env d cwd"
  note res = resolve_permission_path_eq [OF assms(2,3)]
  have not_glob: "entry_path d \<noteq> GlobPattern pat" for pat
    using d(3) by (auto simp: resolve_entry_path_def resolve_file_system_path_def)
  have "deny_entry_constrains_accepted_grant env d ?acc cwd"
    using a d(3,4) assms(3) not_glob unfolding deny_entry_constrains_accepted_grant_def
    by (intro bexI [of _ a]) (auto simp: res paths_overlap_def split: fs_path.split)
  then have "?d \<in> set (retained_denies env (perm_entries requested) ?acc cwd)" using d(1,2) by (auto simp: retained_denies_def)
  then obtain x where x: "x \<in> set (perm_entries (intersect_file_system env compile requested granted cwd))" "entry_eq x ?d"
    using fold_push_once_has fold_push_once_mem unfolding intersect_entries Let_def by meson
  note m = materialize_cwd_entry [OF assms(1-3), of d]
  have "is_absolute root" using env_absolute_normal [OF assms(1,3)] by (rule normal_absolute_is_absolute)
  then obtain q' where "resolve_entry_path env (entry_path x) (Some root) = Some q'" "components q' = components q"
    using entry_eq_resolves [OF x(2), of root env q] intersection_plain [OF assms(1-4) x(1)] m d(1,3) assms(4) by auto
  moreover have "entry_access x = AccessNone" using x(2) m d(1,2) assms(4) by (simp add: entry_eq_def)
  ultimately show ?thesis using x(1) by blast
qed


definition permissions :: "(fs_path \<times> access_mode) list \<Rightarrow> file_system_permissions" where
  "permissions es = \<lparr>perm_entries = map (\<lambda>(p, a). entry p a) es, perm_glob_scan_max_depth = None\<rparr>"


text \<open>
  For writing, a grant can exceed the request: a command that asks to write \<open>/a\<close> but only to read \<open>/a/b\<close>, and is granted
  \<open>/a\<close>, may write below \<open>/a/b\<close>, because only denials of reading are carried into the intersection.
\<close>

theorem grant_exceeds_requested_write:
  "let req = permissions [(PathEntry (lit ''/a''), AccessWrite), (PathEntry (lit ''/a/b''), AccessRead)];
       gr = permissions [(PathEntry (lit ''/a''), AccessWrite)]
   in can_write_path_with_cwd sample_disk
        (policy_restricted (perm_entries (intersect_file_system sample_disk (\<lambda>_. Inl []) req gr (lit ''/w'')))) (lit ''/a/b/x'') (lit ''/w'') \<and>
      \<not> can_write_path_with_cwd sample_disk (policy_restricted (perm_entries req)) (lit ''/a/b/x'') (lit ''/w'')"
  unfolding Let_def by code_simp

end
