(* ===== verification/Sandbox_Manager.thy ===== *)
theory Sandbox_Manager
  imports Permission_Transforms
begin

text \<open>
  Choosing a platform sandbox and wrapping a command into it (\<open>sandboxing/src/manager.rs\<close>,
  \<open>sandboxing/src/landlock.rs\<close>), as compiled for Linux. Writing a profile as JSON and the detection of WSL 1 are
  parameters.
\<close>

section \<open>Sandbox types\<close>

datatype sandbox_type = SandboxNone | MacosSeatbelt | LinuxSeccomp | WindowsRestrictedToken

datatype sandboxable_preference = PrefAuto | PrefRequire | PrefForbid

datatype windows_sandbox_level = WindowsDisabled | WindowsToken | WindowsElevated

datatype target_os = Macos | Linux | Windows | OtherOs

definition get_platform_sandbox :: "target_os \<Rightarrow> bool \<Rightarrow> sandbox_type option" where
  "get_platform_sandbox os windows_sandbox_enabled =
     (case os of
        Macos \<Rightarrow> Some MacosSeatbelt
      | Linux \<Rightarrow> Some LinuxSeccomp
      | Windows \<Rightarrow> if windows_sandbox_enabled then Some WindowsRestrictedToken else None
      | OtherOs \<Rightarrow> None)"

definition platform_or_none :: "target_os \<Rightarrow> windows_sandbox_level \<Rightarrow> sandbox_type" where
  "platform_or_none os level =
     (case get_platform_sandbox os (level \<noteq> WindowsDisabled) of Some t \<Rightarrow> t | None \<Rightarrow> SandboxNone)"

definition select_initial ::
    "target_os \<Rightarrow> sandbox_policy \<Rightarrow> network_sandbox_policy \<Rightarrow> sandboxable_preference \<Rightarrow> windows_sandbox_level \<Rightarrow> bool \<Rightarrow> sandbox_type" where
  "select_initial os pol network pref level managed =
     (case pref of
        PrefForbid \<Rightarrow> SandboxNone
      | PrefRequire \<Rightarrow> platform_or_none os level
      | PrefAuto \<Rightarrow> if should_require_platform_sandbox pol network managed then platform_or_none os level else SandboxNone)"

section \<open>The command line of the Linux helper\<close>

definition CODEX_LINUX_SANDBOX_ARG0 :: rstr where
  "CODEX_LINUX_SANDBOX_ARG0 = lit ''codex-linux-sandbox''"

definition allow_network_for_proxy :: "bool \<Rightarrow> bool" where
  "allow_network_for_proxy enforce_managed_network = enforce_managed_network"

type_synonym profile_writer = "permission_profile \<Rightarrow> rstr"

definition create_linux_sandbox_command_args_for_permission_profile ::
    "profile_writer \<Rightarrow> rstr list \<Rightarrow> rstr \<Rightarrow> permission_profile \<Rightarrow> rstr \<Rightarrow> bool \<Rightarrow> bool \<Rightarrow> rstr list" where
  "create_linux_sandbox_command_args_for_permission_profile json command command_cwd profile sandbox_policy_cwd legacy_landlock proxy =
     [lit ''--sandbox-policy-cwd'', sandbox_policy_cwd, lit ''--command-cwd'', command_cwd, lit ''--permission-profile'', json profile] @
     (if legacy_landlock then [lit ''--use-legacy-landlock''] else []) @
     (if proxy then [lit ''--allow-network-for-proxy''] else []) @
     [lit ''--''] @ command"

definition linux_sandbox_arg0_override :: "rstr \<Rightarrow> rstr" where
  "linux_sandbox_arg0_override exe =
     (if file_name exe = Some CODEX_LINUX_SANDBOX_ARG0 then exe else CODEX_LINUX_SANDBOX_ARG0)"

section \<open>Transforming a command\<close>

datatype sandbox_transform_error =
    MissingLinuxSandboxExecutable
  | Wsl1UnsupportedForBubblewrap
  | SeatbeltUnavailable

record sandbox_command =
  cmd_program :: rstr
  cmd_args :: "rstr list"
  cmd_cwd :: rstr
  cmd_env :: "(rstr \<times> rstr) list"
  cmd_additional_permissions :: "additional_permission_profile option"

record 'n sandbox_exec_request =
  req_command :: "rstr list"
  req_cwd :: rstr
  req_env :: "(rstr \<times> rstr) list"
  req_network :: "'n option"
  req_sandbox :: sandbox_type
  req_windows_sandbox_level :: windows_sandbox_level
  req_windows_private_desktop :: bool
  req_permission_profile :: permission_profile
  req_file_system_policy :: sandbox_policy
  req_network_policy :: network_sandbox_policy
  req_arg0 :: "rstr option"

record 'n sandbox_transform_request =
  tr_command :: sandbox_command
  tr_permissions :: permission_profile
  tr_sandbox :: sandbox_type
  tr_enforce_managed_network :: bool
  tr_network :: "'n option"
  tr_policy_cwd :: rstr
  tr_linux_sandbox_exe :: "rstr option"
  tr_use_legacy_landlock :: bool
  tr_windows_sandbox_level :: windows_sandbox_level
  tr_windows_private_desktop :: bool

definition ensure_linux_bubblewrap_is_supported ::
    "sandbox_policy \<Rightarrow> bool \<Rightarrow> bool \<Rightarrow> bool \<Rightarrow> (sandbox_transform_error, unit) result" where
  "ensure_linux_bubblewrap_is_supported pol legacy_landlock proxy is_wsl1 =
     (let requires_bubblewrap = (\<not> legacy_landlock \<and> (\<not> has_full_disk_write_access pol \<or> proxy))
      in if is_wsl1 \<and> requires_bubblewrap then Inl Wsl1UnsupportedForBubblewrap else Inr ())"

text \<open>The outer option is \<open>None\<close> where the computation of the effective profile panics.\<close>

definition transform ::
    "profile_writer \<Rightarrow> bool \<Rightarrow> 'n sandbox_transform_request \<Rightarrow> (sandbox_transform_error, 'n sandbox_exec_request) result option" where
  "transform json is_wsl1 r =
     Option.bind (effective_permission_profile (tr_permissions r) (cmd_additional_permissions (tr_command r))) (\<lambda>profile.
       let (fs_policy, network_policy) = to_runtime_permissions profile;
           argv = cmd_program (tr_command r) # cmd_args (tr_command r);
           wrapped =
             (case tr_sandbox r of
                SandboxNone \<Rightarrow> Inr (argv, None)
              | MacosSeatbelt \<Rightarrow> Inl SeatbeltUnavailable
              | LinuxSeccomp \<Rightarrow>
                  (case tr_linux_sandbox_exe r of
                     None \<Rightarrow> Inl MissingLinuxSandboxExecutable
                   | Some exe \<Rightarrow>
                       let proxy = allow_network_for_proxy (tr_enforce_managed_network r)
                       in rbind (ensure_linux_bubblewrap_is_supported fs_policy (tr_use_legacy_landlock r) proxy is_wsl1) (\<lambda>_.
                            Inr (exe # create_linux_sandbox_command_args_for_permission_profile json argv (cmd_cwd (tr_command r)) profile
                                   (tr_policy_cwd r) (tr_use_legacy_landlock r) proxy,
                                 Some (linux_sandbox_arg0_override exe))))
              | WindowsRestrictedToken \<Rightarrow> Inr (argv, None))
       in Some (rbind wrapped (\<lambda>(command, arg0).
            Inr \<lparr>req_command = command, req_cwd = cmd_cwd (tr_command r), req_env = cmd_env (tr_command r), req_network = tr_network r,
                 req_sandbox = tr_sandbox r, req_windows_sandbox_level = tr_windows_sandbox_level r,
                 req_windows_private_desktop = tr_windows_private_desktop r, req_permission_profile = profile,
                 req_file_system_policy = fs_policy, req_network_policy = network_policy, req_arg0 = arg0\<rparr>)))"

section \<open>Compatibility modes\<close>

definition compatibility_workspace_write_policy ::
    "('z) disk_env_scheme \<Rightarrow> sandbox_policy \<Rightarrow> network_sandbox_policy \<Rightarrow> rstr \<Rightarrow> legacy_policy" where
  "compatibility_workspace_write_policy env pol network cwd =
     (let tmpdir_writable =
            (case Option.bind (filter_option (\<lambda>t. t \<noteq> []) (env_tmpdir env)) (env_absolute env) of
               Some t \<Rightarrow> can_write_path_with_cwd env pol t cwd | None \<Rightarrow> False);
          slash_tmp_writable = (slash_tmp_is_dir env \<and> can_write_path_with_cwd env pol (lit ''/tmp'') cwd)
      in WorkspaceWrite (filter (\<lambda>r. \<not> same_as_cwd env cwd r) (map wr_root (get_writable_roots_with_cwd env pol cwd)))
           (net_enabled network) (\<not> tmpdir_writable) (\<not> slash_tmp_writable))"

definition compatibility_sandbox_policy_for_permission_profile ::
    "('z) disk_env_scheme \<Rightarrow> permission_profile \<Rightarrow> sandbox_policy \<Rightarrow> network_sandbox_policy \<Rightarrow> rstr \<Rightarrow> legacy_policy" where
  "compatibility_sandbox_policy_for_permission_profile env p pol network cwd =
     (case profile_to_legacy env p cwd of Inr l \<Rightarrow> l | Inl _ \<Rightarrow> compatibility_workspace_write_policy env pol network cwd)"

section \<open>Properties\<close>

lemma effective_profile_total: "\<exists>p. effective_permission_profile q add = Some p"
  unfolding effective_permission_profile_def to_runtime_permissions_def Let_def prod.case using no_panic by blast

lemma select_initial_none:
  "select_initial Linux pol network PrefAuto level managed = SandboxNone \<longleftrightarrow>
     \<not> managed \<and> (if net_enabled network then has_full_disk_write_access pol else kind pol = KindExternalSandbox)"
  by (cases "kind pol")
     (auto simp: select_initial_def platform_or_none_def get_platform_sandbox_def should_require_platform_sandbox_def has_full_disk_write_access_def)

text \<open>
  The wrapped command keeps the original: for a command that is transformed, the arguments after the first separator of the
  helper's own options are exactly the program and its arguments, whatever they look like, and the
  profile handed to the helper is the effective one. The transformation always returns.
\<close>

theorem transform_keeps_command:
  assumes "json (the (effective_permission_profile (tr_permissions r) (cmd_additional_permissions (tr_command r)))) \<noteq> lit ''--''"
    and "cmd_cwd (tr_command r) \<noteq> lit ''--''" "tr_policy_cwd r \<noteq> lit ''--''"
  shows "\<exists>res. transform json is_wsl1 r = Some res \<and>
           (\<forall>q. res = Inr q \<longrightarrow>
              (if tr_sandbox r = LinuxSeccomp
               then \<exists>exe. tr_linux_sandbox_exe r = Some exe \<and> hd (req_command q) = exe \<and>
                 drop 1 (dropWhile (\<lambda>a. a \<noteq> lit ''--'') (tl (req_command q))) = cmd_program (tr_command r) # cmd_args (tr_command r) \<and>
                 json (req_permission_profile q) \<in> set (takeWhile (\<lambda>a. a \<noteq> lit ''--'') (tl (req_command q)))
               else req_command q = cmd_program (tr_command r) # cmd_args (tr_command r)))"
proof -
  obtain p where p: "effective_permission_profile (tr_permissions r) (cmd_additional_permissions (tr_command r)) = Some p"
    using effective_profile_total by blast
  have j: "json p \<noteq> lit ''--''" using assms(1) p by simp
  show ?thesis
    using assms(2,3) j
    by (cases "tr_sandbox r")
       (auto simp: transform_def p Let_def rbind_eq_Inr_iff create_linux_sandbox_command_args_for_permission_profile_def
         split: option.splits prod.splits)
qed

definition demo_transform :: "unit sandbox_transform_request" where
  "demo_transform =
     \<lparr>tr_command = \<lparr>cmd_program = lit ''git'', cmd_args = [lit ''--'', lit ''x''], cmd_cwd = lit ''/w'', cmd_env = [], cmd_additional_permissions = None\<rparr>,
      tr_permissions = profile_read_only, tr_sandbox = LinuxSeccomp, tr_enforce_managed_network = False, tr_network = None, tr_policy_cwd = lit ''/w'',
      tr_linux_sandbox_exe = Some (lit ''/x/codex''), tr_use_legacy_landlock = False, tr_windows_sandbox_level = WindowsDisabled,
      tr_windows_private_desktop = False\<rparr>"

theorem transform_keeps_command_witness:
  "\<exists>q. transform (\<lambda>_. lit ''profile'') False demo_transform = Some (Inr q) \<and>
     drop 1 (dropWhile (\<lambda>a. a \<noteq> lit ''--'') (tl (req_command q))) = [lit ''git'', lit ''--'', lit ''x'']"
proof -
  let ?json = "\<lambda>_ :: permission_profile. lit ''profile''"
  have h: "cmd_cwd (tr_command demo_transform) \<noteq> lit ''--''" "tr_policy_cwd demo_transform \<noteq> lit ''--''" "lit ''profile'' \<noteq> lit ''--''" by code_simp+
  have "case transform ?json False demo_transform of Some (Inr q) \<Rightarrow> True | _ \<Rightarrow> False" by code_simp
  then obtain q where q: "transform ?json False demo_transform = Some (Inr q)" by (auto split: option.splits sum.splits)
  have "tr_sandbox demo_transform = LinuxSeccomp" "cmd_program (tr_command demo_transform) # cmd_args (tr_command demo_transform) = [lit ''git'', lit ''--'', lit ''x'']"
    by code_simp+
  with transform_keeps_command [of ?json demo_transform False, OF h(3,1,2)] q show ?thesis by auto
qed

end
