(* ===== verification/Approvals.thy ===== *)
theory Approvals
  imports Sandbox_Manager
begin

text \<open>
  Approval settings and what a tool call needs before it runs (\<open>protocol/src/protocol.rs\<close>,
  \<open>protocol/src/approvals.rs\<close>, \<open>core/src/tools/sandboxing.rs\<close>), with the session's cache of approvals.
\<close>

section \<open>Settings and decisions\<close>

record granular_approval_config =
  sandbox_approval :: bool
  rules_approval :: bool
  skill_approval :: bool
  request_permissions :: bool
  mcp_elicitations :: bool

datatype ask_for_approval = UnlessTrusted | OnFailure | OnRequest | Granular granular_approval_config | Never

type_synonym exec_policy_amendment = "rstr list"

datatype network_rule_action = NetAllow | NetDeny

datatype review_decision =
    Approved
  | ApprovedExecpolicyAmendment exec_policy_amendment
  | ApprovedForSession
  | NetworkPolicyAmendment rstr network_rule_action
  | Denied
  | TimedOut
  | Abort

datatype exec_approval_requirement =
    Skip bool "exec_policy_amendment option"
  | NeedsApproval "rstr option" "exec_policy_amendment option"
  | ExecForbidden rstr

definition proposed_execpolicy_amendment :: "exec_approval_requirement \<Rightarrow> exec_policy_amendment option" where
  "proposed_execpolicy_amendment r =
     (case r of NeedsApproval _ a \<Rightarrow> a | Skip _ a \<Rightarrow> a | ExecForbidden _ \<Rightarrow> None)"

section \<open>Requirements\<close>

definition default_exec_approval_requirement :: "ask_for_approval \<Rightarrow> sandbox_policy \<Rightarrow> exec_approval_requirement" where
  "default_exec_approval_requirement policy pol =
     (let needs_approval =
            (case policy of
               Never \<Rightarrow> False
             | OnFailure \<Rightarrow> False
             | OnRequest \<Rightarrow> kind pol = KindRestricted
             | Granular _ \<Rightarrow> kind pol = KindRestricted
             | UnlessTrusted \<Rightarrow> True)
      in if needs_approval \<and> (case policy of Granular g \<Rightarrow> \<not> sandbox_approval g | _ \<Rightarrow> False)
         then ExecForbidden (lit ''approval policy disallowed sandbox approval prompt'')
         else if needs_approval then NeedsApproval None None
         else Skip False None)"

datatype sandbox_override = NoOverride | BypassSandboxFirstAttempt

definition sandbox_override_for_first_attempt ::
    "sandbox_permissions \<Rightarrow> exec_approval_requirement \<Rightarrow> sandbox_policy \<Rightarrow> sandbox_override" where
  "sandbox_override_for_first_attempt perms requirement pol =
     (if (case requirement of Skip bypass _ \<Rightarrow> bypass | _ \<Rightarrow> False) then BypassSandboxFirstAttempt
      else if has_denied_read_restrictions pol then NoOverride
      else if requires_escalated_permissions perms then BypassSandboxFirstAttempt
      else NoOverride)"

definition managed_network_for_sandbox_permissions :: "'n option \<Rightarrow> sandbox_permissions \<Rightarrow> 'n option" where
  "managed_network_for_sandbox_permissions network perms =
     (if requires_escalated_permissions perms then None else network)"

definition should_bypass_approval :: "ask_for_approval \<Rightarrow> bool \<Rightarrow> bool" where
  "should_bypass_approval policy already_approved = (if already_approved then True else policy = Never)"

definition wants_no_sandbox_approval :: "ask_for_approval \<Rightarrow> bool" where
  "wants_no_sandbox_approval policy =
     (case policy of
        OnFailure \<Rightarrow> True
      | UnlessTrusted \<Rightarrow> True
      | Never \<Rightarrow> False
      | OnRequest \<Rightarrow> False
      | Granular g \<Rightarrow> sandbox_approval g)"

section \<open>The cache of approvals\<close>

text \<open>
  Keys are stored in serialised form; the serialiser is a parameter that may fail. The prompt (\<open>fetch\<close>) is a step of
  the world.
\<close>

type_synonym approval_store = "rstr \<Rightarrow> review_decision option"

definition store_get :: "('k \<Rightarrow> rstr option) \<Rightarrow> approval_store \<Rightarrow> 'k \<Rightarrow> review_decision option" where
  "store_get ser store k = Option.bind (ser k) store"

definition store_put :: "('k \<Rightarrow> rstr option) \<Rightarrow> 'k \<Rightarrow> review_decision \<Rightarrow> approval_store \<Rightarrow> approval_store" where
  "store_put ser k v store = (case ser k of Some s \<Rightarrow> store(s \<mapsto> v) | None \<Rightarrow> store)"

definition with_cached_approval ::
    "('k \<Rightarrow> rstr option) \<Rightarrow> 'k list \<Rightarrow> ('w \<Rightarrow> review_decision \<times> 'w) \<Rightarrow> approval_store \<times> 'w \<Rightarrow> review_decision \<times> approval_store \<times> 'w" where
  "with_cached_approval ser keys fetch = (\<lambda>(store, w).
     if keys = [] then (case fetch w of (d, w') \<Rightarrow> (d, store, w'))
     else if \<forall>k \<in> set keys. store_get ser store k = Some ApprovedForSession then (ApprovedForSession, store, w)
     else (case fetch w of (d, w') \<Rightarrow>
             (d, if d = ApprovedForSession then fold (\<lambda>k. store_put ser k ApprovedForSession) keys store else store, w')))"

section \<open>Properties\<close>

lemma store_put_get:
  "store_get ser (store_put ser k v store) k' =
     (if ser k' \<noteq> None \<and> ser k = ser k' then Some v else store_get ser store k')"
  by (auto simp: store_get_def store_put_def split: option.split)

lemma fold_put_get:
  "store_get ser (fold (\<lambda>k. store_put ser k v) ks store) k' = Some v
     \<longleftrightarrow> store_get ser store k' = Some v \<or> (ser k' \<noteq> None \<and> ser k' \<in> ser ` set ks)"
  by (induction ks arbitrary: store) (auto simp: store_put_get)

text \<open>Only approvals for the session enter the cache.\<close>

definition store_ok :: "approval_store \<Rightarrow> bool" where
  "store_ok store \<longleftrightarrow> ran store \<subseteq> {ApprovedForSession}"

lemma store_put_ok: "store_ok store \<Longrightarrow> store_ok (store_put ser k ApprovedForSession store)"
  by (auto simp: store_ok_def store_put_def ran_def split: option.split if_splits)

lemma fold_put_ok: "store_ok store \<Longrightarrow> store_ok (fold (\<lambda>k. store_put ser k ApprovedForSession) ks store)"
  by (induction ks arbitrary: store) (simp_all add: store_put_ok)

text \<open>
  An approval for the session is remembered: after the user approved a request for the session, every later request
  whose keys are among those of the request is approved without asking, in whatever order other
  requests came in between, and the cache holds nothing but such approvals.
\<close>

theorem session_approval_remembered:
  assumes "with_cached_approval ser keys fetch (store, w) = (ApprovedForSession, store', w')" "store_ok store"
    and "\<forall>k \<in> set keys. ser k \<noteq> None" "later \<noteq> []" "set later \<subseteq> set keys"
    and "store'' = fold (\<lambda>k. store_put ser k ApprovedForSession) others store'"
  shows "with_cached_approval ser later fetch' (store'', v) = (ApprovedForSession, store'', v) \<and> store_ok store''"
proof -
  have keys: "keys \<noteq> []" using assms(4,5) by auto
  have "\<forall>k \<in> set keys. store_get ser store' k = Some ApprovedForSession"
    using assms(1,3) keys by (auto simp: with_cached_approval_def fold_put_get split: if_splits prod.splits)
  then have "\<forall>k \<in> set later. store_get ser store'' k = Some ApprovedForSession"
    using assms(5,6) by (auto simp: fold_put_get)
  moreover have "store_ok store'"
    using assms(1,2) by (auto simp: with_cached_approval_def fold_put_ok split: if_splits prod.splits)
  ultimately show ?thesis using assms(4,6) by (simp add: with_cached_approval_def fold_put_ok)
qed

theorem session_approval_remembered_witness:
  "fst (with_cached_approval Some [lit ''b''] (\<lambda>w. (Denied, w))
          (snd (with_cached_approval Some [lit ''a'', lit ''b''] (\<lambda>w. (ApprovedForSession, w)) (Map.empty, ())))) = ApprovedForSession"
proof -
  obtain store where s: "with_cached_approval Some [lit ''a'', lit ''b''] (\<lambda>w. (ApprovedForSession, w)) (Map.empty, ()) =
      (ApprovedForSession, store, ())"
    by (simp add: with_cached_approval_def store_get_def)
  have ok: "store_ok Map.empty" by (simp add: store_ok_def)
  have "with_cached_approval Some [lit ''b''] (\<lambda>w. (Denied, w)) (store, ()) = (ApprovedForSession, store, ())"
    using session_approval_remembered [OF s ok, of "[lit ''b'']" store "[]" "\<lambda>w. (Denied, w)" "()"] by simp
  with s show ?thesis by simp
qed

end
