(* ===== verification/Patch_Safety.thy ===== *)
theory Patch_Safety
  imports Patch_Invocation Approvals
begin

text \<open>
  The decision whether a patch runs without asking (\<open>core/src/safety.rs\<close>): a verified patch, the approval setting and the
  permissions of the session give an automatic approval, a question to the user or a rejection.
\<close>

section \<open>Assessment\<close>

datatype safety_check =
    AutoApprove sandbox_type bool
  | AskUser
  | RejectPatch rstr

definition PATCH_REJECTED_OUTSIDE_PROJECT_REASON :: rstr where
  "PATCH_REJECTED_OUTSIDE_PROJECT_REASON = lit ''writing outside of the project; rejected by user approval settings''"

definition PATCH_REJECTED_READ_ONLY_REASON :: rstr where
  "PATCH_REJECTED_READ_ONLY_REASON = lit ''writing is blocked by read-only sandbox; rejected by user approval settings''"

definition patch_rejection_reason :: "('z) disk_env_scheme \<Rightarrow> permission_profile \<Rightarrow> sandbox_policy \<Rightarrow> rstr \<Rightarrow> rstr" where
  "patch_rejection_reason env profile pol cwd =
     (case profile of
        Managed _ _ \<Rightarrow>
          if \<not> has_full_disk_write_access pol \<and> get_writable_roots_with_cwd env pol cwd = []
          then PATCH_REJECTED_READ_ONLY_REASON else PATCH_REJECTED_OUTSIDE_PROJECT_REASON
      | _ \<Rightarrow> PATCH_REJECTED_OUTSIDE_PROJECT_REASON)"

definition util_resolve_path :: "rstr \<Rightarrow> rstr \<Rightarrow> rstr" where
  "util_resolve_path base path = (if is_absolute path then path else path_join base path)"

text \<open>The local \<open>normalize\<close>: the components with \<open>.\<close> and \<open>..\<close> resolved, pushed onto an empty path.\<close>

definition patch_normalize :: "rstr \<Rightarrow> rstr" where
  "patch_normalize path = render (normalize_components (components path))"

definition patch_path_writable :: "('z) disk_env_scheme \<Rightarrow> sandbox_policy \<Rightarrow> rstr \<Rightarrow> rstr \<Rightarrow> bool" where
  "patch_path_writable env pol cwd p = can_write_path_with_cwd env pol (patch_normalize (util_resolve_path cwd p)) cwd"

definition is_write_patch_constrained_to_writable_paths ::
    "('z) disk_env_scheme \<Rightarrow> apply_patch_action \<Rightarrow> sandbox_policy \<Rightarrow> rstr \<Rightarrow> bool" where
  "is_write_patch_constrained_to_writable_paths env action pol cwd \<longleftrightarrow>
     (\<forall>(path, change) \<in> set (action_changes action).
        case change of
          FileUpdate _ move_path _ \<Rightarrow>
            patch_path_writable env pol cwd path \<and>
            (case move_path of Some dest \<Rightarrow> patch_path_writable env pol cwd dest | None \<Rightarrow> True)
        | _ \<Rightarrow> patch_path_writable env pol cwd path)"

definition rejects_sandbox_approval :: "ask_for_approval \<Rightarrow> bool" where
  "rejects_sandbox_approval policy = (case policy of Never \<Rightarrow> True | Granular g \<Rightarrow> \<not> sandbox_approval g | _ \<Rightarrow> False)"

definition assess_patch_safety ::
    "('z) disk_env_scheme \<Rightarrow> target_os \<Rightarrow> apply_patch_action \<Rightarrow> ask_for_approval \<Rightarrow> permission_profile \<Rightarrow> sandbox_policy \<Rightarrow> rstr
       \<Rightarrow> windows_sandbox_level \<Rightarrow> safety_check" where
  "assess_patch_safety env os action policy profile pol cwd level =
     (if action_changes action = [] then RejectPatch (lit ''empty patch'')
      else if policy = UnlessTrusted then AskUser
      else if is_write_patch_constrained_to_writable_paths env action pol cwd \<or> policy = OnFailure then
        (case profile of
           Managed _ _ \<Rightarrow>
             (case get_platform_sandbox os (level \<noteq> WindowsDisabled) of
                Some t \<Rightarrow> AutoApprove t False
              | None \<Rightarrow>
                  if rejects_sandbox_approval policy then RejectPatch (patch_rejection_reason env profile pol cwd) else AskUser)
         | _ \<Rightarrow> AutoApprove SandboxNone False)
      else if rejects_sandbox_approval policy then RejectPatch (patch_rejection_reason env profile pol cwd)
      else AskUser)"

section \<open>Automatic approval is confined to writable paths\<close>

lemma patch_normalize_normal:
  assumes "normal_absolute p"
  shows "patch_normalize (util_resolve_path cwd p) = p"
proof -
  obtain ns where ns: "components p = root_names ns" "p = names_path ns" "\<forall>n \<in> set ns. proper_name n"
    using normal_absolute_components [OF assms] by blast
  have "normalize_components (root_names ns) = root_names ns"
    using normalize_names [of "[]" ns] by (simp add: normalize_components_def root_names_def)
  moreover have "util_resolve_path cwd p = p" by (simp add: util_resolve_path_def normal_absolute_is_absolute [OF assms])
  ultimately show ?thesis using ns(1,2) render_root_names [OF ns(3)] by (simp add: patch_normalize_def)
qed

lemma patch_path_writable_normal:
  "normal_absolute p \<Longrightarrow> patch_path_writable env pol cwd p = can_write_path_with_cwd env pol p cwd"
  by (simp add: patch_path_writable_def patch_normalize_normal)

lemma verify_loop_keep:
  "verify_loop fs diff home cwd w hs acc = Inr changes \<Longrightarrow> q \<notin> (\<lambda>h. resolve_path home h cwd) ` set hs \<Longrightarrow>
     map_of changes q = map_of acc q"
  by (induction hs arbitrary: acc) (auto simp: rbind_eq_Inr_iff AList.update_conv')

lemma verify_loop_complete:
  assumes "verify_loop fs diff home cwd w hs acc = Inr changes" "distinct (map (\<lambda>h. resolve_path home h cwd) hs)" "h \<in> set hs"
  shows "\<exists>c. verify_hunk fs diff home cwd w h = Inr c \<and> map_of changes (resolve_path home h cwd) = Some c"
  using assms
proof (induction hs arbitrary: acc)
  case (Cons g hs)
  obtain c where c: "verify_hunk fs diff home cwd w g = Inr c"
    "verify_loop fs diff home cwd w hs (AList.update (resolve_path home g cwd) c acc) = Inr changes"
    using Cons.prems(1) by (auto simp: rbind_eq_Inr_iff)
  show ?case
  proof (cases "h = g")
    case True
    have "resolve_path home g cwd \<notin> (\<lambda>h. resolve_path home h cwd) ` set hs" using Cons.prems(2) by auto
    from verify_loop_keep [OF c(2) this] c(1) True show ?thesis by (simp add: AList.update_conv')
  next
    case False
    with Cons.IH [OF c(2)] Cons.prems(2,3) show ?thesis by simp
  qed
qed simp

lemma touches_normal: "is_absolute cwd \<Longrightarrow> q \<in> touches home cwd h \<Longrightarrow> normal_absolute q"
  by (cases "(home, cwd, h)" rule: touches.cases) (auto simp: resolve_path_def resolve_normal split: hunk.splits)

text \<open>What the check looks at are the files the hunk touches.\<close>

lemma verified_touches:
  assumes "verify_hunk fs diff home cwd w h = Inr c" "q \<in> touches home cwd h"
  shows "q = resolve_path home h cwd \<or> (\<exists>u t. c = FileUpdate u (Some q) t)"
proof (cases h)
  case (UpdateFile p mv chunks)
  then show ?thesis using assms
    by (cases mv) (auto simp: verify_hunk_def resolve_path_def rbind_eq_Inr_iff abs_join_def Let_def)
qed (use assms in \<open>simp_all add: resolve_path_def\<close>)

lemma constrained_touches_writable:
  assumes "verify_apply_patch_args fs diff home args c w = VerifiedBody action" "is_absolute (action_cwd action)"
    and "distinct (map (\<lambda>h. resolve_path home h (action_cwd action)) (hunks args))"
    and "is_write_patch_constrained_to_writable_paths env action pol cwd"
    and "h \<in> set (hunks args)" "q \<in> touches home (action_cwd action) h"
  shows "can_write_path_with_cwd env pol q cwd"
proof -
  let ?p = "resolve_path home h (action_cwd action)"
  obtain ch where ch: "verify_hunk fs diff home (action_cwd action) w h = Inr ch" "(?p, ch) \<in> set (action_changes action)"
    using verify_loop_complete [OF verify_body [OF assms(1)] assms(3,5)] by (auto dest: map_of_SomeD)
  have "patch_path_writable env pol cwd q"
    using verified_touches [OF ch(1) assms(6)] bspec [OF assms(4) [unfolded is_write_patch_constrained_to_writable_paths_def] ch(2)]
    by (cases ch) auto
  with patch_path_writable_normal [OF touches_normal [OF assms(2,6)]] show ?thesis by blast
qed

lemma auto_approved_constrained:
  "assess_patch_safety env os action policy profile pol cwd level = AutoApprove t u \<Longrightarrow> policy \<noteq> OnFailure \<Longrightarrow>
     is_write_patch_constrained_to_writable_paths env action pol cwd"
  by (auto simp: assess_patch_safety_def split: if_splits)


definition project_policy :: sandbox_policy where
  "project_policy = policy_restricted [entry (Special RootPath) AccessRead, entry (Special (ProjectRoots None)) AccessWrite]"

definition project_profile :: permission_profile where
  "project_profile = Managed (ManagedRestricted (entries project_policy) None) NetRestricted"


text \<open>
  The decision keeps the user's setting: with \<open>untrusted\<close> nothing is approved automatically, with \<open>never\<close> the user is never
  asked, and an approval to run without a sandbox is given only where the profile does not want one.
\<close>

theorem patch_decision_respects_setting:
  "(policy = UnlessTrusted \<longrightarrow> assess_patch_safety env os action policy profile pol cwd level \<noteq> AutoApprove t u) \<and>
   (policy = Never \<longrightarrow> assess_patch_safety env os action policy profile pol cwd level \<noteq> AskUser) \<and>
   (assess_patch_safety env os action policy profile pol cwd level = AutoApprove SandboxNone u \<longrightarrow>
      profile = Disabled \<or> (\<exists>n. profile = External n))"
  by (auto simp: assess_patch_safety_def rejects_sandbox_approval_def get_platform_sandbox_def
      split: permission_profile.splits option.splits target_os.splits if_splits)

theorem patch_decision_respects_setting_witness:
  "assess_patch_safety sample_disk Linux \<lparr>action_changes = [(lit ''/w/g'', FileAdd (lit ''y''))], action_patch = [], action_cwd = lit ''/w''\<rparr>
     Never project_profile project_policy (lit ''/w'') WindowsDisabled \<noteq> AskUser"
  using patch_decision_respects_setting by blast

definition escaping_move :: apply_patch_args where
  "escaping_move = \<lparr>patch = [], hunks = [UpdateFile (lit ''f'') (Some (lit ''/out/x''))
       [\<lparr>change_context = None, old_lines = [lit ''a''], new_lines = [lit ''b''], is_end_of_file = False\<rparr>],
     AddFile (lit ''f'') (lit ''c'')], workdir = None, environment_id = None\<rparr>"

definition one_line_file :: contents where
  "one_line_file = [lit ''/w/f'' \<mapsto> lit ''a'' @ [newline]]"

lemma escaping_move_run:
  "snd (apply_hunks_to_files mem_fs None (hunks escaping_move) (lit ''/w'') one_line_file) = None"
  "exact (delta (fst (apply_hunks_to_files mem_fs None (hunks escaping_move) (lit ''/w'') one_line_file)))"
  "world (fst (apply_hunks_to_files mem_fs None (hunks escaping_move) (lit ''/w'') one_line_file)) (lit ''/out/x'') = Some (lit ''b'' @ [newline])"
  by code_simp+

lemma escaping_move_changes:
  "verify_loop mem_fs (\<lambda>_ _ _. []) None (lit ''/w'') one_line_file (hunks escaping_move) [] = Inr [(lit ''/w/f'', FileAdd (lit ''c''))]"
  by code_simp

text \<open>
  A second hunk for the same path hides the destination of a rename from the check: the patch moves \<open>f\<close> out of the project and adds
  \<open>f\<close> again; only the addition is assessed, the patch is approved without asking, and its run
  writes the file outside that the permissions protect.
\<close>

theorem hidden_move_escapes_check:
  "\<exists>action s. verify_apply_patch_args mem_fs (\<lambda>_ _ _. []) None escaping_move (lit ''/w'') one_line_file = VerifiedBody action \<and>
      assess_patch_safety sample_disk Linux action Never project_profile project_policy (lit ''/w'') WindowsDisabled = AutoApprove LinuxSeccomp False \<and>
      apply_hunks_to_files mem_fs None (hunks escaping_move) (lit ''/w'') one_line_file = (s, None) \<and>
      \<not> can_write_path_with_cwd sample_disk project_policy (lit ''/out/x'') (lit ''/w'') \<and>
      world s (lit ''/out/x'') \<noteq> one_line_file (lit ''/out/x'')"
proof -
  let ?act = "\<lparr>action_changes = [(lit ''/w/f'', FileAdd (lit ''c''))], action_patch = [], action_cwd = lit ''/w''\<rparr>"
  let ?r = "apply_hunks_to_files mem_fs None (hunks escaping_move) (lit ''/w'') one_line_file"
  have v: "verify_apply_patch_args mem_fs (\<lambda>_ _ _. []) None escaping_move (lit ''/w'') one_line_file = VerifiedBody ?act"
    using escaping_move_changes by (simp add: verify_apply_patch_args_def escaping_move_def)
  have a: "assess_patch_safety sample_disk Linux ?act Never project_profile project_policy (lit ''/w'') WindowsDisabled = AutoApprove LinuxSeccomp False"
    by code_simp
  have r: "?r = (fst ?r, None)" using escaping_move_run(1) by (metis prod.collapse)
  have c: "\<not> can_write_path_with_cwd sample_disk project_policy (lit ''/out/x'') (lit ''/w'')" by code_simp
  have "one_line_file (lit ''/out/x'') = None" by code_simp
  with v a r c escaping_move_run(3) show ?thesis by (intro exI [of _ ?act] exI [of _ "fst ?r"]) (simp del: lit_simps)
qed

end
