(* ===== verification/Exec_Rules.thy ===== *)
theory Exec_Rules
  imports Absolute_Path "HOL-Library.List_Lexorder"
begin

text \<open>
  The rules of the execution policy (\<open>execpolicy/src/decision.rs\<close>, \<open>rule.rs\<close>,
  \<open>executable_name.rs\<close>): decisions with their order of strictness, prefix patterns, the
  matches they give, and the rules for network hosts with the normalisation of host names.
  The executable names are those of a Unix build.
\<close>

section \<open>Decisions\<close>

datatype decision = Allow | Prompt | Forbidden

datatype policy_error =
    InvalidDecision rstr
  | InvalidPattern rstr
  | InvalidExample rstr
  | InvalidRule rstr
  | StarlarkError rstr

definition decision_parse :: "rstr \<Rightarrow> (policy_error, decision) result" where
  "decision_parse raw =
     (if raw = lit ''allow'' then Inr Allow
      else if raw = lit ''prompt'' then Inr Prompt
      else if raw = lit ''forbidden'' then Inr Forbidden
      else Inl (InvalidDecision raw))"

text \<open>The derived order: later constructors are stricter.\<close>

fun strictness_rank :: "decision \<Rightarrow> nat" where
  "strictness_rank Allow = 0"
| "strictness_rank Prompt = 1"
| "strictness_rank Forbidden = 2"

instantiation decision :: linorder
begin

definition less_eq_decision :: "decision \<Rightarrow> decision \<Rightarrow> bool" where
  "less_eq_decision a b \<longleftrightarrow> strictness_rank a \<le> strictness_rank b"

definition less_decision :: "decision \<Rightarrow> decision \<Rightarrow> bool" where
  "less_decision a b \<longleftrightarrow> strictness_rank a < strictness_rank b"

instance
proof
  fix a b c :: decision
  show "a < b \<longleftrightarrow> a \<le> b \<and> \<not> b \<le> a" by (auto simp: less_decision_def less_eq_decision_def)
  show "a \<le> a" by (simp add: less_eq_decision_def)
  show "a \<le> b \<Longrightarrow> b \<le> c \<Longrightarrow> a \<le> c" by (simp add: less_eq_decision_def)
  show "a \<le> b \<Longrightarrow> b \<le> a \<Longrightarrow> a = b" by (cases a; cases b) (simp_all add: less_eq_decision_def)
  show "a \<le> b \<or> b \<le> a" by (auto simp: less_eq_decision_def)
qed

end

lemma Allow_least: "Allow \<le> d"
  by (simp add: less_eq_decision_def)

lemma Forbidden_greatest: "d \<le> Forbidden"
  by (cases d) (simp_all add: less_eq_decision_def)

section \<open>Patterns\<close>

datatype pattern_token = Single rstr | Alts "rstr list"

fun token_matches :: "pattern_token \<Rightarrow> rstr \<Rightarrow> bool" where
  "token_matches (Single expected) token \<longleftrightarrow> expected = token"
| "token_matches (Alts alternatives) token \<longleftrightarrow> (\<exists>alt \<in> set alternatives. alt = token)"

fun token_alternatives :: "pattern_token \<Rightarrow> rstr list" where
  "token_alternatives (Single expected) = [expected]"
| "token_alternatives (Alts alternatives) = alternatives"

record prefix_pattern =
  pat_first :: rstr
  pat_rest :: "pattern_token list"

definition matches_prefix :: "prefix_pattern \<Rightarrow> rstr list \<Rightarrow> rstr list option" where
  "matches_prefix p cmd =
     (let pattern_length = length (pat_rest p) + 1
      in if length cmd < pattern_length \<or> hd cmd \<noteq> pat_first p then None
         else if \<exists>(pattern_token, cmd_token) \<in> set (zip (pat_rest p) (take (pattern_length - 1) (tl cmd))).
             \<not> token_matches pattern_token cmd_token
         then None
         else Some (take pattern_length cmd))"

datatype rule_match =
    PrefixRuleMatch (matched_prefix: "rstr list") (match_decision: decision) (resolved_program: "rstr option")
      (match_justification: "rstr option")
  | HeuristicsRuleMatch (heuristics_command: "rstr list") (match_decision: decision)

fun with_resolved_program :: "rule_match \<Rightarrow> rstr \<Rightarrow> rule_match" where
  "with_resolved_program (PrefixRuleMatch pre d _ j) program = PrefixRuleMatch pre d (Some program) j"
| "with_resolved_program other program = other"

record prefix_rule =
  rule_pattern :: prefix_pattern
  rule_decision :: decision
  rule_justification :: "rstr option"

definition rule_program :: "prefix_rule \<Rightarrow> rstr" where
  "rule_program r = pat_first (rule_pattern r)"

definition rule_matches :: "prefix_rule \<Rightarrow> rstr list \<Rightarrow> rule_match option" where
  "rule_matches r cmd =
     map_option (\<lambda>pre. PrefixRuleMatch pre (rule_decision r) None (rule_justification r))
       (matches_prefix (rule_pattern r) cmd)"

section \<open>Network rules\<close>

datatype network_rule_protocol = Http | Https | Socks5Tcp | Socks5Udp

definition protocol_parse :: "rstr \<Rightarrow> (policy_error, network_rule_protocol) result" where
  "protocol_parse raw =
     (if raw = lit ''http'' then Inr Http
      else if raw \<in> {lit ''https'', lit ''https_connect'', lit ''http-connect''} then Inr Https
      else if raw = lit ''socks5_tcp'' then Inr Socks5Tcp
      else if raw = lit ''socks5_udp'' then Inr Socks5Udp
      else Inl (InvalidRule (lit ''network_rule protocol must be one of http, https, socks5_tcp, socks5_udp (got '' @
             raw @ lit '')'')))"

fun as_policy_string :: "network_rule_protocol \<Rightarrow> rstr" where
  "as_policy_string Http = lit ''http''"
| "as_policy_string Https = lit ''https''"
| "as_policy_string Socks5Tcp = lit ''socks5_tcp''"
| "as_policy_string Socks5Udp = lit ''socks5_udp''"

record network_rule =
  net_host :: rstr
  net_protocol :: network_rule_protocol
  net_decision :: decision
  net_justification :: "rstr option"

abbreviation asterisk :: rchar where "asterisk \<equiv> 42"

definition all_digits :: "rstr \<Rightarrow> bool" where
  "all_digits s \<longleftrightarrow> s \<noteq> [] \<and> list_all is_ascii_digit s"

text \<open>The host without brackets and port.\<close>

definition host_without_port :: "rstr \<Rightarrow> rstr \<Rightarrow> (policy_error, rstr) result" where
  "host_without_port raw host =
     (case strip_prefix [91] host of
        Some stripped \<Rightarrow>
          (case split_once 93 stripped of
             None \<Rightarrow> Inl (InvalidRule (lit ''network_rule host has an invalid bracketed IPv6 literal''))
           | Some (inside, rest) \<Rightarrow>
               if rest \<noteq> [] \<and> \<not> (case strip_prefix [colon] rest of Some port \<Rightarrow> all_digits port | None \<Rightarrow> False)
               then Inl (InvalidRule (lit ''network_rule host contains an unsupported suffix: '' @ raw))
               else Inr inside)
      | None \<Rightarrow>
          (case rsplit_once colon host of
             Some (candidate, port) \<Rightarrow>
               if count_list host colon = 1 \<and> candidate \<noteq> [] \<and> all_digits port then Inr candidate else Inr host
           | None \<Rightarrow> Inr host))"

definition normalize_network_rule_host :: "rstr \<Rightarrow> (policy_error, rstr) result" where
  "normalize_network_rule_host raw =
     (let host = trim raw
      in if host = [] then Inl (InvalidRule (lit ''network_rule host cannot be empty''))
         else if str_contains host (lit ''://'') \<or> 47 \<in> set host \<or> 63 \<in> set host \<or> 35 \<in> set host
         then Inl (InvalidRule (lit ''network_rule host must be a hostname or IP literal (without scheme or path)''))
         else rbind (host_without_port raw host) (\<lambda>host.
           let normalized = to_ascii_lowercase (trim (trim_end_matches dot host))
           in if normalized = [] then Inl (InvalidRule (lit ''network_rule host cannot be empty''))
              else if asterisk \<in> set normalized
              then Inl (InvalidRule (lit ''network_rule host must be a specific host; wildcards are not allowed''))
              else if \<exists>c \<in> set normalized. is_whitespace c
              then Inl (InvalidRule (lit ''network_rule host cannot contain whitespace''))
              else Inr normalized))"

section \<open>Executable names\<close>

definition executable_lookup_key :: "rstr \<Rightarrow> rstr" where
  "executable_lookup_key raw = raw"

definition executable_path_lookup_key :: "rstr \<Rightarrow> rstr option" where
  "executable_path_lookup_key path = map_option executable_lookup_key (file_name path)"

section \<open>What patterns match\<close>

lemma matches_prefix_iff:
  "matches_prefix p cmd = Some pre \<longleftrightarrow>
     (\<exists>rest suff. cmd = (pat_first p # rest) @ suff \<and> list_all2 token_matches (pat_rest p) rest \<and> pre = pat_first p # rest)"
proof
  assume m: "matches_prefix p cmd = Some pre"
  let ?n = "length (pat_rest p)"
  from m have len: "Suc ?n \<le> length cmd" and hd: "hd cmd = pat_first p"
    and all: "\<forall>(t, c) \<in> set (zip (pat_rest p) (take ?n (tl cmd))). token_matches t c"
    and pre: "pre = take (Suc ?n) cmd"
    by (auto simp: matches_prefix_def Let_def split: if_splits)
  obtain c cs where cmd: "cmd = c # cs" using len by (cases cmd) auto
  have "list_all2 token_matches (pat_rest p) (take ?n cs)"
    using all len cmd by (auto simp: list_all2_iff)
  with cmd hd pre show "\<exists>rest suff. cmd = (pat_first p # rest) @ suff \<and>
      list_all2 token_matches (pat_rest p) rest \<and> pre = pat_first p # rest"
    by (intro exI [of _ "take ?n cs"] exI [of _ "drop ?n cs"]) simp
next
  assume "\<exists>rest suff. cmd = (pat_first p # rest) @ suff \<and>
      list_all2 token_matches (pat_rest p) rest \<and> pre = pat_first p # rest"
  then obtain rest suff where r: "cmd = (pat_first p # rest) @ suff" "list_all2 token_matches (pat_rest p) rest"
    "pre = pat_first p # rest" by blast
  then have "length (pat_rest p) = length rest" by (simp add: list_all2_lengthD)
  with r show "matches_prefix p cmd = Some pre"
    by (auto simp: matches_prefix_def Let_def list_all2_iff)
qed

section \<open>What host names are accepted\<close>

lemma set_trim: "set (trim s) \<subseteq> set s"
  by (auto simp: trim_def trim_start_def trim_end_def dest!: set_dropWhileD)

lemma set_trim_end_matches: "set (trim_end_matches c s) \<subseteq> set s"
  by (auto simp: trim_end_matches_def dest: set_dropWhileD)

lemma split_once_set: "split_once c s = Some (a, b) \<Longrightarrow> set a \<subseteq> set s \<and> set b \<subseteq> set s"
  by (induction s arbitrary: a) (auto split: if_splits)

lemma rsplit_once_set: "rsplit_once c s = Some (a, b) \<Longrightarrow> set a \<subseteq> set s \<and> set b \<subseteq> set s"
  using split_once_set [of c "rev s"] by (fastforce simp: rsplit_once_def)

lemma host_without_port_set: "host_without_port raw host = Inr h \<Longrightarrow> set h \<subseteq> set host"
  by (auto simp: host_without_port_def strip_prefix_Some_iff split: option.splits if_splits
      dest!: split_once_set rsplit_once_set)

lemma lowercase_char_idem: "to_ascii_lowercase_char (to_ascii_lowercase_char c) = to_ascii_lowercase_char c"
  by (auto simp: to_ascii_lowercase_char_def)

lemma lowercase_idem: "to_ascii_lowercase (to_ascii_lowercase s) = to_ascii_lowercase s"
  by (simp add: to_ascii_lowercase_def lowercase_char_idem)

lemma lowercase_char_punct:
  "to_ascii_lowercase_char c = 47 \<longleftrightarrow> c = 47" "to_ascii_lowercase_char c = 63 \<longleftrightarrow> c = 63"
  "to_ascii_lowercase_char c = 35 \<longleftrightarrow> c = 35"
  by (auto simp: to_ascii_lowercase_char_def)

section \<open>Properties\<close>

text \<open>
  A pattern matches a command exactly when the command starts with the program of the
  pattern followed by tokens that the pattern's tokens accept one by one; the match reported
  is that prefix.
\<close>

theorem rule_matches_iff:
  "rule_matches r cmd = Some m \<longleftrightarrow>
     (\<exists>rest suff. cmd = rule_program r # rest @ suff \<and> list_all2 token_matches (pat_rest (rule_pattern r)) rest \<and>
        m = PrefixRuleMatch (rule_program r # rest) (rule_decision r) None (rule_justification r))"
  by (auto simp: rule_matches_def rule_program_def matches_prefix_iff)

text \<open>
  A host that the policy accepts is not empty, in lower case, and has no wildcard, no
  white space and no part of a URL other than a host.
\<close>

theorem normalized_host_wellformed:
  assumes "normalize_network_rule_host raw = Inr h"
  shows "h \<noteq> [] \<and> to_ascii_lowercase h = h \<and> asterisk \<notin> set h \<and> (\<forall>c \<in> set h. \<not> is_whitespace c) \<and>
         47 \<notin> set h \<and> 63 \<notin> set h \<and> 35 \<notin> set h"
proof -
  let ?host = "trim raw"
  have clean: "47 \<notin> set ?host" "63 \<notin> set ?host" "35 \<notin> set ?host"
    using assms by (auto simp: normalize_network_rule_host_def Let_def split: if_splits)
  obtain k where k: "host_without_port raw ?host = Inr k" "h = to_ascii_lowercase (trim (trim_end_matches dot k))"
    and h: "h \<noteq> []" "asterisk \<notin> set h" "\<forall>c \<in> set h. \<not> is_whitespace c"
    using assms by (auto simp: normalize_network_rule_host_def Let_def rbind_eq_Inr_iff split: if_splits)
  have "set (trim (trim_end_matches dot k)) \<subseteq> set ?host"
    using set_trim set_trim_end_matches host_without_port_set [OF k(1)] by blast
  with clean have "47 \<notin> set h \<and> 63 \<notin> set h \<and> 35 \<notin> set h"
    by (auto simp: k(2) to_ascii_lowercase_def lowercase_char_punct image_iff)
  with h k(2) lowercase_idem show ?thesis by simp
qed

theorem normalized_host_wellformed_witness:
  "normalize_network_rule_host (lit '' A.Com.:443'') = Inr (lit ''a.com'') \<and> asterisk \<notin> set (lit ''a.com'')"
proof -
  have "normalize_network_rule_host (lit '' A.Com.:443'') = Inr (lit ''a.com'')"
    by (simp add: normalize_network_rule_host_def host_without_port_def trim_def trim_start_def trim_end_def
        is_whitespace_def str_contains_def starts_with_def rsplit_once_def all_digits_def is_ascii_digit_def
        trim_end_matches_def to_ascii_lowercase_def to_ascii_lowercase_char_def Let_def)
  from this normalized_host_wellformed [OF this] show ?thesis by simp
qed

text \<open>
  The protocol names written to a policy file read back as the protocols they name.
\<close>

lemma protocol_roundtrip: "protocol_parse (as_policy_string p) = Inr p"
  by (cases p) (simp_all add: protocol_parse_def)

end
