(* ===== verification/Exec_Policy.thy ===== *)
theory Exec_Policy
  imports Exec_Rules
begin

text \<open>
  The execution policy (\<open>execpolicy/src/policy.rs\<close>): rules indexed by program, network rules
  and host executables; matching a command against them, exactly or through the path of a
  host executable, with a heuristic for commands that no rule matches; and the evaluation,
  which is the strictest decision of the matches. \<open>from_matches\<close> panics on no matches:
  \<open>None\<close>. The multimap is an association list with one entry per program.
\<close>

section \<open>Rules by program\<close>

type_synonym rules_map = "(rstr \<times> prefix_rule list) list"

fun multimap_insert :: "rstr \<Rightarrow> prefix_rule \<Rightarrow> rules_map \<Rightarrow> rules_map" where
  "multimap_insert k r [] = [(k, [r])]"
| "multimap_insert k r ((k', rs) # m) =
     (if k = k' then (k', rs @ [r]) # m else (k', rs) # multimap_insert k r m)"

definition get_vec :: "rules_map \<Rightarrow> rstr \<Rightarrow> prefix_rule list option" where
  "get_vec m k = map_of m k"

definition iter_all :: "rules_map \<Rightarrow> (rstr \<times> prefix_rule) list" where
  "iter_all m = concat (map (\<lambda>(k, rs). map (Pair k) rs) m)"

record policy =
  rules_by_program :: rules_map
  network_rules :: "network_rule list"
  host_executables_by_name :: "rstr \<Rightarrow> rstr list option"

definition policy_empty :: policy where
  "policy_empty = \<lparr>rules_by_program = [], network_rules = [], host_executables_by_name = Map.empty\<rparr>"

section \<open>Changing a policy\<close>

definition add_prefix_rule :: "policy \<Rightarrow> rstr list \<Rightarrow> decision \<Rightarrow> (policy_error, policy) result" where
  "add_prefix_rule p pre d =
     (case pre of
        [] \<Rightarrow> Inl (InvalidPattern (lit ''prefix cannot be empty''))
      | first_token # rest \<Rightarrow>
          Inr (p\<lparr>rules_by_program := multimap_insert first_token
            \<lparr>rule_pattern = \<lparr>pat_first = first_token, pat_rest = map Single rest\<rparr>,
             rule_decision = d, rule_justification = None\<rparr> (rules_by_program p)\<rparr>))"

definition add_network_rule ::
    "policy \<Rightarrow> rstr \<Rightarrow> network_rule_protocol \<Rightarrow> decision \<Rightarrow> rstr option \<Rightarrow> (policy_error, policy) result" where
  "add_network_rule p host protocol d justification =
     rbind (normalize_network_rule_host host) (\<lambda>h.
       if (case justification of Some raw \<Rightarrow> trim raw = [] | None \<Rightarrow> False)
       then Inl (InvalidRule (lit ''justification cannot be empty''))
       else Inr (p\<lparr>network_rules := network_rules p @
          [\<lparr>net_host = h, net_protocol = protocol, net_decision = d, net_justification = justification\<rparr>]\<rparr>))"

definition set_host_executable_paths :: "policy \<Rightarrow> rstr \<Rightarrow> rstr list \<Rightarrow> policy" where
  "set_host_executable_paths p name paths =
     p\<lparr>host_executables_by_name := (host_executables_by_name p)(name \<mapsto> paths)\<rparr>"

definition merge_overlay :: "policy \<Rightarrow> policy \<Rightarrow> policy" where
  "merge_overlay p overlay =
     \<lparr>rules_by_program =
        foldl (\<lambda>m (k, r). multimap_insert k r m) (rules_by_program p) (iter_all (rules_by_program overlay)),
      network_rules = network_rules p @ network_rules overlay,
      host_executables_by_name = host_executables_by_name p ++ host_executables_by_name overlay\<rparr>"

section \<open>Reports\<close>

fun render_pattern_token :: "pattern_token \<Rightarrow> rstr" where
  "render_pattern_token (Single v) = v"
| "render_pattern_token (Alts alternatives) = lit ''['' @ join (lit ''|'') alternatives @ lit '']''"

definition rendered_prefix :: "prefix_rule \<Rightarrow> rstr list" where
  "rendered_prefix r = pat_first (rule_pattern r) # map render_pattern_token (pat_rest (rule_pattern r))"

definition get_allowed_prefixes :: "policy \<Rightarrow> rstr list list" where
  "get_allowed_prefixes p =
     remdups_adj (sort (map (rendered_prefix \<circ> snd)
       (filter (\<lambda>(_, r). rule_decision r = Allow) (iter_all (rules_by_program p)))))"

definition upsert_domain :: "rstr list \<Rightarrow> rstr \<Rightarrow> rstr list" where
  "upsert_domain entries host = filter (\<lambda>e. e \<noteq> host) entries @ [host]"

fun domain_step :: "rstr list \<times> rstr list \<Rightarrow> network_rule \<Rightarrow> rstr list \<times> rstr list" where
  "domain_step (allowed, denied) r =
     (case net_decision r of
        Allow \<Rightarrow> (upsert_domain allowed (net_host r), filter (\<lambda>e. e \<noteq> net_host r) denied)
      | Forbidden \<Rightarrow> (filter (\<lambda>e. e \<noteq> net_host r) allowed, upsert_domain denied (net_host r))
      | Prompt \<Rightarrow> (allowed, denied))"

definition compiled_network_domains :: "policy \<Rightarrow> rstr list \<times> rstr list" where
  "compiled_network_domains p = foldl domain_step ([], []) (network_rules p)"

section \<open>Matching a command\<close>

definition match_exact_rules :: "policy \<Rightarrow> rstr list \<Rightarrow> rule_match list option" where
  "match_exact_rules p cmd =
     (case cmd of
        [] \<Rightarrow> None
      | first # _ \<Rightarrow>
          Some (case get_vec (rules_by_program p) first of
                  Some rules \<Rightarrow> List.map_filter (\<lambda>r. rule_matches r cmd) rules
                | None \<Rightarrow> []))"

definition match_host_executable_rules :: "process_env \<Rightarrow> policy \<Rightarrow> rstr list \<Rightarrow> rule_match list" where
  "match_host_executable_rules env p cmd =
     (case cmd of
        [] \<Rightarrow> []
      | first # args \<Rightarrow>
          (case from_absolute_path (env_home env) (env_current_dir env) first of
             None \<Rightarrow> []
           | Some program \<Rightarrow>
               (case executable_path_lookup_key program of
                  None \<Rightarrow> []
                | Some basename \<Rightarrow>
                    (case get_vec (rules_by_program p) basename of
                       None \<Rightarrow> []
                     | Some rules \<Rightarrow>
                         if (case host_executables_by_name p basename of
                               Some paths \<Rightarrow> \<not> (\<exists>path \<in> set paths. path = program)
                             | None \<Rightarrow> False)
                         then []
                         else map (\<lambda>m. with_resolved_program m program)
                                (List.map_filter (\<lambda>r. rule_matches r (basename # args)) rules)))))"

text \<open>\<open>MatchOptions\<close> has one field, \<open>resolve_host_executables\<close>, given as a truth value.\<close>

definition matches_for_command_with_options ::
    "process_env \<Rightarrow> policy \<Rightarrow> rstr list \<Rightarrow> (rstr list \<Rightarrow> decision) option \<Rightarrow> bool \<Rightarrow> rule_match list" where
  "matches_for_command_with_options env p cmd heuristics_fallback resolve_host_executables =
     (let matched_rules =
        (case match_exact_rules p cmd of
           Some (m # ms) \<Rightarrow> m # ms
         | _ \<Rightarrow> if resolve_host_executables then match_host_executable_rules env p cmd else [])
      in case heuristics_fallback of
           Some fallback \<Rightarrow>
             if matched_rules = [] then [HeuristicsRuleMatch cmd (fallback cmd)] else matched_rules
         | None \<Rightarrow> matched_rules)"

definition matches_for_command ::
    "process_env \<Rightarrow> policy \<Rightarrow> rstr list \<Rightarrow> (rstr list \<Rightarrow> decision) option \<Rightarrow> rule_match list" where
  "matches_for_command env p cmd heuristics_fallback =
     matches_for_command_with_options env p cmd heuristics_fallback False"

section \<open>Evaluation\<close>

record evaluation =
  eval_decision :: decision
  matched_rules :: "rule_match list"

fun is_heuristics :: "rule_match \<Rightarrow> bool" where
  "is_heuristics (HeuristicsRuleMatch _ _) = True"
| "is_heuristics _ = False"

definition is_match :: "evaluation \<Rightarrow> bool" where
  "is_match e \<longleftrightarrow> (\<exists>m \<in> set (matched_rules e). \<not> is_heuristics m)"

fun max_decision :: "decision list \<Rightarrow> decision option" where
  "max_decision [] = None"
| "max_decision (d # ds) = Some (foldl max d ds)"

definition from_matches :: "rule_match list \<Rightarrow> evaluation option" where
  "from_matches ms =
     map_option (\<lambda>d. \<lparr>eval_decision = d, matched_rules = ms\<rparr>) (max_decision (map match_decision ms))"

definition check_with_options ::
    "process_env \<Rightarrow> policy \<Rightarrow> rstr list \<Rightarrow> (rstr list \<Rightarrow> decision) \<Rightarrow> bool \<Rightarrow> evaluation option" where
  "check_with_options env p cmd heuristics_fallback options =
     from_matches (matches_for_command_with_options env p cmd (Some heuristics_fallback) options)"

definition check :: "process_env \<Rightarrow> policy \<Rightarrow> rstr list \<Rightarrow> (rstr list \<Rightarrow> decision) \<Rightarrow> evaluation option" where
  "check env p cmd heuristics_fallback =
     from_matches (matches_for_command_with_options env p cmd (Some heuristics_fallback) False)"

definition check_multiple_with_options ::
    "process_env \<Rightarrow> policy \<Rightarrow> rstr list list \<Rightarrow> (rstr list \<Rightarrow> decision) \<Rightarrow> bool \<Rightarrow> evaluation option" where
  "check_multiple_with_options env p commands heuristics_fallback options =
     from_matches (concat (map (\<lambda>cmd.
       matches_for_command_with_options env p cmd (Some heuristics_fallback) options) commands))"

definition check_multiple ::
    "process_env \<Rightarrow> policy \<Rightarrow> rstr list list \<Rightarrow> (rstr list \<Rightarrow> decision) \<Rightarrow> evaluation option" where
  "check_multiple env p commands heuristics_fallback =
     check_multiple_with_options env p commands heuristics_fallback False"

section \<open>The strictest decision\<close>

lemma foldl_max: "foldl max (d :: 'a :: linorder) ds = Max (set (d # ds))"
proof -
  have "(\<lambda>x s. max s x) = (max :: 'a \<Rightarrow> 'a \<Rightarrow> 'a)" by (intro ext) (rule max.commute)
  then show ?thesis unfolding Max.set_eq_fold foldl_conv_fold by simp
qed

lemma Max_UN_Max:
  assumes "finite A" "A \<noteq> {}" "\<forall>a. finite (F a) \<and> F a \<noteq> {}"
  shows "Max (\<Union>a \<in> A. F a) = Max ((\<lambda>a. Max (F a :: 'b :: linorder set)) ` A)"
  using assms(1,2)
proof (induction A rule: finite_ne_induct)
  case (insert a A)
  have "finite (\<Union>a \<in> A. F a)" "(\<Union>a \<in> A. F a) \<noteq> {}" using insert.hyps assms(3) by auto
  with insert assms(3) show ?case by (simp add: Max_Un)
qed simp

lemma sorted_remdups_adj_distinct: "sorted xs \<Longrightarrow> distinct (remdups_adj (xs :: 'a :: linorder list))"
  by (induction xs rule: remdups_adj.induct) (auto simp: antisym)

lemma max_decision_Max: "ds \<noteq> [] \<Longrightarrow> max_decision ds = Some (Max (set ds))"
  by (cases ds) (simp_all add: foldl_max del: set_simps)

lemma from_matches_None_iff: "from_matches ms = None \<longleftrightarrow> ms = []"
  by (cases ms) (simp_all add: from_matches_def)

lemma from_matches_Some:
  "ms \<noteq> [] \<Longrightarrow> from_matches ms = Some \<lparr>eval_decision = Max (match_decision ` set ms), matched_rules = ms\<rparr>"
  by (simp add: from_matches_def max_decision_Max)

lemma matches_nonempty: "matches_for_command_with_options env p cmd (Some f) opt \<noteq> []"
  by (auto simp: matches_for_command_with_options_def Let_def)

section \<open>Rules after an insertion and a merge\<close>

definition rules_for :: "policy \<Rightarrow> rstr \<Rightarrow> prefix_rule list" where
  "rules_for p k = (case get_vec (rules_by_program p) k of Some rs \<Rightarrow> rs | None \<Rightarrow> [])"

lemma get_vec_insert:
  "get_vec (multimap_insert k r m) k' =
     (if k' = k then Some ((case get_vec m k of Some rs \<Rightarrow> rs | None \<Rightarrow> []) @ [r]) else get_vec m k')"
  by (induction m) (auto simp: get_vec_def)

lemma rules_for_inserts:
  "(case get_vec (foldl (\<lambda>m (k, r). multimap_insert k r m) m krs) k of Some rs \<Rightarrow> rs | None \<Rightarrow> []) =
     (case get_vec m k of Some rs \<Rightarrow> rs | None \<Rightarrow> []) @ map snd (filter (\<lambda>(k', _). k' = k) krs)"
proof (induction krs arbitrary: m)
  case (Cons kr krs)
  obtain k' r where kr: "kr = (k', r)" by force
  from Cons.IH [of "multimap_insert k' r m"] show ?case
    by (simp add: kr get_vec_insert)
qed simp

text \<open>
  Well-formed policies: one entry per program, and every rule filed under its own program.
\<close>

definition filed :: "rules_map \<Rightarrow> bool" where
  "filed m \<longleftrightarrow> list_all (\<lambda>(k, rs). list_all (\<lambda>r. rule_program r = k) rs) m"

definition policy_wf :: "policy \<Rightarrow> bool" where
  "policy_wf p \<longleftrightarrow> distinct (map fst (rules_by_program p)) \<and> filed (rules_by_program p)"

lemma set_multimap_insert_keys: "set (map fst (multimap_insert k r m)) = set (k # map fst m)"
  by (induction k r m rule: multimap_insert.induct) auto

lemma distinct_multimap_insert: "distinct (map fst m) \<Longrightarrow> distinct (map fst (multimap_insert k r m))"
proof (induction m)
  case (Cons x m)
  obtain k' rs where x: "x = (k', rs)" by force
  have "k' \<notin> set (map fst (multimap_insert k r m))" if "k \<noteq> k'"
    unfolding set_multimap_insert_keys using that Cons.prems x by simp
  with Cons show ?case by (auto simp: x)
qed simp

lemma filed_multimap_insert: "filed m \<Longrightarrow> rule_program r = k \<Longrightarrow> filed (multimap_insert k r m)"
  by (induction m) (auto simp: filed_def)

lemma iter_all_filed: "filed m \<Longrightarrow> (k, r) \<in> set (iter_all m) \<Longrightarrow> rule_program r = k"
  by (fastforce simp: iter_all_def filed_def list_all_iff)

lemma iter_all_key:
  "distinct (map fst m) \<Longrightarrow>
     map snd (filter (\<lambda>(k', _). k' = k) (iter_all m)) = (case get_vec m k of Some rs \<Rightarrow> rs | None \<Rightarrow> [])"
proof (induction m)
  case (Cons x m)
  obtain k' rs where x: "x = (k', rs)" by force
  have own: "map snd (filter (\<lambda>(k'', _). k'' = k) (map (Pair k') rs)) = (if k' = k then rs else [])"
    by (induction rs) auto
  have "get_vec m k' = None" using Cons.prems x by (auto simp: get_vec_def map_of_eq_None_iff)
  with Cons own show ?case by (auto simp: x iter_all_def get_vec_def)
qed (simp add: iter_all_def get_vec_def)

lemma merge_inserts_wf:
  assumes "distinct (map fst m)" "filed m" "\<forall>(k, r) \<in> set krs. rule_program r = k"
  shows "distinct (map fst (foldl (\<lambda>m (k, r). multimap_insert k r m) m krs)) \<and>
    filed (foldl (\<lambda>m (k, r). multimap_insert k r m) m krs)"
  using assms
proof (induction krs arbitrary: m)
  case (Cons kr krs)
  obtain k r where kr: "kr = (k, r)" by force
  have "rule_program r = k" using Cons.prems(3) kr by simp
  with Cons.IH [of "multimap_insert k r m"] Cons.prems show ?case
    by (simp add: kr distinct_multimap_insert filed_multimap_insert)
qed simp

lemma merge_overlay_wf: "policy_wf p \<Longrightarrow> policy_wf q \<Longrightarrow> policy_wf (merge_overlay p q)"
  using merge_inserts_wf [of "rules_by_program p" "iter_all (rules_by_program q)"] iter_all_filed
  by (auto simp: policy_wf_def merge_overlay_def)

lemma add_prefix_rule_wf: "policy_wf p \<Longrightarrow> add_prefix_rule p pre d = Inr q \<Longrightarrow> policy_wf q"
  by (auto simp: add_prefix_rule_def policy_wf_def rule_program_def distinct_multimap_insert filed_multimap_insert
      split: list.splits)

lemma rules_for_merge:
  "policy_wf overlay \<Longrightarrow> rules_for (merge_overlay p overlay) k = rules_for p k @ rules_for overlay k"
  by (simp add: rules_for_def merge_overlay_def rules_for_inserts iter_all_key policy_wf_def)

definition exact_matches :: "policy \<Rightarrow> rstr list \<Rightarrow> rule_match list" where
  "exact_matches p cmd = List.map_filter (\<lambda>r. rule_matches r cmd) (rules_for p (hd cmd))"

lemma match_exact_rules_eq: "cmd \<noteq> [] \<Longrightarrow> match_exact_rules p cmd = Some (exact_matches p cmd)"
  by (cases cmd) (auto simp: match_exact_rules_def exact_matches_def rules_for_def List.map_filter_def split: option.splits)

lemma matches_for_command_exact:
  "exact_matches p cmd \<noteq> [] \<Longrightarrow> cmd \<noteq> [] \<Longrightarrow>
     matches_for_command_with_options env p cmd f opt = exact_matches p cmd"
  by (cases "exact_matches p cmd")
     (auto simp: matches_for_command_with_options_def match_exact_rules_eq Let_def split: option.splits)

lemma exact_matches_merge:
  "policy_wf overlay \<Longrightarrow> exact_matches (merge_overlay p overlay) cmd = exact_matches p cmd @ exact_matches overlay cmd"
  by (simp add: exact_matches_def rules_for_merge List.map_filter_def)

lemma exact_matches_not_heuristics: "m \<in> set (exact_matches p cmd) \<Longrightarrow> \<not> is_heuristics m"
  by (auto simp: exact_matches_def List.map_filter_def rule_matches_def)

lemma host_matches_not_heuristics: "m \<in> set (match_host_executable_rules env p cmd) \<Longrightarrow> \<not> is_heuristics m"
  by (auto simp: match_host_executable_rules_def List.map_filter_def rule_matches_def split: list.splits option.splits if_splits)

section \<open>Network domains\<close>

text \<open>The last rule for a host that is not a prompt decides.\<close>

definition last_verdict :: "network_rule list \<Rightarrow> rstr \<Rightarrow> decision option" where
  "last_verdict rs h =
     last_opt (map net_decision (filter (\<lambda>r. net_host r = h \<and> net_decision r \<noteq> Prompt) rs))"

lemma domains_verdict:
  "(h \<in> set (fst (foldl domain_step ([], []) rs)) \<longleftrightarrow> last_verdict rs h = Some Allow) \<and>
   (h \<in> set (snd (foldl domain_step ([], []) rs)) \<longleftrightarrow> last_verdict rs h = Some Forbidden)"
proof (induction rs rule: rev_induct)
  case Nil
  then show ?case by (simp add: last_verdict_def)
next
  case (snoc r rs)
  obtain a d where ad: "foldl domain_step ([], []) rs = (a, d)" by force
  from snoc show ?case
    by (cases "net_decision r"; cases "net_host r = h")
       (auto simp: ad last_verdict_def upsert_domain_def)
qed

lemma domains_distinct:
  "distinct (fst (foldl domain_step ([], []) rs)) \<and> distinct (snd (foldl domain_step ([], []) rs))"
proof (induction rs rule: rev_induct)
  case (snoc r rs)
  obtain a d where ad: "foldl domain_step ([], []) rs = (a, d)" by force
  from snoc show ?case by (cases "net_decision r") (simp_all add: ad upsert_domain_def)
qed simp

section \<open>Properties\<close>

text \<open>
  Checking a command always gives an evaluation, and its decision is the strictest among
  the matches it reports; there is always at least one.
\<close>

theorem check_strictest:
  "\<exists>e. check_with_options env p cmd f opt = Some e \<and> matched_rules e \<noteq> [] \<and>
     matched_rules e = matches_for_command_with_options env p cmd (Some f) opt \<and>
     eval_decision e = Max (match_decision ` set (matched_rules e))"
  by (simp add: check_with_options_def from_matches_Some matches_nonempty)

text \<open>
  The heuristic decides only when no rule matches: an evaluation without a rule match
  carries the heuristic's decision, and one with a rule match does not depend on it.
\<close>

theorem heuristics_only_without_rules:
  assumes "check_with_options env p cmd f opt = Some e"
  shows "if is_match e then \<forall>g. check_with_options env p cmd g opt = Some e
         else e = \<lparr>eval_decision = f cmd, matched_rules = [HeuristicsRuleMatch cmd (f cmd)]\<rparr>"
proof -
  define ms where "ms = matches_for_command_with_options env p cmd None opt"
  have shape: "matches_for_command_with_options env p cmd (Some g) opt =
      (if ms = [] then [HeuristicsRuleMatch cmd (g cmd)] else ms)" for g
    by (simp add: ms_def matches_for_command_with_options_def Let_def)
  have "\<not> is_heuristics m" if "m \<in> set ms" for m
    using that host_matches_not_heuristics [of m env p cmd] exact_matches_not_heuristics [of m p cmd]
      match_exact_rules_eq [of cmd p]
    by (cases "cmd = []")
       (auto simp: ms_def matches_for_command_with_options_def match_exact_rules_def Let_def
             split: option.splits list.splits if_splits)
  then have rules: "ms \<noteq> [] \<Longrightarrow> \<exists>m \<in> set ms. \<not> is_heuristics m" by (cases ms) auto
  show ?thesis
  proof (cases "ms = []")
    case True
    then have "e = \<lparr>eval_decision = f cmd, matched_rules = [HeuristicsRuleMatch cmd (f cmd)]\<rparr>"
      using assms by (simp add: check_with_options_def shape from_matches_Some)
    then show ?thesis by (simp add: is_match_def)
  next
    case False
    then have "matched_rules e = ms"
      using assms by (auto simp: check_with_options_def shape from_matches_Some)
    with rules [OF False] have "is_match e" by (simp add: is_match_def)
    with False assms show ?thesis by (simp add: check_with_options_def shape)
  qed
qed

definition git_rule :: "decision \<Rightarrow> policy" where
  "git_rule d =
     \<lparr>rules_by_program =
        [(lit ''git'', [\<lparr>rule_pattern = \<lparr>pat_first = lit ''git'', pat_rest = [Single (lit ''push'')]\<rparr>,
           rule_decision = d, rule_justification = None\<rparr>])],
      network_rules = [], host_executables_by_name = Map.empty\<rparr>"

definition no_env :: process_env where
  "no_env = \<lparr>env_home = None, env_current_dir = None\<rparr>"

lemma git_rule_matches:
  "exact_matches (git_rule d) [lit ''git'', lit ''push''] = [PrefixRuleMatch [lit ''git'', lit ''push''] d None None]"
  by (simp add: git_rule_def exact_matches_def rules_for_def get_vec_def List.map_filter_def rule_matches_def
      matches_prefix_def)

lemma git_rule_check:
  "check_with_options no_env (git_rule d) [lit ''git'', lit ''push''] f opt =
     Some \<lparr>eval_decision = d, matched_rules = [PrefixRuleMatch [lit ''git'', lit ''push''] d None None]\<rparr>"
  using matches_for_command_exact [of "git_rule d" "[lit ''git'', lit ''push'']"] git_rule_matches [of d]
  by (simp add: check_with_options_def from_matches_Some)

theorem heuristics_only_without_rules_witness:
  "\<forall>g. check_with_options no_env (git_rule Prompt) [lit ''git'', lit ''push''] g True =
     Some \<lparr>eval_decision = Prompt, matched_rules = [PrefixRuleMatch [lit ''git'', lit ''push''] Prompt None None]\<rparr>"
  using heuristics_only_without_rules [OF git_rule_check [of Prompt "\<lambda>_. Allow" True]]
  by (simp add: is_match_def)

text \<open>
  Merging an overlay never loosens a rule: a command that a rule of the base policy
  matches gets a decision at least as strict from the merged policy.
\<close>

theorem merge_overlay_not_looser:
  assumes "policy_wf overlay" "check env p cmd f = Some e" "is_match e"
    and "check env (merge_overlay p overlay) cmd f = Some e'"
  shows "eval_decision e \<le> eval_decision e'"
proof -
  have cmd: "cmd \<noteq> []" "exact_matches p cmd \<noteq> []"
  proof -
    have "matches_for_command_with_options env p cmd (Some f) False = [HeuristicsRuleMatch cmd (f cmd)]"
      if "cmd = [] \<or> exact_matches p cmd = []"
      using that match_exact_rules_eq [of cmd p]
      by (cases "cmd = []") (simp_all add: matches_for_command_with_options_def match_exact_rules_def)
    with assms(2,3) show "cmd \<noteq> []" "exact_matches p cmd \<noteq> []"
      by (auto simp: check_def from_matches_Some is_match_def)
  qed
  let ?a = "exact_matches p cmd" and ?b = "exact_matches overlay cmd"
  have "eval_decision e = Max (match_decision ` set ?a)"
    using assms(2) cmd by (auto simp: check_def matches_for_command_exact from_matches_Some)
  moreover have "eval_decision e' = Max (match_decision ` set (?a @ ?b))"
    using assms(1,4) cmd
    by (auto simp: check_def matches_for_command_exact exact_matches_merge from_matches_Some)
  moreover have "Max (match_decision ` set ?a) \<le> Max (match_decision ` set (?a @ ?b))"
    using cmd(2) by (intro Max_mono) auto
  ultimately show ?thesis by simp
qed

theorem merge_overlay_not_looser_witness:
  "\<exists>e'. check no_env (merge_overlay (git_rule Prompt) (git_rule Forbidden)) [lit ''git'', lit ''push''] (\<lambda>_. Allow) = Some e' \<and>
     Prompt \<le> eval_decision e'"
proof -
  let ?f = "\<lambda>_ :: rstr list. Allow" and ?cmd = "[lit ''git'', lit ''push'']"
  let ?e = "\<lparr>eval_decision = Prompt, matched_rules = [PrefixRuleMatch ?cmd Prompt None None]\<rparr>"
  have wf: "policy_wf (git_rule Forbidden)" by (simp add: policy_wf_def filed_def git_rule_def rule_program_def)
  have e: "check no_env (git_rule Prompt) ?cmd ?f = Some ?e"
    using git_rule_check [of Prompt ?f False] by (simp add: check_def check_with_options_def)
  have m: "is_match ?e" by (simp add: is_match_def)
  obtain e' where e': "check no_env (merge_overlay (git_rule Prompt) (git_rule Forbidden)) ?cmd ?f = Some e'"
    using from_matches_None_iff matches_nonempty by (metis check_def not_Some_eq)
  from merge_overlay_not_looser [OF wf e m e'] e' show ?thesis by simp
qed

text \<open>
  A forbidden prefix cannot be lifted: after adding it, every command that starts with
  it is forbidden, whatever the other rules, the heuristic and the options.
\<close>

theorem forbidden_prefix_decides:
  assumes "add_prefix_rule p (first # rest) Forbidden = Inr q"
  shows "\<exists>e. check_with_options env q (first # rest @ args) f opt = Some e \<and> eval_decision e = Forbidden"
proof -
  let ?cmd = "first # rest @ args"
  let ?r = "\<lparr>rule_pattern = \<lparr>pat_first = first, pat_rest = map Single rest\<rparr>, rule_decision = Forbidden, rule_justification = None\<rparr>"
  have "matches_prefix (rule_pattern ?r) ?cmd = Some (first # rest)"
    unfolding matches_prefix_iff by (auto simp: list_all2_conv_all_nth)
  then have m: "rule_matches ?r ?cmd = Some (PrefixRuleMatch (first # rest) Forbidden None None)"
    by (simp add: rule_matches_def)
  have "?r \<in> set (rules_for q first)"
    using assms by (auto simp: add_prefix_rule_def rules_for_def get_vec_insert)
  with m have "PrefixRuleMatch (first # rest) Forbidden None None \<in> set (exact_matches q ?cmd)"
    by (force simp: exact_matches_def List.map_filter_def)
  then have ms: "exact_matches q ?cmd \<noteq> []" and "Forbidden \<in> match_decision ` set (exact_matches q ?cmd)"
    by (auto simp: rev_image_eqI)
  then have "Max (match_decision ` set (exact_matches q ?cmd)) = Forbidden"
    by (intro Max_eqI) (auto simp: Forbidden_greatest)
  with ms show ?thesis by (simp add: check_with_options_def matches_for_command_exact from_matches_Some)
qed

theorem forbidden_prefix_decides_witness:
  "\<exists>q e. add_prefix_rule policy_empty [lit ''rm''] Forbidden = Inr q \<and>
     check_with_options no_env q [lit ''rm'', lit ''-f''] (\<lambda>_. Allow) True = Some e \<and> eval_decision e = Forbidden"
proof -
  obtain q where q: "add_prefix_rule policy_empty [lit ''rm''] Forbidden = Inr q"
    by (simp add: add_prefix_rule_def)
  from forbidden_prefix_decides [OF q, of no_env "[lit ''-f'']" "\<lambda>_. Allow" True] q show ?thesis by auto
qed

text \<open>
  The domains compiled for the network proxy: no domain is listed twice, none is both
  allowed and denied, and the last rule of a host that is not a prompt decides which list
  has it.
\<close>

theorem compiled_domains_last_verdict:
  "distinct (fst (compiled_network_domains p)) \<and> distinct (snd (compiled_network_domains p)) \<and>
   (h \<in> set (fst (compiled_network_domains p)) \<longleftrightarrow> last_verdict (network_rules p) h = Some Allow) \<and>
   (h \<in> set (snd (compiled_network_domains p)) \<longleftrightarrow> last_verdict (network_rules p) h = Some Forbidden)"
  using domains_verdict domains_distinct by (simp add: compiled_network_domains_def)

text \<open>
  The allowed prefixes are listed once each, in order, and are the renderings of exactly
  the rules that allow.
\<close>

theorem allowed_prefixes_exact:
  "sorted (get_allowed_prefixes p) \<and> distinct (get_allowed_prefixes p) \<and>
   set (get_allowed_prefixes p) =
     {rendered_prefix r | k r. (k, r) \<in> set (iter_all (rules_by_program p)) \<and> rule_decision r = Allow}"
proof -
  have "sorted (get_allowed_prefixes p)" by (simp add: get_allowed_prefixes_def sorted_remdups_adj)
  moreover have "distinct (get_allowed_prefixes p)"
    by (simp add: get_allowed_prefixes_def sorted_remdups_adj_distinct)
  moreover have "set (get_allowed_prefixes p) =
     {rendered_prefix r | k r. (k, r) \<in> set (iter_all (rules_by_program p)) \<and> rule_decision r = Allow}"
    by (force simp: get_allowed_prefixes_def)
  ultimately show ?thesis by blast
qed

text \<open>
  Checking several commands together panics only for no commands at all; otherwise the
  decision is the strictest of the decisions for the single commands.
\<close>

theorem check_multiple_strictest:
  "check_multiple_with_options env p cmds f opt =
     (if cmds = [] then None
      else Some \<lparr>eval_decision = Max (set (map (\<lambda>cmd. eval_decision (the (check_with_options env p cmd f opt))) cmds)),
                matched_rules = concat (map (\<lambda>cmd. matches_for_command_with_options env p cmd (Some f) opt) cmds)\<rparr>)"
proof (cases "cmds = []")
  case True
  then show ?thesis by (simp add: check_multiple_with_options_def from_matches_None_iff)
next
  case False
  let ?ms = "\<lambda>cmd. matches_for_command_with_options env p cmd (Some f) opt"
  let ?all = "concat (map ?ms cmds)"
  have one: "eval_decision (the (check_with_options env p cmd f opt)) = Max (match_decision ` set (?ms cmd))" for cmd
    by (simp add: check_with_options_def from_matches_Some matches_nonempty)
  have "?all \<noteq> []" using False matches_nonempty by (cases cmds) auto
  then have "check_multiple_with_options env p cmds f opt =
      Some \<lparr>eval_decision = Max (match_decision ` set ?all), matched_rules = ?all\<rparr>"
    by (simp add: check_multiple_with_options_def from_matches_Some)
  moreover have "match_decision ` set ?all = (\<Union>cmd \<in> set cmds. match_decision ` set (?ms cmd))" by auto
  moreover have "Max (\<Union>cmd \<in> set cmds. match_decision ` set (?ms cmd)) =
      Max ((\<lambda>cmd. Max (match_decision ` set (?ms cmd))) ` set cmds)"
    using False by (intro Max_UN_Max) (auto simp: matches_nonempty)
  ultimately show ?thesis using False by (simp add: one)
qed

end
