(* ===== verification/Exec_Parser.thy ===== *)
theory Exec_Parser
  imports Exec_Policy
begin

text \<open>
  Policy files (\<open>execpolicy/src/parser.rs\<close>). A policy file is a Starlark
  program; the Starlark evaluator is a parameter, of which the model uses the calls of the
  three builtins it makes, in order, with the values of their arguments. Splitting and
  joining shell words (\<open>shlex\<close>) is a parameter too. The builder
  keeps what calls before a failing one have added.
\<close>

section \<open>Values and calls\<close>

datatype starlark_value = SStr rstr | SList "starlark_value list" | SOther (type_name: rstr)

fun get_type :: "starlark_value \<Rightarrow> rstr" where
  "get_type (SStr _) = lit ''string''"
| "get_type (SList _) = lit ''list''"
| "get_type (SOther t) = t"

record text_position =
  pos_line :: nat
  pos_column :: nat

record error_location =
  loc_path :: rstr
  loc_start :: text_position
  loc_end :: text_position

datatype builtin_call =
    PrefixRuleCall "starlark_value list" "rstr option" "starlark_value list option" "starlark_value list option"
      "rstr option" "error_location option"
  | NetworkRuleCall rstr rstr rstr "rstr option"
  | HostExecutableCall rstr "starlark_value list"

datatype parser_error =
    PolicyError policy_error
  | ExampleDidNotMatch "prefix_rule list" "rstr list" "error_location option"
  | ExampleDidMatch rule_match rstr "error_location option"

fun with_location :: "parser_error \<Rightarrow> error_location \<Rightarrow> parser_error" where
  "with_location (ExampleDidNotMatch rules examples None) loc = ExampleDidNotMatch rules examples (Some loc)"
| "with_location (ExampleDidMatch rule ex None) loc = ExampleDidMatch rule ex (Some loc)"
| "with_location other loc = other"

definition attach_validation_location :: "parser_error \<Rightarrow> error_location option \<Rightarrow> parser_error" where
  "attach_validation_location e loc = (case loc of Some l \<Rightarrow> with_location e l | None \<Rightarrow> e)"

section \<open>Patterns and examples\<close>

text \<open>Collecting an iterator of results stops at the first error.\<close>

fun collect :: "('a \<Rightarrow> ('e, 'b) result) \<Rightarrow> 'a list \<Rightarrow> ('e, 'b list) result" where
  "collect f [] = Inr []"
| "collect f (x # xs) = rbind (f x) (\<lambda>y. rbind (collect f xs) (\<lambda>ys. Inr (y # ys)))"

fun unpack_str :: "starlark_value \<Rightarrow> rstr option" where
  "unpack_str (SStr s) = Some s"
| "unpack_str _ = None"

definition alternative_token :: "starlark_value \<Rightarrow> (policy_error, rstr) result" where
  "alternative_token v =
     (case unpack_str v of
        Some s \<Rightarrow> Inr s
      | None \<Rightarrow> Inl (InvalidPattern (lit ''pattern alternative must be a string (got '' @ get_type v @ lit '')'')))"

fun parse_pattern_token :: "starlark_value \<Rightarrow> (policy_error, pattern_token) result" where
  "parse_pattern_token (SStr s) = Inr (Single s)"
| "parse_pattern_token (SList vs) =
     rbind (collect alternative_token vs) (\<lambda>tokens.
       case tokens of
         [] \<Rightarrow> Inl (InvalidPattern (lit ''pattern alternatives cannot be empty''))
       | [single] \<Rightarrow> Inr (Single single)
       | _ \<Rightarrow> Inr (Alts tokens))"
| "parse_pattern_token (SOther t) =
     Inl (InvalidPattern (lit ''pattern element must be a string or list of strings (got '' @ t @ lit '')''))"

definition parse_pattern :: "starlark_value list \<Rightarrow> (policy_error, pattern_token list) result" where
  "parse_pattern vs =
     rbind (collect parse_pattern_token vs) (\<lambda>tokens.
       if tokens = [] then Inl (InvalidPattern (lit ''pattern cannot be empty'')) else Inr tokens)"

record shell_words =
  shlex_split :: "rstr \<Rightarrow> rstr list option"
  shlex_try_join :: "rstr list \<Rightarrow> rstr option"

definition parse_string_example :: "shell_words \<Rightarrow> rstr \<Rightarrow> (policy_error, rstr list) result" where
  "parse_string_example sh raw =
     (case shlex_split sh raw of
        None \<Rightarrow> Inl (InvalidExample (lit ''example string has invalid shell syntax''))
      | Some tokens \<Rightarrow>
          if tokens = [] then Inl (InvalidExample (lit ''example cannot be an empty string'')) else Inr tokens)"

definition parse_list_example :: "starlark_value list \<Rightarrow> (policy_error, rstr list) result" where
  "parse_list_example vs =
     rbind (collect (\<lambda>v. case unpack_str v of
                Some s \<Rightarrow> Inr s
              | None \<Rightarrow> Inl (InvalidExample (lit ''example tokens must be strings (got '' @ get_type v @ lit '')''))) vs)
       (\<lambda>tokens. if tokens = [] then Inl (InvalidExample (lit ''example cannot be an empty list'')) else Inr tokens)"

fun parse_example :: "shell_words \<Rightarrow> starlark_value \<Rightarrow> (policy_error, rstr list) result" where
  "parse_example sh (SStr raw) = parse_string_example sh raw"
| "parse_example sh (SList vs) = parse_list_example vs"
| "parse_example sh (SOther t) =
     Inl (InvalidExample (lit ''example must be a string or list of strings (got '' @ t @ lit '')''))"

definition parse_examples :: "shell_words \<Rightarrow> starlark_value list \<Rightarrow> (policy_error, rstr list list) result" where
  "parse_examples sh vs = collect (parse_example sh) vs"

section \<open>Validation of examples\<close>

definition render_example :: "shell_words \<Rightarrow> rstr list \<Rightarrow> rstr" where
  "render_example sh ex = (case shlex_try_join sh ex of Some s \<Rightarrow> s | None \<Rightarrow> lit ''unable to render example'')"

definition validate_match_examples ::
    "process_env \<Rightarrow> shell_words \<Rightarrow> policy \<Rightarrow> prefix_rule list \<Rightarrow> rstr list list \<Rightarrow> (parser_error, unit) result" where
  "validate_match_examples env sh p rules exs =
     (let unmatched = filter (\<lambda>ex. matches_for_command_with_options env p ex None True = []) exs
      in if unmatched = [] then Inr () else Inl (ExampleDidNotMatch rules (map (render_example sh) unmatched) None))"

fun validate_not_match_examples ::
    "process_env \<Rightarrow> shell_words \<Rightarrow> policy \<Rightarrow> rstr list list \<Rightarrow> (parser_error, unit) result" where
  "validate_not_match_examples env sh p [] = Inr ()"
| "validate_not_match_examples env sh p (ex # exs) =
     (case matches_for_command_with_options env p ex None True of
        m # _ \<Rightarrow> Inl (ExampleDidMatch m (render_example sh ex) None)
      | [] \<Rightarrow> validate_not_match_examples env sh p exs)"

section \<open>The builder\<close>

record pending_example_validation =
  pend_rules :: "prefix_rule list"
  pend_matches :: "rstr list list"
  pend_not_matches :: "rstr list list"
  pend_location :: "error_location option"

record policy_builder =
  b_rules :: rules_map
  b_network_rules :: "network_rule list"
  b_host_executables :: "rstr \<Rightarrow> rstr list option"
  b_pending :: "pending_example_validation list"

definition builder_new :: policy_builder where
  "builder_new = \<lparr>b_rules = [], b_network_rules = [], b_host_executables = Map.empty, b_pending = []\<rparr>"

definition add_rule :: "prefix_rule \<Rightarrow> policy_builder \<Rightarrow> policy_builder" where
  "add_rule r b = b\<lparr>b_rules := multimap_insert (rule_program r) r (b_rules b)\<rparr>"

definition build :: "policy_builder \<Rightarrow> policy" where
  "build b = \<lparr>rules_by_program = b_rules b, network_rules = b_network_rules b,
              host_executables_by_name = b_host_executables b\<rparr>"

definition validation_policy :: "policy_builder \<Rightarrow> pending_example_validation \<Rightarrow> policy" where
  "validation_policy b v =
     \<lparr>rules_by_program = foldl (\<lambda>m r. multimap_insert (rule_program r) r m) [] (pend_rules v),
      network_rules = [], host_executables_by_name = b_host_executables b\<rparr>"

fun validate_pending :: "process_env \<Rightarrow> shell_words \<Rightarrow> policy_builder \<Rightarrow> pending_example_validation list
      \<Rightarrow> (parser_error, unit) result" where
  "validate_pending env sh b [] = Inr ()"
| "validate_pending env sh b (v # vs) =
     (let p = validation_policy b v
      in case validate_not_match_examples env sh p (pend_not_matches v) of
           Inl e \<Rightarrow> Inl (attach_validation_location e (pend_location v))
         | Inr u \<Rightarrow>
             (case validate_match_examples env sh p (pend_rules v) (pend_matches v) of
                Inl e \<Rightarrow> Inl (attach_validation_location e (pend_location v))
              | Inr u \<Rightarrow> validate_pending env sh b vs))"

definition validate_pending_examples_from ::
    "process_env \<Rightarrow> shell_words \<Rightarrow> policy_builder \<Rightarrow> nat \<Rightarrow> (parser_error, unit) result" where
  "validate_pending_examples_from env sh b start = validate_pending env sh b (drop start (b_pending b))"

section \<open>The builtins\<close>

definition checked_justification :: "rstr option \<Rightarrow> (policy_error, rstr option) result" where
  "checked_justification j =
     (case j of
        Some raw \<Rightarrow> if trim raw = [] then Inl (InvalidRule (lit ''justification cannot be empty'')) else Inr (Some raw)
      | None \<Rightarrow> Inr None)"

definition optional_examples ::
    "shell_words \<Rightarrow> starlark_value list option \<Rightarrow> (policy_error, rstr list list) result" where
  "optional_examples sh exs = (case exs of Some vs \<Rightarrow> parse_examples sh vs | None \<Rightarrow> Inr [])"

definition register_rules ::
    "prefix_rule list \<Rightarrow> rstr list list \<Rightarrow> rstr list list \<Rightarrow> error_location option \<Rightarrow> policy_builder \<Rightarrow> policy_builder" where
  "register_rules rules ms nms location b =
     foldl (\<lambda>b r. add_rule r b)
       (b\<lparr>b_pending := b_pending b @ [\<lparr>pend_rules = rules, pend_matches = ms,
                                      pend_not_matches = nms, pend_location = location\<rparr>]\<rparr>) rules"

definition prefix_rule_call ::
    "shell_words \<Rightarrow> starlark_value list \<Rightarrow> rstr option \<Rightarrow> starlark_value list option \<Rightarrow> starlark_value list option
       \<Rightarrow> rstr option \<Rightarrow> error_location option \<Rightarrow> policy_builder \<Rightarrow> (policy_error, policy_builder) result" where
  "prefix_rule_call sh pattern decision_arg match_arg not_match_arg justification_arg location b =
     rbind (case decision_arg of Some raw \<Rightarrow> decision_parse raw | None \<Rightarrow> Inr Allow) (\<lambda>d.
     rbind (checked_justification justification_arg) (\<lambda>j.
     rbind (parse_pattern pattern) (\<lambda>tokens.
     rbind (optional_examples sh match_arg) (\<lambda>ms.
     rbind (optional_examples sh not_match_arg) (\<lambda>nms.
       case tokens of
         [] \<Rightarrow> Inl (InvalidPattern (lit ''pattern cannot be empty''))
       | first_token # rest \<Rightarrow>
           Inr (register_rules (map (\<lambda>head. \<lparr>rule_pattern = \<lparr>pat_first = head, pat_rest = rest\<rparr>,
                  rule_decision = d, rule_justification = j\<rparr>) (token_alternatives first_token)) ms nms location b))))))"

definition parse_network_rule_decision :: "rstr \<Rightarrow> (policy_error, decision) result" where
  "parse_network_rule_decision raw = (if raw = lit ''deny'' then Inr Forbidden else decision_parse raw)"

definition network_rule_call ::
    "rstr \<Rightarrow> rstr \<Rightarrow> rstr \<Rightarrow> rstr option \<Rightarrow> policy_builder \<Rightarrow> (policy_error, policy_builder) result" where
  "network_rule_call host protocol_arg decision_arg justification_arg b =
     rbind (protocol_parse protocol_arg) (\<lambda>pr.
     rbind (parse_network_rule_decision decision_arg) (\<lambda>d.
     rbind (checked_justification justification_arg) (\<lambda>j.
     rbind (normalize_network_rule_host host) (\<lambda>h.
       Inr (b\<lparr>b_network_rules := b_network_rules b @
          [\<lparr>net_host = h, net_protocol = pr, net_decision = d, net_justification = j\<rparr>]\<rparr>)))))"

definition validate_host_executable_name :: "rstr \<Rightarrow> (policy_error, unit) result" where
  "validate_host_executable_name name =
     (if name = [] then Inl (InvalidRule (lit ''host_executable name cannot be empty''))
      else if length (components name) \<noteq> 1 \<or> file_name name \<noteq> Some name
      then Inl (InvalidRule (lit ''host_executable name must be a bare executable name (got '' @ name @ lit '')''))
      else Inr ())"

definition parse_literal_absolute_path :: "process_env \<Rightarrow> rstr \<Rightarrow> (policy_error, rstr) result" where
  "parse_literal_absolute_path env raw =
     (if \<not> is_absolute raw
      then Inl (InvalidRule (lit ''host_executable paths must be absolute (got '' @ raw @ lit '')''))
      else case from_absolute_path (env_home env) (env_current_dir env) raw of
             Some p \<Rightarrow> Inr p
           | None \<Rightarrow> Inl (InvalidRule (lit ''invalid absolute path '' @ raw)))"

definition basename_message :: "rstr \<Rightarrow> rstr \<Rightarrow> policy_error" where
  "basename_message raw name =
     InvalidRule (lit ''host_executable path `'' @ raw @ lit ''` must have basename `'' @ name @ lit ''`'')"

fun host_paths_loop :: "process_env \<Rightarrow> rstr \<Rightarrow> starlark_value list \<Rightarrow> rstr list \<Rightarrow> (policy_error, rstr list) result" where
  "host_paths_loop env name [] parsed = Inr parsed"
| "host_paths_loop env name (v # vs) parsed =
     (case unpack_str v of
        None \<Rightarrow> Inl (InvalidRule (lit ''host_executable paths must be strings (got '' @ get_type v @ lit '')''))
      | Some raw \<Rightarrow>
          rbind (parse_literal_absolute_path env raw) (\<lambda>path.
            case executable_path_lookup_key path of
              None \<Rightarrow> Inl (basename_message raw name)
            | Some path_name \<Rightarrow>
                if path_name \<noteq> executable_lookup_key name then Inl (basename_message raw name)
                else host_paths_loop env name vs (if path \<in> set parsed then parsed else parsed @ [path])))"

definition host_executable_call ::
    "process_env \<Rightarrow> rstr \<Rightarrow> starlark_value list \<Rightarrow> policy_builder \<Rightarrow> (policy_error, policy_builder) result" where
  "host_executable_call env name paths b =
     rbind (validate_host_executable_name name) (\<lambda>_.
     rbind (host_paths_loop env name paths []) (\<lambda>parsed.
       Inr (b\<lparr>b_host_executables := (b_host_executables b)(executable_lookup_key name \<mapsto> parsed)\<rparr>)))"

section \<open>Parsing a file\<close>

fun run_builtin :: "process_env \<Rightarrow> shell_words \<Rightarrow> policy_builder \<Rightarrow> builtin_call \<Rightarrow> policy_builder \<times> parser_error option" where
  "run_builtin env sh b call =
     (let r = (case call of
          PrefixRuleCall pattern d m nm j loc \<Rightarrow> prefix_rule_call sh pattern d m nm j loc b
        | NetworkRuleCall h pr d j \<Rightarrow> network_rule_call h pr d j b
        | HostExecutableCall name paths \<Rightarrow> host_executable_call env name paths b)
      in case r of Inr b' \<Rightarrow> (b', None) | Inl e \<Rightarrow> (b, Some (PolicyError e)))"

text \<open>
  The evaluator gives the calls the program makes until it ends or fails, and its own error.
\<close>

type_synonym starlark_eval = "rstr \<Rightarrow> rstr \<Rightarrow> builtin_call list \<times> rstr option"

definition policy_parse ::
    "process_env \<Rightarrow> shell_words \<Rightarrow> starlark_eval \<Rightarrow> rstr \<Rightarrow> rstr \<Rightarrow> policy_builder \<Rightarrow> policy_builder \<times> parser_error option" where
  "policy_parse env sh evaluate ident contents b =
     (let pending_validation_count = length (b_pending b); (calls, failure) = evaluate ident contents
      in case fold_until (run_builtin env sh) b calls of
           (b', Some e) \<Rightarrow> (b', Some e)
         | (b', None) \<Rightarrow>
             (case failure of
                Some msg \<Rightarrow> (b', Some (PolicyError (StarlarkError msg)))
              | None \<Rightarrow>
                  (case validate_pending_examples_from env sh b' pending_validation_count of
                     Inl e \<Rightarrow> (b', Some e)
                   | Inr u \<Rightarrow> (b', None))))"

section \<open>The builder keeps well-formed policies\<close>

definition host_entry_ok :: "rstr \<Rightarrow> rstr list \<Rightarrow> bool" where
  "host_entry_ok name paths \<longleftrightarrow>
     distinct paths \<and> (\<forall>p \<in> set paths. normal_absolute p \<and> file_name p = Some name)"

definition builder_inv :: "policy_builder \<Rightarrow> bool" where
  "builder_inv b \<longleftrightarrow>
     policy_wf (build b) \<and>
     (\<forall>r \<in> set (b_network_rules b). \<exists>raw. normalize_network_rule_host raw = Inr (net_host r)) \<and>
     (\<forall>name paths. b_host_executables b name = Some paths \<longrightarrow> host_entry_ok name paths)"

lemma add_rules_eq:
  "foldl (\<lambda>b r. add_rule r b) b rs =
     b\<lparr>b_rules := foldl (\<lambda>m (k, r). multimap_insert k r m) (b_rules b) (map (\<lambda>r. (rule_program r, r)) rs)\<rparr>"
  by (induction rs arbitrary: b) (simp_all add: add_rule_def)

lemma add_rules_inv: "builder_inv b \<Longrightarrow> builder_inv (foldl (\<lambda>b r. add_rule r b) b rs)"
  using merge_inserts_wf [of "b_rules b" "map (\<lambda>r. (rule_program r, r)) rs"]
  by (simp add: builder_inv_def add_rules_eq policy_wf_def build_def)

lemma register_rules_inv: "builder_inv b \<Longrightarrow> builder_inv (register_rules rs ms nms loc b)"
  unfolding register_rules_def by (rule add_rules_inv) (simp add: builder_inv_def build_def)

lemma prefix_rule_call_inv:
  "builder_inv b \<Longrightarrow> prefix_rule_call sh pattern d m nm j loc b = Inr b' \<Longrightarrow> builder_inv b'"
  by (auto simp: prefix_rule_call_def rbind_eq_Inr_iff register_rules_inv neq_Nil_conv split: list.split_asm)

lemma network_rule_call_inv:
  assumes "builder_inv b" "network_rule_call h pr d j b = Inr b'"
  shows "builder_inv b'"
proof -
  have "\<exists>r. normalize_network_rule_host h = Inr (net_host r) \<and> b' = b\<lparr>b_network_rules := b_network_rules b @ [r]\<rparr>"
    using assms(2) by (auto simp: network_rule_call_def rbind_eq_Inr_iff intro: exI [of _ "\<lparr>net_host = _, net_protocol = _, net_decision = _, net_justification = _\<rparr>"])
  then show ?thesis using assms(1) by (auto simp: builder_inv_def build_def policy_wf_def)
qed

lemma parse_literal_normal:
  "parse_literal_absolute_path env raw = Inr p \<Longrightarrow> normal_absolute p"
  by (auto simp: parse_literal_absolute_path_def from_absolute_path_def expand_absolute normalize_path_absolute
      split: if_splits)

lemma host_paths_loop_ok:
  assumes "host_paths_loop env name vs acc = Inr ps" "host_entry_ok name acc"
  shows "host_entry_ok name ps"
  using assms
proof (induction vs arbitrary: acc)
  case (Cons v vs)
  obtain raw path where raw: "unpack_str v = Some raw" "parse_literal_absolute_path env raw = Inr path"
      "executable_path_lookup_key path = Some (executable_lookup_key name)"
      "host_paths_loop env name vs (if path \<in> set acc then acc else acc @ [path]) = Inr ps"
    using Cons.prems(1) by (auto simp: rbind_eq_Inr_iff split: option.splits if_splits)
  have "host_entry_ok name (if path \<in> set acc then acc else acc @ [path])"
    using Cons.prems(2) raw(3) parse_literal_normal [OF raw(2)]
    by (auto simp: host_entry_ok_def executable_path_lookup_key_def executable_lookup_key_def)
  with Cons.IH raw(4) show ?case by blast
qed simp

lemma host_executable_call_inv:
  assumes "builder_inv b" "host_executable_call env name paths b = Inr b'"
  shows "builder_inv b'"
proof -
  obtain ps where ps: "host_paths_loop env name paths [] = Inr ps"
      "b' = b\<lparr>b_host_executables := (b_host_executables b)(name \<mapsto> ps)\<rparr>"
    using assms(2) by (auto simp: host_executable_call_def rbind_eq_Inr_iff executable_lookup_key_def)
  have "host_entry_ok name ps" using host_paths_loop_ok [OF ps(1)] by (simp add: host_entry_ok_def)
  with assms(1) ps(2) show ?thesis by (auto simp: builder_inv_def build_def policy_wf_def)
qed

lemma run_builtin_inv:
  assumes "builder_inv b"
  shows "builder_inv (fst (run_builtin env sh b call))"
proof (cases call)
  case (PrefixRuleCall p d m nm j loc)
  with assms prefix_rule_call_inv [OF assms] show ?thesis
    by (cases "prefix_rule_call sh p d m nm j loc b") (simp_all add: Let_def)
next
  case (NetworkRuleCall h pr d j)
  with assms network_rule_call_inv [OF assms] show ?thesis
    by (cases "network_rule_call h pr d j b") (simp_all add: Let_def)
next
  case (HostExecutableCall name paths)
  with assms host_executable_call_inv [OF assms] show ?thesis
    by (cases "host_executable_call env name paths b") (simp_all add: Let_def)
qed

interpretation builtins: fallible_stepper "run_builtin env sh" builder_inv for env sh
  by unfold_locales (rule run_builtin_inv)

lemma policy_parse_inv:
  assumes "builder_inv b"
  shows "builder_inv (fst (policy_parse env sh evaluate ident contents b))"
proof -
  obtain calls failure where ev: "evaluate ident contents = (calls, failure)" by force
  have "builder_inv (fst (fold_until (run_builtin env sh) b calls))"
    using builtins.finv_feed [OF assms, of env sh calls] by (simp add: builtins.feed_def)
  then show ?thesis
    by (auto simp: policy_parse_def ev Let_def split: prod.splits option.splits sum.splits)
qed

lemma builder_new_inv: "builder_inv builder_new"
  by (simp add: builder_inv_def builder_new_def build_def policy_wf_def filed_def)

section \<open>Examples\<close>

definition examples_hold :: "process_env \<Rightarrow> policy_builder \<Rightarrow> pending_example_validation \<Rightarrow> bool" where
  "examples_hold env b v \<longleftrightarrow>
     (\<forall>ex \<in> set (pend_matches v). matches_for_command_with_options env (validation_policy b v) ex None True \<noteq> []) \<and>
     (\<forall>ex \<in> set (pend_not_matches v). matches_for_command_with_options env (validation_policy b v) ex None True = [])"

lemma validate_not_match_iff:
  "validate_not_match_examples env sh p exs = Inr () \<longleftrightarrow>
     (\<forall>ex \<in> set exs. matches_for_command_with_options env p ex None True = [])"
  by (induction exs) (auto split: list.splits)

lemma validate_match_iff:
  "validate_match_examples env sh p rules exs = Inr () \<longleftrightarrow>
     (\<forall>ex \<in> set exs. matches_for_command_with_options env p ex None True \<noteq> [])"
  by (auto simp: validate_match_examples_def Let_def filter_empty_conv)

lemma validate_pending_iff:
  "validate_pending env sh b vs = Inr () \<longleftrightarrow> (\<forall>v \<in> set vs. examples_hold env b v)"
proof (induction vs)
  case (Cons v vs)
  let ?p = "validation_policy b v"
  have "examples_hold env b v \<longleftrightarrow>
      validate_not_match_examples env sh ?p (pend_not_matches v) = Inr () \<and>
      validate_match_examples env sh ?p (pend_rules v) (pend_matches v) = Inr ()"
    by (auto simp: examples_hold_def validate_not_match_iff validate_match_iff)
  with Cons show ?case
    by (cases "validate_not_match_examples env sh ?p (pend_not_matches v)";
        cases "validate_match_examples env sh ?p (pend_rules v) (pend_matches v)") (simp_all add: Let_def)
qed simp

section \<open>Properties\<close>

text \<open>
  C38: Whatever policy files the parser is given, one after the other, and whether parsing
  them fails, the policy built is well-formed: each rule is filed under its program, every network host is a normalised one,
  and the paths of a host executable are distinct normal absolute paths with its base name.
\<close>

theorem parsed_policy_wellformed:
  "builder_inv (foldl (\<lambda>b (ident, contents). fst (policy_parse env sh evaluate ident contents b)) builder_new files)"
proof (induction files rule: rev_induct)
  case (snoc x files)
  then show ?case by (simp add: policy_parse_inv split: prod.split)
qed (simp add: builder_new_inv)

text \<open>
  When a policy file parses, the examples of its rules hold: with the host executables
  of the finished file, every \<open>match\<close> example is matched by its rule and no \<open>not_match\<close>
  example is.
\<close>

theorem parsed_examples_hold:
  assumes "policy_parse env sh evaluate ident contents b = (b', None)"
  shows "\<forall>v \<in> set (drop (length (b_pending b)) (b_pending b')). examples_hold env b' v"
proof -
  have "validate_pending_examples_from env sh b' (length (b_pending b)) = Inr ()"
    using assms by (auto simp: policy_parse_def Let_def split: prod.splits option.splits sum.splits)
  then show ?thesis by (simp add: validate_pending_examples_from_def validate_pending_iff)
qed

definition plain_words :: shell_words where
  "plain_words = \<lparr>shlex_split = (\<lambda>s. Some (split_on 32 s)), shlex_try_join = (\<lambda>ws. Some (join [32] ws))\<rparr>"

definition demo_calls :: starlark_eval where
  "demo_calls = (\<lambda>_ _. ([PrefixRuleCall [SStr (lit ''ls'')] None (Some [SStr (lit ''ls a'')]) (Some [SStr (lit ''cat'')]) None None], None))"

theorem parsed_examples_hold_witness:
  "\<exists>b'. policy_parse no_env plain_words demo_calls [] [] builder_new = (b', None) \<and> b_pending b' \<noteq> [] \<and>
     (\<forall>v \<in> set (b_pending b'). examples_hold no_env b' v)"
proof -
  let ?r = "policy_parse no_env plain_words demo_calls [] [] builder_new"
  have e: "snd ?r = None" "b_pending (fst ?r) \<noteq> []" by code_simp+
  then have r: "?r = (fst ?r, None)" by (metis prod.collapse)
  from parsed_examples_hold [OF r] r e show ?thesis
    by (intro exI [of _ "fst ?r"]) (simp add: builder_new_def)
qed

end
