(* ===== verification/Exec_Amend.thy ===== *)
theory Exec_Amend
  imports Exec_Parser
begin

text \<open>
  Adding a rule to a policy file (\<open>execpolicy/src/amend.rs\<close>): the line is built, the
  directory made if it is missing, the file opened for appending, locked, read, and the line
  written unless the file has it. The operations of the standard library on files are the
  fields of a record over a world \<open>'w\<close>; each may fail with an I/O error \<open>'e\<close> and change the
  world when it does. Writing JSON strings is a parameter.
\<close>

section \<open>Files and errors\<close>

record ('w, 'e) policy_file_ops =
  create_dir :: "rstr \<Rightarrow> 'w \<Rightarrow> 'w \<times> ('e, unit) result"
  is_already_exists :: "'e \<Rightarrow> bool"
  open_append :: "rstr \<Rightarrow> 'w \<Rightarrow> 'w \<times> ('e, unit) result"
  lock_file :: "rstr \<Rightarrow> 'w \<Rightarrow> 'w \<times> ('e, unit) result"
  seek_start :: "rstr \<Rightarrow> 'w \<Rightarrow> 'w \<times> ('e, unit) result"
  read_to_string :: "rstr \<Rightarrow> 'w \<Rightarrow> 'w \<times> ('e, rstr) result"
  write_all :: "rstr \<Rightarrow> rstr \<Rightarrow> 'w \<Rightarrow> 'w \<times> ('e, unit) result"

datatype 'e amend_error =
    EmptyPrefix
  | InvalidNetworkRule rstr
  | MissingParent rstr
  | CreatePolicyDir rstr 'e
  | SerializePrefix rstr
  | SerializeNetworkRule rstr
  | OpenPolicyFile rstr 'e
  | WritePolicyFile rstr 'e
  | LockPolicyFile rstr 'e
  | SeekPolicyFile rstr 'e
  | ReadPolicyFile rstr 'e
  | PolicyMetadata rstr 'e

text \<open>\<open>serde_json::to_string\<close> on a string: the quoted text, or the message of its error.\<close>

type_synonym json_writer = "rstr \<Rightarrow> (rstr, rstr) result"

text \<open>\<open>op.map_err(f)?\<close> and what follows it.\<close>

definition io_then ::
    "('w \<times> ('e, 'a) result) \<Rightarrow> ('e \<Rightarrow> 'd) \<Rightarrow> ('a \<Rightarrow> 'w \<Rightarrow> 'w \<times> ('d, 'b) result) \<Rightarrow> 'w \<times> ('d, 'b) result" where
  "io_then r f k = (case r of (w, Inl e) \<Rightarrow> (w, Inl (f e)) | (w, Inr v) \<Rightarrow> k v w)"

definition map_err :: "('e \<Rightarrow> 'd) \<Rightarrow> ('e, 'a) result \<Rightarrow> ('d, 'a) result" where
  "map_err f = map_sum f id"

fun policy_error_display :: "policy_error \<Rightarrow> rstr" where
  "policy_error_display (InvalidDecision t) = lit ''invalid decision: '' @ t"
| "policy_error_display (InvalidPattern t) = lit ''invalid pattern element: '' @ t"
| "policy_error_display (InvalidExample t) = lit ''invalid example: '' @ t"
| "policy_error_display (InvalidRule t) = lit ''invalid rule: '' @ t"
| "policy_error_display (StarlarkError t) = lit ''starlark error: '' @ t"

section \<open>Appending a line\<close>

definition append_locked_line ::
    "('w, 'e) policy_file_ops \<Rightarrow> rstr \<Rightarrow> rstr \<Rightarrow> 'w \<Rightarrow> 'w \<times> ('e amend_error, unit) result" where
  "append_locked_line ops policy_path line w =
     io_then (open_append ops policy_path w) (OpenPolicyFile policy_path) (\<lambda>_ w.
     io_then (lock_file ops policy_path w) (LockPolicyFile policy_path) (\<lambda>_ w.
     io_then (seek_start ops policy_path w) (SeekPolicyFile policy_path) (\<lambda>_ w.
     io_then (read_to_string ops policy_path w) (ReadPolicyFile policy_path) (\<lambda>contents w.
       if line \<in> set (str_lines contents) then (w, Inr ())
       else
         io_then
           (if contents \<noteq> [] \<and> \<not> ends_with contents [newline] then write_all ops policy_path [newline] w
            else (w, Inr ()))
           (WritePolicyFile policy_path) (\<lambda>_ w.
         io_then (write_all ops policy_path (line @ [newline]) w) (WritePolicyFile policy_path) (\<lambda>_ w.
           (w, Inr ())))))))"

definition append_rule_line ::
    "('w, 'e) policy_file_ops \<Rightarrow> rstr \<Rightarrow> rstr \<Rightarrow> 'w \<Rightarrow> 'w \<times> ('e amend_error, unit) result" where
  "append_rule_line ops policy_path rule w =
     (case path_parent policy_path of
        None \<Rightarrow> (w, Inl (MissingParent policy_path))
      | Some dir \<Rightarrow>
          (case create_dir ops dir w of
             (w, Inr u) \<Rightarrow> append_locked_line ops policy_path rule w
           | (w, Inl source) \<Rightarrow>
               if is_already_exists ops source then append_locked_line ops policy_path rule w
               else (w, Inl (CreatePolicyDir dir source))))"

section \<open>The rules written\<close>

definition allow_prefix_line :: "json_writer \<Rightarrow> rstr list \<Rightarrow> ('e amend_error, rstr) result" where
  "allow_prefix_line json pre =
     (if pre = [] then Inl EmptyPrefix
      else rbind (map_err SerializePrefix (collect json pre)) (\<lambda>tokens.
        Inr (lit ''prefix_rule(pattern=['' @ join (lit '', '') tokens @ lit ''], decision='' @ [34] @ lit ''allow'' @ [34] @ lit '')'')))"

definition blocking_append_allow_prefix_rule ::
    "json_writer \<Rightarrow> ('w, 'e) policy_file_ops \<Rightarrow> rstr \<Rightarrow> rstr list \<Rightarrow> 'w \<Rightarrow> 'w \<times> ('e amend_error, unit) result" where
  "blocking_append_allow_prefix_rule json ops policy_path pre w =
     (case allow_prefix_line json pre of
        Inl e \<Rightarrow> (w, Inl e)
      | Inr rule \<Rightarrow> append_rule_line ops policy_path rule w)"

fun amend_decision :: "decision \<Rightarrow> rstr" where
  "amend_decision Allow = lit ''allow''"
| "amend_decision Prompt = lit ''prompt''"
| "amend_decision Forbidden = lit ''deny''"

definition network_rule_line ::
    "json_writer \<Rightarrow> rstr \<Rightarrow> network_rule_protocol \<Rightarrow> decision \<Rightarrow> rstr option \<Rightarrow> ('e amend_error, rstr) result" where
  "network_rule_line json host pr d justification =
     rbind (map_err (\<lambda>err. InvalidNetworkRule (policy_error_display err)) (normalize_network_rule_host host)) (\<lambda>h.
       if (case justification of Some raw \<Rightarrow> trim raw = [] | None \<Rightarrow> False)
       then Inl (InvalidNetworkRule (lit ''justification cannot be empty''))
       else
     rbind (map_err SerializeNetworkRule (json h)) (\<lambda>host.
     rbind (map_err SerializeNetworkRule (json (as_policy_string pr))) (\<lambda>protocol.
     rbind (map_err SerializeNetworkRule (json (amend_decision d))) (\<lambda>dec.
     rbind (case justification of
              Some t \<Rightarrow> rbind (map_err SerializeNetworkRule (json t)) (\<lambda>q. Inr [lit ''justification='' @ q])
            | None \<Rightarrow> Inr []) (\<lambda>just.
       Inr (lit ''network_rule('' @ join (lit '', '')
         ([lit ''host='' @ host, lit ''protocol='' @ protocol, lit ''decision='' @ dec] @ just) @ lit '')''))))))"

definition blocking_append_network_rule ::
    "json_writer \<Rightarrow> ('w, 'e) policy_file_ops \<Rightarrow> rstr \<Rightarrow> rstr \<Rightarrow> network_rule_protocol \<Rightarrow> decision \<Rightarrow> rstr option \<Rightarrow>
       'w \<Rightarrow> 'w \<times> ('e amend_error, unit) result" where
  "blocking_append_network_rule json ops policy_path host pr d justification w =
     (case network_rule_line json host pr d justification of
        Inl e \<Rightarrow> (w, Inl e)
      | Inr rule \<Rightarrow> append_rule_line ops policy_path rule w)"

section \<open>What a file holds after an append\<close>

text \<open>The contents a successful append leaves.\<close>

definition with_line :: "rstr \<Rightarrow> rstr \<Rightarrow> rstr" where
  "with_line line contents =
     (if line \<in> set (str_lines contents) then contents
      else contents @ (if contents \<noteq> [] \<and> \<not> ends_with contents [newline] then [newline] else []) @ line @ [newline])"

lemma str_lines_snoc:
  assumes "newline \<notin> set line"
  shows "str_lines (line @ [newline]) = [strip_cr line]"
    and "str_lines (s @ newline # line @ [newline]) = map strip_cr (split_on newline s) @ [strip_cr line]"
  using assms split_on_append [of newline line "[]"] split_on_append [of newline s "line @ [newline]"]
  by (simp_all add: str_lines_def split_on_no_sep butlast_append)

lemma append_adds_line:
  assumes "newline \<notin> set line" "strip_cr line = line"
  shows "line \<in> set (str_lines (with_line line contents))"
proof (cases "line \<in> set (str_lines contents)")
  case False
  show ?thesis
  proof (cases "contents \<noteq> [] \<and> ends_with contents [newline]")
    case True
    then obtain s where "contents = s @ [newline]" by (auto simp: ends_with_iff)
    with False True str_lines_snoc(2) [OF assms(1), of s] assms(2) show ?thesis by (simp add: with_line_def)
  next
    case no: False
    with False str_lines_snoc [OF assms(1)] assms(2) show ?thesis by (auto simp: with_line_def)
  qed
qed (simp add: with_line_def)

text \<open>
  What the standard library promises of a file opened for appending, in terms of the contents
  \<open>held\<close> at a path: making a directory, opening, locking and seeking change no contents;
  reading returns them; a write appends its data, and a failing one at most a part of it.
\<close>

definition keeps :: "(rstr \<Rightarrow> 'w \<Rightarrow> rstr) \<Rightarrow> (rstr \<Rightarrow> 'w \<Rightarrow> 'w \<times> ('e, 'a) result) \<Rightarrow> bool" where
  "keeps held f \<longleftrightarrow> (\<forall>p q w. held q (fst (f p w)) = held q w)"

definition append_file_laws :: "('w, 'e) policy_file_ops \<Rightarrow> (rstr \<Rightarrow> 'w \<Rightarrow> rstr) \<Rightarrow> bool" where
  "append_file_laws ops held \<longleftrightarrow>
     keeps held (create_dir ops) \<and> keeps held (open_append ops) \<and> keeps held (lock_file ops) \<and>
     keeps held (seek_start ops) \<and> keeps held (read_to_string ops) \<and>
     (\<forall>p w w' t. read_to_string ops p w = (w', Inr t) \<longrightarrow> t = held p w) \<and>
     (\<forall>p d w w' u. write_all ops p d w = (w', Inr u) \<longrightarrow> held p w' = held p w @ d) \<and>
     (\<forall>p d w w' e. write_all ops p d w = (w', Inl e) \<longrightarrow> (\<exists>n. held p w' = held p w @ take n d))"

definition appended :: "(rstr \<Rightarrow> 'w \<Rightarrow> rstr) \<Rightarrow> rstr \<Rightarrow> rstr \<Rightarrow> 'w \<Rightarrow> 'w \<times> ('d, unit) result \<Rightarrow> bool" where
  "appended held p line w r \<longleftrightarrow>
     (case r of
        (w', Inr u) \<Rightarrow> held p w' = with_line line (held p w)
      | (w', Inl e) \<Rightarrow>
          (\<exists>added. held p w' = held p w @ added \<and> (line \<in> set (str_lines (held p w)) \<longrightarrow> added = [])))"


lemma appended_unchanged: "held p w' = held p w \<Longrightarrow> appended held p line w (w', Inl e)"
  by (auto simp: appended_def)

lemma appended_failure:
  "held p w' = held p w @ added \<Longrightarrow> line \<notin> set (str_lines (held p w)) \<Longrightarrow> appended held p line w (w', Inl e)"
  by (auto simp: appended_def)

lemma appended_same: "held p w1 = held p w \<Longrightarrow> appended held p line w1 r \<Longrightarrow> appended held p line w r"
  by (auto simp: appended_def split: prod.splits sum.splits)

lemma appended_then_keeps:
  assumes "keeps held f"
    and "\<And>v w1. f p w = (w1, Inr v) \<Longrightarrow> held p w1 = held p w \<Longrightarrow> appended held p line w1 (k v w1)"
  shows "appended held p line w (io_then (f p w) g k)"
proof (cases "f p w")
  case (Pair w1 r)
  then have "held p w1 = held p w" using assms(1) by (metis keeps_def fst_conv)
  with Pair assms(2) show ?thesis
    by (cases r) (auto simp: io_then_def intro: appended_unchanged appended_same)
qed

lemma write_all_outcome:
  assumes "append_file_laws ops held" "write_all ops p d w = (w', r)"
  shows "r = Inr () \<and> held p w' = held p w @ d \<or> (\<exists>e added. r = Inl e \<and> held p w' = held p w @ added)"
  using assms unfolding append_file_laws_def by (cases r) (blast, simp)

lemma appended_write:
  assumes laws: "append_file_laws ops held"
    and sep: "r = Inr () \<and> held p w2 = held p w1 @ s \<or> (\<exists>e added. r = Inl e \<and> held p w2 = held p w1 @ added)"
    and new: "line \<notin> set (str_lines (held p w1))"
    and res: "with_line line (held p w1) = held p w1 @ s @ line @ [newline]"
  shows "appended held p line w1
           (io_then (w2, r) (WritePolicyFile p)
              (\<lambda>_ w. io_then (write_all ops p (line @ [newline]) w) (WritePolicyFile p) (\<lambda>_ w. (w, Inr ()))))"
  using sep
proof (elim disjE exE conjE)
  assume ok: "r = Inr ()" "held p w2 = held p w1 @ s"
  obtain w3 x where wr: "write_all ops p (line @ [newline]) w2 = (w3, x)" by fastforce
  from write_all_outcome [OF laws wr] ok wr res new show ?thesis
    by (auto simp: io_then_def appended_def)
qed (use new in \<open>auto simp: io_then_def intro: appended_failure\<close>)

lemma append_locked_line_appended:
  assumes laws: "append_file_laws ops held"
  shows "appended held p line w (append_locked_line ops p line w)"
  unfolding append_locked_line_def
proof (intro appended_then_keeps)
  fix w1 contents w2
  assume rd: "read_to_string ops p w1 = (w2, Inr contents)" and same: "held p w2 = held p w1"
  have c: "contents = held p w2" using laws rd same unfolding append_file_laws_def by metis
  let ?nl = "contents \<noteq> [] \<and> \<not> ends_with contents [newline]"
  obtain w3 r where sep: "(if ?nl then write_all ops p [newline] w2 else (w2, Inr ())) = (w3, r)" by fastforce
  have "r = Inr () \<and> held p w3 = held p w2 @ (if ?nl then [newline] else []) \<or>
        (\<exists>e added. r = Inl e \<and> held p w3 = held p w2 @ added)"
    using sep write_all_outcome [OF laws] by (auto split: if_splits)
  from appended_write [OF laws this, of line] c sep
  show "appended held p line w2
     (if line \<in> set (str_lines contents) then (w2, Inr ())
      else io_then (if ?nl then write_all ops p [newline] w2 else (w2, Inr ()))
             (WritePolicyFile p) (\<lambda>_ w. io_then (write_all ops p (line @ [newline]) w) (WritePolicyFile p) (\<lambda>_ w. (w, Inr ()))))"
    by (cases "line \<in> set (str_lines contents)") (simp_all add: with_line_def, simp add: appended_def with_line_def)
qed (use laws in \<open>simp_all add: append_file_laws_def\<close>)

lemma append_rule_line_appended:
  assumes laws: "append_file_laws ops held"
  shows "appended held p line w (append_rule_line ops p line w)"
proof (cases "path_parent p")
  case (Some dir)
  obtain w1 r where mk: "create_dir ops dir w = (w1, r)" by fastforce
  have "held p w1 = held p w" using laws mk unfolding append_file_laws_def keeps_def by (metis fst_conv)
  with Some mk append_locked_line_appended [OF laws, of p line w1] show ?thesis
    by (cases r) (auto simp: append_rule_line_def intro: appended_same appended_unchanged)
qed (auto simp: append_rule_line_def intro: appended_unchanged)

section \<open>The lines written are single lines\<close>

lemma collect_set: "collect f xs = Inr ys \<Longrightarrow> y \<in> set ys \<Longrightarrow> \<exists>x \<in> set xs. f x = Inr y"
  by (induction xs arbitrary: ys) (auto simp: rbind_eq_Inr_iff)

lemma set_join: "set (join sep xs) \<subseteq> set sep \<union> \<Union> (set ` set xs)"
  by (induction sep xs rule: join.induct) auto

lemma strip_cr_snoc [simp]: "c \<noteq> carriage_return \<Longrightarrow> strip_cr (s @ [c]) = s @ [c]"
  by (simp add: strip_cr_def strip_suffix_def)

text \<open>Writing a JSON string never puts a line feed in it: control characters are escaped.\<close>

definition json_single_line :: "json_writer \<Rightarrow> bool" where
  "json_single_line json \<longleftrightarrow> (\<forall>t q. json t = Inr q \<longrightarrow> newline \<notin> set q)"

definition single_line :: "rstr \<Rightarrow> bool" where
  "single_line l \<longleftrightarrow> newline \<notin> set l \<and> strip_cr l = l"

lemma single_lineI: "newline \<notin> set s \<Longrightarrow> single_line (s @ lit '')'')"
  by (simp add: single_line_def)

lemma map_err_eq_Inr [simp]: "map_err f r = Inr x \<longleftrightarrow> r = Inr x"
  by (cases r) (simp_all add: map_err_def)

lemma newline_notin_join: "newline \<notin> set sep \<Longrightarrow> (\<And>x. x \<in> set xs \<Longrightarrow> newline \<notin> set x) \<Longrightarrow> newline \<notin> set (join sep xs)"
  using set_join [of sep xs] by blast

lemma allow_prefix_line_single:
  assumes "json_single_line json" "allow_prefix_line json pre = Inr line"
  shows "single_line line"
proof -
  obtain tokens where t: "collect json pre = Inr tokens"
    and l: "line = (lit ''prefix_rule(pattern=['' @ join (lit '', '') tokens @ lit ''], decision='' @ [34] @ lit ''allow'' @ [34]) @ lit '')''"
    using assms(2) by (auto simp: allow_prefix_line_def rbind_eq_Inr_iff split: if_splits)
  have "newline \<notin> set (join (lit '', '') tokens)"
    using collect_set [OF t] assms(1) by (intro newline_notin_join) (auto simp: json_single_line_def)
  then show ?thesis unfolding l by (intro single_lineI) simp
qed

lemma single_lineI': "l \<noteq> [] \<Longrightarrow> last l = 41 \<Longrightarrow> newline \<notin> set l \<Longrightarrow> single_line l"
  by (cases l rule: rev_cases) (simp_all add: single_line_def)

lemma network_rule_line_single:
  assumes json: "json_single_line json" and line: "network_rule_line json host pr d justification = Inr line"
  shows "single_line line"
  using line json unfolding json_single_line_def
  by (intro single_lineI')
     (auto simp: network_rule_line_def rbind_eq_Inr_iff split: if_split_asm option.split_asm)

section \<open>Properties\<close>

lemma append_rule_line_again:
  assumes laws: "append_file_laws ops held" and single: "single_line line"
    and run: "append_rule_line ops p line w = (w1, Inr ())"
  shows "line \<in> set (str_lines (held p w1)) \<and> held p (fst (append_rule_line ops p line w1)) = held p w1"
proof -
  have "held p w1 = with_line line (held p w)"
    using append_rule_line_appended [OF laws, of p line w] run by (simp add: appended_def)
  with append_adds_line single have "line \<in> set (str_lines (held p w1))" by (simp add: single_line_def)
  moreover have "appended held p line w1 (append_rule_line ops p line w1)" by (rule append_rule_line_appended [OF laws])
  ultimately show ?thesis
    by (auto simp: appended_def with_line_def split: prod.splits sum.splits)
qed


text \<open>A file world for examples: one file that accepts every operation.\<close>

definition one_file :: "(rstr, unit) policy_file_ops" where
  "one_file =
     \<lparr>create_dir = \<lambda>p w. (w, Inr ()), is_already_exists = \<lambda>e. True, open_append = \<lambda>p w. (w, Inr ()),
      lock_file = \<lambda>p w. (w, Inr ()), seek_start = \<lambda>p w. (w, Inr ()), read_to_string = \<lambda>p w. (w, Inr w),
      write_all = \<lambda>p d w. (w @ d, Inr ())\<rparr>"

lemma one_file_laws: "append_file_laws one_file (\<lambda>p w. w)"
  by (simp add: append_file_laws_def keeps_def one_file_def)

definition bare_json :: json_writer where
  "bare_json t = Inr (34 # filter (\<lambda>c. c \<noteq> newline) t @ [34])"

lemma bare_json_single: "json_single_line bare_json"
  by (auto simp: json_single_line_def bare_json_def)

text \<open>
  Allowing a prefix keeps what the policy file had: whatever fails on the way, the file
  is at most longer. When it succeeds the rule is one of the file's lines, and allowing the
  same prefix again, whether that succeeds or not, leaves the file as it is.
\<close>

theorem append_allow_prefix_rule_once:
  fixes ops :: "('w, 'e) policy_file_ops"
  assumes laws: "append_file_laws ops held" and json: "json_single_line json"
    and run: "blocking_append_allow_prefix_rule json ops policy_path pre w = (w1, r)"
  shows "(\<exists>added. held policy_path w1 = held policy_path w @ added) \<and>
         (r = Inr () \<longrightarrow>
           (\<exists>line. allow_prefix_line json pre = (Inr line :: ('e amend_error, rstr) result) \<and>
              line \<in> set (str_lines (held policy_path w1))) \<and>
           held policy_path (fst (blocking_append_allow_prefix_rule json ops policy_path pre w1)) = held policy_path w1)"
proof (cases "allow_prefix_line json pre :: ('e amend_error, rstr) result")
  case (Inl e)
  with run show ?thesis by (auto simp: blocking_append_allow_prefix_rule_def)
next
  case (Inr line)
  then have run': "append_rule_line ops policy_path line w = (w1, r)"
    using run by (simp add: blocking_append_allow_prefix_rule_def)
  from append_rule_line_appended [OF laws, of policy_path line w] run'
  have "\<exists>added. held policy_path w1 = held policy_path w @ added"
    by (auto simp: appended_def with_line_def split: sum.splits)
  with append_rule_line_again [OF laws allow_prefix_line_single [OF json Inr], of policy_path w w1] Inr run'
  show ?thesis by (auto simp: blocking_append_allow_prefix_rule_def)
qed


theorem append_allow_prefix_rule_once_witness:
  "\<exists>w1. blocking_append_allow_prefix_rule bare_json one_file (lit ''/r/d.rules'') [lit ''ls''] (lit ''a'') = (w1, Inr ()) \<and>
     (\<exists>added. w1 = lit ''a'' @ added) \<and>
     fst (blocking_append_allow_prefix_rule bare_json one_file (lit ''/r/d.rules'') [lit ''ls''] w1) = w1"
proof -
  let ?run = "blocking_append_allow_prefix_rule bare_json one_file (lit ''/r/d.rules'') [lit ''ls'']"
  have "snd (?run (lit ''a'')) = Inr ()" by code_simp
  then have r: "?run (lit ''a'') = (fst (?run (lit ''a'')), Inr ())" by (metis prod.collapse)
  from append_allow_prefix_rule_once [OF one_file_laws bare_json_single r] r show ?thesis by blast
qed

end
