(* ===== verification/Exec_Requirements.thy ===== *)
theory Exec_Requirements
  imports Exec_Parser
begin

text \<open>
  Rules that an administrator requires (\<open>config/src/requirements_exec_policy.rs\<close>): the
  \<open>[rules]\<close> table of \<open>requirements.toml\<close>, already decoded from TOML, is turned into a policy
  that is merged over the user's policy.
\<close>

section \<open>The table\<close>

record pattern_token_toml =
  toml_token :: "rstr option"
  toml_any_of :: "rstr list option"

record prefix_rule_toml =
  toml_pattern :: "pattern_token_toml list"
  toml_decision :: "decision option"
  toml_justification :: "rstr option"

datatype requirements_parse_error =
    EmptyPrefixRules
  | EmptyPattern nat
  | InvalidPatternToken nat nat rstr
  | EmptyJustification nat
  | MissingDecision nat
  | AllowDecisionNotAllowed nat

section \<open>Conversion\<close>

definition toml_pattern_token ::
    "nat \<Rightarrow> nat \<Rightarrow> pattern_token_toml \<Rightarrow> (requirements_parse_error, pattern_token) result" where
  "toml_pattern_token rule_index token_index token =
     (case (toml_token token, toml_any_of token) of
        (Some single, None) \<Rightarrow>
          if trim single = [] then Inl (InvalidPatternToken rule_index token_index (lit ''token cannot be empty''))
          else Inr (Single single)
      | (None, Some alternatives) \<Rightarrow>
          if alternatives = [] then Inl (InvalidPatternToken rule_index token_index (lit ''any_of cannot be empty''))
          else if \<exists>alt \<in> set alternatives. trim alt = []
          then Inl (InvalidPatternToken rule_index token_index (lit ''any_of cannot include empty tokens''))
          else Inr (Alts alternatives)
      | (Some _, Some _) \<Rightarrow>
          Inl (InvalidPatternToken rule_index token_index (lit ''set either token or any_of, not both''))
      | (None, None) \<Rightarrow> Inl (InvalidPatternToken rule_index token_index (lit ''set either token or any_of'')))"

definition requirements_decision :: "nat \<Rightarrow> decision option \<Rightarrow> (requirements_parse_error, decision) result" where
  "requirements_decision rule_index d =
     (case d of
        Some Allow \<Rightarrow> Inl (AllowDecisionNotAllowed rule_index)
      | Some d \<Rightarrow> Inr d
      | None \<Rightarrow> Inl (MissingDecision rule_index))"

definition requirements_rule ::
    "nat \<Rightarrow> prefix_rule_toml \<Rightarrow> (requirements_parse_error, prefix_rule list) result" where
  "requirements_rule rule_index rule =
     (if (case toml_justification rule of Some j \<Rightarrow> trim j = [] | None \<Rightarrow> False)
      then Inl (EmptyJustification rule_index)
      else if toml_pattern rule = [] then Inl (EmptyPattern rule_index)
      else
        rbind (collect (\<lambda>(i, t). toml_pattern_token rule_index i t) (enumerate 0 (toml_pattern rule))) (\<lambda>pattern_tokens.
        rbind (requirements_decision rule_index (toml_decision rule)) (\<lambda>d.
          case pattern_tokens of
            [] \<Rightarrow> Inl (EmptyPattern rule_index)
          | first_token # rest \<Rightarrow>
              Inr (map (\<lambda>head. \<lparr>rule_pattern = \<lparr>pat_first = head, pat_rest = rest\<rparr>, rule_decision = d,
                                rule_justification = toml_justification rule\<rparr>)
                     (token_alternatives first_token)))))"

definition to_policy :: "prefix_rule_toml list \<Rightarrow> (requirements_parse_error, policy) result" where
  "to_policy prefix_rules =
     (if prefix_rules = [] then Inl EmptyPrefixRules
      else
        rbind (collect (\<lambda>(i, r). requirements_rule i r) (enumerate 0 prefix_rules)) (\<lambda>rules.
          Inr (policy_empty\<lparr>rules_by_program :=
            foldl (\<lambda>m r. multimap_insert (rule_program r) r m) [] (concat rules)\<rparr>)))"

section \<open>Required rules only restrict\<close>

definition policy_rules :: "policy \<Rightarrow> prefix_rule set" where
  "policy_rules p = {r. \<exists>k. (k, r) \<in> set (iter_all (rules_by_program p))}"

lemma requirements_rule_restricts:
  assumes "requirements_rule i rule = Inr rs" "r \<in> set rs"
  shows "rule_decision r \<noteq> Allow"
  using assms
  by (auto simp: requirements_rule_def requirements_decision_def rbind_eq_Inr_iff
      split: if_splits option.splits list.splits decision.splits)

lemma collect_rules_restrict:
  "collect (\<lambda>(i, r). requirements_rule i r) irs = Inr rss \<Longrightarrow> \<forall>r \<in> set (concat rss). rule_decision r \<noteq> Allow"
proof (induction irs arbitrary: rss)
  case (Cons ir irs)
  then obtain rs rss' where "requirements_rule (fst ir) (snd ir) = Inr rs" "rss = rs # rss'"
      "collect (\<lambda>(i, r). requirements_rule i r) irs = Inr rss'"
    by (cases ir) (auto simp: rbind_eq_Inr_iff)
  with Cons.IH requirements_rule_restricts show ?case by auto
qed simp

lemma foldl_insert_rules:
  "foldl (\<lambda>m r. multimap_insert (rule_program r) r m) m rs =
     foldl (\<lambda>m (k, r). multimap_insert k r m) m (map (\<lambda>r. (rule_program r, r)) rs)"
  by (induction rs arbitrary: m) simp_all

lemma set_iter_all_insert: "set (iter_all (multimap_insert k r m)) = insert (k, r) (set (iter_all m))"
proof (induction m)
  case (Cons x m)
  then show ?case by (cases x) (auto simp: iter_all_def image_iff)
qed (simp add: iter_all_def)

lemma set_iter_all_inserts:
  "set (iter_all (foldl (\<lambda>m r. multimap_insert (rule_program r) r m) m rs)) =
     set (iter_all m) \<union> (\<lambda>r. (rule_program r, r)) ` set rs"
  by (induction rs arbitrary: m) (auto simp: set_iter_all_insert)

lemma to_policy_wf: "to_policy toml = Inr p \<Longrightarrow> policy_wf p"
  using merge_inserts_wf [of "[]"]
  by (auto simp: to_policy_def rbind_eq_Inr_iff policy_wf_def policy_empty_def foldl_insert_rules filed_def split: if_splits)

lemma to_policy_restricts:
  assumes "to_policy toml = Inr p" "r \<in> policy_rules p"
  shows "rule_decision r \<noteq> Allow"
proof -
  obtain rss where c: "collect (\<lambda>(i, r). requirements_rule i r) (enumerate 0 toml) = Inr rss"
    and p: "p = policy_empty\<lparr>rules_by_program := foldl (\<lambda>m r. multimap_insert (rule_program r) r m) [] (concat rss)\<rparr>"
    using assms(1) by (auto simp: to_policy_def rbind_eq_Inr_iff split: if_splits)
  have "r \<in> set (concat rss)"
    using assms(2) set_iter_all_inserts [of "[]" "concat rss"] unfolding policy_rules_def p
    by (auto simp: iter_all_def [of "[]"])
  with collect_rules_restrict [OF c] show ?thesis by blast
qed

end
