(* ===== verification/Command_Safety.thy ===== *)
theory Command_Safety
  imports Exec_Rules
begin

text \<open>
  The heuristics for commands that no rule decides
  (\<open>shell-command/src/command_safety/is_safe_command.rs\<close>, \<open>is_dangerous_command.rs\<close>), as a
  Linux build has them: which commands run without asking, which are dangerous; with the
  recognition of \<open>bash -lc\<close> invocations (\<open>shell_detect.rs\<close>, \<open>bash.rs\<close>). Splitting a script
  into plain commands uses a Tree-sitter grammar and the check for PowerShell runs a
  PowerShell process: both are parameters.
\<close>

section \<open>Names and git subcommands\<close>

definition executable_name_lookup_key :: "rstr \<Rightarrow> rstr option" where
  "executable_name_lookup_key raw = file_name raw"

definition git_options_with_value :: "rstr list" where
  "git_options_with_value =
     [lit ''-C'', lit ''-c'', lit ''--config-env'', lit ''--exec-path'', lit ''--git-dir'', lit ''--namespace'',
      lit ''--super-prefix'', lit ''--work-tree'']"

definition is_git_global_option_with_value :: "rstr \<Rightarrow> bool" where
  "is_git_global_option_with_value arg \<longleftrightarrow> arg \<in> set git_options_with_value"

definition git_inline_prefixes :: "rstr list" where
  "git_inline_prefixes =
     [lit ''--config-env='', lit ''--exec-path='', lit ''--git-dir='', lit ''--namespace='',
      lit ''--super-prefix='', lit ''--work-tree='']"

definition is_git_global_option_with_inline_value :: "rstr \<Rightarrow> bool" where
  "is_git_global_option_with_inline_value arg \<longleftrightarrow>
     (\<exists>p \<in> set git_inline_prefixes. starts_with arg p) \<or>
     (starts_with arg (lit ''-C'') \<or> starts_with arg (lit ''-c'')) \<and> 2 < byte_len arg"

fun find_subcommand_loop :: "rstr list \<Rightarrow> nat \<Rightarrow> bool \<Rightarrow> rstr list \<Rightarrow> (nat \<times> rstr) option" where
  "find_subcommand_loop subcommands idx skip_next [] = None"
| "find_subcommand_loop subcommands idx skip_next (arg # args) =
     (if skip_next then find_subcommand_loop subcommands (Suc idx) False args
      else if is_git_global_option_with_inline_value arg then find_subcommand_loop subcommands (Suc idx) False args
      else if is_git_global_option_with_value arg then find_subcommand_loop subcommands (Suc idx) True args
      else if arg = lit ''--'' \<or> starts_with arg (lit ''-'') then find_subcommand_loop subcommands (Suc idx) False args
      else if arg \<in> set subcommands then Some (idx, arg)
      else None)"

definition find_git_subcommand :: "rstr list \<Rightarrow> rstr list \<Rightarrow> (nat \<times> rstr) option" where
  "find_git_subcommand command subcommands =
     (case command of
        [] \<Rightarrow> None
      | cmd0 # args \<Rightarrow>
          if executable_name_lookup_key cmd0 \<noteq> Some (lit ''git'') then None
          else find_subcommand_loop subcommands 1 False args)"

section \<open>Safe git commands\<close>

datatype git_option_pattern = Exact_Option rstr | ShortWithInlineValue rstr | Prefix_Option rstr

fun option_matches :: "git_option_pattern \<Rightarrow> rstr \<Rightarrow> bool" where
  "option_matches (Exact_Option opt) arg \<longleftrightarrow> arg = opt"
| "option_matches (ShortWithInlineValue opt) arg \<longleftrightarrow> starts_with arg opt \<and> byte_len opt < byte_len arg"
| "option_matches (Prefix_Option pre) arg \<longleftrightarrow> starts_with arg pre"

definition UNSAFE_GIT_GLOBAL_OPTIONS :: "git_option_pattern list" where
  "UNSAFE_GIT_GLOBAL_OPTIONS =
     [Exact_Option (lit ''-C''), ShortWithInlineValue (lit ''-C''), Exact_Option (lit ''-c''),
      ShortWithInlineValue (lit ''-c''), Exact_Option (lit ''-p''), Exact_Option (lit ''--config-env''),
      Prefix_Option (lit ''--config-env=''), Exact_Option (lit ''--exec-path''), Prefix_Option (lit ''--exec-path=''),
      Exact_Option (lit ''--git-dir''), Prefix_Option (lit ''--git-dir=''), Exact_Option (lit ''--namespace''),
      Prefix_Option (lit ''--namespace=''), Exact_Option (lit ''--paginate''), Exact_Option (lit ''--super-prefix''),
      Prefix_Option (lit ''--super-prefix=''), Exact_Option (lit ''--work-tree''), Prefix_Option (lit ''--work-tree='')]"

definition UNSAFE_GIT_SUBCOMMAND_OPTIONS :: "git_option_pattern list" where
  "UNSAFE_GIT_SUBCOMMAND_OPTIONS =
     [Exact_Option (lit ''--output''), Prefix_Option (lit ''--output=''), Exact_Option (lit ''--ext-diff''),
      Exact_Option (lit ''--textconv''), Exact_Option (lit ''--exec''), Prefix_Option (lit ''--exec='')]"

definition git_matches_option_pattern :: "rstr \<Rightarrow> git_option_pattern list \<Rightarrow> bool" where
  "git_matches_option_pattern arg patterns \<longleftrightarrow> (\<exists>p \<in> set patterns. option_matches p arg)"

definition git_has_unsafe_global_option :: "rstr list \<Rightarrow> bool" where
  "git_has_unsafe_global_option global_args \<longleftrightarrow>
     (\<exists>arg \<in> set global_args. git_matches_option_pattern arg UNSAFE_GIT_GLOBAL_OPTIONS)"

definition git_subcommand_args_are_read_only :: "rstr list \<Rightarrow> bool" where
  "git_subcommand_args_are_read_only args \<longleftrightarrow>
     \<not> (\<exists>arg \<in> set args. git_matches_option_pattern arg UNSAFE_GIT_SUBCOMMAND_OPTIONS)"

definition branch_query_flags :: "rstr list" where
  "branch_query_flags =
     [lit ''--list'', lit ''-l'', lit ''--show-current'', lit ''-a'', lit ''--all'', lit ''-r'', lit ''--remotes'',
      lit ''-v'', lit ''-vv'', lit ''--verbose'']"

fun branch_loop :: "rstr list \<Rightarrow> bool \<Rightarrow> bool" where
  "branch_loop [] saw_read_only_flag = saw_read_only_flag"
| "branch_loop (arg # args) saw_read_only_flag =
     (if arg \<in> set branch_query_flags then branch_loop args True
      else if starts_with arg (lit ''--format='') then branch_loop args True
      else False)"

definition git_branch_is_read_only :: "rstr list \<Rightarrow> bool" where
  "git_branch_is_read_only branch_args = (if branch_args = [] then True else branch_loop branch_args False)"

definition safe_git_subcommands :: "rstr list" where
  "safe_git_subcommands = [lit ''status'', lit ''log'', lit ''diff'', lit ''show'', lit ''branch'']"

definition is_safe_git_command :: "rstr list \<Rightarrow> bool" where
  "is_safe_git_command command =
     (case find_git_subcommand command safe_git_subcommands of
        None \<Rightarrow> False
      | Some (subcommand_idx, subcommand) \<Rightarrow>
          (let global_args = take (subcommand_idx - 1) (drop 1 command);
               subcommand_args = drop (subcommand_idx + 1) command
           in if git_has_unsafe_global_option global_args then False
              else if subcommand \<in> {lit ''status'', lit ''log'', lit ''diff'', lit ''show''}
              then git_subcommand_args_are_read_only subcommand_args
              else if subcommand = lit ''branch''
              then git_subcommand_args_are_read_only subcommand_args \<and> git_branch_is_read_only subcommand_args
              else False))"

section \<open>Other safe commands\<close>

definition is_valid_sed_n_arg :: "rstr option \<Rightarrow> bool" where
  "is_valid_sed_n_arg arg =
     (case arg of
        None \<Rightarrow> False
      | Some s \<Rightarrow>
          (case strip_suffix (lit ''p'') s of
             None \<Rightarrow> False
           | Some core \<Rightarrow>
               (case split_on 44 core of
                  [num] \<Rightarrow> num \<noteq> [] \<and> list_all is_ascii_digit num
                | [a, b] \<Rightarrow> a \<noteq> [] \<and> b \<noteq> [] \<and> list_all is_ascii_digit a \<and> list_all is_ascii_digit b
                | _ \<Rightarrow> False)))"

definition always_safe_commands :: "rstr list" where
  "always_safe_commands =
     [lit ''cat'', lit ''cd'', lit ''cut'', lit ''echo'', lit ''expr'', lit ''false'', lit ''grep'', lit ''head'',
      lit ''id'', lit ''ls'', lit ''nl'', lit ''paste'', lit ''pwd'', lit ''rev'', lit ''seq'', lit ''stat'',
      lit ''tail'', lit ''tr'', lit ''true'', lit ''uname'', lit ''uniq'', lit ''wc'', lit ''which'', lit ''whoami'']"

definition UNSAFE_FIND_OPTIONS :: "rstr list" where
  "UNSAFE_FIND_OPTIONS =
     [lit ''-exec'', lit ''-execdir'', lit ''-ok'', lit ''-okdir'', lit ''-delete'', lit ''-fls'', lit ''-fprint'',
      lit ''-fprint0'', lit ''-fprintf'']"

definition base64_is_safe :: "rstr list \<Rightarrow> bool" where
  "base64_is_safe command \<longleftrightarrow>
     \<not> (\<exists>arg \<in> set (drop 1 command).
          arg = lit ''-o'' \<or> arg = lit ''--output'' \<or> starts_with arg (lit ''--output='') \<or>
          starts_with arg (lit ''-o'') \<and> arg \<noteq> lit ''-o'')"

definition rg_is_safe :: "rstr list \<Rightarrow> bool" where
  "rg_is_safe command \<longleftrightarrow>
     \<not> (\<exists>arg \<in> set command.
          arg = lit ''--search-zip'' \<or> arg = lit ''-z'' \<or>
          (\<exists>opt \<in> {lit ''--pre'', lit ''--hostname-bin''}. arg = opt \<or> starts_with arg (opt @ lit ''='')))"

definition is_safe_to_call_with_exec :: "rstr list \<Rightarrow> bool" where
  "is_safe_to_call_with_exec command =
     (case command of
        [] \<Rightarrow> False
      | cmd0 # args \<Rightarrow>
          (case executable_name_lookup_key cmd0 of
             None \<Rightarrow> False
           | Some cmd \<Rightarrow>
               if cmd = lit ''numfmt'' \<or> cmd = lit ''tac'' then True
               else if cmd \<in> set always_safe_commands then True
               else if cmd = lit ''base64'' then base64_is_safe command
               else if cmd = lit ''find'' then \<not> (\<exists>arg \<in> set command. arg \<in> set UNSAFE_FIND_OPTIONS)
               else if cmd = lit ''rg'' then rg_is_safe command
               else if cmd = lit ''git'' then is_safe_git_command command
               else cmd = lit ''sed'' \<and> length command \<le> 4 \<and>
                    (case args of a # _ \<Rightarrow> a = lit ''-n'' | [] \<Rightarrow> False) \<and>
                    is_valid_sed_n_arg (case args of _ # b # _ \<Rightarrow> Some b | _ \<Rightarrow> None)))"

section \<open>Shell scripts\<close>

datatype shell_type = Zsh | Bash | PowerShell | Sh | Cmd

function detect_shell_type :: "rstr \<Rightarrow> shell_type option" where
  "detect_shell_type shell_path =
     (if shell_path = lit ''zsh'' then Some Zsh
      else if shell_path = lit ''sh'' then Some Sh
      else if shell_path = lit ''cmd'' then Some Cmd
      else if shell_path = lit ''bash'' then Some Bash
      else if shell_path = lit ''pwsh'' \<or> shell_path = lit ''powershell'' then Some PowerShell
      else case file_stem shell_path of
             None \<Rightarrow> None
           | Some shell_name \<Rightarrow>
               if components shell_name \<noteq> components shell_path then detect_shell_type shell_name else None)"
  by auto
termination
  by (relation "measure length") (auto dest: file_stem_shorter)

declare detect_shell_type.simps [simp del]

definition extract_bash_command :: "rstr list \<Rightarrow> (rstr \<times> rstr) option" where
  "extract_bash_command command =
     (case command of
        [shell, flag, script] \<Rightarrow>
          if flag \<in> {lit ''-lc'', lit ''-c''} \<and> detect_shell_type shell \<in> {Some Zsh, Some Bash, Some Sh}
          then Some (shell, script) else None
      | _ \<Rightarrow> None)"

text \<open>The parameter splits a script into the words of its plain commands.\<close>

type_synonym script_splitter = "rstr \<Rightarrow> rstr list list option"

definition parse_shell_lc_plain_commands :: "script_splitter \<Rightarrow> rstr list \<Rightarrow> rstr list list option" where
  "parse_shell_lc_plain_commands split_script command =
     Option.bind (extract_bash_command command) (\<lambda>(_, script). split_script script)"

section \<open>Known safe commands\<close>

definition is_known_safe_command :: "(rstr list \<Rightarrow> bool) \<Rightarrow> script_splitter \<Rightarrow> rstr list \<Rightarrow> bool" where
  "is_known_safe_command safe_windows split_script command =
     (let command = map (\<lambda>s. if s = lit ''zsh'' then lit ''bash'' else s) command
      in if safe_windows command then True
         else if is_safe_to_call_with_exec command then True
         else case parse_shell_lc_plain_commands split_script command of
                Some all_commands \<Rightarrow> all_commands \<noteq> [] \<and> list_all is_safe_to_call_with_exec all_commands
              | None \<Rightarrow> False)"

section \<open>Dangerous commands\<close>

fun is_dangerous_to_call_with_exec :: "rstr list \<Rightarrow> bool" where
  "is_dangerous_to_call_with_exec [] = False"
| "is_dangerous_to_call_with_exec (cmd0 # args) =
     (if cmd0 = lit ''rm'' then (case args of a # _ \<Rightarrow> a = lit ''-f'' \<or> a = lit ''-rf'' | [] \<Rightarrow> False)
      else if cmd0 = lit ''sudo'' then is_dangerous_to_call_with_exec args
      else False)"

definition command_might_be_dangerous :: "script_splitter \<Rightarrow> rstr list \<Rightarrow> bool" where
  "command_might_be_dangerous split_script command =
     (if is_dangerous_to_call_with_exec command then True
      else case parse_shell_lc_plain_commands split_script command of
             Some all_commands \<Rightarrow> (\<exists>cmd \<in> set all_commands. is_dangerous_to_call_with_exec cmd)
           | None \<Rightarrow> False)"

section \<open>Lemmas\<close>

lemma file_name_rm: "file_name (lit ''rm'') = Some (lit ''rm'')" "file_name (lit ''sudo'') = Some (lit ''sudo'')"
  by code_simp+

lemma safe_not_dangerous:
  assumes "is_safe_to_call_with_exec cmd"
  shows "\<not> is_dangerous_to_call_with_exec cmd"
proof
  assume "is_dangerous_to_call_with_exec cmd"
  then obtain c args where cmd: "cmd = c # args" "c = lit ''rm'' \<or> c = lit ''sudo''"
    by (cases cmd) (auto split: if_splits)
  then have "executable_name_lookup_key c = Some c" using file_name_rm by (auto simp: executable_name_lookup_key_def)
  with cmd assms show False by (auto simp: is_safe_to_call_with_exec_def always_safe_commands_def)
qed

lemma with_value_unsafe: "is_git_global_option_with_value arg \<Longrightarrow> git_matches_option_pattern arg UNSAFE_GIT_GLOBAL_OPTIONS"
  by (auto simp: is_git_global_option_with_value_def git_options_with_value_def git_matches_option_pattern_def
      UNSAFE_GIT_GLOBAL_OPTIONS_def)

lemma inline_value_unsafe:
  "is_git_global_option_with_inline_value arg \<Longrightarrow> git_matches_option_pattern arg UNSAFE_GIT_GLOBAL_OPTIONS"
  by (auto simp: is_git_global_option_with_inline_value_def git_inline_prefixes_def git_matches_option_pattern_def
      UNSAFE_GIT_GLOBAL_OPTIONS_def len_utf8_def)

text \<open>A shell is never one of the safe executables.\<close>

definition shell_names :: "rstr list" where
  "shell_names = [lit ''zsh'', lit ''sh'', lit ''cmd'', lit ''bash'', lit ''pwsh'', lit ''powershell'']"

lemma detect_plain_name:
  assumes "proper_name k" "dot \<notin> set k" "k \<notin> set shell_names"
  shows "detect_shell_type k = None"
proof -
  have "file_stem k = Some k" using assms by (simp add: file_stem_def file_name_of_name stem_of_no_dot)
  with assms(3) show ?thesis by (subst detect_shell_type.simps) (simp add: shell_names_def)
qed

lemma detect_by_name:
  assumes "file_name p = Some k" "dot \<notin> set k" "k \<notin> set shell_names"
  shows "detect_shell_type p = None"
proof -
  have k: "proper_name k" using assms(1) by (rule file_name_proper)
  have "file_name n = Some n" if "n \<in> set shell_names" for n
    using that by (intro file_name_of_name) (auto simp: shell_names_def proper_name_def)
  then have "p \<notin> set shell_names" using assms(1,3) by auto
  moreover have "file_stem p = Some k" using assms by (simp add: file_stem_def stem_of_no_dot)
  ultimately show ?thesis
    using detect_plain_name [OF k assms(2,3)] by (subst detect_shell_type.simps) (simp add: shell_names_def)
qed

lemma safe_name:
  assumes "is_safe_to_call_with_exec (c # args)"
  obtains k where "file_name c = Some k" "dot \<notin> set k" "k \<notin> set shell_names"
proof -
  obtain k where k: "file_name c = Some k"
    using assms by (auto simp: is_safe_to_call_with_exec_def executable_name_lookup_key_def split: option.splits)
  with assms have "k \<in> set always_safe_commands \<or> k \<in> {lit ''numfmt'', lit ''tac'', lit ''base64'', lit ''find'', lit ''rg'', lit ''git'', lit ''sed''}"
    by (auto simp: is_safe_to_call_with_exec_def executable_name_lookup_key_def split: if_splits)
  then have "dot \<notin> set k \<and> k \<notin> set shell_names"
    unfolding always_safe_commands_def shell_names_def by (elim disjE) (auto, (simp_all)?)
  with k that show ?thesis by blast
qed

lemma safe_not_script:
  assumes "is_safe_to_call_with_exec cmd"
  shows "parse_shell_lc_plain_commands split_script cmd = None"
proof (cases "extract_bash_command cmd")
  case (Some x)
  then obtain shell flag script where cmd: "cmd = [shell, flag, script]" "detect_shell_type shell \<noteq> None"
    by (auto simp: extract_bash_command_def split: list.splits if_splits)
  with assms detect_by_name show ?thesis by (metis safe_name)
qed (simp add: parse_shell_lc_plain_commands_def)

text \<open>Before a subcommand that is found, with no unsafe option on the way, there are only flags.\<close>

lemma find_subcommand_bound:
  "find_subcommand_loop subs idx skip args = Some (i, sub) \<Longrightarrow> idx \<le> i"
  by (induction subs idx skip args rule: find_subcommand_loop.induct) (auto split: if_splits)

lemma find_subcommand_split:
  assumes "find_subcommand_loop subs idx False args = Some (i, sub)"
    and "\<not> git_has_unsafe_global_option (take (i - idx) args)"
  shows "\<exists>globals rest. args = globals @ sub # rest \<and> i = idx + length globals \<and> sub \<in> set subs \<and>
    list_all (\<lambda>g. starts_with g (lit ''-'')) globals"
  using assms
proof (induction args arbitrary: idx)
  case (Cons arg args)
  consider (unsafe) "git_matches_option_pattern arg UNSAFE_GIT_GLOBAL_OPTIONS"
      "\<exists>skip. find_subcommand_loop subs (Suc idx) skip args = Some (i, sub)"
    | (flag) "starts_with arg (lit ''-'')" "find_subcommand_loop subs (Suc idx) False args = Some (i, sub)"
    | (found) "i = idx" "sub = arg" "arg \<in> set subs"
    using Cons.prems(1) with_value_unsafe [of arg] inline_value_unsafe [of arg]
    by (auto split: if_splits simp: starts_with_def)
  then show ?case
  proof cases
    case unsafe
    then have "Suc idx \<le> i" using find_subcommand_bound by blast
    then have "arg \<in> set (take (i - idx) (arg # args))" by (cases "i - idx") auto
    with Cons.prems(2) unsafe(1) show ?thesis by (auto simp: git_has_unsafe_global_option_def)
  next
    case flag
    have "Suc idx \<le> i" using find_subcommand_bound [OF flag(2)] .
    then have "take (i - idx) (arg # args) = arg # take (i - Suc idx) args" by (simp add: take_Cons')
    with Cons.prems(2) have "\<not> git_has_unsafe_global_option (take (i - Suc idx) args)"
      by (auto simp: git_has_unsafe_global_option_def)
    from Cons.IH [OF flag(2) this] obtain gs rest where "args = gs @ sub # rest" "i = Suc idx + length gs"
      "sub \<in> set subs" "list_all (\<lambda>g. starts_with g (lit ''-'')) gs" by blast
    with flag(1) show ?thesis by (intro exI [of _ "arg # gs"] exI [of _ rest]) simp
  next
    case found
    then show ?thesis by (intro exI [of _ "[]"] exI [of _ args]) simp
  qed
qed simp

lemma branch_loop_flags:
  "branch_loop args saw \<Longrightarrow> list_all (\<lambda>a. a \<in> set branch_query_flags \<or> starts_with a (lit ''--format='')) args"
  by (induction args saw rule: branch_loop.induct) (auto split: if_splits)

lemma branch_read_only_flags:
  "git_branch_is_read_only args \<Longrightarrow>
     list_all (\<lambda>a. a \<in> set branch_query_flags \<or> starts_with a (lit ''--format='')) args"
  by (cases "args = []") (simp, rule branch_loop_flags, simp add: git_branch_is_read_only_def)

lemma split_on_single: "split_on c s = [a] \<longleftrightarrow> s = a \<and> c \<notin> set a"
proof
  assume h: "split_on c s = [a]"
  then have "join [c] [a] = s" using join_split_on [of c s] by simp
  moreover have "c \<notin> set a" using split_on_pieces [of a c s] h by simp
  ultimately show "s = a \<and> c \<notin> set a" by simp
qed (simp add: split_on_no_sep)

lemma split_on_pair: "split_on c s = [a, b] \<longleftrightarrow> s = a @ c # b \<and> c \<notin> set a \<and> c \<notin> set b"
proof
  assume h: "split_on c s = [a, b]"
  then have "join [c] [a, b] = s" using join_split_on [of c s] by simp
  moreover have "c \<notin> set a" "c \<notin> set b" using split_on_pieces [of _ c s] h by simp_all
  ultimately show "s = a @ c # b \<and> c \<notin> set a \<and> c \<notin> set b" by simp
qed (simp add: split_on_append_sep split_on_no_sep)

lemma digits_no_comma: "all_digits s \<Longrightarrow> 44 \<notin> set s"
  by (auto simp: all_digits_def list_all_iff is_ascii_digit_def)

section \<open>Properties\<close>

text \<open>
  No command is both known safe and possibly dangerous, when the PowerShell check does
  not vouch for it and none of its words is \<open>zsh\<close>: neither as a direct call nor as a shell
  script of plain commands.
\<close>

theorem known_safe_not_dangerous:
  assumes "is_known_safe_command safe_windows split_script cmd"
    and "\<not> safe_windows cmd" "lit ''zsh'' \<notin> set cmd"
  shows "\<not> command_might_be_dangerous split_script cmd"
proof -
  have same: "map (\<lambda>s. if s = lit ''zsh'' then lit ''bash'' else s) cmd = cmd"
    using assms(3) by (intro map_idI) auto
  have known: "is_safe_to_call_with_exec cmd \<or>
      (case parse_shell_lc_plain_commands split_script cmd of
         Some all_commands \<Rightarrow> all_commands \<noteq> [] \<and> list_all is_safe_to_call_with_exec all_commands | None \<Rightarrow> False)"
    using assms(1,2) unfolding is_known_safe_command_def same Let_def by (simp split: if_splits)
  let ?script = "parse_shell_lc_plain_commands split_script cmd"
  consider (direct) "is_safe_to_call_with_exec cmd"
    | (script) cs where "?script = Some cs" "list_all is_safe_to_call_with_exec cs" "extract_bash_command cmd \<noteq> None"
    using known
    by (cases "extract_bash_command cmd") (auto simp: parse_shell_lc_plain_commands_def split: option.splits)
  then show ?thesis
  proof cases
    case direct
    then show ?thesis by (simp add: command_might_be_dangerous_def safe_not_dangerous safe_not_script)
  next
    case script
    then obtain shell flag rest where cmd: "cmd = [shell, flag, rest]" "detect_shell_type shell \<noteq> None"
        "detect_shell_type shell \<in> {Some Zsh, Some Bash, Some Sh}"
      by (auto simp: extract_bash_command_def split: list.splits if_splits)
    have "detect_shell_type (lit ''rm'') = None" "detect_shell_type (lit ''sudo'') = None"
      by (rule detect_by_name [OF file_name_rm(1)]; simp add: shell_names_def)
         (rule detect_by_name [OF file_name_rm(2)]; simp add: shell_names_def)
    then have "shell \<noteq> lit ''rm''" "shell \<noteq> lit ''sudo''" using cmd(2) by auto
    then have "\<not> is_dangerous_to_call_with_exec cmd" by (simp add: cmd(1))
    moreover have "\<not> is_dangerous_to_call_with_exec c" if "c \<in> set cs" for c
      using script(2) that safe_not_dangerous by (auto simp: list_all_iff)
    ultimately show ?thesis using script(1) by (simp add: command_might_be_dangerous_def)
  qed
qed

theorem known_safe_not_dangerous_witness:
  "\<not> command_might_be_dangerous (\<lambda>_. None) [lit ''/bin/ls'', lit ''-l'']"
proof (rule known_safe_not_dangerous [of "\<lambda>_. False"])
  have "is_safe_to_call_with_exec [lit ''/bin/ls'', lit ''-l'']" by code_simp
  then show "is_known_safe_command (\<lambda>_. False) (\<lambda>_. None) [lit ''/bin/ls'', lit ''-l'']"
    by (simp add: is_known_safe_command_def)
qed simp_all

text \<open>
  A git command that runs without asking has only flags before its subcommand, none of
  which points git at another repository, configuration or pager; the subcommand is one of
  the reading ones, its arguments have no option that writes a file or runs a program, and
  \<open>git branch\<close> has nothing but query flags.
\<close>

theorem safe_git_command_shape:
  assumes "is_safe_git_command cmd"
  shows "\<exists>git globals sub args. cmd = git # globals @ sub # args \<and> file_name git = Some (lit ''git'') \<and>
    list_all (\<lambda>g. starts_with g (lit ''-'') \<and> \<not> git_matches_option_pattern g UNSAFE_GIT_GLOBAL_OPTIONS) globals \<and>
    sub \<in> set safe_git_subcommands \<and>
    list_all (\<lambda>a. \<not> git_matches_option_pattern a UNSAFE_GIT_SUBCOMMAND_OPTIONS) args \<and>
    (sub \<noteq> lit ''branch'' \<or> list_all (\<lambda>a. a \<in> set branch_query_flags \<or> starts_with a (lit ''--format='')) args)"
proof -
  obtain i sub where f: "find_git_subcommand cmd safe_git_subcommands = Some (i, sub)"
    using assms by (auto simp: is_safe_git_command_def split: option.splits)
  then obtain git args0 where cmd: "cmd = git # args0" "file_name git = Some (lit ''git'')"
      "find_subcommand_loop safe_git_subcommands 1 False args0 = Some (i, sub)"
    by (auto simp: find_git_subcommand_def executable_name_lookup_key_def split: list.splits if_splits)
  have safe: "\<not> git_has_unsafe_global_option (take (i - 1) args0)"
      "git_subcommand_args_are_read_only (drop i args0)"
      "sub = lit ''branch'' \<Longrightarrow> git_branch_is_read_only (drop i args0)"
    using assms f cmd(1) by (auto simp: is_safe_git_command_def Let_def split: if_splits)
  obtain gs rest where s: "args0 = gs @ sub # rest" "i = 1 + length gs" "sub \<in> set safe_git_subcommands"
      "list_all (\<lambda>g. starts_with g (lit ''-'')) gs"
    using find_subcommand_split [OF cmd(3) safe(1)] by blast
  have "drop i args0 = rest" "take (i - 1) args0 = gs" by (simp_all add: s(1,2))
  with safe s cmd show ?thesis
    using branch_read_only_flags [of rest]
    by (intro exI [of _ git] exI [of _ gs] exI [of _ sub] exI [of _ rest])
       (auto simp: list_all_iff git_has_unsafe_global_option_def git_subcommand_args_are_read_only_def)
qed

theorem safe_git_command_shape_witness:
  "\<exists>git globals sub args. [lit ''git'', lit ''--no-pager'', lit ''log''] = git # globals @ sub # args \<and>
     sub \<in> set safe_git_subcommands"
proof -
  have "is_safe_git_command [lit ''git'', lit ''--no-pager'', lit ''log'']" by code_simp
  from safe_git_command_shape [OF this] show ?thesis by blast
qed

text \<open>
  The argument accepted for \<open>sed -n\<close> is a line number or a range of two line numbers
  followed by \<open>p\<close>, and nothing else.
\<close>

theorem sed_arg_is_line_range:
  "is_valid_sed_n_arg (Some s) \<longleftrightarrow>
     (\<exists>b. all_digits b \<and> (s = b @ lit ''p'' \<or> (\<exists>a. all_digits a \<and> s = a @ lit '','' @ b @ lit ''p'')))"
proof -
  have "is_valid_sed_n_arg (Some s) \<longleftrightarrow>
      (\<exists>core. s = core @ lit ''p'' \<and>
         ((\<exists>b. split_on 44 core = [b] \<and> all_digits b) \<or> (\<exists>a b. split_on 44 core = [a, b] \<and> all_digits a \<and> all_digits b)))"
  proof (cases "strip_suffix (lit ''p'') s")
    case None
    then have "\<nexists>core. s = core @ lit ''p''" using strip_suffix_Some_iff [of "lit ''p''" s] by auto
    with None show ?thesis by (simp add: is_valid_sed_n_arg_def)
  next
    case (Some core)
    then have "s = core @ lit ''p''" by (simp add: strip_suffix_Some_iff)
    with Some show ?thesis by (auto simp: is_valid_sed_n_arg_def all_digits_def split: list.splits)
  qed
  also have "\<dots> \<longleftrightarrow> (\<exists>core. s = core @ lit ''p'' \<and>
      (all_digits core \<or> (\<exists>a b. core = a @ 44 # b \<and> all_digits a \<and> all_digits b)))"
    by (simp only: split_on_single split_on_pair) (metis digits_no_comma)
  finally show ?thesis by auto
qed

end
