(* ===== verification/Config_Toml.thy ===== *)
theory Config_Toml
  imports Absolute_Path "HOL-Library.AList" "HOL-Library.Sublist"
begin

text \<open>
  Configuration values and how layers of them are merged (\<open>config/src/merge.rs\<close>,
  \<open>config/src/key_aliases.rs\<close>, \<open>config/src/overrides.rs\<close>, \<open>config/src/fingerprint.rs\<close>). A TOML table is an
  association list with distinct keys; the order of its entries has no meaning.
\<close>

section \<open>Values\<close>

datatype toml =
    TomlString rstr
  | TomlInteger int
  | TomlFloat rstr
  | TomlBoolean bool
  | TomlDatetime rstr
  | TomlArray "toml list"
  | TomlTable "(rstr \<times> toml) list"

type_synonym toml_table = "(rstr \<times> toml) list"

lemma toml_entry_size: "(k, v) \<in> set t \<Longrightarrow> size v < Suc (size_list (size_prod (\<lambda>_. 0) size) t)"
  by (induction t) auto

section \<open>Aliases of keys\<close>

record config_key_alias =
  table_path :: "rstr list"
  legacy_key :: rstr
  canonical_key :: rstr

definition CONFIG_KEY_ALIASES :: "config_key_alias list" where
  "CONFIG_KEY_ALIASES =
     [\<lparr>table_path = [lit ''memories''], legacy_key = lit ''no_memories_if_mcp_or_web_search'',
       canonical_key = lit ''disable_on_external_context''\<rparr>]"

definition normalize_key_alias :: "rstr list \<Rightarrow> toml_table \<Rightarrow> config_key_alias \<Rightarrow> toml_table" where
  "normalize_key_alias path table alias =
     (if path = table_path alias
      then (case map_of table (legacy_key alias) of
              Some v \<Rightarrow>
                (let table' = AList.delete (legacy_key alias) table
                 in if map_of table' (canonical_key alias) = None then AList.update (canonical_key alias) v table' else table')
            | None \<Rightarrow> table)
      else table)"

definition normalize_key_aliases :: "rstr list \<Rightarrow> toml_table \<Rightarrow> toml_table" where
  "normalize_key_aliases path table = foldl (normalize_key_alias path) table CONFIG_KEY_ALIASES"

fun normalized_with_key_aliases :: "toml \<Rightarrow> rstr list \<Rightarrow> toml" where
  "normalized_with_key_aliases (TomlTable table) path =
     TomlTable (normalize_key_aliases path (map (\<lambda>(key, child). (key, normalized_with_key_aliases child (path @ [key]))) table))"
| "normalized_with_key_aliases (TomlArray items) path = TomlArray (map (\<lambda>item. normalized_with_key_aliases item path) items)"
| "normalized_with_key_aliases v path = v"

section \<open>Merging\<close>

lemma set_update_cases: "x \<in> set (AList.update k v t) \<Longrightarrow> x = (k, v) \<or> x \<in> set t"
  by (induction t) (auto split: if_splits)

lemma set_normalize_key_alias: "(k, v) \<in> set (normalize_key_alias path t alias) \<Longrightarrow> \<exists>k'. (k', v) \<in> set t"
  by (auto simp: normalize_key_alias_def Let_def AList.delete_eq split: if_splits option.splits
      dest!: map_of_SomeD set_update_cases)

lemma set_normalize_key_aliases: "(k, v) \<in> set (normalize_key_aliases path t) \<Longrightarrow> \<exists>k'. (k', v) \<in> set t"
  by (auto simp: normalize_key_aliases_def CONFIG_KEY_ALIASES_def dest: set_normalize_key_alias)

lemma normalize_key_aliases_size:
  "(k, v) \<in> set (normalize_key_aliases path t) \<Longrightarrow> size v < Suc (size_list (size_prod (\<lambda>_. 0) size) t)"
  by (drule set_normalize_key_aliases) (auto intro: toml_entry_size)

function merge_toml_values_at_path :: "toml \<Rightarrow> toml \<Rightarrow> rstr list \<Rightarrow> toml" where
  "merge_toml_values_at_path base overlay path =
     (case (overlay, base) of
        (TomlTable overlay_table, TomlTable base_table) \<Rightarrow>
          TomlTable (foldl (\<lambda>table (key, v).
              AList.update key
                (case map_of table key of
                   Some existing \<Rightarrow> merge_toml_values_at_path existing v (path @ [key])
                 | None \<Rightarrow> normalized_with_key_aliases v (path @ [key])) table)
            (normalize_key_aliases path base_table) (normalize_key_aliases path overlay_table))
      | _ \<Rightarrow> normalized_with_key_aliases overlay path)"
  by pat_completeness auto
termination
  by (relation "measure (\<lambda>(_, overlay, _). size overlay)") (auto dest: normalize_key_aliases_size)

declare merge_toml_values_at_path.simps [simp del]

definition merge_toml_values :: "toml \<Rightarrow> toml \<Rightarrow> toml" where
  "merge_toml_values base overlay = merge_toml_values_at_path base overlay []"

section \<open>Overrides from the command line\<close>

fun apply_toml_override_at :: "toml \<Rightarrow> rstr list \<Rightarrow> toml \<Rightarrow> toml" where
  "apply_toml_override_at current [] v = current"
| "apply_toml_override_at current (segment # segments) v =
     (let table = (case current of TomlTable t \<Rightarrow> t | _ \<Rightarrow> [])
      in if segments = [] then TomlTable (AList.update segment v table)
         else TomlTable (AList.update segment
                (apply_toml_override_at (case map_of table segment of Some e \<Rightarrow> e | None \<Rightarrow> TomlTable []) segments v) table))"

definition apply_toml_override :: "toml \<Rightarrow> rstr \<Rightarrow> toml \<Rightarrow> toml" where
  "apply_toml_override root path v = apply_toml_override_at root (split_on dot path) v"

definition build_cli_overrides_layer :: "(rstr \<times> toml) list \<Rightarrow> toml" where
  "build_cli_overrides_layer cli_overrides = foldl (\<lambda>root (path, v). apply_toml_override root path v) (TomlTable []) cli_overrides"

section \<open>Origins\<close>

function record_origins :: "toml \<Rightarrow> 'm \<Rightarrow> rstr list \<Rightarrow> (rstr \<rightharpoonup> 'm) \<Rightarrow> (rstr \<rightharpoonup> 'm)" where
  "record_origins v meta path origins =
     (case v of
        TomlTable table \<Rightarrow> foldl (\<lambda>os (key, child). record_origins child meta (path @ [key]) os) origins table
      | TomlArray items \<Rightarrow> foldl (\<lambda>os (idx, item). record_origins item meta (path @ [show_nat idx]) os) origins (enumerate 0 items)
      | _ \<Rightarrow> if path \<noteq> [] then origins(join [dot] path \<mapsto> meta) else origins)"
  by pat_completeness auto
termination
  by (relation "measure (\<lambda>(v, _, _, _). size v)")
     (auto dest: toml_entry_size simp: in_set_enumerate_eq less_Suc_eq_le size_list_estimation' [OF nth_mem])

declare record_origins.simps [simp del]

section \<open>Reading a value\<close>

fun toml_get :: "toml \<Rightarrow> rstr list \<Rightarrow> toml option" where
  "toml_get v [] = Some v"
| "toml_get (TomlTable t) (k # ks) = Option.bind (map_of t k) (\<lambda>v. toml_get v ks)"
| "toml_get v (k # ks) = None"

text \<open>\<open>toml_open v ks\<close>: following the keys one stays in tables and then finds no entry, so the value says nothing about the path.\<close>

fun toml_open :: "toml \<Rightarrow> rstr list \<Rightarrow> bool" where
  "toml_open v [] = False"
| "toml_open (TomlTable t) (k # ks) = (case map_of t k of None \<Rightarrow> True | Some v \<Rightarrow> toml_open v ks)"
| "toml_open v (k # ks) = False"

fun is_table :: "toml \<Rightarrow> bool" where
  "is_table (TomlTable t) = True"
| "is_table v = False"

fun toml_wf :: "toml \<Rightarrow> bool" where
  "toml_wf (TomlTable t) = (distinct (map fst t) \<and> (\<forall>(k, v) \<in> set t. toml_wf v))"
| "toml_wf (TomlArray items) = (\<forall>v \<in> set items. toml_wf v)"
| "toml_wf v = True"

lemma toml_open_get: "toml_open v ks \<Longrightarrow> toml_get v ks = None"
  by (induction v ks rule: toml_open.induct) (auto split: option.splits)

lemma is_table_cases: "is_table v \<longleftrightarrow> (\<exists>t. v = TomlTable t)"
  by (cases v) auto

lemma toml_get_no_table: "\<not> is_table v \<Longrightarrow> toml_get v (k # ks) = None \<and> \<not> toml_open v (k # ks)"
  by (cases v) auto

section \<open>Aliases as maps\<close>

abbreviation memories_path :: "rstr list" where
  "memories_path \<equiv> table_path (hd CONFIG_KEY_ALIASES)"

abbreviation memories_legacy :: rstr where
  "memories_legacy \<equiv> legacy_key (hd CONFIG_KEY_ALIASES)"

abbreviation memories_canonical :: rstr where
  "memories_canonical \<equiv> canonical_key (hd CONFIG_KEY_ALIASES)"

definition alias_map :: "rstr list \<Rightarrow> (rstr \<rightharpoonup> 'v) \<Rightarrow> (rstr \<rightharpoonup> 'v)" where
  "alias_map path m =
     (if path = memories_path
      then (case m memories_legacy of
              None \<Rightarrow> m
            | Some v \<Rightarrow> (m(memories_legacy := None))(memories_canonical := Some (case m memories_canonical of Some w \<Rightarrow> w | None \<Rightarrow> v)))
      else m)"

lemma alias_keys: "memories_canonical \<noteq> memories_legacy" "length memories_path = 1"
  by (simp_all add: CONFIG_KEY_ALIASES_def lit_def)

lemma aliases_single: "CONFIG_KEY_ALIASES = [hd CONFIG_KEY_ALIASES]"
  by (simp add: CONFIG_KEY_ALIASES_def)

lemma normalize_key_aliases_one: "normalize_key_aliases path t = normalize_key_alias path t (hd CONFIG_KEY_ALIASES)"
  unfolding normalize_key_aliases_def by (subst aliases_single) simp

lemma map_of_normalize: "map_of (normalize_key_aliases path t) = alias_map path (map_of t)"
  using alias_keys(1)
  by (auto simp: normalize_key_aliases_one normalize_key_alias_def alias_map_def AList.update_conv' AList.delete_conv' Let_def fun_eq_iff
      split: option.splits)

lemma distinct_normalize: "distinct (map fst t) \<Longrightarrow> distinct (map fst (normalize_key_aliases path t))"
  by (auto simp: normalize_key_aliases_one normalize_key_alias_def Let_def split: option.splits
      intro!: AList.distinct_update AList.distinct_delete)

lemma alias_map_other: "length path \<noteq> 1 \<Longrightarrow> alias_map path m = m"
  using alias_keys(2) by (auto simp: alias_map_def)

lemma normalized_deep: "2 \<le> length path \<Longrightarrow> normalized_with_key_aliases v path = v"
proof (induction v path rule: normalized_with_key_aliases.induct)
  case (1 table path)
  then have "map (\<lambda>(key, child). (key, normalized_with_key_aliases child (path @ [key]))) table = table"
    by (intro map_idI) force
  moreover have "path \<noteq> memories_path" using 1(2) alias_keys(2) by auto
  ultimately show ?case by (simp add: normalize_key_aliases_one normalize_key_alias_def)
next
  case (2 items path)
  then show ?case by (auto intro: map_idI)
qed simp_all

lemma map_of_map_values: "map_of (map (\<lambda>(k, v). (k, f k v)) t) k = map_option (f k) (map_of t k)"
  by (induction t) auto

lemma alias_map_normalized:
  "alias_map path (\<lambda>k. map_option (\<lambda>c. normalized_with_key_aliases c (path @ [k])) (m k)) k =
     map_option (\<lambda>c. normalized_with_key_aliases c (path @ [k])) (alias_map path m k)"
proof (cases "path = memories_path")
  case True
  then have "normalized_with_key_aliases c (path @ [k]) = c" for c k using alias_keys(2) by (intro normalized_deep) simp
  then show ?thesis by (simp add: option.map_ident)
next
  case False
  then show ?thesis by (simp add: alias_map_def)
qed

lemma normalized_table_entry:
  "normalized_with_key_aliases (TomlTable t) path = TomlTable t' \<Longrightarrow>
     map_of t' k = map_option (\<lambda>c. normalized_with_key_aliases c (path @ [k])) (alias_map path (map_of t) k)"
  using alias_map_normalized [of path "map_of t" k] by (auto simp: map_of_normalize map_of_map_values [abs_def])

lemma normalized_is_table [simp]: "is_table (normalized_with_key_aliases v path) \<longleftrightarrow> is_table v"
  by (cases v) auto

section \<open>Merging, entry by entry\<close>

lemma map_of_foldl_update:
  assumes "distinct (map fst kvs)"
  shows "map_of (foldl (\<lambda>t (k, v). AList.update k (g k (map_of t k) v) t) t0 kvs) k =
    (case map_of kvs k of None \<Rightarrow> map_of t0 k | Some v \<Rightarrow> Some (g k (map_of t0 k) v))"
  using assms
proof (induction kvs arbitrary: t0)
  case (Cons kv kvs)
  obtain k' v' where kv: "kv = (k', v')" by (cases kv)
  have "map_of kvs k' = None" using Cons.prems kv by (simp add: map_of_eq_None_iff)
  with Cons show ?case by (auto simp: kv AList.update_conv' split: option.splits)
qed simp

lemma merge_no_table:
  "\<not> (is_table b \<and> is_table v) \<Longrightarrow> merge_toml_values_at_path b v path = normalized_with_key_aliases v path"
  by (cases b; cases v) (simp_all add: merge_toml_values_at_path.simps)

definition merged_entry :: "rstr list \<Rightarrow> (rstr \<rightharpoonup> toml) \<Rightarrow> (rstr \<rightharpoonup> toml) \<Rightarrow> rstr \<Rightarrow> toml option" where
  "merged_entry path b m k =
     (case m k of
        None \<Rightarrow> b k
      | Some v \<Rightarrow> Some (case b k of
                           Some e \<Rightarrow> merge_toml_values_at_path e v (path @ [k])
                         | None \<Rightarrow> normalized_with_key_aliases v (path @ [k])))"

lemma merge_table_entry:
  assumes "distinct (map fst ot)"
  obtains t where "merge_toml_values_at_path (TomlTable bt) (TomlTable ot) path = TomlTable t"
    "map_of t = merged_entry path (alias_map path (map_of bt)) (alias_map path (map_of ot))"
proof
  let ?g = "\<lambda>k e v. case e of Some e \<Rightarrow> merge_toml_values_at_path e v (path @ [k]) | None \<Rightarrow> normalized_with_key_aliases v (path @ [k])"
  let ?t = "foldl (\<lambda>t (k, v). AList.update k (?g k (map_of t k) v) t) (normalize_key_aliases path bt) (normalize_key_aliases path ot)"
  show "merge_toml_values_at_path (TomlTable bt) (TomlTable ot) path = TomlTable ?t"
    by (subst merge_toml_values_at_path.simps) simp
  show "map_of ?t = merged_entry path (alias_map path (map_of bt)) (alias_map path (map_of ot))"
    unfolding fun_eq_iff merged_entry_def map_of_foldl_update [OF distinct_normalize [OF assms], where g = ?g] map_of_normalize by simp
qed

lemma alias_map_wf: "toml_wf (TomlTable t) \<Longrightarrow> alias_map path (map_of t) k = Some v \<Longrightarrow> toml_wf v"
  by (auto simp: alias_map_def split: if_splits option.splits dest!: map_of_SomeD)

text \<open>A value at a path that is not a table is what the overlay says.\<close>

lemma merge_leaf:
  assumes "toml_wf v" "toml_get (normalized_with_key_aliases v path) ks = Some l" "\<not> is_table l"
  shows "toml_get (merge_toml_values_at_path b v path) ks = Some l"
  using assms
proof (induction ks arbitrary: b v path)
  case Nil
  then show ?case by (auto simp: merge_no_table)
next
  case (Cons k ks)
  show ?case
  proof (cases "is_table b \<and> is_table v")
    case True
    then obtain bt ot where t: "b = TomlTable bt" "v = TomlTable ot" by (auto simp: is_table_cases)
    with Cons.prems have d: "distinct (map fst ot)" by simp
    obtain nt where nt: "normalized_with_key_aliases v path = TomlTable nt" using t by simp
    obtain r where r: "merge_toml_values_at_path b v path = TomlTable r"
      and entry: "map_of r = merged_entry path (alias_map path (map_of bt)) (alias_map path (map_of ot))"
      using t by (auto intro: merge_table_entry [OF d])
    obtain w where w: "alias_map path (map_of ot) k = Some w"
      and g: "toml_get (normalized_with_key_aliases w (path @ [k])) ks = Some l"
      using Cons.prems(2) nt normalized_table_entry [of ot path nt k] t by (auto simp: Option.bind_eq_Some_conv)
    have "toml_wf w" using alias_map_wf Cons.prems(1) t(2) w by blast
    then have "toml_get (merge_toml_values_at_path e w (path @ [k])) ks = Some l" for e using Cons.IH g Cons.prems(3) by blast
    with g w r show ?thesis by (simp add: entry merged_entry_def split: option.split)
  next
    case False
    with Cons.prems show ?thesis by (simp add: merge_no_table)
  qed
qed

text \<open>A path that the overlay says nothing about keeps its value, if the base uses no legacy key there.\<close>

definition normal_at :: "rstr list \<Rightarrow> toml \<Rightarrow> bool" where
  "normal_at path v \<longleftrightarrow> (\<forall>ks. path @ ks = memories_path @ [memories_legacy] \<longrightarrow> toml_get v ks = None)"

lemma normal_at_alias: "normal_at path (TomlTable t) \<Longrightarrow> alias_map path (map_of t) = map_of t"
  by (auto simp: normal_at_def alias_map_def split: option.splits dest: spec [of _ "[memories_legacy]"])

lemma normal_at_child: "normal_at path (TomlTable t) \<Longrightarrow> map_of t k = Some v \<Longrightarrow> normal_at (path @ [k]) v"
  unfolding normal_at_def by (metis Option.bind.bind_lunit append.assoc append_Cons append_Nil toml_get.simps(2))

lemma merge_open:
  assumes "toml_wf v" "toml_open (normalized_with_key_aliases v path) ks" "normal_at path b"
  shows "toml_get (merge_toml_values_at_path b v path) ks = toml_get b ks"
  using assms
proof (induction ks arbitrary: b v path)
  case (Cons k ks)
  have tv: "is_table v" using Cons.prems(2) toml_get_no_table by (metis normalized_is_table)
  show ?case
  proof (cases "is_table b")
    case True
    then obtain bt ot where t: "b = TomlTable bt" "v = TomlTable ot" using tv by (auto simp: is_table_cases)
    with Cons.prems have d: "distinct (map fst ot)" by simp
    obtain nt where nt: "normalized_with_key_aliases v path = TomlTable nt" using t by simp
    note b = normal_at_alias [OF Cons.prems(3) [unfolded t]]
    obtain r where r: "merge_toml_values_at_path b v path = TomlTable r"
      and entry: "map_of r = merged_entry path (map_of bt) (alias_map path (map_of ot))"
      using t b merge_table_entry [OF d, of bt path] by auto
    show ?thesis
    proof (cases "alias_map path (map_of ot) k")
      case None
      with r t show ?thesis by (simp add: entry merged_entry_def)
    next
      case (Some w)
      then have op: "toml_open (normalized_with_key_aliases w (path @ [k])) ks"
        using Cons.prems(2) nt normalized_table_entry [of ot path nt k] t by simp
      have "toml_wf w" using alias_map_wf Cons.prems(1) t(2) Some by blast
      then have "toml_get (merge_toml_values_at_path e w (path @ [k])) ks = toml_get e ks" if "map_of bt k = Some e" for e
        using Cons.IH [OF _ op] normal_at_child [OF Cons.prems(3) [unfolded t] that] by blast
      with Some r t toml_open_get [OF op] show ?thesis by (simp add: entry merged_entry_def split: option.split)
    qed
  next
    case False
    with toml_open_get [OF Cons.prems(2)] show ?thesis by (simp add: merge_no_table toml_get_no_table)
  qed
qed simp

lemma normalized_normal: "toml_get (normalized_with_key_aliases v []) (memories_path @ [memories_legacy]) = None"
proof (cases v)
  case (TomlTable t)
  obtain m where m: "memories_path = [m]" using alias_keys(2) by (metis Suc_length_conv length_0_conv One_nat_def)
  obtain nt where nt: "normalized_with_key_aliases v [] = TomlTable nt" using TomlTable by simp
  have "toml_get (normalized_with_key_aliases c memories_path) [memories_legacy] = None" for c
  proof (cases c)
    case (TomlTable ct)
    obtain nct where "normalized_with_key_aliases c memories_path = TomlTable nct" using TomlTable by simp
    with normalized_table_entry [of ct memories_path nct memories_legacy] TomlTable alias_keys(1) show ?thesis
      by (auto simp: alias_map_def split: option.splits)
  qed simp_all
  with normalized_table_entry [of t "[]" nt m] nt m TomlTable show ?thesis by (cases "alias_map [] (map_of t) m") simp_all
qed (use alias_keys(2) in \<open>cases memories_path; simp\<close>)+

section \<open>Several layers\<close>

lemma toml_get_two: "toml_get v [k] = Some c \<Longrightarrow> toml_get v [k, l] = toml_get c [l]"
  by (cases v) (auto simp: Option.bind_eq_Some_conv)

lemma toml_get_blocked:
  assumes "toml_get v [k, l] = None" "\<not> toml_open v [k, l]"
  shows "\<not> is_table v \<or> (\<exists>c. toml_get v [k] = Some c \<and> \<not> is_table c)"
proof (cases "is_table v")
  case True
  then obtain t where t: "v = TomlTable t" by (auto simp: is_table_cases)
  with assms(2) obtain c where c: "map_of t k = Some c" by (auto split: option.splits)
  with assms t have "\<not> is_table c" by (cases c) (auto split: option.splits)
  with c t show ?thesis by simp
qed simp

lemma merge_normal:
  assumes "toml_wf v" "normal_at [] b"
  shows "normal_at [] (merge_toml_values b v)"
proof -
  let ?n = "normalized_with_key_aliases v []" and ?m = "merge_toml_values_at_path b v []"
  obtain m where m: "memories_path = [m]" using alias_keys(2) by (metis Suc_length_conv length_0_conv One_nat_def)
  have none: "toml_get ?n [m, memories_legacy] = None" using normalized_normal [of v] m by simp
  consider "toml_open ?n [m, memories_legacy]" | "\<not> is_table v" | c where "toml_get ?n [m] = Some c" "\<not> is_table c"
    using toml_get_blocked [OF none] by auto
  then have "toml_get ?m [m, memories_legacy] = None"
  proof cases
    case 1
    from merge_open [OF assms(1) 1 assms(2)] assms(2) m show ?thesis by (simp add: normal_at_def)
  next
    case 2
    then show ?thesis using none by (simp add: merge_no_table)
  next
    case 3
    from toml_get_two [OF merge_leaf [OF assms(1) 3]] toml_get_no_table [OF 3(2)] show ?thesis by simp
  qed
  then show ?thesis using m by (simp add: normal_at_def merge_toml_values_def)
qed

definition merge_layers :: "toml list \<Rightarrow> toml" where
  "merge_layers cs = foldl merge_toml_values (TomlTable []) cs"

lemma merge_layers_snoc: "merge_layers (cs @ [c]) = merge_toml_values (merge_layers cs) c"
  by (simp add: merge_layers_def)

lemma merge_layers_normal: "\<forall>c \<in> set cs. toml_wf c \<Longrightarrow> normal_at [] (merge_layers cs)"
proof (induction cs rule: rev_induct)
  case Nil
  show ?case using alias_keys(2) by (cases memories_path) (auto simp: merge_layers_def normal_at_def)
qed (simp add: merge_layers_snoc merge_normal)

lemma merge_layers_top:
  assumes "\<forall>c \<in> set (lower @ cur # higher). toml_wf c"
    and "toml_get (normalized_with_key_aliases cur []) ks = Some v" "\<not> is_table v"
    and "\<forall>c \<in> set higher. toml_open (normalized_with_key_aliases c []) ks"
  shows "toml_get (merge_layers (lower @ cur # higher)) ks = Some v"
  using assms(1,4)
proof (induction higher rule: rev_induct)
  case Nil
  then show ?case using merge_leaf [OF _ assms(2,3)] by (simp add: merge_layers_snoc merge_toml_values_def)
next
  case (snoc c higher)
  have "normal_at [] (merge_layers (lower @ cur # higher))" using snoc.prems(1) by (intro merge_layers_normal) simp
  from merge_open [OF _ _ this, of c ks] snoc show ?case
    using merge_layers_snoc [of "lower @ cur # higher" c] by (simp add: merge_toml_values_def)
qed

section \<open>Overrides\<close>

lemma override_same: "segs \<noteq> [] \<Longrightarrow> toml_get (apply_toml_override_at r segs v) segs = Some v"
proof (induction segs arbitrary: r)
  case (Cons s segs)
  then show ?case by (cases "segs = []") (simp_all add: Let_def AList.update_conv')
qed simp

lemma override_other:
  assumes "\<not> prefix segs ks" "\<not> prefix ks segs"
  shows "toml_get (apply_toml_override_at r segs v) ks = toml_get r ks"
  using assms
proof (induction segs arbitrary: r ks)
  case (Cons s segs)
  obtain k ks' where ks: "ks = k # ks'" using Cons.prems by (cases ks) auto
  have table: "toml_get r (k # ks') = Option.bind (map_of (case r of TomlTable t \<Rightarrow> t | _ \<Rightarrow> []) k) (\<lambda>w. toml_get w ks')"
    by (cases r) simp_all
  show ?case
  proof (cases "k = s")
    case True
    then have ne: "segs \<noteq> []" "\<not> prefix segs ks'" "\<not> prefix ks' segs" using Cons.prems ks by auto
    then obtain k2 ks2 where "ks' = k2 # ks2" by (cases ks') auto
    with Cons.IH [OF ne(2,3)] ne(1) True ks table show ?thesis
      by (auto simp: Let_def AList.update_conv' split: option.splits)
  next
    case False
    with ks table show ?thesis by (simp add: Let_def AList.update_conv')
  qed
qed simp

text \<open>
  Overrides given on the command line hold: the value of an override is found at its dotted path in the layer built from
  all overrides, unless a later one concerns the same path, a part of it or a table above it.
\<close>

theorem cli_override_applies:
  assumes "\<forall>(q, w) \<in> set later. \<not> prefix (split_on dot q) (split_on dot path) \<and> \<not> prefix (split_on dot path) (split_on dot q)"
  shows "toml_get (build_cli_overrides_layer (earlier @ (path, v) # later)) (split_on dot path) = Some v"
  using assms
proof (induction later rule: rev_induct)
  case Nil
  then show ?case by (simp add: build_cli_overrides_layer_def apply_toml_override_def override_same)
next
  case (snoc x later)
  then show ?case
    by (cases x) (simp add: build_cli_overrides_layer_def apply_toml_override_def override_other)
qed

theorem cli_override_applies_witness:
  "toml_get (build_cli_overrides_layer [(lit ''a.b'', TomlInteger 1), (lit ''a.c'', TomlInteger 2)]) [lit ''a'', lit ''b''] = Some (TomlInteger 1)"
proof -
  have s: "split_on dot (lit ''a.b'') = [lit ''a'', lit ''b'']" "split_on dot (lit ''a.c'') = [lit ''a'', lit ''c'']" by code_simp+
  show ?thesis
    using cli_override_applies [of "[(lit ''a.c'', TomlInteger 2)]" "lit ''a.b''" "[]" "TomlInteger 1"] unfolding s by (simp add: lit_def)
qed

end
