(* ===== verification/Config_Layers.thy ===== *)
theory Config_Layers
  imports Sandbox_Roots Config_Toml
begin

text \<open>
  The stack of configuration layers (\<open>config/src/state.rs\<close>, \<open>app-server-protocol/src/protocol/v2/config.rs\<close>): where a layer comes from and its precedence,
  the order the layers must have, replacing the user's layer, the merged view and the origins of its fields.
  The fingerprint of a value (SHA-256) is the parameter \<open>version_of\<close>; the requirements are kept as they are.
\<close>

section \<open>Layers\<close>

datatype config_layer_source =
    Mdm rstr rstr
  | SystemLayer rstr
  | UserLayer rstr "rstr option"
  | ProjectLayer rstr
  | SessionFlags
  | LegacyManagedFile rstr
  | LegacyManagedMdm

definition precedence :: "config_layer_source \<Rightarrow> int" where
  "precedence src =
     (case src of
        Mdm _ _ \<Rightarrow> 0
      | SystemLayer _ \<Rightarrow> 10
      | UserLayer _ profile \<Rightarrow> if profile \<noteq> None then 21 else 20
      | ProjectLayer _ \<Rightarrow> 25
      | SessionFlags \<Rightarrow> 30
      | LegacyManagedFile _ \<Rightarrow> 40
      | LegacyManagedMdm \<Rightarrow> 50)"

record config_layer_entry =
  layer_name :: config_layer_source
  layer_config :: toml
  layer_raw_toml :: "rstr option"
  layer_version :: rstr
  disabled_reason :: "rstr option"
  hooks_config_folder_override :: "rstr option"

definition layer_new :: "(toml \<Rightarrow> rstr) \<Rightarrow> config_layer_source \<Rightarrow> toml \<Rightarrow> config_layer_entry" where
  "layer_new version_of nm config =
     \<lparr>layer_name = nm, layer_config = config, layer_raw_toml = None, layer_version = version_of config, disabled_reason = None,
      hooks_config_folder_override = None\<rparr>"

definition layer_new_with_raw_toml :: "(toml \<Rightarrow> rstr) \<Rightarrow> config_layer_source \<Rightarrow> toml \<Rightarrow> rstr \<Rightarrow> config_layer_entry" where
  "layer_new_with_raw_toml version_of nm config raw = (layer_new version_of nm config)\<lparr>layer_raw_toml := Some raw\<rparr>"

definition layer_new_disabled :: "(toml \<Rightarrow> rstr) \<Rightarrow> config_layer_source \<Rightarrow> toml \<Rightarrow> rstr \<Rightarrow> config_layer_entry" where
  "layer_new_disabled version_of nm config reason = (layer_new version_of nm config)\<lparr>disabled_reason := Some reason\<rparr>"

definition is_disabled :: "config_layer_entry \<Rightarrow> bool" where
  "is_disabled layer \<longleftrightarrow> disabled_reason layer \<noteq> None"

definition with_hooks_config_folder_override :: "rstr option \<Rightarrow> config_layer_entry \<Rightarrow> config_layer_entry" where
  "with_hooks_config_folder_override folder layer = layer\<lparr>hooks_config_folder_override := folder\<rparr>"

record config_layer_metadata =
  meta_name :: config_layer_source
  meta_version :: rstr

definition metadata :: "config_layer_entry \<Rightarrow> config_layer_metadata" where
  "metadata layer = \<lparr>meta_name = layer_name layer, meta_version = layer_version layer\<rparr>"

definition config_folder :: "config_layer_entry \<Rightarrow> rstr option" where
  "config_folder layer =
     (case layer_name layer of
        SystemLayer file \<Rightarrow> path_parent file
      | UserLayer file _ \<Rightarrow> path_parent file
      | ProjectLayer dot_codex_folder \<Rightarrow> Some dot_codex_folder
      | _ \<Rightarrow> None)"

definition hooks_config_folder :: "config_layer_entry \<Rightarrow> rstr option" where
  "hooks_config_folder layer =
     (case hooks_config_folder_override layer of Some folder \<Rightarrow> Some folder | None \<Rightarrow> config_folder layer)"

definition is_user_layer :: "config_layer_entry \<Rightarrow> bool" where
  "is_user_layer layer \<longleftrightarrow> (case layer_name layer of UserLayer _ _ \<Rightarrow> True | _ \<Rightarrow> False)"

section \<open>The order of the layers\<close>

datatype layer_order_error = NotInPrecedenceOrder | ProjectWithoutParent | ProjectsNotFromRootToCwd

fun verify_layers :: "nat \<Rightarrow> config_layer_entry list \<Rightarrow> nat option \<Rightarrow> rstr option \<Rightarrow> (layer_order_error, nat option) result" where
  "verify_layers index [] user_index previous = Inr user_index"
| "verify_layers index (layer # layers) user_index previous =
     (let user_index' = (if is_user_layer layer then Some index else user_index)
      in case layer_name layer of
           ProjectLayer current \<Rightarrow>
             (case previous of
                None \<Rightarrow> verify_layers (Suc index) layers user_index' (Some current)
              | Some prev \<Rightarrow>
                  (case path_parent prev of
                     None \<Rightarrow> Inl ProjectWithoutParent
                   | Some parent \<Rightarrow>
                       if same_path prev current \<or> \<not> (\<exists>a \<in> set (path_ancestors current). same_path a parent)
                       then Inl ProjectsNotFromRootToCwd
                       else verify_layers (Suc index) layers user_index' (Some current)))
         | _ \<Rightarrow> verify_layers (Suc index) layers user_index' previous)"

definition verify_layer_ordering :: "config_layer_entry list \<Rightarrow> (layer_order_error, nat option) result" where
  "verify_layer_ordering layers =
     (if sorted (map (precedence \<circ> layer_name) layers) then verify_layers 0 layers None None else Inl NotInPrecedenceOrder)"

section \<open>The stack\<close>

datatype layer_ordering = LowestPrecedenceFirst | HighestPrecedenceFirst

record ('r, 't) config_layer_stack =
  stack_layers :: "config_layer_entry list"
  user_layer_index :: "nat option"
  requirements :: 'r
  requirements_toml :: 't
  ignore_user_and_project_exec_policy_rules :: bool
  startup_warnings :: "rstr list option"

definition stack_new :: "config_layer_entry list \<Rightarrow> 'r \<Rightarrow> 't \<Rightarrow> (layer_order_error, ('r, 't) config_layer_stack) result" where
  "stack_new layers reqs reqs_toml =
     rbind (verify_layer_ordering layers) (\<lambda>index.
       Inr \<lparr>stack_layers = layers, user_layer_index = index, requirements = reqs, requirements_toml = reqs_toml,
            ignore_user_and_project_exec_policy_rules = False, startup_warnings = None\<rparr>)"

definition with_user_and_project_exec_policy_rules_ignored :: "bool \<Rightarrow> ('r, 't) config_layer_stack \<Rightarrow> ('r, 't) config_layer_stack" where
  "with_user_and_project_exec_policy_rules_ignored ignore st = st\<lparr>ignore_user_and_project_exec_policy_rules := ignore\<rparr>"

definition with_startup_warnings :: "rstr list \<Rightarrow> ('r, 't) config_layer_stack \<Rightarrow> ('r, 't) config_layer_stack" where
  "with_startup_warnings warnings st = st\<lparr>startup_warnings := Some warnings\<rparr>"

definition get_layers :: "('r, 't) config_layer_stack \<Rightarrow> layer_ordering \<Rightarrow> bool \<Rightarrow> config_layer_entry list" where
  "get_layers st order include_disabled =
     (let layers = filter (\<lambda>l. include_disabled \<or> \<not> is_disabled l) (stack_layers st)
      in if order = HighestPrecedenceFirst then rev layers else layers)"

definition layers_high_to_low :: "('r, 't) config_layer_stack \<Rightarrow> config_layer_entry list" where
  "layers_high_to_low st = get_layers st HighestPrecedenceFirst False"

definition get_active_user_layer :: "('r, 't) config_layer_stack \<Rightarrow> config_layer_entry option" where
  "get_active_user_layer st =
     (case user_layer_index st of
        Some i \<Rightarrow> if i < length (stack_layers st) then Some (stack_layers st ! i) else None
      | None \<Rightarrow> None)"

definition get_user_config_file :: "('r, 't) config_layer_stack \<Rightarrow> rstr option" where
  "get_user_config_file st =
     (case get_active_user_layer st of
        Some layer \<Rightarrow> (case layer_name layer of UserLayer file _ \<Rightarrow> Some file | _ \<Rightarrow> None)
      | None \<Rightarrow> None)"

definition get_user_layers :: "('r, 't) config_layer_stack \<Rightarrow> layer_ordering \<Rightarrow> bool \<Rightarrow> config_layer_entry list" where
  "get_user_layers st order include_disabled = filter is_user_layer (get_layers st order include_disabled)"

definition effective_user_config :: "('r, 't) config_layer_stack \<Rightarrow> toml option" where
  "effective_user_config st =
     (let user_layers = get_user_layers st LowestPrecedenceFirst False
      in if user_layers = [] then None else Some (foldl merge_toml_values (TomlTable []) (map layer_config user_layers)))"

definition effective_config :: "('r, 't) config_layer_stack \<Rightarrow> toml" where
  "effective_config st = foldl merge_toml_values (TomlTable []) (map layer_config (get_layers st LowestPrecedenceFirst False))"

definition origins :: "('r, 't) config_layer_stack \<Rightarrow> (rstr \<rightharpoonup> config_layer_metadata)" where
  "origins st =
     foldl (\<lambda>os layer. record_origins (normalized_with_key_aliases (layer_config layer) []) (metadata layer) [] os) Map.empty
       (get_layers st LowestPrecedenceFirst False)"

section \<open>Replacing the user's layer\<close>

definition insert_by_precedence :: "config_layer_entry \<Rightarrow> config_layer_entry list \<Rightarrow> config_layer_entry list" where
  "insert_by_precedence layer layers =
     (case position (\<lambda>l. precedence (layer_name l) > precedence (layer_name layer)) layers of
        Some i \<Rightarrow> take i layers @ layer # drop i layers
      | None \<Rightarrow> layers @ [layer])"

definition last_user_index :: "config_layer_entry list \<Rightarrow> nat option" where
  "last_user_index layers =
     (case position is_user_layer (rev layers) of Some i \<Rightarrow> Some (length layers - 1 - i) | None \<Rightarrow> None)"

definition parse_profile_name :: "rstr \<Rightarrow> rstr option" where
  "parse_profile_name s =
     (if s = [] \<or> \<not> (\<forall>c \<in> set s. (48 \<le> c \<and> c \<le> 57) \<or> (65 \<le> c \<and> c \<le> 90) \<or> (97 \<le> c \<and> c \<le> 122) \<or> c = 95 \<or> c = 45)
      then None else Some s)"

definition user_file_is :: "rstr \<Rightarrow> config_layer_entry \<Rightarrow> bool" where
  "user_file_is config_toml layer \<longleftrightarrow> (case layer_name layer of UserLayer file _ \<Rightarrow> same_path file config_toml | _ \<Rightarrow> False)"

definition with_user_config_profile ::
    "(toml \<Rightarrow> rstr) \<Rightarrow> ('r, 't) config_layer_stack \<Rightarrow> rstr \<Rightarrow> rstr option \<Rightarrow> toml \<Rightarrow> ('r, 't) config_layer_stack" where
  "with_user_config_profile version_of st config_toml profile user_config =
     (let user_layer = layer_new version_of (UserLayer config_toml profile) user_config;
          layers = (case position (user_file_is config_toml) (stack_layers st) of
                      Some i \<Rightarrow> remove_at i (stack_layers st)
                    | None \<Rightarrow> stack_layers st);
          layers' = insert_by_precedence user_layer layers
      in st\<lparr>stack_layers := layers', user_layer_index := last_user_index layers'\<rparr>)"

definition with_user_config ::
    "(toml \<Rightarrow> rstr) \<Rightarrow> ('r, 't) config_layer_stack \<Rightarrow> rstr \<Rightarrow> toml \<Rightarrow> ('r, 't) config_layer_stack" where
  "with_user_config version_of st config_toml user_config =
     (let profile = first_some (\<lambda>layer.
            case layer_name layer of
              UserLayer file profile \<Rightarrow> if same_path file config_toml then Option.bind profile parse_profile_name else None
            | _ \<Rightarrow> None) (stack_layers st)
      in with_user_config_profile version_of st config_toml profile user_config)"

definition with_user_layer_from :: "('r, 't) config_layer_stack \<Rightarrow> ('r, 't) config_layer_stack \<Rightarrow> ('r, 't) config_layer_stack" where
  "with_user_layer_from st other =
     (let layers = foldl (\<lambda>ls l. insert_by_precedence l ls) (filter (\<lambda>l. \<not> is_user_layer l) (stack_layers st))
                     (filter is_user_layer (stack_layers other))
      in st\<lparr>stack_layers := layers, user_layer_index := last_user_index layers\<rparr>)"

section \<open>What a correct order means\<close>

definition project_folders :: "config_layer_entry list \<Rightarrow> rstr list" where
  "project_folders layers = concat (map (\<lambda>l. case layer_name l of ProjectLayer f \<Rightarrow> [f] | _ \<Rightarrow> []) layers)"

fun projects_nested :: "rstr option \<Rightarrow> rstr list \<Rightarrow> bool" where
  "projects_nested previous [] = True"
| "projects_nested previous (current # rest) =
     ((case previous of
         None \<Rightarrow> True
       | Some prev \<Rightarrow>
           (case path_parent prev of
              None \<Rightarrow> False
            | Some parent \<Rightarrow> \<not> same_path prev current \<and> (\<exists>a \<in> set (path_ancestors current). same_path a parent))) \<and>
      projects_nested (Some current) rest)"

lemma position_append: "position P (xs @ ys) = (case position P xs of Some i \<Rightarrow> Some i | None \<Rightarrow> map_option (\<lambda>i. length xs + i) (position P ys))"
  by (cases "position P ys"; induction xs) (auto split: option.splits)

lemma last_user_index_Cons:
  "last_user_index (l # ls) = (case last_user_index ls of Some i \<Rightarrow> Some (Suc i) | None \<Rightarrow> if is_user_layer l then Some 0 else None)"
proof (cases "position is_user_layer (rev ls)")
  case (Some i)
  with position_SomeD [OF Some] show ?thesis by (simp add: last_user_index_def position_append Suc_diff_Suc)
qed (simp add: last_user_index_def position_append)

lemma verify_layers_iff:
  "verify_layers i ls u prev = Inr r \<longleftrightarrow>
     projects_nested prev (project_folders ls) \<and> r = (case last_user_index ls of Some j \<Rightarrow> Some (i + j) | None \<Rightarrow> u)"
proof (induction ls arbitrary: i u prev)
  case Nil
  then show ?case by (auto simp: project_folders_def last_user_index_def)
next
  case (Cons l ls)
  then show ?case
    by (cases "layer_name l")
       (auto simp: project_folders_def last_user_index_Cons is_user_layer_def Let_def split: option.splits)
qed

definition layers_ok :: "config_layer_entry list \<Rightarrow> bool" where
  "layers_ok ls \<longleftrightarrow> sorted (map (precedence \<circ> layer_name) ls) \<and> projects_nested None (project_folders ls)"

lemma verify_layer_ordering_iff: "verify_layer_ordering ls = Inr r \<longleftrightarrow> layers_ok ls \<and> r = last_user_index ls"
  by (auto simp: verify_layer_ordering_def verify_layers_iff layers_ok_def split: option.split)

lemma insert_by_precedence_eq:
  "insert_by_precedence l ls =
     takeWhile (\<lambda>x. precedence (layer_name x) \<le> precedence (layer_name l)) ls @ l #
     dropWhile (\<lambda>x. precedence (layer_name x) \<le> precedence (layer_name l)) ls"
  unfolding insert_by_precedence_def by (induction ls) (auto simp: not_le split: option.splits)

lemma sorted_insert_by_precedence:
  assumes "sorted (map (precedence \<circ> layer_name) ls)"
  shows "sorted (map (precedence \<circ> layer_name) (insert_by_precedence l ls))"
  using assms by (induction ls) (auto simp: insert_by_precedence_eq dest: set_takeWhileD set_dropWhileD)

lemma filter_insert_by_precedence:
  "\<not> P l \<Longrightarrow> filter P (insert_by_precedence l ls) = filter P ls"
  using filter_append [of P "takeWhile (\<lambda>x. precedence (layer_name x) \<le> precedence (layer_name l)) ls"
      "dropWhile (\<lambda>x. precedence (layer_name x) \<le> precedence (layer_name l)) ls"]
  by (simp add: insert_by_precedence_eq)

lemma project_folders_filter: "project_folders (filter (\<lambda>l. \<not> is_user_layer l) ls) = project_folders ls"
  by (induction ls) (auto simp: project_folders_def is_user_layer_def split: config_layer_source.splits)

lemma layers_ok_same_others:
  "sorted (map (precedence \<circ> layer_name) ls') \<Longrightarrow> filter (\<lambda>l. \<not> is_user_layer l) ls' = filter (\<lambda>l. \<not> is_user_layer l) ls \<Longrightarrow>
     layers_ok ls \<Longrightarrow> layers_ok ls'"
  unfolding layers_ok_def by (metis project_folders_filter)

lemma remove_user_layer:
  fixes ls :: "config_layer_entry list" and f :: rstr
  defines "ls' \<equiv> (case position (user_file_is f) ls of Some i \<Rightarrow> remove_at i ls | None \<Rightarrow> ls)"
  shows "filter (\<lambda>l. \<not> is_user_layer l) ls' = filter (\<lambda>l. \<not> is_user_layer l) ls" "set ls' \<subseteq> set ls"
    "sorted (map (precedence \<circ> layer_name) ls) \<Longrightarrow> sorted (map (precedence \<circ> layer_name) ls')"
proof -
  have split: "ls = take i ls @ ls ! i # drop (Suc i) ls" "is_user_layer (ls ! i)" if "position (user_file_is f) ls = Some i" for i
    using position_SomeD [OF that] by (auto simp: id_take_nth_drop user_file_is_def is_user_layer_def split: config_layer_source.splits)
  have "filter (\<lambda>l. \<not> is_user_layer l) (remove_at i ls) = filter (\<lambda>l. \<not> is_user_layer l) ls" if "position (user_file_is f) ls = Some i" for i
    using split(2) [OF that] by (subst (2) split(1) [OF that]) (simp add: remove_at_def)
  then show "filter (\<lambda>l. \<not> is_user_layer l) ls' = filter (\<lambda>l. \<not> is_user_layer l) ls" by (auto simp: ls'_def split: option.split)
  show "set ls' \<subseteq> set ls" by (auto simp: ls'_def remove_at_def split: option.splits dest: in_set_takeD in_set_dropD)
  assume srt: "sorted (map (precedence \<circ> layer_name) ls)"
  have "sorted (map (precedence \<circ> layer_name) (take i ls @ drop (Suc i) ls))" for i
    using srt sorted_wrt_take sorted_wrt_drop unfolding map_append sorted_append
    by (auto simp: sorted_iff_nth_mono in_set_conv_nth)
  then show "sorted (map (precedence \<circ> layer_name) ls')" using srt by (auto simp: ls'_def remove_at_def split: option.split)
qed

definition stack_ok :: "('r, 't) config_layer_stack \<Rightarrow> bool" where
  "stack_ok st \<longleftrightarrow> verify_layer_ordering (stack_layers st) = Inr (user_layer_index st)"

definition other_layers :: "('r, 't) config_layer_stack \<Rightarrow> config_layer_entry list" where
  "other_layers st = filter (\<lambda>l. \<not> is_user_layer l) (stack_layers st)"

lemma with_user_config_profile_ok:
  assumes "stack_ok st"
  shows "stack_ok (with_user_config_profile version_of st f profile c) \<and> other_layers (with_user_config_profile version_of st f profile c) = other_layers st"
proof -
  let ?u = "layer_new version_of (UserLayer f profile) c"
  let ?ls = "case position (user_file_is f) (stack_layers st) of Some i \<Rightarrow> remove_at i (stack_layers st) | None \<Rightarrow> stack_layers st"
  have ok: "layers_ok (stack_layers st)" using assms by (simp add: stack_ok_def verify_layer_ordering_iff)
  have "is_user_layer ?u" by (simp add: is_user_layer_def layer_new_def)
  then have f: "filter (\<lambda>l. \<not> is_user_layer l) (insert_by_precedence ?u ?ls) = filter (\<lambda>l. \<not> is_user_layer l) (stack_layers st)"
    using remove_user_layer(1) [of "stack_layers st" f] by (simp add: filter_insert_by_precedence)
  have "sorted (map (precedence \<circ> layer_name) (insert_by_precedence ?u ?ls))"
    using ok remove_user_layer(3) [of "stack_layers st" f] by (intro sorted_insert_by_precedence) (simp add: layers_ok_def)
  from layers_ok_same_others [OF this f ok] f show ?thesis
    by (simp add: stack_ok_def verify_layer_ordering_iff with_user_config_profile_def Let_def other_layers_def)
qed

lemma with_user_layer_from_ok:
  assumes "stack_ok st"
  shows "stack_ok (with_user_layer_from st other) \<and> other_layers (with_user_layer_from st other) = other_layers st"
proof -
  have "sorted (map (precedence \<circ> layer_name) (foldl (\<lambda>ls l. insert_by_precedence l ls) ls us)) \<and>
      filter (\<lambda>l. \<not> is_user_layer l) (foldl (\<lambda>ls l. insert_by_precedence l ls) ls us) = filter (\<lambda>l. \<not> is_user_layer l) ls"
    if "sorted (map (precedence \<circ> layer_name) ls)" "\<forall>u \<in> set us. is_user_layer u" for ls us
    using that by (induction us arbitrary: ls) (simp_all add: sorted_insert_by_precedence filter_insert_by_precedence)
  moreover have ok: "layers_ok (stack_layers st)" using assms by (simp add: stack_ok_def verify_layer_ordering_iff)
  then have "sorted (map (precedence \<circ> layer_name) (filter (\<lambda>l. \<not> is_user_layer l) (stack_layers st)))"
    unfolding layers_ok_def sorted_map by (blast intro: sorted_wrt_filter)
  ultimately have "sorted (map (precedence \<circ> layer_name) (stack_layers (with_user_layer_from st other))) \<and>
      filter (\<lambda>l. \<not> is_user_layer l) (stack_layers (with_user_layer_from st other)) = filter (\<lambda>l. \<not> is_user_layer l) (stack_layers st)"
    by (simp add: with_user_layer_from_def Let_def)
  with ok layers_ok_same_others [of "stack_layers (with_user_layer_from st other)" "stack_layers st"] show ?thesis
    by (simp add: stack_ok_def verify_layer_ordering_iff other_layers_def) (simp add: with_user_layer_from_def Let_def)
qed

text \<open>
  Whatever is done to the user's layer, the stack stays one that passes the check of its order: replacing the user's layer, with or without a
  profile, and taking over the user's layers of another stack keep the layers sorted by precedence
  and the projects nested, keep every other layer, and the active user layer is the last one.
\<close>

theorem user_layer_changes_keep_order:
  assumes "stack_ok st"
    and "st' \<in> {with_user_config version_of st f c, with_user_config_profile version_of st f profile c, with_user_layer_from st other}"
  shows "verify_layer_ordering (stack_layers st') = Inr (user_layer_index st') \<and> other_layers st' = other_layers st"
  using assms(2) with_user_config_profile_ok [OF assms(1)] with_user_layer_from_ok [OF assms(1)]
  by (auto simp: with_user_config_def Let_def stack_ok_def)

definition no_version :: "toml \<Rightarrow> rstr" where
  "no_version v = []"

definition demo_stack :: "(unit, unit) config_layer_stack" where
  "demo_stack =
     \<lparr>stack_layers =
        [layer_new no_version (SystemLayer (lit ''/etc/codex/config.toml'')) (TomlTable [(lit ''a'', TomlTable [(lit ''b'', TomlInteger 1)])]),
         layer_new no_version (UserLayer (lit ''/h/config.toml'') None) (TomlTable [(lit ''a'', TomlInteger 2)]),
         layer_new no_version (ProjectLayer (lit ''/w/.codex'')) (TomlTable [(lit ''m'', TomlString (lit ''x''))])],
      user_layer_index = Some 1, requirements = (), requirements_toml = (), ignore_user_and_project_exec_policy_rules = False,
      startup_warnings = None\<rparr>"

theorem user_layer_changes_keep_order_witness:
  "let st' = with_user_config no_version demo_stack (lit ''/h/work.toml'') (TomlTable [])
   in verify_layer_ordering (stack_layers st') = Inr (user_layer_index st') \<and> length (other_layers st') = 2"
proof -
  have ok: "stack_ok demo_stack" by code_simp
  have n: "length (other_layers demo_stack) = 2" by code_simp
  from user_layer_changes_keep_order [OF ok, of "with_user_config no_version demo_stack (lit ''/h/work.toml'') (TomlTable [])"
      no_version "lit ''/h/work.toml''" "TomlTable []"] n
  show ?thesis by (simp add: Let_def)
qed

section \<open>The merged view\<close>

lemma effective_config_eq: "effective_config st = merge_layers (map layer_config (filter (\<lambda>l. \<not> is_disabled l) (stack_layers st)))"
  by (simp add: effective_config_def merge_layers_def get_layers_def Let_def)

lemma effective_config_leaf:
  assumes "stack_layers st = lower @ l # higher" "\<not> is_disabled l" "\<forall>x \<in> set (stack_layers st). toml_wf (layer_config x)"
    and "toml_get (normalized_with_key_aliases (layer_config l) []) ks = Some v" "\<not> is_table v"
    and "\<forall>x \<in> set higher. \<not> is_disabled x \<longrightarrow> toml_open (normalized_with_key_aliases (layer_config x) []) ks"
  shows "toml_get (effective_config st) ks = Some v"
  using merge_layers_top [of "map layer_config (filter (\<lambda>l. \<not> is_disabled l) lower)" "layer_config l"
      "map layer_config (filter (\<lambda>l. \<not> is_disabled l) higher)" ks v] assms
  by (simp add: effective_config_eq) (auto simp: assms(1))

lemma dropWhile_sorted: "sorted (map f xs) \<Longrightarrow> x \<in> set (dropWhile (\<lambda>x. f x \<le> p) xs) \<Longrightarrow> p < f x" for p :: int
  by (induction xs) (fastforce split: if_splits)+

text \<open>
  C32: An edit of the user's configuration takes effect: after replacing the user's layer, a setting of the new layer is what the merged
  view says, if no enabled layer of higher precedence says anything about it, whatever the system, the base user
  layer and disabled layers say.
\<close>

theorem user_setting_takes_effect:
  assumes "stack_ok st" "\<forall>l \<in> set (stack_layers st). toml_wf (layer_config l)" "toml_wf c"
    and "toml_get (normalized_with_key_aliases c []) ks = Some v" "\<not> is_table v"
    and "\<forall>l \<in> set (stack_layers st). \<not> is_disabled l \<and> precedence (UserLayer f profile) < precedence (layer_name l) \<longrightarrow>
           toml_open (normalized_with_key_aliases (layer_config l) []) ks"
  shows "toml_get (effective_config (with_user_config_profile version_of st f profile c)) ks = Some v"
proof -
  let ?u = "layer_new version_of (UserLayer f profile) c" and ?P = "\<lambda>x. (precedence \<circ> layer_name) x \<le> precedence (UserLayer f profile)"
  let ?ls = "case position (user_file_is f) (stack_layers st) of Some i \<Rightarrow> remove_at i (stack_layers st) | None \<Rightarrow> stack_layers st"
  let ?st = "with_user_config_profile version_of st f profile c"
  have "layers_ok (stack_layers st)" using assms(1) by (simp add: stack_ok_def verify_layer_ordering_iff)
  then have srt: "sorted (map (precedence \<circ> layer_name) ?ls)"
    using remove_user_layer(3) [of "stack_layers st" f] by (simp add: layers_ok_def)
  have split: "stack_layers ?st = takeWhile ?P ?ls @ ?u # dropWhile ?P ?ls"
    by (simp add: with_user_config_profile_def Let_def insert_by_precedence_eq layer_new_def)
  have sub: "set ?ls \<subseteq> set (stack_layers st)" by (rule remove_user_layer(2))
  have higher: "\<forall>x \<in> set (dropWhile ?P ?ls). \<not> is_disabled x \<longrightarrow> toml_open (normalized_with_key_aliases (layer_config x) []) ks"
    using dropWhile_sorted [OF srt] sub assms(6) set_dropWhileD [of _ ?P ?ls] by (simp add: subset_iff)
  have wf: "\<forall>x \<in> set (stack_layers ?st). toml_wf (layer_config x)"
    using sub assms(2,3) unfolding split by (auto simp: layer_new_def dest!: set_takeWhileD set_dropWhileD)
  show ?thesis
    by (rule effective_config_leaf [OF split _ wf _ assms(5) higher]) (simp_all add: is_disabled_def layer_new_def assms(4))
qed

theorem user_setting_takes_effect_witness:
  "toml_get (effective_config (with_user_config_profile no_version demo_stack (lit ''/h/config.toml'') None
      (TomlTable [(lit ''a'', TomlTable [(lit ''b'', TomlInteger 7)])]))) [lit ''a'', lit ''b''] = Some (TomlInteger 7)"
proof -
  let ?c = "TomlTable [(lit ''a'', TomlTable [(lit ''b'', TomlInteger 7)])]"
  have ok: "stack_ok demo_stack" "\<forall>l \<in> set (stack_layers demo_stack). toml_wf (layer_config l)" "toml_wf ?c"
      "toml_get (normalized_with_key_aliases ?c []) [lit ''a'', lit ''b''] = Some (TomlInteger 7)"
      "\<forall>l \<in> set (stack_layers demo_stack). \<not> is_disabled l \<and> precedence (UserLayer (lit ''/h/config.toml'') None) < precedence (layer_name l) \<longrightarrow>
           toml_open (normalized_with_key_aliases (layer_config l) []) [lit ''a'', lit ''b'']"
    by code_simp+
  from user_setting_takes_effect [OF ok(1-4) _ ok(5)] show ?thesis by simp
qed

text \<open>
  The origins list fields that the merged view does not have: when a layer replaces a table by a plain value, the fields of the
  table keep their origin although the merged configuration has no such field.
\<close>

theorem origins_list_overridden_fields:
  "toml_get (effective_config demo_stack) [lit ''a'', lit ''b''] = None \<and>
   map_option meta_name (origins demo_stack (lit ''a.b'')) = Some (SystemLayer (lit ''/etc/codex/config.toml''))"
  by code_simp

end
