(* ===== verification/Exec_Approval.thy ===== *)
theory Exec_Approval
  imports Exec_Amend Exec_Requirements Command_Safety Approvals Config_Layers
begin

text \<open>
  Deciding about a shell command (\<open>core/src/exec_policy.rs\<close>): the manager keeps the current execution policy, splits a command
  line into the commands it runs, evaluates them against the policy with a heuristic for commands
  that no rule matches, and turns the evaluation into an approval requirement. It also
  loads the policy from the configuration layers and amends it when the user agrees.
\<close>

section \<open>Parts the code relies on\<close>

text \<open>
  The tree-sitter parsers, the Windows safelist and \<open>shlex\<close> are parameters: \<open>split_script\<close> and \<open>heredoc_command\<close> read the script of a
  shell invocation.
\<close>

record exec_tools =
  split_script :: script_splitter
  heredoc_command :: "rstr \<Rightarrow> rstr list option"
  safe_windows :: "rstr list \<Rightarrow> bool"
  shlex_join :: "rstr list \<Rightarrow> rstr option"

definition parse_shell_lc_single_command_prefix :: "exec_tools \<Rightarrow> rstr list \<Rightarrow> rstr list option" where
  "parse_shell_lc_single_command_prefix tools command =
     Option.bind (extract_bash_command command) (\<lambda>(_, script). heredoc_command tools script)"

section \<open>Commands\<close>

record exec_policy_commands =
  policy_commands :: "rstr list list"
  used_complex_parsing :: bool

definition commands_for_exec_policy :: "exec_tools \<Rightarrow> rstr list \<Rightarrow> exec_policy_commands" where
  "commands_for_exec_policy tools command =
     (case parse_shell_lc_plain_commands (split_script tools) command of
        Some (c # cs) \<Rightarrow> \<lparr>policy_commands = c # cs, used_complex_parsing = False\<rparr>
      | _ \<Rightarrow>
          (case parse_shell_lc_single_command_prefix tools command of
             Some single_command \<Rightarrow> \<lparr>policy_commands = [single_command], used_complex_parsing = True\<rparr>
           | None \<Rightarrow> \<lparr>policy_commands = [command], used_complex_parsing = False\<rparr>))"

definition BANNED_PREFIX_SUGGESTIONS :: "rstr list list" where
  "BANNED_PREFIX_SUGGESTIONS = map (map lit)
     [[''python3''], [''python3'', ''-''], [''python3'', ''-c''], [''python''], [''python'', ''-''], [''python'', ''-c''],
      [''py''], [''py'', ''-3''], [''pythonw''], [''pyw''], [''pypy''], [''pypy3''], [''git''],
      [''bash''], [''bash'', ''-lc''], [''sh''], [''sh'', ''-c''], [''sh'', ''-lc''], [''zsh''], [''zsh'', ''-lc''],
      [''/bin/zsh''], [''/bin/zsh'', ''-lc''], [''/bin/bash''], [''/bin/bash'', ''-lc''],
      [''pwsh''], [''pwsh'', ''-Command''], [''pwsh'', ''-c''],
      [''powershell''], [''powershell'', ''-Command''], [''powershell'', ''-c''],
      [''powershell.exe''], [''powershell.exe'', ''-Command''], [''powershell.exe'', ''-c''],
      [''env''], [''sudo''], [''node''], [''node'', ''-e''], [''perl''], [''perl'', ''-e''], [''ruby''], [''ruby'', ''-e''],
      [''php''], [''php'', ''-r''], [''lua''], [''lua'', ''-e''], [''osascript'']]"

section \<open>Commands that no rule matches\<close>

record exec_approval_request =
  ea_command :: "rstr list"
  ea_approval_policy :: ask_for_approval
  ea_permission_profile :: permission_profile
  ea_file_system_policy :: sandbox_policy
  ea_sandbox_cwd :: rstr
  ea_sandbox_permissions :: sandbox_permissions
  ea_prefix_rule :: "rstr list option"

text \<open>The target is not Windows, where a managed read-only profile would count as no protection at all.\<close>

definition render_decision_for_unmatched_command ::
    "exec_tools \<Rightarrow> exec_approval_request \<Rightarrow> bool \<Rightarrow> rstr list \<Rightarrow> decision" where
  "render_decision_for_unmatched_command tools req complex_parsing command =
     (if is_known_safe_command (safe_windows tools) (split_script tools) command \<and> \<not> complex_parsing \<and>
         ea_approval_policy req = UnlessTrusted
      then Allow
      else if command_might_be_dangerous (split_script tools) command
      then (case ea_approval_policy req of
              Never \<Rightarrow> (case ea_permission_profile req of Managed _ _ \<Rightarrow> Forbidden | _ \<Rightarrow> Allow)
            | _ \<Rightarrow> Prompt)
      else (case ea_approval_policy req of
              Never \<Rightarrow> Allow
            | OnFailure \<Rightarrow> Allow
            | UnlessTrusted \<Rightarrow> Prompt
            | _ \<Rightarrow>
                if kind (ea_file_system_policy req) \<noteq> KindRestricted then Allow
                else if requests_sandbox_override (ea_sandbox_permissions req) then Prompt else Allow))"

section \<open>Amendments and reasons\<close>

definition is_policy_match :: "rule_match \<Rightarrow> bool" where
  "is_policy_match m \<longleftrightarrow> \<not> is_heuristics m"

definition PROMPT_CONFLICT_REASON :: rstr where
  "PROMPT_CONFLICT_REASON = lit ''approval required by policy, but AskForApproval is set to Never''"

definition REJECT_SANDBOX_APPROVAL_REASON :: rstr where
  "REJECT_SANDBOX_APPROVAL_REASON = lit ''approval required by policy, but AskForApproval::Granular.sandbox_approval is false''"

definition REJECT_RULES_APPROVAL_REASON :: rstr where
  "REJECT_RULES_APPROVAL_REASON = lit ''approval required by policy rule, but AskForApproval::Granular.rules is false''"

definition prompt_is_rejected_by_policy :: "ask_for_approval \<Rightarrow> bool \<Rightarrow> rstr option" where
  "prompt_is_rejected_by_policy policy prompt_is_rule =
     (case policy of
        Never \<Rightarrow> Some PROMPT_CONFLICT_REASON
      | Granular g \<Rightarrow>
          if prompt_is_rule then (if rules_approval g then None else Some REJECT_RULES_APPROVAL_REASON)
          else if sandbox_approval g then None else Some REJECT_SANDBOX_APPROVAL_REASON
      | _ \<Rightarrow> None)"

fun heuristic_command :: "decision \<Rightarrow> rule_match \<Rightarrow> exec_policy_amendment option" where
  "heuristic_command d (HeuristicsRuleMatch command d') = (if d = d' then Some command else None)"
| "heuristic_command d _ = None"

definition try_derive_execpolicy_amendment_for_prompt_rules :: "rule_match list \<Rightarrow> exec_policy_amendment option" where
  "try_derive_execpolicy_amendment_for_prompt_rules ms =
     (if \<exists>m \<in> set ms. is_policy_match m \<and> match_decision m = Prompt then None else first_some (heuristic_command Prompt) ms)"

definition try_derive_execpolicy_amendment_for_allow_rules :: "rule_match list \<Rightarrow> exec_policy_amendment option" where
  "try_derive_execpolicy_amendment_for_allow_rules ms =
     (if \<exists>m \<in> set ms. is_policy_match m then None else first_some (heuristic_command Allow) ms)"

definition prefix_rule_would_approve_all_commands ::
    "process_env \<Rightarrow> policy \<Rightarrow> rstr list \<Rightarrow> rstr list list \<Rightarrow> (rstr list \<Rightarrow> decision) \<Rightarrow> bool" where
  "prefix_rule_would_approve_all_commands penv p pre commands fallback =
     (case add_prefix_rule p pre Allow of
        Inl _ \<Rightarrow> False
      | Inr p' \<Rightarrow> \<forall>c \<in> set commands. map_option eval_decision (check_with_options penv p' c fallback True) = Some Allow)"

definition derive_requested_execpolicy_amendment_from_prefix_rule ::
    "process_env \<Rightarrow> rstr list option \<Rightarrow> rule_match list \<Rightarrow> policy \<Rightarrow> rstr list list \<Rightarrow> (rstr list \<Rightarrow> decision) \<Rightarrow> exec_policy_amendment option" where
  "derive_requested_execpolicy_amendment_from_prefix_rule penv prefix_rule ms p commands fallback =
     (case prefix_rule of
        None \<Rightarrow> None
      | Some pre \<Rightarrow>
          if pre = [] then None
          else if pre \<in> set BANNED_PREFIX_SUGGESTIONS then None
          else if \<exists>m \<in> set ms. is_policy_match m then None
          else if prefix_rule_would_approve_all_commands penv p pre commands fallback then Some pre
          else None)"

definition render_shlex_command :: "exec_tools \<Rightarrow> rstr list \<Rightarrow> rstr" where
  "render_shlex_command tools args = (case shlex_join tools args of Some s \<Rightarrow> s | None \<Rightarrow> join (lit '' '') args)"

fun rule_match_with :: "decision \<Rightarrow> rule_match \<Rightarrow> (rstr list \<times> rstr option) option" where
  "rule_match_with d (PrefixRuleMatch matched d' resolved j) = (if d = d' then Some (matched, j) else None)"
| "rule_match_with d _ = None"

definition most_specific_match :: "decision \<Rightarrow> rule_match list \<Rightarrow> (rstr list \<times> rstr option) option" where
  "most_specific_match d ms = max_by_key (\<lambda>(matched, _). length matched) (List.map_filter (rule_match_with d) ms)"

definition backquote :: rstr where
  "backquote = [96]"

definition derive_prompt_reason :: "exec_tools \<Rightarrow> rstr list \<Rightarrow> evaluation \<Rightarrow> rstr option" where
  "derive_prompt_reason tools args e =
     (let command = render_shlex_command tools args
      in case most_specific_match Prompt (matched_rules e) of
           Some (_, Some j) \<Rightarrow> Some (backquote @ command @ lit ''` requires approval: '' @ j)
         | Some (_, None) \<Rightarrow> Some (backquote @ command @ lit ''` requires approval by policy'')
         | None \<Rightarrow> None)"

definition derive_forbidden_reason :: "exec_tools \<Rightarrow> rstr list \<Rightarrow> evaluation \<Rightarrow> rstr" where
  "derive_forbidden_reason tools args e =
     (let command = render_shlex_command tools args
      in case most_specific_match Forbidden (matched_rules e) of
           Some (_, Some j) \<Rightarrow> backquote @ command @ lit ''` rejected: '' @ j
         | Some (matched, None) \<Rightarrow>
             backquote @ command @ lit ''` rejected: policy forbids commands starting with `'' @ render_shlex_command tools matched @ backquote
         | None \<Rightarrow> backquote @ command @ lit ''` rejected: blocked by policy'')"

section \<open>The requirement\<close>

text \<open>\<open>None\<close> where evaluating no match at all would panic.\<close>

definition create_exec_approval_requirement_for_command ::
    "process_env \<Rightarrow> exec_tools \<Rightarrow> policy \<Rightarrow> exec_approval_request \<Rightarrow> exec_approval_requirement option" where
  "create_exec_approval_requirement_for_command penv tools p req =
     (let cmds = commands_for_exec_policy tools (ea_command req);
          commands = policy_commands cmds;
          auto_amendment_allowed = (\<not> used_complex_parsing cmds);
          fallback = render_decision_for_unmatched_command tools req (used_complex_parsing cmds)
      in map_option (\<lambda>evaluation.
           let requested_amendment =
                 (if auto_amendment_allowed
                  then derive_requested_execpolicy_amendment_from_prefix_rule penv (ea_prefix_rule req) (matched_rules evaluation) p commands fallback
                  else None)
           in case eval_decision evaluation of
                Forbidden \<Rightarrow> ExecForbidden (derive_forbidden_reason tools (ea_command req) evaluation)
              | Prompt \<Rightarrow>
                  (let prompt_is_rule = (\<exists>m \<in> set (matched_rules evaluation). is_policy_match m \<and> match_decision m = Prompt)
                   in case prompt_is_rejected_by_policy (ea_approval_policy req) prompt_is_rule of
                        Some reason \<Rightarrow> ExecForbidden reason
                      | None \<Rightarrow>
                          NeedsApproval (derive_prompt_reason tools (ea_command req) evaluation)
                            (case requested_amendment of
                               Some a \<Rightarrow> Some a
                             | None \<Rightarrow>
                                 if auto_amendment_allowed then try_derive_execpolicy_amendment_for_prompt_rules (matched_rules evaluation)
                                 else None))
              | Allow \<Rightarrow>
                  Skip (\<forall>c \<in> set commands. \<exists>m \<in> set (matches_for_command_with_options penv p c None True).
                          is_policy_match m \<and> match_decision m = Allow)
                    (if auto_amendment_allowed then try_derive_execpolicy_amendment_for_allow_rules (matched_rules evaluation) else None))
         (check_multiple_with_options penv p commands fallback True))"

section \<open>Updating the policy\<close>

text \<open>
  An update writes the rule to the policy file in a blocking task and then replaces the policy. \<open>run_task\<close> runs the task;
  \<open>None\<close> means that it could not be joined. The semaphore has one permit and is never closed, so
  updates follow one another.
\<close>

datatype 'e exec_policy_update_error =
    AppendRule rstr "'e amend_error"
  | JoinBlockingTask
  | AddRule policy_error

type_synonym ('w, 'r) task_runner = "('w \<Rightarrow> 'w \<times> 'r) \<Rightarrow> 'w \<Rightarrow> 'w \<times> 'r option"

definition default_policy_path :: "rstr \<Rightarrow> rstr" where
  "default_policy_path codex_home = path_join (path_join codex_home (lit ''rules'')) (lit ''default.rules'')"

definition already_allowed :: "process_env \<Rightarrow> policy \<Rightarrow> rstr list \<Rightarrow> bool" where
  "already_allowed penv p amendment =
     (case check_multiple_with_options penv p [amendment] (\<lambda>_. Forbidden) True of
        Some e \<Rightarrow> eval_decision e = Allow \<and> (\<exists>m \<in> set (matched_rules e). is_policy_match m \<and> match_decision m = Allow)
      | None \<Rightarrow> False)"

definition append_amendment_and_update ::
    "('w, ('e amend_error, unit) result) task_runner \<Rightarrow> json_writer \<Rightarrow> ('w, 'e) policy_file_ops \<Rightarrow> process_env \<Rightarrow> rstr \<Rightarrow> exec_policy_amendment
       \<Rightarrow> policy \<times> 'w \<Rightarrow> (policy \<times> 'w) \<times> ('e exec_policy_update_error, unit) result" where
  "append_amendment_and_update run_task json ops penv codex_home amendment = (\<lambda>(p, w).
     let policy_path = default_policy_path codex_home
     in case run_task (blocking_append_allow_prefix_rule json ops policy_path amendment) w of
          (w', None) \<Rightarrow> ((p, w'), Inl JoinBlockingTask)
        | (w', Some (Inl e)) \<Rightarrow> ((p, w'), Inl (AppendRule policy_path e))
        | (w', Some (Inr _)) \<Rightarrow>
            if already_allowed penv p amendment then ((p, w'), Inr ())
            else (case add_prefix_rule p amendment Allow of
                    Inl e \<Rightarrow> ((p, w'), Inl (AddRule e))
                  | Inr p' \<Rightarrow> ((p', w'), Inr ())))"

definition append_network_rule_and_update ::
    "('w, ('e amend_error, unit) result) task_runner \<Rightarrow> json_writer \<Rightarrow> ('w, 'e) policy_file_ops \<Rightarrow> rstr \<Rightarrow> rstr \<Rightarrow> network_rule_protocol \<Rightarrow> decision
       \<Rightarrow> rstr option \<Rightarrow> policy \<times> 'w \<Rightarrow> (policy \<times> 'w) \<times> ('e exec_policy_update_error, unit) result" where
  "append_network_rule_and_update run_task json ops codex_home host protocol d justification = (\<lambda>(p, w).
     let policy_path = default_policy_path codex_home
     in case run_task (blocking_append_network_rule json ops policy_path host protocol d justification) w of
          (w', None) \<Rightarrow> ((p, w'), Inl JoinBlockingTask)
        | (w', Some (Inl e)) \<Rightarrow> ((p, w'), Inl (AppendRule policy_path e))
        | (w', Some (Inr _)) \<Rightarrow>
            (case add_network_rule p host protocol d justification of
               Inl e \<Rightarrow> ((p, w'), Inl (AddRule e))
             | Inr p' \<Rightarrow> ((p', w'), Inr ())))"

section \<open>Loading the policy\<close>

text \<open>Of the requirements only the required rules matter here.\<close>

record config_requirements =
  exec_policy :: "policy option"

type_synonym 't layer_stack = "(config_requirements, 't) config_layer_stack"

definition requirements_policy :: "'t layer_stack \<Rightarrow> policy option" where
  "requirements_policy stack = exec_policy (requirements stack)"

text \<open>
  Reading a directory yields its entries one by one, each of which may fail, with the file type that may fail too.
\<close>

record 'e rules_disk =
  rd_read_dir :: "rstr \<Rightarrow> ('e, ('e, rstr \<times> ('e, bool) result) result list) result"
  rd_is_not_found :: "'e \<Rightarrow> bool"
  rd_read_file :: "rstr \<Rightarrow> ('e, rstr) result"

datatype 'e exec_policy_error =
    ReadDirError rstr 'e
  | ReadFileError rstr 'e
  | ParsePolicyError rstr parser_error

text \<open>\<open>Path::extension\<close>.\<close>

definition path_extension :: "rstr \<Rightarrow> rstr option" where
  "path_extension p =
     Option.bind (file_name p) (\<lambda>n. Option.bind (rsplit_once dot n) (\<lambda>(before, after). if before = [] then None else Some after))"

fun collect_rule_entries ::
    "rstr \<Rightarrow> ('e, rstr \<times> ('e, bool) result) result list \<Rightarrow> rstr list \<Rightarrow> ('e exec_policy_error, rstr list) result" where
  "collect_rule_entries dir [] acc = Inr acc"
| "collect_rule_entries dir (x # xs) acc =
     (case x of
        Inl e \<Rightarrow> Inl (ReadDirError dir e)
      | Inr (path, ft) \<Rightarrow>
          (case ft of
             Inl e \<Rightarrow> Inl (ReadDirError dir e)
           | Inr is_file \<Rightarrow>
               collect_rule_entries dir xs (if path_extension path = Some (lit ''rules'') \<and> is_file then acc @ [path] else acc)))"

definition collect_policy_files :: "'e rules_disk \<Rightarrow> rstr \<Rightarrow> ('e exec_policy_error, rstr list) result" where
  "collect_policy_files disk dir =
     (case rd_read_dir disk dir of
        Inl e \<Rightarrow> if rd_is_not_found disk e then Inr [] else Inl (ReadDirError dir e)
      | Inr es \<Rightarrow> rbind (collect_rule_entries dir es []) (\<lambda>ps. Inr (sort_key path_key ps)))"

definition layer_policy_paths :: "rstr option \<Rightarrow> 'e rules_disk \<Rightarrow> 't layer_stack \<Rightarrow> config_layer_entry \<Rightarrow> ('e exec_policy_error, rstr list) result" where
  "layer_policy_paths home disk stack layer =
     (if ignore_user_and_project_exec_policy_rules stack \<and> (case layer_name layer of UserLayer _ _ \<Rightarrow> True | ProjectLayer _ \<Rightarrow> True | _ \<Rightarrow> False)
      then Inr []
      else case config_folder layer of
             Some folder \<Rightarrow> collect_policy_files disk (abs_join home folder (lit ''rules''))
           | None \<Rightarrow> Inr [])"

fun parse_policy_files ::
    "process_env \<Rightarrow> shell_words \<Rightarrow> starlark_eval \<Rightarrow> 'e rules_disk \<Rightarrow> rstr list \<Rightarrow> policy_builder \<Rightarrow> ('e exec_policy_error, policy_builder) result" where
  "parse_policy_files penv sh evaluate disk [] b = Inr b"
| "parse_policy_files penv sh evaluate disk (path # paths) b =
     (case rd_read_file disk path of
        Inl e \<Rightarrow> Inl (ReadFileError path e)
      | Inr contents \<Rightarrow>
          (case policy_parse penv sh evaluate path contents b of
             (b', None) \<Rightarrow> parse_policy_files penv sh evaluate disk paths b'
           | (_, Some err) \<Rightarrow> Inl (ParsePolicyError path err)))"

definition load_exec_policy ::
    "process_env \<Rightarrow> shell_words \<Rightarrow> starlark_eval \<Rightarrow> 'e rules_disk \<Rightarrow> 't layer_stack \<Rightarrow> ('e exec_policy_error, policy) result" where
  "load_exec_policy penv sh evaluate disk stack =
     rbind (collect (layer_policy_paths (env_home penv) disk stack) (get_layers stack LowestPrecedenceFirst False)) (\<lambda>paths.
     rbind (parse_policy_files penv sh evaluate disk (concat paths) builder_new) (\<lambda>b.
       Inr (case requirements_policy stack of
              None \<Rightarrow> build b
            | Some required \<Rightarrow> merge_overlay (build b) required)))"

definition load_exec_policy_with_warning ::
    "process_env \<Rightarrow> shell_words \<Rightarrow> starlark_eval \<Rightarrow> 'e rules_disk \<Rightarrow> 't layer_stack
       \<Rightarrow> ('e exec_policy_error, policy \<times> 'e exec_policy_error option) result" where
  "load_exec_policy_with_warning penv sh evaluate disk stack =
     (case load_exec_policy penv sh evaluate disk stack of
        Inr p \<Rightarrow> Inr (p, None)
      | Inl (ParsePolicyError path err) \<Rightarrow> Inr (policy_empty, Some (ParsePolicyError path err))
      | Inl e \<Rightarrow> Inl e)"

definition manager_load ::
    "process_env \<Rightarrow> shell_words \<Rightarrow> starlark_eval \<Rightarrow> 'e rules_disk \<Rightarrow> 't layer_stack \<Rightarrow> ('e exec_policy_error, policy) result" where
  "manager_load penv sh evaluate disk stack = rbind (load_exec_policy_with_warning penv sh evaluate disk stack) (\<lambda>(p, _). Inr p)"

definition check_execpolicy_for_warnings ::
    "process_env \<Rightarrow> shell_words \<Rightarrow> starlark_eval \<Rightarrow> 'e rules_disk \<Rightarrow> 't layer_stack
       \<Rightarrow> ('e exec_policy_error, 'e exec_policy_error option) result" where
  "check_execpolicy_for_warnings penv sh evaluate disk stack =
     rbind (load_exec_policy_with_warning penv sh evaluate disk stack) (\<lambda>(_, warning). Inr warning)"

section \<open>What a skipped approval rests on\<close>

lemma commands_nonempty: "policy_commands (commands_for_exec_policy tools command) \<noteq> []"
  by (auto simp: commands_for_exec_policy_def split: option.split list.split)

definition request_fallback :: "exec_tools \<Rightarrow> exec_approval_request \<Rightarrow> rstr list \<Rightarrow> decision" where
  "request_fallback tools req =
     render_decision_for_unmatched_command tools req (used_complex_parsing (commands_for_exec_policy tools (ea_command req)))"

definition request_commands :: "exec_tools \<Rightarrow> exec_approval_request \<Rightarrow> rstr list list" where
  "request_commands tools req = policy_commands (commands_for_exec_policy tools (ea_command req))"

definition all_matches :: "process_env \<Rightarrow> policy \<Rightarrow> rstr list list \<Rightarrow> (rstr list \<Rightarrow> decision) \<Rightarrow> rule_match list" where
  "all_matches penv p cmds f = concat (map (\<lambda>c. matches_for_command_with_options penv p c (Some f) True) cmds)"

lemma check_multiple_eval:
  assumes "cmds \<noteq> []"
  shows "check_multiple_with_options penv p cmds f True =
    Some \<lparr>eval_decision = Max (match_decision ` set (all_matches penv p cmds f)), matched_rules = all_matches penv p cmds f\<rparr>"
proof -
  have "all_matches penv p cmds f \<noteq> []" using assms matches_nonempty [of penv p _ f True] by (cases cmds) (auto simp: all_matches_def)
  then show ?thesis by (simp add: check_multiple_with_options_def all_matches_def [symmetric] from_matches_Some)
qed

lemma all_allow_iff:
  assumes "cmds \<noteq> []"
  shows "Max (match_decision ` set (all_matches penv p cmds f)) = Allow \<longleftrightarrow>
    (\<forall>c \<in> set cmds. \<forall>m \<in> set (matches_for_command_with_options penv p c (Some f) True). match_decision m = Allow)"
proof -
  let ?D = "match_decision ` set (all_matches penv p cmds f)"
  have ne: "?D \<noteq> {}" using assms matches_nonempty [of penv p _ f True] by (cases cmds) (auto simp: all_matches_def)
  have "Max ?D = Allow \<longleftrightarrow> (\<forall>d \<in> ?D. d = Allow)"
  proof
    assume "Max ?D = Allow"
    then have "\<forall>d \<in> ?D. d \<le> Allow" using ne by (metis Max_ge finite_imageI finite_set)
    then show "\<forall>d \<in> ?D. d = Allow" by (metis Allow_least order_antisym)
  next
    assume "\<forall>d \<in> ?D. d = Allow"
    moreover obtain d where "d \<in> ?D" using ne by (metis ex_in_conv)
    ultimately have "?D = {Allow}" by (intro set_eqI iffI) (metis singleton_iff)+
    then show "Max ?D = Allow" by simp
  qed
  then show ?thesis by (auto simp: all_matches_def)
qed

lemma requirement_eval:
  "create_exec_approval_requirement_for_command penv tools p req \<noteq> None"
  using commands_nonempty [of tools "ea_command req"]
  by (simp add: create_exec_approval_requirement_for_command_def check_multiple_eval Let_def)

lemma requirement_cases:
  fixes penv tools p req
  defines "e \<equiv> \<lparr>eval_decision = Max (match_decision ` set (all_matches penv p (request_commands tools req) (request_fallback tools req))),
              matched_rules = all_matches penv p (request_commands tools req) (request_fallback tools req)\<rparr>"
  assumes "create_exec_approval_requirement_for_command penv tools p req = Some r"
  obtains (allow) a where "eval_decision e = Allow"
      "r = Skip (\<forall>c \<in> set (request_commands tools req). \<exists>m \<in> set (matches_for_command_with_options penv p c None True).
                  is_policy_match m \<and> match_decision m = Allow) a"
    | (prompt) a where "eval_decision e = Prompt"
        "prompt_is_rejected_by_policy (ea_approval_policy req)
           (\<exists>m \<in> set (matched_rules e). is_policy_match m \<and> match_decision m = Prompt) = None"
        "r = NeedsApproval (derive_prompt_reason tools (ea_command req) e) a"
    | (forbidden) reason where "eval_decision e \<noteq> Allow" "r = ExecForbidden reason"
proof -
  have ne: "request_commands tools req \<noteq> []" using commands_nonempty by (simp add: request_commands_def)
  have e: "check_multiple_with_options penv p (request_commands tools req) (request_fallback tools req) True = Some e"
    unfolding e_def by (rule check_multiple_eval [OF ne])
  note r = assms(2) [unfolded create_exec_approval_requirement_for_command_def Let_def, folded request_commands_def request_fallback_def,
    unfolded e option.map option.inject, symmetric]
  show ?thesis
  proof (cases "eval_decision e")
    case Allow
    with r show ?thesis by (intro allow) simp_all
  next
    case Prompt
    then show ?thesis using r prompt forbidden [of "the (prompt_is_rejected_by_policy (ea_approval_policy req)
        (\<exists>m \<in> set (matched_rules e). is_policy_match m \<and> match_decision m = Prompt))"]
      by (cases "prompt_is_rejected_by_policy (ea_approval_policy req)
        (\<exists>m \<in> set (matched_rules e). is_policy_match m \<and> match_decision m = Prompt)") simp_all
  next
    case Forbidden
    with r show ?thesis by (intro forbidden) simp_all
  qed
qed

lemma requirement_skip_iff:
  "(\<exists>b a. create_exec_approval_requirement_for_command penv tools p req = Some (Skip b a)) \<longleftrightarrow>
     (\<forall>c \<in> set (request_commands tools req).
        \<forall>m \<in> set (matches_for_command_with_options penv p c (Some (request_fallback tools req)) True). match_decision m = Allow)"
proof -
  have ne: "request_commands tools req \<noteq> []" using commands_nonempty by (simp add: request_commands_def)
  obtain r where r: "create_exec_approval_requirement_for_command penv tools p req = Some r" using requirement_eval by blast
  show ?thesis unfolding all_allow_iff [OF ne, symmetric] r by (rule requirement_cases [OF r]) auto
qed

lemma requirement_bypass:
  assumes "create_exec_approval_requirement_for_command penv tools p req = Some (Skip True a)" "c \<in> set (request_commands tools req)"
  shows "\<exists>m \<in> set (matches_for_command_with_options penv p c None True). is_policy_match m \<and> match_decision m = Allow"
  by (rule requirement_cases [OF assms(1)]) (use assms(2) in auto)

lemma matches_fallback:
  "matches_for_command_with_options penv p c (Some f) True =
     (if matches_for_command_with_options penv p c None True = [] then [HeuristicsRuleMatch c (f c)]
      else matches_for_command_with_options penv p c None True)"
  by (simp add: matches_for_command_with_options_def Let_def)

text \<open>
  C11: Deciding about a command always gives a requirement, and a command runs without asking only for a reason. Each command it consists of
  is allowed by every rule that matches it, or no rule matches it and then it is not one of the dangerous
  commands, unless prompts are off and no sandbox is wanted; under \<open>untrusted\<close> it must be a known safe
  command that was read completely. The sandbox is left only if a rule allows each of them, and with prompts
  turned off the user is not asked.
\<close>

theorem skip_is_justified:
  assumes "create_exec_approval_requirement_for_command penv tools p req = Some r"
  shows "(\<forall>b a c. r = Skip b a \<longrightarrow> c \<in> set (request_commands tools req) \<longrightarrow>
            (let ms = matches_for_command_with_options penv p c None True
             in (\<forall>m \<in> set ms. match_decision m = Allow) \<and> (b \<longrightarrow> ms \<noteq> []) \<and>
                (ms = [] \<longrightarrow>
                   (command_might_be_dangerous (split_script tools) c \<longrightarrow>
                      ea_approval_policy req = Never \<and> (\<forall>fs n. ea_permission_profile req \<noteq> Managed fs n) \<or>
                      ea_approval_policy req = UnlessTrusted \<and> is_known_safe_command (safe_windows tools) (split_script tools) c) \<and>
                   (ea_approval_policy req = UnlessTrusted \<longrightarrow>
                      is_known_safe_command (safe_windows tools) (split_script tools) c \<and>
                      \<not> used_complex_parsing (commands_for_exec_policy tools (ea_command req)))))) \<and>
         (ea_approval_policy req = Never \<longrightarrow> (\<forall>reason a. r \<noteq> NeedsApproval reason a))"
proof (intro conjI allI impI)
  fix b a c
  assume r: "r = Skip b a" and c: "c \<in> set (request_commands tools req)"
  let ?ms = "matches_for_command_with_options penv p c None True"
  have allow: "\<forall>m \<in> set (matches_for_command_with_options penv p c (Some (request_fallback tools req)) True). match_decision m = Allow"
    using requirement_skip_iff [of penv tools p req] assms r c by blast
  have bypass: "b \<longrightarrow> ?ms \<noteq> []" using requirement_bypass [of penv tools p req a c] assms r c by (cases b) auto
  have "request_fallback tools req c = Allow" if "?ms = []" using allow that by (simp add: matches_fallback)
  then show "let ms = ?ms
     in (\<forall>m \<in> set ms. match_decision m = Allow) \<and> (b \<longrightarrow> ms \<noteq> []) \<and>
        (ms = [] \<longrightarrow>
           (command_might_be_dangerous (split_script tools) c \<longrightarrow>
              ea_approval_policy req = Never \<and> (\<forall>fs n. ea_permission_profile req \<noteq> Managed fs n) \<or>
              ea_approval_policy req = UnlessTrusted \<and> is_known_safe_command (safe_windows tools) (split_script tools) c) \<and>
           (ea_approval_policy req = UnlessTrusted \<longrightarrow>
              is_known_safe_command (safe_windows tools) (split_script tools) c \<and>
              \<not> used_complex_parsing (commands_for_exec_policy tools (ea_command req))))"
    using allow bypass
    by (auto simp: Let_def matches_fallback request_fallback_def render_decision_for_unmatched_command_def
        split: if_splits ask_for_approval.splits permission_profile.splits)
next
  fix reason a
  assume "ea_approval_policy req = Never"
  then show "r \<noteq> NeedsApproval reason a"
    by (cases rule: requirement_cases [OF assms]) (auto simp: prompt_is_rejected_by_policy_def)
qed

definition demo_tools :: exec_tools where
  "demo_tools = \<lparr>split_script = (\<lambda>_. None), heredoc_command = (\<lambda>_. None), safe_windows = (\<lambda>_. False), shlex_join = (\<lambda>_. None)\<rparr>"

definition demo_request :: "rstr list \<Rightarrow> rstr list option \<Rightarrow> ask_for_approval \<Rightarrow> exec_approval_request" where
  "demo_request command prefix_rule policy =
     \<lparr>ea_command = command, ea_approval_policy = policy, ea_permission_profile = Disabled,
      ea_file_system_policy = policy_unrestricted, ea_sandbox_cwd = lit ''/w'', ea_sandbox_permissions = UseDefault,
      ea_prefix_rule = prefix_rule\<rparr>"

theorem skip_is_justified_witness:
  "let r = create_exec_approval_requirement_for_command no_env demo_tools (git_rule Allow)
             (demo_request [lit ''git'', lit ''push''] None UnlessTrusted)
   in r = Some (Skip True None) \<and>
      matches_for_command_with_options no_env (git_rule Allow) [lit ''git'', lit ''push''] None True \<noteq> []"
proof -
  let ?req = "demo_request [lit ''git'', lit ''push''] None UnlessTrusted"
  have r: "create_exec_approval_requirement_for_command no_env demo_tools (git_rule Allow) ?req = Some (Skip True None)" by code_simp
  have c: "[lit ''git'', lit ''push''] \<in> set (request_commands demo_tools ?req)" by code_simp
  from conjunct1 [OF skip_is_justified [OF r], rule_format, OF refl c] r show ?thesis by (simp add: Let_def)
qed

section \<open>Amending the policy\<close>

text \<open>
  C33: An accepted amendment takes effect: when a request was answered with the prefix it had proposed and
  the update succeeds and changes the policy, the same request is then answered without asking.
\<close>

theorem accepted_amendment_takes_effect:
  assumes "derive_requested_execpolicy_amendment_from_prefix_rule penv (ea_prefix_rule req) ms p
             (request_commands tools req) (request_fallback tools req) = Some amendment"
    and "append_amendment_and_update run_task json ops penv codex_home amendment (p, w) = ((p', w'), Inr ())" "p' \<noteq> p"
  shows "\<exists>b a. create_exec_approval_requirement_for_command penv tools p' req = Some (Skip b a)"
proof -
  have "add_prefix_rule p amendment Allow = Inr p'"
    using assms(2,3) by (auto simp: append_amendment_and_update_def Let_def split: prod.splits option.splits sum.splits if_splits)
  then have "\<forall>c \<in> set (request_commands tools req).
      map_option eval_decision (check_with_options penv p' c (request_fallback tools req) True) = Some Allow"
    using assms(1)
    by (auto simp: derive_requested_execpolicy_amendment_from_prefix_rule_def prefix_rule_would_approve_all_commands_def
        split: option.splits if_splits sum.splits)
  then have "\<forall>c \<in> set (request_commands tools req). \<forall>m \<in> set (matches_for_command_with_options penv p' c (Some (request_fallback tools req)) True).
      match_decision m = Allow"
    using all_allow_iff [of "[_]" penv p' "request_fallback tools req"]
    by (auto simp: check_with_options_def from_matches_Some matches_nonempty all_matches_def)
  then show ?thesis by (simp add: requirement_skip_iff)
qed

theorem accepted_amendment_takes_effect_witness:
  "let req = demo_request [lit ''tar'', lit ''x''] (Some [lit ''tar'']) UnlessTrusted;
       update = append_amendment_and_update (\<lambda>task w. map_prod id Some (task w)) bare_json one_file no_env (lit ''/h'') [lit ''tar'']
   in (\<exists>reason. create_exec_approval_requirement_for_command no_env demo_tools policy_empty req = Some (NeedsApproval reason (Some [lit ''tar'']))) \<and>
      (\<exists>b a. create_exec_approval_requirement_for_command no_env demo_tools (fst (fst (update (policy_empty, [])))) req = Some (Skip b a))"
proof -
  let ?req = "demo_request [lit ''tar'', lit ''x''] (Some [lit ''tar'']) UnlessTrusted"
  let ?update = "append_amendment_and_update (\<lambda>task w. map_prod id Some (task w)) bare_json one_file no_env (lit ''/h'') [lit ''tar''] (policy_empty, [])"
  have ask: "create_exec_approval_requirement_for_command no_env demo_tools policy_empty ?req = Some (NeedsApproval None (Some [lit ''tar'']))"
    by code_simp
  have d: "derive_requested_execpolicy_amendment_from_prefix_rule no_env (ea_prefix_rule ?req) [] policy_empty
      (request_commands demo_tools ?req) (request_fallback demo_tools ?req) = Some [lit ''tar'']" by code_simp
  have ok: "snd ?update = Inr ()" "rules_by_program (fst (fst ?update)) \<noteq> []" by code_simp+
  then have u: "?update = ((fst (fst ?update), snd (fst ?update)), Inr ())" by (metis prod.collapse)
  have ne: "fst (fst ?update) \<noteq> policy_empty" using ok(2) by (metis policy.select_convs(1) policy_empty_def)
  from accepted_amendment_takes_effect [OF d u ne] ask show ?thesis by (simp add: Let_def)
qed

text \<open>The states a manager can come to: each update replaces the policy and works on the policy file.\<close>

record ('w, 'e) manager_env =
  manager_run_task :: "('w, ('e amend_error, unit) result) task_runner"
  manager_json :: json_writer
  manager_files :: "('w, 'e) policy_file_ops"
  manager_penv :: process_env
  manager_home :: rstr

inductive manager_update :: "('w, 'e) manager_env \<Rightarrow> policy \<times> 'w \<Rightarrow> policy \<times> 'w \<Rightarrow> bool" for env where
  amended: "append_amendment_and_update (manager_run_task env) (manager_json env) (manager_files env) (manager_penv env) (manager_home env)
      amendment s = (s', r) \<Longrightarrow> manager_update env s s'"
| network: "append_network_rule_and_update (manager_run_task env) (manager_json env) (manager_files env) (manager_home env)
      host protocol d justification s = (s', r) \<Longrightarrow> manager_update env s s'"

lemma amendment_outcome:
  assumes "append_amendment_and_update run_task json ops penv codex_home amendment (p, w) = ((p', w'), r)"
  shows "p' = p \<or> add_prefix_rule p amendment Allow = Inr p'"
  using assms by (auto simp: append_amendment_and_update_def Let_def split: prod.splits option.splits sum.splits if_splits)

lemma network_outcome:
  assumes "append_network_rule_and_update run_task json ops codex_home host protocol d justification (p, w) = ((p', w'), r)"
  shows "rules_by_program p' = rules_by_program p"
  using assms by (auto simp: append_network_rule_and_update_def add_network_rule_def rbind_eq_Inr_iff Let_def
      split: prod.splits option.splits sum.splits if_splits)

lemma set_exact_matches: "set (exact_matches p cmd) = {m. \<exists>r \<in> set (rules_for p (hd cmd)). rule_matches r cmd = Some m}"
  by (force simp: exact_matches_def List.map_filter_def)

lemma rules_for_add: "add_prefix_rule p pre d = Inr p' \<Longrightarrow> set (rules_for p k) \<subseteq> set (rules_for p' k)"
  by (auto simp: add_prefix_rule_def rules_for_def get_vec_insert split: list.splits option.splits)

lemma exact_matches_add:
  "add_prefix_rule p pre d = Inr p' \<Longrightarrow> set (exact_matches p cmd) \<subseteq> set (exact_matches p' cmd)"
  using rules_for_add [of p pre d p' "hd cmd"] by (auto simp: set_exact_matches)

lemma manager_update_grows:
  assumes "manager_update env s s'"
  shows "(policy_wf (fst s) \<longrightarrow> policy_wf (fst s')) \<and> set (exact_matches (fst s) cmd) \<subseteq> set (exact_matches (fst s') cmd)"
  using assms
proof cases
  case (amended amendment r)
  then have "append_amendment_and_update (manager_run_task env) (manager_json env) (manager_files env) (manager_penv env) (manager_home env)
      amendment (fst s, snd s) = ((fst s', snd s'), r)" by simp
  from amendment_outcome [OF this] show ?thesis
    using add_prefix_rule_wf [of "fst s" amendment Allow "fst s'"] exact_matches_add [of "fst s" amendment Allow "fst s'"] by auto
next
  case (network host protocol d justification r)
  then have "append_network_rule_and_update (manager_run_task env) (manager_json env) (manager_files env) (manager_home env)
      host protocol d justification (fst s, snd s) = ((fst s', snd s'), r)" by simp
  from network_outcome [OF this] show ?thesis
    by (simp add: policy_wf_def exact_matches_def rules_for_def)
qed

interpretation manager_policy: transition_invariant "manager_update env" "\<lambda>s. policy_wf (fst s)" for env
  by unfold_locales (use manager_update_grows in blast)

interpretation manager_rules: transition_invariant "manager_update env" "\<lambda>s. ms \<subseteq> set (exact_matches (fst s) cmd)" for env ms cmd
  by unfold_locales (use manager_update_grows in blast)

lemma manager_updates_grow:
  assumes "(manager_update env)\<^sup>*\<^sup>* s s'"
  shows "(policy_wf (fst s) \<longrightarrow> policy_wf (fst s')) \<and> set (exact_matches (fst s) cmd) \<subseteq> set (exact_matches (fst s') cmd)"
  using manager_policy.kept_moves [OF assms] manager_rules.kept_moves [OF assms] by blast

text \<open>
  A session never lifts a restriction of the policy it loaded: after any updates, failed ones included, the policy is well-formed and
  a command that a rule for its program matches gets a decision that is at least as strict as at
  the start.
\<close>

theorem updates_never_lift_rules:
  assumes "(manager_update env)\<^sup>*\<^sup>* (p, w) (p', w')" "policy_wf p" "cmd \<noteq> []" "exact_matches p cmd \<noteq> []"
  shows "policy_wf p' \<and>
    (\<exists>e e'. check_with_options penv p cmd f True = Some e \<and> check_with_options penv p' cmd f True = Some e' \<and>
       eval_decision e \<le> eval_decision e' \<and> set (matched_rules e) \<subseteq> set (matched_rules e'))"
proof -
  note grow = manager_updates_grow [OF assms(1), of cmd, simplified]
  with assms(4) have ne: "exact_matches p' cmd \<noteq> []" by auto
  have "Max (match_decision ` set (exact_matches p cmd)) \<le> Max (match_decision ` set (exact_matches p' cmd))"
    using grow assms(4) by (intro Max_mono) auto
  with grow assms ne show ?thesis by (simp add: check_with_options_def matches_for_command_exact from_matches_Some)
qed

theorem updates_never_lift_rules_witness:
  "\<exists>env :: (rstr, unit) manager_env. \<exists>p' w'. manager_update env (git_rule Prompt, []) (p', w') \<and>
     (\<exists>e'. check_with_options no_env p' [lit ''git'', lit ''push''] (\<lambda>_. Allow) True = Some e' \<and> Prompt \<le> eval_decision e')"
proof -
  define env where "env = \<lparr>manager_run_task = (\<lambda>task w. map_prod id Some (task w)), manager_json = bare_json, manager_files = one_file,
    manager_penv = no_env, manager_home = lit ''/h''\<rparr>"
  let ?u = "append_amendment_and_update (manager_run_task env) (manager_json env) (manager_files env) (manager_penv env) (manager_home env)
      [lit ''git''] (git_rule Prompt, [])"
  have s: "manager_update env (git_rule Prompt, []) (fst (fst ?u), snd (fst ?u))" by (rule manager_update.amended [of env _ _ _ "snd ?u"]) simp
  have wf: "policy_wf (git_rule Prompt)" by (simp add: policy_wf_def filed_def git_rule_def rule_program_def)
  have e: "check_with_options no_env (git_rule Prompt) [lit ''git'', lit ''push''] (\<lambda>_. Allow) True =
      Some \<lparr>eval_decision = Prompt, matched_rules = [PrefixRuleMatch [lit ''git'', lit ''push''] Prompt None None]\<rparr>"
    by (rule git_rule_check)
  have x: "exact_matches (git_rule Prompt) [lit ''git'', lit ''push''] \<noteq> []" unfolding git_rule_matches by (rule list.distinct(2))
  from updates_never_lift_rules [OF r_into_rtranclp [of "manager_update env", OF s] wf list.distinct(2) x, of no_env "\<lambda>_. Allow"] e s
  show ?thesis by (intro exI [of _ env] exI [of _ "fst (fst ?u)"] exI [of _ "snd (fst ?u)"] conjI) auto
qed

section \<open>Required rules bind the session\<close>

lemma parse_policy_files_inv:
  "parse_policy_files penv sh evaluate disk paths b = Inr b' \<Longrightarrow> builder_inv b \<Longrightarrow> builder_inv b'"
proof (induction paths arbitrary: b)
  case (Cons path paths)
  then show ?case
    using policy_parse_inv [OF Cons.prems(2), of penv sh evaluate path] by (auto split: sum.splits prod.splits option.splits) (metis fst_conv)+
qed simp

lemma load_exec_policy_requirements:
  assumes "load_exec_policy penv sh evaluate disk stack = Inr p" "requirements_policy stack = Some q" "policy_wf q"
  shows "policy_wf p" "set (exact_matches q cmd) \<subseteq> set (exact_matches p cmd)"
proof -
  obtain paths b where "parse_policy_files penv sh evaluate disk (concat paths) builder_new = Inr b" and p: "p = merge_overlay (build b) q"
    using assms(1,2) by (auto simp: load_exec_policy_def rbind_eq_Inr_iff)
  then have "policy_wf (build b)" using parse_policy_files_inv builder_new_inv by (metis builder_inv_def)
  with assms(3) show "policy_wf p" "set (exact_matches q cmd) \<subseteq> set (exact_matches p cmd)"
    by (simp_all add: p merge_overlay_wf exact_matches_merge)
qed

lemma exact_match_rule:
  assumes "policy_wf p" "m \<in> set (exact_matches p cmd)"
  obtains r where "r \<in> policy_rules p" "match_decision m = rule_decision r"
proof -
  obtain r where r: "r \<in> set (rules_for p (hd cmd))" "rule_matches r cmd = Some m" using assms(2) by (auto simp: set_exact_matches)
  then obtain rs where "map_of (rules_by_program p) (hd cmd) = Some rs" "r \<in> set rs"
    by (cases "map_of (rules_by_program p) (hd cmd)") (auto simp: rules_for_def get_vec_def)
  then have "(hd cmd, r) \<in> set (iter_all (rules_by_program p))" by (force simp: iter_all_def dest: map_of_SomeD)
  then have "r \<in> policy_rules p" by (auto simp: policy_rules_def)
  moreover have "match_decision m = rule_decision r" using r(2) by (auto simp: rule_matches_def)
  ultimately show ?thesis by (rule that)
qed

lemma forbidden_request:
  assumes "c \<in> set (request_commands tools req)" "m \<in> set (matches_for_command_with_options penv p c (Some (request_fallback tools req)) True)"
    "match_decision m = Forbidden" "create_exec_approval_requirement_for_command penv tools p req = Some r"
  shows "\<exists>reason. r = ExecForbidden reason"
proof -
  let ?ms = "all_matches penv p (request_commands tools req) (request_fallback tools req)"
  have "Forbidden \<in> match_decision ` set ?ms" using assms(1,2,3) by (force simp: all_matches_def)
  then have "Forbidden \<le> Max (match_decision ` set ?ms)" by (intro Max_ge) auto
  then have "Max (match_decision ` set ?ms) = Forbidden" by (cases "Max (match_decision ` set ?ms)") (simp_all add: less_eq_decision_def)
  then show ?thesis by (cases rule: requirement_cases [OF assms(4)]) auto
qed

lemma required_match_stays:
  assumes "to_policy toml = Inr q" "requirements_policy stack = Some q" "load_exec_policy penv sh evaluate disk stack = Inr p"
    and "(manager_update env)\<^sup>*\<^sup>* (p, w) (p', w')" "c \<noteq> []" "m \<in> set (exact_matches q c)"
  shows "m \<in> set (matches_for_command_with_options penv' p' c f True)" "match_decision m \<noteq> Allow"
proof -
  have wf: "policy_wf q" using assms(1) by (rule to_policy_wf)
  then have "m \<in> set (exact_matches p' c)"
    using load_exec_policy_requirements(2) [OF assms(3,2) wf, of c] manager_updates_grow [OF assms(4), of c] assms(6) by auto
  then show "m \<in> set (matches_for_command_with_options penv' p' c f True)"
    using matches_for_command_exact [of p' c] assms(5) by (metis empty_iff empty_set)
  show "match_decision m \<noteq> Allow" using exact_match_rule [OF wf assms(6)] to_policy_restricts [OF assms(1)] by metis
qed

text \<open>
  The rules an administrator requires bind the whole session. Whatever policy files the user has and
  whatever rules are allowed later, a command line containing a command that a required rule for its program matches
  never runs without asking, and it is refused when the rule forbids it.
\<close>

theorem requirements_bind_session:
  assumes "to_policy toml = Inr q" "requirements_policy stack = Some q"
    and "load_exec_policy penv sh evaluate disk stack = Inr p" "(manager_update env)\<^sup>*\<^sup>* (p, w) (p', w')"
    and "c \<in> set (request_commands tools req)" "c \<noteq> []" "m \<in> set (exact_matches q c)"
    and "create_exec_approval_requirement_for_command penv tools p' req = Some r"
  shows "(\<forall>b a. r \<noteq> Skip b a) \<and> (match_decision m = Forbidden \<longrightarrow> (\<exists>reason. r = ExecForbidden reason))"
proof -
  note m = required_match_stays [OF assms(1-4,6,7)]
  from m(2) m(1) [of penv "Some (request_fallback tools req)"] assms(5,8) requirement_skip_iff [of penv tools p' req]
    forbidden_request [OF assms(5) m(1) _ assms(8)]
  show ?thesis by blast
qed

definition demo_manager :: "(rstr, unit) manager_env" where
  "demo_manager =
     \<lparr>manager_run_task = (\<lambda>task w. map_prod id Some (task w)), manager_json = bare_json, manager_files = one_file,
      manager_penv = no_env, manager_home = lit ''/h''\<rparr>"

definition demo_requirements :: "prefix_rule_toml list" where
  "demo_requirements =
     [\<lparr>toml_pattern = [\<lparr>toml_token = Some (lit ''rm''), toml_any_of = None\<rparr>], toml_decision = Some Forbidden, toml_justification = None\<rparr>]"

definition demo_required :: policy where
  "demo_required =
     policy_empty\<lparr>rules_by_program :=
       [(lit ''rm'', [\<lparr>rule_pattern = \<lparr>pat_first = lit ''rm'', pat_rest = []\<rparr>, rule_decision = Forbidden, rule_justification = None\<rparr>])]\<rparr>"

lemma trim_rm: "trim (lit ''rm'') \<noteq> []" by code_simp

lemma demo_required: "to_policy demo_requirements = Inr demo_required"
  using trim_rm by (simp add: to_policy_def demo_requirements_def demo_required_def requirements_rule_def toml_pattern_token_def requirements_decision_def
      policy_empty_def rule_program_def enumerate_eq_zip)

definition rules_dir_disk :: "unit rules_disk" where
  "rules_dir_disk =
     \<lparr>rd_read_dir = (\<lambda>dir. Inr [Inr (dir @ lit ''/a.rules'', Inr True)]), rd_is_not_found = (\<lambda>_. False), rd_read_file = (\<lambda>_. Inr [])\<rparr>"

definition user_stack :: "unit layer_stack" where
  "user_stack =
     \<lparr>stack_layers = [layer_new no_version (UserLayer (lit ''/h/config.toml'') None) (TomlTable [])], user_layer_index = Some 0,
      requirements = \<lparr>exec_policy = Some demo_required\<rparr>, requirements_toml = (), ignore_user_and_project_exec_policy_rules = False,
      startup_warnings = None\<rparr>"

lemma user_stack_required: "requirements_policy user_stack = Some demo_required"
  by (simp add: requirements_policy_def user_stack_def)

definition allow_all_calls :: "rstr list \<Rightarrow> starlark_eval" where
  "allow_all_calls pre = (\<lambda>_ _. ([PrefixRuleCall (map SStr pre) (Some (lit ''allow'')) None None None None], None))"

theorem requirements_bind_session_witness:
  "\<exists>p s reason. load_exec_policy no_env plain_words (allow_all_calls [lit ''ls'']) rules_dir_disk user_stack = Inr p \<and>
     manager_update demo_manager (p, []) s \<and>
     create_exec_approval_requirement_for_command no_env demo_tools (fst s) (demo_request [lit ''rm'', lit ''x''] None OnFailure) =
       Some (ExecForbidden reason)"
proof -
  let ?load = "load_exec_policy no_env plain_words (allow_all_calls [lit ''ls'']) rules_dir_disk user_stack"
  let ?req = "demo_request [lit ''rm'', lit ''x''] None OnFailure"
  have "case ?load of Inr p \<Rightarrow> True | Inl _ \<Rightarrow> False" by code_simp
  then obtain p where p: "?load = Inr p" by (cases ?load) auto
  let ?u = "append_amendment_and_update (manager_run_task demo_manager) (manager_json demo_manager) (manager_files demo_manager)
      (manager_penv demo_manager) (manager_home demo_manager) [lit ''rm''] (p, [])"
  have s: "manager_update demo_manager (p, []) (fst ?u)" by (rule manager_update.amended [of demo_manager _ _ _ "snd ?u"]) simp
  have c: "[lit ''rm'', lit ''x''] \<in> set (request_commands demo_tools ?req)" by code_simp
  have "exact_matches demo_required [lit ''rm'', lit ''x''] = [PrefixRuleMatch [lit ''rm''] Forbidden None None]"
    by (simp add: demo_required_def exact_matches_def rules_for_def get_vec_def List.map_filter_def rule_matches_def matches_prefix_def policy_empty_def)
  then have m: "PrefixRuleMatch [lit ''rm''] Forbidden None None \<in> set (exact_matches demo_required [lit ''rm'', lit ''x''])" by simp
  obtain r where r: "create_exec_approval_requirement_for_command no_env demo_tools (fst (fst ?u)) ?req = Some r" using requirement_eval by blast
  note q = user_stack_required
  from requirements_bind_session [OF demo_required q p r_into_rtranclp [of "manager_update demo_manager" _ "(fst (fst ?u), snd (fst ?u))"]
      c list.distinct(2) m r] s p r
  show ?thesis by (intro exI [of _ p] exI [of _ "fst ?u"]) auto
qed

text \<open>
  A required rule can be lifted from a policy file. The rule that forbids \<open>rm\<close> also applies to \<open>/bin/rm\<close>, as long as no rule names
  that path; a user rule that allows \<open>/bin/rm\<close> hides it, and the command then runs without
  asking and outside the sandbox.
\<close>

theorem path_rule_lifts_requirement:
  "\<exists>p reason a. to_policy demo_requirements = Inr demo_required \<and> requirements_policy user_stack = Some demo_required \<and>
     load_exec_policy no_env plain_words (allow_all_calls [lit ''/bin/rm'']) rules_dir_disk user_stack = Inr p \<and>
     create_exec_approval_requirement_for_command no_env demo_tools demo_required (demo_request [lit ''/bin/rm'', lit ''x''] None OnFailure) =
       Some (ExecForbidden reason) \<and>
     create_exec_approval_requirement_for_command no_env demo_tools p (demo_request [lit ''/bin/rm'', lit ''x''] None OnFailure) =
       Some (Skip True a)"
proof -
  let ?load = "load_exec_policy no_env plain_words (allow_all_calls [lit ''/bin/rm'']) rules_dir_disk user_stack"
  let ?req = "demo_request [lit ''/bin/rm'', lit ''x''] None OnFailure"
  have "case ?load of Inr p \<Rightarrow> create_exec_approval_requirement_for_command no_env demo_tools p ?req = Some (Skip True None) | Inl _ \<Rightarrow> False"
    by code_simp
  then obtain p where "?load = Inr p" "create_exec_approval_requirement_for_command no_env demo_tools p ?req = Some (Skip True None)"
    by (cases ?load) auto
  moreover have "case create_exec_approval_requirement_for_command no_env demo_tools demo_required ?req of Some (ExecForbidden _) \<Rightarrow> True | _ \<Rightarrow> False"
    by code_simp
  then have "\<exists>reason. create_exec_approval_requirement_for_command no_env demo_tools demo_required ?req = Some (ExecForbidden reason)"
    by (auto split: option.splits exec_approval_requirement.splits)
  ultimately show ?thesis using demo_required user_stack_required by auto
qed


end
