(* ===== verification/Network_Approval.thy ===== *)
theory Network_Approval
  imports Approvals "HOL-Library.AList"
begin

text \<open>
  The network approval service (\<open>core/src/tools/network_approval.rs\<close>, \<open>core/src/network_policy_decision.rs\<close>, the messages of
  \<open>core/src/guardian/review.rs\<close>, the decisions of \<open>network-proxy/src/network_policy.rs\<close>): a sandboxed tool call registers itself, the network
  proxy asks about each host that is not on its lists, and the service answers from the hosts settled for the session or asks the user once per host.
  Requests run concurrently; each lock region of the source is one step here.
\<close>

section \<open>Decisions of the proxy\<close>

datatype network_protocol = ProxyHttp | ProxyHttpsConnect | ProxySocks5Tcp | ProxySocks5Udp

datatype approval_protocol = ApprovalHttp | ApprovalHttps | ApprovalSocks5Tcp | ApprovalSocks5Udp

datatype policy_decision = PolicyDeny | PolicyAsk

datatype decision_source = BaselinePolicy | ModeGuard | ProxyState | Decider

datatype network_decision = NetworkAllow | NetworkDeny rstr decision_source policy_decision

definition nonempty_reason :: "rstr \<Rightarrow> rstr" where
  "nonempty_reason reason = (if reason = [] then lit ''policy_denied'' else reason)"

definition deny_with_source :: "rstr \<Rightarrow> decision_source \<Rightarrow> network_decision" where
  "deny_with_source reason src = NetworkDeny (nonempty_reason reason) src PolicyDeny"

definition ask_with_source :: "rstr \<Rightarrow> decision_source \<Rightarrow> network_decision" where
  "ask_with_source reason src = NetworkDeny (nonempty_reason reason) src PolicyAsk"

definition network_deny :: "rstr \<Rightarrow> network_decision" where
  "network_deny reason = deny_with_source reason Decider"

definition network_ask :: "rstr \<Rightarrow> network_decision" where
  "network_ask reason = ask_with_source reason Decider"

record network_policy_request =
  net_req_protocol :: network_protocol
  net_req_host :: rstr
  net_req_port :: nat

definition approval_protocol_of :: "network_protocol \<Rightarrow> approval_protocol" where
  "approval_protocol_of p =
     (case p of
        ProxyHttp \<Rightarrow> ApprovalHttp
      | ProxyHttpsConnect \<Rightarrow> ApprovalHttps
      | ProxySocks5Tcp \<Rightarrow> ApprovalSocks5Tcp
      | ProxySocks5Udp \<Rightarrow> ApprovalSocks5Udp)"

section \<open>Messages and contexts\<close>

record policy_decision_payload =
  payload_decision :: policy_decision
  payload_source :: decision_source
  payload_protocol :: "approval_protocol option"
  payload_host :: "rstr option"

definition is_ask_from_decider :: "policy_decision_payload \<Rightarrow> bool" where
  "is_ask_from_decider p \<longleftrightarrow> payload_decision p = PolicyAsk \<and> payload_source p = Decider"

record network_approval_context =
  context_host :: rstr
  context_protocol :: approval_protocol

definition network_approval_context_from_payload :: "policy_decision_payload \<Rightarrow> network_approval_context option" where
  "network_approval_context_from_payload p =
     (if \<not> is_ask_from_decider p then None
      else Option.bind (payload_protocol p) (\<lambda>protocol.
           Option.bind (payload_host p) (\<lambda>raw.
             let host = trim raw in if host = [] then None else Some \<lparr>context_host = host, context_protocol = protocol\<rparr>)))"

definition parse_network_policy_decision :: "rstr \<Rightarrow> policy_decision option" where
  "parse_network_policy_decision s =
     (if s = lit ''deny'' then Some PolicyDeny else if s = lit ''ask'' then Some PolicyAsk else None)"

record blocked_request =
  blocked_host :: rstr
  blocked_reason :: rstr
  blocked_decision :: "rstr option"

definition double_quote :: rstr where
  "double_quote = [34]"

definition denial_detail :: "rstr \<Rightarrow> rstr" where
  "denial_detail reason =
     (if reason = lit ''denied'' then lit ''domain is explicitly denied by policy and cannot be approved from this prompt''
      else if reason = lit ''not_allowed'' then lit ''domain is not on the allowlist for the current sandbox mode''
      else if reason = lit ''not_allowed_local'' then lit ''local/private network addresses are blocked by the sandbox policy''
      else if reason = lit ''method_not_allowed'' then lit ''request method is blocked by the current network mode''
      else if reason = lit ''proxy_disabled'' then lit ''network proxy is disabled''
      else lit ''request is blocked by network policy'')"

definition denied_network_policy_message :: "blocked_request \<Rightarrow> rstr option" where
  "denied_network_policy_message b =
     (if Option.bind (blocked_decision b) parse_network_policy_decision \<noteq> Some PolicyDeny then None
      else let host = trim (blocked_host b)
           in if host = [] then Some (lit ''Network access was blocked by policy.'')
              else Some (lit ''Network access to '' @ double_quote @ host @ double_quote @ lit '' was blocked: '' @ denial_detail (blocked_reason b) @ lit ''.''))"

definition guardian_timeout_message :: rstr where
  "guardian_timeout_message =
     lit ''The automatic permission approval review did not finish before its deadline. '' @
     lit ''Do not assume the action is unsafe based on the timeout alone. '' @
     lit ''You may retry once, or ask the user for guidance or explicit approval.''"

datatype approvals_reviewer = ReviewByUser | AutoReview

record turn_context =
  turn_sub_id :: rstr
  turn_approval_policy :: ask_for_approval
  turn_permission_profile :: permission_profile
  turn_reviewer :: approvals_reviewer

definition routes_approval_to_guardian :: "('z) turn_context_scheme \<Rightarrow> bool" where
  "routes_approval_to_guardian turn \<longleftrightarrow>
     (case turn_approval_policy turn of OnRequest \<Rightarrow> True | Granular _ \<Rightarrow> True | _ \<Rightarrow> False) \<and> turn_reviewer turn = AutoReview"

section \<open>The state of the service\<close>

record host_approval_key =
  key_host :: rstr
  key_protocol :: rstr
  key_port :: nat

definition protocol_key_label :: "approval_protocol \<Rightarrow> rstr" where
  "protocol_key_label p =
     (case p of
        ApprovalHttp \<Rightarrow> lit ''http''
      | ApprovalHttps \<Rightarrow> lit ''https''
      | ApprovalSocks5Tcp \<Rightarrow> lit ''socks5-tcp''
      | ApprovalSocks5Udp \<Rightarrow> lit ''socks5-udp'')"

definition key_from_request :: "network_policy_request \<Rightarrow> host_approval_key" where
  "key_from_request req =
     \<lparr>key_host = to_ascii_lowercase (net_req_host req), key_protocol = protocol_key_label (approval_protocol_of (net_req_protocol req)),
      key_port = net_req_port req\<rparr>"

datatype pending_decision = AllowOnce | AllowForSession | PendingDeny

definition to_network_decision :: "pending_decision \<Rightarrow> network_decision" where
  "to_network_decision d =
     (case d of AllowOnce \<Rightarrow> NetworkAllow | AllowForSession \<Rightarrow> NetworkAllow | PendingDeny \<Rightarrow> network_deny (lit ''not_allowed''))"

datatype network_outcome = DeniedByUser | DeniedByPolicy rstr

datatype 'e tool_error = Rejected rstr | CodexError 'e

definition network_approval_outcome_to_result :: "network_outcome option \<Rightarrow> ('e tool_error, unit) result" where
  "network_approval_outcome_to_result outcome =
     (case outcome of
        Some DeniedByUser \<Rightarrow> Inl (Rejected (lit ''rejected by user''))
      | Some (DeniedByPolicy message) \<Rightarrow> Inl (Rejected message)
      | None \<Rightarrow> Inr ())"

definition allows_network_approval_flow :: "ask_for_approval \<Rightarrow> bool" where
  "allows_network_approval_flow policy \<longleftrightarrow> policy \<noteq> Never"

definition permission_profile_allows_network_approval_flow :: "permission_profile \<Rightarrow> bool" where
  "permission_profile_allows_network_approval_flow profile \<longleftrightarrow> (case profile of Managed _ _ \<Rightarrow> True | _ \<Rightarrow> False)"

record active_call =
  call_id :: rstr
  call_turn_id :: rstr
  call_command :: rstr

text \<open>
  A pending approval is an object shared by the requests that wait for it: \<open>pending_host_approvals\<close> maps a key to the number of the object,
  \<open>pending_decisions\<close> holds the decisions made and \<open>next_pending\<close> is the number of the next object.
  \<open>cancelled_calls\<close> are the calls whose cancellation token was cancelled.
\<close>

record approval_service =
  active_calls :: "(rstr \<times> active_call) list"
  call_outcomes :: "rstr \<rightharpoonup> network_outcome"
  cancelled_calls :: "rstr set"
  pending_host_approvals :: "host_approval_key \<rightharpoonup> nat"
  pending_decisions :: "nat \<rightharpoonup> pending_decision"
  next_pending :: nat
  session_approved_hosts :: "host_approval_key set"
  session_denied_hosts :: "host_approval_key set"

definition service_default :: approval_service where
  "service_default =
     \<lparr>active_calls = [], call_outcomes = Map.empty, cancelled_calls = {}, pending_host_approvals = Map.empty, pending_decisions = Map.empty,
      next_pending = 0, session_approved_hosts = {}, session_denied_hosts = {}\<rparr>"

section \<open>Calls\<close>

definition register_call :: "active_call \<Rightarrow> approval_service \<Rightarrow> approval_service" where
  "register_call call s = s\<lparr>active_calls := AList.update (call_id call) call (active_calls s)\<rparr>"

definition remove_call :: "rstr \<Rightarrow> approval_service \<Rightarrow> approval_service \<times> network_outcome option" where
  "remove_call rid s =
     (s\<lparr>active_calls := AList.delete rid (active_calls s), call_outcomes := (call_outcomes s)(rid := None)\<rparr>, call_outcomes s rid)"

definition unregister_call :: "rstr \<Rightarrow> approval_service \<Rightarrow> approval_service" where
  "unregister_call rid s = fst (remove_call rid s)"

definition finish_call :: "rstr \<Rightarrow> approval_service \<Rightarrow> approval_service \<times> ('e tool_error, unit) result" where
  "finish_call rid s = (case remove_call rid s of (s', outcome) \<Rightarrow> (s', network_approval_outcome_to_result outcome))"

definition resolve_single_active_call :: "approval_service \<Rightarrow> active_call option" where
  "resolve_single_active_call s = (case active_calls s of [(_, call)] \<Rightarrow> Some call | _ \<Rightarrow> None)"

definition record_call_outcome :: "rstr \<Rightarrow> network_outcome \<Rightarrow> approval_service \<Rightarrow> approval_service" where
  "record_call_outcome rid outcome s =
     (case map_of (active_calls s) rid of
        None \<Rightarrow> s
      | Some _ \<Rightarrow>
          if call_outcomes s rid = Some DeniedByUser then s
          else s\<lparr>call_outcomes := (call_outcomes s)(rid \<mapsto> outcome), cancelled_calls := insert rid (cancelled_calls s)\<rparr>)"

definition record_outcome_for_single_active_call :: "network_outcome \<Rightarrow> approval_service \<Rightarrow> approval_service" where
  "record_outcome_for_single_active_call outcome s =
     (case resolve_single_active_call s of Some call \<Rightarrow> record_call_outcome (call_id call) outcome s | None \<Rightarrow> s)"

definition record_blocked_request :: "blocked_request \<Rightarrow> approval_service \<Rightarrow> approval_service" where
  "record_blocked_request b s =
     (case denied_network_policy_message b of
        None \<Rightarrow> s
      | Some message \<Rightarrow> record_outcome_for_single_active_call (DeniedByPolicy message) s)"

definition sync_session_approved_hosts_to :: "approval_service \<Rightarrow> approval_service \<Rightarrow> approval_service" where
  "sync_session_approved_hosts_to s other = other\<lparr>session_approved_hosts := session_approved_hosts s\<rparr>"

section \<open>Pending approvals\<close>

definition get_or_create_pending_approval :: "host_approval_key \<Rightarrow> approval_service \<Rightarrow> approval_service \<times> nat \<times> bool" where
  "get_or_create_pending_approval key s =
     (case pending_host_approvals s key of
        Some pid \<Rightarrow> (s, pid, False)
      | None \<Rightarrow>
          (s\<lparr>pending_host_approvals := (pending_host_approvals s)(key \<mapsto> next_pending s), next_pending := Suc (next_pending s)\<rparr>,
           next_pending s, True))"

definition set_decision :: "nat \<Rightarrow> pending_decision \<Rightarrow> approval_service \<Rightarrow> approval_service" where
  "set_decision pid d s = s\<lparr>pending_decisions := (pending_decisions s)(pid \<mapsto> d)\<rparr>"

section \<open>Answering a request\<close>

text \<open>What remains to be done once the answer is known, one lock region each.\<close>

datatype action =
    SetDecision
  | RemovePending
  | RecordSingle network_outcome
  | RecordCall rstr network_outcome
  | RemoveDenied
  | InsertApproved
  | RemoveApproved
  | InsertDenied
  | Persist rstr network_rule_action

datatype phase =
    CheckDenied
  | CheckApproved
  | GetPending
  | Waiting nat
  | AskTurn nat
  | FindOwner nat turn_context
  | AskHooks nat turn_context "active_call option"
  | AskReview nat turn_context "active_call option"
  | Perform nat "action list" pending_decision
  | Finished "nat option" network_decision

text \<open>
  What the rest of the program answers: the context of the active turn, the decision of the hooks, and the decision of the reviewer (the user, or the guardian with its
  message when it rejects). \<open>NoAnswer\<close> stands for steps that ask nothing.
\<close>

datatype hook_decision = HookAllow | HookDeny rstr

datatype answer =
    NoAnswer
  | TurnAnswer "turn_context option"
  | HookAnswer "hook_decision option"
  | ReviewAnswer review_decision rstr

definition network_target :: "network_policy_request \<Rightarrow> rstr" where
  "network_target req =
     protocol_key_label (approval_protocol_of (net_req_protocol req)) @ lit ''://'' @ net_req_host req @ lit '':'' @ show_nat (net_req_port req)"

definition policy_denial_message :: "network_policy_request \<Rightarrow> rstr" where
  "policy_denial_message req =
     lit ''Network access to '' @ double_quote @ network_target req @ double_quote @ lit '' was blocked by policy.''"

definition refuse_actions :: "network_policy_request \<Rightarrow> action list" where
  "refuse_actions req = [SetDecision, RemovePending, RecordSingle (DeniedByPolicy (policy_denial_message req))]"

definition record_owner :: "active_call option \<Rightarrow> network_outcome \<Rightarrow> action list" where
  "record_owner owner outcome = (case owner of Some call \<Rightarrow> [RecordCall (call_id call) outcome] | None \<Rightarrow> [])"

definition review_actions :: "bool \<Rightarrow> active_call option \<Rightarrow> review_decision \<Rightarrow> rstr \<Rightarrow> action list \<times> pending_decision \<times> bool" where
  "review_actions guardian owner d rejection =
     (case d of
        Approved \<Rightarrow> ([], AllowOnce, False)
      | ApprovedExecpolicyAmendment _ \<Rightarrow> ([], AllowOnce, False)
      | ApprovedForSession \<Rightarrow> ([], AllowForSession, False)
      | NetworkPolicyAmendment host NetAllow \<Rightarrow> ([Persist host NetAllow], AllowForSession, False)
      | NetworkPolicyAmendment host NetDeny \<Rightarrow> (Persist host NetDeny # record_owner owner DeniedByUser, PendingDeny, True)
      | Denied \<Rightarrow> (record_owner owner (if guardian then DeniedByPolicy rejection else DeniedByUser), PendingDeny, False)
      | Abort \<Rightarrow> (record_owner owner (if guardian then DeniedByPolicy rejection else DeniedByUser), PendingDeny, False)
      | TimedOut \<Rightarrow> (record_owner owner (DeniedByPolicy guardian_timeout_message), PendingDeny, False))"

definition conclude :: "nat \<Rightarrow> action list \<times> pending_decision \<times> bool \<Rightarrow> phase" where
  "conclude pid = (\<lambda>(acts, resolved, cache_session_deny).
     Perform pid
       (acts @ (if resolved = AllowForSession then [RemoveDenied, InsertApproved] else []) @
        (if cache_session_deny then [RemoveApproved, InsertDenied] else []) @ [SetDecision, RemovePending])
       resolved)"

text \<open>Amendments are written by the session: \<open>persist\<close> is that effect on the world, with the message or the warning that follows.\<close>

type_synonym 'w persister = "network_policy_request \<Rightarrow> rstr \<Rightarrow> network_rule_action \<Rightarrow> 'w \<Rightarrow> 'w"

definition perform :: "'w persister \<Rightarrow> network_policy_request \<Rightarrow> nat \<Rightarrow> pending_decision \<Rightarrow> action \<Rightarrow> approval_service \<times> 'w \<Rightarrow> (approval_service \<times> 'w) \<times> action list" where
  "perform persist req pid resolved act = (\<lambda>(s, w).
     let key = key_from_request req
     in case act of
          SetDecision \<Rightarrow> ((set_decision pid resolved s, w), [])
        | RemovePending \<Rightarrow> ((s\<lparr>pending_host_approvals := (pending_host_approvals s)(key := None)\<rparr>, w), [])
        | RecordSingle outcome \<Rightarrow>
            ((s, w), case resolve_single_active_call s of Some call \<Rightarrow> [RecordCall (call_id call) outcome] | None \<Rightarrow> [])
        | RecordCall rid outcome \<Rightarrow> ((record_call_outcome rid outcome s, w), [])
        | RemoveDenied \<Rightarrow> ((s\<lparr>session_denied_hosts := session_denied_hosts s - {key}\<rparr>, w), [])
        | InsertApproved \<Rightarrow> ((s\<lparr>session_approved_hosts := insert key (session_approved_hosts s)\<rparr>, w), [])
        | RemoveApproved \<Rightarrow> ((s\<lparr>session_approved_hosts := session_approved_hosts s - {key}\<rparr>, w), [])
        | InsertDenied \<Rightarrow> ((s\<lparr>session_denied_hosts := insert key (session_denied_hosts s)\<rparr>, w), [])
        | Persist host a \<Rightarrow> ((s, persist req host a w), []))"

text \<open>One step of \<open>handle_inline_policy_request\<close>; \<open>None\<close> when the request has to wait.\<close>

fun request_step ::
    "'w persister \<Rightarrow> network_policy_request \<Rightarrow> answer \<Rightarrow> phase \<Rightarrow> approval_service \<times> 'w \<Rightarrow> ((approval_service \<times> 'w) \<times> phase) option" where
  "request_step persist req NoAnswer CheckDenied (s, w) =
     Some ((s, w), if key_from_request req \<in> session_denied_hosts s then Finished None (network_deny (lit ''not_allowed'')) else CheckApproved)"
| "request_step persist req NoAnswer CheckApproved (s, w) =
     Some ((s, w), if key_from_request req \<in> session_approved_hosts s then Finished None NetworkAllow else GetPending)"
| "request_step persist req NoAnswer GetPending (s, w) =
     (case get_or_create_pending_approval (key_from_request req) s of
        (s', pid, is_owner) \<Rightarrow> Some ((s', w), if is_owner then AskTurn pid else Waiting pid))"
| "request_step persist req NoAnswer (Waiting pid) (s, w) =
     map_option (\<lambda>d. ((s, w), Finished (Some pid) (to_network_decision d))) (pending_decisions s pid)"
| "request_step persist req (TurnAnswer turn) (AskTurn pid) (s, w) =
     Some ((s, w),
       case turn of
         None \<Rightarrow> Perform pid (refuse_actions req) PendingDeny
       | Some t \<Rightarrow>
           if \<not> permission_profile_allows_network_approval_flow (turn_permission_profile t) then Perform pid (refuse_actions req) PendingDeny
           else if \<not> allows_network_approval_flow (turn_approval_policy t) then Perform pid (refuse_actions req) PendingDeny
           else FindOwner pid t)"
| "request_step persist req NoAnswer (FindOwner pid t) (s, w) = Some ((s, w), AskHooks pid t (resolve_single_active_call s))"
| "request_step persist req (HookAnswer h) (AskHooks pid t owner) (s, w) =
     Some ((s, w),
       case h of
         Some HookAllow \<Rightarrow> Perform pid [SetDecision, RemovePending] AllowOnce
       | Some (HookDeny message) \<Rightarrow> Perform pid (record_owner owner (DeniedByPolicy message) @ [SetDecision, RemovePending]) PendingDeny
       | None \<Rightarrow> AskReview pid t owner)"
| "request_step persist req (ReviewAnswer d rejection) (AskReview pid t owner) (s, w) =
     Some ((s, w), conclude pid (review_actions (routes_approval_to_guardian t) owner d rejection))"
| "request_step persist req NoAnswer (Perform pid [] resolved) (s, w) = Some ((s, w), Finished (Some pid) (to_network_decision resolved))"
| "request_step persist req NoAnswer (Perform pid (act # acts) resolved) (s, w) =
     (case perform persist req pid resolved act (s, w) of (sw, extra) \<Rightarrow> Some (sw, Perform pid (extra @ acts) resolved))"
| "request_step persist req _ _ sw = None"

text \<open>The decider the proxy calls: without a session the proxy is told to ask.\<close>

definition decider_first_phase :: "bool \<Rightarrow> phase" where
  "decider_first_phase session_alive = (if session_alive then CheckDenied else Finished None (network_ask (lit ''not_allowed'')))"

section \<open>Outcomes of calls\<close>

text \<open>What happens to the calls between the registration and the end of one of them.\<close>

inductive call_step :: "rstr \<Rightarrow> approval_service \<Rightarrow> approval_service \<Rightarrow> bool" for rid where
  "call_step rid s (record_call_outcome other outcome s)"
| "call_step rid s (record_outcome_for_single_active_call outcome s)"
| "call_step rid s (record_blocked_request b s)"
| "call_id call \<noteq> rid \<Longrightarrow> call_step rid s (register_call call s)"
| "other \<noteq> rid \<Longrightarrow> call_step rid s (fst (remove_call other s))"

definition user_denied :: "rstr \<Rightarrow> approval_service \<Rightarrow> bool" where
  "user_denied rid s \<longleftrightarrow> map_of (active_calls s) rid \<noteq> None \<and> call_outcomes s rid = Some DeniedByUser"

lemma user_denied_record: "user_denied rid s \<Longrightarrow> user_denied rid (record_call_outcome other outcome s)"
  by (auto simp: user_denied_def record_call_outcome_def split: option.split)

lemma user_denied_single: "user_denied rid s \<Longrightarrow> user_denied rid (record_outcome_for_single_active_call outcome s)"
  by (auto simp: record_outcome_for_single_active_call_def user_denied_record split: option.split)

lemma user_denied_step: "call_step rid s s' \<Longrightarrow> user_denied rid s \<Longrightarrow> user_denied rid s'"
  by (induction rule: call_step.induct)
     (auto simp: user_denied_record user_denied_single record_blocked_request_def split: option.split,
      auto simp: user_denied_def register_call_def remove_call_def AList.update_conv' AList.delete_conv')

interpretation call_moves: transition_invariant "call_step rid" "user_denied rid" for rid
  by unfold_locales (rule user_denied_step)

text \<open>
  A denial by the user decides a call: once it is recorded for an active call, whatever is recorded later and whichever other calls begin and
  end, finishing the call rejects it as the user's decision, and the call leaves no trace in the service.
\<close>

lemma user_denial_rejects_call:
  assumes "map_of (active_calls s) rid \<noteq> None" "(call_step rid)\<^sup>*\<^sup>* (record_call_outcome rid DeniedByUser s) s'"
  shows "\<exists>s''. finish_call rid s' = (s'', Inl (Rejected (lit ''rejected by user'')) :: ('e tool_error, unit) result) \<and>
    map_of (active_calls s'') rid = None \<and> call_outcomes s'' rid = None"
proof -
  have "user_denied rid (record_call_outcome rid DeniedByUser s)" using assms(1) by (auto simp: user_denied_def record_call_outcome_def split: option.split)
  with assms(2) have "user_denied rid s'" by (rule call_moves.kept_moves)
  then show ?thesis
    by (simp add: finish_call_def remove_call_def user_denied_def network_approval_outcome_to_result_def AList.delete_conv')
qed

end
