(* ===== verification/Network_Interleaving.thy ===== *)
theory Network_Interleaving
  imports Network_Approval
begin

text \<open>
  Concurrent requests to the network approval service. A state is the service, the world and the requests with their phases; in each step
  one request moves, a new one arrives, or another part of the program works on the service. Requests are not
  abandoned: a request that asks for a decision goes on once it is answered.
\<close>

section \<open>Interleaving\<close>

type_synonym requests = "nat \<rightharpoonup> network_policy_request \<times> phase"

inductive request_move :: "'w persister \<Rightarrow> (approval_service \<times> 'w) \<times> requests \<Rightarrow> (approval_service \<times> 'w) \<times> requests \<Rightarrow> bool" for persist where
  move: "T i = Some (req, ph) \<Longrightarrow> request_step persist req a ph sw = Some (sw', ph') \<Longrightarrow>
           request_move persist (sw, T) (sw', T(i \<mapsto> (req, ph')))"

inductive service_step :: "'w persister \<Rightarrow> (approval_service \<times> 'w) \<times> requests \<Rightarrow> (approval_service \<times> 'w) \<times> requests \<Rightarrow> bool" for persist where
  request: "request_move persist st st' \<Longrightarrow> service_step persist st st'"
| arrive: "T i = None \<Longrightarrow> service_step persist (sw, T) (sw, T(i \<mapsto> (req, decider_first_phase alive)))"
| register: "service_step persist ((s, w), T) ((register_call call s, w), T)"
| remove: "service_step persist ((s, w), T) ((fst (remove_call rid s), w), T)"
| blocked: "service_step persist ((s, w), T) ((record_blocked_request b s, w), T)"
| sync: "service_step persist ((s, w), T) ((sync_session_approved_hosts_to other s, w), T)"
| world: "service_step persist ((s, w), T) ((s, w'), T)"

inductive_cases request_moveE: "request_move persist st st'"

definition initial :: "(approval_service \<times> 'w) \<times> requests \<Rightarrow> bool" where
  "initial st \<longleftrightarrow> fst (fst st) = service_default \<and> snd st = Map.empty"

definition service_reachable :: "'w persister \<Rightarrow> (approval_service \<times> 'w) \<times> requests \<Rightarrow> bool" where
  "service_reachable persist st \<longleftrightarrow> (\<exists>st0. initial st0 \<and> (service_step persist)\<^sup>*\<^sup>* st0 st)"

section \<open>The invariant\<close>

text \<open>The pending approval a request still has to remove, the one it still has to decide, and those it refers to.\<close>

fun holds :: "phase \<Rightarrow> nat option" where
  "holds (AskTurn p) = Some p"
| "holds (FindOwner p t) = Some p"
| "holds (AskHooks p t c) = Some p"
| "holds (AskReview p t c) = Some p"
| "holds (Perform p acts r) = (if RemovePending \<in> set acts then Some p else None)"
| "holds _ = None"

fun undecided :: "phase \<Rightarrow> nat option" where
  "undecided (AskTurn p) = Some p"
| "undecided (FindOwner p t) = Some p"
| "undecided (AskHooks p t c) = Some p"
| "undecided (AskReview p t c) = Some p"
| "undecided (Perform p acts r) = (if SetDecision \<in> set acts then Some p else None)"
| "undecided _ = None"

fun refers :: "phase \<Rightarrow> nat option" where
  "refers (Waiting p) = Some p"
| "refers (Finished q d) = q"
| "refers (Perform p acts r) = Some p"
| "refers ph = undecided ph"

fun actions_ok :: "action list \<Rightarrow> bool" where
  "actions_ok [] = True"
| "actions_ok (SetDecision # acts) = (SetDecision \<notin> set acts \<and> RemovePending \<in> set acts \<and> actions_ok acts)"
| "actions_ok (RemovePending # acts) = (SetDecision \<notin> set acts \<and> RemovePending \<notin> set acts \<and> actions_ok acts)"
| "actions_ok (_ # acts) = actions_ok acts"

definition may_prompt :: "turn_context \<Rightarrow> bool" where
  "may_prompt t \<longleftrightarrow> turn_approval_policy t \<noteq> Never \<and> (\<exists>fs n. turn_permission_profile t = Managed fs n)"

fun settled :: "(nat \<rightharpoonup> pending_decision) \<Rightarrow> phase \<Rightarrow> bool" where
  "settled dec (Perform p acts r) = (actions_ok acts \<and> (SetDecision \<notin> set acts \<longrightarrow> dec p = Some r))"
| "settled dec (Finished (Some p) d) = (\<exists>r. dec p = Some r \<and> d = to_network_decision r)"
| "settled dec (FindOwner p t) = may_prompt t"
| "settled dec (AskHooks p t c) = may_prompt t"
| "settled dec (AskReview p t c) = may_prompt t"
| "settled dec _ = True"

definition held_at :: "requests \<Rightarrow> nat \<Rightarrow> (host_approval_key \<times> nat) option" where
  "held_at T i = Option.bind (T i) (\<lambda>(req, ph). map_option (Pair (key_from_request req)) (holds ph))"

definition undecided_at :: "requests \<Rightarrow> nat \<Rightarrow> nat option" where
  "undecided_at T i = Option.bind (T i) (\<lambda>(req, ph). undecided ph)"

definition pending_ok :: "('k \<rightharpoonup> nat) \<Rightarrow> (nat \<Rightarrow> ('k \<times> nat) option) \<Rightarrow> bool" where
  "pending_ok pend h \<longleftrightarrow>
     (\<forall>k p. pend k = Some p \<longleftrightarrow> (\<exists>i. h i = Some (k, p))) \<and>
     (\<forall>i j k p p'. h i = Some (k, p) \<and> h j = Some (k, p') \<longrightarrow> i = j)"

definition decisions_ok :: "nat \<Rightarrow> (nat \<rightharpoonup> 'd) \<Rightarrow> (nat \<Rightarrow> nat option) \<Rightarrow> bool" where
  "decisions_ok n dec u \<longleftrightarrow>
     (\<forall>p. (\<exists>i. u i = Some p) \<longleftrightarrow> p < n \<and> dec p = None) \<and> (\<forall>p \<ge> n. dec p = None) \<and>
     (\<forall>i j p. u i = Some p \<and> u j = Some p \<longrightarrow> i = j)"

definition service_inv :: "approval_service \<Rightarrow> requests \<Rightarrow> bool" where
  "service_inv s T \<longleftrightarrow>
     pending_ok (pending_host_approvals s) (held_at T) \<and>
     decisions_ok (next_pending s) (pending_decisions s) (undecided_at T) \<and>
     (\<forall>i req ph p. T i = Some (req, ph) \<and> refers ph = Some p \<longrightarrow> p < next_pending s) \<and>
     (\<forall>i req ph. T i = Some (req, ph) \<longrightarrow> settled (pending_decisions s) ph)"

lemma held_at_upd [simp]: "held_at (T(i \<mapsto> (req, ph))) = (held_at T)(i := map_option (Pair (key_from_request req)) (holds ph))"
  by (auto simp: held_at_def fun_eq_iff)

lemma undecided_at_upd [simp]: "undecided_at (T(i \<mapsto> (req, ph))) = (undecided_at T)(i := undecided ph)"
  by (auto simp: undecided_at_def fun_eq_iff)

lemma pending_ok_new:
  assumes "pending_ok pend h" "pend k = None"
  shows "h i = None \<Longrightarrow> pending_ok (pend(k \<mapsto> p)) (h(i \<mapsto> (k, p)))"
  using assms by (auto simp: pending_ok_def) (metis option.distinct(1))+

lemma pending_ok_remove: "pending_ok pend h \<Longrightarrow> h i = Some (k, p) \<Longrightarrow> pending_ok (pend(k := None)) (h(i := None))"
  by (auto simp: pending_ok_def) (metis option.distinct(1) option.inject prod.inject)+

lemma decisions_ok_new: "decisions_ok n dec u \<Longrightarrow> u i = None \<Longrightarrow> decisions_ok (Suc n) dec (u(i \<mapsto> n))"
  by (auto simp: decisions_ok_def less_Suc_eq) (metis nless_le option.distinct(1))+

lemma decisions_ok_decide: "decisions_ok n dec u \<Longrightarrow> u i = Some p \<Longrightarrow> decisions_ok n (dec(p \<mapsto> r)) (u(i := None))"
  by (auto simp: decisions_ok_def) (metis option.distinct(1) option.inject leD)+

lemma service_inv_initial: "initial st \<Longrightarrow> service_inv (fst (fst st)) (snd st)"
  by (auto simp: initial_def service_inv_def service_default_def pending_ok_def decisions_ok_def held_at_def undecided_at_def)

text \<open>A request that moves without touching the pending approvals.\<close>

lemma service_inv_same:
  assumes "service_inv s T" "pending_host_approvals s' = pending_host_approvals s" "pending_decisions s' = pending_decisions s"
    and "next_pending s' = next_pending s"
    and "map_option (Pair (key_from_request req)) (holds ph) = held_at T i" "undecided ph = undecided_at T i"
    and "\<forall>p. refers ph = Some p \<longrightarrow> p < next_pending s" "settled (pending_decisions s) ph"
  shows "service_inv s' (T(i \<mapsto> (req, ph)))"
  using assms by (auto simp: service_inv_def fun_upd_idem)

lemma service_inv_calls:
  assumes "service_inv s T" "pending_host_approvals s' = pending_host_approvals s" "pending_decisions s' = pending_decisions s"
    and "next_pending s' = next_pending s"
  shows "service_inv s' T"
  using assms by (auto simp: service_inv_def)

section \<open>Every step keeps the invariant\<close>

lemma call_fields [simp]:
  "pending_host_approvals (record_call_outcome rid outcome s) = pending_host_approvals s"
  "pending_decisions (record_call_outcome rid outcome s) = pending_decisions s"
  "next_pending (record_call_outcome rid outcome s) = next_pending s"
  by (simp_all add: record_call_outcome_def split: option.split)

lemma settled_decide: "settled dec ph \<Longrightarrow> dec p = None \<Longrightarrow> settled (dec(p \<mapsto> r)) ph"
  by (induction dec ph rule: settled.induct) auto

lemma service_invD:
  assumes "service_inv s T" "T i = Some (req, ph)"
  shows "held_at T i = map_option (Pair (key_from_request req)) (holds ph)" "undecided_at T i = undecided ph"
    "\<And>p. refers ph = Some p \<Longrightarrow> p < next_pending s" "settled (pending_decisions s) ph"
  using assms by (auto simp: service_inv_def held_at_def undecided_at_def)

lemma service_inv_create:
  assumes "service_inv s T" "T i = Some (req, GetPending)" "pending_host_approvals s (key_from_request req) = None"
  shows "service_inv (s\<lparr>pending_host_approvals := (pending_host_approvals s)(key_from_request req \<mapsto> next_pending s), next_pending := Suc (next_pending s)\<rparr>)
    (T(i \<mapsto> (req, AskTurn (next_pending s))))"
proof -
  note D = service_invD [OF assms(1,2)]
  have "pending_ok ((pending_host_approvals s)(key_from_request req \<mapsto> next_pending s)) ((held_at T)(i \<mapsto> (key_from_request req, next_pending s)))"
    using assms(1,3) D(1) by (intro pending_ok_new) (auto simp: service_inv_def)
  moreover have "decisions_ok (Suc (next_pending s)) (pending_decisions s) ((undecided_at T)(i \<mapsto> next_pending s))"
    using assms(1) D(2) by (intro decisions_ok_new) (auto simp: service_inv_def)
  ultimately show ?thesis using assms(1) by (auto simp: service_inv_def less_Suc_eq)
qed

lemma service_inv_decide:
  assumes "service_inv s T" "T i = Some (req, Perform p (SetDecision # acts) r)"
  shows "service_inv (set_decision p r s) (T(i \<mapsto> (req, Perform p acts r)))"
proof -
  note D = service_invD [OF assms(1,2)]
  have u: "undecided_at T i = Some p" using D(2) by simp
  have acts: "SetDecision \<notin> set acts" "RemovePending \<in> set acts" "actions_ok acts" using D(4) by simp_all
  have dec: "decisions_ok (next_pending s) (pending_decisions s) (undecided_at T)" using assms(1) by (simp add: service_inv_def)
  then have none: "pending_decisions s p = None" using u by (auto simp: decisions_ok_def)
  have "settled ((pending_decisions s)(p \<mapsto> r)) ph" if "T j = Some (req', ph)" for j req' ph
    using service_invD(4) [OF assms(1) that] none by (rule settled_decide)
  with assms(1) decisions_ok_decide [OF dec u, of r] D(1,3) acts show ?thesis
    by (auto simp: service_inv_def set_decision_def fun_upd_idem)
qed

lemma service_inv_remove:
  assumes "service_inv s T" "T i = Some (req, Perform p (RemovePending # acts) r)"
  shows "service_inv (s\<lparr>pending_host_approvals := (pending_host_approvals s)(key_from_request req := None)\<rparr>) (T(i \<mapsto> (req, Perform p acts r)))"
proof -
  note D = service_invD [OF assms(1,2)]
  have "pending_ok ((pending_host_approvals s)(key_from_request req := None)) ((held_at T)(i := None))"
    using assms(1) D(1) by (intro pending_ok_remove) (auto simp: service_inv_def)
  with assms(1) D show ?thesis by (auto simp: service_inv_def fun_upd_idem)
qed

lemma perform_inv:
  assumes "service_inv s T" "T i = Some (req, Perform p (act # acts) r)" "perform persist req p r act (s, w) = ((s', w'), extra)"
  shows "service_inv s' (T(i \<mapsto> (req, Perform p (extra @ acts) r)))"
proof -
  note D = service_invD [OF assms(1,2)]
  consider "act = SetDecision" | "act = RemovePending" | "act \<noteq> SetDecision" "act \<noteq> RemovePending" by blast
  then show ?thesis
  proof cases
    case 1
    with assms(3) service_inv_decide [OF assms(1) assms(2) [unfolded 1]] show ?thesis by (simp add: perform_def)
  next
    case 2
    with assms(3) service_inv_remove [OF assms(1) assms(2) [unfolded 2]] show ?thesis by (simp add: perform_def)
  next
    case 3
    with assms(3) D have v: "pending_host_approvals s' = pending_host_approvals s" "pending_decisions s' = pending_decisions s" "next_pending s' = next_pending s"
      "actions_ok (extra @ acts)" "SetDecision \<notin> set extra" "RemovePending \<notin> set extra"
      by (auto simp: perform_def Let_def split: action.splits option.splits)
    show ?thesis
      by (rule service_inv_same [OF assms(1) v(1-3)]) (use D v(4-6) 3 in \<open>auto split: if_splits\<close>)
  qed
qed

lemma actions_ok_end [simp]:
  "actions_ok [SetDecision, RemovePending]" "actions_ok (refuse_actions req)"
  "actions_ok (record_owner owner outcome @ acts) = actions_ok acts"
  by (auto simp: refuse_actions_def record_owner_def split: option.split)

lemma actions_ok_neutral: "SetDecision \<notin> set xs \<Longrightarrow> RemovePending \<notin> set xs \<Longrightarrow> actions_ok (xs @ acts) = actions_ok acts"
proof (induction xs)
  case (Cons x xs)
  then show ?case by (cases x) auto
qed simp

lemma review_actions_neutral:
  "SetDecision \<notin> set (fst (review_actions g owner d rejection)) \<and> RemovePending \<notin> set (fst (review_actions g owner d rejection))"
  by (auto simp: review_actions_def record_owner_def split: review_decision.splits network_rule_action.splits option.splits)

lemma conclude_review:
  "\<exists>acts r. conclude p (review_actions g owner d rejection) = Perform p acts r \<and> actions_ok acts \<and> SetDecision \<in> set acts \<and> RemovePending \<in> set acts"
proof -
  obtain xs r c where x: "review_actions g owner d rejection = (xs, r, c)" by (cases "review_actions g owner d rejection") auto
  have "SetDecision \<notin> set xs" "RemovePending \<notin> set xs" using review_actions_neutral [of g owner d rejection] x by simp_all
  then show ?thesis by (auto simp: x conclude_def actions_ok_neutral)
qed

lemma request_step_inv:
  assumes "service_inv s T" "T i = Some (req, ph)" "request_step persist req a ph (s, w) = Some ((s', w'), ph')"
  shows "service_inv s' (T(i \<mapsto> (req, ph')))"
proof -
  note D = service_invD [OF assms(1,2)]
  have same: "service_inv s (T(i \<mapsto> (req, ph')))"
    if "s' = s" "holds ph' = holds ph" "undecided ph' = undecided ph" "\<And>p. refers ph' = Some p \<Longrightarrow> p < next_pending s" "settled (pending_decisions s) ph'"
    by (rule service_inv_same [OF assms(1)]) (use that D in auto)
  show ?thesis
  proof (cases ph)
    case CheckDenied
    with assms(3) same show ?thesis by (cases a) (auto split: if_splits)
  next
    case CheckApproved
    with assms(3) same show ?thesis by (cases a) (auto split: if_splits)
  next
    case GetPending
    show ?thesis
    proof (cases "pending_host_approvals s (key_from_request req)")
      case None
      with assms GetPending service_inv_create [OF assms(1)] show ?thesis
        by (cases a) (auto simp: get_or_create_pending_approval_def)
    next
      case (Some p)
      then obtain j where "held_at T j = Some (key_from_request req, p)" using assms(1) by (auto simp: service_inv_def pending_ok_def)
      then obtain req' ph2 where "T j = Some (req', ph2)" "holds ph2 = Some p" by (auto simp: held_at_def Option.bind_eq_Some_conv)
      moreover from this have "refers ph2 = Some p" by (cases ph2) (auto split: if_splits)
      ultimately have "p < next_pending s" using service_invD(3) [OF assms(1)] by blast
      with Some assms(3) GetPending same show ?thesis by (cases a) (auto simp: get_or_create_pending_approval_def)
    qed
  next
    case (Waiting p)
    with assms(3) same D(3) show ?thesis by (cases a) auto
  next
    case (AskTurn p)
    with assms(3) same D(3) show ?thesis
      by (cases a) (auto simp: refuse_actions_def may_prompt_def permission_profile_allows_network_approval_flow_def allows_network_approval_flow_def
          split: option.splits if_splits permission_profile.splits)
  next
    case (FindOwner p t)
    with assms(3) same D(3,4) show ?thesis by (cases a) auto
  next
    case (AskHooks p t owner)
    with assms(3) same D(3,4) show ?thesis by (cases a) (auto split: option.splits hook_decision.splits)
  next
    case (AskReview p t owner)
    then obtain d rejection where a: "a = ReviewAnswer d rejection" using assms(3) by (cases a) auto
    obtain acts r where c: "conclude p (review_actions (routes_approval_to_guardian t) owner d rejection) = Perform p acts r"
      "actions_ok acts" "SetDecision \<in> set acts" "RemovePending \<in> set acts" using conclude_review by blast
    have "s' = s" "ph' = Perform p acts r" using assms(3) AskReview a c(1) by auto
    with AskReview same D(3) c show ?thesis by auto
  next
    case (Perform p acts r)
    show ?thesis
    proof (cases acts)
      case Nil
      with Perform assms(3) same D(3,4) show ?thesis by (cases a) auto
    next
      case (Cons act rest)
      with Perform assms show ?thesis by (cases a) (auto split: prod.splits intro: perform_inv)
    qed
  next
    case (Finished q d)
    with assms(3) show ?thesis by (cases a) auto
  qed
qed

lemma service_step_inv:
  assumes "service_step persist st st'" "service_inv (fst (fst st)) (snd st)"
  shows "service_inv (fst (fst st')) (snd st')"
  using assms
proof cases
  case request
  then obtain T i req ph a sw sw' ph' where m: "T i = Some (req, ph)" "request_step persist req a ph sw = Some (sw', ph')"
      "st = (sw, T)" "st' = (sw', T(i \<mapsto> (req, ph')))" by (auto elim: request_moveE)
  with assms(2) show ?thesis using request_step_inv [of "fst sw" T i req ph persist a "snd sw" "fst sw'" "snd sw'" ph'] by simp
next
  case (arrive T i sw req alive)
  with assms(2) show ?thesis
    using service_inv_same [of "fst sw" T "fst sw" req "decider_first_phase alive" i]
    by (auto simp: decider_first_phase_def held_at_def undecided_at_def)
next
  case (blocked s w T b)
  with assms(2) show ?thesis
    by (auto intro: service_inv_calls simp: record_blocked_request_def record_outcome_for_single_active_call_def split: option.split)
qed (auto intro: service_inv_calls simp: register_call_def remove_call_def sync_session_approved_hosts_to_def)

interpretation service: transition_invariant "service_step persist" "\<lambda>st. service_inv (fst (fst st)) (snd st)" for persist :: "'w persister"
  by unfold_locales (rule service_step_inv)

lemma service_reachable_inv: "service_reachable persist ((s, w), T) \<Longrightarrow> service_inv s T"
  using service.kept_moves service_inv_initial by (fastforce simp: service_reachable_def)

section \<open>One prompt per host\<close>

fun prompting :: "phase \<Rightarrow> turn_context option" where
  "prompting (AskHooks p t c) = Some t"
| "prompting (AskReview p t c) = Some t"
| "prompting _ = None"

definition prompts_for :: "requests \<Rightarrow> host_approval_key \<Rightarrow> nat set" where
  "prompts_for T k = {i. \<exists>req ph. T i = Some (req, ph) \<and> key_from_request req = k \<and> prompting ph \<noteq> None}"

lemma prompting_holds: "prompting ph = Some t \<Longrightarrow> \<exists>p. holds ph = Some p"
  by (cases ph) auto


text \<open>
  Requests that share a question get the same answer: two requests that were decided by the same pending approval end with
  the same decision, the one that was made for it.
\<close>

lemma shared_prompt_same_answer:
  assumes "service_reachable persist ((s, w), T)" "T i = Some (req, Finished (Some p) d)" "T j = Some (req', Finished (Some p) d')"
  shows "d = d' \<and> (\<exists>r. pending_decisions s p = Some r \<and> d = to_network_decision r)"
  using service_invD(4) [OF service_reachable_inv [OF assms(1)] assms(2)] service_invD(4) [OF service_reachable_inv [OF assms(1)] assms(3)] by auto

section \<open>Every request is answered\<close>

fun action_rank :: "action \<Rightarrow> nat" where
  "action_rank (RecordSingle _) = 2"
| "action_rank _ = 1"

fun phase_rank :: "phase \<Rightarrow> nat" where
  "phase_rank CheckDenied = 20"
| "phase_rank CheckApproved = 19"
| "phase_rank GetPending = 18"
| "phase_rank (Waiting p) = 1"
| "phase_rank (AskTurn p) = 17"
| "phase_rank (FindOwner p t) = 16"
| "phase_rank (AskHooks p t c) = 15"
| "phase_rank (AskReview p t c) = 14"
| "phase_rank (Perform p acts r) = Suc (sum_list (map action_rank acts))"
| "phase_rank (Finished q d) = 0"

definition total_rank :: "requests \<Rightarrow> nat" where
  "total_rank T = (\<Sum>i \<in> dom T. phase_rank (snd (the (T i))))"

lemma review_rank: "sum_list (map action_rank (fst (review_actions g owner d rejection))) \<le> 2"
  by (auto simp: review_actions_def record_owner_def split: review_decision.splits network_rule_action.splits option.splits)

lemma conclude_rank: "phase_rank (conclude p (review_actions g owner d rejection)) < 14"
  using review_rank [of g owner d rejection] by (auto simp: conclude_def split: prod.split)

lemma perform_rank: "perform persist req p r act sw = (sw', extra) \<Longrightarrow> sum_list (map action_rank extra) < action_rank act"
  by (cases sw; cases act) (auto simp: perform_def Let_def split: option.splits)

lemma request_step_rank: "request_step persist req a ph sw = Some (sw', ph') \<Longrightarrow> phase_rank ph' < phase_rank ph"
  by (induction persist req a ph sw rule: request_step.induct)
     (auto simp: get_or_create_pending_approval_def refuse_actions_def record_owner_def conclude_rank perform_rank
        split: if_splits option.splits hook_decision.splits prod.splits)

lemma request_move_rank:
  assumes "request_move persist (sw, T) (sw', T')" "finite (dom T)"
  shows "total_rank T' < total_rank T" "dom T' = dom T"
proof -
  obtain i req ph a ph' where m: "T i = Some (req, ph)" "request_step persist req a ph sw = Some (sw', ph')" "T' = T(i \<mapsto> (req, ph'))"
    using assms(1) by (auto elim: request_moveE)
  then show d: "dom T' = dom T" by auto
  have "total_rank T' = phase_rank ph' + (\<Sum>j \<in> dom T - {i}. phase_rank (snd (the (T j))))"
    using assms(2) m unfolding total_rank_def d by (subst sum.remove [of _ i]) auto
  moreover have "total_rank T = phase_rank ph + (\<Sum>j \<in> dom T - {i}. phase_rank (snd (the (T j))))"
    using assms(2) m unfolding total_rank_def by (subst sum.remove [of _ i]) auto
  ultimately show "total_rank T' < total_rank T" using request_step_rank [OF m(2)] by simp
qed

definition all_finished :: "requests \<Rightarrow> bool" where
  "all_finished T \<longleftrightarrow> (\<forall>i req ph. T i = Some (req, ph) \<longrightarrow> (\<exists>q d. ph = Finished q d))"

lemma can_move:
  assumes "\<And>p. ph = Waiting p \<Longrightarrow> pending_decisions s p \<noteq> None" "\<And>q d. ph \<noteq> Finished q d"
  shows "\<exists>a sw' ph'. request_step persist req a ph (s, w) = Some (sw', ph')"
proof (cases ph)
  case (Waiting p)
  then have "request_step persist req NoAnswer ph (s, w) \<noteq> None" using assms(1) by simp
  then show ?thesis by (metis not_None_eq surj_pair)
next
  case GetPending
  then have "request_step persist req NoAnswer ph (s, w) \<noteq> None" by (simp split: prod.split)
  then show ?thesis by (metis not_None_eq surj_pair)
next
  case (AskTurn p)
  then have "request_step persist req (TurnAnswer None) ph (s, w) \<noteq> None" by simp
  then show ?thesis by (metis not_None_eq surj_pair)
next
  case (AskHooks p t c)
  then have "request_step persist req (HookAnswer None) ph (s, w) \<noteq> None" by simp
  then show ?thesis by (metis not_None_eq surj_pair)
next
  case (AskReview p t c)
  then have "request_step persist req (ReviewAnswer Denied []) ph (s, w) \<noteq> None" by simp
  then show ?thesis by (metis not_None_eq surj_pair)
next
  case (Perform p acts r)
  then have "request_step persist req NoAnswer ph (s, w) \<noteq> None" by (cases acts) (simp_all split: prod.split)
  then show ?thesis by (metis not_None_eq surj_pair)
next
  case (FindOwner p t)
  then have "request_step persist req NoAnswer ph (s, w) \<noteq> None" by simp
  then show ?thesis by (metis not_None_eq surj_pair)
next
  case (Finished q d)
  with assms(2) show ?thesis by blast
qed (metis request_step.simps(1,2))+

lemma no_deadlock:
  assumes "service_inv s T" "\<not> all_finished T"
  shows "\<exists>st'. request_move persist ((s, w), T) st'"
proof -
  have moves: "\<exists>st'. request_move persist ((s, w), T) st'"
    if "T j = Some (req, ph)" "\<And>p. ph = Waiting p \<Longrightarrow> pending_decisions s p \<noteq> None" "\<And>q d. ph \<noteq> Finished q d" for j req ph
    using can_move [OF that(2,3), of persist req w] request_move.move [of T j req ph persist _ "(s, w)"] that(1) by blast
  obtain i req ph where i: "T i = Some (req, ph)" "\<And>q d. ph \<noteq> Finished q d" using assms(2) by (auto simp: all_finished_def)
  show ?thesis
  proof (cases "\<exists>p. ph = Waiting p \<and> pending_decisions s p = None")
    case True
    then obtain p where p: "ph = Waiting p" "pending_decisions s p = None" by blast
    with service_invD(3) [OF assms(1) i(1), of p] have "p < next_pending s" by simp
    with p(2) assms(1) obtain j where "undecided_at T j = Some p" unfolding service_inv_def decisions_ok_def by metis
    then obtain req' ph' where j: "T j = Some (req', ph')" "undecided ph' = Some p" by (auto simp: undecided_at_def Option.bind_eq_Some_conv)
    then have "(\<And>p. ph' = Waiting p \<Longrightarrow> pending_decisions s p \<noteq> None)" "(\<And>q d. ph' \<noteq> Finished q d)" by auto
    with moves [OF j(1)] show ?thesis by blast
  next
    case False
    then show ?thesis using i(2) by (intro moves [OF i(1)]) auto
  qed
qed

lemma reachable_move: "service_reachable persist st \<Longrightarrow> request_move persist st st' \<Longrightarrow> service_reachable persist st'"
  unfolding service_reachable_def by (meson rtranclp.rtrancl_into_rtrancl service_step.request)

lemma reachable_moves: "(request_move persist)\<^sup>*\<^sup>* st st' \<Longrightarrow> service_reachable persist st \<Longrightarrow> service_reachable persist st'"
  by (induction rule: rtranclp_induct) (auto intro: reachable_move)

interpretation requests: ranked_transitions "request_move persist" "\<lambda>st. service_inv (fst (fst st)) (snd st) \<and> finite (dom (snd st))"
    "\<lambda>st. total_rank (snd st)" "\<lambda>st. all_finished (snd st)" for persist :: "'w persister"
proof unfold_locales
  fix st st' :: "(approval_service \<times> 'w) \<times> requests"
  assume m: "request_move persist st st'" and inv: "service_inv (fst (fst st)) (snd st) \<and> finite (dom (snd st))"
  have r: "total_rank (snd st') < total_rank (snd st)" "dom (snd st') = dom (snd st)"
    using request_move_rank [of persist "fst st" "snd st" "fst st'" "snd st'"] m inv by simp_all
  then show "total_rank (snd st') < total_rank (snd st)" by simp
  show "service_inv (fst (fst st')) (snd st') \<and> finite (dom (snd st'))"
    using service_step_inv [OF service_step.request [OF m]] inv r(2) by simp
next
  fix st :: "(approval_service \<times> 'w) \<times> requests"
  assume "service_inv (fst (fst st)) (snd st) \<and> finite (dom (snd st))" "\<not> all_finished (snd st)"
  then show "\<exists>st'. request_move persist st st'" using no_deadlock [of "fst (fst st)" "snd st" persist "snd (fst st)"] by simp
qed

text \<open>
  C4: Every request is answered. From any state the requests that have arrived cannot run forever, a run of them can stop only when each of them has its
  answer, and there is such a run: no interleaving loses a waiting request.
\<close>

theorem requests_get_answered:
  assumes "service_reachable persist st" "finite (dom (snd st))"
  shows "(\<nexists>run. run 0 = st \<and> (\<forall>n. request_move persist (run n) (run (Suc n)))) \<and>
    (\<forall>st'. (request_move persist)\<^sup>*\<^sup>* st st' \<and> (\<nexists>st''. request_move persist st' st'') \<longrightarrow> all_finished (snd st')) \<and>
    (\<exists>st'. (request_move persist)\<^sup>*\<^sup>* st st' \<and> all_finished (snd st'))"
proof -
  have inv: "service_inv (fst (fst st)) (snd st) \<and> finite (dom (snd st))" using assms service_reachable_inv by (metis prod.collapse)
  from requests.no_infinite_run [OF inv] requests.stuck_at_goal [OF inv] requests.reaches_goal [OF inv] show ?thesis by blast
qed

section \<open>A run of two requests\<close>

fun run_moves :: "'w persister \<Rightarrow> (nat \<times> answer) list \<Rightarrow> (approval_service \<times> 'w) \<times> requests \<Rightarrow> ((approval_service \<times> 'w) \<times> requests) option" where
  "run_moves persist [] st = Some st"
| "run_moves persist ((i, a) # ms) (sw, T) =
     (case T i of
        None \<Rightarrow> None
      | Some (req, ph) \<Rightarrow>
          (case request_step persist req a ph sw of
             None \<Rightarrow> None
           | Some (sw', ph') \<Rightarrow> run_moves persist ms (sw', T(i \<mapsto> (req, ph')))))"

lemma run_moves_moves: "run_moves persist ms st = Some st' \<Longrightarrow> (request_move persist)\<^sup>*\<^sup>* st st'"
proof (induction persist ms st rule: run_moves.induct)
  case (2 persist i a ms sw T)
  then obtain req ph sw' ph' where r: "T i = Some (req, ph)" "request_step persist req a ph sw = Some (sw', ph')"
      "run_moves persist ms (sw', T(i \<mapsto> (req, ph'))) = Some st'"
    by (auto split: option.splits prod.splits)
  from request_move.move [of T i req ph persist a sw sw' ph', OF r(1,2)] 2(1) [OF r(1) refl r(2) refl r(3)] show ?case by (rule converse_rtranclp_into_rtranclp)
qed simp

definition demo_net_request :: "rstr \<Rightarrow> network_policy_request" where
  "demo_net_request host = \<lparr>net_req_protocol = ProxyHttp, net_req_host = host, net_req_port = 80\<rparr>"

definition request_a :: network_policy_request where
  "request_a = demo_net_request (lit ''a.example'')"

definition request_b :: network_policy_request where
  "request_b = demo_net_request (lit ''A.example'')"

definition two_requests :: "(approval_service \<times> unit) \<times> requests" where
  "two_requests =
     ((service_default, ()), [0 \<mapsto> (request_a, CheckDenied), 1 \<mapsto> (request_b, CheckDenied)])"

definition no_persist :: "unit persister" where
  "no_persist = (\<lambda>_ _ _ w. w)"

lemma two_requests_reachable: "service_reachable no_persist two_requests"
proof -
  let ?st = "(service_default, ()) :: approval_service \<times> unit"
  let ?a = "(request_a, CheckDenied)" and ?b = "(request_b, CheckDenied)"
  have "service_step no_persist (?st, Map.empty) (?st, [0 \<mapsto> ?a])"
    using service_step.arrive [of Map.empty 0 no_persist ?st "request_a" True] by (simp add: decider_first_phase_def)
  moreover have "service_step no_persist (?st, [0 \<mapsto> ?a]) two_requests"
    using service_step.arrive [of "[0 \<mapsto> ?a]" 1 no_persist ?st "request_b" True]
    by (simp add: decider_first_phase_def two_requests_def)
  ultimately show ?thesis unfolding service_reachable_def initial_def
    by (intro exI [of _ "(?st, Map.empty)"]) (auto intro: rtranclp.rtrancl_into_rtrancl)
qed

definition managed_turn :: turn_context where
  "managed_turn = \<lparr>turn_sub_id = [], turn_approval_policy = OnRequest, turn_permission_profile = profile_read_only, turn_reviewer = ReviewByUser\<rparr>"

definition both_ask :: "(nat \<times> answer) list" where
  "both_ask = [(0, NoAnswer), (1, NoAnswer), (0, NoAnswer), (1, NoAnswer), (0, NoAnswer), (1, NoAnswer),
     (0, TurnAnswer (Some managed_turn)), (0, NoAnswer), (0, HookAnswer None)]"

definition both_answered :: "(nat \<times> answer) list" where
  "both_answered = both_ask @ [(0, ReviewAnswer ApprovedForSession []), (0, NoAnswer), (0, NoAnswer), (0, NoAnswer), (1, NoAnswer), (0, NoAnswer), (0, NoAnswer)]"


theorem requests_get_answered_witness:
  "\<exists>st'. (request_move no_persist)\<^sup>*\<^sup>* two_requests st' \<and> all_finished (snd st') \<and> \<not> all_finished (snd two_requests)"
proof -
  have fin: "finite (dom (snd two_requests))" by (simp add: two_requests_def)
  have "\<not> all_finished (snd two_requests)" by (auto simp: all_finished_def two_requests_def)
  with requests_get_answered [OF two_requests_reachable fin] show ?thesis by blast
qed

end
