(* ===== verification/Orchestrator.thy ===== *)
theory Orchestrator
  imports Network_Approval
begin

text \<open>
  Running a tool (\<open>core/src/tools/orchestrator.rs\<close>): approval, choice of the sandbox, the first attempt and the retry
  without a sandbox after a denial. Next to the changed world and the result every operation gives the events it caused, in order: what
  was asked and answered, and the attempts. Telemetry is left out.
\<close>

section \<open>Tools and their surroundings\<close>

record approval_ctx =
  guardian_review_id :: "rstr option"
  retry_reason :: "rstr option"
  ctx_network_context :: "network_approval_context option"

record sandbox_attempt =
  attempt_sandbox :: sandbox_type
  attempt_permissions :: permission_profile
  attempt_managed_network :: bool
  attempt_cwd :: rstr
  attempt_linux_exe :: "rstr option"
  attempt_legacy_landlock :: bool
  attempt_windows_level :: windows_sandbox_level
  attempt_registration :: "rstr option"

datatype approval_mode = Immediate | Deferred

record network_approval_spec =
  spec_has_network :: bool
  spec_mode :: approval_mode
  spec_command :: rstr

datatype ('o, 'e) codex_error = SandboxDenied 'o "policy_decision_payload option" | OtherError 'e

text \<open>
  A tool runtime for one request: the methods of \<open>Approvable\<close>, \<open>Sandboxable\<close> and \<open>ToolRuntime\<close>. What they say about the request does not change while it
  runs; asking for approval and running are steps of the world. No runtime overrides
  \<open>should_bypass_approval\<close>.
\<close>

record ('w, 'out, 'o, 'e) tool_runtime =
  tool_requirement :: "exec_approval_requirement option"
  tool_sandbox_permissions :: sandbox_permissions
  tool_preference :: sandboxable_preference
  tool_escalate_on_failure :: bool
  tool_wants_no_sandbox :: "ask_for_approval \<Rightarrow> bool"
  tool_payload :: "rstr option"
  tool_network_spec :: "network_approval_spec option"
  tool_cwd :: "rstr option"
  tool_start_approval :: "approval_ctx \<Rightarrow> approval_service \<times> 'w \<Rightarrow> (approval_service \<times> 'w) \<times> review_decision"
  tool_run :: "sandbox_attempt \<Rightarrow> approval_service \<times> 'w \<Rightarrow> (approval_service \<times> 'w) \<times> (('o, 'e) codex_error tool_error, 'out) result"

record tool_turn = turn_context +
  turn_network_active :: bool
  turn_windows_level :: windows_sandbox_level
  turn_cwd :: rstr
  turn_linux_exe :: "rstr option"
  turn_legacy_landlock :: bool

text \<open>The session: hooks, fresh identifiers and the message of a rejecting guardian.\<close>

record 'w tool_session =
  strict_auto_review :: bool
  session_os :: target_os
  session_call_id :: rstr
  run_permission_request_hooks :: "rstr \<Rightarrow> rstr \<Rightarrow> approval_service \<times> 'w \<Rightarrow> (approval_service \<times> 'w) \<times> hook_decision option"
  new_identifier :: "approval_service \<times> 'w \<Rightarrow> (approval_service \<times> 'w) \<times> rstr"
  guardian_rejection_message :: "rstr \<Rightarrow> approval_service \<times> 'w \<Rightarrow> (approval_service \<times> 'w) \<times> rstr"

datatype event =
    HookAnswered hook_decision
  | Asked approval_ctx review_decision
  | Attempted sandbox_attempt

section \<open>Asking\<close>

definition request_approval ::
    "'w tool_session \<Rightarrow> ('w, 'out, 'o, 'e) tool_runtime \<Rightarrow> rstr \<Rightarrow> approval_ctx \<Rightarrow> bool \<Rightarrow> approval_service \<times> 'w
       \<Rightarrow> (approval_service \<times> 'w) \<times> event list \<times> (('o, 'e) codex_error tool_error, review_decision) result" where
  "request_approval session tool run_id ctx evaluate_hooks w =
     (let ask = (\<lambda>w. case tool_start_approval tool ctx w of (w', d) \<Rightarrow> (w', [Asked ctx d], Inr d))
      in case (if evaluate_hooks then tool_payload tool else None) of
           None \<Rightarrow> ask w
         | Some payload \<Rightarrow>
             (case run_permission_request_hooks session run_id payload w of
                (w', Some HookAllow) \<Rightarrow> (w', [HookAnswered HookAllow], Inr Approved)
              | (w', Some (HookDeny message)) \<Rightarrow> (w', [HookAnswered (HookDeny message)], Inl (Rejected message))
              | (w', None) \<Rightarrow> ask w'))"

definition approving :: "review_decision \<Rightarrow> bool" where
  "approving d = (case d of
     Approved \<Rightarrow> True | ApprovedExecpolicyAmendment _ \<Rightarrow> True | ApprovedForSession \<Rightarrow> True
   | NetworkPolicyAmendment _ a \<Rightarrow> a = NetAllow | _ \<Rightarrow> False)"

definition reject_if_not_approved ::
    "'w tool_session \<Rightarrow> rstr option \<Rightarrow> review_decision \<Rightarrow> approval_service \<times> 'w
       \<Rightarrow> (approval_service \<times> 'w) \<times> (('o, 'e) codex_error tool_error, unit) result" where
  "reject_if_not_approved session review_id d w =
     (case d of
        Approved \<Rightarrow> (w, Inr ())
      | ApprovedExecpolicyAmendment _ \<Rightarrow> (w, Inr ())
      | ApprovedForSession \<Rightarrow> (w, Inr ())
      | NetworkPolicyAmendment _ NetAllow \<Rightarrow> (w, Inr ())
      | NetworkPolicyAmendment _ NetDeny \<Rightarrow> (w, Inl (Rejected (lit ''rejected by user'')))
      | TimedOut \<Rightarrow> (w, Inl (Rejected guardian_timeout_message))
      | _ \<Rightarrow>
          (case review_id of
             Some rid \<Rightarrow> (case guardian_rejection_message session rid w of (w', reason) \<Rightarrow> (w', Inl (Rejected reason)))
           | None \<Rightarrow> (w, Inl (Rejected (lit ''rejected by user'')))))"

text \<open>The sequence the run makes three times: a review identifier if a guardian reviews, the request, the check of the answer.\<close>

definition obtain_approval ::
    "'w tool_session \<Rightarrow> ('w, 'out, 'o, 'e) tool_runtime \<Rightarrow> rstr \<Rightarrow> bool \<Rightarrow> rstr option \<Rightarrow> network_approval_context option \<Rightarrow> bool \<Rightarrow> approval_service \<times> 'w
       \<Rightarrow> (approval_service \<times> 'w) \<times> event list \<times> (('o, 'e) codex_error tool_error, unit) result" where
  "obtain_approval session tool run_id guardian reason net_ctx evaluate_hooks w =
     (case (if guardian then map_prod id Some (new_identifier session w) else (w, None)) of (w1, review_id) \<Rightarrow>
      case request_approval session tool run_id \<lparr>guardian_review_id = review_id, retry_reason = reason, ctx_network_context = net_ctx\<rparr> evaluate_hooks w1 of
        (w2, evs, Inl e) \<Rightarrow> (w2, evs, Inl e)
      | (w2, evs, Inr d) \<Rightarrow> (case reject_if_not_approved session review_id d w2 of (w3, r) \<Rightarrow> (w3, evs, r)))"

section \<open>One attempt\<close>

definition begin_network_approval ::
    "'w tool_session \<Rightarrow> rstr \<Rightarrow> bool \<Rightarrow> network_approval_spec option \<Rightarrow> approval_service \<times> 'w
       \<Rightarrow> (approval_service \<times> 'w) \<times> (rstr \<times> approval_mode) option" where
  "begin_network_approval session turn_id managed spec w =
     (case spec of
        None \<Rightarrow> (w, None)
      | Some sp \<Rightarrow>
          if \<not> managed \<or> \<not> spec_has_network sp then (w, None)
          else (case new_identifier session w of ((s, v), rid) \<Rightarrow>
                  ((register_call \<lparr>call_id = rid, call_turn_id = turn_id, call_command = spec_command sp\<rparr> s, v), Some (rid, spec_mode sp))))"

definition finish_network_call :: "rstr \<Rightarrow> approval_service \<times> 'w \<Rightarrow> (approval_service \<times> 'w) \<times> ('e tool_error, unit) result" where
  "finish_network_call rid = (\<lambda>(s, v). case finish_call rid s of (s', r) \<Rightarrow> ((s', v), r))"

definition run_attempt ::
    "'w tool_session \<Rightarrow> ('w, 'out, 'o, 'e) tool_runtime \<Rightarrow> rstr \<Rightarrow> sandbox_attempt \<Rightarrow> bool \<Rightarrow> approval_service \<times> 'w
       \<Rightarrow> (approval_service \<times> 'w) \<times> event list \<times> (('o, 'e) codex_error tool_error, 'out) result \<times> rstr option" where
  "run_attempt session tool turn_id attempt managed w =
     (case begin_network_approval session turn_id managed (tool_network_spec tool) w of (w1, active) \<Rightarrow>
      let attempt' = attempt\<lparr>attempt_registration := map_option fst active\<rparr>
      in case tool_run tool attempt' w1 of (w2, run_result) \<Rightarrow>
         case active of
           None \<Rightarrow> (w2, [Attempted attempt'], run_result, None)
         | Some (rid, Immediate) \<Rightarrow>
             (case finish_network_call rid w2 of
                (w3, Inl e) \<Rightarrow> (w3, [Attempted attempt'], Inl e, None)
              | (w3, Inr _) \<Rightarrow> (w3, [Attempted attempt'], run_result, None))
         | Some (rid, Deferred) \<Rightarrow>
             (case run_result of
                Inl _ \<Rightarrow>
                  (case finish_network_call rid w2 of
                     (w3, Inl e) \<Rightarrow> (w3, [Attempted attempt'], Inl e, None)
                   | (w3, Inr _) \<Rightarrow> (w3, [Attempted attempt'], run_result, None))
              | Inr _ \<Rightarrow> (w2, [Attempted attempt'], run_result, Some rid)))"

section \<open>The run\<close>

definition denial_reason :: "network_approval_context option \<Rightarrow> rstr" where
  "denial_reason ctx =
     (case ctx of
        Some c \<Rightarrow> lit ''Network access to '' @ double_quote @ context_host c @ double_quote @ lit '' is blocked by policy.''
      | None \<Rightarrow> lit ''command failed; retry without sandbox?'')"

definition turn_file_system_policy :: "tool_turn \<Rightarrow> sandbox_policy" where
  "turn_file_system_policy turn = file_system_sandbox_policy (turn_permission_profile turn)"

definition effective_requirement :: "('w, 'out, 'o, 'e) tool_runtime \<Rightarrow> tool_turn \<Rightarrow> ask_for_approval \<Rightarrow> exec_approval_requirement" where
  "effective_requirement tool turn policy =
     (case tool_requirement tool of
        Some r \<Rightarrow> r
      | None \<Rightarrow> default_exec_approval_requirement policy (turn_file_system_policy turn))"

definition initial_approval ::
    "'w tool_session \<Rightarrow> ('w, 'out, 'o, 'e) tool_runtime \<Rightarrow> tool_turn \<Rightarrow> ask_for_approval \<Rightarrow> approval_service \<times> 'w
       \<Rightarrow> (approval_service \<times> 'w) \<times> event list \<times> (('o, 'e) codex_error tool_error, bool) result" where
  "initial_approval session tool turn policy w =
     (let strict = strict_auto_review session; use_guardian = (routes_approval_to_guardian turn \<or> strict);
          approved = (\<lambda>(w', evs, r). (w', evs, rbind r (\<lambda>_. Inr True)))
      in case effective_requirement tool turn policy of
           Skip _ _ \<Rightarrow> if strict then approved (obtain_approval session tool (session_call_id session) True None None False w) else (w, [], Inr False)
         | ExecForbidden reason \<Rightarrow> (w, [], Inl (Rejected reason))
         | NeedsApproval reason _ \<Rightarrow> approved (obtain_approval session tool (session_call_id session) use_guardian reason None (\<not> strict) w))"

definition first_sandbox :: "'w tool_session \<Rightarrow> ('w, 'out, 'o, 'e) tool_runtime \<Rightarrow> tool_turn \<Rightarrow> ask_for_approval \<Rightarrow> sandbox_type" where
  "first_sandbox session tool turn policy =
     (case sandbox_override_for_first_attempt (tool_sandbox_permissions tool) (effective_requirement tool turn policy) (turn_file_system_policy turn) of
        BypassSandboxFirstAttempt \<Rightarrow> SandboxNone
      | NoOverride \<Rightarrow>
          select_initial (session_os session) (turn_file_system_policy turn) (profile_network_policy (turn_permission_profile turn))
            (tool_preference tool) (turn_windows_level turn) (turn_network_active turn))"

definition make_attempt :: "('w, 'out, 'o, 'e) tool_runtime \<Rightarrow> tool_turn \<Rightarrow> sandbox_type \<Rightarrow> rstr option \<Rightarrow> sandbox_attempt" where
  "make_attempt tool turn sandbox exe =
     \<lparr>attempt_sandbox = sandbox, attempt_permissions = turn_permission_profile turn, attempt_managed_network = turn_network_active turn,
      attempt_cwd = (case tool_cwd tool of Some c \<Rightarrow> c | None \<Rightarrow> turn_cwd turn), attempt_linux_exe = exe,
      attempt_legacy_landlock = turn_legacy_landlock turn, attempt_windows_level = turn_windows_level turn, attempt_registration = None\<rparr>"

definition retry_allowed ::
    "('w, 'out, 'o, 'e) tool_runtime \<Rightarrow> tool_turn \<Rightarrow> ask_for_approval \<Rightarrow> policy_decision_payload option \<Rightarrow> network_approval_context option \<Rightarrow> bool" where
  "retry_allowed tool turn policy payload net_ctx \<longleftrightarrow>
     \<not> (payload \<noteq> None \<and> net_ctx = None) \<and> tool_escalate_on_failure tool \<and>
     (tool_wants_no_sandbox tool policy \<or>
      policy = OnRequest \<and> net_ctx \<noteq> None \<and>
        (case default_exec_approval_requirement policy (turn_file_system_policy turn) of NeedsApproval _ _ \<Rightarrow> True | _ \<Rightarrow> False))"

type_synonym ('w, 'out, 'o, 'e) run_outcome =
  "(approval_service \<times> 'w) \<times> event list \<times> (('o, 'e) codex_error tool_error, 'out \<times> rstr option) result"

definition retry_without_sandbox ::
    "'w tool_session \<Rightarrow> ('w, 'out, 'o, 'e) tool_runtime \<Rightarrow> tool_turn \<Rightarrow> ask_for_approval \<Rightarrow> bool \<Rightarrow> 'o \<Rightarrow> policy_decision_payload option
       \<Rightarrow> approval_service \<times> 'w \<Rightarrow> ('w, 'out, 'o, 'e) run_outcome" where
  "retry_without_sandbox session tool turn policy already_approved output payload w =
     (let net_ctx = (if turn_network_active turn then Option.bind payload network_approval_context_from_payload else None);
          strict = strict_auto_review session; use_guardian = (routes_approval_to_guardian turn \<or> strict)
      in if \<not> retry_allowed tool turn policy payload net_ctx then (w, [], Inl (CodexError (SandboxDenied output payload)))
         else
           let bypass = (\<not> strict \<and> should_bypass_approval policy already_approved \<and> net_ctx = None)
           in case (if bypass then (w, [], Inr ())
                    else obtain_approval session tool (session_call_id session @ lit '':retry'') use_guardian (Some (denial_reason net_ctx)) net_ctx (\<not> strict) w) of
                (w1, evs, Inl e) \<Rightarrow> (w1, evs, Inl e)
              | (w1, evs, Inr _) \<Rightarrow>
                  (case run_attempt session tool (turn_sub_id turn) (make_attempt tool turn SandboxNone None) (turn_network_active turn) w1 of
                     (w2, evs2, r, deferred) \<Rightarrow> (w2, evs @ evs2, rbind r (\<lambda>out. Inr (out, deferred)))))"

definition orchestrator_run ::
    "'w tool_session \<Rightarrow> ('w, 'out, 'o, 'e) tool_runtime \<Rightarrow> tool_turn \<Rightarrow> ask_for_approval \<Rightarrow> approval_service \<times> 'w \<Rightarrow> ('w, 'out, 'o, 'e) run_outcome" where
  "orchestrator_run session tool turn policy w =
     (case initial_approval session tool turn policy w of
        (w1, evs, Inl e) \<Rightarrow> (w1, evs, Inl e)
      | (w1, evs, Inr already_approved) \<Rightarrow>
          (case run_attempt session tool (turn_sub_id turn)
                  (make_attempt tool turn (first_sandbox session tool turn policy) (turn_linux_exe turn)) (turn_network_active turn) w1 of
             (w2, evs2, Inr out, deferred) \<Rightarrow> (w2, evs @ evs2, Inr (out, deferred))
           | (w2, evs2, Inl (CodexError (SandboxDenied output payload)), _) \<Rightarrow>
               (case retry_without_sandbox session tool turn policy already_approved output payload w2 of
                  (w3, evs3, r) \<Rightarrow> (w3, evs @ evs2 @ evs3, r))
           | (w2, evs2, Inl e, _) \<Rightarrow> (w2, evs @ evs2, Inl e)))"

section \<open>What the events say\<close>

fun granting :: "event \<Rightarrow> bool" where
  "granting (HookAnswered h) = (h = HookAllow)"
| "granting (Asked ctx d) = approving d"
| "granting (Attempted a) = False"

definition granted :: "event list \<Rightarrow> bool" where
  "granted evs \<longleftrightarrow> (\<exists>e \<in> set evs. granting e)"

fun is_attempt :: "event \<Rightarrow> bool" where
  "is_attempt (Attempted a) = True"
| "is_attempt _ = False"

lemma granted_append [simp]: "granted (xs @ ys) \<longleftrightarrow> granted xs \<or> granted ys"
  by (auto simp: granted_def)

lemma granted_Cons [simp]: "granted (e # es) \<longleftrightarrow> granting e \<or> granted es"
  by (auto simp: granted_def)

lemma reject_if_not_approved_Inr: "reject_if_not_approved session review_id d w = (w', Inr ()) \<Longrightarrow> approving d"
  by (auto simp: reject_if_not_approved_def approving_def split: review_decision.splits network_rule_action.splits option.splits prod.splits)

lemma obtain_approval_events:
  assumes "obtain_approval session tool run_id guardian reason net_ctx hooks w = (w', evs, r)"
  shows "\<forall>e \<in> set evs. \<not> is_attempt e" "r = Inr () \<Longrightarrow> granted evs"
proof -
  obtain w1 review_id where n: "(if guardian then map_prod id Some (new_identifier session w) else (w, None)) = (w1, review_id)" by fastforce
  let ?ctx = "\<lparr>guardian_review_id = review_id, retry_reason = reason, ctx_network_context = net_ctx\<rparr>"
  obtain w2 evs2 q where q: "request_approval session tool run_id ?ctx hooks w1 = (w2, evs2, q)" by (metis surj_pair)
  have shape: "(\<forall>e \<in> set evs2. \<not> is_attempt e) \<and> (\<forall>d. q = Inr d \<and> approving d \<longrightarrow> granted evs2)"
    using q by (auto simp: request_approval_def Let_def granted_def split: option.splits prod.splits if_splits hook_decision.splits)
  have evs: "evs = evs2" and ok: "r = Inr () \<Longrightarrow> \<exists>d. q = Inr d \<and> approving d"
    using assms n q by (auto simp: obtain_approval_def split: prod.splits sum.splits dest: reject_if_not_approved_Inr)
  from shape evs show "\<forall>e \<in> set evs. \<not> is_attempt e" by simp
  assume "r = Inr ()"
  with ok shape evs show "granted evs" by blast
qed

lemma run_attempt_events:
  assumes "run_attempt session tool turn_id attempt managed w = (w', evs, r, deferred)"
  shows "\<exists>rid. evs = [Attempted (attempt\<lparr>attempt_registration := rid\<rparr>)]"
  using assms by (auto simp: run_attempt_def Let_def split: prod.splits option.splits approval_mode.splits sum.splits)

lemma initial_approval_events:
  assumes "initial_approval session tool turn policy w = (w', evs, r)"
  shows "\<forall>e \<in> set evs. \<not> is_attempt e"
    "r = Inr True \<Longrightarrow> granted evs" "r = Inr b \<Longrightarrow> (\<forall>reason a. effective_requirement tool turn policy = NeedsApproval reason a \<longrightarrow> b)"
    "r = Inr b \<Longrightarrow> (\<forall>reason. effective_requirement tool turn policy \<noteq> ExecForbidden reason) \<and> (strict_auto_review session \<longrightarrow> b)"
  using assms
  by (auto simp: initial_approval_def Let_def rbind_eq_Inr_iff dest: obtain_approval_events split: exec_approval_requirement.splits if_splits prod.splits)

lemma retry_events:
  assumes "retry_without_sandbox session tool turn policy already out payload w = (w', evs, r)"
  obtains (asked) "\<forall>e \<in> set evs. \<not> is_attempt e"
  | (ran) evs1 rid where "evs = evs1 @ [Attempted ((make_attempt tool turn SandboxNone None)\<lparr>attempt_registration := rid\<rparr>)]"
      "\<forall>e \<in> set evs1. \<not> is_attempt e" "tool_escalate_on_failure tool" "tool_wants_no_sandbox tool policy \<or> policy = OnRequest"
      "granted evs1 \<or> \<not> strict_auto_review session \<and> should_bypass_approval policy already"
proof -
  let ?net = "if turn_network_active turn then Option.bind payload network_approval_context_from_payload else None"
  let ?bypass = "\<not> strict_auto_review session \<and> should_bypass_approval policy already \<and> ?net = None"
  let ?ask = "obtain_approval session tool (session_call_id session @ lit '':retry'') (routes_approval_to_guardian turn \<or> strict_auto_review session)
    (Some (denial_reason ?net)) ?net (\<not> strict_auto_review session) w"
  obtain w1 evs1 q where q: "(if ?bypass then (w, [], Inr ()) else ?ask) = (w1, evs1, q)" by (metis surj_pair)
  have e1: "(\<forall>e \<in> set evs1. \<not> is_attempt e) \<and> (q = Inr () \<longrightarrow> granted evs1 \<or> ?bypass)"
  proof (cases ?bypass)
    case True
    then show ?thesis using q by simp
  next
    case False
    with q have "?ask = (w1, evs1, q)" by (simp only: if_False)
    then show ?thesis using obtain_approval_events by metis
  qed
  show ?thesis
  proof (cases "retry_allowed tool turn policy payload ?net \<and> q = Inr ()")
    case True
    obtain w2 evs2 x deferred where a: "run_attempt session tool (turn_sub_id turn) (make_attempt tool turn SandboxNone None) (turn_network_active turn) w1 =
        (w2, evs2, x, deferred)" by (metis surj_pair)
    then obtain rid where rid: "evs2 = [Attempted ((make_attempt tool turn SandboxNone None)\<lparr>attempt_registration := rid\<rparr>)]"
      using run_attempt_events by blast
    have "evs = evs1 @ evs2" using assms True q a by (simp add: retry_without_sandbox_def Let_def)
    with True rid e1 show ?thesis by (intro ran [of evs1 rid]) (simp_all add: retry_allowed_def, blast+)
  next
    case False
    then have "evs = evs1 \<or> evs = []" using assms q by (auto simp: retry_without_sandbox_def Let_def split: sum.splits if_splits)
    with e1 show ?thesis by (intro asked) auto
  qed
qed

lemma run_cases:
  assumes "orchestrator_run session tool turn policy w = (w', evs, r)"
  obtains (refused) e where "initial_approval session tool turn policy w = (w', evs, Inl e)" "r = Inl e"
  | (ran) w1 evs1 b rid evs2 where "initial_approval session tool turn policy w = (w1, evs1, Inr b)"
      "evs = evs1 @ Attempted ((make_attempt tool turn (first_sandbox session tool turn policy) (turn_linux_exe turn))\<lparr>attempt_registration := rid\<rparr>) # evs2"
      "evs2 = [] \<or> (\<exists>out payload w2. retry_without_sandbox session tool turn policy b out payload w2 = (w', evs2, r))"
proof -
  obtain w1 evs1 q where q: "initial_approval session tool turn policy w = (w1, evs1, q)" by (metis surj_pair)
  show ?thesis
  proof (cases q)
    case (Inl e)
    with q assms show ?thesis by (intro refused [of e]) (simp_all add: orchestrator_run_def)
  next
    case (Inr b)
    let ?a = "make_attempt tool turn (first_sandbox session tool turn policy) (turn_linux_exe turn)"
    obtain w2 evs2 x deferred where a: "run_attempt session tool (turn_sub_id turn) ?a (turn_network_active turn) w1 = (w2, evs2, x, deferred)" by (metis surj_pair)
    then obtain rid where rid: "evs2 = [Attempted (?a\<lparr>attempt_registration := rid\<rparr>)]" using run_attempt_events by blast
    have "\<exists>evs3. evs = evs1 @ evs2 @ evs3 \<and>
        (evs3 = [] \<or> (\<exists>out payload w2. retry_without_sandbox session tool turn policy b out payload w2 = (w', evs3, r)))"
      using assms q Inr a by (auto simp: orchestrator_run_def split: sum.splits tool_error.splits codex_error.splits prod.splits) (metis surj_pair)
    with q Inr rid show ?thesis by (auto intro: ran)
  qed
qed

lemma split_at_attempt:
  assumes "\<forall>e \<in> set xs. \<not> is_attempt e" "xs @ ys = pre @ Attempted a # post"
  shows "\<exists>zs. pre = xs @ zs \<and> ys = zs @ Attempted a # post"
  using assms
proof (induction xs arbitrary: pre)
  case (Cons x xs)
  then obtain p ps where "pre = p # ps" by (cases pre) auto
  with Cons show ?case by auto
qed simp

text \<open>
  C9: A tool runs only with the approval it needs. A forbidden call changes nothing and is reported with its reason; where
  approval is needed, or the session reviews every call, each attempt comes after an answer that grants it; there are at most two attempts.
\<close>

theorem tool_runs_only_approved:
  assumes "orchestrator_run session tool turn policy w = (w', evs, r)"
  shows "(\<forall>reason. effective_requirement tool turn policy = ExecForbidden reason \<longrightarrow> w' = w \<and> evs = [] \<and> r = Inl (Rejected reason)) \<and>
    (\<forall>pre a post. evs = pre @ Attempted a # post \<and>
       (strict_auto_review session \<or> (\<exists>reason x. effective_requirement tool turn policy = NeedsApproval reason x)) \<longrightarrow> granted pre) \<and>
    length (filter is_attempt evs) \<le> 2"
  using assms
proof (cases rule: run_cases)
  case (refused e)
  note i = initial_approval_events(1) [OF refused(1)]
  have none: "evs \<noteq> pre @ Attempted a # post" for pre a post using i by auto
  have "filter is_attempt evs = []" using i by (simp add: filter_empty_conv)
  moreover have "w' = w \<and> evs = [] \<and> e = Rejected reason" if "effective_requirement tool turn policy = ExecForbidden reason" for reason
    using refused that by (simp add: initial_approval_def Let_def)
  ultimately show ?thesis using none refused(2) by auto
next
  case (ran w1 evs1 b rid evs2)
  note i = initial_approval_events [OF ran(1)]
  have "granted pre" if x: "evs = pre @ Attempted a # post"
      "strict_auto_review session \<or> (\<exists>reason x. effective_requirement tool turn policy = NeedsApproval reason x)" for pre a post
  proof -
    have "granted evs1" using x(2) i(2-4) by (cases b) auto
    moreover obtain zs where "pre = evs1 @ zs" using split_at_attempt [OF i(1)] ran(2) x(1) by metis
    ultimately show ?thesis by simp
  qed
  moreover have "length (filter is_attempt evs2) \<le> 1"
  proof (cases "evs2 = []")
    case False
    then obtain out payload w2 where rt: "retry_without_sandbox session tool turn policy b out payload w2 = (w', evs2, r)" using ran(3) by blast
    show ?thesis by (rule retry_events [OF rt]) (simp_all add: filter_empty_conv [THEN iffD2])
  qed simp
  ultimately show ?thesis using i(1) i(4) ran(2) by (auto simp: filter_empty_conv [THEN iffD2])
qed

text \<open>
  C3: A tool leaves the sandbox only for a reason. If an attempt has no sandbox, it is the first one and a rule allowed the command, or it asked for escalated
  permissions and no read is denied, or the sandbox manager wants none; or it is the retry after a denied first attempt, prompts are not
  turned off, the tool may escalate, and an approval was given in this run before it, after the first attempt when every call is reviewed.
\<close>

theorem unsandboxed_attempt_justified:
  assumes "orchestrator_run session tool turn policy w = (w', evs, r)" "evs = pre @ Attempted a # post" "attempt_sandbox a = SandboxNone"
    and "\<not> tool_wants_no_sandbox tool Never"
  shows "(\<forall>e \<in> set pre. \<not> is_attempt e) \<and>
      ((\<exists>x. effective_requirement tool turn policy = Skip True x) \<or>
       requires_escalated_permissions (tool_sandbox_permissions tool) \<and> \<not> has_denied_read_restrictions (turn_file_system_policy turn) \<or>
       select_initial (session_os session) (turn_file_system_policy turn) (profile_network_policy (turn_permission_profile turn))
         (tool_preference tool) (turn_windows_level turn) (turn_network_active turn) = SandboxNone) \<or>
    (\<exists>before b mid. pre = before @ Attempted b # mid \<and> policy \<noteq> Never \<and> tool_escalate_on_failure tool \<and> granted pre \<and>
       (strict_auto_review session \<longrightarrow> granted mid))"
  using assms(1)
proof (cases rule: run_cases)
  case (refused e)
  with initial_approval_events(1) [OF refused(1)] assms(2) show ?thesis by auto
next
  case (ran w1 evs1 b rid evs2)
  note i = initial_approval_events [OF ran(1)]
  obtain zs where zs: "pre = evs1 @ zs"
    "Attempted ((make_attempt tool turn (first_sandbox session tool turn policy) (turn_linux_exe turn))\<lparr>attempt_registration := rid\<rparr>) # evs2 = zs @ Attempted a # post"
    using split_at_attempt [OF i(1)] ran(2) assms(2) by metis
  show ?thesis
  proof (cases zs)
    case Nil
    then have "first_sandbox session tool turn policy = SandboxNone" using zs(2) assms(3) by (auto simp: make_attempt_def)
    then have "(\<exists>x. effective_requirement tool turn policy = Skip True x) \<or>
       requires_escalated_permissions (tool_sandbox_permissions tool) \<and> \<not> has_denied_read_restrictions (turn_file_system_policy turn) \<or>
       select_initial (session_os session) (turn_file_system_policy turn) (profile_network_policy (turn_permission_profile turn))
         (tool_preference tool) (turn_windows_level turn) (turn_network_active turn) = SandboxNone"
      by (auto simp: first_sandbox_def sandbox_override_for_first_attempt_def split: if_splits exec_approval_requirement.splits)
    with Nil zs(1) i(1) show ?thesis by simp
  next
    case (Cons z mid)
    then have mid: "evs2 = mid @ Attempted a # post" and z: "is_attempt z" using zs(2) by auto
    then obtain out payload w2 where rt: "retry_without_sandbox session tool turn policy b out payload w2 = (w', evs2, r)" using ran(3) by auto
    from rt show ?thesis
    proof (cases rule: retry_events)
      case asked
      with mid show ?thesis by auto
    next
      case (ran evs3 rid')
      have e3: "mid = evs3" using split_at_attempt [OF ran(2)] ran(1) mid by (metis append_self_conv butlast_snoc self_append_conv2 append_eq_Cons_conv list.inject append_is_Nil_conv not_Cons_self2)
      have policy: "policy \<noteq> Never" using ran(4) assms(4) by auto
      then have "granted evs1" if "\<not> granted mid" using ran(5) that e3 i(2) by (auto simp: should_bypass_approval_def split: if_splits)
      moreover obtain x where "z = Attempted x" using z by (cases z) auto
      ultimately show ?thesis
        using Cons zs(1) policy ran(3,5) e3 by (intro disjI2 exI [of _ evs1] exI [of _ x] exI [of _ mid]) auto
    qed
  qed
qed

section \<open>A run with a retry\<close>

definition demo_tool :: "(unit, unit, unit, unit) tool_runtime" where
  "demo_tool =
     \<lparr>tool_requirement = None, tool_sandbox_permissions = UseDefault, tool_preference = PrefAuto, tool_escalate_on_failure = True,
      tool_wants_no_sandbox = wants_no_sandbox_approval, tool_payload = None, tool_network_spec = None, tool_cwd = None,
      tool_start_approval = (\<lambda>_ w. (w, Approved)),
      tool_run = (\<lambda>a w. (w, if attempt_sandbox a = SandboxNone then Inr () else Inl (CodexError (SandboxDenied () None))))\<rparr>"

definition demo_turn :: tool_turn where
  "demo_turn =
     \<lparr>turn_sub_id = [], turn_approval_policy = UnlessTrusted,
      turn_permission_profile = Managed (ManagedRestricted
        [entry (Special RootPath) AccessRead, entry (PathEntry (lit ''/w/secret'')) AccessNone] None) NetRestricted,
      turn_reviewer = ReviewByUser, turn_network_active = False, turn_windows_level = WindowsDisabled, turn_cwd = lit ''/w'',
      turn_linux_exe = None, turn_legacy_landlock = False\<rparr>"

definition demo_session :: "unit tool_session" where
  "demo_session =
     \<lparr>strict_auto_review = False, session_os = Linux, session_call_id = [], run_permission_request_hooks = (\<lambda>_ _ w. (w, None)),
      new_identifier = (\<lambda>w. (w, [])), guardian_rejection_message = (\<lambda>_ w. (w, []))\<rparr>"

definition demo_run :: "(unit, unit, unit, unit) run_outcome" where
  "demo_run = orchestrator_run demo_session demo_tool demo_turn UnlessTrusted (service_default, ())"

lemma demo_run_events:
  "fst (snd demo_run) =
     [Asked \<lparr>guardian_review_id = None, retry_reason = None, ctx_network_context = None\<rparr> Approved,
      Attempted (make_attempt demo_tool demo_turn LinuxSeccomp None), Attempted (make_attempt demo_tool demo_turn SandboxNone None)]"
  by code_simp

theorem tool_runs_only_approved_witness:
  "granted (take 2 (fst (snd demo_run))) \<and> length (filter is_attempt (fst (snd demo_run))) = 2"
proof -
  have r: "orchestrator_run demo_session demo_tool demo_turn UnlessTrusted (service_default, ()) = (fst demo_run, fst (snd demo_run), snd (snd demo_run))"
    by (simp add: demo_run_def)
  have n: "effective_requirement demo_tool demo_turn UnlessTrusted = NeedsApproval None None" by code_simp
  have e: "fst (snd demo_run) = take 2 (fst (snd demo_run)) @ Attempted (make_attempt demo_tool demo_turn SandboxNone None) # []" by (simp add: demo_run_events)
  from tool_runs_only_approved [OF r] e n have "granted (take 2 (fst (snd demo_run)))" by metis
  then show ?thesis by (simp add: demo_run_events)
qed

theorem unsandboxed_attempt_justified_witness:
  "\<exists>before b mid. take 2 (fst (snd demo_run)) = before @ Attempted b # mid \<and> granted (take 2 (fst (snd demo_run)))"
proof -
  have r: "orchestrator_run demo_session demo_tool demo_turn UnlessTrusted (service_default, ()) = (fst demo_run, fst (snd demo_run), snd (snd demo_run))"
    by (simp add: demo_run_def)
  have e: "fst (snd demo_run) = take 2 (fst (snd demo_run)) @ Attempted (make_attempt demo_tool demo_turn SandboxNone None) # []" by (simp add: demo_run_events)
  have a: "attempt_sandbox (make_attempt demo_tool demo_turn SandboxNone None) = SandboxNone" by (simp add: make_attempt_def)
  have t: "\<not> tool_wants_no_sandbox demo_tool Never" by (simp add: demo_tool_def wants_no_sandbox_approval_def)
  have "\<not> (\<forall>e \<in> set (take 2 (fst (snd demo_run))). \<not> is_attempt e)" by (simp add: demo_run_events)
  with unsandboxed_attempt_justified [OF r e a t] show ?thesis by blast
qed

text \<open>
  The retry discards denied reads. The turn's policy denies reading a directory, which keeps an explicit escalation in the sandbox; yet a call that was approved once and whose
  sandboxed attempt is denied runs again without any sandbox, and nobody is asked about it.
\<close>

theorem retry_discards_denied_reads:
  "has_denied_read_restrictions (turn_file_system_policy demo_turn) \<and>
   sandbox_override_for_first_attempt RequireEscalated (effective_requirement demo_tool demo_turn UnlessTrusted) (turn_file_system_policy demo_turn) = NoOverride \<and>
   (\<exists>ctx a b. fst (snd demo_run) = [Asked ctx Approved, Attempted a, Attempted b] \<and> attempt_sandbox a = LinuxSeccomp \<and> attempt_sandbox b = SandboxNone)"
proof (intro conjI)
  show "has_denied_read_restrictions (turn_file_system_policy demo_turn)" by code_simp
  show "sandbox_override_for_first_attempt RequireEscalated (effective_requirement demo_tool demo_turn UnlessTrusted) (turn_file_system_policy demo_turn) = NoOverride"
    by code_simp
  show "\<exists>ctx a b. fst (snd demo_run) = [Asked ctx Approved, Attempted a, Attempted b] \<and> attempt_sandbox a = LinuxSeccomp \<and> attempt_sandbox b = SandboxNone"
    by (simp add: demo_run_events make_attempt_def)
qed

end
