(* ===== verification/Head_Tail_Buffer.thy ===== *)
theory Head_Tail_Buffer
  imports Prelude
begin

text \<open>
  The capped output buffer of unified exec (\<open>core/src/unified_exec/head_tail_buffer.rs\<close>): half
  of the capacity keeps the first bytes of the output, the other half the last ones. Chunks
  arrive in any sizes; counters saturate at the largest \<open>usize\<close>. The specification is a
  function of the whole output, and the buffer refines it however the output is cut in chunks.
\<close>

section \<open>State and operations\<close>

record 'b head_tail_buffer =
  max_bytes :: nat
  head_budget :: nat
  tail_budget :: nat
  head :: "'b list list"
  tail :: "'b list list"
  head_bytes :: nat
  tail_bytes :: nat
  omitted_bytes :: nat

definition htb_new :: "nat \<Rightarrow> 'b head_tail_buffer" where
  "htb_new m =
     \<lparr>max_bytes = m, head_budget = m div 2, tail_budget = m - m div 2, head = [], tail = [],
      head_bytes = 0, tail_bytes = 0, omitted_bytes = 0\<rparr>"

definition retained_bytes :: "'b head_tail_buffer \<Rightarrow> nat" where
  "retained_bytes b = saturating_add (head_bytes b) (tail_bytes b)"

text \<open>The loop of \<open>trim_tail_to_budget\<close> over the front of the tail.\<close>

fun trim_loop :: "nat \<Rightarrow> 'b list list \<Rightarrow> nat \<Rightarrow> nat \<Rightarrow> 'b list list \<times> nat \<times> nat" where
  "trim_loop excess [] tb om = ([], tb, om)"
| "trim_loop excess (front # rest) tb om =
     (if excess = 0 then (front # rest, tb, om)
      else if length front \<le> excess then
        trim_loop (excess - length front) rest (tb - length front) (saturating_add om (length front))
      else (drop excess front # rest, tb - excess, saturating_add om excess))"

definition trim_tail_to_budget :: "'b head_tail_buffer \<Rightarrow> 'b head_tail_buffer" where
  "trim_tail_to_budget b =
     (case trim_loop (tail_bytes b - tail_budget b) (tail b) (tail_bytes b) (omitted_bytes b) of
        (t, tb, om) \<Rightarrow> b\<lparr>tail := t, tail_bytes := tb, omitted_bytes := om\<rparr>)"

definition push_to_tail :: "'b list \<Rightarrow> 'b head_tail_buffer \<Rightarrow> 'b head_tail_buffer" where
  "push_to_tail chunk b =
     (if tail_budget b = 0 then b\<lparr>omitted_bytes := saturating_add (omitted_bytes b) (length chunk)\<rparr>
      else if tail_budget b \<le> length chunk then
        (let kept = drop (length chunk - tail_budget b) chunk; dropped = length chunk - length kept
         in b\<lparr>omitted_bytes := saturating_add (saturating_add (omitted_bytes b) (tail_bytes b)) dropped,
              tail := [kept], tail_bytes := length kept\<rparr>)
      else trim_tail_to_budget
             (b\<lparr>tail_bytes := saturating_add (tail_bytes b) (length chunk), tail := tail b @ [chunk]\<rparr>))"

definition push_chunk :: "'b head_tail_buffer \<Rightarrow> 'b list \<Rightarrow> 'b head_tail_buffer" where
  "push_chunk b chunk =
     (if max_bytes b = 0 then b\<lparr>omitted_bytes := saturating_add (omitted_bytes b) (length chunk)\<rparr>
      else if head_bytes b < head_budget b then
        (let remaining_head = head_budget b - head_bytes b
         in if length chunk \<le> remaining_head then
              b\<lparr>head_bytes := saturating_add (head_bytes b) (length chunk), head := head b @ [chunk]\<rparr>
            else
              (let head_part = take remaining_head chunk; tail_part = drop remaining_head chunk;
                   b = (if head_part \<noteq> [] then
                          b\<lparr>head_bytes := saturating_add (head_bytes b) (length head_part), head := head b @ [head_part]\<rparr>
                        else b)
               in push_to_tail tail_part b))
      else push_to_tail chunk b)"

definition snapshot_chunks :: "'b head_tail_buffer \<Rightarrow> 'b list list" where
  "snapshot_chunks b = head b @ tail b"

definition to_bytes :: "'b head_tail_buffer \<Rightarrow> 'b list" where
  "to_bytes b = concat (head b) @ concat (tail b)"

definition drain_chunks :: "'b head_tail_buffer \<Rightarrow> 'b head_tail_buffer \<times> 'b list list" where
  "drain_chunks b =
     (b\<lparr>head := [], tail := [], head_bytes := 0, tail_bytes := 0, omitted_bytes := 0\<rparr>, head b @ tail b)"

section \<open>Specification\<close>

definition last_n :: "nat \<Rightarrow> 'b list \<Rightarrow> 'b list" where
  "last_n n xs = drop (length xs - n) xs"

definition kept_output :: "nat \<Rightarrow> 'b list \<Rightarrow> 'b list" where
  "kept_output m s = take (m div 2) s @ last_n (m - m div 2) (drop (m div 2) s)"

lemma length_last_n: "length (last_n n xs) = min n (length xs)"
  by (simp add: last_n_def)

lemma last_n_0 [simp]: "last_n 0 xs = []"
  by (simp add: last_n_def)

lemma last_n_append: "last_n n (last_n n xs @ ys) = last_n n (xs @ ys)"
proof (cases "n \<le> length xs")
  case True
  then have "length ys + (length xs - n) = length xs + length ys - n" by simp
  with True show ?thesis by (simp add: last_n_def)
qed (simp add: last_n_def)

lemma last_n_long: "n \<le> length ys \<Longrightarrow> last_n n (xs @ ys) = last_n n ys"
  by (simp add: last_n_def)

text \<open>
  The buffer represents an output: the head is its first bytes, the tail the last bytes of the
  rest, the counters are exact, and what was omitted is counted up to saturation.
\<close>

definition budgets_ok :: "'b head_tail_buffer \<Rightarrow> bool" where
  "budgets_ok b \<longleftrightarrow>
     max_bytes b \<le> usize_max \<and> head_budget b = max_bytes b div 2 \<and> tail_budget b = max_bytes b - max_bytes b div 2"

definition represents :: "'b head_tail_buffer \<Rightarrow> 'b list \<Rightarrow> bool" where
  "represents b s \<longleftrightarrow>
     budgets_ok b \<and>
     concat (head b) = take (head_budget b) s \<and>
     concat (tail b) = last_n (tail_budget b) (drop (head_budget b) s) \<and>
     head_bytes b = length (concat (head b)) \<and> tail_bytes b = length (concat (tail b)) \<and>
     omitted_bytes b = min usize_max (length s - max_bytes b)"

lemma trim_loop_drop:
  assumes "excess \<le> length (concat t)" "om = min usize_max n"
  shows "\<exists>t'. trim_loop excess t tb om = (t', tb - excess, min usize_max (n + excess)) \<and>
           concat t' = drop excess (concat t)"
  using assms
proof (induction excess t tb om arbitrary: n rule: trim_loop.induct)
  case (2 excess front rest tb om)
  show ?case
  proof (cases "excess = 0 \<or> excess < length front")
    case True
    then show ?thesis using 2(3) by (auto simp: saturating_add_min)
  next
    case False
    then obtain t' where "trim_loop (excess - length front) rest (tb - length front) (saturating_add om (length front)) =
        (t', tb - length front - (excess - length front), min usize_max (n + length front + (excess - length front)))"
        "concat t' = drop (excess - length front) (concat rest)"
      using 2(1) [of "n + length front"] 2(2,3) False
      by (metis add_diff_cancel_left' concat.simps(2) diff_le_mono length_append linorder_not_less saturating_add_min)
    with False show ?thesis by auto
  qed
qed simp

lemma push_to_tail_represents:
  assumes b: "represents b s" and full: "head_budget b \<le> length s" and m: "max_bytes b \<noteq> 0"
  shows "represents (push_to_tail c b) (s @ c)"
proof -
  let ?T = "tail_budget b" and ?H = "head_budget b"
  have bud: "max_bytes b \<le> usize_max" "?H = max_bytes b div 2" "?T = max_bytes b - max_bytes b div 2"
    using b by (simp_all add: represents_def budgets_ok_def)
  then have sum: "?H + ?T = max_bytes b" "?T \<noteq> 0" using m by auto
  have ct: "concat (tail b) = last_n ?T (drop ?H s)" and tb: "tail_bytes b = length (concat (tail b))"
    using b by (simp_all add: represents_def)
  have om: "omitted_bytes b = min usize_max (length s - max_bytes b)" using b by (simp add: represents_def)
  have tb_le: "tail_bytes b = min ?T (length s - ?H)" by (simp add: tb ct length_last_n)
  show ?thesis
  proof (cases "?T \<le> length c")
    case True
    have "saturating_add (saturating_add (omitted_bytes b) (tail_bytes b)) (length c - ?T) =
        min usize_max (length s - max_bytes b + tail_bytes b + (length c - ?T))"
      by (simp add: om saturating_add_min)
    also have "length s - max_bytes b + tail_bytes b + (length c - ?T) = length (s @ c) - max_bytes b"
      using full sum True by (simp add: tb_le)
    finally have push: "push_to_tail c b = b\<lparr>omitted_bytes := min usize_max (length (s @ c) - max_bytes b),
        tail := [last_n ?T c], tail_bytes := ?T\<rparr>"
      using True sum(2) by (simp add: push_to_tail_def Let_def last_n_def)
    have "length (last_n ?T c) = ?T" using True by (simp add: length_last_n)
    with push True b full show ?thesis by (simp add: represents_def budgets_ok_def last_n_long)
  next
    case False
    let ?t = "tail b @ [c]" and ?tb = "tail_bytes b + length c"
    have add: "saturating_add (tail_bytes b) (length c) = ?tb"
    proof (rule saturating_add_exact)
      have "tail_bytes b \<le> ?T" by (simp add: tb_le)
      moreover have "?T + ?T \<le> Suc (max_bytes b)" using bud(2,3) by linarith
      ultimately show "?tb \<le> usize_max" using False bud(1) by linarith
    qed
    have len: "length (concat ?t) = ?tb" by (simp add: tb)
    obtain t' where t': "trim_loop (?tb - ?T) ?t ?tb (omitted_bytes b) =
        (t', ?tb - (?tb - ?T), min usize_max (length s - max_bytes b + (?tb - ?T)))"
        "concat t' = drop (?tb - ?T) (concat ?t)"
      using trim_loop_drop [of "?tb - ?T" ?t "omitted_bytes b" "length s - max_bytes b" ?tb] len om by auto
    have "concat t' = last_n ?T (concat ?t)" by (simp add: t'(2) last_n_def tb)
    also have "\<dots> = last_n ?T (drop ?H (s @ c))" using full by (simp add: ct last_n_append)
    finally have tail: "concat t' = last_n ?T (drop ?H (s @ c))" .
    have "length s - max_bytes b + (?tb - ?T) = length (s @ c) - max_bytes b"
      using full sum False by (simp add: tb_le)
    with t' tail have "push_to_tail c b = b\<lparr>tail := t', tail_bytes := length (concat t'),
        omitted_bytes := min usize_max (length (s @ c) - max_bytes b)\<rparr>"
      using False sum(2) add len by (simp add: push_to_tail_def trim_tail_to_budget_def)
    with b full tail show ?thesis by (simp add: represents_def budgets_ok_def)
  qed
qed

lemma push_chunk_represents:
  assumes b: "represents b s"
  shows "represents (push_chunk b c) (s @ c)"
proof -
  let ?H = "head_budget b"
  have hb: "head_bytes b = min ?H (length s)" using b by (simp add: represents_def)
  have H: "?H \<le> usize_max" using b div_le_dividend [of "max_bytes b" 2]
    by (simp add: represents_def budgets_ok_def del: div_le_dividend)
  consider "max_bytes b = 0" | "max_bytes b \<noteq> 0" "length s < ?H" "length s + length c \<le> ?H"
    | "max_bytes b \<noteq> 0" "length s < ?H" "?H < length s + length c" | "max_bytes b \<noteq> 0" "?H \<le> length s"
    by linarith
  then show ?thesis
  proof cases
    case 1
    with b show ?thesis by (simp add: push_chunk_def represents_def budgets_ok_def saturating_add_min)
  next
    case 2
    have "saturating_add (length s) (length c) = length s + length c" using 2 H by (intro saturating_add_exact) simp
    then have push: "push_chunk b c = b\<lparr>head_bytes := length s + length c, head := head b @ [c]\<rparr>"
      using 2 hb by (simp add: push_chunk_def Let_def)
    have "?H \<le> max_bytes b" using b by (simp add: represents_def budgets_ok_def)
    then have "length s - max_bytes b = 0" "length (s @ c) - max_bytes b = 0" using 2 by simp_all
    moreover have "drop ?H s = []" "drop ?H (s @ c) = []" "take ?H s = s" "take ?H (s @ c) = s @ c" using 2 by simp_all
    ultimately show ?thesis
      using b unfolding push represents_def budgets_ok_def by (elim conjE) (simp del: drop_append take_append)
  next
    case 3
    let ?n = "?H - length s"
    let ?b = "b\<lparr>head_bytes := length s + ?n, head := head b @ [take ?n c]\<rparr>"
    have push: "push_chunk b c = push_to_tail (drop ?n c) ?b"
      using 3 hb H by (simp add: push_chunk_def Let_def saturating_add_exact)
    have "represents ?b (s @ take ?n c)"
      using 3 b by (auto simp: represents_def budgets_ok_def last_n_def)
    then have "represents (push_to_tail (drop ?n c) ?b) ((s @ take ?n c) @ drop ?n c)"
      using 3 by (intro push_to_tail_represents) auto
    with push show ?thesis by simp
  next
    case 4
    then have "push_chunk b c = push_to_tail c b" using hb by (simp add: push_chunk_def)
    with push_to_tail_represents [OF b] 4 show ?thesis by simp
  qed
qed

text \<open>The buffer beside the output it has received.\<close>

interpretation buffer: step_invariant "\<lambda>(b, s) c. (push_chunk b c, s @ c)" "\<lambda>(b, s). represents b s"
  by unfold_locales (auto simp: push_chunk_represents)

lemma run_pair:
  "foldl (\<lambda>(b, s) c. (push_chunk b c, s @ c)) (b, s) cs = (foldl push_chunk b cs, s @ concat cs)"
  by (induction cs arbitrary: b s) simp_all

lemma represents_new: "m \<le> usize_max \<Longrightarrow> represents (htb_new m) []"
  by (simp add: represents_def budgets_ok_def htb_new_def last_n_def)

lemma max_bytes_push: "max_bytes (push_chunk b c) = max_bytes b"
  by (auto simp: push_chunk_def push_to_tail_def trim_tail_to_budget_def Let_def split: prod.splits)

lemma max_bytes_run: "max_bytes (foldl push_chunk b cs) = max_bytes b"
  by (induction cs arbitrary: b) (simp_all add: max_bytes_push)

lemma represents_run: "m \<le> usize_max \<Longrightarrow> represents (foldl push_chunk (htb_new m) cs) (concat cs)"
  using buffer.inv_run [of "(htb_new m, [])" cs] represents_new [of m] by (simp add: run_pair)

section \<open>Properties\<close>

text \<open>
  C37: The buffer keeps the first half-capacity bytes and the last of the rest, however the
  output is cut into chunks; it never holds more than its capacity, and its count of omitted
  bytes is the number it does not hold, up to the largest representable count.
\<close>

theorem head_tail_buffer_keeps_ends:
  assumes "m \<le> usize_max"
  shows "to_bytes (foldl push_chunk (htb_new m) cs) = kept_output m (concat cs) \<and>
         retained_bytes (foldl push_chunk (htb_new m) cs) = length (kept_output m (concat cs)) \<and>
         length (kept_output m (concat cs)) \<le> m \<and>
         omitted_bytes (foldl push_chunk (htb_new m) cs) = min usize_max (length (concat cs) - m)"
proof -
  let ?b = "foldl push_chunk (htb_new m) cs"
  have r: "represents ?b (concat cs)" using assms by (rule represents_run)
  have m: "max_bytes ?b = m" by (simp add: max_bytes_run htb_new_def)
  have bytes: "to_bytes ?b = kept_output m (concat cs)"
    using r m by (simp add: to_bytes_def represents_def budgets_ok_def kept_output_def)
  have le: "length (kept_output m (concat cs)) \<le> m" by (simp add: kept_output_def length_last_n)
  have "head_bytes ?b + tail_bytes ?b = length (to_bytes ?b)" using r by (simp add: represents_def to_bytes_def)
  with bytes le assms have "retained_bytes ?b = length (kept_output m (concat cs))"
    by (simp add: retained_bytes_def saturating_add_exact)
  with bytes le r m show ?thesis by (simp add: represents_def)
qed

theorem head_tail_buffer_keeps_ends_witness:
  "to_bytes (foldl push_chunk (htb_new 5) [[1 :: nat, 2, 3], [4], [5, 6, 7, 8]]) = [1, 2, 6, 7, 8]"
  using head_tail_buffer_keeps_ends [of 5 "[[1 :: nat, 2, 3], [4], [5, 6, 7, 8]]"]
  by (simp add: usize_max_def kept_output_def last_n_def)

end
