(* ===== verification/Truncate.thy ===== *)
theory Truncate
  imports Rust_Str
begin

text \<open>
  Truncation of long output in the middle (\<open>utils/string/src/truncate.rs\<close>,
  \<open>utils/output-truncation/src/lib.rs\<close>, \<open>TruncationPolicy\<close> of \<open>protocol\<close>). Budgets count
  UTF-8 bytes; slices are taken at byte offsets, and an offset inside a character would
  panic: \<open>None\<close>.
\<close>

section \<open>Estimates\<close>

definition APPROX_BYTES_PER_TOKEN :: nat where
  "APPROX_BYTES_PER_TOKEN = 4"

definition approx_token_count :: "rstr \<Rightarrow> nat" where
  "approx_token_count t = saturating_add (byte_len t) (APPROX_BYTES_PER_TOKEN - 1) div APPROX_BYTES_PER_TOKEN"

definition approx_bytes_for_tokens :: "nat \<Rightarrow> nat" where
  "approx_bytes_for_tokens tokens = saturating_mul tokens APPROX_BYTES_PER_TOKEN"

definition approx_tokens_from_byte_count :: "nat \<Rightarrow> nat" where
  "approx_tokens_from_byte_count bytes =
     saturating_add bytes (APPROX_BYTES_PER_TOKEN - 1) div APPROX_BYTES_PER_TOKEN"

definition approx_tokens_from_byte_count_i64 :: "int \<Rightarrow> int" where
  "approx_tokens_from_byte_count_i64 bytes =
     (if bytes \<le> 0 then 0 else min (2 ^ 63 - 1) (int (approx_tokens_from_byte_count (nat bytes))))"

section \<open>Slices at byte offsets\<close>

fun slice_to :: "nat \<Rightarrow> rstr \<Rightarrow> rstr option" where
  "slice_to n [] = (if n = 0 then Some [] else None)"
| "slice_to n (c # cs) =
     (if n = 0 then Some [] else if n < len_utf8 c then None else map_option (Cons c) (slice_to (n - len_utf8 c) cs))"

fun slice_from :: "nat \<Rightarrow> rstr \<Rightarrow> rstr option" where
  "slice_from n [] = (if n = 0 then Some [] else None)"
| "slice_from n (c # cs) =
     (if n = 0 then Some (c # cs) else if n < len_utf8 c then None else slice_from (n - len_utf8 c) cs)"

lemma slice_to_append: "slice_to (byte_len p) (p @ q) = Some p"
proof (induction p)
  case Nil
  then show ?case by (cases q) simp_all
next
  case (Cons c p)
  have "len_utf8 c \<noteq> 0" using len_utf8_pos [of c] by linarith
  with Cons show ?case by simp
qed

lemma slice_from_append: "slice_from (byte_len p) (p @ q) = Some q"
proof (induction p)
  case Nil
  then show ?case by (cases q) simp_all
next
  case (Cons c p)
  have "len_utf8 c \<noteq> 0" using len_utf8_pos [of c] by linarith
  with Cons show ?case by simp
qed

section \<open>Splitting a string\<close>

fun split_loop :: "nat \<Rightarrow> nat \<Rightarrow> rstr \<Rightarrow> nat \<Rightarrow> nat \<Rightarrow> nat \<Rightarrow> nat \<Rightarrow> bool \<Rightarrow> nat \<times> nat \<times> nat" where
  "split_loop beginning_bytes tail_start_target [] idx prefix_end suffix_start removed_chars started =
     (prefix_end, suffix_start, removed_chars)"
| "split_loop beginning_bytes tail_start_target (ch # chs) idx prefix_end suffix_start removed_chars started =
     (let char_end = idx + len_utf8 ch
      in if char_end \<le> beginning_bytes then
           split_loop beginning_bytes tail_start_target chs char_end char_end suffix_start removed_chars started
         else if tail_start_target \<le> idx then
           split_loop beginning_bytes tail_start_target chs char_end prefix_end
             (if started then suffix_start else idx) removed_chars True
         else split_loop beginning_bytes tail_start_target chs char_end prefix_end suffix_start
                (saturating_add removed_chars 1) started)"

definition split_string :: "rstr \<Rightarrow> nat \<Rightarrow> nat \<Rightarrow> (nat \<times> rstr \<times> rstr) option" where
  "split_string s beginning_bytes end_bytes =
     (if s = [] then Some (0, [], [])
      else
        let len = byte_len s
        in case split_loop beginning_bytes (len - end_bytes) s 0 0 len 0 False of
             (prefix_end, suffix_start, removed_chars) \<Rightarrow>
               let suffix_start = (if suffix_start < prefix_end then prefix_end else suffix_start)
               in case (slice_to prefix_end s, slice_from suffix_start s) of
                    (Some before, Some after) \<Rightarrow> Some (removed_chars, before, after)
                  | _ \<Rightarrow> None)"

definition split_budget :: "nat \<Rightarrow> nat \<times> nat" where
  "split_budget budget = (let left = budget div 2 in (left, budget - left))"

definition removed_units :: "bool \<Rightarrow> nat \<Rightarrow> nat \<Rightarrow> nat" where
  "removed_units use_tokens removed_bytes removed_chars =
     (if use_tokens then approx_tokens_from_byte_count removed_bytes else removed_chars)"

abbreviation ellipsis :: rchar where "ellipsis \<equiv> 8230"

definition format_truncation_marker :: "bool \<Rightarrow> nat \<Rightarrow> rstr" where
  "format_truncation_marker use_tokens removed_count =
     [ellipsis] @ show_nat removed_count @
     (if use_tokens then lit '' tokens truncated'' else lit '' chars truncated'') @ [ellipsis]"

definition assemble_truncated_output :: "rstr \<Rightarrow> rstr \<Rightarrow> rstr \<Rightarrow> rstr" where
  "assemble_truncated_output pre suf marker = pre @ marker @ suf"

definition truncate_with_byte_estimate :: "rstr \<Rightarrow> nat \<Rightarrow> bool \<Rightarrow> rstr option" where
  "truncate_with_byte_estimate s maxb use_tokens =
     (if s = [] then Some []
      else if maxb = 0 then
        Some (format_truncation_marker use_tokens (removed_units use_tokens (byte_len s) (length s)))
      else if byte_len s \<le> maxb then Some s
      else
        case split_budget maxb of
          (left_budget, right_budget) \<Rightarrow>
            map_option (\<lambda>(removed_chars, left, right).
                assemble_truncated_output left right
                  (format_truncation_marker use_tokens
                    (removed_units use_tokens (byte_len s - maxb) removed_chars)))
              (split_string s left_budget right_budget))"

definition truncate_middle_chars :: "rstr \<Rightarrow> nat \<Rightarrow> rstr option" where
  "truncate_middle_chars s maxb = truncate_with_byte_estimate s maxb False"

definition truncate_middle_with_token_budget :: "rstr \<Rightarrow> nat \<Rightarrow> (rstr \<times> nat option) option" where
  "truncate_middle_with_token_budget s max_tokens =
     (if s = [] then Some ([], None)
      else if max_tokens > 0 \<and> byte_len s \<le> approx_bytes_for_tokens max_tokens then Some (s, None)
      else map_option (\<lambda>truncated.
             if truncated = s then (truncated, None) else (truncated, Some (approx_token_count s)))
           (truncate_with_byte_estimate s (approx_bytes_for_tokens max_tokens) True))"

section \<open>Policies\<close>

datatype truncation_policy = Bytes nat | Tokens nat

fun token_budget :: "truncation_policy \<Rightarrow> nat" where
  "token_budget (Bytes bytes) = approx_tokens_from_byte_count bytes"
| "token_budget (Tokens tokens) = tokens"

fun byte_budget :: "truncation_policy \<Rightarrow> nat" where
  "byte_budget (Bytes bytes) = bytes"
| "byte_budget (Tokens tokens) = approx_bytes_for_tokens tokens"

fun truncate_text :: "rstr \<Rightarrow> truncation_policy \<Rightarrow> rstr option" where
  "truncate_text content (Bytes bytes) = truncate_middle_chars content bytes"
| "truncate_text content (Tokens tokens) = map_option fst (truncate_middle_with_token_budget content tokens)"

definition formatted_truncate_text :: "rstr \<Rightarrow> truncation_policy \<Rightarrow> rstr option" where
  "formatted_truncate_text content policy =
     (if byte_len content \<le> byte_budget policy then Some content
      else map_option (\<lambda>r. lit ''Total output lines: '' @ show_nat (length (str_lines content)) @ [newline, newline] @ r)
             (truncate_text content policy))"

text \<open>Content items of a tool output; the detail of an image is an uninterpreted label.\<close>

datatype output_content_item = OutText rstr | OutImage rstr "rstr option"

fun is_image :: "output_content_item \<Rightarrow> bool" where
  "is_image (OutImage _ _) = True"
| "is_image (OutText _) = False"

fun item_text :: "output_content_item \<Rightarrow> rstr option" where
  "item_text (OutText t) = Some t"
| "item_text (OutImage _ _) = None"

definition combine_texts :: "rstr list \<Rightarrow> rstr" where
  "combine_texts ts = foldl (\<lambda>combined t. (if combined \<noteq> [] then combined @ [newline] else combined) @ t) [] ts"

definition formatted_truncate_text_content_items_with_policy ::
    "output_content_item list \<Rightarrow> truncation_policy \<Rightarrow> (output_content_item list \<times> nat option) option" where
  "formatted_truncate_text_content_items_with_policy items policy =
     (let text_segments = List.map_filter item_text items; combined = combine_texts text_segments
      in if text_segments = [] \<or> byte_len combined \<le> byte_budget policy then Some (items, None)
         else map_option (\<lambda>t. (OutText t # filter is_image items, Some (approx_token_count combined)))
                (formatted_truncate_text combined policy))"

fun item_cost :: "truncation_policy \<Rightarrow> rstr \<Rightarrow> nat" where
  "item_cost (Bytes _) t = byte_len t"
| "item_cost (Tokens _) t = approx_token_count t"

fun snippet_policy :: "truncation_policy \<Rightarrow> nat \<Rightarrow> truncation_policy" where
  "snippet_policy (Bytes _) remaining = Bytes remaining"
| "snippet_policy (Tokens _) remaining = Tokens remaining"

fun items_loop ::
    "truncation_policy \<Rightarrow> output_content_item list \<Rightarrow> nat \<Rightarrow> nat \<Rightarrow> (output_content_item list \<times> nat) option" where
  "items_loop policy [] remaining omitted = Some ([], omitted)"
| "items_loop policy (OutImage u d # items) remaining omitted =
     map_option (\<lambda>(out, om). (OutImage u d # out, om)) (items_loop policy items remaining omitted)"
| "items_loop policy (OutText t # items) remaining omitted =
     (if remaining = 0 then items_loop policy items remaining (omitted + 1)
      else if item_cost policy t \<le> remaining then
        map_option (\<lambda>(out, om). (OutText t # out, om)) (items_loop policy items (remaining - item_cost policy t) omitted)
      else
        (case truncate_text t (snippet_policy policy remaining) of
           None \<Rightarrow> None
         | Some snippet \<Rightarrow>
             if snippet = [] then items_loop policy items 0 (omitted + 1)
             else map_option (\<lambda>(out, om). (OutText snippet # out, om)) (items_loop policy items 0 omitted)))"

definition initial_budget :: "truncation_policy \<Rightarrow> nat" where
  "initial_budget policy = (case policy of Bytes _ \<Rightarrow> byte_budget policy | Tokens _ \<Rightarrow> token_budget policy)"

definition truncate_function_output_items_with_policy ::
    "output_content_item list \<Rightarrow> truncation_policy \<Rightarrow> output_content_item list option" where
  "truncate_function_output_items_with_policy items policy =
     map_option (\<lambda>(out, omitted).
         if 0 < omitted then out @ [OutText (lit ''[omitted '' @ show_nat omitted @ lit '' text items ...]'')] else out)
       (items_loop policy items (initial_budget policy) 0)"

section \<open>What splitting does\<close>

lemma split_loop_suffix:
  assumes "beginning_bytes \<le> idx" "tail \<le> idx"
  shows "split_loop beginning_bytes tail s idx pe ss rc True = (pe, ss, rc)"
  using assms
proof (induction s arbitrary: idx)
  case (Cons c s)
  have "\<not> idx + len_utf8 c \<le> beginning_bytes" using Cons.prems len_utf8_pos [of c] by linarith
  with Cons show ?case by simp
qed simp

text \<open>
  After the prefix: characters are removed until the target, the rest is the suffix, which
  starts at the first character at or after the target.
\<close>

lemma split_loop_middle:
  assumes "beginning_bytes < idx + byte_len (take 1 s) \<or> s = []" "len = idx + byte_len s"
  shows "\<exists>m q. s = m @ q \<and>
    split_loop beginning_bytes tail s idx pe len (min usize_max n) False =
      (pe, idx + byte_len m, min usize_max (n + length m)) \<and>
    (q = [] \<or> tail \<le> idx + byte_len m) \<and> (m = [] \<or> idx + byte_len (butlast m) < tail)"
  using assms
proof (induction s arbitrary: idx n)
  case Nil
  then show ?case by simp
next
  case (Cons c s)
  let ?e = "idx + len_utf8 c"
  from Cons.prems(1) have over: "\<not> ?e \<le> beginning_bytes" by simp
  show ?case
  proof (cases "tail \<le> idx")
    case True
    then have "split_loop beginning_bytes tail s ?e pe idx (min usize_max n) True = (pe, idx, min usize_max n)"
      using over by (intro split_loop_suffix) simp_all
    with True over show ?thesis by (intro exI [of _ "[]"] exI [of _ "c # s"]) simp
  next
    case False
    have next_over: "beginning_bytes < ?e + byte_len (take 1 s) \<or> s = []" using over by auto
    have next_len: "len = ?e + byte_len s" using Cons.prems(2) by simp
    obtain m q where mq: "s = m @ q"
        "split_loop beginning_bytes tail s ?e pe len (min usize_max (n + 1)) False =
           (pe, ?e + byte_len m, min usize_max (n + 1 + length m))"
        "q = [] \<or> tail \<le> ?e + byte_len m" "m = [] \<or> ?e + byte_len (butlast m) < tail"
      using Cons.IH [OF next_over next_len, of "n + 1"] by blast
    have "saturating_add (min usize_max n) 1 = min usize_max (n + 1)" by (rule saturating_add_min)
    with mq False over show ?thesis
      by (intro exI [of _ "c # m"] exI [of _ q]) (auto simp: add.assoc)
  qed
qed

lemma split_loop_prefix:
  assumes "len = idx + byte_len s"
  shows "\<exists>p m q. s = p @ m @ q \<and>
    split_loop beginning_bytes tail s idx idx len 0 False =
      (idx + byte_len p, idx + byte_len p + byte_len m, min usize_max (length m)) \<and>
    (idx + byte_len p \<le> max idx beginning_bytes) \<and>
    (m @ q = [] \<or> beginning_bytes < idx + byte_len p + len_utf8 (hd (m @ q))) \<and>
    (q = [] \<or> tail \<le> idx + byte_len p + byte_len m) \<and> (m = [] \<or> idx + byte_len p + byte_len (butlast m) < tail)"
  using assms
proof (induction s arbitrary: idx)
  case Nil
  then show ?case by simp
next
  case (Cons c s)
  let ?e = "idx + len_utf8 c"
  show ?case
  proof (cases "?e \<le> beginning_bytes")
    case True
    have "len = ?e + byte_len s" using Cons.prems by simp
    from Cons.IH [OF this] obtain p m q where h: "s = p @ m @ q"
      "split_loop beginning_bytes tail s ?e ?e len 0 False =
         (?e + byte_len p, ?e + byte_len p + byte_len m, min usize_max (length m))"
      "?e + byte_len p \<le> max ?e beginning_bytes"
      "m @ q = [] \<or> beginning_bytes < ?e + byte_len p + len_utf8 (hd (m @ q))"
      "q = [] \<or> tail \<le> ?e + byte_len p + byte_len m" "m = [] \<or> ?e + byte_len p + byte_len (butlast m) < tail"
      by blast
    have step: "split_loop beginning_bytes tail (c # s) idx idx len 0 False =
        split_loop beginning_bytes tail s ?e ?e len 0 False" using True by (simp add: Let_def)
    show ?thesis
      unfolding step using h True by (intro exI [of _ "c # p"] exI [of _ m] exI [of _ q]) (simp add: add.assoc)
  next
    case False
    then have "beginning_bytes < idx + byte_len (take 1 (c # s)) \<or> c # s = []" by simp
    from split_loop_middle [OF this Cons.prems, of tail idx 0, unfolded min_0R add_0] obtain m q where h: "c # s = m @ q"
      "split_loop beginning_bytes tail (c # s) idx idx len 0 False = (idx, idx + byte_len m, min usize_max (length m))"
      "q = [] \<or> tail \<le> idx + byte_len m" "m = [] \<or> idx + byte_len (butlast m) < tail"
      by (elim exE conjE) (rule that)
    have "hd (m @ q) = c" using h(1) by (metis list.sel(1))
    with h False show ?thesis
      by (intro exI [of _ "[]"] exI [of _ m] exI [of _ q]) (simp del: split_loop.simps)
  qed
qed

lemma split_string_parts:
  "\<exists>p m q. s = p @ m @ q \<and> split_string s left right = Some (min usize_max (length m), p, q) \<and>
     byte_len p \<le> left \<and> byte_len q \<le> right \<and>
     (m = [] \<or> left < byte_len p + len_utf8 (hd m) \<and> right < byte_len q + len_utf8 (last m))"
proof (cases "s = []")
  case True
  then show ?thesis by (simp add: split_string_def)
next
  case False
  let ?len = "byte_len s"
  have "byte_len s = 0 + byte_len s" by simp
  from split_loop_prefix [OF this, of left "?len - right"] obtain p m q where h: "s = p @ m @ q"
    "split_loop left (?len - right) s 0 0 ?len 0 False = (byte_len p, byte_len p + byte_len m, min usize_max (length m))"
    "byte_len p \<le> left" "m @ q = [] \<or> left < byte_len p + len_utf8 (hd (m @ q))"
    "q = [] \<or> ?len - right \<le> byte_len p + byte_len m" "m = [] \<or> byte_len p + byte_len (butlast m) < ?len - right"
    by (simp only: add_0 max_0L) blast
  have "slice_to (byte_len p) s = Some p" using slice_to_append [of p "m @ q"] h(1) by simp
  moreover have "slice_from (byte_len p + byte_len m) s = Some q" using slice_from_append [of "p @ m" q] h(1) by simp
  ultimately have "split_string s left right = Some (min usize_max (length m), p, q)"
    using False h(2) by (simp add: split_string_def Let_def)
  moreover have "byte_len q \<le> right" using h(1,5) by auto
  moreover have "left < byte_len p + len_utf8 (hd m) \<and> right < byte_len q + len_utf8 (last m)" if "m \<noteq> []"
  proof -
    have "byte_len m = byte_len (butlast m) + len_utf8 (last m)"
      using that append_butlast_last_id [of m] byte_len_simps(3) [of "butlast m" "[last m]"] by simp
    with h(1,4,6) that show ?thesis by auto
  qed
  ultimately show ?thesis using h(1,3) by blast
qed

lemma truncate_total: "\<exists>t. truncate_with_byte_estimate s n tokens = Some t"
  using split_string_parts [of s "n div 2" "n - n div 2"]
  by (auto simp: truncate_with_byte_estimate_def split_budget_def Let_def)

lemma truncate_text_total: "\<exists>t. truncate_text s policy = Some t"
proof (cases policy)
  case (Bytes n)
  then show ?thesis by (simp add: truncate_middle_chars_def truncate_total)
next
  case (Tokens n)
  obtain t where "truncate_with_byte_estimate s (approx_bytes_for_tokens n) True = Some t"
    using truncate_total by blast
  with Tokens show ?thesis by (auto simp: truncate_middle_with_token_budget_def)
qed

section \<open>What truncating items does\<close>

lemma items_loop_images:
  "\<exists>out om. items_loop policy items remaining omitted = Some (out, om) \<and> filter is_image out = filter is_image items"
proof (induction policy items remaining omitted rule: items_loop.induct)
  case (3 policy t items remaining omitted)
  obtain snippet where snippet: "truncate_text t (snippet_policy policy remaining) = Some snippet"
    using truncate_text_total by blast
  show ?case
  proof (cases "remaining = 0")
    case True
    with 3(1) show ?thesis by auto
  next
    case False
    show ?thesis
    proof (cases "item_cost policy t \<le> remaining")
      case True
      with 3(2) [OF False True] False show ?thesis by auto
    next
      case over: False
      with 3(3) [OF False over snippet] 3(4) [OF False over snippet] False snippet show ?thesis by auto
    qed
  qed
qed auto

lemma truncate_items_total: "\<exists>out. truncate_function_output_items_with_policy items policy = Some out"
  using items_loop_images [of policy items "initial_budget policy" 0]
  by (auto simp: truncate_function_output_items_with_policy_def)

definition text_cost :: "truncation_policy \<Rightarrow> output_content_item list \<Rightarrow> nat" where
  "text_cost policy items = sum_list (map (item_cost policy) (List.map_filter item_text items))"

lemma item_cost_0: "item_cost policy t = 0 \<longleftrightarrow> t = []"
proof (cases policy)
  case (Tokens n)
  have "saturating_add (byte_len t) 3 div 4 = 0 \<longleftrightarrow> byte_len t = 0"
    by (cases "byte_len t") (auto simp: saturating_add_def usize_max_def min_def)
  with Tokens show ?thesis by (simp add: approx_token_count_def APPROX_BYTES_PER_TOKEN_def)
qed simp

lemma items_loop_fits:
  assumes "text_cost policy items \<le> remaining" "\<forall>t. OutText t \<in> set items \<longrightarrow> t \<noteq> []"
  shows "items_loop policy items remaining omitted = Some (items, omitted)"
  using assms
proof (induction policy items remaining omitted rule: items_loop.induct)
  case (3 policy t items remaining omitted)
  have cost: "item_cost policy t + text_cost policy items \<le> remaining"
    using "3.prems"(1) by (simp add: text_cost_def List.map_filter_def)
  moreover have "item_cost policy t \<noteq> 0" using "3.prems"(2) item_cost_0 by simp
  ultimately have "remaining \<noteq> 0" "item_cost policy t \<le> remaining" by simp_all
  moreover have "items_loop policy items (remaining - item_cost policy t) omitted = Some (items, omitted)"
    using 3(2) [OF \<open>remaining \<noteq> 0\<close> \<open>item_cost policy t \<le> remaining\<close>] cost "3.prems"(2) by simp
  ultimately show ?case by simp
qed (auto simp: text_cost_def List.map_filter_def)

section \<open>Properties\<close>

text \<open>
  C39: Truncating a text over its byte budget keeps a prefix and a suffix of it, each within
  half of the budget and each as long as whole characters allow, and puts between them a
  marker with the number of characters removed.
\<close>

theorem truncate_middle_chars_keeps_ends:
  assumes "0 < n" "n < byte_len s"
  shows "\<exists>p m q. s = p @ m @ q \<and> m \<noteq> [] \<and>
     truncate_middle_chars s n =
       Some (p @ [ellipsis] @ show_nat (min usize_max (length m)) @ lit '' chars truncated'' @ [ellipsis] @ q) \<and>
     byte_len p \<le> n div 2 \<and> byte_len q \<le> n - n div 2 \<and>
     n div 2 < byte_len p + len_utf8 (hd m) \<and> n - n div 2 < byte_len q + len_utf8 (last m)"
proof -
  obtain p m q where h: "s = p @ m @ q"
    "split_string s (n div 2) (n - n div 2) = Some (min usize_max (length m), p, q)"
    "byte_len p \<le> n div 2" "byte_len q \<le> n - n div 2"
    "m = [] \<or> n div 2 < byte_len p + len_utf8 (hd m) \<and> n - n div 2 < byte_len q + len_utf8 (last m)"
    using split_string_parts by blast
  have "m \<noteq> []" using h(1,3,4) assms(2) by auto
  moreover have "s \<noteq> []" using assms(2) by auto
  then have "truncate_middle_chars s n =
      Some (p @ [ellipsis] @ show_nat (min usize_max (length m)) @ lit '' chars truncated'' @ [ellipsis] @ q)"
    using assms h(2)
    by (simp add: truncate_middle_chars_def truncate_with_byte_estimate_def split_budget_def Let_def
        assemble_truncated_output_def format_truncation_marker_def removed_units_def)
  ultimately show ?thesis using h by blast
qed

theorem truncate_middle_chars_keeps_ends_witness:
  "\<exists>p m q. lit ''abcdef'' = p @ m @ q \<and> m \<noteq> [] \<and>
     truncate_middle_chars (lit ''abcdef'') 4 =
       Some (p @ [ellipsis] @ show_nat (min usize_max (length m)) @ lit '' chars truncated'' @ [ellipsis] @ q)"
proof -
  have "0 < (4 :: nat)" "4 < byte_len (lit ''abcdef'')" by (simp_all add: len_utf8_def)
  from truncate_middle_chars_keeps_ends [OF this] show ?thesis by blast
qed

lemma truncate_items_within_budget:
  assumes "text_cost policy items \<le> initial_budget policy" "\<forall>t. OutText t \<in> set items \<longrightarrow> t \<noteq> []"
  shows "truncate_function_output_items_with_policy items policy = Some items"
  using items_loop_fits [OF assms] by (simp add: truncate_function_output_items_with_policy_def)

lemma truncate_items_images:
  "\<exists>out. truncate_function_output_items_with_policy items policy = Some out \<and>
     filter is_image out = filter is_image items"
proof -
  obtain out om where "items_loop policy items (initial_budget policy) 0 = Some (out, om)"
      "filter is_image out = filter is_image items"
    using items_loop_images by blast
  then show ?thesis by (simp add: truncate_function_output_items_with_policy_def)
qed

text \<open>
  Truncating the items of a tool output under a policy never panics, keeps every image
  in its order, and changes nothing when the texts, none of them empty, fit in the budget.
\<close>

theorem truncate_items_keeps_images:
  "\<exists>out. truncate_function_output_items_with_policy items policy = Some out \<and>
     filter is_image out = filter is_image items \<and>
     (text_cost policy items \<le> initial_budget policy \<and> (\<forall>t. OutText t \<in> set items \<longrightarrow> t \<noteq> []) \<longrightarrow> out = items)"
  using truncate_items_images [of items policy] truncate_items_within_budget [of policy items] by auto

theorem truncate_items_keeps_images_witness:
  "truncate_function_output_items_with_policy [OutText (lit ''ab''), OutImage (lit ''u'') None] (Bytes 2) =
     Some [OutText (lit ''ab''), OutImage (lit ''u'') None]"
proof -
  let ?is = "[OutText (lit ''ab''), OutImage (lit ''u'') None]"
  have "text_cost (Bytes 2) ?is \<le> initial_budget (Bytes 2)" by code_simp
  with truncate_items_keeps_images [of ?is "Bytes 2"] show ?thesis by auto
qed

end
