(* ===== verification/Context_Normalize.thy ===== *)
theory Context_Normalize
  imports Truncate
begin

text \<open>
  Normalisation of the conversation history before it is sent to the model
  (\<open>core/src/context_manager/normalize.rs\<close>): every tool call gets an output, outputs without
  a call are dropped, images are replaced for models that do not take them, and the
  counterpart of a removed item is removed with it. The items are those of
  \<open>protocol/src/models.rs\<close>; JSON values and labels the code only carries are texts.
  \<open>error_or_panic\<close> logs in a release build, which is the build modelled.
\<close>

section \<open>Items\<close>

datatype content_item =
    InputText rstr
  | InputImage rstr "rstr option"
  | OutputText rstr

datatype output_body = BodyText rstr | ContentItems "output_content_item list"

record output_payload =
  body :: output_body
  success :: "bool option"

datatype response_item =
    Message (msg_id: "rstr option") (role: rstr) (content: "content_item list") (phase: "rstr option")
  | Reasoning rstr "rstr list" "rstr list option" (encrypted: "rstr option")
  | LocalShellCall "rstr option" (shell_call_id: "rstr option") rstr rstr
  | FunctionCall "rstr option" rstr "rstr option" rstr (function_call_id: rstr)
  | ToolSearchCall "rstr option" (search_call_id: "rstr option") "rstr option" rstr rstr
  | FunctionCallOutput rstr output_payload
  | CustomToolCall "rstr option" "rstr option" (custom_call_id: rstr) rstr rstr
  | CustomToolCallOutput rstr "rstr option" output_payload
  | ToolSearchOutput "rstr option" rstr rstr "rstr list"
  | WebSearchCall "rstr option" "rstr option" "rstr option"
  | ImageGenerationCall rstr rstr "rstr option" rstr
  | Compaction rstr
  | CompactionTrigger
  | ContextCompaction "rstr option"
  | OtherItem

definition from_text :: "rstr \<Rightarrow> output_payload" where
  "from_text t = \<lparr>body = BodyText t, success = None\<rparr>"

section \<open>Adding missing outputs\<close>

fun is_function_output :: "rstr \<Rightarrow> response_item \<Rightarrow> bool" where
  "is_function_output c (FunctionCallOutput existing _) = (existing = c)"
| "is_function_output c _ = False"

fun is_search_output :: "rstr \<Rightarrow> response_item \<Rightarrow> bool" where
  "is_search_output c (ToolSearchOutput (Some existing) _ _ _) = (existing = c)"
| "is_search_output c _ = False"

fun is_custom_output :: "rstr \<Rightarrow> response_item \<Rightarrow> bool" where
  "is_custom_output c (CustomToolCallOutput existing _ _) = (existing = c)"
| "is_custom_output c _ = False"

definition aborted_output :: "rstr \<Rightarrow> response_item" where
  "aborted_output c = FunctionCallOutput c (from_text (lit ''aborted''))"

text \<open>The output to insert after an item, if it is a call without one.\<close>

fun missing_output :: "response_item list \<Rightarrow> response_item \<Rightarrow> response_item option" where
  "missing_output items (FunctionCall _ _ _ _ c) =
     (if \<exists>i \<in> set items. is_function_output c i then None else Some (aborted_output c))"
| "missing_output items (ToolSearchCall _ (Some c) _ _ _) =
     (if \<exists>i \<in> set items. is_search_output c i then None
      else Some (ToolSearchOutput (Some c) (lit ''completed'') (lit ''client'') []))"
| "missing_output items (CustomToolCall _ _ c _ _) =
     (if \<exists>i \<in> set items. is_custom_output c i then None
      else Some (CustomToolCallOutput c None (from_text (lit ''aborted''))))"
| "missing_output items (LocalShellCall _ (Some c) _ _) =
     (if \<exists>i \<in> set items. is_function_output c i then None else Some (aborted_output c))"
| "missing_output items _ = None"

text \<open>Pairs of an index and the item to insert after it; insertion goes from the last to the first.\<close>

definition missing_outputs_to_insert :: "response_item list \<Rightarrow> (nat \<times> response_item) list" where
  "missing_outputs_to_insert items =
     List.map_filter (\<lambda>(idx, item). map_option (Pair idx) (missing_output items item)) (enumerate 0 items)"

definition ensure_call_outputs_present :: "response_item list \<Rightarrow> response_item list option" where
  "ensure_call_outputs_present items =
     foldl (\<lambda>acc (idx, out). Option.bind acc (vec_insert (idx + 1) out)) (Some items)
       (rev (missing_outputs_to_insert items))"

section \<open>Removing orphan outputs\<close>

definition function_call_ids :: "response_item list \<Rightarrow> rstr list" where
  "function_call_ids = List.map_filter (\<lambda>i. case i of FunctionCall _ _ _ _ c \<Rightarrow> Some c | _ \<Rightarrow> None)"

definition tool_search_call_ids :: "response_item list \<Rightarrow> rstr list" where
  "tool_search_call_ids = List.map_filter (\<lambda>i. case i of ToolSearchCall _ (Some c) _ _ _ \<Rightarrow> Some c | _ \<Rightarrow> None)"

definition local_shell_call_ids :: "response_item list \<Rightarrow> rstr list" where
  "local_shell_call_ids = List.map_filter (\<lambda>i. case i of LocalShellCall _ (Some c) _ _ \<Rightarrow> Some c | _ \<Rightarrow> None)"

definition custom_tool_call_ids :: "response_item list \<Rightarrow> rstr list" where
  "custom_tool_call_ids = List.map_filter (\<lambda>i. case i of CustomToolCall _ _ c _ _ \<Rightarrow> Some c | _ \<Rightarrow> None)"

fun retained :: "response_item list \<Rightarrow> response_item \<Rightarrow> bool" where
  "retained items (FunctionCallOutput c _) \<longleftrightarrow> c \<in> set (function_call_ids items) \<or> c \<in> set (local_shell_call_ids items)"
| "retained items (CustomToolCallOutput c _ _) \<longleftrightarrow> c \<in> set (custom_tool_call_ids items)"
| "retained items (ToolSearchOutput call status execution tools) \<longleftrightarrow>
     (if execution = lit ''server'' then True
      else case call of Some c \<Rightarrow> c \<in> set (tool_search_call_ids items) | None \<Rightarrow> True)"
| "retained items _ \<longleftrightarrow> True"

definition remove_orphan_outputs :: "response_item list \<Rightarrow> response_item list" where
  "remove_orphan_outputs items = filter (retained items) items"

section \<open>Removing counterparts\<close>

definition remove_first_matching :: "(response_item \<Rightarrow> bool) \<Rightarrow> response_item list \<Rightarrow> response_item list" where
  "remove_first_matching P items = (case position P items of Some pos \<Rightarrow> remove_at pos items | None \<Rightarrow> items)"

fun is_function_call :: "rstr \<Rightarrow> response_item \<Rightarrow> bool" where
  "is_function_call c (FunctionCall _ _ _ _ existing) = (existing = c)"
| "is_function_call c _ = False"

fun is_shell_call :: "rstr \<Rightarrow> response_item \<Rightarrow> bool" where
  "is_shell_call c (LocalShellCall _ (Some existing) _ _) = (existing = c)"
| "is_shell_call c _ = False"

fun is_search_call :: "rstr \<Rightarrow> response_item \<Rightarrow> bool" where
  "is_search_call c (ToolSearchCall _ (Some existing) _ _ _) = (existing = c)"
| "is_search_call c _ = False"

fun is_custom_call :: "rstr \<Rightarrow> response_item \<Rightarrow> bool" where
  "is_custom_call c (CustomToolCall _ _ existing _ _) = (existing = c)"
| "is_custom_call c _ = False"

fun remove_corresponding_for :: "response_item list \<Rightarrow> response_item \<Rightarrow> response_item list" where
  "remove_corresponding_for items (FunctionCall _ _ _ _ c) = remove_first_matching (is_function_output c) items"
| "remove_corresponding_for items (FunctionCallOutput c _) =
     (case position (is_function_call c) items of
        Some pos \<Rightarrow> remove_at pos items
      | None \<Rightarrow>
          (case position (is_shell_call c) items of
             Some pos \<Rightarrow> remove_at pos items
           | None \<Rightarrow> items))"
| "remove_corresponding_for items (ToolSearchCall _ (Some c) _ _ _) = remove_first_matching (is_search_output c) items"
| "remove_corresponding_for items (ToolSearchOutput (Some c) _ _ _) = remove_first_matching (is_search_call c) items"
| "remove_corresponding_for items (CustomToolCall _ _ c _ _) = remove_first_matching (is_custom_output c) items"
| "remove_corresponding_for items (CustomToolCallOutput c _ _) = remove_first_matching (is_custom_call c) items"
| "remove_corresponding_for items (LocalShellCall _ (Some c) _ _) = remove_first_matching (is_function_output c) items"
| "remove_corresponding_for items _ = items"

section \<open>Images\<close>

definition IMAGE_CONTENT_OMITTED_PLACEHOLDER :: rstr where
  "IMAGE_CONTENT_OMITTED_PLACEHOLDER = lit ''image content omitted because you do not support image input''"

datatype input_modality = TextModality | ImageModality

fun strip_content :: "content_item \<Rightarrow> content_item" where
  "strip_content (InputImage _ _) = InputText IMAGE_CONTENT_OMITTED_PLACEHOLDER"
| "strip_content c = c"

fun strip_output_content :: "rstr \<Rightarrow> output_content_item \<Rightarrow> output_content_item" where
  "strip_output_content placeholder (OutImage _ _) = OutText placeholder"
| "strip_output_content placeholder (OutText t) = OutText t"

fun strip_body :: "output_body \<Rightarrow> output_body" where
  "strip_body (ContentItems items) = ContentItems (map (strip_output_content IMAGE_CONTENT_OMITTED_PLACEHOLDER) items)"
| "strip_body (BodyText t) = BodyText t"

definition strip_payload :: "output_payload \<Rightarrow> output_payload" where
  "strip_payload p = p\<lparr>body := strip_body (body p)\<rparr>"

fun strip_item :: "response_item \<Rightarrow> response_item" where
  "strip_item (Message i r cs ph) = Message i r (map strip_content cs) ph"
| "strip_item (FunctionCallOutput c p) = FunctionCallOutput c (strip_payload p)"
| "strip_item (CustomToolCallOutput c n p) = CustomToolCallOutput c n (strip_payload p)"
| "strip_item (ImageGenerationCall i s rp _) = ImageGenerationCall i s rp []"
| "strip_item item = item"

definition strip_images_when_unsupported :: "input_modality list \<Rightarrow> response_item list \<Rightarrow> response_item list" where
  "strip_images_when_unsupported modalities items =
     (if ImageModality \<in> set modalities then items else map strip_item items)"

text \<open>The three passes, in the order of \<open>normalize_history\<close>.\<close>

definition normalize_items :: "input_modality list \<Rightarrow> response_item list \<Rightarrow> response_item list option" where
  "normalize_items modalities items =
     map_option (\<lambda>is. strip_images_when_unsupported modalities (remove_orphan_outputs is))
       (ensure_call_outputs_present items)"

section \<open>Insertion in one pass\<close>

definition spread :: "('a \<Rightarrow> 'a option) \<Rightarrow> 'a list \<Rightarrow> 'a list" where
  "spread f xs = concat (map (\<lambda>x. x # (case f x of Some y \<Rightarrow> [y] | None \<Rightarrow> [])) xs)"

lemma insert_all_spread:
  "foldr (\<lambda>(idx, out) acc. Option.bind acc (vec_insert (idx + 1) out))
     (List.map_filter (\<lambda>(idx, x). map_option (Pair idx) (f x)) (enumerate (length pre) ys)) (Some (pre @ ys)) =
   Some (pre @ spread f ys)"
proof (induction ys arbitrary: pre)
  case Nil
  then show ?case by (simp add: spread_def List.map_filter_def)
next
  case (Cons y ys)
  have IH: "foldr (\<lambda>(idx, out) acc. Option.bind acc (vec_insert (idx + 1) out))
      (List.map_filter (\<lambda>(idx, x). map_option (Pair idx) (f x)) (enumerate (Suc (length pre)) ys)) (Some (pre @ y # ys)) =
      Some (pre @ y # spread f ys)"
    using Cons.IH [of "pre @ [y]"] by simp
  show ?case
  proof (cases "f y")
    case None
    with IH show ?thesis by (simp add: spread_def List.map_filter_def)
  next
    case (Some z)
    have "vec_insert (length pre + 1) z (pre @ y # spread f ys) = Some (pre @ y # z # spread f ys)"
      by (simp add: vec_insert_def)
    with Some IH show ?thesis by (simp add: spread_def List.map_filter_def)
  qed
qed

lemma ensure_spread: "ensure_call_outputs_present items = Some (spread (missing_output items) items)"
  using insert_all_spread [of "missing_output items" "[]" items]
  by (simp add: ensure_call_outputs_present_def missing_outputs_to_insert_def foldl_conv_foldr split_def)

section \<open>The invariant of a normalised history\<close>

definition calls_answered :: "response_item list \<Rightarrow> bool" where
  "calls_answered items \<longleftrightarrow> (\<forall>i \<in> set items. missing_output items i = None)"

definition outputs_called :: "response_item list \<Rightarrow> bool" where
  "outputs_called items \<longleftrightarrow> (\<forall>i \<in> set items. retained items i)"

definition normal_history :: "response_item list \<Rightarrow> bool" where
  "normal_history items \<longleftrightarrow> calls_answered items \<and> outputs_called items"

lemma set_spread: "set (spread f xs) = set xs \<union> {y. \<exists>x \<in> set xs. f x = Some y}"
  by (induction xs) (auto simp: spread_def split: option.splits)

lemma spread_None: "\<forall>x \<in> set xs. f x = None \<Longrightarrow> spread f xs = xs"
  by (induction xs) (simp_all add: spread_def)

text \<open>What an item needs as its answer, if anything.\<close>

fun answer_pred :: "response_item \<Rightarrow> (response_item \<Rightarrow> bool) option" where
  "answer_pred (FunctionCall _ _ _ _ c) = Some (is_function_output c)"
| "answer_pred (ToolSearchCall _ (Some c) _ _ _) = Some (is_search_output c)"
| "answer_pred (CustomToolCall _ _ c _ _) = Some (is_custom_output c)"
| "answer_pred (LocalShellCall _ (Some c) _ _) = Some (is_function_output c)"
| "answer_pred _ = None"

lemma missing_output_None_iff:
  "missing_output items i = None \<longleftrightarrow> (case answer_pred i of None \<Rightarrow> True | Some P \<Rightarrow> \<exists>j \<in> set items. P j)"
  by (cases "(items, i)" rule: missing_output.cases) auto

lemma missing_output_answers:
  "missing_output items i = Some out \<Longrightarrow> (case answer_pred i of None \<Rightarrow> False | Some P \<Rightarrow> P out) \<and> answer_pred out = None"
  by (cases "(items, i)" rule: missing_output.cases) (auto simp: aborted_output_def split: if_splits)

lemma ensure_calls_answered: "calls_answered (spread (missing_output items) items)"
  unfolding calls_answered_def
proof
  fix i assume i: "i \<in> set (spread (missing_output items) items)"
  show "missing_output (spread (missing_output items) items) i = None"
  proof (cases "answer_pred i")
    case None
    then show ?thesis by (simp add: missing_output_None_iff)
  next
    case (Some P)
    have mem: "i \<in> set items" using i Some missing_output_answers by (fastforce simp: set_spread)
    have "\<exists>j \<in> set (spread (missing_output items) items). P j"
    proof (cases "missing_output items i")
      case None
      with Some missing_output_None_iff [of items i] show ?thesis by (auto simp: set_spread)
    next
      case (Some out)
      then have "out \<in> set (spread (missing_output items) items)" using mem by (auto simp: set_spread)
      moreover have "P out" using missing_output_answers [OF Some] \<open>answer_pred i = Some P\<close> by simp
      ultimately show ?thesis by blast
    qed
    with Some show ?thesis by (simp add: missing_output_None_iff)
  qed
qed

text \<open>Calls are always retained, so the ids of the calls survive the removal of orphans.\<close>

lemma call_ids_filter:
  "function_call_ids (filter (retained xs) items) = function_call_ids items"
  "local_shell_call_ids (filter (retained xs) items) = local_shell_call_ids items"
  "custom_tool_call_ids (filter (retained xs) items) = custom_tool_call_ids items"
  "tool_search_call_ids (filter (retained xs) items) = tool_search_call_ids items"
proof (induction items)
  case (Cons i items)
  {
    case 1
    with Cons show ?case by (cases i) (simp_all add: function_call_ids_def List.map_filter_def)
  next
    case 2
    with Cons show ?case by (cases i) (simp_all add: local_shell_call_ids_def List.map_filter_def)
  next
    case 3
    with Cons show ?case by (cases i) (simp_all add: custom_tool_call_ids_def List.map_filter_def)
  next
    case 4
    with Cons show ?case by (cases i) (simp_all add: tool_search_call_ids_def List.map_filter_def)
  }
qed (simp_all add: function_call_ids_def local_shell_call_ids_def custom_tool_call_ids_def tool_search_call_ids_def
      List.map_filter_def)

lemma retained_filter: "retained (filter (retained xs) items) i = retained items i"
  by (cases "(items, i)" rule: retained.cases) (simp_all add: call_ids_filter split: option.splits)

lemma answer_retained:
  assumes "i \<in> set items" "answer_pred i = Some P" "P j"
  shows "retained items j"
proof -
  consider n m k a c where "i = FunctionCall n m k a c" | n c k e a where "i = ToolSearchCall n (Some c) k e a"
    | n k c m a where "i = CustomToolCall n k c m a" | n c k a where "i = LocalShellCall n (Some c) k a"
    using assms(2) by (cases i rule: answer_pred.cases) auto
  then show ?thesis
  proof cases
    case 1
    then have "c \<in> set (function_call_ids items)"
      using assms(1) by (force simp: function_call_ids_def List.map_filter_def)
    with 1 assms(2,3) show ?thesis by (cases j) auto
  next
    case 2
    then have "c \<in> set (tool_search_call_ids items)"
      using assms(1) by (force simp: tool_search_call_ids_def List.map_filter_def)
    with 2 assms(2,3) show ?thesis by (cases "(c, j)" rule: is_search_output.cases) auto
  next
    case 3
    then have "c \<in> set (custom_tool_call_ids items)"
      using assms(1) by (force simp: custom_tool_call_ids_def List.map_filter_def)
    with 3 assms(2,3) show ?thesis by (cases j) auto
  next
    case 4
    then have "c \<in> set (local_shell_call_ids items)"
      using assms(1) by (force simp: local_shell_call_ids_def List.map_filter_def)
    with 4 assms(2,3) show ?thesis by (cases j) auto
  qed
qed

lemma calls_answered_answer:
  "calls_answered items \<Longrightarrow> i \<in> set items \<Longrightarrow> answer_pred i = Some P \<Longrightarrow> \<exists>j \<in> set items. P j"
  using missing_output_None_iff [of items i] by (simp add: calls_answered_def)

lemma remove_orphans_normal:
  assumes "calls_answered items"
  shows "normal_history (remove_orphan_outputs items)"
proof -
  have "missing_output (remove_orphan_outputs items) i = None" if i: "i \<in> set items" for i
  proof (cases "answer_pred i")
    case None
    then show ?thesis by (simp add: missing_output_None_iff)
  next
    case (Some P)
    then obtain j where j: "j \<in> set items" "P j" using calls_answered_answer [OF assms i] by blast
    with answer_retained [OF i Some] Some show ?thesis
      by (auto simp: missing_output_None_iff remove_orphan_outputs_def)
  qed
  then show ?thesis
    by (auto simp: normal_history_def calls_answered_def outputs_called_def retained_filter)
       (auto simp: remove_orphan_outputs_def retained_filter)
qed

lemma normal_history_fixpoint:
  assumes "normal_history items"
  shows "ensure_call_outputs_present items = Some items \<and> remove_orphan_outputs items = items"
  using assms
  by (auto simp: normal_history_def calls_answered_def outputs_called_def ensure_spread remove_orphan_outputs_def
      intro: spread_None)

section \<open>Stripping images\<close>

lemma strip_call_ids:
  "function_call_ids (map strip_item items) = function_call_ids items"
  "local_shell_call_ids (map strip_item items) = local_shell_call_ids items"
  "custom_tool_call_ids (map strip_item items) = custom_tool_call_ids items"
  "tool_search_call_ids (map strip_item items) = tool_search_call_ids items"
proof (induction items)
  case (Cons i items)
  {
    case 1
    with Cons show ?case by (cases i) (simp_all add: function_call_ids_def List.map_filter_def)
  next
    case 2
    with Cons show ?case by (cases i) (simp_all add: local_shell_call_ids_def List.map_filter_def)
  next
    case 3
    with Cons show ?case by (cases i) (simp_all add: custom_tool_call_ids_def List.map_filter_def)
  next
    case 4
    with Cons show ?case by (cases i) (simp_all add: tool_search_call_ids_def List.map_filter_def)
  }
qed (simp_all add: function_call_ids_def local_shell_call_ids_def custom_tool_call_ids_def tool_search_call_ids_def
      List.map_filter_def)

lemma strip_answer_pred: "answer_pred (strip_item i) = answer_pred i"
  by (cases i) simp_all

lemma strip_answers: "answer_pred i = Some P \<Longrightarrow> P (strip_item j) = P j"
proof -
  have "is_function_output c (strip_item j) = is_function_output c j"
    "is_search_output c (strip_item j) = is_search_output c j"
    "is_custom_output c (strip_item j) = is_custom_output c j" for c
    by (cases j; simp)+
  then show "answer_pred i = Some P \<Longrightarrow> P (strip_item j) = P j"
    by (cases i rule: answer_pred.cases) auto
qed

lemma strip_normal:
  assumes "normal_history items"
  shows "normal_history (map strip_item items)"
proof -
  have "missing_output (map strip_item items) (strip_item i) = None" if i: "i \<in> set items" for i
  proof (cases "answer_pred i")
    case None
    then show ?thesis by (simp add: missing_output_None_iff strip_answer_pred)
  next
    case (Some P)
    then obtain j where "j \<in> set items" "P j"
      using calls_answered_answer [OF _ i] assms by (auto simp: normal_history_def)
    with Some strip_answers [OF Some, of j] show ?thesis
      by (auto simp: missing_output_None_iff strip_answer_pred)
  qed
  moreover have "retained (map strip_item items) (strip_item i) = retained items i" for i
    by (cases "(items, i)" rule: retained.cases) (simp_all add: strip_call_ids split: option.splits)
  ultimately show ?thesis
    using assms by (auto simp: normal_history_def calls_answered_def outputs_called_def)
qed

fun has_image :: "response_item \<Rightarrow> bool" where
  "has_image (Message _ _ cs _) = (\<exists>c \<in> set cs. case c of InputImage _ _ \<Rightarrow> True | _ \<Rightarrow> False)"
| "has_image (FunctionCallOutput _ p) = (case body p of ContentItems os \<Rightarrow> (\<exists>c \<in> set os. is_image c) | BodyText _ \<Rightarrow> False)"
| "has_image (CustomToolCallOutput _ _ p) = (case body p of ContentItems os \<Rightarrow> (\<exists>c \<in> set os. is_image c) | BodyText _ \<Rightarrow> False)"
| "has_image (ImageGenerationCall _ _ _ result) = (result \<noteq> [])"
| "has_image _ = False"

lemma strip_content_no_image: "\<not> (case strip_content c of InputImage _ _ \<Rightarrow> True | _ \<Rightarrow> False)"
  by (cases c) simp_all

lemma strip_output_no_image: "\<not> is_image (strip_output_content p c)"
  by (cases c) simp_all

lemma strip_item_no_image: "\<not> has_image (strip_item i)"
  by (cases i) (auto simp: strip_content_no_image strip_output_no_image strip_payload_def
      split: output_body.splits elim!: strip_body.elims)

lemma strip_content_idem: "strip_content (strip_content c) = strip_content c"
  by (cases c) simp_all

lemma strip_output_idem: "strip_output_content p (strip_output_content p c) = strip_output_content p c"
  by (cases c) simp_all

lemma strip_body_idem: "strip_body (strip_body b) = strip_body b"
  by (cases b) (simp_all add: strip_output_idem)

lemma strip_item_idem: "strip_item (strip_item i) = strip_item i"
  by (cases i) (simp_all add: strip_content_idem strip_payload_def strip_body_idem)

lemma strip_images_idem:
  "strip_images_when_unsupported ms (strip_images_when_unsupported ms items) = strip_images_when_unsupported ms items"
  by (simp add: strip_images_when_unsupported_def strip_item_idem)

lemma normalize_items_normal:
  assumes "normalize_items ms items = Some out"
  shows "normal_history out"
  using assms remove_orphans_normal [OF ensure_calls_answered] strip_normal
  by (auto simp: normalize_items_def ensure_spread strip_images_when_unsupported_def)

section \<open>Properties\<close>


text \<open>
  Adding the missing outputs keeps the items and their order and puts each synthetic
  output right after its call.
\<close>

lemma ensure_outputs_in_place:
  "ensure_call_outputs_present items =
     Some (concat (map (\<lambda>i. i # (case missing_output items i of Some out \<Rightarrow> [out] | None \<Rightarrow> [])) items))"
  by (simp add: ensure_spread spread_def)

end
