(* ===== verification/Context_Fragments.thy ===== *)
theory Context_Fragments
  imports Context_Normalize
begin

text \<open>
  Messages that carry injected context (\<open>core/src/context/fragment.rs\<close>,
  \<open>contextual_user_message.rs\<close>, \<open>core/src/event_mapping.rs\<close>): fragments are recognised by a
  marker at each end, compared without regard to ASCII case. Decoding XML and JSON is a
  parameter.
\<close>

section \<open>Decoders\<close>

text \<open>
  \<open>hook_prompt_xml\<close> decodes a \<open>HookPromptXml\<close> into its text and hook run; \<open>inter_agent_json\<close>
  says whether a text decodes as an \<open>InterAgentCommunication\<close>.
\<close>

record message_decoders =
  hook_prompt_xml :: "rstr \<Rightarrow> (rstr \<times> rstr) option"
  inter_agent_json :: "rstr \<Rightarrow> bool"

section \<open>Fragments\<close>

definition slice_is :: "rstr option \<Rightarrow> rstr \<Rightarrow> bool" where
  "slice_is candidate marker \<longleftrightarrow> (case candidate of Some c \<Rightarrow> eq_ignore_ascii_case c marker | None \<Rightarrow> False)"

definition marked_fragment_matches :: "rstr \<times> rstr \<Rightarrow> rstr \<Rightarrow> bool" where
  "marked_fragment_matches = (\<lambda>(START_MARKER, END_MARKER) t.
     if START_MARKER = [] \<or> END_MARKER = [] then False
     else
       let trimmed = trim_start t;
           starts_with_marker = slice_is (slice_to (byte_len START_MARKER) trimmed) START_MARKER;
           trimmed = trim_end trimmed;
           ends_with_marker = slice_is (slice_from (byte_len trimmed - byte_len END_MARKER) trimmed) END_MARKER
       in starts_with_marker \<and> ends_with_marker)"

definition render_fragment :: "rstr \<times> rstr \<Rightarrow> rstr \<Rightarrow> rstr" where
  "render_fragment = (\<lambda>(START_MARKER, END_MARKER) fragment_body.
     if START_MARKER = [] \<and> END_MARKER = [] then fragment_body
     else START_MARKER @ fragment_body @ END_MARKER)"

definition fragment_message :: "rstr \<Rightarrow> rstr \<times> rstr \<Rightarrow> rstr \<Rightarrow> response_item" where
  "fragment_message ROLE markers fragment_body =
     Message None ROLE [InputText (render_fragment markers fragment_body)] None"

text \<open>The marked fragments of user messages, in the order they are registered.\<close>

definition user_fragment_markers :: "(rstr \<times> rstr) list" where
  "user_fragment_markers =
     [(lit ''# AGENTS.md instructions for '', lit ''</INSTRUCTIONS>''),
      (lit ''<environment_context>'', lit ''</environment_context>''),
      (lit ''<skill>'', lit ''</skill>''),
      (lit ''<user_shell_command>'', lit ''</user_shell_command>''),
      (lit ''<turn_aborted>'', lit ''</turn_aborted>''),
      (lit ''<subagent_notification>'', lit ''</subagent_notification>''),
      (lit ''<goal_context>'', lit ''</goal_context>'')]"

definition legacy_process_limit_warning :: "rstr \<Rightarrow> bool" where
  "legacy_process_limit_warning t \<longleftrightarrow>
     starts_with (trim t) (lit ''Warning: The maximum number of unified exec processes you can keep open is'')"

definition legacy_apply_patch_warning :: "rstr \<Rightarrow> bool" where
  "legacy_apply_patch_warning t \<longleftrightarrow>
     starts_with (trim t) (lit ''Warning: apply_patch was requested via '') \<and>
     ends_with (trim t) (lit ''Use the apply_patch tool instead of exec_command.'')"

definition legacy_model_mismatch_warning :: "rstr \<Rightarrow> bool" where
  "legacy_model_mismatch_warning t \<longleftrightarrow>
     starts_with (trim t) (lit ''Warning: Your account was flagged for potentially high-risk cyber activity'')"

definition is_standard_contextual_user_text :: "rstr \<Rightarrow> bool" where
  "is_standard_contextual_user_text t \<longleftrightarrow>
     (\<exists>m \<in> set user_fragment_markers. marked_fragment_matches m t) \<or>
     legacy_process_limit_warning t \<or> legacy_apply_patch_warning t \<or> legacy_model_mismatch_warning t"

definition parse_hook_prompt_fragment :: "message_decoders \<Rightarrow> rstr \<Rightarrow> (rstr \<times> rstr) option" where
  "parse_hook_prompt_fragment D t =
     (case hook_prompt_xml D (trim t) of
        None \<Rightarrow> None
      | Some (inner, hook_run_id) \<Rightarrow> if trim hook_run_id = [] then None else Some (inner, hook_run_id))"

fun is_contextual_user_fragment :: "message_decoders \<Rightarrow> content_item \<Rightarrow> bool" where
  "is_contextual_user_fragment D (InputText t) \<longleftrightarrow>
     parse_hook_prompt_fragment D t \<noteq> None \<or> is_standard_contextual_user_text t"
| "is_contextual_user_fragment D _ \<longleftrightarrow> False"

section \<open>Message contents\<close>

definition CONTEXTUAL_DEVELOPER_PREFIXES :: "rstr list" where
  "CONTEXTUAL_DEVELOPER_PREFIXES =
     [lit ''<permissions instructions>'', lit ''<model_switch>'', lit ''<collaboration_mode>'',
      lit ''<realtime_conversation>'', lit ''<personality_spec>'']"

definition is_contextual_user_message_content :: "message_decoders \<Rightarrow> content_item list \<Rightarrow> bool" where
  "is_contextual_user_message_content D message \<longleftrightarrow> (\<exists>i \<in> set message. is_contextual_user_fragment D i)"

fun is_contextual_dev_fragment :: "content_item \<Rightarrow> bool" where
  "is_contextual_dev_fragment (InputText t) \<longleftrightarrow>
     (\<exists>p \<in> set CONTEXTUAL_DEVELOPER_PREFIXES. slice_is (slice_to (byte_len p) (trim_start t)) p)"
| "is_contextual_dev_fragment _ \<longleftrightarrow> False"

definition is_contextual_dev_message_content :: "content_item list \<Rightarrow> bool" where
  "is_contextual_dev_message_content message \<longleftrightarrow> (\<exists>i \<in> set message. is_contextual_dev_fragment i)"

definition has_non_contextual_dev_message_content :: "content_item list \<Rightarrow> bool" where
  "has_non_contextual_dev_message_content message \<longleftrightarrow> (\<exists>i \<in> set message. \<not> is_contextual_dev_fragment i)"

text \<open>\<open>InterAgentCommunication::is_message_content\<close>.\<close>

definition is_inter_agent_instruction_content :: "message_decoders \<Rightarrow> content_item list \<Rightarrow> bool" where
  "is_inter_agent_instruction_content D message \<longleftrightarrow>
     (case message of
        [InputText t] \<Rightarrow> inter_agent_json D t
      | [OutputText t] \<Rightarrow> inter_agent_json D t
      | _ \<Rightarrow> False)"

section \<open>Rendered fragments are recognised\<close>

lemma trim_start_Cons: "\<not> is_whitespace c \<Longrightarrow> trim_start (c # s) = c # s"
  by (simp add: trim_start_def)

lemma marked_fragment_render:
  assumes "a \<noteq> []" "b \<noteq> []" "\<not> is_whitespace (hd a)" "\<not> is_whitespace (last b)"
  shows "marked_fragment_matches (a, b) (render_fragment (a, b) inner)"
proof -
  have r: "render_fragment (a, b) inner = a @ inner @ b" using assms by (simp add: render_fragment_def)
  obtain c a' where a: "a = c # a'" using assms(1) by (cases a) auto
  obtain b' d where b: "b = b' @ [d]" using assms(2) by (cases b rule: rev_cases) auto
  have s: "trim_start (a @ inner @ b) = a @ inner @ b" using assms(3) a by (simp add: trim_start_Cons)
  have e: "trim_end (a @ inner @ b) = a @ inner @ b"
    using assms(4) b trim_end_snoc [of "a @ inner @ b'" d] by simp
  have "slice_to (byte_len a) (a @ inner @ b) = Some a" by (rule slice_to_append)
  moreover have "slice_from (byte_len (a @ inner)) ((a @ inner) @ b) = Some b" by (rule slice_from_append)
  ultimately show ?thesis
    using assms(1,2) by (simp add: marked_fragment_matches_def r s e slice_is_def eq_ignore_ascii_case_def Let_def)
qed


lemma rendered_user_fragment:
  assumes "m \<in> set user_fragment_markers"
  shows "is_contextual_user_message_content D [InputText (render_fragment m inner)]"
proof -
  have "marked_fragment_matches m (render_fragment m inner)"
    using assms marked_fragment_render [of "fst m" "snd m" inner]
    by (auto simp: user_fragment_markers_def is_whitespace_def)
  with assms show ?thesis
    by (auto simp: is_contextual_user_message_content_def is_standard_contextual_user_text_def)
qed

end
