(* ===== verification/Context_History.thy ===== *)
theory Context_History
  imports Context_Fragments
begin

text \<open>
  The transcript of a thread (\<open>ContextManager\<close> in \<open>core/src/context_manager/history.rs\<close>):
  recording items, preparing the prompt, dropping items and turns. The decoders of messages and
  the scaling of a truncation policy by a floating point factor are parameters; token bookkeeping and the reference snapshot are carried as opaque values.
\<close>

section \<open>State\<close>

record ('t, 'r) context_manager =
  items :: "response_item list"
  history_version :: nat
  token_info :: "'t option"
  reference_context_item :: "'r option"

definition u64_max :: nat where
  "u64_max = 2 ^ 64 - 1"

definition bump_version :: "('t, 'r) context_manager \<Rightarrow> ('t, 'r) context_manager" where
  "bump_version c = c\<lparr>history_version := min u64_max (history_version c + 1)\<rparr>"

definition context_new :: "('t, 'r) context_manager" where
  "context_new = \<lparr>items = [], history_version = 0, token_info = None, reference_context_item = None\<rparr>"

definition set_reference_context_item :: "'r option \<Rightarrow> ('t, 'r) context_manager \<Rightarrow> ('t, 'r) context_manager" where
  "set_reference_context_item r c = c\<lparr>reference_context_item := r\<rparr>"

definition set_token_info :: "'t option \<Rightarrow> ('t, 'r) context_manager \<Rightarrow> ('t, 'r) context_manager" where
  "set_token_info t c = c\<lparr>token_info := t\<rparr>"

section \<open>Recording\<close>

fun is_api_message :: "response_item \<Rightarrow> bool" where
  "is_api_message (Message _ r _ _) \<longleftrightarrow> r \<noteq> lit ''system''"
| "is_api_message CompactionTrigger \<longleftrightarrow> False"
| "is_api_message OtherItem \<longleftrightarrow> False"
| "is_api_message _ \<longleftrightarrow> True"

text \<open>Truncation of an output; \<open>None\<close> would be a panic of the slicing.\<close>

definition truncate_function_output_payload :: "output_payload \<Rightarrow> truncation_policy \<Rightarrow> output_payload option" where
  "truncate_function_output_payload p policy =
     map_option (\<lambda>b. \<lparr>body = b, success = success p\<rparr>)
       (case body p of
          BodyText t \<Rightarrow> map_option BodyText (truncate_text t policy)
        | ContentItems cs \<Rightarrow> map_option ContentItems (truncate_function_output_items_with_policy cs policy))"

fun process_item ::
    "(truncation_policy \<Rightarrow> truncation_policy) \<Rightarrow> response_item \<Rightarrow> truncation_policy \<Rightarrow> response_item option" where
  "process_item scale (FunctionCallOutput c p) policy =
     map_option (FunctionCallOutput c) (truncate_function_output_payload p (scale policy))"
| "process_item scale (CustomToolCallOutput c n p) policy =
     map_option (CustomToolCallOutput c n) (truncate_function_output_payload p (scale policy))"
| "process_item scale item policy = Some item"

fun record_items ::
    "(truncation_policy \<Rightarrow> truncation_policy) \<Rightarrow> response_item list \<Rightarrow> truncation_policy
       \<Rightarrow> ('t, 'r) context_manager \<Rightarrow> ('t, 'r) context_manager option" where
  "record_items scale [] policy c = Some c"
| "record_items scale (item # rest) policy c =
     (if \<not> is_api_message item then record_items scale rest policy c
      else Option.bind (process_item scale item policy) (\<lambda>processed.
             record_items scale rest policy (c\<lparr>items := items c @ [processed]\<rparr>)))"

section \<open>Preparing the prompt\<close>

definition normalize_history ::
    "input_modality list \<Rightarrow> ('t, 'r) context_manager \<Rightarrow> ('t, 'r) context_manager option" where
  "normalize_history modalities c = map_option (\<lambda>is. c\<lparr>items := is\<rparr>) (normalize_items modalities (items c))"

definition for_prompt :: "input_modality list \<Rightarrow> ('t, 'r) context_manager \<Rightarrow> response_item list option" where
  "for_prompt modalities c = map_option items (normalize_history modalities c)"

section \<open>Dropping items\<close>

definition remove_first_item :: "('t, 'r) context_manager \<Rightarrow> ('t, 'r) context_manager" where
  "remove_first_item c =
     (case items c of
        [] \<Rightarrow> c
      | removed # rest \<Rightarrow> c\<lparr>items := remove_corresponding_for rest removed\<rparr>)"

definition remove_last_item :: "('t, 'r) context_manager \<Rightarrow> ('t, 'r) context_manager \<times> bool" where
  "remove_last_item c =
     (if items c = [] then (c, False)
      else (bump_version (c\<lparr>items := remove_corresponding_for (butlast (items c)) (last (items c))\<rparr>), True))"

definition replace_items :: "response_item list \<Rightarrow> ('t, 'r) context_manager \<Rightarrow> ('t, 'r) context_manager" where
  "replace_items is c = bump_version (c\<lparr>items := is\<rparr>)"

section \<open>Turns\<close>

fun is_user_turn_boundary :: "message_decoders \<Rightarrow> response_item \<Rightarrow> bool" where
  "is_user_turn_boundary P (Message _ r cs _) \<longleftrightarrow>
     r = lit ''user'' \<and> \<not> is_contextual_user_message_content P cs \<or> r = lit ''assistant'' \<and> is_inter_agent_instruction_content P cs"
| "is_user_turn_boundary P _ \<longleftrightarrow> False"

fun is_function_output_item :: "response_item \<Rightarrow> bool" where
  "is_function_output_item (FunctionCallOutput _ _) = True"
| "is_function_output_item _ = False"

text \<open>\<open>Iterator::rposition\<close>.\<close>

definition rposition :: "('a \<Rightarrow> bool) \<Rightarrow> 'a list \<Rightarrow> nat option" where
  "rposition P xs = map_option (\<lambda>i. length xs - 1 - i) (position P (rev xs))"

definition replace_last_turn_images ::
    "message_decoders \<Rightarrow> rstr \<Rightarrow> ('t, 'r) context_manager \<Rightarrow> ('t, 'r) context_manager \<times> bool" where
  "replace_last_turn_images P placeholder c =
     (case rposition (\<lambda>i. is_function_output_item i \<or> is_user_turn_boundary P i) (items c) of
        None \<Rightarrow> (c, False)
      | Some index \<Rightarrow>
          (case items c ! index of
             FunctionCallOutput call p \<Rightarrow>
               (case body p of
                  BodyText _ \<Rightarrow> (c, False)
                | ContentItems cs \<Rightarrow>
                    (let replaced = (\<exists>i \<in> set cs. is_image i);
                         p' = p\<lparr>body := ContentItems (map (strip_output_content placeholder) cs)\<rparr>;
                         c' = c\<lparr>items := (items c)[index := FunctionCallOutput call p']\<rparr>
                     in (if replaced then bump_version c' else c', replaced)))
           | _ \<Rightarrow> (c, False)))"

definition user_message_positions :: "message_decoders \<Rightarrow> response_item list \<Rightarrow> nat list" where
  "user_message_positions P is = filter (\<lambda>i. is_user_turn_boundary P (is ! i)) [0..<length is]"

fun trim_pre_turn_context_updates ::
    "message_decoders \<Rightarrow> response_item list \<Rightarrow> nat \<Rightarrow> nat \<Rightarrow> 'r option \<Rightarrow> nat \<times> 'r option" where
  "trim_pre_turn_context_updates P snapshot first 0 ref = (0, ref)"
| "trim_pre_turn_context_updates P snapshot first (Suc k) ref =
     (if Suc k \<le> first then (Suc k, ref)
      else case snapshot ! k of
             Message _ r cs _ \<Rightarrow>
               if r = lit ''developer'' \<and> is_contextual_dev_message_content cs then
                 trim_pre_turn_context_updates P snapshot first k (if has_non_contextual_dev_message_content cs then None else ref)
               else if r = lit ''user'' \<and> is_contextual_user_message_content P cs then
                 trim_pre_turn_context_updates P snapshot first k ref
               else (Suc k, ref)
           | _ \<Rightarrow> (Suc k, ref))"

definition drop_last_n_user_turns ::
    "message_decoders \<Rightarrow> nat \<Rightarrow> ('t, 'r) context_manager \<Rightarrow> ('t, 'r) context_manager" where
  "drop_last_n_user_turns P num_turns c =
     (if num_turns = 0 then c
      else
        let snapshot = items c; user_positions = user_message_positions P snapshot
        in case user_positions of
             [] \<Rightarrow> replace_items snapshot c
           | first_instruction_turn_idx # _ \<Rightarrow>
               let cut_idx = (if length user_positions \<le> num_turns then first_instruction_turn_idx
                              else user_positions ! (length user_positions - num_turns));
                   (cut_at, ref) = trim_pre_turn_context_updates P snapshot first_instruction_turn_idx cut_idx
                                     (reference_context_item c)
               in replace_items (take cut_at snapshot) (c\<lparr>reference_context_item := ref\<rparr>))"

section \<open>Positions of turns\<close>

definition turn_count :: "message_decoders \<Rightarrow> response_item list \<Rightarrow> nat" where
  "turn_count P is = length (filter (is_user_turn_boundary P) is)"

lemma positions_snoc:
  "user_message_positions P (is @ [i]) =
     user_message_positions P is @ (if is_user_turn_boundary P i then [length is] else [])"
proof -
  have "filter (\<lambda>k. is_user_turn_boundary P ((is @ [i]) ! k)) [0..<length is] =
      filter (\<lambda>k. is_user_turn_boundary P (is ! k)) [0..<length is]"
    by (rule filter_cong) (auto simp: nth_append)
  then show ?thesis by (simp add: user_message_positions_def)
qed

lemma length_positions: "length (user_message_positions P is) = turn_count P is"
  by (induction "is" rule: rev_induct) (simp_all add: positions_snoc turn_count_def, simp add: user_message_positions_def)

lemma positions_bound: "k \<in> set (user_message_positions P is) \<Longrightarrow> k < length is"
  by (simp add: user_message_positions_def)

text \<open>The turns before the position of a turn are those listed before it.\<close>

lemma turns_before_position:
  "k < turn_count P is \<Longrightarrow> turn_count P (take (user_message_positions P is ! k) is) = k"
proof (induction "is" rule: rev_induct)
  case (snoc i "is")
  let ?ps = "user_message_positions P is"
  show ?case
  proof (cases "k < turn_count P is")
    case True
    then have k: "k < length ?ps" by (simp add: length_positions)
    then have "?ps ! k < length is" using positions_bound [of "?ps ! k" P "is"] by simp
    with snoc.IH [OF True] k show ?thesis by (simp add: positions_snoc nth_append)
  next
    case False
    with snoc.prems have "k = length ?ps" "is_user_turn_boundary P i"
      by (auto simp: turn_count_def length_positions split: if_splits)
    moreover from this have "user_message_positions P (is @ [i]) ! k = length is" by (simp add: positions_snoc)
    ultimately show ?thesis by (simp add: length_positions)
  qed
qed (simp add: turn_count_def)

lemma turn_count_take_Suc:
  "k < length is \<Longrightarrow>
     turn_count P (take (Suc k) is) = turn_count P (take k is) + (if is_user_turn_boundary P (is ! k) then 1 else 0)"
  by (simp add: turn_count_def take_Suc_conv_app_nth)

text \<open>The walk back over context updates removes no turn and stops at the first turn.\<close>

lemma trim_keeps_turns:
  assumes "trim_pre_turn_context_updates P snapshot first k ref = (k', ref')" "k \<le> length snapshot" "first \<le> k"
  shows "first \<le> k' \<and> k' \<le> k \<and> turn_count P (take k' snapshot) = turn_count P (take k snapshot)"
  using assms
proof (induction P snapshot first k ref rule: trim_pre_turn_context_updates.induct)
  case (2 P snapshot first k ref)
  show ?case
  proof (cases "\<exists>i r cs ph. snapshot ! k = Message i r cs ph \<and> first < Suc k \<and>
      (r = lit ''developer'' \<and> is_contextual_dev_message_content cs \<or> r = lit ''user'' \<and> is_contextual_user_message_content P cs)")
    case True
    then obtain i r cs ph where m: "snapshot ! k = Message i r cs ph" "first < Suc k"
      "r = lit ''developer'' \<and> is_contextual_dev_message_content cs \<or> r = lit ''user'' \<and> is_contextual_user_message_content P cs" by blast
    then have "\<not> is_user_turn_boundary P (snapshot ! k)" by auto
    then have "turn_count P (take (Suc k) snapshot) = turn_count P (take k snapshot)"
      using "2.prems"(2) turn_count_take_Suc [of k snapshot P] by simp
    with 2 m show ?thesis by (auto split: if_splits)
  next
    case False
    then have "trim_pre_turn_context_updates P snapshot first (Suc k) ref = (Suc k, ref)"
      by (cases "snapshot ! k") auto
    with 2 show ?thesis by simp
  qed
qed simp

section \<open>Recording never panics\<close>

lemma process_item_total: "\<exists>j. process_item scale i policy = Some j"
proof -
  have "truncate_function_output_payload p pol \<noteq> None" for p pol
    using truncate_text_total [of _ pol] truncate_items_total [of _ pol]
    by (cases "body p") (force simp: truncate_function_output_payload_def)+
  then have "process_item scale i policy \<noteq> None" by (cases i) simp_all
  then show ?thesis by auto
qed

section \<open>Properties\<close>

text \<open>
  Rolling back turns keeps a prefix of the history with exactly that many turns fewer,
  none if there are not that many, and never drops an item recorded before the first turn.
\<close>

lemma drop_last_turns_prefix:
  assumes "0 < n" "0 < turn_count P (items c)"
  shows "\<exists>k. items (drop_last_n_user_turns P n c) = take k (items c) \<and>
     turn_count P (take k (items c)) = turn_count P (items c) - n \<and> hd (user_message_positions P (items c)) \<le> k"
proof -
  let ?is = "items c" and ?ps = "user_message_positions P (items c)"
  have len: "length ?ps = turn_count P ?is" by (rule length_positions)
  then obtain f fs where ps: "?ps = f # fs" using assms(2) by (cases ?ps) auto
  define j where "j = length ?ps - n"
  have j: "j < length ?ps" using assms by (simp add: j_def len)
  define k where "k = ?ps ! j"
  have cut: "(if length ?ps \<le> n then f else ?ps ! (length ?ps - n)) = k"
    using ps by (auto simp: k_def j_def)
  have "k < length ?is" using j positions_bound [of k P ?is] by (simp add: k_def)
  have "f \<le> k"
  proof -
    have "sorted_wrt (<) ?ps" unfolding user_message_positions_def by (rule sorted_wrt_filter) simp
    then have "sorted_wrt (<) (f # fs)" by (simp only: ps)
    then show ?thesis using j unfolding k_def ps by (cases j) (auto simp: less_imp_le)
  qed
  obtain k' ref' where t: "trim_pre_turn_context_updates P ?is f k (reference_context_item c) = (k', ref')" by force
  from trim_keeps_turns [OF t] \<open>k < length ?is\<close> \<open>f \<le> k\<close>
  have k': "f \<le> k'" "turn_count P (take k' ?is) = turn_count P (take k ?is)" by simp_all
  have "turn_count P (take k ?is) = j" using turns_before_position j by (simp add: k_def len)
  moreover have "items (drop_last_n_user_turns P n c) = take k' ?is"
    using assms(1) t cut ps
    by (simp add: drop_last_n_user_turns_def Let_def replace_items_def bump_version_def)
  ultimately show ?thesis using k' ps len by (intro exI [of _ k']) (simp add: j_def)
qed

definition no_context :: message_decoders where
  "no_context = \<lparr>hook_prompt_xml = (\<lambda>_. None), inter_agent_json = (\<lambda>_. False)\<rparr>"

definition two_turns :: "(unit, unit) context_manager" where
  "two_turns = \<lparr>items = [Message None (lit ''developer'') [] None, Message None (lit ''user'') [] None,
     Message None (lit ''assistant'') [] None, Message None (lit ''user'') [] None],
     history_version = 0, token_info = None, reference_context_item = None\<rparr>"

text \<open>
  Without turns a rollback keeps the items but is not without effect: it counts as a
  rewrite of the history.
\<close>

theorem drop_without_turns_bumps_version:
  assumes "0 < n" "turn_count P (items c) = 0" "history_version c < u64_max"
  shows "items (drop_last_n_user_turns P n c) = items c \<and>
         history_version (drop_last_n_user_turns P n c) = history_version c + 1"
proof -
  have "user_message_positions P (items c) = []" using assms(2) length_positions by (metis length_0_conv)
  with assms show ?thesis
    by (simp add: drop_last_n_user_turns_def replace_items_def bump_version_def Let_def)
qed

theorem drop_without_turns_bumps_version_witness:
  "history_version (drop_last_n_user_turns no_context 1 (context_new :: (unit, unit) context_manager)) = 1"
  using drop_without_turns_bumps_version [of 1 no_context "context_new :: (unit, unit) context_manager"]
  by (simp add: turn_count_def context_new_def u64_max_def)


text \<open>A rendered context fragment never starts a turn, whatever its text.\<close>

lemma fragment_message_no_turn:
  "m \<in> set user_fragment_markers \<Longrightarrow> \<not> is_user_turn_boundary P (fragment_message (lit ''user'') m inner)"
  using rendered_user_fragment by (simp add: fragment_message_def)

end
