(* ===== verification/Stream_Text.thy ===== *)
theory Stream_Text
  imports Rust_Str
begin

text \<open>
  The interface of the incremental parsers for model output (\<open>utils/stream-parser/src/stream_text.rs\<close>)
  and the wrapper that feeds them bytes (\<open>utf8_stream.rs\<close>), with the UTF-8 validation of
  \<open>core::str\<close> it uses. The locale \<open>stream_text_parser\<close> is the contract of a parser: its output follows a meaning of the text that
  is left to come, so it does not depend on how the text is cut.
\<close>

section \<open>Chunks\<close>

record 'x stream_text_chunk =
  visible_text :: rstr
  extracted :: "'x list"

definition chunk_default :: "'x stream_text_chunk" where
  "chunk_default = \<lparr>visible_text = [], extracted = []\<rparr>"

definition chunk_is_empty :: "'x stream_text_chunk \<Rightarrow> bool" where
  "chunk_is_empty c \<longleftrightarrow> visible_text c = [] \<and> extracted c = []"

text \<open>\<open>visible_text.push_str\<close> with \<open>extracted.append\<close>, as every consumer accumulates chunks.\<close>

definition chunk_append :: "'x stream_text_chunk \<Rightarrow> 'x stream_text_chunk \<Rightarrow> 'x stream_text_chunk" where
  "chunk_append a b = \<lparr>visible_text = visible_text a @ visible_text b, extracted = extracted a @ extracted b\<rparr>"

lemma chunk_append_simps [simp]:
  "visible_text (chunk_append a b) = visible_text a @ visible_text b"
  "extracted (chunk_append a b) = extracted a @ extracted b"
  "chunk_append chunk_default a = a" "chunk_append a chunk_default = a"
  by (simp_all add: chunk_append_def chunk_default_def)

lemma chunk_append_assoc: "chunk_append (chunk_append a b) c = chunk_append a (chunk_append b c)"
  by (simp add: chunk_append_def)

text \<open>A parser driven over a sequence of chunks, and to its end. A push that would not return is \<open>None\<close>.\<close>

type_synonym ('s, 'x) stream_push = "'s \<Rightarrow> rstr \<Rightarrow> ('s \<times> 'x stream_text_chunk) option"

fun push_all :: "('s, 'x) stream_push \<Rightarrow> 's \<Rightarrow> rstr list \<Rightarrow> ('s \<times> 'x stream_text_chunk) option" where
  "push_all push s [] = Some (s, chunk_default)"
| "push_all push s (c # cs) =
     Option.bind (push s c) (\<lambda>(s', out). map_option (\<lambda>(s'', out'). (s'', chunk_append out out')) (push_all push s' cs))"

definition drive :: "('s, 'x) stream_push \<Rightarrow> ('s \<Rightarrow> 's \<times> 'x stream_text_chunk) \<Rightarrow> 's \<Rightarrow> rstr list \<Rightarrow> 'x stream_text_chunk option" where
  "drive push fin s cs = map_option (\<lambda>(s', out). chunk_append out (snd (fin s'))) (push_all push s cs)"

section \<open>The contract of a parser\<close>

text \<open>
  What matters of a chunk: its visible text and the events of its extracted items. Parsers may cut the same
  content into several items; \<open>view\<close> takes an item to the events it stands for.
\<close>

definition seen :: "('x \<Rightarrow> 'e list) \<Rightarrow> 'x stream_text_chunk \<Rightarrow> rstr \<times> 'e list" where
  "seen view c = (visible_text c, concat (map view (extracted c)))"

definition seen_append :: "rstr \<times> 'e list \<Rightarrow> rstr \<times> 'e list \<Rightarrow> rstr \<times> 'e list" where
  "seen_append = (\<lambda>(v, e) (v', e'). (v @ v', e @ e'))"

lemma seen_append_assoc: "seen_append (seen_append a b) c = seen_append a (seen_append b c)"
  by (cases a; cases b; cases c) (simp add: seen_append_def)

lemma seen_append_Nil [simp]: "seen_append ([], []) a = a" "seen_append a ([], []) = a"
  by (cases a; simp add: seen_append_def)+

lemma seen_chunk_append [simp]: "seen view (chunk_append a b) = seen_append (seen view a) (seen view b)"
  by (simp add: seen_def seen_append_def)

lemma seen_chunk_default [simp]: "seen view chunk_default = ([], [])"
  by (simp add: seen_def chunk_default_def)

locale stream_text_parser =
  fixes push :: "('s, 'x) stream_push"
    and fin :: "'s \<Rightarrow> 's \<times> 'x stream_text_chunk"
    and ok :: "'s \<Rightarrow> bool"
    and view :: "'x \<Rightarrow> 'e list"
    and meaning :: "'s \<Rightarrow> rstr \<Rightarrow> rstr \<times> 'e list"
  assumes push_meaning: "ok s \<Longrightarrow> \<exists>s' out. push s c = Some (s', out) \<and> ok s' \<and> (\<forall>r. meaning s (c @ r) = seen_append (seen view out) (meaning s' r))"
    and fin_meaning: "ok s \<Longrightarrow> ok (fst (fin s)) \<and> seen view (snd (fin s)) = meaning s []"
begin

lemma push_all_meaning:
  "ok s \<Longrightarrow> \<exists>s' out. push_all push s cs = Some (s', out) \<and> ok s' \<and> (\<forall>r. meaning s (concat cs @ r) = seen_append (seen view out) (meaning s' r))"
proof (induction cs arbitrary: s)
  case (Cons c cs)
  obtain s1 o1 where p: "push s c = Some (s1, o1)" "ok s1" "\<And>r. meaning s (c @ r) = seen_append (seen view o1) (meaning s1 r)"
    using push_meaning [OF Cons.prems] by metis
  from Cons.IH [OF p(2)] p(1,3) show ?case by (auto simp: seen_append_assoc)
qed simp

lemma drive_meaning: "ok s \<Longrightarrow> \<exists>out. drive push fin s cs = Some out \<and> seen view out = meaning s (concat cs)"
proof -
  assume "ok s"
  then obtain s' out where p: "push_all push s cs = Some (s', out)" "ok s'" "\<And>r. meaning s (concat cs @ r) = seen_append (seen view out) (meaning s' r)"
    using push_all_meaning by metis
  from p(3) [of "[]"] p(1,2) fin_meaning [of s'] show ?thesis by (simp add: drive_def)
qed

lemma drive_chunking:
  "ok s \<Longrightarrow> concat cs = concat ds \<Longrightarrow>
   \<exists>out out'. drive push fin s cs = Some out \<and> drive push fin s ds = Some out' \<and> seen view out = seen view out'"
  by (metis drive_meaning)

end

end
