(* ===== verification/Hidden_Tags.thy ===== *)
theory Hidden_Tags
  imports Stream_Text "HOL-Library.Monad_Syntax"
begin

text \<open>
  The streaming parser for inline tags that are hidden from the user
  (\<open>utils/stream-parser/src/inline_hidden_tag.rs\<close>) and its instance for memory citations
  (\<open>citation.rs\<close>). The parser searches its pending text for the next delimiter and keeps
  back what may be the beginning of one; the reference is a scanner that looks at the text one
  character at a time. Positions count characters: all matches are of whole characters,
  so that the cuts are those of the byte offsets in the source.
\<close>

section \<open>Searching\<close>

text \<open>\<open>longest_suffix_prefix_len\<close>: the loop over \<open>k\<close> from \<open>max\<close> down to one.\<close>

fun suffix_prefix_from :: "nat \<Rightarrow> 'a list \<Rightarrow> 'a list \<Rightarrow> nat" where
  "suffix_prefix_from 0 s needle = 0"
| "suffix_prefix_from (Suc k) s needle = (if ends_with s (take (Suc k) needle) then Suc k else suffix_prefix_from k s needle)"

definition longest_suffix_prefix_len :: "'a list \<Rightarrow> 'a list \<Rightarrow> nat" where
  "longest_suffix_prefix_len s needle = suffix_prefix_from (min (length s) (length needle - 1)) s needle"

section \<open>The parser\<close>

record 't inline_tag_spec =
  spec_tag :: 't
  spec_open :: rstr
  spec_close :: rstr

record 't extracted_inline_tag =
  ext_tag :: 't
  ext_content :: rstr

record 't active_tag =
  active_tag :: 't
  active_close :: rstr
  active_content :: rstr

record 't inline_hidden_tag_parser =
  tag_specs :: "'t inline_tag_spec list"
  pending :: rstr
  active :: "'t active_tag option"

text \<open>\<open>new\<close> asserts that there is a tag and that no delimiter is empty; \<open>None\<close> is the panic.\<close>

definition hidden_tags_new :: "'t inline_tag_spec list \<Rightarrow> 't inline_hidden_tag_parser option" where
  "hidden_tags_new specs =
     (if specs \<noteq> [] \<and> (\<forall>sp \<in> set specs. spec_open sp \<noteq> [] \<and> spec_close sp \<noteq> [])
      then Some \<lparr>tag_specs = specs, pending = [], active = None\<rparr> else None)"

text \<open>The order of candidates: the earlier position, then the longer delimiter, then the earlier specification.\<close>

definition candidate_before :: "nat \<times> nat \<times> nat \<Rightarrow> nat \<times> nat \<times> nat \<Rightarrow> bool" where
  "candidate_before = (\<lambda>(pos_a, len_a, idx_a) (pos_b, len_b, idx_b).
     pos_a < pos_b \<or> pos_a = pos_b \<and> (len_b < len_a \<or> len_a = len_b \<and> idx_a < idx_b))"

definition min_candidate :: "(nat \<times> nat \<times> nat) list \<Rightarrow> (nat \<times> nat \<times> nat) option" where
  "min_candidate cs = (case cs of [] \<Rightarrow> None | c # cs \<Rightarrow> Some (foldl (\<lambda>m y. if candidate_before y m then y else m) c cs))"

definition find_next_open :: "'t inline_tag_spec list \<Rightarrow> rstr \<Rightarrow> (nat \<times> nat) option" where
  "find_next_open specs text' =
     map_option (\<lambda>(pos, _, idx). (pos, idx))
       (min_candidate (List.map_filter
          (\<lambda>(idx, sp). map_option (\<lambda>pos. (pos, byte_len (spec_open sp), idx)) (str_find text' (spec_open sp)))
          (List.enumerate 0 specs)))"

definition max_open_prefix_suffix_len :: "'t inline_tag_spec list \<Rightarrow> rstr \<Rightarrow> nat" where
  "max_open_prefix_suffix_len specs text' = fold max (map (\<lambda>sp. longest_suffix_prefix_len text' (spec_open sp)) specs) 0"

definition add_visible :: "rstr \<Rightarrow> 'x stream_text_chunk \<Rightarrow> 'x stream_text_chunk" where
  "add_visible v out = out\<lparr>visible_text := visible_text out @ v\<rparr>"

definition add_extracted :: "'x \<Rightarrow> 'x stream_text_chunk \<Rightarrow> 'x stream_text_chunk" where
  "add_extracted x out = out\<lparr>extracted := extracted out @ [x]\<rparr>"

definition to_extracted :: "'t active_tag \<Rightarrow> 't extracted_inline_tag" where
  "to_extracted a = \<lparr>ext_tag = active_tag a, ext_content = active_content a\<rparr>"

text \<open>The loop of \<open>push_str\<close>; \<open>None\<close> when it does not end.\<close>

partial_function (option) hidden_loop ::
    "'t inline_tag_spec list \<Rightarrow> rstr \<Rightarrow> 't active_tag option \<Rightarrow> 't extracted_inline_tag stream_text_chunk
       \<Rightarrow> (rstr \<times> 't active_tag option \<times> 't extracted_inline_tag stream_text_chunk) option" where
  "hidden_loop specs p act out =
     (case act of
        Some a \<Rightarrow>
          (case str_find p (active_close a) of
             Some close_idx \<Rightarrow>
               hidden_loop specs (drop (close_idx + length (active_close a)) p) None
                 (add_extracted (to_extracted (a\<lparr>active_content := active_content a @ take close_idx p\<rparr>)) out)
           | None \<Rightarrow>
               (let n = length p - longest_suffix_prefix_len p (active_close a)
                in Some (drop n p, Some (a\<lparr>active_content := active_content a @ take n p\<rparr>), out)))
      | None \<Rightarrow>
          (case find_next_open specs p of
             Some (open_idx, spec_idx) \<Rightarrow>
               (let sp = specs ! spec_idx
                in hidden_loop specs (drop (open_idx + length (spec_open sp)) p)
                     (Some \<lparr>active_tag = spec_tag sp, active_close = spec_close sp, active_content = []\<rparr>) (add_visible (take open_idx p) out))
           | None \<Rightarrow>
               (let n = length p - max_open_prefix_suffix_len specs p
                in Some (drop n p, None, add_visible (take n p) out))))"

declare hidden_loop.simps [code]

definition hidden_push :: "'t inline_hidden_tag_parser \<Rightarrow> rstr \<Rightarrow> ('t inline_hidden_tag_parser \<times> 't extracted_inline_tag stream_text_chunk) option" where
  "hidden_push s chunk =
     map_option (\<lambda>(p, act, out). (s\<lparr>pending := p, active := act\<rparr>, out))
       (hidden_loop (tag_specs s) (pending s @ chunk) (active s) chunk_default)"

definition hidden_finish :: "'t inline_hidden_tag_parser \<Rightarrow> 't inline_hidden_tag_parser \<times> 't extracted_inline_tag stream_text_chunk" where
  "hidden_finish s =
     (case active s of
        Some a \<Rightarrow>
          (s\<lparr>active := None, pending := []\<rparr>, add_extracted (to_extracted (a\<lparr>active_content := active_content a @ pending s\<rparr>)) chunk_default)
      | None \<Rightarrow> (s\<lparr>pending := []\<rparr>, add_visible (pending s) chunk_default))"

section \<open>The scanner\<close>

text \<open>
  The reference: outside a tag, a delimiter that starts at the current position opens its tag (the longest one), any other
  character is visible; inside, the closing delimiter ends the tag; at the end an open tag is closed.
\<close>

definition spec_at :: "'t inline_tag_spec list \<Rightarrow> rstr \<Rightarrow> 't inline_tag_spec option" where
  "spec_at specs t = max_by_key (\<lambda>sp. length (spec_open sp)) (rev (filter (\<lambda>sp. starts_with t (spec_open sp)) specs))"

definition see :: "rchar \<Rightarrow> rstr \<times> 'e list \<Rightarrow> rstr \<times> 'e list" where
  "see c = (\<lambda>(v, e). (c # v, e))"

definition take_out :: "'e \<Rightarrow> rstr \<times> 'e list \<Rightarrow> rstr \<times> 'e list" where
  "take_out x = (\<lambda>(v, e). (v, x # e))"

function scan_tags :: "'t inline_tag_spec list \<Rightarrow> 't active_tag option \<Rightarrow> rstr \<Rightarrow> rstr \<times> 't extracted_inline_tag list" where
  "scan_tags specs None [] = ([], [])"
| "scan_tags specs (Some a) [] = ([], [to_extracted a])"
| "scan_tags specs None (c # cs) =
     (case spec_at specs (c # cs) of
        Some sp \<Rightarrow>
          scan_tags specs (Some \<lparr>active_tag = spec_tag sp, active_close = spec_close sp, active_content = []\<rparr>) (drop (length (spec_open sp) - 1) cs)
      | None \<Rightarrow> see c (scan_tags specs None cs))"
| "scan_tags specs (Some a) (c # cs) =
     (if starts_with (c # cs) (active_close a)
      then take_out (to_extracted a) (scan_tags specs None (drop (length (active_close a) - 1) cs))
      else scan_tags specs (Some (a\<lparr>active_content := active_content a @ [c]\<rparr>)) cs)"
  by pat_completeness auto
termination by (relation "measure (\<lambda>(_, _, t). length t)") auto

section \<open>Delimiters in a text that goes on\<close>

lemma suffix_prefix_from_max:
  "0 < m \<Longrightarrow> m \<le> k \<Longrightarrow> ends_with s (take m needle) \<Longrightarrow> m \<le> suffix_prefix_from k s needle"
  by (induction k) (auto simp: le_Suc_eq)

lemma suffix_prefix_from_le: "suffix_prefix_from k s needle \<le> k"
  by (induction k) auto

lemma longest_suffix_prefix_len_le: "longest_suffix_prefix_len s needle \<le> length s"
  unfolding longest_suffix_prefix_len_def using suffix_prefix_from_le [of "min (length s) (length needle - 1)" s needle] by simp

text \<open>A match in a text that goes on lies in what is there, or begins with an end of it that is kept back.\<close>

lemma match_split:
  assumes "starts_with (drop i (p @ r)) d" "i < length p"
  shows "starts_with (drop i p) d \<or> length p - i < length d \<and> length p - i \<le> longest_suffix_prefix_len p d"
proof (cases "length d \<le> length p - i")
  case True
  from assms obtain q where "drop i p @ r = d @ q" by (auto simp: starts_with_iff)
  then have "take (length d) (drop i p @ r) = d" by simp
  with True have "drop i p = d @ drop (length d) (drop i p)" by (metis append_take_drop_id length_drop take_append diff_is_0_eq take_0 append_Nil2)
  then show ?thesis by (auto simp: starts_with_iff)
next
  case False
  from assms obtain q where "drop i p @ r = d @ q" by (auto simp: starts_with_iff)
  then have "drop i p = take (length p - i) d"
    using False by (metis append_eq_conv_conj length_drop nat_le_linear take_append take_all diff_is_0_eq take_0 append_Nil2)
  then have "p = take i p @ take (length p - i) d" by (metis append_take_drop_id)
  then have "ends_with p (take (length p - i) d)" by (metis ends_with_def strip_suffix_Some_iff option.distinct(1))
  then have "length p - i \<le> longest_suffix_prefix_len p d"
    unfolding longest_suffix_prefix_len_def using False assms(2) by (intro suffix_prefix_from_max) auto
  with False show ?thesis by simp
qed

lemma no_match_before:
  assumes "str_find p d = None" "i < length p - longest_suffix_prefix_len p d"
  shows "\<not> starts_with (drop i (p @ r)) d"
proof
  assume "starts_with (drop i (p @ r)) d"
  moreover have "i < length p" using assms(2) by simp
  ultimately show False using match_split [of i p r d] assms by (auto simp: str_find_None_iff)
qed

lemma no_match_before_found:
  assumes "str_find p d = Some k" "i < k"
  shows "\<not> starts_with (drop i (p @ r)) d"
proof
  assume m: "starts_with (drop i (p @ r)) d"
  from assms have k: "k \<le> length p" "starts_with (drop k p) d" "\<not> starts_with (drop i p) d" by (auto simp: str_find_Some_iff)
  then have "length d \<le> length p - k" by (auto simp: starts_with_iff dest: arg_cong [where f = length])
  with match_split [OF m] k assms(2) show False by auto
qed

section \<open>The next opening delimiter\<close>

lemma candidate_before_trans: "candidate_before z m \<Longrightarrow> \<not> candidate_before y m \<Longrightarrow> \<not> candidate_before y z"
  by (cases y; cases z; cases m) (auto simp: candidate_before_def)

lemma min_candidate_SomeD: "min_candidate cs = Some m \<Longrightarrow> m \<in> set cs \<and> (\<forall>y \<in> set cs. \<not> candidate_before y m)"
proof -
  have "foldl (\<lambda>m y. if candidate_before y m then y else m) c cs \<in> set (c # cs) \<and>
      (\<forall>y \<in> set (c # cs). \<not> candidate_before y (foldl (\<lambda>m y. if candidate_before y m then y else m) c cs))" for c cs
  proof (induction cs rule: rev_induct)
    case Nil
    then show ?case by (cases c) (simp add: candidate_before_def)
  next
    case (snoc y cs)
    moreover have "\<not> candidate_before y y" by (cases y) (simp add: candidate_before_def)
    ultimately show ?case by (auto dest: candidate_before_trans)
  qed
  then show "min_candidate cs = Some m \<Longrightarrow> ?thesis" by (cases cs) (auto simp: min_candidate_def)
qed

lemma min_candidate_None_iff [simp]: "min_candidate cs = None \<longleftrightarrow> cs = []"
  by (simp add: min_candidate_def split: list.split)

lemma set_open_candidates:
  "c \<in> set (List.map_filter (\<lambda>(idx, sp). map_option (\<lambda>pos. (pos, byte_len (spec_open sp), idx)) (str_find t (spec_open sp))) (List.enumerate 0 specs)) \<longleftrightarrow>
   (\<exists>idx pos. idx < length specs \<and> str_find t (spec_open (specs ! idx)) = Some pos \<and> c = (pos, byte_len (spec_open (specs ! idx)), idx))"
  by (auto simp: set_map_filter_iff Bex_enumerate)

lemma find_next_open_None: "find_next_open specs t = None \<Longrightarrow> sp \<in> set specs \<Longrightarrow> str_find t (spec_open sp) = None"
proof -
  assume "find_next_open specs t = None" and sp: "sp \<in> set specs"
  then have "\<nexists>c. \<exists>idx pos. idx < length specs \<and> str_find t (spec_open (specs ! idx)) = Some pos \<and> c = (pos, byte_len (spec_open (specs ! idx)), idx)"
    unfolding find_next_open_def option.map_disc_iff min_candidate_None_iff using set_open_candidates [of _ t specs] by (metis list.set(1) empty_iff)
  with sp show ?thesis by (metis in_set_conv_nth not_Some_eq)
qed

lemma find_next_open_Some:
  assumes "find_next_open specs t = Some (pos, idx)"
  shows "idx < length specs" "str_find t (spec_open (specs ! idx)) = Some pos"
    and "j < length specs \<Longrightarrow> str_find t (spec_open (specs ! j)) = Some q \<Longrightarrow> pos \<le> q"
proof -
  from assms obtain len where m: "min_candidate (List.map_filter
      (\<lambda>(idx, sp). map_option (\<lambda>pos. (pos, byte_len (spec_open sp), idx)) (str_find t (spec_open sp))) (List.enumerate 0 specs)) = Some (pos, len, idx)"
    by (auto simp: find_next_open_def)
  from min_candidate_SomeD [OF m] have "(pos, len, idx) \<in> set (List.map_filter
      (\<lambda>(idx, sp). map_option (\<lambda>pos. (pos, byte_len (spec_open sp), idx)) (str_find t (spec_open sp))) (List.enumerate 0 specs))" ..
  then show "idx < length specs" "str_find t (spec_open (specs ! idx)) = Some pos" unfolding set_open_candidates by auto
  assume "j < length specs" "str_find t (spec_open (specs ! j)) = Some q"
  then have "(q, byte_len (spec_open (specs ! j)), j) \<in> set (List.map_filter
      (\<lambda>(idx, sp). map_option (\<lambda>pos. (pos, byte_len (spec_open sp), idx)) (str_find t (spec_open sp))) (List.enumerate 0 specs))"
    unfolding set_open_candidates by auto
  with min_candidate_SomeD [OF m] have "\<not> candidate_before (q, byte_len (spec_open (specs ! j)), j) (pos, len, idx)" by blast
  then show "pos \<le> q" by (auto simp: candidate_before_def)
qed

lemma max_open_prefix_suffix_len_ge:
  "sp \<in> set specs \<Longrightarrow> longest_suffix_prefix_len t (spec_open sp) \<le> max_open_prefix_suffix_len specs t"
proof -
  have "m \<le> fold max ks m \<and> (\<forall>k \<in> set ks. k \<le> fold max ks m)" for m :: nat and ks
    by (induction ks arbitrary: m) (auto intro: order_trans [OF max.cobounded1] order_trans [OF max.cobounded2])
  then show "sp \<in> set specs \<Longrightarrow> ?thesis" by (simp add: max_open_prefix_suffix_len_def)
qed

lemma max_open_prefix_suffix_len_le: "max_open_prefix_suffix_len specs t \<le> length t"
proof -
  have "\<forall>k \<in> set ks. k \<le> n \<Longrightarrow> m \<le> n \<Longrightarrow> fold max ks m \<le> n" for m n :: nat and ks
    by (induction ks arbitrary: m) auto
  then show ?thesis by (auto simp: max_open_prefix_suffix_len_def longest_suffix_prefix_len_le)
qed

text \<open>
  The delimiters do not overlap in the way that makes the cut of the text matter: no opening delimiter occurs in another.
\<close>

definition specs_free :: "'t inline_tag_spec list \<Rightarrow> bool" where
  "specs_free specs \<longleftrightarrow>
     (\<forall>sp \<in> set specs. spec_open sp \<noteq> [] \<and> spec_close sp \<noteq> []) \<and>
     (\<forall>i < length specs. \<forall>j < length specs. sublist (spec_open (specs ! i)) (spec_open (specs ! j)) \<longrightarrow> i = j)"

lemma spec_at_None_iff: "spec_at specs t = None \<longleftrightarrow> (\<forall>sp \<in> set specs. \<not> starts_with t (spec_open sp))"
  by (auto simp: spec_at_def filter_empty_conv)

lemma spec_at_eq:
  assumes "specs_free specs" "i < length specs" "starts_with t (spec_open (specs ! i))"
  shows "spec_at specs t = Some (specs ! i)"
proof (cases "spec_at specs t")
  case None
  with assms show ?thesis by (auto simp: spec_at_None_iff)
next
  case (Some sp)
  then have "sp \<in> set specs" "starts_with t (spec_open sp)" unfolding spec_at_def by (auto dest: max_by_key_SomeD)
  then obtain j where j: "j < length specs" "sp = specs ! j" "starts_with t (spec_open (specs ! j))" by (auto simp: in_set_conv_nth)
  with assms(3) have "prefix (spec_open (specs ! i)) (spec_open (specs ! j)) \<or> prefix (spec_open (specs ! j)) (spec_open (specs ! i))"
    by (metis prefixI prefix_same_cases starts_with_iff)
  then have "i = j" using assms(1,2) j(1) by (auto simp: specs_free_def dest!: prefix_imp_sublist)
  with j Some show ?thesis by simp
qed

lemma no_open_before:
  assumes "specs_free specs" "find_next_open specs p = Some (pos, idx)" "i < pos"
  shows "spec_at specs (drop i (p @ r)) = None"
  unfolding spec_at_None_iff
proof
  fix sp assume "sp \<in> set specs"
  then obtain j where j: "j < length specs" "sp = specs ! j" by (auto simp: in_set_conv_nth)
  note f = find_next_open_Some [OF assms(2)]
  show "\<not> starts_with (drop i (p @ r)) (spec_open sp)"
  proof (cases "str_find p (spec_open sp)")
    case (Some q)
    with f(3) j assms(3) show ?thesis using no_match_before_found by (metis order_less_le_trans)
  next
    case None
    show ?thesis
    proof
      assume m: "starts_with (drop i (p @ r)) (spec_open sp)"
      from f(2) have k: "pos \<le> length p" "starts_with (drop pos p) (spec_open (specs ! idx))" by (auto simp: str_find_Some_iff)
      have long: "length p - i < length (spec_open sp)"
        using match_split [OF m] None k(1) assms(3) by (auto simp: str_find_None_iff)
      obtain a b where ab: "drop i (p @ r) = spec_open sp @ a" "drop pos p = spec_open (specs ! idx) @ b" using m k(2) by (auto simp: starts_with_iff)
      have "take (length p - i) (spec_open sp) = drop i p"
        using arg_cong [OF ab(1), of "take (length p - i)"] long assms(3) k(1) by simp
      moreover have "drop i p = take (pos - i) (drop i p) @ drop pos p"
        by (metis append_take_drop_id assms(3) drop_drop le_add_diff_inverse2 less_imp_le)
      ultimately have "sublist (spec_open (specs ! idx)) (spec_open sp)"
        unfolding ab(2) by (metis append_take_drop_id append.assoc sublist_appendI)
      then have "idx = j" using assms(1) f(1) j by (auto simp: specs_free_def)
      with None f(2) j show False by simp
    qed
  qed
qed

lemma no_open_in:
  assumes "find_next_open specs p = None" "i < length p - max_open_prefix_suffix_len specs p"
  shows "spec_at specs (drop i (p @ r)) = None"
  unfolding spec_at_None_iff
proof
  fix sp assume "sp \<in> set specs"
  with max_open_prefix_suffix_len_ge [OF this, of p] find_next_open_None [OF assms(1) this] assms(2)
  show "\<not> starts_with (drop i (p @ r)) (spec_open sp)" by (intro no_match_before) auto
qed

section \<open>The parser follows the scanner\<close>

lemma see_seen_append: "see c (seen_append (v, []) m) = seen_append (c # v, []) m"
  by (cases m) (simp add: see_def seen_append_def)

lemma see_eq: "see c m = seen_append ([c], []) m"
  by (cases m) (simp add: see_def seen_append_def)

lemma take_out_eq: "take_out x m = seen_append ([], [x]) m"
  by (cases m) (simp add: take_out_def seen_append_def)

lemma scan_visible:
  "k \<le> length t \<Longrightarrow> (\<And>i. i < k \<Longrightarrow> spec_at specs (drop i t) = None) \<Longrightarrow>
   scan_tags specs None t = seen_append (take k t, []) (scan_tags specs None (drop k t))"
proof (induction k arbitrary: t)
  case (Suc k)
  then obtain c cs where t: "t = c # cs" by (cases t) auto
  have "spec_at specs t = None" using Suc.prems(2) [of 0] by simp
  moreover have "scan_tags specs None cs = seen_append (take k cs, []) (scan_tags specs None (drop k cs))"
    using Suc.prems(1) Suc.prems(2) [of "Suc _"] t by (intro Suc.IH) auto
  ultimately show ?case by (simp add: t see_seen_append)
qed simp

lemma scan_content:
  "k \<le> length t \<Longrightarrow> (\<And>i. i < k \<Longrightarrow> \<not> starts_with (drop i t) (active_close a)) \<Longrightarrow>
   scan_tags specs (Some a) t = scan_tags specs (Some (a\<lparr>active_content := active_content a @ take k t\<rparr>)) (drop k t)"
proof (induction k arbitrary: t a)
  case (Suc k)
  then obtain c cs where t: "t = c # cs" by (cases t) auto
  let ?a = "a\<lparr>active_content := active_content a @ [c]\<rparr>"
  have "\<not> starts_with t (active_close a)" using Suc.prems(2) [of 0] by simp
  moreover have "scan_tags specs (Some ?a) cs = scan_tags specs (Some (?a\<lparr>active_content := active_content ?a @ take k cs\<rparr>)) (drop k cs)"
    using Suc.prems(1) Suc.prems(2) [of "Suc _"] t by (intro Suc.IH) auto
  ultimately show ?case by (simp add: t)
qed simp

lemma scan_open:
  assumes "spec_at specs t = Some sp" "spec_open sp \<noteq> []"
  shows "scan_tags specs None t =
    scan_tags specs (Some \<lparr>active_tag = spec_tag sp, active_close = spec_close sp, active_content = []\<rparr>) (drop (length (spec_open sp)) t)"
proof (cases t)
  case Nil
  with assms show ?thesis by (auto simp: spec_at_def starts_with_iff dest!: max_by_key_SomeD)
next
  case (Cons c cs)
  with assms show ?thesis by (cases "spec_open sp") simp_all
qed

lemma scan_close:
  assumes "starts_with t (active_close a)" "active_close a \<noteq> []"
  shows "scan_tags specs (Some a) t = seen_append ([], [to_extracted a]) (scan_tags specs None (drop (length (active_close a)) t))"
  using assms by (cases t; cases "active_close a") (auto simp: take_out_eq starts_with_iff)

definition active_ok :: "'t active_tag option \<Rightarrow> bool" where
  "active_ok act \<longleftrightarrow> (case act of Some a \<Rightarrow> active_close a \<noteq> [] | None \<Rightarrow> True)"

lemma seen_add [simp]:
  "seen view (add_visible v out) = seen_append (seen view out) (v, [])"
  "seen view (add_extracted x out) = seen_append (seen view out) ([], view x)"
  by (simp_all add: seen_def add_visible_def add_extracted_def seen_append_def)

abbreviation "singly \<equiv> (\<lambda>x. [x])"

lemma starts_with_drop_append:
  assumes "k \<le> length p" "starts_with (drop k p) d"
  shows "starts_with (drop k (p @ r)) d" "k + length d \<le> length p"
  using assms by (auto simp: starts_with_iff dest: arg_cong [where f = length])

text \<open>What is kept back holds no whole delimiter.\<close>

definition settled_text :: "'t inline_tag_spec list \<Rightarrow> 't active_tag option \<Rightarrow> rstr \<Rightarrow> bool" where
  "settled_text specs act p \<longleftrightarrow>
     (case act of
        Some a \<Rightarrow> \<forall>i \<le> length p. \<not> starts_with (drop i p) (active_close a)
      | None \<Rightarrow> \<forall>i \<le> length p. spec_at specs (drop i p) = None)"

lemma settled_drop_close: "str_find p (active_close a) = None \<Longrightarrow> n \<le> length p \<Longrightarrow> settled_text specs (Some (a\<lparr>active_content := v\<rparr>)) (drop n p)"
  by (auto simp: settled_text_def str_find_None_iff)

lemma settled_drop_open: "find_next_open specs p = None \<Longrightarrow> n \<le> length p \<Longrightarrow> settled_text specs None (drop n p)"
  by (auto simp: settled_text_def spec_at_None_iff str_find_None_iff dest!: find_next_open_None)

lemma hidden_loop_scan:
  assumes "specs_free specs" "active_ok act"
  shows "\<exists>p' act' out'. hidden_loop specs p act out = Some (p', act', out') \<and> active_ok act' \<and> settled_text specs act' p' \<and>
     (\<forall>r. seen_append (seen singly out) (scan_tags specs act (p @ r)) = seen_append (seen singly out') (scan_tags specs act' (p' @ r)))"
  using assms(2)
proof (induction "length p" arbitrary: p act out rule: less_induct)
  case less
  show ?case
  proof (cases act)
    case (Some a)
    then have ne: "active_close a \<noteq> []" using less.prems by (simp add: active_ok_def)
    show ?thesis
    proof (cases "str_find p (active_close a)")
      case None
      let ?n = "length p - longest_suffix_prefix_len p (active_close a)"
      have "scan_tags specs (Some a) (p @ r) = scan_tags specs (Some (a\<lparr>active_content := active_content a @ take ?n p\<rparr>)) (drop ?n p @ r)" for r
        using scan_content [of ?n "p @ r" a specs] no_match_before [OF None] by simp
      then show ?thesis using ne by (subst hidden_loop.simps) (simp add: Some None Let_def active_ok_def settled_drop_close)
    next
      case (Some k)
      from Some have k: "k \<le> length p" "starts_with (drop k p) (active_close a)" by (auto simp: str_find_Some_iff)
      note in_text = starts_with_drop_append [OF k]
      let ?a = "a\<lparr>active_content := active_content a @ take k p\<rparr>"
      let ?out = "add_extracted (to_extracted ?a) out"
      have "length (drop (k + length (active_close a)) p) < length p" using ne in_text(2) by (cases "active_close a") auto
      from less.hyps [OF this, of None ?out] obtain p' act' out' where
        r: "hidden_loop specs (drop (k + length (active_close a)) p) None ?out = Some (p', act', out')" "active_ok act'" "settled_text specs act' p'"
        "\<And>r. seen_append (seen singly ?out) (scan_tags specs None (drop (k + length (active_close a)) p @ r)) =
          seen_append (seen singly out') (scan_tags specs act' (p' @ r))"
        by (auto simp: active_ok_def)
      have "scan_tags specs (Some a) (p @ r) =
          seen_append ([], [to_extracted ?a]) (scan_tags specs None (drop (k + length (active_close a)) p @ r))" for r
        using scan_content [of k "p @ r" a specs] no_match_before_found [OF Some] k(1) scan_close [of "drop k (p @ r)" ?a specs] ne in_text
        by (simp add: add.commute)
      with r show ?thesis
        by (subst hidden_loop.simps) (simp add: Some \<open>act = Some a\<close> seen_append_assoc)
    qed
  next
    case None
    show ?thesis
    proof (cases "find_next_open specs p")
      case None
      let ?n = "length p - max_open_prefix_suffix_len specs p"
      have "scan_tags specs None (p @ r) = seen_append (take ?n p, []) (scan_tags specs None (drop ?n p @ r))" for r
        using scan_visible [of ?n "p @ r" specs] no_open_in [OF None] by simp
      then show ?thesis by (subst hidden_loop.simps) (simp add: \<open>act = None\<close> None Let_def active_ok_def seen_append_assoc settled_drop_open)
    next
      case (Some c)
      then obtain k idx where f: "find_next_open specs p = Some (k, idx)" by (cases c) auto
      let ?sp = "specs ! idx"
      note found = find_next_open_Some [OF f]
      from found(2) have k: "k \<le> length p" "starts_with (drop k p) (spec_open ?sp)" by (auto simp: str_find_Some_iff)
      note in_text = starts_with_drop_append [OF k]
      have ne: "spec_open ?sp \<noteq> []" "spec_close ?sp \<noteq> []" using assms(1) found(1) by (auto simp: specs_free_def)
      let ?act = "Some \<lparr>active_tag = spec_tag ?sp, active_close = spec_close ?sp, active_content = []\<rparr>"
      let ?out = "add_visible (take k p) out"
      have "length (drop (k + length (spec_open ?sp)) p) < length p" using ne in_text(2) by (cases "spec_open ?sp") auto
      from less.hyps [OF this, of ?act ?out] ne obtain p' act' out' where
        r: "hidden_loop specs (drop (k + length (spec_open ?sp)) p) ?act ?out = Some (p', act', out')" "active_ok act'" "settled_text specs act' p'"
        "\<And>r. seen_append (seen singly ?out) (scan_tags specs ?act (drop (k + length (spec_open ?sp)) p @ r)) =
          seen_append (seen singly out') (scan_tags specs act' (p' @ r))"
        by (auto simp: active_ok_def)
      have "scan_tags specs None (p @ r) = seen_append (take k p, []) (scan_tags specs ?act (drop (k + length (spec_open ?sp)) p @ r))" for r
        using scan_visible [of k "p @ r" specs] no_open_before [OF assms(1) f] k(1)
          scan_open [OF spec_at_eq [OF assms(1) found(1)] ne(1), of "drop k (p @ r)"] in_text by (simp add: add.commute)
      with r show ?thesis
        by (subst hidden_loop.simps) (simp add: f \<open>act = None\<close> seen_append_assoc Let_def)
    qed
  qed
qed

definition hidden_ok :: "'t inline_hidden_tag_parser \<Rightarrow> bool" where
  "hidden_ok s \<longleftrightarrow> specs_free (tag_specs s) \<and> active_ok (active s) \<and> settled_text (tag_specs s) (active s) (pending s)"

definition hidden_meaning :: "'t inline_hidden_tag_parser \<Rightarrow> rstr \<Rightarrow> rstr \<times> 't extracted_inline_tag list" where
  "hidden_meaning s r = scan_tags (tag_specs s) (active s) (pending s @ r)"

interpretation hidden: stream_text_parser hidden_push hidden_finish hidden_ok singly hidden_meaning
proof
  fix s :: "'t inline_hidden_tag_parser" and c assume "hidden_ok s"
  then have "specs_free (tag_specs s)" "active_ok (active s)" by (auto simp: hidden_ok_def)
  from hidden_loop_scan [OF this, of "pending s @ c" chunk_default] \<open>specs_free (tag_specs s)\<close>
  show "\<exists>s' out. hidden_push s c = Some (s', out) \<and> hidden_ok s' \<and>
      (\<forall>r. hidden_meaning s (c @ r) = seen_append (seen singly out) (hidden_meaning s' r))"
    by (auto simp: hidden_push_def hidden_ok_def hidden_meaning_def)
next
  fix s :: "'t inline_hidden_tag_parser" assume ok: "hidden_ok s"
  show "hidden_ok (fst (hidden_finish s)) \<and> seen singly (snd (hidden_finish s)) = hidden_meaning s []"
  proof (cases "active s")
    case None
    with ok have "settled_text (tag_specs s) None (pending s)" by (simp add: hidden_ok_def)
    then have "hidden_meaning s [] = (pending s, [])" "spec_at (tag_specs s) [] = None"
      using scan_visible [of "length (pending s)" "pending s" "tag_specs s"] None by (auto simp: settled_text_def hidden_meaning_def seen_append_def)
    with None ok show ?thesis by (auto simp: hidden_finish_def hidden_ok_def settled_text_def active_ok_def)
  next
    case (Some a)
    with ok have "settled_text (tag_specs s) (Some a) (pending s)" "specs_free (tag_specs s)" by (simp_all add: hidden_ok_def)
    moreover from this(2) have "spec_at (tag_specs s) [] = None" by (auto simp: spec_at_None_iff specs_free_def starts_with_iff)
    ultimately show ?thesis
      using scan_content [of "length (pending s)" "pending s" a "tag_specs s"] Some
      by (auto simp: hidden_finish_def hidden_ok_def settled_text_def active_ok_def hidden_meaning_def)
  qed
qed

lemma hidden_tags_new_ok: "specs \<noteq> [] \<Longrightarrow> specs_free specs \<Longrightarrow> \<exists>s. hidden_tags_new specs = Some s \<and> hidden_ok s \<and> tag_specs s = specs \<and> active s = None \<and> pending s = []"
  by (auto simp: hidden_tags_new_def specs_free_def hidden_ok_def active_ok_def settled_text_def spec_at_None_iff starts_with_iff)

text \<open>
  Without the restriction on the delimiters the output depends on the cut of the text: of two opening delimiters of which one
  occurs in the other, the shorter one is taken when the text ends after it.
\<close>

lemma overlapping_delimiters_depend_on_cut:
  "let s = \<lparr>tag_specs = [\<lparr>spec_tag = False, spec_open = lit ''<a>'', spec_close = lit ''/''\<rparr>, \<lparr>spec_tag = True, spec_open = lit ''<a>b'', spec_close = lit ''/''\<rparr>],
            pending = [], active = None\<rparr>
   in drive hidden_push hidden_finish s [lit ''<a>bc/''] \<noteq> drive hidden_push hidden_finish s [lit ''<a>'', lit ''bc/'']"
  unfolding Let_def by code_simp

section \<open>Citations\<close>

definition CITATION_OPEN :: rstr where
  "CITATION_OPEN = lit ''<oai-mem-citation>''"

definition CITATION_CLOSE :: rstr where
  "CITATION_CLOSE = lit ''</oai-mem-citation>''"

definition citation_specs :: "unit inline_tag_spec list" where
  "citation_specs = [\<lparr>spec_tag = (), spec_open = CITATION_OPEN, spec_close = CITATION_CLOSE\<rparr>]"

type_synonym citation_parser = "unit inline_hidden_tag_parser"

definition citation_new :: "citation_parser option" where
  "citation_new = hidden_tags_new citation_specs"

definition citation_chunk :: "unit extracted_inline_tag stream_text_chunk \<Rightarrow> rstr stream_text_chunk" where
  "citation_chunk c = \<lparr>visible_text = visible_text c, extracted = map ext_content (extracted c)\<rparr>"

definition citation_push :: "(citation_parser, rstr) stream_push" where
  "citation_push s chunk = map_option (\<lambda>(s', out). (s', citation_chunk out)) (hidden_push s chunk)"

definition citation_finish :: "citation_parser \<Rightarrow> citation_parser \<times> rstr stream_text_chunk" where
  "citation_finish s = (case hidden_finish s of (s', out) \<Rightarrow> (s', citation_chunk out))"

definition strip_citations :: "rstr \<Rightarrow> (rstr \<times> rstr list) option" where
  "strip_citations t =
     Option.bind citation_new (\<lambda>s.
     map_option (\<lambda>(s', out). let tail = snd (citation_finish s') in (visible_text out @ visible_text tail, extracted out @ extracted tail))
       (citation_push s t))"

definition citation_meaning :: "citation_parser \<Rightarrow> rstr \<Rightarrow> rstr \<times> rstr list" where
  "citation_meaning s r = map_prod id (map ext_content) (hidden_meaning s r)"

lemma seen_citation_chunk: "seen singly (citation_chunk c) = map_prod id (map ext_content) (seen singly c)"
  by (simp add: seen_def citation_chunk_def comp_def)

lemma map_prod_seen_append: "map_prod id (map f) (seen_append a b) = seen_append (map_prod id (map f) a) (map_prod id (map f) b)"
  by (cases a; cases b) (simp add: seen_append_def)

interpretation citations: stream_text_parser citation_push citation_finish hidden_ok singly citation_meaning
proof
  fix s :: citation_parser and c assume "hidden_ok s"
  from hidden.push_meaning [OF this, of c] show "\<exists>s' out. citation_push s c = Some (s', out) \<and> hidden_ok s' \<and>
      (\<forall>r. citation_meaning s (c @ r) = seen_append (seen singly out) (citation_meaning s' r))"
    by (auto simp: citation_push_def citation_meaning_def seen_citation_chunk map_prod_seen_append)
next
  fix s :: citation_parser assume "hidden_ok s"
  from hidden.fin_meaning [OF this] show "hidden_ok (fst (citation_finish s)) \<and> seen singly (snd (citation_finish s)) = citation_meaning s []"
    by (auto simp: citation_finish_def citation_meaning_def seen_citation_chunk split: prod.split)
qed

lemma citation_new_ok: "\<exists>s. citation_new = Some s \<and> hidden_ok s \<and> citation_meaning s t = map_prod id (map ext_content) (scan_tags citation_specs None t)"
proof -
  have "specs_free citation_specs" "citation_specs \<noteq> []"
    by (simp_all add: specs_free_def citation_specs_def CITATION_OPEN_def CITATION_CLOSE_def)
  from hidden_tags_new_ok [OF this(2,1)] show ?thesis by (auto simp: citation_new_def citation_meaning_def hidden_meaning_def)
qed

text \<open>
  The citations of a streamed text are those of the whole text, however it is cut: every push returns, and the visible
  text and the citations accumulated to the end are what the scanner and what \<open>strip_citations\<close> find in the concatenation.
\<close>

theorem citations_independent_of_cut:
  "\<exists>s out. citation_new = Some s \<and> drive citation_push citation_finish s cs = Some out \<and>
     (visible_text out, extracted out) = map_prod id (map ext_content) (scan_tags citation_specs None (concat cs)) \<and>
     strip_citations (concat cs) = Some (visible_text out, extracted out)"
proof -
  obtain s where s: "citation_new = Some s" "hidden_ok s"
    "citation_meaning s (concat cs) = map_prod id (map ext_content) (scan_tags citation_specs None (concat cs))"
    using citation_new_ok by metis
  obtain out where out: "drive citation_push citation_finish s cs = Some out" "seen singly out = citation_meaning s (concat cs)"
    using citations.drive_meaning [OF s(2)] by metis
  obtain one where one: "drive citation_push citation_finish s [concat cs] = Some one" "seen singly one = citation_meaning s (concat cs)"
    using citations.drive_meaning [OF s(2), of "[concat cs]"] by auto
  have "strip_citations (concat cs) = Some (visible_text one, extracted one)"
    using one(1) s(1) by (auto simp: strip_citations_def drive_def Let_def bind_eq_Some_conv)
  with s out one show ?thesis by (auto simp: seen_def)
qed

end
