(* ===== verification/Utf8_Stream.thy ===== *)
theory Utf8_Stream
  imports Hidden_Tags
begin

text \<open>
  The wrapper that feeds a stream parser with bytes (\<open>utils/stream-parser/src/utf8_stream.rs\<close>): a code
  point that is cut by a chunk boundary waits for its remaining bytes. \<open>from_utf8\<close> is
  \<open>core::str::from_utf8\<close> with the offset and length of its errors. For every parser that keeps its contract the
  bytes may be cut anywhere; an invalid chunk is refused as a whole.
\<close>

section \<open>Decoding UTF-8\<close>

type_synonym byte = nat

datatype utf8_step = Utf8Char rchar nat | Utf8Invalid nat | Utf8Incomplete

definition is_continuation :: "byte \<Rightarrow> bool" where
  "is_continuation b \<longleftrightarrow> 128 \<le> b \<and> b \<le> 191"

definition second_of_three :: "byte \<Rightarrow> byte \<Rightarrow> bool" where
  "second_of_three a b \<longleftrightarrow>
     a = 224 \<and> 160 \<le> b \<and> b \<le> 191 \<or> 225 \<le> a \<and> a \<le> 236 \<and> is_continuation b \<or>
     a = 237 \<and> 128 \<le> b \<and> b \<le> 159 \<or> 238 \<le> a \<and> a \<le> 239 \<and> is_continuation b"

definition second_of_four :: "byte \<Rightarrow> byte \<Rightarrow> bool" where
  "second_of_four a b \<longleftrightarrow>
     a = 240 \<and> 144 \<le> b \<and> b \<le> 191 \<or> 241 \<le> a \<and> a \<le> 243 \<and> is_continuation b \<or> a = 244 \<and> 128 \<le> b \<and> b \<le> 143"

text \<open>The first character of the bytes; an error names the length of the invalid sequence.\<close>

fun utf8_first :: "byte list \<Rightarrow> utf8_step" where
  "utf8_first [] = Utf8Incomplete"
| "utf8_first (a # bs) =
     (if a < 128 then Utf8Char a 1
      else if 194 \<le> a \<and> a \<le> 223 then
        (case bs of
           [] \<Rightarrow> Utf8Incomplete
         | b # _ \<Rightarrow> if is_continuation b then Utf8Char ((a - 192) * 64 + (b - 128)) 2 else Utf8Invalid 1)
      else if 224 \<le> a \<and> a \<le> 239 then
        (case bs of
           [] \<Rightarrow> Utf8Incomplete
         | b # cs \<Rightarrow>
             if \<not> second_of_three a b then Utf8Invalid 1
             else case cs of
                    [] \<Rightarrow> Utf8Incomplete
                  | c # _ \<Rightarrow>
                      if is_continuation c then Utf8Char ((a - 224) * 4096 + (b - 128) * 64 + (c - 128)) 3 else Utf8Invalid 2)
      else if 240 \<le> a \<and> a \<le> 244 then
        (case bs of
           [] \<Rightarrow> Utf8Incomplete
         | b # cs \<Rightarrow>
             if \<not> second_of_four a b then Utf8Invalid 1
             else case cs of
                    [] \<Rightarrow> Utf8Incomplete
                  | c # ds \<Rightarrow>
                      if \<not> is_continuation c then Utf8Invalid 2
                      else case ds of
                             [] \<Rightarrow> Utf8Incomplete
                           | d # _ \<Rightarrow>
                               if is_continuation d
                               then Utf8Char ((a - 240) * 262144 + (b - 128) * 4096 + (c - 128) * 64 + (d - 128)) 4
                               else Utf8Invalid 3)
      else Utf8Invalid 1)"

lemma utf8_first_Char: "utf8_first bs = Utf8Char c n \<Longrightarrow> 0 < n \<and> n \<le> length bs"
  by (cases bs) (auto split: if_splits list.splits)

lemma utf8_first_append:
  "utf8_first bs = Utf8Char c n \<Longrightarrow> utf8_first (bs @ r) = Utf8Char c n"
  "utf8_first bs = Utf8Invalid k \<Longrightarrow> utf8_first (bs @ r) = Utf8Invalid k"
  by (cases bs; auto split: if_splits list.splits)+

record utf8_error =
  valid_up_to :: nat
  error_len :: "nat option"

definition shift_error :: "nat \<Rightarrow> utf8_error \<Rightarrow> utf8_error" where
  "shift_error n e = e\<lparr>valid_up_to := n + valid_up_to e\<rparr>"

function from_utf8 :: "byte list \<Rightarrow> (utf8_error, rstr) result" where
  "from_utf8 bs =
     (if bs = [] then Inr []
      else case utf8_first bs of
             Utf8Char c n \<Rightarrow>
               (case from_utf8 (drop n bs) of
                  Inr s \<Rightarrow> Inr (c # s)
                | Inl e \<Rightarrow> Inl (shift_error n e))
           | Utf8Invalid k \<Rightarrow> Inl \<lparr>valid_up_to = 0, error_len = Some k\<rparr>
           | Utf8Incomplete \<Rightarrow> Inl \<lparr>valid_up_to = 0, error_len = None\<rparr>)"
  by pat_completeness auto
termination by (relation "measure length") (auto dest!: utf8_first_Char)

declare from_utf8.simps [simp del]

lemma from_utf8_Nil [simp]: "from_utf8 [] = Inr []"
  by (simp add: from_utf8.simps)

text \<open>A decoded prefix in front of the result for the rest.\<close>

definition after_prefix :: "nat \<Rightarrow> rstr \<Rightarrow> (utf8_error, rstr) result \<Rightarrow> (utf8_error, rstr) result" where
  "after_prefix n s r = (case r of Inr t \<Rightarrow> Inr (s @ t) | Inl e \<Rightarrow> Inl (shift_error n e))"

lemma from_utf8_append: "from_utf8 a = Inr s \<Longrightarrow> from_utf8 (a @ b) = after_prefix (length a) s (from_utf8 b)"
proof (induction a arbitrary: s rule: from_utf8.induct)
  case (1 a)
  show ?case
  proof (cases "a = []")
    case True
    with "1.prems" show ?thesis by (auto simp: after_prefix_def shift_error_def split: sum.split)
  next
    case False
    with "1.prems" obtain c n t where n: "utf8_first a = Utf8Char c n" "from_utf8 (drop n a) = Inr t" "s = c # t"
      by (subst (asm) from_utf8.simps) (auto split: utf8_step.splits sum.splits)
    have "from_utf8 (drop n a @ b) = after_prefix (length a - n) t (from_utf8 b)"
      using "1.IH" [OF False n(1,2)] by simp
    with n utf8_first_append(1) [OF n(1), of b] utf8_first_Char [OF n(1)] False show ?thesis
      by (subst from_utf8.simps) (auto simp: after_prefix_def shift_error_def split: sum.split)
  qed
qed

lemma from_utf8_Inl_aux:
  "from_utf8 a = Inl e \<Longrightarrow> valid_up_to e \<le> length a \<and> (\<exists>s. from_utf8 (take (valid_up_to e) a) = Inr s) \<and>
     from_utf8 (drop (valid_up_to e) a) = Inl \<lparr>valid_up_to = 0, error_len = error_len e\<rparr> \<and>
     (error_len e \<noteq> None \<longrightarrow> from_utf8 (a @ b) = Inl e)"
proof (induction a arbitrary: e rule: from_utf8.induct)
  case (1 a)
  have a: "a \<noteq> []" using "1.prems" by auto
  show ?case
  proof (cases "utf8_first a")
    case (Utf8Char c n)
    then obtain e' where e: "from_utf8 (drop n a) = Inl e'" "e = shift_error n e'"
      using "1.prems" a by (subst (asm) from_utf8.simps) (auto split: sum.splits)
    note IH = "1.IH" [OF a Utf8Char e(1)]
    note n = utf8_first_Char [OF Utf8Char]
    obtain s where s: "from_utf8 (take (valid_up_to e') (drop n a)) = Inr s" using IH by blast
    have tk: "take (n + valid_up_to e') a = take n a @ take (valid_up_to e') (drop n a)" by (simp add: take_add)
    have "utf8_first (take n a) = Utf8Char c n"
      using Utf8Char n by (cases a) (auto split: if_splits list.splits)
    then have "from_utf8 (take n a) = Inr [c]" using n a by (subst from_utf8.simps) auto
    then have "from_utf8 (take (n + valid_up_to e') a) = Inr (c # s)"
      unfolding tk by (subst from_utf8_append) (auto simp: s after_prefix_def)
    moreover have "from_utf8 (a @ b) = Inl e" if "error_len e \<noteq> None"
      using IH that e(2) utf8_first_append(1) [OF Utf8Char, of b] n a by (subst from_utf8.simps) (auto simp: shift_error_def)
    ultimately show ?thesis using IH e(2) n by (auto simp: shift_error_def add.commute)
  next
    case (Utf8Invalid k)
    with "1.prems" a utf8_first_append(2) [OF Utf8Invalid, of b] show ?thesis
      by (subst (asm) from_utf8.simps) (auto simp: from_utf8.simps [of "a @ b"] from_utf8.simps [of a])
  next
    case Utf8Incomplete
    with "1.prems" a show ?thesis by (subst (asm) from_utf8.simps) (auto simp: from_utf8.simps [of a])
  qed
qed

lemma from_utf8_Inl:
  assumes "from_utf8 a = Inl e"
  shows "valid_up_to e \<le> length a" "\<exists>s. from_utf8 (take (valid_up_to e) a) = Inr s"
    and "from_utf8 (drop (valid_up_to e) a) = Inl \<lparr>valid_up_to = 0, error_len = error_len e\<rparr>"
    and "error_len e \<noteq> None \<Longrightarrow> from_utf8 (a @ b) = Inl e"
  using from_utf8_Inl_aux [OF assms] by blast+

section \<open>Encoding\<close>

definition is_scalar :: "rchar \<Rightarrow> bool" where
  "is_scalar c \<longleftrightarrow> c < 55296 \<or> 57344 \<le> c \<and> c < 1114112"

definition encode_utf8_char :: "rchar \<Rightarrow> byte list" where
  "encode_utf8_char c =
     (if c < 128 then [c]
      else if c < 2048 then [192 + c div 64, 128 + c mod 64]
      else if c < 65536 then [224 + c div 4096, 128 + c div 64 mod 64, 128 + c mod 64]
      else [240 + c div 262144, 128 + c div 4096 mod 64, 128 + c div 64 mod 64, 128 + c mod 64])"

definition encode_utf8 :: "rstr \<Rightarrow> byte list" where
  "encode_utf8 s = concat (map encode_utf8_char s)"

lemma length_encode_utf8: "length (encode_utf8 s) = byte_len s"
  by (induction s) (auto simp: encode_utf8_def encode_utf8_char_def len_utf8_def)

text \<open>A code point in digits of six bits.\<close>

lemma six_bit_digits:
  fixes c :: nat
  obtains w x y z where "c = ((w * 64 + x) * 64 + y) * 64 + z" "x < 64" "y < 64" "z < 64"
    "c div 64 = (w * 64 + x) * 64 + y" "c div 4096 = w * 64 + x" "c div 262144 = w"
    "c mod 64 = z" "c div 64 mod 64 = y" "c div 4096 mod 64 = x"
proof
  have d: "c div 4096 = c div 64 div 64" "c div 262144 = c div 64 div 64 div 64" by (simp_all add: div_mult2_eq [symmetric])
  show "c = ((c div 64 div 64 div 64 * 64 + c div 64 div 64 mod 64) * 64 + c div 64 mod 64) * 64 + c mod 64" by simp
  show "c div 64 = (c div 64 div 64 div 64 * 64 + c div 64 div 64 mod 64) * 64 + c div 64 mod 64" by simp
  show "c div 4096 = c div 64 div 64 div 64 * 64 + c div 64 div 64 mod 64" by (simp add: d)
qed (simp_all add: div_mult2_eq [symmetric])

lemma encode_utf8_char_first:
  assumes "is_scalar c"
  shows "utf8_first (encode_utf8_char c @ r) = Utf8Char c (len_utf8 c)"
proof -
  obtain w x y z where c: "c = ((w * 64 + x) * 64 + y) * 64 + z" "x < 64" "y < 64" "z < 64"
    and d: "c div 64 = (w * 64 + x) * 64 + y" "c div 4096 = w * 64 + x" "c div 262144 = w"
      "c mod 64 = z" "c div 64 mod 64 = y" "c div 4096 mod 64 = x" by (rule six_bit_digits)
  have sum: "c = w * 262144 + x * 4096 + y * 64 + z" unfolding c(1) by simp
  consider "c < 128" | "128 \<le> c" "c < 2048" | "2048 \<le> c" "c < 65536" | "65536 \<le> c" "c < 1114112"
    using assms unfolding is_scalar_def by linarith
  then show ?thesis
  proof cases
    case 2
    note b = 2 [unfolded sum]
    have "w = 0" "x = 0" using b(2) by simp_all
    with b c(4) have "w = 0" "x = 0" "y < 32" "2 \<le> y" by simp_all
    with 2 show ?thesis unfolding encode_utf8_char_def len_utf8_def d(4-6) unfolding d(1-3) using c by (simp add: is_continuation_def)
  next
    case 3
    note b = 3 [unfolded sum]
    have w: "w = 0" using b(2) by simp
    with b(2) have "x < 16" by simp
    note w = w this
    have "x = 0 \<Longrightarrow> 32 \<le> y" "x = 13 \<Longrightarrow> y < 32" using b(1) c(3,4) w assms [unfolded is_scalar_def sum] by auto
    with 3 w show ?thesis unfolding encode_utf8_char_def len_utf8_def d(4-6) unfolding d(1-3) using c
      by (auto simp: is_continuation_def second_of_three_def)
  next
    case 4
    note b = 4 [unfolded sum]
    have w: "w \<le> 4" using b(2) by simp
    have "w = 0 \<Longrightarrow> 16 \<le> x" "w = 4 \<Longrightarrow> x < 16" using b c(2-4) by simp_all
    with 4 w show ?thesis unfolding encode_utf8_char_def len_utf8_def d(4-6) unfolding d(1-3) using c
      by (auto simp: is_continuation_def second_of_four_def)
  qed (simp add: encode_utf8_char_def len_utf8_def)
qed

lemma from_utf8_encode: "\<forall>c \<in> set s. is_scalar c \<Longrightarrow> from_utf8 (encode_utf8 s) = Inr s"
proof (induction s)
  case (Cons c s)
  have "from_utf8 (encode_utf8_char c) = Inr [c]"
    using encode_utf8_char_first [of c "[]"] Cons.prems
    by (subst from_utf8.simps) (auto simp: encode_utf8_char_def len_utf8_def)
  from from_utf8_append [OF this] Cons show ?case by (simp add: encode_utf8_def after_prefix_def)
qed (simp add: encode_utf8_def)

section \<open>The parser\<close>

datatype utf8_stream_parser_error = InvalidUtf8 nat nat | IncompleteUtf8AtEof

record 's utf8_stream_parser =
  inner :: 's
  pending_utf8 :: "byte list"

definition utf8_new :: "'s \<Rightarrow> 's utf8_stream_parser" where
  "utf8_new s = \<lparr>inner = s, pending_utf8 = []\<rparr>"

text \<open>The parser with the bytes left and the result; \<open>None\<close> if the inner parser does not return.\<close>

type_synonym ('s, 'x) utf8_outcome = "('s utf8_stream_parser \<times> (utf8_stream_parser_error, 'x stream_text_chunk) result) option"

definition push_text :: "('s, 'x) stream_push \<Rightarrow> 's \<Rightarrow> rstr \<Rightarrow> byte list \<Rightarrow> ('s, 'x) utf8_outcome" where
  "push_text push s t rest = map_option (\<lambda>(s', out). (\<lparr>inner = s', pending_utf8 = rest\<rparr>, Inr out)) (push s t)"

definition push_bytes :: "('s, 'x) stream_push \<Rightarrow> 's utf8_stream_parser \<Rightarrow> byte list \<Rightarrow> ('s, 'x) utf8_outcome" where
  "push_bytes push u chunk =
     (let old_len = length (pending_utf8 u);
          buf = pending_utf8 u @ chunk
      in case from_utf8 buf of
           Inr t \<Rightarrow> push_text push (inner u) t []
         | Inl err \<Rightarrow>
             (case error_len err of
                Some k \<Rightarrow> Some (u\<lparr>pending_utf8 := take old_len buf\<rparr>, Inl (InvalidUtf8 (valid_up_to err) k))
              | None \<Rightarrow>
                  if valid_up_to err = 0 then Some (u\<lparr>pending_utf8 := buf\<rparr>, Inr chunk_default)
                  else case from_utf8 (take (valid_up_to err) buf) of
                         Inr t \<Rightarrow> push_text push (inner u) t (drop (valid_up_to err) buf)
                       | Inl prefix_err \<Rightarrow>
                           Some (u\<lparr>pending_utf8 := take old_len buf\<rparr>,
                             Inl (InvalidUtf8 (valid_up_to prefix_err) (case error_len prefix_err of Some k \<Rightarrow> k | None \<Rightarrow> 0)))))"

definition utf8_pending_error :: "'s utf8_stream_parser \<Rightarrow> utf8_stream_parser_error option" where
  "utf8_pending_error u =
     (case from_utf8 (pending_utf8 u) of
        Inr _ \<Rightarrow> None
      | Inl err \<Rightarrow> Some (case error_len err of Some k \<Rightarrow> InvalidUtf8 (valid_up_to err) k | None \<Rightarrow> IncompleteUtf8AtEof))"

definition utf8_finish :: "('s, 'x) stream_push \<Rightarrow> ('s \<Rightarrow> 's \<times> 'x stream_text_chunk) \<Rightarrow> 's utf8_stream_parser \<Rightarrow> ('s, 'x) utf8_outcome" where
  "utf8_finish push fin u =
     (case utf8_pending_error u of
        Some e \<Rightarrow> Some (u, Inl e)
      | None \<Rightarrow>
          (case (if pending_utf8 u = [] then Some (u, Inr chunk_default)
                 else case from_utf8 (pending_utf8 u) of
                        Inr t \<Rightarrow> push_text push (inner u) t []
                      | Inl err \<Rightarrow> Some (u, Inl (InvalidUtf8 (valid_up_to err) (case error_len err of Some k \<Rightarrow> k | None \<Rightarrow> 0)))) of
             None \<Rightarrow> None
           | Some (u', Inl e) \<Rightarrow> Some (u', Inl e)
           | Some (u', Inr out) \<Rightarrow> (case fin (inner u') of (s, tail) \<Rightarrow> Some (u'\<lparr>inner := s\<rparr>, Inr (chunk_append out tail)))))"

definition into_inner :: "'s utf8_stream_parser \<Rightarrow> (utf8_stream_parser_error, 's) result" where
  "into_inner u =
     (if pending_utf8 u = [] then Inr (inner u)
      else case utf8_pending_error u of None \<Rightarrow> Inr (inner u) | Some e \<Rightarrow> Inl e)"

definition into_inner_lossy :: "'s utf8_stream_parser \<Rightarrow> 's" where
  "into_inner_lossy u = inner u"

text \<open>All chunks, then the end, stopping at the first error.\<close>

fun drive_bytes :: "('s, 'x) stream_push \<Rightarrow> ('s \<Rightarrow> 's \<times> 'x stream_text_chunk) \<Rightarrow> 's utf8_stream_parser \<Rightarrow> byte list list \<Rightarrow> ('s, 'x) utf8_outcome" where
  "drive_bytes push fin u [] = utf8_finish push fin u"
| "drive_bytes push fin u (c # cs) =
     Option.bind (push_bytes push u c) (\<lambda>(u', r).
       case r of
         Inl e \<Rightarrow> Some (u', Inl e)
       | Inr out \<Rightarrow> map_option (map_prod id (\<lambda>r. rbind r (\<lambda>out'. Inr (chunk_append out out')))) (drive_bytes push fin u' cs))"

section \<open>The cut of the bytes does not matter\<close>

lemma push_bytes_rollback: "push_bytes push u chunk = Some (u', Inl e) \<Longrightarrow> u' = u"
  by (auto simp: push_bytes_def push_text_def Let_def split: sum.splits option.splits if_splits)

text \<open>What is kept back is the beginning of a code point.\<close>

definition waiting :: "byte list \<Rightarrow> bool" where
  "waiting p \<longleftrightarrow> p = [] \<or> from_utf8 p = Inl \<lparr>valid_up_to = 0, error_len = None\<rparr>"

definition utf8_agrees :: "('x \<Rightarrow> 'e list) \<Rightarrow> (rstr \<Rightarrow> rstr \<times> 'e list) \<Rightarrow> (utf8_error, rstr) result \<Rightarrow> ('s, 'x) utf8_outcome \<Rightarrow> bool" where
  "utf8_agrees view m decoded outcome \<longleftrightarrow>
     (\<exists>u r. outcome = Some (u, r) \<and>
        (case decoded of
           Inr t \<Rightarrow> (\<exists>out. r = Inr out \<and> seen view out = m t)
         | Inl e \<Rightarrow> (case error_len e of None \<Rightarrow> r = Inl IncompleteUtf8AtEof | Some k \<Rightarrow> (\<exists>v. r = Inl (InvalidUtf8 v k)))))"

lemma utf8_agrees_prefix:
  assumes "utf8_agrees view m' r (drive_bytes push fin u cs)" "\<And>t. m (s @ t) = seen_append (seen view out) (m' t)"
  shows "utf8_agrees view m (after_prefix n s r)
     (map_option (map_prod id (\<lambda>r. rbind r (\<lambda>out'. Inr (chunk_append out out')))) (drive_bytes push fin u cs))"
proof (cases r)
  case (Inl e)
  with assms(1) show ?thesis by (cases "error_len e") (auto simp: utf8_agrees_def after_prefix_def shift_error_def)
next
  case (Inr t)
  with assms show ?thesis by (auto simp: utf8_agrees_def after_prefix_def)
qed

lemma append_default_outcome [simp]:
  "map_option (map_prod id (\<lambda>r. rbind r (\<lambda>out'. Inr (chunk_append chunk_default out')))) o1 = (o1 :: ('s, 'x) utf8_outcome)"
  by (cases o1) (auto simp: rbind_def split: sum.split)

context stream_text_parser
begin

lemma drive_bytes_agrees:
  "ok (inner u) \<Longrightarrow> waiting (pending_utf8 u) \<Longrightarrow>
   utf8_agrees view (meaning (inner u)) (from_utf8 (pending_utf8 u @ concat cs)) (drive_bytes push fin u cs)"
proof (induction cs arbitrary: u)
  case Nil
  then show ?case using fin_meaning [of "inner u"]
    by (auto simp: waiting_def utf8_agrees_def utf8_finish_def utf8_pending_error_def split: prod.split)
next
  case (Cons c cs)
  let ?buf = "pending_utf8 u @ c"
  show ?case
  proof (cases "from_utf8 ?buf")
    case (Inr t)
    obtain s' out where p: "push (inner u) t = Some (s', out)" "ok s'" "\<And>r. meaning (inner u) (t @ r) = seen_append (seen view out) (meaning s' r)"
      using push_meaning [OF Cons.prems(1)] by metis
    from Cons.IH [of "\<lparr>inner = s', pending_utf8 = []\<rparr>"] p(2)
    have "utf8_agrees view (meaning s') (from_utf8 (concat cs)) (drive_bytes push fin \<lparr>inner = s', pending_utf8 = []\<rparr> cs)"
      by (simp add: waiting_def)
    from utf8_agrees_prefix [OF this p(3), of "length ?buf"] from_utf8_append [OF Inr, of "concat cs"] p(1) Inr show ?thesis
      by (simp add: push_bytes_def push_text_def)
  next
    case (Inl e)
    note d = from_utf8_Inl [OF Inl]
    show ?thesis
    proof (cases "error_len e")
      case (Some k)
      with d(4) [of "concat cs"] Inl show ?thesis by (simp add: push_bytes_def utf8_agrees_def Let_def)
    next
      case None
      obtain t where t: "from_utf8 (take (valid_up_to e) ?buf) = Inr t" using d(2) by blast
      have rest: "waiting (drop (valid_up_to e) ?buf)" using d(3) None by (simp add: waiting_def)
      have whole: "from_utf8 (?buf @ concat cs) = after_prefix (valid_up_to e) t (from_utf8 (drop (valid_up_to e) ?buf @ concat cs))"
        using from_utf8_append [OF t, of "drop (valid_up_to e) ?buf @ concat cs"] d(1)
        by (metis append.assoc append_take_drop_id length_take min.absorb2)
      show ?thesis
      proof (cases "valid_up_to e = 0")
        case True
        with rest have "waiting ?buf" by simp
        from Cons.IH [of "u\<lparr>pending_utf8 := ?buf\<rparr>"] this Cons.prems(1) Inl None True show ?thesis
          by (simp add: push_bytes_def Let_def del: chunk_append_simps)
      next
        case False
        obtain s' out where p: "push (inner u) t = Some (s', out)" "ok s'" "\<And>r. meaning (inner u) (t @ r) = seen_append (seen view out) (meaning s' r)"
          using push_meaning [OF Cons.prems(1)] by metis
        from Cons.IH [of "\<lparr>inner = s', pending_utf8 = drop (valid_up_to e) ?buf\<rparr>"] p(2) rest
        have "utf8_agrees view (meaning s') (from_utf8 (drop (valid_up_to e) ?buf @ concat cs))
            (drive_bytes push fin \<lparr>inner = s', pending_utf8 = drop (valid_up_to e) ?buf\<rparr> cs)" by simp
        from utf8_agrees_prefix [OF this p(3), of "valid_up_to e"] whole p(1) Inl None False t show ?thesis
          by (simp add: push_bytes_def push_text_def Let_def)
      qed
    qed
  qed
qed

end

text \<open>
  C29: Citations are found in a stream of bytes as in the whole text, wherever the bytes are cut, within a code point too: if the
  bytes encode a text, every push and the end succeed and give what \<open>strip_citations\<close> finds in the text; if
  not, an error is returned.
\<close>

theorem utf8_citations_independent_of_cut:
  "\<exists>s u r. citation_new = Some s \<and> drive_bytes citation_push citation_finish (utf8_new s) cs = Some (u, r) \<and>
     (case from_utf8 (concat cs) of
        Inr t \<Rightarrow> (\<exists>out. r = Inr out \<and> strip_citations t = Some (visible_text out, extracted out))
      | Inl e \<Rightarrow> r = Inl IncompleteUtf8AtEof \<or> (\<exists>v k. r = Inl (InvalidUtf8 v k)))"
proof -
  obtain s where s: "citation_new = Some s" "hidden_ok s" using citation_new_ok by blast
  have "utf8_agrees singly (citation_meaning s) (from_utf8 (concat cs)) (drive_bytes citation_push citation_finish (utf8_new s) cs)"
    using citations.drive_bytes_agrees [of "utf8_new s" cs] s(2) by (simp add: utf8_new_def waiting_def)
  then obtain u r where r: "drive_bytes citation_push citation_finish (utf8_new s) cs = Some (u, r)"
    and cases: "case from_utf8 (concat cs) of Inr t \<Rightarrow> (\<exists>out. r = Inr out \<and> seen singly out = citation_meaning s t)
      | Inl e \<Rightarrow> (case error_len e of None \<Rightarrow> r = Inl IncompleteUtf8AtEof | Some k \<Rightarrow> (\<exists>v. r = Inl (InvalidUtf8 v k)))"
    by (auto simp: utf8_agrees_def)
  show ?thesis
  proof (cases "from_utf8 (concat cs)")
    case (Inl e)
    with s(1) r cases show ?thesis by (cases "error_len e") auto
  next
    case (Inr t)
    with cases obtain out where out: "r = Inr out" "seen singly out = citation_meaning s t" by auto
    obtain one where one: "drive citation_push citation_finish s [t] = Some one" "seen singly one = citation_meaning s t"
      using citations.drive_meaning [OF s(2), of "[t]"] by auto
    have "strip_citations t = Some (visible_text out, extracted out)"
      using one out(2) s(1) by (auto simp: strip_citations_def drive_def Let_def bind_eq_Some_conv seen_def)
    with Inr s(1) r out(1) show ?thesis by auto
  qed
qed

end
