(* ===== verification/Tagged_Lines.thy ===== *)
theory Tagged_Lines
  imports Stream_Text
begin

text \<open>
  The streaming parser for blocks between tags that stand alone on a line
  (\<open>utils/stream-parser/src/tagged_line_parser.rs\<close>) and its instance for proposed plans
  (\<open>proposed_plan.rs\<close>). The parser looks at one character at a time and releases a line as soon as it cannot be a
  tag; the reference classifies whole lines.
\<close>

section \<open>State and operations\<close>

record 't line_tag_spec =
  line_open :: rstr
  line_close :: rstr
  line_tag :: 't

datatype 't tagged_line_segment = NormalSegment rstr | TagStart 't | TagDelta 't rstr | TagEnd 't

record 't tagged_line_parser =
  line_specs :: "'t line_tag_spec list"
  line_active :: "'t option"
  detect_tag :: bool
  line_buffer :: rstr

definition tagged_new :: "'t line_tag_spec list \<Rightarrow> 't tagged_line_parser" where
  "tagged_new specs = \<lparr>line_specs = specs, line_active = None, detect_tag = True, line_buffer = []\<rparr>"

definition push_segment :: "'t tagged_line_segment list \<Rightarrow> 't tagged_line_segment \<Rightarrow> 't tagged_line_segment list" where
  "push_segment segs seg =
     (case seg of
        NormalSegment d \<Rightarrow>
          if d = [] then segs
          else (case last_opt segs of
                  Some (NormalSegment e) \<Rightarrow> butlast segs @ [NormalSegment (e @ d)]
                | _ \<Rightarrow> segs @ [NormalSegment d])
      | TagDelta t d \<Rightarrow>
          if d = [] then segs
          else (case last_opt segs of
                  Some (TagDelta t' e) \<Rightarrow> if t' = t then butlast segs @ [TagDelta t (e @ d)] else segs @ [TagDelta t d]
                | _ \<Rightarrow> segs @ [TagDelta t d])
      | TagStart t \<Rightarrow> segs @ [TagStart t]
      | TagEnd t \<Rightarrow> segs @ [TagEnd t])"

definition push_line_text :: "'t option \<Rightarrow> rstr \<Rightarrow> 't tagged_line_segment list \<Rightarrow> 't tagged_line_segment list" where
  "push_line_text act t segs = push_segment segs (case act of Some tag \<Rightarrow> TagDelta tag t | None \<Rightarrow> NormalSegment t)"

definition is_tag_prefix :: "'t line_tag_spec list \<Rightarrow> rstr \<Rightarrow> bool" where
  "is_tag_prefix specs slug \<longleftrightarrow>
     (let slug = trim_end slug in \<exists>sp \<in> set specs. starts_with (line_open sp) slug \<or> starts_with (line_close sp) slug)"

definition match_open :: "'t line_tag_spec list \<Rightarrow> rstr \<Rightarrow> 't option" where
  "match_open specs slug = map_option line_tag (List.find (\<lambda>sp. line_open sp = slug) specs)"

definition match_close :: "'t line_tag_spec list \<Rightarrow> rstr \<Rightarrow> 't option" where
  "match_close specs slug = map_option line_tag (List.find (\<lambda>sp. line_close sp = slug) specs)"

definition line_slug :: "rstr \<Rightarrow> rstr" where
  "line_slug line = trim_end (trim_start (case strip_suffix [newline] line of Some l \<Rightarrow> l | None \<Rightarrow> line))"

text \<open>What a complete line is: the chain of conditions that \<open>finish_line\<close> and \<open>finish\<close> share.\<close>

datatype 't line_class = OpensTag 't | ClosesTag 't | PlainLine

definition classify_line :: "'t line_tag_spec list \<Rightarrow> 't option \<Rightarrow> rstr \<Rightarrow> 't line_class" where
  "classify_line specs act line =
     (let slug = line_slug line;
          closing = (case match_close specs slug of Some tag \<Rightarrow> if act = Some tag then ClosesTag tag else PlainLine | None \<Rightarrow> PlainLine)
      in case match_open specs slug of Some tag \<Rightarrow> if act = None then OpensTag tag else closing | None \<Rightarrow> closing)"

definition finish_line :: "'t tagged_line_parser \<Rightarrow> 't tagged_line_segment list \<Rightarrow> 't tagged_line_parser \<times> 't tagged_line_segment list" where
  "finish_line s segs =
     (let line = line_buffer s; s = s\<lparr>line_buffer := [], detect_tag := True\<rparr>
      in case classify_line (line_specs s) (line_active s) line of
           OpensTag tag \<Rightarrow> (s\<lparr>line_active := Some tag\<rparr>, push_segment segs (TagStart tag))
         | ClosesTag tag \<Rightarrow> (s\<lparr>line_active := None\<rparr>, push_segment segs (TagEnd tag))
         | PlainLine \<Rightarrow> (s, push_line_text (line_active s) line segs))"

definition parse_char ::
    "'t tagged_line_parser \<times> rstr \<times> 't tagged_line_segment list \<Rightarrow> rchar \<Rightarrow> 't tagged_line_parser \<times> rstr \<times> 't tagged_line_segment list" where
  "parse_char = (\<lambda>(s, run, segs) ch.
     if detect_tag s then
       (let segs = (if run \<noteq> [] then push_line_text (line_active s) run segs else segs);
            s = s\<lparr>line_buffer := line_buffer s @ [ch]\<rparr>
        in if ch = newline then (case finish_line s segs of (s', segs') \<Rightarrow> (s', [], segs'))
           else let slug = trim_start (line_buffer s)
                in if slug = [] \<or> is_tag_prefix (line_specs s) slug then (s, [], segs)
                   else (s\<lparr>line_buffer := [], detect_tag := False\<rparr>, [], push_line_text (line_active s) (line_buffer s) segs))
     else if ch = newline then (s\<lparr>detect_tag := True\<rparr>, [], push_line_text (line_active s) (run @ [ch]) segs)
     else (s, run @ [ch], segs))"

definition tagged_parse :: "'t tagged_line_parser \<Rightarrow> rstr \<Rightarrow> 't tagged_line_parser \<times> 't tagged_line_segment list" where
  "tagged_parse s delta =
     (case foldl parse_char (s, [], []) delta of
        (s', run, segs) \<Rightarrow> (s', if run \<noteq> [] then push_line_text (line_active s') run segs else segs))"

definition tagged_finish :: "'t tagged_line_parser \<Rightarrow> 't tagged_line_parser \<times> 't tagged_line_segment list" where
  "tagged_finish s =
     (case (if line_buffer s \<noteq> [] then finish_line s [] else (s, [])) of
        (s', segs) \<Rightarrow>
          (s'\<lparr>line_active := None, detect_tag := True\<rparr>,
           case line_active s' of Some tag \<Rightarrow> push_segment segs (TagEnd tag) | None \<Rightarrow> segs))"

section \<open>Lines\<close>

text \<open>The reference: characters inside and outside of blocks, and the ends of blocks.\<close>

datatype 't line_event = LineChar "'t option" rchar | BlockStart 't | BlockEnd 't

fun segment_events :: "'t tagged_line_segment \<Rightarrow> 't line_event list" where
  "segment_events (NormalSegment t) = map (LineChar None) t"
| "segment_events (TagDelta tag t) = map (LineChar (Some tag)) t"
| "segment_events (TagStart tag) = [BlockStart tag]"
| "segment_events (TagEnd tag) = [BlockEnd tag]"

abbreviation "segments_events segs \<equiv> concat (map segment_events segs)"

text \<open>\<open>str::split_inclusive\<close> at line feeds.\<close>

fun split_lines :: "rstr \<Rightarrow> rstr list" where
  "split_lines [] = []"
| "split_lines (c # cs) =
     (if c = newline then [c] # split_lines cs else case split_lines cs of [] \<Rightarrow> [[c]] | l # ls \<Rightarrow> (c # l) # ls)"

fun lines_events :: "'t line_tag_spec list \<Rightarrow> 't option \<Rightarrow> rstr list \<Rightarrow> 't line_event list" where
  "lines_events specs act [] = (case act of Some tag \<Rightarrow> [BlockEnd tag] | None \<Rightarrow> [])"
| "lines_events specs act (l # ls) =
     (case classify_line specs act l of
        OpensTag tag \<Rightarrow> BlockStart tag # lines_events specs (Some tag) ls
      | ClosesTag tag \<Rightarrow> BlockEnd tag # lines_events specs None ls
      | PlainLine \<Rightarrow> map (LineChar act) l @ lines_events specs act ls)"

lemma push_segment_events [simp]: "segments_events (push_segment segs seg) = segments_events segs @ segment_events seg"
  by (cases segs rule: rev_cases; cases seg)
     (auto simp: push_segment_def split: tagged_line_segment.split)

lemma push_line_text_events [simp]: "segments_events (push_line_text act t segs) = segments_events segs @ map (LineChar act) t"
  by (auto simp: push_line_text_def split: option.split)

lemma split_lines_append_newline: "newline \<notin> set l \<Longrightarrow> split_lines (l @ newline # r) = (l @ [newline]) # split_lines r"
  by (induction l) auto

lemma split_lines_no_newline: "newline \<notin> set l \<Longrightarrow> l \<noteq> [] \<Longrightarrow> split_lines l = [l]"
proof (induction l)
  case (Cons c l)
  then show ?case by (cases l) auto
qed simp

lemma concat_split_lines [simp]: "concat (split_lines t) = t"
  by (induction t) (auto split: list.split)

text \<open>The first line of a text, with its line feed, and the rest.\<close>

fun first_line :: "rstr \<Rightarrow> rstr \<times> rstr" where
  "first_line [] = ([], [])"
| "first_line (c # cs) = (if c = newline then ([c], cs) else case first_line cs of (l, r) \<Rightarrow> (c # l, r))"

lemma split_lines_first: "t \<noteq> [] \<Longrightarrow> split_lines t = fst (first_line t) # split_lines (snd (first_line t))"
proof (induction t)
  case (Cons c t)
  then show ?case by (cases t) (auto split: prod.split)
qed simp

lemma first_line_append: "newline \<notin> set l \<Longrightarrow> first_line (l @ r) = map_prod ((@) l) id (first_line r)"
  by (induction l) (auto simp: map_prod_def split: prod.splits)

lemma first_line_chars: "first_line t = (l, r) \<Longrightarrow> l = [] \<or> newline \<notin> set (butlast l)"
proof (induction t arbitrary: l r)
  case (Cons c t)
  then show ?case by (auto split: prod.splits if_splits)
qed simp

section \<open>A line that cannot be a tag\<close>

lemma trim_start_append: "\<exists>c \<in> set x. \<not> is_whitespace c \<Longrightarrow> trim_start (x @ y) = trim_start x @ y"
  by (auto simp: trim_start_def dropWhile_append1)

lemma trim_start_eq_Nil_iff: "trim_start x = [] \<longleftrightarrow> (\<forall>c \<in> set x. is_whitespace c)"
  by (simp add: trim_start_def dropWhile_eq_Nil_conv)

lemma trim_end_append: "trim_end (x @ y) = (if \<forall>c \<in> set y. is_whitespace c then trim_end x else x @ trim_end y)"
proof (cases "\<forall>c \<in> set y. is_whitespace c")
  case True
  then show ?thesis using dropWhile_append2 [of "rev y" is_whitespace "rev x"] by (simp add: trim_end_def)
next
  case False
  then obtain c where "c \<in> set (rev y)" "\<not> is_whitespace c" by auto
  with False show ?thesis by (auto simp: trim_end_def dropWhile_append1)
qed

lemma trim_end_append_prefix: "starts_with (trim_end (x @ y)) (trim_end x)"
proof -
  obtain w where "x = trim_end x @ w" using prefix_trim_end by blast
  then have "x @ trim_end y = trim_end x @ (w @ trim_end y)" by (metis append.assoc)
  then have "starts_with (x @ trim_end y) (trim_end x)" unfolding starts_with_iff by blast
  then show ?thesis unfolding trim_end_append by (simp add: starts_with_iff)
qed

text \<open>
  A line whose slug is a delimiter begins, up to each of its characters, with white space or with a beginning of
  the delimiter: the parser never gives up on a tag.
\<close>

lemma slug_prefix:
  assumes "trim_start x \<noteq> []"
  shows "starts_with (trim_end (trim_start (x @ y))) (trim_end (trim_start x))"
proof -
  have "trim_start (x @ y) = trim_start x @ y" using assms by (intro trim_start_append) (auto simp: trim_start_eq_Nil_iff)
  then show ?thesis by (simp add: trim_end_append_prefix)
qed

lemma match_open_Some: "match_open specs slug = Some tag \<Longrightarrow> \<exists>sp \<in> set specs. line_open sp = slug"
  and match_close_Some: "match_close specs slug = Some tag \<Longrightarrow> \<exists>sp \<in> set specs. line_close sp = slug"
  by (auto simp: match_open_def match_close_def find_Some_iff)

lemma line_slug_append: "line_slug (l @ [newline]) = trim_end (trim_start l)"
  by (simp add: line_slug_def strip_suffix_def)

lemma line_slug_no_newline: "newline \<notin> set l \<Longrightarrow> line_slug l = trim_end (trim_start l)"
proof -
  assume "newline \<notin> set l"
  then have "strip_suffix [newline] l = None" by (cases "strip_suffix [newline] l") (auto simp: strip_suffix_Some_iff)
  then show ?thesis by (simp add: line_slug_def)
qed

lemma classify_released:
  assumes "trim_start x \<noteq> []" "\<not> is_tag_prefix specs (trim_start x)"
    and "line_slug l = trim_end (trim_start (x @ y))"
  shows "classify_line specs act l = PlainLine"
proof -
  have "line_open sp \<noteq> line_slug l \<and> line_close sp \<noteq> line_slug l" if "sp \<in> set specs" for sp
    using slug_prefix [OF assms(1), of y] assms(2,3) that by (auto simp: is_tag_prefix_def Let_def)
  then have "match_open specs (line_slug l) = None" "match_close specs (line_slug l) = None"
    using match_open_Some match_close_Some by (metis not_None_eq)+
  then show ?thesis by (simp add: classify_line_def)
qed

section \<open>The parser classifies lines\<close>

text \<open>What the parser has still to say about the text that follows.\<close>

definition line_rest :: "'t tagged_line_parser \<Rightarrow> rstr \<Rightarrow> 't line_event list" where
  "line_rest s r =
     (if detect_tag s then lines_events (line_specs s) (line_active s) (split_lines (line_buffer s @ r))
      else case first_line r of (l, r') \<Rightarrow> map (LineChar (line_active s)) l @ lines_events (line_specs s) (line_active s) (split_lines r'))"

definition tagged_ok :: "'t tagged_line_parser \<Rightarrow> bool" where
  "tagged_ok s \<longleftrightarrow> newline \<notin> set (line_buffer s) \<and> (\<not> detect_tag s \<longrightarrow> line_buffer s = [])"

lemma finish_line_events:
  assumes "finish_line s segs = (s', segs')" "line_buffer s \<noteq> []"
  shows "segments_events segs' @ lines_events (line_specs s') (line_active s') ls =
       segments_events segs @ lines_events (line_specs s) (line_active s) (line_buffer s # ls)"
    and "line_buffer s' = []" "detect_tag s'" "line_specs s' = line_specs s"
  using assms by (auto simp: finish_line_def Let_def split: line_class.splits)

lemma parse_char_events:
  assumes "parse_char (s, run, segs) ch = (s', run', segs')" "tagged_ok s" "run \<noteq> [] \<longrightarrow> \<not> detect_tag s"
  shows "tagged_ok s' \<and> (run' \<noteq> [] \<longrightarrow> \<not> detect_tag s') \<and>
     segments_events segs @ map (LineChar (line_active s)) run @ line_rest s (ch # r) =
     segments_events segs' @ map (LineChar (line_active s')) run' @ line_rest s' r"
proof (cases "detect_tag s")
  case False
  with assms show ?thesis by (auto simp: parse_char_def tagged_ok_def line_rest_def split: if_splits prod.splits)
next
  case True
  with assms(3) have run: "run = []" by simp
  let ?s = "s\<lparr>line_buffer := line_buffer s @ [ch]\<rparr>"
  have nl: "newline \<notin> set (line_buffer s)" using assms(2) by (simp add: tagged_ok_def)
  show ?thesis
  proof (cases "ch = newline")
    case newline: True
    then have f: "finish_line ?s segs = (s', segs')" "run' = []" using assms(1) True run
      by (auto simp: parse_char_def Let_def split: prod.splits)
    from finish_line_events(1) [OF f(1), where ls = "split_lines r"] finish_line_events(2-4) [OF f(1)] f(2) True run newline nl show ?thesis
      by (simp add: tagged_ok_def line_rest_def split_lines_append_newline)
  next
    case other: False
    let ?slug = "trim_start (line_buffer s @ [ch])"
    show ?thesis
    proof (cases "?slug = [] \<or> is_tag_prefix (line_specs s) ?slug")
      case kept: True
      with assms(1) True run other have "s' = ?s" "run' = []" "segs' = segs" by (auto simp: parse_char_def Let_def)
      with run True nl other show ?thesis by (simp add: tagged_ok_def line_rest_def)
    next
      case released: False
      with assms(1) True run other have s': "s' = s\<lparr>line_buffer := [], detect_tag := False\<rparr>" "run' = []"
        "segs' = push_line_text (line_active s) (line_buffer s @ [ch]) segs" by (auto simp: parse_char_def Let_def)
      obtain l r' where l: "first_line r = (l, r')" by fastforce
      have nl': "newline \<notin> set (line_buffer s @ [ch])" using nl other by simp
      have "line_slug ((line_buffer s @ [ch]) @ l) = trim_end (trim_start ((line_buffer s @ [ch]) @ (if newline \<in> set l then butlast l else l)))"
      proof (cases "newline \<in> set l")
        case True
        then have "l = butlast l @ [newline]" using first_line_chars [OF l]
          by (metis append_butlast_last_id empty_iff empty_set in_set_butlastD last_in_set rotate1.simps(2) set_ConsD set_rotate1)
        then show ?thesis using line_slug_append [of "(line_buffer s @ [ch]) @ butlast l"] True by (metis append.assoc)
      qed (use nl' line_slug_no_newline in auto)
      then have "classify_line (line_specs s) (line_active s) ((line_buffer s @ [ch]) @ l) = PlainLine"
        using released by (intro classify_released [where x = "line_buffer s @ [ch]"]) auto
      moreover have "split_lines ((line_buffer s @ [ch]) @ r) = ((line_buffer s @ [ch]) @ l) # split_lines r'"
        using split_lines_first [of "(line_buffer s @ [ch]) @ r"] first_line_append [OF nl', of r] l by simp
      ultimately show ?thesis using s' run True l by (simp add: tagged_ok_def line_rest_def)
    qed
  qed
qed

lemma parse_chars_events:
  "foldl parse_char (s, run, segs) delta = (s', run', segs') \<Longrightarrow> tagged_ok s \<Longrightarrow> run \<noteq> [] \<longrightarrow> \<not> detect_tag s \<Longrightarrow>
   tagged_ok s' \<and>
   segments_events segs @ map (LineChar (line_active s)) run @ line_rest s (delta @ r) =
   segments_events segs' @ map (LineChar (line_active s')) run' @ line_rest s' r"
proof (induction delta arbitrary: s run segs)
  case (Cons ch delta)
  obtain s1 run1 segs1 where c: "parse_char (s, run, segs) ch = (s1, run1, segs1)" by (metis prod_cases3)
  from parse_char_events [OF c Cons.prems(2,3), of "delta @ r"] Cons.IH [of s1 run1 segs1] Cons.prems(1) c show ?case by simp
qed simp

lemma tagged_parse_events:
  assumes "tagged_parse s delta = (s', segs)" "tagged_ok s"
  shows "tagged_ok s' \<and> line_rest s (delta @ r) = segments_events segs @ line_rest s' r"
proof -
  obtain s1 run segs1 where f: "foldl parse_char (s, [], []) delta = (s1, run, segs1)" by (metis prod_cases3)
  from parse_chars_events [OF f assms(2), of r] assms(1) f show ?thesis by (auto simp: tagged_parse_def)
qed

lemma tagged_finish_events:
  assumes "tagged_finish s = (s', segs)" "tagged_ok s"
  shows "tagged_ok s' \<and> segments_events segs = line_rest s []"
proof (cases "line_buffer s = []")
  case True
  with assms show ?thesis by (auto simp: tagged_finish_def tagged_ok_def line_rest_def split: option.splits)
next
  case False
  obtain s1 segs1 where f: "finish_line s [] = (s1, segs1)" by fastforce
  from assms(2) False have d: "detect_tag s" "newline \<notin> set (line_buffer s)" by (auto simp: tagged_ok_def)
  from finish_line_events(1) [OF f False, of "[]"] finish_line_events(2-4) [OF f False] assms(1) f False d show ?thesis
    by (auto simp: tagged_finish_def tagged_ok_def line_rest_def split_lines_no_newline split: option.splits)
qed

section \<open>Proposed plans\<close>

definition OPEN_TAG :: rstr where
  "OPEN_TAG = lit ''<proposed_plan>''"

definition CLOSE_TAG :: rstr where
  "CLOSE_TAG = lit ''</proposed_plan>''"

definition plan_specs :: "unit line_tag_spec list" where
  "plan_specs = [\<lparr>line_open = OPEN_TAG, line_close = CLOSE_TAG, line_tag = ()\<rparr>]"

datatype proposed_plan_segment = PlanNormal rstr | ProposedPlanStart | ProposedPlanDelta rstr | ProposedPlanEnd

type_synonym plan_parser = "unit tagged_line_parser"

definition plan_new :: plan_parser where
  "plan_new = tagged_new plan_specs"

fun plan_segment_of :: "unit tagged_line_segment \<Rightarrow> proposed_plan_segment" where
  "plan_segment_of (NormalSegment t) = PlanNormal t"
| "plan_segment_of (TagStart _) = ProposedPlanStart"
| "plan_segment_of (TagDelta _ t) = ProposedPlanDelta t"
| "plan_segment_of (TagEnd _) = ProposedPlanEnd"

fun map_segments :: "unit tagged_line_segment list \<Rightarrow> proposed_plan_segment stream_text_chunk" where
  "map_segments [] = chunk_default"
| "map_segments (seg # segs) =
     (let mapped = plan_segment_of seg
      in chunk_append \<lparr>visible_text = (case mapped of PlanNormal t \<Rightarrow> t | _ \<Rightarrow> []), extracted = [mapped]\<rparr> (map_segments segs))"

definition plan_push :: "(plan_parser, proposed_plan_segment) stream_push" where
  "plan_push s chunk = (case tagged_parse s chunk of (s', segs) \<Rightarrow> Some (s', map_segments segs))"

definition plan_finish :: "plan_parser \<Rightarrow> plan_parser \<times> proposed_plan_segment stream_text_chunk" where
  "plan_finish s = (case tagged_finish s of (s', segs) \<Rightarrow> (s', map_segments segs))"

definition strip_proposed_plan_blocks :: "rstr \<Rightarrow> rstr option" where
  "strip_proposed_plan_blocks t =
     map_option (\<lambda>(s, out). visible_text out @ visible_text (snd (plan_finish s))) (plan_push plan_new t)"

fun collect_plan :: "rstr \<times> bool \<Rightarrow> proposed_plan_segment list \<Rightarrow> rstr \<times> bool" where
  "collect_plan acc [] = acc"
| "collect_plan (plan_text, saw) (seg # segs) =
     collect_plan (case seg of ProposedPlanStart \<Rightarrow> ([], True) | ProposedPlanDelta d \<Rightarrow> (plan_text @ d, saw) | _ \<Rightarrow> (plan_text, saw)) segs"

definition extract_proposed_plan_text :: "rstr \<Rightarrow> rstr option option" where
  "extract_proposed_plan_text t =
     map_option (\<lambda>(s, out).
        case collect_plan ([], False) (extracted out @ extracted (snd (plan_finish s))) of
          (plan_text, saw) \<Rightarrow> if saw then Some plan_text else None) (plan_push plan_new t)"

text \<open>The events of plan segments, and the text outside of blocks.\<close>

fun plan_events :: "proposed_plan_segment \<Rightarrow> unit line_event list" where
  "plan_events (PlanNormal t) = map (LineChar None) t"
| "plan_events (ProposedPlanDelta t) = map (LineChar (Some ())) t"
| "plan_events ProposedPlanStart = [BlockStart ()]"
| "plan_events ProposedPlanEnd = [BlockEnd ()]"

fun outside :: "unit line_event \<Rightarrow> rstr" where
  "outside (LineChar None c) = [c]"
| "outside _ = []"

abbreviation "outside_text es \<equiv> concat (map outside es)"

definition plan_meaning :: "plan_parser \<Rightarrow> rstr \<Rightarrow> rstr \<times> unit line_event list" where
  "plan_meaning s r = (outside_text (line_rest s r), line_rest s r)"

lemma plan_events_of [simp]: "plan_events (plan_segment_of seg) = segment_events seg"
  by (cases seg) auto

lemma outside_segment: "outside_text (segment_events seg) = (case plan_segment_of seg of PlanNormal t \<Rightarrow> t | _ \<Rightarrow> [])"
  by (cases seg) (auto simp: comp_def)

lemma seen_map_segments: "seen plan_events (map_segments segs) = (outside_text (segments_events segs), segments_events segs)"
  by (induction segs) (auto simp: Let_def seen_def chunk_default_def chunk_append_def outside_segment)

interpretation plans: stream_text_parser plan_push plan_finish tagged_ok plan_events plan_meaning
proof
  fix s :: plan_parser and c assume ok: "tagged_ok s"
  obtain s' segs where p: "tagged_parse s c = (s', segs)" by fastforce
  have "tagged_ok s'" "\<And>r. line_rest s (c @ r) = segments_events segs @ line_rest s' r" using tagged_parse_events [OF p ok] by auto
  with p show "\<exists>s' out. plan_push s c = Some (s', out) \<and> tagged_ok s' \<and> (\<forall>r. plan_meaning s (c @ r) = seen_append (seen plan_events out) (plan_meaning s' r))"
    by (auto simp: plan_push_def plan_meaning_def seen_map_segments seen_append_def)
next
  fix s :: plan_parser assume ok: "tagged_ok s"
  obtain s' segs where p: "tagged_finish s = (s', segs)" by fastforce
  from tagged_finish_events [OF p ok] p show "tagged_ok (fst (plan_finish s)) \<and> seen plan_events (snd (plan_finish s)) = plan_meaning s []"
    by (simp add: plan_finish_def plan_meaning_def seen_map_segments)
qed

section \<open>Plans in a whole text\<close>

fun plan_step :: "rstr \<times> bool \<Rightarrow> unit line_event \<Rightarrow> rstr \<times> bool" where
  "plan_step acc (BlockStart _) = ([], True)"
| "plan_step (t, saw) (LineChar (Some _) c) = (t @ [c], saw)"
| "plan_step acc _ = acc"

lemma foldl_plan_step_text:
  "foldl plan_step (t, saw) (map (LineChar act) l) = (case act of Some _ \<Rightarrow> (t @ l, saw) | None \<Rightarrow> (t, saw))"
  by (induction l arbitrary: t) (auto split: option.splits)

lemma collect_plan_events: "collect_plan acc segs = foldl plan_step acc (concat (map plan_events segs))"
  by (induction acc segs rule: collect_plan.induct) (auto simp: foldl_plan_step_text split: proposed_plan_segment.split)

abbreviation "text_events t \<equiv> lines_events plan_specs None (split_lines t)"

lemma plan_new_ok: "tagged_ok plan_new" "plan_meaning plan_new t = (outside_text (text_events t), text_events t)"
  by (simp_all add: plan_new_def tagged_new_def tagged_ok_def plan_meaning_def line_rest_def)

lemma plan_text_events:
  "strip_proposed_plan_blocks t = Some (outside_text (text_events t))"
  "extract_proposed_plan_text t = Some (case foldl plan_step ([], False) (text_events t) of (plan, saw) \<Rightarrow> if saw then Some plan else None)"
proof -
  obtain s out where p: "plan_push plan_new t = Some (s, out)" "tagged_ok s"
      "plan_meaning plan_new (t @ []) = seen_append (seen plan_events out) (plan_meaning s [])"
    using plans.push_meaning [OF plan_new_ok(1), of t] by metis
  have "seen plan_events (chunk_append out (snd (plan_finish s))) = (outside_text (text_events t), text_events t)"
    using p(3) plans.fin_meaning [OF p(2)] by (simp add: plan_new_ok(2))
  then have "visible_text out @ visible_text (snd (plan_finish s)) = outside_text (text_events t)"
    "concat (map plan_events (extracted out @ extracted (snd (plan_finish s)))) = text_events t"
    unfolding seen_def by simp_all
  with p(1) show "strip_proposed_plan_blocks t = Some (outside_text (text_events t))"
    "extract_proposed_plan_text t = Some (case foldl plan_step ([], False) (text_events t) of (plan, saw) \<Rightarrow> if saw then Some plan else None)"
    by (simp_all add: strip_proposed_plan_blocks_def extract_proposed_plan_text_def collect_plan_events del: map_append concat_append foldl_append)
qed

definition whole_lines :: "rstr \<Rightarrow> bool" where
  "whole_lines t \<longleftrightarrow> t = [] \<or> last t = newline"

definition plain_lines :: "unit option \<Rightarrow> rstr \<Rightarrow> bool" where
  "plain_lines act t \<longleftrightarrow> (\<forall>l \<in> set (split_lines t). classify_line plan_specs act l = PlainLine)"

lemma split_lines_append: "whole_lines t \<Longrightarrow> split_lines (t @ r) = split_lines t @ split_lines r"
proof (induction t)
  case (Cons c t)
  then have "split_lines (t @ r) = split_lines t @ split_lines r" by (auto simp: whole_lines_def split: if_splits)
  moreover have "c \<noteq> newline \<Longrightarrow> split_lines t \<noteq> []" using Cons.prems by (cases t) (auto simp: whole_lines_def split: list.split)
  ultimately show ?case by (auto split: list.split)
qed simp

lemma lines_events_plain:
  "plain_lines act t \<Longrightarrow> lines_events plan_specs act (split_lines t @ ls) = map (LineChar act) t @ lines_events plan_specs act ls"
proof -
  have "\<forall>l \<in> set ks. classify_line plan_specs act l = PlainLine \<Longrightarrow>
      lines_events plan_specs act (ks @ ls) = map (LineChar act) (concat ks) @ lines_events plan_specs act ls" for ks
    by (induction ks) auto
  then show "plain_lines act t \<Longrightarrow> ?thesis" by (simp add: plain_lines_def)
qed

lemma classify_plan_tags:
  "classify_line plan_specs None (OPEN_TAG @ [newline]) = OpensTag ()"
  "classify_line plan_specs (Some ()) (CLOSE_TAG @ [newline]) = ClosesTag ()"
  by code_simp+

lemma split_lines_tags: "split_lines (OPEN_TAG @ [newline]) = [OPEN_TAG @ [newline]]" "split_lines (CLOSE_TAG @ [newline]) = [CLOSE_TAG @ [newline]]"
  by code_simp+

text \<open>
  A plan in a text is found again: a block whose lines are no closing tag, between lines that are no tags, is returned as it
  stands, and stripping the plan leaves the text around it.
\<close>

lemma proposed_plan_roundtrip:
  assumes "whole_lines pre" "whole_lines plan" "plain_lines None pre" "plain_lines (Some ()) plan" "plain_lines None post"
    and "t = pre @ OPEN_TAG @ [newline] @ plan @ CLOSE_TAG @ [newline] @ post"
  shows "extract_proposed_plan_text t = Some (Some plan) \<and> strip_proposed_plan_blocks t = Some (pre @ post)"
proof -
  have "split_lines t = split_lines pre @ (OPEN_TAG @ [newline]) # split_lines plan @ (CLOSE_TAG @ [newline]) # split_lines post"
    unfolding assms(6) using assms(1,2) split_lines_append [of "OPEN_TAG @ [newline]"] split_lines_append [of "CLOSE_TAG @ [newline]"] split_lines_tags
    by (simp add: split_lines_append whole_lines_def)
  then have "text_events t = map (LineChar None) pre @ BlockStart () # map (LineChar (Some ())) plan @ BlockEnd () # map (LineChar None) post"
    using lines_events_plain [OF assms(5), of "[]"] by (simp add: lines_events_plain assms(3,4) classify_plan_tags)
  moreover have "outside_text (map (LineChar None) l) = l" "outside_text (map (LineChar (Some ())) l) = []" for l by (induction l) auto
  ultimately show ?thesis by (simp add: plan_text_events foldl_plan_step_text)
qed

definition demo_plan_text :: rstr where
  "demo_plan_text = (lit ''a'' @ [newline]) @ OPEN_TAG @ [newline] @ (lit ''- s'' @ [newline]) @ CLOSE_TAG @ [newline] @ lit ''b''"

end
