(* ===== verification/Assistant_Text.thy ===== *)
theory Assistant_Text
  imports Utf8_Stream Tagged_Lines
begin

text \<open>
  The parser for assistant text (\<open>utils/stream-parser/src/assistant_text.rs\<close>): citations are taken out first, and in plan mode
  the text that remains goes through the parser for proposed plans. Its output is that of the
  two scanners on the whole text, however the text is cut.
\<close>

section \<open>State and operations\<close>

record assistant_text_chunk =
  assistant_visible :: rstr
  assistant_citations :: "rstr list"
  plan_segments :: "proposed_plan_segment list"

definition assistant_chunk_default :: assistant_text_chunk where
  "assistant_chunk_default = \<lparr>assistant_visible = [], assistant_citations = [], plan_segments = []\<rparr>"

definition assistant_chunk_is_empty :: "assistant_text_chunk \<Rightarrow> bool" where
  "assistant_chunk_is_empty c \<longleftrightarrow> assistant_visible c = [] \<and> assistant_citations c = [] \<and> plan_segments c = []"

record assistant_text_stream_parser =
  plan_mode :: bool
  citations :: citation_parser
  plan :: plan_parser

definition assistant_new :: "bool \<Rightarrow> assistant_text_stream_parser option" where
  "assistant_new mode = map_option (\<lambda>c. \<lparr>plan_mode = mode, citations = c, plan = plan_new\<rparr>) citation_new"

definition parse_visible_text :: "assistant_text_stream_parser \<Rightarrow> rstr \<Rightarrow> (assistant_text_stream_parser \<times> assistant_text_chunk) option" where
  "parse_visible_text s v =
     (if \<not> plan_mode s then Some (s, assistant_chunk_default\<lparr>assistant_visible := v\<rparr>)
      else map_option (\<lambda>(p, out). (s\<lparr>plan := p\<rparr>, assistant_chunk_default\<lparr>assistant_visible := visible_text out, plan_segments := extracted out\<rparr>))
             (plan_push (plan s) v))"

definition assistant_push :: "assistant_text_stream_parser \<Rightarrow> rstr \<Rightarrow> (assistant_text_stream_parser \<times> assistant_text_chunk) option" where
  "assistant_push s chunk =
     Option.bind (citation_push (citations s) chunk) (\<lambda>(c, found).
     map_option (\<lambda>(s', out). (s', out\<lparr>assistant_citations := extracted found\<rparr>))
       (parse_visible_text (s\<lparr>citations := c\<rparr>) (visible_text found)))"

definition assistant_finish :: "assistant_text_stream_parser \<Rightarrow> (assistant_text_stream_parser \<times> assistant_text_chunk) option" where
  "assistant_finish s =
     (case citation_finish (citations s) of (c, found) \<Rightarrow>
      map_option (\<lambda>(s', out).
          let (s'', out') =
                (if plan_mode s' then
                   (case plan_finish (plan s') of (p, tail) \<Rightarrow>
                      (s'\<lparr>plan := p\<rparr>,
                       if \<not> chunk_is_empty tail
                       then out\<lparr>assistant_visible := assistant_visible out @ visible_text tail, plan_segments := plan_segments out @ extracted tail\<rparr>
                       else out))
                 else (s', out))
          in (s'', out'\<lparr>assistant_citations := extracted found\<rparr>))
        (parse_visible_text (s\<lparr>citations := c\<rparr>) (visible_text found)))"

definition assistant_append :: "assistant_text_chunk \<Rightarrow> assistant_text_chunk \<Rightarrow> assistant_text_chunk" where
  "assistant_append a b =
     \<lparr>assistant_visible = assistant_visible a @ assistant_visible b, assistant_citations = assistant_citations a @ assistant_citations b,
      plan_segments = plan_segments a @ plan_segments b\<rparr>"

fun assistant_drive :: "assistant_text_stream_parser \<Rightarrow> rstr list \<Rightarrow> assistant_text_chunk option" where
  "assistant_drive s [] = map_option snd (assistant_finish s)"
| "assistant_drive s (c # cs) =
     Option.bind (assistant_push s c) (\<lambda>(s', out). map_option (assistant_append out) (assistant_drive s' cs))"

section \<open>The meaning of a text\<close>

definition assistant_ok :: "assistant_text_stream_parser \<Rightarrow> bool" where
  "assistant_ok s \<longleftrightarrow> hidden_ok (citations s) \<and> tagged_ok (plan s)"

definition assistant_meaning :: "assistant_text_stream_parser \<Rightarrow> rstr \<Rightarrow> rstr \<times> rstr list \<times> unit line_event list" where
  "assistant_meaning s r =
     (let (v, cs) = citation_meaning (citations s) r
      in if plan_mode s then (let (v', es) = plan_meaning (plan s) v in (v', cs, es)) else (v, cs, []))"

definition assistant_seen :: "assistant_text_chunk \<Rightarrow> rstr \<times> rstr list \<times> unit line_event list" where
  "assistant_seen c = (assistant_visible c, assistant_citations c, concat (map plan_events (plan_segments c)))"

definition triple_append :: "'a list \<times> 'b list \<times> 'c list \<Rightarrow> 'a list \<times> 'b list \<times> 'c list \<Rightarrow> 'a list \<times> 'b list \<times> 'c list" where
  "triple_append = (\<lambda>(a, b, c) (a', b', c'). (a @ a', b @ b', c @ c'))"

lemma assistant_seen_append: "assistant_seen (assistant_append a b) = triple_append (assistant_seen a) (assistant_seen b)"
  by (simp add: assistant_seen_def assistant_append_def triple_append_def)

lemma assistant_push_meaning:
  assumes "assistant_ok s"
  shows "\<exists>s' out. assistant_push s c = Some (s', out) \<and> assistant_ok s' \<and>
     (\<forall>r. assistant_meaning s (c @ r) = triple_append (assistant_seen out) (assistant_meaning s' r))"
proof -
  obtain cs co where c: "citation_push (citations s) c = Some (cs, co)" "hidden_ok cs"
      "\<And>r. citation_meaning (citations s) (c @ r) = seen_append (seen singly co) (citation_meaning cs r)"
    using citations.push_meaning [of "citations s" c] assms by (auto simp: assistant_ok_def)
  obtain p po where p: "plan_push (plan s) (visible_text co) = Some (p, po)" "tagged_ok p"
      "\<And>r. plan_meaning (plan s) (visible_text co @ r) = seen_append (seen plan_events po) (plan_meaning p r)"
    using plans.push_meaning [of "plan s" "visible_text co"] assms by (auto simp: assistant_ok_def)
  show ?thesis
    using c p(1,2) assms
    by (auto simp: assistant_push_def parse_visible_text_def assistant_ok_def assistant_meaning_def assistant_seen_def seen_append_def seen_def
          triple_append_def assistant_chunk_default_def p(3) split: prod.split)
qed

lemma assistant_finish_meaning:
  assumes "assistant_ok s"
  shows "\<exists>s' out. assistant_finish s = Some (s', out) \<and> assistant_seen out = assistant_meaning s []"
proof -
  obtain cs co where c: "citation_finish (citations s) = (cs, co)" "seen singly co = citation_meaning (citations s) []"
    using citations.fin_meaning [of "citations s"] assms by (auto simp: assistant_ok_def) (metis prod.collapse)
  obtain p po where p: "plan_push (plan s) (visible_text co) = Some (p, po)" "tagged_ok p"
      "plan_meaning (plan s) (visible_text co @ []) = seen_append (seen plan_events po) (plan_meaning p [])"
    using plans.push_meaning [of "plan s" "visible_text co"] assms unfolding assistant_ok_def by metis
  obtain p' tail where t: "plan_finish p = (p', tail)" "seen plan_events tail = plan_meaning p []"
    using plans.fin_meaning [OF p(2)] by (metis prod.collapse)
  have "seen plan_events po = seen_append (seen plan_events po) (seen plan_events tail)" if "chunk_is_empty tail"
    using that by (simp add: seen_def chunk_is_empty_def seen_append_def)
  with c p t assms show ?thesis
    by (auto simp: assistant_finish_def parse_visible_text_def assistant_meaning_def assistant_seen_def seen_append_def seen_def
          assistant_chunk_default_def chunk_is_empty_def split: prod.splits)
qed

lemma assistant_drive_meaning:
  "assistant_ok s \<Longrightarrow> \<exists>out. assistant_drive s cs = Some out \<and> assistant_seen out = assistant_meaning s (concat cs)"
proof (induction cs arbitrary: s)
  case Nil
  from assistant_finish_meaning [OF this] show ?case by auto
next
  case (Cons c cs)
  obtain s' out where p: "assistant_push s c = Some (s', out)" "assistant_ok s'"
      "\<And>r. assistant_meaning s (c @ r) = triple_append (assistant_seen out) (assistant_meaning s' r)"
    using assistant_push_meaning [OF Cons.prems] by metis
  from Cons.IH [OF p(2)] p(1,3) show ?case by (auto simp: assistant_seen_append)
qed

text \<open>
  C18: What is shown of a streamed answer does not depend on how it arrives: for every cut of the text all pushes return, and the
  text shown, the citations and the plan blocks, character by character, are those of the whole text: citations are taken out by the
  scanner for inline tags, and in plan mode the lines of the rest are classified one by one.
\<close>

theorem assistant_text_independent_of_cut:
  "\<exists>s out. assistant_new mode = Some s \<and> assistant_drive s cs = Some out \<and>
     assistant_seen out =
       (case scan_tags citation_specs None (concat cs) of
          (v, tags) \<Rightarrow>
            if mode then (outside_text (text_events v), map ext_content tags, text_events v) else (v, map ext_content tags, []))"
proof -
  obtain c where c: "citation_new = Some c" "hidden_ok c"
    "citation_meaning c (concat cs) = map_prod id (map ext_content) (scan_tags citation_specs None (concat cs))"
    using citation_new_ok by metis
  let ?s = "\<lparr>plan_mode = mode, citations = c, plan = plan_new\<rparr>"
  have "assistant_ok ?s" using c(2) plan_new_ok(1) by (simp add: assistant_ok_def)
  from assistant_drive_meaning [OF this, of cs] c show ?thesis
    by (auto simp: assistant_new_def assistant_meaning_def plan_new_ok(2) split: prod.splits)
qed

end
