(* ===== verification/Proxy_Address.thy ===== *)
theory Proxy_Address
  imports Rust_Str "HOL-Library.Word"
begin

text \<open>
  Addresses as the network proxy sees them (\<open>network-proxy/src/policy.rs\<close>): the textual form that
  \<open>IpAddr::from_str\<close> of the standard library accepts, and the classification of addresses that
  are not public. The bit masks of the source are proved to be the address ranges they stand for.
\<close>

unbundle bit_operations_syntax

section \<open>Addresses\<close>

type_synonym ipv4 = "32 word"
type_synonym ipv6 = "16 word list"

datatype ip_addr = V4 ipv4 | V6 ipv6

definition ipv4_of_octets :: "nat \<Rightarrow> nat \<Rightarrow> nat \<Rightarrow> nat \<Rightarrow> ipv4" where
  "ipv4_of_octets a b c d = word_of_nat (((a * 256 + b) * 256 + c) * 256 + d)"

definition octet :: "nat \<Rightarrow> ipv4 \<Rightarrow> nat" where
  "octet i ip = unat (drop_bit (8 * (3 - i)) ip) mod 256"

section \<open>Parsing\<close>

text \<open>
  A reader consumes the beginning of a string. Readers are tried atomically: a reader that fails consumes nothing.
\<close>

type_synonym 'a reader = "rstr \<Rightarrow> ('a \<times> rstr) option"

definition read_given_char :: "rchar \<Rightarrow> unit reader" where
  "read_given_char c s = (case s of [] \<Rightarrow> None | x # xs \<Rightarrow> if x = c then Some ((), xs) else None)"

definition read_separator :: "rchar \<Rightarrow> nat \<Rightarrow> 'a reader \<Rightarrow> 'a reader" where
  "read_separator sep i inner s =
     (if 0 < i then Option.bind (read_given_char sep s) (\<lambda>(_, s'). inner s') else inner s)"

definition to_digit :: "nat \<Rightarrow> rchar \<Rightarrow> nat option" where
  "to_digit radix c =
     (let d = (if 48 \<le> c \<and> c \<le> 57 then Some (c - 48)
               else if 97 \<le> c \<and> c \<le> 122 then Some (c - 87)
               else if 65 \<le> c \<and> c \<le> 90 then Some (c - 55) else None)
      in case d of Some n \<Rightarrow> if n < radix then Some n else None | None \<Rightarrow> None)"

text \<open>The digits at the beginning; more than \<open>max_digits\<close> of them fail.\<close>

fun read_digits :: "nat \<Rightarrow> nat \<Rightarrow> nat \<Rightarrow> nat \<Rightarrow> rstr \<Rightarrow> (nat \<times> nat \<times> rstr) option" where
  "read_digits radix max_digits result count [] = Some (result, count, [])"
| "read_digits radix max_digits result count (c # cs) =
     (case to_digit radix c of
        None \<Rightarrow> Some (result, count, c # cs)
      | Some d \<Rightarrow> if max_digits < Suc count then None else read_digits radix max_digits (result * radix + d) (Suc count) cs)"

definition read_number :: "nat \<Rightarrow> nat \<Rightarrow> nat \<Rightarrow> bool \<Rightarrow> nat reader" where
  "read_number radix max_digits bound allow_zero_prefix s =
     (case read_digits radix max_digits 0 0 s of
        None \<Rightarrow> None
      | Some (result, count, rest) \<Rightarrow>
          if count = 0 \<or> \<not> allow_zero_prefix \<and> hd s = 48 \<and> 1 < count \<or> bound \<le> result then None else Some (result, rest))"

definition read_octet :: "nat \<Rightarrow> nat reader" where
  "read_octet i = read_separator 46 i (read_number 10 3 256 False)"

definition read_ipv4_addr :: "ipv4 reader" where
  "read_ipv4_addr s =
     Option.bind (read_octet 0 s) (\<lambda>(a, s).
     Option.bind (read_octet 1 s) (\<lambda>(b, s).
     Option.bind (read_octet 2 s) (\<lambda>(c, s).
     Option.bind (read_octet 3 s) (\<lambda>(d, s). Some (ipv4_of_octets a b c d, s)))))"

text \<open>\<open>read_groups\<close>: up to \<open>limit\<close> groups, the last two of which may be written as an IPv4 address.\<close>

function read_groups :: "nat \<Rightarrow> nat \<Rightarrow> rstr \<Rightarrow> 16 word list \<times> bool \<times> rstr" where
  "read_groups limit i s =
     (if limit \<le> i then ([], False, s)
      else case (if i < limit - 1 then read_separator colon i read_ipv4_addr s else None) of
             Some (v4, rest) \<Rightarrow> ([word_of_nat (octet 0 v4 * 256 + octet 1 v4), word_of_nat (octet 2 v4 * 256 + octet 3 v4)], True, rest)
           | None \<Rightarrow>
               (case read_separator colon i (read_number 16 4 65536 True) s of
                  None \<Rightarrow> ([], False, s)
                | Some (g, rest) \<Rightarrow>
                    (case read_groups limit (Suc i) rest of (gs, v4, rest') \<Rightarrow> (word_of_nat g # gs, v4, rest'))))"
  by pat_completeness auto
termination by (relation "measure (\<lambda>(limit, i, _). limit - i)") auto

declare read_groups.simps [simp del]

definition read_ipv6_addr :: "ipv6 reader" where
  "read_ipv6_addr s =
     (case read_groups 8 0 s of
        (head, head_ipv4, s) \<Rightarrow>
          if length head = 8 then Some (head, s)
          else if head_ipv4 then None
          else Option.bind (read_given_char colon s) (\<lambda>(_, s).
               Option.bind (read_given_char colon s) (\<lambda>(_, s).
                 case read_groups (8 - (length head + 1)) 0 s of
                   (tail, _, s) \<Rightarrow> Some (head @ replicate (8 - length head - length tail) 0 @ tail, s))))"

definition parse_ip :: "rstr \<Rightarrow> ip_addr option" where
  "parse_ip s =
     (case (case read_ipv4_addr s of Some (v4, rest) \<Rightarrow> Some (V4 v4, rest) | None \<Rightarrow> map_option (map_prod V6 id) (read_ipv6_addr s)) of
        Some (ip, []) \<Rightarrow> Some ip
      | _ \<Rightarrow> None)"

lemmas parse_ip_simps = parse_ip_def read_ipv4_addr_def read_octet_def read_separator_def read_number_def to_digit_def
  read_ipv6_addr_def read_groups.simps read_given_char_def

section \<open>Classification\<close>

definition ipv4_is_loopback :: "ipv4 \<Rightarrow> bool" where
  "ipv4_is_loopback ip \<longleftrightarrow> octet 0 ip = 127"

definition ipv4_is_private :: "ipv4 \<Rightarrow> bool" where
  "ipv4_is_private ip \<longleftrightarrow>
     octet 0 ip = 10 \<or> octet 0 ip = 172 \<and> 16 \<le> octet 1 ip \<and> octet 1 ip \<le> 31 \<or> octet 0 ip = 192 \<and> octet 1 ip = 168"

definition ipv4_in_cidr :: "ipv4 \<Rightarrow> ipv4 \<Rightarrow> nat \<Rightarrow> bool" where
  "ipv4_in_cidr ip base len =
     (let mask = (if len = 0 then 0 else push_bit (32 - len) (- 1 :: ipv4)) in ip AND mask = base AND mask)"

definition is_non_public_ipv4 :: "ipv4 \<Rightarrow> bool" where
  "is_non_public_ipv4 ip \<longleftrightarrow>
     ipv4_is_loopback ip \<or> ipv4_is_private ip \<or> octet 0 ip = 169 \<and> octet 1 ip = 254 \<or> ip = 0 \<or>
     224 \<le> octet 0 ip \<and> octet 0 ip \<le> 239 \<or> ip = - 1 \<or>
     ipv4_in_cidr ip (ipv4_of_octets 0 0 0 0) 8 \<or> ipv4_in_cidr ip (ipv4_of_octets 100 64 0 0) 10 \<or>
     ipv4_in_cidr ip (ipv4_of_octets 192 0 0 0) 24 \<or> ipv4_in_cidr ip (ipv4_of_octets 192 0 2 0) 24 \<or>
     ipv4_in_cidr ip (ipv4_of_octets 198 18 0 0) 15 \<or> ipv4_in_cidr ip (ipv4_of_octets 198 51 100 0) 24 \<or>
     ipv4_in_cidr ip (ipv4_of_octets 203 0 113 0) 24 \<or> ipv4_in_cidr ip (ipv4_of_octets 240 0 0 0) 4"

definition segment :: "nat \<Rightarrow> ipv6 \<Rightarrow> 16 word" where
  "segment i ip = (if i < length ip then ip ! i else 0)"

definition to_ipv4 :: "ipv6 \<Rightarrow> ipv4 option" where
  "to_ipv4 ip =
     (if (\<forall>i \<in> set [0..<5]. segment i ip = 0) \<and> (segment 5 ip = 0 \<or> segment 5 ip = 65535)
      then Some (word_of_nat (unat (segment 6 ip) * 65536 + unat (segment 7 ip))) else None)"

definition ipv6_is_loopback :: "ipv6 \<Rightarrow> bool" where
  "ipv6_is_loopback ip \<longleftrightarrow> ip = [0, 0, 0, 0, 0, 0, 0, 1]"

definition is_non_public_ipv6 :: "ipv6 \<Rightarrow> bool" where
  "is_non_public_ipv6 ip =
     (case to_ipv4 ip of
        Some v4 \<Rightarrow> is_non_public_ipv4 v4 \<or> ipv6_is_loopback ip
      | None \<Rightarrow>
          ipv6_is_loopback ip \<or> ip = replicate 8 0 \<or> segment 0 ip AND 65280 = 65280 \<or>
          segment 0 ip AND 65024 = 64512 \<or> segment 0 ip AND 65472 = 65152)"

definition is_non_public_ip :: "ip_addr \<Rightarrow> bool" where
  "is_non_public_ip ip = (case ip of V4 v4 \<Rightarrow> is_non_public_ipv4 v4 | V6 v6 \<Rightarrow> is_non_public_ipv6 v6)"

definition ip_is_loopback :: "ip_addr \<Rightarrow> bool" where
  "ip_is_loopback ip = (case ip of V4 v4 \<Rightarrow> ipv4_is_loopback v4 | V6 v6 \<Rightarrow> ipv6_is_loopback v6)"

section \<open>Masks are ranges\<close>

lemma unat_drop_bit_div: "unat (drop_bit k (w :: 'a :: len word)) = unat w div 2 ^ k"
  by (subst unat_drop_bit_eq) (rule drop_bit_eq_div)

lemma and_high_mask_eq_iff: "a AND NOT (mask k) = b AND NOT (mask k) \<longleftrightarrow> unat a div 2 ^ k = unat b div 2 ^ k"
  for a b :: "'a :: len word"
proof -
  have high: "w AND NOT (mask k) = push_bit k (drop_bit k w)" "drop_bit k (w AND NOT (mask k)) = drop_bit k w" for w :: "'a word"
    by (rule bit_word_eqI; auto simp: bit_simps dest: bit_imp_le_length)+
  have "a AND NOT (mask k) = b AND NOT (mask k) \<longleftrightarrow> drop_bit k a = drop_bit k b"
    by (metis high)
  then show ?thesis by (simp only: word_unat_eq_iff unat_drop_bit_div)
qed

lemma ipv4_in_cidr_iff: "0 < len \<Longrightarrow> ipv4_in_cidr ip base len \<longleftrightarrow> unat ip div 2 ^ (32 - len) = unat base div 2 ^ (32 - len)"
  by (simp add: ipv4_in_cidr_def and_high_mask_eq_iff Let_def)

lemma div_eq_iff_range: "0 < k \<Longrightarrow> n div k = q \<longleftrightarrow> q * k \<le> n \<and> n < q * k + k" for n k q :: nat
  by (metis add.commute div_mult_mod_eq div_nat_eqI le_add1 mult.commute mult_Suc_right nat_add_left_cancel_less mod_less_divisor)

lemma octet_div: "octet i ip = unat ip div 2 ^ (8 * (3 - i)) mod 256"
  by (simp only: octet_def unat_drop_bit_div)

text \<open>The blocks of addresses that are not public, in the form of a registry: first address and prefix length.\<close>

definition non_public_blocks :: "(nat \<times> nat) list" where
  "non_public_blocks =
     [(0, 8), (10 * 2 ^ 24, 8), (100 * 2 ^ 24 + 64 * 2 ^ 16, 10), (127 * 2 ^ 24, 8), (169 * 2 ^ 24 + 254 * 2 ^ 16, 16),
      (172 * 2 ^ 24 + 16 * 2 ^ 16, 12), (192 * 2 ^ 24, 24), (192 * 2 ^ 24 + 2 * 2 ^ 8, 24), (192 * 2 ^ 24 + 168 * 2 ^ 16, 16),
      (198 * 2 ^ 24 + 18 * 2 ^ 16, 15), (198 * 2 ^ 24 + 51 * 2 ^ 16 + 100 * 2 ^ 8, 24), (203 * 2 ^ 24 + 113 * 2 ^ 8, 24),
      (224 * 2 ^ 24, 4), (240 * 2 ^ 24, 4)]"

definition in_block :: "nat \<Rightarrow> nat \<times> nat \<Rightarrow> bool" where
  "in_block n = (\<lambda>(base, len). base \<le> n \<and> n < base + 2 ^ (32 - len))"

lemma octet_0: "octet 0 ip = unat ip div 16777216"
proof -
  have "unat ip div 16777216 < 256" using unsigned_less [of ip, where 'a = nat] by (simp add: less_mult_imp_div_less)
  then show ?thesis by (simp add: octet_div)
qed

lemma octet_1: "octet 1 ip = unat ip div 65536 mod 256"
  by (simp add: octet_div)

lemma octet_01:
  assumes "q < 256"
  shows "octet 0 ip = a \<and> octet 1 ip = q \<longleftrightarrow> unat ip div 65536 = a * 256 + q"
proof -
  have "unat ip div 16777216 = unat ip div 65536 div 256" by (simp add: div_mult2_eq [symmetric])
  then show ?thesis unfolding octet_0 octet_1 using assms by auto
qed

lemma unat_ipv4_of_octets:
  "a < 256 \<Longrightarrow> b < 256 \<Longrightarrow> c < 256 \<Longrightarrow> d < 256 \<Longrightarrow> unat (ipv4_of_octets a b c d) = ((a * 256 + b) * 256 + c) * 256 + d"
  unfolding ipv4_of_octets_def by (subst unsigned_of_nat) (simp add: take_bit_nat_eq_self)

lemma div_le_iff_range: "0 < k \<Longrightarrow> n div k \<le> q \<longleftrightarrow> n < q * k + k" for n k q :: nat
  by (metis add.commute div_less_iff_less_mult less_Suc_eq_le mult_Suc)

lemma private_172: "octet 0 ip = 172 \<and> 16 \<le> octet 1 ip \<and> octet 1 ip \<le> 31 \<longleftrightarrow> 44048 \<le> unat ip div 65536 \<and> unat ip div 65536 \<le> 44063"
proof -
  have d: "unat ip div 16777216 = unat ip div 65536 div 256" by (simp add: div_mult2_eq [symmetric])
  have "m div 256 = 172 \<and> 16 \<le> m mod 256 \<and> m mod 256 \<le> 31 \<longleftrightarrow> 44048 \<le> m \<and> m \<le> 44063" for m :: nat
  proof
    assume "m div 256 = 172 \<and> 16 \<le> m mod 256 \<and> m mod 256 \<le> 31"
    with div_mult_mod_eq [of m 256] show "44048 \<le> m \<and> m \<le> 44063" by linarith
  next
    assume m: "44048 \<le> m \<and> m \<le> 44063"
    then have "m div 256 = 172" by (simp add: div_eq_iff_range)
    with m div_mult_mod_eq [of m 256] show "m div 256 = 172 \<and> 16 \<le> m mod 256 \<and> m mod 256 \<le> 31" by linarith
  qed
  then show ?thesis unfolding octet_0 octet_1 d .
qed

text \<open>
  The proxy's check for addresses that are not public is the table of reserved IPv4 blocks: the tests on octets and the masked
  comparisons together accept exactly the addresses of fourteen blocks.
\<close>

lemma non_public_ipv4_ranges: "is_non_public_ipv4 ip \<longleftrightarrow> (\<exists>b \<in> set non_public_blocks. in_block (unat ip) b)"
proof -
  let ?n = "unat ip"
  have bound: "?n < 4294967296" using unsigned_less [of ip, where 'a = nat] by simp
  have zero: "ip = 0 \<longleftrightarrow> ?n = 0" by (simp add: word_unat_eq_iff)
  have all: "ip = - 1 \<longleftrightarrow> ?n = 4294967295" by (simp add: word_unat_eq_iff unsigned_minus_1_eq_mask mask_eq_exp_minus_1)
  have tests: "is_non_public_ipv4 ip \<longleftrightarrow>
      ?n div 16777216 = 127 \<or> ?n div 16777216 = 10 \<or> (44048 \<le> ?n div 65536 \<and> ?n div 65536 \<le> 44063) \<or>
      ?n div 65536 = 192 * 256 + 168 \<or> ?n div 65536 = 169 * 256 + 254 \<or> ?n = 0 \<or>
      (224 \<le> ?n div 16777216 \<and> ?n div 16777216 \<le> 239) \<or> ?n = 4294967295 \<or>
      ?n div 16777216 = 0 \<or> ?n div 4194304 = 401 \<or> ?n div 256 = 12582912 \<or> ?n div 256 = 12582914 \<or>
      ?n div 131072 = 25353 \<or> ?n div 256 = 12989284 \<or> ?n div 256 = 13303921 \<or> ?n div 268435456 = 15"
    unfolding is_non_public_ipv4_def ipv4_is_loopback_def ipv4_is_private_def private_172 zero all
    using octet_01 [of 168 ip 192] octet_01 [of 254 ip 169] by (simp add: ipv4_in_cidr_iff unat_ipv4_of_octets octet_0)
  have blocks: "(\<exists>b \<in> set non_public_blocks. in_block ?n b) \<longleftrightarrow>
      ?n < 16777216 \<or> (167772160 \<le> ?n \<and> ?n < 184549376) \<or> (1681915904 \<le> ?n \<and> ?n < 1686110208) \<or>
      (2130706432 \<le> ?n \<and> ?n < 2147483648) \<or> (2851995648 \<le> ?n \<and> ?n < 2852061184) \<or> (2886729728 \<le> ?n \<and> ?n < 2887778304) \<or>
      (3221225472 \<le> ?n \<and> ?n < 3221225728) \<or> (3221225984 \<le> ?n \<and> ?n < 3221226240) \<or> (3232235520 \<le> ?n \<and> ?n < 3232301056) \<or>
      (3323068416 \<le> ?n \<and> ?n < 3323199488) \<or> (3325256704 \<le> ?n \<and> ?n < 3325256960) \<or> (3405803776 \<le> ?n \<and> ?n < 3405804032) \<or>
      (3758096384 \<le> ?n \<and> ?n < 4026531840) \<or> (4026531840 \<le> ?n \<and> ?n < 4294967296)"
    by (simp add: non_public_blocks_def in_block_def)
  note range = div_eq_iff_range less_eq_div_iff_mult_less_eq div_le_iff_range
  have ranges: "?n div 16777216 = 127 \<longleftrightarrow> 2130706432 \<le> ?n \<and> ?n < 2147483648" "?n div 16777216 = 10 \<longleftrightarrow> 167772160 \<le> ?n \<and> ?n < 184549376"
    "44048 \<le> ?n div 65536 \<and> ?n div 65536 \<le> 44063 \<longleftrightarrow> 2886729728 \<le> ?n \<and> ?n < 2887778304"
    "?n div 65536 = 192 * 256 + 168 \<longleftrightarrow> 3232235520 \<le> ?n \<and> ?n < 3232301056" "?n div 65536 = 169 * 256 + 254 \<longleftrightarrow> 2851995648 \<le> ?n \<and> ?n < 2852061184"
    "224 \<le> ?n div 16777216 \<and> ?n div 16777216 \<le> 239 \<longleftrightarrow> 3758096384 \<le> ?n \<and> ?n < 4026531840" "?n div 16777216 = 0 \<longleftrightarrow> ?n < 16777216"
    "?n div 4194304 = 401 \<longleftrightarrow> 1681915904 \<le> ?n \<and> ?n < 1686110208" "?n div 256 = 12582912 \<longleftrightarrow> 3221225472 \<le> ?n \<and> ?n < 3221225728"
    "?n div 256 = 12582914 \<longleftrightarrow> 3221225984 \<le> ?n \<and> ?n < 3221226240" "?n div 131072 = 25353 \<longleftrightarrow> 3323068416 \<le> ?n \<and> ?n < 3323199488"
    "?n div 256 = 12989284 \<longleftrightarrow> 3325256704 \<le> ?n \<and> ?n < 3325256960" "?n div 256 = 13303921 \<longleftrightarrow> 3405803776 \<le> ?n \<and> ?n < 3405804032"
    "?n div 268435456 = 15 \<longleftrightarrow> 4026531840 \<le> ?n \<and> ?n < 4294967296"
    by (simp_all add: range)
  have ends: "?n = 0 \<Longrightarrow> ?n < 16777216" "?n = 4294967295 \<Longrightarrow> 4026531840 \<le> ?n \<and> ?n < 4294967296" by simp_all
  show ?thesis unfolding tests blocks ranges using ends by argo
qed

end
