(* ===== verification/Proxy_Host.thy ===== *)
theory Proxy_Host
  imports Proxy_Address "HOL-Library.List_Lexorder"
begin

text \<open>
  Hosts and domain patterns of the network proxy (\<open>network-proxy/src/policy.rs\<close>) and its settings
  (\<open>config.rs\<close>). Compiling a pattern is left to the crate \<open>globset\<close>: \<open>glob_lib\<close> stands for it, and \<open>glob_laws\<close> is what
  its documentation promises for the patterns the proxy builds. A pattern that a managed pattern admits covers
  no host that the managed pattern does not cover.
\<close>

section \<open>Hosts\<close>

abbreviation dot_char :: rchar where "dot_char \<equiv> 46"
abbreviation percent :: rchar where "percent \<equiv> 37"

fun normalize_with_delimiters :: "rstr \<Rightarrow> rstr list \<Rightarrow> rstr option" where
  "normalize_with_delimiters host [] = None"
| "normalize_with_delimiters host (d # ds) =
     (case str_split_once d host of
        Some (ip, scope) \<Rightarrow> if parse_ip ip \<noteq> None then Some (ip @ [percent] @ scope) else normalize_with_delimiters host ds
      | None \<Rightarrow> normalize_with_delimiters host ds)"

definition normalize_ip_literal :: "rstr \<Rightarrow> rstr option" where
  "normalize_ip_literal host =
     (if parse_ip host \<noteq> None then Some host else normalize_with_delimiters host [lit ''%25'', lit ''%''])"

definition normalize_dns_host_or_ip_literal :: "rstr \<Rightarrow> rstr" where
  "normalize_dns_host_or_ip_literal host =
     (let host = trim_end_matches dot_char (to_ascii_lowercase host)
      in case normalize_ip_literal host of Some ip \<Rightarrow> ip | None \<Rightarrow> host)"

abbreviation open_bracket :: rchar where "open_bracket \<equiv> 91"
abbreviation close_bracket :: rchar where "close_bracket \<equiv> 93"

definition normalize_proxy_host :: "rstr \<Rightarrow> rstr" where
  "normalize_proxy_host host =
     (let host = trim host
      in case (if starts_with host [open_bracket] then str_find host [close_bracket] else None) of
           Some e \<Rightarrow> normalize_dns_host_or_ip_literal (drop 1 (take e host))
         | None \<Rightarrow>
             if count_list host colon = 1 then normalize_dns_host_or_ip_literal (hd (split_on colon host))
             else normalize_dns_host_or_ip_literal host)"

definition host_parse :: "rstr \<Rightarrow> rstr option" where
  "host_parse input = (let h = normalize_proxy_host input in if h = [] then None else Some h)"

definition unscoped_ip_literal :: "rstr \<Rightarrow> rstr option" where
  "unscoped_ip_literal host =
     Option.bind (split_once percent host) (\<lambda>(ip, _). if parse_ip ip \<noteq> None then Some ip else None)"

definition without_scope :: "rstr \<Rightarrow> rstr" where
  "without_scope host = (case unscoped_ip_literal host of Some ip \<Rightarrow> ip | None \<Rightarrow> host)"

definition is_loopback_host :: "rstr \<Rightarrow> bool" where
  "is_loopback_host host =
     (let host = without_scope host
      in host = lit ''localhost'' \<or> (case parse_ip host of Some ip \<Rightarrow> ip_is_loopback ip | None \<Rightarrow> False))"

lemmas host_simps = parse_ip_simps normalize_proxy_host_def trim_def trim_start_def trim_end_def is_whitespace_def
  normalize_dns_host_or_ip_literal_def normalize_ip_literal_def str_split_once_def starts_with_def trim_end_matches_def
  to_ascii_lowercase_def to_ascii_lowercase_char_def

section \<open>Domain patterns\<close>

datatype domain_pattern = ApexAndSubdomains rstr | SubdomainsOnly rstr | ExactDomain rstr

definition normalize_pattern :: "rstr \<Rightarrow> rstr" where
  "normalize_pattern pat =
     (let pat = trim pat
      in if pat = lit ''*'' then lit ''*''
         else case strip_prefix (lit ''**.'') pat of
                Some domain \<Rightarrow> lit ''**.'' @ normalize_proxy_host domain
              | None \<Rightarrow>
                  (case strip_prefix (lit ''*.'') pat of
                     Some domain \<Rightarrow> lit ''*.'' @ normalize_proxy_host domain
                   | None \<Rightarrow> normalize_proxy_host pat))"

definition pattern_parse_domain :: "rstr \<Rightarrow> (rstr \<Rightarrow> domain_pattern) \<Rightarrow> domain_pattern" where
  "pattern_parse_domain domain make = (let domain = trim domain in if domain = [] then ExactDomain [] else make domain)"

definition pattern_parse :: "rstr \<Rightarrow> domain_pattern" where
  "pattern_parse input =
     (let input = trim input
      in if input = [] then ExactDomain []
         else case strip_prefix (lit ''**.'') input of
                Some domain \<Rightarrow> pattern_parse_domain domain ApexAndSubdomains
              | None \<Rightarrow>
                  (case strip_prefix (lit ''*.'') input of
                     Some domain \<Rightarrow> pattern_parse_domain domain SubdomainsOnly
                   | None \<Rightarrow> ExactDomain input))"

definition expand_domain_pattern :: "rstr \<Rightarrow> rstr list" where
  "expand_domain_pattern pat =
     (case pattern_parse pat of
        ExactDomain domain \<Rightarrow> [domain]
      | SubdomainsOnly domain \<Rightarrow> [lit ''?*.'' @ domain]
      | ApexAndSubdomains domain \<Rightarrow> [domain, lit ''?*.'' @ domain])"

definition is_global_wildcard_domain_pattern :: "rstr \<Rightarrow> bool" where
  "is_global_wildcard_domain_pattern pat \<longleftrightarrow> (\<exists>c \<in> set (expand_domain_pattern (normalize_pattern pat)). c = lit ''*'')"

definition normalize_domain :: "rstr \<Rightarrow> rstr" where
  "normalize_domain domain = to_ascii_lowercase (trim_end_matches dot_char domain)"

definition domain_eq :: "rstr \<Rightarrow> rstr \<Rightarrow> bool" where
  "domain_eq l r \<longleftrightarrow> normalize_domain l = normalize_domain r"

definition is_subdomain_or_equal :: "rstr \<Rightarrow> rstr \<Rightarrow> bool" where
  "is_subdomain_or_equal child parent \<longleftrightarrow>
     normalize_domain child = normalize_domain parent \<or> ends_with (normalize_domain child) (dot_char # normalize_domain parent)"

definition is_strict_subdomain :: "rstr \<Rightarrow> rstr \<Rightarrow> bool" where
  "is_strict_subdomain child parent \<longleftrightarrow>
     normalize_domain child \<noteq> normalize_domain parent \<and> ends_with (normalize_domain child) (dot_char # normalize_domain parent)"

fun pattern_allows :: "domain_pattern \<Rightarrow> domain_pattern \<Rightarrow> bool" where
  "pattern_allows (ExactDomain d) (ExactDomain c) = domain_eq c d"
| "pattern_allows (ExactDomain d) _ = False"
| "pattern_allows (SubdomainsOnly d) (ExactDomain c) = is_strict_subdomain c d"
| "pattern_allows (SubdomainsOnly d) (SubdomainsOnly c) = is_subdomain_or_equal c d"
| "pattern_allows (SubdomainsOnly d) (ApexAndSubdomains c) = is_strict_subdomain c d"
| "pattern_allows (ApexAndSubdomains d) (ExactDomain c) = is_subdomain_or_equal c d"
| "pattern_allows (ApexAndSubdomains d) (SubdomainsOnly c) = is_subdomain_or_equal c d"
| "pattern_allows (ApexAndSubdomains d) (ApexAndSubdomains c) = is_subdomain_or_equal c d"

text \<open>\<open>url_host\<close> is \<open>url::Host::parse\<close> with the host written out again.\<close>

definition parse_domain_for_constraints :: "(rstr \<Rightarrow> rstr option) \<Rightarrow> rstr \<Rightarrow> rstr" where
  "parse_domain_for_constraints url_host domain =
     (let domain = trim_end_matches dot_char (trim domain)
      in if domain = [] then []
         else let host = (if starts_with domain [open_bracket] \<and> ends_with domain [close_bracket] then butlast (drop 1 domain) else domain)
              in if 42 \<in> set host \<or> 63 \<in> set host \<or> percent \<in> set host then domain
                 else case url_host host of Some h \<Rightarrow> h | None \<Rightarrow> [])"

definition parse_for_constraints :: "(rstr \<Rightarrow> rstr option) \<Rightarrow> rstr \<Rightarrow> domain_pattern" where
  "parse_for_constraints url_host input =
     (let input = trim input
      in if input = [] then ExactDomain []
         else case strip_prefix (lit ''**.'') input of
                Some domain \<Rightarrow> ApexAndSubdomains (parse_domain_for_constraints url_host domain)
              | None \<Rightarrow>
                  (case strip_prefix (lit ''*.'') input of
                     Some domain \<Rightarrow> SubdomainsOnly (parse_domain_for_constraints url_host domain)
                   | None \<Rightarrow> ExactDomain (parse_domain_for_constraints url_host input)))"

section \<open>Compiling patterns\<close>

datatype 'e proxy_error =
    InvalidValue rstr
  | GlobError 'e
  | GlobalWildcard
  | InvalidNetworkHost
  | InvalidUnixSocketPath nat
  | MissingHost
  | MitmError 'e
  | ReloadError 'e

record 'e glob_lib =
  new_glob :: "rstr \<Rightarrow> ('e, rstr \<Rightarrow> bool) result"
  build_globset :: "(rstr \<Rightarrow> bool) list \<Rightarrow> ('e, rstr \<Rightarrow> bool) result"

text \<open>One pass over the candidates of a pattern; \<open>seen_candidates\<close> are those already added.\<close>

fun add_globs :: "'e glob_lib \<Rightarrow> rstr list \<Rightarrow> rstr list \<times> (rstr \<Rightarrow> bool) list \<Rightarrow> ('e proxy_error, rstr list \<times> (rstr \<Rightarrow> bool) list) result" where
  "add_globs lib [] acc = Inr acc"
| "add_globs lib (c # cs) (seen_candidates, globs) =
     (if c \<in> set seen_candidates then add_globs lib cs (seen_candidates, globs)
      else case new_glob lib c of
             Inl e \<Rightarrow> Inl (GlobError e)
           | Inr g \<Rightarrow> add_globs lib cs (seen_candidates @ [c], globs @ [g]))"

fun compile_patterns :: "'e glob_lib \<Rightarrow> bool \<Rightarrow> rstr list \<Rightarrow> rstr list \<times> (rstr \<Rightarrow> bool) list \<Rightarrow> ('e proxy_error, rstr list \<times> (rstr \<Rightarrow> bool) list) result" where
  "compile_patterns lib reject_wildcard [] acc = Inr acc"
| "compile_patterns lib reject_wildcard (p # ps) acc =
     (if reject_wildcard \<and> is_global_wildcard_domain_pattern p then Inl GlobalWildcard
      else rbind (add_globs lib (expand_domain_pattern (normalize_pattern p)) acc) (compile_patterns lib reject_wildcard ps))"

definition compile_globset_with_policy :: "'e glob_lib \<Rightarrow> bool \<Rightarrow> rstr list \<Rightarrow> ('e proxy_error, rstr \<Rightarrow> bool) result" where
  "compile_globset_with_policy lib reject_wildcard patterns =
     rbind (compile_patterns lib reject_wildcard patterns ([], [])) (\<lambda>(_, globs).
       case build_globset lib globs of Inl e \<Rightarrow> Inl (GlobError e) | Inr m \<Rightarrow> Inr m)"

definition compile_allowlist_globset :: "'e glob_lib \<Rightarrow> rstr list \<Rightarrow> ('e proxy_error, rstr \<Rightarrow> bool) result" where
  "compile_allowlist_globset lib = compile_globset_with_policy lib False"

definition compile_denylist_globset :: "'e glob_lib \<Rightarrow> rstr list \<Rightarrow> ('e proxy_error, rstr \<Rightarrow> bool) result" where
  "compile_denylist_globset lib = compile_globset_with_policy lib True"

section \<open>Settings\<close>

datatype domain_permission = PermissionNone | PermissionAllow | PermissionDeny

text \<open>The derived order of the variants: a denial wins over an allowance.\<close>

instantiation domain_permission :: linorder
begin

fun permission_rank :: "domain_permission \<Rightarrow> nat" where
  "permission_rank PermissionNone = 0"
| "permission_rank PermissionAllow = 1"
| "permission_rank PermissionDeny = 2"

definition less_eq_domain_permission :: "domain_permission \<Rightarrow> domain_permission \<Rightarrow> bool" where
  "less_eq_domain_permission a b \<longleftrightarrow> permission_rank a \<le> permission_rank b"

definition less_domain_permission :: "domain_permission \<Rightarrow> domain_permission \<Rightarrow> bool" where
  "less_domain_permission a b \<longleftrightarrow> permission_rank a < permission_rank b"

instance
proof
  fix a b :: domain_permission
  show "a \<le> b \<Longrightarrow> b \<le> a \<Longrightarrow> a = b" by (cases a; cases b) (auto simp: less_eq_domain_permission_def)
qed (auto simp: less_eq_domain_permission_def less_domain_permission_def)

end

lemma permission_le_deny [simp]: "p \<le> PermissionDeny"
  by (cases p) (auto simp: less_eq_domain_permission_def)

type_synonym domain_permissions = "(rstr \<times> domain_permission) list"

definition add_effective :: "domain_permissions \<Rightarrow> rstr \<times> domain_permission \<Rightarrow> domain_permissions" where
  "add_effective acc = (\<lambda>(pat, perm).
     case map_of acc pat of
       None \<Rightarrow> acc @ [(pat, perm)]
     | Some q \<Rightarrow> if q < perm then map (\<lambda>(p, r). if p = pat then (p, perm) else (p, r)) acc else acc)"

definition effective_entries :: "domain_permissions \<Rightarrow> domain_permissions" where
  "effective_entries es = foldl add_effective [] es"

datatype network_mode = LimitedMode | FullMode

definition allows_method :: "network_mode \<Rightarrow> rstr \<Rightarrow> bool" where
  "allows_method mode method =
     (case mode of FullMode \<Rightarrow> True | LimitedMode \<Rightarrow> method \<in> {lit ''GET'', lit ''HEAD'', lit ''OPTIONS''})"

definition network_mode_rank :: "network_mode \<Rightarrow> nat" where
  "network_mode_rank mode = (case mode of LimitedMode \<Rightarrow> 0 | FullMode \<Rightarrow> 1)"

datatype unix_socket_permission = SocketAllow | SocketNone

record network_proxy_settings =
  proxy_enabled :: bool
  proxy_url :: rstr
  enable_socks5 :: bool
  socks_url :: rstr
  enable_socks5_udp :: bool
  allow_upstream_proxy :: bool
  dangerously_allow_non_loopback_proxy :: bool
  dangerously_allow_all_unix_sockets :: bool
  net_mode :: network_mode
  domains :: "domain_permissions option"
  unix_sockets :: "(rstr \<times> unix_socket_permission) list option"
  allow_local_binding :: bool
  mitm :: bool

definition network_proxy_settings_default :: network_proxy_settings where
  "network_proxy_settings_default =
     \<lparr>proxy_enabled = False, proxy_url = lit ''http://127.0.0.1:3128'', enable_socks5 = True, socks_url = lit ''http://127.0.0.1:8081'',
      enable_socks5_udp = True, allow_upstream_proxy = True, dangerously_allow_non_loopback_proxy = False,
      dangerously_allow_all_unix_sockets = False, net_mode = FullMode, domains = None, unix_sockets = None,
      allow_local_binding = False, mitm = False\<rparr>"

definition domain_entries :: "network_proxy_settings \<Rightarrow> domain_permission \<Rightarrow> rstr list option" where
  "domain_entries net perm =
     (case domains net of
        None \<Rightarrow> None
      | Some ds \<Rightarrow>
          (let es = map fst (filter (\<lambda>(_, p). p = perm) (effective_entries ds)) in if es = [] then None else Some es))"

definition allowed_domains :: "network_proxy_settings \<Rightarrow> rstr list option" where
  "allowed_domains net = domain_entries net PermissionAllow"

definition denied_domains :: "network_proxy_settings \<Rightarrow> rstr list option" where
  "denied_domains net = domain_entries net PermissionDeny"

abbreviation entries_or_empty :: "rstr list option \<Rightarrow> rstr list" where
  "entries_or_empty es \<equiv> (case es of Some xs \<Rightarrow> xs | None \<Rightarrow> [])"

definition some_unless_empty :: "'a list \<Rightarrow> 'a list option" where
  "some_unless_empty es = (if es = [] then None else Some es)"

definition upsert_domain_permission :: "rstr \<Rightarrow> domain_permission \<Rightarrow> network_proxy_settings \<Rightarrow> network_proxy_settings" where
  "upsert_domain_permission host perm net =
     (let ds = (case domains net of Some ds \<Rightarrow> ds | None \<Rightarrow> []);
          kept = filter (\<lambda>(pat, _). normalize_proxy_host pat \<noteq> normalize_proxy_host host) ds
      in net\<lparr>domains := some_unless_empty (kept @ [(host, perm)])\<rparr>)"

definition set_domain_entries :: "rstr list \<Rightarrow> domain_permission \<Rightarrow> network_proxy_settings \<Rightarrow> network_proxy_settings" where
  "set_domain_entries es perm net =
     (let ds = (case domains net of Some ds \<Rightarrow> ds | None \<Rightarrow> []);
          kept = filter (\<lambda>(_, p). p \<noteq> perm) ds
      in net\<lparr>domains := some_unless_empty (foldl (\<lambda>acc e. if (e, perm) \<in> set acc then acc else acc @ [(e, perm)]) kept es)\<rparr>)"

definition set_allowed_domains :: "rstr list \<Rightarrow> network_proxy_settings \<Rightarrow> network_proxy_settings" where
  "set_allowed_domains es = set_domain_entries es PermissionAllow"

definition set_denied_domains :: "rstr list \<Rightarrow> network_proxy_settings \<Rightarrow> network_proxy_settings" where
  "set_denied_domains es = set_domain_entries es PermissionDeny"

text \<open>The sockets are a sorted map from paths to permissions.\<close>

definition btree_insert :: "'k :: linorder \<Rightarrow> 'v \<Rightarrow> ('k \<times> 'v) list \<Rightarrow> ('k \<times> 'v) list" where
  "btree_insert k v m = insort_key fst (k, v) (filter (\<lambda>(k', _). k' \<noteq> k) m)"

definition allow_unix_sockets :: "network_proxy_settings \<Rightarrow> rstr list" where
  "allow_unix_sockets net =
     (case unix_sockets net of None \<Rightarrow> [] | Some m \<Rightarrow> map fst (filter (\<lambda>(_, p). p = SocketAllow) m))"

definition set_allow_unix_sockets :: "rstr list \<Rightarrow> network_proxy_settings \<Rightarrow> network_proxy_settings" where
  "set_allow_unix_sockets es net =
     (let m = (case unix_sockets net of Some m \<Rightarrow> m | None \<Rightarrow> []);
          kept = filter (\<lambda>(_, p). p \<noteq> SocketAllow) m
      in net\<lparr>unix_sockets := some_unless_empty (foldl (\<lambda>acc e. btree_insert e SocketAllow acc) kept es)\<rparr>)"

section \<open>Addresses the proxy listens on\<close>

type_synonym socket_addr = "ip_addr \<times> nat"

definition loopback_v4 :: ip_addr where
  "loopback_v4 = V4 (ipv4_of_octets 127 0 0 1)"

definition clamp_non_loopback :: "bool \<Rightarrow> socket_addr \<Rightarrow> socket_addr" where
  "clamp_non_loopback allow_non_loopback addr =
     (if ip_is_loopback (fst addr) then addr else if allow_non_loopback then addr else (loopback_v4, snd addr))"

definition clamp_bind_addrs :: "socket_addr \<Rightarrow> socket_addr \<Rightarrow> network_proxy_settings \<Rightarrow> socket_addr \<times> socket_addr" where
  "clamp_bind_addrs http_addr socks_addr net =
     (let http_addr = clamp_non_loopback (dangerously_allow_non_loopback_proxy net) http_addr;
          socks_addr = clamp_non_loopback (dangerously_allow_non_loopback_proxy net) socks_addr
      in if allow_unix_sockets net = [] \<and> \<not> dangerously_allow_all_unix_sockets net then (http_addr, socks_addr)
         else ((loopback_v4, snd http_addr), (loopback_v4, snd socks_addr)))"

text \<open>The proxy can be reached from another machine only if that is allowed and no socket of this machine can be reached through it.\<close>

lemma clamp_bind_addrs_loopback:
  assumes "clamp_bind_addrs http socks net = (http', socks')" "\<not> ip_is_loopback (fst http') \<or> \<not> ip_is_loopback (fst socks')"
  shows "dangerously_allow_non_loopback_proxy net \<and> allow_unix_sockets net = [] \<and> \<not> dangerously_allow_all_unix_sockets net"
proof -
  have "ip_is_loopback loopback_v4" by (simp add: ip_is_loopback_def loopback_v4_def ipv4_is_loopback_def octet_0 unat_ipv4_of_octets)
  with assms show ?thesis by (auto simp: clamp_bind_addrs_def clamp_non_loopback_def Let_def split: if_splits)
qed

section \<open>Effective permissions\<close>

lemma map_of_map_update: "map_of (map (\<lambda>(p, r). if p = k then (p, v) else (p, r)) xs) x = (if x = k \<and> map_of xs k \<noteq> None then Some v else map_of xs x)"
  by (induction xs) auto

lemma map_of_add_effective:
  "map_of (add_effective acc (pat, perm)) x =
     (if x = pat then Some (case map_of acc pat of None \<Rightarrow> perm | Some q \<Rightarrow> max q perm) else map_of acc x)"
  by (auto simp: add_effective_def map_of_map_update map_add_def max_def split: option.split)

lemma foldl_add_effective:
  "map_of (foldl add_effective acc es) x = None \<longleftrightarrow> map_of acc x = None \<and> x \<notin> fst ` set es"
  "map_of (foldl add_effective acc es) x = Some q \<Longrightarrow>
     (map_of acc x = Some q \<or> (x, q) \<in> set es) \<and> (\<forall>r. map_of acc x = Some r \<or> (x, r) \<in> set es \<longrightarrow> r \<le> q)"
proof (induction es arbitrary: acc)
  case (Cons e es)
  obtain pat perm where e: "e = (pat, perm)" by (cases e)
  {
    case 1
    show ?case using Cons.IH(1) [of "add_effective acc e"] by (auto simp: e map_of_add_effective)
  next
    case 2
    then have "map_of (foldl add_effective (add_effective acc e) es) x = Some q" by simp
    from Cons.IH(2) [OF this] show ?case
      by (auto simp: e map_of_add_effective max_def split: option.splits if_splits dest: order_trans)
  }
qed auto

lemma effective_entries_Some:
  "map_of (effective_entries es) x = Some q \<Longrightarrow> (x, q) \<in> set es \<and> (\<forall>r. (x, r) \<in> set es \<longrightarrow> r \<le> q)"
  using foldl_add_effective(2) [of "[]" es x q] by (auto simp: effective_entries_def)

lemma distinct_effective_entries: "distinct (map fst (effective_entries es))"
proof -
  have "distinct (map fst acc) \<Longrightarrow> distinct (map fst (foldl add_effective acc es))" for acc
  proof (induction es arbitrary: acc)
    case (Cons e es)
    have "fst \<circ> (\<lambda>(p, r). if p = k then (p, v) else (p, r)) = fst" for k :: rstr and v :: domain_permission by (auto simp: fun_eq_iff)
    with Cons.prems have "distinct (map fst (add_effective acc e))"
      by (auto simp: add_effective_def map_of_eq_None_iff split: prod.split option.split)
    then show ?case using Cons.IH by simp
  qed simp
  then show ?thesis by (simp add: effective_entries_def)
qed

lemma in_effective_entries: "(x, q) \<in> set (effective_entries es) \<longleftrightarrow> map_of (effective_entries es) x = Some q"
  using distinct_effective_entries [of es] by (simp add: map_of_eq_Some_iff)

lemma denied_domain_iff: "x \<in> set (entries_or_empty (denied_domains net)) \<longleftrightarrow> (\<exists>ds. domains net = Some ds \<and> (x, PermissionDeny) \<in> set ds)"
proof -
  have "map_of (effective_entries ds) x = Some PermissionDeny \<longleftrightarrow> (x, PermissionDeny) \<in> set ds" for ds
  proof
    assume d: "(x, PermissionDeny) \<in> set ds"
    then obtain q where q: "map_of (effective_entries ds) x = Some q"
      using foldl_add_effective(1) [of "[]" ds x] unfolding effective_entries_def by force
    with effective_entries_Some [OF q] d have "PermissionDeny \<le> q" by blast
    with q show "map_of (effective_entries ds) x = Some PermissionDeny" by (simp add: order_antisym)
  qed (auto dest: effective_entries_Some)
  then show ?thesis by (auto simp: denied_domains_def domain_entries_def Let_def in_effective_entries [symmetric] image_iff filter_empty_conv split: option.splits)
qed

lemma allowed_domain_iff:
  "x \<in> set (entries_or_empty (allowed_domains net)) \<longleftrightarrow> (\<exists>ds. domains net = Some ds \<and> map_of (effective_entries ds) x = Some PermissionAllow)"
  by (auto simp: allowed_domains_def domain_entries_def Let_def in_effective_entries [symmetric] image_iff filter_empty_conv split: option.splits)

lemma allowed_domain_not_denied: "x \<in> set (entries_or_empty (allowed_domains net)) \<Longrightarrow> x \<notin> set (entries_or_empty (denied_domains net))"
  unfolding allowed_domain_iff denied_domain_iff
  by (metis domain_permission.distinct(5) effective_entries_Some option.inject order_antisym permission_le_deny)

section \<open>Hosts a pattern covers\<close>

fun covers :: "domain_pattern \<Rightarrow> rstr \<Rightarrow> bool" where
  "covers (ExactDomain d) h \<longleftrightarrow> eq_ignore_ascii_case h d"
| "covers (SubdomainsOnly d) h \<longleftrightarrow> (\<exists>x. x \<noteq> [] \<and> eq_ignore_ascii_case h (x @ dot_char # d))"
| "covers (ApexAndSubdomains d) h \<longleftrightarrow> eq_ignore_ascii_case h d \<or> (\<exists>x. x \<noteq> [] \<and> eq_ignore_ascii_case h (x @ dot_char # d))"

fun pattern_domain :: "domain_pattern \<Rightarrow> rstr" where
  "pattern_domain (ExactDomain d) = d"
| "pattern_domain (SubdomainsOnly d) = d"
| "pattern_domain (ApexAndSubdomains d) = d"

definition proper_domain :: "rstr \<Rightarrow> bool" where
  "proper_domain d \<longleftrightarrow> normalize_domain d = d \<and> d \<noteq> [] \<and> hd d \<noteq> dot_char"

lemma to_ascii_lowercase_append [simp]: "to_ascii_lowercase (x @ y) = to_ascii_lowercase x @ to_ascii_lowercase y"
  by (simp add: to_ascii_lowercase_def)

lemma to_ascii_lowercase_dot [simp]: "to_ascii_lowercase (dot_char # y) = dot_char # to_ascii_lowercase y"
  by (simp add: to_ascii_lowercase_def to_ascii_lowercase_char_def)

lemma to_ascii_lowercase_idem [simp]: "to_ascii_lowercase (to_ascii_lowercase x) = to_ascii_lowercase x"
  by (auto simp: to_ascii_lowercase_def to_ascii_lowercase_char_def)

lemma ends_with_append: "ends_with s p \<longleftrightarrow> (\<exists>x. s = x @ p)"
  by (auto simp: ends_with_def strip_suffix_Some_iff)

lemma proper_subdomain:
  assumes "proper_domain c" "proper_domain d" "ends_with c (dot_char # d)"
  shows "\<exists>x. x \<noteq> [] \<and> c = x @ dot_char # d"
  using assms by (auto simp: proper_domain_def ends_with_append)

lemma subdomain_iff:
  assumes "proper_domain c" "proper_domain d"
  shows "is_subdomain_or_equal c d \<longleftrightarrow> c = d \<or> (\<exists>x. x \<noteq> [] \<and> c = x @ dot_char # d)"
    and "is_strict_subdomain c d \<longleftrightarrow> (\<exists>x. x \<noteq> [] \<and> c = x @ dot_char # d)"
    and "domain_eq c d \<longleftrightarrow> c = d"
  using assms proper_subdomain [OF assms]
  by (auto simp: is_subdomain_or_equal_def is_strict_subdomain_def domain_eq_def proper_domain_def ends_with_append)

text \<open>
  The comparison of patterns with managed patterns is sound: a pattern that a managed pattern admits covers only hosts that the
  managed pattern covers.
\<close>

theorem pattern_allows_sound:
  assumes "pattern_allows m c" "proper_domain (pattern_domain m)" "proper_domain (pattern_domain c)" "covers c h"
  shows "covers m h"
proof -
  have below: "\<exists>y. y \<noteq> [] \<and> eq_ignore_ascii_case h (y @ dot_char # d)"
    if "eq_ignore_ascii_case h (x @ dot_char # e)" "x \<noteq> []" "e = z @ dot_char # d" for x e z d
    using that by (intro exI [of _ "x @ dot_char # z"]) (simp add: eq_ignore_ascii_case_def)
  show ?thesis using assms
    by (cases m; cases c) (auto simp: subdomain_iff dest: below)
qed

theorem pattern_allows_sound_witness:
  "pattern_allows (ApexAndSubdomains (lit ''x.io'')) (SubdomainsOnly (lit ''a.x.io'')) \<and> covers (ApexAndSubdomains (lit ''x.io'')) (lit ''b.A.x.io'')"
proof -
  have m: "pattern_allows (ApexAndSubdomains (lit ''x.io'')) (SubdomainsOnly (lit ''a.x.io''))"
    "proper_domain (pattern_domain (ApexAndSubdomains (lit ''x.io'')))" "proper_domain (pattern_domain (SubdomainsOnly (lit ''a.x.io'')))"
    by (simp_all add: proper_domain_def is_subdomain_or_equal_def normalize_domain_def host_simps ends_with_append)
  have "covers (SubdomainsOnly (lit ''a.x.io'')) (lit ''b.A.x.io'')"
    by (auto simp: eq_ignore_ascii_case_def host_simps intro!: exI [of _ "lit ''b''"])
  from pattern_allows_sound [OF m this] m(1) show ?thesis by blast
qed

section \<open>Compiled patterns\<close>

text \<open>
  What the documentation of \<open>globset\<close> says of the patterns built here: a pattern without special characters matches itself without
  regard to ASCII case, \<open>?*.d\<close> matches what ends with \<open>.d\<close> and has something before it, and a set matches what
  one of its globs matches.
\<close>

definition plain_text :: "rstr \<Rightarrow> bool" where
  "plain_text d \<longleftrightarrow> d \<noteq> [] \<and> set d \<inter> {42, 63, 91, 92, 93, 123, 125} = {}"

definition glob_hits :: "'e glob_lib \<Rightarrow> rstr \<Rightarrow> rstr \<Rightarrow> bool" where
  "glob_hits lib c h = (case new_glob lib c of Inr g \<Rightarrow> g h | Inl _ \<Rightarrow> False)"

definition glob_laws :: "'e glob_lib \<Rightarrow> bool" where
  "glob_laws lib \<longleftrightarrow>
     (\<forall>d. plain_text d \<longrightarrow> (\<exists>g. new_glob lib d = Inr g \<and> (\<forall>h. g h \<longleftrightarrow> eq_ignore_ascii_case h d))) \<and>
     (\<forall>d. plain_text d \<longrightarrow>
        (\<exists>g. new_glob lib (lit ''?*.'' @ d) = Inr g \<and> (\<forall>h. g h \<longleftrightarrow> (\<exists>x. x \<noteq> [] \<and> eq_ignore_ascii_case h (x @ dot_char # d))))) \<and>
     (\<forall>gs m. build_globset lib gs = Inr m \<longrightarrow> (\<forall>h. m h \<longleftrightarrow> (\<exists>g \<in> set gs. g h)))"

lemma add_globs_hits:
  assumes "add_globs lib cs (cand, gs) = Inr (cand', gs')" "\<forall>h. (\<exists>g \<in> set gs. g h) \<longleftrightarrow> (\<exists>c \<in> set cand. glob_hits lib c h)"
  shows "(\<forall>h. (\<exists>g \<in> set gs'. g h) \<longleftrightarrow> (\<exists>c \<in> set cand'. glob_hits lib c h)) \<and> set cand' = set cand \<union> set cs"
  using assms
proof (induction lib cs "(cand, gs)" arbitrary: cand gs rule: add_globs.induct)
  case (2 lib c cs cand gs)
  show ?case
  proof (cases "c \<in> set cand")
    case True
    with 2 show ?thesis by auto
  next
    case False
    with "2.prems"(1) obtain g where g: "new_glob lib c = Inr g" by (auto split: sum.splits)
    have inv: "\<forall>h. (\<exists>g \<in> set (gs @ [g]). g h) \<longleftrightarrow> (\<exists>c \<in> set (cand @ [c]). glob_hits lib c h)"
      using "2.prems"(2) g by (auto simp: glob_hits_def)
    have "add_globs lib cs (cand @ [c], gs @ [g]) = Inr (cand', gs')" using "2.prems"(1) False g by simp
    from "2.hyps"(2) [OF False g this inv] show ?thesis by auto
  qed
qed auto

lemma compile_patterns_hits:
  assumes "compile_patterns lib rej ps (cand, gs) = Inr (cand', gs')" "\<forall>h. (\<exists>g \<in> set gs. g h) \<longleftrightarrow> (\<exists>c \<in> set cand. glob_hits lib c h)"
  shows "(\<forall>h. (\<exists>g \<in> set gs'. g h) \<longleftrightarrow> (\<exists>c \<in> set cand'. glob_hits lib c h)) \<and>
     set cand' = set cand \<union> (\<Union>p \<in> set ps. set (expand_domain_pattern (normalize_pattern p)))"
  using assms
proof (induction ps arbitrary: cand gs)
  case (Cons p ps)
  obtain cand1 gs1 where a: "add_globs lib (expand_domain_pattern (normalize_pattern p)) (cand, gs) = Inr (cand1, gs1)"
    and r: "compile_patterns lib rej ps (cand1, gs1) = Inr (cand', gs')"
    using Cons.prems(1) by (auto simp: rbind_eq_Inr_iff split: if_splits)
  note step = add_globs_hits [OF a Cons.prems(2)]
  from Cons.IH [OF r] step show ?case by auto
qed auto

lemma compiled_hits:
  assumes "glob_laws lib" "compile_globset_with_policy lib rej ps = Inr m"
  shows "m h \<longleftrightarrow> (\<exists>p \<in> set ps. \<exists>c \<in> set (expand_domain_pattern (normalize_pattern p)). glob_hits lib c h)"
proof -
  from assms(2) obtain r where r: "compile_patterns lib rej ps ([], []) = Inr r"
    "(case r of (_, gs) \<Rightarrow> case build_globset lib gs of Inl e \<Rightarrow> Inl (GlobError e) | Inr m \<Rightarrow> Inr m) = Inr m"
    unfolding compile_globset_with_policy_def rbind_eq_Inr_iff by blast
  obtain cand gs where rr: "r = (cand, gs)" by (cases r)
  with r have c: "compile_patterns lib rej ps ([], []) = Inr (cand, gs)" "build_globset lib gs = Inr m"
    by (auto split: sum.splits)
  from compile_patterns_hits [OF c(1)] have "(\<exists>g \<in> set gs. g h) \<longleftrightarrow> (\<exists>c \<in> set cand. glob_hits lib c h)"
    "set cand = (\<Union>p \<in> set ps. set (expand_domain_pattern (normalize_pattern p)))" by auto
  with assms(1) c(2) show ?thesis by (auto simp: glob_laws_def)
qed

lemma expanded_hits:
  assumes "glob_laws lib" "plain_text (pattern_domain (pattern_parse pat))"
  shows "(\<exists>c \<in> set (expand_domain_pattern pat). glob_hits lib c h) \<longleftrightarrow> covers (pattern_parse pat) h"
proof -
  have "glob_hits lib d h \<longleftrightarrow> eq_ignore_ascii_case h d"
    "glob_hits lib (lit ''?*.'' @ d) h \<longleftrightarrow> (\<exists>x. x \<noteq> [] \<and> eq_ignore_ascii_case h (x @ dot_char # d))" if "plain_text d" for d
    using assms(1) that unfolding glob_laws_def glob_hits_def by (metis sum.case(2))+
  with assms(2) show ?thesis by (cases "pattern_parse pat") (simp_all only: expand_domain_pattern_def domain_pattern.case pattern_domain.simps covers.simps set_simps insert_iff empty_iff bex_simps, auto)
qed

abbreviation normal_pattern :: "rstr \<Rightarrow> domain_pattern" where
  "normal_pattern p \<equiv> pattern_parse (normalize_pattern p)"

lemma compiled_covers:
  assumes "glob_laws lib" "compile_globset_with_policy lib rej ps = Inr m" "\<forall>p \<in> set ps. plain_text (pattern_domain (normal_pattern p))"
  shows "m h \<longleftrightarrow> (\<exists>p \<in> set ps. covers (normal_pattern p) h)"
  unfolding compiled_hits [OF assms(1,2)] using expanded_hits [OF assms(1)] assms(3) by blast

section \<open>Patterns and letter case\<close>

definition caseless :: "rchar \<Rightarrow> bool" where
  "caseless c \<longleftrightarrow> (\<forall>x. to_ascii_lowercase_char x = c \<longleftrightarrow> x = c)"

lemma caseless_iff [simp]: "caseless c \<longleftrightarrow> \<not> (65 \<le> c \<and> c \<le> 90) \<and> \<not> (97 \<le> c \<and> c \<le> 122)"
proof -
  have "to_ascii_lowercase_char c \<noteq> c" if "65 \<le> c \<and> c \<le> 90" using that by (simp add: to_ascii_lowercase_char_def)
  moreover have "to_ascii_lowercase_char (c - 32) = c \<and> c - 32 \<noteq> c" if "97 \<le> c \<and> c \<le> 122"
    using that by (auto simp: to_ascii_lowercase_char_def)
  moreover have "to_ascii_lowercase_char x = c \<longleftrightarrow> x = c" if "\<not> (65 \<le> c \<and> c \<le> 90)" "\<not> (97 \<le> c \<and> c \<le> 122)" for x
    using that by (auto simp: to_ascii_lowercase_char_def)
  ultimately show ?thesis unfolding caseless_def by metis
qed

lemma lowercase_fixed:
  "caseless c \<Longrightarrow> to_ascii_lowercase_char x = c \<longleftrightarrow> x = c"
  "caseless c \<Longrightarrow> c = to_ascii_lowercase_char x \<longleftrightarrow> c = x"
  unfolding caseless_def by metis+

lemma is_whitespace_lowercase [simp]: "is_whitespace (to_ascii_lowercase_char c) = is_whitespace c"
  by (auto simp: to_ascii_lowercase_char_def is_whitespace_def)

lemma trim_lowercase: "trim (to_ascii_lowercase s) = to_ascii_lowercase (trim s)"
proof -
  have "is_whitespace \<circ> to_ascii_lowercase_char = is_whitespace" by (simp add: fun_eq_iff)
  then show ?thesis by (simp add: trim_def trim_start_def trim_end_def to_ascii_lowercase_def dropWhile_map rev_map)
qed

lemma strip_prefix_lowercase:
  "\<forall>c \<in> set p. caseless c \<Longrightarrow> strip_prefix p (to_ascii_lowercase s) = map_option to_ascii_lowercase (strip_prefix p s)"
proof (induction p arbitrary: s)
  case (Cons c p)
  then show ?case by (cases s) (auto simp: to_ascii_lowercase_def lowercase_fixed simp del: caseless_iff)
qed simp

lemma starts_with_lowercase: "\<forall>c \<in> set p. caseless c \<Longrightarrow> starts_with (to_ascii_lowercase s) p = starts_with s p"
  by (simp add: starts_with_def strip_prefix_lowercase del: caseless_iff)

lemma to_ascii_lowercase_Cons [simp]: "to_ascii_lowercase (x # s) = to_ascii_lowercase_char x # to_ascii_lowercase s"
  by (simp add: to_ascii_lowercase_def)

lemma str_find_lowercase: "caseless c \<Longrightarrow> str_find (to_ascii_lowercase s) [c] = str_find s [c]"
  by (induction s) (simp_all add: to_ascii_lowercase_def starts_with_def lowercase_fixed del: caseless_iff)

lemma split_on_lowercase: "caseless c \<Longrightarrow> split_on c (to_ascii_lowercase s) = map to_ascii_lowercase (split_on c s)"
  by (induction s) (auto simp: to_ascii_lowercase_def lowercase_fixed simp del: caseless_iff split: list.splits)

lemma count_list_lowercase: "caseless c \<Longrightarrow> count_list (to_ascii_lowercase s) c = count_list s c"
  by (induction s) (auto simp: to_ascii_lowercase_def lowercase_fixed simp del: caseless_iff)

lemma normalize_dns_lowercase: "normalize_dns_host_or_ip_literal (to_ascii_lowercase s) = normalize_dns_host_or_ip_literal s"
  by (simp add: normalize_dns_host_or_ip_literal_def)

lemma normalize_proxy_host_lowercase: "normalize_proxy_host (to_ascii_lowercase s) = normalize_proxy_host s"
proof -
  let ?h = "trim s"
  have "drop 1 (take e (to_ascii_lowercase ?h)) = to_ascii_lowercase (drop 1 (take e ?h))" for e
    by (simp add: to_ascii_lowercase_def take_map drop_map)
  moreover have "starts_with (to_ascii_lowercase ?h) [open_bracket] = starts_with ?h [open_bracket]"
    by (simp add: starts_with_lowercase)
  moreover have "hd (split_on colon (to_ascii_lowercase ?h)) = to_ascii_lowercase (hd (split_on colon ?h))"
    by (simp add: split_on_lowercase hd_map)
  ultimately show ?thesis
    by (simp add: normalize_proxy_host_def Let_def trim_lowercase str_find_lowercase count_list_lowercase normalize_dns_lowercase split: option.split)
qed

lemma normalize_pattern_lowercase: "normalize_pattern (to_ascii_lowercase s) = normalize_pattern s"
proof -
  have "to_ascii_lowercase (trim s) = lit ''*'' \<longleftrightarrow> trim s = lit ''*''"
    by (auto simp: to_ascii_lowercase_def map_eq_Cons_conv lowercase_fixed)
  then show ?thesis
    by (simp add: normalize_pattern_def Let_def trim_lowercase strip_prefix_lowercase normalize_proxy_host_lowercase split: option.split)
qed

lemma normalize_pattern_eq: "to_ascii_lowercase p = to_ascii_lowercase q \<Longrightarrow> normalize_pattern p = normalize_pattern q"
  by (metis normalize_pattern_lowercase)

section \<open>Canonical hosts\<close>

text \<open>
  A host in normal form that a pattern matches literally. Normalisation is not idempotent in general (a bracketed name with one
  colon loses its end only the second time), but names as \<open>DNS\<close> has them are canonical.
\<close>

definition canonical_host :: "rstr \<Rightarrow> bool" where
  "canonical_host h \<longleftrightarrow> plain_text h \<and> trim h = h \<and> normalize_proxy_host h = h"

lemma trim_end_matches_keeps: "x \<in> set s \<Longrightarrow> x \<noteq> c \<Longrightarrow> x \<in> set (trim_end_matches c s)"
  by (induction s rule: rev_induct) (auto simp: trim_end_matches_def)

lemma str_split_once_Some: "str_split_once d s = Some (a, b) \<Longrightarrow> s = a @ d @ b"
  unfolding str_split_once_def
  by (auto simp: str_find_Some_iff starts_with_iff) (metis append_take_drop_id drop_drop add.commute append_eq_conv_conj)

lemma normalize_with_delimiters_keeps:
  "normalize_with_delimiters host ds = Some r \<Longrightarrow> x \<in> set host \<Longrightarrow> \<forall>d \<in> set ds. x \<notin> set d \<Longrightarrow> x \<in> set r"
  by (induction ds) (auto split: option.splits if_splits dest!: str_split_once_Some)

lemma star_kept: "42 \<in> set host \<Longrightarrow> 42 \<in> set (normalize_dns_host_or_ip_literal host)"
proof -
  assume "42 \<in> set host"
  then have "42 \<in> set (to_ascii_lowercase host)" by (force simp: to_ascii_lowercase_def to_ascii_lowercase_char_def)
  then have "42 \<in> set (trim_end_matches dot_char (to_ascii_lowercase host))" by (rule trim_end_matches_keeps) simp
  then show ?thesis
    by (auto simp: normalize_dns_host_or_ip_literal_def Let_def normalize_ip_literal_def simp del: normalize_with_delimiters.simps
        split: option.split if_splits dest!: normalize_with_delimiters_keeps)
qed

lemma trim_trim [simp]: "trim (trim s) = trim s"
proof -
  have "trim (trim s) = trim (trim_start s)" by (simp add: trim_def [of s])
  then show ?thesis by (simp add: trim_def trim_start_def)
qed

lemma star_start_kept:
  assumes "trim e = 42 # r"
  shows "42 \<in> set (normalize_proxy_host e)"
proof -
  have "42 \<in> set (hd (split_on colon (trim e)))" using assms by (auto split: list.split)
  with assms show ?thesis by (auto simp: normalize_proxy_host_def Let_def starts_with_def star_kept)
qed

lemma plain_normal_pattern:
  assumes "normalize_proxy_host e = h" "canonical_host h"
  shows "normal_pattern e = ExactDomain h"
proof -
  have no_star: "42 \<notin> set h" "h \<noteq> []" using assms(2) by (auto simp: canonical_host_def plain_text_def)
  then have start: "hd (trim e) \<noteq> 42 \<or> trim e = []" using star_start_kept assms(1) by (cases "trim e") auto
  have "normalize_proxy_host (trim e) = h" using assms(1) by (simp add: normalize_proxy_host_def)
  moreover have "strip_prefix (42 # p) s = None" if "hd s \<noteq> 42 \<or> s = []" for s p :: rstr using that by (cases s) auto
  moreover have "hd h \<noteq> 42" using no_star by (cases h) auto
  moreover have "trim e \<noteq> lit ''*''" using start by auto
  ultimately have "normalize_pattern e = h" "pattern_parse h = ExactDomain h"
    using start no_star assms(2) by (simp_all add: normalize_pattern_def pattern_parse_def canonical_host_def Let_def)
  then show ?thesis by simp
qed

end
