(* ===== verification/Proxy_State.thy ===== *)
theory Proxy_State
  imports Proxy_Host Network_Approval
begin

text \<open>
  The state of the network proxy (\<open>network-proxy/src/state.rs\<close>, \<open>runtime.rs\<close>): constraints that managed configuration puts on the
  settings, the decision about a host, updates of the domain lists, the log of blocked
  requests, and the evaluation that asks the decider of the core only about hosts that are merely
  not allowed (\<open>network_policy.rs\<close>).
\<close>

section \<open>Constraints\<close>

record network_proxy_constraints =
  con_enabled :: "bool option"
  con_mode :: "network_mode option"
  con_allow_upstream_proxy :: "bool option"
  con_non_loopback_proxy :: "bool option"
  con_all_unix_sockets :: "bool option"
  con_allowed_domains :: "rstr list option"
  con_allowlist_expansion :: "bool option"
  con_denied_domains :: "rstr list option"
  con_denylist_expansion :: "bool option"
  con_allow_unix_sockets :: "rstr list option"
  con_allow_local_binding :: "bool option"

definition validate_non_global_wildcard_domain_patterns :: "rstr \<Rightarrow> rstr list \<Rightarrow> ('e proxy_error, unit) result" where
  "validate_non_global_wildcard_domain_patterns field patterns =
     (if \<exists>p \<in> set patterns. is_global_wildcard_domain_pattern p then Inl (InvalidValue field) else Inr ())"

definition require :: "bool \<Rightarrow> rstr \<Rightarrow> ('e proxy_error, unit) result" where
  "require ok field = (if ok then Inr () else Inl (InvalidValue field))"

abbreviation lowercased :: "rstr list \<Rightarrow> rstr set" where
  "lowercased es \<equiv> set (map to_ascii_lowercase es)"

definition validate_allowed_domains :: "(rstr \<Rightarrow> rstr option) \<Rightarrow> network_proxy_settings \<Rightarrow> network_proxy_constraints \<Rightarrow> ('e proxy_error, unit) result" where
  "validate_allowed_domains url_host net con =
     (case con_allowed_domains con of
        None \<Rightarrow> Inr ()
      | Some managed \<Rightarrow>
          (let candidates = entries_or_empty (allowed_domains net);
               overrides = lowercased (entries_or_empty (denied_domains net))
           in rbind (validate_non_global_wildcard_domain_patterns (lit ''network.allowed_domains'') managed) (\<lambda>_.
                require
                  (case con_allowlist_expansion con of
                     Some True \<Rightarrow> lowercased managed - lowercased candidates - overrides = {}
                   | Some False \<Rightarrow> lowercased candidates = lowercased managed - overrides
                   | None \<Rightarrow> \<forall>e \<in> set candidates. \<exists>m \<in> set managed. pattern_allows (parse_for_constraints url_host m) (parse_for_constraints url_host e))
                  (lit ''network.allowed_domains''))))"

definition validate_denied_domains :: "network_proxy_settings \<Rightarrow> network_proxy_constraints \<Rightarrow> ('e proxy_error, unit) result" where
  "validate_denied_domains net con =
     (case con_denied_domains con of
        None \<Rightarrow> Inr ()
      | Some managed \<Rightarrow>
          (let candidates = entries_or_empty (denied_domains net)
           in rbind (validate_non_global_wildcard_domain_patterns (lit ''network.denied_domains'') managed) (\<lambda>_.
                require
                  (case con_denylist_expansion con of
                     Some False \<Rightarrow> lowercased candidates = lowercased managed
                   | _ \<Rightarrow> lowercased managed \<subseteq> lowercased candidates)
                  (lit ''network.denied_domains''))))"

definition validate_policy_against_constraints ::
    "(rstr \<Rightarrow> rstr option) \<Rightarrow> network_proxy_settings \<Rightarrow> network_proxy_constraints \<Rightarrow> ('e proxy_error, unit) result" where
  "validate_policy_against_constraints url_host net con =
     rbind (validate_non_global_wildcard_domain_patterns (lit ''network.denied_domains'') (entries_or_empty (denied_domains net))) (\<lambda>_.
     rbind (require (case con_enabled con of Some max_enabled \<Rightarrow> \<not> (proxy_enabled net \<and> \<not> max_enabled) | None \<Rightarrow> True) (lit ''network.enabled'')) (\<lambda>_.
     rbind (require (case con_mode con of Some max_mode \<Rightarrow> network_mode_rank (net_mode net) \<le> network_mode_rank max_mode | None \<Rightarrow> True)
              (lit ''network.mode'')) (\<lambda>_.
     rbind (require (con_allow_upstream_proxy con \<noteq> Some False \<or> \<not> allow_upstream_proxy net) (lit ''network.allow_upstream_proxy'')) (\<lambda>_.
     rbind (require (con_non_loopback_proxy con \<noteq> Some False \<or> \<not> dangerously_allow_non_loopback_proxy net)
              (lit ''network.dangerously_allow_non_loopback_proxy'')) (\<lambda>_.
     rbind (require (\<not> (dangerously_allow_all_unix_sockets net \<and>
                        \<not> (case con_all_unix_sockets con of Some b \<Rightarrow> b | None \<Rightarrow> con_allow_unix_sockets con = None)))
              (lit ''network.dangerously_allow_all_unix_sockets'')) (\<lambda>_.
     rbind (require (case con_allow_local_binding con of Some b \<Rightarrow> \<not> (allow_local_binding net \<and> \<not> b) | None \<Rightarrow> True)
              (lit ''network.allow_local_binding'')) (\<lambda>_.
     rbind (validate_allowed_domains url_host net con) (\<lambda>_.
     rbind (validate_denied_domains net con) (\<lambda>_.
       require (case con_allow_unix_sockets con of
                  Some managed \<Rightarrow> \<forall>e \<in> set (allow_unix_sockets net). to_ascii_lowercase e \<in> lowercased managed
                | None \<Rightarrow> True) (lit ''network.allow_unix_sockets''))))))))))"

section \<open>State\<close>

datatype host_block_reason = BlockDenied | BlockNotAllowed | BlockNotAllowedLocal

definition block_reason_str :: "host_block_reason \<Rightarrow> rstr" where
  "block_reason_str r =
     (case r of BlockDenied \<Rightarrow> lit ''denied'' | BlockNotAllowed \<Rightarrow> lit ''not_allowed'' | BlockNotAllowedLocal \<Rightarrow> lit ''not_allowed_local'')"

datatype host_block_decision = HostAllowed | HostBlocked host_block_reason

record 'm config_state =
  state_config :: network_proxy_settings
  allow_set :: "rstr \<Rightarrow> bool"
  deny_set :: "rstr \<Rightarrow> bool"
  state_mitm :: "'m option"
  constraints :: network_proxy_constraints
  blocked :: "blocked_request list"
  blocked_total :: nat

text \<open>What the proxy relies on: glob compilation, the certificate store of MITM, host parsing and name resolution (\<open>None\<close>: failed or timed out).\<close>

record ('e, 'm) proxy_env =
  globs :: "'e glob_lib"
  mitm_new :: "bool \<Rightarrow> bool \<Rightarrow> ('e, 'm) result"
  url_host :: "rstr \<Rightarrow> rstr option"
  lookup_host :: "rstr \<Rightarrow> nat \<Rightarrow> ip_addr list option"

fun validate_unix_socket_paths :: "nat \<Rightarrow> rstr list \<Rightarrow> ('e proxy_error, unit) result" where
  "validate_unix_socket_paths i [] = Inr ()"
| "validate_unix_socket_paths i (p # ps) =
     (if is_absolute p then validate_unix_socket_paths (Suc i) ps else Inl (InvalidUnixSocketPath i))"

definition build_config_state ::
    "('e, 'm) proxy_env \<Rightarrow> network_proxy_settings \<Rightarrow> network_proxy_constraints \<Rightarrow> ('e proxy_error, 'm config_state) result" where
  "build_config_state env net con =
     rbind (validate_unix_socket_paths 0 (allow_unix_sockets net)) (\<lambda>_.
     let allowed = entries_or_empty (allowed_domains net);
         denied = entries_or_empty (denied_domains net)
     in rbind (validate_non_global_wildcard_domain_patterns (lit ''network.denied_domains'') denied) (\<lambda>_.
        rbind (compile_denylist_globset (globs env) denied) (\<lambda>deny_set.
        rbind (compile_allowlist_globset (globs env) allowed) (\<lambda>allow_set.
        rbind (if mitm net
               then (case mitm_new env (allow_upstream_proxy net) (allow_local_binding net) of Inl e \<Rightarrow> Inl (MitmError e) | Inr m \<Rightarrow> Inr (Some m))
               else Inr None) (\<lambda>m.
          Inr \<lparr>state_config = net, allow_set = allow_set, deny_set = deny_set, state_mitm = m, constraints = con, blocked = [], blocked_total = 0\<rparr>)))))"

section \<open>The decision about a host\<close>

definition globset_matches_host_or_unscoped :: "(rstr \<Rightarrow> bool) \<Rightarrow> rstr \<Rightarrow> bool" where
  "globset_matches_host_or_unscoped m host \<longleftrightarrow> m host \<or> (case unscoped_ip_literal host of Some ip \<Rightarrow> m ip | None \<Rightarrow> False)"

definition is_explicit_local_allowlisted :: "rstr list \<Rightarrow> rstr \<Rightarrow> bool" where
  "is_explicit_local_allowlisted allowed host \<longleftrightarrow>
     (\<exists>pat \<in> set allowed.
        let pat = trim pat
        in \<not> (pat = lit ''*'' \<or> starts_with pat (lit ''*.'') \<or> starts_with pat (lit ''**.'')) \<and> 42 \<notin> set pat \<and> 63 \<notin> set pat \<and>
           (normalize_proxy_host pat = host \<or> unscoped_ip_literal host = Some (normalize_proxy_host pat)))"

definition host_resolves_to_non_public_ip :: "(rstr \<Rightarrow> nat \<Rightarrow> ip_addr list option) \<Rightarrow> rstr \<Rightarrow> nat \<Rightarrow> bool" where
  "host_resolves_to_non_public_ip lookup host port =
     (case parse_ip host of
        Some ip \<Rightarrow> is_non_public_ip ip
      | None \<Rightarrow> (case lookup host port of None \<Rightarrow> True | Some addrs \<Rightarrow> \<exists>a \<in> set addrs. is_non_public_ip a))"

definition is_local_literal :: "rstr \<Rightarrow> bool" where
  "is_local_literal host \<longleftrightarrow>
     is_loopback_host host \<or> (case parse_ip (without_scope host) of Some ip \<Rightarrow> is_non_public_ip ip | None \<Rightarrow> False)"

definition host_blocked :: "('e, 'm) proxy_env \<Rightarrow> 'm config_state \<Rightarrow> rstr \<Rightarrow> nat \<Rightarrow> host_block_decision" where
  "host_blocked env s host port =
     (case host_parse host of
        None \<Rightarrow> HostBlocked BlockNotAllowed
      | Some h \<Rightarrow>
          (let net = state_config s
           in if globset_matches_host_or_unscoped (deny_set s) h then HostBlocked BlockDenied
              else if \<not> allow_local_binding net \<and>
                  (if is_local_literal h then \<not> is_explicit_local_allowlisted (entries_or_empty (allowed_domains net)) h
                   else host_resolves_to_non_public_ip (lookup_host env) h port)
              then HostBlocked BlockNotAllowedLocal
              else if allowed_domains net = None \<or> \<not> globset_matches_host_or_unscoped (allow_set s) h
              then HostBlocked BlockNotAllowed else HostAllowed))"

section \<open>The log of blocked requests\<close>

definition MAX_BLOCKED_EVENTS :: nat where
  "MAX_BLOCKED_EVENTS = 200"

definition record_blocked :: "blocked_request \<Rightarrow> 'm config_state \<Rightarrow> 'm config_state" where
  "record_blocked request s =
     (let bs = blocked s @ [request]
      in s\<lparr>blocked := drop (length bs - MAX_BLOCKED_EVENTS) bs, blocked_total := min (2 ^ 64 - 1) (blocked_total s + 1)\<rparr>)"

definition drain_blocked :: "'m config_state \<Rightarrow> 'm config_state \<times> blocked_request list" where
  "drain_blocked s = (s\<lparr>blocked := []\<rparr>, blocked s)"

section \<open>Replacing the configuration\<close>

text \<open>A reload on demand reads the log and writes the new state later; a forced reload takes the log over when it writes.\<close>

definition reload_commit :: "'m config_state \<Rightarrow> 'm config_state \<Rightarrow> 'm config_state" where
  "reload_commit snapshot fresh = fresh\<lparr>blocked := blocked snapshot, blocked_total := blocked_total snapshot\<rparr>"

definition force_reload_commit :: "'m config_state \<Rightarrow> 'm config_state \<Rightarrow> 'm config_state" where
  "force_reload_commit current fresh = fresh\<lparr>blocked := blocked current\<rparr>"

definition replace_config_state :: "'m config_state \<Rightarrow> 'm config_state \<Rightarrow> 'm config_state" where
  "replace_config_state fresh current = fresh\<lparr>blocked := blocked current, blocked_total := blocked_total current\<rparr>"

datatype 'a attempt = Retry | Done 'a

definition set_network_mode_commit ::
    "('e, 'm) proxy_env \<Rightarrow> network_mode \<Rightarrow> 'm config_state \<Rightarrow> 'm config_state \<Rightarrow> ('e proxy_error, 'm config_state attempt) result" where
  "set_network_mode_commit env mode snapshot current =
     rbind (validate_policy_against_constraints (url_host env) ((state_config snapshot)\<lparr>net_mode := mode\<rparr>) (constraints snapshot)) (\<lambda>_.
       if constraints current \<noteq> constraints snapshot then Inr Retry
       else Inr (Done (current\<lparr>state_config := (state_config current)\<lparr>net_mode := mode\<rparr>\<rparr>)))"

datatype domain_list_kind = ListAllow | ListDeny

definition list_permission :: "domain_list_kind \<Rightarrow> domain_permission" where
  "list_permission k = (case k of ListAllow \<Rightarrow> PermissionAllow | ListDeny \<Rightarrow> PermissionDeny)"

definition list_entries :: "domain_list_kind \<Rightarrow> network_proxy_settings \<Rightarrow> rstr list" where
  "list_entries k net = entries_or_empty (case k of ListAllow \<Rightarrow> allowed_domains net | ListDeny \<Rightarrow> denied_domains net)"

definition opposite_entries :: "domain_list_kind \<Rightarrow> network_proxy_settings \<Rightarrow> rstr list" where
  "opposite_entries k net = entries_or_empty (case k of ListAllow \<Rightarrow> denied_domains net | ListDeny \<Rightarrow> allowed_domains net)"

definition lists_host :: "rstr \<Rightarrow> rstr list \<Rightarrow> bool" where
  "lists_host h es \<longleftrightarrow> (\<exists>e \<in> set es. normalize_proxy_host e = h)"

text \<open>
  One round of \<open>update_domain_list\<close>: what is computed from a snapshot is written to the state that is current then, unless the
  configuration changed in between.
\<close>

definition update_domain_list_commit ::
    "('e, 'm) proxy_env \<Rightarrow> rstr \<Rightarrow> domain_list_kind \<Rightarrow> 'm config_state \<Rightarrow> 'm config_state \<Rightarrow> ('e proxy_error, 'm config_state attempt) result" where
  "update_domain_list_commit env host target snapshot current =
     (case host_parse host of
        None \<Rightarrow> Inl InvalidNetworkHost
      | Some h \<Rightarrow>
          (let net = state_config snapshot
           in if lists_host h (list_entries target net) \<and> \<not> lists_host h (opposite_entries target net) then Inr (Done current)
              else let candidate = upsert_domain_permission h (list_permission target) net
                   in rbind (validate_policy_against_constraints (url_host env) candidate (constraints snapshot)) (\<lambda>_.
                      rbind (build_config_state env candidate (constraints snapshot)) (\<lambda>fresh.
                        if constraints current \<noteq> constraints snapshot \<or> state_config current \<noteq> state_config snapshot then Inr Retry
                        else Inr (Done (fresh\<lparr>blocked := blocked snapshot, blocked_total := blocked_total snapshot\<rparr>))))))"

section \<open>Evaluation with the decider\<close>

definition map_decider_decision :: "network_decision \<Rightarrow> network_decision" where
  "map_decider_decision d =
     (case d of NetworkAllow \<Rightarrow> NetworkAllow | NetworkDeny reason _ decision \<Rightarrow> NetworkDeny reason Decider decision)"

definition evaluate_host_policy ::
    "('e, 'm) proxy_env \<Rightarrow> (network_policy_request \<Rightarrow> network_decision) option \<Rightarrow> 'm config_state \<Rightarrow> network_policy_request \<Rightarrow> network_decision" where
  "evaluate_host_policy env decider s req =
     (case host_blocked env s (net_req_host req) (net_req_port req) of
        HostAllowed \<Rightarrow> NetworkAllow
      | HostBlocked BlockNotAllowed \<Rightarrow>
          (case decider of
             Some decide \<Rightarrow> map_decider_decision (decide req)
           | None \<Rightarrow> deny_with_source (block_reason_str BlockNotAllowed) BaselinePolicy)
      | HostBlocked reason \<Rightarrow> deny_with_source (block_reason_str reason) BaselinePolicy)"

section \<open>Interleaved operations\<close>

text \<open>
  Every operation reads the state, computes, and writes: between its read and its write the state may change. A configuration of the
  system is the current state with the states that operations have read. \<open>src\<close> is what may be imposed as constraints: both
  callers that build a state validate its settings against the constraints first.
\<close>

abbreviation valid_settings :: "('e, 'm) proxy_env \<Rightarrow> network_proxy_settings \<Rightarrow> network_proxy_constraints \<Rightarrow> bool" where
  "valid_settings env net con \<equiv> validate_policy_against_constraints (url_host env) net con = (Inr () :: ('e proxy_error, unit) result)"

definition loaded :: "('e, 'm) proxy_env \<Rightarrow> (network_proxy_constraints \<Rightarrow> bool) \<Rightarrow> 'm config_state \<Rightarrow> bool" where
  "loaded env src s \<longleftrightarrow>
     (\<exists>net con. src con \<and> valid_settings env net con \<and> build_config_state env net con = Inr s)"

inductive proxy_move ::
    "('e, 'm) proxy_env \<Rightarrow> (network_proxy_constraints \<Rightarrow> bool) \<Rightarrow> 'm config_state \<times> 'm config_state list \<Rightarrow> 'm config_state \<times> 'm config_state list \<Rightarrow> bool"
  for env src where
  "proxy_move env src (s, qs) (s, s # qs)"
| "proxy_move env src (s, qs) (record_blocked r s, qs)"
| "proxy_move env src (s, qs) (fst (drain_blocked s), qs)"
| "loaded env src f \<Longrightarrow> q \<in> set qs \<Longrightarrow> proxy_move env src (s, qs) (reload_commit q f, qs)"
| "loaded env src f \<Longrightarrow> proxy_move env src (s, qs) (force_reload_commit s f, qs)"
| "loaded env src f \<Longrightarrow> proxy_move env src (s, qs) (replace_config_state f s, qs)"
| "q \<in> set qs \<Longrightarrow> set_network_mode_commit env mode q s = Inr (Done t) \<Longrightarrow> proxy_move env src (s, qs) (t, qs)"
| "q \<in> set qs \<Longrightarrow> update_domain_list_commit env host target q s = Inr (Done t) \<Longrightarrow> proxy_move env src (s, qs) (t, qs)"

definition admitted :: "('e, 'm) proxy_env \<Rightarrow> (network_proxy_constraints \<Rightarrow> bool) \<Rightarrow> 'm config_state \<Rightarrow> bool" where
  "admitted env src s \<longleftrightarrow>
     src (constraints s) \<and>
     compile_denylist_globset (globs env) (entries_or_empty (denied_domains (state_config s))) = Inr (deny_set s) \<and>
     compile_allowlist_globset (globs env) (entries_or_empty (allowed_domains (state_config s))) = Inr (allow_set s) \<and>
     valid_settings env (state_config s) (constraints s) \<and>
     length (blocked s) \<le> MAX_BLOCKED_EVENTS \<and> blocked_total s < 2 ^ 64"

lemma build_config_state_Inr:
  "build_config_state env net con = Inr s \<Longrightarrow>
     state_config s = net \<and> constraints s = con \<and> blocked s = [] \<and> blocked_total s = 0 \<and>
     compile_denylist_globset (globs env) (entries_or_empty (denied_domains net)) = Inr (deny_set s) \<and>
     compile_allowlist_globset (globs env) (entries_or_empty (allowed_domains net)) = Inr (allow_set s)"
  by (auto simp: build_config_state_def rbind_eq_Inr_iff Let_def)

lemma loaded_admitted: "loaded env src s \<Longrightarrow> admitted env src s"
  by (auto simp: loaded_def admitted_def dest!: build_config_state_Inr)

lemma domains_of_mode [simp]: "allowed_domains (net\<lparr>net_mode := m\<rparr>) = allowed_domains net" "denied_domains (net\<lparr>net_mode := m\<rparr>) = denied_domains net"
  "allow_unix_sockets (net\<lparr>net_mode := m\<rparr>) = allow_unix_sockets net"
  by (simp_all add: allowed_domains_def denied_domains_def domain_entries_def allow_unix_sockets_def)

lemma require_eq [simp]: "require ok field = Inr () \<longleftrightarrow> ok"
  by (simp add: require_def)

text \<open>The mode that a snapshot's settings may take is one that the current settings may take, when the constraints agree.\<close>

lemma validate_lists_mode [simp]:
  "validate_allowed_domains u (n\<lparr>net_mode := m\<rparr>) con = validate_allowed_domains u n con"
  "validate_denied_domains (n\<lparr>net_mode := m\<rparr>) con = validate_denied_domains n con"
  unfolding validate_allowed_domains_def validate_denied_domains_def domains_of_mode by (rule refl)+

lemma validate_mode:
  assumes "valid_settings env (n\<lparr>net_mode := m\<rparr>) con" "valid_settings env n' con"
  shows "valid_settings env (n'\<lparr>net_mode := m\<rparr>) con"
  using assms unfolding validate_policy_against_constraints_def rbind_eq_Inr_iff domains_of_mode
  by (cases "con_enabled con"; cases "con_mode con"; cases "con_allow_local_binding con") simp_all

lemma set_network_mode_admitted:
  "set_network_mode_commit env mode q s = Inr (Done t) \<Longrightarrow> admitted env src s \<Longrightarrow> admitted env src t"
  by (auto simp: set_network_mode_commit_def rbind_eq_Inr_iff admitted_def split: if_splits intro: validate_mode)

lemma update_domain_list_cases:
  assumes "update_domain_list_commit env host target q s = Inr (Done t)"
  obtains (unchanged) h where "host_parse host = Some h" "t = s" "lists_host h (list_entries target (state_config q))"
  | (rebuilt) h fresh where "host_parse host = Some h"
      "valid_settings env (upsert_domain_permission h (list_permission target) (state_config q)) (constraints q)"
      "build_config_state env (upsert_domain_permission h (list_permission target) (state_config q)) (constraints q) = Inr fresh"
      "constraints s = constraints q" "t = fresh\<lparr>blocked := blocked q, blocked_total := blocked_total q\<rparr>"
proof -
  from assms obtain h where h: "host_parse host = Some h" by (auto simp: update_domain_list_commit_def split: option.splits)
  show thesis
  proof (cases "lists_host h (list_entries target (state_config q)) \<and> \<not> lists_host h (opposite_entries target (state_config q))")
    case True
    with assms h show thesis by (intro unchanged) (auto simp: update_domain_list_commit_def)
  next
    case False
    from assms [unfolded update_domain_list_commit_def Let_def h option.case if_not_P [OF False] rbind_eq_Inr_iff]
    show thesis using rebuilt [OF h] by (auto split: if_splits)
  qed
qed

lemma update_domain_list_admitted:
  assumes "update_domain_list_commit env host target q s = Inr (Done t)" "admitted env src s" "admitted env src q"
  shows "admitted env src t"
  using assms(1)
proof (rule update_domain_list_cases)
  fix h assume "t = s"
  with assms(2) show ?thesis by simp
next
  fix h fresh assume "build_config_state env (upsert_domain_permission h (list_permission target) (state_config q)) (constraints q) = Inr fresh"
    "valid_settings env (upsert_domain_permission h (list_permission target) (state_config q)) (constraints q)"
    "t = fresh\<lparr>blocked := blocked q, blocked_total := blocked_total q\<rparr>"
  with assms(3) show ?thesis by (auto simp: admitted_def dest!: build_config_state_Inr)
qed

lemma admitted_log_change:
  "admitted env src s \<Longrightarrow> length b \<le> MAX_BLOCKED_EVENTS \<Longrightarrow> n < 2 ^ 64 \<Longrightarrow> admitted env src (s\<lparr>blocked := b, blocked_total := n\<rparr>)"
  "admitted env src s \<Longrightarrow> length b \<le> MAX_BLOCKED_EVENTS \<Longrightarrow> admitted env src (s\<lparr>blocked := b\<rparr>)"
  by (simp_all add: admitted_def)

lemma admitted_log: "admitted env src s \<Longrightarrow> length (blocked s) \<le> MAX_BLOCKED_EVENTS \<and> blocked_total s < 2 ^ 64"
  by (simp add: admitted_def)

lemma record_blocked_admitted: "admitted env src s \<Longrightarrow> admitted env src (record_blocked r s)"
  by (auto simp: record_blocked_def Let_def intro!: admitted_log_change dest: admitted_log)

interpretation proxy: transition_invariant "proxy_move env src" "\<lambda>(s, qs). admitted env src s \<and> (\<forall>q \<in> set qs. admitted env src q)" for env src
proof unfold_locales
  fix a b assume "proxy_move env src a b" "case a of (s, qs) \<Rightarrow> admitted env src s \<and> (\<forall>q \<in> set qs. admitted env src q)"
  then show "case b of (s, qs) \<Rightarrow> admitted env src s \<and> (\<forall>q \<in> set qs. admitted env src q)"
    by (induction rule: proxy_move.induct)
      (auto simp: drain_blocked_def reload_commit_def force_reload_commit_def replace_config_state_def
        intro: set_network_mode_admitted update_domain_list_admitted record_blocked_admitted intro!: admitted_log_change
        dest: loaded_admitted admitted_log)
qed

lemma reachable_admitted:
  assumes "loaded env src s0" "(proxy_move env src)\<^sup>*\<^sup>* (s0, []) (s, qs)"
  shows "admitted env src s"
  using proxy.kept_moves [OF assms(2)] loaded_admitted [OF assms(1)] by simp

section \<open>Hosts that are denied, and hosts that are allowed\<close>

lemma deny_set_hits:
  assumes "glob_laws (globs env)" "admitted env src s" "p \<in> set (entries_or_empty (denied_domains (state_config s)))"
    and "plain_text (pattern_domain (normal_pattern p))" "covers (normal_pattern p) h"
  shows "deny_set s h"
proof -
  have "compile_globset_with_policy (globs env) True (entries_or_empty (denied_domains (state_config s))) = Inr (deny_set s)"
    using assms(2) by (simp add: admitted_def compile_denylist_globset_def)
  from compiled_hits [OF assms(1) this] show ?thesis using expanded_hits [OF assms(1,4)] assms(3,5) by blast
qed

lemma allow_set_covered:
  assumes "glob_laws (globs env)" "admitted env src s" "allow_set s h"
    and "\<forall>p \<in> set (entries_or_empty (allowed_domains (state_config s))). plain_text (pattern_domain (normal_pattern p))"
  shows "\<exists>p \<in> set (entries_or_empty (allowed_domains (state_config s))). covers (normal_pattern p) h"
proof -
  have "compile_globset_with_policy (globs env) False (entries_or_empty (allowed_domains (state_config s))) = Inr (allow_set s)"
    using assms(2) by (simp add: admitted_def compile_allowlist_globset_def)
  from compiled_covers [OF assms(1) this assms(4)] show ?thesis using assms(3) by blast
qed

lemma denied_evaluation:
  assumes "host_parse (net_req_host req) = Some h" "deny_set s h"
  shows "evaluate_host_policy env decider s req = deny_with_source (lit ''denied'') BaselinePolicy"
  using assms by (simp add: evaluate_host_policy_def host_blocked_def globset_matches_host_or_unscoped_def block_reason_str_def)

lemma eq_ignore_ascii_case_refl [simp]: "eq_ignore_ascii_case h h"
  by (simp add: eq_ignore_ascii_case_def)

lemma upserted_is_denied: "h \<in> set (entries_or_empty (denied_domains (upsert_domain_permission h PermissionDeny net)))"
  unfolding denied_domain_iff by (simp add: upsert_domain_permission_def Let_def some_unless_empty_def)

text \<open>
  C30: A host that was added to the denylist is denied at once, however it is written: any request whose host has the same normal form
  is refused by the baseline policy and the decider is not asked.
\<close>

theorem denied_domain_takes_effect:
  assumes "glob_laws (globs env)" "admitted env src s" "update_domain_list_commit env host ListDeny s s = Inr (Done t)"
    and "host_parse host = Some h" "canonical_host h" "host_parse (net_req_host req) = Some h"
  shows "evaluate_host_policy env decider t req = deny_with_source (lit ''denied'') BaselinePolicy"
proof -
  have t: "admitted env src t" using update_domain_list_admitted [OF assms(3,2,2)] .
  from assms(3) obtain e where e: "e \<in> set (entries_or_empty (denied_domains (state_config t)))" "normalize_proxy_host e = h"
  proof (cases rule: update_domain_list_cases)
    case (unchanged h')
    then have "lists_host h (entries_or_empty (denied_domains (state_config t)))" using assms(4) by (simp add: list_entries_def)
    with that show thesis unfolding lists_host_def by blast
  next
    case (rebuilt h' fresh)
    then have "state_config t = upsert_domain_permission h PermissionDeny (state_config s)"
      using assms(4) by (auto simp: list_permission_def dest!: build_config_state_Inr)
    with assms(5) upserted_is_denied [of h "state_config s"] show thesis by (intro that [of h]) (simp_all add: canonical_host_def)
  qed
  have "deny_set t h"
    using deny_set_hits [OF assms(1) t e(1)] plain_normal_pattern [OF e(2) assms(5)] assms(5) by (simp add: canonical_host_def)
  then show ?thesis by (rule denied_evaluation [OF assms(6)])
qed

section \<open>A sample environment\<close>

definition sample_globs :: "unit glob_lib" where
  "sample_globs =
     \<lparr>new_glob = (\<lambda>p. Inr (case strip_prefix (lit ''?*.'') p of
                          Some d \<Rightarrow> (\<lambda>h. length d + 1 < length h \<and> ends_with (to_ascii_lowercase h) (to_ascii_lowercase (dot_char # d)))
                        | None \<Rightarrow> (\<lambda>h. eq_ignore_ascii_case h p))),
      build_globset = (\<lambda>gs. Inr (\<lambda>h. \<exists>g \<in> set gs. g h))\<rparr>"

lemma sample_glob_laws: "glob_laws sample_globs"
proof -
  have "(length d + 1 < length h \<and> ends_with (to_ascii_lowercase h) (to_ascii_lowercase (dot_char # d))) \<longleftrightarrow>
      (\<exists>x. x \<noteq> [] \<and> eq_ignore_ascii_case h (x @ dot_char # d))" (is "?l \<longleftrightarrow> ?r") for d h
  proof
    assume l: ?l
    then obtain x where x: "to_ascii_lowercase h = x @ to_ascii_lowercase (dot_char # d)" unfolding ends_with_append by blast
    then have "length h = length x + length d + 1" by (metis add.assoc length_Cons length_append length_map Suc_eq_plus1 to_ascii_lowercase_def)
    with l have "x \<noteq> []" by auto
    have "to_ascii_lowercase x = x" using x by (metis append_eq_append_conv length_map to_ascii_lowercase_append to_ascii_lowercase_def to_ascii_lowercase_idem)
    with x \<open>x \<noteq> []\<close> show ?r unfolding eq_ignore_ascii_case_def by (metis to_ascii_lowercase_append)
  next
    assume ?r
    then obtain x where x: "x \<noteq> []" "to_ascii_lowercase h = to_ascii_lowercase x @ to_ascii_lowercase (dot_char # d)"
      by (auto simp: eq_ignore_ascii_case_def)
    then have "length h = length x + length d + 1" by (metis add.assoc length_Cons length_append length_map Suc_eq_plus1 to_ascii_lowercase_def)
    with x show ?l unfolding ends_with_append by auto
  qed
  moreover have "strip_prefix (lit ''?*.'') d = None" if "plain_text d" for d
    using that by (cases d) (auto simp: plain_text_def)
  ultimately show ?thesis by (auto simp: glob_laws_def sample_globs_def)
qed

definition proxy_sample_env :: "(unit, unit) proxy_env" where
  "proxy_sample_env = \<lparr>globs = sample_globs, mitm_new = (\<lambda>_ _. Inr ()), url_host = Some, lookup_host = (\<lambda>_ _. None)\<rparr>"

definition no_constraints :: network_proxy_constraints where
  "no_constraints =
     \<lparr>con_enabled = None, con_mode = None, con_allow_upstream_proxy = None, con_non_loopback_proxy = None, con_all_unix_sockets = None,
      con_allowed_domains = None, con_allowlist_expansion = None, con_denied_domains = None, con_denylist_expansion = None,
      con_allow_unix_sockets = None, con_allow_local_binding = None\<rparr>"

definition sample_state :: "unit config_state" where
  "sample_state = projr (build_config_state proxy_sample_env network_proxy_settings_default no_constraints)"

lemma Inr_projr: "\<not> isl r \<Longrightarrow> r = Inr (projr r)"
  by (metis sum.collapse(2))

lemma sample_built: "build_config_state proxy_sample_env network_proxy_settings_default no_constraints = Inr sample_state"
  unfolding sample_state_def by (rule Inr_projr) code_simp

lemma sample_admitted: "admitted proxy_sample_env (\<lambda>_. True) sample_state"
proof (rule loaded_admitted)
  have "valid_settings proxy_sample_env network_proxy_settings_default no_constraints" by code_simp
  with sample_built show "loaded proxy_sample_env (\<lambda>_. True) sample_state" unfolding loaded_def by blast
qed

definition settings_denying :: "rstr \<Rightarrow> network_proxy_settings" where
  "settings_denying h = network_proxy_settings_default\<lparr>domains := Some [(h, PermissionDeny)]\<rparr>"

lemma settings_denying_simps:
  "denied_domains (settings_denying h) = Some [h]" "allowed_domains (settings_denying h) = None" "allow_unix_sockets (settings_denying h) = []"
  "mitm (settings_denying h) = False"
  by (simp_all add: settings_denying_def denied_domains_def allowed_domains_def domain_entries_def effective_entries_def add_effective_def
      allow_unix_sockets_def network_proxy_settings_default_def)

lemma canonical_not_wildcard:
  assumes "canonical_host h"
  shows "expand_domain_pattern (normalize_pattern h) = [h]" "\<not> is_global_wildcard_domain_pattern h"
proof -
  have "normal_pattern h = ExactDomain h" using plain_normal_pattern assms canonical_host_def by blast
  then show "expand_domain_pattern (normalize_pattern h) = [h]" by (simp add: expand_domain_pattern_def)
  with assms show "\<not> is_global_wildcard_domain_pattern h" by (auto simp: is_global_wildcard_domain_pattern_def canonical_host_def plain_text_def)
qed

lemma settings_denying_accepted:
  assumes "canonical_host h"
  shows "valid_settings proxy_sample_env (settings_denying h) no_constraints \<and> (\<exists>f. build_config_state proxy_sample_env (settings_denying h) no_constraints = Inr f)"
proof
  show "valid_settings proxy_sample_env (settings_denying h) no_constraints"
    unfolding validate_policy_against_constraints_def settings_denying_simps
    by (simp add: validate_non_global_wildcard_domain_patterns_def canonical_not_wildcard [OF assms] no_constraints_def
        validate_allowed_domains_def validate_denied_domains_def rbind_eq_Inr_iff)
  show "\<exists>f. build_config_state proxy_sample_env (settings_denying h) no_constraints = Inr f"
    unfolding build_config_state_def settings_denying_simps
    by (simp add: validate_non_global_wildcard_domain_patterns_def canonical_not_wildcard [OF assms] rbind_eq_Inr_iff
        compile_denylist_globset_def compile_allowlist_globset_def compile_globset_with_policy_def proxy_sample_env_def sample_globs_def)
qed

theorem denied_domain_takes_effect_witness:
  "\<exists>t. update_domain_list_commit proxy_sample_env (lit ''Example.com.'') ListDeny sample_state sample_state = Inr (Done t) \<and>
     evaluate_host_policy proxy_sample_env (Some (\<lambda>_. NetworkAllow)) t \<lparr>net_req_protocol = ProxyHttp, net_req_host = lit ''EXAMPLE.com:443'', net_req_port = 443\<rparr>
       = deny_with_source (lit ''denied'') BaselinePolicy"
proof -
  let ?r = "update_domain_list_commit proxy_sample_env (lit ''Example.com.'') ListDeny sample_state sample_state"
  have laws: "glob_laws (globs proxy_sample_env)" using sample_glob_laws by (simp add: proxy_sample_env_def)
  have hosts: "host_parse (lit ''Example.com.'') = Some (lit ''example.com'')" "canonical_host (lit ''example.com'')"
    "host_parse (lit ''EXAMPLE.com:443'') = Some (lit ''example.com'')"
    by (simp_all add: host_parse_def canonical_host_def plain_text_def host_simps)
  obtain f where f: "valid_settings proxy_sample_env (settings_denying (lit ''example.com'')) no_constraints"
    "build_config_state proxy_sample_env (settings_denying (lit ''example.com'')) no_constraints = Inr f"
    using settings_denying_accepted [OF hosts(2)] by blast
  have new: "\<not> lists_host (lit ''example.com'') (list_entries ListDeny network_proxy_settings_default)" by code_simp
  have s: "state_config sample_state = network_proxy_settings_default" "constraints sample_state = no_constraints"
    using build_config_state_Inr [OF sample_built] by blast+
  have perm: "upsert_domain_permission (lit ''example.com'') (list_permission ListDeny) network_proxy_settings_default = settings_denying (lit ''example.com'')"
    by (simp add: settings_denying_def list_permission_def upsert_domain_permission_def network_proxy_settings_default_def some_unless_empty_def)
  obtain t where t: "?r = Inr (Done t)"
    unfolding update_domain_list_commit_def hosts(1) option.case Let_def s perm f rbind_simps using new by simp
  from denied_domain_takes_effect [OF laws sample_admitted t hosts(1,2)] hosts(3) t show ?thesis by auto
qed

end
