(* ===== verification/Proxy_Spec.thy ===== *)
theory Proxy_Spec
  imports Proxy_State Exec_Policy Permission_Profile Config_Layers
begin

text \<open>
  How configuration reaches the network proxy: the network tables of the configuration files (\<open>config/src/permissions_toml.rs\<close>), the
  network section of managed requirements (\<open>config/src/config_requirements.rs\<close>), the specification of a session's
  proxy (\<open>core/src/config/network_proxy_spec.rs\<close>) and the constraints that trusted layers impose
  (\<open>core/src/network_proxy_loader.rs\<close>). What requirements deny stays denied and, in managed-only mode, what they do not allow is not
  allowed, whatever the user's settings, the rules of the exec policy and the operations on the running proxy.
\<close>

section \<open>Tables\<close>

datatype domain_permission_toml = TomlAllow | TomlDeny

type_synonym domain_permissions_toml = "(rstr \<times> domain_permission_toml) list"
type_synonym unix_socket_permissions_toml = "(rstr \<times> unix_socket_permission) list"

definition toml_entries :: "domain_permission_toml \<Rightarrow> domain_permissions_toml \<Rightarrow> rstr list option" where
  "toml_entries perm ds = some_unless_empty (map fst (filter (\<lambda>(_, p). p = perm) ds))"

definition toml_allowed_domains :: "domain_permissions_toml \<Rightarrow> rstr list option" where
  "toml_allowed_domains = toml_entries TomlAllow"

definition toml_denied_domains :: "domain_permissions_toml \<Rightarrow> rstr list option" where
  "toml_denied_domains = toml_entries TomlDeny"

definition toml_allow_unix_sockets :: "unix_socket_permissions_toml \<Rightarrow> rstr list" where
  "toml_allow_unix_sockets m = map fst (filter (\<lambda>(_, p). p = SocketAllow) m)"

record network_toml =
  nt_enabled :: "bool option"
  nt_proxy_url :: "rstr option"
  nt_enable_socks5 :: "bool option"
  nt_socks_url :: "rstr option"
  nt_enable_socks5_udp :: "bool option"
  nt_allow_upstream_proxy :: "bool option"
  nt_non_loopback_proxy :: "bool option"
  nt_all_unix_sockets :: "bool option"
  nt_mode :: "network_mode option"
  nt_domains :: "domain_permissions_toml option"
  nt_unix_sockets :: "unix_socket_permissions_toml option"
  nt_allow_local_binding :: "bool option"

definition or_keep :: "'a option \<Rightarrow> 'a \<Rightarrow> 'a" where
  "or_keep new old = (case new of Some v \<Rightarrow> v | None \<Rightarrow> old)"

definition proxy_permission :: "domain_permission_toml \<Rightarrow> domain_permission" where
  "proxy_permission p = (case p of TomlAllow \<Rightarrow> PermissionAllow | TomlDeny \<Rightarrow> PermissionDeny)"

definition overlay_network_domain_permissions :: "network_proxy_settings \<Rightarrow> domain_permissions_toml \<Rightarrow> network_proxy_settings" where
  "overlay_network_domain_permissions net ds = foldl (\<lambda>net (pat, p). upsert_domain_permission pat (proxy_permission p) net) net ds"

definition overlay_unix_sockets :: "network_proxy_settings \<Rightarrow> unix_socket_permissions_toml \<Rightarrow> network_proxy_settings" where
  "overlay_unix_sockets net m =
     net\<lparr>unix_sockets := some_unless_empty
          (foldl (\<lambda>acc (path, p). btree_insert path p acc) (case unix_sockets net of Some m' \<Rightarrow> m' | None \<Rightarrow> []) m)\<rparr>"

definition apply_to_network_proxy_config :: "network_toml \<Rightarrow> network_proxy_settings \<Rightarrow> network_proxy_settings" where
  "apply_to_network_proxy_config nt net =
     (let net = net\<lparr>proxy_enabled := or_keep (nt_enabled nt) (proxy_enabled net),
                    proxy_url := or_keep (nt_proxy_url nt) (proxy_url net),
                    enable_socks5 := or_keep (nt_enable_socks5 nt) (enable_socks5 net),
                    socks_url := or_keep (nt_socks_url nt) (socks_url net),
                    enable_socks5_udp := or_keep (nt_enable_socks5_udp nt) (enable_socks5_udp net),
                    allow_upstream_proxy := or_keep (nt_allow_upstream_proxy nt) (allow_upstream_proxy net),
                    dangerously_allow_non_loopback_proxy := or_keep (nt_non_loopback_proxy nt) (dangerously_allow_non_loopback_proxy net),
                    dangerously_allow_all_unix_sockets := or_keep (nt_all_unix_sockets nt) (dangerously_allow_all_unix_sockets net),
                    net_mode := or_keep (nt_mode nt) (net_mode net)\<rparr>;
          net = (case nt_domains nt of Some ds \<Rightarrow> overlay_network_domain_permissions net ds | None \<Rightarrow> net);
          net = (case nt_unix_sockets nt of Some m \<Rightarrow> overlay_unix_sockets net m | None \<Rightarrow> net)
      in net\<lparr>allow_local_binding := or_keep (nt_allow_local_binding nt) (allow_local_binding net)\<rparr>)"

definition to_network_proxy_config :: "network_toml \<Rightarrow> network_proxy_settings" where
  "to_network_proxy_config nt = apply_to_network_proxy_config nt network_proxy_settings_default"

datatype fs_permission_toml = FsAccess access_mode | FsScoped "(rstr \<times> access_mode) list"

record filesystem_permissions_toml =
  fst_glob_scan_max_depth :: "nat option"
  fst_entries :: "(rstr \<times> fs_permission_toml) list"

record permission_profile_toml =
  ppt_workspace_roots :: "(rstr \<times> bool) list option"
  ppt_filesystem :: "filesystem_permissions_toml option"
  ppt_network :: "network_toml option"

type_synonym permissions_toml = "(rstr \<times> permission_profile_toml) list"

datatype profile_error =
    UndefinedProfile rstr
  | UnknownBuiltin rstr
  | ReservedName rstr
  | MissingPermissionsTable
  | NotAbsolute rstr
  | BadSubpath rstr
  | NestedUnsupported rstr
  | GlobNeedsNone rstr
  | ZeroScanDepth
  | CurrentDirUnknown

definition resolve_permission_profile :: "permissions_toml \<Rightarrow> rstr \<Rightarrow> (profile_error, permission_profile_toml) result" where
  "resolve_permission_profile ps name = (case map_of ps name of Some p \<Rightarrow> Inr p | None \<Rightarrow> Inl (UndefinedProfile name))"

section \<open>Requirements\<close>

record raw_network_requirements =
  raw_enabled :: "bool option"
  raw_http_port :: "nat option"
  raw_socks_port :: "nat option"
  raw_allow_upstream_proxy :: "bool option"
  raw_non_loopback_proxy :: "bool option"
  raw_all_unix_sockets :: "bool option"
  raw_domains :: "domain_permissions_toml option"
  raw_allowed_domains :: "rstr list option"
  raw_managed_only :: "bool option"
  raw_denied_domains :: "rstr list option"
  raw_unix_sockets :: "unix_socket_permissions_toml option"
  raw_allow_unix_sockets :: "rstr list option"
  raw_allow_local_binding :: "bool option"

record network_constraints =
  req_enabled :: "bool option"
  req_http_port :: "nat option"
  req_socks_port :: "nat option"
  req_allow_upstream_proxy :: "bool option"
  req_non_loopback_proxy :: "bool option"
  req_all_unix_sockets :: "bool option"
  req_domains :: "domain_permissions_toml option"
  req_managed_only :: "bool option"
  req_unix_sockets :: "unix_socket_permissions_toml option"
  req_allow_local_binding :: "bool option"

definition list_or_empty :: "'a list option \<Rightarrow> 'a list" where
  "list_or_empty xs = (case xs of Some ys \<Rightarrow> ys | None \<Rightarrow> [])"

definition legacy_domain_permissions_from_lists :: "rstr list option \<Rightarrow> rstr list option \<Rightarrow> domain_permissions_toml option" where
  "legacy_domain_permissions_from_lists allowed denied =
     some_unless_empty
       (foldl (\<lambda>m p. btree_insert p TomlDeny m) (foldl (\<lambda>m p. btree_insert p TomlAllow m) [] (list_or_empty allowed)) (list_or_empty denied))"

definition legacy_unix_socket_permissions_from_list :: "rstr list option \<Rightarrow> unix_socket_permissions_toml option" where
  "legacy_unix_socket_permissions_from_list paths =
     some_unless_empty (foldl (\<lambda>m p. btree_insert p SocketAllow m) [] (list_or_empty paths))"

datatype requirements_error = DomainsCombined | UnixSocketsCombined

definition or_else :: "'a option \<Rightarrow> 'a option \<Rightarrow> 'a option" where
  "or_else a b = (case a of Some v \<Rightarrow> Some v | None \<Rightarrow> b)"

definition network_requirements_from_raw :: "raw_network_requirements \<Rightarrow> (requirements_error, network_constraints) result" where
  "network_requirements_from_raw raw =
     (if raw_domains raw \<noteq> None \<and> (raw_allowed_domains raw \<noteq> None \<or> raw_denied_domains raw \<noteq> None) then Inl DomainsCombined
      else if raw_unix_sockets raw \<noteq> None \<and> raw_allow_unix_sockets raw \<noteq> None then Inl UnixSocketsCombined
      else Inr \<lparr>req_enabled = raw_enabled raw, req_http_port = raw_http_port raw, req_socks_port = raw_socks_port raw,
                req_allow_upstream_proxy = raw_allow_upstream_proxy raw, req_non_loopback_proxy = raw_non_loopback_proxy raw,
                req_all_unix_sockets = raw_all_unix_sockets raw,
                req_domains = or_else (raw_domains raw) (legacy_domain_permissions_from_lists (raw_allowed_domains raw) (raw_denied_domains raw)),
                req_managed_only = raw_managed_only raw,
                req_unix_sockets = or_else (raw_unix_sockets raw) (legacy_unix_socket_permissions_from_list (raw_allow_unix_sockets raw)),
                req_allow_local_binding = raw_allow_local_binding raw\<rparr>)"

section \<open>The specification of the proxy\<close>

record network_proxy_spec =
  spec_base_config :: network_proxy_settings
  spec_requirements :: "network_constraints option"
  spec_config :: network_proxy_settings
  spec_constraints :: network_proxy_constraints
  hard_deny_allowlist_misses :: bool

definition managed_sandbox_active :: "permission_profile \<Rightarrow> bool" where
  "managed_sandbox_active profile = (case profile of Managed _ _ \<Rightarrow> True | _ \<Rightarrow> False)"

definition managed_allowed_domains_only :: "network_constraints \<Rightarrow> bool" where
  "managed_allowed_domains_only reqs = (case req_managed_only reqs of Some b \<Rightarrow> b | None \<Rightarrow> False)"

definition allowlist_expansion_enabled :: "permission_profile \<Rightarrow> bool \<Rightarrow> bool" where
  "allowlist_expansion_enabled profile hard \<longleftrightarrow> managed_sandbox_active profile \<and> \<not> hard"

definition denylist_expansion_enabled :: "permission_profile \<Rightarrow> bool" where
  "denylist_expansion_enabled profile = managed_sandbox_active profile"

definition merge_domain_lists :: "rstr list \<Rightarrow> rstr list \<Rightarrow> rstr list" where
  "merge_domain_lists managed user =
     foldl (\<lambda>acc e. if \<exists>m \<in> set acc. eq_ignore_ascii_case m e then acc else acc @ [e]) managed user"

definition managed_allowed :: "network_constraints \<Rightarrow> bool \<Rightarrow> rstr list option" where
  "managed_allowed reqs hard =
     (let listed = Option.bind (req_domains reqs) toml_allowed_domains in if hard then Some (list_or_empty listed) else listed)"

definition managed_denied :: "network_constraints \<Rightarrow> rstr list option" where
  "managed_denied reqs = Option.bind (req_domains reqs) toml_denied_domains"

definition apply_allowed :: "permission_profile \<Rightarrow> bool \<Rightarrow> network_constraints \<Rightarrow> network_proxy_settings \<Rightarrow> network_proxy_settings" where
  "apply_allowed profile hard reqs net =
     (case managed_allowed reqs hard of
        None \<Rightarrow> net
      | Some managed \<Rightarrow>
          set_allowed_domains
            (if allowlist_expansion_enabled profile hard then merge_domain_lists managed (entries_or_empty (allowed_domains net)) else managed) net)"

definition apply_denied :: "permission_profile \<Rightarrow> network_constraints \<Rightarrow> network_proxy_settings \<Rightarrow> network_proxy_settings" where
  "apply_denied profile reqs net =
     (case managed_denied reqs of
        None \<Rightarrow> net
      | Some managed \<Rightarrow>
          set_denied_domains
            (if denylist_expansion_enabled profile then merge_domain_lists managed (entries_or_empty (denied_domains net)) else managed) net)"

definition local_proxy_url :: "nat \<Rightarrow> rstr" where
  "local_proxy_url port = lit ''http://127.0.0.1:'' @ show_nat port"

definition apply_requirements ::
    "network_proxy_settings \<Rightarrow> network_constraints \<Rightarrow> permission_profile \<Rightarrow> bool \<Rightarrow> network_proxy_settings \<times> network_proxy_constraints" where
  "apply_requirements net reqs profile hard =
     (let net = net\<lparr>proxy_enabled := or_keep (req_enabled reqs) (proxy_enabled net),
                    proxy_url := or_keep (map_option local_proxy_url (req_http_port reqs)) (proxy_url net),
                    socks_url := or_keep (map_option local_proxy_url (req_socks_port reqs)) (socks_url net),
                    allow_upstream_proxy := or_keep (req_allow_upstream_proxy reqs) (allow_upstream_proxy net),
                    dangerously_allow_non_loopback_proxy := or_keep (req_non_loopback_proxy reqs) (dangerously_allow_non_loopback_proxy net),
                    dangerously_allow_all_unix_sockets := or_keep (req_all_unix_sockets reqs) (dangerously_allow_all_unix_sockets net)\<rparr>;
          net = apply_denied profile reqs (apply_allowed profile hard reqs net);
          net = (case req_unix_sockets reqs of Some m \<Rightarrow> set_allow_unix_sockets (toml_allow_unix_sockets m) net | None \<Rightarrow> net)
      in (net\<lparr>allow_local_binding := or_keep (req_allow_local_binding reqs) (allow_local_binding net)\<rparr>,
          \<lparr>con_enabled = req_enabled reqs, con_mode = None, con_allow_upstream_proxy = req_allow_upstream_proxy reqs,
           con_non_loopback_proxy = req_non_loopback_proxy reqs, con_all_unix_sockets = req_all_unix_sockets reqs,
           con_allowed_domains = managed_allowed reqs hard,
           con_allowlist_expansion = (if managed_allowed reqs hard = None then None else Some (allowlist_expansion_enabled profile hard)),
           con_denied_domains = managed_denied reqs,
           con_denylist_expansion = (if managed_denied reqs = None then None else Some (denylist_expansion_enabled profile)),
           con_allow_unix_sockets = map_option toml_allow_unix_sockets (req_unix_sockets reqs),
           con_allow_local_binding = req_allow_local_binding reqs\<rparr>))"

definition from_config_and_constraints ::
    "(rstr \<Rightarrow> rstr option) \<Rightarrow> network_proxy_settings \<Rightarrow> network_constraints option \<Rightarrow> permission_profile \<Rightarrow> ('e proxy_error, network_proxy_spec) result" where
  "from_config_and_constraints url net reqs profile =
     (let hard = (case reqs of Some r \<Rightarrow> managed_allowed_domains_only r | None \<Rightarrow> False);
          (config, con) = (case reqs of Some r \<Rightarrow> apply_requirements net r profile hard | None \<Rightarrow> (net, no_constraints))
      in rbind (validate_policy_against_constraints url config con) (\<lambda>_.
           Inr \<lparr>spec_base_config = net, spec_requirements = reqs, spec_config = config, spec_constraints = con,
                hard_deny_allowlist_misses = hard\<rparr>))"

definition recompute_for_permission_profile ::
    "(rstr \<Rightarrow> rstr option) \<Rightarrow> network_proxy_spec \<Rightarrow> permission_profile \<Rightarrow> ('e proxy_error, network_proxy_spec) result" where
  "recompute_for_permission_profile url spec profile = from_config_and_constraints url (spec_base_config spec) (spec_requirements spec) profile"

definition upsert_network_domains :: "rstr list \<Rightarrow> bool \<Rightarrow> network_proxy_settings \<Rightarrow> network_proxy_settings" where
  "upsert_network_domains hosts allow net =
     snd (foldl (\<lambda>(incoming, net) h.
            if h \<in> set incoming then (incoming, net)
            else (h # incoming, upsert_domain_permission h (if allow then PermissionAllow else PermissionDeny) net)) ([], net) hosts)"

definition apply_exec_policy_network_rules :: "policy \<Rightarrow> network_proxy_settings \<Rightarrow> network_proxy_settings" where
  "apply_exec_policy_network_rules exec_policy net =
     (case compiled_network_domains exec_policy of (allowed, denied) \<Rightarrow>
        upsert_network_domains denied False (upsert_network_domains allowed True net))"

definition with_exec_policy_network_rules ::
    "(rstr \<Rightarrow> rstr option) \<Rightarrow> network_proxy_spec \<Rightarrow> policy \<Rightarrow> ('e proxy_error, network_proxy_spec) result" where
  "with_exec_policy_network_rules url spec exec_policy =
     (let spec = spec\<lparr>spec_config := apply_exec_policy_network_rules exec_policy (spec_config spec)\<rparr>
      in rbind (validate_policy_against_constraints url (spec_config spec) (spec_constraints spec)) (\<lambda>_. Inr spec))"

definition build_config_state_for_spec :: "('e, 'm) proxy_env \<Rightarrow> network_proxy_spec \<Rightarrow> ('e proxy_error, 'm config_state) result" where
  "build_config_state_for_spec env spec = build_config_state env (spec_config spec) (spec_constraints spec)"

text \<open>The decider that \<open>start_proxy\<close> gives the proxy.\<close>

definition start_proxy_decider ::
    "network_proxy_spec \<Rightarrow> permission_profile \<Rightarrow> (network_policy_request \<Rightarrow> network_decision) option \<Rightarrow> bool \<Rightarrow> (network_policy_request \<Rightarrow> network_decision) option" where
  "start_proxy_decider spec profile policy_decider enable_network_approval_flow =
     (if enable_network_approval_flow \<and> \<not> hard_deny_allowlist_misses spec
      then (case policy_decider of
              Some d \<Rightarrow> Some d
            | None \<Rightarrow> if managed_sandbox_active profile then Some (\<lambda>_. network_ask (lit ''not_allowed'')) else None)
      else None)"

definition apply_to_started_proxy :: "('e, 'm) proxy_env \<Rightarrow> network_proxy_spec \<Rightarrow> 'm config_state \<Rightarrow> ('e proxy_error, 'm config_state) result" where
  "apply_to_started_proxy env spec current = rbind (build_config_state_for_spec env spec) (\<lambda>fresh. Inr (replace_config_state fresh current))"

section \<open>Constraints of trusted layers\<close>

definition apply_network_constraints :: "network_toml \<Rightarrow> network_proxy_constraints \<Rightarrow> network_proxy_constraints" where
  "apply_network_constraints nt con =
     (let con = con\<lparr>con_enabled := or_else (nt_enabled nt) (con_enabled con), con_mode := or_else (nt_mode nt) (con_mode con),
                    con_allow_upstream_proxy := or_else (nt_allow_upstream_proxy nt) (con_allow_upstream_proxy con),
                    con_non_loopback_proxy := or_else (nt_non_loopback_proxy nt) (con_non_loopback_proxy con),
                    con_all_unix_sockets := or_else (nt_all_unix_sockets nt) (con_all_unix_sockets con)\<rparr>;
          con = (case nt_domains nt of
                   None \<Rightarrow> con
                 | Some ds \<Rightarrow>
                     (let net = network_proxy_settings_default;
                          net = (case con_allowed_domains con of Some xs \<Rightarrow> set_allowed_domains xs net | None \<Rightarrow> net);
                          net = (case con_denied_domains con of Some xs \<Rightarrow> set_denied_domains xs net | None \<Rightarrow> net);
                          net = overlay_network_domain_permissions net ds
                      in con\<lparr>con_allowed_domains := allowed_domains net, con_denied_domains := denied_domains net\<rparr>));
          con = (case nt_unix_sockets nt of Some m \<Rightarrow> con\<lparr>con_allow_unix_sockets := Some (toml_allow_unix_sockets m)\<rparr> | None \<Rightarrow> con)
      in con\<lparr>con_allow_local_binding := or_else (nt_allow_local_binding nt) (con_allow_local_binding con)\<rparr>)"

record network_tables =
  default_permissions :: "rstr option"
  permission_tables :: "permissions_toml option"

datatype 'e loader_error = TablesError 'e | LoaderProfileError profile_error | LoaderProxyError "'e proxy_error"

definition selected_network_from_tables :: "network_tables \<Rightarrow> (profile_error, network_toml option) result" where
  "selected_network_from_tables parsed =
     (case default_permissions parsed of
        None \<Rightarrow> Inr None
      | Some name \<Rightarrow>
          (case permission_tables parsed of
             None \<Rightarrow> Inl MissingPermissionsTable
           | Some ps \<Rightarrow> rbind (resolve_permission_profile ps name) (\<lambda>p. Inr (ppt_network p))))"

definition is_user_controlled_layer :: "config_layer_source \<Rightarrow> bool" where
  "is_user_controlled_layer src = (case src of UserLayer _ _ \<Rightarrow> True | ProjectLayer _ \<Rightarrow> True | SessionFlags \<Rightarrow> True | _ \<Rightarrow> False)"

text \<open>\<open>tables\<close> is deserialisation of a layer's network tables.\<close>

definition layer_network :: "(toml \<Rightarrow> ('e, network_tables) result) \<Rightarrow> config_layer_entry \<Rightarrow> ('e loader_error, network_toml option) result" where
  "layer_network tables layer =
     (case tables (layer_config layer) of Inl e \<Rightarrow> Inl (TablesError e) | Inr parsed \<Rightarrow> (case selected_network_from_tables parsed of Inl e \<Rightarrow> Inl (LoaderProfileError e) | Inr nt \<Rightarrow> Inr nt))"

fun constraints_from_layers ::
    "(toml \<Rightarrow> ('e, network_tables) result) \<Rightarrow> config_layer_entry list \<Rightarrow> network_proxy_constraints \<Rightarrow> ('e loader_error, network_proxy_constraints) result" where
  "constraints_from_layers tables [] con = Inr con"
| "constraints_from_layers tables (l # ls) con =
     (if is_user_controlled_layer (layer_name l) then constraints_from_layers tables ls con
      else rbind (layer_network tables l) (\<lambda>nt.
             constraints_from_layers tables ls (case nt of Some n \<Rightarrow> apply_network_constraints n con | None \<Rightarrow> con)))"

definition network_constraints_from_trusted_layers ::
    "(toml \<Rightarrow> ('e, network_tables) result) \<Rightarrow> ('r, 't) config_layer_stack \<Rightarrow> ('e loader_error, network_proxy_constraints) result" where
  "network_constraints_from_trusted_layers tables st = constraints_from_layers tables (get_layers st LowestPrecedenceFirst False) no_constraints"

fun settings_from_layers ::
    "(toml \<Rightarrow> ('e, network_tables) result) \<Rightarrow> config_layer_entry list \<Rightarrow> network_proxy_settings \<Rightarrow> ('e loader_error, network_proxy_settings) result" where
  "settings_from_layers tables [] net = Inr net"
| "settings_from_layers tables (l # ls) net =
     rbind (layer_network tables l) (\<lambda>nt.
       settings_from_layers tables ls (case nt of Some n \<Rightarrow> apply_to_network_proxy_config n net | None \<Rightarrow> net))"

definition loader_exec_policy_network_rules :: "policy \<Rightarrow> network_proxy_settings \<Rightarrow> network_proxy_settings" where
  "loader_exec_policy_network_rules exec_policy net =
     (case compiled_network_domains exec_policy of (allowed, denied) \<Rightarrow>
        foldl (\<lambda>net h. upsert_domain_permission h PermissionDeny net)
          (foldl (\<lambda>net h. upsert_domain_permission h PermissionAllow net) net allowed) denied)"

definition config_from_layers ::
    "(toml \<Rightarrow> ('e, network_tables) result) \<Rightarrow> ('r, 't) config_layer_stack \<Rightarrow> policy \<Rightarrow> ('e loader_error, network_proxy_settings) result" where
  "config_from_layers tables st exec_policy =
     rbind (settings_from_layers tables (get_layers st LowestPrecedenceFirst False) network_proxy_settings_default) (\<lambda>net.
       Inr (loader_exec_policy_network_rules exec_policy net))"

definition lift_proxy :: "('e proxy_error, 'a) result \<Rightarrow> ('e loader_error, 'a) result" where
  "lift_proxy r = (case r of Inl e \<Rightarrow> Inl (LoaderProxyError e) | Inr v \<Rightarrow> Inr v)"

definition enforce_trusted_constraints ::
    "('e, 'm) proxy_env \<Rightarrow> (toml \<Rightarrow> ('e, network_tables) result) \<Rightarrow> ('r, 't) config_layer_stack \<Rightarrow> network_proxy_settings \<Rightarrow>
     ('e loader_error, network_proxy_constraints) result" where
  "enforce_trusted_constraints env tables st net =
     rbind (network_constraints_from_trusted_layers tables st) (\<lambda>con.
     rbind (lift_proxy (validate_policy_against_constraints (url_host env) net con)) (\<lambda>_. Inr con))"

definition build_state_from_layers ::
    "('e, 'm) proxy_env \<Rightarrow> (toml \<Rightarrow> ('e, network_tables) result) \<Rightarrow> ('r, 't) config_layer_stack \<Rightarrow> policy \<Rightarrow> ('e loader_error, 'm config_state) result" where
  "build_state_from_layers env tables st exec_policy =
     rbind (config_from_layers tables st exec_policy) (\<lambda>net.
     rbind (enforce_trusted_constraints env tables st net) (\<lambda>con. lift_proxy (build_config_state env net con)))"

section \<open>What is loaded\<close>

lemma constraints_ignore_user_layers:
  "constraints_from_layers tables ls con = constraints_from_layers tables (filter (\<lambda>l. \<not> is_user_controlled_layer (layer_name l)) ls) con"
  by (induction ls arbitrary: con) simp_all

lemma lift_proxy_Inr [simp]: "lift_proxy r = Inr v \<longleftrightarrow> r = Inr v"
  by (simp add: lift_proxy_def split: sum.split)

lemma layers_loaded:
  assumes "build_state_from_layers env tables st exec_policy = Inr s"
  shows "loaded env (\<lambda>con. network_constraints_from_trusted_layers tables st = Inr con) s"
  using assms unfolding build_state_from_layers_def enforce_trusted_constraints_def loaded_def by (auto simp: rbind_eq_Inr_iff)

text \<open>The specifications a session makes under some requirements, and the constraints they carry.\<close>

inductive spec_for :: "('e, 'm) proxy_env \<Rightarrow> network_constraints \<Rightarrow> network_proxy_spec \<Rightarrow> bool" for env :: "('e, 'm) proxy_env" and reqs where
  "from_config_and_constraints (url_host env) net (Some reqs) profile = (Inr spec :: ('e proxy_error, network_proxy_spec) result) \<Longrightarrow> spec_for env reqs spec"
| "spec_for env reqs spec \<Longrightarrow> recompute_for_permission_profile (url_host env) spec profile = (Inr spec' :: ('e proxy_error, network_proxy_spec) result) \<Longrightarrow>
     spec_for env reqs spec'"
| "spec_for env reqs spec \<Longrightarrow> with_exec_policy_network_rules (url_host env) spec p = (Inr spec' :: ('e proxy_error, network_proxy_spec) result) \<Longrightarrow>
     spec_for env reqs spec'"

definition managed_by :: "network_constraints \<Rightarrow> network_proxy_constraints \<Rightarrow> bool" where
  "managed_by reqs con \<longleftrightarrow> (\<exists>net profile. con = snd (apply_requirements net reqs profile (managed_allowed_domains_only reqs)))"

definition spec_ok :: "('e, 'm) proxy_env \<Rightarrow> network_constraints \<Rightarrow> network_proxy_spec \<Rightarrow> bool" where
  "spec_ok env reqs spec \<longleftrightarrow>
     spec_requirements spec = Some reqs \<and> managed_by reqs (spec_constraints spec) \<and> valid_settings env (spec_config spec) (spec_constraints spec) \<and>
     hard_deny_allowlist_misses spec = managed_allowed_domains_only reqs"

lemma from_config_ok:
  fixes env :: "('e, 'm) proxy_env"
  assumes "from_config_and_constraints (url_host env) net (Some reqs) profile = (Inr spec :: ('e proxy_error, network_proxy_spec) result)"
  shows "spec_ok env reqs spec"
proof -
  obtain config con where c: "apply_requirements net reqs profile (managed_allowed_domains_only reqs) = (config, con)" by fastforce
  with assms show ?thesis
    unfolding from_config_and_constraints_def spec_ok_def managed_by_def by (auto simp: rbind_eq_Inr_iff) (metis snd_conv)
qed

lemma spec_for_ok: "spec_for env reqs spec \<Longrightarrow> spec_ok env reqs spec"
proof (induction rule: spec_for.induct)
  case (2 spec profile spec')
  then show ?case by (auto simp: recompute_for_permission_profile_def spec_ok_def [of _ _ spec] intro: from_config_ok)
next
  case (3 spec p spec')
  then show ?case by (auto simp: with_exec_policy_network_rules_def spec_ok_def rbind_eq_Inr_iff Let_def)
qed (rule from_config_ok)

lemma spec_for_loaded:
  assumes "spec_for env reqs spec" "build_config_state_for_spec env spec = Inr s"
  shows "loaded env (managed_by reqs) s"
  using spec_for_ok [OF assms(1)] assms(2) unfolding loaded_def spec_ok_def build_config_state_for_spec_def by blast

section \<open>What requirements deny\<close>

lemma valid_settings_lists:
  fixes env :: "('e, 'm) proxy_env"
  assumes "valid_settings env net con"
  shows "validate_allowed_domains (url_host env) net con = (Inr () :: ('e proxy_error, unit) result)"
    and "validate_denied_domains net con = (Inr () :: ('e proxy_error, unit) result)"
  using assms unfolding validate_policy_against_constraints_def rbind_eq_Inr_iff by (metis old.unit.exhaust)+

lemma managed_denials_listed:
  assumes "valid_settings env net con" "con_denied_domains con = Some ps" "p \<in> set ps"
  shows "\<exists>q \<in> set (entries_or_empty (denied_domains net)). to_ascii_lowercase q = to_ascii_lowercase p"
proof -
  from valid_settings_lists(2) [OF assms(1)] have "lowercased ps \<subseteq> lowercased (entries_or_empty (denied_domains net))"
    unfolding validate_denied_domains_def assms(2) option.case Let_def rbind_eq_Inr_iff require_eq
    by (auto split: option.splits bool.splits)
  with assms(3) show ?thesis by (metis (no_types, lifting) image_eqI image_iff list.set_map subsetD)
qed

lemma managed_by_denied: "managed_by reqs con \<Longrightarrow> con_denied_domains con = managed_denied reqs"
  by (auto simp: managed_by_def apply_requirements_def Let_def)

text \<open>
  C14: What managed requirements deny stays denied: in every state that a session's proxy can reach, by any interleaving of reloads,
  replaced configurations, added domains, mode changes and recorded requests, a host that a denied pattern of the requirements covers is refused by the
  baseline policy; no approval is asked for.
\<close>

theorem managed_denials_hold:
  assumes "glob_laws (globs env)" "spec_for env reqs spec" "build_config_state_for_spec env spec = Inr s0"
    and "(proxy_move env (managed_by reqs))\<^sup>*\<^sup>* (s0, []) (s, qs)"
    and "managed_denied reqs = Some ps" "p \<in> set ps" "plain_text (pattern_domain (normal_pattern p))"
    and "host_parse (net_req_host req) = Some h" "covers (normal_pattern p) h"
  shows "evaluate_host_policy env decider s req = deny_with_source (lit ''denied'') BaselinePolicy"
proof -
  have s: "admitted env (managed_by reqs) s" using reachable_admitted spec_for_loaded assms(2-4) by blast
  then have "con_denied_domains (constraints s) = Some ps" "valid_settings env (state_config s) (constraints s)"
    using managed_by_denied assms(5) by (auto simp: admitted_def)
  from managed_denials_listed [OF this(2,1) assms(6)] obtain q
    where q: "q \<in> set (entries_or_empty (denied_domains (state_config s)))" "to_ascii_lowercase q = to_ascii_lowercase p" by blast
  have "normal_pattern q = normal_pattern p" using normalize_pattern_eq [OF q(2)] by simp
  with deny_set_hits [OF assms(1) s q(1)] assms(7,9) have "deny_set s h" by simp
  then show ?thesis by (rule denied_evaluation [OF assms(8)])
qed

section \<open>What requirements allow\<close>

lemma managed_by_allowed:
  assumes "managed_by reqs con" "managed_allowed_domains_only reqs"
  shows "con_allowed_domains con = Some (list_or_empty (Option.bind (req_domains reqs) toml_allowed_domains)) \<and> con_allowlist_expansion con = Some False"
  using assms by (auto simp: managed_by_def apply_requirements_def managed_allowed_def allowlist_expansion_enabled_def Let_def)

lemma managed_only_listed:
  assumes "valid_settings env net con" "con_allowed_domains con = Some ps" "con_allowlist_expansion con = Some False"
    and "q \<in> set (entries_or_empty (allowed_domains net))"
  shows "\<exists>p \<in> set ps. to_ascii_lowercase q = to_ascii_lowercase p"
proof -
  from valid_settings_lists(1) [OF assms(1)] have "lowercased (entries_or_empty (allowed_domains net)) \<subseteq> lowercased ps"
    unfolding validate_allowed_domains_def assms(2,3) option.case bool.case Let_def rbind_eq_Inr_iff require_eq by blast
  with assms(4) show ?thesis by (metis (no_types, lifting) image_eqI image_iff list.set_map subsetD)
qed

lemma allowed_evaluation:
  assumes "evaluate_host_policy env None s req = NetworkAllow"
  obtains h where "host_parse (net_req_host req) = Some h" "globset_matches_host_or_unscoped (allow_set s) h"
  using assms unfolding evaluate_host_policy_def host_blocked_def Let_def
  by (auto simp: deny_with_source_def split: option.splits host_block_decision.splits host_block_reason.splits if_splits)

text \<open>
  C15: In managed-only mode only what the requirements allow is allowed: whatever state the proxy reaches, a request is let through only if a
  pattern that the requirements allow covers its host (or its address without the scope).
\<close>

theorem managed_only_allows_listed:
  assumes "glob_laws (globs env)" "spec_for env reqs spec" "build_config_state_for_spec env spec = Inr s0"
    and "(proxy_move env (managed_by reqs))\<^sup>*\<^sup>* (s0, []) (s, qs)"
    and "managed_allowed_domains_only reqs" "managed_allowed reqs True = Some ps" "\<forall>p \<in> set ps. plain_text (pattern_domain (normal_pattern p))"
    and "evaluate_host_policy env (start_proxy_decider spec profile decider flow) s req = NetworkAllow"
  shows "\<exists>h p. host_parse (net_req_host req) = Some h \<and> p \<in> set ps \<and>
     (covers (normal_pattern p) h \<or> (\<exists>ip. unscoped_ip_literal h = Some ip \<and> covers (normal_pattern p) ip))"
proof -
  have "start_proxy_decider spec profile decider flow = None"
    using spec_for_ok [OF assms(2)] assms(5) by (simp add: spec_ok_def start_proxy_decider_def)
  with assms(8) obtain h where h: "host_parse (net_req_host req) = Some h" "globset_matches_host_or_unscoped (allow_set s) h"
    using allowed_evaluation by metis
  have s: "admitted env (managed_by reqs) s" using reachable_admitted spec_for_loaded assms(2-4) by blast
  have con: "con_allowed_domains (constraints s) = Some ps" "con_allowlist_expansion (constraints s) = Some False"
    using managed_by_allowed [OF _ assms(5)] s assms(6) by (auto simp: admitted_def managed_allowed_def Let_def)
  have valid: "valid_settings env (state_config s) (constraints s)" using s by (simp add: admitted_def)
  have listed: "\<exists>p \<in> set ps. normal_pattern q = normal_pattern p" if "q \<in> set (entries_or_empty (allowed_domains (state_config s)))" for q
    using managed_only_listed [OF valid con that] normalize_pattern_eq by metis
  have "\<exists>p \<in> set ps. covers (normal_pattern p) x" if "allow_set s x" for x
    using allow_set_covered [OF assms(1) s that] listed assms(7) by metis
  with h show ?thesis unfolding globset_matches_host_or_unscoped_def by (auto split: option.splits)
qed

section \<open>Sample requirements\<close>

definition sample_requirements :: "rstr \<Rightarrow> domain_permission_toml \<Rightarrow> network_constraints" where
  "sample_requirements h p =
     \<lparr>req_enabled = None, req_http_port = None, req_socks_port = None, req_allow_upstream_proxy = None, req_non_loopback_proxy = None,
      req_all_unix_sockets = None, req_domains = Some [(h, p)], req_managed_only = Some (p = TomlAllow), req_unix_sockets = None,
      req_allow_local_binding = Some True\<rparr>"

definition sample_settings :: "rstr \<Rightarrow> domain_permission_toml \<Rightarrow> network_proxy_settings" where
  "sample_settings h p = network_proxy_settings_default\<lparr>domains := Some [(h, proxy_permission p)], allow_local_binding := True\<rparr>"

definition sample_constraints :: "rstr \<Rightarrow> domain_permission_toml \<Rightarrow> network_proxy_constraints" where
  "sample_constraints h p =
     (case p of
        TomlAllow \<Rightarrow> no_constraints\<lparr>con_allowed_domains := Some [h], con_allowlist_expansion := Some False, con_allow_local_binding := Some True\<rparr>
      | TomlDeny \<Rightarrow> no_constraints\<lparr>con_denied_domains := Some [h], con_denylist_expansion := Some False, con_allow_local_binding := Some True\<rparr>)"

lemma sample_requirements_simps:
  "managed_allowed_domains_only (sample_requirements h p) = (p = TomlAllow)"
  "managed_allowed (sample_requirements h TomlAllow) True = Some [h]" "managed_denied (sample_requirements h TomlAllow) = None"
  "managed_allowed (sample_requirements h TomlDeny) False = None" "managed_denied (sample_requirements h TomlDeny) = Some [h]"
  by (simp_all add: sample_requirements_def managed_allowed_domains_only_def managed_allowed_def managed_denied_def toml_allowed_domains_def
      toml_denied_domains_def toml_entries_def some_unless_empty_def list_or_empty_def)

lemma sample_settings_simps:
  "denied_domains (sample_settings h p) = (if p = TomlDeny then Some [h] else None)"
  "allowed_domains (sample_settings h p) = (if p = TomlAllow then Some [h] else None)"
  "allow_unix_sockets (sample_settings h p) = []" "mitm (sample_settings h p) = False" "allow_local_binding (sample_settings h p) = True"
  by (cases p; simp add: sample_settings_def denied_domains_def allowed_domains_def domain_entries_def effective_entries_def add_effective_def
      allow_unix_sockets_def network_proxy_settings_default_def proxy_permission_def)+

lemma sample_applied:
  "apply_requirements network_proxy_settings_default (sample_requirements h p) Disabled (p = TomlAllow) = (sample_settings h p, sample_constraints h p)"
proof (cases p)
  case TomlAllow
  then show ?thesis
    by (simp add: apply_requirements_def sample_requirements_simps apply_allowed_def apply_denied_def allowlist_expansion_enabled_def
        managed_sandbox_active_def set_allowed_domains_def set_domain_entries_def some_unless_empty_def or_keep_def)
      (simp add: sample_requirements_def network_proxy_settings_default_def sample_settings_def sample_constraints_def no_constraints_def proxy_permission_def)
next
  case TomlDeny
  then show ?thesis
    by (simp add: apply_requirements_def sample_requirements_simps apply_allowed_def apply_denied_def denylist_expansion_enabled_def
        managed_sandbox_active_def set_denied_domains_def set_domain_entries_def some_unless_empty_def or_keep_def)
      (simp add: sample_requirements_def network_proxy_settings_default_def sample_settings_def sample_constraints_def no_constraints_def proxy_permission_def)
qed

lemma sample_valid:
  assumes "canonical_host h"
  shows "valid_settings proxy_sample_env (sample_settings h p) (sample_constraints h p)"
  unfolding validate_policy_against_constraints_def validate_allowed_domains_def validate_denied_domains_def sample_settings_simps
  by (cases p) (simp_all add: validate_non_global_wildcard_domain_patterns_def canonical_not_wildcard [OF assms] sample_constraints_def
      no_constraints_def require_def sample_settings_def network_proxy_settings_default_def)

lemma sample_spec_built:
  assumes "canonical_host h"
  obtains spec s0 where "spec_for proxy_sample_env (sample_requirements h p) spec" "build_config_state_for_spec proxy_sample_env spec = Inr s0"
    "state_config s0 = sample_settings h p"
proof -
  let ?spec = "\<lparr>spec_base_config = network_proxy_settings_default, spec_requirements = Some (sample_requirements h p),
     spec_config = sample_settings h p, spec_constraints = sample_constraints h p, hard_deny_allowlist_misses = (p = TomlAllow)\<rparr>"
  have "from_config_and_constraints (url_host proxy_sample_env) network_proxy_settings_default (Some (sample_requirements h p)) Disabled =
      (Inr ?spec :: (unit proxy_error, network_proxy_spec) result)"
    unfolding from_config_and_constraints_def option.case sample_requirements_simps(1) Let_def sample_applied prod.case sample_valid [OF assms] by simp
  then have spec: "spec_for proxy_sample_env (sample_requirements h p) ?spec" by (rule spec_for.intros)
  have "\<exists>s0. build_config_state_for_spec proxy_sample_env ?spec = Inr s0"
    unfolding build_config_state_for_spec_def build_config_state_def
    by (cases p) (simp_all add: sample_settings_simps validate_non_global_wildcard_domain_patterns_def canonical_not_wildcard [OF assms]
        compile_denylist_globset_def compile_allowlist_globset_def compile_globset_with_policy_def proxy_sample_env_def sample_globs_def)
  then obtain s0 where s0: "build_config_state_for_spec proxy_sample_env ?spec = Inr s0" by blast
  then have "state_config s0 = sample_settings h p" by (auto simp: build_config_state_for_spec_def dest!: build_config_state_Inr)
  with spec s0 show thesis by (rule that)
qed

lemma sample_name: "canonical_host (lit ''example.com'')" "host_parse (lit ''EXAMPLE.com:443'') = Some (lit ''example.com'')"
  by (simp_all add: host_parse_def canonical_host_def plain_text_def host_simps)

lemma canonical_pattern: "canonical_host h \<Longrightarrow> normal_pattern h = ExactDomain h \<and> plain_text h"
  using plain_normal_pattern canonical_host_def by blast

lemma proxy_sample_laws: "glob_laws (globs proxy_sample_env)"
  by (simp add: proxy_sample_env_def sample_glob_laws)

definition sample_request :: network_policy_request where
  "sample_request = \<lparr>net_req_protocol = ProxyHttp, net_req_host = lit ''EXAMPLE.com:443'', net_req_port = 443\<rparr>"

theorem managed_denials_hold_witness:
  "\<exists>spec s0 s. spec_for proxy_sample_env (sample_requirements (lit ''example.com'') TomlDeny) spec \<and> build_config_state_for_spec proxy_sample_env spec = Inr s0 \<and>
     proxy_move proxy_sample_env (managed_by (sample_requirements (lit ''example.com'') TomlDeny)) (s0, []) (s, []) \<and>
     evaluate_host_policy proxy_sample_env (Some (\<lambda>_. NetworkAllow)) s sample_request = deny_with_source (lit ''denied'') BaselinePolicy"
proof -
  let ?reqs = "sample_requirements (lit ''example.com'') TomlDeny"
  obtain spec s0 where s: "spec_for proxy_sample_env ?reqs spec" "build_config_state_for_spec proxy_sample_env spec = Inr s0"
    using sample_spec_built [OF sample_name(1)] by metis
  have m: "proxy_move proxy_sample_env (managed_by ?reqs) (s0, []) (fst (drain_blocked s0), [])" by (rule proxy_move.intros)
  have "host_parse (net_req_host sample_request) = Some (lit ''example.com'')" by (simp only: sample_request_def network_policy_request.select_convs sample_name(2))
  from managed_denials_hold [OF proxy_sample_laws s r_into_rtranclp [of "proxy_move proxy_sample_env (managed_by ?reqs)", OF m] sample_requirements_simps(5) _ _ this]
  have "evaluate_host_policy proxy_sample_env (Some (\<lambda>_. NetworkAllow)) (fst (drain_blocked s0)) sample_request = deny_with_source (lit ''denied'') BaselinePolicy"
    using canonical_pattern [OF sample_name(1)] by simp
  with s m show ?thesis by blast
qed

lemma sample_allowed:
  assumes "canonical_host h" "build_config_state_for_spec proxy_sample_env spec = Inr s0" "state_config s0 = sample_settings h TomlAllow"
    and "host_parse (net_req_host req) = Some h"
  shows "evaluate_host_policy proxy_sample_env decider s0 req = NetworkAllow"
proof -
  have "compile_globset_with_policy (globs proxy_sample_env) True [] = Inr (deny_set s0)"
    "compile_globset_with_policy (globs proxy_sample_env) False [h] = Inr (allow_set s0)"
    using build_config_state_Inr [OF assms(2) [unfolded build_config_state_for_spec_def]] assms(3) [symmetric]
      sample_settings_simps(1,2) [of h TomlAllow] by (auto simp: compile_denylist_globset_def compile_allowlist_globset_def)
  from compiled_covers [OF proxy_sample_laws this(1)] compiled_covers [OF proxy_sample_laws this(2), of h] canonical_pattern [OF assms(1)]
  have "\<not> deny_set s0 x" "allow_set s0 h" for x by auto
  with assms(3,4) show ?thesis
    by (simp add: evaluate_host_policy_def host_blocked_def globset_matches_host_or_unscoped_def sample_settings_simps split: option.split)
qed

theorem managed_only_allows_listed_witness:
  "\<exists>spec s0. spec_for proxy_sample_env (sample_requirements (lit ''example.com'') TomlAllow) spec \<and> build_config_state_for_spec proxy_sample_env spec = Inr s0 \<and>
     evaluate_host_policy proxy_sample_env (start_proxy_decider spec Disabled None True) s0 sample_request = NetworkAllow \<and>
     (\<exists>h. host_parse (net_req_host sample_request) = Some h \<and> (covers (ExactDomain (lit ''example.com'')) h \<or>
        (\<exists>ip. unscoped_ip_literal h = Some ip \<and> covers (ExactDomain (lit ''example.com'')) ip)))"
proof -
  let ?h = "lit ''example.com''"
  let ?reqs = "sample_requirements ?h TomlAllow"
  obtain spec s0 where s: "spec_for proxy_sample_env ?reqs spec" "build_config_state_for_spec proxy_sample_env spec = Inr s0" "state_config s0 = sample_settings ?h TomlAllow"
    using sample_spec_built [OF sample_name(1)] by metis
  have "host_parse (net_req_host sample_request) = Some ?h" by (simp only: sample_request_def network_policy_request.select_convs sample_name(2))
  from sample_allowed [OF sample_name(1) s(2,3) this]
  have allow: "evaluate_host_policy proxy_sample_env (start_proxy_decider spec Disabled None True) s0 sample_request = NetworkAllow" .
  have only: "managed_allowed_domains_only ?reqs" by (simp only: sample_requirements_simps)
  have p: "normal_pattern ?h = ExactDomain ?h" "plain_text ?h" using canonical_pattern [OF sample_name(1)] by blast+
  have plain: "\<forall>p \<in> set [?h]. plain_text (pattern_domain (normal_pattern p))" using p by (simp only: list.set ball_simps pattern_domain.simps)
  from managed_only_allows_listed [OF proxy_sample_laws s(1,2) rtranclp.rtrancl_refl only sample_requirements_simps(2) plain allow] p(1)
  have "\<exists>h. host_parse (net_req_host sample_request) = Some h \<and> (covers (ExactDomain ?h) h \<or>
      (\<exists>ip. unscoped_ip_literal h = Some ip \<and> covers (ExactDomain ?h) ip))" by (metis empty_iff insert_iff list.set)
  with s allow show ?thesis by blast
qed

end
