(* ===== verification/Proxy_Runtime.thy ===== *)
theory Proxy_Runtime
  imports Proxy_Spec
begin

text \<open>
  Where the proxy listens (\<open>network-proxy/src/config.rs\<close>, \<open>resolve_runtime\<close>) and which Unix sockets it may be used for
  (\<open>runtime.rs\<close>, \<open>is_unix_socket_allowed\<close>). The URL parser is a parameter that gives the host and the port of a URL.
\<close>

section \<open>Host and port\<close>

record socket_address_parts =
  part_host :: rstr
  part_port :: nat

text \<open>\<open>str::parse::<u16>\<close>.\<close>

definition parse_u16 :: "rstr \<Rightarrow> nat option" where
  "parse_u16 s =
     (let ds = or_keep (strip_prefix [43] s) s
      in if ds = [] \<or> (\<exists>c \<in> set ds. \<not> (48 \<le> c \<and> c \<le> 57)) then None
         else let n = foldl (\<lambda>n c. 10 * n + (c - 48)) 0 ds in if n < 65536 then Some n else None)"

definition scheme_separator :: rstr where
  "scheme_separator = lit ''://''"

definition parse_host_port_fallback :: "rstr \<Rightarrow> nat \<Rightarrow> ('e proxy_error, socket_address_parts) result" where
  "parse_host_port_fallback input default_port =
     (let without_scheme = (case str_split_once scheme_separator input of Some (_, rest) \<Rightarrow> rest | None \<Rightarrow> input);
          host_port = hd (split_on slash without_scheme);
          host_port = (case rsplit_once 64 host_port of Some (_, rest) \<Rightarrow> rest | None \<Rightarrow> host_port)
      in case (if starts_with host_port [open_bracket] then str_find host_port [close_bracket] else None) of
           Some e \<Rightarrow>
             (let host = drop 1 (take e host_port);
                  port = or_keep (Option.bind (strip_prefix [colon] (drop (e + 1) host_port)) parse_u16) default_port
              in if host = [] then Inl MissingHost else Inr \<lparr>part_host = host, part_port = port\<rparr>)
         | None \<Rightarrow>
             (case (if count_list host_port colon = 1 then rsplit_once colon host_port else None) of
                Some (host, port) \<Rightarrow>
                  if host = [] then Inl MissingHost else Inr \<lparr>part_host = host, part_port = or_keep (parse_u16 port) default_port\<rparr>
              | None \<Rightarrow> if host_port = [] then Inl MissingHost else Inr \<lparr>part_host = host_port, part_port = default_port\<rparr>))"

definition trim_brackets :: "rstr \<Rightarrow> rstr" where
  "trim_brackets s =
     (let bracket = (\<lambda>c. c = open_bracket \<or> c = close_bracket) in rev (dropWhile bracket (rev (dropWhile bracket s))))"

text \<open>\<open>url_parse\<close> is \<open>Url::parse\<close> with \<open>host_str\<close> and \<open>port\<close>; \<open>None\<close> when there is no host.\<close>

definition parse_host_port ::
    "(rstr \<Rightarrow> (rstr \<times> nat option) option) \<Rightarrow> rstr \<Rightarrow> nat \<Rightarrow> ('e proxy_error, socket_address_parts) result" where
  "parse_host_port url_parse url default_port =
     (let trimmed = trim url
      in if trimmed = [] then Inl MissingHost
         else if (case parse_ip trimmed of Some (V6 _) \<Rightarrow> True | _ \<Rightarrow> False) \<and> \<not> starts_with trimmed [open_bracket]
         then Inr \<lparr>part_host = trimmed, part_port = default_port\<rparr>
         else let candidate = (if str_find trimmed scheme_separator \<noteq> None then trimmed else lit ''http://'' @ trimmed)
              in case url_parse candidate of
                   Some (host, port) \<Rightarrow>
                     (let host = trim_brackets host
                      in if host = [] then Inl MissingHost else Inr \<lparr>part_host = host, part_port = or_keep port default_port\<rparr>)
                 | None \<Rightarrow> parse_host_port_fallback trimmed default_port)"

definition format_host_and_port :: "rstr \<Rightarrow> nat \<Rightarrow> rstr" where
  "format_host_and_port host port =
     (if colon \<in> set host then [open_bracket] @ host @ [close_bracket, colon] @ show_nat port else host @ [colon] @ show_nat port)"

definition host_and_port_from_network_addr :: "(rstr \<Rightarrow> (rstr \<times> nat option) option) \<Rightarrow> rstr \<Rightarrow> nat \<Rightarrow> rstr" where
  "host_and_port_from_network_addr url_parse v default_port =
     (let trimmed = trim v
      in if trimmed = [] then lit ''<missing>''
         else case (parse_host_port url_parse trimmed default_port :: (unit proxy_error, socket_address_parts) result) of
                Inr parts \<Rightarrow> format_host_and_port (part_host parts) (part_port parts)
              | Inl _ \<Rightarrow> format_host_and_port trimmed default_port)"

section \<open>Listeners\<close>

definition resolve_addr :: "(rstr \<Rightarrow> (rstr \<times> nat option) option) \<Rightarrow> rstr \<Rightarrow> nat \<Rightarrow> ('e proxy_error, socket_addr) result" where
  "resolve_addr url_parse url default_port =
     rbind (parse_host_port url_parse url default_port) (\<lambda>parts.
       let host = (if eq_ignore_ascii_case (part_host parts) (lit ''localhost'') then lit ''127.0.0.1'' else part_host parts)
       in case parse_ip host of Some ip \<Rightarrow> Inr (ip, part_port parts) | None \<Rightarrow> Inr (loopback_v4, part_port parts))"

definition resolve_runtime :: "(rstr \<Rightarrow> (rstr \<times> nat option) option) \<Rightarrow> network_proxy_settings \<Rightarrow> ('e proxy_error, socket_addr \<times> socket_addr) result" where
  "resolve_runtime url_parse net =
     rbind (validate_unix_socket_paths 0 (allow_unix_sockets net)) (\<lambda>_.
     rbind (resolve_addr url_parse (proxy_url net) 3128) (\<lambda>http_addr.
     rbind (resolve_addr url_parse (socks_url net) 8081) (\<lambda>socks_addr.
       Inr (clamp_bind_addrs http_addr socks_addr net))))"

section \<open>Unix sockets\<close>

text \<open>\<open>supported\<close>: macOS only. \<open>canonical\<close> is the canonicalisation of an existing path.\<close>

definition is_unix_socket_allowed :: "bool \<Rightarrow> (rstr \<Rightarrow> rstr option) \<Rightarrow> 'm config_state \<Rightarrow> rstr \<Rightarrow> bool" where
  "is_unix_socket_allowed supported canonical s path =
     (if \<not> supported \<or> \<not> is_absolute path then False
      else if dangerously_allow_all_unix_sockets (state_config s) then True
      else let requested_abs = normalize_path path
           in \<exists>allowed \<in> set (allow_unix_sockets (state_config s)).
                is_absolute allowed \<and>
                (same_path (normalize_path allowed) requested_abs \<or>
                 (case canonical requested_abs of
                    None \<Rightarrow> False
                  | Some c \<Rightarrow> (case canonical (normalize_path allowed) of Some a \<Rightarrow> same_path a c | None \<Rightarrow> False))))"

section \<open>Listeners are local\<close>

text \<open>
  Unless the settings ask for it, and always when Unix sockets may be reached through it, the proxy listens on loopback
  addresses only, whatever its URLs say.
\<close>

lemma listeners_stay_local:
  assumes "resolve_runtime url_parse net = Inr (http, socks)"
    and "\<not> dangerously_allow_non_loopback_proxy net \<or> allow_unix_sockets net \<noteq> [] \<or> dangerously_allow_all_unix_sockets net"
  shows "ip_is_loopback (fst http) \<and> ip_is_loopback (fst socks)"
proof -
  obtain h k where "clamp_bind_addrs h k net = (http, socks)" using assms(1) by (auto simp: resolve_runtime_def rbind_eq_Inr_iff)
  from clamp_bind_addrs_loopback [OF this] assms(2) show ?thesis by blast
qed

text \<open>A socket that is not listed, under its name or another path to it, is not allowed.\<close>

lemma unix_socket_allowed_listed:
  assumes "is_unix_socket_allowed supported canonical s path" "\<not> dangerously_allow_all_unix_sockets (state_config s)"
  shows "is_absolute path \<and> (\<exists>allowed \<in> set (allow_unix_sockets (state_config s)). same_path (normalize_path allowed) (normalize_path path) \<or>
     (\<exists>a c. canonical (normalize_path allowed) = Some a \<and> canonical (normalize_path path) = Some c \<and> same_path a c))"
proof -
  from assms obtain allowed where a: "is_absolute path" "allowed \<in> set (allow_unix_sockets (state_config s))"
    "same_path (normalize_path allowed) (normalize_path path) \<or>
     (case canonical (normalize_path path) of
        None \<Rightarrow> False
      | Some c \<Rightarrow> (case canonical (normalize_path allowed) of Some a \<Rightarrow> same_path a c | None \<Rightarrow> False))"
    unfolding is_unix_socket_allowed_def Let_def by (metis (no_types, lifting))
  then show ?thesis by (cases "canonical (normalize_path path)"; cases "canonical (normalize_path allowed)") auto
qed

end
