(* ===== verification/Profile_Compile.thy ===== *)
theory Profile_Compile
  imports Proxy_Spec
begin

text \<open>
  Permission profiles of the configuration (\<open>core/src/config/permissions.rs\<close>): the file system table of a profile becomes the entries of
  a sandbox policy and its network table the network policy and the proxy settings. The platform is Unix;
  the helpers that read Windows paths are modelled as functions on text. Warnings are values; an error
  aborts the load, so the warnings pushed before it are dropped.
\<close>

section \<open>Built-in profiles\<close>

definition BUILT_IN_READ_ONLY_PROFILE :: rstr where "BUILT_IN_READ_ONLY_PROFILE = lit '':read-only''"
definition BUILT_IN_WORKSPACE_PROFILE :: rstr where "BUILT_IN_WORKSPACE_PROFILE = lit '':workspace''"
definition BUILT_IN_DANGER_FULL_ACCESS_PROFILE :: rstr where "BUILT_IN_DANGER_FULL_ACCESS_PROFILE = lit '':danger-full-access''"

lemmas builtin_names = BUILT_IN_READ_ONLY_PROFILE_def BUILT_IN_WORKSPACE_PROFILE_def BUILT_IN_DANGER_FULL_ACCESS_PROFILE_def

text \<open>\<open>trusted\<close> and \<open>untrusted\<close> are what is known of the active project; both are \<open>False\<close> when nothing is.\<close>

definition default_builtin_permission_profile_name :: "bool \<Rightarrow> bool \<Rightarrow> rstr" where
  "default_builtin_permission_profile_name trusted untrusted =
     (if trusted \<or> untrusted then BUILT_IN_WORKSPACE_PROFILE else BUILT_IN_READ_ONLY_PROFILE)"

definition is_builtin_permission_profile_name :: "rstr \<Rightarrow> bool" where
  "is_builtin_permission_profile_name name \<longleftrightarrow>
     name \<in> {BUILT_IN_READ_ONLY_PROFILE, BUILT_IN_WORKSPACE_PROFILE, BUILT_IN_DANGER_FULL_ACCESS_PROFILE}"

record sandbox_workspace_write =
  sww_network_access :: bool
  sww_exclude_tmpdir_env_var :: bool
  sww_exclude_slash_tmp :: bool

text \<open>The inner option is the panic of building a profile from a policy, which does not occur here.\<close>

definition builtin_permission_profile ::
    "('z) disk_env_scheme \<Rightarrow> rstr \<Rightarrow> sandbox_workspace_write option \<Rightarrow> permission_profile option option" where
  "builtin_permission_profile env name ww =
     (if name = BUILT_IN_READ_ONLY_PROFILE then Some (Some profile_read_only)
      else if name = BUILT_IN_WORKSPACE_PROFILE then
        Some (case ww of
                Some w \<Rightarrow> profile_workspace_write_with env [] (if sww_network_access w then NetEnabled else NetRestricted)
                            (sww_exclude_tmpdir_env_var w) (sww_exclude_slash_tmp w)
              | None \<Rightarrow> profile_workspace_write env)
      else if name = BUILT_IN_DANGER_FULL_ACCESS_PROFILE then Some (Some Disabled)
      else None)"

fun validate_user_permission_profile_names :: "permissions_toml \<Rightarrow> (profile_error, unit) result" where
  "validate_user_permission_profile_names [] = Inr ()"
| "validate_user_permission_profile_names ((name, _) # ps) =
     (if starts_with name [colon] then Inl (ReservedName name) else validate_user_permission_profile_names ps)"

definition reject_unknown_builtin_permission_profile :: "rstr \<Rightarrow> (profile_error, unit) result" where
  "reject_unknown_builtin_permission_profile name = (if starts_with name [colon] then Inl (UnknownBuiltin name) else Inr ())"

section \<open>Network\<close>

definition network_proxy_config_from_profile_network :: "network_toml option \<Rightarrow> network_proxy_settings" where
  "network_proxy_config_from_profile_network network =
     (case network of Some nt \<Rightarrow> to_network_proxy_config nt | None \<Rightarrow> network_proxy_settings_default)\<lparr>proxy_enabled := False\<rparr>"

definition permissions_or_error :: "permissions_toml option \<Rightarrow> (profile_error, permissions_toml) result" where
  "permissions_or_error ps = (case ps of Some p \<Rightarrow> Inr p | None \<Rightarrow> Inl MissingPermissionsTable)"

definition network_proxy_config_for_profile_selection :: "permissions_toml option \<Rightarrow> rstr \<Rightarrow> (profile_error, network_proxy_settings) result" where
  "network_proxy_config_for_profile_selection ps name =
     (if is_builtin_permission_profile_name name then Inr network_proxy_settings_default
      else rbind (reject_unknown_builtin_permission_profile name) (\<lambda>_.
           rbind (permissions_or_error ps) (\<lambda>ps.
           rbind (resolve_permission_profile ps name) (\<lambda>p.
             Inr (network_proxy_config_from_profile_network (ppt_network p))))))"

definition compile_network_sandbox_policy :: "network_toml option \<Rightarrow> network_sandbox_policy" where
  "compile_network_sandbox_policy network =
     (case network of Some nt \<Rightarrow> if nt_enabled nt = Some True then NetEnabled else NetRestricted | None \<Rightarrow> NetRestricted)"

section \<open>Paths\<close>

definition is_ascii_alphabetic :: "rchar \<Rightarrow> bool" where
  "is_ascii_alphabetic c \<longleftrightarrow> 65 \<le> c \<and> c \<le> 90 \<or> 97 \<le> c \<and> c \<le> 122"

abbreviation backslash :: rchar where "backslash \<equiv> 92"

definition is_windows_drive_absolute_path :: "rstr \<Rightarrow> bool" where
  "is_windows_drive_absolute_path path \<longleftrightarrow>
     (case path of a # b # c # _ \<Rightarrow> is_ascii_alphabetic a \<and> b = colon \<and> (c = backslash \<or> c = slash) | _ \<Rightarrow> False)"

definition is_windows_absolute_path :: "rstr \<Rightarrow> bool" where
  "is_windows_absolute_path path \<longleftrightarrow> is_windows_drive_absolute_path path \<or> starts_with path [backslash, backslash]"

definition unc_suffix :: rstr where
  "unc_suffix = lit ''UNC'' @ [backslash]"

definition normalize_windows_device_path :: "rstr \<Rightarrow> rstr option" where
  "normalize_windows_device_path path =
     (let verbatim = [backslash, backslash, 63, backslash]; device = [backslash, backslash, 46, backslash];
          drive = (\<lambda>pre. Option.bind (strip_prefix pre path) (\<lambda>p. if is_windows_drive_absolute_path p then Some p else None))
      in case strip_prefix (verbatim @ unc_suffix) path of
           Some unc \<Rightarrow> Some ([backslash, backslash] @ unc)
         | None \<Rightarrow>
             (case strip_prefix (device @ unc_suffix) path of
                Some unc \<Rightarrow> Some ([backslash, backslash] @ unc)
              | None \<Rightarrow> or_else (drive verbatim) (drive device)))"

definition contains_glob_chars_for_platform :: "bool \<Rightarrow> rstr \<Rightarrow> bool" where
  "contains_glob_chars_for_platform windows path \<longleftrightarrow>
     (let path = or_keep (if windows then normalize_windows_device_path path else None) path
      in \<exists>ch \<in> set path. ch \<in> {42, 63, 91, 93})"

definition contains_glob_chars :: "rstr \<Rightarrow> bool" where
  "contains_glob_chars path = contains_glob_chars_for_platform False path"

definition globstar_suffix :: rstr where
  "globstar_suffix = lit ''/**''"

definition remove_trailing_glob_suffix :: "rstr \<Rightarrow> rstr" where
  "remove_trailing_glob_suffix path = or_keep (strip_suffix globstar_suffix path) path"

definition parse_special_path :: "rstr \<Rightarrow> special_path option" where
  "parse_special_path path =
     (if path = lit '':root'' then Some RootPath
      else if path = lit '':minimal'' then Some MinimalPath
      else if path = lit '':workspace_roots'' then Some (ProjectRoots None)
      else if path = lit '':tmpdir'' then Some Tmpdir
      else if starts_with path [colon] then Some (UnknownPath path None)
      else None)"

definition parse_absolute_path :: "('z) sandbox_env_scheme \<Rightarrow> rstr \<Rightarrow> (profile_error, rstr) result" where
  "parse_absolute_path env path =
     (if \<not> is_absolute path \<and> path \<noteq> [tilde] \<and> \<not> starts_with path [tilde, slash] then Inl (NotAbsolute path)
      else case env_absolute env path of Some p \<Rightarrow> Inr p | None \<Rightarrow> Inl CurrentDirUnknown)"

definition is_normal_component :: "path_component \<Rightarrow> bool" where
  "is_normal_component c = (case c of Normal _ \<Rightarrow> True | _ \<Rightarrow> False)"

definition parse_relative_subpath :: "rstr \<Rightarrow> (profile_error, rstr) result" where
  "parse_relative_subpath subpath =
     (if subpath \<noteq> [] \<and> list_all is_normal_component (components subpath) then Inr subpath else Inl (BadSubpath subpath))"

section \<open>Entries\<close>

datatype profile_warning =
    UnsupportedGlob rstr
  | UnboundedGlobstar rstr
  | MissingFilesystemEntries rstr
  | UnknownSpecialPath rstr "rstr option"

definition maybe_push_unknown_special_path_warning :: "special_path \<Rightarrow> profile_warning list \<Rightarrow> profile_warning list" where
  "maybe_push_unknown_special_path_warning v ws = (case v of UnknownPath path sub \<Rightarrow> ws @ [UnknownSpecialPath path sub] | _ \<Rightarrow> ws)"

definition compile_filesystem_path ::
    "('z) sandbox_env_scheme \<Rightarrow> rstr \<Rightarrow> profile_warning list \<Rightarrow> (profile_error, fs_path \<times> profile_warning list) result" where
  "compile_filesystem_path env path ws =
     (case parse_special_path path of
        Some v \<Rightarrow> Inr (Special v, maybe_push_unknown_special_path_warning v ws)
      | None \<Rightarrow> rbind (parse_absolute_path env path) (\<lambda>p. Inr (PathEntry p, ws)))"

definition compile_read_write_glob_path :: "rstr \<Rightarrow> (profile_error, rstr) result" where
  "compile_read_write_glob_path path =
     (if \<not> contains_glob_chars path then Inr path
      else let p = remove_trailing_glob_suffix path in if \<not> contains_glob_chars p then Inr p else Inl (GlobNeedsNone path))"

definition compile_filesystem_access_path ::
    "('z) sandbox_env_scheme \<Rightarrow> rstr \<Rightarrow> access_mode \<Rightarrow> profile_warning list \<Rightarrow> (profile_error, fs_path \<times> profile_warning list) result" where
  "compile_filesystem_access_path env path access ws =
     (if \<not> contains_glob_chars path then compile_filesystem_path env path ws
      else if access = AccessNone then rbind (parse_absolute_path env path) (\<lambda>p. Inr (GlobPattern p, ws))
      else rbind (compile_read_write_glob_path path) (\<lambda>p. compile_filesystem_path env p ws))"

definition compile_scoped_filesystem_path ::
    "('z) sandbox_env_scheme \<Rightarrow> rstr \<Rightarrow> rstr \<Rightarrow> profile_warning list \<Rightarrow> (profile_error, fs_path \<times> profile_warning list) result" where
  "compile_scoped_filesystem_path env path subpath ws =
     (if subpath = [dot] then compile_filesystem_path env path ws
      else case parse_special_path path of
             Some special \<Rightarrow>
               rbind (parse_relative_subpath subpath) (\<lambda>sub.
                 case special of
                   ProjectRoots _ \<Rightarrow> Inr (Special (ProjectRoots (Some sub)), ws)
                 | UnknownPath p _ \<Rightarrow>
                     Inr (Special (UnknownPath p (Some sub)), maybe_push_unknown_special_path_warning (UnknownPath p (Some sub)) ws)
                 | _ \<Rightarrow> Inl (NestedUnsupported path))
           | None \<Rightarrow>
               rbind (parse_relative_subpath subpath) (\<lambda>sub.
               rbind (parse_absolute_path env path) (\<lambda>base.
                 Inr (PathEntry (resolve_path_against_base (env_home env) sub base), ws))))"

definition compile_scoped_filesystem_pattern ::
    "('z) sandbox_env_scheme \<Rightarrow> rstr \<Rightarrow> rstr \<Rightarrow> access_mode \<Rightarrow> (profile_error, rstr) result" where
  "compile_scoped_filesystem_pattern env path subpath access =
     (if access \<noteq> AccessNone then Inl (GlobNeedsNone subpath)
      else rbind (parse_relative_subpath subpath) (\<lambda>sub.
        case parse_special_path path of
          Some (ProjectRoots _) \<Rightarrow> Inr (project_roots_glob_pattern sub)
        | Some _ \<Rightarrow> Inl (NestedUnsupported path)
        | None \<Rightarrow> rbind (parse_absolute_path env path) (\<lambda>base. Inr (abs_join (env_home env) base sub))))"

definition can_compile_as_pattern :: "rstr \<Rightarrow> bool" where
  "can_compile_as_pattern path = (case parse_special_path path of Some (ProjectRoots _) \<Rightarrow> True | None \<Rightarrow> True | Some _ \<Rightarrow> False)"

definition compile_scoped_entry ::
    "('z) sandbox_env_scheme \<Rightarrow> rstr \<Rightarrow> rstr \<times> access_mode \<Rightarrow> profile_warning list \<Rightarrow> (profile_error, sandbox_entry \<times> profile_warning list) result" where
  "compile_scoped_entry env path = (\<lambda>(subpath, access) ws.
     if contains_glob_chars subpath \<and> access = AccessNone \<and> can_compile_as_pattern path
     then rbind (compile_scoped_filesystem_pattern env path subpath access) (\<lambda>pat. Inr (entry (GlobPattern pat) access, ws))
     else rbind (compile_read_write_glob_path subpath) (\<lambda>sub.
          rbind (compile_scoped_filesystem_path env path sub ws) (\<lambda>(p, ws). Inr (entry p access, ws))))"

fun compile_scoped_entries ::
    "('z) sandbox_env_scheme \<Rightarrow> rstr \<Rightarrow> (rstr \<times> access_mode) list \<Rightarrow> profile_warning list \<Rightarrow> (profile_error, sandbox_entry list \<times> profile_warning list) result" where
  "compile_scoped_entries env path [] ws = Inr ([], ws)"
| "compile_scoped_entries env path (s # ss) ws =
     rbind (compile_scoped_entry env path s ws) (\<lambda>(e, ws).
     rbind (compile_scoped_entries env path ss ws) (\<lambda>(es, ws). Inr (e # es, ws)))"

definition compile_filesystem_permission ::
    "('z) sandbox_env_scheme \<Rightarrow> rstr \<Rightarrow> fs_permission_toml \<Rightarrow> profile_warning list \<Rightarrow> (profile_error, sandbox_entry list \<times> profile_warning list) result" where
  "compile_filesystem_permission env path permission ws =
     (case permission of
        FsAccess access \<Rightarrow> rbind (compile_filesystem_access_path env path access ws) (\<lambda>(p, ws). Inr ([entry p access], ws))
      | FsScoped ss \<Rightarrow> compile_scoped_entries env path ss ws)"

fun compile_permissions ::
    "('z) sandbox_env_scheme \<Rightarrow> (rstr \<times> fs_permission_toml) list \<Rightarrow> profile_warning list \<Rightarrow> (profile_error, sandbox_entry list \<times> profile_warning list) result" where
  "compile_permissions env [] ws = Inr ([], ws)"
| "compile_permissions env ((path, perm) # ps) ws =
     rbind (compile_filesystem_permission env path perm ws) (\<lambda>(es, ws).
     rbind (compile_permissions env ps ws) (\<lambda>(es', ws). Inr (es @ es', ws)))"

definition unsupported_read_write_glob_paths :: "filesystem_permissions_toml \<Rightarrow> rstr list" where
  "unsupported_read_write_glob_paths fs =
     concat (map (\<lambda>(path, perm).
       case perm of
         FsAccess access \<Rightarrow> if access \<noteq> AccessNone \<and> contains_glob_chars (remove_trailing_glob_suffix path) then [path] else []
       | FsScoped ss \<Rightarrow>
           map (\<lambda>(sub, _). path @ [slash] @ sub)
             (filter (\<lambda>(sub, access). access \<noteq> AccessNone \<and> contains_glob_chars (remove_trailing_glob_suffix sub)) ss)) (fst_entries fs))"

definition contains_globstar :: "rstr \<Rightarrow> bool" where
  "contains_globstar path \<longleftrightarrow> str_find path (lit ''**'') \<noteq> None"

definition unbounded_unreadable_globstar_paths :: "filesystem_permissions_toml \<Rightarrow> rstr list" where
  "unbounded_unreadable_globstar_paths fs =
     (if fst_glob_scan_max_depth fs \<noteq> None then []
      else concat (map (\<lambda>(path, perm).
        case perm of
          FsAccess access \<Rightarrow> if access = AccessNone \<and> contains_globstar path then [path] else []
        | FsScoped ss \<Rightarrow>
            map (\<lambda>(sub, _). path @ [slash] @ sub) (filter (\<lambda>(sub, access). access = AccessNone \<and> contains_globstar sub) ss)) (fst_entries fs)))"

definition validate_glob_scan_max_depth :: "nat option \<Rightarrow> (profile_error, nat option) result" where
  "validate_glob_scan_max_depth d = (if d = Some 0 then Inl ZeroScanDepth else Inr d)"

section \<open>Profiles\<close>

definition compile_filesystem ::
    "('z) sandbox_env_scheme \<Rightarrow> bool \<Rightarrow> rstr \<Rightarrow> filesystem_permissions_toml option \<Rightarrow> profile_warning list \<Rightarrow>
     (profile_error, sandbox_entry list \<times> profile_warning list) result" where
  "compile_filesystem env macos name fs ws =
     (case fs of
        None \<Rightarrow> Inr ([], ws @ [MissingFilesystemEntries name])
      | Some fs \<Rightarrow>
          if fst_entries fs = [] then Inr ([], ws @ [MissingFilesystemEntries name])
          else compile_permissions env (fst_entries fs)
                 (if macos then ws
                  else ws @ map UnsupportedGlob (unsupported_read_write_glob_paths fs) @ map UnboundedGlobstar (unbounded_unreadable_globstar_paths fs)))"

definition compile_permission_profile ::
    "('z) sandbox_env_scheme \<Rightarrow> bool \<Rightarrow> permissions_toml \<Rightarrow> rstr \<Rightarrow> profile_warning list \<Rightarrow>
     (profile_error, (sandbox_policy \<times> network_sandbox_policy) \<times> profile_warning list) result" where
  "compile_permission_profile env macos ps name ws =
     rbind (resolve_permission_profile ps name) (\<lambda>profile.
     rbind (compile_filesystem env macos name (ppt_filesystem profile) ws) (\<lambda>(es, ws).
     rbind (validate_glob_scan_max_depth (Option.bind (ppt_filesystem profile) fst_glob_scan_max_depth)) (\<lambda>depth.
       Inr (((policy_restricted es)\<lparr>glob_scan_max_depth := depth\<rparr>, compile_network_sandbox_policy (ppt_network profile)), ws))))"

definition compile_permission_profile_selection ::
    "('z) disk_env_scheme \<Rightarrow> bool \<Rightarrow> permissions_toml option \<Rightarrow> rstr \<Rightarrow> sandbox_workspace_write option \<Rightarrow> profile_warning list \<Rightarrow>
     (profile_error, (sandbox_policy \<times> network_sandbox_policy) option \<times> profile_warning list) result" where
  "compile_permission_profile_selection env macos ps name ww ws =
     (case builtin_permission_profile env name ww of
        Some p \<Rightarrow> Inr (map_option to_runtime_permissions p, ws)
      | None \<Rightarrow>
          rbind (reject_unknown_builtin_permission_profile name) (\<lambda>_.
          rbind (permissions_or_error ps) (\<lambda>ps.
          rbind (compile_permission_profile env macos ps name ws) (\<lambda>(p, ws). Inr (Some p, ws)))))"

definition compile_workspace_roots :: "('z) sandbox_env_scheme \<Rightarrow> (rstr \<times> bool) list option \<Rightarrow> rstr \<Rightarrow> rstr list" where
  "compile_workspace_roots env roots cwd =
     (case roots of
        None \<Rightarrow> []
      | Some rs \<Rightarrow> map (\<lambda>(path, _). resolve_path_against_base (env_home env) path cwd) (filter snd rs))"

definition compile_permission_profile_workspace_roots ::
    "('z) sandbox_env_scheme \<Rightarrow> permissions_toml option \<Rightarrow> rstr \<Rightarrow> rstr \<Rightarrow> (profile_error, rstr list) result" where
  "compile_permission_profile_workspace_roots env ps name cwd =
     (if is_builtin_permission_profile_name name then Inr []
      else rbind (reject_unknown_builtin_permission_profile name) (\<lambda>_.
           rbind (permissions_or_error ps) (\<lambda>ps.
           rbind (resolve_permission_profile ps name) (\<lambda>p. Inr (compile_workspace_roots env (ppt_workspace_roots p) cwd)))))"

text \<open>Paths the shell tools must be able to read.\<close>

definition get_readable_roots_required_for_codex_runtime ::
    "('z) sandbox_env_scheme \<Rightarrow> rstr \<Rightarrow> rstr option \<Rightarrow> rstr option \<Rightarrow> rstr list" where
  "get_readable_roots_required_for_codex_runtime env codex_home zsh_path main_execve_wrapper_exe =
     (let arg0_root = env_absolute env (path_join (path_join codex_home (lit ''tmp'')) (lit ''arg0''));
          zsh_path = Option.bind zsh_path (env_absolute env);
          wrapper = Option.bind main_execve_wrapper_exe (\<lambda>w. Option.bind (env_absolute env w) (\<lambda>p.
                      if case arg0_root of Some r \<Rightarrow> path_starts_with p r | None \<Rightarrow> False then path_parent p else Some p))
      in (case zsh_path of Some z \<Rightarrow> [z] | None \<Rightarrow> []) @ (case wrapper of Some w \<Rightarrow> [w] | None \<Rightarrow> []))"

section \<open>Denied paths stay denied\<close>

lemma compile_permissions_contains:
  assumes "compile_permissions env ps ws = Inr (es, ws')" "(path, perm) \<in> set ps"
  shows "\<exists>ws1 es1 ws2. compile_filesystem_permission env path perm ws1 = Inr (es1, ws2) \<and> set es1 \<subseteq> set es"
  using assms
proof (induction env ps ws arbitrary: es rule: compile_permissions.induct)
  case (2 env path' perm' ps ws)
  obtain es1 ws1 es2 where c: "compile_filesystem_permission env path' perm' ws = Inr (es1, ws1)" "compile_permissions env ps ws1 = Inr (es2, ws')"
    "es = es1 @ es2"
    using "2.prems"(1) by (auto simp: rbind_eq_Inr_iff)
  from "2.prems"(2) consider "(path, perm) = (path', perm')" | "(path, perm) \<in> set ps" by auto
  then show ?case
  proof cases
    case 1
    with c show ?thesis by auto
  next
    case 2
    with "2.IH" [OF c(2)] c(3) show ?thesis by fastforce
  qed
qed simp

lemma compile_permission_profile_Inr:
  assumes "compile_permission_profile env macos ps name ws = Inr ((fs, net), ws')" "map_of ps name = Some profile" "ppt_filesystem profile = Some table"
    "fst_entries table \<noteq> []"
  obtains ws1 where "compile_permissions env (fst_entries table) ws1 = Inr (entries fs, ws')" "kind fs = KindRestricted"
  using assms
  by (auto simp: compile_permission_profile_def resolve_permission_profile_def compile_filesystem_def rbind_eq_Inr_iff policy_restricted_def)

lemma deepest_denial_wins:
  assumes "kind pol = KindRestricted" "resolve_candidate_path env path cwd = Some target"
    and "r \<in> set (resolved_entries_with_cwd env pol cwd)" "path_starts_with target (resolved_path r)" "resolved_access r = AccessNone"
    and "\<forall>s \<in> set (resolved_entries_with_cwd env pol cwd). path_starts_with target (resolved_path s) \<longrightarrow>
           length (components (resolved_path s)) \<le> length (components (resolved_path r))"
  shows "resolve_access_with_cwd env pol path cwd = AccessNone"
  using assms(1,2)
proof (cases rule: resolve_access_cases)
  case (covered e)
  have "resolved_entry_precedence r \<le> resolved_entry_precedence e" using covered(3) assms(3,4) by (simp add: covering_def)
  moreover have "length (components (resolved_path e)) \<le> length (components (resolved_path r))"
    using covered(1) assms(6) by (simp add: covering_def)
  ultimately have "AccessNone \<le> resolved_access e" using assms(5) by (auto simp: resolved_entry_precedence_def less_eq_prod_def)
  then have "resolved_access e = AccessNone" by (cases "resolved_access e") (simp_all add: less_eq_access_mode_def)
  with covered(2) show ?thesis by simp
qed


definition sample_table :: filesystem_permissions_toml where
  "sample_table = \<lparr>fst_glob_scan_max_depth = None, fst_entries = [(lit ''/s'', FsAccess AccessNone), (lit '':root'', FsAccess AccessRead)]\<rparr>"

definition sample_profile :: permission_profile_toml where
  "sample_profile = \<lparr>ppt_workspace_roots = None, ppt_filesystem = Some sample_table, ppt_network = None\<rparr>"


section \<open>Nested entries\<close>

lemma normal_components_names: "\<forall>c \<in> set cs. \<exists>m. c = Normal m \<and> P m \<Longrightarrow> \<exists>ms. cs = map Normal ms \<and> (\<forall>m \<in> set ms. P m)"
proof (induction cs)
  case (Cons c cs)
  then obtain m ms where "c = Normal m" "P m" "cs = map Normal ms" "\<forall>m \<in> set ms. P m" by auto
  then show ?case by (intro exI [of _ "m # ms"]) simp
qed simp

lemma normal_components:
  assumes "list_all is_normal_component (components sub)"
  shows "\<not> is_absolute sub" "\<exists>ms. segment_components (split_on slash sub) = map Normal ms \<and> (\<forall>m \<in> set ms. proper_name m)"
proof -
  show rel: "\<not> is_absolute sub"
    using assms by (auto simp: is_absolute_components is_normal_component_def)
  have "\<exists>m. c = Normal m \<and> proper_name m" if c: "c \<in> set (segment_components (split_on slash sub))" for c
  proof -
    have "c \<in> set (components sub)" using c by (simp add: components_def Let_def)
    then have "is_normal_component c" using assms by (simp add: list_all_iff)
    then obtain m where m: "c = Normal m" by (cases c) (simp_all add: is_normal_component_def)
    with segment_components_names [OF _ c] split_on_pieces [of _ slash sub] show ?thesis by auto
  qed
  then show "\<exists>ms. segment_components (split_on slash sub) = map Normal ms \<and> (\<forall>m \<in> set ms. proper_name m)"
    by (intro normal_components_names) blast
qed

lemma resolve_below:
  assumes "normal_absolute base" "list_all is_normal_component (components sub)" "\<not> starts_with sub [tilde]"
  shows "path_starts_with (resolve_path_against_base home sub base) base"
proof -
  obtain ns where ns: "components base = root_names ns" "\<forall>n \<in> set ns. proper_name n" using normal_absolute_components [OF assms(1)] by blast
  obtain ms where ms: "segment_components (split_on slash sub) = map Normal ms" "\<forall>m \<in> set ms. proper_name m"
    using normal_components(2) [OF assms(2)] by blast
  have rel: "\<not> is_absolute sub" by (rule normal_components(1) [OF assms(2)])
  have "components (path_join base sub) = root_names (ns @ ms)"
    using components_join [OF normal_absolute_is_absolute [OF assms(1)] rel] ns ms by (simp add: root_names_def)
  moreover have "normalize_components (root_names (ns @ ms)) = root_names (ns @ ms)"
    using normalize_names [of "[]" "ns @ ms"] by (simp add: normalize_components_def root_names_def)
  moreover have names: "\<forall>n \<in> set (ns @ ms). proper_name n" using ns ms by auto
  ultimately have "normalize_path (path_join base sub) = names_path (ns @ ms)"
    by (simp add: normalize_path_def render_root_names names_path_nonempty)
  then have "resolve_path_against_base home sub base = names_path (ns @ ms)"
    using plain_expand [OF assms(3)] rel by (simp add: resolve_path_against_base_def absolutize_from_def path_with_base_def)
  then show ?thesis using components_names_path [OF names] ns(1) by (simp add: path_starts_with_def root_names_def)
qed

text \<open>
  A nested entry stays below the path it is nested in, unless it begins with \<open>~\<close>.
\<close>

lemma nested_entry_below_base:
  assumes "env_ok env" "compile_scoped_filesystem_path env path sub ws = Inr (PathEntry q, ws')" "\<not> starts_with sub [tilde]"
  shows "\<exists>base. parse_absolute_path env path = Inr base \<and> path_starts_with q base"
proof (cases "sub = [dot]")
  case True
  with assms(2) show ?thesis
    by (auto simp: compile_scoped_filesystem_path_def compile_filesystem_path_def rbind_eq_Inr_iff path_starts_with_def split: option.splits)
next
  case False
  have none: "parse_special_path path = None"
  proof (rule ccontr)
    assume "parse_special_path path \<noteq> None"
    then obtain v where v: "parse_special_path path = Some v" by blast
    with False assms(2) show False by (cases v) (auto simp: compile_scoped_filesystem_path_def rbind_eq_Inr_iff)
  qed
  from False assms(2) obtain base where b: "parse_relative_subpath sub = Inr sub" "parse_absolute_path env path = Inr base"
    "q = resolve_path_against_base (env_home env) sub base"
    by (auto simp: compile_scoped_filesystem_path_def none rbind_eq_Inr_iff parse_relative_subpath_def split: if_splits)
  have "normal_absolute base" using b(2) env_absolute_normal [OF assms(1)] by (auto simp: parse_absolute_path_def split: if_splits option.splits)
  moreover have "list_all is_normal_component (components sub)" using b(1) by (simp add: parse_relative_subpath_def split: if_splits)
  ultimately show ?thesis using resolve_below assms(3) b by blast
qed

text \<open>A nested entry that begins with \<open>~\<close> is accepted as a descendant and names a path in the home directory.\<close>

lemma nested_home_entry_escapes:
  "compile_scoped_filesystem_path sample_env (lit ''/work'') (lit ''~/x'') [] = Inr (PathEntry (lit ''/h/x''), [])"
  by code_simp

section \<open>Globs that are refused\<close>

lemma unsupported_glob_refused:
  assumes "contains_glob_chars (remove_trailing_glob_suffix path)"
  shows "compile_read_write_glob_path path = Inl (GlobNeedsNone path)"
proof -
  have "contains_glob_chars path"
    using assms by (auto simp: remove_trailing_glob_suffix_def or_keep_def contains_glob_chars_def contains_glob_chars_for_platform_def
        strip_suffix_Some_iff split: option.splits)
  with assms show ?thesis by (simp add: compile_read_write_glob_path_def)
qed

text \<open>A profile with a path that would be warned about is refused, so the warning is never shown.\<close>

lemma warned_glob_is_error:
  assumes "(path, FsAccess access) \<in> set (fst_entries table)" "access \<noteq> AccessNone" "contains_glob_chars (remove_trailing_glob_suffix path)"
  shows "\<nexists>r. compile_filesystem env macos name (Some table) ws = Inr r"
proof
  assume "\<exists>r. compile_filesystem env macos name (Some table) ws = Inr r"
  then obtain ws1 es ws' where "compile_permissions env (fst_entries table) ws1 = Inr (es, ws')"
    using assms(1) by (auto simp: compile_filesystem_def split: if_splits)
  from compile_permissions_contains [OF this assms(1)] show False
    using assms(2,3) unsupported_glob_refused [OF assms(3)]
    by (auto simp: compile_filesystem_permission_def compile_filesystem_access_path_def compile_read_write_glob_path_def rbind_eq_Inr_iff split: if_splits)
qed

text \<open>A denied glob below a special path this version does not know aborts the load.\<close>

lemma unknown_path_glob_refused:
  "compile_scoped_entry sample_env (lit '':future'') (lit ''*.env'', AccessNone) ws = Inl (GlobNeedsNone (lit ''*.env''))"
proof -
  have "contains_glob_chars (lit ''*.env'')" "remove_trailing_glob_suffix (lit ''*.env'') = lit ''*.env''" "\<not> can_compile_as_pattern (lit '':future'')"
    by code_simp+
  then show ?thesis unfolding compile_scoped_entry_def compile_read_write_glob_path_def Let_def by simp
qed

end
