(* ===== verification/Task_Files.thy ===== *)
theory Task_Files
  imports Absolute_Path "HOL-Library.AList" "HOL-Library.List_Lexorder"
begin

text \<open>
  The files below an isolated task of \<open>codex-new-core\<close> (\<open>codex-new-core/src/fsx.rs\<close>, the locks of
  \<open>recovery.rs\<close>), over a model of the part of \<open>std::fs\<close> that the crate uses.

  A disk maps absolute paths (lists of names) to nodes. A file holds text, bytes that are no UTF-8, or a
  value that the crate has serialised (a manifest, a task record, a time line): the serialisation is a
  package that is not part of the sources, so the value itself stands for its bytes. The disk also says at which
  paths the operating system refuses to read, write, create or remove, so that every call may fail. Symbolic
  links are not modelled. A walk over a directory sees the disk as it was when the walk started.
\<close>

section \<open>Disks\<close>

type_synonym fpath = "rstr list"

datatype 'j contents = Utf8 rstr | Binary "nat list" | Json 'j

datatype 'j node = Directory | File "'j contents"

record 'j disk =
  nodes :: "(fpath \<times> 'j node) list"
  refused :: "fpath \<Rightarrow> bool"

definition lookup :: "'j disk \<Rightarrow> fpath \<Rightarrow> 'j node option" where
  "lookup d p = (if p = [] then Some Directory else map_of (nodes d) p)"

definition path_exists :: "'j disk \<Rightarrow> fpath \<Rightarrow> bool" where
  "path_exists d p = (lookup d p \<noteq> None)"

definition path_is_file :: "'j disk \<Rightarrow> fpath \<Rightarrow> bool" where
  "path_is_file d p = (case lookup d p of Some (File _) \<Rightarrow> True | _ \<Rightarrow> False)"

definition file_at :: "'j disk \<Rightarrow> fpath \<Rightarrow> 'j contents option" where
  "file_at d p = (case lookup d p of Some (File c) \<Rightarrow> Some c | _ \<Rightarrow> None)"

definition put_node :: "fpath \<Rightarrow> 'j node \<Rightarrow> 'j disk \<Rightarrow> 'j disk" where
  "put_node p n d = d\<lparr>nodes := AList.update p n (nodes d)\<rparr>"

definition drop_node :: "fpath \<Rightarrow> 'j disk \<Rightarrow> 'j disk" where
  "drop_node p d = d\<lparr>nodes := AList.delete p (nodes d)\<rparr>"

section \<open>Fallible actions\<close>

text \<open>
  \<open>HunkPanic\<close> stands for the panic of \<open>Vec::splice\<close> on a range that starts beyond the end; it unwinds
  like an error, and the guards of the locks are dropped on the way.
\<close>

datatype core_error =
    PathOutsideProject rstr
  | MergeConflict rstr "rstr option" "rstr option"
  | RollbackConflict rstr "rstr option" "rstr option"
  | GitError rstr
  | IoError
  | JsonError
  | OtherError rstr
  | HunkPanic

type_synonym ('j, 'a) action = "'j disk \<Rightarrow> 'j disk \<times> (core_error, 'a) result"

definition give :: "'a \<Rightarrow> ('j, 'a) action" where
  "give x = (\<lambda>d. (d, Inr x))"

definition fail_with :: "core_error \<Rightarrow> ('j, 'a) action" where
  "fail_with e = (\<lambda>d. (d, Inl e))"

definition reading :: "('j disk \<Rightarrow> (core_error, 'a) result) \<Rightarrow> ('j, 'a) action" where
  "reading f = (\<lambda>d. (d, f d))"

definition asking :: "('j disk \<Rightarrow> 'a) \<Rightarrow> ('j, 'a) action" where
  "asking f = (\<lambda>d. (d, Inr (f d)))"

definition and_then :: "('j, 'a) action \<Rightarrow> ('a \<Rightarrow> ('j, 'b) action) \<Rightarrow> ('j, 'b) action" where
  "and_then m f = (\<lambda>d. case m d of (d', Inl e) \<Rightarrow> (d', Inl e) | (d', Inr x) \<Rightarrow> f x d')"

text \<open>\<open>?\<close> on a result that is already there.\<close>

definition lift_result :: "(core_error, 'a) result \<Rightarrow> ('j, 'a) action" where
  "lift_result r = (\<lambda>d. (d, r))"

fun for_each :: "('x \<Rightarrow> ('j, unit) action) \<Rightarrow> 'x list \<Rightarrow> ('j, unit) action" where
  "for_each f [] = give ()"
| "for_each f (x # xs) = and_then (f x) (\<lambda>_. for_each f xs)"

fun map_each :: "('x \<Rightarrow> ('j, 'y) action) \<Rightarrow> 'x list \<Rightarrow> ('j, 'y list) action" where
  "map_each f [] = give []"
| "map_each f (x # xs) = and_then (f x) (\<lambda>y. and_then (map_each f xs) (\<lambda>ys. give (y # ys)))"

section \<open>The standard library\<close>

definition fs_read :: "fpath \<Rightarrow> 'j disk \<Rightarrow> (core_error, 'j contents) result" where
  "fs_read p d =
     (case lookup d p of
        Some (File c) \<Rightarrow> if refused d p then Inl IoError else Inr c
      | _ \<Rightarrow> Inl IoError)"

definition fs_write :: "fpath \<Rightarrow> 'j contents \<Rightarrow> ('j, unit) action" where
  "fs_write p c = (\<lambda>d.
     if refused d p \<or> lookup d p = Some Directory \<or> lookup d (butlast p) \<noteq> Some Directory then (d, Inl IoError)
     else (put_node p (File c) d, Inr ()))"

definition fs_copy :: "fpath \<Rightarrow> fpath \<Rightarrow> ('j, unit) action" where
  "fs_copy source destination = and_then (reading (fs_read source)) (fs_write destination)"

definition fs_remove_file :: "fpath \<Rightarrow> ('j, unit) action" where
  "fs_remove_file p = (\<lambda>d.
     if path_is_file d p \<and> \<not> refused d p then (drop_node p d, Inr ()) else (d, Inl IoError))"

definition ensure_dir :: "fpath \<Rightarrow> ('j, unit) action" where
  "ensure_dir p = (\<lambda>d.
     case lookup d p of
       Some Directory \<Rightarrow> (d, Inr ())
     | Some (File _) \<Rightarrow> (d, Inl IoError)
     | None \<Rightarrow>
         if refused d p \<or> lookup d (butlast p) \<noteq> Some Directory then (d, Inl IoError)
         else (put_node p Directory d, Inr ()))"

definition create_dir_all :: "fpath \<Rightarrow> ('j, unit) action" where
  "create_dir_all p = for_each ensure_dir (prefixes p)"

text \<open>A lookup below a file is an error of its own (\<open>NotADirectory\<close>), not an absent file.\<close>

definition through_file :: "'j disk \<Rightarrow> fpath \<Rightarrow> bool" where
  "through_file d p = list_ex (path_is_file d) (butlast (prefixes p))"

text \<open>
  \<open>WalkDir\<close>: the root, then everything below it, a directory before what it holds. A directory that cannot be
  read is itself reported and followed by an error.
\<close>

datatype walk_item = WalkEntry fpath | WalkError

definition below :: "'j disk \<Rightarrow> fpath \<Rightarrow> fpath list" where
  "below d root = sort (remdups (filter (strict_prefix root) (map fst (nodes d))))"

definition walk_dir :: "'j disk \<Rightarrow> fpath \<Rightarrow> walk_item list" where
  "walk_dir d root =
     (if \<not> path_exists d root then [WalkError]
      else concat (map (\<lambda>p. if lookup d p = Some Directory \<and> refused d p then [WalkEntry p, WalkError]
                            else [WalkEntry p]) (root # below d root)))"

section \<open>File operations of the crate\<close>

definition default_ignores :: "rstr list" where
  "default_ignores =
     [lit ''.git'', lit ''.venv'', lit ''venv'', lit ''node_modules'', lit ''target'', lit ''dist'', lit ''build'',
      lit ''.next'', lit ''.turbo'', lit ''.cache'']"

definition ignored :: "fpath \<Rightarrow> bool" where
  "ignored relative = list_ex (\<lambda>n. n \<in> set default_ignores) relative"

text \<open>The names of a relative path; \<open>Path::join\<close> appends them to the root.\<close>

definition path_names :: "rstr \<Rightarrow> fpath" where
  "path_names p = List.map_filter (\<lambda>c. case c of Normal n \<Rightarrow> Some n | _ \<Rightarrow> None) (components p)"

definition checked_join :: "fpath \<Rightarrow> rstr \<Rightarrow> (core_error, fpath) result" where
  "checked_join root relative =
     (if is_absolute relative \<or> ParentDir \<in> set (components relative) then Inl (PathOutsideProject relative)
      else Inr (root @ path_names relative))"

definition file_hash :: "('j contents \<Rightarrow> rstr) \<Rightarrow> fpath \<Rightarrow> 'j disk \<Rightarrow> (core_error, rstr option) result" where
  "file_hash sha256 p d =
     (if through_file d p then Inl IoError
      else case lookup d p of
        Some (File c) \<Rightarrow> if refused d p then Inl IoError else Inr (Some (lit ''sha256:'' @ sha256 c))
      | _ \<Rightarrow> Inr None)"

definition copy_entry :: "fpath \<Rightarrow> fpath \<Rightarrow> walk_item \<Rightarrow> ('j, unit) action" where
  "copy_entry source destination item =
     (case item of
        WalkError \<Rightarrow> fail_with (OtherError (lit ''walk''))
      | WalkEntry p \<Rightarrow>
          (let relative = drop (length source) p; target = destination @ relative
           in if relative = [] \<or> ignored relative then give ()
              else and_then (asking (\<lambda>d. lookup d p)) (\<lambda>n.
                case n of
                  Some Directory \<Rightarrow> create_dir_all target
                | Some (File _) \<Rightarrow> and_then (create_dir_all (butlast target)) (\<lambda>_. fs_copy p target)
                | None \<Rightarrow> fail_with (OtherError (lit ''metadata'')))))"

definition copy_project :: "fpath \<Rightarrow> fpath \<Rightarrow> ('j, unit) action" where
  "copy_project source destination =
     and_then (create_dir_all destination) (\<lambda>_.
     and_then (asking (\<lambda>d. walk_dir d source)) (for_each (copy_entry source destination)))"

text \<open>Remove what is at a path, if there is anything.\<close>

definition remove_if_exists :: "fpath \<Rightarrow> ('j, unit) action" where
  "remove_if_exists p =
     and_then (asking (\<lambda>d. path_exists d p)) (\<lambda>e. if e then fs_remove_file p else give ())"

definition copy_file_or_remove :: "fpath \<Rightarrow> fpath \<Rightarrow> rstr \<Rightarrow> ('j, unit) action" where
  "copy_file_or_remove source_root destination_root path =
     and_then (lift_result (checked_join source_root path)) (\<lambda>source.
     and_then (lift_result (checked_join destination_root path)) (\<lambda>destination.
     and_then (asking (\<lambda>d. path_is_file d source)) (\<lambda>f.
       if f then and_then (create_dir_all (butlast destination)) (\<lambda>_. fs_copy source destination)
       else remove_if_exists destination)))"

text \<open>\<open>str::replace\<close> of one character by a string.\<close>

definition replace_char :: "rchar \<Rightarrow> rstr \<Rightarrow> rstr \<Rightarrow> rstr" where
  "replace_char c r s = concat (map (\<lambda>x. if x = c then r else [x]) s)"

abbreviation backslash_char :: rchar where "backslash_char \<equiv> 92"

definition encode_path :: "rstr \<Rightarrow> rstr" where
  "encode_path p = replace_char slash (lit ''__'') (replace_char backslash_char (lit ''__'') p)"

definition snapshot_blob_path :: "fpath \<Rightarrow> rstr \<Rightarrow> fpath" where
  "snapshot_blob_path snapshot_root path = snapshot_root @ [encode_path path @ lit ''.blob'']"

definition snapshot_missing_path :: "fpath \<Rightarrow> rstr \<Rightarrow> fpath" where
  "snapshot_missing_path snapshot_root path = snapshot_root @ [encode_path path @ lit ''.missing'']"

definition snapshot_file :: "fpath \<Rightarrow> fpath \<Rightarrow> rstr \<Rightarrow> ('j, unit) action" where
  "snapshot_file source_root snapshot_root path =
     and_then (lift_result (checked_join source_root path)) (\<lambda>source.
       let destination = snapshot_blob_path snapshot_root path;
           missing_marker = snapshot_missing_path snapshot_root path
       in and_then (create_dir_all (butlast destination)) (\<lambda>_.
          and_then (asking (\<lambda>d. path_is_file d source)) (\<lambda>f.
            if f then and_then (remove_if_exists missing_marker) (\<lambda>_. fs_copy source destination)
            else and_then (remove_if_exists destination) (\<lambda>_. fs_write missing_marker (Utf8 [])))))"

definition snapshot_blob_exists :: "'j disk \<Rightarrow> fpath \<Rightarrow> rstr \<Rightarrow> bool" where
  "snapshot_blob_exists d snapshot_root path = path_exists d (snapshot_blob_path snapshot_root path)"

definition restore_snapshot :: "fpath \<Rightarrow> fpath \<Rightarrow> rstr \<Rightarrow> ('j, unit) action" where
  "restore_snapshot snapshot_root destination_root path =
     (let snapshot = snapshot_blob_path snapshot_root path;
          missing_marker = snapshot_missing_path snapshot_root path
      in and_then (lift_result (checked_join destination_root path)) (\<lambda>destination.
         and_then (asking (\<lambda>d. (path_exists d missing_marker, path_exists d snapshot))) (\<lambda>(missing, blob).
           if missing then remove_if_exists destination
           else if blob then and_then (create_dir_all (butlast destination)) (\<lambda>_. fs_copy snapshot destination)
           else remove_if_exists destination)))"

section \<open>Locks\<close>

text \<open>
  A lock is a file that must not be there; the guard removes it when it is dropped, on every way out of the
  code that holds it, and ignores a failure to do so.
\<close>

definition release_lock :: "fpath \<Rightarrow> 'j disk \<Rightarrow> 'j disk" where
  "release_lock p d = fst (fs_remove_file p d)"

definition holding :: "fpath \<Rightarrow> ('j, 'a) action \<Rightarrow> ('j, 'a) action" where
  "holding p m = (\<lambda>d. case m d of (d', r) \<Rightarrow> (release_lock p d', r))"

definition acquire_file :: "fpath \<Rightarrow> rstr \<Rightarrow> rstr \<Rightarrow> core_error \<Rightarrow> ('j, fpath) action" where
  "acquire_file project_root name line held =
     (let locks_root = project_root @ [lit ''locks'']; lock_path = locks_root @ [name]
      in and_then (create_dir_all locks_root) (\<lambda>_.
         and_then (asking (\<lambda>d. path_exists d lock_path)) (\<lambda>e.
           if e then fail_with held
           else and_then (fs_write lock_path (Utf8 (line @ [newline]))) (\<lambda>_. give lock_path))))"

definition acquire_merge :: "fpath \<Rightarrow> rstr \<Rightarrow> ('j, fpath) action" where
  "acquire_merge project_root task_id =
     acquire_file project_root (lit ''merge-'' @ task_id @ lit ''.lock'') task_id
       (OtherError (lit ''merge lock already held for task '' @ task_id))"

definition acquire_path :: "fpath \<Rightarrow> rstr \<Rightarrow> ('j, fpath) action" where
  "acquire_path project_root path =
     acquire_file project_root (lit ''path-'' @ encode_path path @ lit ''.lock'') path
       (OtherError (lit ''path lock already held for '' @ path))"

section \<open>Facts on disks\<close>

lemma lookup_put: "p \<noteq> [] \<Longrightarrow> lookup (put_node p n d) q = (if q = p then Some n else lookup d q)"
  by (auto simp: lookup_def put_node_def update_conv')

lemma lookup_drop: "p \<noteq> [] \<Longrightarrow> lookup (drop_node p d) q = (if q = p then None else lookup d q)"
  by (auto simp: lookup_def drop_node_def delete_conv')

lemma refused_put [simp]: "refused (put_node p n d) = refused d"
  by (simp add: put_node_def)

lemma refused_drop [simp]: "refused (drop_node p d) = refused d"
  by (simp add: drop_node_def)

lemma lookup_root [simp]: "lookup d [] = Some Directory"
  by (simp add: lookup_def)

lemma file_at_Some_iff: "file_at d p = Some c \<longleftrightarrow> lookup d p = Some (File c)"
  by (auto simp: file_at_def split: option.splits node.splits)

lemma file_at_None_iff: "file_at d p = None \<longleftrightarrow> \<not> path_is_file d p"
  by (auto simp: file_at_def path_is_file_def split: option.splits node.splits)

lemma path_is_file_iff: "path_is_file d p \<longleftrightarrow> (\<exists>c. lookup d p = Some (File c))"
  by (auto simp: path_is_file_def split: option.splits node.splits)

text \<open>Two paths whose snapshots have the same name.\<close>

lemma encode_path_collision: "encode_path (lit ''a/b'') = encode_path (lit ''a__b'')"
  by (simp add: encode_path_def replace_char_def)

text \<open>Every node but the root lies in a directory.\<close>

definition wf_disk :: "'j disk \<Rightarrow> bool" where
  "wf_disk d = list_all (\<lambda>(p, _). p \<noteq> [] \<and> lookup d (butlast p) = Some Directory) (nodes d)"

lemma wf_disk_parent: "wf_disk d \<Longrightarrow> lookup d p \<noteq> None \<Longrightarrow> lookup d (butlast p) = Some Directory"
  by (cases "p = []") (auto simp: wf_disk_def list_all_iff lookup_def [of d p] dest: map_of_SomeD)

lemma wf_disk_iff:
  "wf_disk d \<longleftrightarrow> (\<forall>(p, n) \<in> set (nodes d). p \<noteq> [] \<and> lookup d (butlast p) = Some Directory)"
  by (auto simp: wf_disk_def list_all_iff)

lemma wf_disk_above: "wf_disk d \<Longrightarrow> lookup d p \<noteq> None \<Longrightarrow> strict_prefix q p \<Longrightarrow> lookup d q = Some Directory"
proof (induction p rule: rev_induct)
  case (snoc n p)
  from wf_disk_parent [OF snoc.prems(1,2)] have p: "lookup d p = Some Directory" by simp
  from snoc.prems(3) have "q = p \<or> strict_prefix q p" by (auto simp: strict_prefix_def)
  with p snoc show ?case by auto
qed simp

lemma butlast_eq_self_iff: "butlast p = p \<longleftrightarrow> p = []"
  by (cases p rule: rev_cases) auto

lemma wf_put:
  assumes "wf_disk d" "p \<noteq> []" "lookup d (butlast p) = Some Directory"
    and "lookup d p = Some Directory \<Longrightarrow> n = Directory"
  shows "wf_disk (put_node p n d)"
proof -
  have "q \<noteq> [] \<and> lookup (put_node p n d) (butlast q) = Some Directory"
    if "(q, m) \<in> set (nodes (put_node p n d))" for q m
  proof -
    have "q \<in> insert p (fst ` set (nodes d))"
      using that image_eqI [of q fst "(q, m)" "set (nodes (put_node p n d))"]
      by (simp add: put_node_def dom_update)
    then have "q \<noteq> [] \<and> lookup d (butlast q) = Some Directory"
      using assms by (auto simp: wf_disk_iff)
    then show ?thesis using assms by (auto simp: lookup_put)
  qed
  then show ?thesis by (auto simp: wf_disk_iff)
qed

lemma wf_drop:
  assumes "wf_disk d" "p \<noteq> []" "lookup d p \<noteq> Some Directory"
  shows "wf_disk (drop_node p d)"
proof -
  have "set (nodes (drop_node p d)) \<subseteq> set (nodes d)"
    by (auto simp: drop_node_def AList.delete_eq)
  then show ?thesis using assms by (fastforce simp: wf_disk_iff lookup_drop)
qed

text \<open>
  How a disk may change by the actions of the crate when only files at the paths of a set are written or
  removed: directories appear above such a path only and stay, what is refused stays so.
\<close>

definition evolves :: "fpath set \<Rightarrow> 'j disk \<Rightarrow> 'j disk \<Rightarrow> bool" where
  "evolves S d e \<longleftrightarrow>
     (\<forall>q. q \<notin> S \<longrightarrow> file_at e q = file_at d q) \<and> refused e = refused d \<and>
     (\<forall>q. lookup d q = Some Directory \<longrightarrow> lookup e q = Some Directory) \<and>
     (\<forall>q. lookup d q \<noteq> Some Directory \<longrightarrow> lookup e q = Some Directory \<longrightarrow> (\<exists>s \<in> S. strict_prefix q s)) \<and>
     (wf_disk d \<longrightarrow> wf_disk e)"

lemma evolves_refl [simp, intro]: "evolves S d d"
  by (simp add: evolves_def)

lemma evolves_trans: "evolves S d e \<Longrightarrow> evolves S e f \<Longrightarrow> evolves S d f"
  unfolding evolves_def by metis

lemma evolves_mono: "evolves S d e \<Longrightarrow> S \<subseteq> T \<Longrightarrow> evolves T d e"
  unfolding evolves_def by (meson subsetD)

lemma evolves_file: "evolves S d e \<Longrightarrow> q \<notin> S \<Longrightarrow> file_at e q = file_at d q"
  by (simp add: evolves_def)

lemma evolves_dir: "evolves S d e \<Longrightarrow> lookup d q = Some Directory \<Longrightarrow> lookup e q = Some Directory"
  by (simp add: evolves_def)

lemma evolves_refused: "evolves S d e \<Longrightarrow> refused e = refused d"
  by (simp add: evolves_def)

lemma evolves_wf: "evolves S d e \<Longrightarrow> wf_disk d \<Longrightarrow> wf_disk e"
  by (simp add: evolves_def)

section \<open>Reasoning about actions\<close>

named_theorems action_defs \<open>definitions of the plain actions\<close>

declare give_def [action_defs] fail_with_def [action_defs] reading_def [action_defs] asking_def [action_defs]
  lift_result_def [action_defs]

lemma and_then_ok:
  "and_then m f d = (e, Inr y) \<longleftrightarrow> (\<exists>d1 x. m d = (d1, Inr x) \<and> f x d1 = (e, Inr y))"
  by (auto simp: and_then_def split: prod.splits sum.splits)

lemma and_then_error:
  "and_then m f d = (e, Inl x) \<longleftrightarrow> m d = (e, Inl x) \<or> (\<exists>d1 v. m d = (d1, Inr v) \<and> f v d1 = (e, Inl x))"
  by (auto simp: and_then_def split: prod.splits sum.splits)

lemma and_then_step: "m d = (d1, Inr x) \<Longrightarrow> and_then m f d = f x d1"
  by (simp add: and_then_def)

lemma plain_ok [simp]:
  "give x d = (d, Inr x)"
  "fail_with e d = (d, Inl e)"
  "reading f d = (d, f d)"
  "asking g d = (d, Inr (g d))"
  "lift_result r d = (d, r)"
  by (simp_all add: action_defs)

text \<open>
  An action never leaves a relation on disks that is reflexive and transitive when its parts do not.
\<close>

locale action_preorder =
  fixes R :: "'d disk \<Rightarrow> 'd disk \<Rightarrow> bool"
  assumes R_refl: "R d d"
    and R_trans: "R d e \<Longrightarrow> R e f \<Longrightarrow> R d f"
begin

lemma run_and_then:
  assumes "R d (fst (m d))" and "\<And>d1 x. m d = (d1, Inr x) \<Longrightarrow> R d1 (fst (f x d1))"
  shows "R d (fst (and_then m f d))"
proof (cases "m d")
  case (Pair d1 r)
  with assms show ?thesis by (cases r) (auto simp: and_then_def intro: R_trans)
qed

lemma run_plain:
  "R d (fst (give x d))" "R d (fst (fail_with err d))" "R d (fst (reading g d))" "R d (fst (asking h d))"
  "R d (fst (lift_result r d))"
  by (simp_all add: R_refl)

lemma run_for_each: "(\<And>x d. x \<in> set xs \<Longrightarrow> R d (fst (f x d))) \<Longrightarrow> R d (fst (for_each f xs d))"
proof (induction xs arbitrary: d)
  case Nil
  then show ?case by (simp add: R_refl)
next
  case (Cons x xs)
  show ?case unfolding for_each.simps
    by (rule run_and_then, rule Cons.prems) (auto intro!: Cons.IH Cons.prems)
qed

lemma run_map_each: "(\<And>x d. x \<in> set xs \<Longrightarrow> R d (fst (f x d))) \<Longrightarrow> R d (fst (map_each f xs d))"
proof (induction xs arbitrary: d)
  case Nil
  then show ?case by (simp add: R_refl)
next
  case (Cons x xs)
  show ?case unfolding map_each.simps
    by (rule run_and_then, rule Cons.prems) (auto intro!: run_and_then Cons.IH Cons.prems R_refl)
qed

lemma run_holding:
  assumes "R d (fst (m d))" and "\<And>e. R e (fst (fs_remove_file p e))"
  shows "R d (fst (holding p m d))"
  using assms by (auto simp: holding_def release_lock_def split: prod.splits intro: R_trans)

end

interpretation ev: action_preorder "evolves S" for S
  by unfold_locales (auto intro: evolves_trans)

lemma evolves_put:
  assumes "p \<in> S \<and> n \<noteq> Directory \<or> n = Directory \<and> lookup d p = None \<and> s \<in> S \<and> strict_prefix p s"
    and "p \<noteq> []" "lookup d (butlast p) = Some Directory" "lookup d p = Some Directory \<Longrightarrow> n = Directory"
  shows "evolves S d (put_node p n d)"
  using assms wf_put [of d p n] by (auto simp: evolves_def file_at_def lookup_put)

lemma evolves_drop:
  assumes "p \<in> S" "p \<noteq> []" "lookup d p \<noteq> Some Directory"
  shows "evolves S d (drop_node p d)"
  using assms wf_drop [of d p] by (auto simp: evolves_def file_at_def lookup_drop)

lemma run_fs_write: "p \<in> S \<Longrightarrow> evolves S d (fst (fs_write p c d))"
  by (auto simp: fs_write_def intro!: evolves_put)

lemma run_fs_remove_file: "p \<in> S \<Longrightarrow> evolves S d (fst (fs_remove_file p d))"
  by (auto simp: fs_remove_file_def path_is_file_iff intro!: evolves_drop)

lemma run_ensure_dir: "s \<in> S \<Longrightarrow> strict_prefix p s \<Longrightarrow> evolves S d (fst (ensure_dir p d))"
  by (cases "p = []") (auto simp: ensure_dir_def intro!: evolves_put split: option.splits node.splits)

lemma run_create_dir_all:
  assumes "s \<in> S" "strict_prefix p s"
  shows "evolves S d (fst (create_dir_all p d))"
  unfolding create_dir_all_def
  using assms by (intro ev.run_for_each run_ensure_dir) (auto intro: prefix_order.le_less_trans)

lemma run_create_parent: "p \<in> S \<Longrightarrow> evolves S d (fst (create_dir_all (butlast p) d))"
proof (cases p rule: rev_cases)
  case Nil
  then show ?thesis by (simp add: create_dir_all_def ensure_dir_def and_then_def)
next
  case (snoc q n)
  then show "p \<in> S \<Longrightarrow> ?thesis" by (auto intro: run_create_dir_all simp: strict_prefix_def)
qed

lemma run_create_above: "p @ [n] \<in> S \<Longrightarrow> evolves S d (fst (create_dir_all p d))"
  by (erule run_create_dir_all) (simp add: strict_prefix_def)

lemmas run_basic = ev.run_plain run_create_parent

lemma run_fs_copy: "p \<in> S \<Longrightarrow> evolves S d (fst (fs_copy q p d))"
  unfolding fs_copy_def by (rule ev.run_and_then) (auto intro: run_fs_write)

lemma run_remove_if_exists: "p \<in> S \<Longrightarrow> evolves S d (fst (remove_if_exists p d))"
  unfolding remove_if_exists_def by (rule ev.run_and_then) (auto intro: run_fs_remove_file)

lemma checked_join_ok: "checked_join root path = Inr p \<Longrightarrow> p = root @ path_names path"
  by (simp add: checked_join_def split: if_splits)

lemma run_copy_file_or_remove:
  assumes "destination_root @ path_names path \<in> S"
  shows "evolves S d (fst (copy_file_or_remove source_root destination_root path d))"
  unfolding copy_file_or_remove_def
  using assms
  by (intro ev.run_and_then run_basic)
     (auto dest!: checked_join_ok intro!: ev.run_and_then run_basic run_fs_copy run_remove_if_exists)

lemma run_snapshot_file:
  assumes "snapshot_blob_path snap path \<in> S" "snapshot_missing_path snap path \<in> S"
  shows "evolves S d (fst (snapshot_file source_root snap path d))"
  unfolding snapshot_file_def Let_def
  using assms
  by (intro ev.run_and_then run_basic)
     (auto intro!: ev.run_and_then run_basic run_fs_copy run_remove_if_exists run_fs_write)

lemma run_restore_snapshot:
  assumes "destination_root @ path_names path \<in> S"
  shows "evolves S d (fst (restore_snapshot snap destination_root path d))"
  unfolding restore_snapshot_def Let_def
  using assms
  by (intro ev.run_and_then run_basic)
     (auto dest!: checked_join_ok intro!: ev.run_and_then run_basic run_fs_copy run_remove_if_exists split: prod.splits)

lemma run_holding_lock: "p \<in> S \<Longrightarrow> evolves S d (fst (m d)) \<Longrightarrow> evolves S d (fst (holding p m d))"
  by (rule ev.run_holding) (auto intro: run_fs_remove_file)

lemma run_acquire_file:
  "root @ [lit ''locks'', name] \<in> S \<Longrightarrow> evolves S d (fst (acquire_file root name line held d))"
  unfolding acquire_file_def Let_def
  by (intro ev.run_and_then run_create_above [of _ name]) (auto intro!: ev.run_and_then run_basic run_fs_write)

lemma acquire_file_ok: "acquire_file root name line held d = (e, Inr p) \<Longrightarrow> p = root @ [lit ''locks'', name]"
  by (auto simp: acquire_file_def Let_def and_then_ok split: if_splits)

section \<open>What the operations achieve\<close>

lemma evolves_lookup:
  assumes "evolves S d e" "q \<notin> S" "\<And>s. s \<in> S \<Longrightarrow> \<not> strict_prefix q s"
  shows "lookup e q = lookup d q"
proof -
  have "lookup e q = Some Directory \<longleftrightarrow> lookup d q = Some Directory"
    using assms by (auto simp: evolves_def)
  moreover have "file_at e q = file_at d q" using assms by (simp add: evolves_def)
  ultimately show ?thesis
    by (auto simp: file_at_def split: option.splits node.splits)
qed

lemma file_hash_ok:
  "file_hash sha p d = Inr h \<Longrightarrow> h = map_option (\<lambda>c. lit ''sha256:'' @ sha c) (file_at d p)"
  by (auto simp: file_hash_def file_at_def split: if_splits option.splits node.splits)

lemma file_hash_total:
  "\<not> through_file d p \<Longrightarrow> \<not> refused d p \<Longrightarrow>
     file_hash sha p d = Inr (map_option (\<lambda>c. lit ''sha256:'' @ sha c) (file_at d p))"
  by (auto simp: file_hash_def file_at_def split: option.splits node.splits)

lemma disk_write_ok: "fs_write p c d = (e, Inr u) \<Longrightarrow> e = put_node p (File c) d \<and> p \<noteq> []"
  by (auto simp: fs_write_def split: if_splits)

lemma fs_write_lookup: "fs_write p c d = (e, Inr u) \<Longrightarrow> lookup e q = (if q = p then Some (File c) else lookup d q)"
  by (auto dest!: disk_write_ok simp: lookup_put)

lemma fs_copy_lookup:
  "fs_copy p r d = (e, Inr u) \<Longrightarrow>
     path_is_file d p \<and> lookup e q = (if q = r then map_option File (file_at d p) else lookup d q)"
  by (auto simp: fs_copy_def and_then_ok fs_read_def file_at_def path_is_file_def fs_write_lookup
      split: option.splits node.splits if_splits)

lemma remove_if_exists_lookup:
  "remove_if_exists p d = (e, Inr u) \<Longrightarrow> lookup e q = (if q = p then None else lookup d q)"
  by (cases "p = []")
     (auto simp: remove_if_exists_def and_then_ok fs_remove_file_def path_exists_def path_is_file_iff lookup_drop
      split: if_splits)

lemma create_parent_file: "create_dir_all (butlast p) d = (e, r) \<Longrightarrow> file_at e q = file_at d q"
proof -
  assume *: "create_dir_all (butlast p) d = (e, r)"
  have "file_at (fst (for_each ensure_dir xs d)) q = file_at d q" for xs and d :: "'a disk"
  proof (induction xs arbitrary: d)
    case (Cons x xs)
    have "file_at (fst (ensure_dir x d)) q = file_at d q"
      by (cases "x = []") (auto simp: ensure_dir_def file_at_def lookup_put split: option.splits node.splits)
    with Cons show ?case by (cases "ensure_dir x d") (auto simp: and_then_def split: sum.splits)
  qed simp
  from this [of "prefixes (butlast p)" d] * show ?thesis by (simp add: create_dir_all_def)
qed

text \<open>What a snapshot says of a file: its contents, or that there is none.\<close>

definition snapshot_of :: "'j disk \<Rightarrow> fpath \<Rightarrow> rstr \<Rightarrow> 'j contents option \<Rightarrow> bool" where
  "snapshot_of d snap path c \<longleftrightarrow>
     (case c of
        Some c \<Rightarrow> lookup d (snapshot_blob_path snap path) = Some (File c) \<and> lookup d (snapshot_missing_path snap path) = None
      | None \<Rightarrow> lookup d (snapshot_blob_path snap path) = None \<and>
                lookup d (snapshot_missing_path snap path) = Some (File (Utf8 [])))"

lemma snapshot_file_ok:
  assumes "snapshot_file root snap path d = (e, Inr u)"
    and "root @ path_names path \<noteq> snapshot_missing_path snap path"
  shows "snapshot_of e snap path (file_at d (root @ path_names path))"
proof -
  let ?src = "root @ path_names path" and ?blob = "snapshot_blob_path snap path"
    and ?marker = "snapshot_missing_path snap path"
  have neq: "?blob \<noteq> ?marker" by (simp add: snapshot_blob_path_def snapshot_missing_path_def)
  from assms(1) obtain d1 v where d1: "create_dir_all (butlast ?blob) d = (d1, Inr v)"
    and run: "(if path_is_file d1 ?src then and_then (remove_if_exists ?marker) (\<lambda>_. fs_copy ?src ?blob)
               else and_then (remove_if_exists ?blob) (\<lambda>_. fs_write ?marker (Utf8 []))) d1 = (e, Inr u)"
    by (auto simp: snapshot_file_def Let_def and_then_ok dest!: checked_join_ok)
  from d1 have src: "file_at d ?src = file_at d1 ?src" by (simp add: create_parent_file)
  show ?thesis
  proof (cases "path_is_file d1 ?src")
    case True
    with run obtain d2 w where d2: "remove_if_exists ?marker d1 = (d2, Inr w)" and cp: "fs_copy ?src ?blob d2 = (e, Inr u)"
      by (auto simp: and_then_ok)
    have "lookup d2 ?src = lookup d1 ?src" using remove_if_exists_lookup [OF d2] assms(2) by simp
    with True fs_copy_lookup [OF cp, of ?blob] fs_copy_lookup [OF cp, of ?marker] remove_if_exists_lookup [OF d2, of ?marker] neq
    show ?thesis unfolding src by (auto simp: snapshot_of_def file_at_def path_is_file_iff)
  next
    case False
    with run obtain d2 w where "remove_if_exists ?blob d1 = (d2, Inr w)" and "fs_write ?marker (Utf8 []) d2 = (e, Inr u)"
      by (auto simp: and_then_ok)
    with False neq show ?thesis unfolding src
      by (auto simp: snapshot_of_def file_at_None_iff [THEN iffD2] fs_write_lookup remove_if_exists_lookup)
  qed
qed

lemma copy_file_or_remove_ok:
  assumes "copy_file_or_remove source_root destination_root path d = (e, Inr u)"
    and "source_root @ path_names path \<noteq> destination_root @ path_names path"
  shows "file_at e (destination_root @ path_names path) = file_at d (source_root @ path_names path)"
proof (cases "path_is_file d (source_root @ path_names path)")
  case True
  with assms obtain d1 v where "create_dir_all (butlast (destination_root @ path_names path)) d = (d1, Inr v)"
    and "fs_copy (source_root @ path_names path) (destination_root @ path_names path) d1 = (e, Inr u)"
    by (auto simp: copy_file_or_remove_def and_then_ok dest!: checked_join_ok)
  then have "path_is_file d1 (source_root @ path_names path)"
    and "lookup e (destination_root @ path_names path) = map_option File (file_at d1 (source_root @ path_names path))"
    and "file_at d1 (source_root @ path_names path) = file_at d (source_root @ path_names path)"
    by (simp_all add: fs_copy_lookup create_parent_file)
  then show ?thesis
    by (cases "file_at d (source_root @ path_names path)") (simp_all add: file_at_def [of e])
next
  case False
  with assms have "remove_if_exists (destination_root @ path_names path) d = (e, Inr u)"
    by (auto simp: copy_file_or_remove_def and_then_ok dest!: checked_join_ok)
  with False show ?thesis by (simp add: file_at_def [of e] remove_if_exists_lookup file_at_None_iff [THEN iffD2])
qed

text \<open>Creating directories succeeds when nothing is refused and no file is in the way.\<close>

lemma create_dir_all_total:
  assumes "\<And>q. \<not> refused d q" and "\<And>q. prefix q p \<Longrightarrow> \<not> path_is_file d q"
  shows "\<exists>e. create_dir_all p d = (e, Inr ()) \<and> lookup e p = Some Directory"
  using assms unfolding create_dir_all_def
proof (induction p rule: rev_induct)
  case Nil
  then show ?case by (simp add: ensure_dir_def and_then_def)
next
  case (snoc n p)
  have "prefix q (p @ [n])" if "prefix q p" for q using that by (auto simp: prefix_def)
  with snoc obtain e where e: "for_each ensure_dir (prefixes p) d = (e, Inr ())" "lookup e p = Some Directory"
    by blast
  have ev: "evolves {p @ [n]} d e"
    using run_create_parent [of "p @ [n]" "{p @ [n]}" d] e(1) by (simp add: create_dir_all_def)
  have none: "\<not> path_is_file e (p @ [n])"
  proof -
    have "file_at e (p @ [n]) = file_at d (p @ [n])"
      using create_parent_file [of "p @ [n]" d e "Inr ()"] e(1) by (simp add: create_dir_all_def)
    then show ?thesis using snoc.prems(2) [of "p @ [n]"] by (simp flip: file_at_None_iff)
  qed
  have "for_each ensure_dir (prefixes p @ [p @ [n]]) d = ensure_dir (p @ [n]) e"
  proof -
    have app: "for_each ensure_dir (xs @ [x]) d = and_then (for_each ensure_dir xs) (\<lambda>_. ensure_dir x) d" for xs x d
      by (induction xs arbitrary: d) (auto simp: and_then_def split: prod.splits sum.splits)
    show ?thesis using e(1) by (simp add: app and_then_def)
  qed
  moreover have "\<exists>f. ensure_dir (p @ [n]) e = (f, Inr ()) \<and> lookup f (p @ [n]) = Some Directory"
    using none e(2) snoc.prems(1) evolves_refused [OF ev]
    by (auto simp: ensure_dir_def path_is_file_iff lookup_put split: option.splits node.splits)
  ultimately show ?case by (simp add: prefixes_snoc)
qed

lemma remove_if_exists_total:
  "\<not> refused d p \<Longrightarrow> lookup d p \<noteq> Some Directory \<Longrightarrow> \<exists>e. remove_if_exists p d = (e, Inr ())"
  by (cases "lookup d p")
     (auto simp: remove_if_exists_def and_then_def path_exists_def fs_remove_file_def path_is_file_iff
      intro: node.exhaust split: node.splits)

text \<open>A snapshot is restored when nothing is refused, and the file is then what the snapshot says.\<close>

lemma restore_snapshot_total:
  assumes snap: "snapshot_of d snap path c" and join: "checked_join root path = Inr p"
    and refused: "\<And>q. \<not> refused d q" and dir: "lookup d p \<noteq> Some Directory"
    and parents: "\<And>q. strict_prefix q p \<Longrightarrow> \<not> path_is_file d q"
    and neq: "p \<noteq> snapshot_blob_path snap path" "\<not> strict_prefix (snapshot_blob_path snap path) p"
  shows "\<exists>e. restore_snapshot snap root path d = (e, Inr ()) \<and> file_at e p = c"
proof (cases c)
  case None
  with remove_if_exists_total [OF refused dir] obtain e where e: "remove_if_exists p d = (e, Inr ())" by blast
  with None snap join have "restore_snapshot snap root path d = (e, Inr ())"
    by (simp add: restore_snapshot_def Let_def snapshot_of_def and_then_def path_exists_def)
  with None remove_if_exists_lookup [OF e, of p] show ?thesis by (auto simp: file_at_def)
next
  case (Some b)
  have "p \<noteq> []" using dir by auto
  then have "strict_prefix q p" if "prefix q (butlast p)" for q
    using that by (cases p rule: rev_cases) (auto simp: strict_prefix_def)
  with create_dir_all_total [OF refused, of "butlast p"] parents
  obtain e1 where e1: "create_dir_all (butlast p) d = (e1, Inr ())" "lookup e1 (butlast p) = Some Directory" by blast
  have ev: "evolves {p} d e1" using run_create_parent [of p "{p}" d] e1(1) by simp
  have blob: "lookup e1 (snapshot_blob_path snap path) = Some (File b)"
    using evolves_lookup [OF ev, of "snapshot_blob_path snap path"] neq snap Some by (simp add: snapshot_of_def)
  have free: "lookup e1 p \<noteq> Some Directory" using evolves_lookup [OF ev] ev dir by (auto simp: evolves_def)
  have "fs_copy (snapshot_blob_path snap path) p e1 = (put_node p (File b) e1, Inr ())"
    using blob free e1(2) refused evolves_refused [OF ev]
    by (simp add: fs_copy_def and_then_def fs_read_def fs_write_def)
  then have "restore_snapshot snap root path d = (put_node p (File b) e1, Inr ())"
    using Some snap join e1(1)
    by (simp add: restore_snapshot_def Let_def snapshot_of_def and_then_def path_exists_def)
  with Some \<open>p \<noteq> []\<close> show ?thesis by (simp add: file_at_def lookup_put)
qed

text \<open>A path that is neither one of a set nor above one of them is left alone entirely.\<close>

definition separated :: "fpath \<Rightarrow> fpath set \<Rightarrow> bool" where
  "separated q S \<longleftrightarrow> q \<notin> S \<and> (\<forall>s \<in> S. \<not> strict_prefix q s)"

lemma evolves_separated: "evolves S d e \<Longrightarrow> separated q S \<Longrightarrow> lookup e q = lookup d q"
  by (auto simp: separated_def intro: evolves_lookup)

lemma separated_file: "evolves S d e \<Longrightarrow> separated q S \<Longrightarrow> file_at e q = file_at d q"
  by (simp add: separated_def evolves_file)

lemma separated_Un [simp]: "separated q (S \<union> T) \<longleftrightarrow> separated q S \<and> separated q T"
  by (auto simp: separated_def)

lemma separated_insert [simp]: "separated q (insert s S) \<longleftrightarrow> \<not> prefix q s \<and> separated q S"
  by (auto simp: separated_def strict_prefix_def)

lemma separated_empty [simp]: "separated q {}"
  by (simp add: separated_def)

lemma snapshot_of_kept:
  assumes "snapshot_of d snap path c" "evolves S d e"
    and "separated (snapshot_blob_path snap path) S" "separated (snapshot_missing_path snap path) S"
  shows "snapshot_of e snap path c"
  using assms by (simp add: snapshot_of_def evolves_separated split: option.splits)

lemma through_file_iff: "through_file d p \<longleftrightarrow> (\<exists>q. strict_prefix q p \<and> path_is_file d q)"
proof (cases p rule: rev_cases)
  case (snoc ys y)
  have "strict_prefix q (ys @ [y]) \<longleftrightarrow> prefix q ys" for q
    by (auto simp: strict_prefix_def)
  with snoc show ?thesis by (auto simp: through_file_def prefixes_snoc list_ex_iff)
qed (simp add: through_file_def)

section \<open>Loops whose rounds do not interfere\<close>

text \<open>
  A loop over elements that are apart from each other: what a round needs and what it has achieved is not
  disturbed by the rounds of the others.
\<close>

locale independent_rounds =
  fixes f :: "'x \<Rightarrow> ('j, 'y) action"
    and apart :: "'x \<Rightarrow> 'x \<Rightarrow> bool"
    and needs :: "'x \<Rightarrow> 'j disk \<Rightarrow> bool"
    and achieves :: "'x \<Rightarrow> 'y \<Rightarrow> 'j disk \<Rightarrow> bool"
  assumes round_ok: "needs x d \<Longrightarrow> f x d = (e, Inr y) \<Longrightarrow> achieves x y e"
    and needs_kept: "apart x z \<Longrightarrow> needs x d \<Longrightarrow> f z d = (e, Inr y) \<Longrightarrow> needs x e"
    and achieves_kept: "apart x z \<Longrightarrow> achieves x v d \<Longrightarrow> f z d = (e, Inr y) \<Longrightarrow> achieves x v e"
begin

lemma achieves_along:
  "map_each f zs d = (e, Inr ys) \<Longrightarrow> (\<And>z. z \<in> set zs \<Longrightarrow> apart x z) \<Longrightarrow> achieves x v d \<Longrightarrow> achieves x v e"
proof (induction zs arbitrary: d ys)
  case (Cons z zs)
  from Cons.prems(1) obtain d1 y ys' where z: "f z d = (d1, Inr y)" and rest: "map_each f zs d1 = (e, Inr ys')"
    by (auto simp: and_then_ok)
  have "achieves x v d1" using achieves_kept [OF _ Cons.prems(3) z] Cons.prems(2) by simp
  with Cons.IH [OF rest] Cons.prems(2) show ?case by simp
qed simp

lemma loop_ok:
  "map_each f xs d = (e, Inr ys) \<Longrightarrow> sorted_wrt (\<lambda>x z. apart x z \<and> apart z x) xs \<Longrightarrow>
     (\<And>x. x \<in> set xs \<Longrightarrow> needs x d) \<Longrightarrow> list_all2 (\<lambda>x y. achieves x y e) xs ys"
proof (induction xs arbitrary: d ys)
  case (Cons x xs)
  from Cons.prems(1) obtain d1 y ys' where x: "f x d = (d1, Inr y)" and rest: "map_each f xs d1 = (e, Inr ys')"
    and ys: "ys = y # ys'"
    by (auto simp: and_then_ok)
  have "achieves x y d1" using round_ok [OF _ x] Cons.prems(3) by simp
  then have "achieves x y e" using achieves_along [OF rest] Cons.prems(2) by auto
  moreover have "list_all2 (\<lambda>x y. achieves x y e) xs ys'"
  proof (rule Cons.IH [OF rest])
    show "needs z d1" if "z \<in> set xs" for z using needs_kept [OF _ _ x, of z] Cons.prems that by auto
  qed (use Cons.prems in simp)
  ultimately show ?case by (simp add: ys)
qed simp

end

text \<open>If moreover every round succeeds, so does the loop.\<close>

locale successful_rounds = independent_rounds +
  assumes round_total: "needs x d \<Longrightarrow> \<exists>e y. f x d = (e, Inr y)"
begin

lemma loop_total:
  "sorted_wrt (\<lambda>x z. apart x z \<and> apart z x) xs \<Longrightarrow> (\<And>x. x \<in> set xs \<Longrightarrow> needs x d) \<Longrightarrow>
     \<exists>e ys. map_each f xs d = (e, Inr ys)"
proof (induction xs arbitrary: d)
  case (Cons x xs)
  from round_total [of x d] Cons.prems obtain d1 y where x: "f x d = (d1, Inr y)" by auto
  have "needs z d1" if "z \<in> set xs" for z using needs_kept [OF _ _ x, of z] Cons.prems that by auto
  with Cons.IH [of d1] Cons.prems obtain e ys where "map_each f xs d1 = (e, Inr ys)" by auto
  with x show ?case by (auto simp: and_then_def)
qed simp

end

end
