(* ===== verification/Task_Model.thy ===== *)
theory Task_Model
  imports Task_Files
begin

text \<open>
  The data of \<open>codex-new-core\<close> (\<open>models.rs\<close>, \<open>manifest.rs\<close>, the records of \<open>traceback.rs\<close>), with the
  constructors of the source; the fields carry the initial of their record. A point of time is an integer, a map a list of pairs. An
  \<open>artifact\<close> is one of the values that the crate keeps as JSON.

  \<open>services\<close> gathers what lies outside the sources: the digest, the decoding of bytes, the clock, fresh
  identifiers (the next one, or the next few when several are drawn at once), the runs of \<open>git\<close> (those that only ask and those that change the disk; none, when the program
  cannot be started) and the format of a date. The clock and the identifiers may give a new value whenever the disk has changed.
\<close>

section \<open>Projects and tasks\<close>

datatype workspace_strategy = Auto | Worktree | Copy

record project_settings =
  s_workspace_strategy :: workspace_strategy
  s_keep_days :: nat
  s_require_review :: bool
  s_require_tests :: bool
  s_protect_sensitive_files :: bool
  s_default_test_commands :: "rstr list"

definition default_project_settings :: project_settings where
  "default_project_settings =
     \<lparr>s_workspace_strategy = Auto, s_keep_days = 30, s_require_review = True, s_require_tests = False,
      s_protect_sensitive_files = True, s_default_test_commands = []\<rparr>"

record project_record =
  p_id :: rstr
  p_name :: rstr
  p_root_path :: fpath
  p_created_at :: int
  p_updated_at :: int
  p_git_root :: "fpath option"
  p_default_branch :: "rstr option"
  p_settings :: project_settings

datatype task_status =
    Created | PreparingWorkspace | WorkspaceReady | AgentQueued | AgentRunning | AgentInterrupted | AgentFailed
  | ChangesDetected | SummaryReady | ReviewPending | Reviewing | ReviewBlocked | ReviewPassed | ReviewFailed
  | TestingPending | TestingRunning | TestingPassed | TestingFailed | MergeQueued | MergeReady | Merging | Merged
  | RollbackAvailable | RollingBack | RollbackFailed | WorkspaceConflict | MergeConflicted | EnvironmentBroken
  | Superseded | Abandoned | Archived

definition is_terminal :: "task_status \<Rightarrow> bool" where
  "is_terminal s = (s \<in> {Merged, Superseded, Abandoned, Archived})"

record task_record =
  t_id :: rstr
  t_project_id :: rstr
  t_title :: rstr
  t_status :: task_status
  t_original_root :: fpath
  t_workspace_root :: fpath
  t_created_at :: int
  t_updated_at :: int
  t_completed_at :: "int option"
  t_manifest_path :: fpath
  t_summary_path :: fpath

datatype changed_file_status = Added | Modified | Deleted

record changed_file =
  c_path :: rstr
  c_status :: changed_file_status
  c_before_hash :: "rstr option"
  c_after_ai_hash :: "rstr option"
  c_after_merge_hash :: "rstr option"
  c_merged_hunks :: "nat list option"
  c_accepted :: bool
  c_merge_status :: rstr

section \<open>Selections and outcomes\<close>

record hunk_selection =
  h_path :: rstr
  h_hunk_index :: nat

record line_selection =
  l_path :: rstr
  l_line :: nat

datatype merge_selection =
    MergeAll | MergeFiles "rstr list" | MergeHunks "hunk_selection list" | MergeLines "line_selection list"

datatype rollback_selection = RollbackAll | RollbackFiles "rstr list" | RollbackHunks "hunk_selection list"

record merge_outcome =
  mo_task_id :: rstr
  mo_accepted_paths :: "rstr list"
  mo_skipped_paths :: "rstr list"
  mo_changed_files :: "changed_file list"

record rollback_outcome =
  ro_task_id :: rstr
  ro_restored_paths :: "rstr list"
  ro_skipped_paths :: "rstr list"

section \<open>Environments\<close>

datatype environment_strategy = InheritProject | InheritTask | RebindAuto | ManualProfile

datatype shared_path_kind = VirtualEnv | NodeModules | Toolchain | Cache | Wrapper | OtherShared

record shared_path_mount =
  sp_kind :: shared_path_kind
  sp_source :: fpath
  sp_target_hint :: "fpath option"
  sp_read_only :: bool

record detected_tool =
  dt_ecosystem :: rstr
  dt_name :: rstr
  dt_executable :: fpath
  dt_version_hint :: "rstr option"

record environment_validation =
  v_is_valid :: bool
  v_checked_at :: int
  v_notes :: "rstr list"

record environment_binding =
  b_profile_id :: rstr
  b_project_id :: rstr
  b_workspace_root :: fpath
  b_environment_root :: fpath
  b_strategy :: environment_strategy
  b_fingerprint :: rstr
  b_detected_at :: int
  b_env_vars :: "(rstr \<times> rstr) list"
  b_path_entries :: "fpath list"
  b_shared_paths :: "shared_path_mount list"
  b_detected_tools :: "detected_tool list"
  b_validation :: environment_validation

record task_manifest =
  m_task_id :: rstr
  m_project_id :: rstr
  m_original_root :: fpath
  m_workspace_root :: fpath
  m_created_at :: int
  m_updated_at :: int
  m_status :: task_status
  m_base_revision :: "rstr option"
  m_environment_binding :: "environment_binding option"
  m_changed_files :: "changed_file list"

section \<open>Diffs and reviews\<close>

record diff_stats =
  ds_changed_files :: nat
  ds_added_files :: nat
  ds_modified_files :: nat
  ds_deleted_files :: nat

record diff_hunk =
  dh_header :: rstr
  dh_before_start :: nat
  dh_before_lines :: nat
  dh_after_start :: nat
  dh_after_lines :: nat
  dh_preview :: "rstr list"

record file_diff =
  fd_path :: rstr
  fd_status :: changed_file_status
  fd_is_binary :: bool
  fd_is_lockfile :: bool
  fd_hunks :: "diff_hunk list"

record risk_marker =
  rm_kind :: rstr
  rm_path :: "rstr option"
  rm_message :: rstr

record diff_bundle =
  db_files :: "file_diff list"
  db_stats :: diff_stats
  db_risk_markers :: "risk_marker list"

datatype review_severity = Info | Warning | High

datatype review_disposition = Informational | NeedsUserApproval | Blocked

record review_issue =
  ri_severity :: review_severity
  ri_path :: "rstr option"
  ri_message :: rstr

record review_report =
  rr_disposition :: review_disposition
  rr_issues :: "review_issue list"
  rr_summary :: rstr

record merge_policy =
  mp_require_user_approval :: bool
  mp_require_clean_review :: bool
  mp_require_test_pass :: bool
  mp_blocked_file_patterns :: "rstr list"
  mp_sensitive_file_patterns :: "rstr list"
  mp_max_auto_merge_files :: nat
  mp_allow_lockfile_merge_without_reason :: bool
  mp_allow_binary_merge :: bool

definition default_merge_policy :: merge_policy where
  "default_merge_policy =
     \<lparr>mp_require_user_approval = True, mp_require_clean_review = True, mp_require_test_pass = False,
      mp_blocked_file_patterns = [],
      mp_sensitive_file_patterns = [lit ''.env'', lit ''.env.local'', lit ''.env.production''],
      mp_max_auto_merge_files = 25, mp_allow_lockfile_merge_without_reason = False, mp_allow_binary_merge = False\<rparr>"

section \<open>Commands, memory, conversations\<close>

datatype command_execution_kind = Generic | TestKind

datatype command_run_status = Running | Succeeded | Failed

record command_run_record =
  cr_id :: rstr
  cr_task_id :: rstr
  cr_kind :: command_execution_kind
  cr_title :: "rstr option"
  cr_command :: rstr
  cr_cwd :: fpath
  cr_environment_profile :: "rstr option"
  cr_environment_fingerprint :: "rstr option"
  cr_retry_of :: "rstr option"
  cr_started_at :: int
  cr_completed_at :: "int option"
  cr_status :: command_run_status
  cr_exit_code :: "int option"
  cr_stdout_path :: fpath
  cr_stderr_path :: fpath
  cr_stdout_bytes :: nat
  cr_stderr_bytes :: nat
  cr_diagnosis :: "rstr option"
  cr_failure_summary :: "rstr option"
  cr_next_step :: "rstr option"

record test_outcome =
  to_command_run_id :: rstr
  to_command :: rstr
  to_environment :: rstr
  to_status :: rstr
  to_exit_code :: "int option"
  to_stdout_path :: fpath
  to_stderr_path :: fpath

record candidate_memory =
  cm_kind :: rstr
  cm_title :: rstr
  cm_detail :: rstr
  cm_evidence_paths :: "rstr list"

record structured_task_summary =
  ss_task_id :: rstr
  ss_user_goal :: rstr
  ss_ai_result :: rstr
  ss_files_changed :: "rstr list"
  ss_decisions :: "rstr list"
  ss_tests :: "rstr list"
  ss_risks :: "rstr list"
  ss_blockers :: "rstr list"
  ss_recovery_hints :: "rstr list"
  ss_candidate_memory :: "candidate_memory list"

datatype candidate_memory_status = CandidatePending | CandidateSame | CompatibleUpdate | CandidateConflict

record candidate_memory_record =
  cmr_id :: rstr
  cmr_candidate :: candidate_memory
  cmr_status :: candidate_memory_status

record project_memory_record =
  pm_id :: rstr
  pm_kind :: rstr
  pm_title :: rstr
  pm_detail :: rstr
  pm_evidence_paths :: "rstr list"
  pm_updated_at :: int

record memory_apply_outcome =
  ma_applied :: "rstr list"
  ma_skipped :: "rstr list"
  ma_conflicts :: "rstr list"

record conversation_binding =
  cb_project_id :: rstr
  cb_conversation_id :: rstr
  cb_active_task_id :: "rstr option"
  cb_created_at :: int
  cb_updated_at :: int

datatype task_reuse_policy = ReuseActive | ForceNew | ForkFromTask rstr

record resolve_task_request =
  rq_project_id :: rstr
  rq_title :: rstr
  rq_conversation_id :: "rstr option"
  rq_reuse_policy :: task_reuse_policy

record resolve_task_response =
  rs_task :: task_record
  rs_manifest :: task_manifest
  rs_reused_existing :: bool
  rs_conversation_binding :: "conversation_binding option"

record traceback_entry =
  tb_path :: rstr
  tb_original_hash :: "rstr option"
  tb_workspace_hash :: "rstr option"
  tb_revision :: nat
  tb_created_at :: int
  tb_updated_at :: int

datatype traceback_restore_target = RestoreProject | RestoreWorkspace

record traceback_restore_outcome =
  tr_path :: rstr
  tr_target :: traceback_restore_target
  tr_revision :: nat

section \<open>The time line\<close>

datatype timeline_event_kind =
    WorkspaceCreated | AgentStarted | AgentCompleted | AgentPlan | AgentNote | FileRead | FileEditStarted
  | FileEditCompleted | DiffGenerated | DiffUpdated | CommandStarted | CommandOutput | CommandCompleted
  | ReviewCompleted | TestStarted | TestCompleted | MergeStarted | MergeCompleted | RollbackCompleted
  | ErrorEvent | SummaryGenerated

text \<open>The payloads that the engine builds, one constructor per literal of the source.\<close>

datatype event_payload =
    WorkspacePayload workspace_strategy "rstr option"
  | FileEditPayload rstr changed_file_status "rstr option" "rstr option" nat
  | DiffPayload "changed_file list" diff_stats
  | MergeStartedPayload merge_selection
  | MergeCompletedPayload "rstr list" "rstr list"
  | RollbackPayload "rstr list" "rstr list"
  | TracebackPayload rstr traceback_restore_target nat
  | ReviewPayload review_report
  | SummaryPayload fpath fpath
  | NotePayload rstr "rstr option" "rstr option"
  | DiagnosisPayload rstr "rstr option" "rstr option"
  | MessagePayload rstr
  | PathPayload rstr
  | TestStartedPayload rstr
  | TestCompletedPayload test_outcome

record timeline_event =
  e_id :: rstr
  e_task_id :: rstr
  e_seq :: nat
  e_kind :: timeline_event_kind
  e_created_at :: int
  e_payload :: event_payload

record task_activity_feed =
  af_task_id :: rstr
  af_latest_seq :: nat
  af_events :: "timeline_event list"

section \<open>Artifacts\<close>

datatype artifact =
    ManifestJson task_manifest
  | TaskJson task_record
  | ProjectJson project_record
  | BindingJson conversation_binding
  | IndexJson "(rstr \<times> traceback_entry) list"
  | TimelineJson "timeline_event list"
  | CommandJson command_run_record
  | TestJson test_outcome
  | ReviewJson review_report
  | SummaryJson structured_task_summary
  | CandidatesJson "candidate_memory_record list"
  | MemoryJson "(rstr \<times> project_memory_record) list"

type_synonym task_disk = "artifact disk"
type_synonym 'a task_action = "(artifact, 'a) action"

text \<open>What a run of \<open>git\<close> leaves: its status and its two streams.\<close>

record git_output =
  g_success :: bool
  g_stdout :: "artifact contents"
  g_stderr :: "artifact contents"

record services =
  sha256 :: "artifact contents \<Rightarrow> rstr"
  lossy_text :: "artifact contents \<Rightarrow> rstr"
  now :: "task_disk \<Rightarrow> int"
  new_uuid :: "task_disk \<Rightarrow> rstr"
  nth_uuid :: "task_disk \<Rightarrow> nat \<Rightarrow> rstr"
  git_query :: "rstr list \<Rightarrow> fpath \<Rightarrow> task_disk \<Rightarrow> git_output option"
  git_run :: "rstr list \<Rightarrow> fpath option \<Rightarrow> fpath \<Rightarrow> task_disk \<Rightarrow> task_disk \<times> bool option"
  minute_stamp :: "int \<Rightarrow> rstr"

text \<open>\<open>read_to_string\<close> fails on bytes that are no UTF-8.\<close>

definition read_to_string :: "services \<Rightarrow> fpath \<Rightarrow> task_disk \<Rightarrow> (core_error, rstr) result" where
  "read_to_string sv p d =
     rbind (fs_read p d) (\<lambda>c. case c of Utf8 t \<Rightarrow> Inr t | Binary _ \<Rightarrow> Inl IoError | Json _ \<Rightarrow> Inr (lossy_text sv c))"

section \<open>Reading and writing artifacts\<close>

text \<open>\<open>serde_json::from_slice\<close> of a file, by the artifact expected there.\<close>

definition read_json :: "(artifact \<Rightarrow> 'a option) \<Rightarrow> fpath \<Rightarrow> task_disk \<Rightarrow> (core_error, 'a) result" where
  "read_json pick p d =
     rbind (fs_read p d) (\<lambda>c. case c of
       Json j \<Rightarrow> (case pick j of Some v \<Rightarrow> Inr v | None \<Rightarrow> Inl JsonError)
     | _ \<Rightarrow> Inl JsonError)"

fun as_manifest :: "artifact \<Rightarrow> task_manifest option" where
  "as_manifest (ManifestJson m) = Some m" | "as_manifest _ = None"

fun as_task :: "artifact \<Rightarrow> task_record option" where
  "as_task (TaskJson t) = Some t" | "as_task _ = None"

fun as_project :: "artifact \<Rightarrow> project_record option" where
  "as_project (ProjectJson p) = Some p" | "as_project _ = None"

fun as_binding :: "artifact \<Rightarrow> conversation_binding option" where
  "as_binding (BindingJson b) = Some b" | "as_binding _ = None"

fun as_index :: "artifact \<Rightarrow> (rstr \<times> traceback_entry) list option" where
  "as_index (IndexJson i) = Some i" | "as_index _ = None"

fun as_timeline :: "artifact \<Rightarrow> timeline_event list option" where
  "as_timeline (TimelineJson es) = Some es" | "as_timeline _ = None"

definition manifest_write_to_path :: "task_manifest \<Rightarrow> fpath \<Rightarrow> unit task_action" where
  "manifest_write_to_path m p =
     and_then (create_dir_all (butlast p)) (\<lambda>_. fs_write p (Json (ManifestJson m)))"

definition manifest_read_from_path :: "fpath \<Rightarrow> task_disk \<Rightarrow> (core_error, task_manifest) result" where
  "manifest_read_from_path = read_json as_manifest"

section \<open>The diff of a workspace\<close>

definition workspace_diff :: "services \<Rightarrow> fpath \<Rightarrow> task_disk \<Rightarrow> (core_error, rstr) result" where
  "workspace_diff sv workspace d =
     (case git_query sv [lit ''diff'', lit ''--binary'', lit ''HEAD''] workspace d of
        None \<Rightarrow> Inl IoError
      | Some out \<Rightarrow> if g_success out then Inr (lossy_text sv (g_stdout out)) else Inl (GitError (lossy_text sv (g_stderr out))))"

end
