(* ===== verification/Task_Diff.thy ===== *)
theory Task_Diff
  imports Task_Model
begin

text \<open>
  Diffs of an isolated task (\<open>codex-new-core/src/diff.rs\<close>): reading the output of \<open>git diff\<close>, the bundle shown to the
  user, and merging the hunks that the user has selected.
\<close>

section \<open>Numbers and words\<close>

definition split_whitespace :: "rstr \<Rightarrow> rstr list" where
  "split_whitespace s = filter (\<lambda>w. w \<noteq> []) (split_on 32 (map (\<lambda>c. if is_whitespace c then 32 else c) s))"

fun digits_value :: "nat \<Rightarrow> rstr \<Rightarrow> nat" where
  "digits_value acc [] = acc"
| "digits_value acc (c # cs) = digits_value (10 * acc + (c - 48)) cs"

text \<open>\<open>str::parse::<usize>\<close>: decimal digits, after one plus sign at most, without overflow.\<close>

definition parse_usize :: "rstr \<Rightarrow> nat option" where
  "parse_usize s =
     (let ds = (case s of c # cs \<Rightarrow> if c = 43 \<and> cs \<noteq> [] then cs else s | [] \<Rightarrow> s)
      in if ds = [] \<or> \<not> list_all is_ascii_digit ds \<or> digits_value 0 ds > usize_max then None
         else Some (digits_value 0 ds))"

section \<open>Parsing a unified diff\<close>

record parsed_hunk =
  ph_header :: rstr
  ph_old_start :: nat
  ph_old_lines :: nat
  ph_new_start :: nat
  ph_new_lines :: nat
  ph_preview :: "rstr list"
  ph_removals :: "rstr list"
  ph_additions :: "rstr list"

record parsed_file_diff =
  pf_is_binary :: bool
  pf_hunks :: "parsed_hunk list"

definition parse_range :: "rstr \<Rightarrow> (nat \<times> nat) option" where
  "parse_range v =
     (let (start, count) = (case split_once 44 v of Some sc \<Rightarrow> sc | None \<Rightarrow> (v, lit ''1''))
      in Option.bind (parse_usize start) (\<lambda>s. Option.bind (parse_usize count) (\<lambda>c. Some (s, c))))"

definition parse_hunk_header :: "rstr \<Rightarrow> parsed_hunk option" where
  "parse_hunk_header line =
     Option.bind (strip_prefix (lit ''@@ '') line) (\<lambda>rest.
       let marker = (case str_split_once (lit '' @@'') rest of Some (m, _) \<Rightarrow> m | None \<Rightarrow> rest)
       in case split_whitespace marker of
            old # new # _ \<Rightarrow>
              Option.bind (strip_prefix [45] old) (\<lambda>o'. Option.bind (parse_range o') (\<lambda>(old_start, old_lines).
              Option.bind (strip_prefix [43] new) (\<lambda>n'. Option.bind (parse_range n') (\<lambda>(new_start, new_lines).
                Some \<lparr>ph_header = line, ph_old_start = old_start, ph_old_lines = old_lines,
                      ph_new_start = new_start, ph_new_lines = new_lines, ph_preview = [line],
                      ph_removals = [], ph_additions = []\<rparr>))))
          | _ \<Rightarrow> None)"

definition parse_diff_git_path :: "rstr \<Rightarrow> rstr option" where
  "parse_diff_git_path line =
     Option.bind (strip_prefix (lit ''diff --git '') line) (\<lambda>rest.
       case split_whitespace rest of
         a # b # _ \<Rightarrow>
           Option.bind (strip_prefix (lit ''a/'') a) (\<lambda>a_path.
           Option.bind (strip_prefix (lit ''b/'') b) (\<lambda>b_path.
             Some (if a_path = lit ''/dev/null'' then b_path else a_path)))
       | _ \<Rightarrow> None)"

record diff_parser =
  dp_files :: "rstr \<rightharpoonup> parsed_file_diff"
  dp_current_path :: "rstr option"
  dp_current :: parsed_file_diff
  dp_current_hunk :: "parsed_hunk option"

definition no_file_diff :: parsed_file_diff where
  "no_file_diff = \<lparr>pf_is_binary = False, pf_hunks = []\<rparr>"

definition diff_parser_start :: diff_parser where
  "diff_parser_start =
     \<lparr>dp_files = Map.empty, dp_current_path = None, dp_current = no_file_diff, dp_current_hunk = None\<rparr>"

definition close_hunk :: "parsed_hunk \<Rightarrow> parsed_file_diff \<Rightarrow> parsed_file_diff" where
  "close_hunk h f = f\<lparr>pf_hunks := pf_hunks f @ [h]\<rparr>"

text \<open>A line of a hunk; a line that holds only its sign is dropped.\<close>

definition hunk_line :: "rstr \<Rightarrow> parsed_hunk \<Rightarrow> parsed_hunk" where
  "hunk_line line h =
     (if length line > 1 \<and> hd line = 45 then
        h\<lparr>ph_removals := ph_removals h @ [tl line], ph_preview := ph_preview h @ [45 # line]\<rparr>
      else if length line > 1 \<and> hd line = 43 then
        h\<lparr>ph_additions := ph_additions h @ [tl line], ph_preview := ph_preview h @ [43 # line]\<rparr>
      else if length line > 1 \<and> hd line = 32 then h\<lparr>ph_preview := ph_preview h @ [32 # line]\<rparr>
      else h)"

definition diff_line :: "diff_parser \<Rightarrow> rstr \<Rightarrow> diff_parser" where
  "diff_line s line =
     (if starts_with line (lit ''diff --git '') then
        (let files = (case (dp_current_path s, dp_current_hunk s) of
                        (Some path, Some hunk) \<Rightarrow> (dp_files s)(path \<mapsto> close_hunk hunk (dp_current s))
                      | _ \<Rightarrow> dp_files s)
         in \<lparr>dp_files = files, dp_current_path = parse_diff_git_path line, dp_current = no_file_diff,
             dp_current_hunk = None\<rparr>)
      else if starts_with line (lit ''Binary files '') then s\<lparr>dp_current := (dp_current s)\<lparr>pf_is_binary := True\<rparr>\<rparr>
      else if starts_with line (lit ''@@ '') then
        s\<lparr>dp_current := (case dp_current_hunk s of Some h \<Rightarrow> close_hunk h (dp_current s) | None \<Rightarrow> dp_current s),
          dp_current_hunk := parse_hunk_header line\<rparr>
      else s\<lparr>dp_current_hunk := map_option (hunk_line line) (dp_current_hunk s)\<rparr>)"

definition diff_finish :: "diff_parser \<Rightarrow> (rstr \<rightharpoonup> parsed_file_diff)" where
  "diff_finish s =
     (case dp_current_path s of
        Some path \<Rightarrow>
          (dp_files s)(path \<mapsto> (case dp_current_hunk s of Some h \<Rightarrow> close_hunk h (dp_current s) | None \<Rightarrow> dp_current s))
      | None \<Rightarrow> dp_files s)"

definition parse_unified_diff :: "rstr \<Rightarrow> (rstr \<rightharpoonup> parsed_file_diff)" where
  "parse_unified_diff diff =
     (if trim diff = [] then Map.empty
      else diff_finish (foldl diff_line diff_parser_start (str_lines diff)))"

section \<open>Merging selected hunks\<close>

text \<open>
  \<open>Vec::splice\<close> over a range panics when the range is not one of the vector. The end of the range is a sum of
  \<open>usize\<close>; when it overflows, the range that is left starts behind its end, which panics as well.
\<close>

definition splice_hunk :: "parsed_hunk \<Rightarrow> rstr list \<Rightarrow> rstr list option" where
  "splice_hunk h lines =
     (let start_idx = ph_old_start h - 1;
          end_idx = min ((start_idx + ph_old_lines h) mod 2 ^ 64) (length lines)
      in if start_idx \<le> end_idx then Some (take start_idx lines @ ph_additions h @ drop end_idx lines) else None)"

fun splice_hunks :: "parsed_hunk list \<Rightarrow> rstr list \<Rightarrow> rstr list option" where
  "splice_hunks [] lines = Some lines"
| "splice_hunks (h # hs) lines = Option.bind (splice_hunk h lines) (splice_hunks hs)"

definition selected_hunks :: "parsed_hunk list \<Rightarrow> nat set \<Rightarrow> parsed_hunk list" where
  "selected_hunks hunks selected =
     sort_key ph_old_start (map snd (filter (\<lambda>(i, _). i \<in> selected) (List.enumerate 0 hunks)))"

definition apply_parsed_hunks :: "rstr list \<Rightarrow> parsed_hunk list \<Rightarrow> nat set \<Rightarrow> (core_error, rstr list) result" where
  "apply_parsed_hunks original hunks selected =
     (case splice_hunks (selected_hunks hunks selected) original of Some ls \<Rightarrow> Inr ls | None \<Rightarrow> Inl HunkPanic)"

definition read_file_lines :: "services \<Rightarrow> fpath \<Rightarrow> task_disk \<Rightarrow> (core_error, rstr list) result" where
  "read_file_lines sv p d =
     (if \<not> path_exists d p then Inr [] else rbind (read_to_string sv p d) (\<lambda>t. Inr (str_lines t)))"

definition write_file_lines :: "fpath \<Rightarrow> rstr list \<Rightarrow> unit task_action" where
  "write_file_lines p lines =
     and_then (create_dir_all (butlast p)) (\<lambda>_.
       let content = join [newline] lines
       in fs_write p (Utf8 (if content = [] then [] else content @ [newline])))"

definition git_dir :: "fpath \<Rightarrow> fpath" where
  "git_dir root = root @ [lit ''.git'']"

definition apply_selected_hunks ::
    "services \<Rightarrow> fpath \<Rightarrow> fpath \<Rightarrow> rstr \<Rightarrow> hunk_selection list \<Rightarrow> unit task_action" where
  "apply_selected_hunks sv original_root workspace_root path selections =
     (let selected_indices = set (map h_hunk_index (filter (\<lambda>s. h_path s = path) selections))
      in if selected_indices = {} then give ()
         else
           and_then (lift_result (checked_join original_root path)) (\<lambda>original_path.
           and_then (lift_result (checked_join workspace_root path)) (\<lambda>workspace_path.
           and_then (asking (\<lambda>d. path_exists d workspace_path)) (\<lambda>in_workspace.
             if \<not> in_workspace then remove_if_exists original_path
             else
               and_then (reading (\<lambda>d. if path_exists d (git_dir workspace_root) then workspace_diff sv workspace_root d
                                      else Inr [])) (\<lambda>unified.
                 case parse_unified_diff unified path of
                   Some parsed_file \<Rightarrow>
                     if pf_hunks parsed_file \<noteq> [] then
                       and_then (reading (read_file_lines sv original_path)) (\<lambda>original_lines.
                       and_then (lift_result (apply_parsed_hunks original_lines (pf_hunks parsed_file) selected_indices))
                         (write_file_lines original_path))
                     else copy_file_or_remove workspace_root original_root path
                 | None \<Rightarrow> copy_file_or_remove workspace_root original_root path)))))"

text \<open>
  A hunk that changes the middle one of three lines: the lines around it are context, which the parser does not keep,
  and merging the hunk replaces all three by the added one.
\<close>

definition sample_hunk :: parsed_hunk where
  "sample_hunk =
     fold hunk_line [lit '' a'', lit ''-b'', lit ''+x'', lit '' c'']
       \<lparr>ph_header = [], ph_old_start = 1, ph_old_lines = 3, ph_new_start = 1, ph_new_lines = 3, ph_preview = [],
        ph_removals = [], ph_additions = []\<rparr>"

lemma merged_hunk_drops_context:
  "apply_parsed_hunks [lit ''a'', lit ''b'', lit ''c''] [sample_hunk] {0} = Inr [lit ''x'']"
  by (simp add: apply_parsed_hunks_def selected_hunks_def splice_hunk_def sample_hunk_def hunk_line_def)

section \<open>The bundle shown to the user\<close>

definition is_lockfile :: "rstr \<Rightarrow> bool" where
  "is_lockfile path =
     (path \<in> set [lit ''package-lock.json'', lit ''pnpm-lock.yaml'', lit ''yarn.lock'', lit ''bun.lockb'',
                  lit ''Cargo.lock'', lit ''poetry.lock'', lit ''uv.lock'', lit ''Pipfile.lock''])"

definition max_side_lines :: nat where "max_side_lines = 80"

definition build_preview_lines :: "rstr list \<Rightarrow> rstr list \<Rightarrow> rstr list" where
  "build_preview_lines before after =
     map (\<lambda>l. lit ''- '' @ l) (take max_side_lines before) @ map (\<lambda>l. lit ''+ '' @ l) (take max_side_lines after) @
     (if length before > max_side_lines \<or> length after > max_side_lines
      then [lit ''... preview truncated; open the file in the isolated workspace for the full content.'']
      else [])"

definition read_preview :: "services \<Rightarrow> fpath \<Rightarrow> rstr \<Rightarrow> task_disk \<Rightarrow> (core_error, rstr list) result" where
  "read_preview sv root path d =
     rbind (checked_join root path) (\<lambda>absolute.
       if \<not> path_is_file d absolute then Inr []
       else rbind (fs_read absolute d) (\<lambda>c. Inr (take 400 (str_lines (lossy_text sv c)))))"

definition load_unified_diff :: "services \<Rightarrow> task_manifest \<Rightarrow> task_disk \<Rightarrow> rstr" where
  "load_unified_diff sv m d =
     (if path_exists d (git_dir (m_workspace_root m)) then
        (case workspace_diff sv (m_workspace_root m) d of Inr diff \<Rightarrow> diff | Inl _ \<Rightarrow> [])
      else [])"

fun status_debug :: "changed_file_status \<Rightarrow> rstr" where
  "status_debug Added = lit ''Added''"
| "status_debug Modified = lit ''Modified''"
| "status_debug Deleted = lit ''Deleted''"

definition hunk_of_parsed :: "parsed_hunk \<Rightarrow> diff_hunk" where
  "hunk_of_parsed h =
     \<lparr>dh_header = ph_header h, dh_before_start = ph_old_start h, dh_before_lines = ph_old_lines h,
      dh_after_start = ph_new_start h, dh_after_lines = ph_new_lines h, dh_preview = ph_preview h\<rparr>"

definition file_diff_of ::
    "services \<Rightarrow> task_manifest \<Rightarrow> (rstr \<rightharpoonup> parsed_file_diff) \<Rightarrow> task_disk \<Rightarrow> changed_file
       \<Rightarrow> (core_error, file_diff) result" where
  "file_diff_of sv m parsed d changed =
     (let path = c_path changed; parsed_file = parsed path
      in rbind
           (case parsed_file of
              Some f \<Rightarrow> Inr (map hunk_of_parsed (pf_hunks f))
            | None \<Rightarrow>
                rbind (read_preview sv (m_original_root m) path d) (\<lambda>before.
                rbind (read_preview sv (m_workspace_root m) path d) (\<lambda>after.
                  Inr [\<lparr>dh_header = status_debug (c_status changed) @ lit '' '' @ path, dh_before_start = 1,
                        dh_before_lines = length before, dh_after_start = 1, dh_after_lines = length after,
                        dh_preview = build_preview_lines before after\<rparr>])))
           (\<lambda>hunks. Inr \<lparr>fd_path = path, fd_status = c_status changed,
              fd_is_binary = (case parsed_file of Some f \<Rightarrow> pf_is_binary f | None \<Rightarrow> False),
              fd_is_lockfile = is_lockfile path, fd_hunks = hunks\<rparr>))"

fun map_result :: "('x \<Rightarrow> ('e, 'y) result) \<Rightarrow> 'x list \<Rightarrow> ('e, 'y list) result" where
  "map_result f [] = Inr []"
| "map_result f (x # xs) = rbind (f x) (\<lambda>y. rbind (map_result f xs) (\<lambda>ys. Inr (y # ys)))"

definition count_status :: "changed_file_status \<Rightarrow> changed_file list \<Rightarrow> nat" where
  "count_status s cs = length (filter (\<lambda>c. c_status c = s) cs)"

definition diff_stats_of :: "changed_file list \<Rightarrow> diff_stats" where
  "diff_stats_of cs =
     \<lparr>ds_changed_files = length cs, ds_added_files = count_status Added cs,
      ds_modified_files = count_status Modified cs, ds_deleted_files = count_status Deleted cs\<rparr>"

definition lockfile_marker :: "rstr \<Rightarrow> risk_marker" where
  "lockfile_marker path =
     \<lparr>rm_kind = lit ''lockfile'', rm_path = Some path, rm_message = lit ''Dependency lockfile changed.''\<rparr>"

definition build_diff_bundle :: "services \<Rightarrow> task_manifest \<Rightarrow> task_disk \<Rightarrow> (core_error, diff_bundle) result" where
  "build_diff_bundle sv m d =
     (let parsed = parse_unified_diff (load_unified_diff sv m d); changes = m_changed_files m
      in rbind (map_result (file_diff_of sv m parsed d) changes) (\<lambda>files.
           Inr \<lparr>db_files = files, db_stats = (diff_stats_of changes)\<lparr>ds_changed_files := length files\<rparr>,
                db_risk_markers = map lockfile_marker (filter is_lockfile (map c_path changes))\<rparr>))"

text \<open>A map keyed by path from a list of changes: the last change of a path counts.\<close>

definition changes_by_path :: "changed_file list \<Rightarrow> (rstr \<rightharpoonup> changed_file)" where
  "changes_by_path cs = map_of (rev (map (\<lambda>c. (c_path c, c)) cs))"

definition detect_changed_file_events :: "changed_file list \<Rightarrow> changed_file list \<Rightarrow> changed_file list" where
  "detect_changed_file_events previous current =
     filter (\<lambda>c. case changes_by_path previous (c_path c) of
               Some p \<Rightarrow> c_after_ai_hash p \<noteq> c_after_ai_hash c \<or> c_status p \<noteq> c_status c
             | None \<Rightarrow> True) current"

end
