(* ===== verification/Task_Engine.thy ===== *)
theory Task_Engine
  imports Task_Diff
begin

text \<open>
  Detecting, merging and rolling back the changes of an isolated task (\<open>codex-new-core/src/engine.rs\<close>, with the time line of
  \<open>activity.rs\<close>, the task records of \<open>sessions.rs\<close> and the snapshots of \<open>traceback.rs\<close>). The engine only knows the root
  of its own state; everything else is read from the disk and written back.
\<close>

section \<open>Places\<close>

definition project_root :: "fpath \<Rightarrow> rstr \<Rightarrow> fpath" where
  "project_root state_root project_id = state_root @ [lit ''projects'', project_id]"

definition task_root :: "fpath \<Rightarrow> rstr \<Rightarrow> rstr \<Rightarrow> fpath" where
  "task_root state_root project_id task_id = project_root state_root project_id @ [lit ''tasks'', task_id]"

definition workspaces_root :: "fpath \<Rightarrow> fpath" where
  "workspaces_root state_root = state_root @ [lit ''workspaces'']"

definition manifest_file :: "fpath \<Rightarrow> rstr \<Rightarrow> rstr \<Rightarrow> fpath" where
  "manifest_file state_root project_id task_id = task_root state_root project_id task_id @ [lit ''manifest.json'']"

definition task_record_path :: "fpath \<Rightarrow> rstr \<Rightarrow> fpath" where
  "task_record_path root task_id = root @ [lit ''tasks'', task_id, lit ''task.json'']"

section \<open>The time line\<close>

definition timeline_path :: "fpath \<Rightarrow> fpath" where
  "timeline_path root = root @ [lit ''timeline.jsonl'']"

text \<open>
  The events so far; each is one line of the file, so that their number is the next sequence number. A time
  line that the engine has not written itself is an error of the model.
\<close>

definition read_timeline :: "fpath \<Rightarrow> task_disk \<Rightarrow> (core_error, timeline_event list) result" where
  "read_timeline p d =
     (case lookup d p of
        None \<Rightarrow> Inr []
      | Some (File (Json (TimelineJson es))) \<Rightarrow> Inr es
      | _ \<Rightarrow> Inl IoError)"

definition append_timeline_event ::
    "services \<Rightarrow> fpath \<Rightarrow> rstr \<Rightarrow> timeline_event_kind \<Rightarrow> event_payload \<Rightarrow> timeline_event task_action" where
  "append_timeline_event sv root task_id kind payload =
     and_then (create_dir_all root) (\<lambda>_.
     and_then (reading (read_timeline (timeline_path root))) (\<lambda>es.
     and_then (asking (\<lambda>d. \<lparr>e_id = new_uuid sv d, e_task_id = task_id, e_seq = length es, e_kind = kind,
                            e_created_at = now sv d, e_payload = payload\<rparr>)) (\<lambda>event.
     and_then (fs_write (timeline_path root) (Json (TimelineJson (es @ [event])))) (\<lambda>_. give event))))"

definition read_timeline_events ::
    "fpath \<Rightarrow> rstr \<Rightarrow> nat option \<Rightarrow> nat \<Rightarrow> task_disk \<Rightarrow> (core_error, task_activity_feed) result" where
  "read_timeline_events root task_id after_seq limit d =
     rbind (read_timeline (timeline_path root) d) (\<lambda>es.
       let latest = (case last_opt es of Some e \<Rightarrow> e_seq e | None \<Rightarrow> 0);
           shown = (case after_seq of
                      Some n \<Rightarrow> (let later = filter (\<lambda>e. n < e_seq e) es
                                in if 0 < limit \<and> limit < length later then take limit later else later)
                    | None \<Rightarrow> if 0 < limit \<and> limit < length es then drop (length es - limit) es else es)
       in Inr \<lparr>af_task_id = task_id, af_latest_seq = latest, af_events = shown\<rparr>)"

abbreviation append_timeline ::
    "services \<Rightarrow> fpath \<Rightarrow> rstr \<Rightarrow> rstr \<Rightarrow> timeline_event_kind \<Rightarrow> event_payload \<Rightarrow> timeline_event task_action" where
  "append_timeline sv state_root project_id task_id kind payload \<equiv>
     append_timeline_event sv (task_root state_root project_id task_id) task_id kind payload"

section \<open>Task records\<close>

definition read_task_record :: "fpath \<Rightarrow> rstr \<Rightarrow> task_disk \<Rightarrow> (core_error, task_record option) result" where
  "read_task_record root task_id d =
     (let path = task_record_path root task_id
      in if \<not> path_exists d path then Inr None else rbind (read_json as_task path d) (\<lambda>t. Inr (Some t)))"

definition write_task_record :: "fpath \<Rightarrow> task_record \<Rightarrow> unit task_action" where
  "write_task_record root task =
     (let path = task_record_path root (t_id task)
      in and_then (create_dir_all (butlast path)) (\<lambda>_. fs_write path (Json (TaskJson task))))"

definition write_task_status :: "services \<Rightarrow> fpath \<Rightarrow> rstr \<Rightarrow> rstr \<Rightarrow> task_status \<Rightarrow> unit task_action" where
  "write_task_status sv state_root project_id task_id status =
     (let root = project_root state_root project_id
      in and_then (reading (read_task_record root task_id)) (\<lambda>r.
           case r of
             None \<Rightarrow> give ()
           | Some task \<Rightarrow>
               and_then (asking (now sv)) (\<lambda>t.
                 write_task_record root
                   (task\<lparr>t_status := status, t_updated_at := t,
                         t_completed_at := (if is_terminal status then Some t else t_completed_at task)\<rparr>))))"

section \<open>Snapshots of every edit\<close>

definition traceback_root :: "fpath \<Rightarrow> fpath" where
  "traceback_root root = root @ [lit ''snapshots'', lit ''traceback'']"

definition traceback_original :: "fpath \<Rightarrow> fpath" where
  "traceback_original root = traceback_root root @ [lit ''original'']"

definition traceback_workspace :: "fpath \<Rightarrow> fpath" where
  "traceback_workspace root = traceback_root root @ [lit ''workspace'']"

definition ensure_traceback_dirs :: "fpath \<Rightarrow> unit task_action" where
  "ensure_traceback_dirs root =
     and_then (create_dir_all (traceback_original root)) (\<lambda>_. create_dir_all (traceback_workspace root))"

definition index_path :: "fpath \<Rightarrow> fpath" where
  "index_path root = root @ [lit ''index.json'']"

definition read_index :: "fpath \<Rightarrow> task_disk \<Rightarrow> (core_error, (rstr \<times> traceback_entry) list) result" where
  "read_index root d =
     (if \<not> path_exists d (index_path root) then Inr [] else read_json as_index (index_path root) d)"

definition write_index :: "fpath \<Rightarrow> (rstr \<times> traceback_entry) list \<Rightarrow> unit task_action" where
  "write_index root index =
     and_then (create_dir_all root) (\<lambda>_. fs_write (index_path root) (Json (IndexJson index)))"

text \<open>The hash that stands in for one that is not known; every failure gives none.\<close>

definition hash_or_none :: "services \<Rightarrow> fpath \<Rightarrow> rstr \<Rightarrow> task_disk \<Rightarrow> rstr option" where
  "hash_or_none sv root path d =
     (case rbind (checked_join root path) (\<lambda>p. file_hash (sha256 sv) p d) of Inr h \<Rightarrow> h | Inl _ \<Rightarrow> None)"

definition some_or :: "'a option \<Rightarrow> 'a option \<Rightarrow> 'a option" where
  "some_or a b = (case a of Some x \<Rightarrow> Some x | None \<Rightarrow> b)"

definition record_original ::
    "services \<Rightarrow> task_manifest \<Rightarrow> fpath \<Rightarrow> changed_file \<Rightarrow> (rstr \<times> traceback_entry) list
       \<Rightarrow> traceback_entry task_action" where
  "record_original sv m root changed index =
     (case map_of index (c_path changed) of
        Some e \<Rightarrow> give e
      | None \<Rightarrow>
          and_then (snapshot_file (m_original_root m) (traceback_original root) (c_path changed)) (\<lambda>_.
          asking (\<lambda>d. \<lparr>tb_path = c_path changed,
            tb_original_hash = some_or (c_before_hash changed) (hash_or_none sv (m_original_root m) (c_path changed) d),
            tb_workspace_hash = None, tb_revision = 0, tb_created_at = now sv d, tb_updated_at = now sv d\<rparr>)))"

definition record_edit_traceback ::
    "services \<Rightarrow> task_manifest \<Rightarrow> fpath \<Rightarrow> changed_file \<Rightarrow> traceback_entry task_action" where
  "record_edit_traceback sv m root changed =
     and_then (ensure_traceback_dirs root) (\<lambda>_.
     and_then (reading (read_index (traceback_root root))) (\<lambda>index.
     and_then (asking (now sv)) (\<lambda>t.
     and_then (record_original sv m root changed index) (\<lambda>entry.
     and_then (snapshot_file (m_workspace_root m) (traceback_workspace root) (c_path changed)) (\<lambda>_.
     and_then (asking (\<lambda>d. entry\<lparr>
         tb_workspace_hash := some_or (c_after_ai_hash changed) (hash_or_none sv (m_workspace_root m) (c_path changed) d),
         tb_revision := min (2 ^ 64 - 1) (tb_revision entry + 1), tb_updated_at := t\<rparr>)) (\<lambda>saved.
     and_then (write_index (traceback_root root) (AList.update (c_path changed) saved index)) (\<lambda>_. give saved)))))))"

definition list_traceback_entries :: "fpath \<Rightarrow> task_disk \<Rightarrow> (core_error, traceback_entry list) result" where
  "list_traceback_entries root d =
     rbind (read_index (traceback_root root) d) (\<lambda>index. Inr (map snd (sort_key fst index)))"

definition restore_file ::
    "task_manifest \<Rightarrow> fpath \<Rightarrow> rstr \<Rightarrow> traceback_restore_target \<Rightarrow> traceback_restore_outcome task_action" where
  "restore_file m root path target =
     and_then (reading (read_index (traceback_root root))) (\<lambda>index.
       case map_of index path of
         None \<Rightarrow> fail_with (OtherError (lit ''no traceback entry for '' @ path))
       | Some e \<Rightarrow>
           and_then (case target of
               RestoreProject \<Rightarrow> restore_snapshot (traceback_original root) (m_original_root m) path
             | RestoreWorkspace \<Rightarrow> restore_snapshot (traceback_workspace root) (m_workspace_root m) path) (\<lambda>_.
           give \<lparr>tr_path = path, tr_target = target, tr_revision = tb_revision e\<rparr>))"

section \<open>Comparing the project with the workspace\<close>

definition index_name :: "fpath \<Rightarrow> rstr" where
  "index_name relative = replace_char backslash_char [slash] (join [slash] relative)"

fun hash_entries ::
    "services \<Rightarrow> fpath \<Rightarrow> task_disk \<Rightarrow> walk_item list \<Rightarrow> (rstr \<times> rstr option) list
       \<Rightarrow> (core_error, (rstr \<times> rstr option) list) result" where
  "hash_entries sv root d [] index = Inr index"
| "hash_entries sv root d (WalkError # items) index = Inl (OtherError (lit ''walk''))"
| "hash_entries sv root d (WalkEntry p # items) index =
     (if \<not> path_is_file d p \<or> lit ''.git'' \<in> set p then hash_entries sv root d items index
      else rbind (file_hash (sha256 sv) p d) (\<lambda>h.
             hash_entries sv root d items (AList.update (index_name (drop (length root) p)) h index)))"

definition hash_index :: "services \<Rightarrow> fpath \<Rightarrow> task_disk \<Rightarrow> (core_error, (rstr \<times> rstr option) list) result" where
  "hash_index sv root d = hash_entries sv root d (walk_dir d root) []"

definition index_hash :: "(rstr \<times> rstr option) list \<Rightarrow> rstr \<Rightarrow> rstr option" where
  "index_hash index path = (case map_of index path of Some h \<Rightarrow> h | None \<Rightarrow> None)"

definition changed_entry ::
    "(rstr \<times> rstr option) list \<Rightarrow> (rstr \<times> rstr option) list \<Rightarrow> (rstr \<rightharpoonup> changed_file) \<Rightarrow> rstr \<Rightarrow> changed_file option" where
  "changed_entry original workspace previous path =
     (let before = (case previous path of Some c \<Rightarrow> c_before_hash c | None \<Rightarrow> index_hash original path);
          after = index_hash workspace path;
          mk = (\<lambda>status. \<lparr>c_path = path, c_status = status, c_before_hash = before, c_after_ai_hash = after,
                  c_after_merge_hash = None, c_merged_hunks = None, c_accepted = False,
                  c_merge_status = lit ''pending''\<rparr>)
      in if before = after then None
         else case (before, after) of
                (None, Some _) \<Rightarrow> Some (mk Added)
              | (Some _, None) \<Rightarrow> Some (mk Deleted)
              | (Some _, Some _) \<Rightarrow> Some (mk Modified)
              | (None, None) \<Rightarrow> None)"

definition compare_roots ::
    "services \<Rightarrow> fpath \<Rightarrow> fpath \<Rightarrow> changed_file list \<Rightarrow> task_disk \<Rightarrow> (core_error, changed_file list) result" where
  "compare_roots sv original_root workspace_root previous d =
     rbind (hash_index sv original_root d) (\<lambda>original.
     rbind (hash_index sv workspace_root d) (\<lambda>workspace.
       Inr (List.map_filter (changed_entry original workspace (changes_by_path previous))
              (sort (remdups (map fst original @ map fst workspace))))))"

section \<open>Rendered diffs\<close>

definition hash_debug :: "rstr option \<Rightarrow> rstr" where
  "hash_debug h = (case h of None \<Rightarrow> lit ''None'' | Some v \<Rightarrow> lit ''Some('' @ [34] @ v @ [34] @ lit '')'')"

definition render_change :: "changed_file \<Rightarrow> rstr" where
  "render_change c =
     lit ''diff --codex-new a/'' @ c_path c @ lit '' b/'' @ c_path c @ [newline] @
     lit ''status '' @ status_debug (c_status c) @ [newline] @
     lit ''before '' @ hash_debug (c_before_hash c) @ [newline] @
     lit ''after '' @ hash_debug (c_after_ai_hash c) @ [newline]"

definition render_synthetic_diff :: "task_manifest \<Rightarrow> rstr" where
  "render_synthetic_diff m = concat (map render_change (m_changed_files m))"

definition render_diff :: "services \<Rightarrow> task_manifest \<Rightarrow> task_disk \<Rightarrow> rstr" where
  "render_diff sv m d =
     (let diff = load_unified_diff sv m d in if diff = [] then render_synthetic_diff m else diff)"

definition render_selected_diff :: "task_manifest \<Rightarrow> rstr list \<Rightarrow> rstr" where
  "render_selected_diff m paths =
     render_synthetic_diff (m\<lparr>m_changed_files := filter (\<lambda>c. c_path c \<in> set paths) (m_changed_files m)\<rparr>)"

section \<open>Refreshing the changes\<close>

definition record_edit_event :: "services \<Rightarrow> fpath \<Rightarrow> task_manifest \<Rightarrow> changed_file \<Rightarrow> unit task_action" where
  "record_edit_event sv state_root m changed =
     and_then (record_edit_traceback sv m (task_root state_root (m_project_id m) (m_task_id m)) changed) (\<lambda>tb.
     and_then (append_timeline sv state_root (m_project_id m) (m_task_id m) FileEditCompleted
       (FileEditPayload (c_path changed) (c_status changed) (c_before_hash changed) (c_after_ai_hash changed)
          (tb_revision tb))) (\<lambda>_. give ()))"

definition refresh_changes :: "services \<Rightarrow> fpath \<Rightarrow> fpath \<Rightarrow> task_manifest task_action" where
  "refresh_changes sv state_root manifest_path =
     and_then (reading (manifest_read_from_path manifest_path)) (\<lambda>m0.
     and_then (reading (compare_roots sv (m_original_root m0) (m_workspace_root m0) (m_changed_files m0))) (\<lambda>changes.
     and_then (asking (now sv)) (\<lambda>t.
       let m = m0\<lparr>m_status := (if changes = [] then WorkspaceReady else ChangesDetected), m_updated_at := t,
                   m_changed_files := changes\<rparr>;
           root = task_root state_root (m_project_id m) (m_task_id m)
       in and_then (asking (render_diff sv m)) (\<lambda>diff.
          and_then (fs_write (root @ [lit ''changes'', lit ''full.diff'']) (Utf8 diff)) (\<lambda>_.
          and_then (manifest_write_to_path m manifest_path) (\<lambda>_.
          and_then (write_task_status sv state_root (m_project_id m) (m_task_id m) (m_status m)) (\<lambda>_.
          and_then (for_each (record_edit_event sv state_root m)
                      (detect_changed_file_events (m_changed_files m0) changes)) (\<lambda>_.
          and_then (append_timeline sv state_root (m_project_id m) (m_task_id m) DiffUpdated
                      (DiffPayload changes (diff_stats_of changes))) (\<lambda>_. give m))))))))) "

section \<open>Merging\<close>

definition selected_paths :: "changed_file list \<Rightarrow> merge_selection \<Rightarrow> rstr set" where
  "selected_paths changes selection =
     (case selection of
        MergeAll \<Rightarrow> set (map c_path changes)
      | MergeFiles paths \<Rightarrow> set paths
      | MergeHunks hunks \<Rightarrow> set (map h_path hunks)
      | MergeLines lines \<Rightarrow> set (map l_path lines))"

definition hunk_selections :: "merge_selection \<Rightarrow> hunk_selection list" where
  "hunk_selections selection = (case selection of MergeHunks hunks \<Rightarrow> hunks | _ \<Rightarrow> [])"

definition path_hunks :: "hunk_selection list \<Rightarrow> rstr \<Rightarrow> nat list" where
  "path_hunks hunks path = sort (remdups (map h_hunk_index (filter (\<lambda>s. h_path s = path) hunks)))"

definition project_hash :: "services \<Rightarrow> task_manifest \<Rightarrow> rstr \<Rightarrow> (rstr option) task_action" where
  "project_hash sv m path =
     and_then (lift_result (checked_join (m_original_root m) path)) (\<lambda>p. reading (file_hash (sha256 sv) p))"

text \<open>Store a manifest with a new status and end with an error.\<close>

definition stop_with :: "services \<Rightarrow> fpath \<Rightarrow> fpath \<Rightarrow> task_manifest \<Rightarrow> task_status \<Rightarrow> core_error \<Rightarrow> unit task_action" where
  "stop_with sv state_root manifest_path m status err =
     and_then (manifest_write_to_path (m\<lparr>m_status := status\<rparr>) manifest_path) (\<lambda>_.
     and_then (write_task_status sv state_root (m_project_id m) (m_task_id m) status) (\<lambda>_. fail_with err))"

definition check_unchanged ::
    "services \<Rightarrow> fpath \<Rightarrow> fpath \<Rightarrow> task_manifest \<Rightarrow> rstr set \<Rightarrow> changed_file \<Rightarrow> unit task_action" where
  "check_unchanged sv state_root manifest_path m accepted changed =
     (if c_path changed \<notin> accepted then give ()
      else and_then (project_hash sv m (c_path changed)) (\<lambda>current.
             if current \<noteq> c_before_hash changed then
               stop_with sv state_root manifest_path m MergeConflicted
                 (MergeConflict (c_path changed) (c_before_hash changed) current)
             else give ()))"

definition before_snapshot :: "fpath \<Rightarrow> fpath" where
  "before_snapshot root = root @ [lit ''snapshots'', lit ''before'']"

definition after_merge_snapshot :: "fpath \<Rightarrow> fpath" where
  "after_merge_snapshot root = root @ [lit ''snapshots'', lit ''after-merge'']"

definition merge_file ::
    "services \<Rightarrow> task_manifest \<Rightarrow> fpath \<Rightarrow> hunk_selection list \<Rightarrow> changed_file \<Rightarrow> changed_file task_action" where
  "merge_file sv m root hunks changed =
     (let path = c_path changed
      in and_then (snapshot_file (m_original_root m) (before_snapshot root) path) (\<lambda>_.
         and_then (if list_ex (\<lambda>s. h_path s = path) hunks
                   then apply_selected_hunks sv (m_original_root m) (m_workspace_root m) path hunks
                   else copy_file_or_remove (m_workspace_root m) (m_original_root m) path) (\<lambda>_.
         and_then (snapshot_file (m_original_root m) (after_merge_snapshot root) path) (\<lambda>_.
         and_then (project_hash sv m path) (\<lambda>merged.
           give (changed\<lparr>c_after_merge_hash := merged,
                         c_merged_hunks := (if path_hunks hunks path = [] then None else Some (path_hunks hunks path)),
                         c_accepted := True, c_merge_status := lit ''applied''\<rparr>))))))"

definition merge_entry ::
    "services \<Rightarrow> fpath \<Rightarrow> task_manifest \<Rightarrow> rstr set \<Rightarrow> hunk_selection list \<Rightarrow> changed_file \<Rightarrow> changed_file task_action" where
  "merge_entry sv state_root m accepted hunks changed =
     (if c_path changed \<notin> accepted then give changed
      else and_then (acquire_path (project_root state_root (m_project_id m)) (c_path changed)) (\<lambda>lock.
             holding lock (merge_file sv m (task_root state_root (m_project_id m) (m_task_id m)) hunks changed)))"

definition merge_locked ::
    "services \<Rightarrow> fpath \<Rightarrow> fpath \<Rightarrow> merge_selection \<Rightarrow> task_manifest \<Rightarrow> merge_outcome task_action" where
  "merge_locked sv state_root manifest_path selection m =
     (let changes = m_changed_files m;
          accepted = selected_paths changes selection;
          root = task_root state_root (m_project_id m) (m_task_id m);
          accepted_paths = filter (\<lambda>p. p \<in> accepted) (map c_path changes);
          skipped_paths = filter (\<lambda>p. p \<notin> accepted) (map c_path changes)
      in and_then (append_timeline sv state_root (m_project_id m) (m_task_id m) MergeStarted
                     (MergeStartedPayload selection)) (\<lambda>_.
         and_then (for_each (check_unchanged sv state_root manifest_path m accepted) changes) (\<lambda>_.
         and_then (map_each (merge_entry sv state_root m accepted (hunk_selections selection)) changes) (\<lambda>changes'.
           let m1 = m\<lparr>m_changed_files := changes'\<rparr>
           in and_then (fs_write (root @ [lit ''changes'', lit ''accepted.diff''])
                          (Utf8 (render_selected_diff m1 accepted_paths))) (\<lambda>_.
              and_then (asking (now sv)) (\<lambda>t.
              and_then (manifest_write_to_path (m1\<lparr>m_status := RollbackAvailable, m_updated_at := t\<rparr>) manifest_path) (\<lambda>_.
              and_then (write_task_status sv state_root (m_project_id m) (m_task_id m) RollbackAvailable) (\<lambda>_.
              and_then (append_timeline sv state_root (m_project_id m) (m_task_id m) MergeCompleted
                          (MergeCompletedPayload accepted_paths skipped_paths)) (\<lambda>_.
                give \<lparr>mo_task_id = m_task_id m, mo_accepted_paths = accepted_paths,
                      mo_skipped_paths = skipped_paths, mo_changed_files = changes'\<rparr>)))))))))"

definition merge :: "services \<Rightarrow> fpath \<Rightarrow> fpath \<Rightarrow> merge_selection \<Rightarrow> merge_outcome task_action" where
  "merge sv state_root manifest_path selection =
     and_then (refresh_changes sv state_root manifest_path) (\<lambda>m.
     and_then (acquire_merge (project_root state_root (m_project_id m)) (m_task_id m)) (\<lambda>lock.
       holding lock (merge_locked sv state_root manifest_path selection m)))"

section \<open>Rolling back\<close>

definition selected_rollback_paths :: "changed_file list \<Rightarrow> rollback_selection \<Rightarrow> rstr set" where
  "selected_rollback_paths changes selection =
     (let requested = (case selection of
                         RollbackAll \<Rightarrow> set (map c_path (filter c_accepted changes))
                       | RollbackFiles paths \<Rightarrow> set paths
                       | RollbackHunks hunks \<Rightarrow> set (map h_path hunks))
      in set (map c_path (filter (\<lambda>c. c_accepted c \<and> c_path c \<in> requested) changes)))"

definition rollback_hunk_selections :: "rollback_selection \<Rightarrow> hunk_selection list" where
  "rollback_hunk_selections selection = (case selection of RollbackHunks hunks \<Rightarrow> hunks | _ \<Rightarrow> [])"

definition to_roll_back :: "rstr set \<Rightarrow> changed_file \<Rightarrow> bool" where
  "to_roll_back paths changed = (c_accepted changed \<and> c_path changed \<in> paths)"

definition check_merged ::
    "services \<Rightarrow> fpath \<Rightarrow> fpath \<Rightarrow> task_manifest \<Rightarrow> rstr set \<Rightarrow> changed_file \<Rightarrow> unit task_action" where
  "check_merged sv state_root manifest_path m paths changed =
     (if \<not> to_roll_back paths changed then give ()
      else and_then (project_hash sv m (c_path changed)) (\<lambda>current.
             if current \<noteq> c_after_merge_hash changed then
               stop_with sv state_root manifest_path m RollbackFailed
                 (RollbackConflict (c_path changed) (c_after_merge_hash changed) current)
             else give ()))"

definition rollback_entry ::
    "services \<Rightarrow> task_manifest \<Rightarrow> fpath \<Rightarrow> rstr set \<Rightarrow> hunk_selection list \<Rightarrow> changed_file \<Rightarrow> changed_file task_action" where
  "rollback_entry sv m root paths hunks changed =
     (if \<not> to_roll_back paths changed then give changed
      else
        (let path = c_path changed;
             undone = path_hunks hunks path;
             merged = (case c_merged_hunks changed of Some hs \<Rightarrow> hs | None \<Rightarrow> []);
             remaining = (if undone = [] \<or> merged = [] then []
                          else sort (remdups (filter (\<lambda>i. i \<notin> set undone) merged)))
         in if undone \<noteq> [] \<and> merged \<noteq> [] \<and> remaining \<noteq> [] then
              and_then (restore_snapshot (before_snapshot root) (m_original_root m) path) (\<lambda>_.
              and_then (apply_selected_hunks sv (m_original_root m) (m_workspace_root m) path
                          (map (\<lambda>i. \<lparr>h_path = path, h_hunk_index = i\<rparr>) remaining)) (\<lambda>_.
              and_then (project_hash sv m path) (\<lambda>h.
                give (changed\<lparr>c_after_merge_hash := h,
                              c_merged_hunks := Some (filter (\<lambda>i. i \<notin> set undone) merged),
                              c_merge_status := lit ''applied''\<rparr>))))
            else
              and_then (restore_snapshot (before_snapshot root) (m_original_root m) path) (\<lambda>_.
                give (changed\<lparr>c_accepted := False, c_after_merge_hash := None, c_merged_hunks := None,
                              c_merge_status := lit ''pending''\<rparr>))))"

definition rollback :: "services \<Rightarrow> fpath \<Rightarrow> fpath \<Rightarrow> rollback_selection \<Rightarrow> rollback_outcome task_action" where
  "rollback sv state_root manifest_path selection =
     and_then (reading (manifest_read_from_path manifest_path)) (\<lambda>m.
       let changes = m_changed_files m;
           root = task_root state_root (m_project_id m) (m_task_id m);
           paths = selected_rollback_paths changes selection;
           restored = map c_path (filter (to_roll_back paths) changes)
       in if paths = {} then fail_with (OtherError (lit ''No merged files selected for rollback.''))
          else
            and_then (for_each (check_merged sv state_root manifest_path m paths) changes) (\<lambda>_.
            and_then (map_each (rollback_entry sv m root paths (rollback_hunk_selections selection)) changes) (\<lambda>changes'.
            and_then (asking (now sv)) (\<lambda>t.
              let m1 = m\<lparr>m_changed_files := changes', m_updated_at := t,
                          m_status := (if list_ex c_accepted changes' then RollbackAvailable else MergeReady)\<rparr>
              in and_then (manifest_write_to_path m1 manifest_path) (\<lambda>_.
                 and_then (write_task_status sv state_root (m_project_id m) (m_task_id m) (m_status m1)) (\<lambda>_.
                 and_then (append_timeline sv state_root (m_project_id m) (m_task_id m) RollbackCompleted
                             (RollbackPayload restored [])) (\<lambda>_.
                   give \<lparr>ro_task_id = m_task_id m, ro_restored_paths = restored, ro_skipped_paths = []\<rparr>)))))))"

section \<open>What an operation may touch\<close>

text \<open>The files of the engine's own record of the tasks of a project: their directories, the locks and the manifest.\<close>

definition own_files :: "fpath \<Rightarrow> rstr \<Rightarrow> fpath \<Rightarrow> fpath set" where
  "own_files state_root project_id manifest_path =
     insert manifest_path {q. prefix (project_root state_root project_id @ [lit ''tasks'']) q \<or>
                              prefix (project_root state_root project_id @ [lit ''locks'']) q}"

definition project_files :: "task_manifest \<Rightarrow> rstr set \<Rightarrow> fpath set" where
  "project_files m paths = (\<lambda>p. m_original_root m @ path_names p) ` paths"

lemma own_task_root [simp]: "task_root sr pid tid @ q \<in> own_files sr pid mp"
  by (simp add: own_files_def task_root_def)

lemma own_project_root:
  "project_root sr pid @ lit ''tasks'' # q \<in> own_files sr pid mp" "project_root sr pid @ lit ''locks'' # q \<in> own_files sr pid mp"
  by (simp_all add: own_files_def)

declare own_project_root [simplified, simp]

lemma own_manifest [simp]: "mp \<in> own_files sr pid mp"
  by (simp add: own_files_def)

lemma own_snapshot [simp]:
  "snapshot_blob_path (before_snapshot (task_root sr pid tid)) p \<in> own_files sr pid mp"
  "snapshot_missing_path (before_snapshot (task_root sr pid tid)) p \<in> own_files sr pid mp"
  "snapshot_blob_path (after_merge_snapshot (task_root sr pid tid)) p \<in> own_files sr pid mp"
  "snapshot_missing_path (after_merge_snapshot (task_root sr pid tid)) p \<in> own_files sr pid mp"
  "snapshot_blob_path (traceback_original (task_root sr pid tid)) p \<in> own_files sr pid mp"
  "snapshot_missing_path (traceback_original (task_root sr pid tid)) p \<in> own_files sr pid mp"
  "snapshot_blob_path (traceback_workspace (task_root sr pid tid)) p \<in> own_files sr pid mp"
  "snapshot_missing_path (traceback_workspace (task_root sr pid tid)) p \<in> own_files sr pid mp"
  by (simp_all add: snapshot_blob_path_def snapshot_missing_path_def before_snapshot_def after_merge_snapshot_def
        traceback_root_def traceback_original_def traceback_workspace_def)

lemma own_task_record [simp]: "task_record_path (project_root sr pid) tid \<in> own_files sr pid mp"
  by (simp add: task_record_path_def)

lemma own_traceback [simp]:
  "traceback_root (task_root sr pid tid) @ q \<in> own_files sr pid mp"
  "traceback_original (task_root sr pid tid) @ q \<in> own_files sr pid mp"
  "traceback_workspace (task_root sr pid tid) @ q \<in> own_files sr pid mp"
  by (simp_all add: traceback_root_def traceback_original_def traceback_workspace_def)

lemma own_timeline [simp]: "timeline_path (task_root sr pid tid) \<in> own_files sr pid mp"
  by (simp add: timeline_path_def)

lemma own_index [simp]: "index_path (traceback_root (task_root sr pid tid)) \<in> own_files sr pid mp"
  by (simp add: index_path_def traceback_root_def)

text \<open>
  A region of the disk that holds the record of one task: whatever an operation writes of the record stays in it.
\<close>

locale task_region =
  fixes sr :: fpath and pid :: rstr and mp :: fpath and region :: "fpath set"
  assumes own_region: "own_files sr pid mp \<subseteq> region"
begin

lemma in_region [simp, intro]: "q \<in> own_files sr pid mp \<Longrightarrow> q \<in> region"
  using own_region by blast

lemma run_append_timeline:
  "evolves region d (fst (append_timeline sv sr pid tid kind payload d))"
  unfolding append_timeline_event_def
  by (intro ev.run_and_then ev.run_plain run_create_above [of _ "[]"] run_fs_write) simp_all

lemma run_write_task_record: "evolves region d (fst (write_task_record (project_root sr pid) t d))"
  unfolding write_task_record_def Let_def
  by (intro ev.run_and_then run_basic run_fs_write) simp_all

lemma run_write_task_status: "evolves region d (fst (write_task_status sv sr pid tid st d))"
  unfolding write_task_status_def Let_def
  by (intro ev.run_and_then run_basic) (auto split: option.splits intro!: ev.run_and_then run_basic run_write_task_record)

lemma run_manifest_write: "evolves region d (fst (manifest_write_to_path m mp d))"
  unfolding manifest_write_to_path_def
  by (intro ev.run_and_then run_basic run_fs_write) simp_all

lemma run_record_original:
  "evolves region d (fst (record_original sv m (task_root sr pid tid) c index d))"
  unfolding record_original_def
  by (cases "map_of index (c_path c)") (auto intro!: ev.run_and_then run_basic run_snapshot_file)

lemma run_record_edit_traceback:
  "evolves region d (fst (record_edit_traceback sv m (task_root sr pid tid) c d))"
  unfolding record_edit_traceback_def ensure_traceback_dirs_def write_index_def
  by (intro ev.run_and_then ev.run_plain run_create_above [of _ "[]"] run_record_original run_snapshot_file run_fs_write)
     simp_all

lemma run_record_edit_event:
  "m_project_id m = pid \<Longrightarrow> evolves region d (fst (record_edit_event sv sr m c d))"
  unfolding record_edit_event_def
  using run_record_edit_traceback run_append_timeline by (auto intro!: ev.run_and_then run_basic)

lemma run_stop_with:
  "m_project_id m = pid \<Longrightarrow> evolves region d (fst (stop_with sv sr mp m st err d))"
  unfolding stop_with_def
  using run_manifest_write run_write_task_status by (auto intro!: ev.run_and_then run_basic)

end

interpretation own: task_region sr pid mp "own_files sr pid mp \<union> X" for sr pid mp X
  by unfold_locales simp

end
