(* ===== verification/Task_Index.thy ===== *)
theory Task_Index
  imports Task_Engine
begin

text \<open>
  Facts on the changes that the engine detects: which files refreshing and merging hunks may touch, how the index of
  a directory names its files, and what the comparison of two directories reports.
\<close>

section \<open>Hunks\<close>

lemma run_write_file_lines: "p \<in> S \<Longrightarrow> evolves S d (fst (write_file_lines p ls d))"
  unfolding write_file_lines_def Let_def by (intro ev.run_and_then run_basic run_fs_write)

lemma run_apply_selected_hunks:
  assumes "original_root @ path_names path \<in> S"
  shows "evolves S d (fst (apply_selected_hunks sv original_root ws path sels d))"
  unfolding apply_selected_hunks_def Let_def
  using assms
  by (auto simp: split: option.splits dest!: checked_join_ok
      intro!: ev.run_and_then ev.run_plain run_remove_if_exists run_write_file_lines run_copy_file_or_remove)

section \<open>Refreshing\<close>

lemma refresh_ok:
  assumes "refresh_changes sv sr mp d = (e, Inr m)"
  obtains m0 changes t where "manifest_read_from_path mp d = Inr m0"
    and "compare_roots sv (m_original_root m0) (m_workspace_root m0) (m_changed_files m0) d = Inr changes"
    and "m = m0\<lparr>m_status := (if changes = [] then WorkspaceReady else ChangesDetected), m_updated_at := t,
                m_changed_files := changes\<rparr>"
  using assms by (auto simp: refresh_changes_def and_then_ok Let_def)

lemma refresh_no_manifest:
  "manifest_read_from_path mp d = Inl err \<Longrightarrow> refresh_changes sv sr mp d = (d, Inl err)"
  by (simp add: refresh_changes_def and_then_def)

lemma run_refresh_changes:
  assumes "manifest_read_from_path mp d = Inr m0"
  shows "evolves (own_files sr (m_project_id m0) mp) d (fst (refresh_changes sv sr mp d))"
proof -
  note own = own.run_manifest_write [where pid = "m_project_id m0" and X = "{}", simplified]
    own.run_write_task_status [where pid = "m_project_id m0" and X = "{}", simplified]
    own.run_append_timeline [where pid = "m_project_id m0" and X = "{}", simplified]
    own.run_record_edit_event [where pid = "m_project_id m0" and X = "{}", simplified]
  show ?thesis
    unfolding refresh_changes_def Let_def
    using assms own
    by (auto intro!: ev.run_and_then ev.run_plain run_fs_write ev.run_for_each)
qed

section \<open>Names of changed files\<close>

text \<open>Names that the index of a directory keeps apart: none holds a separator of either kind.\<close>

definition clean_name :: "rstr \<Rightarrow> bool" where
  "clean_name n = (proper_name n \<and> backslash_char \<notin> set n)"

definition clean_disk :: "task_disk \<Rightarrow> bool" where
  "clean_disk d = list_all (\<lambda>(p, _). list_all clean_name p) (nodes d)"

lemma clean_disk_lookup: "clean_disk d \<Longrightarrow> lookup d p \<noteq> None \<Longrightarrow> n \<in> set p \<Longrightarrow> clean_name n"
  by (fastforce simp: clean_disk_def list_all_iff lookup_def dest: map_of_SomeD split: if_splits)

lemma replace_char_id: "c \<notin> set s \<Longrightarrow> replace_char c r s = s"
  by (induction s) (auto simp: replace_char_def)

lemma set_join_paths: "set (join s ps) \<subseteq> set s \<union> (\<Union> (set ` set ps))"
  by (induction s ps rule: join.induct) auto

lemma index_name_clean: "(\<And>n. n \<in> set ns \<Longrightarrow> clean_name n) \<Longrightarrow> index_name ns = join [slash] ns"
  unfolding index_name_def using set_join_paths [of "[slash]" ns] by (intro replace_char_id) (fastforce simp: clean_name_def)

lemma components_relative:
  assumes "\<And>n. n \<in> set ns \<Longrightarrow> proper_name n"
  shows "components (join [slash] ns) = map Normal ns \<and> \<not> is_absolute (join [slash] ns)"
proof (cases ns)
  case Nil
  then show ?thesis
    by (simp add: components_def is_absolute_def starts_with_iff segment_components_def segment_component_def List.map_filter_def)
next
  case (Cons m ms)
  have segs: "split_on slash (join [slash] ns) = ns"
    using assms Cons by (intro split_on_join) (auto simp: proper_name_def)
  obtain c cs where m: "m = c # cs" "c \<noteq> slash"
    using assms [of m] Cons by (cases m) (auto simp: proper_name_def)
  then have "join [slash] ns \<noteq> slash # q" for q using Cons by (cases ms) auto
  then have rel: "\<not> is_absolute (join [slash] ns)" using is_absoluteE by blast
  moreover have "hd ns \<noteq> [dot]" using assms [of m] Cons by (simp add: proper_name_def)
  moreover have "segment_components ns = map Normal ns" using assms by (intro segment_components_proper) auto
  ultimately show ?thesis by (simp add: components_def segs)
qed

lemma path_names_index:
  assumes "\<And>n. n \<in> set ns \<Longrightarrow> clean_name n"
  shows "path_names (index_name ns) = ns" "checked_join root (index_name ns) = Inr (root @ ns)"
proof -
  have *: "components (index_name ns) = map Normal ns \<and> \<not> is_absolute (index_name ns)"
    using assms components_relative [of ns] by (simp add: index_name_clean clean_name_def)
  then show names: "path_names (index_name ns) = ns"
    by (simp add: path_names_def List.map_filter_def comp_def)
  from * have "ParentDir \<notin> set (components (index_name ns))" by auto
  with * names show "checked_join root (index_name ns) = Inr (root @ ns)" by (simp add: checked_join_def)
qed

section \<open>The index of a directory\<close>

lemma below_iff: "p \<in> set (below d root) \<longleftrightarrow> strict_prefix root p \<and> lookup d p \<noteq> None"
proof -
  have "lookup d p \<noteq> None \<longleftrightarrow> p \<in> fst ` set (nodes d)" if "strict_prefix root p"
    using that by (auto simp: lookup_def map_of_eq_None_iff simp del: not_None_eq)
  then show ?thesis unfolding below_def by auto
qed

lemma walk_entry_iff:
  "WalkEntry p \<in> set (walk_dir d root) \<longleftrightarrow> path_exists d root \<and> (p = root \<or> strict_prefix root p \<and> lookup d p \<noteq> None)"
proof -
  have "WalkEntry p \<in> set (concat (map (\<lambda>q. if P q then [WalkEntry q, WalkError] else [WalkEntry q]) qs)) \<longleftrightarrow> p \<in> set qs"
    for P qs by (induction qs) auto
  note entry = this [of "\<lambda>q. lookup d q = Some Directory \<and> refused d q" "root # below d root"]
  have "walk_dir d root = concat (map (\<lambda>q. if lookup d q = Some Directory \<and> refused d q then [WalkEntry q, WalkError]
          else [WalkEntry q]) (root # below d root))" if "path_exists d root"
    using that by (simp only: walk_dir_def not_True_eq_False if_False)
  with entry show ?thesis
    by (cases "path_exists d root") (simp_all only: set_simps insert_iff below_iff, auto simp: walk_dir_def)
qed

text \<open>The files that the index of a directory lists.\<close>

definition indexed :: "fpath \<Rightarrow> task_disk \<Rightarrow> fpath \<Rightarrow> bool" where
  "indexed root d p \<longleftrightarrow> prefix root p \<and> path_is_file d p \<and> lit ''.git'' \<notin> set p"

definition hash_of :: "services \<Rightarrow> artifact contents \<Rightarrow> rstr" where
  "hash_of sv c = lit ''sha256:'' @ sha256 sv c"

lemma hash_entries_sound:
  assumes "hash_entries sv root d items index = Inr index'"
    and "\<And>k h. map_of index k = Some h \<Longrightarrow> G k h"
    and "\<And>p c. WalkEntry p \<in> set items \<Longrightarrow> file_at d p = Some c \<Longrightarrow> lit ''.git'' \<notin> set p \<Longrightarrow>
           G (index_name (drop (length root) p)) (Some (hash_of sv c))"
  shows "map_of index' k = Some h \<Longrightarrow> G k h"
  using assms
proof (induction sv root d items index rule: hash_entries.induct)
  case (3 sv root d p items index)
  show ?case
  proof (cases "\<not> path_is_file d p \<or> lit ''.git'' \<in> set p")
    case True
    with 3 show ?thesis by simp
  next
    case False
    then obtain c where c: "file_at d p = Some c" by (auto simp: path_is_file_iff file_at_Some_iff)
    from False "3.prems"(2) obtain h' where h': "file_hash (sha256 sv) p d = Inr h'"
      and rest: "hash_entries sv root d items (AList.update (index_name (drop (length root) p)) h' index) = Inr index'"
      by (auto simp: rbind_eq_Inr_iff)
    have "h' = Some (hash_of sv c)" using file_hash_ok [OF h'] c by (simp add: hash_of_def)
    moreover have "G (index_name (drop (length root) p)) (Some (hash_of sv c))" using False c by (intro "3.prems"(4)) simp_all
    ultimately have upd: "map_of (AList.update (index_name (drop (length root) p)) h' index) k' = Some v \<Longrightarrow> G k' v" for k' v
      using "3.prems"(3) by (auto simp: update_conv' split: if_splits)
    show ?thesis
      by (rule "3.IH"(2) [OF False "3.prems"(1) rest]) (auto intro: upd "3.prems"(4))
  qed
qed auto

definition listed :: "task_disk \<Rightarrow> walk_item list \<Rightarrow> fpath set" where
  "listed d items = {p. WalkEntry p \<in> set items \<and> path_is_file d p \<and> lit ''.git'' \<notin> set p}"

lemma listed_simps:
  "listed d [] = {}"
  "listed d (WalkEntry p # items) =
     (if \<not> path_is_file d p \<or> lit ''.git'' \<in> set p then listed d items else insert p (listed d items))"
  by (auto simp: listed_def)

lemma hash_entries_keys:
  assumes "hash_entries sv root d items index = Inr index'"
  shows "fst ` set index' = fst ` set index \<union> (\<lambda>p. index_name (drop (length root) p)) ` listed d items"
  using assms
proof (induction sv root d items index rule: hash_entries.induct)
  case (3 sv root d p items index)
  show ?case
  proof (cases "\<not> path_is_file d p \<or> lit ''.git'' \<in> set p")
    case True
    with 3 show ?thesis by (simp add: listed_simps)
  next
    case False
    with "3.prems" obtain h where
      rest: "hash_entries sv root d items (AList.update (index_name (drop (length root) p)) h index) = Inr index'"
      by (auto simp: rbind_eq_Inr_iff)
    from "3.IH"(2) [OF False rest] False show ?thesis by (simp add: listed_simps dom_update)
  qed
qed (simp_all add: listed_simps)

lemma listed_walk: "listed d (walk_dir d root) = {p. path_exists d root \<and> indexed root d p}"
  unfolding listed_def indexed_def walk_entry_iff by (auto simp: path_is_file_iff strict_prefix_def simp del: lit_simps)

lemma drop_prefix: "prefix root p \<Longrightarrow> root @ drop (length root) p = p"
  by (auto simp: prefix_def)

text \<open>
  On a disk with clean names the index gives every listed file its hash, under its relative path.
\<close>

lemma hash_index_names:
  assumes "clean_disk d" "indexed root d p" "n \<in> set (drop (length root) p)"
  shows "clean_name n"
proof -
  have "n \<in> set p" using assms(3) in_set_dropD by metis
  with assms show ?thesis by (auto simp: indexed_def path_is_file_iff intro: clean_disk_lookup)
qed

lemma hash_index_keys:
  assumes "hash_index sv root d = Inr index" "k \<in> fst ` set index"
  obtains p where "indexed root d p" "k = index_name (drop (length root) p)"
  using assms hash_entries_keys [of sv root d "walk_dir d root" "[]" index]
  by (auto simp: hash_index_def listed_walk)

lemma hash_index_hash:
  assumes "clean_disk d" "hash_index sv root d = Inr index"
    and rel: "\<And>n. n \<in> set rel \<Longrightarrow> clean_name n"
  shows "index_hash index (index_name rel) =
     (if indexed root d (root @ rel) then map_option (hash_of sv) (file_at d (root @ rel)) else None)"
proof -
  have sound: "\<exists>p c. indexed root d p \<and> file_at d p = Some c \<and> k = index_name (drop (length root) p) \<and> h = Some (hash_of sv c)"
    if "map_of index k = Some h" for k h
  proof (rule hash_entries_sound [OF assms(2) [unfolded hash_index_def] _ _ that])
    fix p c
    assume "WalkEntry p \<in> set (walk_dir d root)" "file_at d p = Some c" "lit ''.git'' \<notin> set p"
    then have "indexed root d p"
      unfolding indexed_def by (auto simp: walk_entry_iff path_is_file_iff file_at_Some_iff simp del: lit_simps)
    with \<open>file_at d p = Some c\<close>
    show "\<exists>q b. indexed root d q \<and> file_at d q = Some b \<and>
        index_name (drop (length root) p) = index_name (drop (length root) q) \<and> Some (hash_of sv c) = Some (hash_of sv b)"
      by blast
  qed simp
  have exists: "path_exists d root"
    using assms(2) by (cases "path_exists d root") (auto simp: hash_index_def walk_dir_def)
  have same: "p = root @ rel" if "indexed root d p" "index_name rel = index_name (drop (length root) p)" for p
  proof -
    have "path_names (index_name (drop (length root) p)) = drop (length root) p"
      by (rule path_names_index(1)) (rule hash_index_names [OF assms(1) that(1)])
    moreover have "path_names (index_name rel) = rel" by (rule path_names_index(1)) (rule rel)
    ultimately have "drop (length root) p = rel" using that(2) by simp
    moreover have "prefix root p" using that(1) by (simp add: indexed_def)
    ultimately show ?thesis by (auto simp: prefix_def)
  qed
  have found: "index_name rel \<in> fst ` set index" if "indexed root d (root @ rel)"
  proof -
    have "fst ` set index = (\<lambda>p. index_name (drop (length root) p)) ` {p. path_exists d root \<and> indexed root d p}"
      using hash_entries_keys [OF assms(2) [unfolded hash_index_def]] by (simp add: listed_walk)
    moreover have "index_name rel = index_name (drop (length root) (root @ rel))" by simp
    ultimately show ?thesis
      using imageI [of "root @ rel" "{p. path_exists d root \<and> indexed root d p}" "\<lambda>p. index_name (drop (length root) p)"]
        that exists by simp
  qed
  show ?thesis
  proof (cases "map_of index (index_name rel)")
    case None
    then have "\<not> indexed root d (root @ rel)" using found by (auto simp: map_of_eq_None_iff)
    with None show ?thesis by (simp add: index_hash_def)
  next
    case (Some h)
    from sound [OF this] obtain p c where p: "indexed root d p" "file_at d p = Some c"
      "index_name rel = index_name (drop (length root) p)" "h = Some (hash_of sv c)" by blast
    from same [OF p(1,3)] p Some show ?thesis by (simp add: index_hash_def)
  qed
qed

section \<open>The changes between two directories\<close>

lemma changed_entry_path: "changed_entry original workspace previous path = Some c \<Longrightarrow> c_path c = path"
  by (auto simp: changed_entry_def Let_def split: if_splits option.splits)

lemma changed_entry_hashes:
  assumes "changed_entry original workspace previous path = Some c"
  shows "c_after_ai_hash c = index_hash workspace path" "c_before_hash c \<noteq> c_after_ai_hash c" "\<not> c_accepted c"
    and "c_before_hash c = (case previous path of Some p \<Rightarrow> c_before_hash p | None \<Rightarrow> index_hash original path)"
  using assms by (auto simp: changed_entry_def Let_def split: if_splits option.splits)

lemma map_filter_paths:
  "(\<And>p c. f p = Some c \<Longrightarrow> c_path c = p) \<Longrightarrow>
     map c_path (List.map_filter f ps) = filter (\<lambda>p. f p \<noteq> None) ps"
  by (induction ps) (auto split: option.splits)

lemma compare_roots_ok:
  assumes "compare_roots sv original_root workspace_root previous d = Inr changes"
  obtains original workspace where "hash_index sv original_root d = Inr original"
    "hash_index sv workspace_root d = Inr workspace"
    "changes = List.map_filter (changed_entry original workspace (changes_by_path previous))
                 (sort (remdups (map fst original @ map fst workspace)))"
  using assms by (auto simp: compare_roots_def rbind_eq_Inr_iff)

lemma compare_roots_distinct:
  assumes "compare_roots sv original_root workspace_root previous d = Inr changes"
  shows "distinct (map c_path changes)"
  using assms by (elim compare_roots_ok) (simp add: map_filter_paths changed_entry_path)

lemma compare_roots_entry:
  assumes "compare_roots sv original_root workspace_root previous d = Inr changes" "clean_disk d" "c \<in> set changes"
  obtains rel where "c_path c = index_name rel" "\<And>n. n \<in> set rel \<Longrightarrow> clean_name n"
    and "c_before_hash c \<noteq> c_after_ai_hash c" "\<not> c_accepted c"
    and "c_after_ai_hash c =
      (if indexed workspace_root d (workspace_root @ rel) then map_option (hash_of sv) (file_at d (workspace_root @ rel)) else None)"
proof -
  from assms(1) obtain original workspace where idx: "hash_index sv original_root d = Inr original"
      "hash_index sv workspace_root d = Inr workspace"
    and changes: "changes = List.map_filter (changed_entry original workspace (changes_by_path previous))
                 (sort (remdups (map fst original @ map fst workspace)))"
    by (rule compare_roots_ok)
  from assms(3) obtain path where path: "path \<in> fst ` set original \<or> path \<in> fst ` set workspace"
      "changed_entry original workspace (changes_by_path previous) path = Some c"
    by (auto simp: changes set_map_filter_iff)
  from path(1) obtain root p where p: "indexed root d p" "path = index_name (drop (length root) p)"
    using hash_index_keys [OF idx(1)] hash_index_keys [OF idx(2)] by metis
  have clean: "n \<in> set (drop (length root) p) \<Longrightarrow> clean_name n" for n using hash_index_names [OF assms(2) p(1)] .
  show thesis
  proof (rule that)
    show "c_path c = index_name (drop (length root) p)" using changed_entry_path [OF path(2)] p(2) by simp
  qed (use clean changed_entry_hashes [OF path(2)] hash_index_hash [OF assms(2) idx(2) clean] p(2) in simp_all)
qed

lemma compare_roots_clean:
  assumes "compare_roots sv original_root workspace_root previous d = Inr changes" "clean_disk d" "c \<in> set changes"
  shows "\<exists>rel. c_path c = index_name rel \<and> (\<forall>n \<in> set rel. clean_name n)"
  by (rule compare_roots_entry [OF assms], rule exI, rule conjI, assumption, rule ballI)

lemma compare_roots_join:
  assumes "compare_roots sv original_root workspace_root previous d = Inr changes" "clean_disk d" "c \<in> set changes"
  shows "checked_join root (c_path c) = Inr (root @ path_names (c_path c))"
proof -
  from compare_roots_clean [OF assms] obtain rel where "c_path c = index_name rel" "\<forall>n \<in> set rel. clean_name n"
    by blast
  with path_names_index [of rel] show ?thesis by simp
qed

lemma compare_roots_names:
  assumes "compare_roots sv original_root workspace_root previous d = Inr changes" "clean_disk d"
    and "b \<in> set changes" "c \<in> set changes" "path_names (c_path b) = path_names (c_path c)"
  shows "b = c"
proof -
  from compare_roots_clean [OF assms(1,2,3)] obtain r where r: "c_path b = index_name r" "\<forall>n \<in> set r. clean_name n"
    by blast
  from compare_roots_clean [OF assms(1,2,4)] obtain s where s: "c_path c = index_name s" "\<forall>n \<in> set s. clean_name n"
    by blast
  have "path_names (c_path b) = r" "path_names (c_path c) = s"
    using path_names_index(1) [of r] path_names_index(1) [of s] r s by simp_all
  with r s assms(5) have "c_path b = c_path c" by simp
  with compare_roots_distinct [OF assms(1)] assms(3,4) show ?thesis by (simp add: distinct_map inj_on_def)
qed

section \<open>Evaluation on concrete disks\<close>

text \<open>
  Running an action on a concrete disk: a definition is unfolded only once the action is applied to a disk, and the rest
  of the action waits until the first step has run.
\<close>

lemma and_then_weak_cong: "d = d' \<Longrightarrow> and_then m f d = and_then m f d'" by simp
lemma holding_weak_cong: "d = d' \<Longrightarrow> holding m f d = holding m f d'" by simp
lemma for_each_weak_cong: "xs = ys \<Longrightarrow> d = d' \<Longrightarrow> for_each f xs d = for_each f ys d'" by simp
lemma map_each_weak_cong: "xs = ys \<Longrightarrow> d = d' \<Longrightarrow> map_each f xs d = map_each f ys d'" by simp
lemmas run_congs = and_then_weak_cong holding_weak_cong for_each_weak_cong map_each_weak_cong
lemmas run_file_actions =
  copy_project_def [THEN fun_cong] copy_entry_def and_then_def [THEN fun_cong] fs_write_def [THEN fun_cong] fs_copy_def [THEN fun_cong] fs_remove_file_def [THEN fun_cong]
  ensure_dir_def [THEN fun_cong] create_dir_all_def [THEN fun_cong] remove_if_exists_def [THEN fun_cong]
  copy_file_or_remove_def [THEN fun_cong] snapshot_file_def [THEN fun_cong] restore_snapshot_def [THEN fun_cong]
  holding_def [THEN fun_cong] acquire_file_def [THEN fun_cong] acquire_merge_def [THEN fun_cong] acquire_path_def [THEN fun_cong]
  release_lock_def
  for_each.simps [THEN fun_cong] map_each.simps [THEN fun_cong]

lemmas run_task_actions = manifest_write_to_path_def [THEN fun_cong] append_timeline_event_def [THEN fun_cong] write_task_record_def [THEN fun_cong]
  write_task_status_def [THEN fun_cong] ensure_traceback_dirs_def [THEN fun_cong] write_index_def [THEN fun_cong]
  record_original_def [THEN fun_cong] record_edit_traceback_def [THEN fun_cong] record_edit_event_def [THEN fun_cong]
  refresh_changes_def [THEN fun_cong] merge_def [THEN fun_cong] merge_locked_def [THEN fun_cong] project_hash_def [THEN fun_cong]
  merge_entry_def [THEN fun_cong] merge_file_def [THEN fun_cong] check_unchanged_def [THEN fun_cong] stop_with_def [THEN fun_cong]

lemmas evaluate_simps = lookup_def path_exists_def path_is_file_def put_node_def drop_node_def fs_read_def through_file_def below_def walk_dir_def
  path_names_def checked_join_def file_hash_def replace_char_def encode_path_def snapshot_blob_path_def snapshot_missing_path_def
  components_def is_absolute_def starts_with_def segment_components_def segment_component_def List.map_filter_def Let_def
  project_root_def task_root_def manifest_file_def task_record_path_def timeline_path_def traceback_root_def traceback_original_def traceback_workspace_def
  index_path_def read_index_def hash_or_none_def some_or_def read_json_def manifest_read_from_path_def read_task_record_def read_timeline_def
  index_name_def hash_index_def index_hash_def changed_entry_def compare_roots_def changes_by_path_def detect_changed_file_events_def
  hash_debug_def render_change_def render_synthetic_diff_def load_unified_diff_def render_diff_def git_dir_def
  selected_paths_def hunk_selections_def path_hunks_def before_snapshot_def after_merge_snapshot_def render_selected_diff_def
  diff_stats_of_def count_status_def

end
