(* ===== verification/Task_Merge.thy ===== *)
theory Task_Merge
  imports Task_Index
begin

text \<open>
  What merging does to the files of the user: which files it can touch at all, what one merged file leaves behind,
  and the state of the disk and of the manifest after a merge that succeeds.
\<close>

section \<open>The footprint of one merged file\<close>

definition path_lock :: "fpath \<Rightarrow> task_manifest \<Rightarrow> rstr \<Rightarrow> fpath" where
  "path_lock sr m p = project_root sr (m_project_id m) @ [lit ''locks'', lit ''path-'' @ encode_path p @ lit ''.lock'']"

definition merge_lock :: "fpath \<Rightarrow> task_manifest \<Rightarrow> fpath" where
  "merge_lock sr m = project_root sr (m_project_id m) @ [lit ''locks'', lit ''merge-'' @ m_task_id m @ lit ''.lock'']"

abbreviation manifest_root :: "fpath \<Rightarrow> task_manifest \<Rightarrow> fpath" where
  "manifest_root sr m \<equiv> task_root sr (m_project_id m) (m_task_id m)"

definition snapshot_files :: "fpath \<Rightarrow> rstr \<Rightarrow> fpath set" where
  "snapshot_files snap p = {snapshot_blob_path snap p, snapshot_missing_path snap p}"

definition entry_files :: "fpath \<Rightarrow> task_manifest \<Rightarrow> rstr \<Rightarrow> fpath set" where
  "entry_files sr m p =
     {m_original_root m @ path_names p, path_lock sr m p} \<union> snapshot_files (before_snapshot (manifest_root sr m)) p \<union>
     snapshot_files (after_merge_snapshot (manifest_root sr m)) p"

lemma run_merge_file:
  assumes "entry_files sr m (c_path c) \<subseteq> S"
  shows "evolves S d (fst (merge_file sv m (manifest_root sr m) hunks c d))"
  using assms unfolding merge_file_def Let_def project_hash_def
  by (auto simp: entry_files_def snapshot_files_def
      intro!: ev.run_and_then ev.run_plain run_snapshot_file run_apply_selected_hunks run_copy_file_or_remove)

lemma acquire_path_ok: "acquire_path (project_root sr (m_project_id m)) p d = (e, Inr l) \<Longrightarrow> l = path_lock sr m p"
  by (auto simp: acquire_path_def path_lock_def dest: acquire_file_ok)

lemma acquire_merge_ok: "acquire_merge (project_root sr (m_project_id m)) (m_task_id m) d = (e, Inr l) \<Longrightarrow> l = merge_lock sr m"
  by (auto simp: acquire_merge_def merge_lock_def dest: acquire_file_ok)

lemma run_acquire_path:
  "path_lock sr m p \<in> S \<Longrightarrow> evolves S d (fst (acquire_path (project_root sr (m_project_id m)) p d))"
  unfolding acquire_path_def by (rule run_acquire_file) (simp add: path_lock_def)

lemma run_acquire_merge:
  "merge_lock sr m \<in> S \<Longrightarrow> evolves S d (fst (acquire_merge (project_root sr (m_project_id m)) (m_task_id m) d))"
  unfolding acquire_merge_def by (rule run_acquire_file) (simp add: merge_lock_def)

lemma run_merge_entry:
  assumes "c_path c \<in> accepted \<Longrightarrow> entry_files sr m (c_path c) \<subseteq> S"
  shows "evolves S d (fst (merge_entry sv sr m accepted hunks c d))"
proof (cases "c_path c \<in> accepted")
  case True
  then have lock: "path_lock sr m (c_path c) \<in> S" using assms by (auto simp: entry_files_def)
  show ?thesis
    unfolding merge_entry_def
    using True assms lock
    by (auto dest!: acquire_path_ok intro!: ev.run_and_then run_acquire_path run_holding_lock run_merge_file)
qed (simp add: merge_entry_def)

section \<open>Everything a merge may touch\<close>

lemma own_locks [simp]:
  "path_lock sr m p \<in> own_files sr (m_project_id m) mp" "merge_lock sr m \<in> own_files sr (m_project_id m) mp"
  by (simp_all add: path_lock_def merge_lock_def)

lemma entry_files_own:
  "p \<in> paths \<Longrightarrow> entry_files sr m p \<subseteq> own_files sr (m_project_id m) mp \<union> project_files m paths"
  by (auto simp: entry_files_def snapshot_files_def project_files_def)

lemma run_check_unchanged:
  "evolves (own_files sr (m_project_id m) mp \<union> X) d (fst (check_unchanged sv sr mp m accepted c d))"
  unfolding check_unchanged_def project_hash_def
  by (auto intro!: ev.run_and_then ev.run_plain own.run_stop_with)

lemma run_check_merged:
  "evolves (own_files sr (m_project_id m) mp \<union> X) d (fst (check_merged sv sr mp m paths c d))"
  unfolding check_merged_def project_hash_def
  by (auto intro!: ev.run_and_then ev.run_plain own.run_stop_with)

lemma run_merge_locked:
  assumes "selected_paths (m_changed_files m) sel \<inter> c_path ` set (m_changed_files m) \<subseteq> paths"
  shows "evolves (own_files sr (m_project_id m) mp \<union> project_files m paths) d (fst (merge_locked sv sr mp sel m d))"
proof -
  have entry: "evolves (own_files sr (m_project_id m) mp \<union> project_files m paths) d
      (fst (merge_entry sv sr m (selected_paths (m_changed_files m) sel) hunks c d))"
    if "c \<in> set (m_changed_files m)" for c d hunks
    using that assms by (intro run_merge_entry entry_files_own) auto
  show ?thesis
    unfolding merge_locked_def Let_def
    using entry
    by (auto intro!: ev.run_and_then ev.run_plain ev.run_for_each ev.run_map_each run_check_unchanged run_fs_write
        own.run_append_timeline own.run_manifest_write own.run_write_task_status)
qed

lemma run_merge:
  assumes "manifest_read_from_path mp d = Inr m0"
    and "\<And>changes. compare_roots sv (m_original_root m0) (m_workspace_root m0) (m_changed_files m0) d = Inr changes \<Longrightarrow>
           selected_paths changes sel \<inter> c_path ` set changes \<subseteq> paths"
  shows "evolves (own_files sr (m_project_id m0) mp \<union> project_files m0 paths) d (fst (merge sv sr mp sel d))"
  unfolding merge_def
proof (rule ev.run_and_then)
  show "evolves (own_files sr (m_project_id m0) mp \<union> project_files m0 paths) d (fst (refresh_changes sv sr mp d))"
    by (rule evolves_mono [OF run_refresh_changes [OF assms(1)]]) simp
next
  fix d1 m
  assume "refresh_changes sv sr mp d = (d1, Inr m)"
  then obtain m0' changes t where m0': "manifest_read_from_path mp d = Inr m0'"
    and changes: "compare_roots sv (m_original_root m0') (m_workspace_root m0') (m_changed_files m0') d = Inr changes"
    and m: "m = m0'\<lparr>m_status := (if changes = [] then WorkspaceReady else ChangesDetected), m_updated_at := t,
                m_changed_files := changes\<rparr>"
    by (rule refresh_ok)
  from m0' assms(1) have [simp]: "m0' = m0" by simp
  have same: "m_project_id m = m_project_id m0" "project_files m paths = project_files m0 paths"
    by (simp_all add: m project_files_def)
  have sel: "selected_paths (m_changed_files m) sel \<inter> c_path ` set (m_changed_files m) \<subseteq> paths"
    using assms(2) changes by (simp add: m)
  show "evolves (own_files sr (m_project_id m0) mp \<union> project_files m0 paths) d1
     (fst (and_then (acquire_merge (project_root sr (m_project_id m)) (m_task_id m))
        (\<lambda>lock. holding lock (merge_locked sv sr mp sel m)) d1))"
    using run_merge_locked [OF sel, of sr mp _ sv]
    by (auto simp flip: same dest!: acquire_merge_ok intro!: ev.run_and_then run_acquire_merge run_holding_lock)
qed

section \<open>Layout of the disk\<close>

text \<open>
  The project, the workspace and the engine's record of the project lie in three places, none inside another.
\<close>

definition layout :: "fpath \<Rightarrow> task_manifest \<Rightarrow> bool" where
  "layout sr m \<longleftrightarrow>
     m_original_root m \<parallel> project_root sr (m_project_id m) \<and>
     m_workspace_root m \<parallel> project_root sr (m_project_id m) \<and> m_workspace_root m \<parallel> m_original_root m"

lemma parallel_D: "a \<parallel> b \<Longrightarrow> \<not> prefix (a @ x) (b @ y)" "a \<parallel> b \<Longrightarrow> \<not> prefix (b @ y) (a @ x)"
  "a \<parallel> b \<Longrightarrow> a @ x \<noteq> b @ y"
  using parallel_append [of a b x y] by (auto simp: parallel_def)

lemma record_paths:
  "snapshot_blob_path (before_snapshot (manifest_root sr m)) p =
     project_root sr (m_project_id m) @ [lit ''tasks'', m_task_id m, lit ''snapshots'', lit ''before'', encode_path p @ lit ''.blob'']"
  "snapshot_missing_path (before_snapshot (manifest_root sr m)) p =
     project_root sr (m_project_id m) @ [lit ''tasks'', m_task_id m, lit ''snapshots'', lit ''before'', encode_path p @ lit ''.missing'']"
  "snapshot_blob_path (after_merge_snapshot (manifest_root sr m)) p =
     project_root sr (m_project_id m) @ [lit ''tasks'', m_task_id m, lit ''snapshots'', lit ''after-merge'', encode_path p @ lit ''.blob'']"
  "snapshot_missing_path (after_merge_snapshot (manifest_root sr m)) p =
     project_root sr (m_project_id m) @ [lit ''tasks'', m_task_id m, lit ''snapshots'', lit ''after-merge'', encode_path p @ lit ''.missing'']"
  by (simp_all add: snapshot_blob_path_def snapshot_missing_path_def before_snapshot_def after_merge_snapshot_def task_root_def)

lemma blob_neq_missing [simp]:
  "a @ lit ''.blob'' \<noteq> b @ lit ''.missing''" "b @ lit ''.missing'' \<noteq> a @ lit ''.blob''"
proof -
  have "last (a @ lit ''.blob'') \<noteq> last (b @ lit ''.missing'')" by simp
  then show "a @ lit ''.blob'' \<noteq> b @ lit ''.missing''" "b @ lit ''.missing'' \<noteq> a @ lit ''.blob''" by metis+
qed

text \<open>Files of the record and files of the project do not meet.\<close>

lemma project_path_separated:
  assumes "layout sr m"
  shows "separated (m_original_root m @ x) (snapshot_files (before_snapshot (manifest_root sr m)) p)"
    "separated (m_original_root m @ x) (snapshot_files (after_merge_snapshot (manifest_root sr m)) p)"
    "separated (m_original_root m @ x) {path_lock sr m p}"
    "separated (m_workspace_root m @ x) (snapshot_files (before_snapshot (manifest_root sr m)) p)"
    "separated (m_workspace_root m @ x) (snapshot_files (after_merge_snapshot (manifest_root sr m)) p)"
    "separated (m_workspace_root m @ x) {path_lock sr m p}"
    "separated (m_workspace_root m @ x) {m_original_root m @ y}"
  using assms by (simp_all add: layout_def snapshot_files_def record_paths path_lock_def parallel_D)

abbreviation before_blob :: "fpath \<Rightarrow> task_manifest \<Rightarrow> rstr \<Rightarrow> fpath" where
  "before_blob sr m p \<equiv> snapshot_blob_path (before_snapshot (manifest_root sr m)) p"

abbreviation before_marker :: "fpath \<Rightarrow> task_manifest \<Rightarrow> rstr \<Rightarrow> fpath" where
  "before_marker sr m p \<equiv> snapshot_missing_path (before_snapshot (manifest_root sr m)) p"

lemma snapshot_separated:
  assumes "layout sr m"
  shows "separated (before_blob sr m p) {m_original_root m @ x}" "separated (before_marker sr m p) {m_original_root m @ x}"
    "separated (before_blob sr m p) {path_lock sr m r}" "separated (before_marker sr m p) {path_lock sr m r}"
    "separated (before_blob sr m p) (snapshot_files (after_merge_snapshot (manifest_root sr m)) r)"
    "separated (before_marker sr m p) (snapshot_files (after_merge_snapshot (manifest_root sr m)) r)"
    "encode_path p \<noteq> encode_path r \<Longrightarrow> separated (before_blob sr m p) (snapshot_files (before_snapshot (manifest_root sr m)) r)"
    "encode_path p \<noteq> encode_path r \<Longrightarrow> separated (before_marker sr m p) (snapshot_files (before_snapshot (manifest_root sr m)) r)"
  using assms
  by (simp_all add: layout_def snapshot_files_def record_paths path_lock_def parallel_D)

section \<open>Merging one file\<close>

text \<open>A file that has been merged is a file or gone, never a directory.\<close>

lemma remove_not_dir: "remove_if_exists p d = (e, Inr u) \<Longrightarrow> lookup e p \<noteq> Some Directory"
  by (simp add: remove_if_exists_lookup)

lemma fs_copy_not_dir: "fs_copy p r d = (e, Inr u) \<Longrightarrow> lookup e r \<noteq> Some Directory"
  using fs_copy_lookup [of p r d e u r] by (cases "file_at d p") auto

lemma copy_not_dir:
  assumes "copy_file_or_remove source_root destination_root path d = (e, Inr u)"
  shows "lookup e (destination_root @ path_names path) \<noteq> Some Directory"
  using assms
  by (auto simp: copy_file_or_remove_def and_then_ok split: if_splits dest!: checked_join_ok remove_not_dir fs_copy_not_dir)

lemma apply_hunks_not_dir:
  assumes "apply_selected_hunks sv original_root ws path sels d = (e, Inr u)"
    and "list_ex (\<lambda>s. h_path s = path) sels"
  shows "lookup e (original_root @ path_names path) \<noteq> Some Directory"
proof -
  have "set (map h_hunk_index (filter (\<lambda>s. h_path s = path) sels)) \<noteq> {}"
    using assms(2) by (auto simp: list_ex_iff)
  with assms(1) show ?thesis
    unfolding apply_selected_hunks_def Let_def if_not_P [OF \<open>_ \<noteq> _\<close>]
    by (auto simp: and_then_ok write_file_lines_def Let_def fs_write_lookup
        split: if_splits option.splits dest!: checked_join_ok remove_not_dir copy_not_dir)
qed

lemma project_hash_ok:
  assumes "project_hash sv m path d = (e, Inr h)"
  shows "e = d" "h = map_option (hash_of sv) (file_at d (m_original_root m @ path_names path))"
    "strict_prefix q (m_original_root m @ path_names path) \<Longrightarrow> \<not> path_is_file d q"
proof -
  from assms obtain p where p: "checked_join (m_original_root m) path = Inr p" and e: "e = d"
    and h: "file_hash (sha256 sv) p d = Inr h"
    by (auto simp: project_hash_def and_then_ok)
  from p have p': "p = m_original_root m @ path_names path" by (rule checked_join_ok)
  show "e = d" by (rule e)
  show "h = map_option (hash_of sv) (file_at d (m_original_root m @ path_names path))"
    using file_hash_ok [OF h] by (simp add: p' hash_of_def [abs_def])
  show "strict_prefix q (m_original_root m @ path_names path) \<Longrightarrow> \<not> path_is_file d q"
    using h by (auto simp: file_hash_def through_file_iff p' split: if_splits)
qed

lemma run_applied:
  "evolves {m_original_root m @ path_names p} d
     (fst ((if b then apply_selected_hunks sv (m_original_root m) (m_workspace_root m) p hunks
            else copy_file_or_remove (m_workspace_root m) (m_original_root m) p) d))"
  by (cases b) (simp_all add: run_apply_selected_hunks run_copy_file_or_remove)

lemma run_snapshot: "evolves (snapshot_files snap p) d (fst (snapshot_file root snap p d))"
  by (rule run_snapshot_file) (simp_all add: snapshot_files_def)

definition merged_change :: "services \<Rightarrow> hunk_selection list \<Rightarrow> changed_file \<Rightarrow> artifact contents option \<Rightarrow> changed_file" where
  "merged_change sv hunks c now_there =
     c\<lparr>c_after_merge_hash := map_option (hash_of sv) now_there,
       c_merged_hunks := (if path_hunks hunks (c_path c) = [] then None else Some (path_hunks hunks (c_path c))),
       c_accepted := True, c_merge_status := lit ''applied''\<rparr>"

lemma merge_file_ok:
  assumes lay: "layout sr m" and run: "merge_file sv m (manifest_root sr m) hunks c d = (e, Inr y)"
  defines "p \<equiv> m_original_root m @ path_names (c_path c)"
  shows "snapshot_of e (before_snapshot (manifest_root sr m)) (c_path c) (file_at d p)"
    and "lookup e p \<noteq> Some Directory" and "\<And>q. strict_prefix q p \<Longrightarrow> \<not> path_is_file e q"
    and "y = merged_change sv hunks c (file_at e p)"
    and "\<not> list_ex (\<lambda>s. h_path s = c_path c) hunks \<Longrightarrow> file_at e p = file_at d (m_workspace_root m @ path_names (c_path c))"
proof -
  let ?bs = "before_snapshot (manifest_root sr m)" and ?as = "after_merge_snapshot (manifest_root sr m)"
  let ?b = "list_ex (\<lambda>s. h_path s = c_path c) hunks" and ?w = "m_workspace_root m @ path_names (c_path c)"
  from run obtain d1 d2 d3 h u1 u2 u3
    where s1: "snapshot_file (m_original_root m) ?bs (c_path c) d = (d1, Inr u1)"
      and s2: "(if ?b then apply_selected_hunks sv (m_original_root m) (m_workspace_root m) (c_path c) hunks
            else copy_file_or_remove (m_workspace_root m) (m_original_root m) (c_path c)) d1 = (d2, Inr u2)"
      and s3: "snapshot_file (m_original_root m) ?as (c_path c) d2 = (d3, Inr u3)"
      and s4: "project_hash sv m (c_path c) d3 = (e, Inr h)"
      and y: "y = c\<lparr>c_after_merge_hash := h,
                c_merged_hunks := (if path_hunks hunks (c_path c) = [] then None else Some (path_hunks hunks (c_path c))),
                c_accepted := True, c_merge_status := lit ''applied''\<rparr>"
    by (auto simp: merge_file_def Let_def and_then_ok)
  have e: "e = d3" by (rule project_hash_ok(1) [OF s4])
  have v1: "evolves (snapshot_files ?bs (c_path c)) d d1" using run_snapshot [of ?bs "c_path c" d "m_original_root m"] s1 by simp
  have v2: "evolves {p} d1 d2" using run_applied [of m "c_path c" d1 ?b sv hunks] s2 by (simp add: p_def)
  have v3: "evolves (snapshot_files ?as (c_path c)) d2 d3" using run_snapshot [of ?as "c_path c" d2 "m_original_root m"] s3 by simp
  note sep = project_path_separated [OF lay] snapshot_separated [OF lay]
  have "snapshot_of d1 ?bs (c_path c) (file_at d p)"
    unfolding p_def using sep(1) [of "path_names (c_path c)" "c_path c"]
    by (intro snapshot_file_ok [OF s1]) (auto simp: snapshot_files_def)
  then have "snapshot_of d2 ?bs (c_path c) (file_at d p)"
    by (rule snapshot_of_kept [OF _ v2]) (simp_all only: p_def sep)
  then show "snapshot_of e ?bs (c_path c) (file_at d p)"
    unfolding e by (rule snapshot_of_kept [OF _ v3]) (simp_all only: sep)
  have "lookup d2 p \<noteq> Some Directory"
    using s2 unfolding p_def by (cases ?b) (auto dest: apply_hunks_not_dir copy_not_dir)
  moreover have same: "lookup d3 p = lookup d2 p" by (rule evolves_separated [OF v3]) (simp only: p_def sep)
  ultimately show "lookup e p \<noteq> Some Directory" by (simp add: e)
  show "strict_prefix q p \<Longrightarrow> \<not> path_is_file e q" for q using project_hash_ok(3) [OF s4] by (simp add: e p_def)
  show "y = merged_change sv hunks c (file_at e p)"
    using project_hash_ok(2) [OF s4] by (simp add: y merged_change_def e p_def)
  show "file_at e p = file_at d ?w" if "\<not> ?b"
  proof -
    have "?w \<noteq> p" using sep(7) [of "path_names (c_path c)" "path_names (c_path c)"] by (auto simp: p_def)
    then have "file_at d2 p = file_at d1 ?w"
      using s2 that unfolding p_def by (intro copy_file_or_remove_ok) auto
    also have "\<dots> = file_at d ?w" by (rule separated_file [OF v1]) (simp only: sep)
    finally show ?thesis using same by (simp add: e file_at_def)
  qed
qed

section \<open>Merging all files\<close>

text \<open>Two changes that do not get in each other's way, if both are merged.\<close>

definition changes_apart :: "fpath \<Rightarrow> task_manifest \<Rightarrow> rstr set \<Rightarrow> changed_file \<Rightarrow> changed_file \<Rightarrow> bool" where
  "changes_apart sr m accepted c z \<longleftrightarrow>
     (c_path c \<in> accepted \<longrightarrow> c_path z \<in> accepted \<longrightarrow>
        layout sr m \<and> path_names (c_path c) \<parallel> path_names (c_path z) \<and> encode_path (c_path c) \<noteq> encode_path (c_path z))"

lemma apart_separated:
  assumes "layout sr m" "path_names p \<parallel> path_names r" "encode_path p \<noteq> encode_path r"
  shows "separated (m_original_root m @ path_names p) (entry_files sr m r)"
    "separated (before_blob sr m p) (entry_files sr m r)" "separated (before_marker sr m p) (entry_files sr m r)"
    "separated (m_workspace_root m @ x) (entry_files sr m r)"
    "strict_prefix q (m_original_root m @ path_names p) \<Longrightarrow> q \<notin> entry_files sr m r"
proof -
  have par: "m_original_root m @ path_names p \<parallel> m_original_root m @ path_names r"
    using assms(2) by (simp add: parallel_def)
  note sep = project_path_separated [OF assms(1)] snapshot_separated [OF assms(1)] assms(3)
  show "separated (m_original_root m @ path_names p) (entry_files sr m r)"
    "separated (before_blob sr m p) (entry_files sr m r)" "separated (before_marker sr m p) (entry_files sr m r)"
    "separated (m_workspace_root m @ x) (entry_files sr m r)"
    using sep par unfolding entry_files_def by (simp_all add: parallel_def)
  show "q \<notin> entry_files sr m r" if q: "strict_prefix q (m_original_root m @ path_names p)"
  proof
    assume "q \<in> entry_files sr m r"
    then consider "q = m_original_root m @ path_names r" | s where "q = project_root sr (m_project_id m) @ s"
      by (auto simp: entry_files_def snapshot_files_def record_paths path_lock_def)
    then show False
    proof cases
      case 1
      with q par show ?thesis by (simp add: parallel_def strict_prefix_def)
    next
      case 2
      with q assms(1) show ?thesis by (auto simp: layout_def strict_prefix_def parallel_D)
    qed
  qed
qed

definition merge_needs :: "fpath \<Rightarrow> task_manifest \<Rightarrow> rstr set \<Rightarrow> task_disk \<Rightarrow> changed_file \<Rightarrow> task_disk \<Rightarrow> bool" where
  "merge_needs sr m accepted d0 c d \<longleftrightarrow>
     (c_path c \<in> accepted \<longrightarrow> layout sr m \<and>
        file_at d (m_original_root m @ path_names (c_path c)) = file_at d0 (m_original_root m @ path_names (c_path c)) \<and>
        file_at d (m_workspace_root m @ path_names (c_path c)) = file_at d0 (m_workspace_root m @ path_names (c_path c)))"

definition merge_achieves ::
    "services \<Rightarrow> fpath \<Rightarrow> task_manifest \<Rightarrow> rstr set \<Rightarrow> hunk_selection list \<Rightarrow> task_disk
       \<Rightarrow> changed_file \<Rightarrow> changed_file \<Rightarrow> task_disk \<Rightarrow> bool" where
  "merge_achieves sv sr m accepted hunks d0 c y d \<longleftrightarrow>
     (if c_path c \<notin> accepted then y = c
      else
        (let p = m_original_root m @ path_names (c_path c)
         in layout sr m \<and> snapshot_of d (before_snapshot (manifest_root sr m)) (c_path c) (file_at d0 p) \<and>
            lookup d p \<noteq> Some Directory \<and> (\<forall>q. strict_prefix q p \<longrightarrow> \<not> path_is_file d q) \<and>
            y = merged_change sv hunks c (file_at d p) \<and>
            (list_ex (\<lambda>s. h_path s = c_path c) hunks \<or>
             file_at d p = file_at d0 (m_workspace_root m @ path_names (c_path c)))))"

lemma merge_entry_accepted:
  assumes "merge_entry sv sr m accepted hunks c d = (e, Inr y)" "c_path c \<in> accepted"
  obtains d1 d2 where "evolves {path_lock sr m (c_path c)} d d1" "evolves {path_lock sr m (c_path c)} d2 e"
    "merge_file sv m (manifest_root sr m) hunks c d1 = (d2, Inr y)"
proof -
  from assms obtain d1 l where l: "acquire_path (project_root sr (m_project_id m)) (c_path c) d = (d1, Inr l)"
    and run: "holding l (merge_file sv m (manifest_root sr m) hunks c) d1 = (e, Inr y)"
    by (auto simp: merge_entry_def and_then_ok)
  from run obtain d2 where d2: "merge_file sv m (manifest_root sr m) hunks c d1 = (d2, Inr y)" and e: "e = release_lock l d2"
    by (auto simp: holding_def split: prod.splits)
  have lock: "l = path_lock sr m (c_path c)" by (rule acquire_path_ok [OF l])
  show thesis
  proof (rule that [OF _ _ d2])
    show "evolves {path_lock sr m (c_path c)} d d1"
      using run_acquire_path [of sr m "c_path c" "{path_lock sr m (c_path c)}" d] l by simp
    show "evolves {path_lock sr m (c_path c)} d2 e"
      using run_fs_remove_file [of l "{l}" d2] by (simp add: e release_lock_def lock)
  qed
qed

lemma merge_round_ok:
  assumes needs: "merge_needs sr m accepted d0 c d" and run: "merge_entry sv sr m accepted hunks c d = (e, Inr y)"
  shows "merge_achieves sv sr m accepted hunks d0 c y e"
proof (cases "c_path c \<in> accepted")
  case True
  let ?p = "m_original_root m @ path_names (c_path c)" and ?w = "m_workspace_root m @ path_names (c_path c)"
  let ?lock = "{path_lock sr m (c_path c)}"
  from needs True have lay: "layout sr m" and p0: "file_at d ?p = file_at d0 ?p" and w0: "file_at d ?w = file_at d0 ?w"
    by (simp_all add: merge_needs_def)
  obtain d1 d2 where v1: "evolves ?lock d d1" and v2: "evolves ?lock d2 e"
    and mf: "merge_file sv m (manifest_root sr m) hunks c d1 = (d2, Inr y)"
    by (rule merge_entry_accepted [OF run True])
  note sep = project_path_separated [OF lay] snapshot_separated [OF lay]
  have p1: "file_at d1 ?p = file_at d0 ?p" using separated_file [OF v1 sep(3)] p0 by simp
  have w1: "file_at d1 ?w = file_at d0 ?w" using separated_file [OF v1 sep(6)] w0 by simp
  have same: "lookup e ?p = lookup d2 ?p" by (rule evolves_separated [OF v2 sep(3)])
  then have sfile: "file_at e ?p = file_at d2 ?p" by (simp add: file_at_def)
  note ok = merge_file_ok [OF lay mf]
  have "snapshot_of e (before_snapshot (manifest_root sr m)) (c_path c) (file_at d0 ?p)"
    using snapshot_of_kept [OF ok(1) v2 sep(10,11)] p1 by simp
  moreover have "\<not> path_is_file e q" if "strict_prefix q ?p" for q
  proof -
    have "q \<noteq> path_lock sr m (c_path c)"
      using that lay by (auto simp: path_lock_def layout_def strict_prefix_def parallel_D)
    then have "file_at e q = file_at d2 q" using v2 by (intro evolves_file) auto
    with ok(3) [OF that] show ?thesis by (simp flip: file_at_None_iff)
  qed
  ultimately show ?thesis
    using True lay ok(2,4,5) same w1 by (auto simp: merge_achieves_def Let_def sfile)
qed (use run in \<open>auto simp: merge_entry_def merge_achieves_def\<close>)

lemma merge_entry_evolves:
  assumes "merge_entry sv sr m accepted hunks z d = (e, Inr y)"
  shows "if c_path z \<in> accepted then evolves (entry_files sr m (c_path z)) d e else e = d"
  using assms run_merge_entry [of z accepted sr m "entry_files sr m (c_path z)" d sv hunks]
  by (auto simp: merge_entry_def)

lemma merge_needs_kept:
  assumes "changes_apart sr m accepted c z" "merge_needs sr m accepted d0 c d"
    and "merge_entry sv sr m accepted hunks z d = (e, Inr y)"
  shows "merge_needs sr m accepted d0 c e"
proof (cases "c_path c \<in> accepted \<and> c_path z \<in> accepted")
  case True
  with assms have lay: "layout sr m" "path_names (c_path c) \<parallel> path_names (c_path z)"
      "encode_path (c_path c) \<noteq> encode_path (c_path z)" and v: "evolves (entry_files sr m (c_path z)) d e"
    using merge_entry_evolves [OF assms(3)] by (auto simp: changes_apart_def)
  with assms(2) separated_file [OF v apart_separated(1) [OF lay]] separated_file [OF v apart_separated(4) [OF lay]]
  show ?thesis by (simp add: merge_needs_def)
qed (use assms merge_entry_evolves [OF assms(3)] in \<open>auto simp: merge_needs_def split: if_splits\<close>)

lemma merge_achieves_kept:
  assumes "changes_apart sr m accepted c z" "merge_achieves sv sr m accepted hunks d0 c v d"
    and "merge_entry sv sr m accepted hunks z d = (e, Inr y)"
  shows "merge_achieves sv sr m accepted hunks d0 c v e"
proof (cases "c_path c \<in> accepted \<and> c_path z \<in> accepted")
  case True
  with assms have lay: "layout sr m" "path_names (c_path c) \<parallel> path_names (c_path z)"
      "encode_path (c_path c) \<noteq> encode_path (c_path z)" and ev: "evolves (entry_files sr m (c_path z)) d e"
    using merge_entry_evolves [OF assms(3)] by (auto simp: changes_apart_def)
  note sep = apart_separated [OF lay]
  have same: "lookup e (m_original_root m @ path_names (c_path c)) = lookup d (m_original_root m @ path_names (c_path c))"
    by (rule evolves_separated [OF ev sep(1)])
  moreover have "\<not> path_is_file e q"
    if "strict_prefix q (m_original_root m @ path_names (c_path c))" "\<not> path_is_file d q" for q
    using evolves_file [OF ev sep(5) [OF that(1)]] that(2) by (simp flip: file_at_None_iff)
  ultimately show ?thesis
    using assms(2) True snapshot_of_kept [OF _ ev sep(2,3)] by (auto simp: merge_achieves_def Let_def file_at_def)
qed (use assms merge_entry_evolves [OF assms(3)] in \<open>auto simp: merge_achieves_def split: if_splits\<close>)

interpretation merging: independent_rounds "merge_entry sv sr m accepted hunks" "changes_apart sr m accepted"
  "merge_needs sr m accepted d0" "merge_achieves sv sr m accepted hunks d0" for sv sr m accepted hunks d0
  by unfold_locales (blast intro: merge_round_ok merge_needs_kept merge_achieves_kept)+

section \<open>The steps of a merge\<close>

lemma stop_with_not_ok: "stop_with sv sr mp m st err d \<noteq> (e, Inr u)"
  by (auto simp: stop_with_def and_then_ok)

lemma check_unchanged_ok:
  assumes "check_unchanged sv sr mp m accepted c d = (e, Inr u)"
  shows "e = d \<and> (c_path c \<in> accepted \<longrightarrow>
           c_before_hash c = map_option (hash_of sv) (file_at d (m_original_root m @ path_names (c_path c))))"
  using assms
  by (auto simp: check_unchanged_def and_then_ok stop_with_not_ok split: if_splits dest: project_hash_ok)

lemma checks_ok:
  assumes "for_each (check_unchanged sv sr mp m accepted) cs d = (e, Inr u)"
  shows "e = d \<and> (\<forall>c \<in> set cs. c_path c \<in> accepted \<longrightarrow>
           c_before_hash c = map_option (hash_of sv) (file_at d (m_original_root m @ path_names (c_path c))))"
  using assms
proof (induction cs)
  case (Cons c cs)
  from Cons.prems obtain d1 v where "check_unchanged sv sr mp m accepted c d = (d1, Inr v)"
    and "for_each (check_unchanged sv sr mp m accepted) cs d1 = (e, Inr u)"
    by (auto simp: and_then_ok)
  with check_unchanged_ok [of sv sr mp m accepted c d d1 v] Cons.IH show ?case by simp
qed simp

text \<open>The files that the end of a merge or rollback writes.\<close>

definition task_records :: "fpath \<Rightarrow> fpath set" where
  "task_records root = range (task_record_path root)"

lemma run_append_exact: "evolves {timeline_path root} d (fst (append_timeline_event sv root tid kind payload d))"
  unfolding append_timeline_event_def
  by (intro ev.run_and_then ev.run_plain run_create_above [of _ "lit ''timeline.jsonl''"] run_fs_write)
     (simp_all add: timeline_path_def)

lemma run_status_exact:
  "evolves (task_records (project_root sr pid)) d (fst (write_task_status sv sr pid tid st d))"
  unfolding write_task_status_def write_task_record_def Let_def
  by (auto split: option.splits simp: task_records_def intro!: ev.run_and_then ev.run_plain run_create_parent run_fs_write)

lemma run_manifest_exact: "evolves {mp} d (fst (manifest_write_to_path m mp d))"
  unfolding manifest_write_to_path_def by (intro ev.run_and_then run_create_parent run_fs_write) simp_all

lemma manifest_write_ok: "manifest_write_to_path m mp d = (e, Inr u) \<Longrightarrow> lookup e mp = Some (File (Json (ManifestJson m)))"
  by (auto simp: manifest_write_to_path_def and_then_ok fs_write_lookup)

lemma append_timeline_ok:
  "append_timeline_event sv root tid kind payload d = (e, Inr ev) \<Longrightarrow>
     \<exists>es. lookup e (timeline_path root) = Some (File (Json (TimelineJson es)))"
  by (auto simp: append_timeline_event_def and_then_ok fs_write_lookup)

text \<open>A task record that can be rewritten.\<close>

definition record_ready :: "fpath \<Rightarrow> rstr \<Rightarrow> task_disk \<Rightarrow> bool" where
  "record_ready root tid d \<longleftrightarrow>
     lookup d (task_record_path root tid) = None \<or>
     (\<exists>t. lookup d (task_record_path root tid) = Some (File (Json (TaskJson t))) \<and>
          path_is_file d (task_record_path root (t_id t)))"

lemma task_record_path_inj [simp]: "task_record_path root a = task_record_path root b \<longleftrightarrow> a = b"
  by (simp add: task_record_path_def)

lemma create_parent_is_file: "create_dir_all (butlast p) d = (e, r) \<Longrightarrow> path_is_file e q \<longleftrightarrow> path_is_file d q"
  using create_parent_file [of p d e r q] file_at_None_iff by metis

lemma read_task_record_ok:
  assumes "read_task_record root tid d = Inr (Some t)"
  shows "lookup d (task_record_path root tid) = Some (File (Json (TaskJson t)))"
proof -
  from assms obtain c where "fs_read (task_record_path root tid) d = Inr c"
    "(case c of Json j \<Rightarrow> (case as_task j of Some v \<Rightarrow> Inr v | None \<Rightarrow> Inl JsonError) | _ \<Rightarrow> Inl JsonError) = (Inr t :: (core_error, task_record) result)"
    by (auto simp: read_task_record_def read_json_def Let_def rbind_eq_Inr_iff split: if_splits)
  then show ?thesis
    by (auto simp: fs_read_def split: option.splits node.splits contents.splits if_splits elim!: as_task.elims)
qed

lemma write_task_status_ok:
  assumes "write_task_status sv sr pid tid st d = (e, Inr u)"
  shows "record_ready (project_root sr pid) tid e"
proof -
  let ?path = "task_record_path (project_root sr pid)"
  from assms obtain r where r: "read_task_record (project_root sr pid) tid d = Inr r"
    and run: "(case r of None \<Rightarrow> give () | Some task \<Rightarrow> and_then (asking (now sv)) (\<lambda>t. write_task_record (project_root sr pid)
        (task\<lparr>t_status := st, t_updated_at := t,
           t_completed_at := (if is_terminal st then Some t else t_completed_at task)\<rparr>))) d = (e, Inr u)"
    by (auto simp: write_task_status_def Let_def and_then_ok)
  show ?thesis
  proof (cases r)
    case None
    with r run show ?thesis
      by (auto simp: record_ready_def read_task_record_def Let_def rbind_eq_Inr_iff path_exists_def split: if_splits)
  next
    case (Some task)
    with r have old: "lookup d (?path tid) = Some (File (Json (TaskJson task)))" by (simp add: read_task_record_ok)
    define t' where "t' = task\<lparr>t_status := st, t_updated_at := now sv d,
       t_completed_at := (if is_terminal st then Some (now sv d) else t_completed_at task)\<rparr>"
    then have t': "t_id t' = t_id task" by simp
    from run Some obtain d1 where d1: "create_dir_all (butlast (?path (t_id task))) d = (d1, Inr ())"
      and w: "fs_write (?path (t_id task)) (Json (TaskJson t')) d1 = (e, Inr u)"
      unfolding t'_def by (auto simp: write_task_record_def Let_def and_then_ok)
    have "file_at d1 (?path tid) = Some (Json (TaskJson task))"
      using create_parent_file [OF d1] old by (simp add: file_at_Some_iff)
    then have "lookup e (?path tid) = Some (File (Json (TaskJson (if tid = t_id task then t' else task))))"
      using fs_write_lookup [OF w] by (simp add: file_at_Some_iff)
    moreover have "path_is_file e (?path (t_id task))" using fs_write_lookup [OF w] by (simp add: path_is_file_iff)
    ultimately show ?thesis using t' by (auto simp: record_ready_def)
  qed
qed

lemma manifest_root_paths:
  "timeline_path (manifest_root sr m) = project_root sr (m_project_id m) @ [lit ''tasks'', m_task_id m, lit ''timeline.jsonl'']"
  "manifest_file sr (m_project_id m) (m_task_id m) = project_root sr (m_project_id m) @ [lit ''tasks'', m_task_id m, lit ''manifest.json'']"
  "manifest_root sr m @ [lit ''changes'', lit ''accepted.diff''] =
     project_root sr (m_project_id m) @ [lit ''tasks'', m_task_id m, lit ''changes'', lit ''accepted.diff'']"
  by (simp_all add: timeline_path_def manifest_file_def task_root_def)

definition end_files :: "fpath \<Rightarrow> task_manifest \<Rightarrow> fpath set" where
  "end_files sr m =
     {manifest_file sr (m_project_id m) (m_task_id m), timeline_path (manifest_root sr m), merge_lock sr m,
      manifest_root sr m @ [lit ''changes'', lit ''accepted.diff'']} \<union> task_records (project_root sr (m_project_id m))"

lemma separated_records:
  "separated (project_root sr pid @ [a, b, lit ''manifest.json'']) (task_records (project_root sr pid))"
  "separated (project_root sr pid @ [a, b, lit ''timeline.jsonl'']) (task_records (project_root sr pid))"
  "separated (project_root sr pid @ [a, b, c, x, y]) (task_records (project_root sr pid))"
  by (auto simp: separated_def task_records_def task_record_path_def strict_prefix_def)

lemma end_separated:
  "separated (before_blob sr m p) (end_files sr m)" "separated (before_marker sr m p) (end_files sr m)"
  "layout sr m \<Longrightarrow> separated (m_original_root m @ x) (end_files sr m)"
  "layout sr m \<Longrightarrow> strict_prefix q (m_original_root m @ x) \<Longrightarrow> q \<notin> end_files sr m"
proof -
  show "separated (before_blob sr m p) (end_files sr m)" "separated (before_marker sr m p) (end_files sr m)"
    unfolding end_files_def separated_Un record_paths
    by (simp_all add: manifest_file_def timeline_path_def merge_lock_def separated_records task_root_def)
  have end_own: "end_files sr m \<subseteq> {q. prefix (project_root sr (m_project_id m)) q}"
    by (auto simp: end_files_def manifest_root_paths merge_lock_def task_records_def task_record_path_def task_root_def timeline_path_def)
  have far: "\<not> prefix (m_original_root m @ x) s" "\<not> prefix s (m_original_root m @ x)"
    if "layout sr m" "s \<in> end_files sr m" for s
  proof -
    from that end_own obtain y where "s = project_root sr (m_project_id m) @ y" by (auto simp: prefix_def)
    with that(1) show "\<not> prefix (m_original_root m @ x) s" "\<not> prefix s (m_original_root m @ x)"
      by (simp_all add: layout_def parallel_D)
  qed
  show "separated (m_original_root m @ x) (end_files sr m)" if "layout sr m"
    using far(1) [OF that] by (auto simp: separated_def strict_prefix_def)
  show "q \<notin> end_files sr m" if "layout sr m" "strict_prefix q (m_original_root m @ x)"
    using far(2) [OF that(1), of q] that(2) by (auto simp: strict_prefix_def)
qed

text \<open>What the disk and the manifest look like after a merge that succeeds.\<close>

definition merged_state ::
    "services \<Rightarrow> fpath \<Rightarrow> task_manifest \<Rightarrow> merge_selection \<Rightarrow> task_disk \<Rightarrow> task_disk \<Rightarrow> task_manifest \<Rightarrow> bool" where
  "merged_state sv sr m sel d e m1 \<longleftrightarrow>
     m_original_root m1 = m_original_root m \<and> m_project_id m1 = m_project_id m \<and> m_task_id m1 = m_task_id m \<and>
     m_workspace_root m1 = m_workspace_root m \<and>
     lookup e (manifest_file sr (m_project_id m) (m_task_id m)) = Some (File (Json (ManifestJson m1))) \<and>
     (\<exists>es. lookup e (timeline_path (manifest_root sr m)) = Some (File (Json (TimelineJson es)))) \<and>
     record_ready (project_root sr (m_project_id m)) (m_task_id m) e \<and>
     list_all2 (\<lambda>c y. merge_achieves sv sr m (selected_paths (m_changed_files m) sel) (hunk_selections sel) d c y e)
       (m_changed_files m) (m_changed_files m1)"

lemma merge_achieves_end:
  assumes "merge_achieves sv sr m accepted hunks d0 c y d" "evolves (end_files sr m) d e"
  shows "merge_achieves sv sr m accepted hunks d0 c y e"
proof (cases "c_path c \<in> accepted")
  case True
  with assms(1) have lay: "layout sr m" by (simp add: merge_achieves_def Let_def)
  have "lookup e (m_original_root m @ path_names (c_path c)) = lookup d (m_original_root m @ path_names (c_path c))"
    by (rule evolves_separated [OF assms(2) end_separated(3) [OF lay]])
  moreover have "\<not> path_is_file e q"
    if "strict_prefix q (m_original_root m @ path_names (c_path c))" "\<not> path_is_file d q" for q
    using evolves_file [OF assms(2) end_separated(4) [OF lay that(1)]] that(2) by (simp flip: file_at_None_iff)
  ultimately show ?thesis
    using assms(1) True snapshot_of_kept [OF _ assms(2) end_separated(1,2)]
    by (auto simp: merge_achieves_def Let_def file_at_def)
qed (use assms in \<open>auto simp: merge_achieves_def\<close>)

lemma record_ready_kept:
  assumes "record_ready (project_root sr pid) tid d" "evolves {q} d e"
    and "\<And>r. r \<in> task_records (project_root sr pid) \<Longrightarrow> \<not> prefix r q"
  shows "record_ready (project_root sr pid) tid e"
proof -
  have "lookup e (task_record_path (project_root sr pid) t) = lookup d (task_record_path (project_root sr pid) t)" for t
    using assms(3) by (intro evolves_separated [OF assms(2)]) (simp add: task_records_def)
  then show ?thesis using assms(1) by (auto simp: record_ready_def path_is_file_iff)
qed

lemma merge_end_ok:
  assumes run: "and_then (fs_write (manifest_root sr m @ [lit ''changes'', lit ''accepted.diff'']) diff) (\<lambda>_.
      and_then (asking (now sv)) (\<lambda>t.
      and_then (manifest_write_to_path (m1\<lparr>m_status := RollbackAvailable, m_updated_at := t\<rparr>) mp) (\<lambda>_.
      and_then (write_task_status sv sr (m_project_id m) (m_task_id m) RollbackAvailable) (\<lambda>_.
      and_then (append_timeline sv sr (m_project_id m) (m_task_id m) MergeCompleted payload) (\<lambda>_. give r))))) d = (e, Inr s)"
    and mp: "mp = manifest_file sr (m_project_id m) (m_task_id m)"
  shows "evolves (end_files sr m) d e" "s = r"
    "\<exists>t. lookup e mp = Some (File (Json (ManifestJson (m1\<lparr>m_status := RollbackAvailable, m_updated_at := t\<rparr>))))"
    "\<exists>es. lookup e (timeline_path (manifest_root sr m)) = Some (File (Json (TimelineJson es)))"
    "record_ready (project_root sr (m_project_id m)) (m_task_id m) e"
proof -
  let ?R = "task_records (project_root sr (m_project_id m))" and ?tl = "timeline_path (manifest_root sr m)"
  let ?diff = "manifest_root sr m @ [lit ''changes'', lit ''accepted.diff'']"
  from run obtain d1 d2 d3 t u1 u2 u3 u4
    where s1: "fs_write ?diff diff d = (d1, Inr u1)"
      and s2: "manifest_write_to_path (m1\<lparr>m_status := RollbackAvailable, m_updated_at := t\<rparr>) mp d1 = (d2, Inr u2)"
      and s3: "write_task_status sv sr (m_project_id m) (m_task_id m) RollbackAvailable d2 = (d3, Inr u3)"
      and s4: "append_timeline sv sr (m_project_id m) (m_task_id m) MergeCompleted payload d3 = (e, Inr u4)" and r: "s = r"
    by (auto simp: and_then_ok)
  have v1: "evolves {?diff} d d1" using run_fs_write [of ?diff "{?diff}" d diff] s1 by simp
  have v2: "evolves {mp} d1 d2" using run_manifest_exact [of mp d1] s2 by (metis fst_conv)
  have v3: "evolves ?R d2 d3"
    using run_status_exact [of sr "m_project_id m" d2 sv "m_task_id m" RollbackAvailable] s3 by simp
  have v4: "evolves {?tl} d3 e" using run_append_exact [of "manifest_root sr m" d3 sv "m_task_id m" MergeCompleted payload] s4 by simp
  note sub = evolves_mono [of _ _ _ "end_files sr m"]
  have "evolves (end_files sr m) d d1" by (rule sub [OF v1]) (simp add: end_files_def)
  moreover have "evolves (end_files sr m) d1 d2" by (rule sub [OF v2]) (simp add: end_files_def mp)
  moreover have "evolves (end_files sr m) d2 d3" by (rule sub [OF v3]) (auto simp: end_files_def)
  moreover have "evolves (end_files sr m) d3 e" by (rule sub [OF v4]) (simp add: end_files_def)
  ultimately show "evolves (end_files sr m) d e" by (blast intro: evolves_trans)
  show "s = r" by (rule r)
  have "lookup d3 mp = lookup d2 mp"
    by (rule evolves_separated [OF v3]) (simp only: mp manifest_root_paths separated_records)
  moreover have "lookup e mp = lookup d3 mp"
    by (rule evolves_separated [OF v4]) (simp add: mp manifest_root_paths)
  ultimately show "\<exists>t. lookup e mp = Some (File (Json (ManifestJson (m1\<lparr>m_status := RollbackAvailable, m_updated_at := t\<rparr>))))"
    using manifest_write_ok [OF s2] by auto
  show "\<exists>es. lookup e ?tl = Some (File (Json (TimelineJson es)))" using append_timeline_ok [OF s4] .
  show "record_ready (project_root sr (m_project_id m)) (m_task_id m) e"
    using write_task_status_ok [OF s3] v4
    by (rule record_ready_kept) (auto simp: task_records_def task_record_path_def manifest_root_paths)
qed

definition refreshed :: "task_manifest \<Rightarrow> changed_file list \<Rightarrow> int \<Rightarrow> task_manifest" where
  "refreshed m0 changes t =
     m0\<lparr>m_status := (if changes = [] then WorkspaceReady else ChangesDetected), m_updated_at := t, m_changed_files := changes\<rparr>"

lemma refreshed_simps [simp]:
  "m_project_id (refreshed m0 changes t) = m_project_id m0" "m_task_id (refreshed m0 changes t) = m_task_id m0"
  "m_original_root (refreshed m0 changes t) = m_original_root m0"
  "m_workspace_root (refreshed m0 changes t) = m_workspace_root m0" "m_changed_files (refreshed m0 changes t) = changes"
  by (simp_all add: refreshed_def)

lemma merge_begin:
  assumes run: "merge sv sr mp sel d = (e, Inr out)" and m0: "manifest_read_from_path mp d = Inr m0"
    and changes: "compare_roots sv (m_original_root m0) (m_workspace_root m0) (m_changed_files m0) d = Inr changes"
  obtains m t d1 d2 where "m = refreshed m0 changes t" "evolves (own_files sr (m_project_id m0) mp) d d1"
    "merge_locked sv sr mp sel m d1 = (d2, Inr out)" "evolves {merge_lock sr m} d2 e"
proof -
  from run obtain d1 m where s1: "refresh_changes sv sr mp d = (d1, Inr m)"
    and run1: "and_then (acquire_merge (project_root sr (m_project_id m)) (m_task_id m))
                 (\<lambda>lock. holding lock (merge_locked sv sr mp sel m)) d1 = (e, Inr out)"
    by (auto simp: merge_def and_then_ok)
  from s1 obtain t where m: "m = refreshed m0 changes t"
    by (rule refresh_ok) (use m0 changes in \<open>simp add: refreshed_def\<close>)
  from run1 obtain d2 l where s2: "acquire_merge (project_root sr (m_project_id m)) (m_task_id m) d1 = (d2, Inr l)"
    and run2: "holding l (merge_locked sv sr mp sel m) d2 = (e, Inr out)"
    by (auto simp: and_then_ok)
  have l: "l = merge_lock sr m" by (rule acquire_merge_ok [OF s2])
  from run2 obtain d3 where s3: "merge_locked sv sr mp sel m d2 = (d3, Inr out)" and e: "e = release_lock l d3"
    by (auto simp: holding_def split: prod.splits)
  have "evolves (own_files sr (m_project_id m0) mp) d d1" using run_refresh_changes [OF m0, of sr sv] s1 by simp
  moreover have "merge_lock sr m \<in> own_files sr (m_project_id m0) mp" by (simp add: merge_lock_def m)
  then have "evolves (own_files sr (m_project_id m0) mp) d1 d2"
    using run_acquire_merge [of sr m "own_files sr (m_project_id m0) mp" d1] s2 by simp
  ultimately have "evolves (own_files sr (m_project_id m0) mp) d d2" by (rule evolves_trans)
  moreover have "evolves {merge_lock sr m} d3 e"
    using run_fs_remove_file [of l "{l}" d3] by (simp add: e release_lock_def l)
  ultimately show thesis using that m s3 by blast
qed

text \<open>Files outside the record of the task.\<close>

lemma own_files_outside:
  assumes "layout sr m0" "mp = manifest_file sr (m_project_id m0) (m_task_id m0)"
  shows "m_original_root m0 @ x \<notin> own_files sr (m_project_id m0) mp" "m_workspace_root m0 @ x \<notin> own_files sr (m_project_id m0) mp"
  using assms by (auto simp: own_files_def layout_def manifest_file_def task_root_def prefix_def dest: parallel_D)

lemma merge_ok:
  assumes run: "merge sv sr mp sel d = (e, Inr out)" and m0: "manifest_read_from_path mp d = Inr m0"
    and mp: "mp = manifest_file sr (m_project_id m0) (m_task_id m0)"
    and changes: "compare_roots sv (m_original_root m0) (m_workspace_root m0) (m_changed_files m0) d = Inr changes"
    and lay: "layout sr m0"
    and apart: "\<And>t. sorted_wrt (\<lambda>c z. changes_apart sr (refreshed m0 changes t) (selected_paths changes sel) c z \<and>
                  changes_apart sr (refreshed m0 changes t) (selected_paths changes sel) z c) changes"
  obtains t m1 where "merged_state sv sr (refreshed m0 changes t) sel d e m1"
    "mo_accepted_paths out = filter (\<lambda>p. p \<in> selected_paths changes sel) (map c_path changes)"
    "mo_skipped_paths out = filter (\<lambda>p. p \<notin> selected_paths changes sel) (map c_path changes)"
    "\<forall>c \<in> set changes. c_path c \<in> selected_paths changes sel \<longrightarrow>
           c_before_hash c = map_option (hash_of sv) (file_at d (m_original_root m0 @ path_names (c_path c)))"
proof -
  let ?own = "own_files sr (m_project_id m0) mp"
  obtain m t d2 d3 where m: "m = refreshed m0 changes t" and v1: "evolves ?own d d2"
    and s3: "merge_locked sv sr mp sel m d2 = (d3, Inr out)" and v3: "evolves {merge_lock sr m} d3 e"
    by (rule merge_begin [OF run m0 changes])
  have fields: "m_project_id m = m_project_id m0" "m_task_id m = m_task_id m0" "m_original_root m = m_original_root m0"
    "m_workspace_root m = m_workspace_root m0" "m_changed_files m = changes" by (simp_all add: m)
  let ?acc = "selected_paths changes sel"
  let ?ap = "filter (\<lambda>p. p \<in> ?acc) (map c_path changes)" and ?sp = "filter (\<lambda>p. p \<notin> ?acc) (map c_path changes)"
  from s3 obtain d4 d5 d6 changes' u1 u2 where s4: "append_timeline sv sr (m_project_id m) (m_task_id m) MergeStarted
                     (MergeStartedPayload sel) d2 = (d4, Inr u1)"
    and s5: "for_each (check_unchanged sv sr mp m ?acc) changes d4 = (d5, Inr u2)"
    and s6: "map_each (merge_entry sv sr m ?acc (hunk_selections sel)) changes d5 = (d6, Inr changes')"
    and s7: "and_then (fs_write (manifest_root sr m @ [lit ''changes'', lit ''accepted.diff''])
                          (Utf8 (render_selected_diff (m\<lparr>m_changed_files := changes'\<rparr>) ?ap))) (\<lambda>_.
              and_then (asking (now sv)) (\<lambda>t.
              and_then (manifest_write_to_path (m\<lparr>m_changed_files := changes'\<rparr>\<lparr>m_status := RollbackAvailable, m_updated_at := t\<rparr>) mp) (\<lambda>_.
              and_then (write_task_status sv sr (m_project_id m) (m_task_id m) RollbackAvailable) (\<lambda>_.
              and_then (append_timeline sv sr (m_project_id m) (m_task_id m) MergeCompleted
                          (MergeCompletedPayload ?ap ?sp)) (\<lambda>_.
                give \<lparr>mo_task_id = m_task_id m, mo_accepted_paths = ?ap, mo_skipped_paths = ?sp, mo_changed_files = changes'\<rparr>)))))
              d6 = (d3, Inr out)"
    unfolding merge_locked_def Let_def and_then_ok fields(5) by blast
  from checks_ok [OF s5] have d5: "d5 = d4"
    and checks: "\<And>c. c \<in> set changes \<Longrightarrow> c_path c \<in> ?acc \<Longrightarrow>
      c_before_hash c = map_option (hash_of sv) (file_at d4 (m_original_root m @ path_names (c_path c)))" by auto
  have "evolves ?own d2 d4"
    using own.run_append_timeline [of sr "m_project_id m0" mp "{}" d2 sv "m_task_id m0" MergeStarted "MergeStartedPayload sel"] s4
    by (simp add: fields)
  then have v5: "evolves ?own d d5" using v1 d5 by (auto intro: evolves_trans)
  have outside: "file_at d5 (m_original_root m @ x) = file_at d (m_original_root m @ x)"
    "file_at d5 (m_workspace_root m @ x) = file_at d (m_workspace_root m @ x)" for x
    using own_files_outside [OF lay mp, of x] by (simp_all add: evolves_file [OF v5] fields)
  have laym: "layout sr m" using lay by (simp add: layout_def fields)
  have ach: "list_all2 (\<lambda>c y. merge_achieves sv sr m ?acc (hunk_selections sel) d c y d6) changes changes'"
    by (rule merging.loop_ok [OF s6]) (use apart m laym outside in \<open>simp_all add: merge_needs_def\<close>)
  note fin = merge_end_ok [OF s7] mp
  have "evolves (end_files sr m) d3 e" by (rule evolves_mono [OF v3]) (simp add: end_files_def)
  with fin(1) mp have v6: "evolves (end_files sr m) d6 e" by (auto simp: fields intro: evolves_trans)
  have ach': "list_all2 (\<lambda>c y. merge_achieves sv sr m ?acc (hunk_selections sel) d c y e) changes changes'"
    by (rule list_all2_mono [OF ach]) (rule merge_achieves_end [OF _ v6])
  have mpm: "mp = manifest_file sr (m_project_id m) (m_task_id m)" by (simp add: mp fields)
  have "lookup e mp = lookup d3 mp" "lookup e (timeline_path (manifest_root sr m)) = lookup d3 (timeline_path (manifest_root sr m))"
    by (rule evolves_separated [OF v3], simp only: mpm manifest_root_paths merge_lock_def, simp)+
  with fin(3,4) [OF mpm] obtain t' es where look: "lookup e mp = Some (File (Json (ManifestJson
      (m\<lparr>m_changed_files := changes'\<rparr>\<lparr>m_status := RollbackAvailable, m_updated_at := t'\<rparr>))))"
    "lookup e (timeline_path (manifest_root sr m)) = Some (File (Json (TimelineJson es)))" by auto
  have ready: "record_ready (project_root sr (m_project_id m)) (m_task_id m) e"
    using fin(5) [OF mpm] v3
    by (rule record_ready_kept) (auto simp: task_records_def task_record_path_def merge_lock_def)
  show thesis
  proof (rule that)
    show "merged_state sv sr (refreshed m0 changes t) sel d e
        (m\<lparr>m_changed_files := changes'\<rparr>\<lparr>m_status := RollbackAvailable, m_updated_at := t'\<rparr>)"
      using ach' look ready mpm unfolding m [symmetric] by (auto simp: merged_state_def fields)
  qed (use fin(2) [OF mpm] checks outside d5 fields in \<open>auto\<close>)
qed

section \<open>Paths that can be merged together\<close>

text \<open>
  No path of a merge lies below another one (a file that became a directory), and the names of the snapshots keep
  the paths apart.
\<close>

definition mergeable :: "rstr set \<Rightarrow> bool" where
  "mergeable paths \<longleftrightarrow>
     (\<forall>p \<in> paths. \<forall>q \<in> paths. \<not> strict_prefix (path_names p) (path_names q)) \<and> inj_on encode_path paths"

lemma sorted_wrt_distinct:
  "distinct xs \<Longrightarrow> (\<And>x y. x \<in> set xs \<Longrightarrow> y \<in> set xs \<Longrightarrow> x \<noteq> y \<Longrightarrow> P x y) \<Longrightarrow> sorted_wrt P xs"
  by (induction xs) auto

lemma mergeable_apart:
  assumes changes: "compare_roots sv original_root workspace_root previous d = Inr changes" "clean_disk d"
    and lay: "layout sr m" and mergeable: "mergeable (accepted \<inter> c_path ` set changes)"
  shows "sorted_wrt (\<lambda>c z. changes_apart sr m accepted c z \<and> changes_apart sr m accepted z c) changes"
proof (rule sorted_wrt_distinct)
  show "distinct changes" using compare_roots_distinct [OF changes(1)] by (simp add: distinct_map)
  fix c z
  assume cz: "c \<in> set changes" "z \<in> set changes" "c \<noteq> z"
  have names: "path_names (c_path c) \<noteq> path_names (c_path z)" using compare_roots_names [OF changes cz(1,2)] cz(3) by blast
  have paths: "c_path c \<noteq> c_path z" using names by auto
  let ?A = "accepted \<inter> c_path ` set changes"
  have "path_names (c_path c) \<parallel> path_names (c_path z) \<and> encode_path (c_path c) \<noteq> encode_path (c_path z)"
    if "c_path c \<in> accepted" "c_path z \<in> accepted"
  proof -
    have A: "c_path c \<in> ?A" "c_path z \<in> ?A" using that cz(1,2) by simp_all
    then have "\<not> strict_prefix (path_names (c_path c)) (path_names (c_path z))"
      "\<not> strict_prefix (path_names (c_path z)) (path_names (c_path c))"
      using mergeable unfolding mergeable_def by blast+
    moreover have "encode_path (c_path c) \<noteq> encode_path (c_path z)"
      using mergeable A paths unfolding mergeable_def by (blast dest: inj_onD)
    ultimately show ?thesis using names by (auto simp: parallel_def strict_prefix_def)
  qed
  with lay show "changes_apart sr m accepted c z \<and> changes_apart sr m accepted z c"
    by (auto simp: changes_apart_def intro: parallel_commute [THEN iffD1])
qed

lemma merge_result:
  assumes run: "merge sv sr mp sel d = (e, Inr out)" and m0: "manifest_read_from_path mp d = Inr m0"
    and mp: "mp = manifest_file sr (m_project_id m0) (m_task_id m0)" and lay: "layout sr m0" and clean: "clean_disk d"
    and mergeable: "mergeable (set (mo_accepted_paths out))"
  obtains changes t m1 where
    "compare_roots sv (m_original_root m0) (m_workspace_root m0) (m_changed_files m0) d = Inr changes"
    "merged_state sv sr (refreshed m0 changes t) sel d e m1"
    "mo_accepted_paths out = filter (\<lambda>p. p \<in> selected_paths changes sel) (map c_path changes)"
    "\<forall>c \<in> set changes. c_path c \<in> selected_paths changes sel \<longrightarrow>
           c_before_hash c = map_option (hash_of sv) (file_at d (m_original_root m0 @ path_names (c_path c)))"
proof -
  from run obtain d1 m where "refresh_changes sv sr mp d = (d1, Inr m)" by (auto simp: merge_def and_then_ok)
  then obtain changes where
    changes: "compare_roots sv (m_original_root m0) (m_workspace_root m0) (m_changed_files m0) d = Inr changes"
    by (rule refresh_ok) (use m0 in simp)
  have acc: "set (mo_accepted_paths out) = selected_paths changes sel \<inter> c_path ` set changes"
  proof -
    obtain m t d1 d2 where m: "m = refreshed m0 changes t" and "evolves (own_files sr (m_project_id m0) mp) d d1"
      and "merge_locked sv sr mp sel m d1 = (d2, Inr out)" and "evolves {merge_lock sr m} d2 e"
      by (rule merge_begin [OF run m0 changes])
    then show ?thesis by (auto simp: merge_locked_def Let_def and_then_ok)
  qed
  have apart: "sorted_wrt (\<lambda>c z. changes_apart sr (refreshed m0 changes t) (selected_paths changes sel) c z \<and>
      changes_apart sr (refreshed m0 changes t) (selected_paths changes sel) z c) changes" for t
    by (rule mergeable_apart [OF changes clean]) (use lay mergeable acc in \<open>simp_all add: layout_def\<close>)
  show thesis
    by (rule merge_ok [OF run m0 mp changes lay apart]) (rule that [OF changes])
qed

end
