(* ===== verification/Task_Rollback.thy ===== *)
theory Task_Rollback
  imports Task_Merge
begin

text \<open>
  Rolling back: which files it can touch, and that after a merge that has succeeded its checks pass, every merged file is
  restored and the record of the task is stored.
\<close>

section \<open>Rolling back\<close>

text \<open>Writing over a file that is there succeeds when nothing is refused.\<close>

lemma overwrite_total:
  assumes "wf_disk d" "\<And>q. \<not> refused d q" "path_is_file d p"
  shows "\<exists>e. and_then (create_dir_all (butlast p)) (\<lambda>_. fs_write p c) d = (e, Inr ())"
proof -
  have p: "lookup d p \<noteq> None" "p \<noteq> []" using assms(3) by (auto simp: path_is_file_iff)
  have "\<not> path_is_file d q" if "prefix q (butlast p)" for q
  proof -
    have "strict_prefix q p" using that p(2) by (cases p rule: rev_cases) (auto simp: strict_prefix_def)
    with wf_disk_above [OF assms(1) p(1)] show ?thesis by (simp add: path_is_file_iff)
  qed
  with create_dir_all_total [OF assms(2), of "butlast p"] obtain e where
    e: "create_dir_all (butlast p) d = (e, Inr ())" "lookup e (butlast p) = Some Directory" by blast
  have "path_is_file e p" using create_parent_is_file [OF e(1)] assms(3) by simp
  moreover have "refused e = refused d" using run_create_parent [of p "{p}" d] e(1) by (simp add: evolves_def)
  ultimately have "fs_write p c e = (put_node p (File c) e, Inr ())"
    using assms(2) e(2) by (auto simp: fs_write_def path_is_file_iff)
  with e(1) show ?thesis by (simp add: and_then_def)
qed

lemma manifest_write_total:
  "wf_disk d \<Longrightarrow> (\<And>q. \<not> refused d q) \<Longrightarrow> path_is_file d mp \<Longrightarrow> \<exists>e. manifest_write_to_path m mp d = (e, Inr ())"
  unfolding manifest_write_to_path_def by (rule overwrite_total)

lemma append_timeline_total:
  assumes "wf_disk d" "\<And>q. \<not> refused d q" "lookup d (timeline_path root) = Some (File (Json (TimelineJson es)))"
  shows "\<exists>e ev. append_timeline_event sv root tid kind payload d = (e, Inr ev)"
proof -
  have "path_is_file d (timeline_path root)" using assms(3) by (simp add: path_is_file_iff)
  from overwrite_total [OF assms(1,2) this] obtain e c where
    "and_then (create_dir_all (butlast (timeline_path root))) (\<lambda>_. fs_write (timeline_path root) c) d = (e, Inr ())" by blast
  then obtain d1 where d1: "create_dir_all root d = (d1, Inr ())"
    and w: "fs_write (timeline_path root) c d1 = (e, Inr ())"
    by (auto simp: and_then_ok timeline_path_def)
  have "file_at d1 (timeline_path root) = Some (Json (TimelineJson es))"
    using create_parent_file [of "timeline_path root" d d1] d1 assms(3) by (simp add: timeline_path_def file_at_Some_iff)
  then have "read_timeline (timeline_path root) d1 = Inr es" by (simp add: read_timeline_def file_at_Some_iff)
  moreover have "\<exists>e. fs_write (timeline_path root) c' d1 = (e, Inr ())" for c'
    using w by (auto simp: fs_write_def split: if_splits)
  moreover define event where "event = \<lparr>e_id = new_uuid sv d1, e_task_id = tid, e_seq = length es, e_kind = kind,
                            e_created_at = now sv d1, e_payload = payload\<rparr>"
  ultimately obtain e' where e': "fs_write (timeline_path root) (Json (TimelineJson (es @ [event]))) d1 = (e', Inr ())"
    and r: "read_timeline (timeline_path root) d1 = Inr es" by blast
  then have "append_timeline_event sv root tid kind payload d = (e', Inr event)"
    using d1 by (simp add: append_timeline_event_def and_then_def event_def)
  then show ?thesis by blast
qed

lemma write_task_status_total:
  assumes "wf_disk d" "\<And>q. \<not> refused d q" "record_ready (project_root sr pid) tid d"
  shows "\<exists>e. write_task_status sv sr pid tid st d = (e, Inr ())"
proof (cases "lookup d (task_record_path (project_root sr pid) tid)")
  case None
  then show ?thesis by (simp add: write_task_status_def read_task_record_def path_exists_def Let_def and_then_def)
next
  case (Some n)
  with assms(3) obtain t where t: "lookup d (task_record_path (project_root sr pid) tid) = Some (File (Json (TaskJson t)))"
    "path_is_file d (task_record_path (project_root sr pid) (t_id t))" by (auto simp: record_ready_def)
  have "read_task_record (project_root sr pid) tid d = Inr (Some t)"
    using t(1) assms(2) by (simp add: read_task_record_def path_exists_def Let_def read_json_def fs_read_def)
  with overwrite_total [OF assms(1,2) t(2)] show ?thesis
    by (simp add: write_task_status_def write_task_record_def Let_def and_then_def [of "reading _"] and_then_def [of "asking _"])
qed

definition rolled_back_change :: "changed_file \<Rightarrow> changed_file" where
  "rolled_back_change c =
     c\<lparr>c_accepted := False, c_after_merge_hash := None, c_merged_hunks := None, c_merge_status := lit ''pending''\<rparr>"

lemma rollback_entry_whole:
  "rollback_entry sv m root paths [] c =
     (if \<not> to_roll_back paths c then give c
      else and_then (restore_snapshot (before_snapshot root) (m_original_root m) (c_path c)) (\<lambda>_. give (rolled_back_change c)))"
  by (simp add: rollback_entry_def Let_def path_hunks_def rolled_back_change_def)

definition rollback_apart :: "fpath \<Rightarrow> task_manifest \<Rightarrow> rstr set \<Rightarrow> changed_file \<Rightarrow> changed_file \<Rightarrow> bool" where
  "rollback_apart sr m paths c z \<longleftrightarrow>
     (to_roll_back paths c \<longrightarrow> to_roll_back paths z \<longrightarrow> layout sr m \<and> path_names (c_path c) \<parallel> path_names (c_path z))"

definition rollback_needs :: "fpath \<Rightarrow> task_manifest \<Rightarrow> rstr set \<Rightarrow> task_disk \<Rightarrow> changed_file \<Rightarrow> task_disk \<Rightarrow> bool" where
  "rollback_needs sr m paths d0 c d \<longleftrightarrow>
     (to_roll_back paths c \<longrightarrow>
        (let p = m_original_root m @ path_names (c_path c)
         in layout sr m \<and> (\<forall>q. \<not> refused d q) \<and> checked_join (m_original_root m) (c_path c) = Inr p \<and>
            snapshot_of d (before_snapshot (manifest_root sr m)) (c_path c) (file_at d0 p) \<and>
            lookup d p \<noteq> Some Directory \<and> (\<forall>q. strict_prefix q p \<longrightarrow> \<not> path_is_file d q)))"

definition rollback_achieves :: "task_manifest \<Rightarrow> rstr set \<Rightarrow> task_disk \<Rightarrow> changed_file \<Rightarrow> changed_file \<Rightarrow> task_disk \<Rightarrow> bool" where
  "rollback_achieves m paths d0 c y d \<longleftrightarrow>
     (if to_roll_back paths c
      then y = rolled_back_change c \<and>
        file_at d (m_original_root m @ path_names (c_path c)) = file_at d0 (m_original_root m @ path_names (c_path c))
      else y = c)"

lemma rollback_round_total:
  assumes "rollback_needs sr m paths d0 c d"
  shows "\<exists>e y. rollback_entry sv m (manifest_root sr m) paths [] c d = (e, Inr y) \<and> rollback_achieves m paths d0 c y e"
proof (cases "to_roll_back paths c")
  case True
  let ?p = "m_original_root m @ path_names (c_path c)"
  note n = assms [unfolded rollback_needs_def Let_def, rule_format, OF True]
  have "?p \<noteq> before_blob sr m (c_path c)" "\<not> strict_prefix (before_blob sr m (c_path c)) ?p"
    using n by (auto simp: record_paths layout_def strict_prefix_def parallel_D)
  with n restore_snapshot_total [of d "before_snapshot (manifest_root sr m)" "c_path c" "file_at d0 ?p" "m_original_root m" ?p]
  obtain e where "restore_snapshot (before_snapshot (manifest_root sr m)) (m_original_root m) (c_path c) d = (e, Inr ())"
    "file_at e ?p = file_at d0 ?p" by blast
  with True show ?thesis by (simp add: rollback_entry_whole and_then_def rollback_achieves_def)
qed (simp add: rollback_entry_whole rollback_achieves_def)

lemma rollback_entry_evolves:
  assumes "rollback_entry sv m root paths [] z d = (e, Inr y)"
  shows "if to_roll_back paths z then evolves {m_original_root m @ path_names (c_path z)} d e else e = d"
  using assms run_restore_snapshot [of "m_original_root m" "c_path z" "{m_original_root m @ path_names (c_path z)}" d "before_snapshot root"]
  by (auto simp: rollback_entry_whole and_then_ok)

lemma rollback_needs_kept:
  assumes "rollback_apart sr m paths c z" "rollback_needs sr m paths d0 c d"
    and "rollback_entry sv m (manifest_root sr m) paths [] z d = (e, Inr y)"
  shows "rollback_needs sr m paths d0 c e"
proof (cases "to_roll_back paths c \<and> to_roll_back paths z")
  case True
  let ?p = "m_original_root m @ path_names (c_path c)" and ?z = "m_original_root m @ path_names (c_path z)"
  from True assms have lay: "layout sr m" and par: "?p \<parallel> ?z" and ev: "evolves {?z} d e"
    using rollback_entry_evolves [OF assms(3)] by (auto simp: rollback_apart_def parallel_def)
  note n = assms(2) [unfolded rollback_needs_def Let_def, rule_format, OF conjunct1 [OF True]]
  have "lookup e ?p = lookup d ?p" using par by (intro evolves_separated [OF ev]) (simp add: parallel_def)
  moreover have "\<not> path_is_file e q" if "strict_prefix q ?p" for q
  proof -
    have "q \<noteq> ?z" using that par by (auto simp: parallel_def strict_prefix_def)
    then show ?thesis using evolves_file [OF ev, of q] n that by (simp flip: file_at_None_iff)
  qed
  ultimately show ?thesis
    using n evolves_refused [OF ev] snapshot_of_kept [OF _ ev snapshot_separated(1,2) [OF lay]]
    by (auto simp: rollback_needs_def Let_def)
qed (use assms(2) rollback_entry_evolves [OF assms(3)] in \<open>auto simp: rollback_needs_def split: if_splits\<close>)

lemma rollback_achieves_kept:
  assumes "rollback_apart sr m paths c z" "rollback_achieves m paths d0 c v d"
    and "rollback_entry sv m (manifest_root sr m) paths [] z d = (e, Inr y)"
  shows "rollback_achieves m paths d0 c v e"
proof (cases "to_roll_back paths c \<and> to_roll_back paths z")
  case True
  with assms have ev: "evolves {m_original_root m @ path_names (c_path z)} d e"
    and "m_original_root m @ path_names (c_path c) \<noteq> m_original_root m @ path_names (c_path z)"
    using rollback_entry_evolves [OF assms(3)] by (auto simp: rollback_apart_def)
  with evolves_file [OF ev] assms(2) show ?thesis by (simp add: rollback_achieves_def)
qed (use assms(2) rollback_entry_evolves [OF assms(3)] in \<open>auto simp: rollback_achieves_def split: if_splits\<close>)

interpretation rolling: successful_rounds "rollback_entry sv m (manifest_root sr m) paths []" "rollback_apart sr m paths"
  "rollback_needs sr m paths d0" "rollback_achieves m paths d0" for sv sr m paths d0
proof unfold_locales
  fix x e y and d :: task_disk
  assume "rollback_needs sr m paths d0 x d" "rollback_entry sv m (manifest_root sr m) paths [] x d = (e, Inr y)"
  then show "rollback_achieves m paths d0 x y e" using rollback_round_total [of sr m paths d0 x d sv] by auto
qed (blast intro: rollback_needs_kept rollback_achieves_kept dest: rollback_round_total)+

lemma for_each_stays: "(\<And>x. x \<in> set xs \<Longrightarrow> f x d = (d, Inr ())) \<Longrightarrow> for_each f xs d = (d, Inr ())"
  by (induction xs) (simp_all add: and_then_def)

lemma project_files_separated:
  assumes "layout sr m"
  shows "separated (project_root sr (m_project_id m) @ x) (project_files m paths)"
proof -
  have "\<not> prefix (project_root sr (m_project_id m) @ x) s" if "s \<in> project_files m paths" for s
    using that assms by (auto simp: project_files_def layout_def parallel_D)
  then show ?thesis by (auto simp: separated_def strict_prefix_def)
qed

lemma record_ready_lookup:
  "(\<And>t. lookup e (task_record_path root t) = lookup d (task_record_path root t)) \<Longrightarrow>
     record_ready root tid d \<Longrightarrow> record_ready root tid e"
  by (auto simp: record_ready_def path_is_file_iff)

text \<open>The end of a rollback, which stores the manifest, the task record and the event.\<close>

lemma rollback_end_total:
  assumes "wf_disk d" "\<And>q. \<not> refused d q" and mp: "mp = manifest_file sr (m_project_id m) (m_task_id m)"
    and "path_is_file d mp" and ready: "record_ready (project_root sr (m_project_id m)) (m_task_id m) d"
    and tl: "lookup d (timeline_path (manifest_root sr m)) = Some (File (Json (TimelineJson es)))"
  shows "\<exists>e. and_then (manifest_write_to_path m1 mp) (\<lambda>_.
      and_then (write_task_status sv sr (m_project_id m) (m_task_id m) st) (\<lambda>_.
      and_then (append_timeline sv sr (m_project_id m) (m_task_id m) kind payload) (\<lambda>_. give r))) d = (e, Inr r) \<and>
    evolves (end_files sr m) d e"
proof -
  let ?R = "task_records (project_root sr (m_project_id m))" and ?tl = "timeline_path (manifest_root sr m)"
  obtain d1 where s1: "manifest_write_to_path m1 mp d = (d1, Inr ())" using manifest_write_total [OF assms(1,2,4)] by blast
  have v1: "evolves {mp} d d1" using run_manifest_exact [of mp d m1] s1 by simp
  have wf1: "wf_disk d1" "\<And>q. \<not> refused d1 q" using evolves_wf [OF v1 assms(1)] evolves_refused [OF v1] assms(2) by simp_all
  have "record_ready (project_root sr (m_project_id m)) (m_task_id m) d1"
    by (rule record_ready_kept [OF ready v1]) (auto simp: mp task_records_def task_record_path_def manifest_root_paths)
  with write_task_status_total [OF wf1] obtain d2 where
    s2: "write_task_status sv sr (m_project_id m) (m_task_id m) st d1 = (d2, Inr ())" by blast
  have v2: "evolves ?R d1 d2" using run_status_exact [of sr "m_project_id m" d1 sv "m_task_id m" st] s2 by simp
  have wf2: "wf_disk d2" "\<And>q. \<not> refused d2 q" using evolves_wf [OF v2 wf1(1)] evolves_refused [OF v2] wf1(2) by simp_all
  have "lookup d1 ?tl = lookup d ?tl" by (rule evolves_separated [OF v1]) (simp add: mp manifest_root_paths)
  moreover have "lookup d2 ?tl = lookup d1 ?tl"
    by (rule evolves_separated [OF v2]) (simp only: manifest_root_paths separated_records)
  ultimately have "lookup d2 ?tl = Some (File (Json (TimelineJson es)))" using tl by simp
  with append_timeline_total [OF wf2] obtain e ev where
    s3: "append_timeline sv sr (m_project_id m) (m_task_id m) kind payload d2 = (e, Inr ev)" by blast
  have v3: "evolves {?tl} d2 e" using run_append_exact [of "manifest_root sr m" d2 sv "m_task_id m" kind payload] s3 by simp
  note sub = evolves_mono [of _ _ _ "end_files sr m"]
  have "evolves (end_files sr m) d d1" by (rule sub [OF v1]) (simp add: end_files_def mp)
  moreover have "evolves (end_files sr m) d1 d2" by (rule sub [OF v2]) (auto simp: end_files_def)
  moreover have "evolves (end_files sr m) d2 e" by (rule sub [OF v3]) (simp add: end_files_def)
  ultimately have "evolves (end_files sr m) d e" by (blast intro: evolves_trans)
  with s1 s2 s3 show ?thesis by (simp add: and_then_def)
qed

text \<open>Changes before and after a merge.\<close>

lemma merged_paths:
  assumes "list_all2 (\<lambda>c y. merge_achieves sv sr m accepted hunks d c y e) cs ys"
  shows "map c_path ys = map c_path cs"
  using assms
proof (induction rule: list_all2_induct)
  case (Cons c cs y ys)
  then show ?case by (auto simp: merge_achieves_def Let_def merged_change_def split: if_splits)
qed simp

lemma merged_accepted:
  assumes "list_all2 (\<lambda>c y. merge_achieves sv sr m accepted hunks d c y e) cs ys" "\<And>c. c \<in> set cs \<Longrightarrow> \<not> c_accepted c"
  shows "map c_path (filter c_accepted ys) = filter (\<lambda>p. p \<in> accepted) (map c_path cs)"
  using assms
proof (induction rule: list_all2_induct)
  case (Cons c cs y ys)
  then show ?case by (auto simp: merge_achieves_def Let_def merged_change_def split: if_splits)
qed simp

lemma list_all2_right: "list_all2 P xs ys \<Longrightarrow> y \<in> set ys \<Longrightarrow> \<exists>x \<in> set xs. P x y"
  by (induction rule: list_all2_induct) auto

lemma list_all2_left: "list_all2 P xs ys \<Longrightarrow> x \<in> set xs \<Longrightarrow> \<exists>y \<in> set ys. P x y"
  by (induction rule: list_all2_induct) auto

text \<open>What a file that was merged needs to be rolled back, and that the check before it passes.\<close>

lemma merged_needs:
  assumes ach: "merge_achieves sv sr m accepted hunks d c y e" and rolled: "to_roll_back paths y" and new: "\<not> c_accepted c"
    and same: "m_original_root m1 = m_original_root m" "m_project_id m1 = m_project_id m" "m_task_id m1 = m_task_id m"
      "m_workspace_root m1 = m_workspace_root m"
    and refused: "\<And>q. \<not> refused e q"
    and join: "checked_join (m_original_root m) (c_path c) = Inr (m_original_root m @ path_names (c_path c))"
  shows "rollback_needs sr m1 paths d y e" "check_merged sv sr mp m1 paths y e = (e, Inr ())"
proof -
  let ?p = "m_original_root m @ path_names (c_path c)"
  have acc: "c_path c \<in> accepted" using ach rolled new by (auto simp: merge_achieves_def to_roll_back_def split: if_splits)
  then have y: "y = merged_change sv hunks c (file_at e ?p)" and lay: "layout sr m"
    and snap: "snapshot_of e (before_snapshot (manifest_root sr m)) (c_path c) (file_at d ?p)"
    and dir: "lookup e ?p \<noteq> Some Directory" and anc: "\<And>q. strict_prefix q ?p \<Longrightarrow> \<not> path_is_file e q"
    using ach by (auto simp: merge_achieves_def Let_def)
  have path: "c_path y = c_path c" by (simp add: y merged_change_def)
  show "rollback_needs sr m1 paths d y e"
    using lay snap dir anc refused join by (auto simp: rollback_needs_def Let_def same path layout_def)
  have "\<not> through_file e ?p" using anc by (auto simp: through_file_iff)
  then have "file_hash (sha256 sv) ?p e = Inr (c_after_merge_hash y)"
    using file_hash_total [of e ?p "sha256 sv"] refused by (simp add: y merged_change_def hash_of_def [abs_def])
  then show "check_merged sv sr mp m1 paths y e = (e, Inr ())"
    using rolled join by (simp add: check_merged_def project_hash_def and_then_def same path)
qed

lemma run_rollback_entry:
  assumes "to_roll_back paths c \<Longrightarrow> m_original_root m @ path_names (c_path c) \<in> S"
  shows "evolves S d (fst (rollback_entry sv m root paths hunks c d))"
  using assms unfolding rollback_entry_def Let_def project_hash_def
  by (auto intro!: ev.run_and_then ev.run_plain run_restore_snapshot run_apply_selected_hunks)

lemma run_rollback:
  assumes "manifest_read_from_path mp d = Inr m"
  shows "evolves (own_files sr (m_project_id m) mp \<union> project_files m (selected_rollback_paths (m_changed_files m) sel)) d
           (fst (rollback sv sr mp sel d))"
proof -
  let ?S = "own_files sr (m_project_id m) mp \<union> project_files m (selected_rollback_paths (m_changed_files m) sel)"
  have "evolves ?S a (fst (rollback_entry sv m root (selected_rollback_paths (m_changed_files m) sel) hunks c a))" for a root hunks c
    by (rule run_rollback_entry) (auto simp: to_roll_back_def project_files_def)
  then show ?thesis
    unfolding rollback_def Let_def
    using assms
    by (auto intro!: ev.run_and_then ev.run_plain ev.run_for_each ev.run_map_each run_check_merged
        own.run_append_timeline own.run_manifest_write own.run_write_task_status)
qed

text \<open>The checks pass and the files are restored.\<close>

lemma rollback_files:
  assumes ms: "merged_state sv sr m sel d e m1" and wf: "\<And>q. \<not> refused e q"
    and new: "\<And>c. c \<in> set (m_changed_files m) \<Longrightarrow> \<not> c_accepted c"
    and join: "\<And>c. c \<in> set (m_changed_files m) \<Longrightarrow>
      checked_join (m_original_root m) (c_path c) = Inr (m_original_root m @ path_names (c_path c))"
    and paths: "paths = selected_rollback_paths (m_changed_files m1) RollbackAll"
    and apart: "sorted_wrt (\<lambda>c z. rollback_apart sr m1 paths c z \<and> rollback_apart sr m1 paths z c) (m_changed_files m1)"
  obtains f cs where "for_each (check_merged sv sr mp m1 paths) (m_changed_files m1) e = (e, Inr ())"
    "map_each (rollback_entry sv m1 (manifest_root sr m1) paths []) (m_changed_files m1) e = (f, Inr cs)"
    "\<forall>y \<in> set (m_changed_files m1). c_accepted y \<longrightarrow>
        file_at f (m_original_root m @ path_names (c_path y)) = file_at d (m_original_root m @ path_names (c_path y))"
proof -
  let ?cs = "m_changed_files m1"
  have same: "m_original_root m1 = m_original_root m" "m_project_id m1 = m_project_id m" "m_task_id m1 = m_task_id m"
      "m_workspace_root m1 = m_workspace_root m"
    and ach: "list_all2 (\<lambda>c y. merge_achieves sv sr m (selected_paths (m_changed_files m) sel) (hunk_selections sel) d c y e)
       (m_changed_files m) ?cs"
    using ms by (simp_all add: merged_state_def)
  have rolled: "to_roll_back paths y \<longleftrightarrow> c_accepted y" if "y \<in> set ?cs" for y
    using that by (auto simp: to_roll_back_def selected_rollback_paths_def paths)
  have each: "rollback_needs sr m1 paths d y e \<and> check_merged sv sr mp m1 paths y e = (e, Inr ())" if "y \<in> set ?cs" for y
  proof (cases "c_accepted y")
    case True
    from list_all2_right [OF ach that] obtain c where "c \<in> set (m_changed_files m)"
      "merge_achieves sv sr m (selected_paths (m_changed_files m) sel) (hunk_selections sel) d c y e" by blast
    then show ?thesis using merged_needs [OF _ _ new same wf join] rolled [OF that] True by blast
  qed (simp_all add: rollback_needs_def check_merged_def rolled [OF that])
  have s1: "for_each (check_merged sv sr mp m1 paths) ?cs e = (e, Inr ())" using each by (intro for_each_stays) simp
  obtain f cs where s2: "map_each (rollback_entry sv m1 (manifest_root sr m1) paths []) ?cs e = (f, Inr cs)"
    using rolling.loop_total [OF apart, of d e sv] each by blast
  have undone: "list_all2 (\<lambda>c y. rollback_achieves m1 paths d c y f) ?cs cs"
    using rolling.loop_ok [OF s2 apart] each by blast
  show thesis
    using s1 s2
  proof (rule that)
    show "\<forall>y \<in> set ?cs. c_accepted y \<longrightarrow>
        file_at f (m_original_root m @ path_names (c_path y)) = file_at d (m_original_root m @ path_names (c_path y))"
    proof (intro ballI impI)
      fix y
      assume y: "y \<in> set ?cs" "c_accepted y"
      from list_all2_left [OF undone y(1)] rolled [OF y(1)] y(2)
      show "file_at f (m_original_root m @ path_names (c_path y)) = file_at d (m_original_root m @ path_names (c_path y))"
        by (auto simp: rollback_achieves_def same)
    qed
  qed
qed

lemma rollback_after_merge:
  assumes ms: "merged_state sv sr m sel d e m1" and wf: "wf_disk e" "\<And>q. \<not> refused e q" and lay: "layout sr m"
    and mp: "mp = manifest_file sr (m_project_id m) (m_task_id m)"
    and new: "\<And>c. c \<in> set (m_changed_files m) \<Longrightarrow> \<not> c_accepted c"
    and join: "\<And>c. c \<in> set (m_changed_files m) \<Longrightarrow>
      checked_join (m_original_root m) (c_path c) = Inr (m_original_root m @ path_names (c_path c))"
    and paths: "paths = selected_rollback_paths (m_changed_files m1) RollbackAll" "paths \<noteq> {}"
    and apart: "sorted_wrt (\<lambda>c z. rollback_apart sr m1 paths c z \<and> rollback_apart sr m1 paths z c) (m_changed_files m1)"
  shows "\<exists>f out. rollback sv sr mp RollbackAll e = (f, Inr out) \<and>
     ro_restored_paths out = map c_path (filter c_accepted (m_changed_files m1)) \<and>
     (\<forall>y \<in> set (m_changed_files m1). c_accepted y \<longrightarrow>
        file_at f (m_original_root m @ path_names (c_path y)) = file_at d (m_original_root m @ path_names (c_path y)))"
proof -
  let ?cs = "m_changed_files m1" and ?restored = "map c_path (filter (to_roll_back paths) (m_changed_files m1))"
  have same: "m_original_root m1 = m_original_root m" "m_project_id m1 = m_project_id m" "m_task_id m1 = m_task_id m"
      "m_workspace_root m1 = m_workspace_root m" and look: "lookup e mp = Some (File (Json (ManifestJson m1)))"
    using ms by (simp_all add: merged_state_def mp)
  obtain es where tl: "lookup e (timeline_path (manifest_root sr m)) = Some (File (Json (TimelineJson es)))"
    and ready: "record_ready (project_root sr (m_project_id m)) (m_task_id m) e"
    using ms by (auto simp: merged_state_def)
  obtain f1 cs' where s1: "for_each (check_merged sv sr mp m1 paths) ?cs e = (e, Inr ())"
    and s2: "map_each (rollback_entry sv m1 (manifest_root sr m1) paths []) ?cs e = (f1, Inr cs')"
    and files: "\<forall>y \<in> set ?cs. c_accepted y \<longrightarrow>
        file_at f1 (m_original_root m @ path_names (c_path y)) = file_at d (m_original_root m @ path_names (c_path y))"
    by (rule rollback_files [where mp = mp, OF ms wf(2) new join paths(1) apart])
  have s0: "manifest_read_from_path mp e = Inr m1"
    using look wf(2) by (simp add: manifest_read_from_path_def read_json_def fs_read_def)
  have v: "evolves (project_files m1 paths) e f1"
    using ev.run_map_each [of ?cs "project_files m1 paths" "rollback_entry sv m1 (manifest_root sr m1) paths []" e] s2
      run_rollback_entry [of paths _ m1 "project_files m1 paths"] by (auto simp: to_roll_back_def project_files_def)
  have kept: "lookup f1 (project_root sr (m_project_id m) @ x) = lookup e (project_root sr (m_project_id m) @ x)" for x
    using evolves_separated [OF v project_files_separated] lay by (simp add: same layout_def)
  have "path_is_file f1 mp" "lookup f1 (timeline_path (manifest_root sr m)) = Some (File (Json (TimelineJson es)))"
    "record_ready (project_root sr (m_project_id m)) (m_task_id m) f1"
    using kept look tl record_ready_lookup [OF _ ready, of f1]
    by (simp_all add: mp manifest_root_paths path_is_file_iff task_record_path_def)
  note fin = rollback_end_total [OF evolves_wf [OF v wf(1)] _ mp this(1,3,2)]
  define st where "st = (if list_ex c_accepted cs' then RollbackAvailable else MergeReady)"
  define out where "out = \<lparr>ro_task_id = m_task_id m, ro_restored_paths = ?restored, ro_skipped_paths = []\<rparr>"
  obtain f where run: "and_then (manifest_write_to_path (m1\<lparr>m_changed_files := cs', m_updated_at := now sv f1, m_status := st\<rparr>) mp) (\<lambda>_.
      and_then (write_task_status sv sr (m_project_id m) (m_task_id m) st) (\<lambda>_.
      and_then (append_timeline sv sr (m_project_id m) (m_task_id m) RollbackCompleted (RollbackPayload ?restored [])) (\<lambda>_. give out))) f1 =
      (f, Inr out)" and fv: "evolves (end_files sr m) f1 f"
    using fin wf(2) evolves_refused [OF v] by metis
  have "rollback sv sr mp RollbackAll e = (f, Inr out)"
    using s0 s1 s2 run paths unfolding st_def out_def
    by (simp add: rollback_def and_then_def [of "reading _"] and_then_def [of "for_each _ _"] and_then_def [of "map_each _ _"]
        and_then_def [of "asking _"] Let_def rollback_hunk_selections_def same)
  moreover have "filter (to_roll_back paths) ?cs = filter c_accepted ?cs"
    by (rule filter_cong) (auto simp: to_roll_back_def selected_rollback_paths_def paths(1))
  ultimately show ?thesis
    using separated_file [OF fv end_separated(3) [OF lay]] files by (auto simp: out_def)
qed

lemma merged_rollback_apart:
  assumes ms: "merged_state sv sr m sel d e m1"
    and new: "\<And>c. c \<in> set (m_changed_files m) \<Longrightarrow> \<not> c_accepted c"
    and apart: "sorted_wrt (\<lambda>c z. changes_apart sr m (selected_paths (m_changed_files m) sel) c z \<and>
      changes_apart sr m (selected_paths (m_changed_files m) sel) z c) (m_changed_files m)"
  shows "sorted_wrt (\<lambda>c z. rollback_apart sr m1 paths c z \<and> rollback_apart sr m1 paths z c) (m_changed_files m1)"
proof -
  let ?A = "selected_paths (m_changed_files m) sel" and ?xs = "m_changed_files m" and ?ys = "m_changed_files m1"
  have ach: "length ?xs = length ?ys"
      "\<And>i. i < length ?ys \<Longrightarrow> merge_achieves sv sr m ?A (hunk_selections sel) d (?xs ! i) (?ys ! i) e"
    and same: "layout sr m1 = layout sr m"
    using ms by (auto simp: merged_state_def list_all2_conv_all_nth layout_def)
  have path: "c_path (?ys ! i) = c_path (?xs ! i) \<and> (to_roll_back paths (?ys ! i) \<longrightarrow> c_path (?xs ! i) \<in> ?A)"
    if "i < length ?ys" for i
    using ach(2) [OF that] new [OF nth_mem, of i] ach(1) that
    by (auto simp: merge_achieves_def Let_def merged_change_def to_roll_back_def split: if_splits)
  show ?thesis
    using apart path same ach(1) unfolding sorted_wrt_iff_nth_less
    by (auto simp: rollback_apart_def changes_apart_def)
qed

end
