(* ===== verification/Task_Safety.thy ===== *)
theory Task_Safety
  imports Task_Rollback
begin

text \<open>
  The properties of merging and rolling back a task, after the errors each step can end with.
\<close>

section \<open>Which errors an action can end with\<close>

definition fails_only :: "core_error set \<Rightarrow> 'a task_action \<Rightarrow> bool" where
  "fails_only E act \<longleftrightarrow> (\<forall>d e err. act d = (e, Inl err) \<longrightarrow> err \<in> E)"

named_theorems fails_intros \<open>errors of the actions\<close>

lemma fails_plain [fails_intros]:
  "fails_only E (give x)" "fails_only E (asking g)" "err \<in> E \<Longrightarrow> fails_only E (fail_with err)"
  "(\<And>d err. h d = Inl err \<Longrightarrow> err \<in> E) \<Longrightarrow> fails_only E (reading h)"
  "(\<And>err. r = Inl err \<Longrightarrow> err \<in> E) \<Longrightarrow> fails_only E (lift_result r)"
  by (auto simp: fails_only_def)

lemma fails_and_then [fails_intros]:
  "fails_only E act \<Longrightarrow> (\<And>x. fails_only E (k x)) \<Longrightarrow> fails_only E (and_then act k)"
  by (auto simp: fails_only_def and_then_error)

lemma fails_loops [fails_intros]:
  "(\<And>x. fails_only E (k x)) \<Longrightarrow> fails_only E (for_each k xs)"
  "(\<And>x. fails_only E (l x)) \<Longrightarrow> fails_only E (map_each l xs)"
  by (induction xs) (auto intro!: fails_intros)

lemma fails_holding [fails_intros]: "fails_only E act \<Longrightarrow> fails_only E (holding p act)"
  by (auto simp: fails_only_def holding_def split: prod.splits)

lemma fails_files [fails_intros]:
  assumes "IoError \<in> E"
  shows "fails_only E (fs_write p c)" "fails_only E (fs_remove_file p)" "fails_only E (ensure_dir p)"
    "fails_only E (create_dir_all p)" "fails_only E (fs_copy p q)" "fails_only E (remove_if_exists p)"
proof -
  show basic: "fails_only E (fs_write p c)" "fails_only E (fs_remove_file p)" "fails_only E (ensure_dir p)" for p c
    using assms by (auto simp: fails_only_def fs_write_def fs_remove_file_def ensure_dir_def split: if_splits option.splits node.splits)
  show "fails_only E (create_dir_all p)" unfolding create_dir_all_def by (intro fails_intros basic)
  show "fails_only E (fs_copy p q)"
    unfolding fs_copy_def using assms by (intro fails_intros basic) (auto simp: fs_read_def split: option.splits node.splits if_splits)
  show "fails_only E (remove_if_exists p)" unfolding remove_if_exists_def using basic by (auto intro!: fails_intros)
qed

text \<open>Everything but the two errors that report a conflict.\<close>

definition plain_errors :: "core_error set" where
  "plain_errors = {err. (\<forall>p x y. err \<noteq> MergeConflict p x y) \<and> (\<forall>p x y. err \<noteq> RollbackConflict p x y)}"

lemma plain_errors_simps [simp]:
  "PathOutsideProject p \<in> plain_errors" "GitError s \<in> plain_errors" "IoError \<in> plain_errors" "JsonError \<in> plain_errors"
  "OtherError s \<in> plain_errors" "HunkPanic \<in> plain_errors"
  by (simp_all add: plain_errors_def)

lemma plain_results:
  "checked_join root rel = Inl err \<Longrightarrow> err \<in> plain_errors"
  "file_hash sha p d = Inl err \<Longrightarrow> err \<in> plain_errors"
  "fs_read p d = Inl err \<Longrightarrow> err \<in> plain_errors"
  "read_file_lines sv p d = Inl err \<Longrightarrow> err \<in> plain_errors"
  "workspace_diff sv p d = Inl err \<Longrightarrow> err \<in> plain_errors"
  "apply_parsed_hunks ls hs sel = Inl err \<Longrightarrow> err \<in> plain_errors"
  "read_task_record root tid d = Inl err \<Longrightarrow> err \<in> plain_errors"
  "read_timeline p d = Inl err \<Longrightarrow> err \<in> plain_errors"
  by (auto simp: checked_join_def file_hash_def fs_read_def read_file_lines_def read_to_string_def workspace_diff_def
      apply_parsed_hunks_def read_task_record_def read_json_def read_timeline_def Let_def rbind_eq_Inl_iff
      split: if_splits option.splits node.splits contents.splits artifact.splits)

lemma plain_actions [fails_intros]:
  "fails_only plain_errors (snapshot_file root snap p)"
  "fails_only plain_errors (copy_file_or_remove a b p)"
  "fails_only plain_errors (project_hash sv m p)"
  "fails_only plain_errors (write_task_status sv sr pid tid st)"
  "fails_only plain_errors (manifest_write_to_path m mp)"
  "fails_only plain_errors (append_timeline_event sv root tid kind payload)"
  "fails_only plain_errors (acquire_path root p)"
  by (auto simp: snapshot_file_def copy_file_or_remove_def project_hash_def write_task_status_def write_task_record_def
      manifest_write_to_path_def append_timeline_event_def acquire_path_def acquire_file_def Let_def plain_results
      split: option.splits intro!: fails_intros)

lemma plain_apply_hunks [fails_intros]: "fails_only plain_errors (apply_selected_hunks sv a b p sels)"
proof -
  have "fails_only plain_errors (write_file_lines q ls)" for q ls
    unfolding write_file_lines_def Let_def by (intro fails_intros) simp_all
  moreover have "err \<in> plain_errors"
    if "(if path_exists d q then workspace_diff sv b d else Inr []) = Inl err" for d q err
    using that plain_results(5) by (auto split: if_splits)
  ultimately show ?thesis
    unfolding apply_selected_hunks_def Let_def
    by (auto simp: plain_results split: option.splits intro!: fails_intros)
qed

lemma plain_merge_entry [fails_intros]: "fails_only plain_errors (merge_entry sv sr m accepted hunks c)"
proof -
  have "fails_only plain_errors (merge_file sv m root hunks c)" for root
    unfolding merge_file_def Let_def by (auto intro!: fails_intros)
  then show ?thesis unfolding merge_entry_def by (auto intro!: fails_intros)
qed

lemma plain_compare: "compare_roots sv a b prev d = Inl err \<Longrightarrow> err \<in> plain_errors"
proof -
  have "hash_entries sv root d items index = Inl err \<Longrightarrow> err \<in> plain_errors" for root items index
    by (induction sv root d items index rule: hash_entries.induct)
       (auto simp: rbind_eq_Inl_iff plain_results split: if_splits)
  then show "compare_roots sv a b prev d = Inl err \<Longrightarrow> err \<in> plain_errors"
    by (auto simp: compare_roots_def hash_index_def rbind_eq_Inl_iff)
qed

lemma plain_read_json: "read_json pick p d = Inl err \<Longrightarrow> err \<in> plain_errors"
  by (auto simp: read_json_def rbind_def plain_results split: sum.splits contents.splits option.splits)

lemma plain_refresh [fails_intros]: "fails_only plain_errors (refresh_changes sv sr mp)"
proof -
  have index: "read_index root d = Inl err \<Longrightarrow> err \<in> plain_errors" for root d err
    by (auto simp: read_index_def plain_read_json split: if_splits)
  have "fails_only plain_errors (record_original sv m root c index)" for m root c index
    by (auto simp: record_original_def split: option.splits intro!: fails_intros)
  then have "fails_only plain_errors (record_edit_event sv sr m c)" for m c
    unfolding record_edit_event_def record_edit_traceback_def ensure_traceback_dirs_def write_index_def
    by (auto intro!: fails_intros dest: index)
  then show ?thesis
    unfolding refresh_changes_def Let_def manifest_read_from_path_def
    by (auto intro!: fails_intros dest: plain_compare plain_read_json)
qed

lemma plain_acquire_merge [fails_intros]: "fails_only plain_errors (acquire_merge root tid)"
  by (auto simp: acquire_merge_def acquire_file_def Let_def intro!: fails_intros)

lemma fails_onlyD: "fails_only plain_errors act \<Longrightarrow> act d \<noteq> (e, Inl (MergeConflict p x y))"
  by (fastforce simp: fails_only_def plain_errors_def)

text \<open>A conflict comes from the check of one of the changes, made before anything was written.\<close>

lemma checks_conflict:
  assumes "for_each (check_unchanged sv sr mp m accepted) cs d = (e, Inl (MergeConflict p x y))"
  shows "\<exists>c \<in> set cs. c_path c = p \<and> p \<in> accepted \<and> c_before_hash c = x \<and> y \<noteq> x \<and>
     y = map_option (hash_of sv) (file_at d (m_original_root m @ path_names p))"
  using assms
proof (induction cs)
  case (Cons c cs)
  from Cons.prems consider (now) "check_unchanged sv sr mp m accepted c d = (e, Inl (MergeConflict p x y))"
    | (later) d1 v where "check_unchanged sv sr mp m accepted c d = (d1, Inr v)"
      "for_each (check_unchanged sv sr mp m accepted) cs d1 = (e, Inl (MergeConflict p x y))"
    by (auto simp: and_then_error)
  then show ?case
  proof cases
    case now
    have stop: "stop_with sv sr mp m st err d1 = (e, Inl (MergeConflict p x y)) \<Longrightarrow> err = MergeConflict p x y" for st err d1
      using fails_onlyD [OF plain_actions(5)] fails_onlyD [OF plain_actions(4)]
      by (auto simp: stop_with_def and_then_error)
    from now have accepted: "c_path c \<in> accepted" by (simp add: check_unchanged_def split: if_splits)
    with now fails_onlyD [OF plain_actions(3)] obtain d1 h where hash: "project_hash sv m (c_path c) d = (d1, Inr h)"
      and differs: "h \<noteq> c_before_hash c"
      and stopped: "stop_with sv sr mp m MergeConflicted (MergeConflict (c_path c) (c_before_hash c) h) d1 =
        (e, Inl (MergeConflict p x y))"
      by (auto simp: check_unchanged_def and_then_error split: if_splits)
    from stop [OF stopped] differs accepted project_hash_ok(2) [OF hash] show ?thesis by auto
  next
    case later
    with check_unchanged_ok [OF later(1)] Cons.IH show ?thesis by auto
  qed
qed simp

lemma merge_locked_conflict:
  assumes "merge_locked sv sr mp sel m d = (e, Inl (MergeConflict p x y))"
  obtains d1 where "evolves (own_files sr (m_project_id m) mp) d d1" "evolves (own_files sr (m_project_id m) mp) d1 e"
    "for_each (check_unchanged sv sr mp m (selected_paths (m_changed_files m) sel)) (m_changed_files m) d1 =
       (e, Inl (MergeConflict p x y))"
proof -
  let ?checks = "for_each (check_unchanged sv sr mp m (selected_paths (m_changed_files m) sel)) (m_changed_files m)"
  have entries: "map_each (merge_entry sv sr m A H) cs a \<noteq> (b, Inl (MergeConflict p x y))" for A H cs a b
    by (rule fails_onlyD) (intro fails_intros)
  from assms obtain d1 u where s1: "append_timeline sv sr (m_project_id m) (m_task_id m) MergeStarted (MergeStartedPayload sel) d = (d1, Inr u)"
    and s2: "?checks d1 = (e, Inl (MergeConflict p x y))"
    using fails_onlyD [OF plain_actions(4)] fails_onlyD [OF plain_actions(5)] fails_onlyD [OF plain_actions(6)]
      fails_onlyD [OF fails_files(1) [OF plain_errors_simps(3)]] entries
    unfolding merge_locked_def Let_def by (auto simp: and_then_error)
  have "evolves (own_files sr (m_project_id m) mp) d d1"
    using own.run_append_timeline [of sr "m_project_id m" mp "{}" d sv "m_task_id m" MergeStarted "MergeStartedPayload sel"] s1
    by simp
  moreover have "evolves (own_files sr (m_project_id m) mp) d1 e"
    using ev.run_for_each [of "m_changed_files m" "own_files sr (m_project_id m) mp"
        "check_unchanged sv sr mp m (selected_paths (m_changed_files m) sel)" d1]
      run_check_unchanged [of sr m mp "{}"] s2 by simp
  ultimately show thesis using s2 that by blast
qed

section \<open>Rolling back what was merged\<close>

lemma rollback_of_merge:
  assumes run: "merge sv sr mp sel d = (e, Inr out)" and m0: "manifest_read_from_path mp d = Inr m0"
    and mp: "mp = manifest_file sr (m_project_id m0) (m_task_id m0)" and lay: "layout sr m0"
    and disk: "clean_disk d" "wf_disk d" "\<And>q. \<not> refused d q"
    and mergeable: "mergeable (set (mo_accepted_paths out))" and some: "mo_accepted_paths out \<noteq> []"
  obtains f out' where "rollback sv sr mp RollbackAll e = (f, Inr out')" "ro_restored_paths out' = mo_accepted_paths out"
    "\<forall>p \<in> set (mo_accepted_paths out). file_at f (m_original_root m0 @ path_names p) = file_at d (m_original_root m0 @ path_names p)"
    "evolves (own_files sr (m_project_id m0) mp \<union> project_files m0 (set (mo_accepted_paths out))) d e"
    "evolves (own_files sr (m_project_id m0) mp \<union> project_files m0 (set (mo_accepted_paths out))) e f"
proof -
  obtain changes t m1 where
    changes: "compare_roots sv (m_original_root m0) (m_workspace_root m0) (m_changed_files m0) d = Inr changes"
    and ms: "merged_state sv sr (refreshed m0 changes t) sel d e m1"
    and acc: "mo_accepted_paths out = filter (\<lambda>p. p \<in> selected_paths changes sel) (map c_path changes)"
    by (rule merge_result [OF run m0 mp lay disk(1) mergeable])
  let ?m = "refreshed m0 changes t" and ?A = "set (mo_accepted_paths out)"
  let ?paths = "selected_rollback_paths (m_changed_files m1) RollbackAll"
  have A: "?A = selected_paths changes sel \<inter> c_path ` set changes" unfolding acc by auto
  have ev: "evolves (own_files sr (m_project_id m0) mp \<union> project_files m0 ?A) d e"
    using run_merge [OF m0, of sv sel ?A sr] changes run by (simp add: A)
  have new: "\<not> c_accepted c" if "c \<in> set changes" for c by (rule compare_roots_entry [OF changes disk(1) that])
  have accs: "map c_path (filter c_accepted (m_changed_files m1)) = mo_accepted_paths out"
    using merged_accepted [of sv sr ?m "selected_paths changes sel" "hunk_selections sel" d e changes "m_changed_files m1"] ms new acc
    by (simp add: merged_state_def)
  then have paths: "?paths = ?A" by (auto simp: selected_rollback_paths_def simp flip: accs)
  have "sorted_wrt (\<lambda>c z. changes_apart sr ?m (selected_paths changes sel) c z \<and> changes_apart sr ?m (selected_paths changes sel) z c) changes"
    by (rule mergeable_apart [OF changes disk(1)]) (use lay mergeable A in \<open>simp_all add: layout_def\<close>)
  then have apart: "sorted_wrt (\<lambda>c z. rollback_apart sr m1 ?paths c z \<and> rollback_apart sr m1 ?paths z c) (m_changed_files m1)"
    using merged_rollback_apart [OF ms] new by simp
  have "\<exists>f out'. rollback sv sr mp RollbackAll e = (f, Inr out') \<and>
     ro_restored_paths out' = map c_path (filter c_accepted (m_changed_files m1)) \<and>
     (\<forall>y \<in> set (m_changed_files m1). c_accepted y \<longrightarrow>
        file_at f (m_original_root ?m @ path_names (c_path y)) = file_at d (m_original_root ?m @ path_names (c_path y)))"
    by (rule rollback_after_merge [OF ms _ _ _ _ _ _ refl _ apart])
       (use evolves_wf [OF ev disk(2)] evolves_refused [OF ev] disk(3) lay mp new compare_roots_join [OF changes disk(1)] paths some
        in \<open>simp_all add: layout_def\<close>)
  then obtain f out' where rb: "rollback sv sr mp RollbackAll e = (f, Inr out')"
      "ro_restored_paths out' = map c_path (filter c_accepted (m_changed_files m1))"
    and files: "\<forall>p \<in> set (map c_path (filter c_accepted (m_changed_files m1))).
        file_at f (m_original_root m0 @ path_names p) = file_at d (m_original_root m0 @ path_names p)"
    by auto
  have look: "manifest_read_from_path mp e = Inr m1"
    using ms mp evolves_refused [OF ev] disk(3) by (simp add: merged_state_def manifest_read_from_path_def read_json_def fs_read_def)
  have ids: "m_project_id m1 = m_project_id m0" "m_original_root m1 = m_original_root m0" using ms by (simp_all add: merged_state_def)
  have "evolves (own_files sr (m_project_id m0) mp \<union> project_files m0 ?A) e f"
    using run_rollback [OF look, of sr RollbackAll sv] rb(1) by (simp add: ids project_files_def paths)
  with that rb files ev show thesis unfolding accs by blast
qed

section \<open>A small task\<close>

text \<open>The project has one file, the workspace has changed it; the parameter is the hash the manifest has recorded for it.\<close>

definition sample_services :: services where
  "sample_services =
     \<lparr>sha256 = (\<lambda>c. case c of Utf8 t \<Rightarrow> t | _ \<Rightarrow> []), lossy_text = (\<lambda>c. case c of Utf8 t \<Rightarrow> t | _ \<Rightarrow> []),
      now = (\<lambda>_. 0), new_uuid = (\<lambda>_. []), nth_uuid = (\<lambda>_ _. []), git_query = (\<lambda>_ _ _. None), git_run = (\<lambda>_ _ _ d. (d, None)),
      minute_stamp = (\<lambda>_. [])\<rparr>"

definition sample_change :: "rstr \<Rightarrow> changed_file" where
  "sample_change before =
     \<lparr>c_path = [97], c_status = Modified, c_before_hash = Some (lit ''sha256:'' @ before),
      c_after_ai_hash = Some (lit ''sha256:'' @ [2]), c_after_merge_hash = None, c_merged_hunks = None,
      c_accepted = False, c_merge_status = lit ''pending''\<rparr>"

definition sample_manifest :: "rstr \<Rightarrow> task_manifest" where
  "sample_manifest before =
     \<lparr>m_task_id = [116], m_project_id = [112], m_original_root = [[111]], m_workspace_root = [[119]],
      m_created_at = 0, m_updated_at = 0, m_status = ChangesDetected, m_base_revision = None,
      m_environment_binding = None, m_changed_files = [sample_change before]\<rparr>"

definition sample_manifest_path :: fpath where
  "sample_manifest_path = manifest_file [] [112] [116]"

definition sample_task_disk :: "rstr \<Rightarrow> task_disk" where
  "sample_task_disk before =
     \<lparr>nodes =
        [([[111]], Directory), ([[111], [97]], File (Utf8 [1])),
         ([[119]], Directory), ([[119], [97]], File (Utf8 [2])),
         ([lit ''projects''], Directory), ([lit ''projects'', [112]], Directory),
         ([lit ''projects'', [112], lit ''tasks''], Directory),
         ([lit ''projects'', [112], lit ''tasks'', [116]], Directory),
         ([lit ''projects'', [112], lit ''tasks'', [116], lit ''changes''], Directory),
         (sample_manifest_path, File (Json (ManifestJson (sample_manifest before))))],
      refused = (\<lambda>_. False)\<rparr>"

lemmas sample_defs = sample_services_def sample_manifest_def sample_change_def sample_manifest_path_def sample_task_disk_def

lemma sample_task_facts:
  "manifest_read_from_path sample_manifest_path (sample_task_disk h) = Inr (sample_manifest h)"
  "sample_manifest_path = manifest_file [] (m_project_id (sample_manifest h)) (m_task_id (sample_manifest h))"
  "layout [] (sample_manifest h)" "clean_disk (sample_task_disk h)" "wf_disk (sample_task_disk h)" "\<forall>q. \<not> refused (sample_task_disk h) q"
  "mergeable {[97]}"
  by (simp_all add: evaluate_simps sample_defs layout_def parallel_def clean_disk_def clean_name_def proper_name_def wf_disk_def mergeable_def)

lemma sample_changes:
  "h \<noteq> [2] \<Longrightarrow> compare_roots sample_services (m_original_root (sample_manifest h)) (m_workspace_root (sample_manifest h))
     (m_changed_files (sample_manifest h)) (sample_task_disk h) = Inr [sample_change h]"
  by (simp add: evaluate_simps sample_defs)

declare for_each.simps [simp del] map_each.simps [simp del]

lemma sample_merge:
  "\<exists>e out. merge sample_services [] sample_manifest_path MergeAll (sample_task_disk [1]) = (e, Inr out) \<and> mo_accepted_paths out = [[97]]"
  by (simp add: run_file_actions run_task_actions evaluate_simps sample_defs cong: run_congs)

lemma sample_conflict:
  "\<exists>e. merge sample_services [] sample_manifest_path MergeAll (sample_task_disk [3]) =
     (e, Inl (MergeConflict [97] (Some (lit ''sha256:'' @ [3])) (Some (lit ''sha256:'' @ [1]))))"
  by (simp add: run_file_actions run_task_actions evaluate_simps sample_defs cong: run_congs)

section \<open>Properties\<close>

text \<open>
  C24: A merge, whether it succeeds or fails, changes no file outside the record of its own project except those of
  the project whose path is both changed in the workspace and selected.
\<close>

theorem merge_touches_only_selected:
  assumes "manifest_read_from_path mp d = Inr m0"
    and "compare_roots sv (m_original_root m0) (m_workspace_root m0) (m_changed_files m0) d = Inr changes"
    and "q \<notin> own_files sr (m_project_id m0) mp"
    and "q \<notin> project_files m0 (selected_paths changes sel \<inter> c_path ` set changes)"
  shows "file_at (fst (merge sv sr mp sel d)) q = file_at d q"
  using run_merge [OF assms(1), of sv sel "selected_paths changes sel \<inter> c_path ` set changes" sr] assms
  by (auto intro: evolves_file)

theorem merge_touches_only_selected_witness:
  "file_at (fst (merge sample_services [] sample_manifest_path MergeAll (sample_task_disk [1]))) [[119], [97]] = Some (Utf8 [2])"
proof -
  have "file_at (fst (merge sample_services [] sample_manifest_path MergeAll (sample_task_disk [1]))) [[119], [97]] =
      file_at (sample_task_disk [1]) [[119], [97]]"
    by (rule merge_touches_only_selected [OF sample_task_facts(1) sample_changes])
       (simp_all add: own_files_def project_files_def evaluate_simps sample_defs)
  then show ?thesis by (simp add: file_at_def evaluate_simps sample_defs)
qed

text \<open>
  C7: A merge that ends with a conflict has changed no file outside the engine's own record: all files are checked
  before the first one is written. The conflict is real: the file it names is selected and changed, and its contents do not
  have the hash that was recorded before the task began to work.
\<close>

theorem merge_conflict_changes_nothing:
  assumes run: "merge sv sr mp sel d = (e, Inl (MergeConflict p expected found))"
    and m0: "manifest_read_from_path mp d = Inr m0"
    and mp: "mp = manifest_file sr (m_project_id m0) (m_task_id m0)" and lay: "layout sr m0"
    and changes: "compare_roots sv (m_original_root m0) (m_workspace_root m0) (m_changed_files m0) d = Inr changes"
  shows "(\<forall>q. q \<notin> own_files sr (m_project_id m0) mp \<longrightarrow> file_at e q = file_at d q) \<and>
     p \<in> selected_paths changes sel \<and>
     (\<exists>c \<in> set changes. c_path c = p \<and> c_before_hash c = expected) \<and> found \<noteq> expected \<and>
     found = map_option (hash_of sv) (file_at d (m_original_root m0 @ path_names p))"
proof -
  let ?own = "own_files sr (m_project_id m0) mp"
  from run obtain d1 m d2 l where s1: "refresh_changes sv sr mp d = (d1, Inr m)"
    and s2: "acquire_merge (project_root sr (m_project_id m)) (m_task_id m) d1 = (d2, Inr l)"
    and s3: "holding l (merge_locked sv sr mp sel m) d2 = (e, Inl (MergeConflict p expected found))"
    using fails_onlyD [OF plain_refresh] fails_onlyD [OF plain_acquire_merge]
    by (auto simp: merge_def and_then_error)
  from s1 obtain t where m: "m = refreshed m0 changes t"
    by (rule refresh_ok) (use m0 changes in \<open>simp add: refreshed_def\<close>)
  from s3 obtain d3 where s4: "merge_locked sv sr mp sel m d2 = (d3, Inl (MergeConflict p expected found))"
    and e: "e = release_lock l d3" by (auto simp: holding_def split: prod.splits)
  from s4 obtain d4 where v3: "evolves (own_files sr (m_project_id m) mp) d2 d4" "evolves (own_files sr (m_project_id m) mp) d4 d3"
    and s5: "for_each (check_unchanged sv sr mp m (selected_paths (m_changed_files m) sel)) (m_changed_files m) d4 =
       (d3, Inl (MergeConflict p expected found))" by (rule merge_locked_conflict)
  have lock: "merge_lock sr m \<in> ?own" by (simp add: merge_lock_def m)
  have "evolves ?own d d1" using run_refresh_changes [OF m0, of sr sv] s1 by simp
  moreover have "evolves ?own d1 d2" using run_acquire_merge [OF lock, of d1] s2 by simp
  ultimately have v4: "evolves ?own d d4" using v3(1) by (simp add: m) (blast intro: evolves_trans)
  moreover have "evolves ?own d3 e"
    using run_fs_remove_file [OF lock, of d3] acquire_merge_ok [OF s2] by (simp add: e release_lock_def)
  ultimately have "evolves ?own d e" using v3(2) by (simp add: m) (blast intro: evolves_trans)
  moreover have "file_at d4 (m_original_root m0 @ x) = file_at d (m_original_root m0 @ x)" for x
    using own_files_outside(1) [OF lay mp] evolves_file [OF v4] by blast
  ultimately show ?thesis using checks_conflict [OF s5] by (auto simp: m evolves_file)
qed

theorem merge_conflict_changes_nothing_witness:
  "file_at (fst (merge sample_services [] sample_manifest_path MergeAll (sample_task_disk [3]))) [[111], [97]] = Some (Utf8 [1])"
proof -
  obtain e where e: "merge sample_services [] sample_manifest_path MergeAll (sample_task_disk [3]) =
     (e, Inl (MergeConflict [97] (Some (lit ''sha256:'' @ [3])) (Some (lit ''sha256:'' @ [1]))))"
    using sample_conflict by blast
  have "file_at e [[111], [97]] = file_at (sample_task_disk [3]) [[111], [97]]"
    by (rule merge_conflict_changes_nothing [OF e sample_task_facts(1,2,3) sample_changes, THEN conjunct1, rule_format])
       (simp_all add: own_files_def evaluate_simps sample_defs)
  with e show ?thesis by (simp add: file_at_def evaluate_simps sample_defs)
qed

text \<open>
  C6: Rolling back undoes a merge. When nothing is refused, the names on the disk hold no backslash, no merged path lies
  below another one and no two of them share the name of a snapshot, then after a merge that has succeeded rolling back
  everything succeeds too, restores just the paths that were merged, and every file outside the engine's record is as before the merge.
\<close>

theorem merge_then_rollback_restores:
  assumes run: "merge sv sr mp sel d = (e, Inr out)" and m0: "manifest_read_from_path mp d = Inr m0"
    and mp: "mp = manifest_file sr (m_project_id m0) (m_task_id m0)" and lay: "layout sr m0"
    and disk: "clean_disk d" "wf_disk d" "\<forall>q. \<not> refused d q"
    and mergeable: "mergeable (set (mo_accepted_paths out))" and some: "mo_accepted_paths out \<noteq> []"
  shows "\<exists>f out'. rollback sv sr mp RollbackAll e = (f, Inr out') \<and> ro_restored_paths out' = mo_accepted_paths out \<and>
           (\<forall>q. q \<notin> own_files sr (m_project_id m0) mp \<longrightarrow> file_at f q = file_at d q)"
proof -
  let ?A = "set (mo_accepted_paths out)" and ?own = "own_files sr (m_project_id m0) mp"
  obtain f out' where rb: "rollback sv sr mp RollbackAll e = (f, Inr out')" "ro_restored_paths out' = mo_accepted_paths out"
    and files: "\<forall>p \<in> ?A. file_at f (m_original_root m0 @ path_names p) = file_at d (m_original_root m0 @ path_names p)"
    and ev: "evolves (?own \<union> project_files m0 ?A) d e" "evolves (?own \<union> project_files m0 ?A) e f"
    by (rule rollback_of_merge [OF run m0 mp lay disk(1,2) disk(3) [rule_format] mergeable some])
  have "file_at f q = file_at d q" if "q \<notin> ?own" for q
    using that files evolves_file [OF ev(1), of q] evolves_file [OF ev(2), of q]
    by (cases "q \<in> project_files m0 ?A") (auto simp: project_files_def)
  with rb show ?thesis by blast
qed

theorem merge_then_rollback_restores_witness:
  "\<exists>e out f out'. merge sample_services [] sample_manifest_path MergeAll (sample_task_disk [1]) = (e, Inr out) \<and>
     rollback sample_services [] sample_manifest_path RollbackAll e = (f, Inr out') \<and> ro_restored_paths out' = [[97]] \<and>
     file_at f [[111], [97]] = Some (Utf8 [1])"
proof -
  obtain e out where run: "merge sample_services [] sample_manifest_path MergeAll (sample_task_disk [1]) = (e, Inr out)"
    and paths: "mo_accepted_paths out = [[97]]" using sample_merge by blast
  have "mergeable (set (mo_accepted_paths out))" "mo_accepted_paths out \<noteq> []" using sample_task_facts(7) by (simp_all add: paths)
  from merge_then_rollback_restores [OF run sample_task_facts(1-6) this] obtain f out' where
    rb: "rollback sample_services [] sample_manifest_path RollbackAll e = (f, Inr out')" "ro_restored_paths out' = [[97]]"
    and files: "\<forall>q. q \<notin> own_files [] (m_project_id (sample_manifest [1])) sample_manifest_path \<longrightarrow> file_at f q = file_at (sample_task_disk [1]) q"
    by (auto simp: paths)
  have "file_at f [[111], [97]] = file_at (sample_task_disk [1]) [[111], [97]]"
    by (rule files [rule_format]) (simp add: own_files_def evaluate_simps sample_defs)
  then have "file_at f [[111], [97]] = Some (Utf8 [1])" by (simp add: file_at_def evaluate_simps sample_defs)
  with run rb show ?thesis by blast
qed



end
