(* ===== verification/Task_Copy.thy ===== *)
theory Task_Copy
  imports Task_Index
begin

text \<open>
  The copy of a project that a task works on (\<open>copy_project\<close> of \<open>fsx.rs\<close>): which files it holds, and which changes the
  comparison with the project reports before anything was done in it.
\<close>

section \<open>Copying the entries of a walk\<close>

lemma create_dir_file: "create_dir_all p d = (e, r) \<Longrightarrow> file_at e q = file_at d q"
  using create_parent_file [of "p @ [x]" for x] by simp

definition copied :: "fpath \<Rightarrow> fpath \<Rightarrow> walk_item \<Rightarrow> task_disk \<Rightarrow> fpath \<Rightarrow> bool" where
  "copied source destination item d q \<longleftrightarrow>
     (\<exists>rel. item = WalkEntry (source @ rel) \<and> q = destination @ rel \<and> rel \<noteq> [] \<and> \<not> ignored rel \<and> path_is_file d (source @ rel))"

lemma copy_entry_ok:
  assumes "copy_entry source destination item d = (e, Inr u)" "\<And>p. item = WalkEntry p \<Longrightarrow> prefix source p"
  shows "file_at e q =
     (if copied source destination item d q then file_at d (source @ drop (length destination) q) else file_at d q)"
proof -
  from assms(1) obtain p where p: "item = WalkEntry p" by (cases item) (auto simp: copy_entry_def)
  with assms(2) obtain rel where rel: "p = source @ rel" by (auto simp: prefix_def)
  show ?thesis
  proof (cases "rel = [] \<or> ignored rel \<or> \<not> path_is_file d p")
    case True
    then have "\<not> copied source destination item d q" by (auto simp: copied_def p rel)
    moreover have "file_at e q = file_at d q"
      using assms(1) True
      by (auto simp: copy_entry_def p rel Let_def and_then_ok path_is_file_iff split: if_splits option.splits node.splits
          dest: create_dir_file)
    ultimately show ?thesis by simp
  next
    case False
    then obtain c where c: "lookup d p = Some (File c)" by (auto simp: path_is_file_iff)
    with assms(1) False obtain d1 where d1: "create_dir_all (butlast (destination @ rel)) d = (d1, Inr ())"
      and cp: "fs_copy p (destination @ rel) d1 = (e, Inr u)"
      by (auto simp: copy_entry_def p rel Let_def and_then_ok)
    have "file_at e q = (if q = destination @ rel then file_at d p else file_at d q)"
      using fs_copy_lookup [OF cp, of q] create_dir_file [OF d1] c
      by (auto simp: file_at_def split: option.splits node.splits)
    moreover have "copied source destination item d q \<longleftrightarrow> q = destination @ rel"
      using False by (auto simp: copied_def p rel)
    ultimately show ?thesis by (auto simp: rel)
  qed
qed

lemma copy_entries_ok:
  assumes "for_each (copy_entry source destination) items d = (e, Inr u)" "source \<parallel> destination"
    and "\<And>p. WalkEntry p \<in> set items \<Longrightarrow> prefix source p"
  shows "file_at e q =
     (if \<exists>item \<in> set items. copied source destination item d q then file_at d (source @ drop (length destination) q) else file_at d q)"
  using assms(1,3)
proof (induction items arbitrary: d)
  case (Cons item items)
  from Cons.prems(1) obtain d1 v where s1: "copy_entry source destination item d = (d1, Inr v)"
    and s2: "for_each (copy_entry source destination) items d1 = (e, Inr u)" by (auto simp: and_then_ok)
  have step: "file_at d1 r =
      (if copied source destination item d r then file_at d (source @ drop (length destination) r) else file_at d r)" for r
    using Cons.prems(2) by (intro copy_entry_ok [OF s1]) simp
  have away: "\<not> copied source destination item d (source @ x)" for x
    using assms(2) by (auto simp: copied_def parallel_def dest!: append_eq_append_conv2 [THEN iffD1])
  then have src: "file_at d1 (source @ x) = file_at d (source @ x)" for x by (simp add: step)
  then have same: "copied source destination i d1 r \<longleftrightarrow> copied source destination i d r" for i r
    unfolding copied_def using file_at_None_iff by metis
  show ?case using Cons.IH [OF s2] Cons.prems(2) step [of q] by (auto simp: src same)
qed simp

text \<open>What a copy holds: every file of the source whose relative path has no ignored name.\<close>

lemma copy_project_ok:
  fixes d :: task_disk
  assumes "copy_project source destination d = (e, Inr u)" "source \<parallel> destination"
  shows "file_at e (destination @ rel) =
       (if rel \<noteq> [] \<and> \<not> ignored rel \<and> path_is_file d (source @ rel) then file_at d (source @ rel) else file_at d (destination @ rel))"
    and "\<not> prefix destination q \<Longrightarrow> file_at e q = file_at d q"
proof -
  from assms(1) obtain d1 where s1: "create_dir_all destination d = (d1, Inr ())"
    and s2: "for_each (copy_entry source destination) (walk_dir d1 source) d1 = (e, Inr u)"
    by (auto simp: copy_project_def and_then_ok)
  have same: "file_at d1 r = file_at d r" for r using create_dir_file [OF s1] .
  then have isf: "path_is_file d1 r = path_is_file d r" for r using file_at_None_iff by metis
  have exists: "path_exists d1 source"
    using s2 by (cases "path_exists d1 source") (auto simp: walk_dir_def and_then_ok copy_entry_def)
  have entries: "prefix source p" if "WalkEntry p \<in> set (walk_dir d1 source)" for p
    using that by (auto simp: walk_entry_iff strict_prefix_def)
  have all: "file_at e r = (if \<exists>item \<in> set (walk_dir d1 source). copied source destination item d1 r
       then file_at d1 (source @ drop (length destination) r) else file_at d1 r)" for r
    using entries by (intro copy_entries_ok [OF s2 assms(2)])
  have iff: "(\<exists>item \<in> set (walk_dir d1 source). copied source destination item d1 (destination @ rel)) \<longleftrightarrow>
      rel \<noteq> [] \<and> \<not> ignored rel \<and> path_is_file d (source @ rel)"
    unfolding isf [symmetric] using exists by (auto simp: copied_def walk_entry_iff path_is_file_iff strict_prefix_def intro!: bexI [of _ "WalkEntry (source @ rel)"])
  show "file_at e (destination @ rel) =
      (if rel \<noteq> [] \<and> \<not> ignored rel \<and> path_is_file d (source @ rel) then file_at d (source @ rel) else file_at d (destination @ rel))"
    unfolding all iff by (simp add: same)
  show "file_at e q = file_at d q" if "\<not> prefix destination q"
    using that all [of q] by (auto simp: copied_def same)
qed

section \<open>Clean names\<close>

lemma clean_disk_iff: "clean_disk d \<longleftrightarrow> (\<forall>p. lookup d p \<noteq> None \<longrightarrow> list_all clean_name p)"
proof -
  have "lookup d p \<noteq> None \<longleftrightarrow> p = [] \<or> p \<in> fst ` set (nodes d)" for p
    by (simp add: lookup_def map_of_eq_None_iff del: not_None_eq)
  then show ?thesis by (auto simp: clean_disk_def list_all_iff simp del: not_None_eq)
qed

definition keeps_clean :: "task_disk \<Rightarrow> task_disk \<Rightarrow> bool" where
  "keeps_clean d e \<longleftrightarrow> (clean_disk d \<longrightarrow> clean_disk e)"

interpretation clean: action_preorder keeps_clean
  by unfold_locales (auto simp: keeps_clean_def)

lemma clean_put: "list_all clean_name p \<Longrightarrow> keeps_clean d (put_node p n d)"
  by (cases "p = []") (auto simp: keeps_clean_def clean_disk_iff lookup_put put_node_def lookup_def update_conv')

lemma clean_write: "list_all clean_name p \<Longrightarrow> keeps_clean d (fst (fs_write p c d))"
  by (auto simp: fs_write_def intro: clean_put clean.R_refl)

lemma clean_create: "list_all clean_name p \<Longrightarrow> keeps_clean d (fst (create_dir_all p d))"
  unfolding create_dir_all_def
  by (rule clean.run_for_each)
     (auto simp: ensure_dir_def prefix_def split: option.splits node.splits intro!: clean_put clean.R_refl)

lemma clean_copy_entry:
  assumes "list_all clean_name destination" "\<And>p. item = WalkEntry p \<Longrightarrow> list_all clean_name p"
  shows "keeps_clean d (fst (copy_entry source destination item d))"
proof (cases item)
  case (WalkEntry p)
  let ?t = "destination @ drop (length source) p"
  have t: "list_all clean_name ?t" "list_all clean_name (butlast ?t)"
    using assms WalkEntry by (auto simp: list_all_iff dest!: in_set_dropD in_set_butlastD)
  show ?thesis
    unfolding copy_entry_def WalkEntry Let_def fs_copy_def
    using t
    by (auto intro!: clean.run_and_then clean.run_plain clean_create clean_write clean.R_refl split: option.splits node.splits)
qed (simp add: copy_entry_def clean.R_refl)

lemma clean_copy_project:
  assumes "copy_project source destination d = (e, Inr u)" "clean_disk d" "list_all clean_name destination"
  shows "clean_disk e"
proof -
  from assms(1) obtain d1 where s1: "create_dir_all destination d = (d1, Inr ())"
    and s2: "for_each (copy_entry source destination) (walk_dir d1 source) d1 = (e, Inr u)"
    by (auto simp: copy_project_def and_then_ok)
  have d1: "clean_disk d1" using clean_create [OF assms(3), of d] s1 assms(2) by (simp add: keeps_clean_def)
  have exists: "path_exists d1 source"
    using s2 by (cases "path_exists d1 source") (auto simp: walk_dir_def and_then_ok copy_entry_def)
  have "list_all clean_name p" if "WalkEntry p \<in> set (walk_dir d1 source)" for p
    using that d1 exists by (auto simp: walk_entry_iff clean_disk_iff path_exists_def)
  then have "keeps_clean d1 (fst (for_each (copy_entry source destination) (walk_dir d1 source) d1))"
    using assms(3) by (intro clean.run_for_each clean_copy_entry) simp_all
  with d1 s2 show ?thesis by (simp add: keeps_clean_def)
qed

section \<open>A fresh copy\<close>

lemma fresh_copy_files:
  assumes run: "copy_project source destination d = (e, Inr ())" and apart: "source \<parallel> destination"
    and fresh: "wf_disk (d :: task_disk)" "\<not> path_exists d destination" and dir: "lookup d source = Some Directory"
  shows "file_at e (destination @ rel) = (if ignored rel then None else file_at d (source @ rel))"
    and "file_at e (source @ rel) = file_at d (source @ rel)"
proof -
  have "lookup d (destination @ x) = None" for x
    using wf_disk_above [OF fresh(1), of "destination @ x" destination] fresh(2)
    by (cases "x = []"; cases "lookup d (destination @ x)") (auto simp: path_exists_def strict_prefix_def)
  then have "file_at d (destination @ x) = None" for x by (simp add: file_at_def)
  moreover have "file_at d source = None" using dir by (simp add: file_at_def)
  ultimately show "file_at e (destination @ rel) = (if ignored rel then None else file_at d (source @ rel))"
    using copy_project_ok(1) [OF run apart, of rel] by (auto simp flip: file_at_None_iff)
  have "\<not> prefix destination (source @ rel)"
    using apart by (auto simp: parallel_def prefix_def dest!: append_eq_append_conv2 [THEN iffD1])
  then show "file_at e (source @ rel) = file_at d (source @ rel)" by (rule copy_project_ok(2) [OF run apart])
qed

text \<open>Every clean relative path whose two hashes differ has its entry, and no other.\<close>

lemma index_hash_key: "index_hash index k \<noteq> None \<Longrightarrow> k \<in> fst ` set index"
  by (auto simp: index_hash_def split: option.splits dest!: map_of_SomeD intro: rev_image_eqI)

lemma compare_roots_iff:
  assumes "hash_index sv original_root d = Inr original" "hash_index sv workspace_root d = Inr workspace" "clean_disk d"
  shows "c \<in> set (List.map_filter (changed_entry original workspace previous) (sort (remdups (map fst original @ map fst workspace)))) \<longleftrightarrow>
     (\<exists>rel. list_all clean_name rel \<and> index_name rel \<in> fst ` set original \<union> fst ` set workspace \<and>
        changed_entry original workspace previous (index_name rel) = Some c)"
proof -
  have "\<exists>rel. list_all clean_name rel \<and> k = index_name rel" if "k \<in> fst ` set original \<union> fst ` set workspace" for k
  proof -
    from that obtain root p where p: "indexed root d p" "k = index_name (drop (length root) p)"
      using hash_index_keys [OF assms(1)] hash_index_keys [OF assms(2)] by (metis Un_iff)
    with hash_index_names [OF assms(3) p(1)] show ?thesis by (auto simp: list_all_iff)
  qed
  then show ?thesis unfolding set_map_filter_iff set_sort set_remdups set_append set_map by metis
qed

lemma changed_entry_fresh:
  "changed_entry original workspace (changes_by_path []) path = Some c \<longleftrightarrow>
     index_hash original path \<noteq> index_hash workspace path \<and>
     c = \<lparr>c_path = path,
          c_status = (if index_hash original path = None then Added else if index_hash workspace path = None then Deleted else Modified),
          c_before_hash = index_hash original path, c_after_ai_hash = index_hash workspace path, c_after_merge_hash = None,
          c_merged_hunks = None, c_accepted = False, c_merge_status = lit ''pending''\<rparr>"
  by (auto simp: changed_entry_def changes_by_path_def Let_def split: option.splits)

text \<open>The two hashes of a path, and when they differ.\<close>

lemma fresh_copy_hashes:
  assumes run: "copy_project source destination d = (e, Inr ())" and apart: "source \<parallel> destination"
    and fresh: "wf_disk d" "\<not> path_exists d destination" "lookup d source = Some Directory"
    and clean: "clean_disk d" "list_all clean_name destination" "lit ''.git'' \<notin> set (source @ destination)"
    and idx: "hash_index sv source e = Inr original" "hash_index sv destination e = Inr workspace"
    and rel: "list_all clean_name rel"
  shows "index_hash original (index_name rel) \<noteq> index_hash workspace (index_name rel) \<longleftrightarrow>
       path_is_file d (source @ rel) \<and> ignored rel \<and> lit ''.git'' \<notin> set rel"
    and "index_hash original (index_name rel) \<noteq> index_hash workspace (index_name rel) \<Longrightarrow> index_hash workspace (index_name rel) = None"
proof -
  have e: "clean_disk e" by (rule clean_copy_project [OF run clean(1,2)])
  have git: "lit ''.git'' \<in> set rel \<Longrightarrow> ignored rel" by (auto simp: ignored_def default_ignores_def list_ex_iff)
  have h: "index_hash original (index_name rel) = (if lit ''.git'' \<notin> set rel then map_option (hash_of sv) (file_at d (source @ rel)) else None)"
    "index_hash workspace (index_name rel) = (if \<not> ignored rel then map_option (hash_of sv) (file_at d (source @ rel)) else None)"
    using hash_index_hash [OF e idx(1), of rel] hash_index_hash [OF e idx(2), of rel] rel clean(3)
      fresh_copy_files [OF run apart fresh, of rel] git
    by (auto simp: indexed_def list_all_iff simp flip: file_at_None_iff simp del: lit_simps)
  show "index_hash original (index_name rel) \<noteq> index_hash workspace (index_name rel) \<longleftrightarrow>
       path_is_file d (source @ rel) \<and> ignored rel \<and> lit ''.git'' \<notin> set rel"
    unfolding h using git file_at_None_iff [of d "source @ rel"] by (cases "file_at d (source @ rel)") auto
  then show "index_hash workspace (index_name rel) = None"
    if "index_hash original (index_name rel) \<noteq> index_hash workspace (index_name rel)"
    using that unfolding h by simp
qed

text \<open>A project with a source file and a build directory.\<close>

definition sample_project :: task_disk where
  "sample_project =
     \<lparr>nodes = [([[111]], Directory), ([[111], [97]], File (Utf8 [1])), ([[111], lit ''target''], Directory),
               ([[111], lit ''target'', [98]], File (Utf8 [2]))],
      refused = (\<lambda>_. False)\<rparr>"

declare for_each.simps [simp del] map_each.simps [simp del]

lemma sample_copy:
  "\<exists>e. copy_project [[111]] [[119]] sample_project = (e, Inr ()) \<and>
     (\<exists>changes. compare_roots sv [[111]] [[119]] [] e = Inr changes)"
  by (simp add: run_file_actions evaluate_simps sample_project_def ignored_def default_ignores_def cong: run_congs)



end
