(* ===== verification/Task_Records.thy ===== *)
theory Task_Records
  imports Task_Copy "HOL-Library.Multiset"
begin

text \<open>
  The records that the engine keeps beside the changes of a task: conversations (\<open>sessions.rs\<close>), runs of commands
  (\<open>activity.rs\<close>), reviews against the merge policy (\<open>review.rs\<close>, \<open>policy.rs\<close>) and the memory of a project
  (\<open>memory.rs\<close>), with the operations of \<open>engine.rs\<close> that only keep such records. Identifiers of conversations, tasks and
  commands are single names. The entries of a directory come in the order of their names; the source sorts them afterwards,
  and for entries with equal keys the order of the operating system is left open.
\<close>

section \<open>Reading artifacts\<close>

fun as_command :: "artifact \<Rightarrow> command_run_record option" where
  "as_command (CommandJson r) = Some r" | "as_command _ = None"

fun as_review :: "artifact \<Rightarrow> review_report option" where
  "as_review (ReviewJson r) = Some r" | "as_review _ = None"

fun as_summary :: "artifact \<Rightarrow> structured_task_summary option" where
  "as_summary (SummaryJson s) = Some s" | "as_summary _ = None"

fun as_candidates :: "artifact \<Rightarrow> candidate_memory_record list option" where
  "as_candidates (CandidatesJson cs) = Some cs" | "as_candidates _ = None"

fun as_memory :: "artifact \<Rightarrow> (rstr \<times> project_memory_record) list option" where
  "as_memory (MemoryJson m) = Some m" | "as_memory _ = None"

text \<open>An artifact that may be absent.\<close>

definition read_optional :: "(artifact \<Rightarrow> 'a option) \<Rightarrow> fpath \<Rightarrow> task_disk \<Rightarrow> (core_error, 'a option) result" where
  "read_optional pick p d = (if path_exists d p then rbind (read_json pick p d) (\<lambda>v. Inr (Some v)) else Inr None)"

definition read_dir :: "fpath \<Rightarrow> task_disk \<Rightarrow> (core_error, fpath list) result" where
  "read_dir root d =
     (if lookup d root \<noteq> Some Directory \<or> refused d root then Inl IoError
      else Inr (filter (\<lambda>p. butlast p = root) (below d root)))"

section \<open>Conversations\<close>

definition conversation_binding_path :: "fpath \<Rightarrow> rstr \<Rightarrow> fpath" where
  "conversation_binding_path root conversation_id = root @ [lit ''conversations'', conversation_id @ lit ''.json'']"

definition read_conversation_binding :: "fpath \<Rightarrow> rstr \<Rightarrow> task_disk \<Rightarrow> (core_error, conversation_binding option) result" where
  "read_conversation_binding root conversation_id = read_optional as_binding (conversation_binding_path root conversation_id)"

definition write_conversation_binding ::
    "services \<Rightarrow> fpath \<Rightarrow> rstr \<Rightarrow> rstr \<Rightarrow> rstr option \<Rightarrow> conversation_binding task_action" where
  "write_conversation_binding sv root project_id conversation_id active_task_id =
     (let path = conversation_binding_path root conversation_id
      in and_then (create_dir_all (butlast path)) (\<lambda>_.
         and_then (asking (now sv)) (\<lambda>t.
         and_then (reading (read_conversation_binding root conversation_id)) (\<lambda>old.
           let binding = \<lparr>cb_project_id = project_id, cb_conversation_id = conversation_id, cb_active_task_id = active_task_id,
                          cb_created_at = (case old of Some b \<Rightarrow> cb_created_at b | None \<Rightarrow> t), cb_updated_at = t\<rparr>
           in and_then (fs_write path (Json (BindingJson binding))) (\<lambda>_. give binding)))))"

definition stored_task :: "task_disk \<Rightarrow> fpath \<Rightarrow> task_record option" where
  "stored_task d p =
     (if path_exists d p then (case read_json as_task p d of Inr t \<Rightarrow> Some t | Inl _ \<Rightarrow> None) else None)"

definition find_latest_unfinished_task :: "fpath \<Rightarrow> task_disk \<Rightarrow> (core_error, task_record option) result" where
  "find_latest_unfinished_task root d =
     (let tasks_root = root @ [lit ''tasks'']
      in if \<not> path_exists d tasks_root then Inr None
         else rbind (read_dir tasks_root d) (\<lambda>entries.
           let tasks = filter (\<lambda>t. \<not> is_terminal (t_status t))
                         (List.map_filter (\<lambda>p. stored_task d (p @ [lit ''task.json''])) entries)
           in Inr (last_opt (sort_key t_updated_at tasks))))"

section \<open>Runs of commands\<close>

definition command_run_path :: "fpath \<Rightarrow> rstr \<Rightarrow> fpath" where
  "command_run_path root command_id = root @ [lit ''terminal'', command_id @ lit ''.json'']"

definition write_command_run :: "fpath \<Rightarrow> command_run_record \<Rightarrow> unit task_action" where
  "write_command_run root r =
     (let path = command_run_path root (cr_id r)
      in and_then (create_dir_all (butlast path)) (\<lambda>_. fs_write path (Json (CommandJson r))))"

definition read_command_run :: "fpath \<Rightarrow> rstr \<Rightarrow> task_disk \<Rightarrow> (core_error, command_run_record option) result" where
  "read_command_run root command_id = read_optional as_command (command_run_path root command_id)"

text \<open>\<open>Path::extension\<close>: what follows the last dot, unless the name begins with it.\<close>

definition has_json_extension :: "fpath \<Rightarrow> bool" where
  "has_json_extension p =
     (case last_opt p of
        None \<Rightarrow> False
      | Some n \<Rightarrow> (case strip_suffix (lit ''.json'') n of Some stem \<Rightarrow> stem \<noteq> [] | None \<Rightarrow> False))"

text \<open>The last elements of a list, all of them when the limit is zero.\<close>

definition keep_last :: "nat \<Rightarrow> 'a list \<Rightarrow> 'a list" where
  "keep_last limit xs = (if 0 < limit \<and> limit < length xs then drop (length xs - limit) xs else xs)"

definition list_command_runs :: "fpath \<Rightarrow> nat \<Rightarrow> task_disk \<Rightarrow> (core_error, command_run_record list) result" where
  "list_command_runs root limit d =
     (let terminal_root = root @ [lit ''terminal'']
      in if \<not> path_exists d terminal_root then Inr []
         else rbind (read_dir terminal_root d) (\<lambda>entries.
           let runs = List.map_filter (\<lambda>p. case read_json as_command p d of Inr r \<Rightarrow> Some r | Inl _ \<Rightarrow> None)
                        (filter has_json_extension entries)
           in Inr (keep_last limit (sort_key cr_started_at runs))))"

text \<open>The last lines of the error stream, and the summary of a run that failed.\<close>

definition push_excerpt :: "rstr list \<Rightarrow> rstr \<Rightarrow> rstr list" where
  "push_excerpt excerpt text' =
     keep_last 8 (excerpt @ map trim (filter (\<lambda>l. trim l \<noteq> []) (str_lines text')))"

definition show_int :: "int \<Rightarrow> rstr" where
  "show_int n = (if n < 0 then lit ''-'' @ show_nat (nat (- n)) else show_nat (nat n))"

definition summarize_failure :: "rstr list \<Rightarrow> rstr \<Rightarrow> int option \<Rightarrow> rstr option" where
  "summarize_failure stderr_excerpt command exit_code =
     (if stderr_excerpt \<noteq> [] then Some (join (lit '' | '') stderr_excerpt)
      else map_option (\<lambda>code. lit ''Command `'' @ command @ lit ''` exited with code '' @ show_int code @ lit ''.'') exit_code)"

definition latest_test_from_runs :: "command_run_record list \<Rightarrow> test_outcome option" where
  "latest_test_from_runs runs =
     map_option (\<lambda>r. \<lparr>to_command_run_id = cr_id r, to_command = cr_command r,
         to_environment = (case cr_environment_profile r of Some p \<Rightarrow> p | None \<Rightarrow> lit ''local''),
         to_status = (if cr_status r = Succeeded then lit ''passed'' else lit ''failed''),
         to_exit_code = cr_exit_code r, to_stdout_path = cr_stdout_path r, to_stderr_path = cr_stderr_path r\<rparr>)
       (find (\<lambda>r. cr_kind r = TestKind) (rev runs))"

section \<open>Reviews\<close>

definition merge_policy_for_project :: "project_record \<Rightarrow> merge_policy" where
  "merge_policy_for_project project = default_merge_policy\<lparr>mp_require_test_pass := s_require_tests (p_settings project)\<rparr>"

fun max_disposition :: "review_disposition \<Rightarrow> review_disposition \<Rightarrow> review_disposition" where
  "max_disposition Blocked _ = Blocked"
| "max_disposition _ Blocked = Blocked"
| "max_disposition NeedsUserApproval _ = NeedsUserApproval"
| "max_disposition _ NeedsUserApproval = NeedsUserApproval"
| "max_disposition Informational Informational = Informational"

definition is_sensitive :: "merge_policy \<Rightarrow> rstr \<Rightarrow> bool" where
  "is_sensitive policy path = list_ex (\<lambda>pattern. str_contains path pattern) (mp_sensitive_file_patterns policy)"

definition review_file ::
    "merge_policy \<Rightarrow> file_diff \<Rightarrow> review_disposition \<times> review_issue list \<Rightarrow> review_disposition \<times> review_issue list" where
  "review_file policy file state =
     (let (disposition, issues) = state;
          (disposition1, issues1) =
            (if is_sensitive policy (fd_path file)
             then (Blocked, issues @ [\<lparr>ri_severity = High, ri_path = Some (fd_path file), ri_message = lit ''Sensitive file changed.''\<rparr>])
             else (disposition, issues))
      in if fd_is_lockfile file \<and> \<not> mp_allow_lockfile_merge_without_reason policy
         then (max_disposition disposition1 NeedsUserApproval,
               issues1 @ [\<lparr>ri_severity = Warning, ri_path = Some (fd_path file),
                           ri_message = lit ''Lockfile changed and requires user approval.''\<rparr>])
         else (disposition1, issues1))"

text \<open>The number of changed files is cast to 32 bits before it is compared.\<close>

definition too_many_files :: "merge_policy \<Rightarrow> task_manifest \<Rightarrow> bool" where
  "too_many_files policy m = (mp_max_auto_merge_files policy < length (m_changed_files m) mod 2 ^ 32)"

definition review_manifest :: "task_manifest \<Rightarrow> diff_bundle \<Rightarrow> merge_policy \<Rightarrow> review_report" where
  "review_manifest m diff policy =
     (let (disposition, issues) = fold (review_file policy) (db_files diff) (Informational, []);
          (disposition1, issues1) =
            (if too_many_files policy m
             then (max_disposition disposition NeedsUserApproval,
                   issues @ [\<lparr>ri_severity = Warning, ri_path = None,
                     ri_message = lit ''Large change set: '' @ show_nat (length (m_changed_files m)) @ lit '' files changed.''\<rparr>])
             else (disposition, issues));
          issues2 =
            (if issues1 = [] then [\<lparr>ri_severity = Info, ri_path = None, ri_message = lit ''No policy issues detected.''\<rparr>]
             else issues1)
      in \<lparr>rr_disposition = disposition1, rr_issues = issues2,
          rr_summary = (case disposition1 of
              Informational \<Rightarrow> lit ''Ready for normal user review.''
            | NeedsUserApproval \<Rightarrow> lit ''Change requires explicit user approval.''
            | Blocked \<Rightarrow> lit ''Change is blocked by policy and needs intervention.'')\<rparr>)"

section \<open>Task summaries\<close>

fun run_status_word :: "command_run_status \<Rightarrow> rstr" where
  "run_status_word Succeeded = lit ''passed''"
| "run_status_word Failed = lit ''failed''"
| "run_status_word Running = lit ''running''"

definition recovery_hints_for_status :: "task_status \<Rightarrow> rstr list" where
  "recovery_hints_for_status status =
     (case status of
        WorkspaceConflict \<Rightarrow> [lit ''Re-run resume to rebuild or validate the isolated workspace.'']
      | EnvironmentBroken \<Rightarrow> [lit ''Re-inspect the environment binding before running tests.'']
      | MergeConflicted \<Rightarrow> [lit ''Refresh changes and resolve conflicts before merging again.'']
      | TestingFailed \<Rightarrow> [lit ''Review the latest test logs and retry with a narrower command.'']
      | ReviewBlocked \<Rightarrow> [lit ''Address review blockers before requesting merge.'']
      | _ \<Rightarrow> [])"

definition is_ephemeral_path :: "rstr \<Rightarrow> bool" where
  "is_ephemeral_path path =
     (str_contains path (lit ''/tmp/'') \<or> str_contains path ([backslash_char] @ lit ''Temp'' @ [backslash_char]) \<or>
      str_contains path (lit ''target/debug/deps'') \<or> str_contains path (lit ''node_modules/''))"

definition extract_candidate_memory :: "task_manifest \<Rightarrow> rstr \<Rightarrow> rstr \<Rightarrow> rstr list \<Rightarrow> candidate_memory list" where
  "extract_candidate_memory m user_goal ai_result tests =
     map (\<lambda>c. \<lparr>cm_kind = lit ''architectureFact'', cm_title = lit ''Changed '' @ c_path c,
              cm_detail = lit ''Task modified '' @ status_debug (c_status c) @ lit '' in `'' @ c_path c @
                          lit ''` while pursuing: '' @ user_goal,
              cm_evidence_paths = [c_path c]\<rparr>)
       (filter (\<lambda>c. \<not> is_ephemeral_path (c_path c)) (m_changed_files m)) @
     (case tests of
        [] \<Rightarrow> []
      | command # _ \<Rightarrow>
          [\<lparr>cm_kind = lit ''workflowRule'', cm_title = lit ''Observed test command'',
            cm_detail = lit ''This task executed `'' @ command @ lit ''` successfully or unsuccessfully.'',
            cm_evidence_paths = []\<rparr>]) @
     (if trim ai_result \<noteq> [] \<and> byte_len ai_result < 400
      then [\<lparr>cm_kind = lit ''constraint'', cm_title = lit ''Task outcome note'', cm_detail = ai_result, cm_evidence_paths = []\<rparr>]
      else [])"

definition review_path :: "fpath \<Rightarrow> fpath" where
  "review_path root = root @ [lit ''review'', lit ''latest-review.json'']"

definition review_notes :: "review_report option \<Rightarrow> rstr list \<times> rstr list \<times> rstr list" where
  "review_notes report =
     (case report of
        Some r \<Rightarrow>
          (let risks = map ri_message (rr_issues r)
           in ([rr_summary r], risks, if rr_disposition r = Blocked then risks else []))
      | None \<Rightarrow> ([lit ''Pending user review.''], [lit ''Review required before merge.''], []))"

definition build_structured_summary ::
    "task_manifest \<Rightarrow> rstr \<Rightarrow> rstr \<Rightarrow> fpath \<Rightarrow> task_disk \<Rightarrow> (core_error, structured_task_summary) result" where
  "build_structured_summary m user_goal ai_result root d =
     rbind (list_command_runs root 50 d) (\<lambda>runs.
     rbind (read_optional as_review (review_path root) d) (\<lambda>report.
       let tests = map (\<lambda>r. cr_command r @ lit '' ('' @ run_status_word (cr_status r) @ lit '')'')
                     (filter (\<lambda>r. cr_kind r = TestKind) runs);
           (decisions, risks, blockers) = review_notes report
       in Inr \<lparr>ss_task_id = m_task_id m, ss_user_goal = user_goal, ss_ai_result = ai_result,
               ss_files_changed = map c_path (m_changed_files m), ss_decisions = decisions,
               ss_tests = (if tests = [] then [lit ''Not run.''] else tests), ss_risks = risks, ss_blockers = blockers,
               ss_recovery_hints = recovery_hints_for_status (m_status m),
               ss_candidate_memory = extract_candidate_memory m user_goal ai_result tests\<rparr>))"

definition summary_section :: "rstr \<Rightarrow> rstr \<Rightarrow> rstr" where
  "summary_section title contents = lit ''## '' @ title @ [newline, newline] @ contents @ [newline]"

definition render_summary :: "structured_task_summary \<Rightarrow> rstr" where
  "render_summary s =
     (let files_changed = join [newline] (map (\<lambda>p. lit ''- `'' @ p @ lit ''`'') (ss_files_changed s));
          candidate_lines = join [newline]
            (map (\<lambda>c. lit ''- **'' @ cm_title c @ lit ''**: '' @ cm_detail c) (ss_candidate_memory s))
      in lit ''# Task Summary'' @ [newline, newline] @
         join [newline]
           [summary_section (lit ''User Goal'') (ss_user_goal s), summary_section (lit ''AI Result'') (ss_ai_result s),
            summary_section (lit ''Files Changed'') files_changed,
            summary_section (lit ''Decisions'') (join [newline] (ss_decisions s)),
            summary_section (lit ''Tests'') (join [newline] (ss_tests s)),
            summary_section (lit ''Risks'') (join [newline] (ss_risks s)),
            summary_section (lit ''Blockers'') (join [newline] (ss_blockers s)),
            summary_section (lit ''Recovery Hints'') (join [newline] (ss_recovery_hints s)),
            summary_section (lit ''Candidate Project Memory'')
              (if candidate_lines = [] then lit ''- None proposed.'' else candidate_lines)])"

section \<open>Project memory\<close>

definition candidate_memory_path :: "fpath \<Rightarrow> fpath" where
  "candidate_memory_path root = root @ [lit ''memory'', lit ''candidate-memory.json'']"

definition project_memory_path :: "fpath \<Rightarrow> fpath" where
  "project_memory_path root = root @ [lit ''memory'', lit ''project-memory.json'']"

definition write_candidate_memory_file :: "services \<Rightarrow> fpath \<Rightarrow> structured_task_summary \<Rightarrow> unit task_action" where
  "write_candidate_memory_file sv root s =
     and_then (asking (\<lambda>d. map (\<lambda>(n, c). \<lparr>cmr_id = nth_uuid sv d n, cmr_candidate = c, cmr_status = CandidatePending\<rparr>)
                             (enumerate 0 (ss_candidate_memory s)))) (\<lambda>records.
       fs_write (candidate_memory_path root) (Json (CandidatesJson records)))"

definition write_summary_artifacts :: "services \<Rightarrow> fpath \<Rightarrow> structured_task_summary \<Rightarrow> (fpath \<times> fpath) task_action" where
  "write_summary_artifacts sv root s =
     (let memory_root = root @ [lit ''memory''];
          markdown_path = memory_root @ [lit ''task-summary.md''];
          json_path = memory_root @ [lit ''task-summary.json'']
      in and_then (create_dir_all memory_root) (\<lambda>_.
         and_then (fs_write markdown_path (Utf8 (render_summary s))) (\<lambda>_.
         and_then (fs_write json_path (Json (SummaryJson s))) (\<lambda>_.
         and_then (write_candidate_memory_file sv root s) (\<lambda>_. give (markdown_path, json_path))))))"

definition read_candidate_memory_records :: "fpath \<Rightarrow> task_disk \<Rightarrow> (core_error, candidate_memory_record list) result" where
  "read_candidate_memory_records root d =
     (if path_exists d (candidate_memory_path root) then read_json as_candidates (candidate_memory_path root) d else Inr [])"

definition read_project_memory :: "fpath \<Rightarrow> task_disk \<Rightarrow> (core_error, (rstr \<times> project_memory_record) list) result" where
  "read_project_memory p d = (if path_exists d p then read_json as_memory p d else Inr [])"

definition write_project_memory :: "fpath \<Rightarrow> (rstr \<times> project_memory_record) list \<Rightarrow> unit task_action" where
  "write_project_memory p records = and_then (create_dir_all (butlast p)) (\<lambda>_. fs_write p (Json (MemoryJson records)))"

definition memory_key :: "candidate_memory \<Rightarrow> rstr" where
  "memory_key c = cm_kind c @ lit ''::'' @ cm_title c"

text \<open>The state of the loop: the memory, and the identifiers applied, skipped and in conflict so far.\<close>

record memory_progress =
  mem_records :: "(rstr \<times> project_memory_record) list"
  mem_applied :: "rstr list"
  mem_skipped :: "rstr list"
  mem_conflicts :: "rstr list"

definition apply_candidate ::
    "(nat \<Rightarrow> rstr) \<Rightarrow> int \<Rightarrow> candidate_memory_record list \<Rightarrow> rstr \<Rightarrow> memory_progress \<Rightarrow> memory_progress" where
  "apply_candidate ids t candidates candidate_id st =
     (case find (\<lambda>r. cmr_id r = candidate_id) candidates of
        None \<Rightarrow> st\<lparr>mem_skipped := mem_skipped st @ [candidate_id]\<rparr>
      | Some r \<Rightarrow>
          if cmr_status r = CandidateConflict then st\<lparr>mem_conflicts := mem_conflicts st @ [candidate_id]\<rparr>
          else
            (let c = cmr_candidate r
             in case map_of (mem_records st) (memory_key c) of
                  Some existing \<Rightarrow>
                    if pm_detail existing = cm_detail c then st\<lparr>mem_skipped := mem_skipped st @ [candidate_id]\<rparr>
                    else st\<lparr>mem_conflicts := mem_conflicts st @ [candidate_id]\<rparr>
                | None \<Rightarrow>
                    st\<lparr>mem_records := AList.update (memory_key c)
                          \<lparr>pm_id = ids (length (mem_applied st)), pm_kind = cm_kind c, pm_title = cm_title c,
                           pm_detail = cm_detail c, pm_evidence_paths = cm_evidence_paths c, pm_updated_at = t\<rparr> (mem_records st),
                       mem_applied := mem_applied st @ [candidate_id]\<rparr>))"

definition apply_candidates ::
    "(nat \<Rightarrow> rstr) \<Rightarrow> int \<Rightarrow> candidate_memory_record list \<Rightarrow> rstr list \<Rightarrow> (rstr \<times> project_memory_record) list
       \<Rightarrow> memory_progress" where
  "apply_candidates ids t candidates candidate_ids records =
     fold (apply_candidate ids t candidates) candidate_ids
       \<lparr>mem_records = records, mem_applied = [], mem_skipped = [], mem_conflicts = []\<rparr>"

definition apply_candidate_memory :: "services \<Rightarrow> fpath \<Rightarrow> fpath \<Rightarrow> rstr list \<Rightarrow> memory_apply_outcome task_action" where
  "apply_candidate_memory sv root troot candidate_ids =
     and_then (reading (read_candidate_memory_records troot)) (\<lambda>candidates.
     and_then (reading (read_project_memory (project_memory_path root))) (\<lambda>records.
     and_then (asking (\<lambda>d. apply_candidates (nth_uuid sv d) (now sv d) candidates candidate_ids records)) (\<lambda>st.
     and_then (write_project_memory (project_memory_path root) (mem_records st)) (\<lambda>_.
       give \<lparr>ma_applied = mem_applied st, ma_skipped = mem_skipped st, ma_conflicts = mem_conflicts st\<rparr>))))"

section \<open>Operations of the engine\<close>

definition read_project :: "fpath \<Rightarrow> rstr \<Rightarrow> task_disk \<Rightarrow> (core_error, project_record) result" where
  "read_project state_root project_id = read_json as_project (project_root state_root project_id @ [lit ''project.json''])"

definition write_project :: "fpath \<Rightarrow> project_record \<Rightarrow> unit task_action" where
  "write_project state_root project =
     fs_write (project_root state_root (p_id project) @ [lit ''project.json'']) (Json (ProjectJson project))"

definition read_manifest :: "fpath \<Rightarrow> rstr \<Rightarrow> rstr \<Rightarrow> task_disk \<Rightarrow> (core_error, task_manifest) result" where
  "read_manifest state_root project_id task_id = manifest_read_from_path (manifest_file state_root project_id task_id)"

definition write_task_summary :: "services \<Rightarrow> fpath \<Rightarrow> fpath \<Rightarrow> rstr \<Rightarrow> rstr \<Rightarrow> fpath task_action" where
  "write_task_summary sv state_root manifest_path user_goal ai_result =
     and_then (reading (manifest_read_from_path manifest_path)) (\<lambda>m.
       let root = task_root state_root (m_project_id m) (m_task_id m)
       in and_then (reading (build_structured_summary m user_goal ai_result root)) (\<lambda>s.
          and_then (write_summary_artifacts sv root s) (\<lambda>(path, json_path).
          and_then (append_timeline sv state_root (m_project_id m) (m_task_id m) SummaryGenerated (SummaryPayload path json_path)) (\<lambda>_.
          and_then (write_task_status sv state_root (m_project_id m) (m_task_id m) SummaryReady) (\<lambda>_. give path)))))"

definition list_memory_candidates :: "fpath \<Rightarrow> rstr \<Rightarrow> rstr \<Rightarrow> task_disk \<Rightarrow> (core_error, candidate_memory_record list) result" where
  "list_memory_candidates state_root project_id task_id = read_candidate_memory_records (task_root state_root project_id task_id)"

definition apply_memory_candidates ::
    "services \<Rightarrow> fpath \<Rightarrow> rstr \<Rightarrow> rstr \<Rightarrow> rstr list \<Rightarrow> memory_apply_outcome task_action" where
  "apply_memory_candidates sv state_root project_id task_id =
     apply_candidate_memory sv (project_root state_root project_id) (task_root state_root project_id task_id)"

definition restore_traceback ::
    "services \<Rightarrow> fpath \<Rightarrow> rstr \<Rightarrow> rstr \<Rightarrow> rstr \<Rightarrow> traceback_restore_target \<Rightarrow> traceback_restore_outcome task_action" where
  "restore_traceback sv state_root project_id task_id path target =
     and_then (reading (read_manifest state_root project_id task_id)) (\<lambda>m.
     and_then (restore_file m (task_root state_root project_id task_id) path target) (\<lambda>out.
     and_then (append_timeline sv state_root project_id task_id RollbackCompleted
                 (TracebackPayload path (tr_target out) (tr_revision out))) (\<lambda>_. give out)))"

definition annotate_command_run ::
    "services \<Rightarrow> fpath \<Rightarrow> rstr \<Rightarrow> rstr \<Rightarrow> rstr \<Rightarrow> rstr option \<Rightarrow> rstr option \<Rightarrow> command_run_record task_action" where
  "annotate_command_run sv state_root project_id task_id command_id diagnosis next_step =
     (let root = task_root state_root project_id task_id
      in and_then (reading (read_command_run root command_id)) (\<lambda>found.
           case found of
             None \<Rightarrow> fail_with (OtherError (lit ''missing command record for '' @ command_id))
           | Some r0 \<Rightarrow>
               (let r = r0\<lparr>cr_diagnosis := some_or diagnosis (cr_diagnosis r0), cr_next_step := some_or next_step (cr_next_step r0)\<rparr>
                in and_then (write_command_run root r) (\<lambda>_.
                   and_then (append_timeline sv state_root project_id task_id AgentNote
                               (DiagnosisPayload command_id diagnosis next_step)) (\<lambda>_. give r)))))"

definition record_agent_plan :: "services \<Rightarrow> fpath \<Rightarrow> rstr \<Rightarrow> rstr \<Rightarrow> rstr \<Rightarrow> timeline_event task_action" where
  "record_agent_plan sv state_root project_id task_id message =
     append_timeline sv state_root project_id task_id AgentPlan (MessagePayload message)"

definition record_agent_note ::
    "services \<Rightarrow> fpath \<Rightarrow> rstr \<Rightarrow> rstr \<Rightarrow> rstr \<Rightarrow> rstr option \<Rightarrow> rstr option \<Rightarrow> timeline_event task_action" where
  "record_agent_note sv state_root project_id task_id message command_id path =
     append_timeline sv state_root project_id task_id AgentNote (NotePayload message command_id path)"

definition record_file_read :: "services \<Rightarrow> fpath \<Rightarrow> rstr \<Rightarrow> rstr \<Rightarrow> rstr \<Rightarrow> timeline_event task_action" where
  "record_file_read sv state_root project_id task_id path =
     append_timeline sv state_root project_id task_id FileRead (PathPayload path)"

definition record_file_edit_started :: "services \<Rightarrow> fpath \<Rightarrow> rstr \<Rightarrow> rstr \<Rightarrow> rstr \<Rightarrow> timeline_event task_action" where
  "record_file_edit_started sv state_root project_id task_id path =
     append_timeline sv state_root project_id task_id FileEditStarted (PathPayload path)"

definition review_task :: "services \<Rightarrow> fpath \<Rightarrow> rstr \<Rightarrow> rstr \<Rightarrow> review_report task_action" where
  "review_task sv state_root project_id task_id =
     and_then (reading (read_project state_root project_id)) (\<lambda>project.
     and_then (reading (read_manifest state_root project_id task_id)) (\<lambda>m.
     and_then (reading (build_diff_bundle sv m)) (\<lambda>diff.
       let report = review_manifest m diff (merge_policy_for_project project);
           path = review_path (task_root state_root project_id task_id)
       in and_then (create_dir_all (butlast path)) (\<lambda>_.
          and_then (fs_write path (Json (ReviewJson report))) (\<lambda>_.
          and_then (write_task_status sv state_root project_id task_id
                      (if rr_disposition report = Blocked then ReviewBlocked else ReviewPassed)) (\<lambda>_.
          and_then (append_timeline sv state_root project_id task_id ReviewCompleted (ReviewPayload report)) (\<lambda>_.
            give report)))))))"

definition archive_task :: "services \<Rightarrow> fpath \<Rightarrow> rstr \<Rightarrow> rstr \<Rightarrow> task_record task_action" where
  "archive_task sv state_root project_id task_id =
     (let root = project_root state_root project_id; manifest_path = manifest_file state_root project_id task_id
      in and_then (reading (read_task_record root task_id)) (\<lambda>found.
           case found of
             None \<Rightarrow> fail_with (OtherError (lit ''missing task record for '' @ task_id))
           | Some t0 \<Rightarrow>
               and_then (asking (now sv)) (\<lambda>t.
                 let task = t0\<lparr>t_status := Archived, t_updated_at := t, t_completed_at := some_or (t_completed_at t0) (Some t)\<rparr>
                 in and_then (write_task_record root task) (\<lambda>_.
                    and_then (asking (\<lambda>d. path_exists d manifest_path)) (\<lambda>there.
                    and_then (if there then
                                and_then (reading (manifest_read_from_path manifest_path)) (\<lambda>m.
                                and_then (asking (now sv)) (\<lambda>t'.
                                  manifest_write_to_path (m\<lparr>m_status := Archived, m_updated_at := t'\<rparr>) manifest_path))
                              else give ()) (\<lambda>_. give task))))))"

section \<open>What a review decides\<close>

definition needs_reason :: "merge_policy \<Rightarrow> file_diff \<Rightarrow> bool" where
  "needs_reason policy file \<longleftrightarrow> fd_is_lockfile file \<and> \<not> mp_allow_lockfile_merge_without_reason policy"

lemma max_disposition_simps [simp]: "max_disposition x Informational = x" "max_disposition x NeedsUserApproval = (if x = Blocked then Blocked else NeedsUserApproval)"
  by (cases x; simp)+

lemma review_files:
  "fst (fold (review_file policy) files (disposition, issues)) =
     (if disposition = Blocked \<or> (\<exists>f \<in> set files. is_sensitive policy (fd_path f)) then Blocked
      else if disposition = NeedsUserApproval \<or> (\<exists>f \<in> set files. needs_reason policy f) then NeedsUserApproval else Informational)"
  by (induction files arbitrary: disposition issues)
     (auto simp: review_file_def needs_reason_def Let_def intro: review_disposition.exhaust)

lemma review_files_issues:
  "snd (fold (review_file policy) files (disposition, issues)) = [] \<longleftrightarrow>
     issues = [] \<and> \<not> (\<exists>f \<in> set files. is_sensitive policy (fd_path f) \<or> needs_reason policy f)"
  by (induction files arbitrary: disposition issues) (auto simp: review_file_def needs_reason_def Let_def)

text \<open>The disposition of a review, and that it is free of issues just when it is informational.\<close>

lemma review_manifest_disposition:
  "rr_disposition (review_manifest m diff policy) =
     (if \<exists>f \<in> set (db_files diff). is_sensitive policy (fd_path f) then Blocked
      else if (\<exists>f \<in> set (db_files diff). needs_reason policy f) \<or> too_many_files policy m then NeedsUserApproval
      else Informational)"
  using review_files [of policy "db_files diff" Informational "[]"]
  by (cases "fold (review_file policy) (db_files diff) (Informational, [])") (auto simp: review_manifest_def Let_def)

lemma review_manifest_informational:
  "rr_disposition (review_manifest m diff policy) = Informational \<Longrightarrow>
     rr_issues (review_manifest m diff policy) = [\<lparr>ri_severity = Info, ri_path = None, ri_message = lit ''No policy issues detected.''\<rparr>]"
  using review_files_issues [of policy "db_files diff" Informational "[]"] review_manifest_disposition [of m diff policy]
  by (cases "fold (review_file policy) (db_files diff) (Informational, [])")
     (auto simp: review_manifest_def Let_def split: if_splits)

text \<open>The settings of the project about tests have no influence on its reviews.\<close>

lemma review_ignores_tests:
  "review_manifest m diff (merge_policy_for_project (project\<lparr>p_settings := s\<rparr>)) = review_manifest m diff (merge_policy_for_project project)"
proof -
  have "review_file (policy\<lparr>mp_require_test_pass := b\<rparr>) = review_file policy"
    "too_many_files (policy\<lparr>mp_require_test_pass := b\<rparr>) = too_many_files policy" for policy b
    by (simp_all add: review_file_def [abs_def] is_sensitive_def too_many_files_def [abs_def])
  then show ?thesis by (simp add: merge_policy_for_project_def review_manifest_def)
qed

section \<open>What applying candidates does to the memory\<close>

lemma apply_candidate_keeps:
  "map_of (mem_records st) k = Some r \<Longrightarrow> map_of (mem_records (apply_candidate ids t candidates x st)) k = Some r"
  by (auto simp: apply_candidate_def Let_def update_conv' split: option.splits)

lemma apply_candidate_counts:
  "mset (mem_applied (apply_candidate ids t candidates x st) @ mem_skipped (apply_candidate ids t candidates x st) @
      mem_conflicts (apply_candidate ids t candidates x st)) =
   add_mset x (mset (mem_applied st @ mem_skipped st @ mem_conflicts st))"
  by (auto simp: apply_candidate_def Let_def split: option.splits)

text \<open>Whether the memory has an entry with the detail of a candidate.\<close>

definition remembered :: "candidate_memory_record list \<Rightarrow> (rstr \<times> project_memory_record) list \<Rightarrow> rstr \<Rightarrow> bool" where
  "remembered candidates records x \<longleftrightarrow>
     (\<exists>r rec. find (\<lambda>r. cmr_id r = x) candidates = Some r \<and>
        map_of records (memory_key (cmr_candidate r)) = Some rec \<and> pm_detail rec = cm_detail (cmr_candidate r))"

definition memory_settled :: "candidate_memory_record list \<Rightarrow> (rstr \<times> project_memory_record) list \<Rightarrow> rstr \<Rightarrow> bool" where
  "memory_settled candidates records x \<longleftrightarrow>
     (\<forall>r. find (\<lambda>r. cmr_id r = x) candidates = Some r \<longrightarrow>
        cmr_status r = CandidateConflict \<or> map_of records (memory_key (cmr_candidate r)) \<noteq> None)"

lemma remembered_kept:
  "remembered candidates (mem_records st) y \<Longrightarrow> remembered candidates (mem_records (apply_candidate ids t candidates x st)) y"
  unfolding remembered_def by (blast intro: apply_candidate_keeps)

lemma settled_kept:
  "memory_settled candidates (mem_records st) y \<Longrightarrow> memory_settled candidates (mem_records (apply_candidate ids t candidates x st)) y"
  unfolding memory_settled_def using apply_candidate_keeps by (metis not_None_eq)

lemma apply_candidate_applied:
  "y \<in> set (mem_applied (apply_candidate ids t candidates x st)) \<Longrightarrow>
     y \<in> set (mem_applied st) \<or> remembered candidates (mem_records (apply_candidate ids t candidates x st)) y"
  by (auto simp: apply_candidate_def Let_def remembered_def update_conv' split: option.splits if_splits)

lemma apply_candidate_settled: "memory_settled candidates (mem_records (apply_candidate ids t candidates x st)) x"
  by (auto simp: apply_candidate_def memory_settled_def Let_def update_conv' split: option.splits)

lemma apply_settled:
  "memory_settled candidates (mem_records st) x \<Longrightarrow>
     mem_records (apply_candidate ids t candidates x st) = mem_records st \<and> mem_applied (apply_candidate ids t candidates x st) = mem_applied st"
  by (auto simp: apply_candidate_def memory_settled_def Let_def split: option.splits)

lemma apply_fold:
  fixes ids t candidates
  defines "run \<equiv> fold (apply_candidate ids t candidates)"
  shows "map_of (mem_records st) k = Some r \<Longrightarrow> map_of (mem_records (run xs st)) k = Some r"
    and "mset (mem_applied (run xs st) @ mem_skipped (run xs st) @ mem_conflicts (run xs st)) =
           mset xs + mset (mem_applied st @ mem_skipped st @ mem_conflicts st)"
    and "\<forall>y \<in> set (mem_applied st). remembered candidates (mem_records st) y \<Longrightarrow>
           \<forall>y \<in> set (mem_applied (run xs st)). remembered candidates (mem_records (run xs st)) y"
    and "memory_settled candidates (mem_records st) x \<or> x \<in> set xs \<Longrightarrow> memory_settled candidates (mem_records (run xs st)) x"
    and "\<forall>x \<in> set xs. memory_settled candidates (mem_records st) x \<Longrightarrow>
           mem_records (run xs st) = mem_records st \<and> mem_applied (run xs st) = mem_applied st"
  unfolding run_def
proof (induction xs arbitrary: st)
  case (Cons y xs)
  {
    case 1
    then show ?case using Cons(1) apply_candidate_keeps by simp
  next
    case 2
    show ?case using Cons(2) [of "apply_candidate ids t candidates y st"] apply_candidate_counts [of ids t candidates y st] by simp
  next
    case 3
    then have "\<forall>z \<in> set (mem_applied (apply_candidate ids t candidates y st)).
        remembered candidates (mem_records (apply_candidate ids t candidates y st)) z"
      using apply_candidate_applied remembered_kept by blast
    from Cons(3) [OF this] show ?case by simp
  next
    case 4
    then show ?case using Cons(4) settled_kept apply_candidate_settled by (metis fold_simps(2) set_ConsD)
  next
    case 5
    then show ?case using Cons(5) [of "apply_candidate ids t candidates y st"] apply_settled [of candidates st y ids t] by auto
  }
qed simp_all

text \<open>
  C34: Applying candidates of a task to the memory of a project never changes or removes what the project remembers, accounts for
  each identifier once, stores every candidate it reports as applied, and applying the same identifiers again, whatever the clock
  and the new identifiers, applies nothing and leaves the memory as it is.
\<close>

theorem memory_never_overwritten:
  assumes run: "apply_candidate_memory sv root troot ids d = (e, Inr out)"
    and before: "read_project_memory (project_memory_path root) d = Inr before"
    and candidates: "read_candidate_memory_records troot d = Inr candidates"
  shows "\<exists>after. lookup e (project_memory_path root) = Some (File (Json (MemoryJson after))) \<and>
     (\<forall>k r. map_of before k = Some r \<longrightarrow> map_of after k = Some r) \<and>
     mset (ma_applied out @ ma_skipped out @ ma_conflicts out) = mset ids \<and>
     (\<forall>x \<in> set (ma_applied out). remembered candidates after x) \<and>
     (\<forall>new_ids t. mem_applied (apply_candidates new_ids t candidates ids after) = [] \<and>
        mem_records (apply_candidates new_ids t candidates ids after) = after)"
proof -
  define st where "st = apply_candidates (nth_uuid sv d) (now sv d) candidates ids before"
  from run before candidates obtain d1 where "fs_write (project_memory_path root) (Json (MemoryJson (mem_records st))) d1 = (e, Inr ())"
    and out: "out = \<lparr>ma_applied = mem_applied st, ma_skipped = mem_skipped st, ma_conflicts = mem_conflicts st\<rparr>"
    unfolding st_def by (auto simp: apply_candidate_memory_def write_project_memory_def and_then_ok)
  then have look: "lookup e (project_memory_path root) = Some (File (Json (MemoryJson (mem_records st))))" by (simp add: fs_write_lookup)
  let ?start = "\<lparr>mem_records = before, mem_applied = [], mem_skipped = [], mem_conflicts = []\<rparr>"
  note fold = apply_fold [where ids = "nth_uuid sv d" and t = "now sv d" and candidates = candidates and st = ?start and xs = ids,
      folded apply_candidates_def, folded st_def]
  have again: "mem_applied (apply_candidates new_ids t candidates ids (mem_records st)) = [] \<and>
      mem_records (apply_candidates new_ids t candidates ids (mem_records st)) = mem_records st" for new_ids t
    unfolding apply_candidates_def
    using fold(4) apply_fold(5) [where ids = new_ids and t = t and candidates = candidates and xs = ids and
        st = "\<lparr>mem_records = mem_records st, mem_applied = [], mem_skipped = [], mem_conflicts = []\<rparr>"] by simp
  show ?thesis using look fold(1,2,3) again by (intro exI [of _ "mem_records st"]) (simp add: out)
qed

text \<open>A task with one candidate, in a project that remembers something else.\<close>

definition sample_candidate :: candidate_memory_record where
  "sample_candidate =
     \<lparr>cmr_id = [1], cmr_candidate = \<lparr>cm_kind = [107], cm_title = [97], cm_detail = [100], cm_evidence_paths = []\<rparr>,
      cmr_status = CandidatePending\<rparr>"

definition sample_memory :: "(rstr \<times> project_memory_record) list" where
  "sample_memory =
     [([98], \<lparr>pm_id = [], pm_kind = [], pm_title = [], pm_detail = [7], pm_evidence_paths = [], pm_updated_at = 0\<rparr>)]"

definition sample_memory_disk :: task_disk where
  "sample_memory_disk =
     \<lparr>nodes = [([[112]], Directory), ([[112], lit ''memory''], Directory),
               (project_memory_path [[112]], File (Json (MemoryJson sample_memory))),
               ([[116]], Directory), ([[116], lit ''memory''], Directory),
               (candidate_memory_path [[116]], File (Json (CandidatesJson [sample_candidate])))],
      refused = (\<lambda>_. False)\<rparr>"

lemma sample_apply:
  "\<exists>e out. apply_candidate_memory sv [[112]] [[116]] [[1], [2]] sample_memory_disk = (e, Inr out) \<and> ma_applied out = [[1]]"
  by (simp add: apply_candidate_memory_def [THEN fun_cong] write_project_memory_def [THEN fun_cong] read_candidate_memory_records_def
      read_project_memory_def run_file_actions evaluate_simps sample_memory_disk_def sample_memory_def sample_candidate_def
      project_memory_path_def candidate_memory_path_def apply_candidates_def apply_candidate_def memory_key_def cong: run_congs)

theorem memory_never_overwritten_witness:
  "\<forall>sv. \<exists>e after r. fst (apply_candidate_memory sv [[112]] [[116]] [[1], [2]] sample_memory_disk) = e \<and>
     lookup e (project_memory_path [[112]]) = Some (File (Json (MemoryJson after))) \<and>
     map_of after [98] = Some r \<and> pm_detail r = [7] \<and> remembered [sample_candidate] after [1]"
proof
  fix sv
  obtain e out where run: "apply_candidate_memory sv [[112]] [[116]] [[1], [2]] sample_memory_disk = (e, Inr out)"
    and applied: "ma_applied out = [[1]]" using sample_apply by blast
  have "read_project_memory (project_memory_path [[112]]) sample_memory_disk = Inr sample_memory"
    "read_candidate_memory_records [[116]] sample_memory_disk = Inr [sample_candidate]"
    by (simp_all add: read_project_memory_def read_candidate_memory_records_def read_json_def fs_read_def path_exists_def lookup_def
        sample_memory_disk_def project_memory_path_def candidate_memory_path_def)
  from memory_never_overwritten [OF run this] obtain after where
    look: "lookup e (project_memory_path [[112]]) = Some (File (Json (MemoryJson after)))"
    and kept: "\<forall>k r. map_of sample_memory k = Some r \<longrightarrow> map_of after k = Some r"
    and stored: "\<forall>x \<in> set (ma_applied out). remembered [sample_candidate] after x" by blast
  have "map_of sample_memory [98] =
      Some \<lparr>pm_id = [], pm_kind = [], pm_title = [], pm_detail = [7], pm_evidence_paths = [], pm_updated_at = 0\<rparr>"
    by (simp add: sample_memory_def)
  with kept have "map_of after [98] =
      Some \<lparr>pm_id = [], pm_kind = [], pm_title = [], pm_detail = [7], pm_evidence_paths = [], pm_updated_at = 0\<rparr>" by blast
  then show "\<exists>e after r. fst (apply_candidate_memory sv [[112]] [[116]] [[1], [2]] sample_memory_disk) = e \<and>
     lookup e (project_memory_path [[112]]) = Some (File (Json (MemoryJson after))) \<and>
     map_of after [98] = Some r \<and> pm_detail r = [7] \<and> remembered [sample_candidate] after [1]"
    using look stored applied run by auto
qed

end
