(* ===== verification/Task_Lifecycle.thy ===== *)
theory Task_Lifecycle
  imports Task_Records
begin

text \<open>
  The life of a task: its isolated workspace (\<open>workspace.rs\<close>, \<open>git.rs\<close>), its creation, its reuse in a conversation, forks
  and recovery (\<open>engine.rs\<close>, \<open>recovery.rs\<close>).

  The detection of the tools of a project and the links it makes in the workspace (\<open>environment.rs\<close>) are a parameter: an action that
  gives the environment of a new workspace. A run of \<open>git\<close> is one of the services; the texts of its errors are shortened. The
  disk has no symbolic links, so that the canonical form of an existing path is the path itself.
\<close>

section \<open>Git\<close>

definition stdout_text :: "git_output \<Rightarrow> rstr option" where
  "stdout_text out = (case g_stdout out of Utf8 t \<Rightarrow> Some t | _ \<Rightarrow> None)"

text \<open>The output of a query, without the white space around it, if it succeeds and is text.\<close>

definition git_line :: "services \<Rightarrow> rstr list \<Rightarrow> fpath \<Rightarrow> task_disk \<Rightarrow> rstr option" where
  "git_line sv args path d =
     Option.bind (git_query sv args path d) (\<lambda>out.
       if g_success out then map_option trim (stdout_text out) else None)"

definition head_revision :: "services \<Rightarrow> fpath \<Rightarrow> task_disk \<Rightarrow> rstr option" where
  "head_revision sv path d =
     Option.bind (git_line sv [lit ''rev-parse'', lit ''HEAD''] path d) (\<lambda>hash. if hash = [] then None else Some hash)"

definition branch_name :: "services \<Rightarrow> fpath \<Rightarrow> task_disk \<Rightarrow> rstr option" where
  "branch_name sv path d =
     Option.bind (git_line sv [lit ''rev-parse'', lit ''--abbrev-ref'', lit ''HEAD''] path d) (\<lambda>branch.
       if branch = [] \<or> branch = lit ''HEAD'' then None else Some branch)"

definition has_changes :: "services \<Rightarrow> fpath \<Rightarrow> task_disk \<Rightarrow> bool" where
  "has_changes sv path d =
     (case git_query sv [lit ''status'', lit ''--porcelain''] path d of
        None \<Rightarrow> False
      | Some out \<Rightarrow> g_success out \<and> g_stdout out \<noteq> Utf8 [] \<and> g_stdout out \<noteq> Binary [])"

definition branch_exists :: "services \<Rightarrow> fpath \<Rightarrow> rstr \<Rightarrow> task_disk \<Rightarrow> (core_error, bool) result" where
  "branch_exists sv repo branch d =
     (case git_query sv [lit ''show-ref'', lit ''--verify'', lit ''--quiet'', lit ''refs/heads/'' @ branch] repo d of
        None \<Rightarrow> Inl IoError
      | Some out \<Rightarrow> Inr (g_success out))"

fun worktree_lines :: "rstr \<Rightarrow> rstr option \<Rightarrow> rstr list \<Rightarrow> rstr option" where
  "worktree_lines branch current [] = None"
| "worktree_lines branch current (line # ls) =
     (case strip_prefix (lit ''worktree '') line of
        Some path \<Rightarrow> worktree_lines branch (Some path) ls
      | None \<Rightarrow>
          (case strip_prefix (lit ''branch '') line of
             Some branch_ref \<Rightarrow>
               if strip_prefix (lit ''refs/heads/'') branch_ref = Some branch then current
               else worktree_lines branch current ls
           | None \<Rightarrow> worktree_lines branch current ls))"

definition worktree_for_branch :: "services \<Rightarrow> fpath \<Rightarrow> rstr \<Rightarrow> task_disk \<Rightarrow> rstr option" where
  "worktree_for_branch sv repo branch d =
     Option.bind (git_query sv [lit ''worktree'', lit ''list'', lit ''--porcelain''] repo d) (\<lambda>out.
       if g_success out then worktree_lines branch None (str_lines (lossy_text sv (g_stdout out))) else None)"

definition git_action :: "services \<Rightarrow> rstr list \<Rightarrow> fpath option \<Rightarrow> fpath \<Rightarrow> rstr \<Rightarrow> unit task_action" where
  "git_action sv args target repo message = (\<lambda>d.
     case git_run sv args target repo d of
       (e, None) \<Rightarrow> (e, Inl IoError)
     | (e, Some success) \<Rightarrow> (e, if success then Inr () else Inl (GitError message)))"

definition create_worktree :: "services \<Rightarrow> fpath \<Rightarrow> fpath \<Rightarrow> rstr \<Rightarrow> unit task_action" where
  "create_worktree sv repo destination branch =
     and_then (asking (\<lambda>d. path_exists d destination)) (\<lambda>there.
       if there then give ()
       else
         and_then (create_dir_all (butlast destination)) (\<lambda>_.
         and_then (reading (branch_exists sv repo branch)) (\<lambda>known.
         and_then (asking (worktree_for_branch sv repo branch)) (\<lambda>elsewhere.
           if known \<and> elsewhere \<noteq> None then fail_with (GitError (lit ''branch '' @ branch @ lit '' is already checked out elsewhere''))
           else git_action sv [lit ''worktree'', lit ''add'', lit ''-B'', branch] (Some destination) repo (lit ''git worktree add failed'')))))"

definition prune_worktrees :: "services \<Rightarrow> fpath \<Rightarrow> unit task_action" where
  "prune_worktrees sv repo = git_action sv [lit ''worktree'', lit ''prune''] None repo (lit ''git worktree prune failed'')"

text \<open>Going on whatever an action returns.\<close>

definition try_action :: "'a task_action \<Rightarrow> (core_error, 'a) result task_action" where
  "try_action m = (\<lambda>d. case m d of (e, r) \<Rightarrow> (e, Inr r))"

definition succeeded :: "('e, 'a) result \<Rightarrow> bool" where
  "succeeded r = (case r of Inr _ \<Rightarrow> True | Inl _ \<Rightarrow> False)"

section \<open>Workspaces\<close>

record prepared_workspace =
  pw_task_id :: rstr
  pw_workspace_root :: fpath
  pw_strategy :: workspace_strategy
  pw_branch_name :: "rstr option"
  pw_base_revision :: "rstr option"

text \<open>\<open>str::get(..n)\<close>: the first bytes, unless they end inside a character or there are fewer.\<close>

fun byte_prefix :: "nat \<Rightarrow> rstr \<Rightarrow> rstr option" where
  "byte_prefix n [] = (if n = 0 then Some [] else None)"
| "byte_prefix n (c # s) =
     (if n = 0 then Some [] else if len_utf8 c \<le> n then map_option ((#) c) (byte_prefix (n - len_utf8 c) s) else None)"

definition short_task_id :: "rstr \<Rightarrow> rstr" where
  "short_task_id task_id = (case byte_prefix 8 task_id of Some s \<Rightarrow> s | None \<Rightarrow> task_id)"

definition is_control :: "rchar \<Rightarrow> bool" where
  "is_control c \<longleftrightarrow> c < 32 \<or> 127 \<le> c \<and> c < 160"

definition sanitize_char :: "rchar \<Rightarrow> rchar" where
  "sanitize_char c = (if c \<in> {47, 92, 58, 42, 63, 34, 60, 62, 124} \<or> is_control c then 95 else c)"

definition trim_matches :: "rchar \<Rightarrow> rstr \<Rightarrow> rstr" where
  "trim_matches c s = rev (dropWhile (\<lambda>x. x = c) (rev (dropWhile (\<lambda>x. x = c) s)))"

definition sanitize_path_component :: "rstr \<Rightarrow> rstr" where
  "sanitize_path_component value =
     (let trimmed = trim (trim_matches 95 (map sanitize_char value))
      in if trimmed = [] then lit ''project'' else trimmed)"

definition workspace_task_root :: "services \<Rightarrow> fpath \<Rightarrow> project_record \<Rightarrow> rstr \<Rightarrow> int \<Rightarrow> task_disk \<Rightarrow> fpath" where
  "workspace_task_root sv root project task_id created_at d =
     (let legacy = root @ [p_id project, task_id]
      in if path_exists d legacy then legacy
         else root @ [sanitize_path_component (p_name project), minute_stamp sv created_at @ lit ''_'' @ short_task_id task_id])"

definition task_branch :: "rstr \<Rightarrow> rstr" where
  "task_branch task_id = lit ''codex-new/task/'' @ short_task_id task_id"

text \<open>Cutting the identifier inside a character would panic; identifiers of tasks are plain ASCII.\<close>

definition unique_branch :: "rstr \<Rightarrow> (core_error, rstr) result" where
  "unique_branch task_id =
     (case byte_prefix (min 8 (byte_len task_id)) task_id of
        Some s \<Rightarrow> Inr (task_branch task_id @ lit ''-'' @ s)
      | None \<Rightarrow> Inl HunkPanic)"

definition copy_workspace :: "services \<Rightarrow> project_record \<Rightarrow> rstr \<Rightarrow> fpath \<Rightarrow> prepared_workspace task_action" where
  "copy_workspace sv project task_id root =
     (let workspace_root = root @ [lit ''copy'']
      in and_then (copy_project (p_root_path project) workspace_root) (\<lambda>_.
         and_then (asking (\<lambda>d. Option.bind (p_git_root project) (\<lambda>g. head_revision sv g d))) (\<lambda>revision.
           give \<lparr>pw_task_id = task_id, pw_workspace_root = workspace_root, pw_strategy = Copy, pw_branch_name = None,
                 pw_base_revision = revision\<rparr>)))"

definition worktree_workspace ::
    "services \<Rightarrow> fpath \<Rightarrow> rstr \<Rightarrow> fpath \<Rightarrow> rstr \<Rightarrow> prepared_workspace task_action" where
  "worktree_workspace sv git_root task_id workspace_root branch =
     and_then (asking (head_revision sv git_root)) (\<lambda>revision.
       give \<lparr>pw_task_id = task_id, pw_workspace_root = workspace_root, pw_strategy = Worktree, pw_branch_name = Some branch,
             pw_base_revision = revision\<rparr>)"

definition wants_worktree :: "services \<Rightarrow> project_record \<Rightarrow> task_disk \<Rightarrow> bool" where
  "wants_worktree sv project d =
     (case s_workspace_strategy (p_settings project) of
        Worktree \<Rightarrow> True
      | Copy \<Rightarrow> False
      | Auto \<Rightarrow> p_git_root project \<noteq> None \<and> \<not> has_changes sv (p_root_path project) d)"

definition prepare_workspace :: "services \<Rightarrow> project_record \<Rightarrow> rstr \<Rightarrow> fpath \<Rightarrow> int \<Rightarrow> prepared_workspace task_action" where
  "prepare_workspace sv project task_id root created_at =
     and_then (asking (workspace_task_root sv root project task_id created_at)) (\<lambda>troot.
     and_then (asking (wants_worktree sv project)) (\<lambda>use_worktree.
       case (if use_worktree then p_git_root project else None) of
         None \<Rightarrow> copy_workspace sv project task_id troot
       | Some git_root \<Rightarrow>
           (let workspace_root = troot @ [lit ''worktree'']; branch = task_branch task_id
            in and_then (asking (\<lambda>d. path_exists d workspace_root)) (\<lambda>there.
                 if there then worktree_workspace sv git_root task_id workspace_root branch
                 else
                   and_then (try_action (create_worktree sv git_root workspace_root branch)) (\<lambda>first.
                     if succeeded first then worktree_workspace sv git_root task_id workspace_root branch
                     else
                       and_then (lift_result (unique_branch task_id)) (\<lambda>unique.
                       and_then (try_action (prune_worktrees sv git_root)) (\<lambda>_.
                       and_then (try_action (create_worktree sv git_root workspace_root unique)) (\<lambda>second.
                         if succeeded second then worktree_workspace sv git_root task_id workspace_root unique
                         else copy_workspace sv project task_id troot))))))))"

section \<open>Recovery\<close>

definition recover_manifest :: "task_disk \<Rightarrow> task_manifest \<Rightarrow> task_manifest" where
  "recover_manifest d m =
     (if \<not> path_exists d (m_workspace_root m) then m\<lparr>m_status := WorkspaceConflict\<rparr>
      else if (case m_environment_binding m of Some b \<Rightarrow> \<not> v_is_valid (b_validation b) | None \<Rightarrow> False)
      then m\<lparr>m_status := EnvironmentBroken\<rparr>
      else if m_status m \<in> {AgentInterrupted, AgentFailed, TestingFailed, WorkspaceConflict, EnvironmentBroken, MergeConflicted, RollbackFailed}
      then m\<lparr>m_status := (if m_changed_files m = [] then WorkspaceReady else ChangesDetected)\<rparr>
      else m)"

definition recover_by_copy :: "project_record \<Rightarrow> fpath \<Rightarrow> task_manifest \<Rightarrow> task_manifest task_action" where
  "recover_by_copy project troot m =
     (let copy_root = (if last_opt (m_workspace_root m) = Some (lit ''copy'') then m_workspace_root m else troot @ [lit ''copy''])
      in and_then (create_dir_all (butlast copy_root)) (\<lambda>_.
         and_then (copy_project (p_root_path project) copy_root) (\<lambda>_.
           give (m\<lparr>m_workspace_root := copy_root, m_status := WorkspaceReady\<rparr>))))"

definition recover_task_workspace :: "services \<Rightarrow> project_record \<Rightarrow> fpath \<Rightarrow> task_manifest \<Rightarrow> task_manifest task_action" where
  "recover_task_workspace sv project root m =
     and_then (asking (\<lambda>d. path_exists d (m_workspace_root m))) (\<lambda>there.
       if there then give m
       else
         and_then (asking (\<lambda>d. if m_workspace_root m \<noteq> [] then butlast (m_workspace_root m)
                              else workspace_task_root sv root project (m_task_id m) (m_created_at m) d)) (\<lambda>troot.
           case p_git_root project of
             None \<Rightarrow> recover_by_copy project troot m
           | Some git_root \<Rightarrow>
               (let worktree_root = (if last_opt (m_workspace_root m) = Some (lit ''worktree'') then m_workspace_root m
                                     else troot @ [lit ''worktree'']);
                    branch = task_branch (m_task_id m);
                    recovered = m\<lparr>m_workspace_root := worktree_root, m_status := WorkspaceReady\<rparr>
                in and_then (try_action (create_worktree sv git_root worktree_root branch)) (\<lambda>first.
                     if succeeded first then give recovered
                     else
                       and_then (prune_worktrees sv git_root) (\<lambda>_.
                       and_then (try_action (create_worktree sv git_root worktree_root branch)) (\<lambda>second.
                         if succeeded second then give recovered else recover_by_copy project troot m))))))"

text \<open>\<open>Path::display\<close> of an absolute path.\<close>

definition path_display :: "fpath \<Rightarrow> rstr" where
  "path_display p = (if p = [] then [slash] else concat (map (\<lambda>n. slash # n) p))"

definition validate_environment_binding :: "services \<Rightarrow> environment_binding \<Rightarrow> task_disk \<Rightarrow> environment_validation" where
  "validate_environment_binding sv b d =
     (let missing_paths = filter (\<lambda>mount. \<not> path_exists d (sp_source mount)) (b_shared_paths b);
          missing_tools = filter (\<lambda>tool. \<not> path_exists d (dt_executable tool)) (b_detected_tools b)
      in \<lparr>v_is_valid = (missing_paths = [] \<and> missing_tools = []), v_checked_at = now sv d,
          v_notes =
            map (\<lambda>mount. lit ''Missing shared path: '' @ path_display (sp_source mount)) missing_paths @
            map (\<lambda>tool. lit ''Missing tool '' @ dt_name tool @ lit '': '' @ path_display (dt_executable tool)) missing_tools @
            (if b_detected_tools b = []
             then [lit ''No project-local venv/node tools detected; shell uses .codex/config.toml plus system PATH.''] else [])\<rparr>)"

section \<open>Creating tasks\<close>

type_synonym environments = "project_record \<Rightarrow> fpath \<Rightarrow> environment_binding option task_action"

definition create_task ::
    "environments \<Rightarrow> services \<Rightarrow> fpath \<Rightarrow> project_record \<Rightarrow> rstr \<Rightarrow> (task_record \<times> task_manifest) task_action" where
  "create_task env sv state_root project title =
     and_then (asking (new_uuid sv)) (\<lambda>task_id.
     and_then (asking (now sv)) (\<lambda>t.
     and_then (prepare_workspace sv project task_id (workspaces_root state_root) t) (\<lambda>prepared.
       let root = task_root state_root (p_id project) task_id;
           manifest_path = root @ [lit ''manifest.json'']
       in and_then (for_each create_dir_all
                      [root @ [lit ''changes''], root @ [lit ''snapshots'', lit ''before''],
                       root @ [lit ''snapshots'', lit ''after-ai''], root @ [lit ''snapshots'', lit ''after-merge'']]) (\<lambda>_.
          and_then (ensure_traceback_dirs root) (\<lambda>_.
          and_then (for_each create_dir_all [root @ [lit ''tests''], root @ [lit ''terminal''], root @ [lit ''memory'']]) (\<lambda>_.
            let task = \<lparr>t_id = task_id, t_project_id = p_id project, t_title = title, t_status = WorkspaceReady,
                        t_original_root = p_root_path project, t_workspace_root = pw_workspace_root prepared, t_created_at = t,
                        t_updated_at = t, t_completed_at = None, t_manifest_path = manifest_path,
                        t_summary_path = root @ [lit ''memory'', lit ''task-summary.md'']\<rparr>
            in and_then (env project (pw_workspace_root prepared)) (\<lambda>binding.
                 let m = \<lparr>m_task_id = task_id, m_project_id = p_id project, m_original_root = p_root_path project,
                          m_workspace_root = pw_workspace_root prepared, m_created_at = t, m_updated_at = t,
                          m_status = WorkspaceReady, m_base_revision = pw_base_revision prepared,
                          m_environment_binding = binding, m_changed_files = []\<rparr>
                 in and_then (manifest_write_to_path m manifest_path) (\<lambda>_.
                    and_then (write_task_record (project_root state_root (p_id project)) task) (\<lambda>_.
                    and_then (append_timeline sv state_root (p_id project) task_id WorkspaceCreated
                                (WorkspacePayload (pw_strategy prepared) (pw_branch_name prepared))) (\<lambda>_.
                      give (task, m)))))))))))"

definition bind_conversation ::
    "services \<Rightarrow> fpath \<Rightarrow> rstr \<Rightarrow> rstr option \<Rightarrow> rstr \<Rightarrow> conversation_binding option task_action" where
  "bind_conversation sv root project_id conversation_id task_id =
     (case conversation_id of
        None \<Rightarrow> give None
      | Some c \<Rightarrow> and_then (write_conversation_binding sv root project_id c (Some task_id)) (\<lambda>b. give (Some b)))"

text \<open>The new workspace takes over what the workspace of the source holds.\<close>

definition fork_workspace :: "services \<Rightarrow> fpath \<Rightarrow> fpath \<Rightarrow> fpath \<Rightarrow> task_manifest \<Rightarrow> task_manifest task_action" where
  "fork_workspace sv state_root manifest_path source_root m =
     and_then (asking (\<lambda>d. path_exists d source_root)) (\<lambda>there.
       if there then and_then (copy_project source_root (m_workspace_root m)) (\<lambda>_. refresh_changes sv state_root manifest_path)
       else give m)"

definition fork_task ::
    "environments \<Rightarrow> services \<Rightarrow> fpath \<Rightarrow> project_record \<Rightarrow> task_record option \<Rightarrow> rstr \<Rightarrow> rstr option
       \<Rightarrow> resolve_task_response task_action" where
  "fork_task env sv state_root project source title conversation_id =
     (case source of
        None \<Rightarrow> fail_with (OtherError (lit ''fork source task was not found''))
      | Some source_task \<Rightarrow>
          and_then (reading (read_manifest state_root (p_id project) (t_id source_task))) (\<lambda>source_manifest.
          and_then (create_task env sv state_root project title) (\<lambda>(task, m0).
          and_then (fork_workspace sv state_root (manifest_file state_root (p_id project) (t_id task))
                      (m_workspace_root source_manifest) m0) (\<lambda>m.
          and_then (bind_conversation sv (project_root state_root (p_id project)) (p_id project) conversation_id (t_id task)) (\<lambda>binding.
            give \<lparr>rs_task = task, rs_manifest = m, rs_reused_existing = False, rs_conversation_binding = binding\<rparr>)))))"

text \<open>The task a conversation works on, if it is bound to one.\<close>

definition bound_task_record :: "fpath \<Rightarrow> rstr \<Rightarrow> task_disk \<Rightarrow> (core_error, task_record option) result" where
  "bound_task_record root conversation_id d =
     rbind (read_conversation_binding root conversation_id d) (\<lambda>binding.
       case Option.bind binding cb_active_task_id of
         None \<Rightarrow> Inr None
       | Some task_id \<Rightarrow> read_task_record root task_id d)"

definition unfinished :: "task_record option \<Rightarrow> task_record option" where
  "unfinished t = Option.bind t (\<lambda>t. if is_terminal (t_status t) then None else Some t)"

definition new_task ::
    "environments \<Rightarrow> services \<Rightarrow> fpath \<Rightarrow> project_record \<Rightarrow> rstr \<Rightarrow> (task_record \<times> bool) task_action" where
  "new_task env sv state_root project title =
     and_then (create_task env sv state_root project title) (\<lambda>(task, _). give (task, False))"

text \<open>The task to work on, and whether it was there before; forks are treated apart.\<close>

definition pick_task ::
    "environments \<Rightarrow> services \<Rightarrow> fpath \<Rightarrow> project_record \<Rightarrow> resolve_task_request \<Rightarrow> (task_record \<times> bool) task_action" where
  "pick_task env sv state_root project req =
     (let root = project_root state_root (p_id project); create = new_task env sv state_root project (rq_title req)
      in if rq_reuse_policy req \<noteq> ReuseActive then create
         else
           and_then (reading (\<lambda>d.
               case rq_conversation_id req of
                 Some c \<Rightarrow> rbind (bound_task_record root c d) (\<lambda>found. Inr (unfinished found))
               | None \<Rightarrow> find_latest_unfinished_task root d)) (\<lambda>found.
             case found of Some task \<Rightarrow> give (task, True) | None \<Rightarrow> create))"

definition resolve_or_create_task ::
    "environments \<Rightarrow> services \<Rightarrow> fpath \<Rightarrow> resolve_task_request \<Rightarrow> resolve_task_response task_action" where
  "resolve_or_create_task env sv state_root req =
     and_then (reading (read_project state_root (rq_project_id req))) (\<lambda>project.
       let root = project_root state_root (p_id project)
       in case rq_reuse_policy req of
            ForkFromTask task_id \<Rightarrow>
              and_then (reading (read_task_record root task_id)) (\<lambda>source.
                fork_task env sv state_root project source (rq_title req) (rq_conversation_id req))
          | _ \<Rightarrow>
              and_then (pick_task env sv state_root project req) (\<lambda>(task, reused).
              and_then (reading (read_manifest state_root (t_project_id task) (t_id task))) (\<lambda>m.
              and_then (bind_conversation sv root (p_id project) (rq_conversation_id req) (t_id task)) (\<lambda>binding.
                give \<lparr>rs_task = task, rs_manifest = m, rs_reused_existing = reused, rs_conversation_binding = binding\<rparr>))))"

section \<open>Resuming tasks\<close>

record task_overview =
  ov_task :: task_record
  ov_manifest :: task_manifest
  ov_environment :: "environment_binding option"
  ov_latest_summary :: "structured_task_summary option"
  ov_diff :: diff_bundle
  ov_review :: "review_report option"
  ov_latest_event_seq :: nat
  ov_recent_activity :: "timeline_event list"
  ov_command_runs :: "command_run_record list"
  ov_timeline_path :: fpath

definition get_task_overview :: "services \<Rightarrow> fpath \<Rightarrow> rstr \<Rightarrow> rstr \<Rightarrow> task_disk \<Rightarrow> (core_error, task_overview) result" where
  "get_task_overview sv state_root project_id task_id d =
     (let root = task_root state_root project_id task_id
      in rbind (read_manifest state_root project_id task_id d) (\<lambda>m.
         rbind (read_task_record (project_root state_root project_id) task_id d) (\<lambda>found.
         rbind (case found of None \<Rightarrow> Inl (OtherError (lit ''missing task record for '' @ task_id)) | Some task \<Rightarrow> Inr task) (\<lambda>task.
         rbind (read_optional as_summary (root @ [lit ''memory'', lit ''task-summary.json'']) d) (\<lambda>summary.
         rbind (read_optional as_review (review_path root) d) (\<lambda>review.
         rbind (build_diff_bundle sv m d) (\<lambda>diff.
         rbind (read_timeline_events root task_id None 40 d) (\<lambda>feed.
         rbind (list_command_runs root 20 d) (\<lambda>runs.
           Inr \<lparr>ov_task = task, ov_manifest = m, ov_environment = m_environment_binding m, ov_latest_summary = summary,
                ov_diff = diff, ov_review = review, ov_latest_event_seq = af_latest_seq feed, ov_recent_activity = af_events feed,
                ov_command_runs = runs, ov_timeline_path = timeline_path root\<rparr>)))))))))"

definition resume_task :: "services \<Rightarrow> fpath \<Rightarrow> rstr \<Rightarrow> rstr \<Rightarrow> task_overview task_action" where
  "resume_task sv state_root project_id task_id =
     and_then (reading (read_project state_root project_id)) (\<lambda>project.
     and_then (reading (read_manifest state_root project_id task_id)) (\<lambda>m0.
     and_then (recover_task_workspace sv project (workspaces_root state_root) m0) (\<lambda>m1.
     and_then (asking (\<lambda>d. recover_manifest d
                 (m1\<lparr>m_environment_binding :=
                       map_option (\<lambda>b. b\<lparr>b_validation := validate_environment_binding sv b d\<rparr>) (m_environment_binding m1)\<rparr>))) (\<lambda>m.
     and_then (manifest_write_to_path m (manifest_file state_root project_id task_id)) (\<lambda>_.
     and_then (write_task_status sv state_root project_id task_id (m_status m)) (\<lambda>_.
       reading (get_task_overview sv state_root project_id task_id)))))))"

text \<open>
  A recovered workspace is there, so that a resumed task with a working environment is ready to go on, whatever had stopped it.
\<close>

lemma recover_manifest_ready:
  assumes "path_exists d (m_workspace_root m)" "\<forall>b. m_environment_binding m = Some b \<longrightarrow> v_is_valid (b_validation b)"
  shows "m_status (recover_manifest d m) \<notin>
     {AgentInterrupted, AgentFailed, TestingFailed, WorkspaceConflict, EnvironmentBroken, MergeConflicted, RollbackFailed}"
  using assms by (auto simp: recover_manifest_def split: option.splits)

section \<open>What stays untouched\<close>

definition keeps_below :: "fpath \<Rightarrow> task_disk \<Rightarrow> task_disk \<Rightarrow> bool" where
  "keeps_below area d e \<longleftrightarrow> (\<forall>q. prefix area q \<longrightarrow> file_at e q = file_at d q)"

interpretation keep: action_preorder "keeps_below area" for area
  by unfold_locales (auto simp: keeps_below_def)

lemma keeps_below_refl [simp, intro]: "keeps_below area d d"
  by (rule keep.R_refl)

lemma keeps_evolves: "evolves S d e \<Longrightarrow> (\<And>s. s \<in> S \<Longrightarrow> \<not> prefix area s) \<Longrightarrow> keeps_below area d e"
  unfolding keeps_below_def using evolves_file by blast

lemma keeps_create: "keeps_below area d (fst (create_dir_all p d))"
  by (cases "create_dir_all p d") (auto simp: keeps_below_def dest: create_dir_file)

lemma keeps_write: "\<not> prefix area p \<Longrightarrow> keeps_below area d (fst (fs_write p c d))"
  by (rule keeps_evolves [OF run_fs_write [of p "{p}"]]) auto

lemma keeps_try_action: "keeps_below area d (fst (m d)) \<Longrightarrow> keeps_below area d (fst (try_action m d))"
  by (auto simp: try_action_def split: prod.splits)

lemma keeps_copy_project:
  assumes "\<not> prefix area destination" "\<not> prefix destination area"
  shows "keeps_below area d (fst (copy_project source destination d))"
proof -
  have far: "\<not> prefix area (destination @ x)" for x
    using assms prefix_same_cases [of area "destination @ x" destination] by auto
  have "keeps_below area d (fst (copy_entry source destination item d))" for item d
    unfolding copy_entry_def Let_def
    by (cases item)
       (auto simp: fs_copy_def split: option.splits node.splits
          intro!: keep.run_and_then keep.run_plain keeps_create keeps_write far)
  then show ?thesis unfolding copy_project_def by (intro keep.run_and_then keep.run_plain keeps_create keep.run_for_each)
qed

text \<open>Git and the environment leave an area of the disk alone.\<close>

definition git_keeps :: "services \<Rightarrow> fpath \<Rightarrow> bool" where
  "git_keeps sv area \<longleftrightarrow> (\<forall>args target repo d. keeps_below area d (fst (git_run sv args target repo d)))"

definition environment_keeps :: "environments \<Rightarrow> fpath \<Rightarrow> bool" where
  "environment_keeps env area \<longleftrightarrow> (\<forall>project workspace d. keeps_below area d (fst (env project workspace d)))"

lemma keeps_git: "git_keeps sv area \<Longrightarrow> keeps_below area d (fst (git_action sv args target repo message d))"
proof -
  assume "git_keeps sv area"
  then have "keeps_below area d (fst (git_run sv args target repo d))" by (simp add: git_keeps_def)
  then show ?thesis by (auto simp: git_action_def split: prod.splits option.splits)
qed

lemma keeps_create_worktree: "git_keeps sv area \<Longrightarrow> keeps_below area d (fst (create_worktree sv repo destination branch d))"
  unfolding create_worktree_def by (auto intro!: keep.run_and_then keep.run_plain keeps_create keeps_git)

lemma keeps_prune: "git_keeps sv area \<Longrightarrow> keeps_below area d (fst (prune_worktrees sv repo d))"
  unfolding prune_worktrees_def by (rule keeps_git)

lemma workspace_task_root_below: "\<exists>x. workspace_task_root sv root project task_id created_at d = root @ x"
  by (auto simp: workspace_task_root_def Let_def)

lemma keeps_prepare_workspace:
  assumes "git_keeps sv area" "area \<parallel> root"
  shows "keeps_below area d (fst (prepare_workspace sv project task_id root created_at d))"
proof -
  have "\<not> prefix area (root @ x)" "\<not> prefix (root @ x) area" for x
    using assms(2) by (auto simp: parallel_def prefix_def dest!: append_eq_append_conv2 [THEN iffD1])
  then have copy: "keeps_below area d (fst (copy_workspace sv project task_id (root @ x) d))" for x d
    unfolding copy_workspace_def Let_def by (intro keep.run_and_then keep.run_plain keeps_copy_project) auto
  from workspace_task_root_below copy have copy': "keeps_below area d1 (fst (copy_workspace sv project task_id (workspace_task_root sv root project task_id created_at d) d1))"
    for d1 by metis
  have tree: "keeps_below area d (fst (worktree_workspace sv g task_id w b d))" for g w b d
    unfolding worktree_workspace_def by (intro keep.run_and_then keep.run_plain)
  show ?thesis
    unfolding prepare_workspace_def Let_def
    using copy' assms(1)
    by (auto split: option.splits
        intro!: keep.run_and_then keep.run_plain tree keeps_try_action keeps_create_worktree keeps_prune)
qed

lemma prepare_workspace_root:
  assumes "prepare_workspace sv project task_id root created_at d = (e, Inr w)"
  shows "prefix root (pw_workspace_root w)"
proof -
  obtain x where "workspace_task_root sv root project task_id created_at d = root @ x"
    using workspace_task_root_below by blast
  then show ?thesis
    using assms
    by (auto simp: prepare_workspace_def copy_workspace_def worktree_workspace_def Let_def and_then_ok
        split: option.splits if_splits)
qed

abbreviation conversations :: "fpath \<Rightarrow> rstr \<Rightarrow> fpath" where
  "conversations sr pid \<equiv> project_root sr pid @ [lit ''conversations'']"

lemma conversations_apart:
  "conversations sr pid \<parallel> workspaces_root sr @ x" "q \<in> own_files sr pid' (manifest_file sr pid'' tid) \<Longrightarrow> \<not> prefix (conversations sr pid) q"
  by (auto simp: parallel_def workspaces_root_def project_root_def own_files_def manifest_file_def task_root_def prefix_def)

lemma own_keeps:
  "evolves (own_files sr pid' (manifest_file sr pid'' tid)) d e \<Longrightarrow> keeps_below (conversations sr pid) d e"
  by (erule keeps_evolves) (rule conversations_apart(2))

lemma create_task_ok:
  assumes "create_task env sv sr project title d = (e, Inr (task, m))"
  shows "t_id task = new_uuid sv d" "prefix (workspaces_root sr) (m_workspace_root m)"
  using assms by (auto simp: create_task_def Let_def and_then_ok dest!: prepare_workspace_root)

lemma keeps_create_task:
  assumes "git_keeps sv (conversations sr (p_id project))" "environment_keeps env (conversations sr (p_id project))"
  shows "keeps_below (conversations sr (p_id project)) d (fst (create_task env sv sr project title d))"
proof -
  let ?area = "conversations sr (p_id project)"
  have files: "keeps_below ?area d1 (fst (manifest_write_to_path m (manifest_file sr (p_id project) tid) d1))"
    "keeps_below ?area d1 (fst (write_task_record (project_root sr (p_id project)) task d1))"
    "keeps_below ?area d1 (fst (append_timeline sv sr (p_id project) tid kind payload d1))" for m tid task kind payload d1
    using own_keeps [OF own.run_manifest_write [where pid = "p_id project" and mp = "manifest_file sr (p_id project) tid" and X = "{}", simplified]]
      own_keeps [OF own.run_write_task_record [where pid = "p_id project" and mp = "manifest_file sr (p_id project) tid" and X = "{}", simplified]]
      own_keeps [OF own.run_append_timeline [where pid = "p_id project" and mp = "manifest_file sr (p_id project) tid" and X = "{}", simplified]]
    by blast+
  have work: "keeps_below ?area d1 (fst (prepare_workspace sv project tid (workspaces_root sr) t d1))" for tid t d1
    using conversations_apart(1) [of sr "p_id project" "[]"] by (intro keeps_prepare_workspace assms(1)) simp
  show ?thesis
    unfolding create_task_def Let_def ensure_traceback_dirs_def
    using assms(2) [unfolded environment_keeps_def] files work
    by (auto simp: manifest_file_def intro!: keep.run_and_then keep.run_plain keep.run_for_each keeps_create)
qed

lemma keeps_refresh: "keeps_below (conversations sr pid) d (fst (refresh_changes sv sr (manifest_file sr pid tid) d))"
proof (cases "manifest_read_from_path (manifest_file sr pid tid) d")
  case (Inr m0)
  show ?thesis by (rule own_keeps) (rule run_refresh_changes [OF Inr])
qed (simp add: refresh_no_manifest)

lemma keeps_fork_workspace:
  assumes "conversations sr pid \<parallel> m_workspace_root m"
  shows "keeps_below (conversations sr pid) d (fst (fork_workspace sv sr (manifest_file sr pid tid) source_root m d))"
proof -
  have copy: "keeps_below (conversations sr pid) d (fst (copy_project source_root (m_workspace_root m) d))" for d
    by (rule keeps_copy_project) (use assms in \<open>simp_all add: parallel_def\<close>)
  show ?thesis
    unfolding fork_workspace_def
    by (intro keep.run_and_then) (auto simp del: lit_simps intro!: keep.run_and_then copy keeps_refresh)
qed

section \<open>Conversations and their tasks\<close>

text \<open>The task a conversation is bound to on a disk.\<close>

definition bound_task :: "fpath \<Rightarrow> task_disk \<Rightarrow> rstr \<Rightarrow> rstr option" where
  "bound_task root d c =
     (case file_at d (conversation_binding_path root c) of
        Some (Json (BindingJson b)) \<Rightarrow> cb_active_task_id b
      | _ \<Rightarrow> None)"

definition own_tasks :: "fpath \<Rightarrow> task_disk \<Rightarrow> bool" where
  "own_tasks root d \<longleftrightarrow> (\<forall>c c' t. bound_task root d c = Some t \<longrightarrow> bound_task root d c' = Some t \<longrightarrow> c = c')"

lemma binding_path_inj [simp]: "conversation_binding_path root c = conversation_binding_path root c' \<longleftrightarrow> c = c'"
  by (simp add: conversation_binding_path_def)

lemma bound_task_kept:
  "keeps_below (conversations sr pid) d e \<Longrightarrow> bound_task (project_root sr pid) e = bound_task (project_root sr pid) d"
  by (auto simp: bound_task_def [abs_def] keeps_below_def conversation_binding_path_def)

lemma write_binding_ok:
  assumes "write_conversation_binding sv root pid c t d = (e, Inr b)"
  shows "bound_task root e c' = (if c' = c then t else bound_task root d c')"
proof -
  from assms obtain d1 old where s1: "create_dir_all (butlast (conversation_binding_path root c)) d = (d1, Inr ())"
    and s2: "fs_write (conversation_binding_path root c) (Json (BindingJson b)) d1 = (e, Inr ())"
    and b: "cb_active_task_id b = t"
    by (auto simp: write_conversation_binding_def Let_def and_then_ok)
  have "file_at e q = (if q = conversation_binding_path root c then Some (Json (BindingJson b)) else file_at d q)" for q
    using fs_write_lookup [OF s2] create_dir_file [OF s1] by (simp add: file_at_def)
  then show ?thesis by (simp add: bound_task_def b)
qed

lemma bind_conversation_ok:
  assumes "bind_conversation sv root pid conversation t d = (e, Inr b)"
  shows "bound_task root e c = (if Some c = conversation then Some t else bound_task root d c)"
  using assms by (cases conversation) (auto simp: bind_conversation_def and_then_ok dest!: write_binding_ok [where c' = c])

text \<open>
  Whatever the request, the answer comes from one of three places: a new task, the task the conversation was bound to, or, for
  a request without a conversation, an unfinished task; the bindings change in the last step only.
\<close>

lemma fork_task_steps:
  assumes run: "fork_task env sv sr project source title conversation d = (e, Inr resp)"
    and keeps: "git_keeps sv (conversations sr (p_id project))" "environment_keeps env (conversations sr (p_id project))"
  shows "\<exists>d1 b. keeps_below (conversations sr (p_id project)) d d1 \<and>
     bind_conversation sv (project_root sr (p_id project)) (p_id project) conversation (t_id (rs_task resp)) d1 = (e, Inr b) \<and>
     t_id (rs_task resp) = new_uuid sv d"
proof -
  from run obtain source_root d1 d2 task m0 m b
    where s1: "create_task env sv sr project title d = (d1, Inr (task, m0))"
      and s2: "fork_workspace sv sr (manifest_file sr (p_id project) (t_id task)) source_root m0 d1 = (d2, Inr m)"
      and s3: "bind_conversation sv (project_root sr (p_id project)) (p_id project) conversation (t_id task) d2 = (e, Inr b)"
      and resp: "rs_task resp = task"
    by (fastforce simp: fork_task_def and_then_ok split: option.splits prod.splits)
  obtain x where "m_workspace_root m0 = workspaces_root sr @ x" using create_task_ok(2) [OF s1] by (auto simp: prefix_def)
  then have far: "conversations sr (p_id project) \<parallel> m_workspace_root m0" using conversations_apart(1) by metis
  have "keeps_below (conversations sr (p_id project)) d d1" using keeps_create_task [OF keeps, of d title] s1 by (simp del: lit_simps)
  moreover have "keeps_below (conversations sr (p_id project)) d1 d2"
    using keeps_fork_workspace [OF far, of d1 sv "t_id task" source_root] s2 by (simp del: lit_simps)
  ultimately show ?thesis using s3 resp create_task_ok(1) [OF s1] keep.R_trans by blast
qed

lemma bound_record_named:
  assumes "bound_task_record root c d = Inr (Some t)"
    and "\<forall>tid t. read_task_record root tid d = Inr (Some t) \<longrightarrow> t_id t = tid"
  shows "bound_task root d c = Some (t_id t)"
proof -
  from assms(1) obtain b tid where b: "read_conversation_binding root c d = Inr (Some b)" and tid: "cb_active_task_id b = Some tid"
    and "read_task_record root tid d = Inr (Some t)"
    by (auto simp: bound_task_record_def rbind_eq_Inr_iff split: option.splits bind_splits)
  with assms(2) have "cb_active_task_id b = Some (t_id t)" by blast
  moreover from b have "file_at d (conversation_binding_path root c) = Some (Json (BindingJson b))"
    by (auto simp: read_conversation_binding_def read_optional_def read_json_def fs_read_def rbind_eq_Inr_iff file_at_def
        split: if_splits option.splits node.splits contents.splits elim!: as_binding.elims)
  ultimately show ?thesis by (simp add: bound_task_def)
qed

lemma pick_task_steps:
  assumes run: "pick_task env sv sr project req d = (d1, Inr (task, reused))"
    and keeps: "git_keeps sv (conversations sr (p_id project))" "environment_keeps env (conversations sr (p_id project))"
    and named: "\<forall>tid t. read_task_record (project_root sr (p_id project)) tid d = Inr (Some t) \<longrightarrow> t_id t = tid"
  shows "keeps_below (conversations sr (p_id project)) d d1 \<and>
     (t_id task = new_uuid sv d \<or> rq_conversation_id req = None \<or>
      (\<exists>c. rq_conversation_id req = Some c \<and> bound_task (project_root sr (p_id project)) d c = Some (t_id task)))"
proof -
  have new: "keeps_below (conversations sr (p_id project)) d d1 \<and> t_id task = new_uuid sv d"
    if "new_task env sv sr project (rq_title req) d = (d1, Inr (task, reused))"
    using that keeps_create_task [OF keeps, of d "rq_title req"]
    by (auto simp: new_task_def and_then_ok dest: create_task_ok(1) simp del: lit_simps)
  show ?thesis
  proof (cases "new_task env sv sr project (rq_title req) d = (d1, Inr (task, reused))")
    case False
    with run obtain found where d1: "d1 = d" and "(case rq_conversation_id req of
          Some c \<Rightarrow> rbind (bound_task_record (project_root sr (p_id project)) c d) (\<lambda>found. Inr (unfinished found))
        | None \<Rightarrow> find_latest_unfinished_task (project_root sr (p_id project)) d) = Inr (Some task)"
      by (auto simp: pick_task_def Let_def and_then_ok split: if_splits option.splits)
    with bound_record_named [OF _ named] show ?thesis
      by (auto simp: rbind_eq_Inr_iff unfinished_def split: option.splits bind_splits if_splits)
  qed (use new in blast)
qed

lemma resolve_steps:
  assumes run: "resolve_or_create_task env sv sr req d = (e, Inr resp)"
    and project: "read_project sr (rq_project_id req) d = Inr project"
    and keeps: "git_keeps sv (conversations sr (p_id project))" "environment_keeps env (conversations sr (p_id project))"
    and named: "\<forall>tid t. read_task_record (project_root sr (p_id project)) tid d = Inr (Some t) \<longrightarrow> t_id t = tid"
  shows "\<exists>d1 b. keeps_below (conversations sr (p_id project)) d d1 \<and>
     bind_conversation sv (project_root sr (p_id project)) (p_id project) (rq_conversation_id req) (t_id (rs_task resp)) d1 = (e, Inr b) \<and>
     (t_id (rs_task resp) = new_uuid sv d \<or> rq_conversation_id req = None \<or>
      (\<exists>c. rq_conversation_id req = Some c \<and> bound_task (project_root sr (p_id project)) d c = Some (t_id (rs_task resp))))"
proof (cases "\<exists>task_id. rq_reuse_policy req = ForkFromTask task_id")
  case True
  with run project obtain source where "fork_task env sv sr project source (rq_title req) (rq_conversation_id req) d = (e, Inr resp)"
    by (auto simp: resolve_or_create_task_def and_then_ok)
  from fork_task_steps [OF this keeps] show ?thesis by blast
next
  case False
  with run project obtain d1 task reused b where "pick_task env sv sr project req d = (d1, Inr (task, reused))"
    and "bind_conversation sv (project_root sr (p_id project)) (p_id project) (rq_conversation_id req) (t_id task) d1 = (e, Inr b)"
    and "rs_task resp = task"
    by (cases "rq_reuse_policy req") (auto simp: resolve_or_create_task_def and_then_ok)
  with pick_task_steps [OF _ keeps named] show ?thesis by blast
qed

text \<open>
  C12: Each conversation keeps a task of its own. If no two conversations of a project are bound to the same task, a new identifier
  is none of those in use and neither git nor the environment touch the bindings, then after a request has been resolved, by reuse,
  creation or fork, this still holds; the conversation of the request is bound to the task it was given, and every other one to
  the task it had.
\<close>

theorem conversations_keep_their_tasks:
  assumes run: "resolve_or_create_task env sv sr req d = (e, Inr resp)"
    and project: "read_project sr (rq_project_id req) d = Inr project" and root: "root = project_root sr (p_id project)"
    and keeps: "git_keeps sv (root @ [lit ''conversations''])" "environment_keeps env (root @ [lit ''conversations''])"
    and named: "\<forall>tid t. read_task_record root tid d = Inr (Some t) \<longrightarrow> t_id t = tid"
    and fresh: "\<forall>c. bound_task root d c \<noteq> Some (new_uuid sv d)" and inv: "own_tasks root d"
  shows "own_tasks root e \<and>
     (\<forall>c. bound_task root e c =
        (if rq_conversation_id req = Some c then Some (t_id (rs_task resp)) else bound_task root d c))"
proof -
  from resolve_steps [OF run project keeps [unfolded root] named [unfolded root]] obtain d1 b where
    kept: "keeps_below (conversations sr (p_id project)) d d1"
    and bind: "bind_conversation sv root (p_id project) (rq_conversation_id req) (t_id (rs_task resp)) d1 = (e, Inr b)"
    and place: "t_id (rs_task resp) = new_uuid sv d \<or> rq_conversation_id req = None \<or>
      (\<exists>c. rq_conversation_id req = Some c \<and> bound_task root d c = Some (t_id (rs_task resp)))" unfolding root by blast
  have "bound_task root d1 = bound_task root d" unfolding root by (rule bound_task_kept [OF kept])
  with bind_conversation_ok [OF bind] have after: "bound_task root e c =
      (if rq_conversation_id req = Some c then Some (t_id (rs_task resp)) else bound_task root d c)" for c by auto
  have clash: "c = c'" if "bound_task root d c = Some (t_id (rs_task resp))" "rq_conversation_id req = Some c'" for c c'
    using that place fresh inv by (auto simp: own_tasks_def)
  have "own_tasks root e"
    using inv unfolding own_tasks_def after by (auto split: if_splits dest: clash)
  with after show ?thesis by blast
qed

text \<open>A project with a conversation that is bound to a task; a second conversation asks for one.\<close>

definition life_services :: services where
  "life_services =
     \<lparr>sha256 = (\<lambda>_. []), lossy_text = (\<lambda>_. []), now = (\<lambda>_. 0), new_uuid = (\<lambda>_. [50]), nth_uuid = (\<lambda>_ _. []),
      git_query = (\<lambda>_ _ _. None), git_run = (\<lambda>_ _ _ d. (d, None)), minute_stamp = (\<lambda>_. [48])\<rparr>"

definition life_project :: project_record where
  "life_project =
     \<lparr>p_id = [112], p_name = [110], p_root_path = [[111]], p_created_at = 0, p_updated_at = 0, p_git_root = None,
      p_default_branch = None, p_settings = default_project_settings\<rparr>"

definition life_request :: resolve_task_request where
  "life_request = \<lparr>rq_project_id = [112], rq_title = [], rq_conversation_id = Some [98], rq_reuse_policy = ReuseActive\<rparr>"

definition life_disk :: task_disk where
  "life_disk =
     \<lparr>nodes =
        [([[111]], Directory), ([[111], [97]], File (Utf8 [1])), ([lit ''projects''], Directory),
         ([lit ''projects'', [112]], Directory), ([lit ''projects'', [112], lit ''project.json''], File (Json (ProjectJson life_project))),
         ([lit ''projects'', [112], lit ''conversations''], Directory),
         ([lit ''projects'', [112], lit ''conversations'', 97 # lit ''.json''],
          File (Json (BindingJson \<lparr>cb_project_id = [112], cb_conversation_id = [97], cb_active_task_id = Some [49],
                                 cb_created_at = 0, cb_updated_at = 0\<rparr>)))],
      refused = (\<lambda>_. False)\<rparr>"

lemmas run_life_actions = resolve_or_create_task_def [THEN fun_cong] pick_task_def [THEN fun_cong] new_task_def [THEN fun_cong]
  create_task_def [THEN fun_cong] prepare_workspace_def [THEN fun_cong] copy_workspace_def [THEN fun_cong]
  bind_conversation_def [THEN fun_cong] write_conversation_binding_def [THEN fun_cong]

lemmas evaluate_life_simps = life_services_def life_project_def life_request_def life_disk_def default_project_settings_def
  workspace_task_root_def wants_worktree_def sanitize_path_component_def sanitize_char_def is_control_def trim_matches_def
  short_task_id_def len_utf8_def read_project_def read_manifest_def bound_task_record_def read_conversation_binding_def read_optional_def
  conversation_binding_path_def unfinished_def workspaces_root_def ignored_def default_ignores_def trim_def trim_start_def trim_end_def
  is_whitespace_def

lemma life_resolve:
  "\<exists>e resp. resolve_or_create_task (\<lambda>_ _. give None) life_services [] life_request life_disk = (e, Inr resp) \<and>
     t_id (rs_task resp) = [50]"
  by (simp add: run_life_actions run_file_actions run_task_actions evaluate_simps evaluate_life_simps cong: run_congs)

theorem conversations_keep_their_tasks_witness:
  "\<exists>e resp. resolve_or_create_task (\<lambda>_ _. give None) life_services [] life_request life_disk = (e, Inr resp) \<and>
     bound_task (project_root [] [112]) e [98] = Some [50] \<and> bound_task (project_root [] [112]) e [97] = Some [49]"
proof -
  obtain e resp where run: "resolve_or_create_task (\<lambda>_ _. give None) life_services [] life_request life_disk = (e, Inr resp)"
    and new: "t_id (rs_task resp) = [50]" using life_resolve by blast
  have project: "read_project [] (rq_project_id life_request) life_disk = Inr life_project"
    and root: "project_root [] [112] = project_root [] (p_id life_project)"
    by (simp_all add: read_project_def read_json_def fs_read_def lookup_def life_disk_def life_request_def life_project_def project_root_def)
  have bound: "bound_task (project_root [] [112]) life_disk c = (if c = [97] then Some [49] else None)" for c
    by (auto simp: bound_task_def file_at_def lookup_def life_disk_def conversation_binding_path_def project_root_def)
  have "git_keeps life_services area" "environment_keeps (\<lambda>_ _. give None) area" for area
    by (simp_all add: git_keeps_def environment_keeps_def life_services_def)
  moreover have "\<forall>tid t. read_task_record (project_root [] [112]) tid life_disk = Inr (Some t) \<longrightarrow> t_id t = tid"
    by (simp add: read_task_record_def task_record_path_def path_exists_def lookup_def life_disk_def project_root_def)
  moreover have "\<forall>c. bound_task (project_root [] [112]) life_disk c \<noteq> Some (new_uuid life_services life_disk)"
    by (simp add: bound life_services_def)
  moreover have "own_tasks (project_root [] [112]) life_disk" by (simp add: own_tasks_def bound)
  ultimately have "\<forall>c. bound_task (project_root [] [112]) e c =
      (if rq_conversation_id life_request = Some c then Some (t_id (rs_task resp)) else bound_task (project_root [] [112]) life_disk c)"
    by (rule conversations_keep_their_tasks [OF run project root, THEN conjunct2])
  with run new show ?thesis by (simp add: bound life_request_def)
qed

end
