(* ===== verification/Spec2Isabelle.thy ===== *)
theory Spec2Isabelle
  imports Patch_Grammar Patch_Stream Patch_Safety Exec_Approval Network_Interleaving Orchestrator Head_Tail_Buffer Truncate Context_History
    Assistant_Text Proxy_Runtime Profile_Compile Task_Safety Task_Lifecycle
begin

text \<open>
  A verification library for the Rust workspace \<open>codex-rs\<close> (paths below are relative to
  \<open>src/codex-rs/\<close>). The program is a coding agent: a model proposes shell commands and
  patches; the agent decides which of them run without asking and in which sandbox, which hosts they may
  reach, applies the patches to files, caps the output it collects, parses the text the model
  streams and keeps the transcript that is sent back. In this fork a task can also work in an isolated copy of the project, whose changes
  are merged into the project later and can be rolled back. The library models the parts that take these decisions
  and change files, permissions or the transcript.

  How the parts interact: configuration layers and requirements give the policies (\<open>Config_Layers\<close>, \<open>Exec_Requirements\<close>,
  \<open>Profile_Compile\<close>, \<open>Proxy_Spec\<close>); a tool call asks the exec policy manager or the patch check for its requirement
  (\<open>Exec_Approval\<close>, \<open>Patch_Safety\<close>); the orchestrator obtains the approval, chooses the sandbox and runs the attempt
  (\<open>Orchestrator\<close>, \<open>Sandbox_Manager\<close>); while it runs, the network proxy decides about each host and asks the approval
  service about hosts that are merely not listed (\<open>Proxy_State\<close>, \<open>Network_Approval\<close>).

  \<^bold>\<open>Foundations.\<close>
  \<^item> \<open>Prelude\<close>: results as sums (\<open>rbind\<close> is the \<open>?\<close> operator), saturating \<open>usize\<close> arithmetic,
    \<open>Vec::insert\<close>, \<open>Vec::remove\<close>, \<open>Iterator::position\<close>, loops that stop at the first error
    (\<open>fold_until\<close>), and the generic interfaces: \<open>step_invariant\<close> (a step keeps an invariant, so a fold does),
    \<open>fallible_stepper\<close> (the same for steps that may fail, with the state kept at the failure), \<open>transition_invariant\<close> (a move of
    a transition system keeps an invariant) and \<open>ranked_transitions\<close> (moves decrease a rank, so they end). They are interpreted on the buffer, the
    streaming parsers, the hunk loop, the policy builtins, the policy manager, the network approval
    service and the network proxy.
  \<^item> \<open>Rust_Str\<close>: strings as lists of code points, with white space, trimming, splitting, searching,
    prefixes, lines, UTF-8 lengths and decimal numbers as the standard library defines them.
    A code point is a natural number; a byte offset is computed from \<open>len_utf8\<close>.
  \<^item> \<open>Absolute_Path\<close>: \<open>utils/absolute-path\<close> on Unix. Paths are strings; components, joining and
    lexical normalisation follow \<open>std::path\<close>. The home directory is a parameter. Resolution
    gives absolute paths in normal form and is idempotent.

  \<^bold>\<open>Patches\<close> (\<open>apply-patch/src\<close>).
  \<^item> \<open>Seek_Sequence\<close> (\<open>seek_sequence.rs\<close>): the search for a block of lines in four passes. The
    locale \<open>line_matcher\<close> states what the applier relies on (a position found lies in the file
    and not before the start); it is interpreted on \<open>seek_sequence\<close>. Properties: the best match
    is returned, the search is complete, the end-of-file mode tries one position.
  \<^item> \<open>Patch_Parser\<close> (\<open>parser.rs\<close>): markers, chunks, hunks, boundaries, preamble; line numbers
    and messages of all errors. The loops over lines end because each step consumes lines.
  \<^item> \<open>Patch_Grammar\<close>: a printer for hunks, the reference for the language, and the round trip
    through \<open>parse_patch\<close>.
  \<^item> \<open>Patch_Stream\<close> (\<open>streaming_parser.rs\<close>): the state machine that previews a patch as its text
    arrives. It does not depend on how the text is cut, agrees with the batch parser on printed
    patches, and accepts one text the batch parser refuses.
  \<^item> \<open>Patch_Replace\<close> (\<open>lib.rs\<close>, \<open>compute_replacements\<close>, \<open>apply_replacements\<close>,
    \<open>derive_new_contents_from_chunks\<close>): replacing from the last position to the first refines a
    left-to-right \<open>splice\<close>; insertions out of range, which would panic, do not happen. Two
    theorems show inputs on which the result is not what the patch says.
  \<^item> \<open>Patch_Apply\<close> (\<open>lib.rs\<close>, the rest): the hunk loop over a file system, which is a record of
    the operations of \<open>ExecutorFileSystem\<close> over a world \<open>'w\<close>. \<open>fs_laws\<close> is the contract of the
    file system: a successful write stores its text and nothing else changes for regular files,
    a removal clears the path, a refused operation changes nothing elsewhere. The delta returned
    is exact in the sense its flag promises, the loop refines the meaning \<open>spec_hunks\<close> of the
    hunks, and no run panics. \<open>mem_fs\<close> satisfies the contract.
  \<^item> \<open>Patch_Invocation\<close> (\<open>invocation.rs\<close>): recognising \<open>apply_patch\<close> command lines and verifying a
    patch before it runs. What is announced happens, if the hunks touch different files.
  \<^item> \<open>Patch_Safety\<close> (\<open>core/src/safety.rs\<close>): the check whether a patch is applied without asking; an approved patch with hunks of different
    paths writes only where the policy allows it, and a repeated path can hide a rename from it.

  \<^bold>\<open>Execution policy\<close> (\<open>execpolicy/src\<close>, \<open>core/src/exec_policy.rs\<close>).
  \<^item> \<open>Exec_Rules\<close> (\<open>decision.rs\<close>, \<open>rule.rs\<close>, \<open>executable_name.rs\<close>): decisions are a linear order
    (an instance of \<open>linorder\<close>), patterns, rules, network hosts.
  \<^item> \<open>Exec_Policy\<close> (\<open>policy.rs\<close>): the multimap of rules in the order of first insertion of a
    program, matching, evaluation, merging, domains. The iteration order of the source's hash
    map is not fixed; the results proved do not depend on it, apart from lists the source sorts.
  \<^item> \<open>Exec_Parser\<close> (\<open>parser.rs\<close>, \<open>error.rs\<close>): a policy file is a Starlark program; the evaluator is
    a parameter that yields the calls of the three builtins. Built policies are well-formed
    and the examples of a parsed file hold.
  \<^item> \<open>Exec_Amend\<close> (\<open>amend.rs\<close>): appending a rule to a policy file with every I/O error.
    \<open>append_file_laws\<close> is the contract of a file opened for appending.
  \<^item> \<open>Exec_Requirements\<close> (\<open>config/src/requirements_exec_policy.rs\<close>): the rules an administrator requires.
  \<^item> \<open>Exec_Approval\<close>: loading the policy of the configuration layers, the requirement of a command line (run, ask, forbid), amendments and
    updates of the manager. A command runs without asking only for a reason; an accepted amendment takes effect; a file that does not parse drops
    the required rules with the others.

  \<^bold>\<open>Command safety\<close> (\<open>shell-command/src\<close>).
  \<^item> \<open>Command_Safety\<close>: commands that run without asking and commands that are always asked about.
    Splitting a script into plain commands (tree-sitter) is a parameter.

  \<^bold>\<open>Permissions and sandboxes\<close> (\<open>protocol/src\<close>, \<open>sandboxing/src\<close>, \<open>core/src/config\<close>).
  \<^item> \<open>Sandbox_Policy\<close>, \<open>Sandbox_Roots\<close> (\<open>permissions.rs\<close>, \<open>protocol.rs\<close>): entries that give an access mode to a path; the most specific one
    decides, metadata directories stay protected, writable roots and the read-deny matcher agree with the entries, legacy policies. What the
    machine answers (home, \<open>TMPDIR\<close>, symbolic links, files) is a record.
  \<^item> \<open>Permission_Profile\<close>, \<open>Permission_Transforms\<close> (\<open>models.rs\<close>, \<open>policy_transforms.rs\<close>): profiles and their runtime form; merging
    and intersecting additional permissions never grants more than was asked for.
  \<^item> \<open>Profile_Compile\<close> (\<open>core/src/config/permissions.rs\<close>): the profile tables of the configuration become policies: what a profile denies
    is denied, nested entries stay below their base except those that begin with \<open>~\<close>.
  \<^item> \<open>Sandbox_Manager\<close> (\<open>manager.rs\<close>, \<open>landlock.rs\<close>): the choice of the sandbox and the wrapped command line on Linux.

  \<^bold>\<open>Tool calls\<close> (\<open>core/src/tools\<close>).
  \<^item> \<open>Approvals\<close> (\<open>sandboxing.rs\<close>): approval settings, requirements, the cache of session approvals.
  \<^item> \<open>Network_Approval\<close>, \<open>Network_Interleaving\<close> (\<open>network_approval.rs\<close>): calls, outcomes and pending approvals; concurrent requests as a
    transition relation whose moves are the lock regions of the source. At most one request asks about a host, those that wait get the same
    answer, and every request ends. Requests are not cancelled in the model.
  \<^item> \<open>Orchestrator\<close> (\<open>orchestrator.rs\<close>): approval, first attempt, retry without sandbox; a tool runtime is a record of its
    methods. Telemetry is left out.

  \<^bold>\<open>Network proxy\<close> (\<open>network-proxy/src\<close>, \<open>core/src/config/network_proxy_spec.rs\<close>, \<open>core/src/network_proxy_loader.rs\<close>).
  \<^item> \<open>Proxy_Address\<close>: IP addresses as words, their readers in the standard library and the addresses that count as not public.
  \<^item> \<open>Proxy_Host\<close> (\<open>policy.rs\<close>, \<open>config.rs\<close>): normal forms of hosts, domain patterns, settings. Globs are compiled by a library: \<open>glob_lib\<close> is the
    parameter and \<open>glob_laws\<close> what its documentation promises; \<open>sample_globs\<close> satisfies it.
  \<^item> \<open>Proxy_State\<close> (\<open>state.rs\<close>, \<open>runtime.rs\<close>, \<open>network_policy.rs\<close>): constraints, the decision about a host, the operations that
    replace the configuration. An operation reads the state and writes it later; \<open>proxy_move\<close> interleaves them and \<open>admitted\<close> is its invariant
    (compiled sets agree with the settings, the settings satisfy the constraints, the log is bounded). A decision is taken in the state after the
    reload that precedes it in the source; error messages are reduced to the field they name.
  \<^item> \<open>Proxy_Spec\<close>: tables, requirements, the specification of a session's proxy, trusted layers. What requirements deny stays denied, and in
    managed-only mode nothing else than what they allow is allowed.
  \<^item> \<open>Proxy_Runtime\<close>: where the proxy listens, and which Unix sockets it may be used for.

  \<^bold>\<open>Configuration\<close> (\<open>config/src\<close>).
  \<^item> \<open>Config_Toml\<close>, \<open>Config_Layers\<close> (\<open>merge.rs\<close>, \<open>key_aliases.rs\<close>, \<open>overrides.rs\<close>, \<open>state.rs\<close>): merging of values, the stack of layers,
    its order, replacing the user's layers, the effective configuration and where its fields come from.

  \<^bold>\<open>Output, streams and transcript.\<close>
  \<^item> \<open>Head_Tail_Buffer\<close> (\<open>core/src/unified_exec/head_tail_buffer.rs\<close>): the capped buffer is a
    function of the bytes pushed, however they are cut into chunks.
  \<^item> \<open>Truncate\<close> (\<open>utils/string/src/truncate.rs\<close>, \<open>utils/output-truncation\<close>): truncation of texts and
    output items to byte and token budgets. A result \<open>None\<close> would be a slice off a character
    boundary, a panic in Rust; it is proved not to happen.
  \<^item> \<open>Stream_Text\<close>, \<open>Hidden_Tags\<close>, \<open>Utf8_Stream\<close>, \<open>Tagged_Lines\<close>, \<open>Assistant_Text\<close> (\<open>utils/stream-parser/src\<close>): the parsers of
    streamed text. The locale \<open>stream_text_parser\<close> is the trait's contract (pushes return, and what was shown with what is pending
    means the text so far); its lemmas give independence of the cut, and it is interpreted on hidden tags, citations and plans.
    A push is an \<open>option\<close> by \<open>partial_function\<close>: \<open>None\<close> would be a loop that does not end.
  \<^item> \<open>Context_Normalize\<close>, \<open>Context_Fragments\<close>, \<open>Context_History\<close> (\<open>core/src/context_manager\<close>,
    \<open>core/src/context\<close>, \<open>core/src/event_mapping.rs\<close>): response items, pairing of calls and
    outputs, injected context, recording, removal and rollback.

  \<^bold>\<open>Isolated tasks\<close> (\<open>codex-new-core/src\<close>).
  \<^item> \<open>Task_Files\<close> (\<open>fsx.rs\<close>, the locks of \<open>recovery.rs\<close>): a disk with refusals stands for \<open>std::fs\<close>; an operation is an action
    that returns the disk and a result. \<open>evolves S\<close> says that only files of a set were written; the locale \<open>action_preorder\<close> carries such
    relations through actions, \<open>independent_rounds\<close> and \<open>successful_rounds\<close> carry what one round of a loop needs and achieves through the
    other rounds; they are interpreted on the loops of the merge and of the rollback.
  \<^item> \<open>Task_Model\<close> (\<open>models.rs\<close>, \<open>manifest.rs\<close>): the data; \<open>services\<close> are the clock, identifiers, digests and runs of git. \<open>Task_Diff\<close>
    (\<open>diff.rs\<close>): parsing of diffs and hunks merged into a file.
  \<^item> \<open>Task_Engine\<close>, \<open>Task_Index\<close> (\<open>engine.rs\<close>, \<open>traceback.rs\<close>): refreshing the changes, merge and rollback; what the comparison
    of two directories reports. The locale \<open>task_region\<close> collects what the engine writes into its own record.
  \<^item> \<open>Task_Merge\<close>, \<open>Task_Rollback\<close>, \<open>Task_Safety\<close>: a merge publishes the workspace's files and touches no others, a conflict changes
    nothing, and rolling back restores the project. The theorems say which paths can be merged together (none below another one, no two with
    the same snapshot name) and assume that project, workspace and record lie in different places.
  \<^item> \<open>Task_Copy\<close>: what a copy of a project holds, and that a copy in which nothing was done reports the ignored files as deleted.
  \<^item> \<open>Task_Records\<close> (\<open>review.rs\<close>, \<open>policy.rs\<close>, \<open>memory.rs\<close>, \<open>sessions.rs\<close>, \<open>activity.rs\<close>): reviews, summaries, the memory of a project, which
    is never overwritten, conversations and command records.
  \<^item> \<open>Task_Lifecycle\<close> (\<open>workspace.rs\<close>, \<open>git.rs\<close>, \<open>recovery.rs\<close>, \<open>engine.rs\<close>): workspaces, creation, reuse, forks and resumption of tasks; no two
    conversations come to share a task. The tools found in a project and the links to them (\<open>environment.rs\<close>) are a parameter.

  \<^bold>\<open>Conventions.\<close> Sizes are natural numbers; where the source writes saturating operations the
  bound \<open>2 ^ 64 - 1\<close> is explicit; IP addresses are words. No model uses fuel: loops are structural, have a measure, or are
  partial functions proved to return. Asynchronous calls are modelled as the sequence of their effects on an explicit world, and
  where tasks interleave, as a transition relation between the points at which they can be suspended.

  \<^bold>\<open>Not modelled.\<close> The asynchronous session loop, tool dispatch, terminal UI, app server, reading of configuration files,
  the platform sandboxes themselves, the servers of the proxy (HTTP, SOCKS5, MITM), stores and transports are I/O around the parts above.
  Of the isolated tasks, running a command, registering a project and the detection of its tools are left out, and a disk has no symbolic links.
  Windows-only code is not compiled on Unix. Floating point scaling of a truncation policy, XML and JSON
  decoding, the diff algorithm, Starlark, shlex, tree-sitter, globs, URL parsing, name resolution and certificates are parameters.

  \<^bold>\<open>Plan.\<close> Next: token estimates of \<open>history.rs\<close>, the merge of requirements (\<open>config_requirements.rs\<close>), hooks, the detection of
  environments (\<open>codex-new-core/src/environment.rs\<close>), then the crate \<open>chat-agent-core\<close>.
\<close>

section \<open>From the administrator's rule to the tool\<close>


definition forbidden_tool :: "policy \<Rightarrow> (unit, unit, unit, unit) tool_runtime" where
  "forbidden_tool p = demo_tool\<lparr>tool_requirement :=
     create_exec_approval_requirement_for_command no_env demo_tools p (demo_request [lit ''rm'', lit ''x''] None OnFailure)\<rparr>"


end
